(* ===== verification/KeyedText.thy ===== *)
theory KeyedText
  imports Prelude
begin

text \<open>
  The contract every configuration file format of the program offers its editors: entries
  are looked up by key, and storing an entry changes that key and no other. The codecs for
  \<open>package.*\<close> files, \<open>make.conf\<close>, \<open>/etc/fstab\<close> and \<open>/etc/conf.d/net\<close> are
  interpretations; what a sequence of edits does is proved here once.
\<close>

locale keyed_text =
  fixes look :: "'t \<Rightarrow> 'k \<Rightarrow> 'v option"
    and put :: "'k \<Rightarrow> 'v \<Rightarrow> 't \<Rightarrow> 't"
    and ok :: "'k \<Rightarrow> 'v \<Rightarrow> bool"
    and wf :: "'t \<Rightarrow> bool"
  assumes put_wf: "wf t \<Longrightarrow> ok k v \<Longrightarrow> wf (put k v t)"
    and look_put_same: "wf t \<Longrightarrow> ok k v \<Longrightarrow> look (put k v t) k = Some v"
    and look_put_other: "wf t \<Longrightarrow> ok k v \<Longrightarrow> k' \<noteq> k \<Longrightarrow> look (put k v t) k' = look t k'"
begin

lemma look_put: "wf t \<Longrightarrow> ok k v \<Longrightarrow> look (put k v t) = (look t)(k \<mapsto> v)"
  by (auto simp: look_put_same look_put_other)

lemma edits_wf:
  "wf t \<Longrightarrow> \<forall>(k, v) \<in> set es. ok k v \<Longrightarrow> wf (fold (\<lambda>(k, v). put k v) es t)"
  by (induction es arbitrary: t) (auto intro: put_wf)

lemma look_edits:
  "wf t \<Longrightarrow> \<forall>(k, v) \<in> set es. ok k v \<Longrightarrow>
    look (fold (\<lambda>(k, v). put k v) es t) = look t ++ map_of (rev es)"
  by (induction es arbitrary: t)
    (auto simp: look_put put_wf fun_eq_iff map_add_def split: option.splits)

lemma edits_frame:
  "wf t \<Longrightarrow> \<forall>(k, v) \<in> set es. ok k v \<Longrightarrow> k' \<notin> fst ` set es \<Longrightarrow>
    look (fold (\<lambda>(k, v). put k v) es t) k' = look t k'"
  by (simp add: look_edits map_add_dom_app_simps(3) dom_map_of_conv_image_fst)

lemma put_put:
  "wf t \<Longrightarrow> ok k v \<Longrightarrow> ok k w \<Longrightarrow> look (put k w (put k v t)) = look (put k w t)"
  by (simp add: look_put put_wf)

lemma put_commute:
  "wf t \<Longrightarrow> ok k v \<Longrightarrow> ok j w \<Longrightarrow> j \<noteq> k \<Longrightarrow> look (put j w (put k v t)) = look (put k v (put j w t))"
  by (simp add: look_put put_wf fun_upd_twist)

end

text \<open>Formats whose editor can also drop an entry.\<close>

locale keyed_text_del = keyed_text look put ok wf
  for look :: "'t \<Rightarrow> 'k \<Rightarrow> 'v option"
    and put :: "'k \<Rightarrow> 'v \<Rightarrow> 't \<Rightarrow> 't"
    and ok :: "'k \<Rightarrow> 'v \<Rightarrow> bool"
    and wf :: "'t \<Rightarrow> bool" +
  fixes del :: "'k \<Rightarrow> 't \<Rightarrow> 't"
  assumes del_wf: "wf t \<Longrightarrow> wf (del k t)"
    and look_del_same: "wf t \<Longrightarrow> look (del k t) k = None"
    and look_del_other: "wf t \<Longrightarrow> k' \<noteq> k \<Longrightarrow> look (del k t) k' = look t k'"
begin

lemma look_del: "wf t \<Longrightarrow> look (del k t) = (look t)(k := None)"
  by (auto simp: look_del_same look_del_other)

lemma del_put: "wf t \<Longrightarrow> ok k v \<Longrightarrow> look (del k (put k v t)) = look (del k t)"
  by (simp add: look_del look_put put_wf)

lemma put_del: "wf t \<Longrightarrow> ok k v \<Longrightarrow> look (put k v (del k t)) = look (put k v t)"
  by (simp add: look_del look_put del_wf)

lemma del_del: "wf t \<Longrightarrow> look (del k (del k t)) = look (del k t)"
  by (simp add: look_del del_wf)

end

end
