(* ===== verification/PyStr.thy ===== *)
theory PyStr
  imports Prelude
begin

text \<open>
  The Python \<open>str\<close> methods the modelled code calls. A \<open>string\<close> is a list of
  characters and a character stands for the code point of the same number, so the model
  covers texts whose code points are below 256 (ASCII and Latin-1); the white space, line
  boundary and digit classes are Python's, restricted to those. Wider characters occur in
  the source only inside labels shown to the user and are spelled there by their UTF-8 bytes.
\<close>

section \<open>Character classes\<close>

definition ordc :: "char \<Rightarrow> nat" where
  "ordc c = of_char c"

definition is_space :: "char \<Rightarrow> bool" where
  "is_space c = (let n = ordc c in (9 \<le> n \<and> n \<le> 13) \<or> (28 \<le> n \<and> n \<le> 32) \<or> n = 133 \<or> n = 160)"

definition is_linebreak :: "char \<Rightarrow> bool" where
  "is_linebreak c = (let n = ordc c in (10 \<le> n \<and> n \<le> 13) \<or> (28 \<le> n \<and> n \<le> 30) \<or> n = 133)"

definition dec_digit :: "char \<Rightarrow> bool" where
  "dec_digit c = (48 \<le> ordc c \<and> ordc c \<le> 57)"

text \<open>\<open>str.isdigit\<close> also accepts the superscripts one, two and three, which \<open>int\<close> refuses.\<close>

definition digit_char :: "char \<Rightarrow> bool" where
  "digit_char c = (dec_digit c \<or> ordc c = 178 \<or> ordc c = 179 \<or> ordc c = 185)"

definition lower_az :: "char \<Rightarrow> bool" where
  "lower_az c = (97 \<le> ordc c \<and> ordc c \<le> 122)"

definition upper_az :: "char \<Rightarrow> bool" where
  "upper_az c = (65 \<le> ordc c \<and> ordc c \<le> 90)"

definition alpha_az :: "char \<Rightarrow> bool" where
  "alpha_az c = (lower_az c \<or> upper_az c)"

definition alnum_az :: "char \<Rightarrow> bool" where
  "alnum_az c = (alpha_az c \<or> dec_digit c)"

lemmas char_class_defs = ordc_def is_space_def is_linebreak_def dec_digit_def digit_char_def
  lower_az_def upper_az_def alpha_az_def alnum_az_def Let_def

abbreviation LF :: char where "LF \<equiv> CHR 0x0A"
abbreviation CR :: char where "CR \<equiv> CHR 0x0D"
abbreviation NUL :: char where "NUL \<equiv> CHR 0x00"
abbreviation HASH :: char where "HASH \<equiv> CHR 0x23"
abbreviation BSLASH :: char where "BSLASH \<equiv> CHR 0x5C"
abbreviation DQUOTE :: char where "DQUOTE \<equiv> CHR 0x22"
abbreviation SQUOTE :: char where "SQUOTE \<equiv> CHR 0x27"
abbreviation BTICK :: char where "BTICK \<equiv> CHR 0x60"
abbreviation TAB :: char where "TAB \<equiv> CHR 0x09"

text \<open>The right arrow (U+2192) of the step labels, the em dash and the signs of the engine.\<close>

definition ARROW :: string where
  "ARROW = [CHR 0xE2, CHR 0x86, CHR 0x92]"

definition EMDASH :: string where
  "EMDASH = [CHR 0xE2, CHR 0x80, CHR 0x94]"

definition CHECKMARK :: string where
  "CHECKMARK = [CHR 0xE2, CHR 0x9C, CHR 0x93]"

definition WARNSIGN :: string where
  "WARNSIGN = [CHR 0xE2, CHR 0x9A, CHR 0xA0]"

lemma linebreak_space: "is_linebreak c \<Longrightarrow> is_space c"
  by (auto simp: is_linebreak_def is_space_def Let_def)

lemma space_consts [simp]:
  "is_space LF" "is_space CR" "is_space TAB" "is_space CHR '' ''" "\<not> is_space HASH"
  "\<not> is_space CHR ''=''" "\<not> is_space CHR ''[''" "\<not> is_space CHR '']''" "\<not> is_space DQUOTE"
  "\<not> is_space SQUOTE" "\<not> is_space CHR ''/''" "\<not> is_space BSLASH" "\<not> is_space CHR ''%''"
  by (simp_all add: is_space_def ordc_def)

lemma linebreak_consts [simp]:
  "is_linebreak LF" "is_linebreak CR" "\<not> is_linebreak TAB" "\<not> is_linebreak CHR '' ''"
  "\<not> is_linebreak HASH" "\<not> is_linebreak CHR ''=''" "\<not> is_linebreak CHR ''[''"
  "\<not> is_linebreak CHR '']''"
  by (simp_all add: is_linebreak_def ordc_def)

lemma nonspace_not_linebreak: "\<not> is_space c \<Longrightarrow> \<not> is_linebreak c"
  using linebreak_space by blast

lemma alnum_not_space: "alnum_az c \<Longrightarrow> \<not> is_space c"
  by (auto simp: char_class_defs)

section \<open>join, split, splitlines\<close>

fun join :: "string \<Rightarrow> string list \<Rightarrow> string" where
  "join sep [] = []"
| "join sep [x] = x"
| "join sep (x # y # xs) = x @ sep @ join sep (y # xs)"

text \<open>\<open>s.split(sep)\<close> for a one-character separator, generalised to a class of separators.\<close>

fun split_on :: "(char \<Rightarrow> bool) \<Rightarrow> string \<Rightarrow> string list" where
  "split_on P [] = [[]]"
| "split_on P (c # cs) =
     (if P c then [] # split_on P cs
      else (case split_on P cs of [] \<Rightarrow> [[c]] | l # ls \<Rightarrow> (c # l) # ls))"

definition split_char :: "char \<Rightarrow> string \<Rightarrow> string list" where
  "split_char d s = split_on (\<lambda>c. c = d) s"

text \<open>\<open>s.split()\<close>: the maximal runs of non-space characters.\<close>

definition py_split :: "string \<Rightarrow> string list" where
  "py_split s = filter (\<lambda>w. w \<noteq> []) (split_on is_space s)"

text \<open>\<open>s.splitlines()\<close>: CR LF is one boundary, and a final boundary opens no line.\<close>

fun splitlines :: "string \<Rightarrow> string list" where
  "splitlines [] = []"
| "splitlines (c # cs) =
     (if c = CR then
        (case cs of [] \<Rightarrow> [[]] | d # ds \<Rightarrow> [] # (if d = LF then splitlines ds else splitlines cs))
      else if is_linebreak c then [] # splitlines cs
      else (case splitlines cs of [] \<Rightarrow> [[c]] | l # ls \<Rightarrow> (c # l) # ls))"

text \<open>\<open>s.partition(d)\<close> for a one-character \<open>d\<close> that occurs in \<open>s\<close>: the parts around the first one.\<close>

definition before_char :: "char \<Rightarrow> string \<Rightarrow> string" where
  "before_char d s = takeWhile (\<lambda>c. c \<noteq> d) s"

definition after_char :: "char \<Rightarrow> string \<Rightarrow> string" where
  "after_char d s = drop (Suc (length (before_char d s))) s"

definition lstrip :: "string \<Rightarrow> string" where
  "lstrip s = dropWhile is_space s"

definition rstrip :: "string \<Rightarrow> string" where
  "rstrip s = rev (dropWhile is_space (rev s))"

definition strip :: "string \<Rightarrow> string" where
  "strip s = rstrip (lstrip s)"

definition rstrip_char :: "char \<Rightarrow> string \<Rightarrow> string" where
  "rstrip_char d s = rev (dropWhile (\<lambda>c. c = d) (rev s))"

definition lstrip_char :: "char \<Rightarrow> string \<Rightarrow> string" where
  "lstrip_char d s = dropWhile (\<lambda>c. c = d) s"

definition startswith :: "string \<Rightarrow> string \<Rightarrow> bool" where
  "startswith s p = prefix p s"

definition endswith :: "string \<Rightarrow> string \<Rightarrow> bool" where
  "endswith s p = suffix p s"

definition contains :: "string \<Rightarrow> string \<Rightarrow> bool" where
  "contains p s = sublist p s"

definition lower_char :: "char \<Rightarrow> char" where
  "lower_char c = (let n = ordc c in
     if (65 \<le> n \<and> n \<le> 90) \<or> (192 \<le> n \<and> n \<le> 222 \<and> n \<noteq> 215) then char_of (n + 32) else c)"

definition lower :: "string \<Rightarrow> string" where
  "lower s = map lower_char s"

text \<open>
  \<open>s.upper()\<close> on the ASCII letters only. The code compares the result with an ASCII
  constant; no Latin-1 character has an upper case with the ASCII letters compared.
\<close>

definition ascii_upper_char :: "char \<Rightarrow> char" where
  "ascii_upper_char c = (if lower_az c then char_of (ordc c - 32) else c)"

definition ascii_upper :: "string \<Rightarrow> string" where
  "ascii_upper s = map ascii_upper_char s"

definition count_char :: "char \<Rightarrow> string \<Rightarrow> nat" where
  "count_char d s = length (filter (\<lambda>c. c = d) s)"

section \<open>Numbers\<close>

fun nat_str :: "nat \<Rightarrow> string" where
  "nat_str n = (if n < 10 then [char_of (48 + n)] else nat_str (n div 10) @ [char_of (48 + n mod 10)])"

declare nat_str.simps [simp del]

definition int_str :: "int \<Rightarrow> string" where
  "int_str i = (if i < 0 then CHR ''-'' # nat_str (nat (- i)) else nat_str (nat i))"

definition digit_val :: "char \<Rightarrow> nat" where
  "digit_val c = ordc c - 48"

fun digits_val :: "nat \<Rightarrow> string \<Rightarrow> nat option" where
  "digits_val acc [] = Some acc"
| "digits_val acc (c # cs) =
     (if dec_digit c then digits_val (10 * acc + digit_val c) cs
      else if c = CHR ''_'' then
        (case cs of [] \<Rightarrow> None
         | d # ds \<Rightarrow> if dec_digit d then digits_val (10 * acc + digit_val d) ds else None)
      else None)"

definition digits_nat :: "string \<Rightarrow> nat option" where
  "digits_nat s = (case s of [] \<Rightarrow> None
     | c # cs \<Rightarrow> if dec_digit c then digits_val (digit_val c) cs else None)"

text \<open>\<open>int(s)\<close>: None for the ValueError. (Python's limit on the number of digits is not modelled.)\<close>

definition py_int :: "string \<Rightarrow> int option" where
  "py_int s =
     (case strip s of [] \<Rightarrow> None
      | c # cs \<Rightarrow>
          if c = CHR ''-'' then map_option (\<lambda>n. - int n) (digits_nat cs)
          else if c = CHR ''+'' then map_option int (digits_nat cs)
          else map_option int (digits_nat (c # cs)))"

definition py_isdigit :: "string \<Rightarrow> bool" where
  "py_isdigit s = (s \<noteq> [] \<and> list_all digit_char s)"

section \<open>repr, as the messages use it\<close>

definition hex_digit :: "nat \<Rightarrow> char" where
  "hex_digit n = (if n < 10 then char_of (48 + n) else char_of (87 + n))"

definition repr_char :: "char \<Rightarrow> char \<Rightarrow> string" where
  "repr_char q c =
     (if c = q \<or> c = BSLASH then [BSLASH, c]
      else if c = LF then [BSLASH, CHR ''n'']
      else if c = CR then [BSLASH, CHR ''r'']
      else if c = TAB then [BSLASH, CHR ''t'']
      else if ordc c < 32 \<or> (127 \<le> ordc c \<and> ordc c \<le> 160) \<or> ordc c = 173
        then [BSLASH, CHR ''x'', hex_digit (ordc c div 16), hex_digit (ordc c mod 16)]
      else [c])"

definition py_repr :: "string \<Rightarrow> string" where
  "py_repr s = (let q = (if SQUOTE \<in> set s \<and> DQUOTE \<notin> set s then DQUOTE else SQUOTE)
     in [q] @ concat (map (repr_char q) s) @ [q])"

end
