(* ===== verification/StrFacts.thy ===== *)
theory StrFacts
  imports PyStr
begin

text \<open>
  Facts about the string functions: how stripping, splitting and joining interact. The
  central notion is \<open>nblines\<close>, the stripped non-blank lines of a text, which is what
  almost every configuration parser of the program looks at.
\<close>

section \<open>Stripping\<close>

lemma strip_Nil [simp]: "strip [] = []"
  by (simp add: strip_def lstrip_def rstrip_def)

lemma strip_Cons_space [simp]: "is_space c \<Longrightarrow> strip (c # s) = strip s"
  by (simp add: strip_def lstrip_def)

lemma lstrip_snoc: "lstrip (s @ [c]) = (if lstrip s = [] then lstrip [c] else lstrip s @ [c])"
  by (simp add: lstrip_def dropWhile_snoc)

lemma strip_snoc_space [simp]: "is_space c \<Longrightarrow> strip (s @ [c]) = strip s"
  by (simp add: strip_def lstrip_snoc) (auto simp: rstrip_def lstrip_def)

lemma rstrip_eq_self: "s = [] \<or> \<not> is_space (last s) \<Longrightarrow> rstrip s = s"
  by (cases s rule: rev_cases) (auto simp: rstrip_def)

lemma strip_eq_self:
  "s = [] \<or> (\<not> is_space (hd s) \<and> \<not> is_space (last s)) \<Longrightarrow> strip s = s"
proof -
  assume a: "s = [] \<or> (\<not> is_space (hd s) \<and> \<not> is_space (last s))"
  then have "lstrip s = s"
    by (auto simp: lstrip_def intro: dropWhile_eq_self)
  with a show ?thesis by (auto simp: strip_def rstrip_eq_self)
qed

lemma strip_nospace: "list_all (\<lambda>c. \<not> is_space c) s \<Longrightarrow> strip s = s"
  by (rule strip_eq_self) (auto simp: list_all_iff)

lemma rstrip_prefix: "prefix (rstrip s) s"
  unfolding rstrip_def
  by (metis prefix_def rev_append rev_rev_ident takeWhile_dropWhile_id)

lemma strip_hd: "strip s \<noteq> [] \<Longrightarrow> \<not> is_space (hd (strip s))"
proof -
  assume ne: "strip s \<noteq> []"
  obtain z where z: "lstrip s = strip s @ z"
    using rstrip_prefix [of "lstrip s"] by (auto simp: strip_def prefix_def)
  with ne have "hd (strip s) = hd (lstrip s)" "lstrip s \<noteq> []"
    by auto
  then show ?thesis
    using hd_dropWhile [of is_space s] by (simp add: lstrip_def)
qed

lemma strip_last: "strip s \<noteq> [] \<Longrightarrow> \<not> is_space (last (strip s))"
proof -
  assume "strip s \<noteq> []"
  then have "dropWhile is_space (rev (lstrip s)) \<noteq> []"
    by (simp add: strip_def rstrip_def)
  from hd_dropWhile [OF this] this show ?thesis
    by (simp add: strip_def rstrip_def last_rev)
qed

lemma strip_strip [simp]: "strip (strip s) = strip s"
  by (rule strip_eq_self) (use strip_hd strip_last in blast)

lemma set_strip: "set (strip s) \<subseteq> set s"
  by (auto simp: strip_def rstrip_def lstrip_def dest!: set_dropWhileD)

lemma strip_empty_iff: "strip s = [] \<longleftrightarrow> list_all is_space s"
proof
  assume "strip s = []"
  then have "dropWhile is_space s = [] \<or> (\<forall>x \<in> set (dropWhile is_space s). is_space x)"
    by (auto simp: strip_def rstrip_def lstrip_def dropWhile_eq_Nil_conv)
  then show "list_all is_space s"
    by (metis dropWhile_eq_Nil_conv hd_dropWhile hd_in_set list_all_iff)
next
  assume "list_all is_space s"
  then show "strip s = []"
    by (auto simp: strip_def rstrip_def lstrip_def list_all_iff dest!: set_dropWhileD)
qed

lemma strip_decomp: "\<exists>a b. s = a @ strip s @ b \<and> list_all is_space a \<and> list_all is_space b"
proof -
  have l: "s = takeWhile is_space s @ lstrip s"
    by (simp add: lstrip_def)
  have "rev (lstrip s) = takeWhile is_space (rev (lstrip s)) @ dropWhile is_space (rev (lstrip s))"
    by simp
  then have r: "lstrip s = strip s @ rev (takeWhile is_space (rev (lstrip s)))"
    by (metis rev_append rev_rev_ident rstrip_def strip_def)
  have "s = takeWhile is_space s @ strip s @ rev (takeWhile is_space (rev (lstrip s)))"
    using l r by simp
  moreover have "list_all is_space (takeWhile is_space s)"
    and "list_all is_space (rev (takeWhile is_space (rev (lstrip s))))"
    by (auto simp: list_all_iff dest: set_takeWhileD)
  ultimately show ?thesis by blast
qed

lemma strip_append_spaces:
  "list_all is_space a \<Longrightarrow> list_all is_space b \<Longrightarrow> strip (a @ s @ b) = strip s"
proof (induction a)
  case Nil
  then show ?case
    by (induction b rule: rev_induct) (auto simp flip: append_assoc)
qed auto

section \<open>Splitting\<close>

lemma split_on_nonempty [simp]: "split_on P s \<noteq> []"
  by (cases s) (auto split: list.splits)

lemma split_on_sep: "P c \<Longrightarrow> split_on P (a @ c # b) = split_on P a @ split_on P b"
  by (induction a) (auto split: list.splits)

lemma split_on_free: "list_all (\<lambda>c. \<not> P c) s \<Longrightarrow> split_on P s = [s]"
  by (induction s) auto

lemma split_on_parts: "l \<in> set (split_on P s) \<Longrightarrow> list_all (\<lambda>c. \<not> P c) l"
  by (induction s arbitrary: l) (auto split: list.splits if_splits)

lemma split_on_subset: "l \<in> set (split_on P s) \<Longrightarrow> set l \<subseteq> set s"
proof (induction s arbitrary: l)
  case (Cons c s)
  then show ?case
    by (fastforce split: list.splits if_splits)
qed auto

lemma split_on_snoc:
  "split_on P (s @ [c]) = (if P c then split_on P s @ [[]]
     else butlast (split_on P s) @ [last (split_on P s) @ [c]])"
  by (induction s) (auto split: list.splits)

lemma join_Cons: "join sep (x # xs) = (if xs = [] then x else x @ sep @ join sep xs)"
  by (cases xs) auto

lemma split_char_join:
  "ls \<noteq> [] \<Longrightarrow> list_all (\<lambda>l. d \<notin> set l) ls \<Longrightarrow> split_char d (join [d] ls) = ls"
proof (induction "[d]" ls rule: join.induct)
  case (2 x)
  then show ?case
    by (auto simp: split_char_def list_all_iff intro!: split_on_free)
next
  case (3 x y xs)
  have "split_on (\<lambda>c. c = d) (x @ d # join [d] (y # xs)) =
      split_on (\<lambda>c. c = d) x @ split_on (\<lambda>c. c = d) (join [d] (y # xs))"
    by (simp add: split_on_sep)
  moreover have "split_on (\<lambda>c. c = d) x = [x]"
    using 3 by (intro split_on_free) (auto simp: list_all_iff)
  ultimately show ?case
    using 3 by (simp add: split_char_def)
qed simp

lemma join_split_char: "join [d] (split_char d s) = s"
proof (induction s)
  case (Cons c s)
  obtain l ls where "split_on (\<lambda>c. c = d) s = l # ls"
    by (meson neq_Nil_conv split_on_nonempty)
  with Cons show ?case
    by (auto simp: split_char_def join_Cons)
qed (simp add: split_char_def)

lemma split_char_parts: "l \<in> set (split_char d s) \<Longrightarrow> d \<notin> set l"
  using split_on_parts [of l "\<lambda>c. c = d" s] by (auto simp: split_char_def list_all_iff)

lemma join_append: "xs \<noteq> [] \<Longrightarrow> ys \<noteq> [] \<Longrightarrow> join sep (xs @ ys) = join sep xs @ sep @ join sep ys"
  by (induction sep xs rule: join.induct) (auto simp: neq_Nil_conv)

lemma list_all_join: "list_all P sep \<Longrightarrow> list_all (list_all P) ls \<Longrightarrow> list_all P (join sep ls)"
  by (induction sep ls rule: join.induct) auto

lemma py_split_sep: "is_space c \<Longrightarrow> py_split (a @ c # b) = py_split a @ py_split b"
  by (simp add: py_split_def split_on_sep)

lemma py_split_word: "w \<noteq> [] \<Longrightarrow> list_all (\<lambda>c. \<not> is_space c) w \<Longrightarrow> py_split w = [w]"
  by (simp add: py_split_def split_on_free)

lemma py_split_Nil [simp]: "py_split [] = []"
  by (simp add: py_split_def)

lemma py_split_words: "w \<in> set (py_split s) \<Longrightarrow> w \<noteq> [] \<and> list_all (\<lambda>c. \<not> is_space c) w"
  using split_on_parts by (auto simp: py_split_def)

lemma py_split_space_Cons [simp]: "is_space c \<Longrightarrow> py_split (c # s) = py_split s"
  using py_split_sep [of c "[]" s] by simp

lemma py_split_space_snoc [simp]: "is_space c \<Longrightarrow> py_split (s @ [c]) = py_split s"
  using py_split_sep [of c s "[]"] by simp

lemma py_split_spaces: "list_all is_space a \<Longrightarrow> list_all is_space b \<Longrightarrow> py_split (a @ s @ b) = py_split s"
proof (induction a)
  case Nil
  then show ?case
    by (induction b rule: rev_induct) (auto simp flip: append_assoc)
qed auto

lemma py_split_strip [simp]: "py_split (strip s) = py_split s"
  using strip_decomp [of s] py_split_spaces [of _ _ "strip s"] by metis

lemma py_split_join: "list_all (\<lambda>w. w \<noteq> [] \<and> list_all (\<lambda>c. \<not> is_space c) w) ws \<Longrightarrow>
    is_space d \<Longrightarrow> py_split (join [d] ws) = ws"
  by (induction "[d]" ws rule: join.induct) (simp_all add: py_split_word py_split_sep)

lemma py_split_empty_iff: "py_split s = [] \<longleftrightarrow> strip s = []"
proof
  assume "strip s = []"
  then show "py_split s = []"
    by (metis py_split_Nil py_split_strip)
next
  assume e: "py_split s = []"
  show "strip s = []"
    using e
  proof (induction s)
    case (Cons c s)
    show ?case
    proof (cases "is_space c")
      case False
      with Cons.prems show ?thesis
        by (auto simp: py_split_def split: list.splits)
    qed (use Cons in auto)
  qed simp
qed

section \<open>The stripped non-blank lines of a text\<close>

definition nblines :: "string \<Rightarrow> string list" where
  "nblines s = filter (\<lambda>l. l \<noteq> []) (map strip (splitlines s))"

text \<open>\<open>splitlines\<close> and splitting at every line boundary differ in blank lines only.\<close>

lemma splitlines_split_on:
  "(splitlines s = [] \<and> split_on is_linebreak s = [[]]) \<or>
   (\<exists>l ls ms. splitlines s = l # ls \<and> split_on is_linebreak s = l # ms \<and>
      filter (\<lambda>l. l \<noteq> []) ls = filter (\<lambda>l. l \<noteq> []) ms)"
proof (induction s rule: splitlines.induct)
  case (2 c cs)
  show ?case
  proof (cases "c = CR")
    case True
    show ?thesis
    proof (cases cs)
      case (Cons d ds)
      then show ?thesis
        using True 2(1,2) [OF True Cons] by (cases "d = LF") auto
    qed (simp add: True)
  next
    case False
    then show ?thesis
      using 2(3,4) [OF False] by (cases "is_linebreak c") auto
  qed
qed simp

lemma nonblank_map_strip:
  "filter (\<lambda>l. l \<noteq> []) (map strip (filter (\<lambda>l. l \<noteq> []) ls)) = filter (\<lambda>l. l \<noteq> []) (map strip ls)"
  by (induction ls) auto

lemma nblines_split_on: "nblines s = filter (\<lambda>l. l \<noteq> []) (map strip (split_on is_linebreak s))"
proof -
  have eq: "filter (\<lambda>l. l \<noteq> []) (map strip ls) = filter (\<lambda>l. l \<noteq> []) (map strip ms)"
    if "filter (\<lambda>l. l \<noteq> []) ls = filter (\<lambda>l. l \<noteq> []) ms" for ls ms
    using nonblank_map_strip [of ls] nonblank_map_strip [of ms] that by simp
  from splitlines_split_on [of s] show ?thesis
    by (auto simp: nblines_def dest: eq)
qed

lemma nblines_Nil [simp]: "nblines [] = []"
  by (simp add: nblines_def)

lemma nblines_sep: "is_linebreak c \<Longrightarrow> nblines (a @ c # b) = nblines a @ nblines b"
  by (simp add: nblines_split_on split_on_sep)

lemma nblines_space_Cons [simp]: "is_space c \<Longrightarrow> nblines (c # s) = nblines s"
  by (cases "is_linebreak c")
    (auto simp: nblines_split_on neq_Nil_conv split: list.splits)

lemma nblines_space_snoc [simp]: "is_space c \<Longrightarrow> nblines (s @ [c]) = nblines s"
proof -
  assume c: "is_space c"
  obtain ls l where "split_on is_linebreak s = ls @ [l]"
    by (metis rev_exhaust split_on_nonempty)
  with c show ?thesis
    by (auto simp: nblines_split_on split_on_snoc)
qed

lemma nblines_spaces: "list_all is_space a \<Longrightarrow> list_all is_space b \<Longrightarrow> nblines (a @ s @ b) = nblines s"
proof (induction a)
  case Nil
  then show ?case
    by (induction b rule: rev_induct) (auto simp flip: append_assoc)
qed auto

lemma nblines_strip [simp]: "nblines (strip s) = nblines s"
  using strip_decomp [of s] nblines_spaces [of _ _ "strip s"] by metis

text \<open>The idiom \<open>body = text.strip(); body + "\n" if body else ""\<close> loses no line.\<close>

lemma nblines_body: "nblines (if strip b \<noteq> [] then strip b @ [LF] else []) = nblines b"
  by (cases "strip b = []", metis nblines_Nil nblines_strip, simp)

lemma nblines_join: "is_linebreak d \<Longrightarrow> nblines (join [d] ls) = concat (map nblines ls)"
  by (induction "[d]" ls rule: join.induct) (simp_all add: nblines_sep)

lemma nblines_line: "list_all (\<lambda>c. \<not> is_linebreak c) l \<Longrightarrow>
    nblines l = (if strip l = [] then [] else [strip l])"
  by (simp add: nblines_split_on split_on_free)

lemma splitlines_parts: "l \<in> set (splitlines s) \<Longrightarrow> list_all (\<lambda>c. \<not> is_linebreak c) l"
proof (cases "l = []")
  case False
  assume l: "l \<in> set (splitlines s)"
  have "filter (\<lambda>l. l \<noteq> []) (splitlines s) = filter (\<lambda>l. l \<noteq> []) (split_on is_linebreak s)"
    using splitlines_split_on [of s] by auto
  from arg_cong [OF this, of set] l False have "l \<in> set (split_on is_linebreak s)"
    by auto
  then show ?thesis by (rule split_on_parts)
qed simp

lemma splitlines_line_LF:
  "list_all (\<lambda>c. \<not> is_linebreak c) l \<Longrightarrow> splitlines (l @ LF # s) = l # splitlines s"
proof (induction l)
  case Nil
  then show ?case by (simp split: list.splits)
next
  case (Cons c l)
  then have "c \<noteq> CR" by auto
  with Cons show ?case by simp
qed

lemma splitlines_line:
  "list_all (\<lambda>c. \<not> is_linebreak c) l \<Longrightarrow> l \<noteq> [] \<Longrightarrow> splitlines l = [l]"
proof (induction l)
  case (Cons c l)
  then have "c \<noteq> CR" by auto
  with Cons show ?case by (cases l) auto
qed simp

lemma splitlines_join_LF:
  "list_all (\<lambda>l. list_all (\<lambda>c. \<not> is_linebreak c) l) ls \<Longrightarrow> ls \<noteq> [] \<Longrightarrow>
    splitlines (join [LF] ls @ [LF]) = ls"
proof (induction "[LF]" ls rule: join.induct)
  case (2 x)
  then show ?case using splitlines_line_LF [of x "[]"] by simp
next
  case (3 x y xs)
  then show ?case by (simp add: splitlines_line_LF)
qed simp

lemma splitlines_rejoin:
  "splitlines s \<noteq> [] \<Longrightarrow> splitlines (join [LF] (splitlines s) @ [LF]) = splitlines s"
  by (rule splitlines_join_LF) (auto simp: list_all_iff dest: splitlines_parts)

lemma concat_nblines: "list_all (\<lambda>l. list_all (\<lambda>c. \<not> is_linebreak c) l) ls \<Longrightarrow>
    concat (map nblines ls) = filter (\<lambda>l. l \<noteq> []) (map strip ls)"
  by (induction ls) (auto simp: nblines_line)

lemma nblines_mem: "l \<in> set (nblines s) \<Longrightarrow>
    l \<noteq> [] \<and> strip l = l \<and> list_all (\<lambda>c. \<not> is_linebreak c) l"
proof -
  assume "l \<in> set (nblines s)"
  then obtain r where r: "r \<in> set (splitlines s)" "l = strip r" "l \<noteq> []"
    by (auto simp: nblines_def)
  then show ?thesis
    using splitlines_parts [OF r(1)] set_strip [of r] by (auto simp: list_all_iff)
qed

section \<open>Numbers printed and read\<close>

lemma nat_str_digits: "nat_str n \<noteq> [] \<and> list_all dec_digit (nat_str n)"
proof (induction n rule: nat_str.induct)
  case (1 n)
  have d: "dec_digit (char_of (48 + k))" if "k < 10" for k :: nat
    using that by (simp add: dec_digit_def ordc_def)
  show ?case
    using 1 d [of n] d [of "n mod 10"] by (subst (1 2) nat_str.simps) simp
qed

lemma digits_val_snoc:
  "list_all dec_digit s \<Longrightarrow> dec_digit c \<Longrightarrow>
     digits_val a (s @ [c]) = map_option (\<lambda>v. 10 * v + digit_val c) (digits_val a s)"
  by (induction s arbitrary: a) auto

lemma digits_val_nat_str: "digits_val 0 (nat_str n) = Some n"
proof (induction n rule: nat_str.induct)
  case (1 n)
  have v: "digit_val (char_of (48 + k)) = k" "dec_digit (char_of (48 + k))" if "k < 10" for k :: nat
    using that by (simp_all add: dec_digit_def ordc_def digit_val_def)
  show ?case
  proof (cases "n < 10")
    case True
    then show ?thesis using v [of n] by (subst nat_str.simps) simp
  next
    case False
    have "n mod 10 < 10" by simp
    then show ?thesis
      using False 1 v [of "n mod 10"] nat_str_digits [of "n div 10"]
      by (subst nat_str.simps) (simp add: digits_val_snoc)
  qed
qed

lemma digits_nat_nat_str: "digits_nat (nat_str n) = Some n"
  using digits_val_nat_str [of n] nat_str_digits [of n] by (cases "nat_str n") (auto simp: digits_nat_def)

lemma digit_not_space: "dec_digit c \<Longrightarrow> \<not> is_space c"
  by (auto simp: char_class_defs)

lemma int_str_nospace: "list_all (\<lambda>c. \<not> is_space c) (int_str i)"
  using nat_str_digits digit_not_space
  by (auto simp: int_str_def list_all_iff) (simp add: is_space_def ordc_def)

lemma int_str_chars: "c \<in> set (int_str i) \<Longrightarrow> dec_digit c \<or> c = CHR ''-''"
  using nat_str_digits by (auto simp: int_str_def list_all_iff split: if_splits)

lemma py_int_int_str: "py_int (int_str i) = Some i"
proof -
  have s: "strip (int_str i) = int_str i"
    by (rule strip_nospace [OF int_str_nospace])
  show ?thesis
  proof (cases "i < 0")
    case True
    then show ?thesis
      using s by (simp add: py_int_def int_str_def digits_nat_nat_str)
  next
    case False
    obtain c cs where n: "nat_str (nat i) = c # cs" "dec_digit c"
      using nat_str_digits [of "nat i"] by (cases "nat_str (nat i)") auto
    then have "c \<noteq> CHR ''-''" "c \<noteq> CHR ''+''"
      by (auto simp: dec_digit_def ordc_def)
    then show ?thesis
      using s False n digits_nat_nat_str [of "nat i"] by (simp add: py_int_def int_str_def)
  qed
qed

section \<open>Lines and their blank end\<close>

text \<open>The lines of a text without the blank ones at its end.\<close>

definition trim_end :: "string list \<Rightarrow> string list" where
  "trim_end ls = rev (dropWhile (\<lambda>l. l = []) (rev ls))"

definition line_ok :: "string \<Rightarrow> bool" where
  "line_ok l = list_all (\<lambda>c. \<not> is_linebreak c) l"

lemma trim_end_Nil [simp]: "trim_end [] = []"
  by (simp add: trim_end_def)

lemma trim_end_snoc: "trim_end (ls @ [l]) = (if l = [] then trim_end ls else ls @ [l])"
  by (simp add: trim_end_def)

lemma trim_end_idem [simp]: "trim_end (trim_end ls) = trim_end ls"
  by (induction ls rule: rev_induct) (auto simp: trim_end_snoc)

lemma set_trim_end: "set (trim_end ls) \<subseteq> set ls"
  by (induction ls rule: rev_induct) (auto simp: trim_end_snoc)

lemma line_ok_no_LF: "line_ok l \<Longrightarrow> LF \<notin> set l"
  by (auto simp: line_ok_def list_all_iff)

lemma rstrip_join_lines:
  "list_all line_ok ls \<Longrightarrow> rstrip_char LF (join [LF] ls) = join [LF] (trim_end ls)"
proof (induction ls rule: rev_induct)
  case (snoc l ls)
  show ?case
  proof (cases "ls = [] \<or> l \<noteq> []")
    case True
    have "last (join [LF] (ls @ [l])) = last l" if "l \<noteq> []"
      using that by (cases "ls = []") (simp_all add: join_append)
    moreover have "line_ok l"
      using snoc.prems by simp
    then have "last l \<noteq> LF" if "l \<noteq> []"
      using that last_in_set line_ok_no_LF by metis
    ultimately have "rstrip_char LF (join [LF] (ls @ [l])) = join [LF] (ls @ [l])" if "l \<noteq> []"
      using that unfolding rstrip_char_def
      by (cases "join [LF] (ls @ [l])" rule: rev_cases) auto
    with True show ?thesis
      by (auto simp: trim_end_snoc rstrip_char_def)
  next
    case False
    then show ?thesis
      using snoc by (simp add: trim_end_snoc join_append rstrip_char_def)
  qed
qed (simp add: rstrip_char_def)

lemma splitlines_lines_append:
  "list_all line_ok ls \<Longrightarrow> ls \<noteq> [] \<Longrightarrow> splitlines (join [LF] ls @ LF # t) = ls @ splitlines t"
proof (induction "[LF]" ls rule: join.induct)
  case (2 x)
  then show ?case using splitlines_line_LF [of x t] by (simp add: line_ok_def)
next
  case (3 x y xs)
  then show ?case using splitlines_line_LF [of x "join [LF] (y # xs) @ LF # t"] by (simp add: line_ok_def)
qed simp

lemma join_lines_Nil: "join [LF] (trim_end ls) = [] \<longleftrightarrow> trim_end ls = []"
proof (induction ls rule: rev_induct)
  case (snoc l ls)
  then show ?case by (cases "ls = []") (auto simp: trim_end_snoc join_append, simp add: trim_end_def split: if_splits)
qed simp

end
