(* ===== verification/Regex.thy ===== *)
theory Regex
  imports StrFacts
begin

text \<open>
  Regular expressions, matched in full by derivatives. The validators of the program are
  anchored patterns (\<open>\A ... \Z\<close>); each becomes a value of type \<open>rx\<close> that reads
  like the pattern, and \<open>fullmatch\<close> is \<open>re.match\<close> on it. The denotation
  \<open>lang\<close> shows that the matcher is right; the lemmas in \<open>rx_simps\<close> evaluate it
  on the shapes the patterns have.
\<close>

named_theorems rx_simps \<open>the matcher on the constructors of regular expressions\<close>

datatype rx = Nope | Eps | Cls "char \<Rightarrow> bool" | Seq rx rx | Alt rx rx | Star rx

fun nullable :: "rx \<Rightarrow> bool" where
  "nullable Nope = False"
| "nullable Eps = True"
| "nullable (Cls P) = False"
| "nullable (Seq r s) = (nullable r \<and> nullable s)"
| "nullable (Alt r s) = (nullable r \<or> nullable s)"
| "nullable (Star r) = True"

fun mk_seq :: "rx \<Rightarrow> rx \<Rightarrow> rx" where
  "mk_seq Nope r = Nope"
| "mk_seq Eps r = r"
| "mk_seq q r = Seq q r"

fun mk_alt :: "rx \<Rightarrow> rx \<Rightarrow> rx" where
  "mk_alt Nope r = r"
| "mk_alt q Nope = q"
| "mk_alt q r = Alt q r"

fun deriv :: "char \<Rightarrow> rx \<Rightarrow> rx" where
  "deriv c Nope = Nope"
| "deriv c Eps = Nope"
| "deriv c (Cls P) = (if P c then Eps else Nope)"
| "deriv c (Seq r s) =
     (if nullable r then mk_alt (mk_seq (deriv c r) s) (deriv c s) else mk_seq (deriv c r) s)"
| "deriv c (Alt r s) = mk_alt (deriv c r) (deriv c s)"
| "deriv c (Star r) = mk_seq (deriv c r) (Star r)"

fun fullmatch :: "rx \<Rightarrow> string \<Rightarrow> bool" where
  "fullmatch r [] = nullable r"
| "fullmatch r (c # s) = fullmatch (deriv c r) s"

section \<open>Denotation\<close>

fun lang :: "rx \<Rightarrow> string set" where
  "lang Nope = {}"
| "lang Eps = {[]}"
| "lang (Cls P) = {[c] |c. P c}"
| "lang (Seq r s) = {u @ v |u v. u \<in> lang r \<and> v \<in> lang s}"
| "lang (Alt r s) = lang r \<union> lang s"
| "lang (Star r) = {concat ws |ws. set ws \<subseteq> lang r}"

lemma nullable_lang: "nullable r \<longleftrightarrow> [] \<in> lang r"
proof (induction r)
  case (Star r)
  show ?case by (auto intro!: exI [of _ "[]"])
qed auto

lemma lang_mk_seq: "lang (mk_seq q r) = lang (Seq q r)"
  by (cases q) auto

lemma lang_mk_alt: "lang (mk_alt q r) = lang (Alt q r)"
  by (induction q r rule: mk_alt.induct) auto

lemma star_split:
  "c # s \<in> lang (Star r) \<longleftrightarrow> (\<exists>u v. s = u @ v \<and> c # u \<in> lang r \<and> v \<in> lang (Star r))"
proof
  assume "c # s \<in> lang (Star r)"
  then obtain ws where ws: "c # s = concat ws" "set ws \<subseteq> lang r"
    by auto
  then show "\<exists>u v. s = u @ v \<and> c # u \<in> lang r \<and> v \<in> lang (Star r)"
  proof (induction ws)
    case (Cons w ws)
    show ?case
    proof (cases w)
      case (Cons d u)
      with Cons.prems show ?thesis
        by (auto simp: Cons_eq_append_conv)
    qed (use Cons in auto)
  qed simp
next
  assume "\<exists>u v. s = u @ v \<and> c # u \<in> lang r \<and> v \<in> lang (Star r)"
  then obtain u ws where "s = u @ concat ws" "c # u \<in> lang r" "set ws \<subseteq> lang r"
    by auto
  then show "c # s \<in> lang (Star r)"
    by (auto intro!: exI [of _ "(c # u) # ws"])
qed

lemma lang_deriv: "s \<in> lang (deriv c r) \<longleftrightarrow> c # s \<in> lang r"
proof (induction r arbitrary: s)
  case (Seq r1 r2)
  have "c # s \<in> lang (Seq r1 r2) \<longleftrightarrow>
      (\<exists>u v. s = u @ v \<and> c # u \<in> lang r1 \<and> v \<in> lang r2) \<or> ([] \<in> lang r1 \<and> c # s \<in> lang r2)"
    by (auto simp: Cons_eq_append_conv)
  then show ?case
    by (simp add: lang_mk_seq lang_mk_alt Seq.IH nullable_lang)
next
  case (Star r)
  have "s \<in> lang (deriv c (Star r)) \<longleftrightarrow> (\<exists>u v. s = u @ v \<and> c # u \<in> lang r \<and> v \<in> lang (Star r))"
    by (simp add: lang_mk_seq Star.IH del: lang.simps(6))
  then show ?case
    using star_split [of c s r] by blast
qed (auto simp: lang_mk_alt)

theorem fullmatch_lang: "fullmatch r s \<longleftrightarrow> s \<in> lang r"
  by (induction s arbitrary: r) (simp_all add: nullable_lang lang_deriv)

declare fullmatch.simps [simp del]

section \<open>The shapes the patterns have\<close>

definition lit :: "string \<Rightarrow> rx" where
  "lit s = foldr (\<lambda>c r. Seq (Cls (\<lambda>d. d = c)) r) s Eps"

definition Plus :: "rx \<Rightarrow> rx" where
  "Plus r = Seq r (Star r)"

definition Opt :: "rx \<Rightarrow> rx" where
  "Opt r = Alt Eps r"

fun Times :: "nat \<Rightarrow> rx \<Rightarrow> rx" where
  "Times 0 r = Eps"
| "Times (Suc n) r = Seq r (Times n r)"

fun UpTo :: "nat \<Rightarrow> rx \<Rightarrow> rx" where
  "UpTo 0 r = Eps"
| "UpTo (Suc n) r = Opt (Seq r (UpTo n r))"

lemma match_Seq:
  "fullmatch (Seq q r) s \<longleftrightarrow> (\<exists>u v. s = u @ v \<and> fullmatch q u \<and> fullmatch r v)"
  by (auto simp: fullmatch_lang)

lemma match_Alt [rx_simps]: "fullmatch (Alt q r) s \<longleftrightarrow> fullmatch q s \<or> fullmatch r s"
  by (simp add: fullmatch_lang)

lemma match_Eps [rx_simps]: "fullmatch Eps s \<longleftrightarrow> s = []"
  by (simp add: fullmatch_lang)

lemma match_Cls [rx_simps]: "fullmatch (Cls P) s \<longleftrightarrow> (\<exists>c. s = [c] \<and> P c)"
  by (simp add: fullmatch_lang)

lemma match_Opt [rx_simps]: "fullmatch (Opt r) s \<longleftrightarrow> s = [] \<or> fullmatch r s"
  by (simp add: Opt_def rx_simps)

lemma match_StarCls [rx_simps]: "fullmatch (Star (Cls P)) s \<longleftrightarrow> list_all P s"
proof
  assume "fullmatch (Star (Cls P)) s"
  then obtain ws where "s = concat ws" "set ws \<subseteq> lang (Cls P)"
    by (auto simp: fullmatch_lang)
  then show "list_all P s"
    by (fastforce simp: list_all_iff)
next
  assume "list_all P s"
  then have "s = concat (map (\<lambda>c. [c]) s)" "set (map (\<lambda>c. [c]) s) \<subseteq> lang (Cls P)"
    by (auto simp: list_all_iff)
  then show "fullmatch (Star (Cls P)) s"
    unfolding fullmatch_lang lang.simps by blast
qed

lemma match_SeqCls [rx_simps]:
  "fullmatch (Seq (Cls P) r) s \<longleftrightarrow> (\<exists>c t. s = c # t \<and> P c \<and> fullmatch r t)"
proof -
  have "(\<exists>u v. s = u @ v \<and> (\<exists>c. u = [c] \<and> P c) \<and> fullmatch r v) \<longleftrightarrow>
      (\<exists>c t. s = [c] @ t \<and> P c \<and> fullmatch r t)"
    by blast
  then show ?thesis by (simp add: match_Seq match_Cls)
qed

lemma match_PlusCls [rx_simps]: "fullmatch (Plus (Cls P)) s \<longleftrightarrow> s \<noteq> [] \<and> list_all P s"
  by (cases s) (auto simp: Plus_def match_SeqCls match_StarCls)

lemma match_lit [rx_simps]: "fullmatch (lit p) s \<longleftrightarrow> s = p"
proof (induction p arbitrary: s)
  case (Cons c p)
  then show ?case
    by (auto simp: lit_def match_SeqCls)
qed (simp add: lit_def match_Eps)

lemma match_Seq_lit [rx_simps]:
  "fullmatch (Seq (lit p) r) s \<longleftrightarrow> (\<exists>t. s = p @ t \<and> fullmatch r t)"
  by (auto simp: match_Seq match_lit)

lemma match_TimesCls [rx_simps]: "fullmatch (Times n (Cls P)) s \<longleftrightarrow> length s = n \<and> list_all P s"
proof (induction n arbitrary: s)
  case (Suc n)
  then show ?case
    by (cases s) (auto simp: match_SeqCls)
qed (auto simp: match_Eps)

lemma match_UpToCls [rx_simps]: "fullmatch (UpTo n (Cls P)) s \<longleftrightarrow> length s \<le> n \<and> list_all P s"
proof (induction n arbitrary: s)
  case (Suc n)
  then show ?case
    by (cases s) (auto simp: match_SeqCls match_Opt)
qed (auto simp: match_Eps)

lemma match_Star_chars:
  assumes "\<And>w. fullmatch r w \<Longrightarrow> list_all P w" "fullmatch (Star r) s"
  shows "list_all P s"
proof -
  from assms(2) obtain ws where "s = concat ws" "set ws \<subseteq> lang r"
    by (auto simp: fullmatch_lang)
  then show ?thesis
    using assms(1) by (fastforce simp: fullmatch_lang list_all_iff)
qed

end
