(* ===== verification/Fstab.thy ===== *)
theory Fstab
  imports KeyedText Regex
begin

text \<open>
  \<open>gest/core/disk/fstab.py\<close>: the entries of \<open>/etc/fstab\<close>, their validators, the
  parser and the renderer, the two editors of one line, and the generator of a fresh file for
  an install target. The lemmas show that rendering and parsing are inverse on valid entries,
  that an edit changes the entry of its mount point and no other line, and the same as an
  interpretation of the keyed-text contract.
\<close>

section \<open>Entries and validators\<close>

record fstab_entry =
  fe_spec :: string
  fe_mountpoint :: string
  fe_fstype :: string
  fe_options :: string
  fe_dump :: int
  fe_passno :: int
  fe_protected :: bool

definition FstabEntry :: "string \<Rightarrow> string \<Rightarrow> string \<Rightarrow> string \<Rightarrow> int \<Rightarrow> int \<Rightarrow> fstab_entry" where
  "FstabEntry spec mountpoint fstype options dump passno =
     \<lparr>fe_spec = spec, fe_mountpoint = mountpoint, fe_fstype = fstype, fe_options = options,
      fe_dump = dump, fe_passno = passno, fe_protected = False\<rparr>"

definition PROTECTED_MOUNTS :: "string list" where
  "PROTECTED_MOUNTS = [''/'', ''/boot'', ''/efi'', ''/boot/efi'']"

definition mp_char :: "char \<Rightarrow> bool" where
  "mp_char c = (alnum_az c \<or> c \<in> set ''/._@+-'')"

definition spec_char :: "char \<Rightarrow> bool" where
  "spec_char c = (alnum_az c \<or> c \<in> set ''/._=:@+-'')"

definition fstype_char :: "char \<Rightarrow> bool" where
  "fstype_char c = (alnum_az c \<or> c \<in> set ''._-'')"

definition options_char :: "char \<Rightarrow> bool" where
  "options_char c = (alnum_az c \<or> c \<in> set ''._=:,+@/-'')"

definition MOUNTPOINT_RE :: rx where
  "MOUNTPOINT_RE = Seq (lit ''/'') (Star (Cls mp_char))"

definition SPEC_RE :: rx where
  "SPEC_RE = Seq (Cls (\<lambda>c. alnum_az c \<or> c = CHR ''/'')) (Star (Cls spec_char))"

definition FSTYPE_RE :: rx where
  "FSTYPE_RE = Plus (Cls fstype_char)"

definition OPTIONS_RE :: rx where
  "OPTIONS_RE = Seq (Cls alnum_az) (Star (Cls options_char))"

definition SPEC_PREFIXES :: "string list" where
  "SPEC_PREFIXES = [''UUID='', ''LABEL='', ''PARTUUID='', ''PARTLABEL='', ''ID='']"

definition is_protected :: "fstab_entry \<Rightarrow> bool" where
  "is_protected entry = (fe_mountpoint entry \<in> set PROTECTED_MOUNTS \<or> fe_fstype entry = ''swap'')"

definition valid_spec :: "string \<Rightarrow> bool" where
  "valid_spec spec =
     (if \<not> fullmatch SPEC_RE spec \<or> length spec > 255 then False
      else startswith spec ''/'' \<or> list_ex (startswith spec) SPEC_PREFIXES)"

definition valid_mountpoint :: "string \<Rightarrow> bool" where
  "valid_mountpoint mp =
     (if mp = ''none'' \<or> mp = ''swap'' then True
      else fullmatch MOUNTPOINT_RE mp \<and> length mp \<le> 255)"

definition valid_mount_target :: "string \<Rightarrow> bool" where
  "valid_mount_target mp = (startswith mp ''/'' \<and> valid_mountpoint mp)"

definition valid_fstype :: "string \<Rightarrow> bool" where
  "valid_fstype fstype = (fullmatch FSTYPE_RE fstype \<and> length fstype \<le> 64)"

definition valid_options :: "string \<Rightarrow> bool" where
  "valid_options options =
     (fullmatch OPTIONS_RE options \<and> \<not> contains '',,'' options \<and> length options \<le> 512)"

definition valid_entry :: "fstab_entry \<Rightarrow> bool" where
  "valid_entry entry =
     (valid_spec (fe_spec entry) \<and> valid_mountpoint (fe_mountpoint entry)
      \<and> valid_fstype (fe_fstype entry) \<and> valid_options (fe_options entry)
      \<and> fe_dump entry \<in> {0, 1} \<and> 0 \<le> fe_passno entry \<and> fe_passno entry \<le> 2)"

section \<open>Parsing, rendering, editing\<close>

text \<open>A stripped line that is neither blank nor a comment.\<close>

definition fstab_data :: "string \<Rightarrow> bool" where
  "fstab_data stripped = (stripped \<noteq> [] \<and> \<not> startswith stripped ''#'')"

definition mountpoint_of :: "string \<Rightarrow> string option" where
  "mountpoint_of line =
     (let stripped = strip line in
      if \<not> fstab_data stripped then None
      else (let parts = py_split stripped in if length parts \<ge> 2 then Some (parts ! 1) else None))"

text \<open>\<open>int(parts[i]) if len(parts) > i and parts[i].isdigit() else 0\<close>\<close>

definition digit_field :: "string list \<Rightarrow> nat \<Rightarrow> int res" where
  "digit_field parts i =
     (if length parts > i \<and> py_isdigit (parts ! i)
      then (case py_int (parts ! i) of
              None \<Rightarrow> Inl (ValueError (''invalid literal for int() with base 10: '' @ py_repr (parts ! i)))
            | Some n \<Rightarrow> Inr n)
      else Inr 0)"

definition entry_of_parts :: "string list \<Rightarrow> fstab_entry res" where
  "entry_of_parts parts =
     res_bind (digit_field parts 4) (\<lambda>dump.
     res_bind (digit_field parts 5) (\<lambda>passno.
       let entry = FstabEntry (parts ! 0) (parts ! 1) (parts ! 2) (parts ! 3) dump passno
       in Inr (entry\<lparr>fe_protected := is_protected entry\<rparr>)))"

fun parse_fstab_lines :: "string list \<Rightarrow> fstab_entry list res" where
  "parse_fstab_lines [] = Inr []"
| "parse_fstab_lines (line # lines) =
     (let stripped = strip line in
      if \<not> fstab_data stripped then parse_fstab_lines lines
      else (let parts = py_split stripped in
            if length parts < 4 then parse_fstab_lines lines
            else res_bind (entry_of_parts parts) (\<lambda>entry.
                 res_bind (parse_fstab_lines lines) (\<lambda>entries. Inr (entry # entries)))))"

definition parse_fstab :: "string \<Rightarrow> fstab_entry list res" where
  "parse_fstab text = parse_fstab_lines (splitlines text)"

definition render_entry :: "fstab_entry \<Rightarrow> string" where
  "render_entry entry =
     join [TAB] [fe_spec entry, fe_mountpoint entry, fe_fstype entry, fe_options entry,
       int_str (fe_dump entry) @ '' '' @ int_str (fe_passno entry)]"

definition rejoin :: "string list \<Rightarrow> string" where
  "rejoin lines = (let s = join [LF] lines in if s \<noteq> [] then s @ [LF] else s)"

text \<open>The loop that replaces the first line of the mount point, with the append after it.\<close>

fun upsert_lines :: "string \<Rightarrow> string \<Rightarrow> string list \<Rightarrow> string list" where
  "upsert_lines mp new_line [] = [new_line]"
| "upsert_lines mp new_line (line # lines) =
     (if mountpoint_of line = Some mp then new_line # lines
      else line # upsert_lines mp new_line lines)"

definition upsert_entry :: "string \<Rightarrow> fstab_entry \<Rightarrow> string" where
  "upsert_entry text entry =
     rejoin (upsert_lines (fe_mountpoint entry) (render_entry entry) (splitlines text))"

definition remove_entry :: "string \<Rightarrow> string \<Rightarrow> string" where
  "remove_entry text mountpoint =
     rejoin (filter (\<lambda>line. mountpoint_of line \<noteq> Some mountpoint) (splitlines text))"

section \<open>A fresh fstab for an install target\<close>

definition FSTAB_HEADER :: string where
  "FSTAB_HEADER =
     ''# /etc/fstab: generated by GeST'' @ [LF] @ ''#'' @ [LF] @
     ''# <fs>'' @ [TAB] @ ''<mountpoint>'' @ [TAB] @ ''<type>'' @ [TAB] @ ''<opts>'' @ [TAB]
       @ ''<dump/pass>'' @ [LF]"

definition entry_defaults :: "string \<Rightarrow> string \<Rightarrow> string \<times> int" where
  "entry_defaults mountpoint fstype =
     (if fstype = ''swap'' then (''sw'', 0)
      else if fstype = ''vfat'' then (''umask=0077'', 2)
      else if mountpoint = ''/'' then (''noatime'', 1)
      else (''defaults'', 2))"

definition gen_fstab_entry :: "string \<Rightarrow> string \<Rightarrow> string \<Rightarrow> fstab_entry" where
  "gen_fstab_entry uuid mountpoint fstype =
     (case entry_defaults mountpoint fstype of
        (options, passno) \<Rightarrow> FstabEntry (''UUID='' @ uuid) mountpoint fstype options 0 passno)"

definition render_fstab :: "fstab_entry list \<Rightarrow> string" where
  "render_fstab entries =
     (let body = join [LF] (map render_entry entries)
      in FSTAB_HEADER @ (if body \<noteq> [] then body @ [LF] else []))"

definition valid_generated_fstab :: "string \<Rightarrow> bool res" where
  "valid_generated_fstab text =
     res_bind (parse_fstab text) (\<lambda>entries. Inr (entries \<noteq> [] \<and> list_all valid_entry entries))"

section \<open>Fields are words\<close>

definition fword :: "string \<Rightarrow> bool" where
  "fword w = (w \<noteq> [] \<and> list_all (\<lambda>c. \<not> is_space c) w)"

lemma field_chars_nospace:
  "mp_char c \<Longrightarrow> \<not> is_space c" "spec_char c \<Longrightarrow> \<not> is_space c"
  "fstype_char c \<Longrightarrow> \<not> is_space c" "options_char c \<Longrightarrow> \<not> is_space c"
  by (auto simp: mp_char_def spec_char_def fstype_char_def options_char_def dest: alnum_not_space
      simp: is_space_def ordc_def)

lemma hash_not_alnum [simp]: "\<not> alnum_az HASH" "\<not> alnum_az (CHR ''/'')"
  by (simp_all add: char_class_defs)

lemma nospace_all:
  "list_all mp_char s \<Longrightarrow> list_all (\<lambda>c. \<not> is_space c) s"
  "list_all spec_char s \<Longrightarrow> list_all (\<lambda>c. \<not> is_space c) s"
  "list_all fstype_char s \<Longrightarrow> list_all (\<lambda>c. \<not> is_space c) s"
  "list_all options_char s \<Longrightarrow> list_all (\<lambda>c. \<not> is_space c) s"
  by (simp_all add: list_all_iff field_chars_nospace)

lemma valid_spec_word: "valid_spec s \<Longrightarrow> fword s \<and> hd s \<noteq> HASH"
proof -
  assume "valid_spec s"
  then obtain c t where "s = c # t" "alnum_az c \<or> c = CHR ''/''" "list_all spec_char t"
    by (auto simp: valid_spec_def SPEC_RE_def rx_simps split: if_splits)
  then show ?thesis
    using nospace_all(2) [of t] alnum_not_space [of c] by (auto simp: fword_def)
qed

lemma valid_mountpoint_word: "valid_mountpoint s \<Longrightarrow> fword s"
proof -
  assume "valid_mountpoint s"
  then consider "s = ''none''" | "s = ''swap''" | t where "s = CHR ''/'' # t" "list_all mp_char t"
    by (auto simp: valid_mountpoint_def MOUNTPOINT_RE_def rx_simps split: if_splits)
  then show ?thesis
  proof cases
    case 3
    then show ?thesis using nospace_all(1) [of t] by (simp add: fword_def)
  qed (simp_all add: fword_def is_space_def ordc_def)
qed

lemma valid_fstype_word: "valid_fstype s \<Longrightarrow> fword s"
  by (auto simp: valid_fstype_def FSTYPE_RE_def rx_simps fword_def nospace_all)

lemma valid_options_word: "valid_options s \<Longrightarrow> fword s"
  by (auto simp: valid_options_def OPTIONS_RE_def rx_simps fword_def nospace_all alnum_not_space)

lemma small_int_field:
  assumes "i \<in> {0, 1, 2 :: int}"
  shows "fword (int_str i)" "py_isdigit (int_str i)" "py_int (int_str i) = Some i"
proof -
  have "int_str 0 = ''0''" "int_str 1 = ''1''" "int_str 2 = ''2''" by code_simp+
  moreover have "fword ''0''" "fword ''1''" "fword ''2''" by code_simp+
  moreover have "py_isdigit ''0''" "py_isdigit ''1''" "py_isdigit ''2''" by code_simp+
  moreover have "py_int ''0'' = Some 0" "py_int ''1'' = Some 1" "py_int ''2'' = Some 2" by code_simp+
  ultimately show "fword (int_str i)" "py_isdigit (int_str i)" "py_int (int_str i) = Some i"
    using assms by auto
qed

section \<open>Parsing what was rendered\<close>

text \<open>An entry that the parser can return and the validator accepts.\<close>

definition stored :: "fstab_entry \<Rightarrow> bool" where
  "stored e = (valid_entry e \<and> fe_protected e = is_protected e)"

lemma stored_fields:
  assumes "stored e"
  shows "list_all fword [fe_spec e, fe_mountpoint e, fe_fstype e, fe_options e,
      int_str (fe_dump e), int_str (fe_passno e)]"
    and "hd (fe_spec e) \<noteq> HASH"
    and "digit_field [fe_spec e, fe_mountpoint e, fe_fstype e, fe_options e,
      int_str (fe_dump e), int_str (fe_passno e)] 4 = Inr (fe_dump e)"
    and "digit_field [fe_spec e, fe_mountpoint e, fe_fstype e, fe_options e,
      int_str (fe_dump e), int_str (fe_passno e)] 5 = Inr (fe_passno e)"
proof -
  have v: "valid_spec (fe_spec e)" "valid_mountpoint (fe_mountpoint e)" "valid_fstype (fe_fstype e)"
    "valid_options (fe_options e)" "fe_dump e \<in> {0, 1, 2}" "fe_passno e \<in> {0, 1, 2}"
    using assms by (auto simp: stored_def valid_entry_def)
  show "list_all fword [fe_spec e, fe_mountpoint e, fe_fstype e, fe_options e,
      int_str (fe_dump e), int_str (fe_passno e)]" "hd (fe_spec e) \<noteq> HASH"
    using valid_spec_word [OF v(1)] valid_mountpoint_word [OF v(2)] valid_fstype_word [OF v(3)]
      valid_options_word [OF v(4)] small_int_field [OF v(5)] small_int_field [OF v(6)] by simp_all
  show "digit_field [fe_spec e, fe_mountpoint e, fe_fstype e, fe_options e,
      int_str (fe_dump e), int_str (fe_passno e)] 4 = Inr (fe_dump e)"
    "digit_field [fe_spec e, fe_mountpoint e, fe_fstype e, fe_options e,
      int_str (fe_dump e), int_str (fe_passno e)] 5 = Inr (fe_passno e)"
    using small_int_field [OF v(5)] small_int_field [OF v(6)] by (simp_all add: digit_field_def)
qed

lemma render_entry_split:
  assumes "stored e"
  shows "py_split (render_entry e) = [fe_spec e, fe_mountpoint e, fe_fstype e, fe_options e,
      int_str (fe_dump e), int_str (fe_passno e)]"
proof -
  have "py_split (join [TAB] [fe_spec e, fe_mountpoint e, fe_fstype e, fe_options e] @ TAB #
      join '' '' [int_str (fe_dump e), int_str (fe_passno e)])
    = [fe_spec e, fe_mountpoint e, fe_fstype e, fe_options e] @ [int_str (fe_dump e), int_str (fe_passno e)]"
    using stored_fields(1) [OF assms]
    by (subst py_split_sep, simp, subst (1 2) py_split_join) (auto simp: fword_def)
  then show ?thesis by (simp add: render_entry_def)
qed

lemma render_entry_shape:
  assumes "stored e"
  shows "list_all (\<lambda>c. \<not> is_linebreak c) (render_entry e)"
    and "strip (render_entry e) = render_entry e"
    and "fstab_data (render_entry e)"
proof -
  note f = stored_fields(1,2) [OF assms]
  show "list_all (\<lambda>c. \<not> is_linebreak c) (render_entry e)"
    using f(1) by (auto simp: render_entry_def fword_def list_all_iff dest: nonspace_not_linebreak)
  have "render_entry e \<noteq> [] \<and> hd (render_entry e) = hd (fe_spec e)"
    using f(1) by (cases "fe_spec e") (auto simp: render_entry_def fword_def)
  moreover have "last (render_entry e) = last (int_str (fe_passno e))" "int_str (fe_passno e) \<noteq> []"
    using f(1) by (auto simp: render_entry_def fword_def)
  moreover have "\<not> is_space (hd (fe_spec e))" "\<not> is_space (last (int_str (fe_passno e)))"
    using f(1) by (auto simp: fword_def list_all_iff)
  ultimately show "strip (render_entry e) = render_entry e" "fstab_data (render_entry e)"
    using f(2) by (auto intro: strip_eq_self simp: fstab_data_def startswith_def)
      (metis list.sel(1) prefixE append_Cons)
qed

lemma entry_of_rendered: "stored e \<Longrightarrow> entry_of_parts (py_split (render_entry e)) = Inr e"
  by (simp add: render_entry_split entry_of_parts_def stored_fields(3,4) FstabEntry_def
      stored_def is_protected_def)

lemma parse_rendered_line:
  "stored e \<Longrightarrow> parse_fstab_lines (render_entry e # ls)
     = res_bind (parse_fstab_lines ls) (\<lambda>es. Inr (e # es))"
  using render_entry_shape [of e] entry_of_rendered [of e] render_entry_split [of e]
  by (simp add: Let_def)

lemma mountpoint_of_rendered: "stored e \<Longrightarrow> mountpoint_of (render_entry e) = Some (fe_mountpoint e)"
  using render_entry_shape [of e] render_entry_split [of e]
  by (simp add: mountpoint_of_def Let_def)

lemma parse_rendered_lines:
  "list_all stored es \<Longrightarrow> parse_fstab_lines (map render_entry es) = Inr es"
  by (induction es) (simp_all add: parse_rendered_line del: parse_fstab_lines.simps(2))

section \<open>The text of a list of lines\<close>

lemma splitlines_of_rejoin:
  assumes "list_all (\<lambda>l. list_all (\<lambda>c. \<not> is_linebreak c) l) ls"
  shows "splitlines (rejoin ls) = (if ls = [[]] then [] else ls)"
proof (cases "join [LF] ls = []")
  case True
  then have "ls = [] \<or> ls = [[]]"
    by (cases ls rule: remdups_adj.cases) auto
  then show ?thesis by (auto simp: rejoin_def)
next
  case False
  then have "ls \<noteq> []" "ls \<noteq> [[]]" by auto
  with False show ?thesis
    using splitlines_join_LF [OF assms] by (simp add: rejoin_def)
qed

lemma parse_fstab_rejoin:
  assumes "list_all (\<lambda>l. list_all (\<lambda>c. \<not> is_linebreak c) l) ls"
  shows "parse_fstab (rejoin ls) = parse_fstab_lines ls"
  by (simp add: parse_fstab_def splitlines_of_rejoin [OF assms] fstab_data_def)

lemma splitlines_clean: "list_all (\<lambda>l. list_all (\<lambda>c. \<not> is_linebreak c) l) (splitlines s)"
  using splitlines_parts by (auto simp: list_all_iff)

lemma upsert_lines_set: "set (upsert_lines mp new_line ls) \<subseteq> insert new_line (set ls)"
  by (induction ls) auto

lemma upsert_lines_mem: "new_line \<in> set (upsert_lines mp new_line ls)"
  by (induction ls) auto

text \<open>The lines of an edited text are the edited lines.\<close>

lemma splitlines_upsert_entry:
  assumes "stored e"
  shows "splitlines (upsert_entry text e)
    = upsert_lines (fe_mountpoint e) (render_entry e) (splitlines text)"
proof -
  let ?ls = "upsert_lines (fe_mountpoint e) (render_entry e) (splitlines text)"
  have "list_all (\<lambda>l. list_all (\<lambda>c. \<not> is_linebreak c) l) ?ls"
    using upsert_lines_set [of "fe_mountpoint e" "render_entry e" "splitlines text"]
      splitlines_clean [of "text"] render_entry_shape(1) [OF assms]
    by (auto simp: list_all_iff)
  moreover have "render_entry e \<noteq> []"
    using render_entry_shape(3) [OF assms] by (auto simp: fstab_data_def)
  then have "?ls \<noteq> [[]]"
    using upsert_lines_mem [of "render_entry e" "fe_mountpoint e" "splitlines text"] by auto
  ultimately show ?thesis
    by (simp add: upsert_entry_def splitlines_of_rejoin)
qed

lemma parse_upsert_entry:
  "stored e \<Longrightarrow> parse_fstab (upsert_entry text e)
     = parse_fstab_lines (upsert_lines (fe_mountpoint e) (render_entry e) (splitlines text))"
  by (simp add: parse_fstab_def splitlines_upsert_entry)

lemma parse_remove_entry:
  "parse_fstab (remove_entry text mp)
     = parse_fstab_lines (filter (\<lambda>l. mountpoint_of l \<noteq> Some mp) (splitlines text))"
  unfolding remove_entry_def
  by (rule parse_fstab_rejoin) (use splitlines_clean [of "text"] in \<open>auto simp: list_all_iff\<close>)

section \<open>Edits on the parsed entries\<close>

definition line_entry :: "string \<Rightarrow> fstab_entry res option" where
  "line_entry line =
     (if fstab_data (strip line) \<and> \<not> length (py_split line) < 4
      then Some (entry_of_parts (py_split line)) else None)"

lemma parse_line:
  "parse_fstab_lines (l # ls) = (case line_entry l of None \<Rightarrow> parse_fstab_lines ls
     | Some r \<Rightarrow> res_bind r (\<lambda>e. res_bind (parse_fstab_lines ls) (\<lambda>es. Inr (e # es))))"
  by (simp add: line_entry_def Let_def)

lemma line_entry_mountpoint: "line_entry l = Some (Inr e) \<Longrightarrow> mountpoint_of l = Some (fe_mountpoint e)"
  by (auto simp: line_entry_def mountpoint_of_def entry_of_parts_def Let_def FstabEntry_def
      res_simps split: if_splits)

text \<open>A line with a mount point that is not an entry has fewer than four fields.\<close>

declare parse_fstab_lines.simps(2) [simp del]
declare parse_line [simp]

fun upsert_entries :: "fstab_entry \<Rightarrow> fstab_entry list \<Rightarrow> fstab_entry list" where
  "upsert_entries e [] = [e]"
| "upsert_entries e (x # xs) =
     (if fe_mountpoint x = fe_mountpoint e then e # xs else x # upsert_entries e xs)"

lemma parse_filter_lines:
  "parse_fstab_lines ls = Inr es \<Longrightarrow>
    parse_fstab_lines (filter (\<lambda>l. mountpoint_of l \<noteq> Some mp) ls)
      = Inr (filter (\<lambda>e. fe_mountpoint e \<noteq> mp) es)"
proof (induction ls arbitrary: es)
  case (Cons l ls)
  show ?case
  proof (cases "line_entry l")
    case None
    with Cons show ?thesis by simp
  next
    case (Some r)
    then obtain e xs where "r = Inr e" "parse_fstab_lines ls = Inr xs" "es = e # xs"
      using Cons.prems by (auto simp: res_simps)
    with Some Cons.IH line_entry_mountpoint [of l e] show ?thesis by simp
  qed
qed simp

lemma find_upsert_lines:
  "parse_fstab_lines ls = Inr es \<Longrightarrow> stored e \<Longrightarrow>
    \<exists>es'. parse_fstab_lines (upsert_lines (fe_mountpoint e) (render_entry e) ls) = Inr es' \<and>
      find (\<lambda>x. fe_mountpoint x = fe_mountpoint e) es' = Some e \<and>
      filter (\<lambda>x. fe_mountpoint x \<noteq> fe_mountpoint e) es' = filter (\<lambda>x. fe_mountpoint x \<noteq> fe_mountpoint e) es"
proof (induction ls arbitrary: es)
  case Nil
  then show ?case
    using parse_rendered_lines [of "[e]"] by simp
next
  case (Cons l ls)
  obtain xs where xs: "parse_fstab_lines ls = Inr xs" and
    es: "(line_entry l = None \<and> es = xs) \<or> (\<exists>x. line_entry l = Some (Inr x) \<and> es = x # xs)"
    using Cons.prems(1) by (auto simp: res_simps split: option.splits)
  show ?case
  proof (cases "mountpoint_of l = Some (fe_mountpoint e)")
    case True
    then show ?thesis
      using xs es parse_rendered_line [OF Cons.prems(2), of ls] line_entry_mountpoint [of l]
      by (auto simp del: parse_line)
  next
    case False
    then show ?thesis
      using Cons.IH [OF xs Cons.prems(2)] es line_entry_mountpoint [of l] by auto
  qed
qed

definition fstab_at :: "string \<Rightarrow> string \<Rightarrow> fstab_entry option" where
  "fstab_at text mp =
     (case parse_fstab text of Inl _ \<Rightarrow> None | Inr es \<Rightarrow> find (\<lambda>e. fe_mountpoint e = mp) es)"

definition put_fstab :: "string \<Rightarrow> fstab_entry \<Rightarrow> string \<Rightarrow> string" where
  "put_fstab mp e text = upsert_entry text e"

definition del_fstab :: "string \<Rightarrow> string \<Rightarrow> string" where
  "del_fstab mp text = remove_entry text mp"

lemma find_filter_other:
  "k \<noteq> k' \<Longrightarrow> find (\<lambda>e. f e = k') (filter (\<lambda>e. f e \<noteq> k) es) = find (\<lambda>e. f e = k') es"
  by (induction es) auto

lemma find_filter_same: "find (\<lambda>e. f e = k) (filter (\<lambda>e. f e \<noteq> k) es) = None"
  by (simp add: find_None_iff)

interpretation fstab: keyed_text_del fstab_at put_fstab "\<lambda>mp e. stored e \<and> fe_mountpoint e = mp"
  "\<lambda>t. is_ok (parse_fstab t)" del_fstab
proof unfold_locales
  fix t k v k'
  assume "is_ok (parse_fstab t)" and v: "stored v \<and> fe_mountpoint v = k"
  then obtain es where es: "parse_fstab t = Inr es"
    by (auto simp: is_ok_iff)
  obtain es' where es': "parse_fstab (put_fstab k v t) = Inr es'"
      "find (\<lambda>x. fe_mountpoint x = k) es' = Some v"
      "filter (\<lambda>x. fe_mountpoint x \<noteq> k) es' = filter (\<lambda>x. fe_mountpoint x \<noteq> k) es"
    using find_upsert_lines [of "splitlines t" es v] es v parse_upsert_entry [of v t]
    by (auto simp: put_fstab_def parse_fstab_def [of t])
  show "is_ok (parse_fstab (put_fstab k v t))" using es' by simp
  show "fstab_at (put_fstab k v t) k = Some v" using es' by (simp add: fstab_at_def)
  assume "k' \<noteq> k"
  then show "fstab_at (put_fstab k v t) k' = fstab_at t k'"
    using es es'(1) arg_cong [OF es'(3), of "find (\<lambda>e. fe_mountpoint e = k')"]
    by (simp add: fstab_at_def find_filter_other)
next
  fix t k k'
  assume "is_ok (parse_fstab t)"
  then obtain es where es: "parse_fstab t = Inr es"
    by (auto simp: is_ok_iff)
  then have es': "parse_fstab (del_fstab k t) = Inr (filter (\<lambda>x. fe_mountpoint x \<noteq> k) es)"
    using parse_filter_lines [of "splitlines t" es k]
    by (simp add: del_fstab_def parse_remove_entry parse_fstab_def [of t])
  show "is_ok (parse_fstab (del_fstab k t))" using es' by simp
  show "fstab_at (del_fstab k t) k = None" using es' by (simp add: fstab_at_def find_filter_same)
  assume "k' \<noteq> k"
  then show "fstab_at (del_fstab k t) k' = fstab_at t k'"
    using es es' by (simp add: fstab_at_def find_filter_other)
qed

section \<open>Generated files\<close>

lemma parse_render_fstab: "parse_fstab (render_fstab es) = parse_fstab_lines (map render_entry es)"
  if "list_all stored es"
proof -
  have free: "list_all (\<lambda>l. list_all (\<lambda>c. \<not> is_linebreak c) l) (map render_entry es)"
    using that render_entry_shape(1) by (auto simp: list_all_iff)
  let ?h1 = "''# /etc/fstab: generated by GeST''" and ?h2 = "''#''"
    and ?h3 = "''# <fs>'' @ [TAB] @ ''<mountpoint>'' @ [TAB] @ ''<type>'' @ [TAB] @ ''<opts>'' @ [TAB]
       @ ''<dump/pass>''"
  have h: "FSTAB_HEADER @ s = ?h1 @ LF # (?h2 @ LF # (?h3 @ LF # s))" for s
    by (simp add: FSTAB_HEADER_def)
  have "splitlines (FSTAB_HEADER @ s) = ?h1 # ?h2 # ?h3 # splitlines s" for s
    unfolding h by (subst splitlines_line_LF, code_simp)+ rule
  moreover have "line_entry ?h1 = None" "line_entry ?h2 = None" "line_entry ?h3 = None"
    by code_simp+
  ultimately have skip: "parse_fstab (FSTAB_HEADER @ s) = parse_fstab s" for s
    by (simp only: parse_fstab_def parse_line option.case)
  have "parse_fstab (render_fstab es) = parse_fstab (rejoin (map render_entry es))"
    by (simp add: render_fstab_def rejoin_def skip Let_def)
  also have "\<dots> = parse_fstab_lines (map render_entry es)"
    by (rule parse_fstab_rejoin [OF free])
  finally show ?thesis .
qed

section \<open>Properties\<close>

text \<open>parsing a rendered fstab gives back its entries, for entries the validator accepts.\<close>

theorem fstab_roundtrip:
  assumes "list_all stored es"
  shows "parse_fstab (render_fstab es) = Inr es"
  using parse_render_fstab [OF assms] parse_rendered_lines [OF assms] by simp

definition root_entry :: fstab_entry where
  "root_entry = (FstabEntry ''UUID=0c11'' ''/'' ''ext4'' ''noatime'' 0 1)\<lparr>fe_protected := True\<rparr>"

definition home_entry :: fstab_entry where
  "home_entry = FstabEntry ''LABEL=home'' ''/home'' ''xfs'' ''defaults'' 0 2"

lemma example_entries_stored: "stored root_entry" "stored home_entry"
  by code_simp+

theorem fstab_roundtrip_witness:
  "parse_fstab (render_fstab [root_entry, home_entry]) = Inr [root_entry, home_entry]"
  by (rule fstab_roundtrip) (simp add: example_entries_stored)

text \<open>adding or replacing an entry sets the entry of its mount point and no other, and every
  line of the file but the first one of that mount point stays as it was.\<close>

theorem upsert_entry_sets_one:
  assumes "is_ok (parse_fstab text)" "stored e"
  shows "fstab_at (upsert_entry text e) = (fstab_at text)(fe_mountpoint e \<mapsto> e) \<and>
    splitlines (upsert_entry text e)
      = upsert_lines (fe_mountpoint e) (render_entry e) (splitlines text)"
  using fstab.look_put [of "text" e "fe_mountpoint e"] splitlines_upsert_entry [OF assms(2)] assms
  by (simp add: put_fstab_def)

theorem upsert_entry_sets_one_witness:
  "fstab_at (upsert_entry (''# my disks'' @ [LF] @ ''LABEL=home /home ext4 defaults'' @ [LF]) home_entry) ''/home''
    = Some home_entry"
proof -
  have "is_ok (parse_fstab (''# my disks'' @ [LF] @ ''LABEL=home /home ext4 defaults'' @ [LF]))"
    by code_simp
  from upsert_entry_sets_one [OF this example_entries_stored(2)] show ?thesis
    by (simp add: home_entry_def FstabEntry_def)
qed

text \<open>removing a mount point removes its entry, with all its lines, and no other.\<close>

theorem remove_entry_removes_one:
  assumes "is_ok (parse_fstab text)"
  shows "fstab_at (remove_entry text mp) = (fstab_at text)(mp := None)"
  using fstab.look_del [of "text" mp] assms by (simp add: del_fstab_def)

theorem remove_entry_removes_one_witness:
  "fstab_at (remove_entry (''LABEL=home /home ext4 defaults'' @ [LF] @ ''/dev/sda1 / ext4 noatime 0 1'') ''/home'') ''/home''
    = None"
proof -
  have "is_ok (parse_fstab (''LABEL=home /home ext4 defaults'' @ [LF] @ ''/dev/sda1 / ext4 noatime 0 1''))"
    by code_simp
  from remove_entry_removes_one [OF this] show ?thesis by simp
qed

text \<open>a superscript digit in the dump field makes the parser raise instead of reading 0: it passes
  \<open>isdigit\<close> but not \<open>int\<close>.\<close>

theorem parse_fstab_superscript_raises:
  "parse_fstab (''/dev/sda1 / ext4 noatime '' @ [CHR 0xB2] @ '' 1'')
    = Inl (ValueError (''invalid literal for int() with base 10: '' @ [SQUOTE, CHR 0xB2, SQUOTE]))"
  by code_simp

end
