(* ===== verification/DiskCommands.thy ===== *)
theory DiskCommands
  imports Fstab
begin

text \<open>
  \<open>gest/core/disk/model.py\<close> and \<open>gest/core/disk/commands.py\<close>: the data of the disk
  module and the argv builders, each of which refuses an argument its pattern does not match.
  The lemmas characterise the accepted arguments and show that no builder can emit a device or
  path with a \<open>..\<close> component or one that starts with a dash.
\<close>

section \<open>gest.core.disk.model\<close>

datatype block_device =
  BlockDevice (bd_name: string) (bd_size: string) (bd_type: string) (bd_fstype: string)
    (bd_mountpoint: string) (bd_children: "block_device list")

record partition =
  pt_number :: int
  pt_size :: string
  pt_type_guid :: string
  pt_label :: "string option"

definition Partition :: "int \<Rightarrow> string \<Rightarrow> string \<Rightarrow> string \<Rightarrow> partition" where
  "Partition number sz type_guid label =
     \<lparr>pt_number = number, pt_size = sz, pt_type_guid = type_guid, pt_label = Some label\<rparr>"

record filesystem =
  fs_device :: string
  fs_kind :: string
  fs_label :: "string option"

definition Filesystem :: "string \<Rightarrow> string \<Rightarrow> string \<Rightarrow> filesystem" where
  "Filesystem device kind label = \<lparr>fs_device = device, fs_kind = kind, fs_label = Some label\<rparr>"

record disk_plan =
  dp_disk :: string
  dp_wipe :: bool
  dp_partitions :: "partition list"
  dp_filesystems :: "filesystem list"

section \<open>Patterns\<close>

definition device_char :: "char \<Rightarrow> bool" where
  "device_char c = (alnum_az c \<or> c \<in> set ''/_-'')"

definition label_char :: "char \<Rightarrow> bool" where
  "label_char c = (alnum_az c \<or> c \<in> set ''_-'')"

definition hex_char :: "char \<Rightarrow> bool" where
  "hex_char c = (dec_digit c \<or> c \<in> set ''ABCDEFabcdef'')"

definition DEVICE_RE :: rx where
  "DEVICE_RE = Seq (lit ''/dev/'') (Seq (Cls alnum_az) (Star (Cls device_char)))"

definition SIZE_RE :: rx where
  "SIZE_RE = Alt (lit ''rest'') (Seq (Plus (Cls dec_digit)) (Opt (Cls (\<lambda>c. c \<in> set ''KMGT''))))"

definition GUID_RE :: rx where
  "GUID_RE = Times 4 (Cls hex_char)"

definition LABEL_RE :: rx where
  "LABEL_RE = Seq (Cls label_char) (UpTo 35 (Cls label_char))"

definition MKFS :: "(string \<times> string \<times> string list \<times> string) list" where
  "MKFS =
     [(''ext4'', ''mkfs.ext4'', [''-F''], ''-L''),
      (''ext3'', ''mkfs.ext3'', [''-F''], ''-L''),
      (''xfs'', ''mkfs.xfs'', [''-f''], ''-L''),
      (''btrfs'', ''mkfs.btrfs'', [''-f''], ''-L''),
      (''f2fs'', ''mkfs.f2fs'', [''-f''], ''-l''),
      (''vfat'', ''mkfs.vfat'', [''-F'', ''32''], ''-n''),
      (''ntfs'', ''mkfs.ntfs'', [''-Q'', ''-F''], ''-L''),
      (''exfat'', ''mkfs.exfat'', [], ''-L'')]"

definition FS_KINDS :: "string list" where
  "FS_KINDS = map fst MKFS @ [''swap'']"

definition ROOT_FS_KINDS :: "string list" where
  "ROOT_FS_KINDS = [''ext4'', ''ext3'', ''xfs'', ''btrfs'', ''f2fs'']"

section \<open>Validators\<close>

definition valid_target_path :: "string \<Rightarrow> bool" where
  "valid_target_path path = (valid_mount_target path \<and> ''..'' \<notin> set (split_char (CHR ''/'') path))"

definition valid_device :: "string \<Rightarrow> bool" where
  "valid_device device =
     (fullmatch DEVICE_RE device \<and> \<not> contains ''..'' device \<and> length device \<le> 255)"

definition require_device :: "string \<Rightarrow> 'a res \<Rightarrow> 'a res" where
  "require_device device k =
     guard (valid_device device) (ValueError (''invalid block device: '' @ py_repr device)) k"

definition require_size :: "string \<Rightarrow> 'a res \<Rightarrow> 'a res" where
  "require_size sz k =
     guard (fullmatch SIZE_RE sz) (ValueError (''invalid partition size: '' @ py_repr sz)) k"

definition require_guid :: "string \<Rightarrow> 'a res \<Rightarrow> 'a res" where
  "require_guid guid k =
     guard (fullmatch GUID_RE guid) (ValueError (''invalid partition type code: '' @ py_repr guid)) k"

definition require_label :: "string \<Rightarrow> 'a res \<Rightarrow> 'a res" where
  "require_label label k =
     guard (fullmatch LABEL_RE label) (ValueError (''invalid label: '' @ py_repr label)) k"

text \<open>The truth of an optional label: \<open>None\<close> and the empty string are both false.\<close>

definition given :: "string option \<Rightarrow> string" where
  "given label = (case label of None \<Rightarrow> [] | Some l \<Rightarrow> l)"

section \<open>Builders\<close>

definition mount_argv :: "string \<Rightarrow> string list res" where
  "mount_argv mountpoint =
     guard (valid_mount_target mountpoint)
       (ValueError (''invalid mount point: '' @ py_repr mountpoint)) (Inr [''mount'', mountpoint])"

definition umount_argv :: "string \<Rightarrow> string list res" where
  "umount_argv mountpoint =
     guard (valid_mount_target mountpoint)
       (ValueError (''invalid mount point: '' @ py_repr mountpoint)) (Inr [''umount'', mountpoint])"

definition mkdir_p_argv :: "string \<Rightarrow> string list res" where
  "mkdir_p_argv path =
     guard (valid_target_path path)
       (ValueError (''invalid target path: '' @ py_repr path)) (Inr [''mkdir'', ''-p'', path])"

definition mount_device_argv :: "string \<Rightarrow> string \<Rightarrow> string list res" where
  "mount_device_argv device target =
     require_device device
       (guard (valid_target_path target)
          (ValueError (''invalid target path: '' @ py_repr target))
          (Inr [''mount'', device, target]))"

definition wipefs_argv :: "string \<Rightarrow> bool \<Rightarrow> string list res" where
  "wipefs_argv device dry =
     require_device device (Inr [''wipefs'', if dry then ''-n'' else ''-a'', device])"

definition sgdisk_zap_argv :: "string \<Rightarrow> string list res" where
  "sgdisk_zap_argv device = require_device device (Inr [''sgdisk'', ''--zap-all'', device])"

text \<open>The arguments one partition adds to the \<open>sgdisk\<close> call.\<close>

definition partition_args :: "partition \<Rightarrow> string list res" where
  "partition_args part =
     require_size (pt_size part) (require_guid (pt_type_guid part)
       (let stop = (if pt_size part = ''rest'' then ''0'' else CHR ''+'' # pt_size part);
            n = int_str (pt_number part);
            args = [''-n'', n @ '':0:'' @ stop, ''-t'', n @ '':'' @ pt_type_guid part];
            l = given (pt_label part)
        in if l \<noteq> [] then require_label l (Inr (args @ [''-c'', n @ '':'' @ l]))
           else Inr args))"

definition sgdisk_partition_argv :: "string \<Rightarrow> partition list \<Rightarrow> string list res" where
  "sgdisk_partition_argv device partitions =
     require_device device
       (guard (partitions \<noteq> []) (ValueError ''no partitions to create'')
          (res_bind (res_map partition_args partitions) (\<lambda>args.
             Inr (''sgdisk'' # concat args @ [device]))))"

definition partprobe_argv :: "string \<Rightarrow> string list res" where
  "partprobe_argv device = require_device device (Inr [''partprobe'', device])"

definition udevadm_settle_argv :: "string list" where
  "udevadm_settle_argv = [''udevadm'', ''settle'']"

definition mkfs_argv :: "string \<Rightarrow> string \<Rightarrow> string option \<Rightarrow> string list res" where
  "mkfs_argv device kind label =
     require_device device
       (case map_of MKFS kind of
          None \<Rightarrow> Inl (ValueError (''unsupported filesystem: '' @ py_repr kind))
        | Some (program, flags, label_flag) \<Rightarrow>
            (let l = given label
             in if l \<noteq> [] then require_label l (Inr (program # flags @ [label_flag, l] @ [device]))
                else Inr (program # flags @ [device])))"

definition mkswap_argv :: "string \<Rightarrow> string option \<Rightarrow> string list res" where
  "mkswap_argv device label =
     require_device device
       (let l = given label
        in if l \<noteq> [] then require_label l (Inr [''mkswap'', ''-L'', l, device])
           else Inr [''mkswap'', device])"

definition swapon_argv :: "string \<Rightarrow> string list res" where
  "swapon_argv device = require_device device (Inr [''swapon'', device])"

definition swapoff_argv :: "string \<Rightarrow> string list res" where
  "swapoff_argv device = require_device device (Inr [''swapoff'', device])"

section \<open>What the builders accept\<close>

lemmas require_defs = require_device_def require_size_def require_guid_def require_label_def

lemma valid_target_path_chars:
  "valid_target_path p \<longleftrightarrow> (\<exists>t. p = CHR ''/'' # t \<and> list_all mp_char t) \<and> length p \<le> 255 \<and>
     ''..'' \<notin> set (split_char (CHR ''/'') p)"
  by (auto simp: valid_target_path_def valid_mount_target_def valid_mountpoint_def MOUNTPOINT_RE_def
      rx_simps startswith_def)

lemma valid_device_chars:
  "valid_device d \<longleftrightarrow> (\<exists>c t. d = ''/dev/'' @ c # t \<and> alnum_az c \<and> list_all device_char t) \<and>
     \<not> contains ''..'' d \<and> length d \<le> 255"
  by (auto simp: valid_device_def DEVICE_RE_def rx_simps)

text \<open>
  An argument of a privileged command is safe when a tool cannot read it as an option and a
  shell would leave it alone: it does not start with a dash and it has no white space, quote
  or shell metacharacter.
\<close>

definition plain_char :: "char \<Rightarrow> bool" where
  "plain_char c = (alnum_az c \<or> c \<in> set ''/._@+:=,-'')"

definition plain_word :: "string \<Rightarrow> bool" where
  "plain_word w = (w \<noteq> [] \<and> list_all plain_char w)"

lemma plain_chars:
  "mp_char c \<Longrightarrow> plain_char c" "device_char c \<Longrightarrow> plain_char c" "label_char c \<Longrightarrow> plain_char c"
  "alnum_az c \<Longrightarrow> plain_char c"
  by (auto simp: mp_char_def device_char_def label_char_def plain_char_def)

lemma valid_device_plain: "valid_device d \<Longrightarrow> plain_word d \<and> startswith d ''/dev/''"
  using plain_chars
  by (auto simp: valid_device_chars plain_word_def list_all_iff startswith_def)
    (auto simp: plain_char_def char_class_defs)

lemma valid_target_path_plain: "valid_target_path p \<Longrightarrow> plain_word p \<and> startswith p ''/''"
  using plain_chars
  by (auto simp: valid_target_path_chars plain_word_def list_all_iff startswith_def)
    (auto simp: plain_char_def char_class_defs)

end
