(* ===== verification/Exec.thy ===== *)
theory Exec
  imports StrFacts
begin

text \<open>
  The execution layer, \<open>gest/core/exec\<close>: the runner that turns a process into a
  result, the executors behind the one \<open>run\<close> interface, the choice between them, and
  the ordered pipeline \<open>run_steps\<close> that every apply function is built on. Starting a
  process is outside the program: it is the parameter \<open>spawn\<close>, and the state it acts
  on is the type variable \<open>'w\<close>. The callbacks \<open>on_progress\<close> and \<open>on_step\<close>
  are the list of events they receive (a caller that passes \<open>None\<close> drops them).
\<close>

section \<open>gest.core.exec.runner\<close>

record run_result =
  rr_code :: int
  rr_output :: string

definition RunResult :: "int \<Rightarrow> string \<Rightarrow> run_result" where
  "RunResult code output = \<lparr>rr_code = code, rr_output = output\<rparr>"

datatype event = OnStep nat | OnProgress "string list"

type_synonym 'w executor =
  "'w \<Rightarrow> string list \<Rightarrow> string option \<Rightarrow> 'w \<times> event list \<times> (py_error + run_result)"

definition EXEC_FAILED :: int where
  "EXEC_FAILED = 127"

definition EIO :: int where
  "EIO = 5"

text \<open>What \<open>create_subprocess_exec\<close> reports: an OSError, or the child's output and its exit status.\<close>

record os_failure =
  of_errno :: int
  of_strerror :: string
  of_str :: string

record child =
  ch_lines :: "string list"
  ch_returncode :: "int option"

type_synonym 'w spawn = "'w \<Rightarrow> string list \<Rightarrow> string option \<Rightarrow> 'w \<times> (os_failure + child)"

definition launch_message :: "string \<Rightarrow> os_failure \<Rightarrow> string" where
  "launch_message prog exc =
     (let why = (if of_strerror exc \<noteq> [] then of_strerror exc else of_str exc)
                @ '' (errno '' @ int_str (of_errno exc) @ '')'';
          why' = (if of_errno exc = EIO
                  then why @ '' '' @ EMDASH @ '' the install medium may be failing; verify the ISO checksum ''
                       @ ''and re-burn to another USB''
                  else why)
      in ''could not run '' @ py_repr prog @ '': '' @ why')"

definition stream :: "'w spawn \<Rightarrow> 'w executor" where
  "stream spawn w argv stdin =
     (case argv of [] \<Rightarrow> (w, [], Inl (TypeError ''missing program''))
      | prog # args \<Rightarrow>
          (case spawn w argv stdin of
             (w', Inl exc) \<Rightarrow>
               (let msg = launch_message prog exc
                in (w', [OnProgress [msg]], Inr (RunResult EXEC_FAILED msg)))
           | (w', Inr proc) \<Rightarrow>
               (let lines = map (rstrip_char LF) (ch_lines proc)
                in (w', map (\<lambda>line. OnProgress [line]) lines,
                    Inr (RunResult (case ch_returncode proc of None \<Rightarrow> 0 | Some c \<Rightarrow> c)
                       (join [LF] lines))))))"

section \<open>gest.core.exec.executor\<close>

definition direct_run :: "'w spawn \<Rightarrow> 'w executor" where
  "direct_run spawn w argv stdin = stream spawn w argv stdin"

definition dbus_run :: "'w executor" where
  "dbus_run w argv stdin =
     (w, [], Inl (NotImplementedError
        ''DBusExecutor is not yet wired; run GeST as root for the direct path''))"

record fake =
  fk_calls :: "string list list"
  fk_stdins :: "string option list"

definition fake_init :: fake where
  "fake_init = \<lparr>fk_calls = [], fk_stdins = []\<rparr>"

definition fake_run :: "(string list \<Rightarrow> int) \<Rightarrow> fake executor" where
  "fake_run code_for w argv stdin =
     (w\<lparr>fk_calls := fk_calls w @ [argv], fk_stdins := fk_stdins w @ [stdin]\<rparr>,
      [OnProgress [''$ '' @ join '' '' argv]], Inr (RunResult (code_for argv) []))"

section \<open>gest.core.exec.select\<close>

datatype chosen = ChoseDirect | ChoseDBus

definition choose_executor :: "nat \<Rightarrow> (string \<times> string) list \<Rightarrow> chosen res" where
  "choose_executor euid environ =
     (let mode = lower (strip (case map_of environ ''GEST_EXEC'' of None \<Rightarrow> [] | Some v \<Rightarrow> v))
      in if mode = ''direct'' then Inr ChoseDirect
         else if mode = ''dbus'' then Inr ChoseDBus
         else if mode \<noteq> []
           then Inl (ValueError (''GEST_EXEC must be 'direct' or 'dbus', got '' @ py_repr mode))
         else Inr (if euid = 0 then ChoseDirect else ChoseDBus))"

section \<open>gest.core.exec.steps\<close>

record step =
  st_label :: string
  st_argv :: "string list"
  st_stdin :: "string option"

definition Step :: "string \<Rightarrow> string list \<Rightarrow> step" where
  "Step label argv = \<lparr>st_label = label, st_argv = argv, st_stdin = None\<rparr>"

text \<open>What a pipeline can raise: its own StepError, or an exception passing through.\<close>

datatype pipe_error = StepError step run_result | Raised py_error

definition step_error_message :: "step \<Rightarrow> run_result \<Rightarrow> string" where
  "step_error_message s r = st_label s @ '' failed (exit '' @ int_str (rr_code r) @ '')''"

fun run_steps_from :: "'w executor \<Rightarrow> nat \<Rightarrow> step list \<Rightarrow> 'w \<Rightarrow> 'w \<times> event list \<times> pipe_error option" where
  "run_steps_from run index [] w = (w, [], None)"
| "run_steps_from run index (s # ss) w =
     (case run w (st_argv s) (st_stdin s) of
        (w', ev, Inl e) \<Rightarrow> (w', OnStep index # ev, Some (Raised e))
      | (w', ev, Inr result) \<Rightarrow>
          if rr_code result \<noteq> 0 then (w', OnStep index # ev, Some (StepError s result))
          else (case run_steps_from run (Suc index) ss w' of
                  (w'', ev', r) \<Rightarrow> (w'', OnStep index # ev @ ev', r)))"

definition run_steps :: "'w executor \<Rightarrow> step list \<Rightarrow> 'w \<Rightarrow> 'w \<times> event list \<times> (pipe_error + step list)" where
  "run_steps run steps w =
     (case run_steps_from run 0 steps w of
        (w', ev, None) \<Rightarrow> (w', ev, Inr steps)
      | (w', ev, Some e) \<Rightarrow> (w', ev, Inl e))"

definition fail :: "string \<Rightarrow> string \<Rightarrow> int \<Rightarrow> pipe_error" where
  "fail label output code = StepError (Step label []) (RunResult code output)"

lemma Step_simps [simp]: "st_label (Step l a) = l" "st_argv (Step l a) = a" "st_stdin (Step l a) = None"
  by (simp_all add: Step_def)

lemma RunResult_simps [simp]: "rr_code (RunResult c s) = c" "rr_output (RunResult c s) = s"
  by (simp_all add: RunResult_def)

section \<open>What a pipeline executes\<close>

text \<open>
  The interface of an executor that a recorder can observe: each call appends one entry to
  the log of the world, the argv in the encoding of the executor. Every client sees only
  this, so a statement about the pipeline holds on the host and inside a chroot alike.
\<close>

locale logged_executor =
  fixes run :: "'w executor"
    and log :: "'w \<Rightarrow> (string list \<times> string option) list"
    and enc :: "string list \<Rightarrow> string list"
    and inv :: "'w \<Rightarrow> bool"
  assumes log_run: "inv w \<Longrightarrow> log (fst (run w argv stdin)) = log w @ [(enc argv, stdin)]"
    and inv_run: "inv w \<Longrightarrow> inv (fst (run w argv stdin))"
begin

lemma run_steps_from_log:
  "run_steps_from run i steps w = (w', ev, r) \<Longrightarrow> inv w \<Longrightarrow>
    \<exists>done rest. steps = done @ rest \<and> inv w' \<and>
      log w' = log w @ map (\<lambda>s. (enc (st_argv s), st_stdin s)) done \<and>
      (r = None \<longrightarrow> rest = []) \<and>
      (\<forall>s res. r = Some (StepError s res) \<longrightarrow> done \<noteq> [] \<and> last done = s \<and> rr_code res \<noteq> 0)"
proof (induction steps arbitrary: i w w' ev r)
  case (Cons s ss)
  obtain w1 ev1 r1 where run: "run w (st_argv s) (st_stdin s) = (w1, ev1, r1)"
    by (cases "run w (st_argv s) (st_stdin s)") auto
  have log1: "log w1 = log w @ [(enc (st_argv s), st_stdin s)]"
    using log_run [OF Cons.prems(2), of "st_argv s" "st_stdin s"] run by simp
  have inv1: "inv w1"
    using inv_run [OF Cons.prems(2), of "st_argv s" "st_stdin s"] run by simp
  show ?case
  proof (cases "\<exists>res. r1 = Inr res \<and> rr_code res = 0")
    case False
    then show ?thesis
      using Cons.prems run log1 inv1 by (intro exI [of _ "[s]"] exI [of _ ss]) (auto split: sum.splits if_splits)
  next
    case True
    then obtain w2 ev2 where rec: "run_steps_from run (Suc i) ss w1 = (w2, ev2, r)" "w' = w2"
      using Cons.prems run by (auto split: prod.splits)
    from Cons.IH [OF rec(1) inv1] obtain "done" rest where IH: "ss = done @ rest" "inv w2"
      "log w2 = log w1 @ map (\<lambda>s. (enc (st_argv s), st_stdin s)) done"
      "r = None \<longrightarrow> rest = []"
      "\<forall>s res. r = Some (StepError s res) \<longrightarrow> done \<noteq> [] \<and> last done = s \<and> rr_code res \<noteq> 0"
      by blast
    then show ?thesis
      using log1 rec(2) by (intro exI [of _ "s # done"] exI [of _ rest]) auto
  qed
qed simp

text \<open>A pipeline that returns has run every step once, in order, and nothing else.\<close>

lemma run_steps_complete:
  "run_steps run steps w = (w', ev, Inr ss) \<Longrightarrow> inv w \<Longrightarrow>
    ss = steps \<and> log w' = log w @ map (\<lambda>s. (enc (st_argv s), st_stdin s)) steps"
  using run_steps_from_log [of 0 steps w w' ev None]
  by (auto simp: run_steps_def split: prod.splits option.splits)

lemma run_steps_stops:
  assumes "run_steps run steps w = (w', ev, Inl (StepError s res))" "inv w"
  shows "\<exists>done rest. steps = done @ s # rest \<and> rr_code res \<noteq> 0 \<and>
    log w' = log w @ map (\<lambda>s. (enc (st_argv s), st_stdin s)) (done @ [s])"
proof -
  have "run_steps_from run 0 steps w = (w', ev, Some (StepError s res))"
    using assms(1) by (auto simp: run_steps_def split: prod.splits option.splits)
  from run_steps_from_log [OF this assms(2)] obtain d rest where
    "steps = d @ rest" "log w' = log w @ map (\<lambda>s. (enc (st_argv s), st_stdin s)) d"
    "d \<noteq> []" "last d = s" "rr_code res \<noteq> 0"
    by blast
  moreover from this obtain d' where "d = d' @ [s]"
    by (cases d rule: rev_cases) auto
  ultimately show ?thesis
    by (intro exI [of _ d'] exI [of _ rest]) simp
qed

text \<open>Running through a wrapper that rewrites the argv is again such an executor.\<close>

lemma wrapped: "logged_executor (\<lambda>w argv. run w (f argv)) log (\<lambda>argv. enc (f argv)) inv"
  by unfold_locales (simp_all add: log_run inv_run)

end

definition fake_log :: "fake \<Rightarrow> (string list \<times> string option) list" where
  "fake_log w = zip (fk_calls w) (fk_stdins w)"

text \<open>The recorder's two lists stay parallel; the log pairs them.\<close>

definition fake_ok :: "fake \<Rightarrow> bool" where
  "fake_ok w = (length (fk_calls w) = length (fk_stdins w))"

interpretation recorder: logged_executor "fake_run code_for" fake_log "\<lambda>argv. argv" fake_ok
  by unfold_locales (simp_all add: fake_run_def fake_log_def fake_ok_def)

text \<open>The recorder decides every pipeline: the steps up to the first that exits non-zero.\<close>

fun attempted :: "(string list \<Rightarrow> int) \<Rightarrow> step list \<Rightarrow> step list" where
  "attempted code_for [] = []"
| "attempted code_for (s # ss) = s # (if code_for (st_argv s) = 0 then attempted code_for ss else [])"

lemma run_steps_from_fake:
  "run_steps_from (fake_run code_for) i steps w =
     (\<lparr>fk_calls = fk_calls w @ map st_argv (attempted code_for steps),
       fk_stdins = fk_stdins w @ map st_stdin (attempted code_for steps)\<rparr>,
      concat (map (\<lambda>(j, s). [OnStep j, OnProgress [''$ '' @ join '' '' (st_argv s)]])
        (enumerate i (attempted code_for steps))),
      map_option (\<lambda>s. StepError s (RunResult (code_for (st_argv s)) []))
        (find (\<lambda>s. code_for (st_argv s) \<noteq> 0) steps))"
  by (induction steps arbitrary: i w) (simp_all add: fake_run_def RunResult_def)

lemma run_steps_fake:
  "run_steps (fake_run code_for) steps w =
     (\<lparr>fk_calls = fk_calls w @ map st_argv (attempted code_for steps),
       fk_stdins = fk_stdins w @ map st_stdin (attempted code_for steps)\<rparr>,
      concat (map (\<lambda>(j, s). [OnStep j, OnProgress [''$ '' @ join '' '' (st_argv s)]])
        (enumerate 0 (attempted code_for steps))),
      (case find (\<lambda>s. code_for (st_argv s) \<noteq> 0) steps of
         None \<Rightarrow> Inr steps
       | Some s \<Rightarrow> Inl (StepError s (RunResult (code_for (st_argv s)) []))))"
  by (simp add: run_steps_def run_steps_from_fake split: option.splits)

text \<open>An unprivileged process never gets the in-process executor unless it was forced.\<close>

lemma choose_direct:
  "choose_executor euid environ = Inr ChoseDirect \<longleftrightarrow>
     (let mode = lower (strip (case map_of environ ''GEST_EXEC'' of None \<Rightarrow> [] | Some v \<Rightarrow> v))
      in mode = ''direct'' \<or> (mode = [] \<and> euid = 0))"
  by (simp add: choose_executor_def Let_def)

end
