(* ===== verification/DiskProvision.thy ===== *)
theory DiskProvision
  imports DiskCommands Exec
begin

text \<open>
  \<open>gest/core/disk/provision.py\<close>: the safety checks on a provisioning plan, the ordered
  pipeline it becomes, the UEFI and BIOS layouts with the guided proposal, and the two ways a
  plan is applied, through an executor and through the backend. The lemmas show that nothing
  runs unless every check passed, that the pipeline has the documented order, that its
  arguments are plain words, and that the proposed layouts always build.
\<close>

section \<open>Mounted devices\<close>

text \<open>
  Python returns a set. The model keeps the order of first occurrence, which matters only for
  which of several mounted partitions a message names.
\<close>

fun sources_of :: "string list \<Rightarrow> string list \<Rightarrow> string list" where
  "sources_of seen [] = seen"
| "sources_of seen (line # lines) =
     (let parts = py_split line in
      if parts \<noteq> [] \<and> startswith (parts ! 0) ''/dev/''
      then sources_of (if parts ! 0 \<in> set seen then seen else seen @ [parts ! 0]) lines
      else sources_of seen lines)"

definition mounted_sources :: "string \<Rightarrow> string list" where
  "mounted_sources proc_mounts_text = sources_of [] (splitlines proc_mounts_text)"

fun root_source_lines :: "string list \<Rightarrow> string option" where
  "root_source_lines [] = None"
| "root_source_lines (line # lines) =
     (let parts = py_split line in
      if length parts \<ge> 2 \<and> parts ! 1 = ''/'' \<and> startswith (parts ! 0) ''/dev/''
      then Some (parts ! 0) else root_source_lines lines)"

definition root_source :: "string \<Rightarrow> string option" where
  "root_source proc_mounts_text = root_source_lines (splitlines proc_mounts_text)"

fun device_names_of :: "string \<Rightarrow> block_device \<Rightarrow> string list" where
  "device_names_of pre (BlockDevice name sz ty fstype mp children) =
     (pre @ name) # concat (map (device_names_of pre) children)"

definition device_names :: "block_device list \<Rightarrow> string list" where
  "device_names devices = concat (map (device_names_of ''/dev/'') devices)"

definition touches :: "string \<Rightarrow> string \<Rightarrow> bool" where
  "touches source disk = (source = disk \<or> startswith source disk)"

section \<open>The pipeline of a plan\<close>

definition wipe_steps :: "disk_plan \<Rightarrow> step list res" where
  "wipe_steps plan =
     (if dp_wipe plan then
        res_bind (wipefs_argv (dp_disk plan) False) (\<lambda>wipe.
        res_bind (sgdisk_zap_argv (dp_disk plan)) (\<lambda>zap.
          Inr [Step (''wipe signatures on '' @ dp_disk plan) wipe,
               Step (''zap partition table on '' @ dp_disk plan) zap]))
      else Inr [])"

definition fs_step :: "filesystem \<Rightarrow> step res" where
  "fs_step fs =
     (if fs_kind fs = ''swap'' then
        res_bind (mkswap_argv (fs_device fs) (fs_label fs)) (\<lambda>argv.
          Inr (Step (''make swap on '' @ fs_device fs) argv))
      else
        res_bind (mkfs_argv (fs_device fs) (fs_kind fs) (fs_label fs)) (\<lambda>argv.
          Inr (Step (''make '' @ fs_kind fs @ '' on '' @ fs_device fs) argv)))"

definition plan_steps :: "disk_plan \<Rightarrow> step list res" where
  "plan_steps plan =
     res_bind (wipe_steps plan) (\<lambda>wipe.
     res_bind (sgdisk_partition_argv (dp_disk plan) (dp_partitions plan)) (\<lambda>part.
     res_bind (partprobe_argv (dp_disk plan)) (\<lambda>probe.
     res_bind (res_map fs_step (dp_filesystems plan)) (\<lambda>fss.
       Inr (wipe @ [Step (''create partitions on '' @ dp_disk plan) part,
                    Step ''re-read partition table'' probe,
                    Step ''settle udev'' udevadm_settle_argv] @ fss)))))"

section \<open>Safety checks\<close>

datatype disk_error =
    DiskSafetyError "string list"
  | DiskApplyError step run_result
  | DiskRaised py_error

fun err_str :: "py_error \<Rightarrow> string" where
  "err_str (ValueError m) = m"
| "err_str (KeyError m) = m"
| "err_str (OSError m) = m"
| "err_str (NotImplementedError m) = m"
| "err_str (RuntimeError m) = m"
| "err_str (TypeError m) = m"

definition guard_provision_target :: "string \<Rightarrow> string \<Rightarrow> bool \<Rightarrow> disk_error + unit" where
  "guard_provision_target device proc_mounts_text whole_disk =
     (let mounts = mounted_sources proc_mounts_text;
          root = root_source proc_mounts_text;
          problems =
            (if whole_disk then
               (case find (\<lambda>src. touches src device) mounts of
                  None \<Rightarrow> [] | Some hit \<Rightarrow> [device @ '' has a mounted partition ('' @ hit @ '')''])
               @ (if (case root of None \<Rightarrow> False | Some r \<Rightarrow> touches r device)
                  then [device @ '' backs the running system and cannot be repartitioned''] else [])
             else
               (if device \<in> set mounts then [device @ '' is mounted''] else [])
               @ (if root = Some device then [device @ '' is the running root filesystem''] else []))
      in if problems \<noteq> [] then Inl (DiskSafetyError problems) else Inr ())"

text \<open>The builders raise ValueError only; it becomes one more problem.\<close>

definition validate_plan :: "disk_plan \<Rightarrow> block_device list \<Rightarrow> string \<Rightarrow> string option \<Rightarrow> string list" where
  "validate_plan plan devices proc_mounts_text boot_source =
     (if dp_disk plan \<notin> set (device_names devices)
      then [dp_disk plan @ '' is not a present block device''] else [])
     @ (case find (\<lambda>source. touches source (dp_disk plan)) (mounted_sources proc_mounts_text) of
          None \<Rightarrow> []
        | Some source \<Rightarrow> [dp_disk plan @ '' has a mounted partition ('' @ source @ '')''])
     @ (if given boot_source \<noteq> [] \<and> touches (given boot_source) (dp_disk plan)
        then [dp_disk plan @ '' is the live/boot medium and cannot be repartitioned''] else [])
     @ (case plan_steps plan of Inl exc \<Rightarrow> [err_str exc] | Inr steps \<Rightarrow> [])"

section \<open>Layouts\<close>

definition partition_device :: "string \<Rightarrow> int \<Rightarrow> string" where
  "partition_device disk_name number =
     (let sep = (if disk_name \<noteq> [] \<and> digit_char (last disk_name) then ''p'' else [])
      in ''/dev/'' @ disk_name @ sep @ int_str number)"

text \<open>The checks both layouts start with.\<close>

definition check_root_fs :: "string \<Rightarrow> string \<Rightarrow> string option \<Rightarrow> 'a res \<Rightarrow> 'a res" where
  "check_root_fs root_fs root_size home_fs k =
     guard (root_fs \<in> set ROOT_FS_KINDS)
       (ValueError (''unsupported root filesystem: '' @ py_repr root_fs))
       (case home_fs of
          None \<Rightarrow> k
        | Some h \<Rightarrow>
            guard (h \<in> set ROOT_FS_KINDS)
              (ValueError (''unsupported /home filesystem: '' @ py_repr h))
              (guard (root_size \<noteq> ''rest'')
                 (ValueError (''a separate /home needs a fixed root size (root can't ''
                    @ ''also take the rest)'')) k))"

text \<open>
  The partitions after the first one: swap if it has a size, root, and /home if asked for,
  numbered from \<open>number\<close>; each comes with the filesystem made on it.
\<close>

definition swap_part :: "string \<Rightarrow> int \<Rightarrow> string \<Rightarrow> (partition \<times> filesystem) list" where
  "swap_part disk_name number swap_size =
     (if swap_size \<noteq> []
      then [(Partition number swap_size ''8200'' ''swap'',
             Filesystem (partition_device disk_name number) ''swap'' ''swap'')]
      else [])"

definition root_home_parts ::
    "string \<Rightarrow> int \<Rightarrow> string \<Rightarrow> string \<Rightarrow> string option \<Rightarrow> (partition \<times> filesystem) list" where
  "root_home_parts disk_name number root_fs root_size home_fs =
     (let root_span = (case home_fs of None \<Rightarrow> ''rest'' | Some h \<Rightarrow> root_size)
      in (Partition number root_span ''8300'' ''root'',
          Filesystem (partition_device disk_name number) root_fs ''root'')
         # (case home_fs of
              None \<Rightarrow> []
            | Some h \<Rightarrow> [(Partition (number + 1) ''rest'' ''8302'' ''home'',
                Filesystem (partition_device disk_name (number + 1)) h ''home'')]))"

definition tail_parts ::
    "string \<Rightarrow> int \<Rightarrow> string \<Rightarrow> string \<Rightarrow> string \<Rightarrow> string option \<Rightarrow> (partition \<times> filesystem) list" where
  "tail_parts disk_name number swap_size root_fs root_size home_fs =
     (let swap = swap_part disk_name number swap_size
      in swap @ root_home_parts disk_name (number + int (length swap)) root_fs root_size home_fs)"

definition checked_plan :: "disk_plan \<Rightarrow> disk_plan res" where
  "checked_plan plan = res_bind (plan_steps plan) (\<lambda>_. Inr plan)"

definition uefi_plan ::
    "string \<Rightarrow> string \<Rightarrow> string \<Rightarrow> string \<Rightarrow> string \<Rightarrow> string option \<Rightarrow> disk_plan res" where
  "uefi_plan disk_name esp_size swap_size root_fs root_size home_fs =
     check_root_fs root_fs root_size home_fs
       (let esp = (Partition 1 esp_size ''EF00'' ''ESP'',
                   Filesystem (partition_device disk_name 1) ''vfat'' ''ESP'');
            parts = esp # tail_parts disk_name 2 swap_size root_fs root_size home_fs
        in checked_plan \<lparr>dp_disk = ''/dev/'' @ disk_name, dp_wipe = True,
             dp_partitions = map fst parts, dp_filesystems = map snd parts\<rparr>)"

definition BIOS_BOOT_SIZE :: string where
  "BIOS_BOOT_SIZE = ''2M''"

definition bios_plan ::
    "string \<Rightarrow> string \<Rightarrow> string \<Rightarrow> string \<Rightarrow> string option \<Rightarrow> disk_plan res" where
  "bios_plan disk_name swap_size root_fs root_size home_fs =
     check_root_fs root_fs root_size home_fs
       (let parts = tail_parts disk_name 2 swap_size root_fs root_size home_fs
        in checked_plan \<lparr>dp_disk = ''/dev/'' @ disk_name, dp_wipe = True,
             dp_partitions = Partition 1 BIOS_BOOT_SIZE ''EF02'' ''BIOS'' # map fst parts,
             dp_filesystems = map snd parts\<rparr>)"

section \<open>The guided proposal\<close>

definition ESP_PROPOSAL_SIZE :: string where
  "ESP_PROPOSAL_SIZE = ''1G''"

definition GIB :: int where
  "GIB = 1024 ^ 3"

definition MIN_ROOT_GIB :: int where
  "MIN_ROOT_GIB = 15"

text \<open>
  \<open>round(n / d)\<close>, to even on a tie. The quotient of two ints is a float in Python, which
  is exact here up to 2^53 bytes; beyond that both the float and this value exceed every bound
  they are compared with.
\<close>

definition round_div :: "int \<Rightarrow> int \<Rightarrow> int" where
  "round_div n d =
     (let q = n div d; r = n mod d
      in if 2 * r < d then q else if 2 * r > d then q + 1 else if even q then q else q + 1)"

definition propose_swap_size :: "int \<Rightarrow> string" where
  "propose_swap_size ram_bytes =
     (let gib = max 1 (round_div ram_bytes GIB)
      in int_str (if gib \<le> 8 then gib else 16) @ ''G'')"

definition propose_layout ::
    "string \<Rightarrow> int \<Rightarrow> string \<Rightarrow> string \<Rightarrow> bool \<Rightarrow> string \<Rightarrow> string \<Rightarrow> disk_plan res" where
  "propose_layout disk_name ram_bytes firmware root_fs separate_home root_size home_fs =
     guard (firmware = ''uefi'' \<or> firmware = ''bios'')
       (ValueError (''invalid firmware: '' @ py_repr firmware))
       (let swap = propose_swap_size ram_bytes;
            hfs = (if separate_home then Some home_fs else None);
            rsz = (if separate_home then root_size else ''rest'')
        in if firmware = ''bios'' then bios_plan disk_name swap root_fs rsz hfs
           else uefi_plan disk_name ESP_PROPOSAL_SIZE swap root_fs rsz hfs)"

text \<open>\<open>f"{n / d:.0f}"\<close>, with the sign a float keeps when it rounds to zero.\<close>

definition fmt0 :: "int \<Rightarrow> int \<Rightarrow> string" where
  "fmt0 n d = (if n < 0 then ''-'' else []) @ int_str (round_div (abs n) d)"

definition layout_warning :: "int \<Rightarrow> int \<Rightarrow> string \<Rightarrow> string option res" where
  "layout_warning disk_bytes ram_bytes firmware =
     (case py_int (rstrip_char (CHR ''G'') (propose_swap_size ram_bytes)) of
        None \<Rightarrow> Inl (ValueError ''invalid literal for int() with base 10'')
      | Some swap_gib \<Rightarrow>
          (let overhead_gib = (if firmware \<noteq> ''bios'' then swap_gib + 1 else swap_gib);
               root_bytes = disk_bytes - overhead_gib * GIB
           in Inr (if root_bytes < MIN_ROOT_GIB * GIB
              then Some (''Only ~'' @ fmt0 root_bytes GIB @ '' GiB would be left for root after swap''
                @ (if firmware \<noteq> ''bios'' then '' + ESP'' else []) @ ''; ''
                @ int_str MIN_ROOT_GIB @ '' GiB is the recommended minimum.'')
              else None)))"

section \<open>Applying a plan\<close>

definition plan_phase_labels :: "disk_plan \<Rightarrow> string list" where
  "plan_phase_labels plan =
     (''Partition '' @ dp_disk plan) #
     map (\<lambda>fs. if fs_kind fs = ''swap'' then ''Enable swap on '' @ fs_device fs
               else ''Make '' @ fs_kind fs @ '' on '' @ fs_device fs) (dp_filesystems plan)"

fun disk_step_error :: "pipe_error \<Rightarrow> disk_error" where
  "disk_step_error (StepError s r) = DiskApplyError s r"
| "disk_step_error (Raised e) = DiskRaised e"

text \<open>
  The loop is the one of \<open>run_steps\<close> (a step here has no standard input), with its own
  exception for a step that exits non-zero.
\<close>

definition apply_plan ::
    "disk_plan \<Rightarrow> 'w executor \<Rightarrow> block_device list \<Rightarrow> string \<Rightarrow> string option \<Rightarrow> 'w
      \<Rightarrow> 'w \<times> event list \<times> (disk_error + step list)" where
  "apply_plan plan run devices proc_mounts_text boot_source w =
     (let problems = validate_plan plan devices proc_mounts_text boot_source
      in if problems \<noteq> [] then (w, [], Inl (DiskSafetyError problems))
         else (case plan_steps plan of
             Inl e \<Rightarrow> (w, [], Inl (DiskRaised e))
           | Inr steps \<Rightarrow>
               (case run_steps_from run 0 steps w of
                  (w', ev, None) \<Rightarrow> (w', ev, Inr steps)
                | (w', ev, Some e) \<Rightarrow> (w', ev, Inl (disk_step_error e)))))"

text \<open>The backend of the installed-system path; each call returns \<open>(ok, output)\<close>.\<close>

record 'w provisioner =
  pv_partition_disk ::
    "'w \<Rightarrow> string \<Rightarrow> bool \<Rightarrow> (int \<times> string \<times> string \<times> string) list \<Rightarrow> 'w \<times> bool \<times> string"
  pv_make_filesystem :: "'w \<Rightarrow> string \<Rightarrow> string \<Rightarrow> string \<Rightarrow> 'w \<times> bool \<times> string"
  pv_make_swap :: "'w \<Rightarrow> string \<Rightarrow> string \<Rightarrow> 'w \<times> bool \<times> string"

definition emit :: "string \<Rightarrow> event list" where
  "emit output = (if output \<noteq> [] then [OnProgress (splitlines output)] else [])"

definition disk_fail :: "string \<Rightarrow> string \<Rightarrow> disk_error" where
  "disk_fail label output = DiskApplyError (Step label []) (RunResult 1 output)"

fun backend_filesystems ::
    "'w provisioner \<Rightarrow> nat \<Rightarrow> filesystem list \<Rightarrow> 'w \<Rightarrow> 'w \<times> event list \<times> disk_error option" where
  "backend_filesystems backend phase [] w = (w, [], None)"
| "backend_filesystems backend phase (fs # fss) w =
     (let swap = fs_kind fs = ''swap'' in
      case (if swap then pv_make_swap backend w (fs_device fs) (given (fs_label fs))
            else pv_make_filesystem backend w (fs_device fs) (fs_kind fs) (given (fs_label fs))) of
        (w', ok, out) \<Rightarrow>
          (if \<not> ok then
             (w', OnStep phase # emit out,
              Some (disk_fail (''make '' @ (if swap then ''swap'' else fs_kind fs) @ '' on ''
                @ fs_device fs) out))
           else (case backend_filesystems backend (Suc phase) fss w' of
                   (w'', ev, r) \<Rightarrow> (w'', OnStep phase # emit out @ ev, r))))"

definition apply_via_backend ::
    "disk_plan \<Rightarrow> 'w provisioner \<Rightarrow> 'w \<Rightarrow> 'w \<times> event list \<times> disk_error option" where
  "apply_via_backend plan backend w =
     (let partitions = map (\<lambda>p. (pt_number p, pt_size p, pt_type_guid p, given (pt_label p)))
                         (dp_partitions plan)
      in case pv_partition_disk backend w (dp_disk plan) (dp_wipe plan) partitions of
           (w', ok, out) \<Rightarrow>
             (if \<not> ok then (w', OnStep 0 # emit out, Some (disk_fail (''partition '' @ dp_disk plan) out))
              else (case backend_filesystems backend 1 (dp_filesystems plan) w' of
                      (w'', ev, r) \<Rightarrow> (w'', OnStep 0 # emit out @ ev, r))))"

section \<open>When a pipeline can be built\<close>

definition part_ok :: "partition \<Rightarrow> bool" where
  "part_ok p = (fullmatch SIZE_RE (pt_size p) \<and> fullmatch GUID_RE (pt_type_guid p) \<and>
     (given (pt_label p) = [] \<or> fullmatch LABEL_RE (given (pt_label p))))"

definition fs_ok :: "filesystem \<Rightarrow> bool" where
  "fs_ok f = (valid_device (fs_device f) \<and> fs_kind f \<in> set FS_KINDS \<and>
     (given (fs_label f) = [] \<or> fullmatch LABEL_RE (given (fs_label f))))"

lemma is_ok_partition_args: "is_ok (partition_args p) \<longleftrightarrow> part_ok p"
  by (simp add: partition_args_def require_defs res_simps part_ok_def Let_def)

lemma map_of_MKFS: "map_of MKFS k \<noteq> None \<longleftrightarrow> k \<in> set (map fst MKFS)"
  by (simp add: map_of_eq_None_iff image_iff)

lemma swap_not_mkfs: "''swap'' \<notin> set (map fst MKFS)"
  by code_simp

lemma is_ok_fs_step: "is_ok (fs_step f) \<longleftrightarrow> fs_ok f"
proof (cases "fs_kind f = ''swap''")
  case True
  then show ?thesis
    by (simp add: fs_step_def mkswap_argv_def require_defs res_simps fs_ok_def FS_KINDS_def
        is_ok_iff Let_def)
next
  case False
  then show ?thesis
    using map_of_MKFS [of "fs_kind f"]
    by (cases "map_of MKFS (fs_kind f)")
      (auto simp: fs_step_def mkfs_argv_def require_defs res_simps fs_ok_def FS_KINDS_def
        is_ok_iff Let_def split: if_splits)
qed

lemma is_ok_plan_steps:
  "is_ok (plan_steps plan) \<longleftrightarrow> valid_device (dp_disk plan) \<and> dp_partitions plan \<noteq> [] \<and>
     list_all part_ok (dp_partitions plan) \<and> list_all fs_ok (dp_filesystems plan)"
proof -
  have "is_ok (wipe_steps plan) \<longleftrightarrow> dp_wipe plan \<longrightarrow> valid_device (dp_disk plan)"
    by (auto simp: wipe_steps_def wipefs_argv_def sgdisk_zap_argv_def require_defs res_simps)
  moreover have "is_ok (sgdisk_partition_argv (dp_disk plan) (dp_partitions plan)) \<longleftrightarrow>
      valid_device (dp_disk plan) \<and> dp_partitions plan \<noteq> [] \<and> list_all part_ok (dp_partitions plan)"
    using is_ok_res_map [of partition_args "dp_partitions plan"]
    by (simp add: sgdisk_partition_argv_def require_defs res_simps is_ok_partition_args
        list_all_iff) (auto simp: is_ok_iff)
  moreover have "is_ok (res_map fs_step (dp_filesystems plan)) \<longleftrightarrow> list_all fs_ok (dp_filesystems plan)"
    by (simp add: is_ok_res_map is_ok_fs_step list_all_iff)
  ultimately show ?thesis
    by (auto simp: plan_steps_def res_simps partprobe_argv_def require_defs is_ok_iff)
qed

section \<open>The order and the arguments of the pipeline\<close>

definition partition_words :: "partition \<Rightarrow> string list" where
  "partition_words p =
     (let n = int_str (pt_number p)
      in [''-n'', n @ '':0:'' @ (if pt_size p = ''rest'' then ''0'' else ''+'' @ pt_size p),
          ''-t'', n @ '':'' @ pt_type_guid p]
         @ (if given (pt_label p) = [] then [] else [''-c'', n @ '':'' @ given (pt_label p)]))"

definition fs_words :: "filesystem \<Rightarrow> string list" where
  "fs_words f =
     (let l = given (fs_label f) in
      if fs_kind f = ''swap'' then ''mkswap'' # (if l = [] then [] else [''-L'', l]) @ [fs_device f]
      else (case map_of MKFS (fs_kind f) of
              Some (program, flags, label_flag) \<Rightarrow>
                program # flags @ (if l = [] then [] else [label_flag, l]) @ [fs_device f]
            | None \<Rightarrow> []))"

lemma partition_args_Inr: "partition_args p = Inr args \<longleftrightarrow> part_ok p \<and> args = partition_words p"
  by (auto simp: partition_args_def require_defs res_simps part_ok_def partition_words_def Let_def)

lemma fs_step_argv: "fs_step f = Inr s \<Longrightarrow> st_argv s = fs_words f \<and> st_stdin s = None"
  by (auto simp: fs_step_def mkswap_argv_def mkfs_argv_def require_defs res_simps fs_words_def Let_def
      split: option.splits if_splits)

lemma res_map_argvs:
  "res_map fs_step fss = Inr steps \<Longrightarrow> map st_argv steps = map fs_words fss"
  by (induction fss arbitrary: steps) (auto split: sum.splits simp: fs_step_argv)

lemma res_map_partition_args:
  "res_map partition_args ps = Inr args \<Longrightarrow> args = map partition_words ps \<and> list_all part_ok ps"
  by (induction ps arbitrary: args) (auto split: sum.splits simp: partition_args_Inr)

lemma plan_argvs:
  "plan_steps plan = Inr steps \<Longrightarrow> map st_argv steps =
     (if dp_wipe plan then [[''wipefs'', ''-a'', dp_disk plan], [''sgdisk'', ''--zap-all'', dp_disk plan]]
      else [])
     @ [''sgdisk'' # concat (map partition_words (dp_partitions plan)) @ [dp_disk plan],
        [''partprobe'', dp_disk plan], [''udevadm'', ''settle'']]
     @ map fs_words (dp_filesystems plan)"
  by (auto simp: plan_steps_def wipe_steps_def wipefs_argv_def sgdisk_zap_argv_def
      sgdisk_partition_argv_def partprobe_argv_def udevadm_settle_argv_def require_defs res_simps
      res_map_argvs split: if_splits dest!: res_map_partition_args)

lemma digit_plain: "dec_digit c \<Longrightarrow> plain_char c"
  by (simp add: plain_char_def alnum_az_def)

lemma int_str_plain: "list_all plain_char (int_str i)"
  using nat_str_digits digit_plain by (auto simp: int_str_def list_all_iff plain_char_def)

lemma size_plain: "fullmatch SIZE_RE sz \<Longrightarrow> list_all plain_char sz"
proof -
  assume m: "fullmatch SIZE_RE sz"
  then consider "sz = ''rest''" | u v where "sz = u @ v" "list_all dec_digit u"
      "v = [] \<or> (\<exists>c. v = [c] \<and> c \<in> set ''KMGT'')"
    by (auto simp: SIZE_RE_def match_Alt match_Seq match_lit match_PlusCls match_Opt match_Cls)
  then show ?thesis
  proof cases
    case 1
    then show ?thesis by (simp add: plain_char_def char_class_defs)
  next
    case 2
    then show ?thesis
      by (auto simp: list_all_iff digit_plain) (auto simp: plain_char_def char_class_defs)
  qed
qed

lemma guid_plain: "fullmatch GUID_RE g \<Longrightarrow> list_all plain_char g"
proof -
  have "hex_char c \<Longrightarrow> plain_char c" for c
    by (auto simp: hex_char_def digit_plain) (auto simp: plain_char_def char_class_defs)
  then show "fullmatch GUID_RE g \<Longrightarrow> list_all plain_char g"
    by (simp add: GUID_RE_def rx_simps list_all_iff)
qed

lemma label_plain: "fullmatch LABEL_RE l \<Longrightarrow> plain_word l"
  by (auto simp: LABEL_RE_def rx_simps plain_word_def list_all_iff plain_chars)

lemma partition_words_plain:
  assumes "part_ok p"
  shows "list_all plain_word (partition_words p)"
proof -
  have "plain_word ''-n''" "plain_word ''-t''" "plain_word ''-c''" "plain_char (CHR '':'')"
    "plain_char (CHR ''0'')" "plain_char (CHR ''+'')"
    by code_simp+
  then show ?thesis
    using assms int_str_plain [of "pt_number p"] size_plain [of "pt_size p"]
      guid_plain [of "pt_type_guid p"] label_plain [of "given (pt_label p)"]
    by (auto simp: partition_words_def part_ok_def Let_def plain_word_def)
qed

lemma MKFS_plain: "map_of MKFS k = Some (program, flags, label_flag) \<Longrightarrow>
    list_all plain_word (program # label_flag # flags)"
proof -
  have "list_all (\<lambda>(k, program, flags, label_flag). list_all plain_word (program # label_flag # flags)) MKFS"
    by code_simp
  then show "map_of MKFS k = Some (program, flags, label_flag) \<Longrightarrow>
      list_all plain_word (program # label_flag # flags)"
    by (fastforce dest!: map_of_SomeD simp: list_all_iff)
qed

lemma fs_words_plain: "fs_ok f \<Longrightarrow> list_all plain_word (fs_words f)"
proof -
  assume f: "fs_ok f"
  have "plain_word ''mkswap''" "plain_word ''-L''" by code_simp+
  then show ?thesis
    using f valid_device_plain [of "fs_device f"] label_plain [of "given (fs_label f)"] MKFS_plain
    by (auto simp: fs_words_def fs_ok_def Let_def split: option.splits)
qed

lemma plan_argvs_plain:
  assumes "plan_steps plan = Inr steps"
  shows "list_all (\<lambda>s. list_all plain_word (st_argv s)) steps"
proof -
  have ok: "valid_device (dp_disk plan)" "list_all part_ok (dp_partitions plan)"
    "list_all fs_ok (dp_filesystems plan)"
    using assms is_ok_plan_steps [of plan] by simp_all
  have c: "plain_word ''wipefs''" "plain_word ''-a''" "plain_word ''sgdisk''" "plain_word ''--zap-all''"
    "plain_word ''partprobe''" "plain_word ''udevadm''" "plain_word ''settle''"
    by code_simp+
  have "list_all (list_all plain_word) (map st_argv steps)"
    unfolding plan_argvs [OF assms]
    using ok valid_device_plain [of "dp_disk plan"] partition_words_plain fs_words_plain
    by (auto simp: c list_all_iff)
  then show ?thesis by (simp add: list_all_iff)
qed

section \<open>The layouts build\<close>

definition disk_name_ok :: "string \<Rightarrow> bool" where
  "disk_name_ok name =
     (name \<noteq> [] \<and> alnum_az (hd name) \<and> list_all device_char name \<and> length name \<le> 200)"

lemma device_chars_no_dots: "list_all device_char s \<Longrightarrow> \<not> contains ''..'' s"
proof -
  have "\<not> device_char (CHR ''.'')" by code_simp
  then show "list_all device_char s \<Longrightarrow> \<not> contains ''..'' s"
    by (auto simp: contains_def sublist_def list_all_iff)
qed

lemma disk_device_valid:
  assumes "disk_name_ok name" "list_all device_char s" "length s \<le> 50"
  shows "valid_device (''/dev/'' @ name @ s)"
proof -
  have "list_all device_char ''/dev/''" by code_simp
  then have "list_all device_char (''/dev/'' @ name @ s)"
    using assms by (simp add: disk_name_ok_def)
  from device_chars_no_dots [OF this] show ?thesis
    using assms by (cases name) (auto simp: valid_device_chars disk_name_ok_def)
qed

lemma partition_device_valid:
  assumes "disk_name_ok name" "n \<in> {1, 2, 3, 4}"
  shows "valid_device (partition_device name n)"
proof -
  have "list_all (\<lambda>n. list_all device_char (int_str n) \<and> length (int_str n) = 1) [1, 2, 3, 4]"
    "device_char (CHR ''p'')"
    by code_simp+
  then show ?thesis
    using assms disk_device_valid [OF assms(1), of "''p'' @ int_str n"]
      disk_device_valid [OF assms(1), of "int_str n"]
    by (auto simp: partition_device_def Let_def)
qed

lemma propose_swap_cases:
  "propose_swap_size ram \<in> set [''1G'', ''2G'', ''3G'', ''4G'', ''5G'', ''6G'', ''7G'', ''8G'', ''16G'']"
proof -
  define g where "g = (let gib = max 1 (round_div ram GIB) in if gib \<le> 8 then gib else 16)"
  have "g \<in> {1, 2, 3, 4, 5, 6, 7, 8, 16}"
    by (auto simp: g_def Let_def)
  moreover have "map (\<lambda>g. int_str g @ ''G'') [1, 2, 3, 4, 5, 6, 7, 8, 16]
      = [''1G'', ''2G'', ''3G'', ''4G'', ''5G'', ''6G'', ''7G'', ''8G'', ''16G'']"
    by code_simp
  moreover have "propose_swap_size ram = int_str g @ ''G''"
    by (simp add: propose_swap_size_def g_def Let_def)
  ultimately show ?thesis by auto
qed

lemma swap_size_ok: "fullmatch SIZE_RE (propose_swap_size ram)" "propose_swap_size ram \<noteq> ''rest''"
    "propose_swap_size ram \<noteq> []"
proof -
  have "list_all (\<lambda>s. fullmatch SIZE_RE s \<and> s \<noteq> ''rest'' \<and> s \<noteq> [])
      [''1G'', ''2G'', ''3G'', ''4G'', ''5G'', ''6G'', ''7G'', ''8G'', ''16G'']"
    by code_simp
  then show "fullmatch SIZE_RE (propose_swap_size ram)" "propose_swap_size ram \<noteq> ''rest''"
    "propose_swap_size ram \<noteq> []"
    using propose_swap_cases [of ram] unfolding list_all_iff by blast+
qed

lemma part_ok_Partition [simp]:
  "part_ok (Partition n sz g l) \<longleftrightarrow> fullmatch SIZE_RE sz \<and> fullmatch GUID_RE g \<and> (l = [] \<or> fullmatch LABEL_RE l)"
  by (simp add: part_ok_def Partition_def given_def)

lemma fs_ok_Filesystem [simp]:
  "fs_ok (Filesystem d k l) \<longleftrightarrow> valid_device d \<and> k \<in> set FS_KINDS \<and> (l = [] \<or> fullmatch LABEL_RE l)"
  by (simp add: fs_ok_def Filesystem_def given_def)

lemma tail_parts_ok:
  assumes "disk_name_ok name" "swap_size = [] \<or> fullmatch SIZE_RE swap_size"
    "root_fs \<in> set ROOT_FS_KINDS"
    "\<And>h. home_fs = Some h \<Longrightarrow> h \<in> set ROOT_FS_KINDS \<and> fullmatch SIZE_RE root_size"
  shows "list_all (\<lambda>(p, f). part_ok p \<and> fs_ok f) (tail_parts name 2 swap_size root_fs root_size home_fs)"
proof -
  have c: "list_all (fullmatch LABEL_RE) [''ESP'', ''BIOS'', ''swap'', ''root'', ''home'']"
    "list_all (fullmatch GUID_RE) [''8200'', ''8300'', ''8302'']" "fullmatch SIZE_RE ''rest''"
    "''swap'' \<in> set FS_KINDS" "set ROOT_FS_KINDS \<subseteq> set FS_KINDS"
    by code_simp+
  then show ?thesis
    using assms partition_device_valid [OF assms(1)]
    by (auto simp: tail_parts_def swap_part_def root_home_parts_def Let_def split: option.split)
qed

lemma list_all_fst_snd:
  "list_all (\<lambda>(p, f). P p \<and> Q f) xs \<Longrightarrow> list_all P (map fst xs) \<and> list_all Q (map snd xs)"
  by (induction xs) auto

lemma tail_parts_nonempty: "tail_parts name n swap_size root_fs root_size home_fs \<noteq> []"
  by (simp add: tail_parts_def root_home_parts_def Let_def)

lemma uefi_plan_builds:
  assumes "disk_name_ok name" "fullmatch SIZE_RE esp_size"
    "swap_size = [] \<or> fullmatch SIZE_RE swap_size" "root_fs \<in> set ROOT_FS_KINDS"
    "\<And>h. home_fs = Some h \<Longrightarrow> h \<in> set ROOT_FS_KINDS \<and> fullmatch SIZE_RE root_size \<and> root_size \<noteq> ''rest''"
  shows "is_ok (uefi_plan name esp_size swap_size root_fs root_size home_fs)"
proof -
  have c: "fullmatch LABEL_RE ''ESP''" "fullmatch GUID_RE ''EF00''" "''vfat'' \<in> set FS_KINDS"
    by code_simp+
  have "list_all (\<lambda>(p, f). part_ok p \<and> fs_ok f) (tail_parts name 2 swap_size root_fs root_size home_fs)"
    by (rule tail_parts_ok) (use assms in auto)
  note list_all_fst_snd [OF this]
  moreover have "valid_device (''/dev/'' @ name)"
    using disk_device_valid [OF assms(1), of "[]"] by simp
  ultimately show ?thesis
    using assms c partition_device_valid [OF assms(1), of 1]
    by (auto simp: uefi_plan_def check_root_fs_def checked_plan_def res_simps is_ok_plan_steps
        is_ok_bind Let_def
        is_ok_iff [symmetric] split: option.split)
qed

lemma bios_plan_builds:
  assumes "disk_name_ok name" "swap_size = [] \<or> fullmatch SIZE_RE swap_size" "root_fs \<in> set ROOT_FS_KINDS"
    "\<And>h. home_fs = Some h \<Longrightarrow> h \<in> set ROOT_FS_KINDS \<and> fullmatch SIZE_RE root_size \<and> root_size \<noteq> ''rest''"
  shows "is_ok (bios_plan name swap_size root_fs root_size home_fs)"
proof -
  have c: "fullmatch LABEL_RE ''BIOS''" "fullmatch GUID_RE ''EF02''" "fullmatch SIZE_RE BIOS_BOOT_SIZE"
    by code_simp+
  have "list_all (\<lambda>(p, f). part_ok p \<and> fs_ok f) (tail_parts name 2 swap_size root_fs root_size home_fs)"
    by (rule tail_parts_ok) (use assms in auto)
  note list_all_fst_snd [OF this]
  moreover have "valid_device (''/dev/'' @ name)"
    using disk_device_valid [OF assms(1), of "[]"] by simp
  ultimately show ?thesis
    using assms c
    by (auto simp: bios_plan_def check_root_fs_def checked_plan_def res_simps is_ok_plan_steps
        is_ok_bind Let_def
        is_ok_iff [symmetric] split: option.split)
qed

text \<open>The layout of a plan: consecutive numbers, each filesystem on a partition of the plan.\<close>

definition well_laid :: "string \<Rightarrow> disk_plan \<Rightarrow> bool" where
  "well_laid name plan =
     (map pt_number (dp_partitions plan) = map int [1..<Suc (length (dp_partitions plan))] \<and>
      list_all (\<lambda>f. list_ex (\<lambda>p. fs_device f = partition_device name (pt_number p) \<and>
        fs_label f = pt_label p) (dp_partitions plan)) (dp_filesystems plan) \<and>
      distinct (map fs_device (dp_filesystems plan)) \<and>
      filter (\<lambda>p. pt_size p = ''rest'') (dp_partitions plan) = [last (dp_partitions plan)])"

lemma partition_device_inj:
  assumes "i \<in> {1, 2, 3, 4}" "j \<in> {1, 2, 3, 4}"
  shows "partition_device name i = partition_device name j \<longleftrightarrow> i = j"
proof -
  have "distinct (map int_str [1, 2, 3, 4])" by code_simp
  with assms show ?thesis by (auto simp: partition_device_def Let_def)
qed

lemma tail_parts_layout:
  assumes "swap_size \<noteq> ''rest''" "home_fs = None \<or> root_size \<noteq> ''rest''"
  shows "\<exists>ps. tail_parts name 2 swap_size root_fs root_size home_fs
      = map (\<lambda>(n, s, g, l, k). (Partition n s g l, Filesystem (partition_device name n) k l)) ps \<and>
    map fst ps = map int [2..<2 + length ps] \<and> length ps \<in> {1, 2, 3} \<and>
    filter (\<lambda>(n, s, g, l, k). s = ''rest'') ps = [last ps]"
proof -
  let ?swap = "if swap_size \<noteq> [] then [(2 :: int, swap_size, ''8200'', ''swap'', ''swap'')] else []"
  let ?n = "2 + int (length ?swap)"
  let ?tail = "case home_fs of None \<Rightarrow> [(?n, ''rest'', ''8300'', ''root'', root_fs)]
    | Some h \<Rightarrow> [(?n, root_size, ''8300'', ''root'', root_fs), (?n + 1, ''rest'', ''8302'', ''home'', h)]"
  have "tail_parts name 2 swap_size root_fs root_size home_fs
      = map (\<lambda>(n, s, g, l, k). (Partition n s g l, Filesystem (partition_device name n) k l)) (?swap @ ?tail)"
    by (cases "swap_size = []"; cases home_fs)
      (simp_all add: tail_parts_def swap_part_def root_home_parts_def Let_def)
  moreover have "map fst (?swap @ ?tail) = map int [2..<2 + length (?swap @ ?tail)]"
    by (cases "swap_size = []"; cases home_fs) (simp_all add: upt_rec)
  moreover have "length (?swap @ ?tail) \<in> {1, 2, 3}"
    by (cases "swap_size = []"; cases home_fs) simp_all
  moreover have "filter (\<lambda>(n, s, g, l, k). s = ''rest'') (?swap @ ?tail) = [last (?swap @ ?tail)]"
    using assms by (cases "swap_size = []"; cases home_fs) simp_all
  ultimately show ?thesis by blast
qed

lemma matched_pairs:
  "(\<And>x. R (F x) (P x)) \<Longrightarrow> list_all (\<lambda>f. list_ex (R f) (map P xs)) (map F xs)"
  by (auto simp: list_all_iff list_ex_iff)

lemma well_laid_parts:
  assumes "map fst ps = map int [2..<2 + length ps]" "length ps \<in> {1, 2, 3}"
    "filter (\<lambda>(n, s, g, l, k). s = ''rest'') ps = [last ps]" "pt_number p1 = 1" "pt_size p1 \<noteq> ''rest''"
    "dp_partitions plan = p1 # map (\<lambda>(n, s, g, l, k). Partition n s g l) ps"
    "dp_filesystems plan = fs1 @ map (\<lambda>(n, s, g, l, k). Filesystem (partition_device name n) k l) ps"
    "fs1 = [] \<or> (\<exists>f. fs1 = [f] \<and> fs_device f = partition_device name 1 \<and> fs_label f = pt_label p1)"
  shows "well_laid name plan"
proof -
  have len: "ps \<noteq> []" using assms(2) by auto
  have nums: "map pt_number (map (\<lambda>(n, s, g, l, k). Partition n s g l) ps) = map fst ps"
    by (auto simp: Partition_def)
  have "[1..<Suc (Suc n)] = 1 # [2..<2 + n]" for n
    by (simp add: upt_conv_Cons numeral_2_eq_2 del: upt_Suc)
  then have "1 # map int [2..<2 + length ps] = map int [1..<Suc (length (dp_partitions plan))]"
    using assms(6) by (simp del: upt_Suc)
  then have 1: "map pt_number (dp_partitions plan) = map int [1..<Suc (length (dp_partitions plan))]"
    using nums assms(1,4,6) by simp
  have 2: "list_all (\<lambda>f. list_ex (\<lambda>p. fs_device f = partition_device name (pt_number p) \<and>
        fs_label f = pt_label p) (dp_partitions plan)) (dp_filesystems plan)"
  proof -
    let ?R = "\<lambda>f p. fs_device f = partition_device name (pt_number p) \<and> fs_label f = pt_label p"
    let ?F = "\<lambda>(n, s, g, l, k). Filesystem (partition_device name n) k l"
      and ?P = "\<lambda>(n, s, g, l, k). Partition n s g l"
    have "?R (?F x) (?P x)" for x
      by (simp add: Partition_def Filesystem_def split: prod.split)
    from matched_pairs [of ?R ?F ?P ps, OF this] show ?thesis
      using assms(4,6,7,8) by (auto simp: list_all_iff)
  qed
  have range: "set (map fst ps) \<subseteq> {2, 3, 4}"
    unfolding assms(1) using assms(2) by auto
  have dist: "distinct (map fst ps)"
    unfolding assms(1) by (simp add: distinct_map)
  have devs: "map fs_device (map (\<lambda>(n, s, g, l, k). Filesystem (partition_device name n) k l) ps)
      = map (partition_device name) (map fst ps)"
    by (auto simp: Filesystem_def)
  have "distinct (map (partition_device name) (map fst ps))"
  proof (subst distinct_map, intro conjI inj_onI)
    fix i j
    assume "i \<in> set (map fst ps)" "j \<in> set (map fst ps)"
      "partition_device name i = partition_device name j"
    moreover from this have "i \<in> {1, 2, 3, 4}" "j \<in> {1, 2, 3, 4}"
      using range by blast+
    ultimately show "i = j" using partition_device_inj by blast
  qed (rule dist)
  moreover have "partition_device name 1 \<notin> set (map (partition_device name) (map fst ps))"
  proof
    assume "partition_device name 1 \<in> set (map (partition_device name) (map fst ps))"
    then obtain j where j: "j \<in> set (map fst ps)" "partition_device name 1 = partition_device name j"
      by (metis imageE list.set_map)
    then have "j \<in> {2, 3, 4}" using range by blast
    with j(2) partition_device_inj [of 1 j name] show False by auto
  qed
  moreover have "map fs_device (dp_filesystems plan)
      = map fs_device fs1 @ map (partition_device name) (map fst ps)"
    by (simp only: assms(7) map_append devs)
  moreover have "map fs_device fs1 = [] \<or> map fs_device fs1 = [partition_device name 1]"
    using assms(8) by auto
  ultimately have 3: "distinct (map fs_device (dp_filesystems plan))"
    by (elim disjE) (simp_all only: append_Nil append_Cons distinct.simps not_False_eq_True simp_thms)
  have "filter (\<lambda>p. pt_size p = ''rest'') (map (\<lambda>(n, s, g, l, k). Partition n s g l) ps)
      = map (\<lambda>(n, s, g, l, k). Partition n s g l) (filter (\<lambda>(n, s, g, l, k). s = ''rest'') ps)"
    by (induction ps) (auto simp: Partition_def)
  then have 4: "filter (\<lambda>p. pt_size p = ''rest'') (dp_partitions plan) = [last (dp_partitions plan)]"
    using assms(3,5,6) len by (simp add: last_map)
  from 1 2 3 4 show ?thesis by (simp add: well_laid_def)
qed

lemma uefi_plan_laid:
  assumes "uefi_plan name esp_size swap_size root_fs root_size home_fs = Inr plan"
    "esp_size \<noteq> ''rest''" "swap_size \<noteq> ''rest''"
  shows "well_laid name plan"
proof -
  have h: "home_fs = None \<or> root_size \<noteq> ''rest''"
    using assms(1) by (auto simp: uefi_plan_def check_root_fs_def res_simps split: option.splits)
  obtain ps where ps: "tail_parts name 2 swap_size root_fs root_size home_fs
      = map (\<lambda>(n, s, g, l, k). (Partition n s g l, Filesystem (partition_device name n) k l)) ps"
    "map fst ps = map int [2..<2 + length ps]" "length ps \<in> {1, 2, 3}"
    "filter (\<lambda>(n, s, g, l, k). s = ''rest'') ps = [last ps]"
    using tail_parts_layout [OF assms(3) h] by blast
  have "dp_partitions plan = Partition 1 esp_size ''EF00'' ''ESP'' # map (\<lambda>(n, s, g, l, k). Partition n s g l) ps
     \<and> dp_filesystems plan = [Filesystem (partition_device name 1) ''vfat'' ''ESP'']
        @ map (\<lambda>(n, s, g, l, k). Filesystem (partition_device name n) k l) ps"
    using assms(1)
    by (auto simp: uefi_plan_def check_root_fs_def checked_plan_def res_simps Let_def ps(1)
        split: option.splits)
  then show ?thesis
    using assms(2) by (intro well_laid_parts [OF ps(2-4), of "Partition 1 esp_size ''EF00'' ''ESP''"])
      (auto simp: Partition_def Filesystem_def)
qed

lemma bios_plan_laid:
  assumes "bios_plan name swap_size root_fs root_size home_fs = Inr plan" "swap_size \<noteq> ''rest''"
  shows "well_laid name plan"
proof -
  have h: "home_fs = None \<or> root_size \<noteq> ''rest''"
    using assms(1) by (auto simp: bios_plan_def check_root_fs_def res_simps split: option.splits)
  obtain ps where ps: "tail_parts name 2 swap_size root_fs root_size home_fs
      = map (\<lambda>(n, s, g, l, k). (Partition n s g l, Filesystem (partition_device name n) k l)) ps"
    "map fst ps = map int [2..<2 + length ps]" "length ps \<in> {1, 2, 3}"
    "filter (\<lambda>(n, s, g, l, k). s = ''rest'') ps = [last ps]"
    using tail_parts_layout [OF assms(2) h] by blast
  have "dp_partitions plan = Partition 1 BIOS_BOOT_SIZE ''EF02'' ''BIOS'' # map (\<lambda>(n, s, g, l, k). Partition n s g l) ps
     \<and> dp_filesystems plan = [] @ map (\<lambda>(n, s, g, l, k). Filesystem (partition_device name n) k l) ps"
    using assms(1)
    by (auto simp: bios_plan_def check_root_fs_def checked_plan_def res_simps Let_def ps(1)
        split: option.splits)
  then show ?thesis
    by (intro well_laid_parts [OF ps(2-4), of "Partition 1 BIOS_BOOT_SIZE ''EF02'' ''BIOS''"])
      (auto simp: Partition_def BIOS_BOOT_SIZE_def)
qed

section \<open>Properties\<close>


text \<open>the pipeline of a plan has the documented order, wipe, partition, settle, then one
  command per filesystem, and its arguments are those of the plan.\<close>

theorem plan_steps_order:
  assumes "plan_steps plan = Inr steps"
  shows "map st_argv steps =
     (if dp_wipe plan then [[''wipefs'', ''-a'', dp_disk plan], [''sgdisk'', ''--zap-all'', dp_disk plan]]
      else [])
     @ [''sgdisk'' # concat (map partition_words (dp_partitions plan)) @ [dp_disk plan],
        [''partprobe'', dp_disk plan], [''udevadm'', ''settle'']]
     @ map fs_words (dp_filesystems plan)
   \<and> list_all (\<lambda>s. list_all plain_word (st_argv s)) steps"
  using plan_argvs [OF assms] plan_argvs_plain [OF assms] by simp

definition sda_plan :: disk_plan where
  "sda_plan = \<lparr>dp_disk = ''/dev/sda'', dp_wipe = True,
     dp_partitions = [Partition 1 ''1G'' ''EF00'' ''ESP'', Partition 2 ''rest'' ''8300'' ''root''],
     dp_filesystems = [Filesystem ''/dev/sda1'' ''vfat'' ''ESP'', Filesystem ''/dev/sda2'' ''ext4'' ''root'']\<rparr>"

theorem plan_steps_order_witness:
  "map st_argv (case plan_steps sda_plan of Inr steps \<Rightarrow> steps | Inl _ \<Rightarrow> []) =
     [[''wipefs'', ''-a'', ''/dev/sda''], [''sgdisk'', ''--zap-all'', ''/dev/sda'']]
     @ [''sgdisk'' # concat (map partition_words (dp_partitions sda_plan)) @ [''/dev/sda''],
        [''partprobe'', ''/dev/sda''], [''udevadm'', ''settle'']]
     @ map fs_words (dp_filesystems sda_plan)"
proof -
  have "is_ok (plan_steps sda_plan)" by code_simp
  then obtain steps where s: "plan_steps sda_plan = Inr steps" by (auto simp: is_ok_iff)
  have "dp_wipe sda_plan" "dp_disk sda_plan = ''/dev/sda''" by (simp_all add: sda_plan_def)
  then show ?thesis
    using plan_steps_order [OF s] s by simp
qed

text \<open>a plan with any safety problem runs nothing: the executor is never called and the
  error lists every problem.\<close>

theorem apply_plan_refuses:
  assumes "validate_plan plan devices mounts boot \<noteq> []"
  shows "apply_plan plan run devices mounts boot w
    = (w, [], Inl (DiskSafetyError (validate_plan plan devices mounts boot)))"
  using assms by (simp add: apply_plan_def Let_def)

definition sda_tree :: "block_device list" where
  "sda_tree = [BlockDevice ''sda'' ''100G'' ''disk'' [] []
     [BlockDevice ''sda1'' ''100G'' ''part'' ''LVM2_member'' []
        [BlockDevice ''vg-root'' ''100G'' ''lvm'' ''ext4'' ''/'' []]]]"

theorem apply_plan_refuses_witness:
  "apply_plan sda_plan (fake_run (\<lambda>_. 0)) sda_tree (''/dev/sda1 / ext4 rw 0 0'' @ [LF]) None fake_init
    = (fake_init, [], Inl (DiskSafetyError [''/dev/sda has a mounted partition (/dev/sda1)'']))"
proof -
  have v: "validate_plan sda_plan sda_tree (''/dev/sda1 / ext4 rw 0 0'' @ [LF]) None
      = [''/dev/sda has a mounted partition (/dev/sda1)'']"
    by code_simp
  show ?thesis
    using apply_plan_refuses [of sda_plan sda_tree "''/dev/sda1 / ext4 rw 0 0'' @ [LF]" None
        "fake_run (\<lambda>_. 0)" fake_init]
    unfolding v by simp
qed

text \<open>what a validated plan runs on the recording executor is its pipeline in order, up to
  and including the first command that fails.\<close>

theorem apply_plan_runs:
  assumes "validate_plan plan devices mounts boot = []" "plan_steps plan = Inr steps"
  shows "fk_calls (fst (apply_plan plan (fake_run code_for) devices mounts boot fake_init))
      = map st_argv (attempted code_for steps)"
  using assms by (simp add: apply_plan_def run_steps_from_fake fake_init_def Let_def
      split: prod.splits option.splits)

text \<open>the guided layouts always build: any firmware, any amount of memory, any supported
  root filesystem, with or without a separate /home.\<close>

theorem propose_layout_builds:
  assumes "disk_name_ok name" "firmware = ''uefi'' \<or> firmware = ''bios''" "root_fs \<in> set ROOT_FS_KINDS"
    "separate_home \<longrightarrow> home_fs \<in> set ROOT_FS_KINDS \<and> fullmatch SIZE_RE root_size \<and> root_size \<noteq> ''rest''"
  shows "\<exists>plan. propose_layout name ram firmware root_fs separate_home root_size home_fs = Inr plan \<and>
    is_ok (plan_steps plan) \<and> well_laid name plan"
proof -
  let ?swap = "propose_swap_size ram" and ?h = "if separate_home then Some home_fs else None"
    and ?r = "if separate_home then root_size else ''rest''"
  have esp: "fullmatch SIZE_RE ESP_PROPOSAL_SIZE" "ESP_PROPOSAL_SIZE \<noteq> ''rest''" by code_simp+
  have h: "h \<in> set ROOT_FS_KINDS \<and> fullmatch SIZE_RE ?r \<and> ?r \<noteq> ''rest''" if "?h = Some h" for h
    using assms(4) that by (auto split: if_splits)
  have u: "is_ok (uefi_plan name ESP_PROPOSAL_SIZE ?swap root_fs ?r ?h)"
    by (rule uefi_plan_builds) (use assms esp h swap_size_ok in auto)
  have b: "is_ok (bios_plan name ?swap root_fs ?r ?h)"
    by (rule bios_plan_builds) (use assms h swap_size_ok in auto)
  have ok: "checked_plan p = Inr q \<Longrightarrow> q = p \<and> is_ok (plan_steps q)" for p q
    by (auto simp: checked_plan_def res_simps)
  consider plan where "uefi_plan name ESP_PROPOSAL_SIZE ?swap root_fs ?r ?h = Inr plan" "firmware = ''uefi''"
    | plan where "bios_plan name ?swap root_fs ?r ?h = Inr plan" "firmware = ''bios''"
    using assms(2) u b by (auto simp: is_ok_iff)
  then show ?thesis
  proof cases
    case 1
    then have "is_ok (plan_steps plan)"
      using ok by (fastforce simp: uefi_plan_def check_root_fs_def res_simps Let_def split: option.splits)
    with 1 uefi_plan_laid [OF 1(1) esp(2) swap_size_ok(2)] show ?thesis
      by (auto simp: propose_layout_def Let_def)
  next
    case 2
    then have "is_ok (plan_steps plan)"
      using ok by (fastforce simp: bios_plan_def check_root_fs_def res_simps Let_def split: option.splits)
    with 2 bios_plan_laid [OF 2(1) swap_size_ok(2)] show ?thesis
      by (auto simp: propose_layout_def Let_def)
  qed
qed

theorem apply_plan_runs_witness:
  "fk_calls (fst (apply_plan sda_plan (fake_run (\<lambda>argv. if hd argv = ''partprobe'' then 1 else 0))
      sda_tree ''proc /proc proc rw 0 0'' None fake_init))
    = [[''wipefs'', ''-a'', ''/dev/sda''], [''sgdisk'', ''--zap-all'', ''/dev/sda''],
       [''sgdisk'', ''-n'', ''1:0:+1G'', ''-t'', ''1:EF00'', ''-c'', ''1:ESP'',
        ''-n'', ''2:0:0'', ''-t'', ''2:8300'', ''-c'', ''2:root'', ''/dev/sda''],
       [''partprobe'', ''/dev/sda'']]"
proof -
  have v: "validate_plan sda_plan sda_tree ''proc /proc proc rw 0 0'' None = []"
    by code_simp
  have "is_ok (plan_steps sda_plan)" by code_simp
  then obtain steps where s: "plan_steps sda_plan = Inr steps" by (auto simp: is_ok_iff)
  have "map st_argv (attempted (\<lambda>argv. if hd argv = ''partprobe'' then 1 else 0)
      (case plan_steps sda_plan of Inr steps \<Rightarrow> steps | Inl _ \<Rightarrow> []))
    = [[''wipefs'', ''-a'', ''/dev/sda''], [''sgdisk'', ''--zap-all'', ''/dev/sda''],
       [''sgdisk'', ''-n'', ''1:0:+1G'', ''-t'', ''1:EF00'', ''-c'', ''1:ESP'',
        ''-n'', ''2:0:0'', ''-t'', ''2:8300'', ''-c'', ''2:root'', ''/dev/sda''],
       [''partprobe'', ''/dev/sda'']]"
    by code_simp
  then show ?thesis
    using apply_plan_runs [OF v s, of "\<lambda>argv. if hd argv = ''partprobe'' then 1 else 0"] s by simp
qed

theorem propose_layout_builds_witness:
  "\<exists>plan. propose_layout ''nvme0n1'' 17179869184 ''uefi'' ''btrfs'' True ''40G'' ''xfs'' = Inr plan \<and>
    is_ok (plan_steps plan) \<and> well_laid ''nvme0n1'' plan"
proof -
  have "disk_name_ok ''nvme0n1''" "''btrfs'' \<in> set ROOT_FS_KINDS" "''xfs'' \<in> set ROOT_FS_KINDS"
    "fullmatch SIZE_RE ''40G''"
    by code_simp+
  then show ?thesis
    by (intro propose_layout_builds) simp_all
qed

text \<open>the swap proposal is at least 1 GiB and at most 16 GiB, and it is the memory rounded
  to GiB up to 8 GiB of memory.\<close>

theorem propose_swap_size_bounds:
  "\<exists>g. propose_swap_size ram = int_str g @ ''G'' \<and> 1 \<le> g \<and> g \<le> 16 \<and>
     (g = 16 \<or> g = max 1 (round_div ram GIB))"
  by (intro exI [of _ "let gib = max 1 (round_div ram GIB) in if gib \<le> 8 then gib else 16"])
    (auto simp: propose_swap_size_def Let_def)

text \<open>the checks read device names only, so a running system whose root is a mapped device
  (LVM, LUKS) on a partition of the disk is not noticed: the plan for that disk is accepted.\<close>

theorem validate_plan_misses_mapped_root:
  "validate_plan sda_plan sda_tree (''/dev/mapper/vg-root / ext4 rw 0 0'' @ [LF]) None = [] \<and>
   guard_provision_target ''/dev/sda'' (''/dev/mapper/vg-root / ext4 rw 0 0'' @ [LF]) True = Inr ()"
  by (rule conjI; code_simp)

lemma backend_filesystems_steps:
  "backend_filesystems backend i fss w = (w', ev, None) \<Longrightarrow>
    filter (\<lambda>e. \<exists>n. e = OnStep n) ev = map OnStep [i..<i + length fss]"
proof (induction fss arbitrary: i w w' ev)
  case (Cons f fss)
  have emit: "filter (\<lambda>e. \<exists>n. e = OnStep n) (emit out) = []" for out
    by (simp add: emit_def)
  show ?case
    using Cons.prems Cons.IH
    by (fastforce simp: Let_def emit upt_conv_Cons simp del: upt_Suc split: prod.splits if_splits)
qed simp

text \<open>the backend path reports one step for each phase label, in order, when it succeeds.\<close>

theorem apply_via_backend_phases:
  assumes "apply_via_backend plan backend w = (w', ev, None)"
  shows "filter (\<lambda>e. \<exists>n. e = OnStep n) ev = map OnStep [0..<length (plan_phase_labels plan)]"
proof -
  have emit: "filter (\<lambda>e. \<exists>n. e = OnStep n) (emit out) = []" for out
    by (simp add: emit_def)
  obtain w1 out ev1 where "backend_filesystems backend 1 (dp_filesystems plan) w1 = (w', ev1, None)"
    "ev = OnStep 0 # emit out @ ev1"
    using assms by (auto simp: apply_via_backend_def Let_def split: prod.splits if_splits)
  then show ?thesis
    using backend_filesystems_steps [of backend 1 "dp_filesystems plan" w1 w' ev1]
    by (simp add: emit plan_phase_labels_def upt_conv_Cons del: upt_Suc)
qed

definition call_log :: "string list provisioner" where
  "call_log = \<lparr>pv_partition_disk = \<lambda>w disk wipe parts. (w @ [disk], True, ''done''),
     pv_make_filesystem = \<lambda>w device kind label. (w @ [device], True, []),
     pv_make_swap = \<lambda>w device label. (w @ [device], True, [])\<rparr>"

theorem apply_via_backend_phases_witness:
  "filter (\<lambda>e. \<exists>n. e = OnStep n) (fst (snd (apply_via_backend sda_plan call_log [])))
    = [OnStep 0, OnStep 1, OnStep 2]"
proof -
  have r: "apply_via_backend sda_plan call_log []
      = ([''/dev/sda'', ''/dev/sda1'', ''/dev/sda2''],
         [OnStep 0, OnProgress [''done''], OnStep 1, OnStep 2], None)"
    by code_simp
  show ?thesis
    unfolding r using apply_via_backend_phases [OF r]
    by (simp add: plan_phase_labels_def sda_plan_def upt_rec)
qed

end
