(* ===== verification/Paths.thy ===== *)
theory Paths
  imports StrFacts
begin

text \<open>
  Where files live: \<open>gest/core/portage/paths.py\<close>, \<open>gest/core/portage/write.py\<close> and
  \<open>gest/core/rootpath.py\<close>, over the two \<open>os.path\<close> functions they use. The lemmas show
  that a path the allow-list accepts normalises to one below \<open>/etc/portage\<close>, and that
  resolving under an accepted root never leaves that root.
\<close>

section \<open>os.path\<close>

definition path_join2 :: "string \<Rightarrow> string \<Rightarrow> string" where
  "path_join2 path b =
     (if startswith b ''/'' \<or> path = [] then b
      else if endswith path ''/'' then path @ b
      else path @ ''/'' @ b)"

definition path_join :: "string \<Rightarrow> string list \<Rightarrow> string" where
  "path_join a ps = foldl path_join2 a ps"

definition initial_slashes :: "string \<Rightarrow> nat" where
  "initial_slashes path =
     (if startswith path ''//'' \<and> \<not> startswith path ''///'' then 2
      else if startswith path ''/'' then 1 else 0)"

text \<open>The component loop; the stack of kept components is kept in reverse.\<close>

fun norm_comps :: "bool \<Rightarrow> string list \<Rightarrow> string list \<Rightarrow> string list" where
  "norm_comps absolute new [] = rev new"
| "norm_comps absolute new (seg # segs) =
     (if seg = [] \<or> seg = ''.'' then norm_comps absolute new segs
      else if seg \<noteq> ''..'' \<or> (\<not> absolute \<and> new = []) \<or> (new \<noteq> [] \<and> hd new = ''..'')
        then norm_comps absolute (seg # new) segs
      else if new \<noteq> [] then norm_comps absolute (tl new) segs
      else norm_comps absolute new segs)"

definition normpath :: "string \<Rightarrow> string" where
  "normpath path =
     (if path = [] then ''.''
      else let n = initial_slashes path;
               segs = norm_comps (n > 0) [] (split_char (CHR ''/'') path);
               p = replicate n (CHR ''/'') @ join ''/'' segs
           in if p = [] then ''.'' else p)"

section \<open>gest.core.rootpath\<close>

definition ALLOWED_TARGET_ROOTS :: "string list" where
  "ALLOWED_TARGET_ROOTS = [''/mnt'', ''/media'', ''/run/media'']"

definition valid_config_root :: "string \<Rightarrow> bool" where
  "valid_config_root root =
     (if root = ''/'' then True
      else if \<not> startswith root ''/'' \<or> ''..'' \<in> set (split_char (CHR ''/'') root) then False
      else list_ex (\<lambda>p. startswith root (p @ ''/'')) ALLOWED_TARGET_ROOTS)"

definition guard_config_root :: "string \<Rightarrow> unit res" where
  "guard_config_root root =
     (if \<not> valid_config_root root
      then Inl (ValueError (''config root must be / or under /mnt|/media|/run/media: '' @ py_repr root))
      else Inr ())"

definition is_target :: "string \<Rightarrow> bool" where
  "is_target root = (root \<noteq> [] \<and> root \<noteq> ''/'')"

definition resolve :: "string \<Rightarrow> string \<Rightarrow> string" where
  "resolve root abs_path =
     (if root = [] \<or> root = ''/'' then abs_path else rstrip_char (CHR ''/'') root @ abs_path)"

lemma resolve_inj: "resolve root p = resolve root q \<longleftrightarrow> p = q"
  by (simp add: resolve_def)

section \<open>gest.core.portage.paths\<close>

text \<open>
  \<open>config_root()\<close> asks the Portage library for \<open>PORTAGE_CONFIGROOT\<close>; its answer is the
  parameter \<open>cfg\<close>, and \<open>None\<close> is Python's \<open>None\<close>.
\<close>

definition or_config :: "string \<Rightarrow> string option \<Rightarrow> string" where
  "or_config cfg root = (case root of None \<Rightarrow> cfg | Some r \<Rightarrow> if r = [] then cfg else r)"

definition etc_portage :: "string \<Rightarrow> string option \<Rightarrow> string" where
  "etc_portage cfg root = path_join (or_config cfg root) [''etc'', ''portage'']"

definition make_conf :: "string \<Rightarrow> string option \<Rightarrow> string" where
  "make_conf cfg root = path_join (etc_portage cfg root) [''make.conf'']"

definition repos_conf_dir :: "string \<Rightarrow> string option \<Rightarrow> string" where
  "repos_conf_dir cfg root = path_join (etc_portage cfg root) [''repos.conf'']"

definition binrepos_conf_dir :: "string \<Rightarrow> string option \<Rightarrow> string" where
  "binrepos_conf_dir cfg root = path_join (etc_portage cfg root) [''binrepos.conf'']"

definition binhost_fragment :: "string \<Rightarrow> string option \<Rightarrow> string" where
  "binhost_fragment cfg root = path_join (binrepos_conf_dir cfg root) [''gest.conf'']"

definition package_dir :: "string \<Rightarrow> string \<Rightarrow> string option \<Rightarrow> string" where
  "package_dir cfg kind root = path_join (etc_portage cfg root) [''package.'' @ kind]"

definition package_fragment :: "string \<Rightarrow> string \<Rightarrow> string \<Rightarrow> string option \<Rightarrow> string" where
  "package_fragment cfg kind name root = path_join (package_dir cfg kind root) [name]"

definition gest_fragment :: "string \<Rightarrow> string \<Rightarrow> string option \<Rightarrow> string" where
  "gest_fragment cfg kind root = package_fragment cfg kind ''gest'' root"

definition gest_dir :: "string \<Rightarrow> string option \<Rightarrow> string" where
  "gest_dir cfg root = path_join (etc_portage cfg root) [''gest'']"

definition gest_state :: "string \<Rightarrow> string \<Rightarrow> string option \<Rightarrow> string" where
  "gest_state cfg name root = path_join (gest_dir cfg root) [name]"

section \<open>gest.core.portage.write\<close>

record config_write =
  cw_path :: string
  cw_text :: string
  cw_mode :: nat

definition etc_portage_dir :: "string \<Rightarrow> string" where
  "etc_portage_dir root = normpath (path_join root [''etc'', ''portage''])"

definition is_within_etc_portage :: "string \<Rightarrow> string \<Rightarrow> bool" where
  "is_within_etc_portage path root =
     (let base = etc_portage_dir root; norm = normpath path
      in norm = base \<or> startswith norm (base @ ''/''))"

section \<open>Normalised paths\<close>

definition comp_ok :: "string \<Rightarrow> bool" where
  "comp_ok c = (c \<noteq> [] \<and> c \<noteq> ''.'' \<and> CHR ''/'' \<notin> set c)"

lemma norm_comps_ok:
  "list_all comp_ok new \<Longrightarrow> list_all (\<lambda>c. CHR ''/'' \<notin> set c) segs \<Longrightarrow>
    list_all comp_ok (norm_comps absolute new segs)"
proof (induction absolute new segs rule: norm_comps.induct)
  case (2 absolute new seg segs)
  have tl: "list_all comp_ok (tl new)"
    using "2.prems"(1) by (cases new) auto
  show ?case
    using 2 tl by (auto simp: comp_ok_def [of seg])
qed (auto simp: list_all_iff)

lemma norm_comps_absolute:
  "''..'' \<notin> set new \<Longrightarrow> ''..'' \<notin> set (norm_comps True new segs)"
proof (induction True new segs rule: norm_comps.induct)
  case (2 new seg segs)
  then show ?case
    by (cases new) auto
qed simp

text \<open>The stack machine that follows a path from a directory, one component at a time.\<close>

fun walk :: "string list \<Rightarrow> string list \<Rightarrow> string list" where
  "walk dir [] = dir"
| "walk dir (c # cs) =
     (if c = [] \<or> c = ''.'' then walk dir cs
      else if c = ''..'' then walk (butlast dir) cs
      else walk (dir @ [c]) cs)"

lemma norm_comps_walk: "''..'' \<notin> set new \<Longrightarrow> norm_comps True new segs = walk (rev new) segs"
proof (induction True new segs rule: norm_comps.induct)
  case (2 new seg segs)
  then show ?case
    by (cases new) auto
qed simp

lemma split_char_slash_join:
  "list_all comp_ok cs \<Longrightarrow> cs \<noteq> [] \<Longrightarrow> split_char (CHR ''/'') (join ''/'' cs) = cs"
  by (rule split_char_join) (auto simp: comp_ok_def list_all_iff)

lemma split_char_Cons_sep: "split_char d (d # s) = [] # split_char d s"
  by (simp add: split_char_def)

lemma split_char_Nil [simp]: "split_char d [] = [[]]"
  by (simp add: split_char_def)

text \<open>An absolute path normalises to the components it walks to, none of them \<open>..\<close>.\<close>

lemma initial_slashes_pos: "startswith p ''/'' \<Longrightarrow> initial_slashes p = 1 \<or> initial_slashes p = 2"
  by (auto simp: initial_slashes_def)

lemma normpath_absolute:
  assumes "startswith p ''/''"
  shows "normpath p = replicate (initial_slashes p) (CHR ''/'') @ join ''/'' (walk [] (split_char (CHR ''/'') p))"
  using assms initial_slashes_pos [OF assms] norm_comps_walk [of "[]" "split_char (CHR ''/'') p"]
  by (auto simp: normpath_def Let_def startswith_def)

definition seg_ok :: "string \<Rightarrow> bool" where
  "seg_ok c = (comp_ok c \<and> c \<noteq> ''..'')"

lemma walk_ok: "list_all (\<lambda>c. CHR ''/'' \<notin> set c) cs \<Longrightarrow> list_all seg_ok dir \<Longrightarrow>
    list_all seg_ok (walk dir cs)"
proof (induction dir cs rule: walk.induct)
  case (2 dir c cs)
  have "list_all seg_ok (butlast dir)"
    using "2.prems"(2) by (auto simp: list_all_iff dest: in_set_butlastD)
  with 2 show ?case by (simp add: seg_ok_def [of c] comp_ok_def [of c])
qed simp

lemma split_slash_free: "list_all (\<lambda>c. CHR ''/'' \<notin> set c) (split_char (CHR ''/'') p)"
  using split_char_parts by (auto simp: list_all_iff)

lemma etc_portage_dir_root: "etc_portage_dir ''/'' = ''/etc/portage''"
  by code_simp

section \<open>What the allow-list accepts\<close>

lemma split_char_append_sep: "split_char d (a @ d # b) = split_char d a @ split_char d b"
  by (simp add: split_char_def split_on_sep)

lemma split_char_free: "d \<notin> set s \<Longrightarrow> split_char d s = [s]"
  unfolding split_char_def by (rule split_on_free) (auto simp: list_all_iff)

lemma join_slash_hd: "list_all comp_ok cs \<Longrightarrow> cs \<noteq> [] \<Longrightarrow> join ''/'' cs \<noteq> [] \<and> hd (join ''/'' cs) \<noteq> CHR ''/''"
  by (cases cs; cases "hd cs") (auto simp: join_Cons comp_ok_def)

lemma normpath_relative: "\<not> startswith p ''/'' \<Longrightarrow> \<not> startswith (normpath p) ''/''"
proof -
  assume rel: "\<not> startswith p ''/''"
  then have i: "initial_slashes p = 0"
    by (cases p) (auto simp: initial_slashes_def startswith_def)
  let ?cs = "norm_comps False [] (split_char (CHR ''/'') p)"
  have ok: "list_all comp_ok ?cs"
    using norm_comps_ok [OF _ split_slash_free] by simp
  have "normpath p = ''.'' \<or> (?cs \<noteq> [] \<and> normpath p = join ''/'' ?cs)"
    using i by (cases ?cs) (auto simp: normpath_def Let_def)
  then show ?thesis
    using join_slash_hd [OF ok] by (auto simp: startswith_def prefix_def)
qed

lemma within_walk:
  assumes "is_within_etc_portage p ''/''"
  shows "startswith p ''/'' \<and> (\<exists>rest. walk [] (split_char (CHR ''/'') p) = ''etc'' # ''portage'' # rest)"
proof -
  have w: "normpath p = ''/etc/portage'' \<or> startswith (normpath p) ''/etc/portage/''"
    using assms by (simp add: is_within_etc_portage_def etc_portage_dir_root Let_def)
  then have "startswith (normpath p) ''/''"
    by (auto simp: startswith_def prefix_def)
  then have abs: "startswith p ''/''"
    using normpath_relative by blast
  let ?W = "walk [] (split_char (CHR ''/'') p)"
  have ok: "list_all seg_ok ?W"
    using walk_ok [OF split_slash_free] by simp
  have n1: "initial_slashes p = 1"
    using initial_slashes_pos [OF abs] w normpath_absolute [OF abs]
    by (auto simp: startswith_def prefix_def numeral_2_eq_2)
  then have "''/'' @ join ''/'' ?W = ''/etc/portage'' \<or> (\<exists>t. ''/'' @ join ''/'' ?W = ''/etc/portage/'' @ t)"
    using w normpath_absolute [OF abs] by (auto simp: startswith_def prefix_def)
  then have j: "join ''/'' ?W = ''etc/portage'' \<or> (\<exists>t. join ''/'' ?W = ''etc/portage/'' @ t)"
    by auto
  then have ne: "?W \<noteq> []" by auto
  have "?W = split_char (CHR ''/'') (join ''/'' ?W)"
    using ok ne by (intro split_char_slash_join [symmetric]) (auto simp: seg_ok_def list_all_iff)
  moreover have "split_char (CHR ''/'') ''etc/portage'' = [''etc'', ''portage'']"
    and "split_char (CHR ''/'') (''etc/portage/'' @ t) = ''etc'' # ''portage'' # split_char (CHR ''/'') t" for t
    by (simp_all add: split_char_def)
  ultimately have "\<exists>rest. ?W = ''etc'' # ''portage'' # rest"
    using j by metis
  with abs show ?thesis by blast
qed

lemma startswith_decomp: "startswith s p \<longleftrightarrow> (\<exists>t. s = p @ t)"
  by (auto simp: startswith_def prefix_def)

lemma rstrip_char_decomp: "\<exists>k. s = rstrip_char d s @ replicate k d"
proof -
  let ?t = "takeWhile (\<lambda>c. c = d) (rev s)"
  have "\<forall>c \<in> set ?t. c = d" by (auto dest: set_takeWhileD)
  then have t: "replicate (length ?t) d = ?t"
    by (rule replicate_length_same)
  have "s = rev (?t @ dropWhile (\<lambda>c. c = d) (rev s))"
    using takeWhile_dropWhile_id [of "\<lambda>c. c = d" "rev s"] by (metis rev_rev_ident)
  also have "\<dots> = rstrip_char d s @ rev (replicate (length ?t) d)"
    unfolding t rstrip_char_def by (rule rev_append)
  finally show ?thesis by auto
qed

lemma rstrip_char_last: "rstrip_char d s = [] \<or> last (rstrip_char d s) \<noteq> d"
proof (cases "dropWhile (\<lambda>c. c = d) (rev s) = []")
  case False
  from hd_dropWhile [OF this] False show ?thesis
    by (simp add: rstrip_char_def last_rev)
qed (simp add: rstrip_char_def)

text \<open>Stripping trailing slashes keeps a proper prefix directory.\<close>

lemma rstrip_slash_prefix:
  assumes "startswith root (p @ ''/'')" "p \<noteq> []" "last p \<noteq> CHR ''/''"
  shows "rstrip_char (CHR ''/'') root = p \<or> startswith (rstrip_char (CHR ''/'') root) (p @ ''/'')"
proof -
  let ?r = "rstrip_char (CHR ''/'') root"
  obtain k where k: "root = ?r @ replicate k (CHR ''/'')"
    using rstrip_char_decomp by blast
  obtain t where t: "root = p @ CHR ''/'' # t"
    using assms(1) by (auto simp: startswith_decomp)
  from k t have "?r @ replicate k (CHR ''/'') = p @ CHR ''/'' # t" by simp
  then obtain u where "(?r = p @ u \<and> u @ replicate k (CHR ''/'') = CHR ''/'' # t) \<or>
      (?r @ u = p \<and> replicate k (CHR ''/'') = u @ CHR ''/'' # t)"
    by (auto simp: append_eq_append_conv2)
  then show ?thesis
  proof
    assume "?r = p @ u \<and> u @ replicate k (CHR ''/'') = CHR ''/'' # t"
    then show ?thesis
      by (cases u) (auto simp: startswith_decomp)
  next
    assume u: "?r @ u = p \<and> replicate k (CHR ''/'') = u @ CHR ''/'' # t"
    have "set (replicate k (CHR ''/'')) \<subseteq> {CHR ''/''}" by auto
    then have "set u \<subseteq> {CHR ''/''}"
      using u by simp
    have "u = []"
    proof (rule ccontr)
      assume "u \<noteq> []"
      moreover from this have "last u = last p"
        using u by (metis last_appendR)
      ultimately show False
        using last_in_set [of u] \<open>set u \<subseteq> {CHR ''/''}\<close> assms(3) by auto
    qed
    with u show ?thesis by (simp add: startswith_decomp)
  qed
qed

lemma allowed_roots_ends: "p \<in> set ALLOWED_TARGET_ROOTS \<Longrightarrow> p \<noteq> [] \<and> last p \<noteq> CHR ''/''"
  by (auto simp: ALLOWED_TARGET_ROOTS_def)

lemma split_replicate: "set (split_char d a) \<subseteq> set (split_char d (a @ replicate k d))"
proof (induction k)
  case (Suc k)
  have "split_char d (a @ replicate (Suc k) d) = split_char d (a @ replicate k d) @ [[]]"
    using split_char_append_sep [of d "a @ replicate k d" "[]"]
    by (simp add: replicate_append_same)
  with Suc show ?case by auto
qed simp

text \<open>Resolving under an accepted target root stays strictly below an allowed prefix.\<close>

lemma resolve_confined:
  assumes "valid_config_root root" "is_target root" "startswith path ''/''"
    "''..'' \<notin> set (split_char (CHR ''/'') path)"
  shows "(\<exists>p \<in> set ALLOWED_TARGET_ROOTS. startswith (resolve root path) (p @ ''/'')) \<and>
    ''..'' \<notin> set (split_char (CHR ''/'') (resolve root path))"
proof -
  let ?r = "rstrip_char (CHR ''/'') root"
  obtain y where y: "path = CHR ''/'' # y"
    using assms(3) by (auto simp: startswith_decomp)
  have res: "resolve root path = ?r @ CHR ''/'' # y"
    using assms(2) y by (simp add: resolve_def is_target_def)
  obtain p where p: "p \<in> set ALLOWED_TARGET_ROOTS" "startswith root (p @ ''/'')"
    and dd: "''..'' \<notin> set (split_char (CHR ''/'') root)"
    using assms(1,2) by (auto simp: valid_config_root_def is_target_def list_ex_iff split: if_splits)
  have "startswith (resolve root path) (p @ ''/'')"
    using rstrip_slash_prefix [OF p(2)] allowed_roots_ends [OF p(1)] res
    by (auto simp: startswith_decomp)
  moreover obtain k where "root = ?r @ replicate k (CHR ''/'')"
    using rstrip_char_decomp by blast
  then have "''..'' \<notin> set (split_char (CHR ''/'') ?r)"
    using dd split_replicate [of "CHR ''/''" ?r k] by auto
  moreover have "''..'' \<notin> set (split_char (CHR ''/'') y)"
    using assms(4) y by (simp add: split_char_Cons_sep)
  ultimately show ?thesis
    using p(1) by (auto simp: res split_char_append_sep)
qed

section \<open>Properties\<close>

text \<open>a path the write allow-list accepts is absolute and, followed component by component,
  leads to \<open>/etc/portage\<close> or below it: no \<open>..\<close> sequence gets a path past the check.\<close>

theorem allow_list_confines:
  assumes "is_within_etc_portage p ''/''"
  shows "startswith p ''/'' \<and> (\<exists>rest. walk [] (split_char (CHR ''/'') p) = ''etc'' # ''portage'' # rest)"
  by (rule within_walk [OF assms])

theorem allow_list_confines_witness:
  "startswith ''/etc/portage/../portage/package.use/x'' ''/'' \<and>
   (\<exists>rest. walk [] (split_char (CHR ''/'') ''/etc/portage/../portage/package.use/x'')
      = ''etc'' # ''portage'' # rest)"
  by (rule allow_list_confines) code_simp

text \<open>a path resolved under an accepted target root lies strictly below an allowed prefix and
  has no \<open>..\<close> component, so a write meant for a target never reaches the running system.\<close>

theorem resolve_stays_in_target:
  assumes "valid_config_root root" "is_target root" "startswith path ''/''"
    "''..'' \<notin> set (split_char (CHR ''/'') path)"
  shows "(\<exists>p \<in> set ALLOWED_TARGET_ROOTS. startswith (resolve root path) (p @ ''/'')) \<and>
    ''..'' \<notin> set (split_char (CHR ''/'') (resolve root path))"
  by (rule resolve_confined [OF assms])

theorem resolve_stays_in_target_witness:
  "''..'' \<notin> set (split_char (CHR ''/'') (resolve ''/mnt/gentoo/'' ''/etc/hosts''))"
proof -
  have "valid_config_root ''/mnt/gentoo/''" "is_target ''/mnt/gentoo/''" "startswith ''/etc/hosts'' ''/''"
    "''..'' \<notin> set (split_char (CHR ''/'') ''/etc/hosts'')"
    by code_simp+
  from conjunct2 [OF resolve_stays_in_target [OF this]] show ?thesis .
qed

end
