(* ===== verification/AtomicWrite.thy ===== *)
theory AtomicWrite
  imports Paths
begin

text \<open>
  The write-then-rename idiom the program uses for every file it owns
  (\<open>gest/core/install/write.py\<close>, \<open>gest/core/disk/mount.py\<close>,
  \<open>StateStore\<close> in \<open>gest/core/install/context.py\<close>): content goes to a temporary
  file in the target directory, which then replaces the target. The files are a map from
  paths to content and mode; \<open>tmp\<close> is the name \<open>mkstemp\<close> picks, \<open>fault\<close>
  says which system calls raise OSError, and \<open>partial\<close> is what a failing write leaves
  in the temporary file. The specification is all or nothing at the target path.
\<close>

datatype write_op = MakeDirs | MakeTemp | WriteText | Chmod | Replace | Unlink

type_synonym 'c stored_files = "string \<rightharpoonup> 'c \<times> nat"
type_synonym files = "string stored_files"

text \<open>\<open>mkstemp\<close> creates the file with mode 0600; without a \<open>chmod\<close> that mode stays.\<close>

definition MODE_600 :: nat where
  "MODE_600 = 384"

definition MODE_644 :: nat where
  "MODE_644 = 420"

definition replace_file ::
    "(write_op \<Rightarrow> bool) \<Rightarrow> string \<Rightarrow> 'c \<Rightarrow> nat option \<Rightarrow> string \<Rightarrow> 'c \<Rightarrow> 'c stored_files
      \<Rightarrow> 'c stored_files \<times> string res" where
  "replace_file fault tmp partial mode path content fs =
     (if fault MakeDirs then (fs, Inl (OSError ''makedirs''))
      else if fault MakeTemp then (fs, Inl (OSError ''mkstemp''))
      else
        (let m = (case mode of None \<Rightarrow> MODE_600 | Some m \<Rightarrow> m);
             undo = (\<lambda>fs' e. (if fault Unlink then fs' else fs'(tmp := None), Inl e))
         in if fault WriteText then undo (fs(tmp \<mapsto> (partial, MODE_600))) (OSError ''write'')
            else if mode \<noteq> None \<and> fault Chmod then undo (fs(tmp \<mapsto> (content, MODE_600))) (OSError ''chmod'')
            else if fault Replace then undo (fs(tmp \<mapsto> (content, m))) (OSError ''replace'')
            else (fs(path := Some (content, m), tmp := None), Inr path)))"

text \<open>\<open>gest.core.install.write.write_under_root\<close>\<close>

definition write_under_root ::
    "(write_op \<Rightarrow> bool) \<Rightarrow> string \<Rightarrow> string \<Rightarrow> string \<Rightarrow> string \<Rightarrow> string \<Rightarrow> nat \<Rightarrow> files
      \<Rightarrow> files \<times> string res" where
  "write_under_root fault tmp partial root abs_path content mode fs =
     replace_file fault tmp partial (Some mode) (resolve root abs_path) content fs"

section \<open>All or nothing\<close>

definition committed :: "string \<Rightarrow> 'c \<times> nat \<Rightarrow> 'c stored_files \<Rightarrow> 'c stored_files \<Rightarrow> string \<Rightarrow> string res \<Rightarrow> bool \<Rightarrow> bool" where
  "committed path new fs fs' tmp r unlink_fails =
     ((case r of Inr p \<Rightarrow> p = path \<and> fs' path = Some new | Inl e \<Rightarrow> fs' path = fs path) \<and>
      (\<forall>q. q \<noteq> path \<longrightarrow> q \<noteq> tmp \<longrightarrow> fs' q = fs q) \<and> (fs' tmp = None \<or> unlink_fails))"

lemma replace_file_committed:
  assumes "replace_file fault tmp partial mode path content fs = (fs', r)" "tmp \<noteq> path" "fs tmp = None"
  shows "committed path (content, case mode of None \<Rightarrow> MODE_600 | Some m \<Rightarrow> m) fs fs' tmp r (fault Unlink)"
  using assms
  by (auto simp: replace_file_def committed_def Let_def split: if_splits)

text \<open>C29: a file written under a root is written all or nothing: the path holds afterwards either
  what it held or the whole text with the mode asked for, the latter exactly when the call
  returns the path; no other file changes, and the temporary one is gone unless its removal
  failed too.\<close>

theorem write_under_root_atomic:
  assumes "write_under_root fault tmp partial root abs_path content mode fs = (fs', r)"
    "tmp \<noteq> resolve root abs_path" "fs tmp = None"
  shows "(case r of Inr p \<Rightarrow> p = resolve root abs_path \<and> fs' p = Some (content, mode)
      | Inl e \<Rightarrow> fs' (resolve root abs_path) = fs (resolve root abs_path)) \<and>
    (\<forall>q. q \<noteq> resolve root abs_path \<longrightarrow> q \<noteq> tmp \<longrightarrow> fs' q = fs q) \<and> (fs' tmp = None \<or> fault Unlink)"
proof -
  have "committed (resolve root abs_path) (content, mode) fs fs' tmp r (fault Unlink)"
    using replace_file_committed [of fault tmp partial "Some mode" "resolve root abs_path" content fs fs' r]
      assms by (simp add: write_under_root_def)
  then show ?thesis
    by (cases r) (auto simp: committed_def)
qed

theorem write_under_root_atomic_witness:
  "fst (write_under_root (\<lambda>op. op = Replace) ''/mnt/gentoo/etc/.gest.x'' [] ''/mnt/gentoo'' ''/etc/hosts''
      ''127.0.0.1 localhost'' 420 [''/mnt/gentoo/etc/hosts'' \<mapsto> (''old'', 420)])
    ''/mnt/gentoo/etc/hosts'' = Some (''old'', 420)"
proof -
  let ?fs = "[''/mnt/gentoo/etc/hosts'' \<mapsto> (''old'', 420 :: nat)]"
  let ?w = "write_under_root (\<lambda>op. op = Replace) ''/mnt/gentoo/etc/.gest.x'' [] ''/mnt/gentoo'' ''/etc/hosts''
      ''127.0.0.1 localhost'' 420 ?fs"
  have "snd ?w = Inl (OSError ''replace'')" by code_simp
  then obtain fs' where w: "?w = (fs', Inl (OSError ''replace''))" by (cases ?w) auto
  have "resolve ''/mnt/gentoo'' ''/etc/hosts'' = ''/mnt/gentoo/etc/hosts''" by code_simp
  with write_under_root_atomic [OF w] w show ?thesis by simp
qed

end
