(* ===== verification/DiskMount.thy ===== *)
theory DiskMount
  imports DiskProvision AtomicWrite
    "HOL-Library.Multiset" "HOL-Library.Product_Lexorder" "HOL-Library.List_Lexorder" "HOL-Library.Char_ord"
begin

text \<open>
  \<open>gest/core/disk/mount.py\<close>: from a partitioned disk to a mounted install target with
  its own \<open>/etc/fstab\<close>. The lemmas show that every mount stays under an allowed prefix
  and comes after the mounts it is nested in, that the generated fstab parses to one valid
  entry per device, and that the file write is all or nothing.
\<close>

section \<open>Target roots\<close>

record target_mount =
  tm_device :: string
  tm_path :: string
  tm_fstype :: string

record mount_plan =
  mp_root :: string
  mp_mounts :: "target_mount list"
  mp_swap :: "string list"

definition MOUNT_TARGET_ROOTS :: "string list" where
  "MOUNT_TARGET_ROOTS = [''/mnt'', ''/media'', ''/run/media'']"

definition ROLE_TO_PATH :: "(string \<times> string) list" where
  "ROLE_TO_PATH = [(''root'', ''/''), (''esp'', ''/efi''), (''boot'', ''/boot''), (''home'', ''/home''),
     (''var'', ''/var'')]"

definition valid_target_root :: "string \<Rightarrow> bool" where
  "valid_target_root root =
     (if \<not> valid_target_path root then False
      else list_ex (\<lambda>prefix. startswith root (prefix @ ''/'')) MOUNT_TARGET_ROOTS)"

definition guard_target_root :: "string \<Rightarrow> 'a res \<Rightarrow> 'a res" where
  "guard_target_root root k =
     guard (valid_target_root root) (ValueError (''unsafe target root: '' @ py_repr root)) k"

definition target_abs :: "string \<Rightarrow> string \<Rightarrow> string" where
  "target_abs root path = (if path = ''/'' then root else rstrip_char (CHR ''/'') root @ path)"

section \<open>Deriving the mounts\<close>

definition role_path :: "string option \<Rightarrow> string res" where
  "role_path label =
     (let key = lower (given label)
      in case map_of ROLE_TO_PATH key of
           Some p \<Rightarrow> Inr p
         | None \<Rightarrow>
             if given label = []
             then Inl (ValueError ''filesystem has no label/role; cannot derive a mount point'')
             else Inr (CHR ''/'' # key))"

definition mount_order :: "target_mount \<Rightarrow> nat \<times> string" where
  "mount_order m = (if tm_path m = ''/'' then 0 else count_char (CHR ''/'') (tm_path m), tm_path m)"

definition fs_mount :: "filesystem \<Rightarrow> target_mount res" where
  "fs_mount fs = res_bind (role_path (fs_label fs)) (\<lambda>p.
     Inr \<lparr>tm_device = fs_device fs, tm_path = p, tm_fstype = fs_kind fs\<rparr>)"

definition derive_mount_plan :: "disk_plan \<Rightarrow> string \<Rightarrow> mount_plan res" where
  "derive_mount_plan disk_plan target_root =
     guard_target_root target_root
       (res_bind (res_map fs_mount (filter (\<lambda>fs. fs_kind fs \<noteq> ''swap'') (dp_filesystems disk_plan)))
          (\<lambda>mounts. Inr \<lparr>mp_root = target_root, mp_mounts = sort_key mount_order mounts,
             mp_swap = map fs_device (filter (\<lambda>fs. fs_kind fs = ''swap'') (dp_filesystems disk_plan))\<rparr>))"

section \<open>The mount pipeline\<close>

definition mount_step_pair :: "string \<Rightarrow> target_mount \<Rightarrow> step list res" where
  "mount_step_pair root m =
     (let dest = target_abs root (tm_path m)
      in res_bind (mkdir_p_argv dest) (\<lambda>mk.
         res_bind (mount_device_argv (tm_device m) dest) (\<lambda>mnt.
           Inr [Step (''create '' @ dest) mk,
                Step (''mount '' @ tm_device m @ '' '' @ ARROW @ '' '' @ dest) mnt])))"

definition swap_step :: "string \<Rightarrow> step res" where
  "swap_step device = res_bind (swapon_argv device) (\<lambda>argv.
     Inr (Step (''enable swap on '' @ device) argv))"

definition mount_steps :: "mount_plan \<Rightarrow> step list res" where
  "mount_steps plan =
     res_bind (res_map (mount_step_pair (mp_root plan)) (mp_mounts plan)) (\<lambda>pairs.
     res_bind (res_map swap_step (mp_swap plan)) (\<lambda>swaps. Inr (concat pairs @ swaps)))"

definition mount_plan_labels :: "mount_plan \<Rightarrow> string list" where
  "mount_plan_labels plan =
     map (\<lambda>m. ''Mount '' @ tm_device m @ '' '' @ ARROW @ '' '' @ target_abs (mp_root plan) (tm_path m))
       (mp_mounts plan)
     @ map (\<lambda>d. ''Enable swap on '' @ d) (mp_swap plan)"

definition apply_mount_plan ::
    "mount_plan \<Rightarrow> 'w executor \<Rightarrow> 'w \<Rightarrow> 'w \<times> event list \<times> (pipe_error + step list)" where
  "apply_mount_plan plan run w =
     (case guard_target_root (mp_root plan) (mount_steps plan) of
        Inl e \<Rightarrow> (w, [], Inl (Raised e))
      | Inr steps \<Rightarrow> run_steps run steps w)"

record 'w mounter =
  mt_mount_at :: "'w \<Rightarrow> string \<Rightarrow> string \<Rightarrow> 'w \<times> bool \<times> string"
  mt_swapon :: "'w \<Rightarrow> string \<Rightarrow> 'w \<times> bool \<times> string"

fun backend_phases ::
    "nat \<Rightarrow> (string \<times> ('w \<Rightarrow> 'w \<times> bool \<times> string)) list \<Rightarrow> 'w \<Rightarrow> 'w \<times> event list \<times> pipe_error option" where
  "backend_phases index [] w = (w, [], None)"
| "backend_phases index ((label, call) # phases) w =
     (case call w of
        (w', ok, out) \<Rightarrow>
          (if \<not> ok then (w', OnStep index # emit out, Some (fail label out 1))
           else (case backend_phases (Suc index) phases w' of
                   (w'', ev, r) \<Rightarrow> (w'', OnStep index # emit out @ ev, r))))"

definition mount_phases :: "mount_plan \<Rightarrow> 'w mounter \<Rightarrow> (string \<times> ('w \<Rightarrow> 'w \<times> bool \<times> string)) list" where
  "mount_phases plan backend =
     map (\<lambda>m. let dest = target_abs (mp_root plan) (tm_path m)
              in (''mount '' @ tm_device m @ '' '' @ ARROW @ '' '' @ dest,
                  \<lambda>w. mt_mount_at backend w (tm_device m) dest)) (mp_mounts plan)
     @ map (\<lambda>d. (''enable swap on '' @ d, \<lambda>w. mt_swapon backend w d)) (mp_swap plan)"

definition apply_mount_plan_via_backend ::
    "mount_plan \<Rightarrow> 'w mounter \<Rightarrow> 'w \<Rightarrow> 'w \<times> event list \<times> pipe_error option" where
  "apply_mount_plan_via_backend plan backend w =
     (case guard_target_root (mp_root plan) (Inr ()) of
        Inl e \<Rightarrow> (w, [], Some (Raised e))
      | Inr _ \<Rightarrow> backend_phases 0 (mount_phases plan backend) w)"

section \<open>The fstab of the target\<close>

definition fstab_devices :: "mount_plan \<Rightarrow> string list" where
  "fstab_devices plan = map tm_device (mp_mounts plan) @ mp_swap plan"

definition uuid_for :: "(string \<times> string) list \<Rightarrow> string \<Rightarrow> string res" where
  "uuid_for uuids device =
     (let uuid = given (map_of uuids device)
      in guard (uuid \<noteq> []) (ValueError (''no UUID for '' @ device)) (Inr uuid))"

definition generate_target_fstab :: "mount_plan \<Rightarrow> (string \<times> string) list \<Rightarrow> string res" where
  "generate_target_fstab plan uuids =
     res_bind (res_map (\<lambda>m. res_bind (uuid_for uuids (tm_device m)) (\<lambda>u.
         Inr (gen_fstab_entry u (tm_path m) (tm_fstype m)))) (mp_mounts plan)) (\<lambda>entries.
     res_bind (res_map (\<lambda>d. res_bind (uuid_for uuids d) (\<lambda>u.
         Inr (gen_fstab_entry u ''none'' ''swap''))) (mp_swap plan)) (\<lambda>swaps.
       Inr (render_fstab (entries @ swaps))))"

definition write_target_fstab_file ::
    "(write_op \<Rightarrow> bool) \<Rightarrow> string \<Rightarrow> string \<Rightarrow> string \<Rightarrow> string \<Rightarrow> files \<Rightarrow> files \<times> string res" where
  "write_target_fstab_file fault tmp partial target_root content fs =
     (case guard_target_root target_root (valid_generated_fstab content) of
        Inl e \<Rightarrow> (fs, Inl e)
      | Inr well_formed \<Rightarrow>
          if \<not> well_formed then (fs, Inl (ValueError ''refusing to write a malformed fstab''))
          else replace_file fault tmp partial (Some MODE_644)
                 (path_join target_root [''etc'', ''fstab'']) content fs)"

section \<open>Parents before children\<close>

text \<open>\<open>q\<close> lies strictly inside \<open>p\<close>.\<close>

definition nested :: "string \<Rightarrow> string \<Rightarrow> bool" where
  "nested p q = (if p = ''/'' then q \<noteq> ''/'' else startswith q (p @ ''/''))"

lemma role_path_absolute: "role_path l = Inr p \<Longrightarrow> startswith p ''/''"
proof -
  have "list_all (\<lambda>(k, p). startswith p ''/'') ROLE_TO_PATH" by code_simp
  then show "role_path l = Inr p \<Longrightarrow> startswith p ''/''"
    by (auto simp: role_path_def Let_def startswith_def list_all_iff split: option.splits if_splits
        dest!: map_of_SomeD)
qed

lemma nested_order:
  assumes "startswith p ''/''" "startswith q ''/''" "nested p q" "tm_path m = p" "tm_path n = q"
  shows "mount_order m < mount_order n"
proof -
  have c: "count_char (CHR ''/'') s \<ge> 1" if "startswith s ''/''" for s
    using that by (auto simp: startswith_decomp count_char_def)
  show ?thesis
  proof (cases "p = ''/''")
    case True
    then show ?thesis
      using assms c [of q] by (auto simp: mount_order_def nested_def)
  next
    case False
    then obtain t where "q = p @ CHR ''/'' # t"
      using assms(3) by (auto simp: nested_def startswith_decomp)
    moreover from this have "q \<noteq> ''/''"
      using assms(1) by (cases p) (auto simp: startswith_decomp)
    ultimately show ?thesis
      using assms False by (auto simp: mount_order_def count_char_def)
  qed
qed

lemma derive_mounts:
  assumes "derive_mount_plan dp root = Inr plan"
  obtains ms where "res_map fs_mount (filter (\<lambda>fs. fs_kind fs \<noteq> ''swap'') (dp_filesystems dp)) = Inr ms"
    "plan = \<lparr>mp_root = root, mp_mounts = sort_key mount_order ms,
       mp_swap = map fs_device (filter (\<lambda>fs. fs_kind fs = ''swap'') (dp_filesystems dp))\<rparr>"
    "valid_target_root root"
  using assms by (auto simp: derive_mount_plan_def guard_target_root_def res_simps)

lemma fs_mount_absolute: "fs_mount fs = Inr m \<Longrightarrow> startswith (tm_path m) ''/''"
  by (auto simp: fs_mount_def res_simps dest: role_path_absolute)

lemma derived_paths_absolute:
  "derive_mount_plan dp root = Inr plan \<Longrightarrow> m \<in> set (mp_mounts plan) \<Longrightarrow> startswith (tm_path m) ''/''"
  by (elim derive_mounts) (fastforce dest: res_map_InrD fs_mount_absolute)

lemma sorted_key_le:
  "i < j \<Longrightarrow> j < length xs \<Longrightarrow> f (sort_key f xs ! i) \<le> f (sort_key f xs ! j)"
  using sorted_nth_mono [OF sorted_sort_key [of f xs], of i j] by simp

lemma res_map_fs_mount:
  "res_map fs_mount fss = Inr ms \<Longrightarrow> map tm_device ms = map fs_device fss \<and> map tm_fstype ms = map fs_kind fss"
  by (induction fss arbitrary: ms) (auto simp: fs_mount_def res_simps split: sum.splits)

section \<open>Every mount below an allowed prefix\<close>

definition confined :: "string \<Rightarrow> bool" where
  "confined p = ((\<exists>r \<in> set MOUNT_TARGET_ROOTS. startswith p (r @ ''/'')) \<and>
     ''..'' \<notin> set (split_char (CHR ''/'') p))"

lemma target_roots_ends: "r \<in> set MOUNT_TARGET_ROOTS \<Longrightarrow> r \<noteq> [] \<and> last r \<noteq> CHR ''/''"
  by (auto simp: MOUNT_TARGET_ROOTS_def)

lemma target_abs_below:
  assumes "valid_target_root root" "startswith p ''/''"
  shows "\<exists>r \<in> set MOUNT_TARGET_ROOTS. startswith (target_abs root p) (r @ ''/'')"
proof -
  obtain r where r: "r \<in> set MOUNT_TARGET_ROOTS" "startswith root (r @ ''/'')"
    using assms(1) by (auto simp: valid_target_root_def list_ex_iff split: if_splits)
  have "rstrip_char (CHR ''/'') root = r \<or> startswith (rstrip_char (CHR ''/'') root) (r @ ''/'')"
    using rstrip_slash_prefix [OF r(2)] target_roots_ends [OF r(1)] by blast
  then have "startswith (target_abs root p) (r @ ''/'')"
    using assms(2) r(2) by (auto simp: target_abs_def startswith_decomp)
  with r(1) show ?thesis by blast
qed

lemma mount_step_pair_dest:
  assumes "mount_step_pair root m = Inr steps" "valid_target_root root" "startswith (tm_path m) ''/''"
  shows "map st_argv steps = [[''mkdir'', ''-p'', target_abs root (tm_path m)],
      [''mount'', tm_device m, target_abs root (tm_path m)]] \<and> confined (target_abs root (tm_path m)) \<and>
      valid_device (tm_device m)"
  using assms target_abs_below [OF assms(2,3)]
  by (auto simp: mount_step_pair_def mkdir_p_argv_def mount_device_argv_def require_defs res_simps
      Let_def confined_def valid_target_path_def)

lemma res_map_mount_pairs:
  "res_map (mount_step_pair root) ms = Inr pairs \<Longrightarrow> valid_target_root root \<Longrightarrow>
    \<forall>m \<in> set ms. startswith (tm_path m) ''/'' \<Longrightarrow>
    map st_argv (concat pairs) = concat (map (\<lambda>m. [[''mkdir'', ''-p'', target_abs root (tm_path m)],
      [''mount'', tm_device m, target_abs root (tm_path m)]]) ms) \<and>
    list_all (\<lambda>m. confined (target_abs root (tm_path m)) \<and> valid_device (tm_device m)) ms"
  by (induction ms arbitrary: pairs) (auto split: sum.splits dest: mount_step_pair_dest)

lemma res_map_swap_steps:
  "res_map swap_step ds = Inr steps \<Longrightarrow> map st_argv steps = map (\<lambda>d. [''swapon'', d]) ds"
  by (induction ds arbitrary: steps)
    (auto simp: swap_step_def swapon_argv_def require_defs res_simps split: sum.splits)

text \<open>in a derived mount plan a filesystem never comes before one it is mounted inside of,
  and the plan holds every filesystem of the disk plan: the non-swap ones as mounts, in some
  order, the swap ones in their order.\<close>

theorem derive_mount_plan_ordered:
  assumes "derive_mount_plan dp root = Inr plan"
  shows "(\<forall>i j. i < j \<longrightarrow> j < length (mp_mounts plan) \<longrightarrow>
      \<not> nested (tm_path (mp_mounts plan ! j)) (tm_path (mp_mounts plan ! i))) \<and>
    mset (map tm_device (mp_mounts plan))
      = mset (map fs_device (filter (\<lambda>fs. fs_kind fs \<noteq> ''swap'') (dp_filesystems dp))) \<and>
    mp_swap plan = map fs_device (filter (\<lambda>fs. fs_kind fs = ''swap'') (dp_filesystems dp))"
proof (rule derive_mounts [OF assms])
  fix ms
  assume ms: "res_map fs_mount (filter (\<lambda>fs. fs_kind fs \<noteq> ''swap'') (dp_filesystems dp)) = Inr ms"
    and plan: "plan = \<lparr>mp_root = root, mp_mounts = sort_key mount_order ms,
       mp_swap = map fs_device (filter (\<lambda>fs. fs_kind fs = ''swap'') (dp_filesystems dp))\<rparr>"
  have "\<not> nested (tm_path (mp_mounts plan ! j)) (tm_path (mp_mounts plan ! i))"
    if ij: "i < j" "j < length (mp_mounts plan)" for i j
  proof
    assume n: "nested (tm_path (mp_mounts plan ! j)) (tm_path (mp_mounts plan ! i))"
    have "mount_order (mp_mounts plan ! j) < mount_order (mp_mounts plan ! i)"
      by (rule nested_order [OF _ _ n])
        (use ij derived_paths_absolute [OF assms] in \<open>auto intro: nth_mem\<close>)
    moreover have "mount_order (mp_mounts plan ! i) \<le> mount_order (mp_mounts plan ! j)"
      using sorted_key_le [of i j ms mount_order] ij by (simp add: plan)
    ultimately show False by simp
  qed
  moreover have "mset (map tm_device (mp_mounts plan)) = mset (map tm_device ms)"
    by (simp add: plan mset_map)
  ultimately show ?thesis
    using res_map_fs_mount [OF ms] plan by simp
qed


definition derived_example :: disk_plan where
  "derived_example = \<lparr>dp_disk = ''/dev/sda'', dp_wipe = True, dp_partitions = [],
     dp_filesystems = [Filesystem ''/dev/sda1'' ''vfat'' ''ESP'', Filesystem ''/dev/sda2'' ''swap'' ''swap'',
       Filesystem ''/dev/sda3'' ''ext4'' ''root'']\<rparr>"

definition derived_mounts :: mount_plan where
  "derived_mounts = \<lparr>mp_root = ''/mnt/gentoo'',
     mp_mounts = [\<lparr>tm_device = ''/dev/sda3'', tm_path = ''/'', tm_fstype = ''ext4''\<rparr>,
       \<lparr>tm_device = ''/dev/sda1'', tm_path = ''/efi'', tm_fstype = ''vfat''\<rparr>],
     mp_swap = [''/dev/sda2'']\<rparr>"

lemma derived_example_plan: "derive_mount_plan derived_example ''/mnt/gentoo'' = Inr derived_mounts"
  by code_simp

theorem derive_mount_plan_ordered_witness:
  "\<not> nested (tm_path (mp_mounts derived_mounts ! 1)) (tm_path (mp_mounts derived_mounts ! 0))"
  using conjunct1 [OF derive_mount_plan_ordered [OF derived_example_plan], rule_format, of 0 1]
  by (simp add: derived_mounts_def)


section \<open>The generated fstab\<close>

definition uuid_ok :: "string \<Rightarrow> bool" where
  "uuid_ok u = (u \<noteq> [] \<and> list_all spec_char u \<and> length u \<le> 250)"

definition mount_ok :: "target_mount \<Rightarrow> bool" where
  "mount_ok m = (valid_mount_target (tm_path m) \<and> valid_fstype (tm_fstype m) \<and> tm_fstype m \<noteq> ''swap'')"

text \<open>An entry as the parser returns it.\<close>

definition flagged :: "fstab_entry \<Rightarrow> fstab_entry" where
  "flagged e = e\<lparr>fe_protected := is_protected e\<rparr>"

lemma gen_entry_stored:
  assumes "uuid_ok u" "valid_mountpoint mp" "valid_fstype ty"
  shows "stored (flagged (gen_fstab_entry u mp ty))"
proof -
  have o: "valid_options ''sw''" "valid_options ''umask=0077''" "valid_options ''noatime''"
    "valid_options ''defaults''"
    by code_simp+
  have "alnum_az (CHR ''U'') \<and> list_all spec_char ''UID=''" by code_simp
  then have "valid_spec (''UUID='' @ u)"
    using assms(1) by (simp add: valid_spec_def SPEC_RE_def rx_simps uuid_ok_def SPEC_PREFIXES_def startswith_def)
  with o assms(2,3) show ?thesis
    by (auto simp: stored_def flagged_def gen_fstab_entry_def entry_defaults_def valid_entry_def
        FstabEntry_def is_protected_def)
qed

lemma render_flagged: "render_entry (flagged e) = render_entry e"
  by (simp add: render_entry_def flagged_def)

lemma render_fstab_flagged: "render_fstab (map flagged es) = render_fstab es"
  by (simp add: render_fstab_def comp_def render_flagged)

text \<open>the fstab generated for a target parses to exactly one entry per device of the plan, with
  its UUID, mount point and type, and passes the check made before it is written.\<close>

theorem generate_target_fstab_parses:
  assumes "list_all mount_ok (mp_mounts plan)" "fstab_devices plan \<noteq> []"
    "list_all (\<lambda>d. \<exists>u. map_of uuids d = Some u \<and> uuid_ok u) (fstab_devices plan)"
  shows "\<exists>content. generate_target_fstab plan uuids = Inr content \<and>
    parse_fstab content = Inr (
      map (\<lambda>m. flagged (gen_fstab_entry (the (map_of uuids (tm_device m))) (tm_path m) (tm_fstype m))) (mp_mounts plan)
      @ map (\<lambda>d. flagged (gen_fstab_entry (the (map_of uuids d)) ''none'' ''swap'')) (mp_swap plan)) \<and>
    valid_generated_fstab content = Inr True"
proof -
  let ?ms = "map (\<lambda>m. gen_fstab_entry (the (map_of uuids (tm_device m))) (tm_path m) (tm_fstype m)) (mp_mounts plan)"
    and ?sw = "map (\<lambda>d. gen_fstab_entry (the (map_of uuids d)) ''none'' ''swap'') (mp_swap plan)"
  have u: "uuid_for uuids d = Inr (the (map_of uuids d)) \<and> uuid_ok (the (map_of uuids d))"
    if "d \<in> set (fstab_devices plan)" for d
    using assms(3) that by (auto simp: list_all_iff uuid_for_def given_def uuid_ok_def)
  have "res_map (\<lambda>m. res_bind (uuid_for uuids (tm_device m)) (\<lambda>u.
         Inr (gen_fstab_entry u (tm_path m) (tm_fstype m)))) (mp_mounts plan) = Inr ?ms"
    by (rule res_map_total) (use u in \<open>simp add: fstab_devices_def\<close>)
  moreover have "res_map (\<lambda>d. res_bind (uuid_for uuids d) (\<lambda>u.
         Inr (gen_fstab_entry u ''none'' ''swap''))) (mp_swap plan) = Inr ?sw"
    by (rule res_map_total) (use u in \<open>simp add: fstab_devices_def\<close>)
  ultimately have gen: "generate_target_fstab plan uuids = Inr (render_fstab (map flagged (?ms @ ?sw)))"
    by (simp only: render_fstab_flagged generate_target_fstab_def res_bind.simps)
  have v: "valid_mountpoint ''none''" "valid_fstype ''swap''" by code_simp+
  have all: "list_all stored (map flagged (?ms @ ?sw))"
    using u assms(1) v gen_entry_stored
    by (auto simp: list_all_iff fstab_devices_def mount_ok_def valid_mount_target_def)
  then have parse: "parse_fstab (render_fstab (map flagged (?ms @ ?sw))) = Inr (map flagged (?ms @ ?sw))"
    using parse_render_fstab [OF all] parse_rendered_lines [OF all] by simp
  have "map flagged (?ms @ ?sw) \<noteq> []"
    using assms(2) by (auto simp: fstab_devices_def)
  moreover have "list_all valid_entry (map flagged (?ms @ ?sw))"
    using all by (auto simp: list_all_iff stored_def)
  ultimately have "valid_generated_fstab (render_fstab (map flagged (?ms @ ?sw))) = Inr True"
    by (simp only: valid_generated_fstab_def parse res_bind.simps simp_thms)
  with gen parse show ?thesis by (auto simp: comp_def)
qed

lemma uuids_given:
  "list_all (\<lambda>d. uuid_ok (given (map_of us d))) ds \<Longrightarrow>
    list_all (\<lambda>d. \<exists>u. map_of us d = Some u \<and> uuid_ok u) ds"
  by (induction ds) (auto simp: given_def uuid_ok_def split: option.splits)

theorem generate_target_fstab_parses_witness:
  "\<exists>content. generate_target_fstab derived_mounts
      [(''/dev/sda1'', ''AB-12''), (''/dev/sda2'', ''5e3a''), (''/dev/sda3'', ''0c11'')] = Inr content \<and>
    valid_generated_fstab content = Inr True"
proof -
  let ?u = "[(''/dev/sda1'', ''AB-12''), (''/dev/sda2'', ''5e3a''), (''/dev/sda3'', ''0c11'')]"
  have "list_all mount_ok (mp_mounts derived_mounts)" "fstab_devices derived_mounts \<noteq> []"
    "list_all (\<lambda>d. uuid_ok (given (map_of ?u d))) (fstab_devices derived_mounts)"
    by code_simp+
  from generate_target_fstab_parses [OF this(1,2) uuids_given [OF this(3)]] show ?thesis
    by blast
qed

text \<open>the target fstab is written all or nothing: the file at the target is afterwards
  either what it was or the whole text with mode 0644, the latter exactly when the write
  returns its path; no other file changes, and the temporary one is gone unless its removal
  failed too.\<close>

theorem write_target_fstab_atomic:
  assumes "write_target_fstab_file fault tmp partial root content fs = (fs', r)"
    "path = path_join root [''etc'', ''fstab'']" "tmp \<noteq> path" "fs tmp = None"
  shows "(case r of Inr p \<Rightarrow> p = path \<and> fs' path = Some (content, 420) \<and> valid_target_root root \<and>
        valid_generated_fstab content = Inr True
      | Inl e \<Rightarrow> fs' path = fs path) \<and>
    (\<forall>q. q \<noteq> path \<longrightarrow> q \<noteq> tmp \<longrightarrow> fs' q = fs q) \<and> (fs' tmp = None \<or> fault Unlink)"
  using assms replace_file_committed [of fault tmp partial "Some MODE_644" path content fs fs' r]
  by (auto simp: write_target_fstab_file_def guard_target_root_def guard_def committed_def MODE_644_def
      split: sum.splits if_splits)

theorem write_target_fstab_atomic_witness:
  "fst (write_target_fstab_file (\<lambda>op. op = Chmod) ''/mnt/gentoo/etc/.gest.x'' [] ''/mnt/gentoo''
      (''UUID=1 / ext4 noatime 0 1'' @ [LF]) [''/mnt/gentoo/etc/fstab'' \<mapsto> (''old'', 420)])
    ''/mnt/gentoo/etc/fstab'' = Some (''old'', 420)"
proof -
  let ?c = "''UUID=1 / ext4 noatime 0 1'' @ [LF]" and ?fs = "[''/mnt/gentoo/etc/fstab'' \<mapsto> (''old'', 420 :: nat)]"
  let ?w = "write_target_fstab_file (\<lambda>op. op = Chmod) ''/mnt/gentoo/etc/.gest.x'' [] ''/mnt/gentoo'' ?c ?fs"
  have "snd ?w = Inl (OSError ''chmod'')" by code_simp
  then obtain fs' where w: "?w = (fs', Inl (OSError ''chmod''))" by (cases ?w) auto
  have "''/mnt/gentoo/etc/fstab'' = path_join ''/mnt/gentoo'' [''etc'', ''fstab'']" by code_simp
  from write_target_fstab_atomic [OF w this] w show ?thesis by simp
qed

text \<open>a bare allowed prefix with a trailing slash passes both root checks, and the mount then
  lands on the prefix directory itself.\<close>

theorem bare_prefix_accepted:
  "valid_target_root ''/mnt/'' \<and> valid_config_root ''/mnt/'' \<and> target_abs ''/mnt/'' ''/'' = ''/mnt/''
   \<and> \<not> valid_target_root ''/mnt'' \<and> \<not> valid_config_root ''/mnt''"
  by code_simp

end
