(* ===== verification/ChrootPrep.thy ===== *)
theory ChrootPrep
  imports DiskMount
begin

text \<open>
  \<open>gest/core/chroot/commands.py\<close>, \<open>gest/core/chroot/prepare.py\<close> and
  \<open>gest/core/exec/chroot.py\<close>: the pseudo-filesystem mounts of an install target, their
  best-effort teardown, and the executor that runs the same argv inside the target. The lemmas
  show that a valid root always gets the whole sequence, that the teardown undoes the mounts in
  reverse order whatever the commands report, and that a pipeline run through the chroot
  executor is the same pipeline with the \<open>chroot\<close> prefix.
\<close>

section \<open>gest.core.chroot.commands\<close>

definition require_target_path :: "string \<Rightarrow> 'a res \<Rightarrow> 'a res" where
  "require_target_path path k =
     guard (valid_target_path path) (ValueError (''invalid target path: '' @ py_repr path)) k"

definition ch_mkdir_p_argv :: "string \<Rightarrow> string list res" where
  "ch_mkdir_p_argv path = require_target_path path (Inr [''mkdir'', ''-p'', path])"

definition mount_proc_argv :: "string \<Rightarrow> string list res" where
  "mount_proc_argv target =
     require_target_path target (Inr [''mount'', ''-t'', ''proc'', ''proc'', target])"

definition mount_pseudo_argv :: "string \<Rightarrow> string \<Rightarrow> bool \<Rightarrow> string list res" where
  "mount_pseudo_argv source target rbind =
     require_target_path source (require_target_path target
       (Inr [''mount'', if rbind then ''--rbind'' else ''--bind'', source, target]))"

definition make_propagation_argv :: "string \<Rightarrow> string \<Rightarrow> string list res" where
  "make_propagation_argv target mode =
     guard (mode = ''rslave'' \<or> mode = ''slave'') (ValueError (''invalid propagation mode: '' @ py_repr mode))
       (require_target_path target (Inr [''mount'', ''--make-'' @ mode, target]))"

definition umount_lazy_argv :: "string \<Rightarrow> bool \<Rightarrow> string list res" where
  "umount_lazy_argv path recursive =
     require_target_path path
       (Inr (if recursive then [''umount'', ''-R'', ''-l'', path] else [''umount'', ''-l'', path]))"

definition cp_resolv_argv :: "string \<Rightarrow> string list res" where
  "cp_resolv_argv root =
     (let dest = rstrip_char (CHR ''/'') root @ ''/etc/resolv.conf''
      in require_target_path dest (Inr [''cp'', ''--dereference'', ''/etc/resolv.conf'', dest]))"

section \<open>gest.core.chroot.prepare\<close>

definition under_root :: "string \<Rightarrow> string \<Rightarrow> string" where
  "under_root root sub = rstrip_char (CHR ''/'') root @ ''/'' @ lstrip_char (CHR ''/'') sub"

text \<open>A list of steps whose builders run in order; the first that refuses raises.\<close>

definition built :: "(string \<times> string list res) list \<Rightarrow> step list res" where
  "built specs = res_map (\<lambda>(label, argv). res_bind argv (\<lambda>a. Inr (Step label a))) specs"

definition pseudo_mount_steps :: "string \<Rightarrow> step list res" where
  "pseudo_mount_steps root =
     (let proc = under_root root ''proc''; sys = under_root root ''sys''; dev = under_root root ''dev''; run = under_root root ''run''
      in built
        [(''create '' @ proc, ch_mkdir_p_argv proc),
         (''mount proc at '' @ proc, mount_proc_argv proc),
         (''create '' @ sys, ch_mkdir_p_argv sys),
         (''rbind /sys '' @ ARROW @ '' '' @ sys, mount_pseudo_argv ''/sys'' sys True),
         (''make '' @ sys @ '' rslave'', make_propagation_argv sys ''rslave''),
         (''create '' @ dev, ch_mkdir_p_argv dev),
         (''rbind /dev '' @ ARROW @ '' '' @ dev, mount_pseudo_argv ''/dev'' dev True),
         (''make '' @ dev @ '' rslave'', make_propagation_argv dev ''rslave''),
         (''create '' @ run, ch_mkdir_p_argv run),
         (''bind /run '' @ ARROW @ '' '' @ run, mount_pseudo_argv ''/run'' run False),
         (''make '' @ run @ '' slave'', make_propagation_argv run ''slave'')])"

definition pseudo_unmount_steps :: "string \<Rightarrow> step list res" where
  "pseudo_unmount_steps root =
     (let run = under_root root ''run''; dev = under_root root ''dev''; sys = under_root root ''sys''; proc = under_root root ''proc''
      in built
        [(''unmount '' @ run, umount_lazy_argv run False),
         (''unmount '' @ dev, umount_lazy_argv dev True),
         (''unmount '' @ sys, umount_lazy_argv sys True),
         (''unmount '' @ proc, umount_lazy_argv proc False)])"

definition resolv_copy_step :: "string \<Rightarrow> step res" where
  "resolv_copy_step root =
     res_bind (cp_resolv_argv root) (\<lambda>argv.
       Inr (Step (''copy resolv.conf '' @ ARROW @ '' '' @ under_root root ''etc/resolv.conf'') argv))"

definition prepare_chroot :: "string \<Rightarrow> 'w executor \<Rightarrow> 'w \<Rightarrow> 'w \<times> event list \<times> (pipe_error + step list)" where
  "prepare_chroot root run w =
     (case guard_target_root root
             (res_bind (pseudo_mount_steps root) (\<lambda>mounts.
              res_bind (resolv_copy_step root) (\<lambda>copy. Inr (mounts @ [copy])))) of
        Inl e \<Rightarrow> (w, [], Inl (Raised e))
      | Inr steps \<Rightarrow> run_steps run steps w)"

text \<open>Every exception of the executor is suppressed and every exit code ignored.\<close>

fun teardown_from :: "'w executor \<Rightarrow> nat \<Rightarrow> step list \<Rightarrow> 'w \<Rightarrow> 'w \<times> event list" where
  "teardown_from run index [] w = (w, [])"
| "teardown_from run index (s # ss) w =
     (case run w (st_argv s) None of
        (w', ev, r) \<Rightarrow> (case teardown_from run (Suc index) ss w' of
           (w'', ev') \<Rightarrow> (w'', OnStep index # ev @ ev')))"

definition teardown_chroot :: "string \<Rightarrow> 'w executor \<Rightarrow> 'w \<Rightarrow> 'w \<times> event list \<times> step list res" where
  "teardown_chroot root run w =
     (case guard_target_root root (pseudo_unmount_steps root) of
        Inl e \<Rightarrow> (w, [], Inl e)
      | Inr steps \<Rightarrow> (case teardown_from run 0 steps w of (w', ev) \<Rightarrow> (w', ev, Inr steps)))"

section \<open>gest.core.exec.chroot\<close>

text \<open>The constructor guards the root; an executor exists only for a root that passed.\<close>

definition chroot_run :: "'w executor \<Rightarrow> string \<Rightarrow> 'w executor" where
  "chroot_run inner root w argv stdin = inner w (''chroot'' # root # argv) stdin"

definition chroot_executor :: "'w executor \<Rightarrow> string \<Rightarrow> 'w executor res" where
  "chroot_executor inner root = guard_target_root root (Inr (chroot_run inner root))"

interpretation chrooted: logged_executor "chroot_run (fake_run code_for) root" fake_log
    "\<lambda>argv. ''chroot'' # root # argv" fake_ok
proof -
  have "chroot_run (fake_run code_for) root = (\<lambda>w argv. fake_run code_for w (''chroot'' # root # argv))"
    by (intro ext) (simp add: chroot_run_def)
  then show "logged_executor (chroot_run (fake_run code_for) root) fake_log
      (\<lambda>argv. ''chroot'' # root # argv) fake_ok"
    using recorder.wrapped [of code_for "\<lambda>argv. ''chroot'' # root # argv"] by simp
qed

section \<open>The sequences of a valid root\<close>

lemma built_argvs: "built specs = Inr steps \<Longrightarrow> map Inr (map st_argv steps) = map snd specs"
  unfolding built_def
  by (induction specs arbitrary: steps) (auto simp: res_simps split: sum.splits)

lemma built_stdin: "built specs = Inr steps \<Longrightarrow> list_all (\<lambda>s. st_stdin s = None) steps"
  unfolding built_def
  by (induction specs arbitrary: steps) (auto simp: res_simps split: sum.splits)

lemma under_valid:
  assumes "valid_target_root root" "length root \<le> 200" "list_all mp_char sub" "CHR ''/'' \<notin> set sub"
    "sub \<noteq> ''..''" "length sub \<le> 20"
  shows "valid_target_path (under_root root sub)" and
    "\<exists>r \<in> set MOUNT_TARGET_ROOTS. startswith (under_root root sub) (r @ ''/'')"
proof -
  let ?b = "rstrip_char (CHR ''/'') root"
  obtain k where k: "root = ?b @ replicate k (CHR ''/'')"
    using rstrip_char_decomp by blast
  have v: "valid_target_path root"
    using assms(1) by (simp add: valid_target_root_def split: if_splits)
  obtain r where r: "r \<in> set MOUNT_TARGET_ROOTS" "startswith root (r @ ''/'')"
    using assms(1) by (auto simp: valid_target_root_def list_ex_iff split: if_splits)
  have below: "?b = r \<or> startswith ?b (r @ ''/'')"
    using rstrip_slash_prefix [OF r(2)] target_roots_ends [OF r(1)] by blast
  have sub: "lstrip_char (CHR ''/'') sub = sub"
    using assms(4) by (cases sub) (auto simp: lstrip_char_def)
  have len: "length ?b \<le> length root"
    by (metis k le_add1 length_append)
  have chars: "list_all mp_char ?b"
  proof -
    obtain t where t: "root = CHR ''/'' # t" "list_all mp_char t"
      using v by (auto simp: valid_target_path_chars)
    then have "list_all mp_char root" by (simp add: mp_char_def)
    then show ?thesis by (subst (asm) k) simp
  qed
  have hd: "\<exists>t. ?b = CHR ''/'' # t"
    using below r(1) by (auto simp: MOUNT_TARGET_ROOTS_def startswith_decomp)
  have dots: "''..'' \<notin> set (split_char (CHR ''/'') ?b)"
    using v split_replicate [of "CHR ''/''" ?b k] k by (auto simp: valid_target_path_def)
  have "split_char (CHR ''/'') (?b @ CHR ''/'' # sub) = split_char (CHR ''/'') ?b @ [sub]"
    using assms(4) by (simp add: split_char_append_sep split_char_free)
  with dots assms(5) have "''..'' \<notin> set (split_char (CHR ''/'') (?b @ CHR ''/'' # sub))"
    by simp
  then show "valid_target_path (under_root root sub)"
    using chars hd assms(2,3,6) len
    by (auto simp: valid_target_path_chars under_root_def sub mp_char_def)
  show "\<exists>r \<in> set MOUNT_TARGET_ROOTS. startswith (under_root root sub) (r @ ''/'')"
  proof (rule bexI [OF _ r(1)])
    show "startswith (under_root root sub) (r @ ''/'')"
      using below by (auto simp: under_root_def startswith_decomp)
  qed
qed

definition pseudo_subs :: "string list" where
  "pseudo_subs = [''proc'', ''sys'', ''dev'', ''run'']"

lemma pseudo_under_valid:
  assumes "valid_target_root root" "length root \<le> 200"
  shows "list_all (\<lambda>sub. valid_target_path (under_root root sub)) pseudo_subs"
    and "list_all (\<lambda>sub. confined (under_root root sub)) pseudo_subs"
proof -
  have c: "list_all (\<lambda>sub. list_all mp_char sub \<and> CHR ''/'' \<notin> set sub \<and> sub \<noteq> ''..'' \<and> length sub \<le> 20)
      pseudo_subs"
    by code_simp
  then show "list_all (\<lambda>sub. valid_target_path (under_root root sub)) pseudo_subs"
    using under_valid(1) [OF assms] by (auto simp: list_all_iff)
  with c show "list_all (\<lambda>sub. confined (under_root root sub)) pseudo_subs"
    using under_valid(2) [OF assms] by (auto simp: list_all_iff confined_def valid_target_path_def)
qed

lemma pseudo_sources_valid: "valid_target_path ''/sys''" "valid_target_path ''/dev''" "valid_target_path ''/run''"
  by code_simp+

lemma built_all: "built (map (\<lambda>(l, a). (l, Inr a)) specs) = Inr (map (\<lambda>(l, a). Step l a) specs)"
  unfolding built_def by (induction specs) auto

definition pseudo_mount_argvs :: "string \<Rightarrow> string list list" where
  "pseudo_mount_argvs root =
     [[''mkdir'', ''-p'', under_root root ''proc''], [''mount'', ''-t'', ''proc'', ''proc'', under_root root ''proc''],
      [''mkdir'', ''-p'', under_root root ''sys''], [''mount'', ''--rbind'', ''/sys'', under_root root ''sys''],
      [''mount'', ''--make-rslave'', under_root root ''sys''],
      [''mkdir'', ''-p'', under_root root ''dev''], [''mount'', ''--rbind'', ''/dev'', under_root root ''dev''],
      [''mount'', ''--make-rslave'', under_root root ''dev''],
      [''mkdir'', ''-p'', under_root root ''run''], [''mount'', ''--bind'', ''/run'', under_root root ''run''],
      [''mount'', ''--make-slave'', under_root root ''run'']]"

definition pseudo_unmount_argvs :: "string \<Rightarrow> string list list" where
  "pseudo_unmount_argvs root =
     [[''umount'', ''-l'', under_root root ''run''], [''umount'', ''-R'', ''-l'', under_root root ''dev''],
      [''umount'', ''-R'', ''-l'', under_root root ''sys''], [''umount'', ''-l'', under_root root ''proc'']]"

lemma pseudo_mount_built:
  assumes "valid_target_root root" "length root \<le> 200"
  shows "\<exists>steps. pseudo_mount_steps root = Inr steps \<and> map st_argv steps =
     pseudo_mount_argvs root"
  using pseudo_under_valid(1) [OF assms]
  by (simp add: pseudo_mount_steps_def built_def Let_def pseudo_subs_def require_target_path_def
      ch_mkdir_p_argv_def mount_proc_argv_def mount_pseudo_argv_def make_propagation_argv_def
      pseudo_sources_valid pseudo_mount_argvs_def)

lemma pseudo_unmount_built:
  assumes "valid_target_root root" "length root \<le> 200"
  shows "\<exists>steps. pseudo_unmount_steps root = Inr steps \<and> map st_argv steps =
     pseudo_unmount_argvs root"
  using pseudo_under_valid(1) [OF assms]
  by (simp add: pseudo_unmount_steps_def built_def Let_def pseudo_subs_def require_target_path_def
      umount_lazy_argv_def pseudo_unmount_argvs_def)

section \<open>Properties\<close>

text \<open>A command that mounts something, not one that changes propagation.\<close>

definition mounts_something :: "string list \<Rightarrow> bool" where
  "mounts_something argv = (argv \<noteq> [] \<and> hd argv = ''mount'' \<and> \<not> list_ex (\<lambda>a. startswith a ''--make-'') argv)"

text \<open>the teardown undoes the preparation: it unmounts exactly the mounted targets, in reverse
  order, recursively where the mount was a recursive bind, and every target lies below an
  allowed prefix.\<close>

theorem teardown_mirrors_mounts:
  assumes "valid_target_root root" "length root \<le> 200"
  shows "\<exists>ms us. pseudo_mount_steps root = Inr ms \<and> pseudo_unmount_steps root = Inr us \<and>
    map (\<lambda>u. (last (st_argv u), ''-R'' \<in> set (st_argv u))) us
      = rev (map (\<lambda>argv. (last argv, ''--rbind'' \<in> set argv)) (filter mounts_something (map st_argv ms))) \<and>
    list_all (\<lambda>s. confined (last (st_argv s))) (ms @ us)"
proof -
  obtain ms where ms: "pseudo_mount_steps root = Inr ms" "map st_argv ms =
     pseudo_mount_argvs root"
    using pseudo_mount_built [OF assms] by blast
  obtain us where us: "pseudo_unmount_steps root = Inr us" "map st_argv us =
     pseudo_unmount_argvs root"
    using pseudo_unmount_built [OF assms] by blast
  have abs: "startswith (under_root root sub) ''/''" if "sub \<in> set pseudo_subs" for sub
    using pseudo_under_valid(1) [OF assms] that valid_target_path_plain by (auto simp: list_all_iff)
  have nm: "\<not> startswith (under_root root sub) ''--make-'' \<and> under_root root sub \<noteq> ''-R'' \<and> under_root root sub \<noteq> ''--rbind'' \<and>
      ''-R'' \<noteq> under_root root sub \<and> ''--rbind'' \<noteq> under_root root sub"
    if "sub \<in> set pseudo_subs" for sub
    using abs [OF that] by (auto simp: startswith_decomp)
  have "filter mounts_something (map st_argv ms) =
     [[''mount'', ''-t'', ''proc'', ''proc'', under_root root ''proc''],
      [''mount'', ''--rbind'', ''/sys'', under_root root ''sys''],
      [''mount'', ''--rbind'', ''/dev'', under_root root ''dev''],
      [''mount'', ''--bind'', ''/run'', under_root root ''run'']]"
    unfolding ms(2) pseudo_mount_argvs_def using nm by (simp add: mounts_something_def pseudo_subs_def startswith_def)
  moreover have "map (\<lambda>u. (last (st_argv u), ''-R'' \<in> set (st_argv u))) us
      = map (\<lambda>argv. (last argv, ''-R'' \<in> set argv)) (map st_argv us)"
    by simp
  ultimately have 1: "map (\<lambda>u. (last (st_argv u), ''-R'' \<in> set (st_argv u))) us
      = rev (map (\<lambda>argv. (last argv, ''--rbind'' \<in> set argv)) (filter mounts_something (map st_argv ms)))"
    unfolding us(2) pseudo_unmount_argvs_def using nm by (simp add: pseudo_subs_def)
  have "list_all (\<lambda>argv. confined (last argv)) (map st_argv ms @ map st_argv us)"
    unfolding ms(2) us(2) pseudo_mount_argvs_def pseudo_unmount_argvs_def using pseudo_under_valid(2) [OF assms] by (simp add: pseudo_subs_def)
  then have 2: "list_all (\<lambda>s. confined (last (st_argv s))) (ms @ us)"
    by (auto simp: list_all_iff)
  from ms(1) us(1) 1 2 show ?thesis by blast
qed

theorem teardown_mirrors_mounts_witness:
  "\<exists>ms us. pseudo_mount_steps ''/mnt/gentoo/'' = Inr ms \<and> pseudo_unmount_steps ''/mnt/gentoo/'' = Inr us \<and>
    length us = length (filter mounts_something (map st_argv ms))"
proof -
  have "valid_target_root ''/mnt/gentoo/''" "length ''/mnt/gentoo/'' \<le> 200" by code_simp+
  from teardown_mirrors_mounts [OF this] obtain ms us where
    m: "pseudo_mount_steps ''/mnt/gentoo/'' = Inr ms" "pseudo_unmount_steps ''/mnt/gentoo/'' = Inr us" and
    e: "map (\<lambda>u. (last (st_argv u), ''-R'' \<in> set (st_argv u))) us
      = rev (map (\<lambda>argv. (last argv, ''--rbind'' \<in> set argv)) (filter mounts_something (map st_argv ms)))"
    by (elim exE conjE)
  from arg_cong [OF e, of length] have "length us = length (filter mounts_something (map st_argv ms))"
    by (simp only: length_map length_rev)
  then show ?thesis
    by (intro exI [of _ ms] exI [of _ us] conjI m)
qed

lemma teardown_from_log:
  "(\<And>w argv stdin. log (fst (run w argv stdin)) = log w @ [argv]) \<Longrightarrow>
    log (fst (teardown_from run i steps w)) = log w @ map st_argv steps"
proof (induction steps arbitrary: i w)
  case (Cons s ss)
  obtain w' ev r where run: "run w (st_argv s) None = (w', ev, r)"
    by (cases "run w (st_argv s) None") auto
  have "log w' = log w @ [st_argv s]"
    using Cons.prems [of w "st_argv s" None] run by simp
  with Cons.IH [OF Cons.prems, of "Suc i" w'] run show ?case
    by (cases "teardown_from run (Suc i) ss w'") simp
qed simp

text \<open>the teardown of a valid root attempts all four unmounts in order, whatever the commands
  report and even if every launch raises, and it never raises itself.\<close>

theorem teardown_attempts_all:
  assumes "\<And>w argv stdin. log (fst (run w argv stdin)) = log w @ [argv]"
    "valid_target_root root" "length root \<le> 200"
  shows "log (fst (teardown_chroot root run w)) = log w @
     [[''umount'', ''-l'', under_root root ''run''], [''umount'', ''-R'', ''-l'', under_root root ''dev''],
      [''umount'', ''-R'', ''-l'', under_root root ''sys''], [''umount'', ''-l'', under_root root ''proc'']] \<and>
    is_ok (snd (snd (teardown_chroot root run w)))"
proof -
  obtain us where us: "pseudo_unmount_steps root = Inr us" "map st_argv us =
     pseudo_unmount_argvs root"
    using pseudo_unmount_built [OF assms(2,3)] by blast
  obtain w' ev where t: "teardown_from run 0 us w = (w', ev)" by fastforce
  then have "teardown_chroot root run w = (w', ev, Inr us)"
    using us(1) assms(2) by (simp add: teardown_chroot_def guard_target_root_def)
  then show ?thesis
    using teardown_from_log [where log = log and run = run and i = 0 and steps = us and w = w, OF assms(1)] t us(2) by (simp add: pseudo_unmount_argvs_def)
qed

definition raising_run :: "string list list executor" where
  "raising_run w argv stdin = (w @ [argv], [], Inl (OSError ''gone''))"

theorem teardown_attempts_all_witness:
  "fst (teardown_chroot ''/mnt/gentoo'' raising_run []) =
     [[''umount'', ''-l'', ''/mnt/gentoo/run''], [''umount'', ''-R'', ''-l'', ''/mnt/gentoo/dev''],
      [''umount'', ''-R'', ''-l'', ''/mnt/gentoo/sys''], [''umount'', ''-l'', ''/mnt/gentoo/proc'']]"
proof -
  have r: "valid_target_root ''/mnt/gentoo''" "length ''/mnt/gentoo'' \<le> 200"
    "under_root ''/mnt/gentoo'' ''run'' = ''/mnt/gentoo/run''" "under_root ''/mnt/gentoo'' ''dev'' = ''/mnt/gentoo/dev''"
    "under_root ''/mnt/gentoo'' ''sys'' = ''/mnt/gentoo/sys''" "under_root ''/mnt/gentoo'' ''proc'' = ''/mnt/gentoo/proc''"
    by code_simp+
  show ?thesis
    using conjunct1 [OF teardown_attempts_all [of "\<lambda>w. w" raising_run "''/mnt/gentoo''" "[]"]] r
    by (simp add: raising_run_def)
qed

text \<open>a chroot executor exists only for a root below an allowed prefix, and a pipeline run
  through it is the same pipeline, each command prefixed with \<open>chroot\<close> and the root, with its
  standard input forwarded and the same steps reported.\<close>

theorem chroot_executor_runs:
  assumes "chroot_executor (fake_run code_for) root = Inr run"
  shows "valid_target_root root \<and>
    run_steps run steps w =
     (\<lparr>fk_calls = fk_calls w @ map (\<lambda>s. ''chroot'' # root # st_argv s)
         (attempted (\<lambda>argv. code_for (''chroot'' # root # argv)) steps),
       fk_stdins = fk_stdins w @ map st_stdin (attempted (\<lambda>argv. code_for (''chroot'' # root # argv)) steps)\<rparr>,
      concat (map (\<lambda>(j, s). [OnStep j, OnProgress [''$ '' @ join '' '' (''chroot'' # root # st_argv s)]])
        (enumerate 0 (attempted (\<lambda>argv. code_for (''chroot'' # root # argv)) steps))),
      (case find (\<lambda>s. code_for (''chroot'' # root # st_argv s) \<noteq> 0) steps of
         None \<Rightarrow> Inr steps
       | Some s \<Rightarrow> Inl (StepError s (RunResult (code_for (''chroot'' # root # st_argv s)) []))))"
proof -
  let ?c = "\<lambda>argv. code_for (''chroot'' # root # argv)"
  have run: "run = chroot_run (fake_run code_for) root" and root: "valid_target_root root"
    using assms by (auto simp: chroot_executor_def guard_target_root_def res_simps)
  have "run_steps_from (chroot_run (fake_run code_for) root) i steps w =
     (\<lparr>fk_calls = fk_calls w @ map (\<lambda>s. ''chroot'' # root # st_argv s) (attempted ?c steps),
       fk_stdins = fk_stdins w @ map st_stdin (attempted ?c steps)\<rparr>,
      concat (map (\<lambda>(j, s). [OnStep j, OnProgress [''$ '' @ join '' '' (''chroot'' # root # st_argv s)]])
        (enumerate i (attempted ?c steps))),
      map_option (\<lambda>s. StepError s (RunResult (?c (st_argv s)) [])) (find (\<lambda>s. ?c (st_argv s) \<noteq> 0) steps))" for i
    by (induction steps arbitrary: i w) (simp_all add: chroot_run_def fake_run_def RunResult_def)
  with root show ?thesis
    by (simp add: run run_steps_def split: option.splits)
qed

theorem chroot_executor_runs_witness:
  "(case chroot_executor (fake_run (\<lambda>_. 0)) ''/mnt/gentoo'' of Inr run \<Rightarrow>
      fk_calls (fst (run_steps run [Step ''sync'' [''emerge'', ''--sync'']] fake_init)) | Inl _ \<Rightarrow> [])
    = [[''chroot'', ''/mnt/gentoo'', ''emerge'', ''--sync'']]"
proof -
  have "valid_target_root ''/mnt/gentoo''" by code_simp
  then have "chroot_executor (fake_run (\<lambda>_. 0)) ''/mnt/gentoo''
      = Inr (chroot_run (fake_run (\<lambda>_. 0)) ''/mnt/gentoo'')"
    by (simp add: chroot_executor_def guard_target_root_def)
  with chroot_executor_runs [OF this] show ?thesis
    by (simp add: fake_init_def)
qed

end
