(* ===== verification/StateStore.thy ===== *)
theory StateStore
  imports AtomicWrite "HOL-Library.List_Lexorder" "HOL-Library.Char_ord"
begin

text \<open>
  \<open>StateStore\<close> of \<open>gest/core/install/context.py\<close>: which install steps have
  completed, in memory or in the two-phase file location of the design (the live session's
  \<open>/run/gest\<close> before the stage3 is unpacked, the target's own state directory after). A
  file holds a JSON document, kept here as its value; \<open>None\<close> is a text that does not
  parse. A Python set is a list without repetition, whose order nothing observes. The lemmas show that a marked step is found again by a fresh store, also after the
  switch of location and after the session file is lost.
\<close>

datatype json = JNull | JBool bool | JNum int | JStr string | JArr "json list" | JObj "(string \<times> json) list"

type_synonym json_files = "json option stored_files"

record state_store =
  ss_done :: "string list"
  ss_root :: "string option"
  ss_run_dir :: string

text \<open>
  What the store sees outside itself: the files, which directories exist, the answer of the
  Portage library for its configuration root, the temporary name and the faults of a write.
\<close>

record session =
  se_files :: json_files
  se_isdir :: "string \<Rightarrow> bool"
  se_cfg :: string
  se_tmp :: string
  se_fault :: "write_op \<Rightarrow> bool"

definition STATE_FILENAME :: string where
  "STATE_FILENAME = ''install-state.json''"

definition DEFAULT_RUN_DIR :: string where
  "DEFAULT_RUN_DIR = ''/run/gest''"

definition step_key :: "string option \<Rightarrow> string \<Rightarrow> string" where
  "step_key key label = (case key of None \<Rightarrow> label | Some k \<Rightarrow> k)"

definition target_available :: "session \<Rightarrow> string \<Rightarrow> bool" where
  "target_available se root = se_isdir se (resolve root ''/etc'')"

definition run_path :: "state_store \<Rightarrow> string" where
  "run_path st = path_join (ss_run_dir st) [STATE_FILENAME]"

definition target_path :: "session \<Rightarrow> string \<Rightarrow> string" where
  "target_path se root = gest_state (se_cfg se) STATE_FILENAME (Some root)"

definition state_path :: "session \<Rightarrow> state_store \<Rightarrow> string \<Rightarrow> string" where
  "state_path se st root = (if target_available se root then target_path se root else run_path st)"

text \<open>\<open>str(k)\<close> and \<open>repr(k)\<close> of a key; the store itself only ever writes strings.\<close>

fun json_repr :: "json \<Rightarrow> string" where
  "json_repr (JStr s) = py_repr s"
| "json_repr (JNum n) = int_str n"
| "json_repr (JBool b) = (if b then ''True'' else ''False'')"
| "json_repr JNull = ''None''"
| "json_repr (JArr js) = ''['' @ join '', '' (map json_repr js) @ '']''"
| "json_repr (JObj kvs) = ''{'' @ join '', '' (map (\<lambda>(k, v). py_repr k @ '': '' @ json_repr v) kvs) @ ''}''"

definition json_str :: "json \<Rightarrow> string" where
  "json_str j = (case j of JStr s \<Rightarrow> s | _ \<Rightarrow> json_repr j)"

text \<open>
  \<open>{str(k) for k in data["done"]}\<close>; every way it can raise gives the empty set. The keys
  of a \<open>JObj\<close> are distinct, as those of a Python dict are.
\<close>

definition done_of :: "json \<Rightarrow> string list" where
  "done_of data =
     (case data of
        JObj kvs \<Rightarrow>
          (case map_of kvs ''done'' of
             Some (JArr js) \<Rightarrow> remdups (map json_str js)
           | Some (JStr s) \<Rightarrow> remdups (map (\<lambda>c. [c]) s)
           | Some (JObj o') \<Rightarrow> remdups (map fst o')
           | _ \<Rightarrow> [])
      | _ \<Rightarrow> [])"

definition read_file :: "session \<Rightarrow> string \<Rightarrow> string list" where
  "read_file se path =
     (case se_files se path of
        Some (Some data, mode) \<Rightarrow> done_of data
      | _ \<Rightarrow> [])"

definition done_json :: "string list \<Rightarrow> json" where
  "done_json ks = JObj [(''done'', JArr (map JStr ks))]"

definition write_atomic :: "session \<Rightarrow> string \<Rightarrow> string list \<Rightarrow> session \<times> string res" where
  "write_atomic se path ks =
     (case replace_file (se_fault se) (se_tmp se) None None path (Some (done_json ks)) (se_files se) of
        (fs, r) \<Rightarrow> (se\<lparr>se_files := fs\<rparr>, r))"

definition load :: "session \<Rightarrow> state_store \<Rightarrow> state_store" where
  "load se st =
     (case ss_root st of
        None \<Rightarrow> st
      | Some root \<Rightarrow>
          st\<lparr>ss_done := List.union
               (List.union (ss_done st) (read_file se (run_path st)))
               (if target_available se root then read_file se (target_path se root) else [])\<rparr>)"

text \<open>The constructor: no root means no file is ever touched.\<close>

definition new_store :: "session \<Rightarrow> string option \<Rightarrow> string \<Rightarrow> state_store" where
  "new_store se root run_dir = load se \<lparr>ss_done = [], ss_root = root, ss_run_dir = run_dir\<rparr>"

definition save :: "session \<Rightarrow> state_store \<Rightarrow> string \<Rightarrow> session \<times> state_store \<times> string res" where
  "save se st root =
     (let path = state_path se st root;
          st' = (if target_available se root
                 then st\<lparr>ss_done := List.union (ss_done st) (read_file se (run_path st))\<rparr> else st)
      in case write_atomic se path (sort (ss_done st')) of (se', r) \<Rightarrow> (se', st', r))"

definition mark ::
    "session \<Rightarrow> state_store \<Rightarrow> string \<Rightarrow> session \<times> state_store \<times> py_error option" where
  "mark se st key =
     (let st' = st\<lparr>ss_done := List.insert key (ss_done st)\<rparr>
      in case ss_root st of
           None \<Rightarrow> (se, st', None)
         | Some root \<Rightarrow>
             (case save se st' root of
                (se', st'', Inl e) \<Rightarrow> (se', st'', Some e)
              | (se', st'', Inr p) \<Rightarrow> (se', st'', None)))"

definition done_key :: "state_store \<Rightarrow> string \<Rightarrow> bool" where
  "done_key st key = (key \<in> set (ss_done st))"

section \<open>A mark is found again\<close>

lemma done_of_json: "distinct ks \<Longrightarrow> done_of (done_json ks) = ks"
  by (simp add: done_of_def done_json_def comp_def json_str_def distinct_remdups_id)

text \<open>The paths a store uses differ from its temporary name, and nothing fails.\<close>

definition writable :: "session \<Rightarrow> state_store \<Rightarrow> string \<Rightarrow> bool" where
  "writable se st root =
     (se_tmp se \<noteq> run_path st \<and> se_tmp se \<noteq> target_path se root \<and> (\<forall>op. \<not> se_fault se op))"

lemma write_atomic_read:
  assumes "\<forall>op. \<not> se_fault se op" "se_tmp se \<noteq> path" "distinct ks"
  shows "\<exists>se'. write_atomic se path ks = (se', Inr path) \<and> read_file se' path = ks \<and>
    (\<forall>q. q \<noteq> path \<longrightarrow> q \<noteq> se_tmp se \<longrightarrow> read_file se' q = read_file se q) \<and>
    se_isdir se' = se_isdir se \<and> se_cfg se' = se_cfg se"
  using assms
  by (simp add: write_atomic_def replace_file_def Let_def read_file_def done_of_json)

lemma distinct_read_file [simp]: "distinct (read_file se path)"
  by (auto simp: read_file_def done_of_def split: option.splits json.splits prod.splits)

text \<open>after a step is marked, a fresh store for the same target finds every step the old one
  knew and the new one, wherever the file was.\<close>

theorem mark_found_again:
  assumes "writable se st root" "ss_root st = Some root" "distinct (ss_done st)"
    "mark se st key = (se', st', r)"
  shows "r = None \<and> set (ss_done (new_store se' (Some root) (ss_run_dir st)))
    \<supseteq> insert key (set (ss_done st))"
proof -
  let ?st = "st\<lparr>ss_done := List.insert key (ss_done st)\<rparr>"
  let ?st2 = "if target_available se root
    then ?st\<lparr>ss_done := List.union (ss_done ?st) (read_file se (run_path ?st))\<rparr> else ?st"
  let ?path = "state_path se ?st root"
  have rp: "run_path ?st = run_path st" by (simp add: run_path_def)
  have d: "distinct (sort (ss_done ?st2))"
    using assms(3) by simp
  have tmp: "se_tmp se \<noteq> ?path" "\<forall>op. \<not> se_fault se op"
    using assms(1) by (auto simp: writable_def state_path_def rp)
  obtain se1 where w: "write_atomic se ?path (sort (ss_done ?st2)) = (se1, Inr ?path)"
    "read_file se1 ?path = sort (ss_done ?st2)" "se_isdir se1 = se_isdir se" "se_cfg se1 = se_cfg se"
    using write_atomic_read [OF tmp(2,1) d] by blast
  have "save se ?st root = (se1, ?st2, Inr ?path)"
    using w(1) by (simp add: save_def Let_def)
  then have r: "r = None" "se' = se1"
    using assms(2,4) by (auto simp: mark_def Let_def)
  have avail: "target_available se1 root = target_available se root"
    "target_path se1 root = target_path se root"
    by (simp_all add: target_available_def target_path_def w)
  have "set (read_file se1 ?path) \<subseteq> set (ss_done (new_store se1 (Some root) (ss_run_dir st)))"
    by (cases "target_available se root")
      (auto simp: new_store_def load_def avail state_path_def run_path_def)
  moreover have "insert key (set (ss_done st)) \<subseteq> set (sort (ss_done ?st2))"
    by auto
  ultimately show ?thesis
    using r w(2) by auto
qed

definition live_session :: "bool \<Rightarrow> session" where
  "live_session unpacked = \<lparr>se_files = [''/run/gest/install-state.json'' \<mapsto> (Some (done_json [''partition'']), 384)],
     se_isdir = (\<lambda>d. unpacked \<and> d = ''/mnt/gentoo/etc''), se_cfg = ''/'', se_tmp = ''/tmp.x'',
     se_fault = (\<lambda>_. False)\<rparr>"

definition live_store :: state_store where
  "live_store = \<lparr>ss_done = [''partition''], ss_root = Some ''/mnt/gentoo'', ss_run_dir = DEFAULT_RUN_DIR\<rparr>"

theorem mark_found_again_witness:
  "set (ss_done (new_store (fst (mark (live_session True) live_store ''unpack_stage3''))
      (Some ''/mnt/gentoo'') DEFAULT_RUN_DIR)) \<supseteq> {''partition'', ''unpack_stage3''}"
proof -
  have p: "run_path live_store = ''/run/gest/install-state.json''"
    "target_path (live_session True) ''/mnt/gentoo'' = ''/mnt/gentoo/etc/portage/gest/install-state.json''"
    by code_simp+
  have w: "writable (live_session True) live_store ''/mnt/gentoo''"
    unfolding writable_def p by (simp add: live_session_def)
  obtain se' st' r where m: "mark (live_session True) live_store ''unpack_stage3'' = (se', st', r)"
    by (cases "mark (live_session True) live_store ''unpack_stage3''") auto
  have "ss_root live_store = Some ''/mnt/gentoo''" "distinct (ss_done live_store)"
    "set (ss_done live_store) = {''partition''}" "ss_run_dir live_store = DEFAULT_RUN_DIR"
    by (simp_all add: live_store_def)
  with mark_found_again [OF w _ _ m] show ?thesis
    by (simp add: m)
qed

text \<open>C27: once the target exists, marking a step migrates the live session's marks into the target's
  file: a later store finds them all even when the session directory is gone.\<close>

theorem mark_survives_reboot:
  assumes "writable se st root" "ss_root st = Some root" "distinct (ss_done st)"
    "target_available se root" "run_path st \<noteq> target_path se root" "mark se st key = (se', st', r)"
  shows "set (ss_done (new_store (se'\<lparr>se_files := (se_files se')(run_path st := None)\<rparr>) (Some root) (ss_run_dir st)))
    \<supseteq> insert key (set (ss_done st) \<union> set (read_file se (run_path st)))"
proof -
  let ?st = "st\<lparr>ss_done := List.insert key (ss_done st)\<rparr>"
  let ?ks = "List.union (ss_done ?st) (read_file se (run_path st))"
  have rp: "run_path ?st = run_path st" by (simp add: run_path_def)
  have d: "distinct (sort ?ks)"
    using assms(3) by simp
  have tmp: "se_tmp se \<noteq> target_path se root" "\<forall>op. \<not> se_fault se op"
    using assms(1) by (auto simp: writable_def)
  obtain se1 where w: "write_atomic se (target_path se root) (sort ?ks) = (se1, Inr (target_path se root))"
    "read_file se1 (target_path se root) = sort ?ks" "se_isdir se1 = se_isdir se" "se_cfg se1 = se_cfg se"
    using write_atomic_read [OF tmp(2,1) d] by blast
  have se': "se' = se1"
    using assms(2,4,6) w(1) by (auto simp: mark_def save_def state_path_def rp Let_def)
  let ?se2 = "se1\<lparr>se_files := (se_files se1)(run_path st := None)\<rparr>"
  have avail: "target_available ?se2 root" "target_path ?se2 root = target_path se root"
    using assms(4) by (simp_all add: target_available_def target_path_def w)
  have "read_file ?se2 (target_path se root) = sort ?ks"
    using w(2) assms(5) by (simp add: read_file_def)
  then have "set ?ks \<subseteq> set (ss_done (new_store ?se2 (Some root) (ss_run_dir st)))"
    using avail by (auto simp: new_store_def load_def)
  then show ?thesis
    unfolding se' by auto
qed

theorem mark_survives_reboot_witness:
  "set (ss_done (new_store
      ((fst (mark (live_session True) live_store ''sync_tree''))
        \<lparr>se_files := (se_files (fst (mark (live_session True) live_store ''sync_tree'')))
           (run_path live_store := None)\<rparr>)
      (Some ''/mnt/gentoo'') DEFAULT_RUN_DIR)) \<supseteq> {''partition'', ''sync_tree''}"
proof -
  have p: "run_path live_store = ''/run/gest/install-state.json''"
    "target_path (live_session True) ''/mnt/gentoo'' = ''/mnt/gentoo/etc/portage/gest/install-state.json''"
    by code_simp+
  have w: "writable (live_session True) live_store ''/mnt/gentoo''"
    unfolding writable_def p by (simp add: live_session_def)
  have a: "target_available (live_session True) ''/mnt/gentoo''" by code_simp
  have ne: "run_path live_store \<noteq> target_path (live_session True) ''/mnt/gentoo''"
    by (simp add: p)
  obtain se' st' r where m: "mark (live_session True) live_store ''sync_tree'' = (se', st', r)"
    by (cases "mark (live_session True) live_store ''sync_tree''") auto
  have "ss_root live_store = Some ''/mnt/gentoo''" "distinct (ss_done live_store)"
    "set (ss_done live_store) = {''partition''}" "ss_run_dir live_store = DEFAULT_RUN_DIR"
    by (simp_all add: live_store_def)
  with mark_survives_reboot [OF w _ _ a ne m] show ?thesis
    by (simp add: m)
qed

end
