(* ===== verification/InstallEngine.thy ===== *)
theory InstallEngine
  imports ChrootPrep StateStore
begin

text \<open>
  \<open>gest/core/install/step.py\<close>, \<open>engine.py\<close> and \<open>InstallContext\<close> of
  \<open>context.py\<close>: the steps of an install and the loop that runs them. A retry can repeat
  for ever, so the loop is a partial function, and that it returns is proved, not assumed:
  always without a failure hook, and with one whenever its retries are bounded. A transition
  relation describes the same loop move by move; reachability on it gives the order of the
  steps and when the chroot counts as opened.
\<close>

section \<open>Steps\<close>

datatype phase = PREPARE_DISK | BASE_SYSTEM | CONFIGURE | KERNEL_BOOT | USERS_NETWORK | FINISH

record ('c, 'e) install_step =
  is_label :: string
  is_key :: "string option"
  is_phase :: phase
  is_chroot :: bool
  is_opens_chroot :: bool
  is_satisfied :: "'c \<Rightarrow> 'e + bool"
  is_run :: "'c \<Rightarrow> 'c \<times> event list \<times> 'e option"

record 'w install_context =
  cx_root :: string
  cx_world :: 'w
  cx_done :: "string list"

text \<open>\<open>executor_for\<close>: the chroot view of the host executor, or the host itself.\<close>

definition executor_for :: "'w executor \<Rightarrow> string \<Rightarrow> bool \<Rightarrow> 'w executor" where
  "executor_for host root chroot = (if chroot then chroot_run host root else host)"

definition progress_of :: "event list \<Rightarrow> event list" where
  "progress_of ev = filter (\<lambda>e. case e of OnProgress ls \<Rightarrow> True | OnStep i \<Rightarrow> False) ev"

text \<open>\<open>ArgvStep.run\<close>: build the steps, run them on the selected executor; no step callback.\<close>

definition argv_step_run ::
    "'w executor \<Rightarrow> bool \<Rightarrow> ('w install_context \<Rightarrow> step list res) \<Rightarrow> 'w install_context
      \<Rightarrow> 'w install_context \<times> event list \<times> pipe_error option" where
  "argv_step_run host chroot build cx =
     (case build cx of
        Inl e \<Rightarrow> (cx, [], Some (Raised e))
      | Inr steps \<Rightarrow>
          (case run_steps (executor_for host (cx_root cx) chroot) steps (cx_world cx) of
             (w', ev, r) \<Rightarrow> (cx\<lparr>cx_world := w'\<rparr>, progress_of ev,
               case r of Inl e \<Rightarrow> Some e | Inr ss \<Rightarrow> None)))"

section \<open>The loop\<close>

datatype failure_action = RETRY | SKIP | ABORT

text \<open>
  What the loop calls besides the steps: the store's \<open>mark\<close> and the teardown, either of
  which may raise, and the failure hook, which sees the failed step, its exception and whether
  the chroot is open, and may raise too.
\<close>

record ('c, 'e) engine =
  en_mark :: "('c, 'e) install_step \<Rightarrow> 'c \<Rightarrow> 'c \<times> 'e option"
  en_teardown :: "'c \<Rightarrow> 'c \<times> event list \<times> 'e option"
  en_hook :: "(('c, 'e) install_step \<Rightarrow> 'e \<Rightarrow> bool \<Rightarrow> 'c \<Rightarrow> 'c \<times> ('e + failure_action)) option"

definition done_message :: "string \<Rightarrow> event" where
  "done_message label = OnProgress [CHECKMARK @ '' '' @ label @ '' (already done)'']"

definition skip_message :: "string \<Rightarrow> event" where
  "skip_message label = OnProgress [WARNSIGN @ '' skipped '' @ label @
     '' after failure (the installed system may be incomplete)'']"

text \<open>One iteration of the while loop: go on at an index, or leave with an exception.\<close>

datatype ('c, 'e) iteration = Continue nat bool 'c "event list" | Leave bool 'c "event list" 'e

definition mark_and_advance ::
    "('c, 'e) engine \<Rightarrow> ('c, 'e) install_step \<Rightarrow> nat \<Rightarrow> bool \<Rightarrow> 'c \<Rightarrow> event list \<Rightarrow> ('c, 'e) iteration" where
  "mark_and_advance en step index opened c ev =
     (case en_mark en step c of
        (c', Some e) \<Rightarrow> Leave opened c' ev e
      | (c', None) \<Rightarrow> Continue (Suc index) opened c' ev)"

definition iterate ::
    "('c, 'e) engine \<Rightarrow> ('c, 'e) install_step list \<Rightarrow> nat \<Rightarrow> bool \<Rightarrow> 'c \<Rightarrow> ('c, 'e) iteration" where
  "iterate en steps index opened c =
     (let step = steps ! index in
      case is_satisfied step c of
        Inl e \<Rightarrow> Leave opened c [] e
      | Inr True \<Rightarrow> Continue (Suc index) opened c [done_message (is_label step)]
      | Inr False \<Rightarrow>
          (case is_run step c of
             (c1, ev, None) \<Rightarrow>
               mark_and_advance en step index (opened \<or> is_opens_chroot step) c1 (OnStep index # ev)
           | (c1, ev, Some exc) \<Rightarrow>
               (case en_hook en of
                  None \<Rightarrow> Leave opened c1 (OnStep index # ev) exc
                | Some hook \<Rightarrow>
                    (case hook step exc opened c1 of
                       (c2, Inl e) \<Rightarrow> Leave opened c2 (OnStep index # ev) e
                     | (c2, Inr RETRY) \<Rightarrow> Continue index opened c2 (OnStep index # ev)
                     | (c2, Inr SKIP) \<Rightarrow>
                         mark_and_advance en step index opened c2
                           (OnStep index # ev @ [skip_message (is_label step)])
                     | (c2, Inr ABORT) \<Rightarrow> Leave opened c2 (OnStep index # ev) exc))))"

partial_function (option) engine_loop ::
    "('c, 'e) engine \<Rightarrow> ('c, 'e) install_step list \<Rightarrow> nat \<Rightarrow> bool \<Rightarrow> 'c
      \<Rightarrow> (bool \<times> 'c \<times> event list \<times> 'e option) option" where
  "engine_loop en steps index opened c =
     (if index < length steps then
        (case iterate en steps index opened c of
           Leave opened' c' ev e \<Rightarrow> Some (opened', c', ev, Some e)
         | Continue index' opened' c' ev \<Rightarrow>
             Option.bind (engine_loop en steps index' opened' c')
               (\<lambda>(o', c'', ev', r). Some (o', c'', ev @ ev', r)))
      else Some (opened, c, [], None))"

text \<open>The finally clause: tear down iff opened; an exception there replaces the first one.\<close>

definition run_install ::
    "('c, 'e) engine \<Rightarrow> ('c, 'e) install_step list \<Rightarrow> 'c \<Rightarrow> ('c \<times> event list \<times> 'e option) option" where
  "run_install en steps c =
     Option.bind (engine_loop en steps 0 False c) (\<lambda>(opened, c', ev, r).
       if opened then
         (case en_teardown en c' of
            (c'', ev', None) \<Rightarrow> Some (c'', ev @ ev', r)
          | (c'', ev', Some e) \<Rightarrow> Some (c'', ev @ ev', Some e))
       else Some (c', ev, r))"

section \<open>The loop as a transition system\<close>

type_synonym 'c engine_state = "nat \<times> bool \<times> 'c"

inductive move ::
    "('c, 'e) engine \<Rightarrow> ('c, 'e) install_step list \<Rightarrow> 'c engine_state \<Rightarrow> 'c engine_state \<Rightarrow> bool"
  for en steps where
  move: "index < length steps \<Longrightarrow> iterate en steps index opened c = Continue index' opened' c' ev \<Longrightarrow>
    move en steps (index, opened, c) (index', opened', c')"

inductive_cases moveE: "move en steps (index, opened, c) s"

inductive_simps move_iff: "move en steps (index, opened, c) (index', opened', c')"

text \<open>Every move stays at its step or goes to the next one, and never closes the chroot.\<close>

lemma iterate_Continue:
  "iterate en steps i opened c = Continue j opened' c' ev \<Longrightarrow>
    (j = Suc i \<or> (j = i \<and> opened' = opened)) \<and>
    (opened' \<longleftrightarrow> opened \<or> (is_opens_chroot (steps ! i) \<and> opened')) \<and>
    (opened' \<longrightarrow> opened \<or> is_satisfied (steps ! i) c = Inr False \<and> snd (snd (is_run (steps ! i) c)) = None)"
  by (auto simp: iterate_def mark_and_advance_def Let_def split: sum.splits bool.splits prod.splits
      option.splits failure_action.splits)

lemma move_det: "move en steps s t \<Longrightarrow> move en steps s u \<Longrightarrow> t = u"
  by (cases s) (auto elim!: moveE)

text \<open>Step \<open>i\<close> ran to completion in this run, as opposed to being skipped or failing.\<close>

definition completes_now :: "('c, 'e) install_step list \<Rightarrow> nat \<Rightarrow> 'c \<Rightarrow> bool" where
  "completes_now steps i c =
     (i < length steps \<and> is_satisfied (steps ! i) c = Inr False \<and> snd (snd (is_run (steps ! i) c)) = None)"

definition completes ::
    "('c, 'e) engine \<Rightarrow> ('c, 'e) install_step list \<Rightarrow> 'c engine_state \<Rightarrow> nat \<Rightarrow> bool" where
  "completes en steps s i =
     (\<exists>opened c. (move en steps)\<^sup>*\<^sup>* s (i, opened, c) \<and> completes_now steps i c)"

definition opens :: "('c, 'e) engine \<Rightarrow> ('c, 'e) install_step list \<Rightarrow> 'c engine_state \<Rightarrow> bool" where
  "opens en steps s = (\<exists>i. is_opens_chroot (steps ! i) \<and> completes en steps s i)"

lemma completes_step:
  "completes en steps (i, o', c) j \<longleftrightarrow>
     (j = i \<and> completes_now steps i c) \<or> (\<exists>t. move en steps (i, o', c) t \<and> completes en steps t j)"
proof
  assume "completes en steps (i, o', c) j"
  then obtain o2 c2 where r: "(move en steps)\<^sup>*\<^sup>* (i, o', c) (j, o2, c2)" and n: "completes_now steps j c2"
    by (auto simp: completes_def)
  from r show "(j = i \<and> completes_now steps i c) \<or> (\<exists>t. move en steps (i, o', c) t \<and> completes en steps t j)"
  proof (cases rule: converse_rtranclpE)
    case base
    with n show ?thesis by simp
  next
    case (step t)
    with n show ?thesis unfolding completes_def by blast
  qed
next
  assume "(j = i \<and> completes_now steps i c) \<or> (\<exists>t. move en steps (i, o', c) t \<and> completes en steps t j)"
  then show "completes en steps (i, o', c) j"
    unfolding completes_def by (blast intro: converse_rtranclp_into_rtranclp)
qed

lemma opens_step:
  "opens en steps (i, o', c) \<longleftrightarrow>
     (is_opens_chroot (steps ! i) \<and> completes_now steps i c) \<or> (\<exists>t. move en steps (i, o', c) t \<and> opens en steps t)"
  unfolding opens_def by (subst completes_step) blast

lemma opens_Continue:
  "i < length steps \<Longrightarrow> iterate en steps i o' c = Continue j o2 c2 ev \<Longrightarrow>
    opens en steps (i, o', c) \<longleftrightarrow>
      (is_opens_chroot (steps ! i) \<and> completes_now steps i c) \<or> opens en steps (j, o2, c2)"
  by (subst opens_step) (auto simp: move_iff elim!: moveE intro: move.intros)

lemma opens_stuck:
  "\<not> (\<exists>j o2 c2 ev. iterate en steps i o' c = Continue j o2 c2 ev) \<or> \<not> i < length steps \<Longrightarrow>
    opens en steps (i, o', c) \<longleftrightarrow> is_opens_chroot (steps ! i) \<and> completes_now steps i c"
  by (subst opens_step) (auto elim!: moveE)

lemma iterate_opened:
  assumes "i < length steps"
  shows "iterate en steps i o' c = Continue j o2 c2 ev \<Longrightarrow>
      o2 \<longleftrightarrow> o' \<or> (is_opens_chroot (steps ! i) \<and> completes_now steps i c)"
    and "iterate en steps i o' c = Leave o2 c2 ev e \<Longrightarrow>
      o2 \<longleftrightarrow> o' \<or> (is_opens_chroot (steps ! i) \<and> completes_now steps i c)"
  using assms
  by (auto simp: iterate_def mark_and_advance_def completes_now_def Let_def
      split: sum.splits bool.splits prod.splits option.splits failure_action.splits)

lemma engine_loop_opened:
  "engine_loop en steps i o' c = Some res \<Longrightarrow> fst res \<longleftrightarrow> o' \<or> opens en steps (i, o', c)"
proof (erule engine_loop.raw_induct
    [where P = "\<lambda>en steps i o' c res. fst res \<longleftrightarrow> o' \<or> opens en steps (i, o', c)", rotated])
  fix loop :: "('a, 'b) engine \<Rightarrow> ('a, 'b) install_step list \<Rightarrow> nat \<Rightarrow> bool \<Rightarrow> 'a
      \<Rightarrow> (bool \<times> 'a \<times> event list \<times> 'b option) option"
    and en :: "('a, 'b) engine" and steps :: "('a, 'b) install_step list" and i o' c res
  assume IH: "\<And>en steps i o' c res. loop en steps i o' c = Some res \<Longrightarrow> fst res \<longleftrightarrow> o' \<or> opens en steps (i, o', c)"
    and body: "(if i < length steps then
        (case iterate en steps i o' c of
           Continue index' opened' c' ev \<Rightarrow>
             Option.bind (loop en steps index' opened' c') (\<lambda>(o', c'', ev', r). Some (o', c'', ev @ ev', r))
         | Leave opened' c' ev e \<Rightarrow> Some (opened', c', ev, Some e))
      else Some (o', c, [], None)) = Some res"
  show "fst res \<longleftrightarrow> o' \<or> opens en steps (i, o', c)"
  proof (cases "i < length steps")
    case False
    with body opens_stuck [of en steps i o' c] show ?thesis
      by (auto simp: completes_now_def)
  next
    case True
    show ?thesis
    proof (cases "iterate en steps i o' c")
      case (Leave o3 c3 ev3 e)
      with body True iterate_opened(2) [OF True Leave] opens_stuck [of en steps i o' c] show ?thesis
        by auto
    next
      case (Continue j o3 c3 ev3)
      with body True obtain res' where l: "loop en steps j o3 c3 = Some res'" "fst res = fst res'"
        by (auto simp: bind_eq_Some_conv)
      from IH [OF l(1)] l(2) iterate_opened(1) [OF True Continue] opens_Continue [OF True Continue]
      show ?thesis by auto
    qed
  qed
qed

text \<open>The indices a run reports as started.\<close>

definition started :: "event list \<Rightarrow> nat list" where
  "started ev = concat (map (\<lambda>e. case e of OnStep i \<Rightarrow> [i] | OnProgress ls \<Rightarrow> []) ev)"

lemma started_simps [simp]:
  "started [] = []" "started (OnStep i # ev) = i # started ev" "started (OnProgress ls # ev) = started ev"
  "started (ev @ ev') = started ev @ started ev'"
  by (simp_all add: started_def)

lemma started_progress_of [simp]: "started (progress_of ev) = []"
  by (induction ev) (auto simp: progress_of_def started_def split: event.splits)

text \<open>Steps report lines, never step indices: the engine passes them no step callback.\<close>

definition quiet :: "('c, 'e) install_step list \<Rightarrow> bool" where
  "quiet steps = list_all (\<lambda>s. \<forall>c. started (fst (snd (is_run s c))) = []) steps"

lemma quiet_run: "quiet steps \<Longrightarrow> i < length steps \<Longrightarrow> is_run (steps ! i) c = (c', ev, r) \<Longrightarrow> started ev = []"
  unfolding quiet_def list_all_length by (metis fst_conv snd_conv)

lemma iterate_started:
  assumes "quiet steps" "i < length steps"
  shows "iterate en steps i o' c = Continue j o2 c2 ev \<Longrightarrow>
      set (started ev) \<subseteq> {i} \<and> length (started ev) \<le> 1 \<and> (j = Suc i \<or> (j = i \<and> en_hook en \<noteq> None))"
    and "iterate en steps i o' c = Leave o2 c2 ev e \<Longrightarrow> set (started ev) \<subseteq> {i} \<and> length (started ev) \<le> 1"
  using quiet_run [OF assms]
  by (auto simp: iterate_def mark_and_advance_def Let_def done_message_def skip_message_def
      split: sum.splits bool.splits prod.splits option.splits failure_action.splits)

lemma short_list: "set xs \<subseteq> {i} \<Longrightarrow> length xs \<le> 1 \<Longrightarrow> xs = [] \<or> xs = [i]"
  by (cases xs) auto

definition in_order :: "('c, 'e) engine \<Rightarrow> ('c, 'e) install_step list \<Rightarrow> nat \<Rightarrow> nat list \<Rightarrow> bool" where
  "in_order en steps i js =
     (sorted js \<and> list_all (\<lambda>j. i \<le> j \<and> j < length steps) js \<and> (en_hook en \<noteq> None \<or> distinct js))"

lemma in_order_append:
  "js = [] \<or> js = [i] \<Longrightarrow> i < length steps \<Longrightarrow> j = Suc i \<or> (j = i \<and> en_hook en \<noteq> None) \<Longrightarrow>
    in_order en steps j ks \<Longrightarrow> in_order en steps i (js @ ks)"
  by (fastforce simp: in_order_def list_all_iff)

lemma engine_loop_started:
  "engine_loop en steps i o' c = Some res \<Longrightarrow>
    quiet steps \<longrightarrow> in_order en steps i (started (fst (snd (snd res))))"
proof (erule engine_loop.raw_induct
    [where P = "\<lambda>en steps i o' c res. quiet steps \<longrightarrow> in_order en steps i (started (fst (snd (snd res))))", rotated],
    rule impI)
  fix loop :: "('a, 'b) engine \<Rightarrow> ('a, 'b) install_step list \<Rightarrow> nat \<Rightarrow> bool \<Rightarrow> 'a
      \<Rightarrow> (bool \<times> 'a \<times> event list \<times> 'b option) option"
    and en :: "('a, 'b) engine" and steps :: "('a, 'b) install_step list" and i o' c res
  assume IH: "\<And>en steps i o' c res. loop en steps i o' c = Some res \<Longrightarrow>
      quiet steps \<longrightarrow> in_order en steps i (started (fst (snd (snd res))))"
    and body: "(if i < length steps then
        (case iterate en steps i o' c of
           Continue index' opened' c' ev \<Rightarrow>
             Option.bind (loop en steps index' opened' c') (\<lambda>(o', c'', ev', r). Some (o', c'', ev @ ev', r))
         | Leave opened' c' ev e \<Rightarrow> Some (opened', c', ev, Some e))
      else Some (o', c, [], None)) = Some res"
    and quiet: "quiet steps"
  show "in_order en steps i (started (fst (snd (snd res))))"
  proof (cases "i < length steps")
    case False
    with body show ?thesis by (auto simp: in_order_def)
  next
    case True
    show ?thesis
    proof (cases "iterate en steps i o' c")
      case (Leave o3 c3 ev3 e)
      from iterate_started(2) [OF quiet True Leave] short_list [of "started ev3" i]
      have "started ev3 = [] \<or> started ev3 = [i]" by blast
      with body True Leave show ?thesis by (auto simp: in_order_def)
    next
      case (Continue j o3 c3 ev3)
      with body True obtain o4 c4 ev4 r4 where l: "loop en steps j o3 c3 = Some (o4, c4, ev4, r4)"
        "res = (o4, c4, ev3 @ ev4, r4)"
        by (auto simp: bind_eq_Some_conv)
      from iterate_started(1) [OF quiet True Continue] short_list [of "started ev3" i]
      have "started ev3 = [] \<or> started ev3 = [i]" "j = Suc i \<or> (j = i \<and> en_hook en \<noteq> None)" by blast+
      from in_order_append [OF this(1) True this(2)] IH [OF l(1)] quiet l(2) show ?thesis
        by simp
    qed
  qed
qed

section \<open>The loop returns\<close>

text \<open>
  A bound on the retries: the hook answers RETRY only at the expense of the budget, which
  nothing else increases.
\<close>

definition bounded_retries :: "('c \<Rightarrow> nat) \<Rightarrow> ('c, 'e) engine \<Rightarrow> ('c, 'e) install_step list \<Rightarrow> bool" where
  "bounded_retries budget en steps =
     ((\<forall>s \<in> set steps. \<forall>c. budget (fst (is_run s c)) \<le> budget c \<and> budget (fst (en_mark en s c)) \<le> budget c) \<and>
      (\<forall>hook s e b c. en_hook en = Some hook \<longrightarrow>
        budget (fst (hook s e b c)) \<le> budget c \<and>
        (snd (hook s e b c) = Inr RETRY \<longrightarrow> budget (fst (hook s e b c)) < budget c)))"

lemma iterate_budget:
  assumes "bounded_retries budget en steps" "i < length steps"
    "iterate en steps i o' c = Continue j o2 c2 ev"
  shows "(j = i \<and> budget c2 < budget c) \<or> (j = Suc i \<and> budget c2 \<le> budget c)"
proof -
  let ?s = "steps ! i"
  have s: "budget (fst (is_run ?s c)) \<le> budget c" "\<And>c. budget (fst (en_mark en ?s c)) \<le> budget c"
    using assms(1,2) by (auto simp: bounded_retries_def)
  have h: "budget (fst (hook s e b c)) \<le> budget c \<and>
      (snd (hook s e b c) = Inr RETRY \<longrightarrow> budget (fst (hook s e b c)) < budget c)"
    if "en_hook en = Some hook" for hook s e b c
    using assms(1) that by (auto simp: bounded_retries_def)
  have m: "budget c2 \<le> budget c1"
    if "mark_and_advance en ?s i o3 c1 ev1 = Continue j o2 c2 ev" for o3 c1 ev1
    using that s(2) [of c1] by (auto simp: mark_and_advance_def split: prod.splits option.splits)
  show ?thesis
  proof (cases "is_satisfied ?s c")
    case (Inl e)
    with assms(3) show ?thesis by (simp add: iterate_def)
  next
    case (Inr sat)
    show ?thesis
    proof (cases sat)
      case True
      with Inr assms(3) show ?thesis by (simp add: iterate_def Let_def)
    next
      case False
      obtain c1 ev1 r1 where run: "is_run ?s c = (c1, ev1, r1)" by (cases "is_run ?s c") auto
      have b1: "budget c1 \<le> budget c" using s(1) run by simp
      show ?thesis
      proof (cases r1)
        case None
        with Inr False run assms(3) have ma: "mark_and_advance en ?s i (o' \<or> is_opens_chroot ?s) c1 (OnStep i # ev1)
            = Continue j o2 c2 ev"
          by (simp add: iterate_def Let_def)
        then have "j = Suc i" by (auto simp: mark_and_advance_def split: prod.splits option.splits)
        with m [OF ma] b1 show ?thesis by simp
      next
        case (Some exc)
        then obtain hook where hook: "en_hook en = Some hook"
          using Inr False run assms(3) by (auto simp: iterate_def Let_def split: option.splits)
        obtain c3 a where hc: "hook ?s exc o' c1 = (c3, a)" by (cases "hook ?s exc o' c1") auto
        have b3: "budget c3 \<le> budget c1" "a = Inr RETRY \<Longrightarrow> budget c3 < budget c1"
          using h [OF hook, of ?s exc o' c1] hc by simp_all
        show ?thesis
        proof (cases "a = Inr RETRY")
          case True
          then have "j = i \<and> c2 = c3"
            using Inr False run Some hook hc assms(3) by (simp add: iterate_def Let_def)
          with b1 b3(2) [OF True] show ?thesis by simp
        next
          case False
          then have ma: "mark_and_advance en ?s i o' c3 (OnStep i # ev1 @ [skip_message (is_label ?s)])
              = Continue j o2 c2 ev"
            using Inr \<open>\<not> sat\<close> run Some hook hc assms(3)
            by (auto simp: iterate_def Let_def split: sum.splits failure_action.splits)
          then have "j = Suc i" by (auto simp: mark_and_advance_def split: prod.splits option.splits)
          with m [OF ma] b1 b3(1) show ?thesis by simp
        qed
      qed
    qed
  qed
qed

lemma engine_loop_returns:
  assumes "bounded_retries budget en steps"
  shows "\<exists>res. engine_loop en steps i o' c = Some res"
proof (induction "(length steps - i, budget c)" arbitrary: i o' c
    rule: wf_induct_rule [OF wf_lex_prod [OF wf_less_than wf_less_than]])
  case (1 i c o')
  show ?case
  proof (cases "i < length steps")
    case False
    then show ?thesis by (subst engine_loop.simps) simp
  next
    case True
    show ?thesis
    proof (cases "iterate en steps i o' c")
      case (Leave o3 c3 ev3 e)
      with True show ?thesis by (subst engine_loop.simps) simp
    next
      case (Continue j o3 c3 ev3)
      have "((length steps - j, budget c3), length steps - i, budget c) \<in> less_than <*lex*> less_than"
        using iterate_budget [OF assms True Continue] True by auto
      from 1 [OF this] obtain res where "engine_loop en steps j o3 c3 = Some res" by blast
      with True Continue show ?thesis
        by (subst engine_loop.simps) (auto split: prod.splits)
    qed
  qed
qed

section \<open>The engine on an install context\<close>

text \<open>The in-memory store, and the teardown of the context's root on the host executor.\<close>

definition context_engine ::
    "'w executor \<Rightarrow> (('w install_context, pipe_error) install_step \<Rightarrow> pipe_error \<Rightarrow> bool \<Rightarrow> 'w install_context
       \<Rightarrow> 'w install_context \<times> (pipe_error + failure_action)) option
     \<Rightarrow> ('w install_context, pipe_error) engine" where
  "context_engine host hook =
     \<lparr>en_mark = (\<lambda>s cx. (cx\<lparr>cx_done := List.insert (step_key (is_key s) (is_label s)) (cx_done cx)\<rparr>, None)),
      en_teardown = (\<lambda>cx. case teardown_chroot (cx_root cx) host (cx_world cx) of
        (w', ev, r) \<Rightarrow> (cx\<lparr>cx_world := w'\<rparr>, progress_of ev,
           case r of Inl e \<Rightarrow> Some (Raised e) | Inr ss \<Rightarrow> None)),
      en_hook = hook\<rparr>"

text \<open>\<open>PrepareChroot\<close> of \<open>registry.py\<close>; \<open>ismount\<close> is \<open>os.path.ismount\<close>.\<close>

definition PrepareChroot ::
    "'w executor \<Rightarrow> ('w \<Rightarrow> string \<Rightarrow> bool) \<Rightarrow> ('w install_context, pipe_error) install_step" where
  "PrepareChroot host ismount =
     \<lparr>is_label = ''Prepare the chroot'', is_key = None, is_phase = BASE_SYSTEM, is_chroot = False,
      is_opens_chroot = True,
      is_satisfied = (\<lambda>cx. Inr (ismount (cx_world cx) (resolve (cx_root cx) ''/proc''))),
      is_run = (\<lambda>cx. case prepare_chroot (cx_root cx) host (cx_world cx) of
        (w', ev, r) \<Rightarrow> (cx\<lparr>cx_world := w'\<rparr>, progress_of ev,
           case r of Inl e \<Rightarrow> Some e | Inr ss \<Rightarrow> None))\<rparr>"

text \<open>A step of a command pipeline, as the argv rows of the registry are.\<close>

definition ArgvStep ::
    "'w executor \<Rightarrow> string \<Rightarrow> string option \<Rightarrow> phase \<Rightarrow> bool \<Rightarrow> ('w install_context \<Rightarrow> step list res)
     \<Rightarrow> ('w install_context, pipe_error) install_step" where
  "ArgvStep host label key ph chroot build =
     \<lparr>is_label = label, is_key = key, is_phase = ph, is_chroot = chroot, is_opens_chroot = False,
      is_satisfied = (\<lambda>cx. Inr (step_key key label \<in> set (cx_done cx))),
      is_run = argv_step_run host chroot build\<rparr>"

section \<open>Properties\<close>

text \<open>without a failure hook an install always returns.\<close>

theorem run_install_returns:
  assumes "en_hook en = None"
  shows "\<exists>r. run_install en steps c = Some r"
proof -
  have "bounded_retries (\<lambda>_. 0) en steps"
    using assms by (simp add: bounded_retries_def)
  from engine_loop_returns [OF this, of 0 False c] show ?thesis
    by (auto simp: run_install_def split: prod.splits option.splits)
qed

definition demo_context :: "fake install_context" where
  "demo_context = \<lparr>cx_root = ''/mnt/gentoo'', cx_world = fake_init, cx_done = []\<rparr>"

definition sync_step :: "(fake install_context, pipe_error) install_step" where
  "sync_step = ArgvStep (fake_run (\<lambda>argv. if argv = [''chroot'', ''/mnt/gentoo'', ''emerge'', ''--sync''] then 1 else 0))
     ''Sync the Portage tree'' (Some ''sync_tree'') BASE_SYSTEM True
     (\<lambda>cx. Inr [Step ''sync portage tree'' [''emerge'', ''--sync'']])"

theorem run_install_returns_witness:
  "\<exists>r. run_install (context_engine (fake_run (\<lambda>_. 0)) None) [sync_step] demo_context = Some r"
  by (rule run_install_returns) (simp add: context_engine_def)

text \<open>C3: with a failure hook an install returns whenever its retries are bounded: each RETRY uses
  up some budget that no step and no other answer of the hook increases.\<close>

theorem run_install_returns_bounded:
  assumes "bounded_retries budget en steps"
  shows "\<exists>r. run_install en steps c = Some r"
  using engine_loop_returns [OF assms, of 0 False c]
  by (auto simp: run_install_def split: prod.splits option.splits)

text \<open>A context that counts the attempts left; the step fails until none is left.\<close>

definition flaky :: "(nat, unit) install_step" where
  "flaky = \<lparr>is_label = ''flaky'', is_key = None, is_phase = FINISH, is_chroot = False, is_opens_chroot = False,
     is_satisfied = (\<lambda>c. Inr False), is_run = (\<lambda>c. (c, [], if c = 0 then None else Some ()))\<rparr>"

definition retrying :: "(nat, unit) engine" where
  "retrying = \<lparr>en_mark = (\<lambda>s c. (c, None)), en_teardown = (\<lambda>c. (c, [], None)),
     en_hook = Some (\<lambda>s e b c. (c - 1, Inr (if c = 0 then ABORT else RETRY)))\<rparr>"

theorem run_install_returns_bounded_witness:
  "\<exists>r. run_install retrying [flaky] 5 = Some r"
  by (rule run_install_returns_bounded [of "\<lambda>c. c"])
    (auto simp: bounded_retries_def flaky_def retrying_def)


lemma context_teardown_quiet: "started (fst (snd (en_teardown (context_engine host hook) c))) = []"
  by (simp add: context_engine_def split: prod.splits)

lemma argv_step_quiet: "started (fst (snd (argv_step_run host chroot build cx))) = []"
  by (simp add: argv_step_run_def split: sum.splits prod.splits)


text \<open>C2: the pseudo-filesystems are torn down exactly when a step that opens the chroot ran to
  completion in this run, after the last step and whatever happened since; the exception of the
  run survives a teardown that raises none.\<close>

theorem teardown_iff_opened:
  assumes "run_install en steps c = Some (c', ev, r)"
  shows "\<exists>c1 ev1 r1. engine_loop en steps 0 False c = Some (opens en steps (0, False, c), c1, ev1, r1) \<and>
    (if opens en steps (0, False, c)
     then c' = fst (en_teardown en c1) \<and> ev = ev1 @ fst (snd (en_teardown en c1)) \<and>
       r = (case snd (snd (en_teardown en c1)) of None \<Rightarrow> r1 | Some e \<Rightarrow> Some e)
     else c' = c1 \<and> ev = ev1 \<and> r = r1)"
proof -
  obtain o1 c1 ev1 r1 where l: "engine_loop en steps 0 False c = Some (o1, c1, ev1, r1)"
    using assms by (auto simp: run_install_def bind_eq_Some_conv)
  have "o1 \<longleftrightarrow> opens en steps (0, False, c)"
    using engine_loop_opened [OF l] by simp
  with assms l show ?thesis
    by (auto simp: run_install_def split: if_splits prod.splits option.splits)
qed

definition prepare_ok :: "(fake install_context, pipe_error) install_step" where
  "prepare_ok = PrepareChroot (fake_run (\<lambda>_. 0)) (\<lambda>w p. False)"

theorem teardown_iff_opened_witness:
  "\<exists>c' ev r. run_install (context_engine (fake_run (\<lambda>_. 0)) None) [prepare_ok, sync_step] demo_context
      = Some (c', ev, r) \<and>
    (\<exists>c1 ev1 r1. engine_loop (context_engine (fake_run (\<lambda>_. 0)) None) [prepare_ok, sync_step] 0 False demo_context
      = Some (opens (context_engine (fake_run (\<lambda>_. 0)) None) [prepare_ok, sync_step] (0, False, demo_context), c1, ev1, r1))"
proof -
  let ?en = "context_engine (fake_run (\<lambda>_. 0)) None"
  obtain c' ev r where run: "run_install ?en [prepare_ok, sync_step] demo_context = Some (c', ev, r)"
    using run_install_returns [of ?en] by (fastforce simp: context_engine_def)
  from teardown_iff_opened [OF run] run show ?thesis by blast
qed

text \<open>the step that opens the chroot is itself not covered: when it fails after its first mount,
  the run ends with that mount in place and no unmount is attempted.\<close>

definition sys_bind_fails :: "string list \<Rightarrow> int" where
  "sys_bind_fails argv = (if argv = [''mount'', ''--rbind'', ''/sys'', ''/mnt/gentoo/sys''] then 32 else 0)"

fun attempted_argvs :: "(string list \<Rightarrow> int) \<Rightarrow> string list list \<Rightarrow> string list list" where
  "attempted_argvs c [] = []"
| "attempted_argvs c (a # as) = a # (if c a = 0 then attempted_argvs c as else [])"

lemma attempted_argvs: "map st_argv (attempted c ss) = attempted_argvs c (map st_argv ss)"
  by (induction ss) auto

lemma attempted_argvs_append:
  "\<exists>a \<in> set as. c a \<noteq> 0 \<Longrightarrow> attempted_argvs c (as @ bs) = attempted_argvs c as"
  by (induction as) auto

lemma find_code: "\<exists>a \<in> set (map st_argv ss). c a \<noteq> 0 \<Longrightarrow> \<exists>s. find (\<lambda>s. c (st_argv s) \<noteq> 0) (ss @ ts) = Some s"
  by (induction ss) auto

theorem failed_prepare_not_torn_down:
  "map_option (\<lambda>(cx, ev, r). (fk_calls (cx_world cx), r \<noteq> None))
     (run_install (context_engine (fake_run sys_bind_fails) None)
        [PrepareChroot (fake_run sys_bind_fails) (\<lambda>w p. False)] demo_context)
   = Some ([[''mkdir'', ''-p'', ''/mnt/gentoo/proc''], [''mount'', ''-t'', ''proc'', ''proc'', ''/mnt/gentoo/proc''],
        [''mkdir'', ''-p'', ''/mnt/gentoo/sys''], [''mount'', ''--rbind'', ''/sys'', ''/mnt/gentoo/sys'']], True)"
proof -
  let ?p = "prepare_chroot ''/mnt/gentoo'' (fake_run sys_bind_fails) fake_init"
  let ?calls = "[[''mkdir'', ''-p'', ''/mnt/gentoo/proc''], [''mount'', ''-t'', ''proc'', ''proc'', ''/mnt/gentoo/proc''],
        [''mkdir'', ''-p'', ''/mnt/gentoo/sys''], [''mount'', ''--rbind'', ''/sys'', ''/mnt/gentoo/sys'']]"
  have root: "valid_target_root ''/mnt/gentoo''" "length ''/mnt/gentoo'' \<le> 200"
    "is_ok (resolv_copy_step ''/mnt/gentoo'')"
    by code_simp+
  obtain ms where ms: "pseudo_mount_steps ''/mnt/gentoo'' = Inr ms"
    "map st_argv ms = pseudo_mount_argvs ''/mnt/gentoo''"
    using pseudo_mount_built [OF root(1,2)] by blast
  obtain cp where cp: "resolv_copy_step ''/mnt/gentoo'' = Inr cp"
    using root(3) by (auto simp: is_ok_iff)
  have fails: "\<exists>a \<in> set (map st_argv ms). sys_bind_fails a \<noteq> 0"
    unfolding ms(2) by code_simp
  have run: "attempted_argvs sys_bind_fails (pseudo_mount_argvs ''/mnt/gentoo'') = ?calls"
    by code_simp
  have p': "?p = run_steps (fake_run sys_bind_fails) (ms @ [cp]) fake_init"
    using root(1) ms(1) cp by (simp add: prepare_chroot_def guard_target_root_def)
  obtain w ev r where p: "?p = (w, ev, r)" by (rule prod_cases3)
  have "fk_calls (fst ?p) = map st_argv (attempted sys_bind_fails (ms @ [cp]))"
    unfolding p' run_steps_fake by (simp add: fake_init_def)
  then have calls: "fk_calls w = ?calls"
    unfolding p fst_conv attempted_argvs map_append attempted_argvs_append [OF fails] unfolding ms(2) run .
  obtain f where "find (\<lambda>s. sys_bind_fails (st_argv s) \<noteq> 0) (ms @ [cp]) = Some f"
    using find_code [OF fails] by blast
  then obtain e where "r = Inl e"
    using p unfolding p' run_steps_fake by auto
  let ?en = "context_engine (fake_run sys_bind_fails) None"
    and ?s = "PrepareChroot (fake_run sys_bind_fails) (\<lambda>w p. False)"
  have "is_run ?s demo_context = (demo_context\<lparr>cx_world := w\<rparr>, progress_of ev, Some e)"
    using p \<open>r = Inl e\<close> by (simp add: PrepareChroot_def demo_context_def)
  moreover have "is_satisfied ?s demo_context = Inr False" "en_hook ?en = None"
    by (simp_all add: PrepareChroot_def context_engine_def)
  ultimately have "iterate ?en [?s] 0 False demo_context
      = Leave False (demo_context\<lparr>cx_world := w\<rparr>) (OnStep 0 # progress_of ev) e"
    by (simp add: iterate_def)
  then have "engine_loop ?en [?s] 0 False demo_context
      = Some (False, demo_context\<lparr>cx_world := w\<rparr>, OnStep 0 # progress_of ev, Some e)"
    by (subst engine_loop.simps) simp
  then show ?thesis
    unfolding calls [symmetric] by (simp add: run_install_def)
qed

end
