(* ===== verification/AtomFile.thy ===== *)
theory AtomFile
  imports KeyedText StrFacts
begin

text \<open>
  \<open>gest/core/portage/codec/atomfile.py\<close>: the line grammar of the \<open>package.*\<close>
  drop-ins, one atom with its tokens per line. \<open>parse\<close>, \<open>line_for\<close>,
  \<open>tokens_for\<close> and \<open>upsert\<close> are modelled whole; the lemmas show that an upsert sets
  exactly the entry of its atom and keeps every other line.
\<close>

record atom_line =
  al_atom :: string
  al_tokens :: "string list"

text \<open>\<open>line and not line.startswith("#")\<close> for a stripped line.\<close>

definition data_line :: "string \<Rightarrow> bool" where
  "data_line line = (line \<noteq> [] \<and> \<not> startswith line ''#'')"

fun af_parse_lines :: "string list \<Rightarrow> atom_line list" where
  "af_parse_lines [] = []"
| "af_parse_lines (raw # raws) =
     (let line = strip raw in
      if \<not> data_line line then af_parse_lines raws
      else (let parts = py_split line
            in \<lparr>al_atom = hd parts, al_tokens = tl parts\<rparr> # af_parse_lines raws))"

definition af_parse :: "string \<Rightarrow> atom_line list" where
  "af_parse text = af_parse_lines (splitlines text)"

fun line_for_lines :: "string list \<Rightarrow> string \<Rightarrow> string" where
  "line_for_lines [] atom = []"
| "line_for_lines (raw # raws) atom =
     (let line = strip raw in
      if data_line line \<and> hd (py_split line) = atom then line else line_for_lines raws atom)"

definition line_for :: "string \<Rightarrow> string \<Rightarrow> string" where
  "line_for text atom = line_for_lines (splitlines text) atom"

definition tokens_for :: "string \<Rightarrow> string \<Rightarrow> string list" where
  "tokens_for text atom =
     (let line = line_for text atom in if line \<noteq> [] then tl (py_split line) else [])"

fun upsert_kept :: "string list \<Rightarrow> string \<Rightarrow> string list" where
  "upsert_kept [] atom = []"
| "upsert_kept (raw # raws) atom =
     (let stripped = strip raw in
      if \<not> data_line stripped then raw # upsert_kept raws atom
      else if hd (py_split stripped) = atom then upsert_kept raws atom
      else raw # upsert_kept raws atom)"

definition upsert :: "string \<Rightarrow> string \<Rightarrow> string \<Rightarrow> string" where
  "upsert text atom line =
     (let kept = upsert_kept (splitlines text) atom;
          kept' = (if line \<noteq> [] then kept @ [line] else kept);
          body = strip (join [LF] kept')
      in if body \<noteq> [] then body @ [LF] else [])"

section \<open>Everything in terms of the non-blank lines\<close>

definition keeps :: "string \<Rightarrow> string \<Rightarrow> bool" where
  "keeps atom l = (\<not> data_line l \<or> hd (py_split l) \<noteq> atom)"

lemma data_line_hash: "data_line l \<longleftrightarrow> l \<noteq> [] \<and> hd l \<noteq> HASH"
  by (cases l) (auto simp: data_line_def startswith_def)

lemma af_parse_nblines:
  "af_parse text = map (\<lambda>l. \<lparr>al_atom = hd (py_split l), al_tokens = tl (py_split l)\<rparr>)
     (filter data_line (nblines text))"
proof -
  have "af_parse_lines ls = map (\<lambda>l. \<lparr>al_atom = hd (py_split l), al_tokens = tl (py_split l)\<rparr>)
      (filter data_line (filter (\<lambda>l. l \<noteq> []) (map strip ls)))" for ls
    by (induction ls) (auto simp: Let_def data_line_def)
  then show ?thesis by (simp add: af_parse_def nblines_def)
qed

lemma line_for_nblines:
  "line_for text atom = (case filter (\<lambda>l. \<not> keeps atom l) (nblines text) of [] \<Rightarrow> [] | l # _ \<Rightarrow> l)"
proof -
  have "line_for_lines ls atom =
      (case filter (\<lambda>l. \<not> keeps atom l) (filter (\<lambda>l. l \<noteq> []) (map strip ls)) of [] \<Rightarrow> [] | l # _ \<Rightarrow> l)" for ls
    by (induction ls) (auto simp: Let_def keeps_def data_line_def)
  then show ?thesis by (simp add: line_for_def nblines_def)
qed

lemma upsert_kept_set: "set (upsert_kept ls atom) \<subseteq> set ls"
  by (induction ls) (auto simp: Let_def)

lemma upsert_kept_nonblank:
  "filter (\<lambda>l. l \<noteq> []) (map strip (upsert_kept ls atom))
     = filter (keeps atom) (filter (\<lambda>l. l \<noteq> []) (map strip ls))"
  by (induction ls) (auto simp: Let_def keeps_def data_line_def)

text \<open>The lines of an upserted text: the kept lines in their order, then the new one.\<close>

lemma nblines_upsert:
  "nblines (upsert text atom line) = filter (keeps atom) (nblines text) @ nblines line"
proof -
  let ?kept = "upsert_kept (splitlines text) atom"
  have free: "list_all (\<lambda>l. list_all (\<lambda>c. \<not> is_linebreak c) l) ?kept"
    using upsert_kept_set [of "splitlines text" atom] splitlines_parts
    by (fastforce simp: list_all_iff)
  have "nblines (upsert text atom line)
      = nblines (join [LF] (if line \<noteq> [] then ?kept @ [line] else ?kept))"
    by (simp only: upsert_def Let_def nblines_body)
  also have "\<dots> = concat (map nblines ?kept) @ nblines line"
    by (simp add: nblines_join)
  also have "concat (map nblines ?kept) = filter (keeps atom) (nblines text)"
    using concat_nblines [OF free] upsert_kept_nonblank by (simp add: nblines_def)
  finally show ?thesis .
qed

lemma af_parse_upsert_keep:
  "filter (\<lambda>a. al_atom a \<noteq> atom) (af_parse (upsert text atom []))
     = filter (\<lambda>a. al_atom a \<noteq> atom) (af_parse text)"
  by (simp add: af_parse_nblines nblines_upsert filter_map comp_def keeps_def)
    (metis (mono_tags, lifting) data_line_def filter_cong)

section \<open>Single-line entries\<close>

definition word :: "string \<Rightarrow> bool" where
  "word w = (w \<noteq> [] \<and> list_all (\<lambda>c. \<not> is_space c) w)"

definition entry_line :: "string \<Rightarrow> string list \<Rightarrow> string" where
  "entry_line atom toks = join '' '' (atom # toks)"

definition entry_ok :: "string \<Rightarrow> string list \<Rightarrow> bool" where
  "entry_ok atom toks = (word atom \<and> hd atom \<noteq> HASH \<and> list_all word toks)"

lemma entry_line_split: "entry_ok atom toks \<Longrightarrow> py_split (entry_line atom toks) = atom # toks"
  unfolding entry_line_def
  by (rule py_split_join) (auto simp: entry_ok_def word_def list_all_iff)

lemma join_words:
  "list_all word ws \<Longrightarrow> ws \<noteq> [] \<Longrightarrow> join '' '' ws \<noteq> [] \<and> hd (join '' '' ws) = hd (hd ws) \<and>
     \<not> is_space (last (join '' '' ws)) \<and> list_all (\<lambda>c. \<not> is_linebreak c) (join '' '' ws)"
proof (induction "'' ''" ws rule: join.induct)
  case (2 x)
  then show ?case
    using nonspace_not_linebreak by (auto simp: word_def list_all_iff)
next
  case (3 x y xs)
  then show ?case
    using nonspace_not_linebreak by (auto simp: word_def list_all_iff)
qed simp

lemma nblines_entry_line:
  assumes "entry_ok atom toks"
  shows "nblines (entry_line atom toks) = [entry_line atom toks]"
    and "data_line (entry_line atom toks)"
proof -
  have j: "entry_line atom toks \<noteq> [] \<and> hd (entry_line atom toks) = hd atom \<and>
     \<not> is_space (last (entry_line atom toks)) \<and> list_all (\<lambda>c. \<not> is_linebreak c) (entry_line atom toks)"
    using assms join_words [of "atom # toks"] by (simp add: entry_line_def entry_ok_def)
  moreover have "\<not> is_space (hd atom)"
    using assms by (cases atom) (auto simp: entry_ok_def word_def)
  ultimately have "strip (entry_line atom toks) = entry_line atom toks"
    by (auto intro: strip_eq_self)
  with j show "nblines (entry_line atom toks) = [entry_line atom toks]"
    by (simp add: nblines_line)
  from j assms show "data_line (entry_line atom toks)"
    by (simp add: data_line_hash entry_ok_def)
qed

text \<open>The entry of an atom, if the file has one.\<close>

definition entry_of :: "string \<Rightarrow> string \<Rightarrow> string list option" where
  "entry_of text atom = (if line_for text atom = [] then None else Some (tokens_for text atom))"

definition put_entry :: "string \<Rightarrow> string list \<Rightarrow> string \<Rightarrow> string" where
  "put_entry atom toks text = upsert text atom (entry_line atom toks)"

definition del_entry :: "string \<Rightarrow> string \<Rightarrow> string" where
  "del_entry atom text = upsert text atom []"

lemma filter_not_keeps:
  "atom' \<noteq> atom \<Longrightarrow> filter (\<lambda>l. keeps atom l \<and> \<not> keeps atom' l) ls = filter (\<lambda>l. \<not> keeps atom' l) ls"
  by (rule filter_cong) (auto simp: keeps_def)

interpretation atomfile: keyed_text_del entry_of put_entry entry_ok "\<lambda>_. True" del_entry
proof unfold_locales
  fix t k v k'
  assume ok: "entry_ok k v"
  have not_kept: "\<not> keeps k (entry_line k v)"
    using ok entry_line_split nblines_entry_line(2) by (simp add: keeps_def)
  then have "line_for (put_entry k v t) k = entry_line k v"
    using ok by (simp add: line_for_nblines put_entry_def nblines_upsert nblines_entry_line)
  then show "entry_of (put_entry k v t) k = Some v"
    using ok nblines_entry_line(2) [OF ok] entry_line_split [OF ok]
    by (simp add: entry_of_def tokens_for_def data_line_def)
  assume ne: "k' \<noteq> k"
  then have "keeps k' (entry_line k v)"
    using ok entry_line_split by (simp add: keeps_def)
  with ne ok show "entry_of (put_entry k v t) k' = entry_of t k'"
    by (simp add: entry_of_def tokens_for_def line_for_nblines put_entry_def nblines_upsert
        nblines_entry_line filter_not_keeps)
next
  fix t k k' :: string
  show "entry_of (del_entry k t) k = None"
    by (simp add: entry_of_def line_for_nblines del_entry_def nblines_upsert)
  assume "k' \<noteq> k"
  then show "entry_of (del_entry k t) k' = entry_of t k'"
    by (simp add: entry_of_def tokens_for_def line_for_nblines del_entry_def nblines_upsert
        filter_not_keeps)
qed auto

section \<open>Properties\<close>

text \<open>an upsert keeps every other line of the file in its order and puts the new line last: the
  entry of its atom is replaced, comments and the entries of other atoms are not touched.\<close>

theorem upsert_lines_exact:
  "nblines (upsert text atom line) =
     filter (\<lambda>l. \<not> (data_line l \<and> hd (py_split l) = atom)) (nblines text) @ nblines line"
proof -
  have "keeps atom = (\<lambda>l. \<not> (data_line l \<and> hd (py_split l) = atom))"
    by (auto simp: keeps_def)
  then show ?thesis by (simp add: nblines_upsert)
qed

text \<open>after any sequence of well-formed edits of a \<open>package.*\<close> file, looking an atom up gives
  the tokens of its last edit, and the original tokens if no edit named it.\<close>

theorem package_file_edits:
  assumes "list_all (\<lambda>(atom, toks). entry_ok atom toks) edits"
  shows "tokens_for (fold (\<lambda>(atom, toks) t. upsert t atom (entry_line atom toks)) edits text) a =
    (case map_of (rev edits) a of Some toks \<Rightarrow> toks | None \<Rightarrow> tokens_for text a)"
proof -
  have "(\<lambda>(atom, toks) t. upsert t atom (entry_line atom toks)) = (\<lambda>(atom, toks). put_entry atom toks)"
    by (auto simp: put_entry_def fun_eq_iff)
  then have "entry_of (fold (\<lambda>(atom, toks) t. upsert t atom (entry_line atom toks)) edits text)
      = entry_of text ++ map_of (rev edits)"
    using atomfile.look_edits [where t = "text" and es = edits] assms by (auto simp: list_all_iff)
  moreover have "tokens_for t a = (case entry_of t a of Some toks \<Rightarrow> toks | None \<Rightarrow> [])" for t
    by (simp add: entry_of_def tokens_for_def)
  ultimately show ?thesis
    by (simp add: map_add_def split: option.splits)
qed

theorem package_file_edits_witness:
  "tokens_for (fold (\<lambda>(atom, toks) t. upsert t atom (entry_line atom toks))
      [(''sys-apps/x'', [''a'']), (''app-y/z'', []), (''sys-apps/x'', [''-a'', ''b''])]
      (''# head'' @ [LF] @ ''sys-apps/x q'')) ''sys-apps/x'' = [''-a'', ''b'']"
proof -
  let ?e = "[(''sys-apps/x'', [''a'']), (''app-y/z'', []), (''sys-apps/x'', [''-a'', ''b''])]"
  have "list_all (\<lambda>(atom, toks). entry_ok atom toks) ?e" by code_simp
  from package_file_edits [OF this, of "''# head'' @ [LF] @ ''sys-apps/x q''" "''sys-apps/x''"]
  show ?thesis by simp
qed

end
