(* ===== verification/IniFile.thy ===== *)
theory IniFile
  imports StrFacts
begin

text \<open>
  \<open>gest/core/portage/codec/ini.py\<close>: \<open>repos.conf\<close> and \<open>binrepos.conf\<close>. The parser's
  loop is a fold of \<open>ini_step\<close> over the lines; the dict that \<open>current\<close> aliases in the
  code is named by \<open>cur\<close> here. \<open>parse\<close> undoes \<open>render\<close>.
\<close>

record ini_section =
  sec_name :: string
  sec_entries :: "(string \<times> string) list"

text \<open>What \<open>current\<close> points at: nothing, the defaults, or the entries of a named section.\<close>

datatype cur = NoSection | InDefault | InSection string

record ini_state =
  ini_defaults :: "(string \<times> string) list"
  ini_sections :: "ini_section list"
  ini_cur :: cur

definition DEFAULT_SECTION :: string where
  "DEFAULT_SECTION = ''DEFAULT''"

definition open_section :: "string \<Rightarrow> ini_state \<Rightarrow> ini_state" where
  "open_section name st =
     (if ascii_upper name = DEFAULT_SECTION then st\<lparr>ini_cur := InDefault\<rparr>
      else if name \<in> sec_name ` set (ini_sections st) then st\<lparr>ini_cur := InSection name\<rparr>
      else st\<lparr>ini_sections := ini_sections st @ [\<lparr>sec_name = name, sec_entries = []\<rparr>],
              ini_cur := InSection name\<rparr>)"

definition set_in_section :: "string \<Rightarrow> string \<Rightarrow> string \<Rightarrow> ini_section list \<Rightarrow> ini_section list" where
  "set_in_section name k v secs =
     map (\<lambda>s. if sec_name s = name then s\<lparr>sec_entries := dict_set k v (sec_entries s)\<rparr> else s) secs"

definition set_current :: "string \<Rightarrow> string \<Rightarrow> ini_state \<Rightarrow> ini_state" where
  "set_current k v st =
     (case ini_cur st of
        NoSection \<Rightarrow> st
      | InDefault \<Rightarrow> st\<lparr>ini_defaults := dict_set k v (ini_defaults st)\<rparr>
      | InSection name \<Rightarrow> st\<lparr>ini_sections := set_in_section name k v (ini_sections st)\<rparr>)"

definition ini_step :: "string \<Rightarrow> ini_state \<Rightarrow> ini_state" where
  "ini_step line st =
     (let s = strip line in
      if s = [] \<or> startswith s ''#'' \<or> startswith s '';'' then st
      else if startswith s ''['' \<and> endswith s '']'' then open_section (strip (butlast (tl s))) st
      else if ini_cur st \<noteq> NoSection \<and> CHR ''='' \<in> set line
        then set_current (strip (before_char (CHR ''='') line)) (strip (after_char (CHR ''='') line)) st
      else st)"

definition ini_init :: ini_state where
  "ini_init = \<lparr>ini_defaults = [], ini_sections = [], ini_cur = NoSection\<rparr>"

definition ini_parse :: "string \<Rightarrow> (string \<times> string) list \<times> ini_section list" where
  "ini_parse text = (let st = fold ini_step (splitlines text) ini_init
     in (ini_defaults st, ini_sections st))"

definition sections_dict :: "string \<Rightarrow> (string \<times> (string \<times> string) list) list" where
  "sections_dict text =
     fold (\<lambda>sect. dict_set (sec_name sect) (sec_entries sect)) (snd (ini_parse text)) []"

definition entry_text :: "string \<times> string \<Rightarrow> string" where
  "entry_text e = fst e @ '' = '' @ snd e"

definition render_block :: "string \<Rightarrow> (string \<times> string) list \<Rightarrow> string" where
  "render_block name entries = join [LF] ((''['' @ name @ '']'') # map entry_text entries)"

definition ini_render :: "ini_section list \<Rightarrow> (string \<times> string) list \<Rightarrow> string" where
  "ini_render sections defaults =
     (let blocks = (if defaults \<noteq> [] then [render_block DEFAULT_SECTION defaults] else [])
            @ map (\<lambda>sect. render_block (sec_name sect) (sec_entries sect)) sections;
          text = strip (join [LF, LF] blocks)
      in if text \<noteq> [] then text @ [LF] else [])"

section \<open>The parser sees stripped lines only\<close>

lemma eq_not_space [simp]: "is_space c \<Longrightarrow> c \<noteq> CHR ''=''"
  by auto

lemma before_char_spaces:
  "list_all is_space a \<Longrightarrow> before_char (CHR ''='') (a @ s) = a @ before_char (CHR ''='') s"
  unfolding before_char_def by (induction a) auto

lemma before_char_append:
  "CHR ''='' \<in> set s \<Longrightarrow> before_char (CHR ''='') (s @ b) = before_char (CHR ''='') s"
  unfolding before_char_def by (induction s) auto

lemma before_char_length: "length (before_char d s) \<le> length s"
  by (simp add: before_char_def length_takeWhile_le)

lemma after_char_append:
  "CHR ''='' \<in> set s \<Longrightarrow> after_char (CHR ''='') (s @ b) = after_char (CHR ''='') s @ b"
proof (induction s)
  case (Cons c s)
  then show ?case
    by (cases "c = CHR ''=''") (auto simp: after_char_def before_char_def)
qed simp

lemma after_char_spaces:
  "list_all is_space a \<Longrightarrow> after_char (CHR ''='') (a @ s) = after_char (CHR ''='') s"
  by (simp add: after_char_def before_char_spaces)

lemma partition_pad:
  assumes "CHR ''='' \<in> set s" "list_all is_space a" "list_all is_space b"
  shows "strip (before_char (CHR ''='') (a @ s @ b)) = strip (before_char (CHR ''='') s)"
    and "strip (after_char (CHR ''='') (a @ s @ b)) = strip (after_char (CHR ''='') s)"
  using strip_append_spaces [OF assms(2), of "[]"] strip_append_spaces [of "[]", OF _ assms(3)] assms
  by (simp_all add: before_char_spaces before_char_append after_char_spaces after_char_append)

lemma eq_mem_pad:
  "list_all is_space a \<Longrightarrow> list_all is_space b \<Longrightarrow> CHR ''='' \<in> set (a @ s @ b) \<longleftrightarrow> CHR ''='' \<in> set s"
  by (auto simp: list_all_iff)

lemma eq_mem_strip: "CHR ''='' \<in> set line \<longleftrightarrow> CHR ''='' \<in> set (strip line)"
  using strip_decomp [of line] eq_mem_pad [of _ _ "strip line"] by metis

lemma partition_strip:
  assumes "CHR ''='' \<in> set line"
  shows "strip (before_char (CHR ''='') line) = strip (before_char (CHR ''='') (strip line))"
    and "strip (after_char (CHR ''='') line) = strip (after_char (CHR ''='') (strip line))"
  using strip_decomp [of line] partition_pad [of "strip line"] assms eq_mem_strip by metis+

lemma ini_step_strip: "ini_step (strip line) = ini_step line"
  using eq_mem_strip [of line] partition_strip [of line]
  by (auto simp: ini_step_def Let_def fun_eq_iff)

lemma ini_step_blank: "strip line = [] \<Longrightarrow> ini_step line = id"
  by (simp add: ini_step_def fun_eq_iff)

lemma fold_ini_step_lines:
  "fold ini_step (filter (\<lambda>l. l \<noteq> []) (map strip ls)) = fold ini_step ls"
  by (induction ls) (auto simp: ini_step_strip ini_step_blank)

lemma fold_ini_step_nblines: "fold ini_step (splitlines text) = fold ini_step (nblines text)"
  by (simp add: nblines_def fold_ini_step_lines)

section \<open>Round trip\<close>

text \<open>The names, keys and values a rendered file can carry.\<close>

definition clean :: "string \<Rightarrow> bool" where
  "clean s = (strip s = s \<and> list_all (\<lambda>c. \<not> is_linebreak c) s)"

definition key_ok :: "string \<Rightarrow> bool" where
  "key_ok k = (clean k \<and> k \<noteq> [] \<and> CHR ''='' \<notin> set k \<and> hd k \<notin> set ''#;['')"

definition entries_ok :: "(string \<times> string) list \<Rightarrow> bool" where
  "entries_ok d = (list_all (\<lambda>(k, v). key_ok k \<and> clean v) d \<and> distinct (map fst d))"

definition sections_ok :: "ini_section list \<Rightarrow> bool" where
  "sections_ok secs = (distinct (map sec_name secs) \<and>
     list_all (\<lambda>s. clean (sec_name s) \<and> ascii_upper (sec_name s) \<noteq> DEFAULT_SECTION \<and>
       entries_ok (sec_entries s)) secs)"

lemma ini_step_header:
  assumes "clean name"
  shows "ini_step (''['' @ name @ '']'') = open_section name"
proof -
  have "strip (''['' @ name @ '']'') = ''['' @ name @ '']''"
    by (rule strip_eq_self) simp
  moreover have "suffix '']'' (''['' @ name @ '']'')"
    by (auto simp: suffix_def)
  ultimately show ?thesis
    using assms by (simp add: ini_step_def startswith_def endswith_def clean_def fun_eq_iff Let_def butlast_append)
qed

lemma strip_hd_of_append: "strip s = s \<Longrightarrow> s \<noteq> [] \<Longrightarrow> strip (s @ t) = s @ rstrip t \<or> strip (s @ t) = s"
proof -
  assume s: "strip s = s" "s \<noteq> []"
  then have "\<not> is_space (hd s)" "\<not> is_space (last s)"
    using strip_hd [of s] strip_last [of s] by auto
  then have "lstrip (s @ t) = s @ t"
    using s by (auto simp: lstrip_def intro!: dropWhile_eq_self)
  then have "strip (s @ t) = rev (dropWhile is_space (rev t @ rev s))"
    by (simp add: strip_def rstrip_def)
  moreover have "dropWhile is_space (rev t @ rev s) =
      (if dropWhile is_space (rev t) = [] then rev s else dropWhile is_space (rev t) @ rev s)"
    using \<open>\<not> is_space (last s)\<close> s(2)
    by (auto simp: dropWhile_append hd_rev dropWhile_eq_Nil_conv intro!: dropWhile_eq_self)
  ultimately show ?thesis by (auto simp: rstrip_def)
qed

lemma ini_step_entry:
  assumes "key_ok k" "clean v" "ini_cur st \<noteq> NoSection"
  shows "ini_step (entry_text (k, v)) st = set_current k v st"
proof -
  let ?line = "k @ '' = '' @ v"
  have k: "strip k = k" "k \<noteq> []" "CHR ''='' \<notin> set k" "hd k \<notin> set ''#;[''"
    using assms(1) by (auto simp: key_ok_def clean_def)
  have "strip ?line \<noteq> [] \<and> hd (strip ?line) = hd k"
    using strip_hd_of_append [OF k(1,2), of "'' = '' @ v"] k(2) by (auto simp: hd_append)
  then obtain c z where "strip ?line = c # z" "c \<notin> set ''#;[''"
    using k(4) by (metis list.exhaust_sel)
  moreover have "before_char (CHR ''='') ?line = k @ '' ''"
    using k(3) unfolding before_char_def by (induction k) auto
  moreover from this have "after_char (CHR ''='') ?line = '' '' @ v"
    by (simp add: after_char_def)
  moreover have "strip (k @ '' '') = k"
    using strip_append_spaces [of "[]" "'' ''" k] k(1) by simp
  ultimately show ?thesis
    using assms by (auto simp: ini_step_def entry_text_def startswith_def clean_def)
qed

lemma fold_entries_default:
  "entries_ok d \<Longrightarrow> ini_cur st = InDefault \<Longrightarrow> fst ` set (ini_defaults st) \<inter> fst ` set d = {} \<Longrightarrow>
    fold ini_step (map entry_text d) st = st\<lparr>ini_defaults := ini_defaults st @ d\<rparr>"
proof (induction d arbitrary: st)
  case (Cons e d)
  obtain k v where e: "e = (k, v)" by force
  have ok: "key_ok k" "clean v" "entries_ok d" "k \<notin> fst ` set d"
    using Cons.prems(1) e by (auto simp: entries_ok_def)
  have new: "k \<notin> fst ` set (ini_defaults st)"
    using Cons.prems(3) e by auto
  have "ini_step (entry_text e) st = st\<lparr>ini_defaults := ini_defaults st @ [(k, v)]\<rparr>"
    using ini_step_entry [OF ok(1,2), of st] Cons.prems(2) new e
    by (simp add: set_current_def dict_set_new)
  then show ?case
    using Cons.IH [of "st\<lparr>ini_defaults := ini_defaults st @ [(k, v)]\<rparr>"] ok Cons.prems e by auto
qed simp

lemma set_in_last:
  "name \<notin> sec_name ` set secs \<Longrightarrow>
    set_in_section name k v (secs @ [\<lparr>sec_name = name, sec_entries = d\<rparr>])
      = secs @ [\<lparr>sec_name = name, sec_entries = dict_set k v d\<rparr>]"
  by (auto simp: set_in_section_def intro!: map_idI)

lemma fold_entries_section:
  "entries_ok d \<Longrightarrow> name \<notin> sec_name ` set secs \<Longrightarrow> fst ` set d0 \<inter> fst ` set d = {} \<Longrightarrow>
    ini_cur st = InSection name \<Longrightarrow> ini_sections st = secs @ [\<lparr>sec_name = name, sec_entries = d0\<rparr>] \<Longrightarrow>
    fold ini_step (map entry_text d) st
      = st\<lparr>ini_sections := secs @ [\<lparr>sec_name = name, sec_entries = d0 @ d\<rparr>]\<rparr>"
proof (induction d arbitrary: st d0)
  case (Cons e d)
  obtain k v where e: "e = (k, v)" by force
  have ok: "key_ok k" "clean v" "entries_ok d" "k \<notin> fst ` set d"
    using Cons.prems(1) e by (auto simp: entries_ok_def)
  have new: "k \<notin> fst ` set d0"
    using Cons.prems(3) e by auto
  let ?st = "st\<lparr>ini_sections := secs @ [\<lparr>sec_name = name, sec_entries = d0 @ [(k, v)]\<rparr>]\<rparr>"
  have "ini_step (entry_text e) st = ?st"
    using ini_step_entry [OF ok(1,2), of st] Cons.prems new e
    by (simp add: set_current_def dict_set_new set_in_last)
  then show ?case
    using Cons.IH [of "d0 @ [(k, v)]" ?st] ok Cons.prems new e by auto
qed simp

lemma entry_text_unbroken:
  "entries_ok d \<Longrightarrow> list_all (\<lambda>l. list_all (\<lambda>c. \<not> is_linebreak c) l) (map entry_text d)"
  by (auto simp: entries_ok_def key_ok_def clean_def entry_text_def list_all_iff)

lemma fold_block:
  assumes "clean name" "entries_ok d"
  shows "fold ini_step (nblines (render_block name d)) st
    = fold ini_step (map entry_text d) (open_section name st)"
proof -
  have "list_all (\<lambda>l. list_all (\<lambda>c. \<not> is_linebreak c) l) ((''['' @ name @ '']'') # map entry_text d)"
    using entry_text_unbroken [OF assms(2)] assms(1) by (auto simp: clean_def)
  then have "nblines (render_block name d)
      = filter (\<lambda>l. l \<noteq> []) (map strip ((''['' @ name @ '']'') # map entry_text d))"
    by (simp only: render_block_def nblines_join linebreak_consts(1) concat_nblines)
  then show ?thesis
    using fold_ini_step_lines [of "(''['' @ name @ '']'') # map entry_text d"]
      ini_step_header [OF assms(1)] by (simp del: filter.simps list.map)
qed

lemma nblines_join2: "nblines (join [LF, LF] ls) = concat (map nblines ls)"
proof (induction "[LF, LF]" ls rule: join.induct)
  case (3 x y xs)
  then show ?case
    using nblines_sep [of LF x "LF # join [LF, LF] (y # xs)"] by simp
qed simp_all

lemma fold_concat_map: "fold f (concat (map g xs)) st = fold (\<lambda>x. fold f (g x)) xs st"
  by (induction xs arbitrary: st) auto

lemma fold_sections:
  "sections_ok secs \<Longrightarrow> sec_name ` set (ini_sections st) \<inter> sec_name ` set secs = {} \<Longrightarrow>
    \<exists>c. fold (\<lambda>s. fold ini_step (nblines (render_block (sec_name s) (sec_entries s)))) secs st
      = st\<lparr>ini_sections := ini_sections st @ secs, ini_cur := c\<rparr>"
proof (induction secs arbitrary: st)
  case Nil
  show ?case by (intro exI [of _ "ini_cur st"]) simp
next
  case (Cons s secs)
  have ok: "clean (sec_name s)" "ascii_upper (sec_name s) \<noteq> DEFAULT_SECTION" "entries_ok (sec_entries s)"
    "sections_ok secs" "sec_name s \<notin> sec_name ` set secs"
    using Cons.prems(1) by (auto simp: sections_ok_def)
  have new: "sec_name s \<notin> sec_name ` set (ini_sections st)"
    using Cons.prems(2) by auto
  let ?open = "st\<lparr>ini_sections := ini_sections st @ [\<lparr>sec_name = sec_name s, sec_entries = []\<rparr>],
      ini_cur := InSection (sec_name s)\<rparr>"
  let ?next = "st\<lparr>ini_sections := ini_sections st @ [s], ini_cur := InSection (sec_name s)\<rparr>"
  have "open_section (sec_name s) st = ?open"
    using ok(2) new by (auto simp: open_section_def)
  then have "fold ini_step (nblines (render_block (sec_name s) (sec_entries s))) st = ?next"
    using fold_entries_section [OF ok(3) new, of "[]" ?open] by (simp add: fold_block [OF ok(1,3)])
  then show ?case
    using Cons.IH [of ?next, OF ok(4)] Cons.prems(2) ok(5) by auto
qed

lemma nblines_render:
  "nblines (ini_render secs defs) =
     (if defs \<noteq> [] then nblines (render_block DEFAULT_SECTION defs) else []) @
     concat (map (\<lambda>s. nblines (render_block (sec_name s) (sec_entries s))) secs)"
  by (simp only: ini_render_def Let_def nblines_body) (simp add: nblines_join2 comp_def)

lemma ini_parse_render_state:
  assumes "sections_ok secs" "entries_ok defs"
  shows "ini_parse (ini_render secs defs) = (defs, secs)"
proof -
  let ?after = "ini_init\<lparr>ini_defaults := defs,
      ini_cur := if defs \<noteq> [] then InDefault else NoSection\<rparr>"
  have d: "clean DEFAULT_SECTION" "ascii_upper DEFAULT_SECTION = DEFAULT_SECTION"
    by (simp_all add: DEFAULT_SECTION_def clean_def ascii_upper_def ascii_upper_char_def strip_def
        lstrip_def rstrip_def char_class_defs)
  have "fold ini_step (if defs \<noteq> [] then nblines (render_block DEFAULT_SECTION defs) else []) ini_init
      = ?after"
    using fold_entries_default [OF assms(2), of "ini_init\<lparr>ini_cur := InDefault\<rparr>"] d
    by (simp add: fold_block [OF d(1) assms(2)] open_section_def ini_init_def)
  moreover obtain c where
    "fold (\<lambda>s. fold ini_step (nblines (render_block (sec_name s) (sec_entries s)))) secs ?after
      = ?after\<lparr>ini_sections := ini_sections ?after @ secs, ini_cur := c\<rparr>"
    using fold_sections [OF assms(1), of ?after] by (auto simp: ini_init_def)
  ultimately show ?thesis
    by (simp add: ini_parse_def fold_ini_step_nblines nblines_render fold_concat_map Let_def ini_init_def)
qed

text \<open>parsing a rendered \<open>repos.conf\<close> gives back the defaults and the sections it was rendered
  from, for names, keys and values without surrounding white space or line breaks.\<close>

theorem ini_parse_render:
  assumes "sections_ok secs" "entries_ok defs"
  shows "ini_parse (ini_render secs defs) = (defs, secs)"
  by (rule ini_parse_render_state [OF assms])

theorem ini_parse_render_witness:
  "ini_parse (ini_render
      [\<lparr>sec_name = ''gentoo'', sec_entries = [(''location'', ''/var/db/repos/gentoo''), (''sync-type'', ''rsync'')]\<rparr>,
       \<lparr>sec_name = ''empty'', sec_entries = []\<rparr>] [(''main-repo'', ''gentoo'')])
    = ([(''main-repo'', ''gentoo'')],
       [\<lparr>sec_name = ''gentoo'', sec_entries = [(''location'', ''/var/db/repos/gentoo''), (''sync-type'', ''rsync'')]\<rparr>,
        \<lparr>sec_name = ''empty'', sec_entries = []\<rparr>])"
  by (rule ini_parse_render; code_simp)

end
