(* ===== verification/ShellConf.thy ===== *)
theory ShellConf
  imports KeyedText Regex
begin

text \<open>
  \<open>gest/core/portage/codec/shell.py\<close>: the \<open>NAME="value"\<close> grammar of \<open>make.conf\<close>.
  \<open>assignments\<close> scans the lines as the code does, by index, with the quoted and the
  continued value forms; \<open>render_var\<close> replaces the last assignment of a name or appends
  one. The lemmas show how a scan splits over a text, and from it that an edit sets the
  variable it names and no other.
\<close>

record var =
  var_name :: string
  var_value :: string

definition name_start :: "char \<Rightarrow> bool" where
  "name_start c = (alpha_az c \<or> c = CHR ''_'')"

definition name_char :: "char \<Rightarrow> bool" where
  "name_char c = (alnum_az c \<or> c = CHR ''_'')"

definition name_rx :: rx where
  "name_rx = Seq (Cls name_start) (Star (Cls name_char))"

definition valid_name :: "string \<Rightarrow> bool" where
  "valid_name name = fullmatch name_rx name"

definition valid_value :: "string \<Rightarrow> bool" where
  "valid_value value =
     (if LF \<in> set value \<or> NUL \<in> set value \<or> DQUOTE \<in> set value \<or> BTICK \<in> set value then False
      else \<not> contains ''$('' value)"

fun find_close :: "char \<Rightarrow> string \<Rightarrow> nat option" where
  "find_close q [] = None"
| "find_close q (c # cs) =
     (if c = BSLASH then
        (case cs of [] \<Rightarrow> None | d # ds \<Rightarrow> map_option (\<lambda>k. k + 2) (find_close q ds))
      else if c = q then Some 0
      else map_option Suc (find_close q cs))"

text \<open>
  The two loops of \<open>_read_value\<close>: the chunks, and by how much \<open>end\<close> has grown. A value
  that is not closed runs one past the last line, as in the code.
\<close>

fun read_quoted :: "char \<Rightarrow> string \<Rightarrow> string list \<Rightarrow> string list \<times> nat" where
  "read_quoted q cur rest =
     (case find_close q cur of
        Some idx \<Rightarrow> ([take idx cur], 0)
      | None \<Rightarrow>
          (let chunk = rstrip_char BSLASH (rstrip cur) in
           case rest of
             [] \<Rightarrow> ([chunk], 1)
           | l # ls \<Rightarrow> (let (chunks, n) = read_quoted q l ls in (chunk # chunks, Suc n))))"

fun read_plain :: "string \<Rightarrow> string list \<Rightarrow> string list \<times> nat" where
  "read_plain cur rest =
     (if endswith (rstrip cur) [BSLASH] then
        (let part = butlast (rstrip cur) in
         case rest of
           [] \<Rightarrow> ([part], 1)
         | l # ls \<Rightarrow> (let (parts, n) = read_plain l ls in (part # parts, Suc n)))
      else ([cur], 0))"

text \<open>\<open>re.sub(r"\s+", " ", value).strip()\<close>: the flag says the last character was a space.\<close>

fun sub_ws :: "bool \<Rightarrow> string \<Rightarrow> string" where
  "sub_ws sp [] = []"
| "sub_ws sp (c # cs) =
     (if is_space c then (if sp then sub_ws True cs else CHR '' '' # sub_ws True cs)
      else c # sub_ws False cs)"

definition collapse :: "string \<Rightarrow> string" where
  "collapse value = strip (sub_ws False value)"

definition read_value :: "string \<Rightarrow> string list \<Rightarrow> string \<times> nat" where
  "read_value raw rest =
     (let after = after_char (CHR ''='') raw;
          (parts, n) =
            (case after of
               [] \<Rightarrow> read_plain after rest
             | c # cs \<Rightarrow>
                 if c = DQUOTE \<or> c = SQUOTE then read_quoted c cs rest else read_plain after rest)
      in (collapse (join '' '' parts), n))"

text \<open>The name a line assigns, if the loop reads an assignment there (\<open>_ASSIGN_RE\<close>).\<close>

definition assign_name :: "string \<Rightarrow> string option" where
  "assign_name line =
     (let s = strip line in
      if s = [] \<or> startswith s ''#'' \<or> CHR ''='' \<notin> set line then None
      else (let t = lstrip line; name = takeWhile name_char t
            in if valid_name name \<and> startswith (drop (length name) t) ''='' then Some name else None))"

function assigns_from :: "nat \<Rightarrow> string list \<Rightarrow> (string \<times> string \<times> nat \<times> nat) list" where
  "assigns_from i [] = []"
| "assigns_from i (line # rest) =
     (case assign_name line of
        None \<Rightarrow> assigns_from (Suc i) rest
      | Some name \<Rightarrow>
          (let (value, n) = read_value line rest
           in (name, value, i, i + n) # assigns_from (i + n + 1) (drop n rest)))"
  by pat_completeness auto
termination
  by (relation "measure (\<lambda>(i, ls). length ls)") auto

definition assignments :: "string \<Rightarrow> (string \<times> string \<times> nat \<times> nat) list" where
  "assignments text = assigns_from 0 (split_char LF text)"

fun vars_loop ::
  "(string \<times> string \<times> nat \<times> nat) list \<Rightarrow> string list \<Rightarrow> (string \<times> string) list
     \<Rightarrow> string list \<times> (string \<times> string) list" where
  "vars_loop [] order values = (order, values)"
| "vars_loop ((name, value, _, _) # as) order values =
     vars_loop as (if name \<notin> fst ` set values then order @ [name] else order)
       (dict_set name value values)"

definition variables :: "string \<Rightarrow> var list" where
  "variables text =
     (let (order, values) = vars_loop (assignments text) [] []
      in map (\<lambda>name. \<lparr>var_name = name, var_value = the (map_of values name)\<rparr>) order)"

definition assign_line :: "string \<Rightarrow> string \<Rightarrow> string" where
  "assign_line name value = name @ ''='' @ [DQUOTE] @ value @ [DQUOTE]"

definition render_var :: "string \<Rightarrow> string \<Rightarrow> string \<Rightarrow> string" where
  "render_var text name value =
     (let lines = split_char LF text;
          assigns = filter (\<lambda>a. fst a = name) (assignments text);
          new_line = assign_line name value
      in if assigns \<noteq> [] then
           (let (_, _, start, fin) = last assigns
            in join [LF] (take start lines @ [new_line] @ drop (fin + 1) lines))
         else
           (let lines' = (if lines \<noteq> [] \<and> strip (last lines) \<noteq> [] then lines @ [[]] else lines)
            in join [LF] (lines' @ [new_line])))"


section \<open>How a scan splits over the lines\<close>

text \<open>A value that ends within the lines it is given sees those lines only.\<close>

lemma read_quoted_local:
  "read_quoted q cur rest = (cs, n) \<Longrightarrow> n \<le> length rest \<Longrightarrow> n \<le> length rest' \<Longrightarrow>
    take n rest' = take n rest \<Longrightarrow> read_quoted q cur rest' = (cs, n)"
proof (induction q cur rest arbitrary: cs n rest' rule: read_quoted.induct)
  case (1 q cur rest)
  show ?case
  proof (cases "find_close q cur")
    case (Some k)
    with "1.prems" show ?thesis by simp
  next
    case None
    then obtain l ls m cs' where r: "rest = l # ls" "read_quoted q l ls = (cs', m)" "n = Suc m"
      "cs = rstrip_char BSLASH (rstrip cur) # cs'"
      using "1.prems" by (cases rest) (auto simp: Let_def split: prod.splits)
    then obtain ls' where "rest' = l # ls'" "m \<le> length ls'" "take m ls' = take m ls"
      using "1.prems" by (cases rest') auto
    with "1.IH" [OF None refl r(1,2)] r "1.prems"(2) None show ?thesis by simp
  qed
qed

lemma read_plain_local:
  "read_plain cur rest = (cs, n) \<Longrightarrow> n \<le> length rest \<Longrightarrow> n \<le> length rest' \<Longrightarrow>
    take n rest' = take n rest \<Longrightarrow> read_plain cur rest' = (cs, n)"
proof (induction cur rest arbitrary: cs n rest' rule: read_plain.induct)
  case (1 cur rest)
  show ?case
  proof (cases "endswith (rstrip cur) [BSLASH]")
    case False
    with "1.prems" show ?thesis by simp
  next
    case True
    then obtain l ls m cs' where r: "rest = l # ls" "read_plain l ls = (cs', m)" "n = Suc m"
      "cs = butlast (rstrip cur) # cs'"
      using "1.prems" by (cases rest) (auto simp: Let_def split: prod.splits)
    then obtain ls' where "rest' = l # ls'" "m \<le> length ls'" "take m ls' = take m ls"
      using "1.prems" by (cases rest') auto
    with "1.IH" [OF True refl r(1,2)] r "1.prems"(2) True show ?thesis by simp
  qed
qed

declare read_quoted.simps [simp del] read_plain.simps [simp del]

lemma read_value_local:
  "read_value line rest = (v, n) \<Longrightarrow> n \<le> length rest \<Longrightarrow> n \<le> length rest' \<Longrightarrow>
    take n rest' = take n rest \<Longrightarrow> read_value line rest' = (v, n)"
proof -
  assume a: "read_value line rest = (v, n)" "n \<le> length rest" "n \<le> length rest'"
    "take n rest' = take n rest"
  let ?r = "\<lambda>ls. (case after_char (CHR ''='') line of
      [] \<Rightarrow> read_plain (after_char (CHR ''='') line) ls
    | c # cs \<Rightarrow> if c = DQUOTE \<or> c = SQUOTE then read_quoted c cs ls
        else read_plain (after_char (CHR ''='') line) ls)"
  have rv: "read_value line ls = (collapse (join '' '' (fst (?r ls))), snd (?r ls))" for ls
    by (simp add: read_value_def Let_def case_prod_beta)
  have "?r rest' = ?r rest"
    using read_quoted_local [of _ _ rest _ n rest'] read_plain_local [of _ rest _ n rest'] a(1) [unfolded rv] a(2-)
    by (cases "after_char (CHR ''='') line") (auto simp: prod_eq_iff)
  then show ?thesis using a(1) by (simp add: rv)
qed

text \<open>All assignments of the lines end within them.\<close>

definition closed_from :: "nat \<Rightarrow> string list \<Rightarrow> bool" where
  "closed_from i ls = list_all (\<lambda>(_, _, _, e). e < i + length ls) (assigns_from i ls)"

definition closed :: "string list \<Rightarrow> bool" where
  "closed ls = closed_from 0 ls"

lemma assigns_shift:
  "assigns_from (i + j) ls = map (\<lambda>(n, v, s, e). (n, v, s + j, e + j)) (assigns_from i ls)"
proof (induction i ls rule: assigns_from.induct)
  case (2 i line rest)
  show ?case
  proof (cases "assign_name line")
    case None
    with 2(1) show ?thesis by simp
  next
    case (Some name)
    obtain v n where rv: "read_value line rest = (v, n)" by force
    have "assigns_from (i + n + 1 + j) (drop n rest)
        = map (\<lambda>(n, v, s, e). (n, v, s + j, e + j)) (assigns_from (i + n + 1) (drop n rest))"
      using 2(2) [OF Some] rv by simp
    with Some rv show ?thesis by (simp add: ac_simps)
  qed
qed simp

lemma closed_from_shift: "closed_from i ls = closed ls"
  using assigns_shift [of 0 i ls]
  by (simp add: closed_def closed_from_def list_all_iff case_prod_beta)

lemma assigns_append:
  "closed_from i xs \<Longrightarrow> assigns_from i (xs @ ys) = assigns_from i xs @ assigns_from (i + length xs) ys"
proof (induction i xs rule: assigns_from.induct)
  case (2 i line rest)
  show ?case
  proof (cases "assign_name line")
    case None
    with 2 show ?thesis by (simp add: closed_from_def)
  next
    case (Some name)
    obtain v n where rv: "read_value line rest = (v, n)" by force
    have n: "n \<le> length rest" and c: "closed_from (i + n + 1) (drop n rest)"
      using "2.prems" Some rv by (auto simp: closed_from_def list_all_iff)
    then have "assigns_from (i + n + 1) (drop n rest @ ys)
        = assigns_from (i + n + 1) (drop n rest) @ assigns_from (i + n + 1 + length (drop n rest)) ys"
      using 2(2) [OF Some] rv by simp
    with Some rv n read_value_local [OF rv n, of "rest @ ys"] show ?thesis by simp
  qed
qed (simp add: closed_from_def)

lemma closed_append: "closed xs \<Longrightarrow> closed ys \<Longrightarrow> closed (xs @ ys)"
  using assigns_append [of 0 xs ys] closed_from_shift [of "length xs" ys]
  by (auto simp: closed_def closed_from_def list_all_iff)

text \<open>Around any assignment the scan splits in three.\<close>

lemma assigns_split:
  "(nm, v, s, e) \<in> set (assigns_from i ls) \<Longrightarrow> closed_from i ls \<Longrightarrow>
    i \<le> s \<and> s \<le> e \<and> e < i + length ls \<and> closed (take (s - i) ls) \<and> closed (drop (e + 1 - i) ls) \<and>
    (\<exists>as bs. assigns_from i ls = as @ (nm, v, s, e) # bs \<and> as = assigns_from i (take (s - i) ls) \<and>
       bs = assigns_from (e + 1) (drop (e + 1 - i) ls))"
proof (induction i ls rule: assigns_from.induct)
  case (2 i line rest)
  show ?case
  proof (cases "assign_name line")
    case None
    have c: "closed_from (Suc i) rest" and m: "(nm, v, s, e) \<in> set (assigns_from (Suc i) rest)"
      using "2.prems" None by (auto simp: closed_from_def)
    note IH = 2(1) [OF None m c]
    then have s: "s - i = Suc (s - Suc i)" "e + 1 - i = Suc (e + 1 - Suc i)"
      by auto
    have "closed (line # take (s - Suc i) rest)"
      using IH None closed_from_shift [of 1 "take (s - Suc i) rest"]
      by (simp add: closed_def closed_from_def)
    with IH None s show ?thesis by auto
  next
    case (Some name)
    obtain w n where rv: "read_value line rest = (w, n)" by force
    have n: "n \<le> length rest" and c: "closed_from (i + n + 1) (drop n rest)"
      using "2.prems" Some rv by (auto simp: closed_from_def list_all_iff)
    show ?thesis
    proof (cases "(nm, v, s, e) = (name, w, i, i + n)")
      case True
      then show ?thesis
        using Some rv n c closed_from_shift [of "i + n + 1" "drop n rest"]
        by (auto simp: closed_def closed_from_def)
    next
      case False
      then have m: "(nm, v, s, e) \<in> set (assigns_from (i + n + 1) (drop n rest))"
        using "2.prems"(1) Some rv by auto
      note IH = 2(2) [OF Some rv [symmetric] refl m c]
      let ?k = "s - (i + n + 1)"
      have k: "s - i = Suc (n + ?k)" "e + 1 - i = Suc (n + (e + 1 - (i + n + 1)))"
        using IH by auto
      have take: "take (s - i) (line # rest) = line # take n rest @ take ?k (drop n rest)"
        by (simp add: k(1) take_add)
      have drop: "drop (e + 1 - i) (line # rest) = drop (e + 1 - (i + n + 1)) (drop n rest)"
        unfolding k(2) by (simp add: add.commute)
      have "read_value line (take n rest @ take ?k (drop n rest)) = (w, n)"
        using read_value_local [OF rv n] n by simp
      then have eq: "assigns_from j (take (s - i) (line # rest))
          = (name, w, j, j + n) # assigns_from (j + n + 1) (take ?k (drop n rest))" for j
        using Some n by (simp add: take)
      have "closed (take (s - i) (line # rest))"
        using IH eq [of 0] closed_from_shift [of "n + 1" "take ?k (drop n rest)"] n
        by (simp add: closed_def closed_from_def take ac_simps)
      with IH show ?thesis
        using Some rv eq [of i] unfolding drop by auto
    qed
  qed
qed simp

lemma closed_take_drop:
  "(nm, v, s, e) \<in> set (assigns_from 0 ls) \<Longrightarrow> closed ls \<Longrightarrow> closed (take s ls) \<and> closed (drop (e + 1) ls)"
  using assigns_split [of nm v s e 0 ls] by (simp add: closed_def)

section \<open>The line an edit writes\<close>

definition plain_value :: "string \<Rightarrow> bool" where
  "plain_value v = (valid_value v \<and> BSLASH \<notin> set v \<and> collapse v = v)"

lemma find_close_plain:
  "BSLASH \<notin> set v \<Longrightarrow> q \<notin> set v \<Longrightarrow> q \<noteq> BSLASH \<Longrightarrow> find_close q (v @ q # w) = Some (length v)"
  by (induction v) auto

lemma valid_name_iff: "valid_name n \<longleftrightarrow> (\<exists>c cs. n = c # cs \<and> name_start c \<and> list_all name_char cs)"
  by (auto simp: valid_name_def name_rx_def rx_simps)

lemma name_char_facts:
  "name_char c \<Longrightarrow> c \<noteq> CHR ''='' \<and> c \<noteq> HASH \<and> \<not> is_space c \<and> c \<noteq> LF"
  by (auto simp: name_char_def char_class_defs)

lemma name_start_char: "name_start c \<Longrightarrow> name_char c"
  by (auto simp: name_start_def name_char_def alnum_az_def)

lemma valid_name_chars: "valid_name n \<Longrightarrow> n \<noteq> [] \<and> list_all name_char n"
  by (auto simp: valid_name_iff name_start_char)

lemma before_eq_name: "list_all name_char n \<Longrightarrow> before_char (CHR ''='') (n @ CHR ''='' # w) = n"
  unfolding before_char_def by (induction n) (auto dest: name_char_facts)

lemma read_assign_line:
  assumes "valid_name n" "DQUOTE \<notin> set v" "BSLASH \<notin> set v"
  shows "read_value (assign_line n v) rest = (collapse v, 0)"
proof -
  have "after_char (CHR ''='') (assign_line n v) = DQUOTE # v @ [DQUOTE]"
    using before_eq_name valid_name_chars [OF assms(1)]
    by (simp add: after_char_def assign_line_def)
  then show ?thesis
    using assms find_close_plain [of v DQUOTE "[]"]
    by (simp add: read_value_def read_quoted.simps [of _ "v @ [DQUOTE]"])
qed

lemma assign_name_line: "valid_name n \<Longrightarrow> assign_name (assign_line n v) = Some n"
proof -
  assume n: "valid_name n"
  let ?l = "n @ CHR ''='' # DQUOTE # v @ [DQUOTE]"
  obtain c cs where cs: "n = c # cs" "name_char c" "list_all name_char cs"
    using valid_name_chars [OF n] by (cases n) auto
  have "lstrip ?l = ?l"
    using cs name_char_facts [of c] by (auto simp: lstrip_def)
  moreover from this have "strip ?l = ?l"
    using cs name_char_facts [of c] by (intro strip_eq_self) auto
  moreover have "takeWhile name_char ?l = n"
    using cs by (auto simp: takeWhile_append takeWhile_eq_all name_char_def char_class_defs list_all_iff)
  moreover have "c \<noteq> HASH"
    using cs name_char_facts by blast
  ultimately show ?thesis
    using n cs(1) by (simp add: assign_name_def assign_line_def Let_def startswith_def)
qed

lemma assigns_line:
  assumes "valid_name n" "DQUOTE \<notin> set v" "BSLASH \<notin> set v"
  shows "assigns_from i (assign_line n v # rest) = (n, collapse v, i, i) # assigns_from (Suc i) rest"
  using assign_name_line [OF assms(1)] read_assign_line [OF assms] by simp

lemma assign_line_LF: "valid_name n \<Longrightarrow> valid_value v \<Longrightarrow> LF \<notin> set (assign_line n v)"
  using valid_name_chars [of n] name_char_facts
  by (auto simp: assign_line_def valid_value_def list_all_iff)

section \<open>An edit sets its variable and no other\<close>

definition var_of :: "string \<Rightarrow> string \<Rightarrow> string option" where
  "var_of text n = map_of (map (\<lambda>v. (var_name v, var_value v)) (variables text)) n"

definition shell_closed :: "string \<Rightarrow> bool" where
  "shell_closed text = closed (split_char LF text)"

definition bindings :: "(string \<times> string \<times> nat \<times> nat) list \<Rightarrow> (string \<times> string) list" where
  "bindings as = map (\<lambda>(n, v, _, _). (n, v)) as"

lemma vars_loop_dict:
  "order = map fst values \<Longrightarrow> vars_loop as order values =
    (map fst (fold (\<lambda>(n, v). dict_set n v) (bindings as) values),
     fold (\<lambda>(n, v). dict_set n v) (bindings as) values)"
proof (induction as order "values" rule: vars_loop.induct)
  case (2 name "value" a b as order "values")
  have m: "(if name \<notin> fst ` set values then order @ [name] else order)
      = map fst (dict_set name value values)"
    using "2.prems" by (simp add: map_fst_dict_set)
  show ?case
    using "2.IH" [OF m] by (simp add: bindings_def m)
qed (simp add: bindings_def)

lemma var_of_bindings: "var_of text n = map_of (rev (bindings (assignments text))) n"
proof -
  let ?d = "fold (\<lambda>(n, v). dict_set n v) (bindings (assignments text)) []"
  have "map (\<lambda>v. (var_name v, var_value v)) (variables text)
      = map (\<lambda>k. (k, the (map_of ?d k))) (map fst ?d)"
    by (simp add: variables_def vars_loop_dict comp_def)
  then have "var_of text n = (if n \<in> set (map fst ?d) then Some (the (map_of ?d n)) else None)"
    unfolding var_of_def by (simp only: map_of_map_keys)
  also have "\<dots> = map_of ?d n"
    using map_of_eq_None_iff [of ?d n] by auto
  finally show ?thesis by (simp add: map_of_fold_dict_set)
qed

lemma bindings_shift: "bindings (assigns_from i ls) = bindings (assigns_from 0 ls)"
  using assigns_shift [of 0 i ls] by (simp add: bindings_def comp_def case_prod_beta)

lemma bindings_append: "closed xs \<Longrightarrow>
  bindings (assigns_from 0 (xs @ ys)) = bindings (assigns_from 0 xs) @ bindings (assigns_from 0 ys)"
  using assigns_append [of 0 xs ys] bindings_shift [of "length xs" ys]
  by (simp add: closed_def bindings_def)

lemma split_char_LF_join:
  assumes "ls \<noteq> []" "list_all (\<lambda>l. LF \<notin> set l) ls"
  shows "split_char LF (join [LF] ls) = ls"
  using assms by (rule split_char_join)

lemma lines_unbroken: "list_all (\<lambda>l. LF \<notin> set l) (split_char LF text)"
  using split_char_parts by (auto simp: list_all_iff)

lemma unbroken_take_drop:
  "list_all (\<lambda>l. LF \<notin> set l) ls \<Longrightarrow> list_all (\<lambda>l. LF \<notin> set l) (take i ls @ drop j ls)"
  by (auto simp: list_all_iff dest: in_set_takeD in_set_dropD)

text \<open>
  The lines of the edited text: either the last assignment of the name replaced, or the
  text with the new line (and perhaps a blank one) after it.
\<close>

lemma render_lines:
  assumes "valid_name n" "valid_value v"
  shows "(\<exists>w s e as bs. assignments text = as @ (n, w, s, e) # bs \<and> n \<notin> fst ` set bs \<and>
       split_char LF (render_var text n v)
         = take s (split_char LF text) @ [assign_line n v] @ drop (e + 1) (split_char LF text)) \<or>
     (n \<notin> fst ` set (assignments text) \<and>
       (\<exists>pad. set pad \<subseteq> {[]} \<and>
         split_char LF (render_var text n v) = split_char LF text @ pad @ [assign_line n v]))"
proof (cases "filter (\<lambda>a. fst a = n) (assignments text) = []")
  case True
  let ?lines = "split_char LF text"
  let ?pad = "if ?lines \<noteq> [] \<and> strip (last ?lines) \<noteq> [] then [[]] else []"
  have "render_var text n v = join [LF] (?lines @ ?pad @ [assign_line n v])"
    using True by (simp add: render_var_def Let_def)
  moreover have "list_all (\<lambda>l. LF \<notin> set l) (?lines @ ?pad @ [assign_line n v])"
    using lines_unbroken assign_line_LF [OF assms] by auto
  ultimately have "split_char LF (render_var text n v) = ?lines @ ?pad @ [assign_line n v]"
    by (simp add: split_char_LF_join)
  moreover have "n \<notin> fst ` set (assignments text)"
    using True by (auto simp: filter_empty_conv)
  moreover have "set ?pad \<subseteq> {[]}" by auto
  ultimately show ?thesis by blast
next
  case False
  then obtain as a bs where ab: "assignments text = as @ a # bs" "fst a = n" "n \<notin> fst ` set bs"
    using split_list_last_prop [of "assignments text" "\<lambda>a. fst a = n"]
    by (fastforce simp: filter_empty_conv)
  obtain w s e where a: "a = (n, w, s, e)"
    using ab(2) by (cases a) auto
  have "filter (\<lambda>a. fst a = n) bs = []"
    using ab(3) by (force simp: filter_empty_conv)
  then have last: "last (filter (\<lambda>a. fst a = n) (assignments text)) = (n, w, s, e)"
    using ab(1) a by simp
  let ?new = "take s (split_char LF text) @ [assign_line n v] @ drop (e + 1) (split_char LF text)"
  have "render_var text n v = join [LF] ?new"
    using False last by (simp add: render_var_def Let_def)
  moreover have "list_all (\<lambda>l. LF \<notin> set l) ?new"
    using unbroken_take_drop [OF lines_unbroken, of s "text" "e + 1"] assign_line_LF [OF assms] by simp
  ultimately have "split_char LF (render_var text n v) = ?new"
    by (simp only: split_char_LF_join append_is_Nil_conv not_Cons_self2 list.distinct simp_thms)
  with ab(1,3) show ?thesis unfolding a by blast
qed

text \<open>Starts grow strictly, so an assignment stands at one place only.\<close>

lemma assigns_split_at:
  assumes "assigns_from 0 ls = as @ (n, w, s, e) # bs" "closed ls"
  shows "closed (take s ls)" "closed (drop (e + 1) ls)"
    "as = assigns_from 0 (take s ls)" "bs = assigns_from (e + 1) (drop (e + 1) ls)"
proof -
  let ?x = "(n, w, s, e)" and ?as = "assigns_from 0 (take s ls)"
    and ?bs = "assigns_from (e + 1) (drop (e + 1) ls)"
  have m: "?x \<in> set (assigns_from 0 ls)" using assms(1) by simp
  note sp = assigns_split [OF m assms(2) [unfolded closed_def]]
  then have eq: "assigns_from 0 ls = ?as @ ?x # ?bs" and c: "closed (take s ls)" "closed (drop (e + 1) ls)"
    by simp_all
  show "closed (take s ls)" "closed (drop (e + 1) ls)" by (rule c)+
  have "?x \<notin> set ?as"
    using assigns_split [of n w s e 0 "take s ls"] c(1) by (auto simp: closed_def)
  moreover have "?x \<notin> set ?bs"
    using assigns_split [of n w s e "e + 1" "drop (e + 1) ls"] c(2) sp
    by (auto simp: closed_from_shift)
  ultimately show "as = ?as" "bs = ?bs"
    using append_Cons_eq_iff [of ?x ?as ?bs as bs] eq assms(1) by auto
qed

lemma map_of_rev_snoc_notin:
  "n \<notin> fst ` set bs \<Longrightarrow> map_of (rev (as @ (n, v) # bs)) n = Some v"
proof -
  assume "n \<notin> fst ` set bs"
  then have "map_of (rev bs) n = None"
    by (simp add: map_of_eq_None_iff)
  then show ?thesis by (simp add: map_add_def)
qed

lemma closed_line:
  "valid_name n \<Longrightarrow> DQUOTE \<notin> set v \<Longrightarrow> BSLASH \<notin> set v \<Longrightarrow> closed [assign_line n v]"
  using assigns_line [of n v 0 "[]"] by (simp add: closed_def closed_from_def)

lemma bindings_line:
  "valid_name n \<Longrightarrow> DQUOTE \<notin> set v \<Longrightarrow> BSLASH \<notin> set v \<Longrightarrow>
    bindings (assigns_from 0 [assign_line n v]) = [(n, collapse v)]"
  using assigns_line [of n v 0 "[]"] by (simp add: bindings_def)

lemma assigns_blank: "set pad \<subseteq> {[]} \<Longrightarrow> assigns_from i pad = []"
  by (induction pad arbitrary: i) (auto simp: assign_name_def)

lemma bindings_fst: "fst ` set (bindings as) = fst ` set as"
  by (force simp: bindings_def)

text \<open>What an edit does to the bindings: one is replaced, or one is added at the end.\<close>

lemma render_bindings:
  assumes ok: "valid_name n" "valid_value v" "BSLASH \<notin> set v" and cl: "shell_closed text"
  shows "shell_closed (render_var text n v) \<and>
    (\<exists>as mid bs. bindings (assignments text) = as @ mid @ bs \<and> fst ` set mid \<subseteq> {n} \<and> n \<notin> fst ` set bs \<and>
      bindings (assignments (render_var text n v)) = as @ (n, collapse v) # bs)"
proof -
  have dq: "DQUOTE \<notin> set v" using ok(2) by (auto simp: valid_value_def)
  note line = closed_line [OF ok(1) dq ok(3)] bindings_line [OF ok(1) dq ok(3)]
  let ?ls = "split_char LF text"
  have cls: "closed ?ls" using cl by (simp add: shell_closed_def)
  from render_lines [OF ok(1,2), of "text"] show ?thesis
  proof (elim disjE exE conjE)
    fix w s e as bs
    assume a: "assignments text = as @ (n, w, s, e) # bs"
      "n \<notin> fst ` set bs"
      "split_char LF (render_var text n v) = take s ?ls @ [assign_line n v] @ drop (e + 1) ?ls"
    note sp = assigns_split_at [OF a(1) [unfolded assignments_def] cls]
    have "bindings (assignments (render_var text n v))
        = bindings as @ (n, collapse v) # bindings bs"
      unfolding assignments_def a(3) sp(3,4) bindings_append [OF sp(1)] bindings_append [OF line(1)]
        line(2) bindings_shift [of "e + 1"] by simp
    moreover have "shell_closed (render_var text n v)"
      unfolding shell_closed_def a(3) by (intro closed_append sp(1,2) line(1))
    moreover have "bindings (assignments text) = bindings as @ [(n, w)] @ bindings bs"
      by (simp add: a(1) bindings_def)
    ultimately show ?thesis
      using a(2) bindings_fst [of bs]
      by (intro conjI exI [of _ "bindings as"] exI [of _ "[(n, w)]"] exI [of _ "bindings bs"]) auto
  next
    fix pad
    assume a: "n \<notin> fst ` set (assignments text)" "set pad \<subseteq> {[]}"
      "split_char LF (render_var text n v) = ?ls @ pad @ [assign_line n v]"
    have pad: "closed pad" "assigns_from i pad = []" for i
      using assigns_blank [OF a(2)] by (simp_all add: closed_def closed_from_def)
    have "bindings (assignments (render_var text n v))
        = bindings (assignments text) @ [(n, collapse v)]"
      using bindings_append [OF cls] bindings_append [OF pad(1)] pad(2) line(2)
      by (simp add: assignments_def a(3)) (simp add: bindings_def)
    moreover have "shell_closed (render_var text n v)"
      using closed_append cls pad(1) line(1) by (simp add: shell_closed_def a(3))
    ultimately show ?thesis
      using a(1) by (intro conjI exI [of _ "bindings (assignments text)"] exI [of _ "[]"]) auto
  qed
qed

lemma var_of_render:
  assumes ok: "valid_name n" "valid_value v" "BSLASH \<notin> set v" and cl: "shell_closed text"
  shows "var_of (render_var text n v) = (var_of text)(n \<mapsto> collapse v)"
proof
  fix k
  obtain as mid bs where b: "bindings (assignments text) = as @ mid @ bs" "fst ` set mid \<subseteq> {n}"
    "n \<notin> fst ` set bs" "bindings (assignments (render_var text n v)) = as @ (n, collapse v) # bs"
    using render_bindings [OF assms] by blast
  show "var_of (render_var text n v) k = ((var_of text)(n \<mapsto> collapse v)) k"
  proof (cases "k = n")
    case True
    then show ?thesis
      using map_of_rev_snoc_notin [OF b(3)] by (simp add: var_of_bindings b(4))
  next
    case False
    then have "map_of (rev mid) k = None"
      using b(2) by (auto simp: map_of_eq_None_iff)
    with False show ?thesis
      by (auto simp: var_of_bindings b(1,4) map_add_def split: option.splits)
  qed
qed

interpretation shellconf: keyed_text var_of "\<lambda>n v text. render_var text n v"
  "\<lambda>n v. valid_name n \<and> plain_value v" shell_closed
  by unfold_locales (auto simp: plain_value_def var_of_render dest: render_bindings)

section \<open>Properties\<close>

text \<open>setting a \<open>make.conf\<close> variable sets that variable, with its white space collapsed as the
  parser does, and leaves every other variable as it was, for values without a backslash.\<close>

theorem render_sets_one_variable:
  assumes "valid_name n" "valid_value v" "BSLASH \<notin> set v" "shell_closed text"
  shows "var_of (render_var text n v) = (var_of text)(n \<mapsto> collapse v) \<and> shell_closed (render_var text n v)"
  using var_of_render [OF assms] render_bindings [OF assms] by simp

theorem render_sets_one_variable_witness:
  "var_of (render_var (''A=1'' @ [LF] @ ''USE='' @ [DQUOTE] @ ''x'' @ [LF] @ ''y'' @ [DQUOTE]) ''A'' ''-j4'') ''USE''
    = Some ''x y''"
proof -
  let ?t = "''A=1'' @ [LF] @ ''USE='' @ [DQUOTE] @ ''x'' @ [LF] @ ''y'' @ [DQUOTE]"
  have "valid_name ''A''" "valid_value ''-j4''" "BSLASH \<notin> set ''-j4''" "shell_closed ?t"
    "var_of ?t ''USE'' = Some ''x y''"
    by code_simp+
  with render_sets_one_variable [of "''A''" "''-j4''" ?t] show ?thesis by simp
qed

text \<open>a value ending in a backslash passes the check but escapes the closing quote the renderer
  writes, so the next assignment of the file becomes part of the value and is lost.\<close>

theorem backslash_swallows_next_line:
  "valid_name ''A'' \<and> valid_value (''a'' @ [BSLASH]) \<and>
   var_of (''A=1'' @ [LF] @ ''B=2'') ''B'' = Some ''2'' \<and>
   var_of (render_var (''A=1'' @ [LF] @ ''B=2'') ''A'' (''a'' @ [BSLASH])) ''B'' = None"
  by code_simp

end
