(* ===== verification/UsersPending.thy ===== *)
theory UsersPending
  imports PyStr "HOL-Library.Multiset"
begin

text \<open>
  \<open>gest/core/users/pending.py\<close>: the staged operations of the Users & Groups screen. An
  operation replaces the one of the same kind and key, and the whole list is applied in the
  order of the kinds, stably. The staging contract is a locale, so that what it promises is
  stated over the model once; the lemmas show that keys stay unique, that the apply order
  respects the dependencies between kinds, and that undoing a user or group leaves no trace.
\<close>

section \<open>Kinds and operations\<close>

datatype op_kind = ADD_GROUP | ADD_USER | MOD_USER | SET_MEMBER | SET_PASSWORD | SET_DEFAULTS
  | DEL_USER | DEL_GROUP

text \<open>\<open>_ORDER\<close>, and the order it gives the kinds.\<close>

definition OP_ORDER :: "op_kind list" where
  "OP_ORDER = [ADD_GROUP, ADD_USER, MOD_USER, SET_MEMBER, SET_PASSWORD, SET_DEFAULTS, DEL_USER, DEL_GROUP]"

fun index_of :: "'a list \<Rightarrow> 'a \<Rightarrow> nat" where
  "index_of [] x = 0"
| "index_of (y # ys) x = (if y = x then 0 else Suc (index_of ys x))"

instantiation op_kind :: linorder
begin

definition less_eq_op_kind :: "op_kind \<Rightarrow> op_kind \<Rightarrow> bool" where
  "less_eq_op_kind k j \<longleftrightarrow> index_of OP_ORDER k \<le> index_of OP_ORDER j"

definition less_op_kind :: "op_kind \<Rightarrow> op_kind \<Rightarrow> bool" where
  "less_op_kind k j \<longleftrightarrow> index_of OP_ORDER k < index_of OP_ORDER j"

instance
proof
  fix k j :: op_kind
  assume "k \<le> j" "j \<le> k"
  then have "index_of OP_ORDER k = index_of OP_ORDER j"
    by (simp add: less_eq_op_kind_def)
  then show "k = j"
    by (cases k; cases j) (simp_all add: OP_ORDER_def)
qed (auto simp: less_eq_op_kind_def less_op_kind_def)

end

text \<open>A value of the payload dict.\<close>

datatype op_val = VStr string | VBool bool

record op =
  op_kind_of :: op_kind
  op_key :: string
  op_data :: "(string \<times> op_val) list"
  op_label :: string

definition Op :: "op_kind \<Rightarrow> string \<Rightarrow> (string \<times> op_val) list \<Rightarrow> string \<Rightarrow> op" where
  "Op k key data label = \<lparr>op_kind_of = k, op_key = key, op_data = data, op_label = label\<rparr>"

definition USER_KINDS :: "op_kind list" where
  "USER_KINDS = [ADD_USER, MOD_USER, DEL_USER, SET_PASSWORD]"

section \<open>Staging and undoing\<close>

definition touches_user :: "op \<Rightarrow> string \<Rightarrow> bool" where
  "touches_user o' name =
     (if op_kind_of o' \<in> set USER_KINDS then op_key o' = name
      else op_kind_of o' = SET_MEMBER \<and> map_of (op_data o') ''user'' = Some (VStr name))"

definition touches_group :: "op \<Rightarrow> string \<Rightarrow> bool" where
  "touches_group o' name =
     (if op_kind_of o' = ADD_GROUP \<or> op_kind_of o' = DEL_GROUP then op_key o' = name
      else op_kind_of o' = SET_MEMBER \<and> map_of (op_data o') ''group'' = Some (VStr name))"

definition stage :: "op \<Rightarrow> op list \<Rightarrow> op list" where
  "stage o' ops =
     filter (\<lambda>p. \<not> (op_kind_of p = op_kind_of o' \<and> op_key p = op_key o')) ops @ [o']"

definition remove_for_user :: "string \<Rightarrow> op list \<Rightarrow> op list" where
  "remove_for_user name ops = filter (\<lambda>p. \<not> touches_user p name) ops"

definition remove_for_group :: "string \<Rightarrow> op list \<Rightarrow> op list" where
  "remove_for_group name ops = filter (\<lambda>p. \<not> touches_group p name) ops"

definition remove_for_defaults :: "op list \<Rightarrow> op list" where
  "remove_for_defaults ops = filter (\<lambda>p. op_kind_of p \<noteq> SET_DEFAULTS) ops"

definition clear_ops :: "op list \<Rightarrow> op list" where
  "clear_ops ops = []"

section \<open>Queries\<close>

definition ordered :: "op list \<Rightarrow> op list" where
  "ordered ops = sort_key op_kind_of ops"

definition user_marker :: "op list \<Rightarrow> string \<Rightarrow> string option" where
  "user_marker ops name =
     (let kinds = map op_kind_of (filter (\<lambda>p. touches_user p name) ops)
      in if DEL_USER \<in> set kinds then Some ''-''
         else if ADD_USER \<in> set kinds then Some ''+''
         else if list_ex (\<lambda>k. k \<in> {MOD_USER, SET_PASSWORD, SET_MEMBER}) kinds then Some ''~''
         else None)"

definition group_marker :: "op list \<Rightarrow> string \<Rightarrow> string option" where
  "group_marker ops name =
     (let kinds = map op_kind_of (filter (\<lambda>p. touches_group p name) ops)
      in if DEL_GROUP \<in> set kinds then Some ''-''
         else if ADD_GROUP \<in> set kinds then Some ''+''
         else if SET_MEMBER \<in> set kinds then Some ''~''
         else None)"

definition added_user :: "op list \<Rightarrow> string \<Rightarrow> op option" where
  "added_user ops name = find (\<lambda>p. op_kind_of p = ADD_USER \<and> op_key p = name) ops"

definition added_users :: "op list \<Rightarrow> op list" where
  "added_users ops = filter (\<lambda>p. op_kind_of p = ADD_USER) ops"

definition added_groups :: "op list \<Rightarrow> op list" where
  "added_groups ops = filter (\<lambda>p. op_kind_of p = ADD_GROUP) ops"

definition defaults_op :: "op list \<Rightarrow> op option" where
  "defaults_op ops = find (\<lambda>p. op_kind_of p = SET_DEFAULTS) ops"

definition count_kinds :: "op_kind list \<Rightarrow> op list \<Rightarrow> nat" where
  "count_kinds ks ops = length (filter (\<lambda>p. op_kind_of p \<in> set ks) ops)"

definition summary :: "op list \<Rightarrow> string" where
  "summary ops =
     (let adds = count_kinds [ADD_USER, ADD_GROUP] ops;
          edits = count_kinds [MOD_USER, SET_PASSWORD, SET_MEMBER, SET_DEFAULTS] ops;
          dels = count_kinds [DEL_USER, DEL_GROUP] ops
      in join '' ''
        ((if adds \<noteq> 0 then [''+'' @ nat_str adds] else [])
         @ (if edits \<noteq> 0 then [''~'' @ nat_str edits] else [])
         @ (if dels \<noteq> 0 then [''-'' @ nat_str dels] else [])))"

section \<open>Typed constructors\<close>

definition add_user_op :: "string \<Rightarrow> string \<Rightarrow> string \<Rightarrow> string \<Rightarrow> bool \<Rightarrow> op" where
  "add_user_op name comment shell groups system =
     Op ADD_USER name [(''name'', VStr name), (''comment'', VStr comment), (''shell'', VStr shell),
       (''groups'', VStr groups), (''system'', VBool system)] (''add user '' @ name)"

definition mod_user_op :: "string \<Rightarrow> string \<Rightarrow> string \<Rightarrow> string \<Rightarrow> op" where
  "mod_user_op name comment shell groups =
     Op MOD_USER name [(''name'', VStr name), (''comment'', VStr comment), (''shell'', VStr shell),
       (''groups'', VStr groups)] (''edit user '' @ name)"

definition del_user_op :: "string \<Rightarrow> bool \<Rightarrow> op" where
  "del_user_op name remove_home =
     Op DEL_USER name [(''name'', VStr name), (''remove_home'', VBool remove_home)]
       (''delete user '' @ name @ (if remove_home then '' (+home)'' else []))"

definition set_password_op :: "string \<Rightarrow> string \<Rightarrow> op" where
  "set_password_op name password =
     Op SET_PASSWORD name [(''name'', VStr name), (''password'', VStr password)]
       (''set password for '' @ name)"

definition add_group_op :: "string \<Rightarrow> bool \<Rightarrow> op" where
  "add_group_op name system =
     Op ADD_GROUP name [(''name'', VStr name), (''system'', VBool system)] (''add group '' @ name)"

definition del_group_op :: "string \<Rightarrow> op" where
  "del_group_op name = Op DEL_GROUP name [(''name'', VStr name)] (''delete group '' @ name)"

definition set_member_op :: "string \<Rightarrow> string \<Rightarrow> bool \<Rightarrow> op" where
  "set_member_op grp user add =
     Op SET_MEMBER (grp @ [NUL] @ user)
       [(''group'', VStr grp), (''user'', VStr user), (''add'', VBool add)]
       ((if add then ''add'' else ''remove'') @ '' '' @ user @ '' '' @ (if add then ''to'' else ''from'')
         @ '' '' @ grp)"

definition set_defaults_op :: "(string \<times> op_val) list \<Rightarrow> op" where
  "set_defaults_op flds = Op SET_DEFAULTS ''defaults'' flds ''edit new-user defaults''"

section \<open>The staging contract\<close>

text \<open>A store of staged entries, one per identity; staging replaces the entry of that identity.\<close>

locale staging =
  fixes ident :: "'o \<Rightarrow> 'i"
    and put :: "'o \<Rightarrow> 'o list \<Rightarrow> 'o list"
  assumes put_eq: "put x xs = filter (\<lambda>y. ident y \<noteq> ident x) xs @ [x]"
begin

definition uniq :: "'o list \<Rightarrow> bool" where
  "uniq xs = distinct (map ident xs)"

lemma uniq_filter: "uniq xs \<Longrightarrow> uniq (filter P xs)"
  by (simp add: uniq_def distinct_map_filter)

lemma uniq_put: "uniq xs \<Longrightarrow> uniq (put x xs)"
  using uniq_filter [of xs "\<lambda>y. ident y \<noteq> ident x"] by (auto simp: put_eq uniq_def)

lemma uniq_puts_from: "uniq ys \<Longrightarrow> uniq (fold put xs ys)"
  by (induction xs arbitrary: ys) (simp_all add: uniq_put)

lemma uniq_puts: "uniq (fold put xs [])"
  by (rule uniq_puts_from) (simp add: uniq_def)

lemma set_put: "set (put x xs) = insert x {y \<in> set xs. ident y \<noteq> ident x}"
  by (auto simp: put_eq)

lemma put_put: "ident x = ident y \<Longrightarrow> put y (put x xs) = put y xs"
  by (auto simp: put_eq intro: filter_cong)

lemma find_put: "find (\<lambda>y. ident y = i) (put x xs) = (if ident x = i then Some x else find (\<lambda>y. ident y = i) xs)"
proof -
  have "find (\<lambda>y. ident y = i) (filter (\<lambda>y. ident y \<noteq> ident x) xs @ ys)
      = (if ident x = i then find (\<lambda>y. ident y = i) ys
         else case find (\<lambda>y. ident y = i) xs of None \<Rightarrow> find (\<lambda>y. ident y = i) ys | Some y \<Rightarrow> Some y)" for ys
    by (induction xs) auto
  then show ?thesis by (simp add: put_eq split: option.splits)
qed

text \<open>After any sequence of stagings the entry of an identity is the last one staged for it.\<close>

lemma find_puts: "find (\<lambda>y. ident y = i) (fold put xs ys) =
    (case find (\<lambda>y. ident y = i) (rev xs) of None \<Rightarrow> find (\<lambda>y. ident y = i) ys | Some x \<Rightarrow> Some x)"
proof (induction xs arbitrary: ys)
  case (Cons x xs)
  have "find P (as @ [x]) = (case find P as of None \<Rightarrow> (if P x then Some x else None) | Some a \<Rightarrow> Some a)" for P as
    by (induction as) auto
  then show ?case
    by (auto simp: Cons.IH find_put split: option.splits)
qed simp

end

definition op_ident :: "op \<Rightarrow> op_kind \<times> string" where
  "op_ident o' = (op_kind_of o', op_key o')"

interpretation pending: staging op_ident stage
  by unfold_locales (simp add: stage_def op_ident_def)

section \<open>The staging list\<close>

text \<open>After any sequence of stagings the list holds one operation per kind and key, and for
  each kind and key it holds the operation staged last.\<close>

theorem staged_last_wins:
  "distinct (map op_ident (fold stage ops [])) \<and>
   find (\<lambda>p. op_ident p = i) (fold stage ops []) = find (\<lambda>p. op_ident p = i) (rev ops)"
  using pending.uniq_puts [of ops] pending.find_puts [of i ops "[]"]
  by (simp add: pending.uniq_def split: option.splits)

text \<open>The order in which the staged operations are applied is a rearrangement of the list
  sorted by kind: groups are created before the users and memberships that name them, users
  before their passwords, and every deletion comes last; operations of one kind keep the order
  in which they were staged.\<close>

theorem ordered_by_kind:
  "mset (ordered ops) = mset ops \<and> sorted (map op_kind_of (ordered ops)) \<and>
   filter (\<lambda>p. op_kind_of p = k) (ordered ops) = filter (\<lambda>p. op_kind_of p = k) ops"
  by (simp add: ordered_def sort_key_stable)

lemma touches_user_unique: "touches_user p n \<Longrightarrow> touches_user p m \<Longrightarrow> n = m"
  by (auto simp: touches_user_def split: if_splits)

lemma remove_for_user_other:
  "n \<noteq> m \<Longrightarrow> filter (\<lambda>p. touches_user p m) (remove_for_user n ops) = filter (\<lambda>p. touches_user p m) ops"
  using touches_user_unique by (auto simp: remove_for_user_def intro!: filter_cong)

text \<open>Undoing a user removes every staged change that names the user, so the user shows no
  marker, and leaves the marker of every other user as it was.\<close>

theorem remove_for_user_undoes:
  assumes "m \<noteq> n"
  shows "user_marker (remove_for_user n ops) n = None \<and>
    user_marker (remove_for_user n ops) m = user_marker ops m"
proof
  have "filter (\<lambda>p. touches_user p n) (remove_for_user n ops) = []"
    by (simp add: remove_for_user_def)
  then show "user_marker (remove_for_user n ops) n = None"
    by (simp add: user_marker_def)
  show "user_marker (remove_for_user n ops) m = user_marker ops m"
    using assms remove_for_user_other [of n m ops] by (simp add: user_marker_def)
qed

lemma remove_for_user_undoes_witness:
  "user_marker (remove_for_user ''bob'' (fold stage
     [add_user_op ''bob'' [] [] [] False, set_password_op ''amy'' ''x'',
      set_member_op ''wheel'' ''bob'' True] [])) ''bob'' = None \<and>
   user_marker (remove_for_user ''bob'' (fold stage
     [add_user_op ''bob'' [] [] [] False, set_password_op ''amy'' ''x'',
      set_member_op ''wheel'' ''bob'' True] [])) ''amy''
   = user_marker (fold stage
     [add_user_op ''bob'' [] [] [] False, set_password_op ''amy'' ''x'',
      set_member_op ''wheel'' ''bob'' True] []) ''amy''"
  by (rule remove_for_user_undoes) simp

end
