(* ===== verification/UsersCommands.thy ===== *)
theory UsersCommands
  imports DiskCommands "HOL-Library.List_Lexorder" "HOL-Library.Char_ord"
begin

text \<open>
  The rest of \<open>gest/core/users\<close>: the account data (\<open>model.py\<close>), the readers of
  \<open>/etc/passwd\<close> and \<open>/etc/group\<close> (\<open>reader.py\<close>), of the new-user defaults
  (\<open>defaults.py\<close>) and of the authentication providers (\<open>auth.py\<close>), and the validated
  argv builders of \<open>commands.py\<close>. A file that cannot be opened is \<open>None\<close>. The lemmas
  show what a command line built here means to the tool that gets it (the options requested,
  each with its value, and the account as its only operand), that the password fed to
  \<open>chpasswd\<close> is one entry, and that the readers invert the file format.
\<close>

section \<open>gest.core.users.model\<close>

record user =
  us_name :: string
  us_uid :: int
  us_gid :: int
  us_gecos :: string
  us_home :: string
  us_shell :: string

definition full_name :: "user \<Rightarrow> string" where
  "full_name u = before_char (CHR '','') (us_gecos u)"

definition user_system :: "user \<Rightarrow> bool" where
  "user_system u = (us_uid u < 1000)"

record user_group =
  gr_name :: string
  gr_gid :: int
  gr_members :: "string list"

definition group_system :: "user_group \<Rightarrow> bool" where
  "group_system g = (gr_gid g < 1000)"

section \<open>gest.core.users.reader\<close>

text \<open>One line of each file: the record it holds, or none when the line is skipped.\<close>

definition passwd_entry :: "string \<Rightarrow> user option" where
  "passwd_entry l =
     (if l = [] \<or> startswith l ''#'' then None
      else let parts = split_char (CHR '':'') l
        in if length parts < 7 then None
           else (case (py_int (parts ! 2), py_int (parts ! 3)) of
               (Some uid, Some gid) \<Rightarrow>
                 Some \<lparr>us_name = parts ! 0, us_uid = uid, us_gid = gid, us_gecos = parts ! 4,
                   us_home = parts ! 5, us_shell = parts ! 6\<rparr>
             | _ \<Rightarrow> None))"

definition parse_passwd :: "string \<Rightarrow> user list" where
  "parse_passwd s = List.map_filter passwd_entry (splitlines s)"

definition group_entry :: "string \<Rightarrow> user_group option" where
  "group_entry l =
     (if l = [] \<or> startswith l ''#'' then None
      else let parts = split_char (CHR '':'') l
        in if length parts < 4 then None
           else map_option (\<lambda>gid. \<lparr>gr_name = parts ! 0, gr_gid = gid,
               gr_members = filter (\<lambda>m. m \<noteq> []) (split_char (CHR '','') (parts ! 3))\<rparr>)
             (py_int (parts ! 2)))"

definition parse_group :: "string \<Rightarrow> user_group list" where
  "parse_group s = List.map_filter group_entry (splitlines s)"

definition list_users :: "string option \<Rightarrow> user list" where
  "list_users file = (case file of None \<Rightarrow> [] | Some s \<Rightarrow> parse_passwd s)"

definition list_groups :: "string option \<Rightarrow> user_group list" where
  "list_groups file = (case file of None \<Rightarrow> [] | Some s \<Rightarrow> parse_group s)"

definition member_groups :: "string \<Rightarrow> user_group list \<Rightarrow> string list" where
  "member_groups username groups =
     sort (map gr_name (filter (\<lambda>g. username \<in> set (gr_members g)) groups))"

definition groups_for :: "string \<Rightarrow> string option \<Rightarrow> string list" where
  "groups_for username file = member_groups username (list_groups file)"

section \<open>gest.core.users.defaults\<close>

record new_user_defaults =
  nd_group :: string
  nd_home :: string
  nd_shell :: string
  nd_inactive :: string
  nd_expire :: string
  nd_skel :: string
  nd_umask :: string

definition read_or_empty :: "string option \<Rightarrow> string" where
  "read_or_empty file = (case file of None \<Rightarrow> [] | Some s \<Rightarrow> s)"

definition parse_kv :: "string \<Rightarrow> (string \<times> string) list" where
  "parse_kv s = fold (\<lambda>line out.
     (let l = strip line
      in if l = [] \<or> startswith l ''#'' \<or> CHR ''='' \<notin> set l then out
         else dict_set (strip (before_char (CHR ''='') l)) (strip (after_char (CHR ''='') l)) out))
     (splitlines s) []"

text \<open>\<open>s.split(None, 1)\<close> on a stripped non-empty line: the first word and the stripped rest.\<close>

definition first_word :: "string \<Rightarrow> string" where
  "first_word s = takeWhile (\<lambda>c. \<not> is_space c) s"

definition parse_login_defs :: "string \<Rightarrow> (string \<times> string) list" where
  "parse_login_defs s = fold (\<lambda>line out.
     (let l = strip line
      in if l = [] \<or> startswith l ''#'' then out
         else let rest = strip (drop (length (first_word l)) l)
           in if rest \<noteq> [] then dict_set (first_word l) rest out else out))
     (splitlines s) []"

definition dict_get :: "string \<Rightarrow> (string \<times> string) list \<Rightarrow> string" where
  "dict_get k d = (case map_of d k of None \<Rightarrow> [] | Some v \<Rightarrow> v)"

definition read_defaults :: "string option \<Rightarrow> string option \<Rightarrow> new_user_defaults" where
  "read_defaults useradd_file login_defs_file =
     (let ua = parse_kv (read_or_empty useradd_file);
          ld = parse_login_defs (read_or_empty login_defs_file)
      in \<lparr>nd_group = dict_get ''GROUP'' ua, nd_home = dict_get ''HOME'' ua,
          nd_shell = dict_get ''SHELL'' ua, nd_inactive = dict_get ''INACTIVE'' ua,
          nd_expire = dict_get ''EXPIRE'' ua, nd_skel = dict_get ''SKEL'' ua,
          nd_umask = dict_get ''UMASK'' ld\<rparr>)"

section \<open>gest.core.users.auth\<close>

definition PROVIDERS :: "(string \<times> string list) list" where
  "PROVIDERS = [(''SSSD'', [''sss'']), (''LDAP'', [''ldap'']), (''NIS'', [''nis'']),
     (''Samba / Winbind'', [''winbind''])]"

record auth_provider =
  ap_name :: string
  ap_configured :: bool

fun first_source :: "string \<Rightarrow> string list \<Rightarrow> string list" where
  "first_source p [] = []"
| "first_source p (l # ls) =
     (if startswith (strip l) p then py_split (drop (length p) (strip l)) else first_source p ls)"

definition db_sources :: "string \<Rightarrow> string \<Rightarrow> string list" where
  "db_sources s db = first_source (db @ '':'') (splitlines s)"

definition read_providers :: "string option \<Rightarrow> auth_provider list" where
  "read_providers file =
     (let s = read_or_empty file;
          sources = db_sources s ''passwd'' @ db_sources s ''group''
      in map (\<lambda>(name, tokens). \<lparr>ap_name = name, ap_configured = list_ex (\<lambda>t. t \<in> set sources) tokens\<rparr>)
           PROVIDERS)"

definition read_lines :: "string option \<Rightarrow> (string \<times> string) list" where
  "read_lines file =
     (let s = read_or_empty file
      in map (\<lambda>db. (db, join '' '' (db_sources s db))) [''passwd'', ''group''])"

section \<open>gest.core.users.commands\<close>

definition name_start :: "char \<Rightarrow> bool" where
  "name_start c = (lower_az c \<or> c = CHR ''_'')"

definition name_char :: "char \<Rightarrow> bool" where
  "name_char c = (lower_az c \<or> dec_digit c \<or> c = CHR ''_'' \<or> c = CHR ''-'')"

definition NAME_RE :: rx where
  "NAME_RE = Seq (Cls name_start) (Seq (Star (Cls name_char)) (Opt (lit ''$'')))"

definition PATH_RE :: rx where
  "PATH_RE = Seq (lit ''/'') (Star (Cls (\<lambda>c. c \<noteq> NUL \<and> c \<noteq> LF)))"

definition DATE_RE :: rx where
  "DATE_RE = Seq (Times 4 (Cls dec_digit)) (Seq (lit ''-'') (Seq (Times 2 (Cls dec_digit))
     (Seq (lit ''-'') (Times 2 (Cls dec_digit)))))"

definition valid_name :: "string \<Rightarrow> bool" where
  "valid_name name = (fullmatch NAME_RE name \<and> length name \<le> 32)"

definition valid_group_ref :: "string \<Rightarrow> bool" where
  "valid_group_ref g = (py_isdigit g \<or> valid_name g)"

definition require_name :: "string \<Rightarrow> 'a res \<Rightarrow> 'a res" where
  "require_name name k = guard (valid_name name) (ValueError (''invalid name: '' @ py_repr name)) k"

definition require_path :: "string \<Rightarrow> 'a res \<Rightarrow> 'a res" where
  "require_path path k =
     guard (fullmatch PATH_RE path) (ValueError (''invalid path: '' @ py_repr path)) k"

fun require_names :: "string list \<Rightarrow> 'a res \<Rightarrow> 'a res" where
  "require_names [] k = k"
| "require_names (g # gs) k = require_name g (require_names gs k)"

definition split_groups :: "string \<Rightarrow> string list res" where
  "split_groups groups =
     (let names = filter (\<lambda>g. g \<noteq> []) (map strip (split_char (CHR '','') groups))
      in require_names names (Inr names))"

definition require_text :: "string \<Rightarrow> string \<Rightarrow> 'a res \<Rightarrow> 'a res" where
  "require_text val label k =
     guard (LF \<notin> set val \<and> CHR '':'' \<notin> set val) (ValueError (''invalid '' @ label)) k"

text \<open>The optional arguments: a field that is not empty is checked and adds its option.\<close>

definition comment_args :: "string \<Rightarrow> string list res" where
  "comment_args comment =
     (if comment \<noteq> [] then require_text comment ''comment'' (Inr [''--comment'', comment]) else Inr [])"

definition path_args :: "string \<Rightarrow> string \<Rightarrow> string list res" where
  "path_args opt path = (if path \<noteq> [] then require_path path (Inr [opt, path]) else Inr [])"

definition groups_args :: "string \<Rightarrow> string list res" where
  "groups_args groups =
     (if groups \<noteq> [] then res_bind (split_groups groups) (\<lambda>names. Inr [''--groups'', join '','' names])
      else Inr [])"

definition useradd_argv ::
    "string \<Rightarrow> string \<Rightarrow> string \<Rightarrow> string \<Rightarrow> string \<Rightarrow> bool \<Rightarrow> string \<Rightarrow> string list res" where
  "useradd_argv name comment shell home groups system useradd =
     require_name name
       (res_bind (comment_args comment) (\<lambda>c. res_bind (path_args ''--shell'' shell) (\<lambda>s.
        res_bind (path_args ''--home-dir'' home) (\<lambda>h. res_bind (groups_args groups) (\<lambda>g.
          Inr ([useradd, if system then ''--system'' else ''--create-home''] @ c @ s @ h @ g @ [name]))))))"

definition usermod_argv ::
    "string \<Rightarrow> string option \<Rightarrow> string option \<Rightarrow> string option \<Rightarrow> string \<Rightarrow> string list res" where
  "usermod_argv name comment shell groups usermod =
     require_name name
       (res_bind (comment_args (given comment)) (\<lambda>c.
        res_bind (path_args ''--shell'' (given shell)) (\<lambda>s.
        res_bind (groups_args (given groups)) (\<lambda>g.
          if c @ s @ g = [] then Inl (ValueError ''no modifications requested'')
          else Inr (usermod # c @ s @ g @ [name])))))"

definition userdel_argv :: "string \<Rightarrow> bool \<Rightarrow> string \<Rightarrow> string list res" where
  "userdel_argv name remove_home userdel =
     require_name name (Inr (userdel # (if remove_home then [''--remove''] else []) @ [name]))"

definition groupadd_argv :: "string \<Rightarrow> bool \<Rightarrow> string \<Rightarrow> string list res" where
  "groupadd_argv name system groupadd =
     require_name name (Inr (groupadd # (if system then [''--system''] else []) @ [name]))"

definition groupdel_argv :: "string \<Rightarrow> string \<Rightarrow> string list res" where
  "groupdel_argv name groupdel = require_name name (Inr [groupdel, name])"

definition chpasswd_input :: "string \<Rightarrow> string \<Rightarrow> string \<Rightarrow> (string list \<times> string) res" where
  "chpasswd_input name password chpasswd =
     require_name name
       (guard (password \<noteq> []) (ValueError ''empty password'')
         (guard (LF \<notin> set password \<and> CR \<notin> set password) (ValueError ''invalid password'')
           (Inr ([chpasswd], name @ '':'' @ password @ [LF]))))"

definition gpasswd_argv :: "string \<Rightarrow> string \<Rightarrow> bool \<Rightarrow> string \<Rightarrow> string list res" where
  "gpasswd_argv grp user add gpasswd =
     require_name grp (require_name user (Inr [gpasswd, if add then ''-a'' else ''-d'', user, grp]))"

definition useradd_defaults_argv ::
    "string \<Rightarrow> string \<Rightarrow> string \<Rightarrow> string \<Rightarrow> string \<Rightarrow> string \<Rightarrow> string list res" where
  "useradd_defaults_argv grp home shell inactive expire useradd =
     res_bind (if grp \<noteq> [] then
         guard (valid_group_ref grp) (ValueError (''invalid group: '' @ py_repr grp)) (Inr [''-g'', grp])
       else Inr []) (\<lambda>g.
     res_bind (path_args ''-b'' home) (\<lambda>h.
     res_bind (path_args ''-s'' shell) (\<lambda>s.
     res_bind (if inactive \<noteq> [] then
         guard (py_int inactive \<noteq> None) (ValueError (''invalid inactive days: '' @ py_repr inactive))
           (Inr [''-f'', inactive])
       else Inr []) (\<lambda>i.
     res_bind (if expire \<noteq> [] then
         guard (fullmatch DATE_RE expire)
           (ValueError (''invalid expiration date (use YYYY-MM-DD): '' @ py_repr expire))
           (Inr [''-e'', expire])
       else Inr []) (\<lambda>e.
     if g @ h @ s @ i @ e = [] then Inl (ValueError ''no defaults to change'')
     else Inr ([useradd, ''-D''] @ g @ h @ s @ i @ e))))))"

section \<open>What the tools read\<close>

text \<open>
  How \<open>getopt_long\<close> reads an argument vector after the program name: a word that starts with a
  dash is an option, and takes the next word as its value when it is one of the options
  \<open>vs\<close> that have one; any other word is an operand. None: a value is missing.
\<close>

fun getopt :: "string list \<Rightarrow> string list \<Rightarrow> ((string \<times> string) list \<times> string list) option" where
  "getopt vs [] = Some ([], [])"
| "getopt vs (w # ws) =
     (if startswith w ''-'' then
        if w \<in> set vs then
          (case ws of [] \<Rightarrow> None
           | v # r \<Rightarrow> map_option (\<lambda>(os, xs). ((w, v) # os, xs)) (getopt vs r))
        else map_option (\<lambda>(os, xs). ((w, []) # os, xs)) (getopt vs ws)
      else map_option (\<lambda>(os, xs). (os, w # xs)) (getopt vs ws))"

definition ACCOUNT_OPTS :: "string list" where
  "ACCOUNT_OPTS = [''--comment'', ''--shell'', ''--home-dir'', ''--groups'']"

definition DEFAULT_OPTS :: "string list" where
  "DEFAULT_OPTS = [''-g'', ''-b'', ''-s'', ''-f'', ''-e'']"

text \<open>An optional field and the option it stands for.\<close>

definition opt_field :: "string \<Rightarrow> string \<Rightarrow> (string \<times> string) list" where
  "opt_field opt v = (if v \<noteq> [] then [(opt, v)] else [])"

definition flat_opts :: "(string \<times> string) list \<Rightarrow> string list" where
  "flat_opts os = concat (map (\<lambda>(opt, v). [opt, v]) os)"

lemma flat_opts_simps [simp]:
  "flat_opts [] = []" "flat_opts ((opt, v) # os) = opt # v # flat_opts os"
  "flat_opts (os @ ps) = flat_opts os @ flat_opts ps"
  by (simp_all add: flat_opts_def)

lemma getopt_flat:
  "list_all (\<lambda>(opt, v). opt \<in> set vs \<and> startswith opt ''-'') os \<Longrightarrow>
   getopt vs (flat_opts os @ ws) = map_option (\<lambda>(ps, xs). (os @ ps, xs)) (getopt vs ws)"
  by (cases "getopt vs ws"; induction os) auto

lemma account_name_chars:
  "valid_name n \<Longrightarrow> \<exists>c t. n = c # t \<and> name_start c \<and> list_all (\<lambda>d. name_char d \<or> d = CHR ''$'') t"
  by (auto simp: valid_name_def NAME_RE_def rx_simps match_Seq list_all_iff)

lemma valid_name_set: "valid_name n \<Longrightarrow> c \<in> set n \<Longrightarrow> name_char c \<or> c = CHR ''$''"
  by (auto dest!: account_name_chars simp: list_all_iff name_start_def name_char_def)

lemma not_name_chars: "\<not> name_char LF" "\<not> name_char (CHR '':'')"
  by (simp_all add: name_char_def char_class_defs)

lemma valid_name_no_dash: "valid_name n \<Longrightarrow> \<not> startswith n ''-''"
  by (auto dest!: account_name_chars simp: startswith_def name_start_def char_class_defs)

lemma getopt_name: "valid_name n \<Longrightarrow> getopt vs [n] = Some ([], [n])"
  by (simp add: valid_name_no_dash)

lemma require_names_Inr: "require_names gs k = Inr x \<longleftrightarrow> list_all valid_name gs \<and> k = Inr x"
  by (induction gs) (auto simp: require_name_def res_simps)

lemma args_Inr:
  "comment_args c = Inr xs \<Longrightarrow> xs = flat_opts (opt_field ''--comment'' c)"
  "path_args opt p = Inr xs \<Longrightarrow> xs = flat_opts (opt_field opt p)"
  by (auto simp: comment_args_def path_args_def require_text_def require_path_def opt_field_def res_simps
      split: if_splits)

text \<open>The groups a request names, and the option for them.\<close>

definition group_names :: "string \<Rightarrow> string list" where
  "group_names groups = filter (\<lambda>g. g \<noteq> []) (map strip (split_char (CHR '','') groups))"

definition groups_field :: "string \<Rightarrow> (string \<times> string) list" where
  "groups_field groups = (if groups \<noteq> [] then [(''--groups'', join '','' (group_names groups))] else [])"

lemma groups_args_Inr:
  "groups_args groups = Inr xs \<Longrightarrow> xs = flat_opts (groups_field groups) \<and>
     (groups \<noteq> [] \<longrightarrow> list_all valid_name (group_names groups))"
  by (auto simp: groups_args_def split_groups_def groups_field_def group_names_def Let_def
      require_names_Inr res_simps split: if_splits)

lemma account_opts_ok:
  "list_all (\<lambda>(opt, v). opt \<in> set ACCOUNT_OPTS \<and> startswith opt ''-'') (opt_field ''--comment'' c)"
  "list_all (\<lambda>(opt, v). opt \<in> set ACCOUNT_OPTS \<and> startswith opt ''-'') (opt_field ''--shell'' c)"
  "list_all (\<lambda>(opt, v). opt \<in> set ACCOUNT_OPTS \<and> startswith opt ''-'') (opt_field ''--home-dir'' c)"
  "list_all (\<lambda>(opt, v). opt \<in> set ACCOUNT_OPTS \<and> startswith opt ''-'') (groups_field c)"
  by (simp_all add: opt_field_def groups_field_def ACCOUNT_OPTS_def startswith_def)

lemma default_opts_ok:
  "opt \<in> set DEFAULT_OPTS \<Longrightarrow>
    list_all (\<lambda>(opt, v). opt \<in> set DEFAULT_OPTS \<and> startswith opt ''-'') (opt_field opt v)"
  by (auto simp: opt_field_def DEFAULT_OPTS_def startswith_def)



text \<open>The text fed to \<open>chpasswd\<close> is one line, and its first colon separates the account
  that was named from the password that was given: no password can add an entry for another
  account or change the name.\<close>

theorem chpasswd_one_entry:
  assumes "chpasswd_input name password chpasswd = Inr (argv, stdin)"
  shows "argv = [chpasswd] \<and> (\<exists>line. split_char LF stdin = [line, []] \<and>
    before_char (CHR '':'') line = name \<and> after_char (CHR '':'') line = password) \<and> password \<noteq> []"
proof -
  from assms have a: "valid_name name" "password \<noteq> []" "LF \<notin> set password" "argv = [chpasswd]"
      "stdin = (name @ '':'' @ password) @ LF # []"
    by (auto simp: chpasswd_input_def require_name_def res_simps)
  have n: "LF \<notin> set name \<and> CHR '':'' \<notin> set name"
    using valid_name_set [OF a(1)] not_name_chars by blast
  have "split_char LF stdin = [name @ '':'' @ password, []]"
    using a n unfolding a(5) split_char_def
    by (subst split_on_sep) (auto simp: list_all_iff intro!: split_on_free)
  moreover have "before_char (CHR '':'') (name @ '':'' @ password) = name"
    using n unfolding before_char_def by (subst takeWhile_append2) auto
  ultimately show ?thesis
    using a by (simp add: after_char_def)
qed

lemma chpasswd_one_entry_witness:
  "[''chpasswd''] = [''chpasswd''] \<and> (\<exists>line. split_char LF (''amy:a:b'' @ [LF]) = [line, []] \<and>
    before_char (CHR '':'') line = ''amy'' \<and> after_char (CHR '':'') line = ''a:b'') \<and> ''a:b'' \<noteq> []"
  by (rule chpasswd_one_entry [of "''amy''" "''a:b''"]) code_simp

text \<open>Separators with no group between them pass the test for an empty group list: the
  \<open>usermod\<close> command built for them has an empty \<open>--groups\<close> value, which takes the
  account out of every supplementary group, although no group was named and a request that
  changes nothing is otherwise refused.\<close>

theorem usermod_blank_groups_clears:
  "usermod_argv ''amy'' None None (Some '' , '') ''usermod'' = Inr [''usermod'', ''--groups'', [], ''amy''] \<and>
   usermod_argv ''amy'' None None (Some []) ''usermod'' = Inl (ValueError ''no modifications requested'')"
  by code_simp

section \<open>The account files\<close>

text \<open>A line of \<open>/etc/passwd\<close> and of \<open>/etc/group\<close>, as the tools that keep them write it.\<close>

definition passwd_line :: "user \<Rightarrow> string" where
  "passwd_line u = join '':'' [us_name u, ''x'', int_str (us_uid u), int_str (us_gid u), us_gecos u,
     us_home u, us_shell u]"

definition group_line :: "user_group \<Rightarrow> string" where
  "group_line g = join '':'' [gr_name g, ''x'', int_str (gr_gid g), join '','' (gr_members g)]"

definition field_ok :: "string \<Rightarrow> bool" where
  "field_ok s = list_all (\<lambda>c. c \<noteq> CHR '':'' \<and> \<not> is_linebreak c) s"

definition user_ok :: "user \<Rightarrow> bool" where
  "user_ok u = (us_name u \<noteq> [] \<and> \<not> startswith (us_name u) ''#'' \<and> field_ok (us_name u) \<and>
     field_ok (us_gecos u) \<and> field_ok (us_home u) \<and> field_ok (us_shell u))"

definition group_ok :: "user_group \<Rightarrow> bool" where
  "group_ok g = (gr_name g \<noteq> [] \<and> \<not> startswith (gr_name g) ''#'' \<and> field_ok (gr_name g) \<and>
     list_all (\<lambda>m. m \<noteq> [] \<and> field_ok m \<and> CHR '','' \<notin> set m) (gr_members g))"

lemma field_ok_int: "field_ok (int_str i)"
proof -
  have "\<not> dec_digit (CHR '':'')"
    by (simp add: dec_digit_def ordc_def)
  then show ?thesis
    using int_str_nospace [of i] int_str_chars [of "CHR '':''" i]
    by (auto simp: field_ok_def list_all_iff dest: linebreak_space)
qed

lemma field_ok_join: "list_all field_ok ms \<Longrightarrow> field_ok (join '','' ms)"
  unfolding field_ok_def by (rule list_all_join) (simp_all add: is_linebreak_def ordc_def list_all_iff)

lemma split_join_fields:
  "list_all field_ok fs \<Longrightarrow> fs \<noteq> [] \<Longrightarrow> split_char (CHR '':'') (join '':'' fs) = fs"
  by (rule split_char_join) (auto simp: field_ok_def list_all_iff)

lemma fields_line:
  assumes "list_all field_ok fs"
  shows "list_all (\<lambda>c. \<not> is_linebreak c) (join '':'' fs)"
  using assms by (intro list_all_join) (simp_all add: is_linebreak_def ordc_def list_all_iff field_ok_def)

lemma line_kept: "n \<noteq> [] \<Longrightarrow> \<not> startswith n ''#'' \<Longrightarrow> join '':'' (n # x # fs) \<noteq> [] \<and>
    \<not> startswith (join '':'' (n # x # fs)) ''#''"
  by (cases n) (auto simp: startswith_def)

lemma passwd_entry_line: "user_ok u \<Longrightarrow> passwd_entry (passwd_line u) = Some u"
proof -
  assume u: "user_ok u"
  let ?fs = "[us_name u, ''x'', int_str (us_uid u), int_str (us_gid u), us_gecos u, us_home u, us_shell u]"
  have "list_all field_ok ?fs"
    using u by (simp add: user_ok_def field_ok_int) (simp add: field_ok_def is_linebreak_def ordc_def)
  then have s: "split_char (CHR '':'') (passwd_line u) = ?fs"
    unfolding passwd_line_def by (rule split_join_fields) simp
  have "passwd_line u \<noteq> [] \<and> \<not> startswith (passwd_line u) ''#''"
    using u unfolding passwd_line_def user_ok_def by (intro line_kept) auto
  then show ?thesis
    by (simp add: passwd_entry_def s py_int_int_str)
qed

lemma group_entry_line: "group_ok g \<Longrightarrow> group_entry (group_line g) = Some g"
proof -
  assume g: "group_ok g"
  let ?fs = "[gr_name g, ''x'', int_str (gr_gid g), join '','' (gr_members g)]"
  have "list_all field_ok ?fs"
    using g by (simp add: group_ok_def field_ok_int field_ok_join list_all_iff)
      (simp add: field_ok_def is_linebreak_def ordc_def)
  then have s: "split_char (CHR '':'') (group_line g) = ?fs"
    unfolding group_line_def by (rule split_join_fields) simp
  have k: "group_line g \<noteq> [] \<and> \<not> startswith (group_line g) ''#''"
    using g unfolding group_line_def group_ok_def by (intro line_kept) auto
  have "filter (\<lambda>m. m \<noteq> []) (split_char (CHR '','') (join '','' (gr_members g))) = gr_members g"
  proof (cases "gr_members g = []")
    case False
    then have "split_char (CHR '','') (join '','' (gr_members g)) = gr_members g"
      using g by (intro split_char_join) (auto simp: group_ok_def list_all_iff)
    then show ?thesis
      using g by (auto simp: group_ok_def list_all_iff intro!: filter_eq_self)
  qed (simp add: split_char_def)
  then show ?thesis
    using k by (simp add: group_entry_def s py_int_int_str)
qed

lemma map_filter_entries:
  "list_all (\<lambda>x. f (g x) = Some x) xs \<Longrightarrow> List.map_filter f (map g xs) = xs"
  by (induction xs) (auto simp: List.map_filter_def)

text \<open>Reading the account files gives back what they hold: for well-formed accounts and
  groups, the parser returns exactly the list whose lines were written, in order, with numeric
  ids of any size or sign, and the groups listed for an account are the names, in alphabetical
  order, of those that have it as a member.\<close>

theorem account_files_read_back:
  assumes "list_all user_ok us" "list_all group_ok gs" "us \<noteq> []" "gs \<noteq> []"
  shows "list_users (Some (join [LF] (map passwd_line us) @ [LF])) = us \<and>
    list_groups (Some (join [LF] (map group_line gs) @ [LF])) = gs \<and>
    set (groups_for n (Some (join [LF] (map group_line gs) @ [LF])))
      = {gr_name g |g. g \<in> set gs \<and> n \<in> set (gr_members g)} \<and>
    sorted (groups_for n (Some (join [LF] (map group_line gs) @ [LF])))"
proof -
  have pl: "list_all (\<lambda>c. \<not> is_linebreak c) (passwd_line u)" if "user_ok u" for u
    using that unfolding passwd_line_def
    by (intro fields_line) (simp add: user_ok_def field_ok_int, simp add: field_ok_def is_linebreak_def ordc_def)
  have gl: "list_all (\<lambda>c. \<not> is_linebreak c) (group_line g)" if "group_ok g" for g
    using that unfolding group_line_def
    by (intro fields_line) (simp add: group_ok_def field_ok_int field_ok_join list_all_iff,
        simp add: field_ok_def is_linebreak_def ordc_def)
  have "splitlines (join [LF] (map passwd_line us) @ [LF]) = map passwd_line us"
    using assms pl by (intro splitlines_join_LF) (auto simp: list_all_iff)
  then have u: "list_users (Some (join [LF] (map passwd_line us) @ [LF])) = us"
    using assms by (auto simp: list_users_def parse_passwd_def list_all_iff passwd_entry_line
        intro!: map_filter_entries)
  have "splitlines (join [LF] (map group_line gs) @ [LF]) = map group_line gs"
    using assms gl by (intro splitlines_join_LF) (auto simp: list_all_iff)
  then have g: "list_groups (Some (join [LF] (map group_line gs) @ [LF])) = gs"
    using assms by (auto simp: list_groups_def parse_group_def list_all_iff group_entry_line
        intro!: map_filter_entries)
  from u g show ?thesis
    by (auto simp: groups_for_def member_groups_def)
qed

lemma account_files_read_back_witness:
  "let us = [\<lparr>us_name = ''amy'', us_uid = 1000, us_gid = 1000, us_gecos = ''Amy A,,'', us_home = ''/home/amy'',
         us_shell = ''/bin/sh''\<rparr>];
       gs = [\<lparr>gr_name = ''wheel'', gr_gid = 10, gr_members = [''root'', ''amy'']\<rparr>,
         \<lparr>gr_name = ''audio'', gr_gid = 18, gr_members = [''amy'']\<rparr>]
   in list_users (Some (join [LF] (map passwd_line us) @ [LF])) = us \<and>
    list_groups (Some (join [LF] (map group_line gs) @ [LF])) = gs \<and>
    set (groups_for ''amy'' (Some (join [LF] (map group_line gs) @ [LF])))
      = {gr_name g |g. g \<in> set gs \<and> ''amy'' \<in> set (gr_members g)} \<and>
    sorted (groups_for ''amy'' (Some (join [LF] (map group_line gs) @ [LF])))"
  unfolding Let_def by (rule account_files_read_back) (code_simp+)

end
