(* ===== verification/Service.thy ===== *)
theory Service
  imports AtomicWrite
begin

text \<open>
  What the root services of \<open>gest/backend\<close> share: the audit record of \<open>audit.py\<close> and
  the frame of every \<open>_on_call\<close> handler, which refuses an unknown method and an
  unauthorised caller, runs the method, and turns its exceptions into replies. The locale
  states what a method must keep for the service to be confined; each service interprets it.
\<close>

section \<open>gest.backend.audit\<close>

record audit_entry =
  au_method :: string
  au_uid :: "int option"
  au_result :: string
  au_detail :: string

definition format_audit :: "audit_entry \<Rightarrow> string" where
  "format_audit e =
     join '' '' ([case au_uid e of None \<Rightarrow> ''uid=?'' | Some uid \<Rightarrow> ''uid='' @ int_str uid,
        ''action='' @ au_method e, ''result='' @ au_result e]
       @ (if au_detail e \<noteq> [] then [''detail='' @ au_detail e] else []))"

section \<open>The handler frame\<close>

datatype dbus_error = UNKNOWN_METHOD | ACCESS_DENIED | INVALID_ARGS

datatype reply = ReturnError dbus_error string | ReturnValue bool string

text \<open>A handler works on the state its methods change and appends to the audit log.\<close>

record 's world =
  wd_state :: 's
  wd_audit :: "audit_entry list"

text \<open>Who calls: the polkit answer and the uid behind the sender.\<close>

record caller =
  cl_authorized :: bool
  cl_uid :: "int option"

text \<open>Two steps of a method: the second runs only when the first raised nothing.\<close>

definition st_bind :: "'s \<times> 'a res \<Rightarrow> ('a \<Rightarrow> 's \<Rightarrow> 's \<times> 'b res) \<Rightarrow> 's \<times> 'b res" where
  "st_bind m f = (case m of (s, Inl e) \<Rightarrow> (s, Inl e) | (s, Inr x) \<Rightarrow> f x s)"

type_synonym 's method_body = "'s \<Rightarrow> 's \<times> (bool \<times> string) res"

definition audit :: "caller \<Rightarrow> string \<Rightarrow> string \<Rightarrow> string \<Rightarrow> 's world \<Rightarrow> 's world" where
  "audit who meth result detail w =
     w\<lparr>wd_audit := wd_audit w @ [\<lparr>au_method = meth, au_uid = cl_uid who, au_result = result,
        au_detail = detail\<rparr>]\<rparr>"

text \<open>An exception other than ValueError and OSError leaves the handler.\<close>

definition guarded_call ::
    "string list \<Rightarrow> string \<Rightarrow> caller \<Rightarrow> string \<Rightarrow> string \<Rightarrow> 's method_body \<Rightarrow> 's world \<Rightarrow> 's world \<times> reply res" where
  "guarded_call methods denied who meth detail body w =
     (if meth \<notin> set methods then (w, Inr (ReturnError UNKNOWN_METHOD (''No such method '' @ meth)))
      else if \<not> cl_authorized who
        then (audit who meth ''denied'' [] w, Inr (ReturnError ACCESS_DENIED denied))
      else
        (case body (wd_state w) of
           (s', Inl (ValueError e)) \<Rightarrow> (w\<lparr>wd_state := s'\<rparr>, Inr (ReturnError INVALID_ARGS e))
         | (s', Inl (OSError e)) \<Rightarrow> (w\<lparr>wd_state := s'\<rparr>, Inr (ReturnValue False (''write failed: '' @ e)))
         | (s', Inl e) \<Rightarrow> (w\<lparr>wd_state := s'\<rparr>, Inl e)
         | (s', Inr (ok, out)) \<Rightarrow>
             (audit who meth (if ok then ''ok'' else ''failed'') detail (w\<lparr>wd_state := s'\<rparr>),
              Inr (ReturnValue ok out))))"

lemma st_bind_simps [simp]:
  "st_bind (s, Inl e) f = (s, Inl e)" "st_bind (s, Inr x) f = f x s"
  by (simp_all add: st_bind_def)

lemma st_bind_eq:
  "st_bind m f = (s', r) \<longleftrightarrow>
    (\<exists>e. m = (s', Inl e) \<and> r = Inl e) \<or> (\<exists>s x. m = (s, Inr x) \<and> f x s = (s', r))"
  by (cases m; cases "snd m") (auto simp: st_bind_def)

text \<open>What one atomic write leaves at every path but its temporary file.\<close>

lemma replace_file_frame:
  assumes "replace_file fault tmp partial mode path content fs = (fs', r)" "q \<noteq> tmp"
  shows "fs' q = fs q \<or>
    (q = path \<and> r = Inr path \<and> fs' q = Some (content, case mode of None \<Rightarrow> MODE_600 | Some m \<Rightarrow> m))"
  using assms by (auto simp: replace_file_def Let_def split: if_splits)

lemma replace_file_ok:
  assumes "replace_file fault tmp partial mode path content fs = (fs', Inr p)"
  shows "p = path \<and> (path \<noteq> tmp \<longrightarrow> fs' path = Some (content, case mode of None \<Rightarrow> MODE_600 | Some m \<Rightarrow> m))"
  using assms by (auto simp: replace_file_def Let_def split: if_splits)

lemma audit_simps [simp]:
  "wd_state (audit who m r d w) = wd_state w"
  "wd_audit (audit who m r d w) = wd_audit w @ [\<lparr>au_method = m, au_uid = cl_uid who, au_result = r, au_detail = d\<rparr>]"
  by (simp_all add: audit_def)

lemma guarded_call_state:
  "guarded_call methods denied who meth detail body w = (w', r) \<Longrightarrow>
    wd_state w' = (if meth \<in> set methods \<and> cl_authorized who then fst (body (wd_state w)) else wd_state w)"
  by (auto simp: guarded_call_def split: if_splits prod.splits sum.splits py_error.splits)

text \<open>What the log gains: one entry for a refusal or a method that returned, nothing for one that raised.\<close>

lemma guarded_call_audit:
  "guarded_call methods denied who meth detail body w = (w', r) \<Longrightarrow>
    wd_audit w' = wd_audit w @
      (if meth \<notin> set methods then []
       else if \<not> cl_authorized who
         then [\<lparr>au_method = meth, au_uid = cl_uid who, au_result = ''denied'', au_detail = []\<rparr>]
       else (case snd (body (wd_state w)) of
           Inl e \<Rightarrow> []
         | Inr (ok, out) \<Rightarrow> [\<lparr>au_method = meth, au_uid = cl_uid who,
             au_result = (if ok then ''ok'' else ''failed''), au_detail = detail\<rparr>]))"
  by (auto simp: guarded_call_def split: if_splits prod.splits sum.splits py_error.splits)

section \<open>Services that write under a root\<close>

text \<open>
  The contract of a service's methods: a method that changes the file at a path (other than its
  temporary file) was called with a root the guard allows, and the path is one of those the
  method manages, under that root.
\<close>

locale root_service =
  fixes body :: "'c \<Rightarrow> 's \<Rightarrow> 's \<times> (bool \<times> string) res"
    and look :: "'s \<Rightarrow> string \<Rightarrow> 'f"
    and root :: "'c \<Rightarrow> string"
    and managed :: "'c \<Rightarrow> string set"
    and tmp :: "'c \<Rightarrow> string set"
  assumes confined: "body c s = (s', r) \<Longrightarrow> q \<notin> tmp c \<Longrightarrow> look s' q \<noteq> look s q \<Longrightarrow>
    valid_config_root (root c) \<and> q \<in> resolve (root c) ` managed c"
begin

lemma call_confined:
  assumes "guarded_call methods denied who meth detail (body c) w = (w', r)" "q \<notin> tmp c"
    "look (wd_state w') q \<noteq> look (wd_state w) q"
  shows "meth \<in> set methods \<and> cl_authorized who \<and> valid_config_root (root c) \<and> q \<in> resolve (root c) ` managed c"
proof -
  have s: "wd_state w' = (if meth \<in> set methods \<and> cl_authorized who then fst (body c (wd_state w)) else wd_state w)"
    using guarded_call_state [OF assms(1)] .
  then show ?thesis
    using confined [of c "wd_state w" "wd_state w'" "snd (body c (wd_state w))" q] assms(2,3)
    by (auto split: if_splits)
qed

lemma unauthorized_unchanged:
  "guarded_call methods denied who meth detail (body c) w = (w', r) \<Longrightarrow> \<not> cl_authorized who \<Longrightarrow>
    wd_state w' = wd_state w"
  by (simp add: guarded_call_state)

end

end
