(* ===== verification/Privilege.thy ===== *)
theory Privilege
  imports Service Regex
begin

text \<open>
  The privilege-escalation module: the policy (\<open>gest/core/privilege/model.py\<close>), its
  rendering and parsing (\<open>render.py\<close>), the checker command lines (\<open>commands.py\<close>), the
  readers (\<open>reader.py\<close>) and the root service that installs a policy
  (\<open>gest/backend/privilege.py\<close>). The polkit decision, the system calls that fail and the
  answer of \<open>visudo\<close> and \<open>doas\<close> are outside the program: they are the fields of the record
  \<open>priv_env\<close>. The lemmas show the round trips of both formats, what the managed block of
  \<open>/etc/doas.conf\<close> leaves alone, and that the service installs nothing its checker refused.
\<close>

section \<open>gest.core.privilege.model\<close>

definition SUDOERS_DROPIN :: string where
  "SUDOERS_DROPIN = ''/etc/sudoers.d/10-gest-wheel''"

definition DOAS_CONF :: string where
  "DOAS_CONF = ''/etc/doas.conf''"

definition DOAS_BEGIN :: string where
  "DOAS_BEGIN = ''# >>> gest managed (do not edit this block) >>>''"

definition DOAS_END :: string where
  "DOAS_END = ''# <<< gest managed <<<''"

record escalation_policy =
  ep_tool :: string
  ep_group :: string
  ep_passwordless :: bool
  ep_persist :: bool

definition EscalationPolicy :: "string \<Rightarrow> string \<Rightarrow> bool \<Rightarrow> bool \<Rightarrow> escalation_policy" where
  "EscalationPolicy tool grp passwordless persist =
     \<lparr>ep_tool = tool, ep_group = grp, ep_passwordless = passwordless, ep_persist = persist\<rparr>"

section \<open>gest.core.privilege.render\<close>

definition PRIV_MARKER :: string where
  "PRIV_MARKER = ''# Managed by GeST''"

definition group_start :: "char \<Rightarrow> bool" where
  "group_start c = (lower_az c \<or> c = CHR ''_'')"

definition group_char :: "char \<Rightarrow> bool" where
  "group_char c = (lower_az c \<or> dec_digit c \<or> c = CHR ''_'' \<or> c = CHR ''-'')"

definition GROUP_RE :: rx where
  "GROUP_RE = Seq (Cls group_start) (Star (Cls group_char))"

abbreviation not_space :: "char \<Rightarrow> bool" where
  "not_space c \<equiv> \<not> is_space c"

definition SUDO_RE :: rx where
  "SUDO_RE = Seq (lit ''%'') (Seq (Plus (Cls not_space)) (Seq (Plus (Cls is_space))
     (Seq (lit ''ALL=(ALL:ALL)'') (Seq (Plus (Cls is_space))
     (Seq (Opt (Seq (lit ''NOPASSWD:'') (Plus (Cls is_space)))) (Seq (lit ''ALL'') (Star (Cls is_space))))))))"

definition valid_group :: "string \<Rightarrow> bool" where
  "valid_group grp = (fullmatch GROUP_RE grp \<and> length grp \<le> 32)"

definition render_sudoers :: "escalation_policy \<Rightarrow> string" where
  "render_sudoers policy =
     (let tag = (if ep_passwordless policy then ''NOPASSWD: ALL'' else ''ALL'')
      in PRIV_MARKER @ [LF] @ ''%'' @ ep_group policy @ '' ALL=(ALL:ALL) '' @ tag @ [LF])"

text \<open>
  The two named groups of the pattern: on a line it matches, \<open>group\<close> is the first word after
  the percent sign (\<open>\S+\<close> stops at the first space) and \<open>nopw\<close> took part exactly when the
  third word is the tag.
\<close>

definition sudo_match :: "string \<Rightarrow> (string \<times> bool) option" where
  "sudo_match line =
     (if fullmatch SUDO_RE line
      then Some (takeWhile not_space (tl line), py_split line ! 2 = ''NOPASSWD:'') else None)"

fun parse_sudo_lines :: "string list \<Rightarrow> escalation_policy option" where
  "parse_sudo_lines [] = None"
| "parse_sudo_lines (line # ls) =
     (case sudo_match (strip line) of
        Some (grp, nopw) \<Rightarrow> Some (EscalationPolicy ''sudo'' grp nopw True)
      | None \<Rightarrow> parse_sudo_lines ls)"

definition parse_sudoers :: "string \<Rightarrow> escalation_policy option" where
  "parse_sudoers s = parse_sudo_lines (splitlines s)"

definition render_doas_line :: "escalation_policy \<Rightarrow> string" where
  "render_doas_line policy =
     join '' '' ([''permit'']
       @ (if ep_passwordless policy then [''nopass''] else if ep_persist policy then [''persist''] else [])
       @ [CHR '':'' # ep_group policy])"

definition render_doas_block :: "escalation_policy \<Rightarrow> string" where
  "render_doas_block policy = DOAS_BEGIN @ [LF] @ render_doas_line policy @ [LF] @ DOAS_END @ [LF]"

text \<open>The loop of \<open>strip_doas_block\<close>: the lines kept, from the state \<open>inside\<close>.\<close>

fun outside_lines :: "bool \<Rightarrow> string list \<Rightarrow> string list" where
  "outside_lines inside [] = []"
| "outside_lines inside (line # ls) =
     (if strip line = DOAS_BEGIN then outside_lines True ls
      else if strip line = DOAS_END then outside_lines False ls
      else if \<not> inside then line # outside_lines inside ls
      else outside_lines inside ls)"

definition strip_doas_block :: "string \<Rightarrow> string" where
  "strip_doas_block s =
     (let body = rstrip_char LF (join [LF] (outside_lines False (splitlines s)))
      in if body \<noteq> [] then body @ [LF] else [])"

definition has_doas_block :: "string \<Rightarrow> bool" where
  "has_doas_block s = contains DOAS_BEGIN s"

definition apply_doas_block :: "string \<Rightarrow> escalation_policy \<Rightarrow> string" where
  "apply_doas_block s policy =
     (let base = strip_doas_block s;
          base' = (if base \<noteq> [] \<and> \<not> endswith base [LF] then base @ [LF] else base)
      in base' @ render_doas_block policy)"

definition doas_rule :: "string \<Rightarrow> escalation_policy" where
  "doas_rule stripped =
     (let tokens = py_split stripped;
          grp = (case find (\<lambda>t. startswith t '':'') tokens of None \<Rightarrow> ''wheel'' | Some t \<Rightarrow> tl t)
      in EscalationPolicy ''doas'' grp (''nopass'' \<in> set tokens) (''persist'' \<in> set tokens))"

fun parse_doas_lines :: "bool \<Rightarrow> string list \<Rightarrow> escalation_policy option" where
  "parse_doas_lines inside [] = None"
| "parse_doas_lines inside (line # ls) =
     (if strip line = DOAS_BEGIN then parse_doas_lines True ls
      else if strip line = DOAS_END then None
      else if inside \<and> startswith (strip line) ''permit'' then Some (doas_rule (strip line))
      else parse_doas_lines inside ls)"

definition parse_doas_block :: "string \<Rightarrow> escalation_policy option" where
  "parse_doas_block s = parse_doas_lines False (splitlines s)"

section \<open>gest.core.privilege.commands and reader\<close>

definition visudo_check_argv :: "string \<Rightarrow> string \<Rightarrow> string list" where
  "visudo_check_argv path visudo = [visudo, ''-c'', ''-f'', path]"

definition doas_check_argv :: "string \<Rightarrow> string \<Rightarrow> string list" where
  "doas_check_argv path doas = [doas, ''-C'', path]"

text \<open>\<open>shutil.which\<close> is the parameter; a file that cannot be read is \<open>None\<close>.\<close>

definition available_tools :: "(string \<Rightarrow> bool) \<Rightarrow> string list" where
  "available_tools which = filter which [''doas'', ''sudo'']"

definition priv_read :: "string option \<Rightarrow> string" where
  "priv_read file = (case file of None \<Rightarrow> [] | Some s \<Rightarrow> s)"

definition sudo_policy :: "string option \<Rightarrow> escalation_policy option" where
  "sudo_policy file = parse_sudoers (priv_read file)"

definition doas_policy :: "string option \<Rightarrow> escalation_policy option" where
  "doas_policy file = parse_doas_block (priv_read file)"

section \<open>gest.backend.privilege\<close>

text \<open>
  What the service meets: the polkit answer and the caller's uid, the system calls that raise,
  the name \<open>mkstemp\<close> picks and what a failed write leaves in it, whether the live
  \<open>doas.conf\<close> cannot be read although it exists, and the run of the checker, which sees the
  files as they are then.
\<close>

record priv_env =
  pe_caller :: caller
  pe_fault :: "write_op \<Rightarrow> bool"
  pe_tmp :: string
  pe_partial :: string
  pe_unreadable :: bool
  pe_check :: "string list \<Rightarrow> files \<Rightarrow> py_error + (bool \<times> string)"
  pe_visudo :: string
  pe_doas :: string

datatype priv_call =
    SetSudo string bool bool string
  | SetDoas string bool bool bool string
  | OtherMethod string

definition MODE_440 :: nat where
  "MODE_440 = 288"

definition discard_tmp :: "priv_env \<Rightarrow> files \<Rightarrow> files" where
  "discard_tmp env fs = (if pe_fault env Unlink then fs else fs(pe_tmp env := None))"

definition write_checked ::
    "priv_env \<Rightarrow> string \<Rightarrow> string \<Rightarrow> nat \<Rightarrow> (string \<Rightarrow> string list) \<Rightarrow> files \<Rightarrow> files \<times> (bool \<times> string) res" where
  "write_checked env target content mode check_argv fs =
     (let tmp = pe_tmp env; fault = pe_fault env
      in if fault MakeDirs then (fs, Inl (OSError ''makedirs''))
         else if fault MakeTemp then (fs, Inl (OSError ''mkstemp''))
         else if fault WriteText
           then (discard_tmp env (fs(tmp \<mapsto> (pe_partial env, MODE_600))), Inl (OSError ''write''))
         else if fault Chmod
           then (discard_tmp env (fs(tmp \<mapsto> (content, MODE_600))), Inl (OSError ''chmod''))
         else
           (let fs1 = fs(tmp \<mapsto> (content, mode))
            in case pe_check env (check_argv tmp) fs1 of
                 Inl e \<Rightarrow> (discard_tmp env fs1, Inl e)
               | Inr (ok, out) \<Rightarrow>
                   if \<not> ok then (fs1, Inr (False, out))
                   else if fault Replace then (discard_tmp env fs1, Inl (OSError ''replace''))
                   else (fs1(target := Some (content, mode), tmp := None), Inr (True, []))))"

definition set_sudo ::
    "priv_env \<Rightarrow> string \<Rightarrow> bool \<Rightarrow> bool \<Rightarrow> string \<Rightarrow> files \<Rightarrow> files \<times> (bool \<times> string) res" where
  "set_sudo env grp enabled passwordless root fs =
     (if \<not> valid_group grp then (fs, Inl (ValueError ''invalid group name''))
      else
        (let dropin = resolve root SUDOERS_DROPIN
         in if \<not> enabled then
              (if fs dropin \<noteq> None \<and> pe_fault env Unlink then (fs, Inl (OSError ''unlink''))
               else (fs(dropin := None), Inr (True, ''sudo wheel escalation removed'')))
            else
              (case write_checked env dropin
                  (render_sudoers (EscalationPolicy ''sudo'' grp passwordless True)) MODE_440
                  (\<lambda>p. visudo_check_argv p (pe_visudo env)) fs of
                 (fs', Inl e) \<Rightarrow> (fs', Inl e)
               | (fs', Inr (ok, out)) \<Rightarrow>
                   (fs', Inr (if \<not> ok
                      then (False, ''sudoers rejected by visudo, not installed:'' @ [LF] @ out)
                      else (True, ''sudo: %'' @ grp @ '' may escalate''
                              @ (if passwordless then '' without a password'' else [])))))))"

definition set_doas ::
    "priv_env \<Rightarrow> string \<Rightarrow> bool \<Rightarrow> bool \<Rightarrow> bool \<Rightarrow> string \<Rightarrow> files \<Rightarrow> files \<times> (bool \<times> string) res" where
  "set_doas env grp enabled passwordless persist root fs =
     (if \<not> valid_group grp then (fs, Inl (ValueError ''invalid group name''))
      else
        (let doas_conf = resolve root DOAS_CONF;
             current = (if pe_unreadable env then []
                        else case fs doas_conf of None \<Rightarrow> [] | Some (s, m) \<Rightarrow> s);
             candidate = (if enabled
               then apply_doas_block current (EscalationPolicy ''doas'' grp passwordless persist)
               else strip_doas_block current)
         in (case write_checked env doas_conf candidate MODE_644
                  (\<lambda>p. doas_check_argv p (pe_doas env)) fs of
               (fs', Inl e) \<Rightarrow> (fs', Inl e)
             | (fs', Inr (ok, out)) \<Rightarrow>
                 (fs', Inr (if \<not> ok
                    then (False, ''doas.conf rejected by doas -C, not applied:'' @ [LF] @ out)
                    else if \<not> enabled then (True, ''doas wheel escalation removed'')
                    else (True, ''doas: :'' @ grp @ '' may escalate''
                            @ (if passwordless then '' without a password'' else [])))))))"

definition bool_str :: "bool \<Rightarrow> string" where
  "bool_str b = (if b then ''True'' else ''False'')"

definition call_method :: "priv_call \<Rightarrow> string" where
  "call_method call = (case call of SetSudo _ _ _ _ \<Rightarrow> ''SetSudo'' | SetDoas _ _ _ _ _ \<Rightarrow> ''SetDoas''
     | OtherMethod m \<Rightarrow> m)"

text \<open>The body of the \<open>try\<close>: the two methods behind the guard of the root.\<close>

definition privilege_method :: "priv_env \<Rightarrow> priv_call \<Rightarrow> files \<Rightarrow> files \<times> (bool \<times> string) res" where
  "privilege_method env call fs =
     (case call of
        SetSudo grp enabled passwordless root \<Rightarrow>
          (case guard_config_root root of Inl e \<Rightarrow> (fs, Inl e)
           | Inr _ \<Rightarrow> set_sudo env grp enabled passwordless root fs)
      | SetDoas grp enabled passwordless persist root \<Rightarrow>
          (case guard_config_root root of Inl e \<Rightarrow> (fs, Inl e)
           | Inr _ \<Rightarrow> set_doas env grp enabled passwordless persist root fs)
      | OtherMethod m \<Rightarrow> (fs, Inl (RuntimeError m)))"

definition call_detail :: "priv_call \<Rightarrow> string" where
  "call_detail call =
     (case call of
        SetSudo grp enabled _ root \<Rightarrow> ''sudo '' @ grp @ '' enabled='' @ bool_str enabled @ '' root='' @ root
      | SetDoas grp enabled _ _ root \<Rightarrow> ''doas '' @ grp @ '' enabled='' @ bool_str enabled @ '' root='' @ root
      | OtherMethod m \<Rightarrow> [])"

definition privilege_on_call :: "priv_env \<Rightarrow> priv_call \<Rightarrow> files world \<Rightarrow> files world \<times> reply res" where
  "privilege_on_call env call w =
     guarded_call [''SetSudo'', ''SetDoas''] ''Not authorized to change privilege escalation''
       (pe_caller env) (call_method call) (call_detail call) (privilege_method env call) w"

section \<open>The managed block of doas.conf\<close>

definition unmarked :: "string \<Rightarrow> bool" where
  "unmarked l = (strip l \<noteq> DOAS_BEGIN \<and> strip l \<noteq> DOAS_END)"

lemma outside_lines_set: "l \<in> set (outside_lines b ls) \<Longrightarrow> l \<in> set ls \<and> unmarked l"
  by (induction b ls rule: outside_lines.induct) (auto simp: unmarked_def split: if_splits)

lemma outside_lines_append:
  "list_all unmarked xs \<Longrightarrow> outside_lines False (xs @ ys) = xs @ outside_lines False ys"
  by (induction xs) (auto simp: unmarked_def)

definition kept_lines :: "string \<Rightarrow> string list" where
  "kept_lines s = trim_end (outside_lines False (splitlines s))"

lemma kept_lines_ok: "list_all line_ok (kept_lines s)" "list_all unmarked (kept_lines s)"
  using set_trim_end [of "outside_lines False (splitlines s)"] outside_lines_set splitlines_parts
  by (fastforce simp: kept_lines_def list_all_iff line_ok_def)+

lemma strip_doas_block_lines:
  "strip_doas_block s = (if kept_lines s = [] then [] else join [LF] (kept_lines s) @ [LF])"
proof -
  have "list_all line_ok (outside_lines False (splitlines s))"
    using outside_lines_set splitlines_parts by (fastforce simp: list_all_iff line_ok_def)
  then show ?thesis
    using join_lines_Nil by (simp add: strip_doas_block_def rstrip_join_lines kept_lines_def Let_def)
qed

lemma splitlines_strip_append: "splitlines (strip_doas_block s @ t) = kept_lines s @ splitlines t"
  using kept_lines_ok [of s] by (simp add: strip_doas_block_lines splitlines_lines_append)

lemma apply_doas_block_eq: "apply_doas_block s p = strip_doas_block s @ render_doas_block p"
  by (simp add: apply_doas_block_def strip_doas_block_lines Let_def endswith_def suffix_def)

text \<open>The rule GeST writes, and the block around it.\<close>

lemma group_chars_nospace: "valid_group g \<Longrightarrow> g \<noteq> [] \<and> list_all not_space g"
proof -
  assume "valid_group g"
  then obtain c t where g: "g = c # t" "group_start c" "list_all group_char t"
    by (auto simp: valid_group_def GROUP_RE_def rx_simps)
  have "not_space d" if "group_start d \<or> group_char d" for d
    using that by (auto simp: group_start_def group_char_def char_class_defs)
  with g show ?thesis by (auto simp: list_all_iff)
qed

definition doas_words :: "escalation_policy \<Rightarrow> string list" where
  "doas_words p = [''permit'']
       @ (if ep_passwordless p then [''nopass''] else if ep_persist p then [''persist''] else [])
       @ [CHR '':'' # ep_group p]"

lemma doas_words_ok:
  "valid_group (ep_group p) \<Longrightarrow> list_all (\<lambda>w. w \<noteq> [] \<and> list_all not_space w) (doas_words p)"
  using group_chars_nospace [of "ep_group p"] by (simp add: doas_words_def is_space_def ordc_def)

lemma render_doas_line_words: "render_doas_line p = join '' '' (doas_words p)"
  by (simp add: render_doas_line_def doas_words_def)

lemma render_doas_line_shape:
  "\<exists>m. render_doas_line p = ''permit'' @ m @ '' :'' @ ep_group p"
  by (auto simp: render_doas_line_def)

lemma render_doas_line_ok:
  assumes "valid_group (ep_group p)"
  shows "line_ok (render_doas_line p)" "strip (render_doas_line p) = render_doas_line p"
    "startswith (render_doas_line p) ''permit''"
proof -
  have "list_all (list_all (\<lambda>c. \<not> is_linebreak c)) (doas_words p)"
    using doas_words_ok [OF assms] linebreak_space by (auto simp: list_all_iff)
  then show "line_ok (render_doas_line p)"
    unfolding render_doas_line_words line_ok_def by (intro list_all_join) simp_all
  obtain m where m: "render_doas_line p = ''permit'' @ m @ '' :'' @ ep_group p"
    using render_doas_line_shape by blast
  then show "startswith (render_doas_line p) ''permit''"
    by (simp add: startswith_def)
  have "\<not> is_space (last (ep_group p))" "ep_group p \<noteq> []"
    using group_chars_nospace [OF assms] by (auto simp: list_all_iff)
  then show "strip (render_doas_line p) = render_doas_line p"
    unfolding m by (intro strip_eq_self) (simp add: is_space_def ordc_def)
qed

lemma markers_ok:
  "line_ok DOAS_BEGIN" "line_ok DOAS_END" "strip DOAS_BEGIN = DOAS_BEGIN" "strip DOAS_END = DOAS_END"
  "DOAS_END \<noteq> DOAS_BEGIN" "\<not> startswith DOAS_BEGIN ''permit''" "\<not> startswith DOAS_END ''permit''"
  by code_simp+

lemma render_doas_line_unmarked:
  "valid_group (ep_group p) \<Longrightarrow> render_doas_line p \<noteq> DOAS_BEGIN \<and> render_doas_line p \<noteq> DOAS_END"
  using render_doas_line_ok markers_ok by metis

lemma splitlines_block:
  "valid_group (ep_group p) \<Longrightarrow>
     splitlines (render_doas_block p) = [DOAS_BEGIN, render_doas_line p, DOAS_END]"
  using splitlines_lines_append [of "[DOAS_BEGIN, render_doas_line p, DOAS_END]" "[]"]
    render_doas_line_ok markers_ok by (simp add: render_doas_block_def)

lemma splitlines_apply:
  "valid_group (ep_group p) \<Longrightarrow> splitlines (apply_doas_block s p)
     = kept_lines s @ [DOAS_BEGIN, render_doas_line p, DOAS_END]"
  by (simp add: apply_doas_block_eq splitlines_strip_append splitlines_block)

lemma kept_lines_apply: "valid_group (ep_group p) \<Longrightarrow> kept_lines (apply_doas_block s p) = kept_lines s"
proof -
  assume g: "valid_group (ep_group p)"
  have "outside_lines False [DOAS_BEGIN, render_doas_line p, DOAS_END] = []"
    using render_doas_line_unmarked [OF g] render_doas_line_ok [OF g] markers_ok by simp
  then have "outside_lines False (splitlines (apply_doas_block s p)) = kept_lines s"
    using kept_lines_ok [of s] by (simp add: splitlines_apply [OF g] outside_lines_append)
  then show ?thesis
    unfolding kept_lines_def [of "apply_doas_block s p"] by (simp add: kept_lines_def)
qed

lemma doas_rule_line:
  "valid_group (ep_group p) \<Longrightarrow> doas_rule (render_doas_line p)
     = EscalationPolicy ''doas'' (ep_group p) (ep_passwordless p) (ep_persist p \<and> \<not> ep_passwordless p)"
proof -
  assume g: "valid_group (ep_group p)"
  have "py_split (render_doas_line p) = doas_words p"
    unfolding render_doas_line_words using doas_words_ok [OF g] by (intro py_split_join) simp_all
  then show ?thesis
    by (simp add: doas_rule_def doas_words_def startswith_def)
qed

lemma parse_doas_lines_append:
  "list_all unmarked xs \<Longrightarrow> parse_doas_lines False (xs @ ys) = parse_doas_lines False ys"
  by (induction xs) (auto simp: unmarked_def)

text \<open>The managed block of \<open>doas.conf\<close>. Applying a policy and taking it out again leaves what
  taking the block out of the original text leaves, applying a second policy replaces the first,
  and the parser reads back the policy applied last (persist only where it has an effect, when a
  password is asked). A text without a marker line keeps all its lines, in order, blank lines at
  the end apart.\<close>

theorem doas_block_upsert:
  assumes "valid_group (ep_group p)" "valid_group (ep_group q)"
  shows "strip_doas_block (apply_doas_block s p) = strip_doas_block s \<and>
    apply_doas_block (apply_doas_block s p) q = apply_doas_block s q \<and>
    parse_doas_block (apply_doas_block s p) = Some (EscalationPolicy ''doas'' (ep_group p)
      (ep_passwordless p) (ep_persist p \<and> \<not> ep_passwordless p)) \<and>
    (list_all unmarked (splitlines s) \<longrightarrow>
      splitlines (apply_doas_block s p)
        = trim_end (splitlines s) @ [DOAS_BEGIN, render_doas_line p, DOAS_END])"
proof -
  have k: "strip_doas_block (apply_doas_block s p) = strip_doas_block s"
    by (simp add: strip_doas_block_lines kept_lines_apply assms)
  have "parse_doas_lines False [DOAS_BEGIN, render_doas_line p, DOAS_END] = Some (doas_rule (render_doas_line p))"
    using render_doas_line_unmarked [OF assms(1)] render_doas_line_ok [OF assms(1)] markers_ok by simp
  then have "parse_doas_block (apply_doas_block s p) = Some (doas_rule (render_doas_line p))"
    unfolding parse_doas_block_def splitlines_apply [OF assms(1)]
    using kept_lines_ok [of s] by (simp add: parse_doas_lines_append del: parse_doas_lines.simps)
  moreover have "kept_lines s = trim_end (splitlines s)" if "list_all unmarked (splitlines s)"
    using outside_lines_append [OF that, of "[]"] by (simp add: kept_lines_def)
  ultimately show ?thesis
    using k splitlines_apply [OF assms(1), of s] by (simp add: apply_doas_block_eq doas_rule_line [OF assms(1)])
qed

lemma doas_block_upsert_witness:
  "strip_doas_block (apply_doas_block (''permit bob'' @ [LF, LF]) (EscalationPolicy ''doas'' ''wheel'' False True))
      = strip_doas_block (''permit bob'' @ [LF, LF]) \<and>
   splitlines (apply_doas_block (''permit bob'' @ [LF, LF]) (EscalationPolicy ''doas'' ''wheel'' False True))
      = [''permit bob'', DOAS_BEGIN, ''permit persist :wheel'', DOAS_END]"
proof -
  let ?p = "EscalationPolicy ''doas'' ''wheel'' False True"
  have g: "valid_group (ep_group ?p)" by code_simp
  have u: "list_all unmarked (splitlines (''permit bob'' @ [LF, LF]))" by code_simp
  have t: "trim_end (splitlines (''permit bob'' @ [LF, LF])) = [''permit bob'']" by code_simp
  have l: "render_doas_line ?p = ''permit persist :wheel''" by code_simp
  note d = doas_block_upsert [OF g g, of "''permit bob'' @ [LF, LF]", unfolded t l]
  have "[''permit bob''] @ [DOAS_BEGIN, ''permit persist :wheel'', DOAS_END]
      = [''permit bob'', DOAS_BEGIN, ''permit persist :wheel'', DOAS_END]"
    by (rule append_Cons [of _ "[]", unfolded append_Nil])
  with d u show ?thesis
    by (elim conjE, intro conjI) (assumption, rule trans, erule (1) mp)
qed

text \<open>Taking the block out of a text rewrites more than the block: a vertical tab or form feed
  in a comment becomes a line feed, so what followed it, commented out until then, becomes a rule
  of its own.\<close>

theorem comment_becomes_rule:
  "strip_doas_block (''# old:'' @ [CHR 0x0C] @ ''permit nopass bob'' @ [LF])
     = ''# old:'' @ [LF] @ ''permit nopass bob'' @ [LF]"
  by code_simp

section \<open>The sudoers drop-in\<close>

lemma seqI: "fullmatch q u \<Longrightarrow> fullmatch r v \<Longrightarrow> fullmatch (Seq q r) (u @ v)"
  by (auto simp: match_Seq)

lemma sudo_line_match:
  assumes "valid_group g"
  shows "sudo_match (''%'' @ g @ '' ALL=(ALL:ALL) '' @ (if b then ''NOPASSWD: ALL'' else ''ALL'')) = Some (g, b)"
proof -
  let ?tag = "if b then ''NOPASSWD: ALL'' else ''ALL''"
  let ?rest = "(if b then ''NOPASSWD: '' else []) @ ''ALL''"
  let ?s = "''%'' @ g @ '' '' @ ''ALL=(ALL:ALL)'' @ '' '' @ ?rest"
  have g: "g \<noteq> []" "list_all not_space g"
    using group_chars_nospace [OF assms] by simp_all
  have tag: "fullmatch (Opt (Seq (lit ''NOPASSWD:'') (Plus (Cls is_space)))) (if b then ''NOPASSWD: '' else [])"
      "fullmatch (Seq (lit ''ALL'') (Star (Cls is_space))) ''ALL''"
    by (simp_all add: rx_simps)
  have m: "fullmatch SUDO_RE ?s"
    unfolding SUDO_RE_def
    by (intro seqI match_lit [THEN iffD2, OF refl] match_PlusCls [THEN iffD2, OF conjI] tag)
      (use g in simp_all)
  have "takeWhile not_space (g @ CHR '' '' # r) = g" for r
    using g by (subst takeWhile_append2) (auto simp: list_all_iff)
  then have "takeWhile not_space (tl ?s) = g"
    by simp
  moreover have "py_split ?s = [''%'' @ g, ''ALL=(ALL:ALL)''] @ (if b then [''NOPASSWD:''] else []) @ [''ALL'']"
  proof -
    have "list_all (\<lambda>w. w \<noteq> [] \<and> list_all not_space w)
        ([''%'' @ g, ''ALL=(ALL:ALL)''] @ (if b then [''NOPASSWD:''] else []) @ [''ALL''])"
      using g by (simp add: is_space_def ordc_def)
    from py_split_join [OF this, of "CHR '' ''"] show ?thesis by (cases b) simp_all
  qed
  ultimately show ?thesis
    using m by (cases b) (simp_all add: sudo_match_def)
qed

text \<open>The sudo drop-in written for a group is one comment line and one rule, which the parser
  reads back with the group and the password requirement it was written with.\<close>

theorem sudoers_roundtrip:
  assumes "valid_group (ep_group p)"
  shows "parse_sudoers (render_sudoers p)
    = Some (EscalationPolicy ''sudo'' (ep_group p) (ep_passwordless p) True) \<and>
    length (splitlines (render_sudoers p)) = 2"
proof -
  let ?l = "''%'' @ ep_group p @ '' ALL=(ALL:ALL) '' @ (if ep_passwordless p then ''NOPASSWD: ALL'' else ''ALL'')"
  have g: "ep_group p \<noteq> []" "list_all not_space (ep_group p)"
    using group_chars_nospace [OF assms] by simp_all
  then have "list_all (\<lambda>c. \<not> is_linebreak c) (ep_group p)"
    using linebreak_space by (auto simp: list_all_iff)
  then have "line_ok ?l"
    by (simp add: line_ok_def is_linebreak_def ordc_def)
  moreover have "line_ok PRIV_MARKER" by code_simp
  ultimately have s: "splitlines (render_sudoers p) = [PRIV_MARKER, ?l]"
    using splitlines_lines_append [of "[PRIV_MARKER, ?l]" "[]"]
    by (simp add: render_sudoers_def Let_def)
  have "strip PRIV_MARKER = PRIV_MARKER" by code_simp
  then have "sudo_match (strip PRIV_MARKER) = None"
    by (simp add: sudo_match_def SUDO_RE_def match_Seq_lit) (simp add: PRIV_MARKER_def)
  moreover have "strip ?l = ?l"
    by (rule strip_eq_self) (simp add: is_space_def ordc_def)
  ultimately show ?thesis
    unfolding parse_sudoers_def s using sudo_line_match [OF assms, of "ep_passwordless p"] by simp
qed

lemma sudoers_roundtrip_witness:
  "parse_sudoers (render_sudoers (EscalationPolicy ''sudo'' ''wheel'' True False))
    = Some (EscalationPolicy ''sudo'' ''wheel'' True True) \<and>
   length (splitlines (render_sudoers (EscalationPolicy ''sudo'' ''wheel'' True False))) = 2"
proof -
  have "valid_group (ep_group (EscalationPolicy ''sudo'' ''wheel'' True False))" by code_simp
  from sudoers_roundtrip [OF this] show ?thesis by (simp add: EscalationPolicy_def)
qed

section \<open>The service\<close>

text \<open>The path a call is about, the text it wants there, its mode and the command that checks it.\<close>

fun call_target :: "priv_call \<Rightarrow> string" where
  "call_target (SetSudo grp enabled passwordless root) = resolve root SUDOERS_DROPIN"
| "call_target (SetDoas grp enabled passwordless persist root) = resolve root DOAS_CONF"
| "call_target (OtherMethod m) = []"

fun call_text :: "string \<Rightarrow> priv_call \<Rightarrow> string" where
  "call_text current (SetSudo grp enabled passwordless root) =
     render_sudoers (EscalationPolicy ''sudo'' grp passwordless True)"
| "call_text current (SetDoas grp enabled passwordless persist root) =
     (if enabled then apply_doas_block current (EscalationPolicy ''doas'' grp passwordless persist)
      else strip_doas_block current)"
| "call_text current (OtherMethod m) = []"

fun call_mode :: "priv_call \<Rightarrow> nat" where
  "call_mode (SetSudo grp enabled passwordless root) = MODE_440"
| "call_mode (SetDoas grp enabled passwordless persist root) = MODE_644"
| "call_mode (OtherMethod m) = 0"

fun call_check :: "priv_env \<Rightarrow> priv_call \<Rightarrow> string list" where
  "call_check env (SetSudo grp enabled passwordless root) = visudo_check_argv (pe_tmp env) (pe_visudo env)"
| "call_check env (SetDoas grp enabled passwordless persist root) = doas_check_argv (pe_tmp env) (pe_doas env)"
| "call_check env (OtherMethod m) = []"

definition current_text :: "priv_env \<Rightarrow> priv_call \<Rightarrow> files \<Rightarrow> string" where
  "current_text env call fs =
     (if pe_unreadable env then [] else case fs (call_target call) of None \<Rightarrow> [] | Some (s, m) \<Rightarrow> s)"

text \<open>What a call may leave at its path.\<close>

definition vetted :: "priv_env \<Rightarrow> priv_call \<Rightarrow> files \<Rightarrow> (string \<times> nat) option \<Rightarrow> bool" where
  "vetted env call fs new =
     (case new of
        None \<Rightarrow> (case call of SetSudo grp enabled passwordless root \<Rightarrow> \<not> enabled | _ \<Rightarrow> False)
      | Some (content, mode) \<Rightarrow>
          content = call_text (current_text env call fs) call \<and> mode = call_mode call \<and>
          (\<exists>out. pe_check env (call_check env call) (fs(pe_tmp env \<mapsto> (content, mode))) = Inr (True, out)))"

lemma write_checked_vetted:
  assumes "write_checked env target content mode check_argv fs = (fs', r)" "pe_tmp env \<noteq> target" "q \<noteq> pe_tmp env"
  shows "fs' q = fs q \<or> (q = target \<and> fs' q = Some (content, mode) \<and>
     (\<exists>out. pe_check env (check_argv (pe_tmp env)) (fs(pe_tmp env \<mapsto> (content, mode))) = Inr (True, out)))"
proof (cases "pe_check env (check_argv (pe_tmp env)) (fs(pe_tmp env \<mapsto> (content, mode)))")
  case (Inl e)
  then show ?thesis
    using assms by (auto simp: write_checked_def discard_tmp_def Let_def split: if_splits)
next
  case (Inr b)
  then show ?thesis
    using assms by (cases b) (auto simp: write_checked_def discard_tmp_def Let_def split: if_splits)
qed

lemma set_sudo_vetted:
  assumes "set_sudo env grp enabled passwordless root fs = (fs', r)"
    "pe_tmp env \<noteq> call_target (SetSudo grp enabled passwordless root)" "q \<noteq> pe_tmp env"
  shows "fs' q = fs q \<or> (valid_group grp \<and> q = call_target (SetSudo grp enabled passwordless root) \<and>
     vetted env (SetSudo grp enabled passwordless root) fs (fs' q))"
proof -
  let ?w = "write_checked env (resolve root SUDOERS_DROPIN)
      (render_sudoers (EscalationPolicy ''sudo'' grp passwordless True)) MODE_440
      (\<lambda>p. visudo_check_argv p (pe_visudo env)) fs"
  obtain fs1 r1 where w: "?w = (fs1, r1)" by (cases ?w) auto
  show ?thesis
  proof (cases "valid_group grp \<and> enabled")
    case True
    then have "fs' = fs1"
      using assms(1) w by (auto simp: set_sudo_def Let_def split: sum.splits prod.splits)
    then show ?thesis
      using True write_checked_vetted [OF w, of q] assms by (auto simp: vetted_def)
  next
    case False
    then show ?thesis
      using assms by (auto simp: set_sudo_def vetted_def Let_def split: if_splits)
  qed
qed

lemma set_doas_vetted:
  assumes "set_doas env grp enabled passwordless persist root fs = (fs', r)"
    "pe_tmp env \<noteq> call_target (SetDoas grp enabled passwordless persist root)" "q \<noteq> pe_tmp env"
  shows "fs' q = fs q \<or> (valid_group grp \<and> q = call_target (SetDoas grp enabled passwordless persist root) \<and>
     vetted env (SetDoas grp enabled passwordless persist root) fs (fs' q))"
proof -
  let ?c = "SetDoas grp enabled passwordless persist root"
  let ?w = "write_checked env (resolve root DOAS_CONF) (call_text (current_text env ?c fs) ?c) MODE_644
      (\<lambda>p. doas_check_argv p (pe_doas env)) fs"
  obtain fs1 r1 where w: "?w = (fs1, r1)" by (cases ?w) auto
  show ?thesis
  proof (cases "valid_group grp")
    case True
    then have "fs' = fs1"
      using assms(1) w
      by (auto simp: set_doas_def current_text_def Let_def split: sum.splits prod.splits if_splits)
    then show ?thesis
      using True write_checked_vetted [OF w, of q] assms by (auto simp: vetted_def simp del: call_text.simps)
  next
    case False
    then show ?thesis
      using assms by (auto simp: set_doas_def)
  qed
qed

fun call_root :: "priv_call \<Rightarrow> string" where
  "call_root (SetSudo grp enabled passwordless root) = root"
| "call_root (SetDoas grp enabled passwordless persist root) = root"
| "call_root (OtherMethod m) = []"

lemma privilege_method_vetted:
  assumes "privilege_method env call fs = (fs', r)" "pe_tmp env \<noteq> call_target call" "q \<noteq> pe_tmp env"
    "fs' q \<noteq> fs q"
  shows "valid_config_root (call_root call) \<and> q = call_target call \<and> vetted env call fs (fs' q)"
  using assms set_sudo_vetted set_doas_vetted
  by (cases call) (fastforce simp: privilege_method_def guard_config_root_def
      simp del: call_target.simps split: if_splits)+

text \<open>The service is confined in the sense of the contract.\<close>

lemma privilege_method_confined:
  assumes "privilege_method env call fs = (fs', r)" "q \<noteq> pe_tmp env" "fs' q \<noteq> fs q"
  shows "valid_config_root (call_root call) \<and> q = call_target call"
proof -
  have w: "fs' q = fs q \<or> q = target"
    if "write_checked env target content mode check_argv fs = (fs', r)" for target content mode check_argv r
    using that assms(2)
    by (auto simp: write_checked_def discard_tmp_def Let_def split: if_splits sum.splits prod.splits)
  show ?thesis
    using assms
    by (cases call)
      (auto simp: privilege_method_def guard_config_root_def set_sudo_def set_doas_def Let_def
        split: if_splits sum.splits prod.splits dest: w)
qed

fun call_managed :: "priv_call \<Rightarrow> string set" where
  "call_managed (SetSudo grp enabled passwordless root) = {SUDOERS_DROPIN}"
| "call_managed (SetDoas grp enabled passwordless persist root) = {DOAS_CONF}"
| "call_managed (OtherMethod m) = {}"

interpretation privilege: root_service "privilege_method env" "\<lambda>fs q. fs q" call_root call_managed
  "\<lambda>_. {pe_tmp env}" for env
proof unfold_locales
  fix call fs fs' r q
  assume c: "privilege_method env call fs = (fs', r)" "q \<notin> {pe_tmp env}" "fs' q \<noteq> fs q"
  then have "valid_config_root (call_root call) \<and> q = call_target call"
    using privilege_method_confined by simp
  then show "valid_config_root (call_root call) \<and> q \<in> resolve (call_root call) ` call_managed call"
    using c by (cases call) (auto simp: privilege_method_def)
qed

text \<open>C34: Whatever a caller of the privilege service sends, a file other than the temporary one
  changes only when polkit authorised the call and the root is one the guard allows; it is then
  the sudoers drop-in or \<open>doas.conf\<close> under that root, and what it holds afterwards is exactly
  the policy's text with its mode, which the tool's own checker accepted before (or, when sudo is
  switched off, nothing).\<close>

theorem installs_only_vetted:
  assumes "privilege_on_call env call w = (w', r)" "pe_tmp env \<noteq> call_target call"
    "q \<noteq> pe_tmp env" "wd_state w' q \<noteq> wd_state w q"
  shows "cl_authorized (pe_caller env) \<and> valid_config_root (call_root call) \<and> q = call_target call \<and>
    vetted env call (wd_state w) (wd_state w' q)"
proof -
  have a: "cl_authorized (pe_caller env)"
    using privilege.call_confined [OF assms(1) [unfolded privilege_on_call_def]] assms(3,4) by simp
  moreover have "privilege_method env call (wd_state w) = (wd_state w', snd (privilege_method env call (wd_state w)))"
    using guarded_call_state [OF assms(1) [unfolded privilege_on_call_def]] assms(4)
    by (auto split: if_splits)
  ultimately show ?thesis
    using privilege_method_vetted [of env call "wd_state w" "wd_state w'" _ q] assms by blast
qed

text \<open>A service that meets no fault and whose checker answers \<open>ok\<close> every time.\<close>

definition calm_env :: "bool \<Rightarrow> bool \<Rightarrow> priv_env" where
  "calm_env unreadable ok = \<lparr>pe_caller = \<lparr>cl_authorized = True, cl_uid = Some 1000\<rparr>, pe_fault = (\<lambda>op. False),
     pe_tmp = ''/etc/.gest.x'', pe_partial = [], pe_unreadable = unreadable,
     pe_check = (\<lambda>argv fs. Inr (ok, ''line 1'')), pe_visudo = ''visudo'', pe_doas = ''doas''\<rparr>"

lemma calm_env_simps [simp]:
  "cl_authorized (pe_caller (calm_env u ok))" "pe_fault (calm_env u ok) op = False"
  "pe_tmp (calm_env u ok) = ''/etc/.gest.x''" "pe_unreadable (calm_env u ok) = u"
  "pe_check (calm_env u ok) argv fs = Inr (ok, ''line 1'')"
  by (simp_all add: calm_env_def)

lemma resolve_root: "resolve ''/'' p = p" by (simp add: resolve_def)

lemma doas_on_host:
  assumes "valid_group g"
  shows "wd_state (fst (privilege_on_call (calm_env u ok) (SetDoas g e pw pe ''/'') w)) DOAS_CONF
    = (if ok then Some (call_text (current_text (calm_env u ok) (SetDoas g e pw pe ''/'') (wd_state w))
         (SetDoas g e pw pe ''/''), MODE_644)
       else wd_state w DOAS_CONF)"
    "wd_state (fst (privilege_on_call (calm_env u ok) (SetDoas g e pw pe ''/'') w)) ''/etc/.gest.x''
    = (if ok then None
       else Some (call_text (current_text (calm_env u ok) (SetDoas g e pw pe ''/'') (wd_state w))
         (SetDoas g e pw pe ''/''), MODE_644))"
proof -
  have v: "valid_config_root ''/''" by (simp add: valid_config_root_def)
  have d: "DOAS_CONF \<noteq> ''/etc/.gest.x''" by code_simp
  note defs = privilege_on_call_def privilege_method_def guard_config_root_def set_doas_def
    write_checked_def current_text_def Let_def resolve_root guarded_call_def call_method_def
  show "wd_state (fst (privilege_on_call (calm_env u ok) (SetDoas g e pw pe ''/'') w)) DOAS_CONF
    = (if ok then Some (call_text (current_text (calm_env u ok) (SetDoas g e pw pe ''/'') (wd_state w))
         (SetDoas g e pw pe ''/''), MODE_644)
       else wd_state w DOAS_CONF)"
    using assms v d by (simp add: defs)
  show "wd_state (fst (privilege_on_call (calm_env u ok) (SetDoas g e pw pe ''/'') w)) ''/etc/.gest.x''
    = (if ok then None
       else Some (call_text (current_text (calm_env u ok) (SetDoas g e pw pe ''/'') (wd_state w))
         (SetDoas g e pw pe ''/''), MODE_644))"
    using assms v d by (simp add: defs)
qed

text \<open>The service takes a \<open>doas.conf\<close> it cannot read for an empty one: a read that fails for
  any reason ends with every rule of the file replaced by the managed block alone. And a
  candidate the checker refuses stays behind as a temporary file next to the live one.\<close>

theorem doas_service_loses:
  "wd_state (fst (privilege_on_call (calm_env True True) (SetDoas ''wheel'' True False True ''/'')
       \<lparr>wd_state = [DOAS_CONF \<mapsto> (''permit bob'' @ [LF], 420)], wd_audit = []\<rparr>)) DOAS_CONF
     = Some (render_doas_block (EscalationPolicy ''doas'' ''wheel'' False True), MODE_644) \<and>
   wd_state (fst (privilege_on_call (calm_env False False) (SetDoas ''wheel'' False False True ''/'')
       \<lparr>wd_state = [DOAS_CONF \<mapsto> (''permit bob'' @ [LF], 420)], wd_audit = []\<rparr>)) ''/etc/.gest.x''
     = Some (''permit bob'' @ [LF], MODE_644)"
proof -
  have g: "valid_group ''wheel''" by code_simp
  have e: "strip_doas_block [] = []" "strip_doas_block (''permit bob'' @ [LF]) = ''permit bob'' @ [LF]"
    by code_simp+
  show ?thesis
    unfolding doas_on_host [OF g]
    by (simp add: current_text_def apply_doas_block_eq e resolve_root del: append_Cons append_Nil)
qed

lemma installs_only_vetted_witness:
  "vetted (calm_env False True) (SetDoas ''wheel'' True False True ''/'') [DOAS_CONF \<mapsto> ([], 420)]
     (wd_state (fst (privilege_on_call (calm_env False True) (SetDoas ''wheel'' True False True ''/'')
       \<lparr>wd_state = [DOAS_CONF \<mapsto> ([], 420)], wd_audit = []\<rparr>)) DOAS_CONF)"
proof -
  let ?call = "SetDoas ''wheel'' True False True ''/''"
  let ?w = "\<lparr>wd_state = [DOAS_CONF \<mapsto> ([], 420)], wd_audit = []\<rparr>"
  obtain w' r where c: "privilege_on_call (calm_env False True) ?call ?w = (w', r)"
    by (cases "privilege_on_call (calm_env False True) ?call ?w") auto
  have g: "valid_group ''wheel''" by code_simp
  have d: "''/etc/.gest.x'' \<noteq> DOAS_CONF" "DOAS_CONF \<noteq> ''/etc/.gest.x''" by code_simp+
  have "wd_state w' DOAS_CONF = Some (render_doas_block (EscalationPolicy ''doas'' ''wheel'' False True), MODE_644)"
    using doas_on_host(1) [OF g, of False True True False True ?w] c
    by (simp add: current_text_def apply_doas_block_eq resolve_root strip_doas_block_lines kept_lines_def)
  moreover have "render_doas_block (EscalationPolicy ''doas'' ''wheel'' False True) \<noteq> []"
    by (simp add: render_doas_block_def)
  ultimately show ?thesis
    using installs_only_vetted [OF c, of DOAS_CONF] c d by (simp add: resolve_root)
qed

end
