(* ===== verification/IpAddress.thy ===== *)
theory IpAddress
  imports StrFacts
begin

text \<open>
  What the program uses of Python's \<open>ipaddress\<close> module: whether \<open>ip_address(s)\<close> and
  \<open>ip_interface(s)\<close> return instead of raising ValueError. The definitions follow the
  standard library's parser (an octet has one to three ASCII digits without a leading zero, a
  netmask may be a prefix length or, for IPv4, a dotted net or host mask, an IPv6 address may end
  in an IPv4 one and carry a scope after a percent sign). The scope is not restricted to any
  class of characters, which the lemmas make explicit.
\<close>

section \<open>IPv4\<close>

definition v4_octet :: "string \<Rightarrow> nat option" where
  "v4_octet s =
     (if s = [] \<or> \<not> list_all dec_digit s \<or> length s > 3 \<or> (s \<noteq> ''0'' \<and> hd s = CHR ''0'') then None
      else (case digits_nat s of None \<Rightarrow> None | Some n \<Rightarrow> if n > 255 then None else Some n))"

definition v4_value :: "string \<Rightarrow> nat option" where
  "v4_value s =
     (case map v4_octet (split_char (CHR ''.'') s) of
        [Some a, Some b, Some c, Some d] \<Rightarrow> Some (((a * 256 + b) * 256 + c) * 256 + d)
      | _ \<Rightarrow> None)"

definition is_v4 :: "string \<Rightarrow> bool" where
  "is_v4 s = (v4_value s \<noteq> None)"

definition prefix_length :: "nat \<Rightarrow> string \<Rightarrow> bool" where
  "prefix_length maxlen s =
     (s \<noteq> [] \<and> list_all dec_digit s \<and> (case digits_nat s of None \<Rightarrow> False | Some n \<Rightarrow> n \<le> maxlen))"

text \<open>A value whose bits are ones and then zeros.\<close>

definition net_mask :: "nat \<Rightarrow> bool" where
  "net_mask n = list_ex (\<lambda>k. n = 2 ^ 32 - 2 ^ k) [0..<33]"

definition v4_mask :: "string \<Rightarrow> bool" where
  "v4_mask s =
     (prefix_length 32 s \<or>
      (case v4_value s of None \<Rightarrow> False | Some n \<Rightarrow> net_mask n \<or> net_mask (2 ^ 32 - 1 - n)))"

section \<open>IPv6\<close>

definition xdigit :: "char \<Rightarrow> bool" where
  "xdigit c = (dec_digit c \<or> c \<in> set ''ABCDEFabcdef'')"

definition hextet :: "string \<Rightarrow> bool" where
  "hextet s = (s \<noteq> [] \<and> list_all xdigit s \<and> length s \<le> 4)"

text \<open>The parts of the address; an IPv4 suffix stands for two hextets, written \<open>0\<close> here.\<close>

definition v6_parts :: "string \<Rightarrow> string list option" where
  "v6_parts s =
     (let parts = split_char (CHR '':'') s
      in if length parts < 3 then None
         else if CHR ''.'' \<in> set (last parts)
           then (if is_v4 (last parts) then Some (butlast parts @ [''0'', ''0'']) else None)
         else Some parts)"

definition v6_parts_ok :: "string list \<Rightarrow> bool" where
  "v6_parts_ok parts =
     (let n = length parts
      in n \<le> 9 \<and>
         (case filter (\<lambda>i. parts ! i = []) [1..<n - 1] of
            [] \<Rightarrow> n = 8 \<and> list_all hextet parts
          | [i] \<Rightarrow>
              (let hi = (if parts ! 0 = [] then i - 1 else i);
                   lo = (if last parts = [] then n - i - 1 - 1 else n - i - 1)
               in (parts ! 0 = [] \<longrightarrow> hi = 0) \<and> (last parts = [] \<longrightarrow> lo = 0) \<and> hi + lo \<le> 7 \<and>
                  list_all hextet (take hi parts) \<and> list_all hextet (drop (n - lo) parts))
          | _ \<Rightarrow> False))"

definition is_v6_plain :: "string \<Rightarrow> bool" where
  "is_v6_plain s = (case v6_parts s of None \<Rightarrow> False | Some parts \<Rightarrow> v6_parts_ok parts)"

definition is_v6 :: "string \<Rightarrow> bool" where
  "is_v6 s =
     (CHR ''/'' \<notin> set s \<and>
      (if CHR ''%'' \<in> set s
       then after_char (CHR ''%'') s \<noteq> [] \<and> CHR ''%'' \<notin> set (after_char (CHR ''%'') s) \<and>
            is_v6_plain (before_char (CHR ''%'') s)
       else is_v6_plain s))"

section \<open>ip\_address and ip\_interface\<close>

definition ip_address :: "string \<Rightarrow> bool" where
  "ip_address s = (is_v4 s \<or> is_v6 s)"

definition ip_interface :: "string \<Rightarrow> bool" where
  "ip_interface s =
     (case split_char (CHR ''/'') s of
        [a] \<Rightarrow> is_v4 a \<or> is_v6 a
      | [a, m] \<Rightarrow> (is_v4 a \<and> v4_mask m) \<or> (is_v6 a \<and> prefix_length 128 m)
      | _ \<Rightarrow> False)"

lemma ip_address_octets:
  "map v4_octet (split_char (CHR ''.'') s) = [Some a, Some b, Some c, Some d] \<Longrightarrow> ip_address s"
  by (simp add: ip_address_def is_v4_def v4_value_def)

section \<open>The characters of an address\<close>

definition addr_char :: "char \<Rightarrow> bool" where
  "addr_char c = (xdigit c \<or> c = CHR ''.'' \<or> c = CHR '':'')"

lemma split_char_chars:
  "list_all (list_all P) (split_char d s) \<Longrightarrow> P d \<Longrightarrow> list_all P s"
  using list_all_join [of P "[d]" "split_char d s"] by (simp add: join_split_char)

lemma split_char_empty: "split_char d [] = [[]]"
  by (simp add: split_char_def)

lemma v4_octet_digits: "v4_octet s = Some n \<Longrightarrow> s \<noteq> [] \<and> list_all dec_digit s"
  by (auto simp: v4_octet_def split: if_splits)

lemma is_v4_chars: "is_v4 s \<Longrightarrow> s \<noteq> [] \<and> list_all addr_char s"
proof -
  assume "is_v4 s"
  then obtain n where "v4_value s = Some n"
    by (auto simp: is_v4_def)
  then obtain a b c d where m: "map v4_octet (split_char (CHR ''.'') s) = [Some a, Some b, Some c, Some d]"
    by (auto simp: v4_value_def split: list.splits option.splits)
  then obtain w x y z where s: "split_char (CHR ''.'') s = [w, x, y, z]"
    and "v4_octet w = Some a" "v4_octet x = Some b" "v4_octet y = Some c" "v4_octet z = Some d"
    by (auto simp: map_eq_Cons_conv)
  then have "list_all (list_all addr_char) (split_char (CHR ''.'') s)"
    using v4_octet_digits by (fastforce simp: list_all_iff addr_char_def xdigit_def)
  then show ?thesis
    using s split_char_chars [of addr_char "CHR ''.''" s] split_char_empty
    by (cases "s = []") (auto simp: addr_char_def)
qed

lemma hextet_chars: "hextet s \<Longrightarrow> list_all addr_char s"
  by (auto simp: hextet_def list_all_iff addr_char_def)

lemma hextet_mem: "list_all hextet xs \<Longrightarrow> x \<in> set xs \<Longrightarrow> list_all addr_char x"
  by (simp only: list_all_iff [of hextet] hextet_chars)

lemma v6_parts_ok_chars:
  assumes "v6_parts_ok parts"
  shows "list_all (list_all addr_char) parts"
proof -
  let ?n = "length parts"
  consider (full) "list_all hextet parts"
    | (skip) i where "filter (\<lambda>i. parts ! i = []) [1..<?n - 1] = [i]"
    using assms by (auto simp: v6_parts_ok_def Let_def split: list.splits)
  then show ?thesis
  proof cases
    case full
    then show ?thesis
      by (rule list.pred_mono_strong) (rule hextet_chars)
  next
    case skip
    then have "i \<in> set (filter (\<lambda>i. parts ! i = []) [1..<?n - 1])"
      by (simp only: list.set(2) insertI1)
    then have i: "i \<in> set [1..<?n - 1]" "parts ! i = []"
      by simp_all
    let ?hi = "if parts ! 0 = [] then i - 1 else i"
    let ?lo = "if last parts = [] then ?n - i - 1 - 1 else ?n - i - 1"
    have h: "(parts ! 0 = [] \<longrightarrow> ?hi = 0)" "(last parts = [] \<longrightarrow> ?lo = 0)"
        "list_all hextet (take ?hi parts)" "list_all hextet (drop (?n - ?lo) parts)"
      using assms skip by (auto simp: v6_parts_ok_def Let_def)
    have "list_all addr_char (parts ! j)" if j: "j < ?n" for j
    proof -
      consider "j < i" | "j = i" | "i < j" by linarith
      then show ?thesis
      proof cases
        case 1
        show ?thesis
        proof (cases "parts ! 0 = []")
          case True
          then have "j = 0" using 1 h(1) i by auto
          with True show ?thesis by simp
        next
          case False
          then have "parts ! j \<in> set (take ?hi parts)"
            using 1 j by (auto simp: in_set_conv_nth)
          from hextet_mem [OF h(3) this] show ?thesis .
        qed
      next
        case 2
        with i show ?thesis by simp
      next
        case 3
        show ?thesis
        proof (cases "last parts = []")
          case True
          then have "j = ?n - 1" using 3 j h(2) by auto
          moreover have "parts \<noteq> []" using j by auto
          ultimately show ?thesis using True by (simp add: last_conv_nth)
        next
          case False
          then have "?n - ?lo = Suc i" using i by auto
          then have "parts ! j \<in> set (drop (?n - ?lo) parts)"
            using 3 j by (auto simp: in_set_conv_nth intro!: exI [of _ "j - Suc i"])
          from hextet_mem [OF h(4) this] show ?thesis .
        qed
      qed
    qed
    then show ?thesis by (auto simp: list_all_length)
  qed
qed

lemma is_v6_plain_chars: "is_v6_plain s \<Longrightarrow> s \<noteq> [] \<and> list_all addr_char s"
proof -
  assume p: "is_v6_plain s"
  let ?p = "split_char (CHR '':'') s"
  have l: "length ?p \<ge> 3"
    using p by (auto simp: is_v6_plain_def v6_parts_def Let_def split: if_splits)
  have "list_all (list_all addr_char) ?p"
  proof (cases "CHR ''.'' \<in> set (last ?p)")
    case True
    then have v: "is_v4 (last ?p)" "v6_parts_ok (butlast ?p @ [''0'', ''0''])"
      using p l by (auto simp: is_v6_plain_def v6_parts_def Let_def split: if_splits)
    have ne: "?p \<noteq> []" using l by auto
    have "list_all (list_all addr_char) (butlast ?p)"
      using v6_parts_ok_chars [OF v(2)] by simp
    moreover have "list_all addr_char (last ?p)"
      using is_v4_chars [OF v(1)] by simp
    ultimately have "list_all (list_all addr_char) (butlast ?p @ [last ?p])"
      by simp
    then show ?thesis
      using ne by simp
  next
    case False
    then show ?thesis
      using p l v6_parts_ok_chars by (auto simp: is_v6_plain_def v6_parts_def Let_def)
  qed
  then show ?thesis
    using l split_char_chars [of addr_char "CHR '':''" s] split_char_empty
    by (cases "s = []") (auto simp: addr_char_def)
qed

lemma ip_address_chars: "ip_address s \<Longrightarrow> CHR ''%'' \<notin> set s \<Longrightarrow> s \<noteq> [] \<and> list_all addr_char s"
  using is_v4_chars is_v6_plain_chars by (auto simp: ip_address_def is_v6_def)

lemma ip_address_nonempty: "ip_address s \<Longrightarrow> s \<noteq> []"
  using is_v4_chars is_v6_plain_chars by (fastforce simp: ip_address_def is_v6_def)

text \<open>Whatever the scope is, but for a slash or a second percent sign, it is accepted.\<close>

lemma ip_address_scope:
  assumes "is_v6_plain a" "scope \<noteq> []" "CHR ''/'' \<notin> set scope" "CHR ''%'' \<notin> set scope"
  shows "ip_address (a @ CHR ''%'' # scope)"
proof -
  have n: "CHR ''%'' \<notin> set a" "CHR ''/'' \<notin> set a"
    using is_v6_plain_chars [OF assms(1)]
    by (auto simp: list_all_iff addr_char_def xdigit_def dec_digit_def ordc_def)
  then have b: "before_char (CHR ''%'') (a @ CHR ''%'' # scope) = a"
    unfolding before_char_def by (subst takeWhile_append2) auto
  then show ?thesis
    using n assms by (simp add: ip_address_def is_v6_def after_char_def)
qed

lemma addr_char_word: "list_all addr_char s \<Longrightarrow> list_all (\<lambda>c. \<not> is_space c) s"
proof -
  have "\<not> is_space c" if "addr_char c" for c
    using that by (auto simp: addr_char_def xdigit_def char_class_defs)
  then show "list_all addr_char s \<Longrightarrow> ?thesis" by (auto simp: list_all_iff)
qed

end
