(* ===== verification/Network.thy ===== *)
theory Network
  imports IpAddress Regex KeyedText AtomicWrite
begin

text \<open>
  \<open>gest/core/network\<close>: the netifrc configuration of an interface (\<open>netifrc.py\<close>),
  \<open>/etc/resolv.conf\<close> (\<open>resolv.py\<close>), \<open>/etc/hosts\<close> (\<open>hosts.py\<close>), the interface
  command (\<open>commands.py\<close>), and the root service that writes these files
  (\<open>gest/backend/network.py\<close>). A file that cannot be read is \<open>None\<close>. The lemmas show that
  editing one interface leaves the others alone (an interpretation of the keyed-text contract),
  that the two resolver files are read back as written when no address has a scope, and what a
  scope lets through.
\<close>

section \<open>gest.core.network.commands\<close>

definition iface_char :: "char \<Rightarrow> bool" where
  "iface_char c = (alnum_az c \<or> c \<in> set ''._@:-'')"

definition IFACE_RE :: rx where
  "IFACE_RE = Seq (Cls alnum_az) (Star (Cls iface_char))"

definition valid_iface :: "string \<Rightarrow> bool" where
  "valid_iface name = (fullmatch IFACE_RE name \<and> length name \<le> 32)"

definition iplink_argv :: "string \<Rightarrow> bool \<Rightarrow> string \<Rightarrow> string list res" where
  "iplink_argv iface up ip =
     guard (valid_iface iface) (ValueError (''invalid interface: '' @ py_repr iface))
       (Inr [ip, ''link'', ''set'', iface, if up then ''up'' else ''down''])"

section \<open>gest.core.network.netifrc\<close>

record interface_config =
  ic_iface :: string
  ic_method :: string
  ic_address :: string
  ic_gateway :: string

definition InterfaceConfig :: "string \<Rightarrow> string \<Rightarrow> string \<Rightarrow> string \<Rightarrow> interface_config" where
  "InterfaceConfig iface meth address gateway =
     \<lparr>ic_iface = iface, ic_method = meth, ic_address = address, ic_gateway = gateway\<rparr>"

definition valid_address :: "string \<Rightarrow> bool" where
  "valid_address cidr = (ip_interface cidr \<and> CHR ''/'' \<in> set cidr)"

definition valid_gateway :: "string \<Rightarrow> bool" where
  "valid_gateway ip = (ip = [] \<or> ip_address ip)"

text \<open>
  The pattern of \<open>_assign_re\<close> on one line, and its group: the name after white space, the equals
  sign, an optional quote, the run of characters that are neither quote, line feed nor hash,
  an optional quote, then nothing but white space and a comment. Each part takes all it can, and
  no shorter choice can succeed where the longest one fails.
\<close>

definition val_char :: "char \<Rightarrow> bool" where
  "val_char c = (c \<noteq> DQUOTE \<and> c \<noteq> LF \<and> c \<noteq> HASH)"

definition drop_quote :: "string \<Rightarrow> string" where
  "drop_quote s = (case s of [] \<Rightarrow> [] | c # cs \<Rightarrow> if c = DQUOTE then cs else s)"

definition assigned_rest :: "string \<Rightarrow> string option" where
  "assigned_rest r =
     (case lstrip r of [] \<Rightarrow> None
      | c # cs \<Rightarrow>
          if c \<noteq> CHR ''='' then None
          else
            (let v = takeWhile val_char (drop_quote (lstrip cs));
                 t = lstrip (drop_quote (dropWhile val_char (drop_quote (lstrip cs))))
             in if t = [] \<or> hd t = HASH then Some v else None))"

definition assign_match :: "string \<Rightarrow> string \<Rightarrow> string \<Rightarrow> string option" where
  "assign_match pre iface line =
     (let name = pre @ ''_'' @ iface; l = lstrip line
      in if startswith l name then assigned_rest (drop (length name) l) else None)"

text \<open>The search for \<open>default\s+via\s+(\S+)\<close>, leftmost first.\<close>

definition gateway_at :: "string \<Rightarrow> string option" where
  "gateway_at s =
     (if \<not> startswith s ''default'' then None
      else
        (let r = drop 7 s; u = lstrip r
         in if r = u \<or> \<not> startswith u ''via'' then None
            else
              (let q = drop 3 u; w = lstrip q
               in if q = w \<or> w = [] then None else Some (takeWhile (\<lambda>c. \<not> is_space c) w))))"

fun gateway_search :: "string \<Rightarrow> string option" where
  "gateway_search [] = None"
| "gateway_search (c # s) = (case gateway_at (c # s) of Some w \<Rightarrow> Some w | None \<Rightarrow> gateway_search s)"

text \<open>The loop of \<open>parse_conf_net\<close> for one of its two variables: the last assignment wins.\<close>

definition last_assigned :: "string \<Rightarrow> string \<Rightarrow> string list \<Rightarrow> string" where
  "last_assigned pre iface ls =
     fold (\<lambda>l v. case assign_match pre iface l of None \<Rightarrow> v | Some g \<Rightarrow> strip g) ls []"

definition interface_of :: "string \<Rightarrow> string \<Rightarrow> string \<Rightarrow> interface_config" where
  "interface_of iface config_val routes_val =
     (if config_val = [] then InterfaceConfig iface ''none'' [] []
      else if lower config_val = ''dhcp'' then InterfaceConfig iface ''dhcp'' [] []
      else InterfaceConfig iface ''static'' config_val
        (case gateway_search routes_val of None \<Rightarrow> [] | Some w \<Rightarrow> w))"

definition parse_conf_net :: "string \<Rightarrow> string \<Rightarrow> interface_config" where
  "parse_conf_net s iface =
     interface_of iface (last_assigned ''config'' iface (splitlines s))
       (last_assigned ''routes'' iface (splitlines s))"

definition config_lines :: "interface_config \<Rightarrow> string list" where
  "config_lines config =
     (if ic_method config = ''dhcp'' then [''config_'' @ ic_iface config @ ''='' @ [DQUOTE] @ ''dhcp'' @ [DQUOTE]]
      else if ic_method config = ''static'' then
        [''config_'' @ ic_iface config @ ''='' @ [DQUOTE] @ ic_address config @ [DQUOTE]]
        @ (if ic_gateway config \<noteq> []
           then [''routes_'' @ ic_iface config @ ''='' @ [DQUOTE] @ ''default via '' @ ic_gateway config @ [DQUOTE]]
           else [])
      else [])"

definition render_conf_net :: "string \<Rightarrow> interface_config \<Rightarrow> string" where
  "render_conf_net s config =
     (let kept = filter (\<lambda>l. assign_match ''config'' (ic_iface config) l = None
                    \<and> assign_match ''routes'' (ic_iface config) l = None) (splitlines s);
          body = strip (join [LF] (kept @ config_lines config))
      in if body \<noteq> [] then body @ [LF] else [])"

section \<open>gest.core.network.resolv\<close>

definition RESOLV_HEADER :: string where
  "RESOLV_HEADER = ''# /etc/resolv.conf: generated by GeST''"

definition ldh_char :: "char \<Rightarrow> bool" where
  "ldh_char c = (alnum_az c \<or> c = CHR ''-'')"

definition LABEL_RX :: rx where
  "LABEL_RX = Seq (Cls alnum_az) (Opt (Seq (UpTo 61 (Cls ldh_char)) (Cls alnum_az)))"

definition DOMAIN_RE :: rx where
  "DOMAIN_RE = Seq LABEL_RX (Star (Seq (lit ''.'') LABEL_RX))"

definition valid_nameserver :: "string \<Rightarrow> bool" where
  "valid_nameserver ip = ip_address ip"

definition valid_search_domain :: "string \<Rightarrow> bool" where
  "valid_search_domain domain = (fullmatch DOMAIN_RE domain \<and> length domain \<le> 253)"

definition valid_resolv :: "string list \<Rightarrow> string list \<Rightarrow> bool" where
  "valid_resolv nameservers search =
     (nameservers \<noteq> [] \<and> list_all valid_nameserver nameservers \<and> list_all valid_search_domain search)"

definition resolv_line :: "string \<Rightarrow> string list \<times> string list \<Rightarrow> string list \<times> string list" where
  "resolv_line line acc =
     (let s = strip line; parts = py_split s
      in if s = [] \<or> startswith s ''#'' then acc
         else if length parts < 2 then acc
         else if parts ! 0 = ''nameserver'' then (fst acc @ [parts ! 1], snd acc)
         else if parts ! 0 = ''search'' \<or> parts ! 0 = ''domain'' then (fst acc, snd acc @ tl parts)
         else acc)"

definition parse_resolv :: "string \<Rightarrow> string list \<times> string list" where
  "parse_resolv s = fold resolv_line (splitlines s) ([], [])"

definition render_resolv :: "string list \<Rightarrow> string list \<Rightarrow> string" where
  "render_resolv nameservers search =
     join [LF] ([RESOLV_HEADER] @ (if search \<noteq> [] then [''search '' @ join '' '' search] else [])
       @ map (\<lambda>ns. ''nameserver '' @ ns) nameservers) @ [LF]"

definition current_resolvers :: "string option \<Rightarrow> string list \<times> string list" where
  "current_resolvers file = (case file of None \<Rightarrow> ([], []) | Some s \<Rightarrow> parse_resolv s)"

section \<open>gest.core.network.hosts\<close>

definition HOSTS_HEADER :: string where
  "HOSTS_HEADER = ''# /etc/hosts: generated by GeST''"

record hosts_entry =
  he_address :: string
  he_names :: "string list"

definition HostsEntry :: "string \<Rightarrow> string list \<Rightarrow> hosts_entry" where
  "HostsEntry address names = \<lparr>he_address = address, he_names = names\<rparr>"

definition valid_host_address :: "string \<Rightarrow> bool" where
  "valid_host_address address = ip_address address"

definition valid_host_name :: "string \<Rightarrow> bool" where
  "valid_host_name name = (fullmatch DOMAIN_RE name \<and> length name \<le> 253)"

definition valid_hosts_entry :: "hosts_entry \<Rightarrow> bool" where
  "valid_hosts_entry e =
     (valid_host_address (he_address e) \<and> he_names e \<noteq> [] \<and> list_all valid_host_name (he_names e))"

definition valid_hosts :: "hosts_entry list \<Rightarrow> bool" where
  "valid_hosts entries = (entries \<noteq> [] \<and> list_all valid_hosts_entry entries)"

definition hosts_line :: "string \<Rightarrow> hosts_entry option" where
  "hosts_line line =
     (let s = strip line; parts = py_split s
      in if s = [] \<or> startswith s ''#'' then None
         else if length parts \<ge> 2 then Some (HostsEntry (hd parts) (tl parts)) else None)"

definition parse_hosts :: "string \<Rightarrow> hosts_entry list" where
  "parse_hosts s = List.map_filter hosts_line (splitlines s)"

definition render_hosts :: "hosts_entry list \<Rightarrow> string" where
  "render_hosts entries =
     join [LF] (HOSTS_HEADER # map (\<lambda>e. he_address e @ [TAB] @ join '' '' (he_names e)) entries) @ [LF]"

definition default_hosts :: "string \<Rightarrow> hosts_entry list" where
  "default_hosts hostname =
     [HostsEntry ''127.0.0.1'' [''localhost''], HostsEntry ''::1'' [''localhost'']]
     @ (if hostname \<noteq> [] \<and> valid_host_name hostname then [HostsEntry ''127.0.1.1'' [hostname]] else [])"

definition current_hosts :: "string option \<Rightarrow> hosts_entry list" where
  "current_hosts file = (case file of None \<Rightarrow> [] | Some s \<Rightarrow> parse_hosts s)"

section \<open>gest.backend.network\<close>

definition net_atomic_write ::
    "(write_op \<Rightarrow> bool) \<Rightarrow> string \<Rightarrow> string \<Rightarrow> string \<Rightarrow> string \<Rightarrow> files \<Rightarrow> files \<times> string res" where
  "net_atomic_write fault tmp partial path content fs =
     replace_file fault tmp partial (Some MODE_644) path content fs"

definition set_interface_config ::
    "(write_op \<Rightarrow> bool) \<Rightarrow> string \<Rightarrow> string \<Rightarrow> bool \<Rightarrow> string \<Rightarrow> string \<Rightarrow> string \<Rightarrow> string \<Rightarrow> string
      \<Rightarrow> files \<Rightarrow> files \<times> (bool \<times> string) res" where
  "set_interface_config fault tmp partial unreadable iface meth address gateway root fs =
     (if \<not> valid_iface iface then (fs, Inl (ValueError ''invalid interface''))
      else if meth \<notin> {''dhcp'', ''static'', ''none''} then (fs, Inl (ValueError ''invalid method''))
      else if meth = ''static'' \<and> \<not> valid_address address
        then (fs, Inl (ValueError ''invalid IP address (need CIDR, e.g. 192.168.1.5/24)''))
      else if meth = ''static'' \<and> \<not> valid_gateway gateway
        then (fs, Inl (ValueError ''invalid gateway address''))
      else
        (let path = resolve root ''/etc/conf.d/net'';
             current = (if unreadable then [] else case fs path of None \<Rightarrow> [] | Some (s, m) \<Rightarrow> s);
             cfg = InterfaceConfig iface meth (if meth = ''static'' then address else [])
               (if meth = ''static'' then gateway else [])
         in case net_atomic_write fault tmp partial path (render_conf_net current cfg) fs of
              (fs', Inl e) \<Rightarrow> (fs', Inl e)
            | (fs', Inr p) \<Rightarrow>
                (fs', Inr (True, iface @ '' configured as '' @ meth @ '' (restart net.'' @ iface @ '' to apply)''))))"

definition set_resolvers ::
    "(write_op \<Rightarrow> bool) \<Rightarrow> string \<Rightarrow> string \<Rightarrow> string list \<Rightarrow> string list \<Rightarrow> string
      \<Rightarrow> files \<Rightarrow> files \<times> (bool \<times> string) res" where
  "set_resolvers fault tmp partial nameservers search root fs =
     (if \<not> valid_resolv nameservers search
      then (fs, Inl (ValueError ''need at least one valid nameserver; check the search domains''))
      else case net_atomic_write fault tmp partial (resolve root ''/etc/resolv.conf'')
             (render_resolv nameservers search) fs of
          (fs', Inl e) \<Rightarrow> (fs', Inl e)
        | (fs', Inr p) \<Rightarrow>
            (fs', Inr (True, ''resolv.conf updated ('' @ nat_str (length nameservers) @ '' nameserver(s))'')))"

definition set_hosts ::
    "(write_op \<Rightarrow> bool) \<Rightarrow> string \<Rightarrow> string \<Rightarrow> (string \<times> string list) list \<Rightarrow> string
      \<Rightarrow> files \<Rightarrow> files \<times> (bool \<times> string) res" where
  "set_hosts fault tmp partial entries root fs =
     (let parsed = map (\<lambda>(address, names). HostsEntry address names) entries
      in if \<not> valid_hosts parsed
         then (fs, Inl (ValueError ''invalid host entries (need a valid IP and hostname on each)''))
         else case net_atomic_write fault tmp partial (resolve root ''/etc/hosts'') (render_hosts parsed) fs of
             (fs', Inl e) \<Rightarrow> (fs', Inl e)
           | (fs', Inr p) \<Rightarrow>
               (fs', Inr (True, ''/etc/hosts updated ('' @ nat_str (length parsed) @ '' entr''
                  @ (if length parsed = 1 then ''y'' else ''ies'') @ '')'')))"

section \<open>An assignment and the white space around it\<close>

definition trimmed :: "string \<Rightarrow> bool" where
  "trimmed s = (s = [] \<or> \<not> is_space (last s))"

lemma trimmed_suffix: "trimmed (a @ s) \<Longrightarrow> trimmed s"
  by (auto simp: trimmed_def)

lemma trimmed_lstrip: "trimmed s \<Longrightarrow> trimmed (lstrip s)"
proof -
  assume t: "trimmed s"
  have "s = takeWhile is_space s @ lstrip s" by (simp add: lstrip_def)
  with t show ?thesis by (metis trimmed_suffix)
qed

lemma trimmed_drop_quote: "trimmed s \<Longrightarrow> trimmed (drop_quote s)"
  by (cases s) (auto simp: drop_quote_def trimmed_def split: if_splits)

lemma trimmed_dropWhile: "trimmed s \<Longrightarrow> trimmed (dropWhile P s)"
  by (metis takeWhile_dropWhile_id trimmed_suffix)

lemma trimmed_strip: "trimmed (strip s)"
  using strip_last [of s] by (auto simp: trimmed_def)

lemma lstrip_spaces: "list_all is_space b \<Longrightarrow> lstrip b = []"
  by (simp add: lstrip_def list_all_iff)

lemma lstrip_trimmed_append:
  "trimmed s \<Longrightarrow> list_all is_space b \<Longrightarrow> lstrip (s @ b) = (if s = [] then [] else lstrip s @ b)"
  "trimmed s \<Longrightarrow> s \<noteq> [] \<Longrightarrow> lstrip s \<noteq> []"
proof -
  show n: "trimmed s \<Longrightarrow> s \<noteq> [] \<Longrightarrow> lstrip s \<noteq> []"
    by (auto simp: lstrip_def trimmed_def)
  show "trimmed s \<Longrightarrow> list_all is_space b \<Longrightarrow> lstrip (s @ b) = (if s = [] then [] else lstrip s @ b)"
    using n by (auto simp: lstrip_spaces) (auto simp: lstrip_def dropWhile_append)
qed

lemma drop_quote_append: "s \<noteq> [] \<Longrightarrow> drop_quote (s @ b) = drop_quote s @ b"
  by (cases s) (auto simp: drop_quote_def)

lemma strip_append_right: "list_all is_space b \<Longrightarrow> strip (s @ b) = strip s"
  by (induction b rule: rev_induct) (auto simp flip: append_assoc)

lemma val_spaces: "list_all is_space b \<Longrightarrow> LF \<notin> set b \<Longrightarrow> list_all val_char b"
  by (auto simp: list_all_iff val_char_def)

lemma drop_quote_Nil [simp]: "drop_quote [] = []"
  by (simp add: drop_quote_def)

lemma lstrip_Nil [simp]: "lstrip [] = []"
  by (simp add: lstrip_def)

lemma assigned_rest_all:
  assumes "lstrip r = c # cs" "drop_quote (lstrip cs) = x" "list_all val_char x"
  shows "assigned_rest r = (if c = CHR ''='' then Some x else None)"
proof -
  have h: "takeWhile val_char (drop_quote (lstrip cs)) = drop_quote (lstrip cs)"
      "dropWhile val_char (drop_quote (lstrip cs)) = []"
    using assms(2,3) by (simp_all add: list_all_iff)
  show ?thesis
    unfolding assigned_rest_def assms(1) list.case Let_def h by (simp add: assms(2))
qed

lemma assigned_rest_append:
  assumes t: "trimmed u" and b: "list_all is_space b" "LF \<notin> set b"
  shows "map_option strip (assigned_rest (u @ b)) = map_option strip (assigned_rest u)"
proof (cases "u = []")
  case True
  then show ?thesis using b by (simp add: assigned_rest_def lstrip_spaces)
next
  case False
  then obtain c cs where u: "lstrip u = c # cs" "lstrip (u @ b) = c # cs @ b"
    using lstrip_trimmed_append [OF t] b by (cases "lstrip u") auto
  have tcs: "trimmed cs"
    using trimmed_lstrip [OF t] u by (cases cs) (auto simp: trimmed_def)
  show ?thesis
  proof (cases "cs = []")
    case True
    then show ?thesis using u b by (simp add: assigned_rest_def lstrip_spaces)
  next
    case cs: False
    define x where "x = drop_quote (lstrip cs)"
    have x: "drop_quote (lstrip (cs @ b)) = x @ b" "trimmed x"
      using lstrip_trimmed_append [OF tcs] cs b trimmed_lstrip [OF tcs]
      by (simp_all add: x_def drop_quote_append trimmed_drop_quote)
    show ?thesis
    proof (cases "list_all val_char x")
      case True
      then have all: "list_all val_char (x @ b)"
        using val_spaces [OF b] by simp
      show ?thesis
        using assigned_rest_all [OF u(2) x(1) all] assigned_rest_all [OF u(1) x_def [symmetric] True] b
        by (simp add: strip_append_right)
    next
      case False
      define y where "y = dropWhile val_char x"
      have y: "takeWhile val_char (x @ b) = takeWhile val_char x" "dropWhile val_char (x @ b) = y @ b"
          "y \<noteq> []" "trimmed y"
        using False x trimmed_dropWhile by (auto simp: y_def list_all_iff takeWhile_append1 dropWhile_append1)
      define z where "z = drop_quote y"
      have z: "drop_quote (y @ b) = z @ b" "trimmed z"
        using y by (simp_all add: z_def drop_quote_append trimmed_drop_quote)
      have "lstrip (z @ b) = [] \<longleftrightarrow> lstrip z = []" "lstrip z \<noteq> [] \<Longrightarrow> hd (lstrip (z @ b)) = hd (lstrip z)"
        using lstrip_trimmed_append [OF z(2)] b by (auto simp: lstrip_def)
      then show ?thesis
        using u x y z
        by (auto simp: assigned_rest_def Let_def x_def [symmetric] y_def [symmetric] z_def [symmetric])
    qed
  qed
qed

lemma startswith_append_spaces:
  assumes "list_all is_space b" "name \<noteq> []" "\<not> is_space (last name)"
  shows "startswith (u @ b) name \<longleftrightarrow> startswith u name"
proof
  assume "startswith (u @ b) name"
  then consider "prefix name u" | w where "name = u @ w" "prefix w b"
    by (auto simp: startswith_def prefix_append)
  then show "startswith u name"
  proof cases
    case 2
    have "w = []"
    proof (rule ccontr)
      assume "w \<noteq> []"
      then have "last name \<in> set b"
        using 2 set_mono_prefix [of w b] last_in_set [of w] by auto
      with assms show False by (auto simp: list_all_iff)
    qed
    with 2 show ?thesis by (simp add: startswith_def)
  qed (simp add: startswith_def)
qed (auto simp: startswith_def)

definition name_ok :: "string \<Rightarrow> bool" where
  "name_ok iface = (iface \<noteq> [] \<and> list_all (\<lambda>c. \<not> is_space c) iface)"

lemma assign_match_strip:
  assumes "LF \<notin> set l" "name_ok iface"
  shows "map_option strip (assign_match pre iface (strip l)) = map_option strip (assign_match pre iface l)"
proof -
  obtain a b where l: "l = a @ strip l @ b" "list_all is_space a" "list_all is_space b"
    using strip_decomp [of l] by blast
  let ?u = "strip l" and ?name = "pre @ ''_'' @ iface"
  have n: "?name \<noteq> []" "\<not> is_space (last ?name)"
    using assms(2) by (auto simp: name_ok_def list_all_iff)
  have t: "trimmed ?u" by (rule trimmed_strip)
  have "lstrip l = (if ?u = [] then [] else ?u @ b)"
  proof (cases "?u = []")
    case True
    then show ?thesis by (simp add: lstrip_spaces strip_empty_iff [symmetric])
  next
    case False
    have "lstrip (a @ ?u @ b) = ?u @ b"
      using l(2) False strip_hd [OF False]
      by (auto simp: lstrip_def list_all_iff dropWhile_append2 neq_Nil_conv)
    with l(1) False show ?thesis by simp
  qed
  moreover have "lstrip ?u = ?u"
    using strip_hd [of l] by (cases ?u) (auto simp: lstrip_def)
  ultimately show ?thesis
  proof (cases "?u = []")
    case True
    then have "lstrip l = []" "lstrip ?u = []" "\<not> startswith [] ?name"
      using \<open>lstrip l = (if ?u = [] then [] else ?u @ b)\<close> \<open>lstrip ?u = ?u\<close>
      by (auto simp: startswith_def)
    then show ?thesis
      by (simp add: assign_match_def Let_def)
  next
    case False
    have sw: "startswith (?u @ b) ?name \<longleftrightarrow> startswith ?u ?name"
      using startswith_append_spaces [OF l(3) n] .
    have b: "LF \<notin> set b"
      using assms(1) l(1) by (metis Un_iff set_append)
    have "map_option strip (assigned_rest (drop (length ?name) ?u @ b))
        = map_option strip (assigned_rest (drop (length ?name) ?u))"
      using b l(3) t trimmed_suffix [of "take (length ?name) ?u" "drop (length ?name) ?u"]
      by (intro assigned_rest_append) auto
    moreover have "startswith ?u ?name \<Longrightarrow> length ?name \<le> length ?u"
      by (auto simp: startswith_def dest: prefix_length_le)
    ultimately show ?thesis
      using False sw \<open>lstrip ?u = ?u\<close> \<open>lstrip l = (if ?u = [] then [] else ?u @ b)\<close>
      by (auto simp: assign_match_def Let_def)
  qed
qed

section \<open>One interface among others\<close>

lemma assign_match_iff_strip:
  "LF \<notin> set l \<Longrightarrow> name_ok iface \<Longrightarrow>
     assign_match pre iface (strip l) = None \<longleftrightarrow> assign_match pre iface l = None"
  using assign_match_strip [of l iface pre] by (metis option.map_disc_iff)

lemma assign_match_blank: "strip l = [] \<Longrightarrow> LF \<notin> set l \<Longrightarrow> name_ok iface \<Longrightarrow> assign_match pre iface l = None"
proof -
  assume a: "strip l = []" "LF \<notin> set l" "name_ok iface"
  have "assign_match pre iface [] = None"
    by (simp add: assign_match_def startswith_def lstrip_def)
  with a assign_match_iff_strip [OF a(2,3), of pre] show ?thesis by simp
qed

definition stored_value :: "string \<Rightarrow> string \<Rightarrow> string \<Rightarrow> string \<Rightarrow> string" where
  "stored_value pre iface v l = (case map_option strip (assign_match pre iface l) of None \<Rightarrow> v | Some g \<Rightarrow> g)"

definition stored_in :: "string \<Rightarrow> string \<Rightarrow> string list \<Rightarrow> string" where
  "stored_in pre iface ls = foldl (stored_value pre iface) [] ls"

lemma last_assigned_stored: "last_assigned pre iface ls = stored_in pre iface ls"
proof -
  have "(\<lambda>l v. case assign_match pre iface l of None \<Rightarrow> v | Some g \<Rightarrow> strip g)
      = (\<lambda>l v. stored_value pre iface v l)"
    by (auto simp: fun_eq_iff stored_value_def split: option.splits)
  then show ?thesis
    by (simp add: last_assigned_def stored_in_def foldl_conv_fold)
qed

lemma foldl_skip: "(\<And>v l. l \<in> set ls \<Longrightarrow> \<not> P l \<Longrightarrow> f v l = v) \<Longrightarrow> foldl f v (filter P ls) = foldl f v ls"
  by (induction ls arbitrary: v) auto

lemma foldl_map_same: "(\<And>v l. l \<in> set ls \<Longrightarrow> f v (g l) = f v l) \<Longrightarrow> foldl f v (map g ls) = foldl f v ls"
  by (induction ls arbitrary: v) auto

lemma splitlines_no_LF: "l \<in> set (splitlines s) \<Longrightarrow> LF \<notin> set l"
  using splitlines_parts [of l s] by (auto simp: list_all_iff)

lemma stored_nblines:
  assumes "name_ok iface"
  shows "stored_in pre iface (nblines s) = stored_in pre iface (splitlines s)"
proof -
  have "stored_value pre iface v (strip l) = stored_value pre iface v l" if "l \<in> set (splitlines s)" for l v
    using that assign_match_strip [OF splitlines_no_LF assms] by (simp add: stored_value_def)
  then have m: "stored_in pre iface (map strip (splitlines s)) = stored_in pre iface (splitlines s)"
    unfolding stored_in_def by (intro foldl_map_same)
  have "stored_value pre iface v l = v" if "\<not> l \<noteq> []" for l v
    using that assign_match_blank [of l] assms by (simp add: stored_value_def)
  then have "stored_in pre iface (filter (\<lambda>l. l \<noteq> []) (map strip (splitlines s)))
      = stored_in pre iface (map strip (splitlines s))"
    unfolding stored_in_def by (intro foldl_skip) auto
  with m show ?thesis by (simp add: nblines_def)
qed

lemma parse_conf_net_nblines:
  "name_ok iface \<Longrightarrow> parse_conf_net s iface =
     interface_of iface (stored_in ''config'' iface (nblines s)) (stored_in ''routes'' iface (nblines s))"
  by (simp add: parse_conf_net_def last_assigned_stored stored_nblines)

text \<open>A line of the interface: one of its two assignments.\<close>

definition of_iface :: "string \<Rightarrow> string \<Rightarrow> bool" where
  "of_iface iface l = (assign_match ''config'' iface l \<noteq> None \<or> assign_match ''routes'' iface l \<noteq> None)"

definition addr_ok :: "string \<Rightarrow> bool" where
  "addr_ok a = (a \<noteq> [] \<and> list_all (\<lambda>c. val_char c \<and> \<not> is_space c) a)"

definition config_ok :: "interface_config \<Rightarrow> bool" where
  "config_ok cfg = (valid_iface (ic_iface cfg) \<and>
     (cfg = InterfaceConfig (ic_iface cfg) ''dhcp'' [] [] \<or>
      (ic_method cfg = ''static'' \<and> addr_ok (ic_address cfg) \<and> lower (ic_address cfg) \<noteq> ''dhcp'' \<and>
       (ic_gateway cfg = [] \<or> addr_ok (ic_gateway cfg)))))"

lemma valid_iface_ok: "valid_iface i \<Longrightarrow> name_ok i \<and> CHR ''='' \<notin> set i"
proof -
  assume "valid_iface i"
  then obtain c t where "i = c # t" "alnum_az c" "list_all iface_char t"
    by (auto simp: valid_iface_def IFACE_RE_def rx_simps)
  moreover have "\<not> is_space d \<and> d \<noteq> CHR ''=''" if "alnum_az d \<or> iface_char d" for d
    using that by (auto simp: iface_char_def char_class_defs)
  ultimately show ?thesis by (auto simp: name_ok_def list_all_iff)
qed

definition pre_ok :: "string \<Rightarrow> bool" where
  "pre_ok pre = (pre = ''config'' \<or> pre = ''routes'')"

lemma assign_matchD:
  "assign_match pre i l = Some g \<Longrightarrow> \<exists>r. lstrip l = pre @ ''_'' @ i @ r \<and> assigned_rest r = Some g"
  by (auto simp: assign_match_def startswith_def prefix_def Let_def split: if_splits)

lemma assigned_rest_char:
  "assigned_rest (c # r) = Some g \<Longrightarrow> c = CHR ''='' \<or> is_space c"
  by (auto simp: assigned_rest_def lstrip_def split: if_splits)

lemma assign_unique:
  assumes "assign_match p i l = Some g" "assign_match q j l = Some h" "pre_ok p" "pre_ok q"
    "valid_iface i" "valid_iface j"
  shows "p = q \<and> i = j"
proof -
  obtain r s where r: "lstrip l = p @ ''_'' @ i @ r" "assigned_rest r = Some g"
    and s: "lstrip l = q @ ''_'' @ j @ s" "assigned_rest s = Some h"
    using assms(1,2) assign_matchD by metis
  then have pq: "p = q" and e: "i @ r = j @ s"
    using assms(3,4) by (auto simp: pre_ok_def)
  have "z = []" if "valid_iface k" "k = k' @ z" "assigned_rest (z @ y) = Some u" for k k' z y u
    using that valid_iface_ok [of k] assigned_rest_char [of "hd z" "tl z @ y" u]
    by (cases z) (auto simp: name_ok_def)
  with e r s assms(5,6) show ?thesis
    using pq by (auto simp: append_eq_append_conv2)
qed

text \<open>The line that assigns a value.\<close>

definition assign_text :: "string \<Rightarrow> string \<Rightarrow> string \<Rightarrow> string" where
  "assign_text pre i v = pre @ ''_'' @ i @ ''='' @ [DQUOTE] @ v @ [DQUOTE]"

definition via :: "string \<Rightarrow> string" where
  "via gw = ''default via '' @ gw"

lemma config_lines_assign:
  "config_lines cfg =
     (if ic_method cfg = ''dhcp'' then [assign_text ''config'' (ic_iface cfg) ''dhcp'']
      else if ic_method cfg = ''static'' then
        assign_text ''config'' (ic_iface cfg) (ic_address cfg)
        # (if ic_gateway cfg \<noteq> [] then [assign_text ''routes'' (ic_iface cfg) (via (ic_gateway cfg))] else [])
      else [])"
  by (simp add: config_lines_def assign_text_def via_def)

lemma own_line:
  assumes "list_all val_char v" "pre_ok pre"
  shows "assign_match pre i (assign_text pre i v) = Some v"
proof -
  have l: "lstrip (assign_text pre i v) = (pre @ ''_'' @ i) @ CHR ''='' # DQUOTE # v @ [DQUOTE]"
    using assms(2) by (auto simp: pre_ok_def lstrip_def is_space_def ordc_def assign_text_def)
  have t: "takeWhile val_char (v @ [DQUOTE]) = v" "dropWhile val_char (v @ [DQUOTE]) = [DQUOTE]"
    using assms(1) by (auto simp: list_all_iff val_char_def takeWhile_append2)
  have "assigned_rest (CHR ''='' # DQUOTE # v @ [DQUOTE]) = Some v"
    using t by (simp add: assigned_rest_def lstrip_def drop_quote_def)
  then show ?thesis
    unfolding assign_match_def Let_def l by (simp add: startswith_def)
qed

lemma addr_ok_val: "addr_ok a \<Longrightarrow> list_all val_char a \<and> list_all val_char (via a)"
  by (simp add: addr_ok_def list_all_iff val_char_def via_def)

lemma addr_ok_line: "addr_ok a \<Longrightarrow> list_all (\<lambda>c. \<not> is_linebreak c) a \<and> list_all (\<lambda>c. \<not> is_linebreak c) (via a)"
  using linebreak_space by (auto simp: addr_ok_def list_all_iff via_def is_linebreak_def ordc_def)

lemma assign_text_ok:
  assumes "valid_iface i" "pre_ok pre" "list_all (\<lambda>c. \<not> is_linebreak c) v"
  shows "strip (assign_text pre i v) = assign_text pre i v" "assign_text pre i v \<noteq> []"
    "list_all (\<lambda>c. \<not> is_linebreak c) (assign_text pre i v)"
proof -
  have "list_all (\<lambda>c. \<not> is_linebreak c) i"
    using valid_iface_ok [OF assms(1)] linebreak_space by (auto simp: name_ok_def list_all_iff)
  then show "list_all (\<lambda>c. \<not> is_linebreak c) (assign_text pre i v)"
    using assms(2,3) by (auto simp: assign_text_def pre_ok_def is_linebreak_def ordc_def)
  show "assign_text pre i v \<noteq> []" by (simp add: assign_text_def)
  show "strip (assign_text pre i v) = assign_text pre i v"
    using assms(2) by (intro strip_eq_self) (auto simp: assign_text_def pre_ok_def is_space_def ordc_def)
qed

lemma InterfaceConfig_simps [simp]:
  "ic_iface (InterfaceConfig i m a g) = i" "ic_method (InterfaceConfig i m a g) = m"
  "ic_address (InterfaceConfig i m a g) = a" "ic_gateway (InterfaceConfig i m a g) = g"
  by (simp_all add: InterfaceConfig_def)

text \<open>The two shapes of a well-formed configuration.\<close>

lemma config_okE:
  assumes "config_ok cfg"
  obtains (dhcp) i where "valid_iface i" "cfg = InterfaceConfig i ''dhcp'' [] []"
    | (static) i a g where "valid_iface i" "cfg = InterfaceConfig i ''static'' a g" "addr_ok a"
        "lower a \<noteq> ''dhcp''" "g = [] \<or> addr_ok g"
proof (cases "ic_method cfg = ''static''")
  case True
  have "cfg = InterfaceConfig (ic_iface cfg) (ic_method cfg) (ic_address cfg) (ic_gateway cfg)"
    by (simp add: InterfaceConfig_def)
  moreover have "cfg \<noteq> InterfaceConfig (ic_iface cfg) ''dhcp'' [] []"
  proof
    assume e: "cfg = InterfaceConfig (ic_iface cfg) ''dhcp'' [] []"
    have "ic_method cfg = ''dhcp''" by (subst e) simp
    with True show False by simp
  qed
  ultimately show ?thesis
    using True assms static [of "ic_iface cfg" "ic_address cfg" "ic_gateway cfg"]
    by (simp add: config_ok_def)
next
  case False
  with assms show ?thesis
    using dhcp [of "ic_iface cfg"] by (auto simp: config_ok_def)
qed

lemma config_ok_method: "config_ok cfg \<Longrightarrow> ic_method cfg \<noteq> ''none''"
  by (erule config_okE) simp_all

lemma config_ok_iface: "config_ok cfg \<Longrightarrow> valid_iface (ic_iface cfg)"
  by (simp add: config_ok_def)

lemma config_line_ok:
  assumes "config_ok cfg" "l \<in> set (config_lines cfg)"
  shows "strip l = l \<and> l \<noteq> [] \<and> list_all (\<lambda>c. \<not> is_linebreak c) l"
proof -
  have "\<exists>pre i v. l = assign_text pre i v \<and> valid_iface i \<and> pre_ok pre \<and> list_all (\<lambda>c. \<not> is_linebreak c) v"
    using assms(1)
  proof (cases rule: config_okE)
    case (dhcp i)
    have "list_all (\<lambda>c. \<not> is_linebreak c) ''dhcp''"
      by (simp add: is_linebreak_def ordc_def)
    moreover have "l = assign_text ''config'' i ''dhcp''"
      using assms(2) dhcp by (simp add: config_lines_assign)
    moreover have "pre_ok ''config''" by (simp add: pre_ok_def)
    ultimately show ?thesis
      using dhcp(1) by (intro exI [of _ "''config''"] exI [of _ i] exI [of _ "''dhcp''"] conjI)
  next
    case (static i a g)
    then consider "l = assign_text ''config'' i a" | "l = assign_text ''routes'' i (via g)" "addr_ok g"
      using assms(2) by (auto simp: config_lines_assign split: if_splits)
    then show ?thesis
    proof cases
      case 1
      then show ?thesis
        using static addr_ok_line
        by (intro exI [of _ "''config''"] exI [of _ i] exI [of _ a] conjI) (simp_all add: pre_ok_def)
    next
      case 2
      then show ?thesis
        using static addr_ok_line
        by (intro exI [of _ "''routes''"] exI [of _ i] exI [of _ "via g"] conjI) (simp_all add: pre_ok_def)
    qed
  qed
  then obtain pre i v where "l = assign_text pre i v" "valid_iface i" "pre_ok pre"
      "list_all (\<lambda>c. \<not> is_linebreak c) v"
    by (elim exE conjE)
  then show ?thesis using assign_text_ok [of i pre v] by simp
qed

lemma conf_nblines_render:
  assumes "valid_iface (ic_iface cfg)" "list_all (\<lambda>l. strip l = l \<and> l \<noteq> [] \<and> list_all (\<lambda>c. \<not> is_linebreak c) l) (config_lines cfg)"
  shows "nblines (render_conf_net s cfg) = filter (\<lambda>l. \<not> of_iface (ic_iface cfg) l) (nblines s) @ config_lines cfg"
proof -
  let ?i = "ic_iface cfg" and ?new = "config_lines cfg"
  define kept where "kept = filter (\<lambda>l. \<not> of_iface ?i l) (splitlines s)"
  have k: "list_all (\<lambda>l. list_all (\<lambda>c. \<not> is_linebreak c) l) kept"
    using splitlines_parts by (auto simp: kept_def list_all_iff)
  have "nblines (render_conf_net s cfg) = nblines (join [LF] (kept @ ?new))"
  proof -
    have "kept = filter (\<lambda>l. assign_match ''config'' ?i l = None \<and> assign_match ''routes'' ?i l = None) (splitlines s)"
      unfolding kept_def by (rule filter_cong) (auto simp: of_iface_def)
    then show ?thesis
      by (simp add: render_conf_net_def Let_def nblines_body flip: append_assoc)
  qed
  also have "\<dots> = concat (map nblines (kept @ ?new))"
    by (simp add: nblines_join)
  also have "\<dots> = filter (\<lambda>l. l \<noteq> []) (map strip (kept @ ?new))"
    using k assms(2) by (intro concat_nblines) (auto simp: list_all_iff)
  also have "\<dots> = filter (\<lambda>l. l \<noteq> []) (map strip kept) @ ?new"
  proof -
    have "map strip ?new = ?new"
      using assms(2) by (intro map_idI) (auto simp: list_all_iff)
    moreover have "filter (\<lambda>l. l \<noteq> []) ?new = ?new"
      using assms(2) by (intro filter_eq_self) (auto simp: list_all_iff)
    ultimately show ?thesis by simp
  qed
  also have "filter (\<lambda>l. l \<noteq> []) (map strip kept) = filter (\<lambda>l. \<not> of_iface ?i l) (nblines s)"
  proof -
    have n: "name_ok ?i" using valid_iface_ok [OF assms(1)] by simp
    have "of_iface ?i (strip l) = of_iface ?i l" if "l \<in> set (splitlines s)" for l
      using assign_match_iff_strip [OF splitlines_no_LF [OF that] n] by (simp add: of_iface_def)
    then have "map strip kept = filter (\<lambda>l. \<not> of_iface ?i l) (map strip (splitlines s))"
      unfolding kept_def filter_map comp_def by (intro arg_cong [where f = "map strip"] filter_cong) auto
    then show ?thesis by (simp add: nblines_def conj_commute)
  qed
  finally show ?thesis .
qed

section \<open>Editing interfaces\<close>

lemma stored_append: "stored_in pre i (xs @ ys) = foldl (stored_value pre i) (stored_in pre i xs) ys"
  by (simp add: stored_in_def)

lemma stored_none:
  "(\<And>l. l \<in> set ls \<Longrightarrow> assign_match pre i l = None) \<Longrightarrow> foldl (stored_value pre i) v ls = v"
  by (induction ls arbitrary: v) (auto simp: stored_value_def)

lemma stored_removed:
  "pre_ok pre \<Longrightarrow> stored_in pre i (filter (\<lambda>l. \<not> of_iface i l) ls) = []"
  unfolding stored_in_def by (rule stored_none) (auto simp: of_iface_def pre_ok_def)

lemma stored_kept:
  assumes "pre_ok pre" "valid_iface i" "valid_iface j" "i \<noteq> j"
  shows "stored_in pre j (filter (\<lambda>l. \<not> of_iface i l) ls) = stored_in pre j ls"
proof -
  have c: "pre_ok ''config''" "pre_ok ''routes''" by (simp_all add: pre_ok_def)
  have "stored_value pre j v l = v" if "of_iface i l" for v l
  proof -
    have "assign_match pre j l = None"
      using that assms c assign_unique [of _ i l _ pre j] by (fastforce simp: of_iface_def)
    then show ?thesis by (simp add: stored_value_def)
  qed
  then show ?thesis
    unfolding stored_in_def by (intro foldl_skip) auto
qed

definition conf_at :: "string \<Rightarrow> string \<Rightarrow> interface_config option" where
  "conf_at s iface =
     (if valid_iface iface \<and> ic_method (parse_conf_net s iface) \<noteq> ''none''
      then Some (parse_conf_net s iface) else None)"

definition put_conf :: "string \<Rightarrow> interface_config \<Rightarrow> string \<Rightarrow> string" where
  "put_conf iface cfg s = render_conf_net s cfg"

definition del_conf :: "string \<Rightarrow> string \<Rightarrow> string" where
  "del_conf iface s =
     (if valid_iface iface then render_conf_net s (InterfaceConfig iface ''none'' [] []) else s)"

definition conf_ok :: "string \<Rightarrow> interface_config \<Rightarrow> bool" where
  "conf_ok iface cfg = (config_ok cfg \<and> ic_iface cfg = iface)"

lemma new_lines_other:
  assumes "config_ok cfg" "valid_iface j" "j \<noteq> ic_iface cfg" "pre_ok pre" "l \<in> set (config_lines cfg)"
  shows "assign_match pre j l = None"
proof -
  have c: "pre_ok ''config''" "pre_ok ''routes''" by (simp_all add: pre_ok_def)
  have "\<exists>p v. assign_match p (ic_iface cfg) l = Some v \<and> pre_ok p \<and> valid_iface (ic_iface cfg)"
    using assms(1)
  proof (cases rule: config_okE)
    case (dhcp i)
    have d: "list_all val_char ''dhcp''" by (simp add: val_char_def)
    have "l = assign_text ''config'' i ''dhcp''" "ic_iface cfg = i"
      using dhcp assms(5) by (simp_all add: config_lines_assign)
    then show ?thesis
      using own_line [OF d c(1), of i] c(1) dhcp(1) by metis
  next
    case (static i a g)
    then show ?thesis
      using assms(5) own_line [OF _ c(1)] own_line [OF _ c(2)] addr_ok_val c
      by (fastforce simp: config_lines_assign split: if_splits)
  qed
  then show ?thesis
    using assign_unique [of _ "ic_iface cfg" l _ pre j] assms by (cases "assign_match pre j l") auto
qed

lemma render_ok:
  "config_ok cfg \<Longrightarrow> nblines (render_conf_net s cfg)
     = filter (\<lambda>l. \<not> of_iface (ic_iface cfg) l) (nblines s) @ config_lines cfg"
  using config_line_ok [of cfg] by (intro conf_nblines_render) (auto simp: list_all_iff config_ok_def)

lemma conf_other:
  assumes "config_ok cfg" "valid_iface j" "j \<noteq> ic_iface cfg"
  shows "parse_conf_net (render_conf_net s cfg) j = parse_conf_net s j"
proof -
  have c: "pre_ok ''config''" "pre_ok ''routes''" by (simp_all add: pre_ok_def)
  have i: "valid_iface (ic_iface cfg)" using assms(1) by (simp add: config_ok_def)
  have "stored_in pre j (nblines (render_conf_net s cfg)) = stored_in pre j (nblines s)" if "pre_ok pre" for pre
    using stored_kept [OF that i assms(2)] assms that stored_none [of "config_lines cfg" pre j] new_lines_other
    by (simp add: render_ok stored_append)
  then show ?thesis
    using valid_iface_ok [OF assms(2)] c by (simp add: parse_conf_net_nblines)
qed

lemma gateway_via: "addr_ok g \<Longrightarrow> gateway_search (via g) = Some g"
proof -
  assume g: "addr_ok g"
  then obtain c t where gc: "g = c # t" "\<not> is_space c" "list_all (\<lambda>d. \<not> is_space d) t"
    by (cases g) (auto simp: addr_ok_def list_all_iff)
  have sp: "is_space (CHR '' '')" "\<not> is_space (CHR ''v'')" by (simp_all add: is_space_def ordc_def)
  have "gateway_at (via g) = Some g"
    using gc sp by (simp add: gateway_at_def via_def startswith_def Let_def lstrip_def list_all_iff)
  moreover obtain s where "via g = CHR ''d'' # s" by (simp add: via_def)
  ultimately show ?thesis by simp
qed

lemma conf_same:
  assumes "config_ok cfg"
  shows "parse_conf_net (render_conf_net s cfg) (ic_iface cfg) = cfg"
proof -
  let ?i = "ic_iface cfg"
  have c: "pre_ok ''config''" "pre_ok ''routes''" "''config'' \<noteq> ''routes''" by (simp_all add: pre_ok_def)
  have i: "valid_iface ?i" using assms by (simp add: config_ok_def)
  have st: "stored_in pre ?i (nblines (render_conf_net s cfg)) = foldl (stored_value pre ?i) [] (config_lines cfg)"
    if "pre_ok pre" for pre
    using that stored_removed [OF that] by (simp add: render_ok [OF assms] stored_append)
  have own: "stored_value pre ?i v (assign_text pre ?i x) = strip x" if "pre_ok pre" "list_all val_char x" for pre v x
    using own_line [OF that(2,1)] by (simp add: stored_value_def)
  have oth: "stored_value pre ?i v (assign_text q ?i x) = v"
    if "pre_ok pre" "pre_ok q" "q \<noteq> pre" "list_all val_char x" for pre q v x
    using own_line [OF that(4,2)] assign_unique [of q ?i "assign_text q ?i x" x pre ?i] that i
    by (cases "assign_match pre ?i (assign_text q ?i x)") (auto simp: stored_value_def)
  have p: "parse_conf_net (render_conf_net s cfg) ?i = interface_of ?i
      (foldl (stored_value ''config'' ?i) [] (config_lines cfg)) (foldl (stored_value ''routes'' ?i) [] (config_lines cfg))"
    using valid_iface_ok [OF i] c st by (simp add: parse_conf_net_nblines)
  from assms show ?thesis
  proof (cases rule: config_okE)
    case (dhcp i)
    have "list_all val_char ''dhcp''" "strip ''dhcp'' = ''dhcp''" "lower ''dhcp'' = ''dhcp''" by code_simp+
    then show ?thesis
      using p own [OF c(1), of "''dhcp''" "[]"] dhcp by (simp add: config_lines_assign interface_of_def)
  next
    case (static i a g)
    have sa: "strip a = a" "a \<noteq> []"
      using static(3) by (auto simp: addr_ok_def list_all_iff intro!: strip_nospace)
    have sg: "strip (via g) = via g" if "addr_ok g"
      using that by (intro strip_eq_self) (auto simp: via_def addr_ok_def list_all_iff is_space_def ordc_def)
    have "foldl (stored_value ''config'' ?i) [] (config_lines cfg) = a"
      using static own [OF c(1), of a] oth [OF c(1,2)] c addr_ok_val sa
      by (auto simp: config_lines_assign)
    moreover have "foldl (stored_value ''routes'' ?i) [] (config_lines cfg) = (if g = [] then [] else via g)"
      using static own [OF c(2), of "via g"] oth [OF c(2,1), of a] c addr_ok_val sg
      by (auto simp: config_lines_assign)
    moreover have "gateway_search [] = None" by simp
    ultimately show ?thesis
      using p static sa gateway_via by (auto simp: interface_of_def)
  qed
qed

interpretation netifrc: keyed_text_del conf_at put_conf conf_ok "\<lambda>_. True" del_conf
proof unfold_locales
  fix t k v k'
  assume "conf_ok k v"
  then have ok: "config_ok v" "valid_iface k" "ic_iface v = k" "ic_method v \<noteq> ''none''"
    using config_ok_iface config_ok_method by (auto simp only: conf_ok_def)
  have same: "parse_conf_net (render_conf_net t v) k = v"
    using conf_same [OF ok(1), of t] ok(3) by simp
  show "conf_at (put_conf k v t) k = Some v"
    unfolding conf_at_def put_conf_def same using ok(2,4) by simp
  assume ne: "k' \<noteq> k"
  have "parse_conf_net (render_conf_net t v) k' = parse_conf_net t k'" if "valid_iface k'"
    using conf_other [OF ok(1) that] ne ok(3) by simp
  then show "conf_at (put_conf k v t) k' = conf_at t k'"
    unfolding conf_at_def put_conf_def by (cases "valid_iface k'") simp_all
next
  fix t k k' :: string
  have d: "nblines (del_conf k t) = filter (\<lambda>l. \<not> of_iface k l) (nblines t)" if "valid_iface k"
    using that conf_nblines_render [of "InterfaceConfig k ''none'' [] []" t]
    by (simp add: del_conf_def config_lines_def)
  have c: "pre_ok ''config''" "pre_ok ''routes''" by (simp_all add: pre_ok_def)
  show "conf_at (del_conf k t) k = None"
  proof (cases "valid_iface k")
    case True
    then have "stored_in ''config'' k (nblines (del_conf k t)) = []"
      using d stored_removed [OF c(1)] by simp
    then have "ic_method (parse_conf_net (del_conf k t) k) = ''none''"
      using valid_iface_ok [OF True] by (simp add: parse_conf_net_nblines interface_of_def)
    then show ?thesis by (simp add: conf_at_def)
  qed (simp add: conf_at_def)
  assume ne: "k' \<noteq> k"
  show "conf_at (del_conf k t) k' = conf_at t k'"
  proof (cases "valid_iface k \<and> valid_iface k'")
    case True
    then have "parse_conf_net (del_conf k t) k' = parse_conf_net t k'"
      using d valid_iface_ok [of k'] stored_kept [OF c(1), of k k'] stored_kept [OF c(2), of k k'] ne
      by (simp add: parse_conf_net_nblines)
    then show ?thesis by (simp add: conf_at_def)
  qed (auto simp: conf_at_def del_conf_def)
qed auto

text \<open>What a configuration says of an interface, from the stored entry.\<close>

lemma parse_conf_at:
  assumes "valid_iface j"
  shows "parse_conf_net s j = (case conf_at s j of Some c \<Rightarrow> c | None \<Rightarrow> InterfaceConfig j ''none'' [] [])"
proof (cases "ic_method (parse_conf_net s j) = ''none''")
  case True
  then have "parse_conf_net s j = InterfaceConfig j ''none'' [] []"
    by (auto simp: parse_conf_net_def interface_of_def split: if_splits)
  with True show ?thesis by (simp add: conf_at_def)
qed (simp add: conf_at_def assms)

text \<open>After any sequence of edits of \<open>/etc/conf.d/net\<close> with well-formed interface
  configurations, reading an interface gives the last configuration written for it, and what the
  file said at first when no edit named it: interfaces whose names extend one another
  (\<open>eth0\<close>, \<open>eth0.1\<close>) do not disturb each other.\<close>

theorem interface_edits:
  assumes "list_all config_ok cfgs" "valid_iface j"
  shows "parse_conf_net (fold (\<lambda>c s. render_conf_net s c) cfgs s) j =
    (case map_of (rev (map (\<lambda>c. (ic_iface c, c)) cfgs)) j of
       Some c \<Rightarrow> c | None \<Rightarrow> parse_conf_net s j)"
proof -
  let ?es = "map (\<lambda>c. (ic_iface c, c)) cfgs"
  have "\<forall>(k, v) \<in> set ?es. conf_ok k v"
    using assms(1) by (auto simp: conf_ok_def list_all_iff)
  then have "conf_at (fold (\<lambda>(k, v). put_conf k v) ?es s) = conf_at s ++ map_of (rev ?es)"
    using netifrc.look_edits [where t = s and es = ?es] by blast
  moreover have "(\<lambda>c s. render_conf_net s c) = (\<lambda>c. put_conf (ic_iface c) c)"
    by (simp add: put_conf_def fun_eq_iff)
  then have "fold (\<lambda>(k, v). put_conf k v) ?es = fold (\<lambda>c s. render_conf_net s c) cfgs"
    by (simp add: fold_map comp_def)
  ultimately show ?thesis
    by (simp add: parse_conf_at [OF assms(2)] map_add_def split: option.splits)
qed

lemma interface_edits_witness:
  "parse_conf_net (fold (\<lambda>c s. render_conf_net s c)
     [InterfaceConfig ''eth0'' ''static'' ''10.0.0.2/8'' ''10.0.0.1'', InterfaceConfig ''eth0.1'' ''dhcp'' [] []]
     (''# net'' @ [LF] @ ''config_eth0=dhcp'')) ''eth0'' = InterfaceConfig ''eth0'' ''static'' ''10.0.0.2/8'' ''10.0.0.1''"
proof -
  let ?cs = "[InterfaceConfig ''eth0'' ''static'' ''10.0.0.2/8'' ''10.0.0.1'', InterfaceConfig ''eth0.1'' ''dhcp'' [] []]"
  have "list_all config_ok ?cs" "valid_iface ''eth0''" by code_simp+
  from interface_edits [OF this, of "''# net'' @ [LF] @ ''config_eth0=dhcp''"]
  show ?thesis by simp
qed

section \<open>The resolver files\<close>

definition plain_addr :: "string \<Rightarrow> bool" where
  "plain_addr a = (ip_address a \<and> CHR ''%'' \<notin> set a)"

definition net_word :: "string \<Rightarrow> bool" where
  "net_word w = (w \<noteq> [] \<and> list_all (\<lambda>c. \<not> is_space c) w)"

lemma plain_addr_word: "plain_addr a \<Longrightarrow> net_word a \<and> hd a \<noteq> HASH"
proof -
  assume "plain_addr a"
  then have a: "a \<noteq> []" "list_all addr_char a"
    using ip_address_chars by (auto simp: plain_addr_def)
  then have "addr_char (hd a)" by (cases a) auto
  then have "hd a \<noteq> HASH"
    by (auto simp: addr_char_def xdigit_def dec_digit_def ordc_def)
  with a show ?thesis by (simp add: net_word_def addr_char_word)
qed

lemma label_chars: "fullmatch LABEL_RX w \<Longrightarrow> w \<noteq> [] \<and> list_all (\<lambda>c. ldh_char c \<or> c = CHR ''.'') w"
  by (auto simp: LABEL_RX_def rx_simps match_Seq ldh_char_def list_all_iff)

lemma domain_word:
  assumes "fullmatch DOMAIN_RE d"
  shows "net_word d"
proof -
  from assms obtain u v where d: "d = u @ v" "fullmatch LABEL_RX u" "fullmatch (Star (Seq (lit ''.'') LABEL_RX)) v"
    unfolding DOMAIN_RE_def match_Seq by blast
  have "list_all (\<lambda>c. ldh_char c \<or> c = CHR ''.'') v"
  proof (rule match_Star_chars [OF _ d(3)])
    fix w
    assume "fullmatch (Seq (lit ''.'') LABEL_RX) w"
    then obtain t where "w = CHR ''.'' # t" "fullmatch LABEL_RX t"
      by (auto simp: match_Seq_lit)
    then show "list_all (\<lambda>c. ldh_char c \<or> c = CHR ''.'') w"
      using label_chars [of t] by simp
  qed
  then have "list_all (\<lambda>c. ldh_char c \<or> c = CHR ''.'') d"
    using d(1) label_chars [OF d(2)] by simp
  then have "list_all (\<lambda>c. \<not> is_space c) d"
  proof (rule list.pred_mono_strong)
    fix c
    assume "ldh_char c \<or> c = CHR ''.''"
    then show "\<not> is_space c"
      by (auto simp: ldh_char_def char_class_defs)
  qed
  with d(1) label_chars [OF d(2)] show ?thesis by (simp add: net_word_def)
qed

lemma last_join: "list_all net_word (w # ws) \<Longrightarrow> last (join [d] (w # ws)) = last (last (w # ws))"
proof (induction ws arbitrary: w)
  case (Cons v ws)
  then have "last (join [d] (v # ws)) = last (last (v # ws))"
    by simp
  moreover have "join [d] (v # ws) \<noteq> []"
    using Cons.prems by (auto simp: join_Cons net_word_def)
  ultimately show ?case
    by (simp add: join_Cons [of _ w])
qed simp

lemma words_line:
  assumes "list_all net_word (w # ws)" "hd w \<noteq> HASH" "is_space d" "\<not> is_linebreak d"
  shows "py_split (join [d] (w # ws)) = w # ws" "strip (join [d] (w # ws)) = join [d] (w # ws)"
    "\<not> startswith (join [d] (w # ws)) ''#''" "join [d] (w # ws) \<noteq> []"
    "list_all (\<lambda>c. \<not> is_linebreak c) (join [d] (w # ws))"
proof -
  let ?l = "join [d] (w # ws)"
  show "py_split ?l = w # ws"
    using assms by (intro py_split_join) (auto simp: net_word_def list_all_iff)
  have h: "?l \<noteq> [] \<and> hd ?l = hd w"
    using assms(1) by (cases ws) (auto simp: net_word_def)
  have "last ?l = last (last (w # ws))"
    using assms(1) by (rule last_join)
  then have t: "\<not> is_space (last ?l)"
    using assms(1) last_in_set [of "w # ws"] by (auto simp: net_word_def list_all_iff)
  have n: "\<not> is_space (hd w)"
    using assms(1) by (cases w) (auto simp: net_word_def)
  show "strip ?l = ?l" using h t n by (intro strip_eq_self) auto
  show "?l \<noteq> []" using h by simp
  show "\<not> startswith ?l ''#''"
    using h assms(2) by (cases ?l) (auto simp: startswith_def)
  show "list_all (\<lambda>c. \<not> is_linebreak c) ?l"
    using assms(1,4) linebreak_space by (intro list_all_join) (auto simp: net_word_def list_all_iff)
qed

lemma resolv_words:
  assumes "net_word ns" "list_all net_word ds" "ds \<noteq> []"
  shows "resolv_line (''nameserver '' @ ns) acc = (fst acc @ [ns], snd acc)"
    "resolv_line (''search '' @ join '' '' ds) acc = (fst acc, snd acc @ ds)"
proof -
  have k: "net_word ''nameserver''" "net_word ''search''" "hd ''nameserver'' \<noteq> HASH" "hd ''search'' \<noteq> HASH"
    "is_space (CHR '' '')" "\<not> is_linebreak (CHR '' '')" by code_simp+
  have n: "''nameserver '' @ ns = join '' '' [''nameserver'', ns]" by simp
  show "resolv_line (''nameserver '' @ ns) acc = (fst acc @ [ns], snd acc)"
    using words_line [of "''nameserver''" "[ns]" "CHR '' ''"] k assms(1)
    unfolding n resolv_line_def Let_def by simp
  have s: "''search '' @ join '' '' ds = join '' '' (''search'' # ds)"
    using assms(3) by (simp add: join_Cons)
  obtain d t where d: "ds = d # t" using assms(3) by (cases ds) auto
  show "resolv_line (''search '' @ join '' '' ds) acc = (fst acc, snd acc @ ds)"
    using words_line [of "''search''" ds "CHR '' ''"] k assms(2) d
    unfolding s resolv_line_def Let_def by simp
qed

lemma resolv_names:
  "list_all net_word ns \<Longrightarrow> fold resolv_line (map (\<lambda>n. ''nameserver '' @ n) ns) acc = (fst acc @ ns, snd acc)"
proof (induction ns arbitrary: acc)
  case (Cons n ns)
  then have "resolv_line (''nameserver '' @ n) acc = (fst acc @ [n], snd acc)"
    using resolv_words(1) [of n "[''a'']" acc] by (simp add: net_word_def is_space_def ordc_def)
  with Cons show ?case by (simp del: append.simps)
qed simp

lemma resolv_lines_unbroken:
  assumes "list_all net_word ns" "list_all net_word ds"
  shows "list_all (list_all (\<lambda>c. \<not> is_linebreak c))
    ([RESOLV_HEADER] @ (if ds \<noteq> [] then [''search '' @ join '' '' ds] else []) @ map (\<lambda>n. ''nameserver '' @ n) ns)"
proof -
  have w: "list_all (\<lambda>c. \<not> is_linebreak c) w" if "net_word w" for w
    using that linebreak_space by (auto simp: net_word_def list_all_iff)
  have "list_all (\<lambda>c. \<not> is_linebreak c) (join '' '' ds)"
    using assms(2) w by (intro list_all_join) (auto simp: list_all_iff)
  moreover have "list_all (\<lambda>c. \<not> is_linebreak c) RESOLV_HEADER"
    "list_all (\<lambda>c. \<not> is_linebreak c) ''search ''" "list_all (\<lambda>c. \<not> is_linebreak c) ''nameserver ''"
    by code_simp+
  moreover have "list_all (list_all (\<lambda>c. \<not> is_linebreak c)) ns"
    by (rule list.pred_mono_strong [OF assms(1)]) (rule w)
  ultimately show ?thesis
    by (simp only: list_all_append list.pred_map list.pred_inject o_def simp_thms split: if_split)
qed

lemma parse_render_resolv:
  assumes "list_all net_word ns" "list_all net_word ds"
  shows "parse_resolv (render_resolv ns ds) = (ns, ds)"
proof -
  have h: "resolv_line RESOLV_HEADER acc = acc" for acc
  proof -
    have "strip RESOLV_HEADER = RESOLV_HEADER" "startswith RESOLV_HEADER ''#''" by code_simp+
    then show ?thesis by (simp add: resolv_line_def)
  qed
  have "splitlines (render_resolv ns ds)
      = [RESOLV_HEADER] @ (if ds \<noteq> [] then [''search '' @ join '' '' ds] else []) @ map (\<lambda>n. ''nameserver '' @ n) ns"
    unfolding render_resolv_def using resolv_lines_unbroken [OF assms] by (rule splitlines_join_LF) simp
  moreover have "resolv_line (''search '' @ join '' '' ds) acc = (fst acc, snd acc @ ds)" if "ds \<noteq> []" for acc
    using resolv_words(2) [of "''a''" ds acc] assms(2) that by (simp add: net_word_def is_space_def ordc_def)
  ultimately show ?thesis
    using h resolv_names [OF assms(1)] unfolding parse_resolv_def
    by (cases "ds = []") (simp_all del: append.simps add: append_Cons)
qed

lemma hosts_word_line:
  assumes "net_word (he_address e)" "hd (he_address e) \<noteq> HASH" "list_all net_word (he_names e)" "he_names e \<noteq> []"
  shows "hosts_line (he_address e @ [TAB] @ join '' '' (he_names e)) = Some e"
    "list_all (\<lambda>c. \<not> is_linebreak c) (he_address e @ [TAB] @ join '' '' (he_names e))"
proof -
  let ?l = "he_address e @ [TAB] @ join '' '' (he_names e)"
  obtain n ns where n: "he_names e = n # ns" using assms(4) by (cases "he_names e") auto
  have t: "is_space TAB" "\<not> is_linebreak TAB" "is_space (CHR '' '')" "\<not> is_linebreak (CHR '' '')"
    by code_simp+
  have ns: "py_split (join '' '' (he_names e)) = he_names e"
    using assms(3) by (intro py_split_join) (auto simp: net_word_def list_all_iff is_space_def ordc_def)
  have a: "py_split (he_address e) = [he_address e]"
    using assms(1) by (intro py_split_word) (auto simp: net_word_def)
  have p: "py_split ?l = he_address e # he_names e"
    using py_split_sep [OF t(1), of "he_address e" "join '' '' (he_names e)"] a ns by simp
  have h: "?l \<noteq> []" "hd ?l = hd (he_address e)" "\<not> is_space (hd (he_address e))"
    using assms(1) by (auto simp: net_word_def list_all_iff hd_append)
  then have "strip ?l \<noteq> []" using p py_split_empty_iff [of ?l] by auto
  moreover have "\<not> startswith (strip ?l) ''#''"
  proof
    assume "startswith (strip ?l) ''#''"
    then have "hd (strip ?l) = HASH" by (cases "strip ?l") (auto simp: startswith_def)
    moreover obtain x y where "?l = x @ strip ?l @ y" "list_all is_space x" using strip_decomp by blast
    then have "x = [] \<or> is_space (hd ?l)" by (metis hd_append2 list.pred_inject(2) list.collapse)
    ultimately show False
      using h \<open>strip ?l \<noteq> []\<close> \<open>?l = x @ strip ?l @ y\<close> assms(2) by (metis append_Nil hd_append2)
  qed
  ultimately show "hosts_line ?l = Some e"
    using p n by (simp add: hosts_line_def Let_def HostsEntry_def)
  have w: "list_all (\<lambda>c. \<not> is_linebreak c) w" if "net_word w" for w
    using that linebreak_space by (auto simp: net_word_def list_all_iff)
  have "list_all (\<lambda>c. \<not> is_linebreak c) (join '' '' (he_names e))"
    using assms(3) w t by (intro list_all_join) (auto simp: list_all_iff)
  then show "list_all (\<lambda>c. \<not> is_linebreak c) ?l"
    using w [OF assms(1)] t by simp
qed

lemma parse_render_hosts:
  assumes "list_all (\<lambda>e. net_word (he_address e) \<and> hd (he_address e) \<noteq> HASH
      \<and> list_all net_word (he_names e) \<and> he_names e \<noteq> []) es"
  shows "parse_hosts (render_hosts es) = es"
proof -
  let ?f = "\<lambda>e. he_address e @ [TAB] @ join '' '' (he_names e)"
  have hd: "list_all (\<lambda>c. \<not> is_linebreak c) HOSTS_HEADER" "strip HOSTS_HEADER = HOSTS_HEADER"
    "startswith HOSTS_HEADER ''#''" by code_simp+
  have "splitlines (render_hosts es) = HOSTS_HEADER # map ?f es"
    unfolding render_hosts_def
  proof (rule splitlines_join_LF)
    have "list_all (\<lambda>e. list_all (\<lambda>c. \<not> is_linebreak c) (?f e)) es"
      by (rule list.pred_mono_strong [OF assms]) (blast intro: hosts_word_line(2))
    then show "list_all (list_all (\<lambda>c. \<not> is_linebreak c)) (HOSTS_HEADER # map ?f es)"
      using hd(1) by (simp only: list.pred_map list.pred_inject o_def simp_thms)
  qed simp
  moreover have "List.map_filter hosts_line (map ?f es) = es"
    using assms
  proof (induction es)
    case (Cons e es)
    then show ?case using hosts_word_line(1) [of e] by (simp add: map_filter_simps)
  qed (simp add: map_filter_simps)
  moreover have "hosts_line HOSTS_HEADER = None" using hd by (simp add: hosts_line_def Let_def)
  ultimately show ?thesis by (simp add: parse_hosts_def map_filter_simps)
qed

text \<open>The resolver files the backend accepts are read back as they were meant, provided no
  address carries an IPv6 scope: every name server and search domain of \<open>resolv.conf\<close> and
  every entry of \<open>hosts\<close> comes back, in order, and nothing else does.\<close>

theorem resolver_files_roundtrip:
  assumes "valid_resolv ns ds" "\<forall>n \<in> set ns. CHR ''%'' \<notin> set n"
    and "valid_hosts es" "\<forall>e \<in> set es. CHR ''%'' \<notin> set (he_address e)"
  shows "parse_resolv (render_resolv ns ds) = (ns, ds) \<and> parse_hosts (render_hosts es) = es"
proof (rule conjI)
  have "list_all net_word ns" "list_all net_word ds"
    using assms(1,2) plain_addr_word domain_word
    by (auto simp: valid_resolv_def valid_nameserver_def valid_search_domain_def plain_addr_def list_all_iff)
  then show "parse_resolv (render_resolv ns ds) = (ns, ds)" by (rule parse_render_resolv)
  show "parse_hosts (render_hosts es) = es"
    using assms(3,4) plain_addr_word domain_word
    by (intro parse_render_hosts)
      (auto simp: valid_hosts_def valid_hosts_entry_def valid_host_address_def valid_host_name_def
        plain_addr_def list_all_iff)
qed

lemma resolver_files_roundtrip_witness:
  "parse_resolv (render_resolv [''10.0.0.1'', ''fe80::1''] [''lan'', ''example.org''])
     = ([''10.0.0.1'', ''fe80::1''], [''lan'', ''example.org''])
   \<and> parse_hosts (render_hosts [HostsEntry ''10.0.0.1'' [''localhost'', ''box'']])
     = [HostsEntry ''10.0.0.1'' [''localhost'', ''box'']]"
proof -
  let ?ns = "[''10.0.0.1'', ''fe80::1'']" and ?ds = "[''lan'', ''example.org'']"
  let ?es = "[HostsEntry ''10.0.0.1'' [''localhost'', ''box'']]"
  have v4: "ip_address ''10.0.0.1''" by (rule ip_address_octets [of _ 10 0 0 1]) code_simp
  have v6: "ip_address ''fe80::1''" by code_simp
  have ds: "list_all valid_search_domain ?ds" by code_simp
  have r: "valid_resolv ?ns ?ds"
    unfolding valid_resolv_def using v4 v6 ds by (simp add: valid_nameserver_def)
  have ns: "list_all valid_host_name [''localhost'', ''box'']" by code_simp
  have h: "valid_hosts ?es"
    unfolding valid_hosts_def valid_hosts_entry_def
    using v4 ns by (simp add: HostsEntry_def valid_host_address_def)
  have p: "\<forall>n \<in> set ?ns. CHR ''%'' \<notin> set n" "\<forall>e \<in> set ?es. CHR ''%'' \<notin> set (he_address e)"
    by (simp_all add: HostsEntry_def)
  show ?thesis
    using resolver_files_roundtrip [OF r p(1) h p(2)] .
qed

text \<open>The proviso is needed: \<open>ip_address\<close> lets any text stand as the scope of an IPv6
  address, so one accepted name server can hold a line break and be read back as two, and an
  accepted interface address can hold a command substitution, which \<open>/etc/conf.d/net\<close>, sourced
  by a shell, would run.\<close>

theorem scope_injection:
  "valid_resolv [''fe80::1%x'' @ [LF] @ ''nameserver 6.6.6.6''] []
   \<and> parse_resolv (render_resolv [''fe80::1%x'' @ [LF] @ ''nameserver 6.6.6.6''] [])
       = ([''fe80::1%x'', ''6.6.6.6''], [])
   \<and> valid_address ''fe80::1%$(reboot)/64''
   \<and> render_conf_net [] (InterfaceConfig ''eth0'' ''static'' ''fe80::1%$(reboot)/64'' [])
       = ''config_eth0='' @ [DQUOTE] @ ''fe80::1%$(reboot)/64'' @ [DQUOTE, LF]"
proof (intro conjI)
  have p: "is_v6_plain ''fe80::1''" by code_simp
  let ?s = "''x'' @ [LF] @ ''nameserver 6.6.6.6''"
  have "?s \<noteq> []" "CHR ''/'' \<notin> set ?s" "CHR ''%'' \<notin> set ?s" by simp_all
  from ip_address_scope [OF p this]
  show "valid_resolv [''fe80::1%x'' @ [LF] @ ''nameserver 6.6.6.6''] []"
    by (simp add: valid_resolv_def valid_nameserver_def)
  show "parse_resolv (render_resolv [''fe80::1%x'' @ [LF] @ ''nameserver 6.6.6.6''] [])
      = ([''fe80::1%x'', ''6.6.6.6''], [])" by code_simp
  show "valid_address ''fe80::1%$(reboot)/64''" by code_simp
  show "render_conf_net [] (InterfaceConfig ''eth0'' ''static'' ''fe80::1%$(reboot)/64'' [])
      = ''config_eth0='' @ [DQUOTE] @ ''fe80::1%$(reboot)/64'' @ [DQUOTE, LF]" by code_simp
qed

end
