(* ===== verification/NetworkService.thy ===== *)
theory NetworkService
  imports Service Network
begin

text \<open>
  The handler of the root network service (\<open>gest/backend/network.py\<close>) over the methods of
  \<open>Network\<close>: it brings interfaces up and down and writes \<open>conf.d/net\<close>, \<open>resolv.conf\<close> and
  \<open>hosts\<close>. The state is the files and the commands that were run; the run of a command, the
  failing system calls and the temporary names are the fields of \<open>net_env\<close>.
\<close>

record net_state =
  nt_files :: files
  nt_ran :: "string list list"

record net_env =
  ne_fault :: "write_op \<Rightarrow> bool"
  ne_tmp :: string
  ne_partial :: string
  ne_unreadable :: bool
  ne_ip :: string
  ne_run :: "string list \<Rightarrow> int \<times> string \<times> string"

datatype net_call =
    SetLink string bool
  | SetInterfaceConfig string string string string string
  | SetResolvers "string list" "string list" string
  | SetHosts "(string \<times> string list) list" string

fun net_method :: "net_call \<Rightarrow> string" where
  "net_method (SetLink name up) = ''SetLink''"
| "net_method (SetInterfaceConfig name m address gateway root) = ''SetInterfaceConfig''"
| "net_method (SetResolvers nameservers search root) = ''SetResolvers''"
| "net_method (SetHosts entries root) = ''SetHosts''"

fun net_detail :: "net_call \<Rightarrow> string" where
  "net_detail (SetLink name up) = name @ '' '' @ (if up then ''up'' else ''down'')"
| "net_detail (SetInterfaceConfig name m address gateway root) = name @ '' '' @ m @ '' root='' @ root"
| "net_detail (SetResolvers nameservers search root) =
     nat_str (length nameservers) @ '' nameservers root='' @ root"
| "net_detail (SetHosts entries root) = nat_str (length entries) @ '' host entries root='' @ root"

text \<open>\<open>_run\<close>: exit code and both outputs, joined and stripped.\<close>

definition net_run :: "net_env \<Rightarrow> string list \<Rightarrow> net_state \<Rightarrow> net_state \<times> (bool \<times> string) res" where
  "net_run env argv s =
     (case ne_run env argv of (code, stdout, stderr) \<Rightarrow>
        (s\<lparr>nt_ran := nt_ran s @ [argv]\<rparr>,
         Inr (code = 0, strip (stdout @ (if stderr \<noteq> [] then LF # stderr else [])))))"

definition on_files :: "(files \<Rightarrow> files \<times> 'a res) \<Rightarrow> net_state \<Rightarrow> net_state \<times> 'a res" where
  "on_files f s = (case f (nt_files s) of (fs, r) \<Rightarrow> (s\<lparr>nt_files := fs\<rparr>, r))"

definition under_guard :: "string \<Rightarrow> ('s \<Rightarrow> 's \<times> 'a res) \<Rightarrow> 's \<Rightarrow> 's \<times> 'a res" where
  "under_guard root f s = (case guard_config_root root of Inl e \<Rightarrow> (s, Inl e) | Inr _ \<Rightarrow> f s)"

fun net_body :: "net_env \<Rightarrow> net_call \<Rightarrow> net_state \<Rightarrow> net_state \<times> (bool \<times> string) res" where
  "net_body env (SetLink name up) s =
     (case iplink_argv name up (ne_ip env) of Inl e \<Rightarrow> (s, Inl e) | Inr argv \<Rightarrow> net_run env argv s)"
| "net_body env (SetInterfaceConfig name m address gateway root) s =
     under_guard root (on_files (set_interface_config (ne_fault env) (ne_tmp env) (ne_partial env)
       (ne_unreadable env) name m address gateway root)) s"
| "net_body env (SetResolvers nameservers search root) s =
     under_guard root (on_files (set_resolvers (ne_fault env) (ne_tmp env) (ne_partial env) nameservers search root)) s"
| "net_body env (SetHosts entries root) s =
     under_guard root (on_files (set_hosts (ne_fault env) (ne_tmp env) (ne_partial env) entries root)) s"

definition NET_METHODS :: "string list" where
  "NET_METHODS = [''SetLink'', ''SetInterfaceConfig'', ''SetResolvers'', ''SetHosts'']"

definition network_on_call :: "net_env \<Rightarrow> caller \<Rightarrow> net_call \<Rightarrow> net_state world \<Rightarrow> net_state world \<times> reply res" where
  "network_on_call env who call w =
     guarded_call NET_METHODS ''Not authorized to manage network interfaces'' who
       (net_method call) (net_detail call) (net_body env call) w"

section \<open>Confinement\<close>

fun net_root :: "net_call \<Rightarrow> string" where
  "net_root (SetLink name up) = ''/''"
| "net_root (SetInterfaceConfig name m address gateway root) = root"
| "net_root (SetResolvers nameservers search root) = root"
| "net_root (SetHosts entries root) = root"

fun net_managed :: "net_call \<Rightarrow> string set" where
  "net_managed (SetLink name up) = {}"
| "net_managed (SetInterfaceConfig name m address gateway root) = {''/etc/conf.d/net''}"
| "net_managed (SetResolvers nameservers search root) = {''/etc/resolv.conf''}"
| "net_managed (SetHosts entries root) = {''/etc/hosts''}"

text \<open>The content a call puts into its file, once it is accepted.\<close>

fun net_content :: "string \<Rightarrow> net_call \<Rightarrow> string" where
  "net_content current (SetLink name up) = []"
| "net_content current (SetInterfaceConfig name m address gateway root) =
     render_conf_net current (InterfaceConfig name m (if m = ''static'' then address else [])
       (if m = ''static'' then gateway else []))"
| "net_content current (SetResolvers nameservers search root) = render_resolv nameservers search"
| "net_content current (SetHosts entries root) =
     render_hosts (map (\<lambda>(address, names). HostsEntry address names) entries)"

fun net_accepted :: "net_call \<Rightarrow> bool" where
  "net_accepted (SetLink name up) = valid_iface name"
| "net_accepted (SetInterfaceConfig name m address gateway root) =
     (valid_iface name \<and> m \<in> {''dhcp'', ''static'', ''none''} \<and>
      \<not> (m = ''static'' \<and> \<not> (valid_address address \<and> valid_gateway gateway)))"
| "net_accepted (SetResolvers nameservers search root) = valid_resolv nameservers search"
| "net_accepted (SetHosts entries root) =
     valid_hosts (map (\<lambda>(address, names). HostsEntry address names) entries)"

definition net_current :: "net_env \<Rightarrow> net_call \<Rightarrow> files \<Rightarrow> string" where
  "net_current env call fs =
     (if ne_unreadable env then []
      else case fs (resolve (net_root call) ''/etc/conf.d/net'') of None \<Rightarrow> [] | Some (t, m) \<Rightarrow> t)"

lemma set_interface_config_writes:
  assumes "set_interface_config fault tmp partial unreadable i m a g root fs = (fs', r)" "q \<noteq> tmp" "fs' q \<noteq> fs q"
  shows "valid_iface i \<and> m \<in> {''dhcp'', ''static'', ''none''} \<and>
      \<not> (m = ''static'' \<and> \<not> (valid_address a \<and> valid_gateway g)) \<and> q = resolve root ''/etc/conf.d/net'' \<and>
    fs' q = Some (render_conf_net (if unreadable then [] else case fs q of None \<Rightarrow> [] | Some (t, m) \<Rightarrow> t)
      (InterfaceConfig i m (if m = ''static'' then a else []) (if m = ''static'' then g else [])), MODE_644)"
proof -
  define known where "known = (m \<in> {''dhcp'', ''static'', ''none''})"
  define static where "static = (m = ''static'')"
  note d = assms(1) [unfolded set_interface_config_def, folded known_def static_def]
  have ok: "valid_iface i" "known" "\<not> (static \<and> \<not> valid_address a)" "\<not> (static \<and> \<not> valid_gateway g)"
    using d assms(3) by (auto split: if_splits)
  obtain r' where w: "replace_file fault tmp partial (Some MODE_644) (resolve root ''/etc/conf.d/net'')
      (render_conf_net (if unreadable then [] else case fs (resolve root ''/etc/conf.d/net'') of None \<Rightarrow> [] | Some (t, m) \<Rightarrow> t)
         (InterfaceConfig i m (if static then a else []) (if static then g else []))) fs = (fs', r')"
    using d ok by (simp add: net_atomic_write_def Let_def split: prod.splits sum.splits)
  show ?thesis
    using replace_file_frame [OF w assms(2)] assms(3) ok unfolding known_def [symmetric] static_def [symmetric]
    by auto
qed

lemma net_body_writes:
  assumes "net_body env call s = (s', r)" "q \<noteq> ne_tmp env" "nt_files s' q \<noteq> nt_files s q"
  shows "valid_config_root (net_root call) \<and> net_accepted call \<and> q \<in> resolve (net_root call) ` net_managed call \<and>
    nt_files s' q = Some (net_content (net_current env call (nt_files s)) call, MODE_644)"
proof -
  note defs = under_guard_def guard_config_root_def on_files_def net_atomic_write_def Let_def
  show ?thesis
  proof (cases call)
    case (SetLink name up)
    then show ?thesis
      using assms by (auto simp: net_run_def split: sum.splits prod.splits)
  next
    case (SetInterfaceConfig name m address gateway root)
    from assms(1,3) have g: "valid_config_root root"
      and c: "set_interface_config (ne_fault env) (ne_tmp env) (ne_partial env) (ne_unreadable env) name m address gateway
        root (nt_files s) = (nt_files s', r)"
      unfolding SetInterfaceConfig by (auto simp: defs split: if_splits prod.splits)
    note w = set_interface_config_writes [OF c assms(2,3)]
    note w1 = w [THEN conjunct1] and w2 = w [THEN conjunct2, THEN conjunct1]
      and w3 = w [THEN conjunct2, THEN conjunct2, THEN conjunct1]
      and w4 = w [THEN conjunct2, THEN conjunct2, THEN conjunct2, THEN conjunct1]
      and w5 = w [THEN conjunct2, THEN conjunct2, THEN conjunct2, THEN conjunct2]
    have q: "q \<in> resolve root ` {''/etc/conf.d/net''}" using w4 by simp
    have w6: "nt_files s' q = Some (render_conf_net (if ne_unreadable env then []
        else case nt_files s (resolve root ''/etc/conf.d/net'') of None \<Rightarrow> [] | Some (t, m) \<Rightarrow> t)
      (InterfaceConfig name m (if m = ''static'' then address else []) (if m = ''static'' then gateway else [])), MODE_644)"
      using w5 by (simp only: w4)
    show ?thesis
      unfolding SetInterfaceConfig net_root.simps net_managed.simps net_content.simps net_accepted.simps net_current_def
      by (intro conjI) (fact g w1 w2 w3 q w6)+
  next
    case (SetResolvers nameservers search root)
    then show ?thesis
      using assms
      by (auto simp: defs set_resolvers_def split: if_splits prod.splits sum.splits
          dest!: replace_file_frame [OF _ assms(2)])
  next
    case (SetHosts entries root)
    then show ?thesis
      using assms
      by (auto simp: defs set_hosts_def split: if_splits prod.splits sum.splits
          dest!: replace_file_frame [OF _ assms(2)])
  qed
qed

interpretation network: root_service "net_body env" "\<lambda>s. nt_files s" net_root net_managed "\<lambda>_. {ne_tmp env}" for env
  by unfold_locales (use net_body_writes in blast)

text \<open>Whatever a caller of the network service sends, a file other than the temporary one
  changes only when polkit authorised the call, its arguments passed the validators and its root
  the guard; it is then the one file the method manages, under that root, and holds the rendered
  configuration with mode 0644. Bringing a link up or down changes no file.\<close>

theorem network_service_confined:
  assumes "network_on_call env who call w = (w', r)" "q \<noteq> ne_tmp env"
    "nt_files (wd_state w') q \<noteq> nt_files (wd_state w) q"
  shows "cl_authorized who \<and> valid_config_root (net_root call) \<and> net_accepted call \<and>
    q \<in> resolve (net_root call) ` net_managed call \<and>
    nt_files (wd_state w') q = Some (net_content (net_current env call (nt_files (wd_state w))) call, MODE_644)"
proof -
  have a: "cl_authorized who"
    using network.call_confined [OF assms(1) [unfolded network_on_call_def]] assms(2,3) by simp
  have "net_body env call (wd_state w) = (wd_state w', snd (net_body env call (wd_state w)))"
    using guarded_call_state [OF assms(1) [unfolded network_on_call_def]] assms(3)
    by (auto split: if_splits)
  from net_body_writes [OF this assms(2,3)] a show ?thesis by blast
qed

definition calm_net_env :: net_env where
  "calm_net_env = \<lparr>ne_fault = (\<lambda>_. False), ne_tmp = ''/tmp/.gest.x'', ne_partial = [], ne_unreadable = False,
     ne_ip = ''ip'', ne_run = (\<lambda>_. (0, [], []))\<rparr>"

lemma network_service_confined_witness:
  "\<exists>w' :: net_state world. nt_files (wd_state w') ''/etc/conf.d/net''
     = Some (render_conf_net [] (InterfaceConfig ''eth0'' ''dhcp'' [] []), MODE_644)"
proof -
  let ?call = "SetInterfaceConfig ''eth0'' ''dhcp'' [] [] ''/''"
  let ?who = "\<lparr>cl_authorized = True, cl_uid = Some 1000\<rparr>"
  let ?w = "\<lparr>wd_state = \<lparr>nt_files = (\<lambda>_. None), nt_ran = []\<rparr>, wd_audit = []\<rparr> :: net_state world"
  have v: "valid_iface ''eth0''" "valid_config_root ''/''" by code_simp+
  have q: "''/etc/conf.d/net'' \<noteq> ne_tmp calm_net_env" by (simp add: calm_net_env_def)
  obtain w' r where c: "network_on_call calm_net_env ?who ?call ?w = (w', r)"
    by (cases "network_on_call calm_net_env ?who ?call ?w") auto
  have "nt_files (wd_state w') ''/etc/conf.d/net'' \<noteq> nt_files (wd_state ?w) ''/etc/conf.d/net''"
    using c by (auto simp: network_on_call_def guarded_call_def NET_METHODS_def under_guard_def
        guard_config_root_def v on_files_def set_interface_config_def net_atomic_write_def replace_file_def
        calm_net_env_def resolve_def Let_def)
  from network_service_confined [OF c q this] show ?thesis
    by (intro exI [of _ w']) (simp add: net_current_def calm_net_env_def)
qed

end
