(* ===== verification/Settings.thy ===== *)
theory Settings
  imports Regex "HOL-Library.List_Lexorder" "HOL-Library.Char_ord"
begin

text \<open>
  The system settings (\<open>gest/core/system\<close>): host name, locale, time zone, console keymap
  and font. Validators are anchored patterns. The OpenRC \<open>conf.d\<close> readers search for
  \<open>^\s*KEY\s*=\s*"?([^"\n#]+?)"?\s*(?:#.*)?$\<close> in multi-line mode; \<open>value_after\<close> is that
  pattern after the equals sign, with its backtracking written out, and \<open>conf_value\<close> the
  search over the line starts. Files, directory listings and \<open>realpath\<close> are arguments.
\<close>

section \<open>The conf.d value pattern\<close>

text \<open>\<open>"?\s*(?:#.*)?$\<close>: what may follow the value.\<close>

definition blank_tail :: "string \<Rightarrow> bool" where
  "blank_tail s =
     (let r = dropWhile is_space s
      in LF \<in> set (takeWhile is_space s) \<or> r = [] \<or> hd r = HASH)"

definition value_tail :: "string \<Rightarrow> bool" where
  "value_tail s = ((s \<noteq> [] \<and> hd s = DQUOTE \<and> blank_tail (tl s)) \<or> blank_tail s)"

definition conf_char :: "char \<Rightarrow> bool" where
  "conf_char c = (c \<noteq> DQUOTE \<and> c \<noteq> LF \<and> c \<noteq> HASH)"

text \<open>\<open>([^"\n#]+?)\<close> before such a tail: the shortest one.\<close>

definition lazy_value :: "string \<Rightarrow> string option" where
  "lazy_value s =
     map_option (\<lambda>n. take n s)
       (find (\<lambda>n. value_tail (drop n s)) [1..<Suc (length (takeWhile conf_char s))])"

text \<open>The white space after the equals sign is greedy, and gives characters back if it must.\<close>

definition value_after :: "string \<Rightarrow> string option" where
  "value_after s =
     (let try = (\<lambda>r. if r \<noteq> [] \<and> hd r = DQUOTE then lazy_value (tl r) else lazy_value r)
      in case List.find (\<lambda>k. try (drop k s) \<noteq> None) (rev [0..<Suc (length (takeWhile is_space s))]) of
           None \<Rightarrow> None | Some k \<Rightarrow> try (drop k s))"

text \<open>\<open>^\s*KEY\s*=\<close> at the start of a line: what follows the equals sign.\<close>

definition assigned_at :: "string \<Rightarrow> string \<Rightarrow> string option" where
  "assigned_at key s =
     (let t = lstrip s; u = lstrip (drop (length key) t)
      in if startswith t key \<and> startswith u ''='' then Some (tl u) else None)"

text \<open>The suffixes of a text that start a line, as \<open>^\<close> finds them, and the first that matches.\<close>

fun tails_after_LF :: "string \<Rightarrow> string list" where
  "tails_after_LF [] = []"
| "tails_after_LF (c # s) = (if c = LF then s # tails_after_LF s else tails_after_LF s)"

definition line_starts :: "string \<Rightarrow> string list" where
  "line_starts s = s # tails_after_LF s"

definition conf_value :: "string \<Rightarrow> string \<Rightarrow> string option" where
  "conf_value key s =
     (let at = (\<lambda>t. Option.bind (assigned_at key t) value_after)
      in Option.bind (List.find (\<lambda>t. at t \<noteq> None) (line_starts s)) at)"

definition parse_conf_value :: "string \<Rightarrow> string \<Rightarrow> string" where
  "parse_conf_value s key = (case conf_value key s of None \<Rightarrow> [] | Some v \<Rightarrow> strip v)"

section \<open>gest.core.system.hostname\<close>

definition ldh_hyphen :: "char \<Rightarrow> bool" where
  "ldh_hyphen c = (alnum_az c \<or> c = CHR ''-'')"

definition HOST_LABEL :: rx where
  "HOST_LABEL = Seq (Cls alnum_az) (Opt (Seq (UpTo 61 (Cls ldh_hyphen)) (Cls alnum_az)))"

definition HOSTNAME_RE :: rx where
  "HOSTNAME_RE = Seq HOST_LABEL (Star (Seq (lit ''.'') HOST_LABEL))"

definition valid_hostname :: "string \<Rightarrow> bool" where
  "valid_hostname name = (name \<noteq> [] \<and> length name \<le> 253 \<and> fullmatch HOSTNAME_RE name)"

definition parse_conf_hostname :: "string \<Rightarrow> string" where
  "parse_conf_hostname s = parse_conf_value s ''hostname''"

definition render_conf_hostname :: "string \<Rightarrow> string" where
  "render_conf_hostname name = ''hostname='' @ [DQUOTE] @ name @ [DQUOTE, LF]"

text \<open>The file, if it can be read, and what \<open>socket.gethostname()\<close> says.\<close>

definition current_hostname :: "string option \<Rightarrow> string \<Rightarrow> string" where
  "current_hostname conf live =
     (case conf of None \<Rightarrow> live
      | Some s \<Rightarrow> (let name = parse_conf_hostname s in if name \<noteq> [] then name else live))"

section \<open>gest.core.system.locale\<close>

definition locale_char :: "char \<Rightarrow> bool" where
  "locale_char c = (alnum_az c \<or> c \<in> set ''._@-'')"

definition valid_locale :: "string \<Rightarrow> bool" where
  "valid_locale name = (name \<noteq> [] \<and> fullmatch (Plus (Cls locale_char)) name)"

definition parse_lang :: "string \<Rightarrow> string" where
  "parse_lang s = parse_conf_value s ''LANG''"

definition list_locales :: "string \<Rightarrow> string list" where
  "list_locales output = sort (remdups (filter (\<lambda>l. l \<noteq> []) (map strip (splitlines output))))"

definition canonical_key :: "string \<Rightarrow> string \<times> string" where
  "canonical_key name =
     (before_char (CHR ''.'') name,
      filter (\<lambda>c. c \<noteq> CHR ''-'' \<and> c \<noteq> CHR ''_'') (lower (after_char (CHR ''.'') name)))"

definition match_in :: "string \<Rightarrow> string list \<Rightarrow> string" where
  "match_in name choices =
     (case List.find (\<lambda>choice. canonical_key choice = canonical_key name) choices of
        None \<Rightarrow> name | Some choice \<Rightarrow> choice)"

text \<open>\<open>enc.upper()\<close> is used on a charset name; ASCII letters only.\<close>

definition locale_gen_line :: "string \<Rightarrow> string option" where
  "locale_gen_line name =
     (let base = before_char (CHR ''.'') name; enc = after_char (CHR ''.'') name
      in if base = ''C'' \<or> base = ''POSIX'' \<or> enc = [] then None
         else
           (let charmap = (if filter (\<lambda>c. c \<noteq> CHR ''-'') (lower enc) = ''utf8'' then ''UTF-8''
                           else ascii_upper enc)
            in Some (base @ ''.'' @ charmap @ '' '' @ charmap)))"

fun current_locale :: "string option list \<Rightarrow> string" where
  "current_locale [] = []"
| "current_locale (None # files) = current_locale files"
| "current_locale (Some s # files) =
     (let lang = parse_lang s in if lang \<noteq> [] then lang else current_locale files)"

section \<open>gest.core.system.timezone\<close>

definition zone_char :: "char \<Rightarrow> bool" where
  "zone_char c = (alnum_az c \<or> c \<in> set ''_+-'')"

definition ZONE_PART :: rx where
  "ZONE_PART = Seq (Cls alnum_az) (Star (Cls zone_char))"

definition ZONE_RE :: rx where
  "ZONE_RE = Seq ZONE_PART (Star (Seq (lit ''/'') ZONE_PART))"

definition valid_zone_name :: "string \<Rightarrow> bool" where
  "valid_zone_name zone = (fullmatch ZONE_RE zone \<and> \<not> contains ''..'' zone)"

definition SKIP_DIRS :: "string list" where
  "SKIP_DIRS = [''posix'', ''right'']"

definition upper_first :: "string \<Rightarrow> bool" where
  "upper_first s = (s \<noteq> [] \<and> (let n = ordc (hd s) in (65 \<le> n \<and> n \<le> 90) \<or> (192 \<le> n \<and> n \<le> 222 \<and> n \<noteq> 215)))"

text \<open>
  The walk is given as the list of the files below the root, each with the components of its
  directory and its name.
\<close>

definition list_zones :: "(string list \<times> string) list \<Rightarrow> string list" where
  "list_zones tree =
     sort (remdups (List.map_filter (\<lambda>(dir, name).
       let zone = join ''/'' (dir @ [name])
       in if dir \<noteq> [] \<and> hd dir \<in> set SKIP_DIRS then None
          else if CHR ''.'' \<in> set name \<or> \<not> upper_first name then None
          else if valid_zone_name zone then Some zone else None) tree))"

text \<open>
  \<open>/etc/timezone\<close> if it can be read, else where \<open>/etc/localtime\<close> and the zone directory
  really are (None where \<open>realpath\<close> raises).
\<close>

definition current_timezone :: "string option \<Rightarrow> (string \<times> string) option \<Rightarrow> string" where
  "current_timezone file real =
     (let line = (case file of None \<Rightarrow> []
                  | Some s \<Rightarrow> (case splitlines (strip s) of [] \<Rightarrow> [] | l # ls \<Rightarrow> strip l));
          linked = (case real of None \<Rightarrow> []
            | Some (target, root) \<Rightarrow>
                if startswith target (root @ ''/'')
                then (let zone = drop (length root + 1) target
                      in if valid_zone_name zone then zone else [])
                else [])
      in if line \<noteq> [] then line else linked)"

section \<open>gest.core.system.console\<close>

definition token_char :: "char \<Rightarrow> bool" where
  "token_char c = (alnum_az c \<or> c \<in> set ''._-'')"

definition TOKEN_RE :: rx where
  "TOKEN_RE = Seq (Cls alnum_az) (Star (Cls token_char))"

definition KEYMAPS_CONF :: string where
  "KEYMAPS_CONF = ''/etc/conf.d/keymaps''"

definition CONSOLEFONT_CONF :: string where
  "CONSOLEFONT_CONF = ''/etc/conf.d/consolefont''"

definition KEYMAP_SUFFIXES :: "string list" where
  "KEYMAP_SUFFIXES = [''.map.gz'', ''.kmap.gz'', ''.map'', ''.kmap'']"

definition FONT_SUFFIXES :: "string list" where
  "FONT_SUFFIXES = [''.psfu.gz'', ''.psf.gz'', ''.fnt.gz'', ''.psfu'', ''.psf'', ''.fnt'', ''.gz'']"

definition valid_keymap :: "string \<Rightarrow> bool" where
  "valid_keymap name = (fullmatch TOKEN_RE name \<and> length name \<le> 64)"

definition valid_font :: "string \<Rightarrow> bool" where
  "valid_font name = (fullmatch TOKEN_RE name \<and> length name \<le> 64)"

definition conf_line :: "string \<Rightarrow> string \<Rightarrow> string" where
  "conf_line key v = key @ ''='' @ [DQUOTE] @ v @ [DQUOTE]"

text \<open>\<open>^\s*KEY\s*=.*$\<close>: the first match is replaced by the line, or the line is added at the end.\<close>

definition set_conf_value :: "string \<Rightarrow> string \<Rightarrow> string \<Rightarrow> string" where
  "set_conf_value s key v =
     (case List.find (\<lambda>t. assigned_at key t \<noteq> None) (line_starts s) of
        Some t \<Rightarrow> take (length s - length t) s @ conf_line key v
                   @ dropWhile (\<lambda>c. c \<noteq> LF) (the (assigned_at key t))
      | None \<Rightarrow> s @ (if s = [] \<or> endswith s [LF] then [] else [LF]) @ conf_line key v @ [LF])"

definition current_keymap :: "string option \<Rightarrow> string" where
  "current_keymap conf = (case conf of None \<Rightarrow> [] | Some s \<Rightarrow> parse_conf_value s ''keymap'')"

definition current_font :: "string option \<Rightarrow> string" where
  "current_font conf = (case conf of None \<Rightarrow> [] | Some s \<Rightarrow> parse_conf_value s ''consolefont'')"

fun strip_suffix :: "string \<Rightarrow> string list \<Rightarrow> string" where
  "strip_suffix name [] = name"
| "strip_suffix name (sfx # sfxs) =
     (if endswith name sfx then take (length name - length sfx) name else strip_suffix name sfxs)"

definition list_names :: "string list \<Rightarrow> string list \<Rightarrow> (string \<Rightarrow> bool) \<Rightarrow> string list" where
  "list_names filenames sfxs valid =
     sort (remdups (filter (\<lambda>n. n \<noteq> [] \<and> valid n) (map (\<lambda>f. strip_suffix f sfxs) filenames)))"

definition list_keymaps :: "string list \<Rightarrow> string list" where
  "list_keymaps filenames = list_names filenames KEYMAP_SUFFIXES valid_keymap"

definition list_fonts :: "string list \<Rightarrow> string list" where
  "list_fonts filenames = list_names filenames FONT_SUFFIXES valid_font"


section \<open>A stored value is read back\<close>

definition key_word :: "string \<Rightarrow> bool" where
  "key_word key = (key \<noteq> [] \<and> list_all (\<lambda>c. \<not> is_space c \<and> c \<noteq> CHR ''='') key)"

definition value_word :: "string \<Rightarrow> bool" where
  "value_word v = (v \<noteq> [] \<and> list_all (\<lambda>c. \<not> is_space c \<and> conf_char c) v)"

lemma key_word_LF: "key_word key \<Longrightarrow> LF \<notin> set key"
proof
  assume "key_word key" "LF \<in> set key"
  then have "\<not> is_space LF" unfolding key_word_def list_all_iff by blast
  then show False by simp
qed

lemma last_dropWhile_eq: "dropWhile P xs \<noteq> [] \<Longrightarrow> last (dropWhile P xs) = last xs"
  by (induction xs) (auto split: if_splits)

lemma lazy_value_word:
  assumes "value_word v" "value_tail rest"
  shows "lazy_value (v @ rest) = Some v"
proof -
  let ?s = "v @ rest"
  have n: "\<not> value_tail (drop n ?s)" if "n < length v" for n
  proof -
    have d: "drop n ?s \<noteq> []" "hd (drop n ?s) = v ! n"
      using that by (simp_all add: hd_append hd_drop_conv_nth)
    from that assms(1) have c: "\<not> is_space (v ! n)" "conf_char (v ! n)"
      by (auto simp: value_word_def list_all_length)
    obtain x xs where x: "drop n ?s = x # xs" using d(1) by (cases "drop n ?s") auto
    with d(2) have "x = v ! n" by simp
    with x c show ?thesis
      by (auto simp: value_tail_def blank_tail_def conf_char_def)
  qed
  have "takeWhile conf_char (v @ rest) = v @ takeWhile conf_char rest"
    using assms(1) by (intro takeWhile_append2) (simp add: value_word_def list_all_iff)
  then have l: "length (takeWhile conf_char ?s) = length v + length (takeWhile conf_char rest)"
    by simp
  have v: "v \<noteq> []" using assms(1) by (simp add: value_word_def)
  have u: "[1..<Suc (length v + m)] = [1..<length v] @ [length v] @ [Suc (length v)..<Suc (length v + m)]" for m
    using v upt_add_eq_append [of 1 "length v" "Suc m"] by (cases v) (simp_all add: upt_conv_Cons)
  have "find (\<lambda>n. value_tail (drop n ?s)) [1..<length v] = None"
    using n by (auto simp: find_None_iff)
  then have "find (\<lambda>n. value_tail (drop n ?s)) ([1..<length v] @ [length v] @ ns) = Some (length v)" for ns
    unfolding find_append using assms(2) by simp
  then show ?thesis unfolding lazy_value_def l u by simp
qed

lemma value_tail_end: "rest = [] \<or> hd rest = LF \<Longrightarrow> value_tail (DQUOTE # rest)" "value_tail (LF # r)"
  by (cases rest; simp add: value_tail_def blank_tail_def) (simp add: value_tail_def blank_tail_def)

lemma value_after_line:
  assumes "value_word v" "rest = [] \<or> hd rest = LF"
  shows "value_after (DQUOTE # v @ DQUOTE # rest) = Some v"
  using lazy_value_word [OF assms(1) value_tail_end(1) [OF assms(2)]] by (simp add: value_after_def)

lemma value_after_bare:
  assumes "value_word v"
  shows "value_after (v @ [LF]) = Some v"
proof -
  obtain c t where c: "v = c # t" "\<not> is_space c" "c \<noteq> DQUOTE"
    using assms by (cases v) (auto simp: value_word_def conf_char_def)
  then show ?thesis
    using lazy_value_word [OF assms value_tail_end(2), of "[]"] by (simp add: value_after_def)
qed

lemma lstrip_append: "lstrip (u @ x) = (if list_all is_space u then lstrip x else lstrip u @ x)"
  by (induction u) (simp_all add: lstrip_def)

lemma startswith_head: "s \<noteq> [] \<Longrightarrow> startswith (s @ y) [c] \<longleftrightarrow> startswith s [c]"
  by (cases s) (auto simp: startswith_def)

lemma lstrip_space_Nil: "lstrip [LF] = []"
  by (simp add: lstrip_def)

lemma lstrip_ne: "\<not> list_all is_space d \<Longrightarrow> lstrip d \<noteq> []"
  by (simp add: lstrip_def list_all_iff)

lemma lstrip_nonspace: "s \<noteq> [] \<Longrightarrow> \<not> is_space (hd s) \<Longrightarrow> lstrip s = s"
  by (cases s) (simp_all add: lstrip_def)

lemma assigned_line: "key_word key \<Longrightarrow> assigned_at key (conf_line key v @ rest) = Some (DQUOTE # v @ DQUOTE # rest)"
proof -
  assume k: "key_word key"
  have "lstrip (key @ s) = key @ s" for s
    using k by (intro lstrip_nonspace) (auto simp: key_word_def list_all_iff hd_append)
  moreover have "lstrip (CHR ''='' # s) = CHR ''='' # s" for s by (simp add: lstrip_nonspace)
  ultimately show ?thesis
    by (simp add: assigned_at_def conf_line_def startswith_def Let_def)
qed

text \<open>A line start before the stored line: either it found no assignment, or it is followed by
  blank lines only and reaches the stored line itself.\<close>

lemma assigned_before:
  assumes k: "key_word key" and u: "u \<noteq> []" "last u = LF" and n: "assigned_at key (u @ t) = None"
    and x: "x \<noteq> []" "\<not> is_space (hd x)" "hd x \<noteq> CHR ''=''"
  shows "assigned_at key (u @ x) = None \<or> (list_all is_space u \<and> assigned_at key (u @ x) = assigned_at key x)"
proof (cases "list_all is_space u")
  case True
  then show ?thesis by (simp add: assigned_at_def lstrip_append)
next
  case False
  let ?w = "lstrip u"
  have w: "lstrip (u @ y) = ?w @ y" for y using False by (simp add: lstrip_append)
  have "?w \<noteq> []" using False by (simp add: lstrip_def dropWhile_eq_Nil_conv list_all_iff)
  moreover from this have "last ?w = last u"
    unfolding lstrip_def by (rule last_dropWhile_eq)
  ultimately have lw: "?w \<noteq> [] \<and> last ?w = LF"
    using u(2) by simp
  have nl: "LF \<notin> set key" using k by (rule key_word_LF)
  have p: "prefix key (?w @ y) \<longleftrightarrow> prefix key ?w" for y
  proof
    assume a: "prefix key (?w @ y)"
    show "prefix key ?w"
    proof (cases "length key \<le> length ?w")
      case True
      then show ?thesis using a by (metis append_prefixD prefix_length_prefix prefix_append prefix_order.order_refl)
    next
      case False
      then have "prefix ?w key" using a by (meson linear prefix_length_prefix prefix_order.order_refl prefixI)
      then have "set ?w \<subseteq> set key" by (rule set_mono_prefix)
      moreover have "last ?w \<in> set ?w" using lw by (intro last_in_set) simp
      ultimately have "last ?w \<in> set key" by blast
      then show ?thesis using lw nl by simp
    qed
  qed simp
  show ?thesis
  proof (cases "prefix key ?w")
    case False
    then show ?thesis using p w by (simp add: assigned_at_def startswith_def)
  next
    case True
    then have d: "drop (length key) (?w @ y) = drop (length key) ?w @ y" for y
      using prefix_length_le by fastforce
    let ?d = "drop (length key) ?w"
    show ?thesis
    proof (cases "list_all is_space ?d")
      case True
      then have "lstrip (?d @ x) = x" using x by (simp add: lstrip_append lstrip_nonspace)
      then have "assigned_at key (u @ x) = None"
        using x(3) w d by (cases x) (simp_all add: assigned_at_def startswith_def)
      then show ?thesis by simp
    next
      case False
      have e: "lstrip (?d @ y) = lstrip ?d @ y" for y using False by (simp add: lstrip_append)
      have h: "startswith (lstrip ?d @ y) ''='' \<longleftrightarrow> startswith (lstrip ?d) ''=''" for y
        using lstrip_ne [OF False] by (rule startswith_head)
      have "assigned_at key (u @ x) = None"
        using n h p True unfolding assigned_at_def Let_def w d e startswith_def by (simp split: if_splits)
      then show ?thesis by simp
    qed
  qed
qed

lemma line_starts_append:
  "a = [] \<or> last a = LF \<Longrightarrow> line_starts (a @ x) = map (\<lambda>u. u @ x) (butlast (line_starts a)) @ line_starts x"
proof -
  have t: "last a = LF \<Longrightarrow> a \<noteq> [] \<Longrightarrow>
      tails_after_LF a \<noteq> [] \<and> tails_after_LF (a @ x) = map (\<lambda>u. u @ x) (butlast (tails_after_LF a)) @ x # tails_after_LF x"
    for a
  proof (induction a)
    case (Cons c a)
    then show ?case by (cases "a = []") auto
  qed simp
  assume "a = [] \<or> last a = LF"
  then show ?thesis using t [of a] by (cases "a = []") (simp_all add: line_starts_def)
qed

lemma line_starts_suffix:
  "t \<in> set (line_starts s) \<Longrightarrow> \<exists>a. s = a @ t \<and> (a = [] \<or> last a = LF)"
proof -
  have "t \<in> set (tails_after_LF s) \<Longrightarrow> \<exists>a. s = a @ t \<and> a \<noteq> [] \<and> last a = LF"
  proof (induction s)
    case (Cons c s)
    show ?case
    proof (cases "c = LF \<and> t = s")
      case True
      then show ?thesis by (intro exI [of _ "[c]"]) simp
    next
      case False
      with Cons obtain a where "s = a @ t" "a \<noteq> []" "last a = LF" by (auto split: if_splits)
      then show ?thesis by (intro exI [of _ "c # a"]) simp
    qed
  qed simp
  then show "t \<in> set (line_starts s) \<Longrightarrow> ?thesis" by (auto simp: line_starts_def)
qed

lemma line_starts_butlast:
  "u \<in> set (butlast (line_starts a)) \<Longrightarrow> a = [] \<or> last a = LF \<Longrightarrow> u \<noteq> [] \<and> last u = LF"
proof -
  have "last a = LF \<Longrightarrow> u \<in> set (butlast (tails_after_LF a)) \<Longrightarrow> u \<noteq> [] \<and> last u = LF" for a
    by (induction a) (auto split: if_splits dest: in_set_butlastD)
  then show "u \<in> set (butlast (line_starts a)) \<Longrightarrow> a = [] \<or> last a = LF \<Longrightarrow> ?thesis"
    by (cases "a = []") (auto simp: line_starts_def split: if_splits)
qed

lemma line_starts_decreasing:
  "i < j \<Longrightarrow> j < length (line_starts s) \<Longrightarrow> length (line_starts s ! j) < length (line_starts s ! i)"
proof -
  have "sorted_wrt (\<lambda>a b. length b < length a) (line_starts s)"
  proof -
    have l: "t \<in> set (tails_after_LF s) \<Longrightarrow> length t < length s" for t s
      by (induction s) (auto split: if_splits dest: less_SucI)
    have "sorted_wrt (\<lambda>a b. length b < length a) (tails_after_LF s)" for s
      by (induction s) (auto dest: l)
    then show ?thesis using l by (auto simp: line_starts_def)
  qed
  then show "i < j \<Longrightarrow> j < length (line_starts s) \<Longrightarrow> length (line_starts s ! j) < length (line_starts s ! i)"
    by (rule sorted_wrt_nth_less)
qed

lemma hd_dropWhile_LF: "dropWhile (\<lambda>c. c \<noteq> LF) s = [] \<or> hd (dropWhile (\<lambda>c. c \<noteq> LF) s) = LF"
  using hd_dropWhile [of "\<lambda>c. c \<noteq> LF" s] by auto

lemma assigned_extend:
  assumes "key_word key" "assigned_at key (w @ [LF]) = Some r"
  shows "\<exists>r. assigned_at key w = Some r"
proof -
  have nl: "LF \<notin> set key" using assms(1) by (rule key_word_LF)
  have ne: "key \<noteq> []" using assms(1) by (simp add: key_word_def)
  have p: "prefix key (lstrip (w @ [LF]))" "startswith (lstrip (drop (length key) (lstrip (w @ [LF])))) ''=''"
    using assms(2) unfolding assigned_at_def startswith_def Let_def
    by (cases "prefix key (lstrip (w @ [LF]))"; simp split: if_splits)+
  have "\<not> list_all is_space w"
  proof
    assume "list_all is_space w"
    then have "lstrip (w @ [LF]) = []" by (simp add: lstrip_append) (simp add: lstrip_def)
    then show False using p(1) ne by simp
  qed
  then have w: "lstrip (w @ [LF]) = lstrip w @ [LF]" by (simp add: lstrip_append)
  have k: "prefix key (lstrip w)"
    using p(1) nl unfolding w by (auto simp: prefix_snoc)
  then have "drop (length key) (lstrip w @ [LF]) = drop (length key) (lstrip w) @ [LF]"
    using prefix_length_le by fastforce
  moreover have "startswith (lstrip dd) ''=''" if "startswith (lstrip (dd @ [LF])) ''=''" for dd
  proof (cases "list_all is_space dd")
    case True
    then have "lstrip (dd @ [LF]) = []" by (simp only: lstrip_append lstrip_space_Nil if_True)
    with that show ?thesis by (simp add: startswith_def)
  next
    case False
    then have "lstrip (dd @ [LF]) = lstrip dd @ [LF]" by (simp only: lstrip_append if_False)
    with that show ?thesis using startswith_head [OF lstrip_ne [OF False]] by simp
  qed
  ultimately have "startswith (lstrip (drop (length key) (lstrip w))) ''=''"
    using p(2) unfolding w by simp
  with k show ?thesis by (simp add: assigned_at_def startswith_def Let_def)
qed

text \<open>The text that \<open>set_conf_value\<close> makes: the stored line at a line start, no assignment of the
  key at an earlier one, and a line end after it.\<close>

lemma set_conf_value_shape:
  assumes k: "key_word key"
  obtains a rest where "set_conf_value s key v = a @ conf_line key v @ rest"
    "a = [] \<or> last a = LF" "rest = [] \<or> hd rest = LF"
    "\<And>u. u \<in> set (butlast (line_starts a)) \<Longrightarrow> \<exists>t. assigned_at key (u @ t) = None"
proof (cases "List.find (\<lambda>t. assigned_at key t \<noteq> None) (line_starts s)")
  case None
  let ?a = "s @ (if s = [] \<or> endswith s [LF] then [] else [LF])"
  have n: "\<forall>t \<in> set (line_starts s). assigned_at key t = None"
    using None by (auto simp: find_None_iff)
  have l: "?a = [] \<or> last ?a = LF" by (auto simp: endswith_def suffix_def)
  have "\<exists>t. assigned_at key (u @ t) = None" if u: "u \<in> set (butlast (line_starts ?a))" for u
  proof (cases "s = [] \<or> endswith s [LF]")
    case True
    then have "u \<in> set (line_starts s)" using u by (auto dest: in_set_butlastD)
    then show ?thesis using n by (intro exI [of _ "[]"]) simp
  next
    case False
    have "tails_after_LF (s @ [LF]) = map (\<lambda>w. w @ [LF]) (tails_after_LF s) @ [[]]" for s
      by (induction s) auto
    then have "butlast (line_starts ?a) = map (\<lambda>w. w @ [LF]) (line_starts s)"
      using False by (simp add: line_starts_def)
    then obtain w where w: "w \<in> set (line_starts s)" "u = w @ [LF]" using u by auto
    have "assigned_at key (w @ [LF]) = None"
    proof (rule ccontr)
      assume "assigned_at key (w @ [LF]) \<noteq> None"
      moreover have "assigned_at key w = None" using n w(1) by simp
      ultimately show False using assigned_extend [OF k, of w] by auto
    qed
    then show ?thesis using w(2) by (intro exI [of _ "[]"]) simp
  qed
  then show ?thesis
    using that [of ?a "[LF]"] l None by (simp add: set_conf_value_def)
next
  case (Some t)
  then obtain i where i: "i < length (line_starts s)" "t = line_starts s ! i" "assigned_at key t \<noteq> None"
    "\<forall>j<i. assigned_at key (line_starts s ! j) = None"
    by (auto simp: find_Some_iff)
  then obtain a where a: "s = a @ t" "a = [] \<or> last a = LF"
    using line_starts_suffix [of t s] by auto
  have ls: "line_starts s = map (\<lambda>u. u @ t) (butlast (line_starts a)) @ line_starts t"
    using line_starts_append [OF a(2)] a(1) by simp
  have "\<exists>t. assigned_at key (u @ t) = None" if u: "u \<in> set (butlast (line_starts a))" for u
  proof -
    obtain j where j: "j < length (butlast (line_starts a))" "u = butlast (line_starts a) ! j"
      using u by (auto simp: in_set_conv_nth)
    have e: "line_starts s ! j = u @ t" using j ls by (simp add: nth_append)
    have "u \<noteq> []" using line_starts_butlast [OF u a(2)] by simp
    have "j < i"
    proof (rule ccontr)
      assume "\<not> j < i"
      then have "i = j \<or> i < j" by auto
      moreover have "j < length (line_starts s)" using j(1) ls by simp
      ultimately have "length (line_starts s ! j) \<le> length (line_starts s ! i)"
        using line_starts_decreasing [of i j s] by fastforce
      then show False using e i(2) \<open>u \<noteq> []\<close> by simp
    qed
    then have "assigned_at key (u @ t) = None" using i(4) e by metis
    then show ?thesis by blast
  qed
  moreover have "take (length s - length t) s = a" using a(1) by simp
  moreover from this have "set_conf_value s key v = a @ conf_line key v @ dropWhile (\<lambda>c. c \<noteq> LF) (the (assigned_at key t))"
    unfolding set_conf_value_def Some by simp
  ultimately show ?thesis
    using that a(2) hd_dropWhile_LF by blast
qed

lemma conf_value_read_back:
  assumes "key_word key" "value_word v"
  shows "parse_conf_value (set_conf_value s key v) key = v"
proof -
  obtain a rest where n: "set_conf_value s key v = a @ conf_line key v @ rest"
    "a = [] \<or> last a = LF" "rest = [] \<or> hd rest = LF"
    "\<And>u. u \<in> set (butlast (line_starts a)) \<Longrightarrow> \<exists>t. assigned_at key (u @ t) = None"
    using set_conf_value_shape [OF assms(1)] by blast
  let ?x = "conf_line key v @ rest"
  let ?at = "\<lambda>t. Option.bind (assigned_at key t) value_after"
  have x: "?at ?x = Some v"
    using assigned_line [OF assms(1), of v rest] value_after_line [OF assms(2) n(3)] by simp
  have hx: "?x \<noteq> []" "\<not> is_space (hd ?x)" "hd ?x \<noteq> CHR ''=''"
    using assms(1) by (auto simp: key_word_def conf_line_def list_all_iff hd_append)
  have b: "?at (u @ ?x) \<in> {None, Some v}" if u: "u \<in> set (butlast (line_starts a))" for u
  proof -
    obtain t where t: "assigned_at key (u @ t) = None" using n(4) [OF u] by blast
    have "u \<noteq> []" "last u = LF" using line_starts_butlast [OF u n(2)] by simp_all
    from assigned_before [OF assms(1) this t hx] show ?thesis using x by auto
  qed
  have "line_starts (set_conf_value s key v) = map (\<lambda>u. u @ ?x) (butlast (line_starts a)) @ line_starts ?x"
    unfolding n(1) by (rule line_starts_append [OF n(2)])
  then have l: "\<exists>t \<in> set (line_starts (set_conf_value s key v)). ?at t = Some v"
    using x by (auto simp: line_starts_def)
  have "conf_value key (set_conf_value s key v) = Some v"
  proof (cases "List.find (\<lambda>t. ?at t \<noteq> None) (map (\<lambda>u. u @ ?x) (butlast (line_starts a)))")
    case None
    then show ?thesis
      using x unfolding conf_value_def n(1) line_starts_append [OF n(2)] find_append Let_def
      by (simp add: line_starts_def)
  next
    case (Some t)
    then have "?at t \<noteq> None" "t \<in> (\<lambda>u. u @ ?x) ` set (butlast (line_starts a))"
      by (auto simp: find_Some_iff)
    then have "?at t = Some v" using b by fastforce
    then show ?thesis
      using Some unfolding conf_value_def n(1) line_starts_append [OF n(2)] find_append Let_def
      by simp
  qed
  moreover have "strip v = v" using assms(2) by (intro strip_nospace) (simp add: value_word_def list_all_iff)
  ultimately show ?thesis by (simp add: parse_conf_value_def)
qed


lemma fresh_conf_value:
  assumes "key_word key" "value_word v"
  shows "parse_conf_value (conf_line key v @ [LF]) key = v"
    "parse_conf_value (key @ CHR ''='' # v @ [LF]) key = v"
proof -
  have s: "strip v = v" using assms(2) by (intro strip_nospace) (simp add: value_word_def list_all_iff)
  have "Option.bind (assigned_at key (conf_line key v @ [LF])) value_after = Some v"
    using assigned_line [OF assms(1), of v "[LF]"] value_after_line [OF assms(2), of "[LF]"] by simp
  then show "parse_conf_value (conf_line key v @ [LF]) key = v"
    by (simp add: parse_conf_value_def conf_value_def line_starts_def s)
  have "lstrip (key @ y) = key @ y" for y
    using assms(1) by (intro lstrip_nonspace) (auto simp: key_word_def list_all_iff hd_append)
  moreover have "lstrip (CHR ''='' # y) = CHR ''='' # y" for y by (simp add: lstrip_nonspace)
  ultimately have "assigned_at key (key @ CHR ''='' # v @ [LF]) = Some (v @ [LF])"
    by (simp add: assigned_at_def startswith_def Let_def)
  then show "parse_conf_value (key @ CHR ''='' # v @ [LF]) key = v"
    using value_after_bare [OF assms(2)]
    by (simp add: parse_conf_value_def conf_value_def line_starts_def s)
qed

text \<open>What the validators accept is such a value.\<close>

lemma alnum_conf: "alnum_az c \<Longrightarrow> \<not> is_space c \<and> conf_char c"
  by (auto simp: conf_char_def char_class_defs)

lemma token_conf: "token_char c \<or> locale_char c \<or> ldh_hyphen c \<or> c = CHR ''.'' \<Longrightarrow> \<not> is_space c \<and> conf_char c"
  using alnum_conf [of c]
  by (auto simp: token_char_def locale_char_def ldh_hyphen_def conf_char_def is_space_def ordc_def)

lemma value_wordI: "v \<noteq> [] \<Longrightarrow> list_all P v \<Longrightarrow> (\<And>c. P c \<Longrightarrow> \<not> is_space c \<and> conf_char c) \<Longrightarrow> value_word v"
  by (auto simp: value_word_def list_all_iff)

lemma token_word:
  assumes "fullmatch TOKEN_RE v"
  shows "value_word v"
proof (rule value_wordI)
  show "v \<noteq> []" "list_all token_char v"
    using assms by (auto simp: TOKEN_RE_def rx_simps token_char_def)
qed (use token_conf in blast)

lemma locale_word:
  assumes "valid_locale v"
  shows "value_word v"
proof (rule value_wordI)
  show "v \<noteq> []" "list_all locale_char v"
    using assms by (auto simp: valid_locale_def rx_simps)
qed (use token_conf in blast)

lemma host_label_chars: "fullmatch HOST_LABEL w \<Longrightarrow> list_all (\<lambda>c. ldh_hyphen c \<or> c = CHR ''.'') w"
  by (auto simp: HOST_LABEL_def rx_simps match_Seq ldh_hyphen_def list_all_iff)

lemma hostname_word:
  assumes "valid_hostname v"
  shows "value_word v"
proof -
  from assms obtain a b where v: "v = a @ b" "fullmatch HOST_LABEL a" "fullmatch (Star (Seq (lit ''.'') HOST_LABEL)) b"
    unfolding valid_hostname_def HOSTNAME_RE_def match_Seq by blast
  have "list_all (\<lambda>c. ldh_hyphen c \<or> c = CHR ''.'') b"
  proof (rule match_Star_chars [OF _ v(3)])
    fix w
    assume "fullmatch (Seq (lit ''.'') HOST_LABEL) w"
    then obtain t where "w = CHR ''.'' # t" "fullmatch HOST_LABEL t"
      by (auto simp: match_Seq_lit)
    then show "list_all (\<lambda>c. ldh_hyphen c \<or> c = CHR ''.'') w"
      using host_label_chars [of t] by simp
  qed
  then have "list_all (\<lambda>c. ldh_hyphen c \<or> c = CHR ''.'') v"
    using v(1) host_label_chars [OF v(2)] by simp
  moreover have "v \<noteq> []" using assms by (simp add: valid_hostname_def)
  ultimately show ?thesis
    using token_conf by (intro value_wordI) blast+
qed

lemma zone_part_chars: "fullmatch ZONE_PART w \<Longrightarrow> w \<noteq> [] \<and> list_all (\<lambda>c. zone_char c \<or> c = CHR ''/'') w"
  by (auto simp: ZONE_PART_def rx_simps zone_char_def list_all_iff)

lemma zone_word:
  assumes "valid_zone_name z"
  shows "z \<noteq> [] \<and> list_all (\<lambda>c. \<not> is_space c) z"
proof -
  from assms obtain a b where z: "z = a @ b" "fullmatch ZONE_PART a" "fullmatch (Star (Seq (lit ''/'') ZONE_PART)) b"
    unfolding valid_zone_name_def ZONE_RE_def match_Seq by blast
  have "list_all (\<lambda>c. zone_char c \<or> c = CHR ''/'') b"
  proof (rule match_Star_chars [OF _ z(3)])
    fix w
    assume "fullmatch (Seq (lit ''/'') ZONE_PART) w"
    then obtain t where "w = CHR ''/'' # t" "fullmatch ZONE_PART t"
      by (auto simp: match_Seq_lit)
    then show "list_all (\<lambda>c. zone_char c \<or> c = CHR ''/'') w"
      using zone_part_chars [of t] by simp
  qed
  then have "list_all (\<lambda>c. zone_char c \<or> c = CHR ''/'') z"
    using z(1) zone_part_chars [OF z(2)] by simp
  then have "list_all (\<lambda>c. \<not> is_space c) z"
    by (rule list.pred_mono_strong) (auto simp: zone_char_def char_class_defs)
  with z(1) zone_part_chars [OF z(2)] show ?thesis by simp
qed

text \<open>Settings are read back as they were written. A valid host name and a valid locale come
  back from the files written for them (the locale from both its files); a valid keymap and a
  valid font come back from a \<open>conf.d\<close> file into which they were put, whatever that file held:
  comments, other keys, earlier assignments of the same key, a missing final newline.\<close>

theorem settings_read_back:
  assumes "valid_hostname h" "valid_locale l" "valid_keymap k" "valid_font f"
  shows "parse_conf_hostname (render_conf_hostname h) = h \<and>
    parse_lang (conf_line ''LANG'' l @ [LF]) = l \<and> parse_lang (''LANG='' @ l @ [LF]) = l \<and>
    parse_conf_value (set_conf_value s ''keymap'' k) ''keymap'' = k \<and>
    parse_conf_value (set_conf_value s ''consolefont'' f) ''consolefont'' = f"
proof -
  have k: "key_word ''hostname''" "key_word ''LANG''" "key_word ''keymap''" "key_word ''consolefont''"
    by code_simp+
  have w: "value_word h" "value_word l" "value_word k" "value_word f"
    using assms hostname_word locale_word token_word by (auto simp: valid_keymap_def valid_font_def)
  have "render_conf_hostname h = conf_line ''hostname'' h @ [LF]"
    by (simp add: render_conf_hostname_def conf_line_def)
  then show ?thesis
    using fresh_conf_value(1) [OF k(1) w(1)] fresh_conf_value [OF k(2) w(2)]
      conf_value_read_back [OF k(3) w(3), of s] conf_value_read_back [OF k(4) w(4), of s]
    by (simp add: parse_conf_hostname_def parse_lang_def)
qed

lemma settings_read_back_witness:
  "parse_conf_hostname (render_conf_hostname ''box'') = ''box'' \<and>
   parse_conf_value (set_conf_value (''# keymap=x'' @ [LF] @ '' keymap = de'') ''keymap'' ''us'') ''keymap'' = ''us''"
proof -
  have "valid_hostname ''box''" "valid_locale ''C.UTF-8''" "valid_keymap ''us''" "valid_font ''ter-v16n''"
    by code_simp+
  from settings_read_back [OF this, of "''# keymap=x'' @ [LF] @ '' keymap = de''"]
  show ?thesis by blast
qed

text \<open>The notation of the charset does not matter to the picker: a match has the same key, and a
  name that is in the list is never replaced by one with another key.\<close>

lemma match_in_key: "canonical_key (match_in name choices) = canonical_key name"
  by (auto simp: match_in_def find_Some_iff split: option.splits)

text \<open>A blank line before the assignment does not survive the edit, although only the line of the
  key is to change.\<close>

lemma set_conf_value_eats_blank:
  "set_conf_value (''a=1'' @ [LF, LF] @ ''keymap=x'') ''keymap'' ''us'' = ''a=1'' @ [LF] @ conf_line ''keymap'' ''us''"
  by code_simp

end
