(* ===== verification/SystemService.thy ===== *)
theory SystemService
  imports Service Settings
begin

text \<open>
  The root service for system settings (\<open>gest/backend/system.py\<close>): host name, time zone,
  locale, keymap and console font, each validated again, written atomically under the given
  root, and made live only on the running system. The system calls that fail, the temporary
  names, and the \<open>hostname\<close> command are the fields of \<open>sys_env\<close>.
\<close>

section \<open>State and environment\<close>

text \<open>Regular files, symbolic links, and the live commands that were run.\<close>

record sys_state =
  sy_files :: files
  sy_links :: "string \<rightharpoonup> string"
  sy_ran :: "string list list"

datatype link_op = LinkDirs | LinkUnlink | LinkCreate | LinkReplace

record sys_env =
  se_fault :: "string \<Rightarrow> write_op \<Rightarrow> bool"
  se_tmp :: "string \<Rightarrow> string"
  se_partial :: string
  se_unreadable :: "string \<Rightarrow> bool"
  se_isfile :: "string \<Rightarrow> bool"
  se_link_fault :: "link_op \<Rightarrow> bool"
  se_hostname_cmd :: string
  se_run :: "string list \<Rightarrow> int \<times> string"

definition ZONEINFO :: string where
  "ZONEINFO = ''/usr/share/zoneinfo''"

definition sys_atomic_write :: "sys_env \<Rightarrow> string \<Rightarrow> string \<Rightarrow> sys_state \<Rightarrow> sys_state \<times> string res" where
  "sys_atomic_write env path content s =
     (case replace_file (se_fault env path) (se_tmp env path) (se_partial env) (Some MODE_644) path content
             (sy_files s) of
        (fs, r) \<Rightarrow> (s\<lparr>sy_files := fs\<rparr>, r))"

section \<open>The methods\<close>

definition sethostname :: "sys_env \<Rightarrow> string \<Rightarrow> string \<Rightarrow> sys_state \<Rightarrow> sys_state \<times> (bool \<times> string) res" where
  "sethostname env name root s =
     (if \<not> valid_hostname name then (s, Inl (ValueError ''invalid hostname''))
      else
        (let path = resolve root ''/etc/conf.d/hostname''
         in st_bind (sys_atomic_write env path (render_conf_hostname name) s) (\<lambda>_ s.
           if is_target root
           then (s, Inr (True, ''hostname written to '' @ path @ '' (target root; not set live)''))
           else
             (let argv = [se_hostname_cmd env, name]
              in case se_run env argv of (code, stderr) \<Rightarrow>
                   (s\<lparr>sy_ran := sy_ran s @ [argv]\<rparr>,
                    Inr (code = 0, if strip stderr \<noteq> [] then strip stderr else ''hostname set to '' @ name))))))"

text \<open>
  The link is made under a fixed temporary name and moved over \<open>/etc/localtime\<close>. A stale
  temporary name that cannot be removed makes the \<open>symlink\<close> call fail.
\<close>

definition relink :: "sys_env \<Rightarrow> string \<Rightarrow> string \<Rightarrow> string \<Rightarrow> sys_state \<Rightarrow> sys_state \<times> unit res" where
  "relink env target tmp path s =
     (if se_link_fault env LinkDirs then (s, Inl (OSError ''makedirs''))
      else
        (let s1 = (if se_link_fault env LinkUnlink then s
                   else s\<lparr>sy_links := (sy_links s)(tmp := None), sy_files := (sy_files s)(tmp := None)\<rparr>)
         in if se_link_fault env LinkCreate \<or> sy_links s1 tmp \<noteq> None \<or> sy_files s1 tmp \<noteq> None
              then (s1, Inl (OSError ''symlink''))
            else if se_link_fault env LinkReplace
              then (s1\<lparr>sy_links := (sy_links s1)(tmp \<mapsto> target)\<rparr>, Inl (OSError ''replace''))
            else (s1\<lparr>sy_links := (sy_links s1)(path \<mapsto> target, tmp := None),
                     sy_files := (sy_files s1)(path := None)\<rparr>, Inr ())))"

definition settimezone :: "sys_env \<Rightarrow> string \<Rightarrow> string \<Rightarrow> sys_state \<Rightarrow> sys_state \<times> (bool \<times> string) res" where
  "settimezone env zone root s =
     (if \<not> valid_zone_name zone then (s, Inl (ValueError ''invalid timezone''))
      else
        (let target = path_join ZONEINFO [zone]
         in if \<not> se_isfile env target then (s, Inl (ValueError ''unknown timezone''))
            else st_bind (sys_atomic_write env (resolve root ''/etc/timezone'') (zone @ [LF]) s) (\<lambda>_ s.
              st_bind (relink env target (resolve root ''/etc/.gest.localtime'') (resolve root ''/etc/localtime'') s)
                (\<lambda>_ s. (s, Inr (True, ''timezone set to '' @ zone))))))"

definition setlocale :: "sys_env \<Rightarrow> string \<Rightarrow> string \<Rightarrow> sys_state \<Rightarrow> sys_state \<times> (bool \<times> string) res" where
  "setlocale env lng root s =
     (if \<not> valid_locale lng then (s, Inl (ValueError ''invalid locale''))
      else st_bind (sys_atomic_write env (resolve root ''/etc/env.d/02locale'') (conf_line ''LANG'' lng @ [LF]) s)
        (\<lambda>_ s. st_bind (sys_atomic_write env (resolve root ''/etc/locale.conf'') (''LANG='' @ lng @ [LF]) s)
          (\<lambda>_ s. (s, Inr (True, ''locale set to '' @ lng @ '' (run env-update or re-login to apply)'')))))"

definition upsert_conf :: "sys_env \<Rightarrow> string \<Rightarrow> string \<Rightarrow> string \<Rightarrow> sys_state \<Rightarrow> sys_state \<times> string res" where
  "upsert_conf env path key v s =
     (let current = (if se_unreadable env path then []
                     else case sy_files s path of None \<Rightarrow> [] | Some (t, m) \<Rightarrow> t)
      in sys_atomic_write env path (set_conf_value current key v) s)"

definition setkeymap :: "sys_env \<Rightarrow> string \<Rightarrow> string \<Rightarrow> sys_state \<Rightarrow> sys_state \<times> (bool \<times> string) res" where
  "setkeymap env keymap root s =
     (if \<not> valid_keymap keymap then (s, Inl (ValueError ''invalid keymap''))
      else st_bind (upsert_conf env (resolve root KEYMAPS_CONF) ''keymap'' keymap s)
        (\<lambda>_ s. (s, Inr (True, ''keymap set to '' @ keymap @ '' (applies on next boot / keymaps restart)''))))"

definition setconsolefont :: "sys_env \<Rightarrow> string \<Rightarrow> string \<Rightarrow> sys_state \<Rightarrow> sys_state \<times> (bool \<times> string) res" where
  "setconsolefont env font root s =
     (if \<not> valid_font font then (s, Inl (ValueError ''invalid console font''))
      else st_bind (upsert_conf env (resolve root CONSOLEFONT_CONF) ''consolefont'' font s)
        (\<lambda>_ s. (s, Inr (True, ''console font set to '' @ font
                    @ '' (applied on next boot or consolefont restart)''))))"

section \<open>The handler\<close>

datatype sys_method = SetHostname | SetTimezone | SetLocale | SetKeymap | SetConsoleFont

record sys_call =
  sc_method :: sys_method
  sc_value :: string
  sc_root :: string

definition SYS_METHODS :: "string list" where
  "SYS_METHODS = [''SetHostname'', ''SetTimezone'', ''SetLocale'', ''SetKeymap'', ''SetConsoleFont'']"

fun sys_method_name :: "sys_method \<Rightarrow> string" where
  "sys_method_name SetHostname = ''SetHostname''"
| "sys_method_name SetTimezone = ''SetTimezone''"
| "sys_method_name SetLocale = ''SetLocale''"
| "sys_method_name SetKeymap = ''SetKeymap''"
| "sys_method_name SetConsoleFont = ''SetConsoleFont''"

fun sys_dispatch :: "sys_method \<Rightarrow> sys_env \<Rightarrow> string \<Rightarrow> string \<Rightarrow> sys_state \<Rightarrow> sys_state \<times> (bool \<times> string) res" where
  "sys_dispatch SetHostname = sethostname"
| "sys_dispatch SetTimezone = settimezone"
| "sys_dispatch SetLocale = setlocale"
| "sys_dispatch SetKeymap = setkeymap"
| "sys_dispatch SetConsoleFont = setconsolefont"

definition sys_body :: "sys_env \<Rightarrow> sys_call \<Rightarrow> sys_state \<Rightarrow> sys_state \<times> (bool \<times> string) res" where
  "sys_body env call s =
     (case guard_config_root (sc_root call) of
        Inl e \<Rightarrow> (s, Inl e)
      | Inr _ \<Rightarrow> sys_dispatch (sc_method call) env (sc_value call) (sc_root call) s)"

definition system_on_call :: "sys_env \<Rightarrow> caller \<Rightarrow> sys_call \<Rightarrow> sys_state world \<Rightarrow> sys_state world \<times> reply res" where
  "system_on_call env who call w =
     guarded_call SYS_METHODS ''Not authorized to change system settings'' who
       (sys_method_name (sc_method call)) (sc_value call @ '' root='' @ sc_root call) (sys_body env call) w"

section \<open>Confinement\<close>

fun sys_managed :: "sys_call \<Rightarrow> string set" where
  "sys_managed call =
     (case sc_method call of
        SetHostname \<Rightarrow> {''/etc/conf.d/hostname''}
      | SetTimezone \<Rightarrow> {''/etc/timezone'', ''/etc/localtime''}
      | SetLocale \<Rightarrow> {''/etc/env.d/02locale'', ''/etc/locale.conf''}
      | SetKeymap \<Rightarrow> {KEYMAPS_CONF}
      | SetConsoleFont \<Rightarrow> {CONSOLEFONT_CONF})"

definition sys_tmps :: "sys_env \<Rightarrow> sys_call \<Rightarrow> string set" where
  "sys_tmps env call =
     insert (resolve (sc_root call) ''/etc/.gest.localtime'')
       (se_tmp env ` resolve (sc_root call) ` sys_managed call)"

definition sys_look :: "sys_state \<Rightarrow> string \<Rightarrow> (string \<times> nat) option \<times> string option" where
  "sys_look s q = (sy_files s q, sy_links s q)"

lemma sys_write_frame:
  assumes "sys_atomic_write env path content s = (s', r)"
  shows "sy_ran s' = sy_ran s" "q \<noteq> se_tmp env path \<Longrightarrow> q \<noteq> path \<Longrightarrow> sys_look s' q = sys_look s q"
    "r = Inr p \<Longrightarrow> path \<noteq> se_tmp env path \<Longrightarrow> sy_files s' path = Some (content, MODE_644)"
proof -
  obtain fs where fs: "replace_file (se_fault env path) (se_tmp env path) (se_partial env) (Some MODE_644) path content
      (sy_files s) = (fs, r)" "s' = s\<lparr>sy_files := fs\<rparr>"
    using assms by (auto simp: sys_atomic_write_def split: prod.splits)
  show "sy_ran s' = sy_ran s" using fs by simp
  show "sys_look s' q = sys_look s q" if "q \<noteq> se_tmp env path" "q \<noteq> path"
    using replace_file_frame [OF fs(1) that(1)] that(2) fs(2) by (auto simp: sys_look_def)
  show "sy_files s' path = Some (content, MODE_644)" if "r = Inr p" "path \<noteq> se_tmp env path"
    using replace_file_ok [OF fs(1) [unfolded that(1)]] that(2) fs(2) by simp
qed

lemma relink_frame:
  assumes "relink env target tmp path s = (s', r)"
  shows "sy_ran s' = sy_ran s" "q \<noteq> tmp \<Longrightarrow> q \<noteq> path \<Longrightarrow> sys_look s' q = sys_look s q"
  using assms by (auto simp: relink_def sys_look_def Let_def split: if_splits)

lemma sys_dispatch_frame:
  assumes "sys_dispatch m env v root s = (s', r)"
    "q \<notin> sys_tmps env \<lparr>sc_method = m, sc_value = v, sc_root = root\<rparr>"
    "q \<notin> resolve root ` sys_managed \<lparr>sc_method = m, sc_value = v, sc_root = root\<rparr>"
  shows "sys_look s' q = sys_look s q"
proof (cases m)
  case SetHostname
  then show ?thesis
    using assms
    by (auto simp: sethostname_def sys_tmps_def st_bind_eq Let_def sys_look_def
        split: if_splits prod.splits dest!: sys_write_frame(2) [of _ _ _ _ _ _ q])
next
  case SetTimezone
  then show ?thesis
    using assms
    by (auto simp: settimezone_def sys_tmps_def st_bind_eq Let_def split: if_splits
        dest!: sys_write_frame(2) [of _ _ _ _ _ _ q] relink_frame(2) [of _ _ _ _ _ _ _ q])
next
  case SetLocale
  then show ?thesis
    using assms
    by (auto simp: setlocale_def sys_tmps_def st_bind_eq split: if_splits
        dest!: sys_write_frame(2) [of _ _ _ _ _ _ q])
next
  case SetKeymap
  then show ?thesis
    using assms
    by (auto simp: setkeymap_def upsert_conf_def sys_tmps_def st_bind_eq Let_def split: if_splits
        dest!: sys_write_frame(2) [of _ _ _ _ _ _ q])
next
  case SetConsoleFont
  then show ?thesis
    using assms
    by (auto simp: setconsolefont_def upsert_conf_def sys_tmps_def st_bind_eq Let_def split: if_splits
        dest!: sys_write_frame(2) [of _ _ _ _ _ _ q])
qed

interpretation system_settings: root_service "sys_body env" sys_look sc_root sys_managed "sys_tmps env" for env
proof unfold_locales
  fix c s s' r q
  assume a: "sys_body env c s = (s', r)" "q \<notin> sys_tmps env c" "sys_look s' q \<noteq> sys_look s q"
  have c: "c = \<lparr>sc_method = sc_method c, sc_value = sc_value c, sc_root = sc_root c\<rparr>" by simp
  from a have "valid_config_root (sc_root c)"
    and d: "sys_dispatch (sc_method c) env (sc_value c) (sc_root c) s = (s', r)"
    by (auto simp: sys_body_def guard_config_root_def split: if_splits)
  then show "valid_config_root (sc_root c) \<and> q \<in> resolve (sc_root c) ` sys_managed c"
    using sys_dispatch_frame [OF d, of q] a c by metis
qed

section \<open>Effect\<close>

text \<open>The setting a call is about, read back the way the program reads it.\<close>

definition file_text :: "sys_state \<Rightarrow> string \<Rightarrow> string option" where
  "file_text s path = map_option fst (sy_files s path)"

fun in_effect :: "sys_call \<Rightarrow> sys_state \<Rightarrow> bool" where
  "in_effect call s =
     (let at = (\<lambda>p. file_text s (resolve (sc_root call) p)); v = sc_value call
      in case sc_method call of
        SetHostname \<Rightarrow> map_option parse_conf_hostname (at ''/etc/conf.d/hostname'') = Some v
      | SetTimezone \<Rightarrow> current_timezone (at ''/etc/timezone'') None = v \<and>
          sy_links s (resolve (sc_root call) ''/etc/localtime'') = Some (path_join ZONEINFO [v])
      | SetLocale \<Rightarrow> map_option parse_lang (at ''/etc/env.d/02locale'') = Some v \<and>
          map_option parse_lang (at ''/etc/locale.conf'') = Some v
      | SetKeymap \<Rightarrow> current_keymap (at KEYMAPS_CONF) = v
      | SetConsoleFont \<Rightarrow> current_font (at CONSOLEFONT_CONF) = v)"

lemma valid_settings_word:
  "valid_hostname v \<Longrightarrow> value_word v" "valid_locale v \<Longrightarrow> value_word v"
  "valid_keymap v \<Longrightarrow> value_word v" "valid_font v \<Longrightarrow> value_word v"
  using hostname_word locale_word token_word by (auto simp: valid_keymap_def valid_font_def)

lemma current_timezone_line:
  assumes "valid_zone_name z"
  shows "current_timezone (Some (z @ [LF])) None = z"
proof -
  have z: "z \<noteq> []" "list_all (\<lambda>c. \<not> is_space c) z" using zone_word [OF assms] by simp_all
  then have "strip z = z" by (intro strip_nospace) simp
  moreover have "splitlines z = [z]"
    using z linebreak_space by (intro splitlines_line) (auto simp: list_all_iff)
  ultimately show ?thesis using z by (simp add: current_timezone_def)
qed

lemma upsert_conf_stores:
  assumes "upsert_conf env path key v s = (s', Inr p)" "path \<noteq> se_tmp env path" "key_word key" "value_word v"
  shows "\<exists>t. sy_files s' path = Some (t, MODE_644) \<and> parse_conf_value t key = v"
  using sys_write_frame(3) [OF assms(1) [unfolded upsert_conf_def Let_def]] assms(2)
    conf_value_read_back [OF assms(3,4)] by blast

lemma sys_body_effect:
  assumes "sys_body env call s = (s', Inr (True, out))"
    "resolve (sc_root call) ` sys_managed call \<inter> sys_tmps env call = {}"
  shows "in_effect call s'"
proof -
  have k: "key_word ''keymap''" "key_word ''consolefont''" "key_word ''hostname''" "key_word ''LANG''" by code_simp+
  let ?r = "resolve (sc_root call)" and ?v = "sc_value call"
  have tmp: "?r p \<noteq> se_tmp env (?r q)" "?r p \<noteq> ?r ''/etc/.gest.localtime''"
    if "p \<in> sys_managed call" "q \<in> sys_managed call" for p q
  proof -
    have "?r p \<in> ?r ` sys_managed call" "se_tmp env (?r q) \<in> sys_tmps env call"
      "?r ''/etc/.gest.localtime'' \<in> sys_tmps env call"
      using that by (simp_all add: sys_tmps_def del: sys_managed.simps)
    then show "?r p \<noteq> se_tmp env (?r q)" "?r p \<noteq> ?r ''/etc/.gest.localtime''"
      using assms(2) by (metis disjoint_iff)+
  qed
  from assms(1) have d: "sys_dispatch (sc_method call) env ?v (sc_root call) s = (s', Inr (True, out))"
    by (auto simp: sys_body_def split: sum.splits)
  show ?thesis
  proof (cases "sc_method call")
    case SetHostname
    then obtain s1 p where w: "valid_hostname ?v"
      "sys_atomic_write env (?r ''/etc/conf.d/hostname'') (render_conf_hostname ?v) s = (s1, Inr p)"
      "sy_files s' = sy_files s1"
      using d by (auto simp: sethostname_def st_bind_eq Let_def split: if_splits prod.splits)
    have "render_conf_hostname ?v = conf_line ''hostname'' ?v @ [LF]"
      by (simp add: render_conf_hostname_def conf_line_def)
    then have "parse_conf_hostname (render_conf_hostname ?v) = ?v"
      using fresh_conf_value(1) [OF k(3) valid_settings_word(1) [OF w(1)]] by (simp add: parse_conf_hostname_def)
    then show ?thesis
      using sys_write_frame(3) [OF w(2) refl] w(3) tmp(1) SetHostname by (simp add: file_text_def)
  next
    case SetTimezone
    then obtain s1 p where w: "valid_zone_name ?v"
      "sys_atomic_write env (?r ''/etc/timezone'') (?v @ [LF]) s = (s1, Inr p)"
      "relink env (path_join ZONEINFO [?v]) (?r ''/etc/.gest.localtime'') (?r ''/etc/localtime'') s1 = (s', Inr ())"
      using d by (auto simp: settimezone_def st_bind_eq Let_def split: if_splits)
    have "sy_files s1 (?r ''/etc/timezone'') = Some (?v @ [LF], MODE_644)"
      using sys_write_frame(3) [OF w(2) refl] tmp(1) SetTimezone by simp
    moreover have "sys_look s' (?r ''/etc/timezone'') = sys_look s1 (?r ''/etc/timezone'')"
      using tmp(2) SetTimezone by (intro relink_frame(2) [OF w(3)]) (simp_all add: resolve_inj)
    moreover have "sy_links s' (?r ''/etc/localtime'') = Some (path_join ZONEINFO [?v])"
      using w(3) by (auto simp: relink_def Let_def resolve_inj split: if_splits)
    ultimately show ?thesis
      using current_timezone_line [OF w(1)] SetTimezone by (simp add: file_text_def sys_look_def)
  next
    case SetLocale
    then obtain s1 p p' where w: "valid_locale ?v"
      "sys_atomic_write env (?r ''/etc/env.d/02locale'') (conf_line ''LANG'' ?v @ [LF]) s = (s1, Inr p)"
      "sys_atomic_write env (?r ''/etc/locale.conf'') (''LANG='' @ ?v @ [LF]) s1 = (s', Inr p')"
      using d by (auto simp: setlocale_def st_bind_eq split: if_splits)
    have "sy_files s1 (?r ''/etc/env.d/02locale'') = Some (conf_line ''LANG'' ?v @ [LF], MODE_644)"
      "sy_files s' (?r ''/etc/locale.conf'') = Some (''LANG='' @ ?v @ [LF], MODE_644)"
      using sys_write_frame(3) [OF w(2) refl] sys_write_frame(3) [OF w(3) refl] tmp(1) SetLocale by simp_all
    moreover have "sys_look s' (?r ''/etc/env.d/02locale'') = sys_look s1 (?r ''/etc/env.d/02locale'')"
      using tmp(1) SetLocale by (intro sys_write_frame(2) [OF w(3)]) (simp_all add: resolve_inj)
    ultimately show ?thesis
      using fresh_conf_value [OF k(4) valid_settings_word(2) [OF w(1)]] SetLocale
      by (simp add: file_text_def sys_look_def parse_lang_def)
  next
    case SetKeymap
    then obtain s1 p where w: "valid_keymap ?v" "upsert_conf env (?r KEYMAPS_CONF) ''keymap'' ?v s = (s', Inr p)"
      using d by (auto simp: setkeymap_def st_bind_eq split: if_splits)
    then show ?thesis
      using upsert_conf_stores [OF w(2) _ k(1) valid_settings_word(3) [OF w(1)]] tmp(1) SetKeymap
      by (auto simp: file_text_def current_keymap_def)
  next
    case SetConsoleFont
    then obtain s1 p where w: "valid_font ?v" "upsert_conf env (?r CONSOLEFONT_CONF) ''consolefont'' ?v s = (s', Inr p)"
      using d by (auto simp: setconsolefont_def st_bind_eq split: if_splits)
    then show ?thesis
      using upsert_conf_stores [OF w(2) _ k(2) valid_settings_word(4) [OF w(1)]] tmp(1) SetConsoleFont
      by (auto simp: file_text_def current_font_def)
  qed
qed

lemma sys_dispatch_ran:
  assumes "sys_dispatch m env v root s = (s', r)" "is_target root"
  shows "sy_ran s' = sy_ran s"
  using assms
  by (cases m)
    (auto simp: sethostname_def settimezone_def setlocale_def setkeymap_def setconsolefont_def upsert_conf_def
      st_bind_eq Let_def split: if_splits dest!: sys_write_frame(1) relink_frame(1))

section \<open>Properties\<close>

text \<open>Whatever a caller of the settings service sends, a file or link other than its temporary
  ones changes only when polkit authorised the call and the root is one the guard allows, and it
  is one of the files of that setting under that root.\<close>

theorem system_service_confined:
  assumes "system_on_call env who call w = (w', r)" "q \<notin> sys_tmps env call"
    "sys_look (wd_state w') q \<noteq> sys_look (wd_state w) q"
  shows "cl_authorized who \<and> valid_config_root (sc_root call) \<and> q \<in> resolve (sc_root call) ` sys_managed call"
  using system_settings.call_confined [OF assms(1) [unfolded system_on_call_def] assms(2,3)] by blast

text \<open>C37: A call that is answered with success has taken effect: the setting is the one the
  program's own reader finds afterwards, the call is the last entry of the audit log, and under
  an install target no live command was run.\<close>

theorem system_service_effective:
  assumes "system_on_call env who call w = (w', Inr (ReturnValue True out))"
    "resolve (sc_root call) ` sys_managed call \<inter> sys_tmps env call = {}"
  shows "in_effect call (wd_state w') \<and>
    wd_audit w' = wd_audit w @ [\<lparr>au_method = sys_method_name (sc_method call), au_uid = cl_uid who,
      au_result = ''ok'', au_detail = sc_value call @ '' root='' @ sc_root call\<rparr>] \<and>
    \<not> (is_target (sc_root call) \<and> sy_ran (wd_state w') \<noteq> sy_ran (wd_state w))"
proof -
  from assms(1) have b: "sys_body env call (wd_state w) = (wd_state w', Inr (True, out))"
    and a: "cl_authorized who"
    by (auto simp: system_on_call_def guarded_call_def split: if_splits prod.splits sum.splits py_error.splits)
  have "sys_method_name (sc_method call) \<in> set SYS_METHODS"
    by (cases "sc_method call") (simp_all add: SYS_METHODS_def)
  then have "wd_audit w' = wd_audit w @ [\<lparr>au_method = sys_method_name (sc_method call), au_uid = cl_uid who,
      au_result = ''ok'', au_detail = sc_value call @ '' root='' @ sc_root call\<rparr>]"
    using guarded_call_audit [OF assms(1) [unfolded system_on_call_def]] a b by simp
  moreover have "sy_ran (wd_state w') = sy_ran (wd_state w)" if "is_target (sc_root call)"
    using sys_dispatch_ran [OF _ that] b by (auto simp: sys_body_def split: sum.splits)
  ultimately show ?thesis
    using sys_body_effect [OF b assms(2)] by blast
qed

definition calm_sys_env :: sys_env where
  "calm_sys_env = \<lparr>se_fault = (\<lambda>_ _. False), se_tmp = (\<lambda>p. ''/tmp/.gest.x''), se_partial = [],
     se_unreadable = (\<lambda>_. False), se_isfile = (\<lambda>_. True), se_link_fault = (\<lambda>_. False),
     se_hostname_cmd = ''hostname'', se_run = (\<lambda>_. (0, []))\<rparr>"

definition empty_world :: "sys_state world" where
  "empty_world = \<lparr>wd_state = \<lparr>sy_files = (\<lambda>_. None), sy_links = (\<lambda>_. None), sy_ran = []\<rparr>, wd_audit = []\<rparr>"

definition keymap_call :: sys_call where
  "keymap_call = \<lparr>sc_method = SetKeymap, sc_value = ''us'', sc_root = ''/mnt/gentoo''\<rparr>"

lemma keymap_call_runs:
  "\<exists>w'. system_on_call calm_sys_env \<lparr>cl_authorized = True, cl_uid = Some 1000\<rparr> keymap_call empty_world
     = (w', Inr (ReturnValue True ''keymap set to us (applies on next boot / keymaps restart)''))"
proof -
  have v: "valid_keymap ''us''" "valid_config_root ''/mnt/gentoo''" by code_simp+
  show ?thesis
    by (simp add: system_on_call_def guarded_call_def SYS_METHODS_def keymap_call_def sys_body_def
        guard_config_root_def v setkeymap_def upsert_conf_def sys_atomic_write_def replace_file_def
        calm_sys_env_def Let_def)
qed

lemma keymap_call_tmps: "resolve (sc_root keymap_call) ` sys_managed keymap_call \<inter> sys_tmps calm_sys_env keymap_call = {}"
  by (simp add: keymap_call_def sys_tmps_def calm_sys_env_def resolve_inj) (simp add: resolve_def KEYMAPS_CONF_def)

lemma system_service_effective_witness:
  "\<exists>w' :: sys_state world. in_effect keymap_call (wd_state w') \<and> sy_ran (wd_state w') = []"
proof -
  obtain w' where w: "system_on_call calm_sys_env \<lparr>cl_authorized = True, cl_uid = Some 1000\<rparr> keymap_call empty_world
     = (w', Inr (ReturnValue True ''keymap set to us (applies on next boot / keymaps restart)''))"
    using keymap_call_runs by blast
  have "is_target (sc_root keymap_call)" "sy_ran (wd_state empty_world) = []"
    by (simp_all add: keymap_call_def is_target_def empty_world_def)
  with system_service_effective [OF w keymap_call_tmps]
  have "in_effect keymap_call (wd_state w') \<and> sy_ran (wd_state w') = []"
    by (simp del: in_effect.simps)
  then show ?thesis by blast
qed

lemma system_service_confined_witness:
  "\<exists>w' :: sys_state world. sys_look (wd_state w') ''/mnt/gentoo/etc/conf.d/keymaps'' \<noteq> (None, None) \<and>
     valid_config_root (sc_root keymap_call)"
proof -
  let ?q = "''/mnt/gentoo/etc/conf.d/keymaps''"
  obtain w' where w: "system_on_call calm_sys_env \<lparr>cl_authorized = True, cl_uid = Some 1000\<rparr> keymap_call empty_world
     = (w', Inr (ReturnValue True ''keymap set to us (applies on next boot / keymaps restart)''))"
    using keymap_call_runs by blast
  have q: "resolve ''/mnt/gentoo'' KEYMAPS_CONF = ?q" "?q \<noteq> ''/mnt/gentoo/etc/.gest.localtime''" "?q \<noteq> ''/tmp/.gest.x''"
    by (simp_all add: resolve_def rstrip_char_def KEYMAPS_CONF_def)
  from w have b: "sys_body calm_sys_env keymap_call (wd_state empty_world)
      = (wd_state w', Inr (True, ''keymap set to us (applies on next boot / keymaps restart)''))"
    by (auto simp: system_on_call_def guarded_call_def split: if_splits prod.splits sum.splits py_error.splits)
  have "in_effect keymap_call (wd_state w')" by (rule sys_body_effect [OF b keymap_call_tmps])
  then have "sys_look (wd_state w') ?q \<noteq> (None, None)"
    using q(1) by (cases "sy_files (wd_state w') ?q")
      (auto simp: keymap_call_def file_text_def current_keymap_def sys_look_def)
  moreover have "?q \<notin> sys_tmps calm_sys_env keymap_call"
    using q by (simp add: sys_tmps_def keymap_call_def calm_sys_env_def resolve_def rstrip_char_def)
  ultimately show ?thesis
    using system_service_confined [OF w, of ?q] by (intro exI [of _ w']) (simp add: empty_world_def sys_look_def)
qed

end
