(* ===== verification/Sysctl.thy ===== *)
theory Sysctl
  imports Service Regex "HOL-Library.List_Lexorder" "HOL-Library.Char_ord"
begin

text \<open>
  The kernel-parameter drop-in: validators, parser and renderer of \<open>gest/core/sysctl/config.py\<close>,
  the command lines of \<open>commands.py\<close>, and the root service \<open>gest/backend/sysctl.py\<close> that
  writes the drop-in and loads it on the running system.
\<close>

section \<open>gest.core.sysctl\<close>

definition SYSCTL_MARKER :: string where
  "SYSCTL_MARKER = ''# Managed by GeST''"

definition SYSCTL_DROPIN :: string where
  "SYSCTL_DROPIN = ''/etc/sysctl.d/10-gest.conf''"

definition low_alnum :: "char \<Rightarrow> bool" where
  "low_alnum c = (lower_az c \<or> dec_digit c)"

definition sysctl_char :: "char \<Rightarrow> bool" where
  "sysctl_char c = (low_alnum c \<or> c \<in> set ''._/-'')"

definition KEY_RE :: rx where
  "KEY_RE = Seq (Cls low_alnum) (Star (Cls sysctl_char))"

definition valid_sysctl_key :: "string \<Rightarrow> bool" where
  "valid_sysctl_key key = (fullmatch KEY_RE key \<and> length key \<le> 128)"

definition valid_sysctl_value :: "string \<Rightarrow> bool" where
  "valid_sysctl_value v = (v \<noteq> [] \<and> LF \<notin> set v \<and> HASH \<notin> set v \<and> length v \<le> 256)"

text \<open>A dict, in insertion order.\<close>

definition valid_settings :: "(string \<times> string) list \<Rightarrow> bool" where
  "valid_settings settings =
     (settings \<noteq> [] \<and> list_all (\<lambda>(k, v). valid_sysctl_key k \<and> valid_sysctl_value v) settings)"

definition sysctl_entry :: "string \<Rightarrow> (string \<times> string) option" where
  "sysctl_entry line =
     (let s = strip line
      in if s = [] \<or> startswith s '';'' \<or> startswith s ''#'' then None
         else
           (let d = (if CHR ''='' \<in> set s then CHR ''='' else CHR '' '');
                key = strip (before_char d s); v = strip (after_char d s)
            in if key \<noteq> [] \<and> v \<noteq> [] then Some (key, v) else None))"

definition parse_sysctl :: "string \<Rightarrow> (string \<times> string) list" where
  "parse_sysctl s = fold (\<lambda>(k, v). dict_set k v) (List.map_filter sysctl_entry (splitlines s)) []"

definition render_sysctl :: "(string \<times> string) list \<Rightarrow> string" where
  "render_sysctl settings =
     join [LF] (SYSCTL_MARKER #
       map (\<lambda>key. key @ '' = '' @ the (map_of settings key)) (sort (map fst settings))) @ [LF]"

definition sysctl_load_argv :: "string \<Rightarrow> string \<Rightarrow> string list" where
  "sysctl_load_argv path sysctl = [sysctl, ''-p'', path]"

definition sysctl_read_argv :: "string \<Rightarrow> string \<Rightarrow> string list" where
  "sysctl_read_argv key sysctl = [sysctl, ''-n'', key]"

section \<open>gest.backend.sysctl\<close>

record ctl_state =
  ct_files :: files
  ct_ran :: "string list list"

record ctl_env =
  ce_fault :: "write_op \<Rightarrow> bool"
  ce_tmp :: string
  ce_partial :: string
  ce_sysctl :: string
  ce_run :: "string list \<Rightarrow> int \<times> string \<times> string"

record ctl_call =
  cc_pairs :: "(string \<times> string) list"
  cc_root :: string

definition apply_settings :: "ctl_env \<Rightarrow> (string \<times> string) list \<Rightarrow> string \<Rightarrow> ctl_state \<Rightarrow> ctl_state \<times> (bool \<times> string) res" where
  "apply_settings env pairs root s =
     (let settings = fold (\<lambda>(k, v). dict_set k v) pairs []
      in case List.find (\<lambda>(k, v). \<not> (valid_sysctl_key k \<and> valid_sysctl_value v)) settings of
           Some (k, v) \<Rightarrow> (s, Inl (ValueError (''invalid sysctl setting: '' @ py_repr k)))
         | None \<Rightarrow>
             (let dropin = resolve root SYSCTL_DROPIN
              in case replace_file (ce_fault env) (ce_tmp env) (ce_partial env) (Some MODE_644) dropin
                        (render_sysctl settings) (ct_files s) of
                   (fs, Inl e) \<Rightarrow> (s\<lparr>ct_files := fs\<rparr>, Inl e)
                 | (fs, Inr p) \<Rightarrow>
                     (let s = s\<lparr>ct_files := fs\<rparr>; n = nat_str (length settings)
                      in if settings = [] then (s, Inr (True, ''cleared the GeST sysctl drop-in''))
                         else if is_target root
                           then (s, Inr (True, ''wrote '' @ n @ '' setting(s) to '' @ dropin
                                   @ '' (target root; not loaded live)''))
                         else
                           (let argv = sysctl_load_argv dropin (ce_sysctl env)
                            in case ce_run env argv of (code, stdout, stderr) \<Rightarrow>
                                 (let out = strip (stdout @ (if stderr \<noteq> [] then LF # stderr else []))
                                  in (s\<lparr>ct_ran := ct_ran s @ [argv]\<rparr>,
                                      Inr (code = 0, if out \<noteq> [] then out
                                           else ''applied '' @ n @ '' sysctl setting(s)'')))))))"

definition ctl_body :: "ctl_env \<Rightarrow> ctl_call \<Rightarrow> ctl_state \<Rightarrow> ctl_state \<times> (bool \<times> string) res" where
  "ctl_body env call s =
     (case guard_config_root (cc_root call) of
        Inl e \<Rightarrow> (s, Inl e) | Inr _ \<Rightarrow> apply_settings env (cc_pairs call) (cc_root call) s)"

definition sysctl_on_call :: "ctl_env \<Rightarrow> caller \<Rightarrow> ctl_call \<Rightarrow> ctl_state world \<Rightarrow> ctl_state world \<times> reply res" where
  "sysctl_on_call env who call w =
     guarded_call [''ApplySettings''] ''Not authorized to change kernel parameters'' who ''ApplySettings''
       (nat_str (length (cc_pairs call)) @ '' keys root='' @ cc_root call) (ctl_body env call) w"

section \<open>The drop-in is read back\<close>

definition sysctl_word :: "string \<Rightarrow> bool" where
  "sysctl_word v = (v \<noteq> [] \<and> strip v = v \<and> list_all (\<lambda>c. \<not> is_linebreak c) v)"

lemma sysctl_key_chars: "valid_sysctl_key k \<Longrightarrow> k \<noteq> [] \<and> list_all (\<lambda>c. \<not> is_space c \<and> c \<notin> set ''=;#'') k"
proof -
  assume "valid_sysctl_key k"
  then have "k \<noteq> []" "list_all sysctl_char k"
    by (auto simp: valid_sysctl_key_def KEY_RE_def rx_simps sysctl_char_def)
  moreover have "sysctl_char c \<Longrightarrow> \<not> is_space c \<and> c \<notin> set ''=;#''" for c
    by (auto simp: sysctl_char_def low_alnum_def char_class_defs)
  ultimately show ?thesis by (auto intro: list.pred_mono_strong)
qed

lemma sysctl_entry_line:
  assumes "valid_sysctl_key k" "sysctl_word v"
  shows "sysctl_entry (k @ '' = '' @ v) = Some (k, v)"
proof -
  obtain c t where k: "k = c # t" "\<not> is_space c" "c \<notin> set '';#''" "CHR ''='' \<notin> set k"
    "list_all (\<lambda>c. \<not> is_space c) k"
    using sysctl_key_chars [OF assms(1)] by (cases k) (auto simp: list_all_iff)
  have v: "v \<noteq> []" "strip v = v" "\<not> is_space (last v)"
    using assms(2) strip_last [of v] by (auto simp: sysctl_word_def)
  have s: "strip (k @ '' = '' @ v) = k @ '' = '' @ v"
    using k v by (intro strip_eq_self) auto
  have b: "before_char (CHR ''='') (k @ '' = '' @ v) = k @ '' ''"
    using k(4) by (simp add: before_char_def takeWhile_append)
  have "strip (k @ '' '') = k"
    using k(5) strip_snoc_space [of "CHR '' ''" k] strip_nospace [of k] by simp
  moreover have "strip (after_char (CHR ''='') (k @ '' = '' @ v)) = v"
    unfolding after_char_def b using v(2) by simp
  ultimately show ?thesis
    using k v(1) s b by (auto simp: sysctl_entry_def Let_def startswith_def)
qed

lemma fold_dict_set_distinct:
  "distinct (map fst (d @ es)) \<Longrightarrow> fold (\<lambda>(k, v). dict_set k v) es d = d @ es"
proof (induction es arbitrary: d)
  case (Cons e es)
  obtain k v where e: "e = (k, v)" by (cases e)
  have "dict_set k v d = d @ [(k, v)]"
    using Cons.prems e by (intro dict_set_new) auto
  then show ?case using Cons.IH [of "d @ [(k, v)]"] Cons.prems e by simp
qed simp

text \<open>The kernel parameters written into the drop-in are the ones read back: whatever valid
  settings go in, in whatever order, the parser finds every key with its value and no other key.
  (A value must be free of surrounding white space and line boundaries, which the validator does
  not ask for.)\<close>

theorem sysctl_roundtrip:
  assumes "valid_settings d" "distinct (map fst d)" "list_all (\<lambda>(k, v). sysctl_word v) d"
  shows "map_of (parse_sysctl (render_sysctl d)) = map_of d \<and>
    map fst (parse_sysctl (render_sysctl d)) = sort (map fst d)"
proof -
  let ?ks = "sort (map fst d)"
  let ?line = "\<lambda>key. key @ '' = '' @ the (map_of d key)"
  have m: "valid_sysctl_key k \<and> sysctl_word (the (map_of d k))" if k: "k \<in> set ?ks" for k
  proof -
    obtain v where "(k, v) \<in> set d" "map_of d k = Some v"
      using k assms(2) by (auto simp: map_of_eq_Some_iff)
    then show ?thesis using assms by (auto simp: valid_settings_def list_all_iff)
  qed
  have hd: "list_all (\<lambda>c. \<not> is_linebreak c) SYSCTL_MARKER" "sysctl_entry SYSCTL_MARKER = None" by code_simp+
  have nl: "list_all (\<lambda>c. \<not> is_linebreak c) '' = ''" by code_simp
  have "list_all (list_all (\<lambda>c. \<not> is_linebreak c)) (map ?line ?ks)"
    unfolding list.pred_map o_def list_all_append
  proof (rule list_all_iff [THEN iffD2], intro ballI conjI)
    fix k
    assume "k \<in> set ?ks"
    from m [OF this] show "list_all (\<lambda>c. \<not> is_linebreak c) k" "list_all (\<lambda>c. \<not> is_linebreak c) (the (map_of d k))"
      using sysctl_key_chars [of k] nonspace_not_linebreak by (auto simp: sysctl_word_def list_all_iff)
  qed (rule nl)
  then have "splitlines (render_sysctl d) = SYSCTL_MARKER # map ?line ?ks"
    unfolding render_sysctl_def using hd(1) by (intro splitlines_join_LF) (simp_all only: list.pred_inject simp_thms list.distinct not_False_eq_True)
  moreover have "List.map_filter sysctl_entry (map ?line ks) = map (\<lambda>k. (k, the (map_of d k))) ks"
    if "set ks \<subseteq> set ?ks" for ks
    using that
  proof (induction ks)
    case (Cons k ks)
    then have "sysctl_entry (?line k) = Some (k, the (map_of d k))"
      using sysctl_entry_line m by simp
    with Cons show ?case by (simp add: map_filter_simps del: append.simps)
  qed (simp add: map_filter_simps)
  ultimately have p: "parse_sysctl (render_sysctl d) = map (\<lambda>k. (k, the (map_of d k))) ?ks"
    using hd(2) fold_dict_set_distinct [of "[]" "map (\<lambda>k. (k, the (map_of d k))) ?ks"] assms(2)
    by (simp add: parse_sysctl_def map_filter_simps o_def)
  have "map_of (map (\<lambda>k. (k, the (map_of d k))) ?ks) k = map_of d k" for k
    unfolding map_of_map_keys set_sort set_map by (metis map_of_eq_None_iff option.collapse)
  with p show ?thesis by (auto simp: fun_eq_iff o_def)
qed

lemma sysctl_roundtrip_witness:
  "map fst (parse_sysctl (render_sysctl [(''vm.swappiness'', ''10''), (''net.ipv4.ip_forward'', ''1'')]))
     = [''net.ipv4.ip_forward'', ''vm.swappiness'']"
proof -
  let ?d = "[(''vm.swappiness'', ''10''), (''net.ipv4.ip_forward'', ''1'')]"
  have "valid_settings ?d" "distinct (map fst ?d)" "list_all (\<lambda>(k, v). sysctl_word v) ?d" by code_simp+
  from sysctl_roundtrip [OF this] have "map fst (parse_sysctl (render_sysctl ?d)) = sort (map fst ?d)" by blast
  also have "sort (map fst ?d) = [''net.ipv4.ip_forward'', ''vm.swappiness'']" by code_simp
  finally show ?thesis .
qed

section \<open>Confinement\<close>

lemma ctl_body_writes:
  assumes "ctl_body env call s = (s', r)" "q \<noteq> ce_tmp env" "ct_files s' q \<noteq> ct_files s q"
  shows "valid_config_root (cc_root call) \<and> q = resolve (cc_root call) SYSCTL_DROPIN \<and>
    ct_files s' q = Some (render_sysctl (fold (\<lambda>(k, v). dict_set k v) (cc_pairs call) []), MODE_644)"
  using assms
  by (auto simp: ctl_body_def guard_config_root_def apply_settings_def Let_def
      split: if_splits option.splits prod.splits sum.splits dest!: replace_file_frame [OF _ assms(2)])

interpretation sysctl: root_service "ctl_body env" "\<lambda>s. ct_files s" cc_root "\<lambda>_. {SYSCTL_DROPIN}" "\<lambda>_. {ce_tmp env}" for env
  by unfold_locales (use ctl_body_writes in blast)

lemma sysctl_service_confined:
  assumes "sysctl_on_call env who call w = (w', r)" "q \<noteq> ce_tmp env"
    "ct_files (wd_state w') q \<noteq> ct_files (wd_state w) q"
  shows "cl_authorized who \<and> valid_config_root (cc_root call) \<and> q = resolve (cc_root call) SYSCTL_DROPIN"
  using sysctl.call_confined [OF assms(1) [unfolded sysctl_on_call_def]] assms(2,3) by blast

end
