(* ===== verification/KernelBuild.thy ===== *)
theory KernelBuild
  imports Exec Regex "HOL-Library.Char_ord" "HOL-Library.List_Lexorder"
begin

text \<open>
  \<open>gest/core/kernel\<close>: the validated command builders (\<open>commands.py\<close>), the build
  pipeline (\<open>build.py\<close>) and the pure part of \<open>reader.py\<close>. The number of CPUs of
  the machine is an argument. \<open>build_pipeline\<close> characterises the pipeline: when a
  request builds at all, and what it runs then.
\<close>

section \<open>commands.py\<close>

definition kver_char :: "char \<Rightarrow> bool" where
  "kver_char c = (alnum_az c \<or> c \<in> set ''._+-'')"

definition KVER_RE :: rx where
  "KVER_RE = Seq (Cls alnum_az) (Star (Cls kver_char))"

definition MAX_JOBS :: int where
  "MAX_JOBS = 512"

definition MAKE_TARGETS :: "string list" where
  "MAKE_TARGETS = [[], ''modules_install'', ''install'']"

definition GENKERNEL_ACTIONS :: "string list" where
  "GENKERNEL_ACTIONS = [''all'', ''initramfs'']"

definition valid_build_path :: "string \<Rightarrow> bool" where
  "valid_build_path path =
     (startswith path ''/'' \<and> LF \<notin> set path \<and> NUL \<notin> set path \<and> \<not> contains ''..'' path)"

definition require_jobs :: "int \<Rightarrow> int res" where
  "require_jobs jobs =
     guard (1 \<le> jobs \<and> jobs \<le> MAX_JOBS) (ValueError (''invalid job count: '' @ int_str jobs)) (Inr jobs)"

definition genkernel_argv :: "string \<Rightarrow> bool \<Rightarrow> string \<Rightarrow> string \<Rightarrow> string list res" where
  "genkernel_argv kernel_config plymouth action genkernel =
     guard (action \<in> set GENKERNEL_ACTIONS) (ValueError (''unsupported genkernel action: '' @ py_repr action))
       (guard (kernel_config = [] \<or> valid_build_path kernel_config)
          (ValueError (''invalid kernel config path: '' @ py_repr kernel_config))
          (Inr ([genkernel]
             @ (if kernel_config \<noteq> [] then [''--kernel-config='' @ kernel_config] else [])
             @ (if plymouth then [''--plymouth'', ''--plymouth-theme=hede''] else [])
             @ [action])))"

definition make_argv :: "string \<Rightarrow> int \<Rightarrow> string \<Rightarrow> string \<Rightarrow> string list res" where
  "make_argv target jobs directory tool =
     guard (valid_build_path directory) (ValueError (''invalid source directory: '' @ py_repr directory))
       (guard (target \<in> set MAKE_TARGETS) (ValueError (''unsupported make target: '' @ py_repr target))
          (res_bind (require_jobs jobs) (\<lambda>j.
             Inr ([tool, ''-C'', directory, ''-j'' @ int_str j] @ (if target \<noteq> [] then [target] else [])))))"

definition dracut_argv :: "string \<Rightarrow> bool \<Rightarrow> bool \<Rightarrow> bool \<Rightarrow> string \<Rightarrow> string list res" where
  "dracut_argv kver force plymouth resume dracut =
     guard (kver = [] \<or> fullmatch KVER_RE kver) (ValueError (''invalid kernel version: '' @ py_repr kver))
       (Inr ([dracut]
          @ (if force then [''--force''] else [])
          @ (if plymouth then [''--add'', ''plymouth''] else [])
          @ (if resume then [''--add'', ''resume''] else [])
          @ (if kver \<noteq> [] then [''--kver'', kver] else [])))"

section \<open>reader.py\<close>

text \<open>\<open>sorted(..., reverse=True)\<close>: newest name first.\<close>

definition parse_sources :: "string list \<Rightarrow> string list" where
  "parse_sources names = rev (sort (filter (\<lambda>n. startswith n ''linux-'') names))"

text \<open>\<open>os.cpu_count() or 1\<close>.\<close>

definition cpu_count :: "nat option \<Rightarrow> int" where
  "cpu_count os = (case os of None \<Rightarrow> 1 | Some n \<Rightarrow> if n = 0 then 1 else int n)"

section \<open>build.py\<close>

record build_config =
  bc_method :: string
  bc_source_dir :: string
  bc_jobs :: int
  bc_kernel_config :: string
  bc_initramfs :: bool
  bc_kver :: string
  bc_plymouth :: bool

definition BuildConfig :: "string \<Rightarrow> build_config" where
  "BuildConfig method = \<lparr>bc_method = method, bc_source_dir = ''/usr/src/linux'', bc_jobs = 0,
     bc_kernel_config = [], bc_initramfs = True, bc_kver = [], bc_plymouth = False\<rparr>"

definition build_jobs :: "nat option \<Rightarrow> build_config \<Rightarrow> int" where
  "build_jobs os config = (if bc_jobs config > 0 then bc_jobs config else min (cpu_count os) MAX_JOBS)"

definition build_step :: "string \<Rightarrow> string list res \<Rightarrow> step res" where
  "build_step label argv = res_bind argv (\<lambda>a. Inr (Step label a))"

definition build_steps :: "nat option \<Rightarrow> build_config \<Rightarrow> step list res" where
  "build_steps os config =
     (if bc_method config = ''genkernel'' then
        res_map id [build_step ''genkernel all''
          (genkernel_argv (bc_kernel_config config) (bc_plymouth config) ''all'' ''genkernel'')]
      else if bc_method config \<noteq> ''make'' then
        Inl (ValueError (''unknown build method: '' @ py_repr (bc_method config)))
      else
        (let jobs = build_jobs os config; dir = bc_source_dir config
         in res_map id
              ([build_step ''build kernel'' (make_argv [] jobs dir ''make''),
                build_step ''install modules'' (make_argv ''modules_install'' jobs dir ''make''),
                build_step ''install kernel'' (make_argv ''install'' jobs dir ''make'')]
               @ (if bc_initramfs config
                  then [build_step ''build initramfs''
                          (dracut_argv (bc_kver config) True (bc_plymouth config) True ''dracut'')]
                  else []))))"

definition build :: "nat option \<Rightarrow> build_config \<Rightarrow> 'w executor \<Rightarrow> 'w \<Rightarrow> 'w \<times> event list \<times> (pipe_error + step list)" where
  "build os config run w =
     (case build_steps os config of
        Inl e \<Rightarrow> (w, [], Inl (Raised e))
      | Inr steps \<Rightarrow> run_steps run steps w)"

section \<open>What a build runs\<close>

text \<open>The requests that build: every field a command uses passes its validator.\<close>

definition buildable :: "build_config \<Rightarrow> bool" where
  "buildable config =
     (if bc_method config = ''genkernel''
      then bc_kernel_config config = [] \<or> valid_build_path (bc_kernel_config config)
      else bc_method config = ''make'' \<and> valid_build_path (bc_source_dir config) \<and> bc_jobs config \<le> MAX_JOBS \<and>
        \<not> (bc_initramfs config \<and> bc_kver config \<noteq> [] \<and> \<not> fullmatch KVER_RE (bc_kver config)))"

definition make_line :: "build_config \<Rightarrow> int \<Rightarrow> string list \<Rightarrow> string list" where
  "make_line config jobs rest = [''make'', ''-C'', bc_source_dir config, ''-j'' @ int_str jobs] @ rest"

definition expected_commands :: "build_config \<Rightarrow> int \<Rightarrow> string list list" where
  "expected_commands config jobs =
     (if bc_method config = ''genkernel'' then
        [[''genkernel''] @ (if bc_kernel_config config \<noteq> [] then [''--kernel-config='' @ bc_kernel_config config] else [])
          @ (if bc_plymouth config then [''--plymouth'', ''--plymouth-theme=hede''] else []) @ [''all'']]
      else
        [make_line config jobs [], make_line config jobs [''modules_install''], make_line config jobs [''install'']]
        @ (if bc_initramfs config
           then [[''dracut'', ''--force''] @ (if bc_plymouth config then [''--add'', ''plymouth''] else [])
                  @ [''--add'', ''resume''] @ (if bc_kver config \<noteq> [] then [''--kver'', bc_kver config] else [])]
           else []))"

lemma cpu_count_pos: "1 \<le> cpu_count os"
  by (simp add: cpu_count_def split: option.splits)

lemma build_jobs_range:
  assumes "bc_jobs config \<le> MAX_JOBS"
  shows "1 \<le> build_jobs os config \<and> build_jobs os config \<le> MAX_JOBS"
  using cpu_count_pos [of os] assms by (simp add: build_jobs_def MAX_JOBS_def)

lemma build_jobs_bound: "build_jobs os config \<le> MAX_JOBS \<longleftrightarrow> bc_jobs config \<le> MAX_JOBS"
  by (simp add: build_jobs_def MAX_JOBS_def)

text \<open>The pipeline of a request: it exists exactly when the request is valid, whatever number of
  CPUs the machine reports, and it is then the expected commands with a job count in range.\<close>

lemma make_argv_eq:
  "target \<in> set MAKE_TARGETS \<Longrightarrow> make_argv target jobs dir tool =
     (if valid_build_path dir then
        (if 1 \<le> jobs \<and> jobs \<le> MAX_JOBS
         then Inr ([tool, ''-C'', dir, ''-j'' @ int_str jobs] @ (if target \<noteq> [] then [target] else []))
         else Inl (ValueError (''invalid job count: '' @ int_str jobs)))
      else Inl (ValueError (''invalid source directory: '' @ py_repr dir)))"
  by (simp add: make_argv_def require_jobs_def guard_def)

lemma make_targets [simp]:
  "[] \<in> set MAKE_TARGETS" "''modules_install'' \<in> set MAKE_TARGETS" "''install'' \<in> set MAKE_TARGETS"
  "''all'' \<in> set GENKERNEL_ACTIONS" "''initramfs'' \<in> set GENKERNEL_ACTIONS"
  by (simp_all add: MAKE_TARGETS_def GENKERNEL_ACTIONS_def)

lemma build_pipeline_ok:
  assumes "buildable config"
  shows "\<exists>steps. build_steps os config = Inr steps \<and>
    map st_argv steps = expected_commands config (build_jobs os config)"
proof (cases "bc_method config = ''genkernel''")
  case True
  then show ?thesis
    using assms
    by (simp add: build_steps_def build_step_def genkernel_argv_def buildable_def expected_commands_def)
next
  case False
  with assms have ok: "bc_method config = ''make''" "valid_build_path (bc_source_dir config)"
    "bc_jobs config \<le> MAX_JOBS"
    and kv: "\<not> (bc_initramfs config \<and> bc_kver config \<noteq> [] \<and> \<not> fullmatch KVER_RE (bc_kver config))"
    by (simp_all add: buildable_def)
  from kv show ?thesis
    using ok build_jobs_range [OF ok(3), of os]
    by (cases "bc_initramfs config")
      (auto simp: build_steps_def build_step_def make_argv_eq dracut_argv_def expected_commands_def make_line_def Let_def)
qed

lemma build_pipeline_only: "build_steps os config = Inr steps \<Longrightarrow> buildable config"
  by (cases "bc_method config = ''genkernel''"; cases "bc_initramfs config")
    (auto simp: build_steps_def build_step_def buildable_def genkernel_argv_def make_argv_eq dracut_argv_def
      Let_def guard_def build_jobs_bound split: if_splits sum.splits)

lemma is_ok_build_steps: "is_ok (build_steps os config) = buildable config"
  using build_pipeline_ok [of config os] build_pipeline_only [of os config] by (auto simp: is_ok_iff)

text \<open>C31: A kernel build request has a pipeline exactly when its method, paths, version and job
  count are valid, whatever number of CPUs the machine reports; the pipeline is then genkernel
  alone, or compile, install modules, install kernel and the initramfs, in that order.\<close>

theorem build_pipeline:
  "is_ok (build_steps os config) = buildable config \<and>
    map_sum (\<lambda>e. ()) (map st_argv) (build_steps os config) =
      (if buildable config then Inr (expected_commands config (build_jobs os config)) else Inl ())"
proof (cases "buildable config")
  case True
  from build_pipeline_ok [OF this, of os] True show ?thesis by auto
next
  case False
  with build_pipeline_only [of os config] show ?thesis
    by (cases "build_steps os config") auto
qed

end
