(* ===== verification/BootConfig.thy ===== *)
theory BootConfig
  imports KernelBuild
begin

text \<open>
  The text of \<open>/etc/default/grub\<close> and what surrounds it: the seamless boot settings and the
  hibernate argument of \<open>gest/core/bootloader/seamless.py\<close>, the graphics driver files and
  command line of \<open>gest/core/install/gpu.py\<close>. Two edits share one file: setting keys
  (\<open>apply_grub_default\<close>) and merging words into the kernel command line
  (\<open>merge_cmdline\<close>). \<open>grub_keys_set\<close> and \<open>cmdline_merged\<close> say what each
  does to the lines of the file, and that repeating it changes nothing.
\<close>

section \<open>Setting keys: apply\_grub\_default\<close>

definition SEAMLESS_CMDLINE :: string where
  "SEAMLESS_CMDLINE = ''quiet splash loglevel=3 rd.udev.log_level=3 vt.global_cursor_default=0 systemd.show_status=false''"

definition THEME_SRC :: string where
  "THEME_SRC = ''/usr/share/hede/grub/hede''"

definition THEME_DST :: string where
  "THEME_DST = ''/boot/grub/themes/hede''"

definition THEME_TXT :: string where
  "THEME_TXT = THEME_DST @ ''/theme.txt''"

definition PLYMOUTH_THEME :: string where
  "PLYMOUTH_THEME = ''hede''"

definition grub_settings :: "string \<Rightarrow> (string \<times> string) list" where
  "grub_settings theme =
    [(''GRUB_TIMEOUT'', ''5''),
     (''GRUB_CMDLINE_LINUX_DEFAULT'', SEAMLESS_CMDLINE),
     (''GRUB_TERMINAL_OUTPUT'', ''gfxterm''),
     (''GRUB_GFXMODE'', ''auto''),
     (''GRUB_THEME'', theme)]"

text \<open>A line after its indentation and one optional comment sign.\<close>

definition uncommented :: "string \<Rightarrow> string" where
  "uncommented line =
     (case lstrip line of [] \<Rightarrow> [] | c # cs \<Rightarrow> if c = HASH then lstrip cs else c # cs)"

definition key_char :: "char \<Rightarrow> bool" where
  "key_char c = (upper_az c \<or> dec_digit c \<or> c = CHR ''_'')"

text \<open>\<open>_KEY_RE\<close>: the key of an assignment, commented out or not.\<close>

definition grub_key :: "string \<Rightarrow> string option" where
  "grub_key line =
     (let k = takeWhile key_char (uncommented line)
      in if k \<noteq> [] \<and> startswith (drop (length k) (uncommented line)) ''='' then Some k else None)"

definition setting_line :: "string \<Rightarrow> string \<Rightarrow> string" where
  "setting_line k v = k @ ''=\"'' @ v @ ''\"''"

fun rewrite_keys :: "(string \<times> string) list \<Rightarrow> string list \<Rightarrow> string list \<times> (string \<times> string) list" where
  "rewrite_keys pending [] = ([], pending)"
| "rewrite_keys pending (line # ls) =
     (case grub_key line of
        None \<Rightarrow> (let (out, p) = rewrite_keys pending ls in (line # out, p))
      | Some k \<Rightarrow>
          (case map_of pending k of
             None \<Rightarrow> (let (out, p) = rewrite_keys pending ls in (line # out, p))
           | Some v \<Rightarrow>
               (let (out, p) = rewrite_keys (filter (\<lambda>(k', v'). k' \<noteq> k) pending) ls
                in (setting_line k v # out, p))))"

definition SEAMLESS_MARK :: string where
  "SEAMLESS_MARK = ''# Seamless boot (HeDE) '' @ EMDASH @ '' managed by GeST''"

definition pending_block :: "string list \<Rightarrow> (string \<times> string) list \<Rightarrow> string list" where
  "pending_block out p =
     (if p = [] then []
      else (if out \<noteq> [] \<and> strip (last out) \<noteq> [] then [[]] else [])
        @ SEAMLESS_MARK # map (\<lambda>(k, v). setting_line k v) p)"

definition apply_grub_default :: "string \<Rightarrow> (string \<times> string) list \<Rightarrow> string" where
  "apply_grub_default existing settings =
     (let (out, p) = rewrite_keys settings (splitlines existing)
      in rstrip_char LF (join [LF] (out @ pending_block out p)) @ [LF])"

definition grub_default :: "string \<Rightarrow> string" where
  "grub_default existing = apply_grub_default existing (grub_settings THEME_TXT)"

section \<open>Merging the kernel command line\<close>

definition GRUB_CMDLINE_KEY :: string where
  "GRUB_CMDLINE_KEY = ''GRUB_CMDLINE_LINUX''"

text \<open>
  The words a line assigns to a key: the pattern takes what stands between the quotes if the
  value is quoted as a whole, and the rest of the line otherwise.
\<close>

definition cmdline_value :: "string \<Rightarrow> string" where
  "cmdline_value rest =
     (let r = rstrip rest
      in if 2 \<le> length r \<and> hd r = DQUOTE \<and> last r = DQUOTE then butlast (tl r) else rest)"

definition cmdline_words :: "string \<Rightarrow> string \<Rightarrow> string list option" where
  "cmdline_words key line =
     (if startswith (uncommented line) (key @ ''='')
      then Some (py_split (cmdline_value (drop (length key + 1) (uncommented line)))) else None)"

definition cmdline_line :: "string \<Rightarrow> string list \<Rightarrow> string" where
  "cmdline_line key ws = key @ ''=\"'' @ join '' '' ws @ ''\"''"

definition missing :: "string list \<Rightarrow> string list \<Rightarrow> string list" where
  "missing cur want = filter (\<lambda>a. a \<notin> set cur) want"

fun merge_lines :: "string \<Rightarrow> string list \<Rightarrow> string list \<Rightarrow> string list option" where
  "merge_lines key want [] = None"
| "merge_lines key want (line # ls) =
     (case cmdline_words key line of
        Some cur \<Rightarrow> Some (cmdline_line key (cur @ missing cur want) # ls)
      | None \<Rightarrow> map_option (Cons line) (merge_lines key want ls))"

definition merge_cmdline :: "string \<Rightarrow> string \<Rightarrow> string list \<Rightarrow> string \<Rightarrow> string" where
  "merge_cmdline key comment want existing =
     (let lines = split_char LF existing
      in case merge_lines key want lines of
           Some ls \<Rightarrow> join [LF] ls
         | None \<Rightarrow> join [LF] (lines @ (if strip (last lines) \<noteq> [] then [[]] else [])
             @ [comment, cmdline_line key want]))"

definition resume_cmdline :: "string \<Rightarrow> string" where
  "resume_cmdline swap_uuid = (if swap_uuid \<noteq> [] then ''resume=UUID='' @ swap_uuid else [])"

definition RESUME_MARK :: string where
  "RESUME_MARK = ''# Hibernate resume '' @ EMDASH @ '' managed by GeST''"

definition apply_resume_cmdline :: "string \<Rightarrow> string \<Rightarrow> string" where
  "apply_resume_cmdline existing swap_uuid =
     (let args = resume_cmdline swap_uuid
      in if args = [] then existing
         else merge_cmdline GRUB_CMDLINE_KEY RESUME_MARK (py_split args) existing)"

section \<open>The theme and the initramfs\<close>

definition stage_theme_steps :: "string \<Rightarrow> step list" where
  "stage_theme_steps root =
     [Step ''prepare the GRUB theme dir'' [''mkdir'', ''-p'', root @ THEME_DST],
      Step ''stage the HeDE GRUB theme'' [''cp'', ''-rT'', root @ THEME_SRC, root @ THEME_DST],
      Step ''select the Plymouth splash'' [''plymouth-set-default-theme'', PLYMOUTH_THEME]]"

definition PLYMOUTH_SCRIPT_DST :: string where
  "PLYMOUTH_SCRIPT_DST = ''/usr/share/plymouth/themes/hede/hede.script''"

definition PLYMOUTH_BG_DST :: string where
  "PLYMOUTH_BG_DST = ''/usr/share/plymouth/themes/hede/background.png''"

definition boot_theme_installs :: "string \<Rightarrow> string \<Rightarrow> (string \<times> string) list" where
  "boot_theme_installs staging root =
     [(staging @ ''/plymouth/hede/hede.script'', root @ PLYMOUTH_SCRIPT_DST),
      (staging @ ''/grub/hede/theme.txt'', root @ THEME_TXT)]"

definition boot_scene_install :: "string \<Rightarrow> string \<Rightarrow> string \<times> string" where
  "boot_scene_install staging root = (staging @ ''/plymouth/hede/background.png'', root @ PLYMOUTH_BG_DST)"

definition initramfs_regen_step :: "step res" where
  "initramfs_regen_step =
     build_step ''rebuild the initramfs (Plymouth splash)'' (genkernel_argv [] True ''initramfs'' ''genkernel'')"

text \<open>
  \<open>seamless_steps\<close> reads the file itself before it builds the pipeline; \<open>read\<close> is
  that read, None for the OSError.
\<close>

definition seamless_steps :: "(string \<Rightarrow> string option) \<Rightarrow> string \<Rightarrow> step list" where
  "seamless_steps read root =
     (let path = root @ ''/etc/default/grub'';
          existing = (case read path of None \<Rightarrow> [] | Some t \<Rightarrow> t)
      in \<lparr>st_label = ''write '' @ path, st_argv = [''tee'', path], st_stdin = Some (grub_default existing)\<rparr>
         # stage_theme_steps root)"

section \<open>gpu.py\<close>

record gpu_spec =
  gp_video_cards :: "string list"
  gp_nvidia_proprietary :: bool
  gp_kernel_open :: bool
  gp_nvidia_slot :: string

definition PACKAGE_LICENSE :: string where
  "PACKAGE_LICENSE = ''/etc/portage/package.license/gest-gpu''"

definition MODPROBE_CONF :: string where
  "MODPROBE_CONF = ''/etc/modprobe.d/gest-gpu.conf''"

definition GPU_PACKAGE_USE :: string where
  "GPU_PACKAGE_USE = ''/etc/portage/package.use/gest-gpu''"

definition PACKAGE_UNMASK :: string where
  "PACKAGE_UNMASK = ''/etc/portage/package.unmask/gest-gpu''"

definition FIRMWARE_ATOM :: string where
  "FIRMWARE_ATOM = ''sys-kernel/linux-firmware''"

definition NVIDIA_ATOM :: string where
  "NVIDIA_ATOM = ''x11-drivers/nvidia-drivers''"

definition video_cards_value :: "gpu_spec \<Rightarrow> string" where
  "video_cards_value gpu = join '' '' (gp_video_cards gpu)"

definition nvidia_atom :: "gpu_spec \<Rightarrow> string" where
  "nvidia_atom gpu =
     (if gp_nvidia_slot gpu \<noteq> [] then NVIDIA_ATOM @ '':'' @ gp_nvidia_slot gpu else NVIDIA_ATOM)"

definition driver_atoms :: "gpu_spec \<Rightarrow> string list" where
  "driver_atoms gpu = FIRMWARE_ATOM # (if gp_nvidia_proprietary gpu then [nvidia_atom gpu] else [])"

definition package_unmask :: "gpu_spec \<Rightarrow> string" where
  "package_unmask gpu =
     (if gp_nvidia_proprietary gpu \<and> gp_nvidia_slot gpu \<noteq> []
      then ''# Legacy NVIDIA driver slot '' @ EMDASH @ '' managed by GeST'' @ [LF]
        @ NVIDIA_ATOM @ '':'' @ gp_nvidia_slot gpu @ [LF]
      else [])"

definition gpu_package_use :: "gpu_spec \<Rightarrow> string" where
  "gpu_package_use gpu =
     (if gp_nvidia_proprietary gpu \<and> gp_kernel_open gpu
      then ''# GPU USE flags '' @ EMDASH @ '' managed by GeST'' @ [LF] @ NVIDIA_ATOM @ '' kernel-open'' @ [LF]
      else [])"

definition package_license :: "gpu_spec \<Rightarrow> string" where
  "package_license gpu =
     join [LF] ([''# GPU driver + firmware licenses '' @ EMDASH @ '' managed by GeST'',
         FIRMWARE_ATOM @ '' linux-fw-redistributable'']
       @ (if gp_nvidia_proprietary gpu then [NVIDIA_ATOM @ '' NVIDIA-r2''] else [])) @ [LF]"

definition modprobe_conf :: string where
  "modprobe_conf =
     ''# NVIDIA proprietary GPU '' @ EMDASH @ '' managed by GeST'' @ [LF]
       @ ''blacklist nouveau'' @ [LF] @ ''options nvidia_drm modeset=1 fbdev=1'' @ [LF]"

definition NVIDIA_CMDLINE :: string where
  "NVIDIA_CMDLINE = ''rd.driver.blacklist=nouveau modprobe.blacklist=nouveau nvidia_drm.modeset=1 nvidia_drm.fbdev=1''"

definition kernel_cmdline :: "gpu_spec \<Rightarrow> string" where
  "kernel_cmdline gpu = (if gp_nvidia_proprietary gpu then NVIDIA_CMDLINE else [])"

definition GPU_MARK :: string where
  "GPU_MARK = ''# GPU cmdline '' @ EMDASH @ '' managed by GeST''"

definition apply_gpu_cmdline :: "string \<Rightarrow> gpu_spec \<Rightarrow> string" where
  "apply_gpu_cmdline existing gpu =
     (let args = kernel_cmdline gpu
      in if args = [] then existing
         else merge_cmdline GRUB_CMDLINE_KEY GPU_MARK (py_split args) existing)"

section \<open>Keys set and kept\<close>

definition key_name :: "string \<Rightarrow> bool" where
  "key_name k = (k \<noteq> [] \<and> list_all key_char k)"

definition settings_ok :: "(string \<times> string) list \<Rightarrow> bool" where
  "settings_ok s = (distinct (map fst s) \<and> list_all (\<lambda>(k, v). key_name k \<and> line_ok v) s)"

lemma key_char_plain: "key_char c \<Longrightarrow> \<not> is_space c \<and> c \<noteq> HASH \<and> c \<noteq> CHR ''='' \<and> \<not> is_linebreak c"
  by (auto simp: key_char_def upper_az_def dec_digit_def is_space_def is_linebreak_def ordc_def)

lemma takeWhile_stop: "list_all P xs \<Longrightarrow> \<not> P y \<Longrightarrow> takeWhile P (xs @ y # ys) = xs"
  by (induction xs) auto

lemma uncommented_plain: "s \<noteq> [] \<Longrightarrow> \<not> is_space (hd s) \<Longrightarrow> hd s \<noteq> HASH \<Longrightarrow> uncommented s = s"
  by (cases s) (auto simp: uncommented_def lstrip_def)

lemma uncommented_key:
  assumes "key_name k" shows "uncommented (k @ s) = k @ s"
proof (rule uncommented_plain)
  obtain c cs where k: "k = c # cs" "key_char c"
    using assms by (cases k) (auto simp: key_name_def)
  then show "k @ s \<noteq> []" "\<not> is_space (hd (k @ s))" "hd (k @ s) \<noteq> HASH"
    using key_char_plain by auto
qed

lemma grub_key_setting: "key_name k \<Longrightarrow> grub_key (setting_line k v) = Some k"
proof -
  assume k: "key_name k"
  have "\<not> key_char (CHR ''='')" using key_char_plain by blast
  then have "takeWhile key_char (k @ CHR ''='' # t) = k" for t
    using k by (intro takeWhile_stop) (simp_all add: key_name_def)
  with k show ?thesis
    using uncommented_key [OF k]
    by (simp add: grub_key_def setting_line_def startswith_def key_name_def)
qed

lemma rewrite_keys_append:
  "rewrite_keys p (xs @ ys) =
     (fst (rewrite_keys p xs) @ fst (rewrite_keys (snd (rewrite_keys p xs)) ys),
      snd (rewrite_keys (snd (rewrite_keys p xs)) ys))"
  by (induction p xs rule: rewrite_keys.induct) (auto simp: Let_def split: option.splits prod.splits)

lemma settings_ok_filter: "settings_ok p \<Longrightarrow> settings_ok (filter (\<lambda>(k', v'). k' \<noteq> k) p)"
  by (auto simp: settings_ok_def list_all_iff distinct_map inj_on_def)

lemma rewrite_keys_pending: "settings_ok p \<Longrightarrow> settings_ok (snd (rewrite_keys p ls))"
proof (induction p ls rule: rewrite_keys.induct)
  case (2 p l ls)
  from 2(4) have "settings_ok (filter (\<lambda>(k', v'). k' \<noteq> k) p)" for k by (rule settings_ok_filter)
  with 2 show ?case by (simp add: Let_def case_prod_beta split: option.splits)
qed simp

lemma rewrite_keys_twice:
  "settings_ok p \<Longrightarrow> rewrite_keys p (fst (rewrite_keys p ls)) = rewrite_keys p ls"
proof (induction p ls rule: rewrite_keys.induct)
  case (2 p l ls)
  show ?case
  proof (cases "grub_key l")
    case None
    then show ?thesis using 2 by (auto simp: Let_def split: prod.splits)
  next
    case (Some k)
    show ?thesis
    proof (cases "map_of p k")
      case None
      then show ?thesis using 2 Some by (auto simp: Let_def split: prod.splits)
    next
      case (Some v)
      then have "key_name k"
        using 2(4) map_of_SomeD [OF Some] by (auto simp: settings_ok_def list_all_iff)
      then show ?thesis
        using 2(3) [OF \<open>grub_key l = Some k\<close> Some settings_ok_filter [OF 2(4)]] Some \<open>grub_key l = Some k\<close>
        by (auto simp: Let_def grub_key_setting split: prod.splits)
    qed
  qed
qed simp

lemma rewrite_keys_settings:
  "settings_ok p \<Longrightarrow> rewrite_keys p (map (\<lambda>(k, v). setting_line k v) p) = (map (\<lambda>(k, v). setting_line k v) p, [])"
proof (induction p)
  case (Cons e p)
  obtain k v where e: "e = (k, v)" by (cases e)
  have ok: "settings_ok p" "key_name k" "k \<notin> fst ` set p"
    using Cons.prems by (auto simp: settings_ok_def e)
  then have "filter (\<lambda>(k', v'). k' \<noteq> k) p = p"
    by (intro filter_eq_self) (auto simp: list_all_iff image_iff)
  then show ?case
    using Cons.IH ok by (simp add: e grub_key_setting)
qed simp

lemma grub_key_mark: "grub_key SEAMLESS_MARK = None" "grub_key [] = None"
  by code_simp+

lemma rewrite_keys_block: "settings_ok p \<Longrightarrow> rewrite_keys p (pending_block out p) = (pending_block out p, [])"
  using rewrite_keys_settings [of p] by (cases p) (auto simp: pending_block_def grub_key_mark Let_def)

text \<open>Processing the file a second time finds every key set already.\<close>

lemma rewrite_keys_written:
  assumes "settings_ok p" "rewrite_keys p ls = (out, p')"
  shows "rewrite_keys p (out @ pending_block out p') = (out @ pending_block out p', [])"
  using rewrite_keys_twice [OF assms(1), of ls] rewrite_keys_pending [OF assms(1), of ls] assms(2)
  by (simp add: rewrite_keys_append rewrite_keys_block)

lemma trim_end_split: "\<exists>n. ls = trim_end ls @ replicate n []"
proof (induction ls rule: rev_induct)
  case (snoc l ls)
  then obtain n where "ls = trim_end ls @ replicate n []" by blast
  then show ?case
    by (cases "l = []")
      (auto simp: trim_end_snoc simp flip: replicate_append_same intro: exI [of _ "Suc n"] exI [of _ 0])
qed (simp add: trim_end_def)

lemma rewrite_keys_blanks: "rewrite_keys p (replicate n []) = (replicate n [], p)"
  by (induction n) (simp_all add: grub_key_mark)

lemma rewrite_keys_trim:
  assumes "rewrite_keys p ls = (ls, p')" shows "rewrite_keys p (trim_end ls) = (trim_end ls, p')"
proof -
  obtain n where n: "ls = trim_end ls @ replicate n []" using trim_end_split by blast
  from assms have "rewrite_keys p (trim_end ls @ replicate n []) = (trim_end ls @ replicate n [], p')"
    by (simp flip: n)
  then show ?thesis
    by (cases "rewrite_keys p (trim_end ls)") (simp add: rewrite_keys_append rewrite_keys_blanks)
qed

lemma line_ok_setting: "key_name k \<Longrightarrow> line_ok v \<Longrightarrow> line_ok (setting_line k v)"
proof -
  assume "key_name k" "line_ok v"
  moreover have "line_ok ''=\"''" "line_ok ''\"''" by code_simp+
  ultimately show ?thesis
    using key_char_plain by (auto simp: setting_line_def line_ok_def key_name_def list_all_iff)
qed

lemma rewrite_keys_lines:
  assumes "settings_ok p" "list_all line_ok ls"
  shows "list_all line_ok (fst (rewrite_keys p ls))"
  using assms
proof (induction p ls rule: rewrite_keys.induct)
  case (2 p l ls)
  have "line_ok (setting_line k v)" if "map_of p k = Some v" for k v
    using 2(4) map_of_SomeD [OF that] by (intro line_ok_setting) (auto simp: settings_ok_def list_all_iff)
  moreover from 2(4) have "settings_ok (filter (\<lambda>(k', v'). k' \<noteq> k) p)" for k by (rule settings_ok_filter)
  ultimately show ?case
    using 2 by (simp add: Let_def case_prod_beta split: option.splits)
qed simp

lemma block_lines: "settings_ok p \<Longrightarrow> list_all line_ok (pending_block out p)"
proof -
  assume p: "settings_ok p"
  have "line_ok SEAMLESS_MARK" "line_ok []" by code_simp+
  moreover have "list_all line_ok (map (\<lambda>(k, v). setting_line k v) p)"
    using p line_ok_setting by (auto simp: settings_ok_def list_all_iff)
  ultimately show ?thesis by (simp add: pending_block_def)
qed

lemma splitlines_line_ok: "list_all line_ok (splitlines s)"
  by (simp add: list_all_iff line_ok_def splitlines_parts [unfolded list_all_iff])

text \<open>The lines the edit leaves in the file.\<close>

definition grub_lines :: "string \<Rightarrow> (string \<times> string) list \<Rightarrow> string list" where
  "grub_lines existing settings =
     (let (out, p) = rewrite_keys settings (splitlines existing) in out @ pending_block out p)"

lemma apply_grub_default_lines:
  assumes "settings_ok p"
  shows "apply_grub_default s p = join [LF] (trim_end (grub_lines s p)) @ [LF]"
proof -
  obtain out p' where r: "rewrite_keys p (splitlines s) = (out, p')" by fastforce
  have "list_all line_ok (out @ pending_block out p')"
    using rewrite_keys_lines [OF assms splitlines_line_ok] rewrite_keys_pending [OF assms] block_lines r
    by (metis fst_conv snd_conv list_all_append)
  then show ?thesis
    by (simp add: apply_grub_default_def grub_lines_def r rstrip_join_lines)
qed

lemma grub_lines_ok: "settings_ok p \<Longrightarrow> list_all line_ok (grub_lines s p)"
  using rewrite_keys_lines [OF _ splitlines_line_ok, of p s] rewrite_keys_pending [of p "splitlines s"] block_lines
  by (auto simp: grub_lines_def split: prod.splits)

lemma grub_lines_written: "settings_ok p \<Longrightarrow> rewrite_keys p (grub_lines s p) = (grub_lines s p, [])"
  by (simp add: grub_lines_def rewrite_keys_written split: prod.splits)

lemma rewrite_keys_find:
  "settings_ok p \<Longrightarrow> rewrite_keys p ls = (ls, []) \<Longrightarrow> (k, v) \<in> set p \<Longrightarrow>
    find (\<lambda>l. grub_key l = Some k) ls = Some (setting_line k v)"
proof (induction p ls rule: rewrite_keys.induct)
  case (2 p l ls)
  show ?case
  proof (cases "grub_key l")
    case None
    then show ?thesis using 2 by (simp add: Let_def case_prod_beta prod_eq_iff)
  next
    case (Some k0)
    show ?thesis
    proof (cases "map_of p k0")
      case None
      then have "k \<noteq> k0" using 2(6) by (auto simp: map_of_eq_None_iff image_iff)
      then show ?thesis using 2 None Some by (simp add: Let_def case_prod_beta prod_eq_iff)
    next
      case (Some v0)
      have m: "map_of p k = Some v" using 2(4,6) by (simp add: settings_ok_def)
      show ?thesis
      proof (cases "k = k0")
        case True
        then have "l = setting_line k v"
          using 2(5) m \<open>grub_key l = Some k0\<close> by (simp add: Let_def case_prod_beta prod_eq_iff)
        then show ?thesis using True \<open>grub_key l = Some k0\<close> by simp
      next
        case False
        let ?p = "filter (\<lambda>(k', v'). k' \<noteq> k0) p"
        have "rewrite_keys ?p ls = (ls, [])" "(k, v) \<in> set ?p"
          using 2(5,6) Some \<open>grub_key l = Some k0\<close> False by (auto simp: Let_def case_prod_beta prod_eq_iff)
        then show ?thesis
          using 2(3) [OF \<open>grub_key l = Some k0\<close> Some settings_ok_filter [OF 2(4)]] \<open>grub_key l = Some k0\<close> False
          by simp
      qed
    qed
  qed
qed simp

text \<open>The lines the edit does not own: no key of the settings, not the mark, not blank.\<close>

definition foreign_line :: "(string \<times> string) list \<Rightarrow> string \<Rightarrow> bool" where
  "foreign_line p l = (grub_key l \<notin> Some ` fst ` set p \<and> l \<noteq> [] \<and> l \<noteq> SEAMLESS_MARK)"

lemma rewrite_keys_foreign:
  "settings_ok p \<Longrightarrow> fst ` set p \<subseteq> fst ` set q \<Longrightarrow>
    filter (foreign_line q) (fst (rewrite_keys p ls)) = filter (foreign_line q) ls \<and>
    fst ` set (snd (rewrite_keys p ls)) \<subseteq> fst ` set p"
proof (induction p ls rule: rewrite_keys.induct)
  case (2 p l ls)
  show ?case
  proof (cases "grub_key l")
    case None
    then show ?thesis using 2 by (simp add: Let_def case_prod_beta)
  next
    case (Some k)
    show ?thesis
    proof (cases "map_of p k")
      case None
      then show ?thesis using 2 Some by (simp add: Let_def case_prod_beta)
    next
      case (Some v)
      let ?p = "filter (\<lambda>(k', v'). k' \<noteq> k) p"
      have k: "k \<in> fst ` set q" "key_name k"
        using 2(4,5) map_of_SomeD [OF Some] by (auto simp: settings_ok_def list_all_iff rev_image_eqI)
      then have "\<not> foreign_line q (setting_line k v)" "\<not> foreign_line q l"
        using \<open>grub_key l = Some k\<close> by (simp_all add: foreign_line_def grub_key_setting)
      moreover have sub: "fst ` set ?p \<subseteq> fst ` set p" by auto
      note IH = 2(3) [OF \<open>grub_key l = Some k\<close> Some settings_ok_filter [OF 2(4)] subset_trans [OF sub 2(5)]]
      note conjunct1 [OF IH] subset_trans [OF conjunct2 [OF IH] sub]
      ultimately show ?thesis
        using Some \<open>grub_key l = Some k\<close> by (simp add: Let_def case_prod_beta)
    qed
  qed
qed simp

lemma block_foreign: "settings_ok p \<Longrightarrow> fst ` set p \<subseteq> fst ` set q \<Longrightarrow> filter (foreign_line q) (pending_block out p) = []"
proof -
  assume p: "settings_ok p" "fst ` set p \<subseteq> fst ` set q"
  have "\<not> foreign_line q (setting_line k v)" if "(k, v) \<in> set p" for k v
  proof -
    from that have "k \<in> fst ` set p" by force
    with p(2) have "k \<in> fst ` set q" by blast
    moreover have "key_name k" using p(1) that by (auto simp: settings_ok_def list_all_iff)
    ultimately show ?thesis by (simp add: foreign_line_def grub_key_setting)
  qed
  moreover have "\<not> foreign_line q []" "\<not> foreign_line q SEAMLESS_MARK"
    by (simp_all add: foreign_line_def)
  ultimately show ?thesis unfolding pending_block_def filter_empty_conv by auto
qed

lemma filter_trim_end: "\<not> P [] \<Longrightarrow> filter P (trim_end ls) = filter P ls"
  by (induction ls rule: rev_induct) (simp_all add: trim_end_snoc)

lemma grub_lines_foreign:
  assumes "settings_ok p"
  shows "filter (foreign_line p) (grub_lines s p) = filter (foreign_line p) (splitlines s)"
proof -
  obtain out p' where r: "rewrite_keys p (splitlines s) = (out, p')" by fastforce
  show ?thesis
    using rewrite_keys_foreign [OF assms, of p "splitlines s"] rewrite_keys_pending [OF assms, of "splitlines s"]
      block_foreign [of p' p out]
    by (simp add: grub_lines_def r)
qed

lemma apply_grub_default_splitlines:
  assumes "settings_ok p" "p \<noteq> []"
  shows "splitlines (apply_grub_default s p) = trim_end (grub_lines s p)"
proof -
  obtain k v where "(k, v) \<in> set p" using assms(2) by (cases p) auto
  from rewrite_keys_find [OF assms(1) rewrite_keys_trim [OF grub_lines_written [OF assms(1), of s]] this]
  have "trim_end (grub_lines s p) \<noteq> []" by (metis find.simps(1) option.distinct(1))
  moreover have "list_all line_ok (trim_end (grub_lines s p))"
    using grub_lines_ok [OF assms(1)] set_trim_end by (fastforce simp: list_all_iff)
  ultimately show ?thesis
    unfolding apply_grub_default_lines [OF assms(1)]
    by (intro splitlines_join_LF) (simp_all add: list_all_iff line_ok_def)
qed

lemma apply_grub_default_spec:
  assumes "settings_ok p" "p \<noteq> []"
  shows "apply_grub_default (apply_grub_default s p) p = apply_grub_default s p"
    and "(k, v) \<in> set p \<Longrightarrow>
      find (\<lambda>l. grub_key l = Some k) (splitlines (apply_grub_default s p)) = Some (setting_line k v)"
    and "filter (foreign_line p) (splitlines (apply_grub_default s p)) = filter (foreign_line p) (splitlines s)"
proof -
  note sl = apply_grub_default_splitlines [OF assms, of s]
  note fix_ = rewrite_keys_trim [OF grub_lines_written [OF assms(1)], of s]
  have "grub_lines (apply_grub_default s p) p = trim_end (grub_lines s p)"
    by (simp add: grub_lines_def [of "apply_grub_default s p"] sl fix_ pending_block_def)
  then show "apply_grub_default (apply_grub_default s p) p = apply_grub_default s p"
    by (simp add: apply_grub_default_lines [OF assms(1)])
  show "find (\<lambda>l. grub_key l = Some k) (splitlines (apply_grub_default s p)) = Some (setting_line k v)"
    if "(k, v) \<in> set p"
    unfolding sl by (rule rewrite_keys_find [OF assms(1) fix_ that])
  show "filter (foreign_line p) (splitlines (apply_grub_default s p)) = filter (foreign_line p) (splitlines s)"
    unfolding sl using grub_lines_foreign [OF assms(1)] by (simp add: filter_trim_end foreign_line_def)
qed

text \<open>The seamless boot settings: after the edit the first line of each key, active or
  commented out before, is its active setting; every other line is kept in order; and editing
  the file again changes nothing.\<close>

theorem grub_keys_set:
  "grub_default (grub_default s) = grub_default s \<and>
    list_all (\<lambda>(k, v). find (\<lambda>l. grub_key l = Some k) (splitlines (grub_default s)) = Some (setting_line k v))
      (grub_settings THEME_TXT) \<and>
    filter (foreign_line (grub_settings THEME_TXT)) (splitlines (grub_default s)) =
      filter (foreign_line (grub_settings THEME_TXT)) (splitlines s)"
proof -
  have ok: "settings_ok (grub_settings THEME_TXT)" by code_simp
  have ne: "grub_settings THEME_TXT \<noteq> []" by (simp add: grub_settings_def)
  note spec = apply_grub_default_spec [OF ok ne, where s = s]
  have "list_all (\<lambda>(k, v). find (\<lambda>l. grub_key l = Some k) (splitlines (grub_default s)) = Some (setting_line k v))
      (grub_settings THEME_TXT)"
    unfolding list_all_iff grub_default_def using spec(2) by blast
  then show ?thesis
    using spec(1,3) unfolding grub_default_def by (intro conjI)
qed

text \<open>
  The first line of a key need not be the one in force: a commented-out sample before an active
  line is rewritten, the active line stays after it, and the shell takes the last.
\<close>

lemma sample_rewritten_active_kept:
  "apply_grub_default (''#GRUB_TIMEOUT=10'' @ [LF] @ ''GRUB_TIMEOUT=0'' @ [LF]) [(''GRUB_TIMEOUT'', ''5'')] =
     ''GRUB_TIMEOUT=\"5\"'' @ [LF] @ ''GRUB_TIMEOUT=0'' @ [LF]"
  by code_simp

section \<open>The kernel command line\<close>

definition arg_word :: "string \<Rightarrow> bool" where
  "arg_word w = (w \<noteq> [] \<and> list_all (\<lambda>c. \<not> is_space c) w)"

fun first_words :: "string \<Rightarrow> string list \<Rightarrow> string list option" where
  "first_words key [] = None"
| "first_words key (l # ls) = (case cmdline_words key l of Some ws \<Rightarrow> Some ws | None \<Rightarrow> first_words key ls)"

text \<open>The arguments a file gives for a key: those of its first line.\<close>

definition boot_args :: "string \<Rightarrow> string \<Rightarrow> string list option" where
  "boot_args key text = first_words key (split_char LF text)"

definition args_or_none :: "string list option \<Rightarrow> string list" where
  "args_or_none ws = (case ws of None \<Rightarrow> [] | Some ws \<Rightarrow> ws)"

lemma cmdline_words_line:
  assumes "key_name key" "list_all arg_word ws"
  shows "cmdline_words key (cmdline_line key ws) = Some ws"
proof -
  let ?q = "DQUOTE # join '' '' ws @ [DQUOTE]"
  have "rstrip ?q = ?q" by (rule rstrip_eq_self) simp
  then have "cmdline_value ?q = join '' '' ws"
    by (simp add: cmdline_value_def)
  moreover have "py_split (join '' '' ws) = ws"
    using assms(2) by (intro py_split_join) (simp_all add: arg_word_def [abs_def])
  moreover have "uncommented (cmdline_line key ws) = key @ ''='' @ ?q"
    using uncommented_key [OF assms(1)] by (simp add: cmdline_line_def)
  ultimately show ?thesis
    by (simp add: cmdline_words_def startswith_def)
qed

lemma cmdline_words_words: "cmdline_words key l = Some ws \<Longrightarrow> list_all arg_word ws"
  by (auto simp: cmdline_words_def arg_word_def list_all_iff dest: py_split_words split: if_splits)

lemma missing_simps [simp]: "missing [] want = want" "missing (cur @ missing cur want) want = []" "missing want want = []"
  by (auto simp: missing_def filter_empty_conv intro: filter_eq_self)

lemma missing_words: "list_all arg_word want \<Longrightarrow> list_all arg_word (missing cur want)"
  by (auto simp: missing_def list_all_iff)

lemma merge_lines_None: "merge_lines key want ls = None \<longleftrightarrow> first_words key ls = None"
  by (induction ls) (auto split: option.splits)

lemma merge_lines_Some:
  assumes "key_name key" "list_all arg_word want"
  shows "merge_lines key want ls = Some ls' \<Longrightarrow>
    \<exists>cur. first_words key ls = Some cur \<and> first_words key ls' = Some (cur @ missing cur want) \<and>
      merge_lines key want ls' = Some ls'"
proof (induction ls arbitrary: ls')
  case (Cons l ls)
  show ?case
  proof (cases "cmdline_words key l")
    case None
    then show ?thesis using Cons by auto
  next
    case (Some cur)
    have "cmdline_words key (cmdline_line key (cur @ missing cur want)) = Some (cur @ missing cur want)"
      using cmdline_words_words [OF Some] missing_words [OF assms(2)]
      by (intro cmdline_words_line [OF assms(1)]) simp
    then show ?thesis using Cons.prems Some by auto
  qed
qed simp

lemma cmdline_line_noLF:
  assumes "key_name key" "list_all arg_word ws" shows "LF \<notin> set (cmdline_line key ws)"
proof -
  have "list_all (\<lambda>c. c \<noteq> LF) (join '' '' ws)"
  proof (rule list_all_join)
    show "list_all (\<lambda>c. c \<noteq> LF) '' ''" by simp
    have "c \<noteq> LF" if "w \<in> set ws" "c \<in> set w" for w c
    proof -
      have "\<not> is_space c" using that assms(2) by (auto simp: list_all_iff arg_word_def)
      then show ?thesis by auto
    qed
    then show "list_all (list_all (\<lambda>c. c \<noteq> LF)) ws" by (simp add: list_all_iff)
  qed
  moreover have "LF \<notin> set key"
    using assms(1) key_char_plain [of LF] by (auto simp: key_name_def list_all_iff)
  ultimately show ?thesis by (auto simp: cmdline_line_def list_all_iff)
qed

lemma merge_lines_noLF:
  assumes "key_name key" "list_all arg_word want"
  shows "merge_lines key want ls = Some ls' \<Longrightarrow> list_all (\<lambda>l. LF \<notin> set l) ls \<Longrightarrow>
    list_all (\<lambda>l. LF \<notin> set l) ls' \<and> ls' \<noteq> []"
proof (induction ls arbitrary: ls')
  case (Cons l ls)
  show ?case
  proof (cases "cmdline_words key l")
    case None
    then show ?thesis using Cons by auto
  next
    case (Some cur)
    then have "LF \<notin> set (cmdline_line key (cur @ missing cur want))"
      using cmdline_words_words missing_words [OF assms(2)] by (intro cmdline_line_noLF [OF assms(1)]) simp
    then show ?thesis using Cons.prems Some by auto
  qed
qed simp

lemma first_words_append:
  "first_words key (xs @ ys) = (case first_words key xs of Some ws \<Rightarrow> Some ws | None \<Rightarrow> first_words key ys)"
  by (induction xs) (auto split: option.splits)

lemma merge_lines_append:
  "first_words key xs = None \<Longrightarrow> merge_lines key want (xs @ ys) = map_option ((@) xs) (merge_lines key want ys)"
  by (induction xs) (cases "merge_lines key want ys"; auto split: option.splits)+

lemma split_char_noLF: "list_all (\<lambda>l. LF \<notin> set l) (split_char LF s)"
  using split_char_parts [of _ LF s] by (auto simp: list_all_iff)

text \<open>
  The merge puts the missing arguments after the ones the first line of the key has, or on a
  line of their own; a second merge finds them there.
\<close>

lemma merge_cmdline_spec:
  assumes "key_name key" "list_all arg_word want" "cmdline_words key mark = None" "LF \<notin> set mark"
  shows "boot_args key (merge_cmdline key mark want s) =
      Some (let cur = args_or_none (boot_args key s) in cur @ missing cur want)"
    and "merge_cmdline key mark want (merge_cmdline key mark want s) = merge_cmdline key mark want s"
proof -
  let ?m = "merge_cmdline key mark want"
  obtain ls' where ls': "?m s = join [LF] ls'" "ls' \<noteq> []" "list_all (\<lambda>l. LF \<notin> set l) ls'"
      "first_words key ls' = Some (let cur = args_or_none (boot_args key s) in cur @ missing cur want)"
      "merge_lines key want ls' = Some ls'"
  proof (cases "merge_lines key want (split_char LF s)")
    case (Some ls')
    from merge_lines_Some [OF assms(1,2) Some] merge_lines_noLF [OF assms(1,2) Some split_char_noLF]
    show thesis
      by (intro that [of ls']) (auto simp: merge_cmdline_def Some boot_args_def args_or_none_def)
  next
    case None
    let ?ls = "split_char LF s"
    let ?ex = "(if strip (last ?ls) \<noteq> [] then [[]] else []) @ [mark]"
    have n: "first_words key ?ls = None" using None merge_lines_None by blast
    have e: "first_words key (?ls @ ?ex) = None"
      using n assms(1,3) by (auto simp: first_words_append cmdline_words_def uncommented_def lstrip_def startswith_def key_name_def)
    have w: "cmdline_words key (cmdline_line key want) = Some want"
      by (rule cmdline_words_line [OF assms(1,2)])
    show thesis
    proof (rule that [of "?ls @ ?ex @ [cmdline_line key want]"])
      show "?m s = join [LF] (?ls @ ?ex @ [cmdline_line key want])"
        by (simp add: merge_cmdline_def None Let_def)
      show "list_all (\<lambda>l. LF \<notin> set l) (?ls @ ?ex @ [cmdline_line key want])"
        using split_char_noLF assms(4) cmdline_line_noLF [OF assms(1,2)] by simp
      show "first_words key (?ls @ ?ex @ [cmdline_line key want]) =
          Some (let cur = args_or_none (boot_args key s) in cur @ missing cur want)"
        using first_words_append [of key "?ls @ ?ex" "[cmdline_line key want]"] e w n
        by (simp add: boot_args_def args_or_none_def)
      show "merge_lines key want (?ls @ ?ex @ [cmdline_line key want]) = Some (?ls @ ?ex @ [cmdline_line key want])"
        using merge_lines_append [OF e, of want "[cmdline_line key want]"] w by simp
    qed simp
  qed
  have sp: "split_char LF (?m s) = ls'"
    unfolding ls'(1) by (rule split_char_join [OF ls'(2,3)])
  show "boot_args key (?m s) = Some (let cur = args_or_none (boot_args key s) in cur @ missing cur want)"
    by (simp add: boot_args_def sp ls'(4) [unfolded boot_args_def])
  show "?m (?m s) = ?m s"
    unfolding merge_cmdline_def [of key mark want "?m s"] sp by (simp add: ls'(1,5))
qed

lemma arg_word_split: "arg_word w \<Longrightarrow> py_split w = [w]"
  by (simp add: arg_word_def py_split_word)

text \<open>The kernel command line of the installed system: the hibernate argument and the graphics
  arguments are merged into \<open>GRUB_CMDLINE_LINUX\<close> without losing one that is there or adding
  one twice, so each edit repeated changes nothing, and after both, in this order, the line
  holds the arguments of both.\<close>

theorem cmdline_merged:
  assumes "arg_word uuid"
  shows "boot_args GRUB_CMDLINE_KEY (apply_resume_cmdline s uuid) =
      Some (let cur = args_or_none (boot_args GRUB_CMDLINE_KEY s) in cur @ missing cur [''resume=UUID='' @ uuid]) \<and>
    apply_resume_cmdline (apply_resume_cmdline s uuid) uuid = apply_resume_cmdline s uuid \<and>
    apply_gpu_cmdline (apply_gpu_cmdline s gpu) gpu = apply_gpu_cmdline s gpu \<and>
    boot_args GRUB_CMDLINE_KEY (apply_resume_cmdline (apply_gpu_cmdline s gpu) uuid) =
      Some (let cur = args_or_none (boot_args GRUB_CMDLINE_KEY s);
                cur2 = cur @ missing cur (py_split (kernel_cmdline gpu))
            in cur2 @ missing cur2 [''resume=UUID='' @ uuid])"
proof -
  let ?w = "''resume=UUID='' @ uuid"
  have k: "key_name GRUB_CMDLINE_KEY" by code_simp
  have "arg_word ''resume=UUID=''" by code_simp
  then have w: "arg_word ?w" using assms by (simp only: arg_word_def list_all_append append_is_Nil_conv simp_thms)
  then have sw: "py_split ?w = [?w]" by (rule arg_word_split)
  have lw: "list_all arg_word [?w]" using w by simp
  have r: "apply_resume_cmdline t uuid = merge_cmdline GRUB_CMDLINE_KEY RESUME_MARK [?w] t" for t
    using assms sw by (simp add: apply_resume_cmdline_def resume_cmdline_def arg_word_def)
  have rm: "cmdline_words GRUB_CMDLINE_KEY RESUME_MARK = None" "LF \<notin> set RESUME_MARK"
    and gm: "cmdline_words GRUB_CMDLINE_KEY GPU_MARK = None" "LF \<notin> set GPU_MARK"
    by code_simp+
  have nw: "list_all arg_word (py_split NVIDIA_CMDLINE)" "NVIDIA_CMDLINE \<noteq> []" by code_simp+
  note rs = merge_cmdline_spec [OF k lw rm] and gs = merge_cmdline_spec [OF k nw(1) gm]
  have g: "apply_gpu_cmdline t gpu = (if gp_nvidia_proprietary gpu
      then merge_cmdline GRUB_CMDLINE_KEY GPU_MARK (py_split NVIDIA_CMDLINE) t else t)" for t
    using nw(2) by (simp add: apply_gpu_cmdline_def kernel_cmdline_def)
  show ?thesis
    unfolding r g rs(1) rs(2) using gs rs(1)
    by (cases "gp_nvidia_proprietary gpu")
      (simp_all add: kernel_cmdline_def args_or_none_def Let_def missing_def)
qed

theorem cmdline_merged_witness:
  "boot_args GRUB_CMDLINE_KEY (apply_resume_cmdline (''GRUB_CMDLINE_LINUX=ro'' @ [LF] @ ''GRUB_TIMEOUT=5'' @ [LF]) ''1234-ab'')
    = Some [''ro'', ''resume=UUID=1234-ab'']"
proof -
  have u: "arg_word ''1234-ab''" by code_simp
  have b: "boot_args GRUB_CMDLINE_KEY (''GRUB_CMDLINE_LINUX=ro'' @ [LF] @ ''GRUB_TIMEOUT=5'' @ [LF]) = Some [''ro'']"
    by code_simp
  show ?thesis
    using cmdline_merged [OF u, of "''GRUB_CMDLINE_LINUX=ro'' @ [LF] @ ''GRUB_TIMEOUT=5'' @ [LF]"]
    unfolding b by (simp add: args_or_none_def missing_def)
qed

end
