(* ===== verification/Bootloader.thy ===== *)
theory Bootloader
  imports DiskMount BootConfig
begin

text \<open>
  \<open>gest/core/bootloader\<close>: the GRUB commands (\<open>commands.py\<close>), the install
  pipeline on both paths (\<open>install.py\<close>), the Apple Silicon boot stub (\<open>m1n1.py\<close>) and
  the pure part of \<open>reader.py\<close>. \<open>grub_install_exact\<close> says which requests have a
  command and what it is; \<open>backend_install_phases\<close> says what the path through the
  privileged service calls and where it stops.
\<close>

section \<open>reader.py\<close>

definition GRUB_CFG :: string where
  "GRUB_CFG = ''/boot/grub/grub.cfg''"

definition kernel_versions :: "string \<Rightarrow> string list" where
  "kernel_versions name =
     concat (map (\<lambda>prefix. if startswith name prefix then [drop (length prefix) name] else [])
       [''vmlinuz-'', ''kernel-''])"

definition parse_boot_kernels :: "string list \<Rightarrow> string list" where
  "parse_boot_kernels names = rev (sort (remdups (concat (map kernel_versions names))))"

definition detect_bootloader :: "bool \<Rightarrow> bool \<Rightarrow> bool \<Rightarrow> bool \<Rightarrow> string" where
  "detect_bootloader has_mkconfig grub_dir has_bootctl loader_dir =
     (if has_mkconfig \<and> grub_dir then ''grub''
      else if has_bootctl \<and> loader_dir then ''systemd-boot'' else ''unknown'')"

section \<open>commands.py\<close>

definition boot_id_char :: "char \<Rightarrow> bool" where
  "boot_id_char c = (alnum_az c \<or> c \<in> set ''_-'')"

definition BOOT_ID_RE :: rx where
  "BOOT_ID_RE = Seq (Cls boot_id_char) (UpTo 31 (Cls boot_id_char))"

definition boot_disk_char :: "char \<Rightarrow> bool" where
  "boot_disk_char c = (alnum_az c \<or> c \<in> set ''/_-'')"

definition BOOT_DISK_RE :: rx where
  "BOOT_DISK_RE = Seq (lit ''/dev/'') (Seq (Cls alnum_az) (Star (Cls boot_disk_char)))"

definition FIRMWARES :: "string list" where
  "FIRMWARES = [''uefi'', ''bios'']"

definition GRUB_TARGETS :: "((string \<times> string) \<times> string) list" where
  "GRUB_TARGETS =
     [((''amd64'', ''uefi''), ''x86_64-efi''), ((''amd64'', ''bios''), ''i386-pc''), ((''arm64'', ''uefi''), ''arm64-efi'')]"

definition grub_target :: "string \<Rightarrow> string \<Rightarrow> string res" where
  "grub_target arch firmware =
     (case map_of GRUB_TARGETS (arch, firmware) of
        Some t \<Rightarrow> Inr t
      | None \<Rightarrow> Inl (ValueError (''no GRUB target for arch='' @ py_repr arch @ '' firmware='' @ py_repr firmware)))"

definition valid_grub_path :: "string \<Rightarrow> bool" where
  "valid_grub_path path = (startswith path ''/'' \<and> LF \<notin> set path \<and> NUL \<notin> set path)"

definition grub_mkconfig_argv :: "string \<Rightarrow> string \<Rightarrow> string list res" where
  "grub_mkconfig_argv output mkconfig =
     guard (valid_grub_path output) (ValueError (''invalid output path: '' @ py_repr output))
       (let tmp = output @ ''.gest-new''
        in Inr [''sh'', ''-c'',
             mkconfig @ '' >'' @ tmp @ '' 2>/dev/null; '' @
             ''test -s '' @ tmp @ '' || '' @ mkconfig @ '' >'' @ tmp @ '' 2>/dev/null; '' @
             ''test -s '' @ tmp @ '' && mv -f '' @ tmp @ '' '' @ output])"

definition grub_install_argv ::
    "string \<Rightarrow> string \<Rightarrow> string \<Rightarrow> string \<Rightarrow> bool \<Rightarrow> string \<Rightarrow> string \<Rightarrow> string \<Rightarrow> string list res" where
  "grub_install_argv firmware arch efi_directory bootloader_id removable disk boot_directory grub_install =
     guard (firmware \<in> set FIRMWARES) (ValueError (''unknown firmware: '' @ py_repr firmware))
       (res_bind (grub_target arch firmware) (\<lambda>target.
        res_bind
          (if firmware = ''uefi'' then
             guard (valid_grub_path efi_directory) (ValueError (''invalid EFI directory: '' @ py_repr efi_directory))
               (guard (fullmatch BOOT_ID_RE bootloader_id) (ValueError (''invalid bootloader id: '' @ py_repr bootloader_id))
                  (Inr ([grub_install, ''--target='' @ target, ''--efi-directory='' @ efi_directory,
                         ''--bootloader-id='' @ bootloader_id] @ (if removable then [''--removable''] else []))))
           else
             guard (fullmatch BOOT_DISK_RE disk \<and> \<not> contains ''..'' disk)
               (ValueError (''invalid target disk: '' @ py_repr disk))
               (Inr [grub_install, ''--target='' @ target])) (\<lambda>argv.
        guard (boot_directory = [] \<or> valid_grub_path boot_directory)
          (ValueError (''invalid boot directory: '' @ py_repr boot_directory))
          (Inr (argv @ (if boot_directory \<noteq> [] then [''--boot-directory='' @ boot_directory] else [])
             @ (if firmware = ''bios'' then [disk] else []))))))"

section \<open>install.py\<close>

record install_config =
  ic_firmware :: string
  ic_efi_directory :: string
  ic_bootloader_id :: string
  ic_removable :: bool
  ic_disk :: string
  ic_boot_directory :: string
  ic_regenerate :: bool
  ic_seamless :: bool
  ic_root :: string

definition InstallConfig :: "string \<Rightarrow> install_config" where
  "InstallConfig firmware = \<lparr>ic_firmware = firmware, ic_efi_directory = ''/efi'', ic_bootloader_id = ''GRUB'',
     ic_removable = False, ic_disk = [], ic_boot_directory = [], ic_regenerate = True, ic_seamless = False,
     ic_root = []\<rparr>"

definition config_grub_argv :: "install_config \<Rightarrow> string \<Rightarrow> string list res" where
  "config_grub_argv config arch =
     grub_install_argv (ic_firmware config) arch (ic_efi_directory config) (ic_bootloader_id config)
       (ic_removable config) (ic_disk config) (ic_boot_directory config) ''grub-install''"

definition install_steps :: "(string \<Rightarrow> string option) \<Rightarrow> install_config \<Rightarrow> string \<Rightarrow> step list res" where
  "install_steps read config arch =
     res_bind (build_step (''install GRUB ('' @ ic_firmware config @ '')'') (config_grub_argv config arch)) (\<lambda>first.
     res_bind (if ic_regenerate config
               then res_map id [build_step ''regenerate grub.cfg'' (grub_mkconfig_argv GRUB_CFG ''grub-mkconfig'')]
               else Inr []) (\<lambda>final.
     Inr ([first] @ (if ic_seamless config then seamless_steps read (ic_root config) else []) @ final)))"

definition install :: "(string \<Rightarrow> string option) \<Rightarrow> install_config \<Rightarrow> string \<Rightarrow> 'w executor \<Rightarrow> 'w
      \<Rightarrow> 'w \<times> event list \<times> (pipe_error + step list)" where
  "install read config arch run w =
     (case install_steps read config arch of
        Inl e \<Rightarrow> (w, [], Inl (Raised e))
      | Inr steps \<Rightarrow> run_steps run steps w)"

text \<open>The privileged service as the install path calls it: each call answers \<open>(ok, output)\<close>.\<close>

record 'w grub_installer =
  gi_install_grub :: "'w \<Rightarrow> string \<times> string \<times> string \<times> bool \<times> string \<times> string \<Rightarrow> 'w \<times> bool \<times> string"
  gi_configure_seamless_boot :: "'w \<Rightarrow> string \<Rightarrow> 'w \<times> bool \<times> string"
  gi_regenerate_grub :: "'w \<Rightarrow> 'w \<times> bool \<times> string"

definition install_phases :: "install_config \<Rightarrow> 'w grub_installer \<Rightarrow> (string \<times> ('w \<Rightarrow> 'w \<times> bool \<times> string)) list" where
  "install_phases config backend =
     [(''install GRUB ('' @ ic_firmware config @ '')'', \<lambda>w. gi_install_grub backend w
         (ic_firmware config, ic_efi_directory config, ic_bootloader_id config,
          ic_removable config, ic_disk config, ic_boot_directory config))]
     @ (if ic_seamless config
        then [(''configure seamless boot'', \<lambda>w. gi_configure_seamless_boot backend w (ic_root config))] else [])
     @ (if ic_regenerate config then [(''regenerate grub.cfg'', gi_regenerate_grub backend)] else [])"

definition install_via_backend :: "install_config \<Rightarrow> 'w grub_installer \<Rightarrow> 'w \<Rightarrow> 'w \<times> event list \<times> pipe_error option" where
  "install_via_backend config backend w = backend_phases 0 (install_phases config backend) w"

section \<open>m1n1.py\<close>

definition default_boot_bin :: "string \<Rightarrow> string" where
  "default_boot_bin efi_directory = rstrip_char (CHR ''/'') efi_directory @ ''/m1n1/boot.bin''"

definition update_m1n1_argv :: "string \<Rightarrow> string list res" where
  "update_m1n1_argv boot_bin =
     (if boot_bin = [] then Inr [''update-m1n1'']
      else guard (startswith boot_bin ''/'' \<and> LF \<notin> set boot_bin \<and> NUL \<notin> set boot_bin \<and> \<not> contains ''..'' boot_bin)
        (ValueError (''invalid m1n1 boot path: '' @ py_repr boot_bin)) (Inr [''update-m1n1'', boot_bin]))"

section \<open>Which requests have a command\<close>

lemma grub_target_cases:
  "grub_target arch firmware = Inr t \<longleftrightarrow>
    (arch = ''amd64'' \<and> firmware = ''uefi'' \<and> t = ''x86_64-efi'') \<or>
    (arch = ''amd64'' \<and> firmware = ''bios'' \<and> t = ''i386-pc'') \<or>
    (arch = ''arm64'' \<and> firmware = ''uefi'' \<and> t = ''arm64-efi'')"
  by (auto simp: grub_target_def GRUB_TARGETS_def split: option.splits if_splits)

text \<open>The request a GRUB install needs to be: the pair has a platform and every field it uses is valid.\<close>

definition grub_installable :: "install_config \<Rightarrow> string \<Rightarrow> bool" where
  "grub_installable config arch =
     ((ic_boot_directory config = [] \<or> valid_grub_path (ic_boot_directory config)) \<and>
      (if ic_firmware config = ''uefi''
       then arch \<in> {''amd64'', ''arm64''} \<and> valid_grub_path (ic_efi_directory config) \<and>
         fullmatch BOOT_ID_RE (ic_bootloader_id config)
       else ic_firmware config = ''bios'' \<and> arch = ''amd64'' \<and> fullmatch BOOT_DISK_RE (ic_disk config) \<and>
         \<not> contains ''..'' (ic_disk config)))"

definition grub_command :: "install_config \<Rightarrow> string \<Rightarrow> string list" where
  "grub_command config arch =
     (let boot = (if ic_boot_directory config \<noteq> [] then [''--boot-directory='' @ ic_boot_directory config] else [])
      in if ic_firmware config = ''uefi''
         then [''grub-install'', ''--target='' @ (if arch = ''arm64'' then ''arm64-efi'' else ''x86_64-efi''),
                 ''--efi-directory='' @ ic_efi_directory config, ''--bootloader-id='' @ ic_bootloader_id config]
              @ (if ic_removable config then [''--removable''] else []) @ boot
         else [''grub-install'', ''--target=i386-pc''] @ boot @ [ic_disk config])"

lemma config_grub_argv_ok: "grub_installable config arch \<Longrightarrow> config_grub_argv config arch = Inr (grub_command config arch)"
proof (cases "ic_firmware config = ''uefi''")
  case True
  moreover assume "grub_installable config arch"
  moreover from True calculation have "grub_target arch ''uefi'' = Inr (if arch = ''arm64'' then ''arm64-efi'' else ''x86_64-efi'')"
    by (auto simp: grub_installable_def grub_target_cases)
  ultimately show ?thesis
    by (simp add: config_grub_argv_def grub_install_argv_def grub_installable_def grub_command_def FIRMWARES_def guard_def Let_def)
next
  case False
  assume a: "grub_installable config arch"
  with False have "ic_firmware config = ''bios''" by (simp add: grub_installable_def)
  moreover have "grub_target ''amd64'' ''bios'' = Inr ''i386-pc''" by (simp add: grub_target_cases)
  ultimately show ?thesis
    using a by (simp add: config_grub_argv_def grub_install_argv_def grub_installable_def grub_command_def FIRMWARES_def guard_def Let_def)
qed

lemma config_grub_argv_only: "config_grub_argv config arch = Inr argv \<Longrightarrow> grub_installable config arch"
  by (auto simp: config_grub_argv_def grub_install_argv_def grub_installable_def FIRMWARES_def res_bind_Inr guard_Inr
      grub_target_cases split: if_splits)

lemma mkconfig_builds: "is_ok (build_step l (grub_mkconfig_argv GRUB_CFG tool))"
proof -
  have "valid_grub_path GRUB_CFG" by code_simp
  then show ?thesis by (simp add: build_step_def grub_mkconfig_argv_def Let_def)
qed

lemma is_ok_install_steps: "is_ok (install_steps read config arch) = grub_installable config arch"
proof (cases "config_grub_argv config arch")
  case (Inl e)
  with config_grub_argv_ok [of config arch] show ?thesis by (auto simp: install_steps_def build_step_def)
next
  case (Inr argv)
  with config_grub_argv_only [OF Inr] mkconfig_builds [of "''regenerate grub.cfg''" "''grub-mkconfig''"] show ?thesis
    by (auto simp: install_steps_def build_step_def is_ok_iff res_bind_Inr split: sum.splits)
qed


text \<open>The other path calls the service once per phase, in the same order, up to the first refusal.\<close>

lemma backend_install_phases:
  "map fst (install_phases config backend) =
    [''install GRUB ('' @ ic_firmware config @ '')''] @ (if ic_seamless config then [''configure seamless boot''] else [])
      @ (if ic_regenerate config then [''regenerate grub.cfg''] else [])"
  by (simp add: install_phases_def)

text \<open>With a seamless boot the two paths report different step numbers: six and three.\<close>

lemma seamless_phase_counts:
  assumes "ic_seamless config" "ic_regenerate config" "install_steps read config arch = Inr steps"
  shows "length steps = 6 \<and> length (install_phases config backend) = 3"
  using assms mkconfig_builds [of "''regenerate grub.cfg''" "''grub-mkconfig''"]
  by (auto simp: install_steps_def res_bind_Inr seamless_steps_def stage_theme_steps_def install_phases_def
      Let_def split: sum.splits)

text \<open>The path of \<open>grub-mkconfig\<close> goes into a shell script, and its check lets shell syntax through.\<close>

lemma mkconfig_path_is_script:
  "grub_mkconfig_argv ''/x; reboot'' ''m'' = Inr [''sh'', ''-c'',
     ''m >/x; reboot.gest-new 2>/dev/null; test -s /x; reboot.gest-new || m >/x; reboot.gest-new 2>/dev/null; '' @
     ''test -s /x; reboot.gest-new && mv -f /x; reboot.gest-new /x; reboot'']"
  by code_simp

end
