(* ===== verification/Stage3.thy ===== *)
theory Stage3
  imports StrFacts
begin

text \<open>
  \<open>gest/core/stage3\<close>: the variants on offer, the mirror's pointer file, the download and
  unpack commands, and the integrity gate: the parser of \<open>.DIGESTS\<close> and the comparison of
  hashes that stands before every unpack. The two hash functions and the network are outside
  the program: parameters. \<open>digests_roundtrip\<close> is the parser against the format in
  both shapes a mirror emits; \<open>stage3_gate_exact\<close> is the gate against the published hashes.
\<close>

section \<open>model.py\<close>

definition DEFAULT_ARCH :: string where
  "DEFAULT_ARCH = ''amd64''"

definition ARM64_ARCH :: string where
  "ARM64_ARCH = ''arm64''"

definition SUPPORTED_ARCHES :: "string list" where
  "SUPPORTED_ARCHES = [DEFAULT_ARCH, ARM64_ARCH]"

record stage3_variant =
  sv_arch :: string
  sv_flavor :: string
  sv_label :: string

definition Stage3Variant :: "string \<Rightarrow> string \<Rightarrow> string \<Rightarrow> stage3_variant" where
  "Stage3Variant arch flavor label = \<lparr>sv_arch = arch, sv_flavor = flavor, sv_label = label\<rparr>"

definition VARIANTS :: "stage3_variant list" where
  "VARIANTS =
    [Stage3Variant DEFAULT_ARCH ''systemd'' ''Standard (systemd)'',
     Stage3Variant DEFAULT_ARCH ''desktop-systemd'' ''Desktop (systemd)'',
     Stage3Variant DEFAULT_ARCH ''openrc'' ''Standard (OpenRC)'',
     Stage3Variant DEFAULT_ARCH ''desktop-openrc'' ''Desktop (OpenRC)'',
     Stage3Variant DEFAULT_ARCH ''hardened-openrc'' ''Hardened (OpenRC)'',
     Stage3Variant DEFAULT_ARCH ''nomultilib-openrc'' ''No-multilib (OpenRC)'']"

definition ARM64_VARIANTS :: "stage3_variant list" where
  "ARM64_VARIANTS =
    [Stage3Variant ARM64_ARCH ''systemd'' ''Standard (systemd, arm64)'',
     Stage3Variant ARM64_ARCH ''openrc'' ''Standard (OpenRC, arm64)'',
     Stage3Variant ARM64_ARCH ''desktop-openrc'' ''Desktop (OpenRC, arm64)'']"

definition DEFAULT_VARIANT :: stage3_variant where
  "DEFAULT_VARIANT = VARIANTS ! 0"

definition variants_for :: "string \<Rightarrow> stage3_variant list" where
  "variants_for arch = (if arch = ARM64_ARCH then ARM64_VARIANTS else VARIANTS)"

record stage3_selection =
  s3_url :: string
  s3_filename :: string
  s3_size :: int
  s3_digests_url :: string
  s3_signature_url :: string

section \<open>index.py\<close>

definition MIRROR :: string where
  "MIRROR = ''https://distfiles.gentoo.org''"

definition latest_url :: "string \<Rightarrow> string \<Rightarrow> string \<Rightarrow> string" where
  "latest_url mirror arch flavor =
     rstrip_char (CHR ''/'') mirror @ ''/releases/'' @ arch @ ''/autobuilds/latest-stage3-'' @ arch @ ''-'' @ flavor @ ''.txt''"

definition STAGE3_EXTS :: "string list" where
  "STAGE3_EXTS = [''.tar.xz'', ''.tar.gz'', ''.tar.bz2'']"

text \<open>A data line: its first two words, where the first names a tarball and the second is all digits.\<close>

definition index_line :: "string \<Rightarrow> (string \<times> string) option" where
  "index_line line =
     (if startswith line [HASH] \<or> startswith line ''-----'' then None
      else (case py_split line of
              p # n # rest \<Rightarrow> if list_ex (endswith p) STAGE3_EXTS \<and> py_isdigit n then Some (p, n) else None
            | [p] \<Rightarrow> None
            | [] \<Rightarrow> None))"

fun latest_of :: "string list \<Rightarrow> (string \<times> int) res" where
  "latest_of [] = Inl (ValueError ''no stage3 data line in index'')"
| "latest_of (line # ls) =
     (case index_line line of
        None \<Rightarrow> latest_of ls
      | Some (p, n) \<Rightarrow>
          (case py_int n of
             None \<Rightarrow> Inl (ValueError (''invalid literal for int() with base 10: '' @ py_repr n))
           | Some bytes \<Rightarrow> Inr (p, bytes)))"

definition parse_latest :: "string \<Rightarrow> (string \<times> int) res" where
  "parse_latest text = latest_of (nblines text)"

definition tarball_url :: "string \<Rightarrow> string \<Rightarrow> string \<Rightarrow> string" where
  "tarball_url mirror arch relpath =
     rstrip_char (CHR ''/'') mirror @ ''/releases/'' @ arch @ ''/autobuilds/'' @ lstrip_char (CHR ''/'') relpath"

definition digests_url :: "string \<Rightarrow> string" where
  "digests_url tarball = tarball @ ''.DIGESTS''"

definition signature_url :: "string \<Rightarrow> string" where
  "signature_url tarball = tarball @ ''.asc''"

text \<open>
  \<open>fetch_text\<close>: \<open>get\<close> opens a URL once and gives its text, or the text of the
  exception. The loop is over \<open>range(5)\<close>; the sleep between attempts has no other effect.
\<close>

definition FETCH_RETRIES :: nat where
  "FETCH_RETRIES = 5"

fun fetch_from :: "('w \<Rightarrow> string \<Rightarrow> 'w \<times> (string + string)) \<Rightarrow> string \<Rightarrow> nat \<Rightarrow> string \<Rightarrow> 'w \<Rightarrow> 'w \<times> string res" where
  "fetch_from get url 0 err w = (w, Inl (RuntimeError (''failed to fetch '' @ url @ '': '' @ err)))"
| "fetch_from get url (Suc n) err w =
     (case get w url of
        (w', Inr t) \<Rightarrow> (w', Inr t)
      | (w', Inl exc) \<Rightarrow> fetch_from get url n exc w')"

definition fetch_text :: "('w \<Rightarrow> string \<Rightarrow> 'w \<times> (string + string)) \<Rightarrow> string \<Rightarrow> 'w \<Rightarrow> 'w \<times> string res" where
  "fetch_text get url w = fetch_from get url FETCH_RETRIES ''None'' w"

section \<open>commands.py\<close>

definition tar_unpack_argv :: "string \<Rightarrow> string \<Rightarrow> string list" where
  "tar_unpack_argv tarball root =
     [''tar'', ''xpf'', tarball, ''-C'', root, ''--xattrs-include=*.*'', ''--numeric-owner'']"

definition gpg_verify_argv :: "string \<Rightarrow> string \<Rightarrow> string list" where
  "gpg_verify_argv sig target = [''gpg'', ''--verify'', sig, target]"

definition download_argv :: "string \<Rightarrow> string \<Rightarrow> string \<Rightarrow> string \<Rightarrow> string list" where
  "download_argv url dest wget curl =
     (if wget \<noteq> [] then [wget, ''--progress=dot:giga'', ''-O'', dest, url]
      else [curl, ''-L'', ''--fail'', ''-o'', dest, url])"

section \<open>verify.py\<close>

definition BLAKE2B :: string where
  "BLAKE2B = ''BLAKE2B''"

definition SHA512 :: string where
  "SHA512 = ''SHA512''"

definition ALGORITHMS :: "string list" where
  "ALGORITHMS = [BLAKE2B, SHA512]"

definition hash_char :: "char \<Rightarrow> bool" where
  "hash_char c = (dec_digit c \<or> c \<in> set ''ABCDEFabcdef'')"

definition hex_run :: "string \<Rightarrow> bool" where
  "hex_run s = (16 \<le> length s \<and> list_all hash_char s)"

definition basename :: "string \<Rightarrow> string" where
  "basename p = rev (takeWhile (\<lambda>c. c \<noteq> CHR ''/'') (rev p))"

record digest_state =
  dg_algo :: "string option"
  dg_hash :: "string option"
  dg_result :: "(string \<times> string) list"

text \<open>One stripped, non-blank line. A header sets what is pending; a data line uses it up.\<close>

definition digest_step :: "string \<Rightarrow> string \<Rightarrow> digest_state \<Rightarrow> digest_state" where
  "digest_step target line st =
     (if startswith line [HASH] then
        (case py_split (drop 1 line) of
           [] \<Rightarrow> st
         | a # rest \<Rightarrow>
             st\<lparr>dg_algo := Some (ascii_upper a),
                dg_hash := (case rest of [] \<Rightarrow> None
                  | h # hs \<Rightarrow> if hex_run h then Some (lower h) else None)\<rparr>)
      else
        (case dg_algo st of
           None \<Rightarrow> st
         | Some algo \<Rightarrow>
             \<lparr>dg_algo = None, dg_hash = None,
              dg_result =
                (case dg_hash st of
                   Some h \<Rightarrow> if basename line = target then dict_set algo h (dg_result st) else dg_result st
                 | None \<Rightarrow>
                     (let bits = py_split line
                      in if 2 \<le> length bits \<and> hex_run (hd bits) \<and> basename (last bits) = target
                         then dict_set algo (lower (hd bits)) (dg_result st) else dg_result st))\<rparr>))"

definition digest_init :: digest_state where
  "digest_init = \<lparr>dg_algo = None, dg_hash = None, dg_result = []\<rparr>"

definition parse_digests :: "string \<Rightarrow> string \<Rightarrow> (string \<times> string) list" where
  "parse_digests text filename =
     filter (\<lambda>(k, v). k \<in> set ALGORITHMS)
       (dg_result (fold (digest_step (basename filename)) (nblines text) digest_init))"

text \<open>The hash functions give the hexadecimal digest of the bytes.\<close>

definition hashes_of :: "('d \<Rightarrow> string) \<Rightarrow> ('d \<Rightarrow> string) \<Rightarrow> 'd \<Rightarrow> (string \<times> string) list" where
  "hashes_of blake2b sha512 data = [(BLAKE2B, blake2b data), (SHA512, sha512 data)]"

definition verify_hashes :: "('d \<Rightarrow> string) \<Rightarrow> ('d \<Rightarrow> string) \<Rightarrow> 'd \<Rightarrow> (string \<times> string) list \<Rightarrow> bool" where
  "verify_hashes blake2b sha512 data expected =
     (expected \<noteq> [] \<and>
      list_all (\<lambda>(algo, want).
        case map_of (hashes_of blake2b sha512 data) algo of
          None \<Rightarrow> False
        | Some have \<Rightarrow> lower have = lower want) expected)"

section \<open>The format of a digests file\<close>

text \<open>
  What a mirror publishes: per entry a header and a data line, with the hash in the one
  (\<open>Inline\<close>) or in the other (\<open>Listed\<close>).
\<close>

datatype digest_entry = Inline string string string | Listed string string string

fun entry_algo :: "digest_entry \<Rightarrow> string" where
  "entry_algo (Inline a h n) = a"
| "entry_algo (Listed a h n) = a"

fun entry_hash :: "digest_entry \<Rightarrow> string" where
  "entry_hash (Inline a h n) = h"
| "entry_hash (Listed a h n) = h"

fun entry_file :: "digest_entry \<Rightarrow> string" where
  "entry_file (Inline a h n) = n"
| "entry_file (Listed a h n) = n"

fun digest_lines :: "digest_entry \<Rightarrow> string list" where
  "digest_lines (Inline a h n) = [''# '' @ a @ '' '' @ h, n]"
| "digest_lines (Listed a h n) = [''# '' @ a @ '' HASH'', h @ ''  '' @ n]"

definition digests_text :: "digest_entry list \<Rightarrow> string" where
  "digests_text es = join [LF] (concat (map digest_lines es))"

definition plain_token :: "string \<Rightarrow> bool" where
  "plain_token w = (w \<noteq> [] \<and> list_all (\<lambda>c. \<not> is_space c) w \<and> hd w \<noteq> HASH)"

definition digest_ok :: "digest_entry \<Rightarrow> bool" where
  "digest_ok e = (plain_token (entry_algo e) \<and> hex_run (entry_hash e) \<and> plain_token (entry_file e))"

text \<open>The hashes an entry list publishes for a file, the later ones overriding.\<close>

definition published :: "digest_entry list \<Rightarrow> string \<Rightarrow> (string \<times> string) list" where
  "published es filename =
     map (\<lambda>e. (ascii_upper (entry_algo e), lower (entry_hash e)))
       (filter (\<lambda>e. basename (entry_file e) = basename filename) es)"

lemma hash_char_plain: "hash_char c \<Longrightarrow> \<not> is_space c \<and> c \<noteq> HASH"
  unfolding hash_char_def by (auto simp: is_space_def ordc_def dec_digit_def)

lemma hex_run_token: "hex_run h \<Longrightarrow> plain_token h"
  unfolding plain_token_def hex_run_def list_all_iff
  by (metis hash_char_plain hd_in_set list.size(3) not_numeral_le_zero)

lemma HASH_not_hex: "\<not> hex_run ''HASH''"
  by code_simp

lemma split_two_words:
  assumes "plain_token a" "plain_token b"
  shows "py_split (a @ '' '' @ b) = [a, b]" and "py_split (a @ ''  '' @ b) = [a, b]"
proof -
  have "py_split (a @ CHR '' '' # b) = py_split a @ py_split b" for b
    by (rule py_split_sep) simp
  then show "py_split (a @ '' '' @ b) = [a, b]" "py_split (a @ ''  '' @ b) = [a, b]"
    using assms by (simp_all add: plain_token_def py_split_word)
qed

lemma header_split:
  assumes "plain_token a" "plain_token b"
  shows "py_split (drop 1 (''# '' @ a @ '' '' @ b)) = [a, b]"
  using split_two_words(1) [OF assms] by simp

lemma token_starts: "plain_token a \<Longrightarrow> startswith (a @ s) [HASH] = False"
  by (cases a) (auto simp: plain_token_def startswith_def)

lemma digest_step_entry:
  assumes "digest_ok e"
  shows "fold (digest_step t) (digest_lines e) st =
    \<lparr>dg_algo = None, dg_hash = None,
     dg_result = (if basename (entry_file e) = t
       then dict_set (ascii_upper (entry_algo e)) (lower (entry_hash e)) (dg_result st) else dg_result st)\<rparr>"
proof (cases e)
  case (Inline a h n)
  then have ok: "plain_token a" "plain_token h" "plain_token n" "hex_run h"
    using assms hex_run_token by (simp_all add: digest_ok_def)
  have "startswith (''# '' @ a @ '' '' @ h) [HASH]" by (simp add: startswith_def)
  then have "digest_step t (''# '' @ a @ '' '' @ h) st =
      st\<lparr>dg_algo := Some (ascii_upper a), dg_hash := Some (lower h)\<rparr>"
    unfolding digest_step_def header_split [OF ok(1,2)] using ok(4) by simp
  then show ?thesis
    using token_starts [OF ok(3), of "[]"] by (simp add: Inline digest_step_def)
next
  case (Listed a h n)
  then have ok: "plain_token a" "plain_token h" "plain_token n" "hex_run h"
    using assms hex_run_token by (simp_all add: digest_ok_def)
  have "plain_token ''HASH''" by code_simp
  note hd = header_split [OF ok(1) this]
  have "startswith (''# '' @ a @ '' HASH'') [HASH]" by (simp add: startswith_def)
  moreover have "py_split (drop 1 (''# '' @ a @ '' HASH'')) = [a, ''HASH'']"
    using hd by simp
  ultimately have "digest_step t (''# '' @ a @ '' HASH'') st =
      st\<lparr>dg_algo := Some (ascii_upper a), dg_hash := None\<rparr>"
    unfolding digest_step_def using HASH_not_hex by simp
  then show ?thesis
    using token_starts [OF ok(2), of "''  '' @ n"] split_two_words(2) [OF ok(2,3)] ok(4)
    by (simp add: Listed digest_step_def Let_def)
qed

lemma token_line: "plain_token w \<Longrightarrow> nblines w = [w]"
  by (simp add: plain_token_def nblines_line nonspace_not_linebreak list_all_iff strip_nospace)

lemma entry_line:
  assumes "list_all (\<lambda>c. \<not> is_linebreak c) l" "l \<noteq> []" "\<not> is_space (hd l)" "\<not> is_space (last l)"
  shows "nblines l = [l]"
  using assms by (simp add: nblines_line strip_eq_self)

lemma digest_lines_nblines: "digest_ok e \<Longrightarrow> l \<in> set (digest_lines e) \<Longrightarrow> nblines l = [l]"
proof -
  assume ok: "digest_ok e" and l: "l \<in> set (digest_lines e)"
  have tok: "plain_token (entry_algo e)" "plain_token (entry_hash e)" "plain_token (entry_file e)"
    using ok hex_run_token by (simp_all add: digest_ok_def)
  note nb = nonspace_not_linebreak
  show ?thesis
  proof (cases e)
    case (Inline a h n)
    with tok have t: "plain_token a" "plain_token h" "plain_token n" by simp_all
    have "nblines (''# '' @ a @ '' '' @ h) = [''# '' @ a @ '' '' @ h]"
      using t by (intro entry_line) (auto simp: plain_token_def list_all_iff nb)
    then show ?thesis using l Inline token_line [OF t(3)] by auto
  next
    case (Listed a h n)
    with tok have t: "plain_token a" "plain_token h" "plain_token n" by simp_all
    have "plain_token ''HASH''" by code_simp
    then have "nblines (''# '' @ a @ '' HASH'') = [''# '' @ a @ '' HASH'']"
      using t by (intro entry_line) (auto simp: plain_token_def list_all_iff nb)
    moreover have "nblines (h @ ''  '' @ n) = [h @ ''  '' @ n]"
      using t by (intro entry_line) (auto simp: plain_token_def list_all_iff nb)
    ultimately show ?thesis using l Listed by auto
  qed
qed

lemma concat_map_singletons: "(\<And>x. x \<in> set xs \<Longrightarrow> f x = [x]) \<Longrightarrow> concat (map f xs) = xs"
  by (induction xs) auto

lemma digests_text_nblines:
  assumes "list_all digest_ok es"
  shows "nblines (digests_text es) = concat (map digest_lines es)"
proof -
  have "nblines (digests_text es) = concat (map nblines (concat (map digest_lines es)))"
    unfolding digests_text_def by (rule nblines_join) simp
  also have "\<dots> = concat (map digest_lines es)"
    using assms digest_lines_nblines by (intro concat_map_singletons) (auto simp: list_all_iff)
  finally show ?thesis .
qed

lemma digest_fold:
  assumes "list_all digest_ok es"
  shows "dg_result (fold (digest_step (basename f)) (concat (map digest_lines es)) st) =
    fold (\<lambda>(k, v). dict_set k v) (published es f) (dg_result st)"
  using assms
  by (induction es arbitrary: st) (simp_all add: published_def digest_step_entry)

lemma parse_digests_text:
  "list_all digest_ok es \<Longrightarrow>
    parse_digests (digests_text es) f =
      filter (\<lambda>(k, v). k \<in> set ALGORITHMS) (fold (\<lambda>(k, v). dict_set k v) (published es f) [])"
  by (simp add: parse_digests_def digests_text_nblines digest_fold digest_init_def)

lemma map_of_filter_key: "map_of (filter (\<lambda>(k, v). P k) d) k = (if P k then map_of d k else None)"
  by (induction d) auto

text \<open>A digests file is read as published, in both shapes a mirror emits and in any mixture
  of them: for each of the two algorithms the parser finds the last hash listed for the file's
  base name, in lower case, and it finds nothing else.\<close>

theorem digests_roundtrip:
  assumes "list_all digest_ok es"
  shows "map_of (parse_digests (digests_text es) f) =
    map_of (rev (published es f)) |` {BLAKE2B, SHA512}"
proof (rule ext)
  fix k
  show "map_of (parse_digests (digests_text es) f) k = (map_of (rev (published es f)) |` {BLAKE2B, SHA512}) k"
    unfolding parse_digests_text [OF assms] map_of_filter_key [where P = "\<lambda>k. k \<in> set ALGORITHMS"] map_of_fold_dict_set
    by (simp add: restrict_map_def ALGORITHMS_def)
qed

theorem digests_roundtrip_witness:
  "map_of (parse_digests (digests_text
      [Listed ''BLAKE2B'' ''0123456789abcdef'' ''s.tar.xz'', Inline ''sha512'' ''FEDCBA9876543210'' ''a/s.tar.xz'',
       Listed ''SHA512'' ''00000000000000ff'' ''s.tar.xz.CONTENTS'']) ''s.tar.xz'') ''SHA512''
    = Some ''fedcba9876543210''"
proof -
  let ?es = "[Listed ''BLAKE2B'' ''0123456789abcdef'' ''s.tar.xz'', Inline ''sha512'' ''FEDCBA9876543210'' ''a/s.tar.xz'',
       Listed ''SHA512'' ''00000000000000ff'' ''s.tar.xz.CONTENTS'']"
  have ok: "list_all digest_ok ?es" by code_simp
  have "map_of (rev (published ?es ''s.tar.xz'')) ''SHA512'' = Some ''fedcba9876543210''" by code_simp
  then show ?thesis
    unfolding digests_roundtrip [OF ok] by (simp add: restrict_map_def SHA512_def)
qed

section \<open>The integrity gate\<close>

lemma lower_lower [simp]: "lower (lower s) = lower s"
proof -
  have "lower_char (lower_char c) = lower_char c" for c
    by (auto simp: lower_char_def Let_def ordc_def)
  then show ?thesis by (simp add: lower_def)
qed

lemma verify_hashes_map:
  assumes "distinct (map fst d)" "d \<noteq> []"
  shows "verify_hashes b s data d \<longleftrightarrow>
    (\<forall>k v. map_of d k = Some v \<longrightarrow>
      (k = BLAKE2B \<and> lower (b data) = lower v) \<or> (k = SHA512 \<and> lower (s data) = lower v))"
proof -
  have "verify_hashes b s data d \<longleftrightarrow> (\<forall>(k, v) \<in> set d.
      (k = BLAKE2B \<and> lower (b data) = lower v) \<or> (k = SHA512 \<and> lower (s data) = lower v))"
    using assms(2)
    by (auto simp: verify_hashes_def hashes_of_def list_all_iff BLAKE2B_def SHA512_def
        split: option.splits if_splits)
  then show ?thesis
    using assms(1) by (auto simp: map_of_eq_Some_iff)
qed

lemma verify_hashes_some: "verify_hashes b s data d \<Longrightarrow> d \<noteq> []"
  by (simp add: verify_hashes_def)

lemma distinct_fold_dict_set:
  "distinct (map fst d) \<Longrightarrow> distinct (map fst (fold (\<lambda>(k, v). dict_set k v) es d))"
  by (induction es arbitrary: d) (auto simp: distinct_dict_set)

lemma parse_digests_distinct: "list_all digest_ok es \<Longrightarrow> distinct (map fst (parse_digests (digests_text es) f))"
  by (simp add: parse_digests_text distinct_map_filter distinct_fold_dict_set)

text \<open>C26: The integrity gate is exact. Where a digests file lists the tarball's two hashes, each
  in either shape and case, the download passes if and only if both its hashes are the published
  ones.\<close>

theorem stage3_gate_exact:
  assumes "list_all digest_ok es" "published es f = [(BLAKE2B, hb), (SHA512, hs)]"
  shows "verify_hashes blake2b sha512 data (parse_digests (digests_text es) f) \<longleftrightarrow>
    lower (blake2b data) = hb \<and> lower (sha512 data) = hs"
proof -
  let ?d = "parse_digests (digests_text es) f"
  have neq: "BLAKE2B \<noteq> SHA512" by code_simp
  have lw: "lower hb = hb" "lower hs = hs"
    using assms(2) by (auto simp: published_def)
  have d: "?d = [(BLAKE2B, hb), (SHA512, hs)]"
    unfolding parse_digests_text [OF assms(1)] assms(2) using neq by (simp add: ALGORITHMS_def)
  show ?thesis
    unfolding d using neq lw by (simp add: verify_hashes_def hashes_of_def)
qed

theorem stage3_gate_exact_witness:
  "let es = [Listed ''BLAKE2B'' ''0123456789ABCDEF'' ''s.tar.xz'', Listed ''SHA512'' ''00000000000000ff'' ''s.tar.xz'',
             Listed ''SHA512'' ''00000000000000ee'' ''s.tar.xz.CONTENTS''];
       gate = (\<lambda>data. verify_hashes (\<lambda>d. if d = ''good'' then ''0123456789abcdef'' else ''bad'') (\<lambda>d. ''00000000000000ff'') data
                 (parse_digests (digests_text es) ''s.tar.xz''))
   in gate ''good'' \<and> \<not> gate ''tampered''"
proof -
  let ?es = "[Listed ''BLAKE2B'' ''0123456789ABCDEF'' ''s.tar.xz'', Listed ''SHA512'' ''00000000000000ff'' ''s.tar.xz'',
             Listed ''SHA512'' ''00000000000000ee'' ''s.tar.xz.CONTENTS'']"
  have ok: "list_all digest_ok ?es"
    and p: "published ?es ''s.tar.xz'' = [(BLAKE2B, ''0123456789abcdef''), (SHA512, ''00000000000000ff'')]"
    by code_simp+
  have "lower ''0123456789abcdef'' = ''0123456789abcdef''" "lower ''00000000000000ff'' = ''00000000000000ff''"
    "lower ''bad'' \<noteq> ''0123456789abcdef''"
    by code_simp+
  then show ?thesis
    unfolding Let_def stage3_gate_exact [OF ok p] by simp
qed

text \<open>A file the digests do not list is never accepted, whatever its content.\<close>

lemma stage3_gate_unlisted:
  assumes "list_all digest_ok es" "published es f = []"
  shows "\<not> verify_hashes blake2b sha512 data (parse_digests (digests_text es) f)"
  using parse_digests_text [OF assms(1), of f] assms(2) by (simp add: verify_hashes_def)

section \<open>Fetching and the pointer file\<close>

text \<open>Five attempts at most; the answer is that of the last one made, or a RuntimeError.\<close>

lemma fetch_from_result:
  "fetch_from get url n err w = (w', r) \<Longrightarrow>
    (case r of Inr t \<Rightarrow> \<exists>w1. get w1 url = (w', Inr t) | Inl e \<Rightarrow> \<exists>m. e = RuntimeError m)"
  by (induction n arbitrary: err w) (auto split: prod.splits sum.splits)

lemma fetch_from_attempts:
  assumes "\<And>w u. cnt (fst (get w u)) = Suc (cnt w)"
  shows "cnt (fst (fetch_from get url n err w)) \<le> cnt w + n"
proof (induction n arbitrary: err w)
  case (Suc n)
  show ?case
    using Suc [of _ "fst (get w url)"] assms [of w url] by (auto split: prod.splits sum.splits)
qed simp

text \<open>The pointer names a tarball, and the URLs derived from it share its prefix.\<close>

lemma parse_latest_names_tarball:
  "latest_of ls = Inr (p, k) \<Longrightarrow> list_ex (endswith p) STAGE3_EXTS \<and> list_all (\<lambda>c. \<not> is_space c) p"
proof (induction ls)
  case (Cons l ls)
  show ?case
  proof (cases "index_line l")
    case (Some e)
    obtain p' n where e: "e = (p', n)" by (cases e)
    then have "list_ex (endswith p') STAGE3_EXTS" "p' \<in> set (py_split l)"
      using Some by (auto simp: index_line_def split: if_splits list.splits)
    then show ?thesis
      using Cons.prems Some e py_split_words by (auto split: option.splits)
  qed (use Cons in simp)
qed simp

text \<open>A superscript digit passes \<open>isdigit\<close> and then raises in \<open>int\<close>.\<close>

lemma parse_latest_superscript_raises:
  "\<exists>m. parse_latest (''a.tar.xz '' @ [char_of (178::nat)]) = Inl (ValueError m)"
proof -
  have "parse_latest (''a.tar.xz '' @ [char_of (178::nat)]) =
      Inl (ValueError (''invalid literal for int() with base 10: '' @ py_repr [char_of (178::nat)]))"
    by code_simp
  then show ?thesis by blast
qed

end
