(* ===== verification/InstallPlan.thy ===== *)
theory InstallPlan
  imports Bootloader Stage3
begin

text \<open>
  The reviewed plan of an install, \<open>gest/core/install/plan.py\<close>, with the two policies it
  carries: the features that become system-wide USE flags (\<open>capabilities.py\<close>) and the
  license agreements a rung entails (\<open>licensing.py\<close>). \<open>global_use_resolves\<close> says what a
  choice of features writes; \<open>license_gate_sound\<close> says what the license gate lets through.
\<close>

section \<open>plan.py\<close>

definition LICENSE_POLICIES :: "(string \<times> string) list" where
  "LICENSE_POLICIES =
     [(''libre'', ''@FREE''),
      (''redistributable'', ''@BINARY-REDISTRIBUTABLE''),
      (''full'', ''@BINARY-REDISTRIBUTABLE @EULA'')]"

definition ADMIN_MODELS :: "string list" where
  "ADMIN_MODELS = [''traditional'', ''sudo-augmented'', ''rootless'']"

definition ESCALATORS :: "string list" where
  "ESCALATORS = [''sudo'', ''doas'']"

definition CLOCK_MODES :: "string list" where
  "CLOCK_MODES = [''chrony'', ''local'']"

definition license_accept_value :: "string \<Rightarrow> string res" where
  "license_accept_value policy =
     (case map_of LICENSE_POLICIES policy of
        Some v \<Rightarrow> Inr v
      | None \<Rightarrow> Inl (ValueError (''unknown license policy: '' @ py_repr policy)))"

definition sets_root_password :: "string \<Rightarrow> bool res" where
  "sets_root_password admin_model =
     guard (admin_model \<in> set ADMIN_MODELS) (ValueError (''unknown admin model: '' @ py_repr admin_model))
       (Inr (admin_model \<noteq> ''rootless''))"

definition installs_escalator :: "string \<Rightarrow> bool res" where
  "installs_escalator admin_model =
     guard (admin_model \<in> set ADMIN_MODELS) (ValueError (''unknown admin model: '' @ py_repr admin_model))
       (Inr (admin_model = ''sudo-augmented'' \<or> admin_model = ''rootless''))"

record user_spec =
  up_name :: string
  up_comment :: string
  up_shell :: string
  up_wheel :: bool
  up_set_password :: bool

record network_spec =
  nw_dhcp :: bool
  nw_interface :: string
  nw_address :: string
  nw_gateway :: string
  nw_nameservers :: "string list"

definition NetworkSpec :: network_spec where
  "NetworkSpec = \<lparr>nw_dhcp = True, nw_interface = [], nw_address = [], nw_gateway = [], nw_nameservers = []\<rparr>"

record install_plan =
  pl_disk :: disk_plan
  pl_mount :: mount_plan
  pl_stage3 :: stage3_selection
  pl_kernel :: build_config
  pl_bootloader :: install_config
  pl_hostname :: string
  pl_timezone :: string
  pl_locale :: string
  pl_keymap :: string
  pl_arch :: string
  pl_profile :: string
  pl_root_password :: bool
  pl_users :: "user_spec list"
  pl_network :: network_spec
  pl_binary_pref :: bool
  pl_tier2 :: "string list"
  pl_desktop :: bool
  pl_gpu :: gpu_spec
  pl_license :: string
  pl_admin_model :: string
  pl_escalator :: string
  pl_clock :: string
  pl_global_use :: "string list"
  pl_gentoo_mirrors :: "string list"
  pl_sync_uri :: string
  pl_sync_type :: string
  pl_make_conf_overrides :: "(string \<times> string) list"

section \<open>capabilities.py\<close>

record capability =
  cp_key :: string
  cp_label :: string
  cp_tokens :: "string list"

definition Capability :: "string \<Rightarrow> string \<Rightarrow> string list \<Rightarrow> capability" where
  "Capability key label tokens = \<lparr>cp_key = key, cp_label = label, cp_tokens = tokens\<rparr>"

definition CAPABILITIES :: "capability list" where
  "CAPABILITIES =
    [Capability ''bluetooth'' ''Bluetooth'' [''bluetooth''],
     Capability ''printing'' ''Printing'' [''cups''],
     Capability ''wifi'' ''Wi-Fi'' [''networkmanager'', ''wifi''],
     Capability ''audio'' ''Audio (PipeWire)'' [''pipewire'', ''-pulseaudio''],
     Capability ''wayland'' ''Wayland'' [''wayland''],
     Capability ''a11y'' ''Accessibility'' [''a11y''],
     Capability ''vaapi'' ''Hardware video acceleration'' [''vaapi'', ''vdpau''],
     Capability ''codecs'' ''Media codecs''
       [''x264'', ''x265'', ''vpx'', ''aom'', ''opus'', ''mp3'', ''aac'', ''flac'', ''vorbis'', ''theora'']]"

definition known_keys :: "string list" where
  "known_keys = map cp_key CAPABILITIES"

definition negate_flag :: "string \<Rightarrow> string" where
  "negate_flag token = (if startswith token ''-'' then drop 1 token else ''-'' @ token)"

text \<open>The double loop over the catalogue, with the flags already written.\<close>

fun render_flags :: "bool \<Rightarrow> string list \<Rightarrow> string list \<Rightarrow> string list \<Rightarrow> string list \<times> string list" where
  "render_flags on [] seen out = (seen, out)"
| "render_flags on (tok # toks) seen out =
     (let rendered = (if on then tok else negate_flag tok); base = lstrip_char (CHR ''-'') rendered
      in if base \<in> set seen then render_flags on toks seen out
         else render_flags on toks (base # seen) (out @ [rendered]))"

fun render_caps :: "string list \<Rightarrow> capability list \<Rightarrow> string list \<Rightarrow> string list \<Rightarrow> string list" where
  "render_caps enabled [] seen out = out"
| "render_caps enabled (cap # caps) seen out =
     (case render_flags (cp_key cap \<in> set enabled) (cp_tokens cap) seen out of
        (seen', out') \<Rightarrow> render_caps enabled caps seen' out')"

definition list_repr :: "string list \<Rightarrow> string" where
  "list_repr xs = ''['' @ join '', '' (map py_repr xs) @ '']''"

definition resolve_global_use :: "string list \<Rightarrow> string list res" where
  "resolve_global_use enabled =
     (let unknown = filter (\<lambda>k. k \<notin> set known_keys) enabled
      in if unknown \<noteq> [] then Inl (ValueError (''unknown capabilities: '' @ list_repr (sort (remdups unknown))))
         else Inr (render_caps enabled CAPABILITIES [] []))"

section \<open>licensing.py\<close>

definition BINARY_REDISTRIBUTABLE :: string where
  "BINARY_REDISTRIBUTABLE = ''@BINARY-REDISTRIBUTABLE''"

definition EULA :: string where
  "EULA = ''@EULA''"

record agreement =
  ag_name :: string
  ag_label :: string
  ag_group :: string
  ag_one_line :: string
  ag_required :: bool

record license_review =
  lr_rung :: string
  lr_accept_value :: string
  lr_entails :: "agreement list"
  lr_blockers :: "string list"
  lr_warnings :: "string list"

definition review_ok :: "license_review \<Rightarrow> bool" where
  "review_ok r = (lr_blockers r = [])"

definition required_agreements :: "license_review \<Rightarrow> agreement list" where
  "required_agreements r = filter ag_required (lr_entails r)"

definition required_labels :: "license_review \<Rightarrow> string list" where
  "required_labels r = map ag_label (required_agreements r)"

definition firmware_agreement :: "bool \<Rightarrow> agreement" where
  "firmware_agreement required =
     \<lparr>ag_name = ''linux-fw-redistributable'', ag_label = ''Firmware'', ag_group = BINARY_REDISTRIBUTABLE,
      ag_one_line = ''Linux firmware '' @ EMDASH @ '' Wi-Fi, GPU microcode and other device blobs. Redistributable '' @
        ''binary blobs (sys-kernel/linux-firmware); most real hardware needs them.'',
      ag_required = required\<rparr>"

definition nvidia_agreement :: "bool \<Rightarrow> agreement" where
  "nvidia_agreement required =
     \<lparr>ag_name = ''NVIDIA-r2'', ag_label = ''NVIDIA driver'', ag_group = BINARY_REDISTRIBUTABLE,
      ag_one_line = ''Proprietary NVIDIA driver license (x11-drivers/nvidia-drivers) '' @ EMDASH @ '' the '' @
        ''closed-source GeForce driver a modern NVIDIA card needs under Wayland/HeDE.'',
      ag_required = required\<rparr>"

definition EULA_ONE_LINERS :: "(string \<times> string) list" where
  "EULA_ONE_LINERS =
     [(''NVIDIA-CUDA'', ''NVIDIA CUDA toolkit end-user license agreement.''),
      (''google-chrome'', ''Google Chrome browser terms of service.''),
      (''Steam'', ''Valve Steam subscriber agreement.''),
      (''RAR'', ''RARLAB unrar/WinRAR license.'')]"

definition eula_agreement :: "string \<Rightarrow> agreement" where
  "eula_agreement name =
     \<lparr>ag_name = name, ag_label = name, ag_group = EULA,
      ag_one_line = (case map_of EULA_ONE_LINERS name of Some l \<Rightarrow> l
        | None \<Rightarrow> name @ '' '' @ EMDASH @ '' click-through end-user license agreement.''),
      ag_required = True\<rparr>"

definition covers :: "string \<Rightarrow> string \<Rightarrow> bool" where
  "covers accept_value grp = (grp \<in> set (py_split accept_value))"

definition LIBRE_BLOCKER :: string where
  "LIBRE_BLOCKER = ''Libre (@FREE) can't provide the NVIDIA driver (NVIDIA-r2) or the '' @
     ''firmware this machine needs. Choose Redistributable or Full, or turn off the proprietary NVIDIA driver.''"

definition LIBRE_WARNING :: string where
  "LIBRE_WARNING = ''Libre (@FREE) excludes binary firmware '' @ EMDASH @ '' Wi-Fi, GPU microcode and '' @
     ''similar may not work, and the kernel is built firmware-free. Choose Redistributable if this machine needs firmware.''"

definition review_licenses :: "string \<Rightarrow> bool \<Rightarrow> string list \<Rightarrow> license_review res" where
  "review_licenses rung nvidia eulas =
     res_bind (license_accept_value rung) (\<lambda>accept.
       (let eula_ags = map eula_agreement eulas;
            covered = filter (\<lambda>a. covers accept (ag_group a))
              (firmware_agreement True # nvidia_agreement nvidia # eula_ags);
            uncovered = filter (\<lambda>a. \<not> covers accept (ag_group a)) eula_ags;
            libre = \<not> covers accept BINARY_REDISTRIBUTABLE
        in Inr \<lparr>lr_rung = rung, lr_accept_value = accept,
             lr_entails = filter ag_required covered @ filter (\<lambda>a. \<not> ag_required a) covered,
             lr_blockers =
               (if libre \<and> nvidia then [LIBRE_BLOCKER] else []) @
               (if uncovered \<noteq> []
                then [''This install needs click-through EULA licenses ('' @ join '', '' (map ag_name uncovered) @
                      '') that only Full accepts. Choose Full, or drop the packages that need them.'']
                else []),
             lr_warnings = (if libre \<and> \<not> nvidia then [LIBRE_WARNING] else [])\<rparr>))"

definition plan_eula_licenses :: "install_plan \<Rightarrow> string list" where
  "plan_eula_licenses plan = []"

definition license_agreements :: "install_plan \<Rightarrow> license_review res" where
  "license_agreements plan =
     review_licenses (pl_license plan) (gp_nvidia_proprietary (pl_gpu plan)) (plan_eula_licenses plan)"

text \<open>\<open>read_license_text\<close>: \<open>read\<close> is the file system, None for the OSError.\<close>

fun first_readable :: "(string \<Rightarrow> string option) \<Rightarrow> string list \<Rightarrow> string" where
  "first_readable read [] = []"
| "first_readable read (p # ps) = (case read p of Some t \<Rightarrow> t | None \<Rightarrow> first_readable read ps)"

definition read_license_text :: "(string \<Rightarrow> string option) \<Rightarrow> string \<Rightarrow> string option \<Rightarrow> string" where
  "read_license_text read name licenses_dir =
     first_readable read (map (\<lambda>d. path_join2 d name)
       (case licenses_dir of Some d \<Rightarrow> [d]
        | None \<Rightarrow> [''/usr/share/gest/licenses'', ''/var/db/repos/gentoo/licenses'']))"

section \<open>Features as USE flags\<close>

definition cap_flags :: "string list \<Rightarrow> capability \<Rightarrow> string list" where
  "cap_flags enabled cap = (if cp_key cap \<in> set enabled then cp_tokens cap else map negate_flag (cp_tokens cap))"

definition flag_base :: "string \<Rightarrow> string" where
  "flag_base tok = lstrip_char (CHR ''-'') tok"

text \<open>A catalogue whose flags have at most one sign and are all different.\<close>

definition flag_ok :: "string \<Rightarrow> bool" where
  "flag_ok tok = (flag_base tok \<noteq> [] \<and> (tok = flag_base tok \<or> tok = CHR ''-'' # flag_base tok))"

lemma flag_base_negate: "flag_ok tok \<Longrightarrow> flag_base (negate_flag tok) = flag_base tok"
proof -
  assume ok: "flag_ok tok"
  have b: "flag_base (flag_base tok) = flag_base tok" by (simp add: flag_base_def lstrip_char_def dropWhile_idem)
  show ?thesis
  proof (cases "tok = CHR ''-'' # flag_base tok")
    case True
    then obtain t where "tok = CHR ''-'' # t" "flag_base tok = t" by blast
    then have "negate_flag tok = flag_base tok"
      by (simp add: negate_flag_def startswith_def)
    then show ?thesis using b by simp
  next
    case False
    with ok have t: "tok = flag_base tok" "tok \<noteq> []" by (auto simp: flag_ok_def)
    have "dropWhile (\<lambda>c. c = CHR ''-'') tok = tok"
      using t(1) [symmetric] unfolding flag_base_def lstrip_char_def .
    with t(2) have "hd tok \<noteq> CHR ''-''"
      using hd_dropWhile [of "\<lambda>c. c = CHR ''-''" tok] by simp
    then have "negate_flag tok = CHR ''-'' # tok"
      using t(2) by (cases tok) (auto simp: negate_flag_def startswith_def)
    then show ?thesis by (simp add: flag_base_def lstrip_char_def)
  qed
qed

lemma render_flags_fresh:
  "list_all flag_ok toks \<Longrightarrow> distinct (map flag_base toks) \<Longrightarrow> set (map flag_base toks) \<inter> set seen = {} \<Longrightarrow>
    render_flags on toks seen out =
      (rev (map flag_base toks) @ seen, out @ (if on then toks else map negate_flag toks))"
proof (induction on toks seen out rule: render_flags.induct)
  case (2 on tok toks seen out)
  have "lstrip_char (CHR ''-'') (if on then tok else negate_flag tok) = flag_base tok"
    using 2(3) flag_base_negate [of tok] by (simp add: flag_base_def)
  then show ?case using 2 by (cases on) (auto simp: Let_def)
qed simp

lemma render_caps_fresh:
  "list_all flag_ok (concat (map cp_tokens caps)) \<Longrightarrow> distinct (map flag_base (concat (map cp_tokens caps))) \<Longrightarrow>
    set (map flag_base (concat (map cp_tokens caps))) \<inter> set seen = {} \<Longrightarrow>
    render_caps enabled caps seen out = out @ concat (map (cap_flags enabled) caps)"
proof (induction caps arbitrary: seen out)
  case (Cons cap caps)
  have "render_flags (cp_key cap \<in> set enabled) (cp_tokens cap) seen out =
      (rev (map flag_base (cp_tokens cap)) @ seen, out @ cap_flags enabled cap)"
    using Cons.prems by (subst render_flags_fresh) (auto simp: cap_flags_def)
  moreover have "set (map flag_base (concat (map cp_tokens caps))) \<inter> set (rev (map flag_base (cp_tokens cap)) @ seen) = {}"
    using Cons.prems by auto
  ultimately show ?case
    using Cons.IH [of "rev (map flag_base (cp_tokens cap)) @ seen" "out @ cap_flags enabled cap"] Cons.prems by simp
qed simp

lemma cap_flags_bases:
  "list_all flag_ok (cp_tokens cap) \<Longrightarrow> map flag_base (cap_flags enabled cap) = map flag_base (cp_tokens cap)"
  by (simp add: cap_flags_def list_all_iff flag_base_negate)

text \<open>A choice of features is refused if it names one outside the catalogue; otherwise every
  feature is written, its flags as they are when chosen and negated when not, in catalogue
  order, and the flags mentioned are the same whatever was chosen, each once.\<close>

theorem global_use_resolves:
  "is_ok (resolve_global_use enabled) = list_all (\<lambda>k. k \<in> set known_keys) enabled \<and>
    (case resolve_global_use enabled of
       Inl e \<Rightarrow> True
     | Inr out \<Rightarrow> out = concat (map (cap_flags enabled) CAPABILITIES) \<and> distinct (map flag_base out) \<and>
         map flag_base out = map flag_base (concat (map cp_tokens CAPABILITIES)))"
proof -
  let ?all = "concat (map cp_tokens CAPABILITIES)"
  have ok: "list_all flag_ok ?all" "distinct (map flag_base ?all)" by code_simp+
  have r: "render_caps enabled CAPABILITIES [] [] = concat (map (cap_flags enabled) CAPABILITIES)"
    using render_caps_fresh [OF ok, of "[]" enabled "[]"] by simp
  have b: "map flag_base (concat (map (cap_flags enabled) caps)) = map flag_base (concat (map cp_tokens caps))"
    if "list_all flag_ok (concat (map cp_tokens caps))" for caps
    using that by (induction caps) (simp_all add: cap_flags_bases)
  show ?thesis
    using b [OF ok(1)] ok(2)
    by (auto simp: resolve_global_use_def r Let_def filter_empty_conv list_all_iff)
qed

section \<open>The license gate\<close>

lemma license_values:
  "license_accept_value rung = Inr v \<longleftrightarrow>
    (rung = ''libre'' \<and> v = ''@FREE'') \<or> (rung = ''redistributable'' \<and> v = ''@BINARY-REDISTRIBUTABLE'') \<or>
    (rung = ''full'' \<and> v = ''@BINARY-REDISTRIBUTABLE @EULA'')"
  by (auto simp: license_accept_value_def LICENSE_POLICIES_def split: option.splits if_splits)

lemma rung_covers:
  assumes "license_accept_value rung = Inr v"
  shows "covers v BINARY_REDISTRIBUTABLE = (rung \<noteq> ''libre'')" "covers v EULA = (rung = ''full'')"
proof -
  have "covers ''@FREE'' BINARY_REDISTRIBUTABLE = False" "covers ''@FREE'' EULA = False"
    "covers ''@BINARY-REDISTRIBUTABLE'' BINARY_REDISTRIBUTABLE = True" "covers ''@BINARY-REDISTRIBUTABLE'' EULA = False"
    "covers ''@BINARY-REDISTRIBUTABLE @EULA'' BINARY_REDISTRIBUTABLE = True"
    "covers ''@BINARY-REDISTRIBUTABLE @EULA'' EULA = True"
    by code_simp+
  then show "covers v BINARY_REDISTRIBUTABLE = (rung \<noteq> ''libre'')" "covers v EULA = (rung = ''full'')"
    using assms unfolding license_values by auto
qed

lemma agreement_groups [simp]:
  "ag_group (firmware_agreement b) = BINARY_REDISTRIBUTABLE" "ag_group (nvidia_agreement b) = BINARY_REDISTRIBUTABLE"
  "ag_group (eula_agreement n) = EULA" "ag_required (firmware_agreement b) = b"
  "ag_required (nvidia_agreement b) = b" "ag_required (eula_agreement n) = True"
  by (simp_all add: firmware_agreement_def nvidia_agreement_def eula_agreement_def)

text \<open>The license gate lets a choice through exactly when the rung covers what the install
  needs: the NVIDIA driver anything but Libre, a click-through license only Full. What it then
  shows as required is covered by the rung, and nothing that is needed is missing from it.\<close>

theorem license_gate_sound:
  assumes "review_licenses rung nvidia eulas = Inr r"
  shows "review_ok r = (\<not> (nvidia \<and> rung = ''libre'') \<and> \<not> (eulas \<noteq> [] \<and> rung \<noteq> ''full'')) \<and>
    list_all (\<lambda>a. covers (lr_accept_value r) (ag_group a)) (required_agreements r) \<and>
    (if review_ok r
     then list_all (\<lambda>n. eula_agreement n \<in> set (required_agreements r)) eulas \<and>
       (nvidia_agreement True \<in> set (required_agreements r)) = nvidia \<and>
       (firmware_agreement True \<in> set (required_agreements r)) = (rung \<noteq> ''libre'')
     else True)"
proof -
  from assms obtain v where v: "license_accept_value rung = Inr v" by (auto simp: review_licenses_def res_bind_Inr)
  note c = rung_covers [OF v]
  have u: "filter (\<lambda>a. \<not> covers v (ag_group a)) (map eula_agreement eulas) =
      (if rung = ''full'' then [] else map eula_agreement eulas)"
    by (simp add: filter_map comp_def c)
  have nf: "nvidia_agreement True \<noteq> firmware_agreement True"
    by (simp add: nvidia_agreement_def firmware_agreement_def)
  have ne: "nvidia_agreement True \<noteq> eula_agreement n" "firmware_agreement True \<noteq> eula_agreement n" for n
  proof -
    have "BINARY_REDISTRIBUTABLE \<noteq> EULA" by code_simp
    then show "nvidia_agreement True \<noteq> eula_agreement n" "firmware_agreement True \<noteq> eula_agreement n"
      using agreement_groups(1-3) by metis+
  qed
  have r: "lr_accept_value r = v" "lr_blockers r =
      (if rung = ''libre'' \<and> nvidia then [LIBRE_BLOCKER] else []) @
      (if rung \<noteq> ''full'' \<and> eulas \<noteq> []
       then [''This install needs click-through EULA licenses ('' @ join '', '' (map ag_name (map eula_agreement eulas)) @
             '') that only Full accepts. Choose Full, or drop the packages that need them.''] else [])"
    "required_agreements r = filter (\<lambda>a. covers v (ag_group a) \<and> ag_required a)
      (firmware_agreement True # nvidia_agreement nvidia # map eula_agreement eulas)"
    using assms
    by (auto simp: review_licenses_def v u c Let_def required_agreements_def)
  show ?thesis
    using nf ne by (auto simp: review_ok_def r c list_all_iff)
qed

theorem license_gate_sound_witness:
  "\<exists>r. review_licenses ''full'' True [''Steam''] = Inr r \<and> review_ok r \<and>
    eula_agreement ''Steam'' \<in> set (required_agreements r) \<and> nvidia_agreement True \<in> set (required_agreements r)"
proof -
  obtain r where r: "review_licenses ''full'' True [''Steam''] = Inr r"
    by (simp add: review_licenses_def license_accept_value_def LICENSE_POLICIES_def Let_def)
  from license_gate_sound [OF r] r show ?thesis by auto
qed

end
