(* ===== verification/GpuDetect.thy ===== *)
theory GpuDetect
  imports BootConfig
begin

text \<open>
  Hardware detection, \<open>gest/core/hwflags/detect.py\<close>, and \<open>resolve_gpu\<close> of
  \<open>gest/core/install/assemble.py\<close>, which turns the output of \<open>lspci\<close> into the graphics
  part of the plan. The output of a tool is an argument, None for a tool that cannot be run.
  \<open>resolve_gpu_coherent\<close> says that the answer never contradicts itself.
\<close>

section \<open>detect.py\<close>

type_synonym tool_output = "(int \<times> string) option"

fun flags_line :: "string list \<Rightarrow> string list option" where
  "flags_line [] = None"
| "flags_line (l # ls) =
     (if CHR '':'' \<in> set l then Some (py_split (after_char (CHR '':'') l)) else flags_line ls)"

definition detect_cpu_flags :: "tool_output \<Rightarrow> string list" where
  "detect_cpu_flags run =
     (case run of
        None \<Rightarrow> []
      | Some (rc, out) \<Rightarrow>
          if rc \<noteq> 0 then []
          else (case flags_line (splitlines out) of Some fs \<Rightarrow> fs | None \<Rightarrow> py_split out))"

definition VIDEO_MAP :: "(string list \<times> string list) list" where
  "VIDEO_MAP =
    [([''nvidia''], [''nvidia'']),
     ([''amd'', ''ati '', ''radeon'', ''advanced micro devices''], [''amdgpu'', ''radeonsi'']),
     ([''intel''], [''intel''])]"

definition AMD_LEGACY_RADEON :: "string list" where
  "AMD_LEGACY_RADEON =
    [''cedar'', ''redwood'', ''juniper'', ''cypress'', ''hemlock'',
     ''caicos'', ''turks'', ''barts'', ''cayman'', ''antilles'',
     ''wrestler'', ''ontario'', ''zacate'', ''llano'', ''sumo'', ''trinity'', ''richland'',
     ''r600'', ''rv6'', ''rv7'', ''rs780'', ''rs880'']"

definition AMD_LEGACY_TOKENS :: "string list" where
  "AMD_LEGACY_TOKENS = [''radeon'', ''r600'']"

definition GPU_CLASS :: "string list" where
  "GPU_CLASS = [''vga'', ''3d controller'', ''display controller'']"

definition any_in :: "string list \<Rightarrow> string \<Rightarrow> bool" where
  "any_in needles s = list_ex (\<lambda>n. contains n s) needles"

text \<open>
  A pattern \<open>\b...\b\<close> of word characters is found exactly at a maximal run of them.
\<close>

definition word_char :: "char \<Rightarrow> bool" where
  "word_char c = (alnum_az c \<or> c = CHR ''_'' \<or> ordc c \<in> {170, 178, 179, 181, 185, 186, 188, 189, 190} \<or>
     (192 \<le> ordc c \<and> ordc c \<noteq> 215 \<and> ordc c \<noteq> 247))"

definition words_of :: "string \<Rightarrow> string list" where
  "words_of s = split_on (\<lambda>c. \<not> word_char c) s"

definition coded :: "string \<Rightarrow> nat \<Rightarrow> nat \<Rightarrow> string \<Rightarrow> bool" where
  "coded pre lo hi w =
     (startswith w pre \<and> list_all dec_digit (drop (length pre) w) \<and>
      length pre + lo \<le> length w \<and> length w \<le> length pre + hi)"

definition tesla_code :: "string \<Rightarrow> bool" where
  "tesla_code w = (coded ''G8'' 1 1 w \<or> coded ''G9'' 1 1 w \<or> coded ''GT2'' 2 2 w)"

definition NVIDIA_ARCH :: "((string \<Rightarrow> bool) \<times> string) list" where
  "NVIDIA_ARCH =
    [(coded ''AD'' 3 3, ''current''), (coded ''GB'' 3 3, ''current''), (coded ''GA'' 3 3, ''current''),
     (coded ''TU'' 3 3, ''current''), (coded ''GV'' 3 3, ''current''), (coded ''GP'' 3 3, ''current''),
     (coded ''GM'' 3 3, ''current''), (coded ''GK'' 3 3, ''legacy-470''), (coded ''GF'' 3 3, ''legacy-390''),
     (tesla_code, ''nouveau'')]"

definition NVIDIA_SLOTS :: "(string \<times> string) list" where
  "NVIDIA_SLOTS = [(''legacy-470'', ''0/470''), (''legacy-390'', ''0/390'')]"

definition gpu_class_line :: "string \<Rightarrow> bool" where
  "gpu_class_line line = any_in GPU_CLASS (lower line)"

definition nvidia_gpu_lines :: "string \<Rightarrow> string list" where
  "nvidia_gpu_lines lspci_text =
     filter (\<lambda>line. contains ''nvidia'' (lower line) \<and> gpu_class_line line) (splitlines lspci_text)"

fun arch_branch :: "((string \<Rightarrow> bool) \<times> string) list \<Rightarrow> string \<Rightarrow> string option" where
  "arch_branch [] line = None"
| "arch_branch ((rx, branch) # rest) line =
     (if list_ex rx (words_of line) then Some branch else arch_branch rest line)"

fun first_branch :: "string list \<Rightarrow> string option" where
  "first_branch [] = None"
| "first_branch (line # ls) =
     (case arch_branch NVIDIA_ARCH line of Some b \<Rightarrow> Some b | None \<Rightarrow> first_branch ls)"

definition nvidia_driver_branch :: "string \<Rightarrow> string" where
  "nvidia_driver_branch lspci_text =
     (let lines = nvidia_gpu_lines lspci_text
      in case first_branch lines of Some b \<Rightarrow> b | None \<Rightarrow> if lines \<noteq> [] then ''current'' else [])"

definition amd_legacy_radeon :: "string \<Rightarrow> bool" where
  "amd_legacy_radeon lspci_text =
     list_ex (\<lambda>line. gpu_class_line line \<and>
         any_in [''amd'', ''ati '', ''radeon'', ''advanced micro devices''] (lower line) \<and>
         any_in AMD_LEGACY_RADEON (lower line)) (splitlines lspci_text)"

definition add_token :: "string \<Rightarrow> string list \<Rightarrow> string list" where
  "add_token tok cards = (if tok \<in> set cards then cards else cards @ [tok])"

definition line_tokens :: "string \<Rightarrow> string list" where
  "line_tokens line =
     (if gpu_class_line line
      then concat (map (\<lambda>(needles, tokens). if any_in needles (lower line) then tokens else []) VIDEO_MAP)
      else [])"

definition parse_video_cards :: "string \<Rightarrow> string list" where
  "parse_video_cards lspci_text = fold add_token (concat (map line_tokens (splitlines lspci_text))) []"

definition nvidia_open_recommended :: "string \<Rightarrow> bool" where
  "nvidia_open_recommended lspci_text =
     list_ex (\<lambda>line. list_ex (\<lambda>w. list_ex (\<lambda>p. coded p 2 3 w) [''TU'', ''GA'', ''AD'', ''GB'']) (words_of line))
       (nvidia_gpu_lines lspci_text)"

definition detect_video_cards :: "tool_output \<Rightarrow> string list" where
  "detect_video_cards run =
     (case run of None \<Rightarrow> [] | Some (rc, out) \<Rightarrow> if rc \<noteq> 0 then [] else parse_video_cards out)"

section \<open>resolve\_gpu\<close>

definition GpuSpec :: "string list \<Rightarrow> bool \<Rightarrow> bool \<Rightarrow> string \<Rightarrow> gpu_spec" where
  "GpuSpec cards proprietary kernel_open slot =
     \<lparr>gp_video_cards = cards, gp_nvidia_proprietary = proprietary, gp_kernel_open = kernel_open, gp_nvidia_slot = slot\<rparr>"

definition amd_cards :: "string \<Rightarrow> string list \<Rightarrow> string list" where
  "amd_cards out cards =
     (if ''amdgpu'' \<in> set cards \<and> amd_legacy_radeon out
      then fold add_token AMD_LEGACY_TOKENS (filter (\<lambda>c. c \<notin> {''amdgpu'', ''radeonsi''}) cards)
      else cards)"

definition resolve_gpu :: "tool_output \<Rightarrow> gpu_spec" where
  "resolve_gpu run =
     (case run of
        None \<Rightarrow> GpuSpec [] False False []
      | Some (rc, out) \<Rightarrow>
          if rc \<noteq> 0 then GpuSpec [] False False []
          else
            (let cards = amd_cards out (parse_video_cards out); branch = nvidia_driver_branch out
             in if branch = ''nouveau''
                then GpuSpec (add_token ''nouveau'' (filter (\<lambda>c. c \<noteq> ''nvidia'') cards)) False False []
                else if branch \<in> {''legacy-470'', ''legacy-390''}
                then GpuSpec cards True False (the (map_of NVIDIA_SLOTS branch))
                else if branch = ''current''
                then GpuSpec cards True (nvidia_open_recommended out) []
                else GpuSpec cards False False []))"

section \<open>Coherence\<close>

text \<open>
  A graphics setup that does not contradict itself: the proprietary driver goes with its
  VIDEO\_CARDS token, and the open modules and a legacy slot only with the driver and never
  together.
\<close>

definition gpu_coherent :: "gpu_spec \<Rightarrow> bool" where
  "gpu_coherent g =
     ((''nvidia'' \<in> set (gp_video_cards g)) = gp_nvidia_proprietary g \<and>
      \<not> (gp_kernel_open g \<and> \<not> gp_nvidia_proprietary g) \<and>
      \<not> (gp_nvidia_slot g \<noteq> [] \<and> \<not> gp_nvidia_proprietary g) \<and>
      \<not> (gp_kernel_open g \<and> gp_nvidia_slot g \<noteq> []) \<and> distinct (gp_video_cards g))"

lemma fold_add_token: "set (fold add_token toks cards) = set cards \<union> set toks"
  by (induction toks arbitrary: cards) (auto simp: add_token_def)

lemma distinct_fold_add_token: "distinct cards \<Longrightarrow> distinct (fold add_token toks cards)"
  by (induction toks arbitrary: cards) (auto simp: add_token_def)

lemma line_tokens_nvidia: "''nvidia'' \<in> set (line_tokens line) \<longleftrightarrow> gpu_class_line line \<and> contains ''nvidia'' (lower line)"
  by (simp add: line_tokens_def VIDEO_MAP_def any_in_def)

lemma parse_nvidia: "''nvidia'' \<in> set (parse_video_cards out) \<longleftrightarrow> nvidia_gpu_lines out \<noteq> []"
proof -
  have "''nvidia'' \<in> set (parse_video_cards out) \<longleftrightarrow> (\<exists>l \<in> set (splitlines out). ''nvidia'' \<in> set (line_tokens l))"
    by (auto simp: parse_video_cards_def fold_add_token)
  then show ?thesis
    unfolding line_tokens_nvidia nvidia_gpu_lines_def filter_empty_conv by blast
qed

lemma amd_cards_nvidia: "''nvidia'' \<in> set (amd_cards out cards) \<longleftrightarrow> ''nvidia'' \<in> set cards"
proof -
  have "''nvidia'' \<notin> set AMD_LEGACY_TOKENS" by code_simp
  then show ?thesis by (auto simp: amd_cards_def fold_add_token)
qed

lemma amd_cards_distinct: "distinct cards \<Longrightarrow> distinct (amd_cards out cards)"
  by (simp add: amd_cards_def distinct_fold_add_token)

lemma arch_branch_values: "arch_branch ar line = Some b \<Longrightarrow> b \<in> snd ` set ar"
  by (induction ar line rule: arch_branch.induct) (auto split: if_splits)

lemma first_branch_values: "first_branch ls = Some b \<Longrightarrow> ls \<noteq> [] \<and> b \<in> {''current'', ''legacy-470'', ''legacy-390'', ''nouveau''}"
proof (induction ls)
  case (Cons l ls)
  have "snd ` set NVIDIA_ARCH = {''current'', ''legacy-470'', ''legacy-390'', ''nouveau''}"
    by (auto simp: NVIDIA_ARCH_def)
  with Cons arch_branch_values [of NVIDIA_ARCH l] show ?case
    by (auto split: option.splits)
qed simp

lemma branch_values:
  "nvidia_driver_branch out = [] \<longleftrightarrow> nvidia_gpu_lines out = []"
  "nvidia_driver_branch out \<in> {[], ''current'', ''legacy-470'', ''legacy-390'', ''nouveau''}"
  using first_branch_values [of "nvidia_gpu_lines out"]
  by (auto simp: nvidia_driver_branch_def Let_def split: option.splits)

text \<open>C33: Whatever \<open>lspci\<close> prints, the graphics setup it is turned into is coherent: the NVIDIA
  token is there exactly when the proprietary driver is requested, and the open kernel modules
  and a legacy slot are never asked for without the driver or together.\<close>

theorem resolve_gpu_coherent: "gpu_coherent (resolve_gpu run)"
proof (cases run)
  case (Some p)
  obtain rc out where p: "p = (rc, out)" by (cases p)
  show ?thesis
  proof (cases "rc = 0")
    case True
    let ?cards = "amd_cards out (parse_video_cards out)"
    have d: "distinct ?cards"
      by (rule amd_cards_distinct) (simp add: parse_video_cards_def distinct_fold_add_token)
    have n: "''nvidia'' \<in> set ?cards \<longleftrightarrow> nvidia_driver_branch out \<noteq> []"
      by (simp add: amd_cards_nvidia parse_nvidia branch_values(1))
    have slot: "the (map_of NVIDIA_SLOTS b) \<noteq> []" if "b \<in> {''legacy-470'', ''legacy-390''}" for b
      using that by (auto simp: NVIDIA_SLOTS_def)
    show ?thesis
      using d n slot branch_values(2) [of out]
      by (auto simp: Some p True resolve_gpu_def Let_def GpuSpec_def gpu_coherent_def add_token_def)
  qed (simp add: Some p resolve_gpu_def GpuSpec_def gpu_coherent_def)
qed (simp add: resolve_gpu_def GpuSpec_def gpu_coherent_def)

end
