(* ===== verification/Assemble.thy ===== *)
theory Assemble
  imports InstallPlan GpuDetect Settings Network UsersCommands
begin

text \<open>
  \<open>gest/core/install/assemble.py\<close> with \<open>gest/core/kernel/config.py\<close>: the installer's
  editable selections, the proposals of a system role, and the pure assembly of the reviewed
  plan. The network and the package data (the bundled kernel configuration) are arguments.
  \<open>assembled_plan_valid\<close> says what every assembled plan guarantees to the steps that run
  it; \<open>plan_keeps_secrets\<close> that no secret can be read off a plan.
\<close>

section \<open>kernel/config.py\<close>

definition TARGET_KERNEL_CONFIG :: string where
  "TARGET_KERNEL_CONFIG = ''/var/tmp/gest-kernel.config''"

definition KERNEL_CONFIGS :: "(string \<times> string) list" where
  "KERNEL_CONFIGS = [(''amd64'', ''config-amd64'')]"

definition bundled_config :: "(string \<Rightarrow> string option) \<Rightarrow> string \<Rightarrow> string option" where
  "bundled_config resource arch =
     (case map_of KERNEL_CONFIGS arch of None \<Rightarrow> None | Some name \<Rightarrow> resource name)"

section \<open>The selections\<close>

record user_draft =
  ud_name :: string
  ud_comment :: string
  ud_shell :: string
  ud_admin :: bool
  ud_password :: string

record selections =
  sl_disk :: string
  sl_esp_size :: string
  sl_swap_size :: string
  sl_root_fs :: string
  sl_separate_home :: bool
  sl_root_size :: string
  sl_home_fs :: string
  sl_target_root :: string
  sl_variant :: stage3_variant
  sl_hostname :: string
  sl_timezone :: string
  sl_locale :: string
  sl_keymap :: string
  sl_clock :: string
  sl_users :: "user_draft list"
  sl_net_interface :: string
  sl_net_dhcp :: bool
  sl_net_address :: string
  sl_net_gateway :: string
  sl_net_nameservers :: "string list"
  sl_kernel_method :: string
  sl_kernel_jobs :: int
  sl_kernel_initramfs :: bool
  sl_firmware :: string
  sl_efi_directory :: string
  sl_boot_disk :: string
  sl_install_desktop :: bool
  sl_video_cards :: "string list"
  sl_nvidia_proprietary :: bool
  sl_kernel_open :: bool
  sl_nvidia_slot :: string
  sl_gpu_auto :: bool
  sl_seamless :: bool
  sl_root_password :: string
  sl_binary_pref :: bool
  sl_tier2 :: "string list"
  sl_role :: string
  sl_license :: string
  sl_licenses_accepted :: bool
  sl_accepted_licenses :: "string list"
  sl_capabilities :: "string list"
  sl_admin_model :: string
  sl_escalator :: string
  sl_gentoo_mirrors :: "string list"
  sl_sync_uri :: string
  sl_sync_type :: string
  sl_make_conf_overrides :: "(string \<times> string) list"

definition DEFAULT_TARGET_ROOT :: string where
  "DEFAULT_TARGET_ROOT = ''/mnt/gentoo''"

definition DESKTOP_CAPABILITIES :: "string list" where
  "DESKTOP_CAPABILITIES = [''bluetooth'', ''printing'', ''wifi'', ''audio'', ''wayland'', ''vaapi'', ''codecs'']"

definition InstallSelections :: "string \<Rightarrow> selections" where
  "InstallSelections role =
    \<lparr>sl_disk = [], sl_esp_size = ''512M'', sl_swap_size = ''8G'', sl_root_fs = ''ext4'', sl_separate_home = False,
     sl_root_size = ''40G'', sl_home_fs = ''ext4'', sl_target_root = DEFAULT_TARGET_ROOT, sl_variant = DEFAULT_VARIANT,
     sl_hostname = ''gentoo'', sl_timezone = ''America/New_York'', sl_locale = ''C.UTF-8'', sl_keymap = ''us'',
     sl_clock = ''chrony'', sl_users = [], sl_net_interface = [], sl_net_dhcp = True, sl_net_address = [],
     sl_net_gateway = [], sl_net_nameservers = [], sl_kernel_method = ''genkernel'', sl_kernel_jobs = 0,
     sl_kernel_initramfs = True, sl_firmware = ''uefi'', sl_efi_directory = ''/efi'', sl_boot_disk = [],
     sl_install_desktop = True, sl_video_cards = [], sl_nvidia_proprietary = False, sl_kernel_open = False,
     sl_nvidia_slot = [], sl_gpu_auto = True, sl_seamless = True, sl_root_password = [], sl_binary_pref = True,
     sl_tier2 = [], sl_role = role, sl_license = ''full'', sl_licenses_accepted = False, sl_accepted_licenses = [],
     sl_capabilities = DESKTOP_CAPABILITIES, sl_admin_model = ''traditional'', sl_escalator = ''sudo'',
     sl_gentoo_mirrors = [], sl_sync_uri = [], sl_sync_type = ''rsync'', sl_make_conf_overrides = []\<rparr>"

section \<open>Roles\<close>

definition ROLES :: "string list" where
  "ROLES = [''desktop'', ''server'', ''minimal'', ''custom'']"

definition propose :: "string \<Rightarrow> selections res" where
  "propose role =
     guard (role \<in> set ROLES) (ValueError (''unknown role: '' @ py_repr role))
       (let sel = InstallSelections role
        in Inr
          (if role = ''desktop'' then
             sel\<lparr>sl_install_desktop := True, sl_gpu_auto := True, sl_binary_pref := True, sl_seamless := True,
                 sl_license := ''full'', sl_admin_model := ''rootless'', sl_escalator := ''sudo'', sl_tier2 := [],
                 sl_capabilities := DESKTOP_CAPABILITIES\<rparr>
           else if role = ''server'' then
             sel\<lparr>sl_install_desktop := False, sl_gpu_auto := False, sl_binary_pref := True, sl_seamless := False,
                 sl_license := ''redistributable'', sl_admin_model := ''traditional'',
                 sl_tier2 := [''sshd'', ''firewall''], sl_capabilities := []\<rparr>
           else if role = ''minimal'' then
             sel\<lparr>sl_install_desktop := False, sl_gpu_auto := False, sl_binary_pref := False, sl_seamless := False,
                 sl_license := ''redistributable'', sl_admin_model := ''traditional'', sl_tier2 := [],
                 sl_capabilities := []\<rparr>
           else sel))"

definition apply_role :: "selections \<Rightarrow> string \<Rightarrow> selections res" where
  "apply_role sel role =
     res_bind (propose role) (\<lambda>p. Inr
       (sel\<lparr>sl_role := sl_role p, sl_install_desktop := sl_install_desktop p, sl_gpu_auto := sl_gpu_auto p,
            sl_binary_pref := sl_binary_pref p, sl_seamless := sl_seamless p, sl_license := sl_license p,
            sl_admin_model := sl_admin_model p, sl_escalator := sl_escalator p, sl_tier2 := sl_tier2 p,
            sl_capabilities := sl_capabilities p, sl_video_cards := sl_video_cards p,
            sl_nvidia_proprietary := sl_nvidia_proprietary p,
            sl_licenses_accepted := False, sl_accepted_licenses := []\<rparr>))"

section \<open>The parts of a plan\<close>

definition resolve_stage3 ::
    "('w \<Rightarrow> string \<Rightarrow> 'w \<times> (string + string)) \<Rightarrow> stage3_variant \<Rightarrow> string \<Rightarrow> 'w \<Rightarrow> 'w \<times> stage3_selection res" where
  "resolve_stage3 get variant mirror w =
     (case fetch_text get (latest_url mirror (sv_arch variant) (sv_flavor variant)) w of
        (w', latest) \<Rightarrow> (w',
          res_bind latest (\<lambda>text. res_bind (parse_latest text) (\<lambda>(relpath, bytes).
            (let tarball = tarball_url mirror (sv_arch variant) relpath
             in Inr \<lparr>s3_url = tarball, s3_filename = basename relpath, s3_size = bytes,
                  s3_digests_url = digests_url tarball, s3_signature_url = signature_url tarball\<rparr>)))))"

definition build_users :: "selections \<Rightarrow> user_spec list res" where
  "build_users sel =
     res_map (\<lambda>d. guard (UsersCommands.valid_name (ud_name d)) (ValueError (''invalid user name: '' @ py_repr (ud_name d)))
         (Inr \<lparr>up_name = ud_name d, up_comment = ud_comment d, up_shell = ud_shell d, up_wheel = ud_admin d,
               up_set_password = (ud_password d \<noteq> [])\<rparr>))
       (filter (\<lambda>d. strip (ud_name d) \<noteq> []) (sl_users sel))"

definition build_gpu :: "selections \<Rightarrow> gpu_spec" where
  "build_gpu sel =
     (let cards = (if sl_nvidia_proprietary sel \<and> ''nvidia'' \<notin> set (sl_video_cards sel)
                   then sl_video_cards sel @ [''nvidia''] else sl_video_cards sel);
          slot = (if sl_nvidia_proprietary sel then sl_nvidia_slot sel else [])
      in GpuSpec cards (sl_nvidia_proprietary sel)
           (sl_kernel_open sel \<and> sl_nvidia_proprietary sel \<and> slot = []) slot)"

definition build_network :: "selections \<Rightarrow> network_spec res" where
  "build_network sel =
     (if sl_net_interface sel = [] then Inr NetworkSpec
      else
        guard (sl_net_dhcp sel \<or> valid_address (sl_net_address sel))
          (ValueError (''invalid static address: '' @ py_repr (sl_net_address sel)))
        (guard (sl_net_dhcp sel \<or> valid_gateway (sl_net_gateway sel))
          (ValueError (''invalid gateway: '' @ py_repr (sl_net_gateway sel)))
        (res_bind (res_map (\<lambda>ns. guard (valid_nameserver ns) (ValueError (''invalid nameserver: '' @ py_repr ns)) (Inr ns))
            (sl_net_nameservers sel)) (\<lambda>_.
          Inr \<lparr>nw_dhcp = sl_net_dhcp sel, nw_interface = sl_net_interface sel, nw_address = sl_net_address sel,
               nw_gateway = sl_net_gateway sel, nw_nameservers = sl_net_nameservers sel\<rparr>))))"

definition PROFILE_VERSION :: string where
  "PROFILE_VERSION = ''23.0''"

definition profile_name :: "string \<Rightarrow> string \<Rightarrow> bool \<Rightarrow> string" where
  "profile_name arch flavor desktop =
     (let base = ''default/linux/'' @ arch @ ''/'' @ PROFILE_VERSION;
          base = (if desktop then base @ ''/desktop'' else base)
      in if endswith flavor ''systemd'' then base @ ''/systemd'' else base)"

definition dev_path :: "string \<Rightarrow> string" where
  "dev_path name = (let n = strip name in if startswith n ''/dev/'' then n else ''/dev/'' @ n)"

section \<open>Assembling the plan\<close>

text \<open>The checks that come before anything is built, in the order of the code.\<close>

definition check_selections :: "selections \<Rightarrow> 'a res \<Rightarrow> 'a res" where
  "check_selections sel k =
     guard (sl_disk sel \<noteq> []) (ValueError ''no target disk selected'')
    (guard (sl_firmware sel \<in> {''uefi'', ''bios''}) (ValueError (''invalid firmware: '' @ py_repr (sl_firmware sel)))
    (guard (sv_arch (sl_variant sel) \<in> set SUPPORTED_ARCHES)
       (ValueError (''unsupported target arch: '' @ py_repr (sv_arch (sl_variant sel))))
    (guard (\<not> (sv_arch (sl_variant sel) = ARM64_ARCH \<and> sl_firmware sel \<noteq> ''uefi''))
       (ValueError ''arm64 installs are UEFI-only (no BIOS GRUB target)'')
    (guard (valid_hostname (sl_hostname sel)) (ValueError (''invalid hostname: '' @ py_repr (sl_hostname sel)))
    (guard (valid_zone_name (sl_timezone sel)) (ValueError (''invalid timezone: '' @ py_repr (sl_timezone sel)))
    (guard (valid_locale (sl_locale sel)) (ValueError (''invalid locale: '' @ py_repr (sl_locale sel)))
    (guard (valid_keymap (sl_keymap sel)) (ValueError (''invalid keymap: '' @ py_repr (sl_keymap sel)))
    (guard (sl_license sel \<in> fst ` set LICENSE_POLICIES) (ValueError (''invalid license policy: '' @ py_repr (sl_license sel)))
    (guard (sl_admin_model sel \<in> set ADMIN_MODELS) (ValueError (''invalid admin model: '' @ py_repr (sl_admin_model sel)))
    (guard (sl_escalator sel \<in> set ESCALATORS) (ValueError (''invalid escalator: '' @ py_repr (sl_escalator sel)))
    (guard (sl_clock sel \<in> set CLOCK_MODES) (ValueError (''invalid clock mode: '' @ py_repr (sl_clock sel)))
    (res_bind (sets_root_password (sl_admin_model sel)) (\<lambda>sets.
     guard (\<not> (sets \<and> sl_root_password sel = [])) (ValueError ''a root password is required'')
    (guard (sets \<or> list_ex (\<lambda>u. UsersCommands.valid_name (ud_name u) \<and> ud_admin u) (sl_users sel))
       (ValueError ''a rootless install needs an admin-capable (wheel) user'') k))))))))))))))"

definition layout_plan :: "selections \<Rightarrow> disk_plan res" where
  "layout_plan sel =
     (let home_fs = (if sl_separate_home sel then Some (sl_home_fs sel) else None);
          root_size = (if sl_separate_home sel then sl_root_size sel else ''rest'')
      in if sl_firmware sel = ''bios''
         then bios_plan (sl_disk sel) (sl_swap_size sel) (sl_root_fs sel) root_size home_fs
         else uefi_plan (sl_disk sel) (sl_esp_size sel) (sl_swap_size sel) (sl_root_fs sel) root_size home_fs)"

definition kernel_request :: "(string \<Rightarrow> string option) \<Rightarrow> selections \<Rightarrow> build_config" where
  "kernel_request resource sel =
     (BuildConfig (sl_kernel_method sel))\<lparr>bc_jobs := sl_kernel_jobs sel, bc_initramfs := sl_kernel_initramfs sel,
        bc_plymouth := sl_seamless sel \<and> sl_install_desktop sel,
        bc_kernel_config := (if sl_kernel_method sel = ''genkernel'' \<and> bundled_config resource (sv_arch (sl_variant sel)) \<noteq> None
          then TARGET_KERNEL_CONFIG else [])\<rparr>"

definition boot_request :: "selections \<Rightarrow> install_config" where
  "boot_request sel =
     (InstallConfig (sl_firmware sel))\<lparr>ic_efi_directory := sl_efi_directory sel,
        ic_disk := (if sl_firmware sel = ''bios''
          then dev_path (if sl_boot_disk sel \<noteq> [] then sl_boot_disk sel else sl_disk sel) else sl_boot_disk sel),
        ic_seamless := sl_seamless sel \<and> sl_install_desktop sel\<rparr>"

definition assemble_plan :: "(string \<Rightarrow> string option) \<Rightarrow> selections \<Rightarrow> stage3_selection \<Rightarrow> install_plan res" where
  "assemble_plan resource sel stage3 =
     check_selections sel
      (res_bind (resolve_global_use (sl_capabilities sel)) (\<lambda>global_use.
       res_bind (build_users sel) (\<lambda>users.
       res_bind (build_network sel) (\<lambda>network.
       res_bind (layout_plan sel) (\<lambda>disk.
       res_bind (derive_mount_plan disk (sl_target_root sel)) (\<lambda>mount.
       Inr \<lparr>pl_disk = disk, pl_mount = mount, pl_stage3 = stage3, pl_kernel = kernel_request resource sel,
            pl_bootloader = boot_request sel, pl_hostname = sl_hostname sel, pl_timezone = sl_timezone sel,
            pl_locale = sl_locale sel, pl_keymap = sl_keymap sel, pl_arch = sv_arch (sl_variant sel),
            pl_profile = profile_name (sv_arch (sl_variant sel)) (sv_flavor (sl_variant sel)) (sl_install_desktop sel),
            pl_root_password = (sl_admin_model sel \<noteq> ''rootless''), pl_users = users, pl_network = network,
            pl_binary_pref = sl_binary_pref sel, pl_tier2 = sl_tier2 sel, pl_desktop = sl_install_desktop sel,
            pl_gpu = build_gpu sel, pl_license = sl_license sel, pl_admin_model = sl_admin_model sel,
            pl_escalator = sl_escalator sel, pl_clock = sl_clock sel, pl_global_use = global_use,
            pl_gentoo_mirrors = sl_gentoo_mirrors sel, pl_sync_uri = sl_sync_uri sel, pl_sync_type = sl_sync_type sel,
            pl_make_conf_overrides = sort_key fst (sl_make_conf_overrides sel)\<rparr>))))))"

section \<open>What every assembled plan guarantees\<close>

lemma check_selections_Inr:
  "check_selections sel k = Inr p \<longleftrightarrow>
    (sl_disk sel \<noteq> [] \<and> sl_firmware sel \<in> {''uefi'', ''bios''} \<and> sv_arch (sl_variant sel) \<in> set SUPPORTED_ARCHES \<and>
     \<not> (sv_arch (sl_variant sel) = ARM64_ARCH \<and> sl_firmware sel \<noteq> ''uefi'') \<and>
     valid_hostname (sl_hostname sel) \<and> valid_zone_name (sl_timezone sel) \<and> valid_locale (sl_locale sel) \<and>
     valid_keymap (sl_keymap sel) \<and> sl_license sel \<in> fst ` set LICENSE_POLICIES \<and>
     sl_admin_model sel \<in> set ADMIN_MODELS \<and> sl_escalator sel \<in> set ESCALATORS \<and> sl_clock sel \<in> set CLOCK_MODES \<and>
     (if sl_admin_model sel = ''rootless''
      then list_ex (\<lambda>u. UsersCommands.valid_name (ud_name u) \<and> ud_admin u) (sl_users sel)
      else sl_root_password sel \<noteq> [])) \<and> k = Inr p"
  unfolding check_selections_def sets_root_password_def by (auto simp: res_bind_Inr guard_Inr)

text \<open>The whole of a successful assembly, in one equivalence.\<close>

lemma assemble_plan_Inr:
  assumes "assemble_plan resource sel s3 = Inr p"
  obtains "check_selections sel (Inr p) = Inr p" "resolve_global_use (sl_capabilities sel) = Inr (pl_global_use p)"
    "build_users sel = Inr (pl_users p)" "build_network sel = Inr (pl_network p)"
    "layout_plan sel = Inr (pl_disk p)" "derive_mount_plan (pl_disk p) (sl_target_root sel) = Inr (pl_mount p)"
    "pl_kernel p = kernel_request resource sel" "pl_bootloader p = boot_request sel"
    "pl_hostname p = sl_hostname sel" "pl_timezone p = sl_timezone sel" "pl_locale p = sl_locale sel"
    "pl_keymap p = sl_keymap sel" "pl_arch p = sv_arch (sl_variant sel)" "pl_license p = sl_license sel"
    "pl_root_password p = (sl_admin_model sel \<noteq> ''rootless'')" "pl_gpu p = build_gpu sel"
    "pl_admin_model p = sl_admin_model sel" "pl_escalator p = sl_escalator sel" "pl_clock p = sl_clock sel"
    "pl_stage3 p = s3" "pl_desktop p = sl_install_desktop sel" "pl_network p = pl_network p"
  using assms unfolding assemble_plan_def check_selections_Inr res_bind_Inr by (elim conjE exE) (auto simp: check_selections_Inr)

lemma valid_name_nonblank: "UsersCommands.valid_name n \<Longrightarrow> strip n \<noteq> []"
proof -
  assume "UsersCommands.valid_name n"
  then obtain c t where "n = c # t" "name_start c" using account_name_chars by blast
  moreover from this have "\<not> is_space c" by (auto simp: name_start_def char_class_defs is_space_def)
  ultimately show ?thesis by (auto simp: strip_empty_iff)
qed

lemma build_users_ok:
  assumes "build_users sel = Inr us"
  shows "list_all (\<lambda>u. UsersCommands.valid_name (up_name u)) us"
    and "list_ex (\<lambda>u. UsersCommands.valid_name (ud_name u) \<and> ud_admin u) (sl_users sel) \<Longrightarrow> list_ex up_wheel us"
proof -
  show "list_all (\<lambda>u. UsersCommands.valid_name (up_name u)) us"
    using assms unfolding build_users_def res_map_guard by (simp add: list_all_iff)
  assume "list_ex (\<lambda>u. UsersCommands.valid_name (ud_name u) \<and> ud_admin u) (sl_users sel)"
  then obtain d where "d \<in> set (sl_users sel)" "strip (ud_name d) \<noteq> []" "ud_admin d"
    using valid_name_nonblank by (simp add: list_ex_iff) blast
  then show "list_ex up_wheel us"
    using assms unfolding build_users_def res_map_guard by (auto simp: list_ex_iff)
qed

lemma checked_plan_steps: "checked_plan q = Inr d \<Longrightarrow> is_ok (plan_steps d)"
  by (auto simp: checked_plan_def res_bind_Inr)

lemma layout_plan_steps:
  assumes "layout_plan sel = Inr d"
  shows "is_ok (plan_steps d)" "dp_disk d = ''/dev/'' @ sl_disk sel"
  using assms
  by (auto simp: layout_plan_def uefi_plan_def bios_plan_def check_root_fs_def Let_def checked_plan_def res_bind_Inr guard_Inr
      split: if_splits option.splits)

lemma grub_platform:
  "arch \<in> set SUPPORTED_ARCHES \<Longrightarrow> fw \<in> {''uefi'', ''bios''} \<Longrightarrow> \<not> (arch = ARM64_ARCH \<and> fw \<noteq> ''uefi'') \<Longrightarrow>
    is_ok (grub_target arch fw)"
  by (auto simp: is_ok_iff grub_target_cases SUPPORTED_ARCHES_def DEFAULT_ARCH_def ARM64_ARCH_def)

lemma build_network_ok:
  "build_network sel = Inr nw \<Longrightarrow> list_all valid_nameserver (nw_nameservers nw) \<and>
    (nw_dhcp nw \<or> valid_address (nw_address nw) \<and> valid_gateway (nw_gateway nw))"
  by (auto simp: build_network_def NetworkSpec_def guard_Inr res_bind_Inr res_map_Inr list_all2_conv_all_nth
      list_all_length split: if_splits)

definition plan_administrable :: "install_plan \<Rightarrow> bool" where
  "plan_administrable p = (if pl_root_password p then pl_admin_model p \<noteq> ''rootless'' else list_ex up_wheel (pl_users p))"


text \<open>
  The selections of the witnesses: an install on \<open>sda\<close> with one wheel user who has no
  password. It is accepted, although nobody can log in to the system it describes.
\<close>

definition silent_admin :: selections where
  "silent_admin = (InstallSelections ''desktop'')\<lparr>sl_disk := ''sda'', sl_admin_model := ''rootless'',
     sl_users := [\<lparr>ud_name = ''ann'', ud_comment = [], ud_shell = ''/bin/bash'', ud_admin = True, ud_password = []\<rparr>]\<rparr>"

definition sample_stage3 :: stage3_selection where
  "sample_stage3 = \<lparr>s3_url = ''u'', s3_filename = ''stage3.tar.xz'', s3_size = 1, s3_digests_url = ''d'', s3_signature_url = ''s''\<rparr>"

lemma silent_admin_accepted:
  "\<exists>p. assemble_plan (\<lambda>_. None) silent_admin sample_stage3 = Inr p \<and> pl_root_password p = False \<and>
    map (\<lambda>u. (up_name u, up_set_password u)) (pl_users p) = [(''ann'', False)]"
proof -
  have "map_sum (\<lambda>_. ()) (\<lambda>p. (pl_root_password p, map (\<lambda>u. (up_name u, up_set_password u)) (pl_users p)))
      (assemble_plan (\<lambda>_. None) silent_admin sample_stage3) = Inr (False, [(''ann'', False)])"
    by code_simp
  then show ?thesis by (cases "assemble_plan (\<lambda>_. None) silent_admin sample_stage3") auto
qed


section \<open>What the steps that run it will accept\<close>

lemma dev_path_bare: "valid_device (''/dev/'' @ s) \<Longrightarrow> \<not> startswith s ''/dev/'' \<Longrightarrow> dev_path s = ''/dev/'' @ s"
proof -
  assume v: "valid_device (''/dev/'' @ s)" and n: "\<not> startswith s ''/dev/''"
  have "list_all device_char s" using v by (auto simp: valid_device_chars device_char_def)
  then have "list_all (\<lambda>c. \<not> is_space c) s"
    by (auto simp: list_all_iff device_char_def is_space_def char_class_defs)
  then have "strip s = s" by (rule strip_nospace)
  with n show ?thesis by (simp add: dev_path_def Let_def)
qed

lemma device_no_slash: "valid_device (''/dev/'' @ s) \<Longrightarrow> \<not> startswith s ''/dev/''"
  by (auto simp: valid_device_chars startswith_def)

text \<open>For every assembled plan, the kernel pipeline builds exactly when the method is genkernel,
  or make with a job count in range; the bootloader pipeline, on UEFI exactly when the EFI directory
  is a usable path (the assembly does not check it), and on BIOS whenever the disk was left to the
  install disk.\<close>

theorem assembled_plan_pipelines:
  assumes "assemble_plan resource sel s3 = Inr p"
  shows "is_ok (build_steps os (pl_kernel p)) =
      (if sl_kernel_method sel = ''genkernel'' then True else sl_kernel_method sel = ''make'' \<and> sl_kernel_jobs sel \<le> MAX_JOBS) \<and>
    is_ok (install_steps read (pl_bootloader p) (pl_arch p)) =
      (if sl_firmware sel = ''uefi'' then valid_grub_path (sl_efi_directory sel)
       else if sl_boot_disk sel = [] then True
       else fullmatch BOOT_DISK_RE (dev_path (sl_boot_disk sel)) \<and> \<not> contains ''..'' (dev_path (sl_boot_disk sel)))"
proof (rule assemble_plan_Inr [OF assms])
  assume c: "check_selections sel (Inr p) = Inr p" and d: "layout_plan sel = Inr (pl_disk p)"
    and k: "pl_kernel p = kernel_request resource sel" and b: "pl_bootloader p = boot_request sel"
    and a: "pl_arch p = sv_arch (sl_variant sel)"
  note c = c [unfolded check_selections_Inr]
  have kp: "valid_build_path TARGET_KERNEL_CONFIG" "valid_build_path ''/usr/src/linux''" "fullmatch BOOT_ID_RE ''GRUB''"
    by code_simp+
  have kern: "buildable (kernel_request resource sel) =
      (if sl_kernel_method sel = ''genkernel'' then True else sl_kernel_method sel = ''make'' \<and> sl_kernel_jobs sel \<le> MAX_JOBS)"
    using kp by (simp add: buildable_def kernel_request_def BuildConfig_def)
  have v: "valid_device (''/dev/'' @ sl_disk sel)"
    using layout_plan_steps [OF d] by (simp add: is_ok_plan_steps)
  then have dp: "dev_path (sl_disk sel) = ''/dev/'' @ sl_disk sel"
    using dev_path_bare device_no_slash by blast
  have "boot_disk_char = device_char" by (rule ext) (simp add: boot_disk_char_def device_char_def)
  then have "fullmatch BOOT_DISK_RE x = fullmatch DEVICE_RE x" for x by (simp add: BOOT_DISK_RE_def DEVICE_RE_def)
  with v have bios: "fullmatch BOOT_DISK_RE (dev_path (sl_disk sel))" "\<not> contains ''..'' (dev_path (sl_disk sel))"
    unfolding dp valid_device_def by blast+
  have arch: "sv_arch (sl_variant sel) \<in> {''amd64'', ''arm64''}" "sl_firmware sel \<in> {''uefi'', ''bios''}"
    "sl_firmware sel \<noteq> ''uefi'' \<Longrightarrow> sl_firmware sel = ''bios'' \<and> sv_arch (sl_variant sel) = ''amd64''"
    using c by (auto simp: SUPPORTED_ARCHES_def DEFAULT_ARCH_def ARM64_ARCH_def)
  have grub: "grub_installable (boot_request sel) (sv_arch (sl_variant sel)) =
      (if sl_firmware sel = ''uefi'' then valid_grub_path (sl_efi_directory sel)
       else if sl_boot_disk sel = [] then True
       else fullmatch BOOT_DISK_RE (dev_path (sl_boot_disk sel)) \<and> \<not> contains ''..'' (dev_path (sl_boot_disk sel)))"
  proof (cases "sl_firmware sel = ''uefi''")
    case True
    then show ?thesis using kp arch(1) by (simp add: grub_installable_def boot_request_def InstallConfig_def)
  next
    case False
    with arch(3) bios show ?thesis by (simp add: grub_installable_def boot_request_def InstallConfig_def)
  qed
  show ?thesis
    by (simp only: k b a kern grub is_ok_build_steps is_ok_install_steps)
qed

theorem assembled_plan_pipelines_witness:
  "\<exists>p. assemble_plan (\<lambda>_. None) silent_admin sample_stage3 = Inr p \<and>
    is_ok (build_steps None (pl_kernel p)) \<and> is_ok (install_steps (\<lambda>_. None) (pl_bootloader p) (pl_arch p))"
proof -
  obtain p where p: "assemble_plan (\<lambda>_. None) silent_admin sample_stage3 = Inr p" using silent_admin_accepted by blast
  have "valid_grub_path (sl_efi_directory silent_admin)" "sl_kernel_method silent_admin = ''genkernel''"
    "sl_firmware silent_admin = ''uefi''"
    by code_simp+
  with assembled_plan_pipelines [OF p, of None "\<lambda>_. None"] p show ?thesis by auto
qed

section \<open>Secrets\<close>

text \<open>The selections with every secret replaced: only whether there is one is left.\<close>

definition mask_secret :: "string \<Rightarrow> string" where
  "mask_secret s = (if s = [] then [] else ''*'')"

definition mask_secrets :: "selections \<Rightarrow> selections" where
  "mask_secrets sel = sel\<lparr>sl_root_password := mask_secret (sl_root_password sel),
     sl_users := map (\<lambda>u. u\<lparr>ud_password := mask_secret (ud_password u)\<rparr>) (sl_users sel)\<rparr>"

lemma mask_secret_Nil [simp]: "mask_secret s = [] \<longleftrightarrow> s = []"
  by (simp add: mask_secret_def)

lemma build_users_mask: "build_users (mask_secrets sel) = build_users sel"
proof -
  have "res_map f (map g xs) = res_map (f \<circ> g) xs" for f :: "user_draft \<Rightarrow> user_spec res" and g and xs :: "user_draft list"
    by (induction xs) (auto split: sum.splits)
  then show ?thesis by (simp add: build_users_def mask_secrets_def filter_map comp_def)
qed

lemma check_selections_mask: "check_selections (mask_secrets sel) k = check_selections sel k"
proof -
  have "list_ex P (map (\<lambda>u. u\<lparr>ud_password := mask_secret (ud_password u)\<rparr>) us) = list_ex P us"
    if "\<And>u x. P (u\<lparr>ud_password := x\<rparr>) = P u" for P and us :: "user_draft list"
    by (induction us) (simp_all add: that)
  then show ?thesis by (simp add: check_selections_def mask_secrets_def)
qed

text \<open>C32: No secret can be read off a plan: two selections that differ only in what the nonempty
  passwords are assemble to the same plan, and to the same error.\<close>

theorem plan_keeps_secrets: "assemble_plan resource (mask_secrets sel) s3 = assemble_plan resource sel s3"
proof -
  have "build_network (mask_secrets sel) = build_network sel" "layout_plan (mask_secrets sel) = layout_plan sel"
    "kernel_request resource (mask_secrets sel) = kernel_request resource sel"
    "boot_request (mask_secrets sel) = boot_request sel" "build_gpu (mask_secrets sel) = build_gpu sel"
    by (simp_all add: build_network_def layout_plan_def kernel_request_def boot_request_def build_gpu_def mask_secrets_def Let_def)
  then show ?thesis
    by (simp add: assemble_plan_def check_selections_mask build_users_mask) (simp add: mask_secrets_def)
qed

section \<open>Roles\<close>

text \<open>A role change keeps what the user entered and clears the accepted licenses.\<close>

lemma apply_role_keeps:
  "apply_role sel role = Inr sel' \<Longrightarrow> sl_disk sel' = sl_disk sel \<and> sl_hostname sel' = sl_hostname sel \<and>
    sl_users sel' = sl_users sel \<and> sl_root_password sel' = sl_root_password sel \<and>
    \<not> sl_licenses_accepted sel' \<and> sl_accepted_licenses sel' = []"
  by (auto simp: apply_role_def res_bind_Inr)

section \<open>The stage3 of a plan\<close>

lemma basename_no_slash: "CHR ''/'' \<notin> set (basename p)"
  by (auto simp: basename_def dest: set_takeWhileD)

lemma basename_suffix:
  assumes "endswith p e" "CHR ''/'' \<notin> set e"
  shows "\<exists>q. basename p = q @ e \<and> set (basename p) \<subseteq> set p"
proof -
  from assms(1) obtain q where p: "p = q @ e" by (auto simp: endswith_def suffix_def)
  have "takeWhile (\<lambda>c. c \<noteq> CHR ''/'') (rev e @ rev q) = rev e @ takeWhile (\<lambda>c. c \<noteq> CHR ''/'') (rev q)"
    using assms(2) by (intro takeWhile_append2) auto
  then show ?thesis by (auto simp: p basename_def dest: set_takeWhileD)
qed

text \<open>A resolved stage3 can be stored by its name: a plain file name, without a slash and ending
  like a tarball, whatever the mirror's index says; its checksum and signature lie beside the
  tarball, below the mirror's directory of the architecture.\<close>

theorem resolved_stage3_safe:
  assumes "resolve_stage3 get variant mirror w = (w', Inr s)"
  shows "CHR ''/'' \<notin> set (s3_filename s) \<and> list_ex (\<lambda>e. \<exists>q. s3_filename s = q @ e) STAGE3_EXTS \<and>
    list_all (\<lambda>c. \<not> is_space c) (s3_filename s) \<and>
    s3_digests_url s = s3_url s @ ''.DIGESTS'' \<and> s3_signature_url s = s3_url s @ ''.asc'' \<and>
    (\<exists>t. s3_url s = rstrip_char (CHR ''/'') mirror @ ''/releases/'' @ sv_arch variant @ ''/autobuilds/'' @ t)"
proof -
  obtain text' relpath bytes where t: "parse_latest text' = Inr (relpath, bytes)"
    and s: "s3_filename s = basename relpath" "s3_url s = tarball_url mirror (sv_arch variant) relpath"
      "s3_digests_url s = digests_url (s3_url s)" "s3_signature_url s = signature_url (s3_url s)"
    using assms by (auto simp: resolve_stage3_def res_bind_Inr Let_def split: prod.splits)
  from parse_latest_names_tarball [OF t [unfolded parse_latest_def]]
  obtain e where e: "e \<in> set STAGE3_EXTS" "endswith relpath e" and sp: "list_all (\<lambda>c. \<not> is_space c) relpath"
    by (auto simp: list_ex_iff)
  have "CHR ''/'' \<notin> set e" using e(1) by (auto simp: STAGE3_EXTS_def)
  with basename_suffix [OF e(2)] obtain q where q: "basename relpath = q @ e" "set (basename relpath) \<subseteq> set relpath"
    by blast
  have "list_all (\<lambda>c. \<not> is_space c) (basename relpath)" using sp q(2) by (auto simp: list_all_iff)
  moreover have "list_ex (\<lambda>e. \<exists>q. basename relpath = q @ e) STAGE3_EXTS" using q(1) e(1) by (auto simp: list_ex_iff)
  ultimately show ?thesis
    using basename_no_slash by (simp add: s digests_url_def signature_url_def tarball_url_def)
qed

definition one_page :: "nat \<Rightarrow> string \<Rightarrow> nat \<times> (string + string)" where
  "one_page n url = (Suc n, Inr ''# header
20260101T000000Z/stage3-amd64-systemd.tar.xz 42
'')"

theorem resolved_stage3_safe_witness:
  "\<exists>w s. resolve_stage3 one_page DEFAULT_VARIANT MIRROR 0 = (w, Inr s) \<and> CHR ''/'' \<notin> set (s3_filename s)"
proof -
  have "map_sum (\<lambda>_. ()) s3_filename (snd (resolve_stage3 one_page DEFAULT_VARIANT MIRROR 0)) = Inr ''stage3-amd64-systemd.tar.xz''"
    by code_simp
  then obtain w s where "resolve_stage3 one_page DEFAULT_VARIANT MIRROR 0 = (w, Inr s)"
    by (cases "resolve_stage3 one_page DEFAULT_VARIANT MIRROR 0"; cases "snd (resolve_stage3 one_page DEFAULT_VARIANT MIRROR 0)") auto
  with resolved_stage3_safe [OF this] show ?thesis by blast
qed

end
