(* ===== verification/ToolService.thy ===== *)
theory ToolService
  imports Service
begin

text \<open>
  What the services of \<open>gest/backend\<close> that write a file and run tools share: their state is
  the files and the commands that ran, their environment the faults of a write and the answers
  of the tools. \<open>tool_run\<close> is the \<open>_run\<close> each of them defines.
\<close>

record tool_state =
  ts_files :: files
  ts_ran :: "string list list"

record tool_env =
  te_fault :: "write_op \<Rightarrow> bool"
  te_tmp :: string
  te_partial :: string
  te_run :: "string list \<Rightarrow> int \<times> string \<times> string"

text \<open>The exit code and both outputs, joined and stripped.\<close>

definition tool_text :: "string \<Rightarrow> string \<Rightarrow> string" where
  "tool_text stdout stderr = strip (stdout @ (if stderr \<noteq> [] then LF # stderr else []))"

definition tool_run :: "tool_env \<Rightarrow> string list \<Rightarrow> tool_state \<Rightarrow> tool_state \<times> bool \<times> string" where
  "tool_run env argv s =
     (case te_run env argv of (code, stdout, stderr) \<Rightarrow>
        (s\<lparr>ts_ran := ts_ran s @ [argv]\<rparr>, code = 0, tool_text stdout stderr))"

definition write_tool_file :: "tool_env \<Rightarrow> string \<Rightarrow> string \<Rightarrow> tool_state \<Rightarrow> tool_state \<times> string res" where
  "write_tool_file env path content s =
     (case replace_file (te_fault env) (te_tmp env) (te_partial env) (Some MODE_644) path content (ts_files s) of
        (fs, r) \<Rightarrow> (s\<lparr>ts_files := fs\<rparr>, r))"

lemma tool_run_frame [simp]:
  "ts_files (fst (tool_run env argv s)) = ts_files s"
  "ts_ran (fst (tool_run env argv s)) = ts_ran s @ [argv]"
  by (simp_all add: tool_run_def split: prod.splits)

lemma tool_run_eq:
  "tool_run env argv s = (s', ok, out) \<Longrightarrow> ts_files s' = ts_files s \<and> ts_ran s' = ts_ran s @ [argv]"
  using tool_run_frame [of env argv s] by simp

lemma write_tool_file_eq:
  assumes "write_tool_file env path content s = (s', r)"
  shows "ts_ran s' = ts_ran s" and
    "q \<noteq> te_tmp env \<Longrightarrow> ts_files s' q = ts_files s q \<or>
      (q = path \<and> r = Inr path \<and> ts_files s' q = Some (content, MODE_644))"
    "r = Inr p \<Longrightarrow> p = path \<and> (path \<noteq> te_tmp env \<longrightarrow> ts_files s' path = Some (content, MODE_644))"
proof -
  obtain fs where w: "replace_file (te_fault env) (te_tmp env) (te_partial env) (Some MODE_644) path content (ts_files s) = (fs, r)"
    and s': "s' = s\<lparr>ts_files := fs\<rparr>"
    using assms by (auto simp: write_tool_file_def split: prod.splits)
  show "ts_ran s' = ts_ran s" by (simp add: s')
  show "q \<noteq> te_tmp env \<Longrightarrow> ts_files s' q = ts_files s q \<or>
      (q = path \<and> r = Inr path \<and> ts_files s' q = Some (content, MODE_644))"
    using replace_file_frame [OF w] by (auto simp: s')
  show "r = Inr p \<Longrightarrow> p = path \<and> (path \<noteq> te_tmp env \<longrightarrow> ts_files s' path = Some (content, MODE_644))"
    using w by (auto simp: s' dest: replace_file_ok)
qed

end
