(* ===== verification/Firewall.thy ===== *)
theory Firewall
  imports ToolService
begin

text \<open>
  The firewall: the policy and its nftables rendering (\<open>gest/core/firewall/model.py\<close>,
  \<open>nft.py\<close>, \<open>commands.py\<close>), and the root service \<open>gest/backend/firewall.py\<close>. A machine-readable
  comment in the rendered file is what the program reads its own policy back from:
  \<open>firewall_roundtrip\<close> says nothing is lost. The service checks a ruleset before it loads it.
\<close>

section \<open>model.py, nft.py\<close>

definition INPUT_POLICIES :: "string list" where
  "INPUT_POLICIES = [''drop'', ''accept'']"

record firewall_policy =
  fw_default_input :: string
  fw_allow_ping :: bool
  fw_tcp_ports :: "int list"
  fw_udp_ports :: "int list"

definition FirewallPolicy :: "string \<Rightarrow> bool \<Rightarrow> int list \<Rightarrow> int list \<Rightarrow> firewall_policy" where
  "FirewallPolicy default_input allow_ping tcp udp =
     \<lparr>fw_default_input = default_input, fw_allow_ping = allow_ping, fw_tcp_ports = tcp, fw_udp_ports = udp\<rparr>"

definition NFT_MARKER :: string where
  "NFT_MARKER = ''# Managed by GeST''"

definition NFT_PATH :: string where
  "NFT_PATH = ''/etc/nftables.nft''"

definition BASE_RULES :: "string list" where
  "BASE_RULES =
    [''ct state established,related accept'',
     ''ct state invalid drop'',
     ''iif \"lo\" accept'',
     ''icmpv6 type { nd-neighbor-solicit, nd-neighbor-advert, nd-router-solicit, nd-router-advert } accept'']"

definition valid_port :: "int \<Rightarrow> bool" where
  "valid_port port = (1 \<le> port \<and> port \<le> 65535)"

definition valid_policy :: "firewall_policy \<Rightarrow> bool" where
  "valid_policy policy =
     (fw_default_input policy \<in> set INPUT_POLICIES \<and> list_all valid_port (fw_tcp_ports policy) \<and>
      list_all valid_port (fw_udp_ports policy))"

definition port_set :: "int list \<Rightarrow> string" where
  "port_set ports = ''{ '' @ join '', '' (map int_str ports) @ '' }''"

definition gest_line :: "firewall_policy \<Rightarrow> string" where
  "gest_line policy =
     ''# gest: default_input='' @ fw_default_input policy @
     '' allow_ping='' @ (if fw_allow_ping policy then ''yes'' else ''no'') @
     '' tcp='' @ join '','' (map int_str (fw_tcp_ports policy)) @
     '' udp='' @ join '','' (map int_str (fw_udp_ports policy))"

definition input_rules :: "firewall_policy \<Rightarrow> string list" where
  "input_rules policy =
     BASE_RULES
     @ (if fw_allow_ping policy then [''ip protocol icmp accept'', ''icmpv6 type echo-request accept''] else [])
     @ (if fw_tcp_ports policy \<noteq> [] then [''tcp dport '' @ port_set (fw_tcp_ports policy) @ '' accept''] else [])
     @ (if fw_udp_ports policy \<noteq> [] then [''udp dport '' @ port_set (fw_udp_ports policy) @ '' accept''] else [])"

definition ruleset_lines :: "firewall_policy \<Rightarrow> string list" where
  "ruleset_lines policy =
     [''#!/usr/sbin/nft -f'',
      NFT_MARKER @ '' '' @ EMDASH @ '' simple stateful firewall.'',
      ''# The 'gest:' line below encodes the policy; edit it via GeST, not by hand.'',
      gest_line policy,
      [],
      ''flush ruleset'',
      [],
      ''table inet filter {'',
      TAB # ''chain input {'',
      TAB # TAB # ''type filter hook input priority 0; policy '' @ fw_default_input policy @ '';'']
     @ map (\<lambda>rule. TAB # TAB # rule) (input_rules policy)
     @ [TAB # ''}'',
        TAB # ''chain forward {'',
        TAB # TAB # ''type filter hook forward priority 0; policy drop;'',
        TAB # ''}'',
        TAB # ''chain output {'',
        TAB # TAB # ''type filter hook output priority 0; policy accept;'',
        TAB # ''}'',
        ''}'']"

definition render_ruleset :: "firewall_policy \<Rightarrow> string" where
  "render_ruleset policy = join [LF] (ruleset_lines policy) @ [LF]"

text \<open>A token of digits that \<open>int\<close> refuses (a superscript) raises.\<close>

definition parse_ports :: "string \<Rightarrow> int list res" where
  "parse_ports v =
     res_map (\<lambda>token. case py_int token of Some n \<Rightarrow> Inr n
         | None \<Rightarrow> Inl (ValueError (''invalid literal for int() with base 10: '' @ py_repr token)))
       (filter py_isdigit (map strip (split_char (CHR '','') v)))"

definition gest_fields :: "string \<Rightarrow> (string \<times> string) list" where
  "gest_fields stripped =
     fold (\<lambda>token. dict_set (before_char (CHR ''='') token) (after_char (CHR ''='') token))
       (py_split (drop (length ''# gest:'') stripped)) []"

fun first_gest :: "string list \<Rightarrow> string option" where
  "first_gest [] = None"
| "first_gest (l # ls) = (if startswith (strip l) ''# gest:'' then Some (strip l) else first_gest ls)"

definition field_or :: "(string \<times> string) list \<Rightarrow> string \<Rightarrow> string \<Rightarrow> string" where
  "field_or fs key dflt = (case map_of fs key of Some v \<Rightarrow> v | None \<Rightarrow> dflt)"

definition parse_ruleset :: "string \<Rightarrow> firewall_policy option res" where
  "parse_ruleset s =
     (if \<not> contains NFT_MARKER s then Inr None
      else (case first_gest (splitlines s) of
          None \<Rightarrow> Inr None
        | Some stripped \<Rightarrow>
            (let fs = gest_fields stripped; d = field_or fs ''default_input'' ''drop'';
                 default_input = (if d \<in> set INPUT_POLICIES then d else ''drop'')
             in res_bind (parse_ports (field_or fs ''tcp'' [])) (\<lambda>tcp.
                res_bind (parse_ports (field_or fs ''udp'' [])) (\<lambda>udp.
                  Inr (Some (FirewallPolicy default_input (field_or fs ''allow_ping'' ''yes'' = ''yes'') tcp udp)))))))"

section \<open>commands.py\<close>

definition nft_check_argv :: "string \<Rightarrow> string \<Rightarrow> string list" where
  "nft_check_argv path nft = [nft, ''-c'', ''-f'', path]"

definition nft_load_argv :: "string \<Rightarrow> string \<Rightarrow> string list" where
  "nft_load_argv path nft = [nft, ''-f'', path]"

definition nft_list_argv :: "string \<Rightarrow> string list" where
  "nft_list_argv nft = [nft, ''list'', ''ruleset'']"

definition nft_flush_argv :: "string \<Rightarrow> string list" where
  "nft_flush_argv nft = [nft, ''flush'', ''ruleset'']"

section \<open>gest.backend.firewall\<close>

definition NFT :: string where
  "NFT = ''/usr/sbin/nft''"

record fw_call =
  fc_default_input :: string
  fc_allow_ping :: bool
  fc_tcp_ports :: "int list"
  fc_udp_ports :: "int list"
  fc_root :: string

definition apply_policy :: "tool_env \<Rightarrow> string \<Rightarrow> fw_call \<Rightarrow> tool_state \<Rightarrow> tool_state \<times> (bool \<times> string) res" where
  "apply_policy env nft call s =
     (let policy = FirewallPolicy (fc_default_input call) (fc_allow_ping call) (fc_tcp_ports call) (fc_udp_ports call)
      in if \<not> valid_policy policy
         then (s, Inl (ValueError ''invalid firewall policy (bad default or port out of range)''))
         else
           (let nft_path = resolve (fc_root call) NFT_PATH
            in case write_tool_file env nft_path (render_ruleset policy) s of
                 (s, Inl e) \<Rightarrow> (s, Inl e)
               | (s, Inr _) \<Rightarrow>
                   (case tool_run env (nft_check_argv nft_path nft) s of
                      (s, ok, out) \<Rightarrow>
                        if \<not> ok then (s, Inr (False, ''ruleset failed validation, not loaded:'' @ [LF] @ out))
                        else if is_target (fc_root call)
                          then (s, Inr (True, ''firewall ruleset written to '' @ nft_path @ '' (target root; not loaded live)''))
                        else
                          (case tool_run env (nft_load_argv nft_path nft) s of
                             (s, ok, out) \<Rightarrow>
                               (s, Inr (ok, if out \<noteq> [] then out else ''firewall applied and saved to '' @ nft_path))))))"

definition enable_at_boot :: "tool_env \<Rightarrow> string \<Rightarrow> string \<Rightarrow> tool_state \<Rightarrow> tool_state \<times> (bool \<times> string) res" where
  "enable_at_boot env rc_service rc_update s =
     (case tool_run env [rc_service, ''nftables'', ''save''] s of
        (s, ok, out) \<Rightarrow>
          if \<not> ok then (s, Inr (False, ''could not save the current ruleset:'' @ [LF] @ out))
          else (case tool_run env [rc_update, ''add'', ''nftables'', ''default''] s of
                  (s, ok, out) \<Rightarrow>
                    (s, Inr (ok, if out \<noteq> [] then out else ''nftables enabled at boot (current ruleset saved)''))))"

record fw_tools =
  ft_nft :: string
  ft_rc_service :: string
  ft_rc_update :: string

definition fw_body :: "tool_env \<Rightarrow> fw_tools \<Rightarrow> string \<Rightarrow> fw_call \<Rightarrow> tool_state method_body" where
  "fw_body env tools meth call s =
     (if meth = ''ApplyPolicy'' then
        (case guard_config_root (fc_root call) of Inl e \<Rightarrow> (s, Inl e)
         | Inr _ \<Rightarrow> apply_policy env (ft_nft tools) call s)
      else enable_at_boot env (ft_rc_service tools) (ft_rc_update tools) s)"

definition int_list_repr :: "int list \<Rightarrow> string" where
  "int_list_repr xs = ''['' @ join '', '' (map int_str xs) @ '']''"

definition fw_detail :: "string \<Rightarrow> fw_call \<Rightarrow> string" where
  "fw_detail meth call =
     (if meth = ''ApplyPolicy''
      then ''input='' @ fc_default_input call @ '' tcp='' @ int_list_repr (fc_tcp_ports call) @
        '' udp='' @ int_list_repr (fc_udp_ports call) @ '' root='' @ fc_root call
      else ''enable nftables at boot'')"

definition firewall_on_call :: "tool_env \<Rightarrow> fw_tools \<Rightarrow> caller \<Rightarrow> string \<Rightarrow> fw_call \<Rightarrow> tool_state world \<Rightarrow> tool_state world \<times> reply res" where
  "firewall_on_call env tools who meth call w =
     guarded_call [''ApplyPolicy'', ''EnableAtBoot''] ''Not authorized to change the firewall'' who meth
       (fw_detail meth call) (fw_body env tools meth call) w"

section \<open>The policy is read back\<close>

definition plain_line :: "string \<Rightarrow> bool" where
  "plain_line l = list_all (\<lambda>c. \<not> is_linebreak c) l"

lemma ports_chars: "list_all (\<lambda>c. dec_digit c \<or> c \<in> set '',- '') (join sep (map int_str ps))"
  if "list_all (\<lambda>c. c \<in> set '',- '') sep"
proof (rule list_all_join)
  show "list_all (\<lambda>c. dec_digit c \<or> c \<in> set '',- '') sep" using that by (auto simp: list_all_iff)
  show "list_all (list_all (\<lambda>c. dec_digit c \<or> c \<in> set '',- '')) (map int_str ps)"
    using int_str_chars by (auto simp: list_all_iff)
qed

lemma port_str: "valid_port p \<Longrightarrow> int_str p \<noteq> [] \<and> list_all dec_digit (int_str p)"
  using nat_str_digits [of "nat p"] by (simp add: int_str_def valid_port_def)

lemma parse_ports_join:
  assumes "list_all valid_port ps"
  shows "parse_ports (join '','' (map int_str ps)) = Inr ps"
proof (cases ps)
  case Nil
  then show ?thesis by (simp add: parse_ports_def split_char_def py_isdigit_def)
next
  case (Cons q qs)
  have d: "int_str p \<noteq> [] \<and> list_all dec_digit (int_str p)" if "p \<in> set ps" for p
  proof -
    have "valid_port p" using assms that by (simp add: list_all_iff)
    then show ?thesis by (rule port_str)
  qed
  have "CHR '','' \<notin> set (int_str p)" if "p \<in> set ps" for p
    using d [OF that] by (auto simp: list_all_iff dec_digit_def ordc_def)
  then have "split_char (CHR '','') (join '','' (map int_str ps)) = map int_str ps"
    using Cons by (intro split_char_join) (auto simp: list_all_iff)
  moreover have "strip (int_str p) = int_str p" for p by (rule strip_nospace [OF int_str_nospace])
  moreover have "py_isdigit (int_str p)" if "p \<in> set ps" for p
    using d [OF that] by (auto simp: py_isdigit_def list_all_iff digit_char_def)
  then have "filter (\<lambda>t. py_isdigit t) (map int_str ps) = map int_str ps"
    by (intro filter_True) auto
  moreover have "res_map (\<lambda>token. case py_int token of Some n \<Rightarrow> Inr n
      | None \<Rightarrow> Inl (ValueError (e token))) (map int_str xs) = Inr xs" for e xs
    by (induction xs) (simp_all add: py_int_int_str)
  ultimately show ?thesis by (simp add: parse_ports_def comp_def)
qed

text \<open>The four tokens of the machine-readable line.\<close>

definition gest_tokens :: "firewall_policy \<Rightarrow> string list" where
  "gest_tokens policy =
     [''default_input='' @ fw_default_input policy,
      ''allow_ping='' @ (if fw_allow_ping policy then ''yes'' else ''no''),
      ''tcp='' @ join '','' (map int_str (fw_tcp_ports policy)),
      ''udp='' @ join '','' (map int_str (fw_udp_ports policy))]"

lemma gest_line_tokens: "gest_line policy = ''# gest: '' @ join '' '' (gest_tokens policy)"
  by (simp add: gest_line_def gest_tokens_def)

lemma word_ports: "list_all (\<lambda>c. \<not> is_space c) (join '','' (map int_str ps))"
proof (rule list_all_join)
  show "list_all (\<lambda>c. \<not> is_space c) '',''" by code_simp
  show "list_all (list_all (\<lambda>c. \<not> is_space c)) (map int_str ps)"
    using int_str_nospace by (simp add: list_all_iff)
qed

lemma gest_tokens_words:
  assumes "fw_default_input policy \<in> set INPUT_POLICIES"
  shows "list_all (\<lambda>w. w \<noteq> [] \<and> list_all (\<lambda>c. \<not> is_space c) w) (gest_tokens policy)"
proof -
  have c: "list_all (\<lambda>c. \<not> is_space c) ''default_input=''" "list_all (\<lambda>c. \<not> is_space c) ''allow_ping=''"
    "list_all (\<lambda>c. \<not> is_space c) ''tcp=''" "list_all (\<lambda>c. \<not> is_space c) ''udp=''"
    "list_all (\<lambda>c. \<not> is_space c) ''yes''" "list_all (\<lambda>c. \<not> is_space c) ''no''"
    "list_all (list_all (\<lambda>c. \<not> is_space c)) INPUT_POLICIES"
    by code_simp+
  have "list_all (\<lambda>c. \<not> is_space c) (fw_default_input policy)"
    using c(7) assms by (simp add: list_all_iff)
  then show ?thesis
    unfolding gest_tokens_def using c(1-6) word_ports by simp
qed

lemma gest_fields_line:
  assumes "fw_default_input policy \<in> set INPUT_POLICIES"
  shows "gest_fields (gest_line policy) =
    [(''default_input'', fw_default_input policy), (''allow_ping'', if fw_allow_ping policy then ''yes'' else ''no''),
     (''tcp'', join '','' (map int_str (fw_tcp_ports policy))), (''udp'', join '','' (map int_str (fw_udp_ports policy)))]"
proof -
  have "drop (length ''# gest:'') (gest_line policy) = CHR '' '' # join '' '' (gest_tokens policy)"
    by (simp add: gest_line_tokens)
  moreover have "py_split (CHR '' '' # join '' '' (gest_tokens policy)) = gest_tokens policy"
    using py_split_join [OF gest_tokens_words [OF assms]] by simp
  ultimately have "gest_fields (gest_line policy) =
      fold (\<lambda>token. dict_set (before_char (CHR ''='') token) (after_char (CHR ''='') token)) (gest_tokens policy) []"
    by (simp add: gest_fields_def)
  then show ?thesis by (simp add: gest_tokens_def before_char_def after_char_def)
qed

lemma gest_line_strip:
  assumes "fw_default_input policy \<in> set INPUT_POLICIES"
  shows "strip (gest_line policy) = gest_line policy"
proof (rule strip_eq_self)
  have "last (gest_line policy) = (let u = join '','' (map int_str (fw_udp_ports policy)) in if u = [] then CHR ''='' else last u)"
    by (simp add: gest_line_def Let_def)
  moreover have "\<not> is_space (last u)" if "u = join '','' (map int_str (fw_udp_ports policy))" "u \<noteq> []" for u
    using word_ports [of "fw_udp_ports policy"] that by (simp add: list_all_iff)
  ultimately show "gest_line policy = [] \<or> \<not> is_space (hd (gest_line policy)) \<and> \<not> is_space (last (gest_line policy))"
    by (simp add: Let_def gest_line_def)
qed

lemma plain_append [simp]: "plain_line (a @ b) \<longleftrightarrow> plain_line a \<and> plain_line b"
  by (simp add: plain_line_def)

lemma plain_ports: "plain_line (join sep (map int_str ps))" if "plain_line sep"
  unfolding plain_line_def
proof (rule list_all_join)
  show "list_all (\<lambda>c. \<not> is_linebreak c) sep" using that by (simp add: plain_line_def)
  show "list_all (list_all (\<lambda>c. \<not> is_linebreak c)) (map int_str ps)"
    using int_str_nospace nonspace_not_linebreak by (fastforce simp: list_all_iff)
qed

lemma plain_policy: "p \<in> set INPUT_POLICIES \<Longrightarrow> plain_line p"
proof -
  have "list_all plain_line INPUT_POLICIES" by code_simp
  then show "p \<in> set INPUT_POLICIES \<Longrightarrow> plain_line p" by (simp add: list_all_iff)
qed

lemma plain_gest_line: "fw_default_input policy \<in> set INPUT_POLICIES \<Longrightarrow> plain_line (gest_line policy)"
proof -
  assume d: "fw_default_input policy \<in> set INPUT_POLICIES"
  have "plain_line ''# gest: default_input=''" "plain_line '' allow_ping=''" "plain_line ''yes''" "plain_line ''no''"
    "plain_line '' tcp=''" "plain_line '' udp=''" "plain_line '',''"
    by code_simp+
  then show ?thesis unfolding gest_line_def plain_append using plain_policy [OF d] plain_ports by simp
qed

lemma plain_rules: "list_all plain_line (input_rules policy)"
proof -
  have c: "list_all plain_line BASE_RULES" "list_all plain_line [''ip protocol icmp accept'', ''icmpv6 type echo-request accept'']"
    "plain_line ''tcp dport ''" "plain_line ''udp dport ''" "plain_line '' accept''" "plain_line ''{ ''" "plain_line '' }''" "plain_line '', ''"
    by code_simp+
  have "plain_line (port_set ps)" for ps unfolding port_set_def plain_append using c plain_ports by blast
  then have "plain_line (''tcp dport '' @ port_set ps @ '' accept'')" "plain_line (''udp dport '' @ port_set ps @ '' accept'')" for ps
    unfolding plain_append using c by blast+
  with c(1,2) show ?thesis
    unfolding input_rules_def list_all_append by (simp only: list.pred_inject simp_thms split: if_split)
qed

lemma ruleset_plain:
  assumes "fw_default_input policy \<in> set INPUT_POLICIES"
  shows "list_all plain_line (ruleset_lines policy)"
proof -
  have c: "list_all plain_line [''#!/usr/sbin/nft -f'', NFT_MARKER @ '' '' @ EMDASH @ '' simple stateful firewall.'',
      ''# The 'gest:' line below encodes the policy; edit it via GeST, not by hand.'']"
    "list_all plain_line [[], ''flush ruleset'', [], ''table inet filter {'', TAB # ''chain input {'']"
    "plain_line (TAB # TAB # ''type filter hook input priority 0; policy '')" "plain_line '';''"
    "list_all plain_line [TAB # ''}'', TAB # ''chain forward {'', TAB # TAB # ''type filter hook forward priority 0; policy drop;'',
        TAB # ''}'', TAB # ''chain output {'', TAB # TAB # ''type filter hook output priority 0; policy accept;'', TAB # ''}'', ''}'']"
    by code_simp+
  have "plain_line (TAB # TAB # ''type filter hook input priority 0; policy '' @ fw_default_input policy @ '';'')"
    using plain_append [of "TAB # TAB # ''type filter hook input priority 0; policy ''" "fw_default_input policy @ '';''"]
      c(3,4) plain_policy [OF assms] by simp
  moreover have "list_all plain_line (map (\<lambda>rule. TAB # TAB # rule) (input_rules policy))"
    using plain_rules [of policy] by (simp add: list_all_iff plain_line_def)
  ultimately show ?thesis
    using c(1,2,5) plain_gest_line [OF assms] by (simp only: ruleset_lines_def list_all_append list.pred_inject simp_thms)
qed

lemma first_gest_ruleset:
  assumes "fw_default_input policy \<in> set INPUT_POLICIES"
  shows "first_gest (ruleset_lines policy) = Some (gest_line policy)"
proof -
  have "\<not> startswith (strip ''#!/usr/sbin/nft -f'') ''# gest:''"
    "\<not> startswith (strip (NFT_MARKER @ '' '' @ EMDASH @ '' simple stateful firewall.'')) ''# gest:''"
    "\<not> startswith (strip ''# The 'gest:' line below encodes the policy; edit it via GeST, not by hand.'') ''# gest:''"
    by code_simp+
  moreover have "startswith (gest_line policy) ''# gest:''" by (simp add: gest_line_def startswith_def)
  ultimately show ?thesis
    unfolding ruleset_lines_def append_Cons first_gest.simps gest_line_strip [OF assms] by simp
qed

lemma ruleset_marked: "contains NFT_MARKER (render_ruleset policy)"
proof -
  have "sublist NFT_MARKER (''#!/usr/sbin/nft -f'' @ [LF] @ NFT_MARKER @ z)" for z
    unfolding sublist_def append.assoc [symmetric] by blast
  moreover have "render_ruleset policy = ''#!/usr/sbin/nft -f'' @ [LF] @ NFT_MARKER @
      drop (length (''#!/usr/sbin/nft -f'' @ [LF] @ NFT_MARKER)) (render_ruleset policy)"
    by (simp add: render_ruleset_def ruleset_lines_def NFT_MARKER_def)
  ultimately show ?thesis unfolding contains_def by metis
qed

text \<open>The firewall policy written to the ruleset file is the one read back: for every valid policy
  the parser returns exactly it, so a later edit in the program starts from what is in force.\<close>

theorem firewall_roundtrip:
  assumes "valid_policy policy"
  shows "parse_ruleset (render_ruleset policy) = Inr (Some policy)"
proof -
  have d: "fw_default_input policy \<in> set INPUT_POLICIES" and ps: "list_all valid_port (fw_tcp_ports policy)"
    "list_all valid_port (fw_udp_ports policy)"
    using assms by (simp_all add: valid_policy_def)
  have "splitlines (render_ruleset policy) = ruleset_lines policy"
    unfolding render_ruleset_def
    by (rule splitlines_join_LF) (use ruleset_plain [OF d] in \<open>simp_all add: plain_line_def [abs_def] ruleset_lines_def\<close>)
  then have "parse_ruleset (render_ruleset policy) =
      Inr (Some (FirewallPolicy (fw_default_input policy) (fw_allow_ping policy) (fw_tcp_ports policy) (fw_udp_ports policy)))"
    using d ruleset_marked
    by (simp add: parse_ruleset_def first_gest_ruleset [OF d] gest_fields_line [OF d] field_or_def parse_ports_join [OF ps(1)]
        parse_ports_join [OF ps(2)] Let_def)
  then show ?thesis by (simp add: FirewallPolicy_def)
qed

theorem firewall_roundtrip_witness:
  "parse_ruleset (render_ruleset (FirewallPolicy ''drop'' False [22, 443] [])) =
    Inr (Some (FirewallPolicy ''drop'' False [22, 443] []))"
  by (rule firewall_roundtrip) code_simp

section \<open>The service\<close>

text \<open>
  The tools run in order: nothing is loaded that did not pass the check. The new file stays in
  place also when the check fails.
\<close>

lemma apply_policy_runs:
  assumes "apply_policy env nft call s = (s', r)" "te_tmp env \<noteq> resolve (fc_root call) NFT_PATH"
  shows "\<exists>ran. ts_ran s' = ts_ran s @ ran \<and> prefix ran
      [nft_check_argv (resolve (fc_root call) NFT_PATH) nft, nft_load_argv (resolve (fc_root call) NFT_PATH) nft] \<and>
    (ran \<noteq> [] \<longrightarrow> ts_files s' (resolve (fc_root call) NFT_PATH) = Some (render_ruleset
      (FirewallPolicy (fc_default_input call) (fc_allow_ping call) (fc_tcp_ports call) (fc_udp_ports call)), MODE_644)) \<and>
    (length ran = 2 \<longrightarrow> fst (te_run env (nft_check_argv (resolve (fc_root call) NFT_PATH) nft)) = 0 \<and> \<not> is_target (fc_root call))"
proof -
  let ?p = "resolve (fc_root call) NFT_PATH"
  let ?t = "render_ruleset (FirewallPolicy (fc_default_input call) (fc_allow_ping call) (fc_tcp_ports call) (fc_udp_ports call))"
  obtain s1 w where w: "write_tool_file env ?p ?t s = (s1, w)" by (cases "write_tool_file env ?p ?t s")
  have ran1: "ts_ran s1 = ts_ran s" using write_tool_file_eq(1) [OF w] .
  have file1: "w = Inr q \<Longrightarrow> ts_files s1 ?p = Some (?t, MODE_644)" for q
    using write_tool_file_eq(3) [OF w] assms(2) by auto
  obtain s2 ok out where c: "tool_run env (nft_check_argv ?p nft) s1 = (s2, ok, out)" by (metis surj_pair)
  obtain s3 ok3 out3 where l: "tool_run env (nft_load_argv ?p nft) s2 = (s3, ok3, out3)" by (metis surj_pair)
  note e2 = tool_run_eq [OF c] and e3 = tool_run_eq [OF l]
  have ok: "ok \<longleftrightarrow> fst (te_run env (nft_check_argv ?p nft)) = 0"
    using c by (auto simp: tool_run_def split: prod.splits)
  consider "s' = s" | e where "w = Inl e" "s' = s1" | q where "w = Inr q" "s' = s2"
    | q where "w = Inr q" "ok" "\<not> is_target (fc_root call)" "s' = s3"
    using assms(1) unfolding apply_policy_def Let_def w
    by (auto simp: c l split: if_splits sum.splits)
  then show ?thesis
  proof cases
    case 1
    then show ?thesis by (intro exI [of _ "[]"]) simp
  next
    case 2
    then show ?thesis using ran1 by (intro exI [of _ "[]"]) simp
  next
    case 3
    then show ?thesis using ran1 e2 file1 by (intro exI [of _ "[nft_check_argv ?p nft]"]) simp
  next
    case 4
    then show ?thesis using ran1 e2 e3 file1 ok by (intro exI [of _ "[nft_check_argv ?p nft, nft_load_argv ?p nft]"]) simp
  qed
qed

lemma fw_body_writes:
  assumes "fw_body env tools meth call s = (s', r)" "q \<noteq> te_tmp env" "ts_files s' q \<noteq> ts_files s q"
  shows "valid_config_root (fc_root call) \<and> q = resolve (fc_root call) NFT_PATH"
proof (cases "meth = ''ApplyPolicy''")
  case False
  then show ?thesis
    using assms by (auto simp: fw_body_def enable_at_boot_def split: prod.splits if_splits dest!: tool_run_eq)
next
  case True
  have g: "valid_config_root (fc_root call)" and a: "apply_policy env (ft_nft tools) call s = (s', r)"
    using assms(1,3) True by (auto simp: fw_body_def guard_config_root_def split: if_splits sum.splits)
  from a assms(2,3) have "q = resolve (fc_root call) NFT_PATH"
    by (auto simp: apply_policy_def Let_def split: if_splits prod.splits sum.splits
        dest!: tool_run_eq write_tool_file_eq(2) [OF _ assms(2)])
  with g show ?thesis by blast
qed

interpretation firewall: root_service "fw_body env tools meth" "\<lambda>s. ts_files s" fc_root "\<lambda>_. {NFT_PATH}" "\<lambda>_. {te_tmp env}"
  for env tools meth
  by unfold_locales (use fw_body_writes in blast)

text \<open>Only an authorised call changes a file, and then only the ruleset below an allowed root.\<close>

lemma firewall_service_confined:
  assumes "firewall_on_call env tools who meth call w = (w', r)" "q \<noteq> te_tmp env"
    "ts_files (wd_state w') q \<noteq> ts_files (wd_state w) q"
  shows "cl_authorized who \<and> valid_config_root (fc_root call) \<and> q = resolve (fc_root call) NFT_PATH"
  using firewall.call_confined [OF assms(1) [unfolded firewall_on_call_def]] assms(2,3) by blast

end
