(* ===== verification/Sshd.thy ===== *)
theory Sshd
  imports ToolService
begin

text \<open>
  The sshd server configuration: the managed directives (\<open>gest/core/sshd/model.py\<close>,
  \<open>config.py\<close>, \<open>commands.py\<close>) and the root service \<open>gest/backend/sshd.py\<close>, which swaps a
  new file in only after \<open>sshd -t\<close> accepted it. \<open>sshd_settings_applied\<close> says that every
  setting takes effect in the reader's eyes and that no other line is touched;
  \<open>sshd_swap_checked\<close> that the live file only ever changes to a checked one.
\<close>

section \<open>model.py\<close>

definition ROOT_LOGIN_VALUES :: "string list" where
  "ROOT_LOGIN_VALUES = [''yes'', ''no'', ''prohibit-password'', ''forced-commands-only'']"

record sshd_settings =
  sh_port :: int
  sh_permit_root_login :: string
  sh_password_authentication :: bool
  sh_pubkey_authentication :: bool
  sh_x11_forwarding :: bool
  sh_permit_empty_passwords :: bool

definition SSHD_DEFAULTS :: sshd_settings where
  "SSHD_DEFAULTS = \<lparr>sh_port = 22, sh_permit_root_login = ''prohibit-password'', sh_password_authentication = True,
     sh_pubkey_authentication = True, sh_x11_forwarding = False, sh_permit_empty_passwords = False\<rparr>"

section \<open>config.py\<close>

definition bool_word :: "bool \<Rightarrow> string" where
  "bool_word b = (if b then ''yes'' else ''no'')"

text \<open>The keyword of each field with \<open>_render_value\<close> of it, in the order of the table.\<close>

definition SSHD_KEYWORDS :: "(string \<times> (sshd_settings \<Rightarrow> string)) list" where
  "SSHD_KEYWORDS =
    [(''Port'', \<lambda>s. int_str (sh_port s)),
     (''PermitRootLogin'', sh_permit_root_login),
     (''PasswordAuthentication'', \<lambda>s. bool_word (sh_password_authentication s)),
     (''PubkeyAuthentication'', \<lambda>s. bool_word (sh_pubkey_authentication s)),
     (''X11Forwarding'', \<lambda>s. bool_word (sh_x11_forwarding s)),
     (''PermitEmptyPasswords'', \<lambda>s. bool_word (sh_permit_empty_passwords s))]"

definition sshd_valid_port :: "int \<Rightarrow> bool" where
  "sshd_valid_port port = (1 \<le> port \<and> port \<le> 65535)"

definition sshd_valid_settings :: "sshd_settings \<Rightarrow> bool" where
  "sshd_valid_settings s = (sshd_valid_port (sh_port s) \<and> sh_permit_root_login s \<in> set ROOT_LOGIN_VALUES)"

definition blank :: "char \<Rightarrow> bool" where
  "blank c = (c = CHR '' '' \<or> c = TAB)"

text \<open>
  \<open>_active_re\<close> on one line: the first word is the keyword in any case, and the value is the
  rest between the blanks around it, which must begin with a visible character.
\<close>

definition first_word :: "string \<Rightarrow> string" where
  "first_word line = takeWhile (\<lambda>c. \<not> blank c) (dropWhile blank line)"

definition rest_of_line :: "string \<Rightarrow> string" where
  "rest_of_line line = dropWhile blank (dropWhile (\<lambda>c. \<not> blank c) (dropWhile blank line))"

definition active :: "string \<Rightarrow> string \<Rightarrow> bool" where
  "active keyword line =
     (lower (first_word line) = lower keyword \<and> rest_of_line line \<noteq> [] \<and> \<not> is_space (hd (rest_of_line line)))"

definition active_value :: "string \<Rightarrow> string" where
  "active_value line = rev (dropWhile blank (rev (rest_of_line line)))"

definition first_value :: "string \<Rightarrow> string \<Rightarrow> string option" where
  "first_value s keyword =
     map_option (\<lambda>line. hd (py_split (active_value line))) (List.find (active keyword) (split_char LF s))"

definition to_bool :: "string option \<Rightarrow> bool \<Rightarrow> bool" where
  "to_bool v dflt = (case v of None \<Rightarrow> dflt | Some w \<Rightarrow> lower w = ''yes'')"

definition parse_settings :: "string \<Rightarrow> sshd_settings res" where
  "parse_settings s =
     res_bind
       (case first_value s ''Port'' of
          Some v \<Rightarrow> if py_isdigit v
            then (case py_int v of Some n \<Rightarrow> Inr n
                  | None \<Rightarrow> Inl (ValueError (''invalid literal for int() with base 10: '' @ py_repr v)))
            else Inr (sh_port SSHD_DEFAULTS)
        | None \<Rightarrow> Inr (sh_port SSHD_DEFAULTS)) (\<lambda>port.
     Inr \<lparr>sh_port = port,
       sh_permit_root_login = (case first_value s ''PermitRootLogin'' of
          Some v \<Rightarrow> if v \<in> set ROOT_LOGIN_VALUES then v else sh_permit_root_login SSHD_DEFAULTS
        | None \<Rightarrow> sh_permit_root_login SSHD_DEFAULTS),
       sh_password_authentication = to_bool (first_value s ''PasswordAuthentication'') (sh_password_authentication SSHD_DEFAULTS),
       sh_pubkey_authentication = to_bool (first_value s ''PubkeyAuthentication'') (sh_pubkey_authentication SSHD_DEFAULTS),
       sh_x11_forwarding = to_bool (first_value s ''X11Forwarding'') (sh_x11_forwarding SSHD_DEFAULTS),
       sh_permit_empty_passwords = to_bool (first_value s ''PermitEmptyPasswords'') (sh_permit_empty_passwords SSHD_DEFAULTS)\<rparr>)"

fun replace_first :: "(string \<Rightarrow> bool) \<Rightarrow> string \<Rightarrow> string list \<Rightarrow> string list" where
  "replace_first P new [] = []"
| "replace_first P new (l # ls) = (if P l then new # ls else l # replace_first P new ls)"

definition sshd_upsert :: "string \<Rightarrow> string \<Rightarrow> string \<Rightarrow> string" where
  "sshd_upsert s keyword v =
     (let line = keyword @ '' '' @ v; ls = split_char LF s
      in if list_ex (active keyword) ls then join [LF] (replace_first (active keyword) line ls)
         else s @ (if s = [] \<or> endswith s [LF] then [] else [LF]) @ line @ [LF])"

definition sshd_apply :: "string \<Rightarrow> sshd_settings \<Rightarrow> string" where
  "sshd_apply s settings = fold (\<lambda>(keyword, render) s. sshd_upsert s keyword (render settings)) SSHD_KEYWORDS s"

section \<open>commands.py\<close>

definition sshd_test_argv :: "string \<Rightarrow> string \<Rightarrow> string list" where
  "sshd_test_argv config_path sshd = [sshd, ''-t'', ''-f'', config_path]"

section \<open>gest.backend.sshd\<close>

definition SSHD_CONFIG :: string where
  "SSHD_CONFIG = ''/etc/ssh/sshd_config''"

record sshd_call =
  sc_settings :: sshd_settings
  sc_root :: string

record sshd_tools =
  st_sshd :: string
  st_rc_service :: string

definition apply_config :: "tool_env \<Rightarrow> sshd_tools \<Rightarrow> sshd_call \<Rightarrow> tool_state \<Rightarrow> tool_state \<times> (bool \<times> string) res" where
  "apply_config env tools call s =
     (if \<not> sshd_valid_settings (sc_settings call)
      then (s, Inl (ValueError ''invalid sshd settings (bad port or root-login value)''))
      else
        (let path = resolve (sc_root call) SSHD_CONFIG; tmp = te_tmp env;
             current = (case ts_files s path of Some (t, m) \<Rightarrow> t | None \<Rightarrow> []);
             candidate = sshd_apply current (sc_settings call);
             put = (\<lambda>s c m. s\<lparr>ts_files := (ts_files s)(tmp \<mapsto> (c, m))\<rparr>);
             undo = (\<lambda>s e. (if te_fault env Unlink then s else s\<lparr>ts_files := (ts_files s)(tmp := None)\<rparr>, Inl (OSError e)))
         in if te_fault env MakeDirs then (s, Inl (OSError ''makedirs''))
            else if te_fault env MakeTemp then (s, Inl (OSError ''mkstemp''))
            else if te_fault env WriteText then undo (put s (te_partial env) MODE_600) ''write''
            else if te_fault env Chmod then undo (put s candidate MODE_600) ''chmod''
            else
              (case tool_run env (sshd_test_argv tmp (st_sshd tools)) (put s candidate MODE_644) of
                 (s, ok, out) \<Rightarrow>
                   if \<not> ok then (s, Inr (False, ''config rejected by sshd -t, not applied:'' @ [LF] @ out))
                   else if te_fault env Replace then undo s ''replace''
                   else
                     (let s = s\<lparr>ts_files := (ts_files s)(path := Some (candidate, MODE_644), tmp := None)\<rparr>
                      in if is_target (sc_root call)
                         then (s, Inr (True, ''sshd_config written to '' @ path @ '' (target root; not reloaded live)''))
                         else
                           (case tool_run env [st_rc_service tools, ''sshd'', ''reload''] s of
                              (s, reloaded, rout) \<Rightarrow>
                                (s, Inr (True, ''sshd_config updated (port '' @ int_str (sh_port (sc_settings call)) @ ''); '' @
                                   (if reloaded then ''reloaded sshd'' else ''saved, but reload failed: '' @ rout))))))))"

definition sshd_body :: "tool_env \<Rightarrow> sshd_tools \<Rightarrow> sshd_call \<Rightarrow> tool_state method_body" where
  "sshd_body env tools call s =
     (case guard_config_root (sc_root call) of Inl e \<Rightarrow> (s, Inl e) | Inr _ \<Rightarrow> apply_config env tools call s)"

definition sshd_on_call :: "tool_env \<Rightarrow> sshd_tools \<Rightarrow> caller \<Rightarrow> sshd_call \<Rightarrow> tool_state world \<Rightarrow> tool_state world \<times> reply res" where
  "sshd_on_call env tools who call w =
     guarded_call [''ApplyConfig''] ''Not authorized to change the SSH server configuration'' who ''ApplyConfig''
       (''port='' @ int_str (sh_port (sc_settings call)) @ '' root='' @ sc_root call) (sshd_body env tools call) w"

section \<open>A directive is read back\<close>

definition one_word :: "string \<Rightarrow> bool" where
  "one_word w = (w \<noteq> [] \<and> list_all (\<lambda>c. \<not> is_space c) w)"

lemma blank_space: "blank c \<Longrightarrow> is_space c"
  by (auto simp: blank_def)

lemma word_unblank: "one_word w \<Longrightarrow> w \<noteq> [] \<and> \<not> blank (hd w) \<and> \<not> blank (last w) \<and> list_all (\<lambda>c. \<not> blank c) w"
proof -
  assume w: "one_word w"
  then have "\<not> is_space c" if "c \<in> set w" for c using that by (simp add: one_word_def list_all_iff)
  with blank_space have "\<not> blank c" if "c \<in> set w" for c using that by blast
  with w show ?thesis by (simp add: one_word_def list_all_iff)
qed

lemma directive_line:
  assumes "one_word kw" "one_word v"
  shows "first_word (kw @ '' '' @ v) = kw" "rest_of_line (kw @ '' '' @ v) = v"
proof -
  note k = word_unblank [OF assms(1)] and w = word_unblank [OF assms(2)]
  have d: "dropWhile blank (kw @ s) = kw @ s" for s using k by (cases kw) auto
  have bl: "blank (CHR '' '')" by (simp add: blank_def)
  show "first_word (kw @ '' '' @ v) = kw"
    unfolding first_word_def d using k bl by (simp add: takeWhile_append list_all_iff)
  have "dropWhile (\<lambda>c. \<not> blank c) (kw @ CHR '' '' # v) = CHR '' '' # v"
    using k bl by (simp add: dropWhile_append list_all_iff)
  moreover have "dropWhile blank v = v" using w by (cases v) auto
  ultimately show "rest_of_line (kw @ '' '' @ v) = v"
    unfolding rest_of_line_def d using bl by simp
qed

lemma directive_active:
  assumes "one_word kw" "one_word v"
  shows "active kw' (kw @ '' '' @ v) \<longleftrightarrow> lower kw = lower kw'"
    "hd (py_split (active_value (kw @ '' '' @ v))) = v"
proof -
  show "active kw' (kw @ '' '' @ v) \<longleftrightarrow> lower kw = lower kw'"
    using assms(2) directive_line [OF assms] by (auto simp: active_def one_word_def list_all_iff)
  have "active_value (kw @ '' '' @ v) = v"
    unfolding active_value_def directive_line [OF assms] using word_unblank [OF assms(2)]
    by (cases v rule: rev_cases) auto
  then show "hd (py_split (active_value (kw @ '' '' @ v))) = v"
    using assms(2) by (simp add: one_word_def py_split_word)
qed

lemma active_same: "active kw l \<Longrightarrow> active kw' l \<Longrightarrow> lower kw = lower kw'"
  by (simp add: active_def)

lemma find_replace_first:
  "list_ex P ls \<Longrightarrow> P new \<Longrightarrow> List.find P (replace_first P new ls) = Some new"
  by (induction ls) auto

lemma find_replace_other:
  "(\<And>l. P l \<Longrightarrow> \<not> Q l) \<Longrightarrow> \<not> Q new \<Longrightarrow> List.find Q (replace_first P new ls) = List.find Q ls"
  by (induction ls) auto

lemma active_Nil [simp]: "\<not> active kw []"
  by (simp add: active_def rest_of_line_def)

lemma set_replace_first: "set (replace_first P new ls) \<subseteq> insert new (set ls)"
  by (induction ls) auto

lemma replace_first_Nil [simp]: "replace_first P new ls = [] \<longleftrightarrow> ls = []"
  by (cases ls) auto

text \<open>The lines of the text after an upsert: one replaced, or the new one at the end.\<close>

lemma upsert_split:
  assumes "one_word kw" "one_word v"
  shows "if list_ex (active kw) (split_char LF s)
    then split_char LF (sshd_upsert s kw v) = replace_first (active kw) (kw @ '' '' @ v) (split_char LF s)
    else \<exists>pre. split_char LF (sshd_upsert s kw v) = pre @ [kw @ '' '' @ v, []] \<and>
      (split_char LF s = pre \<or> split_char LF s = pre @ [[]])"
proof -
  let ?line = "kw @ '' '' @ v" and ?ls = "split_char LF s"
  have nl: "LF \<notin> set ?line"
    using assms by (auto simp: one_word_def list_all_iff)
  show ?thesis
  proof (cases "list_ex (active kw) ?ls")
    case True
    let ?new = "replace_first (active kw) ?line ?ls"
    have "list_all (\<lambda>l. LF \<notin> set l) ?new"
      using set_replace_first [of "active kw" ?line ?ls] nl split_char_parts [of _ LF s] by (auto simp: list_all_iff)
    then have "split_char LF (join [LF] ?new) = ?new"
      by (intro split_char_join) (simp_all add: split_char_def)
    moreover have "sshd_upsert s kw v = join [LF] ?new"
      unfolding sshd_upsert_def Let_def using True by (rule if_P)
    ultimately show ?thesis using True by simp
  next
    case False
    have up: "sshd_upsert s kw v = s @ (if s = [] \<or> endswith s [LF] then [] else [LF]) @ ?line @ [LF]"
      unfolding sshd_upsert_def Let_def using False by (rule if_not_P)
    have l2: "split_char LF (?line @ [LF]) = [?line, []]"
      using split_on_sep [of "\<lambda>c. c = LF" LF ?line "[]"] split_on_free [of "\<lambda>c. c = LF" ?line] nl
      by (auto simp: split_char_def list_all_iff)
    consider "s = []" | t where "s = t @ [LF]" | "s \<noteq> []" "\<not> endswith s [LF]"
      by (auto simp: endswith_def suffix_def)
    then show ?thesis
    proof cases
      case 1
      have "split_char LF (sshd_upsert s kw v) = [] @ [?line, []]" unfolding up using 1 l2 by simp
      moreover have "split_char LF s = [] @ [[]]" by (simp add: 1 split_char_def)
      ultimately show ?thesis unfolding if_not_P [OF False] by blast
    next
      case 2
      have "split_char LF s = split_char LF t @ [[]]"
        unfolding 2 split_char_def using split_on_sep [of "\<lambda>c. c = LF" LF t "[]"] by simp
      moreover have "endswith s [LF]" by (simp add: 2 endswith_def)
      then have "split_char LF (sshd_upsert s kw v) = split_char LF t @ [?line, []]"
        unfolding up using 2 l2 split_on_sep [of "\<lambda>c. c = LF" LF t "?line @ [LF]"] by (simp add: split_char_def)
      ultimately show ?thesis unfolding if_not_P [OF False] by blast
    next
      case 3
      have "split_char LF (sshd_upsert s kw v) = ?ls @ [?line, []]"
        unfolding up using 3 l2 split_on_sep [of "\<lambda>c. c = LF" LF s "?line @ [LF]"] by (simp add: split_char_def)
      then show ?thesis unfolding if_not_P [OF False] by blast
    qed
  qed
qed

lemma upsert_lines:
  assumes "one_word kw" "one_word v"
  shows "List.find (active q) (split_char LF (sshd_upsert s kw v)) =
    (if lower q = lower kw then Some (kw @ '' '' @ v) else List.find (active q) (split_char LF s))"
proof -
  let ?line = "kw @ '' '' @ v" and ?ls = "split_char LF s"
  have a: "active q ?line \<longleftrightarrow> lower q = lower kw" for q using directive_active(1) [OF assms, of q] by auto
  have same: "active q = active kw" if "lower q = lower kw" using that by (intro ext) (simp add: active_def)
  note sp = upsert_split [OF assms, of s]
  show ?thesis
  proof (cases "list_ex (active kw) ?ls")
    case True
    with sp have e: "split_char LF (sshd_upsert s kw v) = replace_first (active kw) ?line ?ls" by simp
    show ?thesis
    proof (cases "lower q = lower kw")
      case eq: True
      then show ?thesis
        unfolding e using find_replace_first [OF True, of ?line] a [of kw] same by simp
    next
      case False
      then show ?thesis
        unfolding e using find_replace_other [of "active kw" "active q" ?line ?ls] a [of q] active_same [of kw _ q] by auto
    qed
  next
    case False
    with sp obtain pre where pre: "split_char LF (sshd_upsert s kw v) = pre @ [?line, []]"
      "?ls = pre \<or> ?ls = pre @ [[]]" by auto
    then have f: "List.find (active q) ?ls = List.find (active q) pre"
      by (auto simp: find_append split: option.splits)
    have "List.find (active q) ?ls = None" if "lower q = lower kw"
      using False same [OF that] by (auto simp: find_None_iff list_ex_iff)
    then show ?thesis
      using a [of q] by (auto simp: pre(1) f find_append split: option.splits)
  qed
qed

lemma upsert_first_value:
  assumes "one_word kw" "one_word v"
  shows "first_value (sshd_upsert s kw v) q = (if lower q = lower kw then Some v else first_value s q)"
  unfolding first_value_def upsert_lines [OF assms] using directive_active(2) [OF assms] by auto

section \<open>Every setting takes effect\<close>

lemma sshd_keywords_words:
  assumes "sshd_valid_settings st"
  shows "list_all (\<lambda>(kw, render). one_word kw \<and> one_word (render st)) SSHD_KEYWORDS"
proof -
  have k: "list_all (one_word \<circ> fst) SSHD_KEYWORDS" "list_all one_word ROOT_LOGIN_VALUES" "one_word ''yes''" "one_word ''no''"
    by code_simp+
  have "one_word (int_str (sh_port st))"
    using int_str_nospace [of "sh_port st"] nat_str_digits by (auto simp: one_word_def int_str_def)
  moreover have "one_word (sh_permit_root_login st)"
    using assms k(2) by (simp add: sshd_valid_settings_def list_all_iff)
  moreover have "one_word (bool_word b)" for b using k by (simp add: bool_word_def)
  ultimately show ?thesis using k(1) unfolding SSHD_KEYWORDS_def by simp
qed

lemma apply_first_value:
  "list_all (\<lambda>(kw, render). one_word kw \<and> one_word (render st)) kws \<Longrightarrow> distinct (map (lower \<circ> fst) kws) \<Longrightarrow>
    first_value (fold (\<lambda>(keyword, render) s. sshd_upsert s keyword (render st)) kws s) q =
      (case List.find (\<lambda>(kw, render). lower q = lower kw) kws of
         Some (kw, render) \<Rightarrow> Some (render st) | None \<Rightarrow> first_value s q)"
proof (induction kws arbitrary: s)
  case (Cons p kws)
  obtain kw render where p: "p = (kw, render)" by (cases p)
  have w: "one_word kw" "one_word (render st)" using Cons.prems(1) p by simp_all
  have n: "List.find (\<lambda>(kw, render). lower q = lower kw) kws = None" if "lower q = lower kw"
    using Cons.prems(2) that p by (force simp: find_None_iff)
  show ?case
    using Cons.IH [of "sshd_upsert s kw (render st)"] Cons.prems upsert_first_value [OF w, of s q] n
    by (auto simp: p split: option.splits)
qed simp

lemma sshd_apply_values:
  assumes "sshd_valid_settings st"
  shows "first_value (sshd_apply s st) ''Port'' = Some (int_str (sh_port st))"
    "first_value (sshd_apply s st) ''PermitRootLogin'' = Some (sh_permit_root_login st)"
    "first_value (sshd_apply s st) ''PasswordAuthentication'' = Some (bool_word (sh_password_authentication st))"
    "first_value (sshd_apply s st) ''PubkeyAuthentication'' = Some (bool_word (sh_pubkey_authentication st))"
    "first_value (sshd_apply s st) ''X11Forwarding'' = Some (bool_word (sh_x11_forwarding st))"
    "first_value (sshd_apply s st) ''PermitEmptyPasswords'' = Some (bool_word (sh_permit_empty_passwords st))"
proof -
  have d: "distinct (map (lower \<circ> fst) SSHD_KEYWORDS)" by code_simp
  note a = apply_first_value [OF sshd_keywords_words [OF assms] d, of s]
  have l: "list_all (\<lambda>kw. list_all (\<lambda>kw'. kw = kw' \<or> lower kw \<noteq> lower kw') (map fst SSHD_KEYWORDS)) (map fst SSHD_KEYWORDS)"
    by code_simp
  have "first_value (sshd_apply s st) kw = Some (render st)" if m: "(kw, render) \<in> set SSHD_KEYWORDS" for kw render
  proof -
    have "inj_on (lower \<circ> fst) (set SSHD_KEYWORDS)" using d by (simp add: distinct_map)
    moreover obtain p where p: "List.find (\<lambda>(kw', render'). lower kw = lower kw') SSHD_KEYWORDS = Some p"
      using m by (cases "List.find (\<lambda>(kw', render'). lower kw = lower kw') SSHD_KEYWORDS") (auto simp: find_None_iff)
    moreover have "p \<in> set SSHD_KEYWORDS" "lower kw = lower (fst p)"
      using p unfolding find_Some_iff by (auto, metis nth_mem)
    ultimately have "p = (kw, render)" using m by (auto dest!: inj_onD [of _ _ p "(kw, render)"])
    with p show ?thesis unfolding sshd_apply_def a by simp
  qed
  note all = this
  show "first_value (sshd_apply s st) ''Port'' = Some (int_str (sh_port st))"
    by (rule all [of "''Port''" "\<lambda>s. int_str (sh_port s)"]) (simp add: SSHD_KEYWORDS_def)
  show "first_value (sshd_apply s st) ''PermitRootLogin'' = Some (sh_permit_root_login st)"
    by (rule all [of "''PermitRootLogin''" sh_permit_root_login]) (simp add: SSHD_KEYWORDS_def)
  show "first_value (sshd_apply s st) ''PasswordAuthentication'' = Some (bool_word (sh_password_authentication st))"
    by (rule all [of "''PasswordAuthentication''" "\<lambda>s. bool_word (sh_password_authentication s)"]) (simp add: SSHD_KEYWORDS_def)
  show "first_value (sshd_apply s st) ''PubkeyAuthentication'' = Some (bool_word (sh_pubkey_authentication st))"
    by (rule all [of "''PubkeyAuthentication''" "\<lambda>s. bool_word (sh_pubkey_authentication s)"]) (simp add: SSHD_KEYWORDS_def)
  show "first_value (sshd_apply s st) ''X11Forwarding'' = Some (bool_word (sh_x11_forwarding st))"
    by (rule all [of "''X11Forwarding''" "\<lambda>s. bool_word (sh_x11_forwarding s)"]) (simp add: SSHD_KEYWORDS_def)
  show "first_value (sshd_apply s st) ''PermitEmptyPasswords'' = Some (bool_word (sh_permit_empty_passwords st))"
    by (rule all [of "''PermitEmptyPasswords''" "\<lambda>s. bool_word (sh_permit_empty_passwords s)"]) (simp add: SSHD_KEYWORDS_def)
qed

text \<open>A line that sets none of the managed directives.\<close>

definition unmanaged :: "string \<Rightarrow> bool" where
  "unmanaged line = (line \<noteq> [] \<and> \<not> list_ex (\<lambda>kw. active kw line) (map fst SSHD_KEYWORDS))"

lemma filter_replace_first:
  "(\<And>l. P l \<Longrightarrow> \<not> Q l) \<Longrightarrow> \<not> Q new \<Longrightarrow> filter Q (replace_first P new ls) = filter Q ls"
  by (induction ls) auto

lemma upsert_unmanaged:
  assumes "one_word kw" "one_word v" "kw \<in> fst ` set SSHD_KEYWORDS"
  shows "filter unmanaged (split_char LF (sshd_upsert s kw v)) = filter unmanaged (split_char LF s)"
proof -
  have u: "\<not> unmanaged l" if "active kw l" for l
    using assms(3) that by (auto simp: unmanaged_def list_ex_iff)
  then have n: "\<not> unmanaged (kw @ '' '' @ v)" using directive_active(1) [OF assms(1,2), of kw] by blast
  have e: "\<not> unmanaged []" by (simp add: unmanaged_def)
  show ?thesis
    using upsert_split [OF assms(1,2), of s] filter_replace_first [of "active kw" unmanaged, OF u n] n e
    by (auto split: if_splits)
qed

lemma apply_unmanaged:
  "list_all (\<lambda>(kw, render). one_word kw \<and> one_word (render st)) kws \<Longrightarrow> set kws \<subseteq> set SSHD_KEYWORDS \<Longrightarrow>
    filter unmanaged (split_char LF (fold (\<lambda>(keyword, render) s. sshd_upsert s keyword (render st)) kws s)) =
      filter unmanaged (split_char LF s)"
proof (induction kws arbitrary: s)
  case (Cons p kws)
  obtain kw render where p: "p = (kw, render)" by (cases p)
  have "kw \<in> fst ` set SSHD_KEYWORDS" using Cons.prems(2) p by (force simp: image_iff)
  then show ?case
    using Cons.IH [of "sshd_upsert s kw (render st)"] Cons.prems upsert_unmanaged [of kw "render st" s] by (simp add: p)
qed simp

text \<open>C36: Applying valid settings to any sshd\_config makes the reader see exactly those settings, and
  keeps every line that sets no managed directive, in order.\<close>

theorem sshd_settings_applied:
  assumes "sshd_valid_settings st"
  shows "parse_settings (sshd_apply s st) = Inr st \<and>
    filter unmanaged (split_char LF (sshd_apply s st)) = filter unmanaged (split_char LF s)"
proof
  have p: "py_isdigit (int_str (sh_port st))"
    using assms nat_str_digits [of "nat (sh_port st)"]
    by (auto simp: sshd_valid_settings_def sshd_valid_port_def py_isdigit_def int_str_def list_all_iff digit_char_def)
  have b: "to_bool (Some (bool_word b)) d = b" for b d
  proof -
    have "lower ''yes'' = ''yes''" "lower ''no'' \<noteq> ''yes''" by code_simp+
    then show ?thesis by (simp add: to_bool_def bool_word_def)
  qed
  have r: "sh_permit_root_login st \<in> set ROOT_LOGIN_VALUES" using assms by (simp add: sshd_valid_settings_def)
  show "parse_settings (sshd_apply s st) = Inr st"
    by (simp add: parse_settings_def sshd_apply_values [OF assms] p py_int_int_str b r)
  show "filter unmanaged (split_char LF (sshd_apply s st)) = filter unmanaged (split_char LF s)"
    unfolding sshd_apply_def by (rule apply_unmanaged [OF sshd_keywords_words [OF assms] subset_refl])
qed

theorem sshd_settings_applied_witness:
  "parse_settings (sshd_apply ''# a comment
port 2200'' SSHD_DEFAULTS) = Inr SSHD_DEFAULTS"
proof -
  have "sshd_valid_settings SSHD_DEFAULTS" by code_simp
  from sshd_settings_applied [OF this] show ?thesis by blast
qed

text \<open>
  A directive that is missing goes to the end of the file, and so into the last \<open>Match\<close> block
  if there is one, where sshd applies it to the matched users only or refuses it.
\<close>

lemma appended_into_match_block:
  "sshd_upsert ''Match User git
  X11Forwarding no
'' ''PermitRootLogin'' ''no'' = ''Match User git
  X11Forwarding no
PermitRootLogin no
''"
  by code_simp

section \<open>The service\<close>

lemma apply_config_swaps:
  assumes "apply_config env tools call s = (s', r)" "q \<noteq> te_tmp env" "ts_files s' q \<noteq> ts_files s q"
  shows "q = resolve (sc_root call) SSHD_CONFIG \<and>
    fst (te_run env (sshd_test_argv (te_tmp env) (st_sshd tools))) = 0 \<and>
    ts_files s' q = Some (sshd_apply (case ts_files s q of Some (t, m) \<Rightarrow> t | None \<Rightarrow> []) (sc_settings call), MODE_644) \<and>
    sshd_valid_settings (sc_settings call)"
  using assms
  by (auto simp: apply_config_def Let_def tool_run_def split: if_splits prod.splits)


interpretation sshd: root_service "sshd_body env tools" "\<lambda>s. ts_files s" sc_root "\<lambda>_. {SSHD_CONFIG}" "\<lambda>_. {te_tmp env}"
  for env tools
proof (unfold_locales, goal_cases)
  case (1 c s s' r q)
  then show ?case
    using apply_config_swaps [of env tools c s s' r q]
    by (auto simp: sshd_body_def guard_config_root_def split: if_splits)
qed

text \<open>When \<open>sshd -t\<close> refuses, the handler returns from inside its try block and the candidate file stays behind.\<close>

lemma rejected_candidate_stays:
  assumes "sshd_valid_settings (sc_settings call)" "\<forall>op. \<not> te_fault env op"
    "fst (te_run env (sshd_test_argv (te_tmp env) (st_sshd tools))) \<noteq> 0"
  shows "ts_files (fst (apply_config env tools call s)) (te_tmp env) \<noteq> None"
  using assms by (auto simp: apply_config_def Let_def tool_run_def split: prod.splits)

definition accepting :: tool_env where
  "accepting = \<lparr>te_fault = (\<lambda>_. False), te_tmp = ''/etc/ssh/.gest.x'', te_partial = [], te_run = (\<lambda>_. (0, [], []))\<rparr>"


end
