(* ===== verification/Eselect.thy ===== *)
theory Eselect
  imports ToolService Regex
begin

text \<open>
  \<open>gest/core/eselect\<close>: the validated command line (\<open>commands.py\<close>), the two parsers of the
  output of eselect (\<open>reader.py\<close>), and the root service \<open>gest/backend/eselect.py\<close>.
\<close>

section \<open>commands.py\<close>

definition MODULE_RE :: rx where
  "MODULE_RE = Seq (Cls lower_az) (Star (Cls (\<lambda>c. lower_az c \<or> dec_digit c \<or> c \<in> set ''_-'')))"

definition TARGET_NAME_RE :: rx where
  "TARGET_NAME_RE = Seq (Cls alnum_az) (Star (Cls (\<lambda>c. alnum_az c \<or> c \<in> set ''._/-'')))"

definition valid_module :: "string \<Rightarrow> bool" where
  "valid_module name = fullmatch MODULE_RE name"

text \<open>\<open>t.isdigit() and int(t) >= 1\<close>; a superscript digit raises in \<open>int\<close>.\<close>

definition set_argv :: "string \<Rightarrow> string \<Rightarrow> string \<Rightarrow> string list res" where
  "set_argv module t eselect =
     guard (valid_module module) (ValueError (''invalid eselect module: '' @ py_repr module))
      (res_bind
        (if py_isdigit t
         then (case py_int t of
             None \<Rightarrow> Inl (ValueError (''invalid literal for int() with base 10: '' @ py_repr t))
           | Some n \<Rightarrow> Inr (1 \<le> n))
         else Inr False) (\<lambda>is_number.
       guard (is_number \<or> (fullmatch TARGET_NAME_RE t \<and> \<not> contains ''..'' t))
         (ValueError (''invalid target: '' @ py_repr t)) (Inr [eselect, module, ''set'', t])))"

section \<open>reader.py\<close>

record eselect_target =
  et_number :: nat
  et_name :: string
  et_current :: bool

definition SKIP_MODULES :: "string list" where
  "SKIP_MODULES = [''help'', ''usage'', ''version'']"

text \<open>
  \<open>_MODULE_RE\<close> on a line: two spaces, a word, at least two spaces, a description. If nothing
  follows the spaces, the pattern gives the last one to the description, which strips to nothing.
\<close>

definition module_line :: "string \<Rightarrow> (string \<times> string) option" where
  "module_line line =
     (if \<not> startswith line ''  '' then None
      else
        (let s = drop 2 line; name = takeWhile (\<lambda>c. \<not> is_space c) s;
             after = dropWhile (\<lambda>c. \<not> is_space c) s;
             gap = length (takeWhile is_space after); desc = dropWhile is_space after
         in if name = [] then None
            else if desc \<noteq> [] then (if 2 \<le> gap then Some (name, strip desc) else None)
            else if 3 \<le> gap then Some (name, []) else None))"

definition parse_modules :: "string \<Rightarrow> (string \<times> string) list" where
  "parse_modules s = filter (\<lambda>(name, desc). name \<notin> set SKIP_MODULES) (List.map_filter module_line (splitlines s))"

text \<open>\<open>_TARGET_RE\<close> on a line: the digits in the brackets and the text after the spaces.\<close>

definition target_match :: "string \<Rightarrow> (string \<times> string) option" where
  "target_match line =
     (case dropWhile is_space line of
        [] \<Rightarrow> None
      | c # s \<Rightarrow>
          if c \<noteq> CHR ''['' then None
          else
            (let s = dropWhile is_space s; digits = takeWhile dec_digit s
             in case dropWhile is_space (dropWhile dec_digit s) of
                  [] \<Rightarrow> None
                | d # t \<Rightarrow>
                    if d = CHR '']'' \<and> t \<noteq> [] \<and> is_space (hd t) then Some (digits, dropWhile is_space t) else None))"

definition target_line :: "string \<Rightarrow> eselect_target option" where
  "target_line line =
     (case target_match line of
        None \<Rightarrow> None
      | Some (digits, t) \<Rightarrow>
          if digits = [] then None
          else
            (let rest = rstrip t; current = endswith rest ''*'';
                 name = (if current then rstrip (butlast rest) else rest)
             in map_option (\<lambda>n. \<lparr>et_number = n, et_name = name, et_current = current\<rparr>) (digits_nat digits)))"

definition parse_targets :: "string \<Rightarrow> eselect_target list" where
  "parse_targets s = List.map_filter target_line (splitlines s)"

section \<open>gest.backend.eselect\<close>

definition eselect_body :: "tool_env \<Rightarrow> string \<Rightarrow> string \<times> string \<Rightarrow> tool_state method_body" where
  "eselect_body env eselect call s =
     (case set_argv (fst call) (snd call) eselect of
        Inl e \<Rightarrow> (s, Inl e)
      | Inr argv \<Rightarrow> (case tool_run env argv s of (s, ok, out) \<Rightarrow> (s, Inr (ok, out))))"

definition eselect_on_call :: "tool_env \<Rightarrow> string \<Rightarrow> caller \<Rightarrow> string \<times> string \<Rightarrow> tool_state world \<Rightarrow> tool_state world \<times> reply res" where
  "eselect_on_call env eselect who call w =
     guarded_call [''SetTarget''] ''Not authorized to change eselect selections'' who ''SetTarget''
       (fst call @ '' '' @ snd call) (eselect_body env eselect call) w"

section \<open>What reaches the tool\<close>

lemma eselect_body_files: "ts_files (fst (eselect_body env eselect call s)) = ts_files s"
  by (auto simp: eselect_body_def split: sum.splits prod.splits dest!: tool_run_eq)

interpretation eselect: root_service "eselect_body env eselect" "\<lambda>s. ts_files s" "\<lambda>_. ''/''" "\<lambda>_. {}" "\<lambda>_. {}"
  for env eselect
  using eselect_body_files by unfold_locales (metis fst_conv)

text \<open>An eselect call runs at most one command, and that one is \<open>eselect <module> set <target>\<close> with
  a module and a target that cannot be read as an option or leave the list of targets.\<close>

theorem eselect_command_safe:
  "ts_ran (wd_state (fst (eselect_on_call env eselect who call w))) = ts_ran (wd_state w) \<or>
    (ts_ran (wd_state (fst (eselect_on_call env eselect who call w))) = ts_ran (wd_state w) @ [[eselect, fst call, ''set'', snd call]] \<and>
     cl_authorized who \<and> valid_module (fst call) \<and>
     \<not> startswith (fst call) ''-'' \<and> \<not> startswith (snd call) ''-'' \<and> \<not> contains ''..'' (snd call))"
proof -
  obtain w' r where call: "eselect_on_call env eselect who call w = (w', r)"
    by (cases "eselect_on_call env eselect who call w")
  note fst_call = call [THEN arg_cong [where f = fst], unfolded fst_conv]
  have st: "wd_state w' = (if ''SetTarget'' \<in> set [''SetTarget''] \<and> cl_authorized who
      then fst (eselect_body env eselect call (wd_state w)) else wd_state w)"
    using guarded_call_state [OF call [unfolded eselect_on_call_def]] .
  show ?thesis
  proof (cases "cl_authorized who")
    case False
    with st show ?thesis by (simp add: call)
  next
    case True
    show ?thesis
    proof (cases "set_argv (fst call) (snd call) eselect")
      case (Inl e)
      then show ?thesis using st True by (simp add: eselect_body_def call)
    next
      case (Inr argv)
      then have a: "argv = [eselect, fst call, ''set'', snd call]" "valid_module (fst call)"
        "py_isdigit (snd call) \<or> (fullmatch TARGET_NAME_RE (snd call) \<and> \<not> contains ''..'' (snd call))"
        by (auto simp: set_argv_def res_bind_Inr guard_Inr split: if_splits)
      have digits: "\<not> startswith t ''-'' \<and> \<not> contains ''..'' t" if "py_isdigit t" for t
      proof -
        have "CHR ''-'' \<notin> set t" "CHR ''.'' \<notin> set t"
          using that by (auto simp: py_isdigit_def list_all_iff digit_char_def dec_digit_def ordc_def)
        then show ?thesis by (auto simp: startswith_def contains_def sublist_def prefix_def)
      qed
      have name: "\<not> startswith t ''-''" if "fullmatch TARGET_NAME_RE t" for t
        using that by (auto simp: TARGET_NAME_RE_def rx_simps startswith_def char_class_defs)
      have m: "\<not> startswith (fst call) ''-''"
        using a(2) by (auto simp: valid_module_def MODULE_RE_def rx_simps startswith_def char_class_defs)
      have "ts_ran (wd_state w') = ts_ran (wd_state w) @ [argv]"
        using st True Inr by (auto simp: eselect_body_def split: prod.splits dest!: tool_run_eq)
      then show ?thesis unfolding fst_call using a digits [of "snd call"] name [of "snd call"] m True by blast
    qed
  qed
qed

end
