(* ===== verification/Mirrors.thy ===== *)
theory Mirrors
  imports PyStr "HOL-Library.Product_Lexorder"
begin

text \<open>
  \<open>gest/core/portage/mirrors.py\<close>: the bundled catalogue of mirrors, the choice of the fastest
  ones, the offline fallback, and the two renderers the installer writes. The network probe is
  a parameter: the connect latency of a URI, None when it does not answer in time.
  \<open>select_mirrors_best\<close> says that the choice never fails and what it optimises.
\<close>

definition GENTOO_REPO_LOCATION :: string where
  "GENTOO_REPO_LOCATION = ''/var/db/repos/gentoo''"

definition DEFAULT_SYNC_URI :: string where
  "DEFAULT_SYNC_URI = ''rsync://rsync.gentoo.org/gentoo-portage''"

definition DEFAULT_REGION :: string where
  "DEFAULT_REGION = ''us-east''"

record mirror =
  mi_name :: string
  mi_region :: string
  mi_distfiles :: string
  mi_rsync :: string

definition Mirror :: "string \<Rightarrow> string \<Rightarrow> string \<Rightarrow> string \<Rightarrow> mirror" where
  "Mirror name region distfiles rsync = \<lparr>mi_name = name, mi_region = region, mi_distfiles = distfiles, mi_rsync = rsync\<rparr>"

definition CATALOG :: "mirror list" where
  "CATALOG =
    [Mirror ''Gentoo official (distfiles.gentoo.org)'' ''global'' ''https://distfiles.gentoo.org/'' DEFAULT_SYNC_URI,
     Mirror ''MIT (US-East)'' ''us-east''
       ''https://mirrors.mit.edu/gentoo-distfiles/'' ''rsync://rsync.us.gentoo.org/gentoo-portage'',
     Mirror ''Rackspace (US)'' ''us-east''
       ''https://mirror.rackspace.com/gentoo/'' ''rsync://rsync.us.gentoo.org/gentoo-portage'',
     Mirror ''OSU OSL (US-West)'' ''us-west''
       ''https://gentoo.osuosl.org/'' ''rsync://rsync.us.gentoo.org/gentoo-portage'',
     Mirror ''RWTH Aachen (DE)'' ''eu''
       ''https://ftp.halifax.rwth-aachen.de/gentoo/'' ''rsync://rsync.de.gentoo.org/gentoo-portage'',
     Mirror ''Bytemark (UK)'' ''eu''
       ''https://mirror.bytemark.co.uk/gentoo/'' ''rsync://rsync.uk.gentoo.org/gentoo-portage'',
     Mirror ''TUNA Tsinghua (CN)'' ''asia''
       ''https://mirrors.tuna.tsinghua.edu.cn/gentoo/'' ''rsync://rsync.cn.gentoo.org/gentoo-portage'',
     Mirror ''AARNet (AU)'' ''oceania''
       ''https://mirror.aarnet.edu.au/pub/gentoo/'' ''rsync://rsync.au.gentoo.org/gentoo-portage'']"

record mirror_selection =
  ms_distfiles :: "string list"
  ms_sync_uri :: string
  ms_sync_type :: string
  ms_probed :: bool

definition selection_ok :: "mirror_selection \<Rightarrow> bool" where
  "selection_ok s = (ms_distfiles s \<noteq> [] \<and> ms_sync_uri s \<noteq> [])"

text \<open>The loop with its index, and the sort of \<open>(latency, index, mirror)\<close>, which the index decides.\<close>

definition scored :: "(string \<Rightarrow> 'l :: linorder option) \<Rightarrow> mirror list \<Rightarrow> ('l \<times> nat \<times> mirror) list" where
  "scored probe catalog =
     List.map_filter (\<lambda>(i, m). map_option (\<lambda>lat. (lat, i, m)) (probe (mi_distfiles m))) (enumerate 0 catalog)"

definition rank_mirrors :: "(string \<Rightarrow> 'l :: linorder option) \<Rightarrow> mirror list \<Rightarrow> nat \<Rightarrow> mirror list" where
  "rank_mirrors probe catalog top' =
     map (\<lambda>(lat, i, m). m) (take top' (sort_key (\<lambda>(lat, i, m). (lat, i)) (scored probe catalog)))"

definition default_selection :: "mirror list \<Rightarrow> string \<Rightarrow> nat \<Rightarrow> mirror_selection" where
  "default_selection catalog region top' =
     (let regional = filter (\<lambda>m. mi_region m = region) catalog;
          picks = take top' (if regional \<noteq> [] then regional else catalog)
      in \<lparr>ms_distfiles = map mi_distfiles picks,
          ms_sync_uri = (case picks of [] \<Rightarrow> DEFAULT_SYNC_URI | m # ms \<Rightarrow> mi_rsync m),
          ms_sync_type = ''rsync'', ms_probed = False\<rparr>)"

definition select_mirrors :: "(string \<Rightarrow> 'l :: linorder option) \<Rightarrow> mirror list \<Rightarrow> string \<Rightarrow> nat \<Rightarrow> mirror_selection" where
  "select_mirrors probe catalog region top' =
     (case rank_mirrors probe catalog top' of
        [] \<Rightarrow> default_selection catalog region top'
      | m # ms \<Rightarrow> \<lparr>ms_distfiles = map mi_distfiles (m # ms), ms_sync_uri = mi_rsync m, ms_sync_type = ''rsync'', ms_probed = True\<rparr>)"

definition render_gentoo_mirrors :: "string list \<Rightarrow> string" where
  "render_gentoo_mirrors uris = join '' '' uris"

definition gentoo_repos_conf :: "string \<Rightarrow> string \<Rightarrow> string \<Rightarrow> string" where
  "gentoo_repos_conf sync_uri sync_type location =
     ''[gentoo]'' @ [LF] @ ''location = '' @ location @ [LF] @ ''sync-type = '' @ sync_type @ [LF] @
     ''sync-uri = '' @ sync_uri @ [LF] @ ''auto-sync = yes'' @ [LF]"

section \<open>The choice\<close>

lemma set_scored: "(lat, i, m) \<in> set (scored probe catalog) \<longleftrightarrow>
    i < length catalog \<and> m = catalog ! i \<and> probe (mi_distfiles m) = Some lat"
  by (force simp: scored_def map_filter_def in_set_enumerate_eq image_iff)

lemma set_rank: "m \<in> set (rank_mirrors probe catalog n) \<Longrightarrow> m \<in> set catalog \<and> probe (mi_distfiles m) \<noteq> None"
proof -
  assume "m \<in> set (rank_mirrors probe catalog n)"
  then obtain lat i where "(lat, i, m) \<in> set (scored probe catalog)"
    by (auto simp: rank_mirrors_def dest!: in_set_takeD)
  then show ?thesis by (auto simp: set_scored)
qed

lemma rank_empty: "rank_mirrors probe catalog n = [] \<longleftrightarrow> n = 0 \<or> (\<forall>m \<in> set catalog. probe (mi_distfiles m) = None)"
proof -
  have "scored probe catalog = [] \<longleftrightarrow> (\<forall>m \<in> set catalog. probe (mi_distfiles m) = None)"
  proof
    assume "scored probe catalog = []"
    then have no: "(lat, i, m) \<notin> set (scored probe catalog)" for lat i m by simp
    show "\<forall>m \<in> set catalog. probe (mi_distfiles m) = None"
    proof
      fix m assume "m \<in> set catalog"
      then obtain i where "i < length catalog" "catalog ! i = m" unfolding in_set_conv_nth by blast
      with no [unfolded set_scored] show "probe (mi_distfiles m) = None" by (cases "probe (mi_distfiles m)") auto
    qed
  next
    assume none: "\<forall>m \<in> set catalog. probe (mi_distfiles m) = None"
    have "(lat, i, m) \<notin> set (scored probe catalog)" for lat i m
      unfolding set_scored using none by auto
    then show "scored probe catalog = []" by (cases "scored probe catalog") auto
  qed
  moreover have "sort_key (\<lambda>(lat, i, m). (lat, i)) (scored probe catalog) = [] \<longleftrightarrow> scored probe catalog = []"
    by (metis set_empty set_sort)
  ultimately show ?thesis by (simp add: rank_mirrors_def)
qed

text \<open>A ranked mirror answered, and no mirror left out answered faster.\<close>

lemma rank_fastest:
  assumes "m \<in> set (rank_mirrors probe catalog n)" "m' \<in> set catalog" "m' \<notin> set (rank_mirrors probe catalog n)"
    "probe (mi_distfiles m') = Some lat'"
  shows "\<exists>lat. probe (mi_distfiles m) = Some lat \<and> lat \<le> lat'"
proof -
  let ?key = "\<lambda>(lat, i, m). (lat, i)"
  let ?xs = "sort_key ?key (scored probe catalog)"
  obtain lat i where t: "(lat, i, m) \<in> set (take n ?xs)" using assms(1) by (auto simp: rank_mirrors_def)
  then have lat: "probe (mi_distfiles m) = Some lat"
    by (auto dest!: in_set_takeD simp: set_scored)
  obtain j where j: "j < length catalog" "m' = catalog ! j" using assms(2) by (auto simp: in_set_conv_nth)
  then have "(lat', j, m') \<in> set (scored probe catalog)" using assms(4) by (simp add: set_scored)
  then have "(lat', j, m') \<in> set (take n ?xs) \<union> set (drop n ?xs)"
    by (metis append_take_drop_id set_append set_sort)
  moreover have "(lat', j, m') \<notin> set (take n ?xs)"
    using assms(3) by (force simp: rank_mirrors_def)
  ultimately have d: "(lat', j, m') \<in> set (drop n ?xs)" by blast
  have "sorted (map ?key (take n ?xs) @ map ?key (drop n ?xs))"
    by (metis append_take_drop_id map_append sorted_sort_key)
  then have "(lat, i) \<le> (lat', j)"
    using t d by (force simp: sorted_append)
  with lat show ?thesis by (auto simp: less_eq_prod_def)
qed

text \<open>Choosing mirrors never fails, whatever the probe answers: there is always a distfiles mirror and
  a sync address. If any mirror answered, the choice is among those that did, and none that was
  left out answered faster; otherwise it is the region's, unprobed.\<close>

theorem select_mirrors_best:
  fixes probe :: "string \<Rightarrow> 'l :: linorder option"
  shows "selection_ok (select_mirrors probe CATALOG region (Suc n)) \<and>
    ms_probed (select_mirrors probe CATALOG region (Suc n)) = list_ex (\<lambda>m. probe (mi_distfiles m) \<noteq> None) CATALOG \<and>
    list_all (\<lambda>m. list_all (\<lambda>m'. m' \<in> set (rank_mirrors probe CATALOG (Suc n)) \<or> probe (mi_distfiles m') = None \<or>
      the (probe (mi_distfiles m)) \<le> the (probe (mi_distfiles m'))) CATALOG) (rank_mirrors probe CATALOG (Suc n))"
proof (intro conjI)
  let ?r = "rank_mirrors probe CATALOG (Suc n)"
  have c: "list_all (\<lambda>m. mi_rsync m \<noteq> []) CATALOG" "CATALOG \<noteq> []" by code_simp+
  have e: "?r = [] \<longleftrightarrow> \<not> list_ex (\<lambda>m. probe (mi_distfiles m) \<noteq> None) CATALOG"
    by (simp add: rank_empty list_ex_iff)
  have sub: "set ?r \<subseteq> set CATALOG" using set_rank by blast
  show "list_all (\<lambda>m. list_all (\<lambda>m'. m' \<in> set ?r \<or> probe (mi_distfiles m') = None \<or>
      the (probe (mi_distfiles m)) \<le> the (probe (mi_distfiles m'))) CATALOG) ?r"
    unfolding list_all_iff
  proof (intro ballI)
    fix m m' assume m: "m \<in> set ?r" "m' \<in> set CATALOG"
    show "m' \<in> set ?r \<or> probe (mi_distfiles m') = None \<or> the (probe (mi_distfiles m)) \<le> the (probe (mi_distfiles m'))"
    proof (cases "probe (mi_distfiles m') = None \<or> m' \<in> set ?r")
      case False
      then obtain lat' where "probe (mi_distfiles m') = Some lat'" "m' \<notin> set ?r" by auto
      with rank_fastest [OF m this(2,1)] show ?thesis by auto
    qed blast
  qed
  show "ms_probed (select_mirrors probe CATALOG region (Suc n)) = list_ex (\<lambda>m. probe (mi_distfiles m) \<noteq> None) CATALOG"
    using e by (auto simp: select_mirrors_def default_selection_def Let_def split: list.splits)
  show "selection_ok (select_mirrors probe CATALOG region (Suc n))"
  proof (cases ?r)
    case Nil
    let ?regional = "filter (\<lambda>m. mi_region m = region) CATALOG"
    let ?p = "if ?regional \<noteq> [] then ?regional else CATALOG"
    have "?p \<noteq> []" "set ?p \<subseteq> set CATALOG" using c(2) by auto
    then obtain m ms where p: "?p = m # ms" "m \<in> set CATALOG" by (cases ?p) auto
    then have "mi_rsync m \<noteq> []" using c(1) by (simp add: list_all_iff)
    then show ?thesis
      unfolding select_mirrors_def Nil default_selection_def Let_def p(1) by (simp add: selection_ok_def)
  next
    case (Cons m ms)
    then have "mi_rsync m \<noteq> []" using c(1) sub by (auto simp: list_all_iff)
    then show ?thesis by (simp add: select_mirrors_def Cons selection_ok_def)
  qed
qed

end
