(* ===== verification/Desktop.thy ===== *)
theory Desktop
  imports StateStore
begin

text \<open>
  \<open>gest/core/install/desktop.py\<close>: the command lines and the files that put the desktop of
  the live image onto the target. What the file system holds is an argument: \<open>listdir\<close> is None
  for the OSError, \<open>isdir\<close> is \<open>os.path.isdir\<close>.
\<close>

definition DESKTOP_ATOMS :: "string list" where
  "DESKTOP_ATOMS = [''gui-apps/hede'', ''sys-boot/plymouth'', ''gui-libs/greetd'']"

definition GREETD_CONFIG :: string where
  "GREETD_CONFIG = ''/etc/greetd/config.toml''"

definition greetd_autologin_config :: "string \<Rightarrow> string" where
  "greetd_autologin_config user =
     (let session = ''env QT_WAYLAND_DISABLE_WINDOWDECORATION=1 dbus-run-session helm-session'';
          entry = ''command = '' @ [DQUOTE] @ session @ [DQUOTE, LF] @ ''user = '' @ [DQUOTE] @ user @ [DQUOTE, LF]
      in ''# Managed by GeST '' @ EMDASH @ '' autologin into HeDE (the Helm Desktop Environment).'' @ [LF] @
         ''[terminal]'' @ [LF] @ ''vt = 1'' @ [LF, LF] @ ''[initial_session]'' @ [LF] @ entry @ [LF] @
         ''[default_session]'' @ [LF] @ entry)"

definition OVERLAY_NAME :: string where
  "OVERLAY_NAME = ''amphitheater''"

definition OVERLAY_LOCATION :: string where
  "OVERLAY_LOCATION = ''/var/db/repos/amphitheater''"

definition OVERLAY_SYNC_URI :: string where
  "OVERLAY_SYNC_URI = ''https://github.com/k5blazerfl/Amphitheater''"

definition PKGDIR :: string where
  "PKGDIR = ''/var/cache/binpkgs''"

definition ACCEPT_KEYWORDS :: string where
  "ACCEPT_KEYWORDS = ''/etc/portage/package.accept_keywords/gest-hede''"

definition DESKTOP_KEYWORDED :: "string list" where
  "DESKTOP_KEYWORDED =
    [''app-admin/gest'', ''gui-apps/hede'', ''gui-libs/greetd'',
     ''dev-libs/wayland'', ''dev-util/glslang'', ''dev-util/spirv-tools'',
     ''media-libs/vulkan-loader'', ''gui-wm/labwc'', ''gui-libs/wlroots'',
     ''gui-apps/foot'', ''gui-apps/swaylock'', ''kde-frameworks/layer-shell-qt'',
     ''dev-util/wayland-scanner'', ''dev-util/vulkan-headers'', ''dev-util/spirv-headers'']"

definition DESKTOP_PACKAGE_USE :: string where
  "DESKTOP_PACKAGE_USE = ''/etc/portage/package.use/gest-hede''"

definition DESKTOP_USE :: "string list" where
  "DESKTOP_USE = [''dev-qt/qtbase:6 dbus gui opengl wayland widgets'', ''app-admin/gest qt'']"

definition desktop_package_use :: string where
  "desktop_package_use = concat (map (\<lambda>line. line @ [LF]) DESKTOP_USE)"

definition accept_keywords :: "string \<Rightarrow> string" where
  "accept_keywords arch = concat (map (\<lambda>atom. atom @ '' ~'' @ arch @ [LF]) DESKTOP_KEYWORDED)"

definition repos_conf :: string where
  "repos_conf =
     ''['' @ OVERLAY_NAME @ '']'' @ [LF] @ ''location = '' @ OVERLAY_LOCATION @ [LF] @ ''sync-type = git'' @ [LF] @
     ''sync-uri = '' @ OVERLAY_SYNC_URI @ [LF] @ ''auto-sync = yes'' @ [LF]"

definition quickpkg_argv :: "string \<Rightarrow> string list" where
  "quickpkg_argv pkgdir = [''env'', ''PKGDIR='' @ pkgdir, ''quickpkg'', ''--include-config=y'', ''@installed'']"

definition seed_overlay_argv :: "string \<Rightarrow> string list" where
  "seed_overlay_argv root = [''cp'', ''-a'', OVERLAY_LOCATION, root @ OVERLAY_LOCATION]"

definition overlay_parent_argv :: "string \<Rightarrow> string list" where
  "overlay_parent_argv root = [''mkdir'', ''-p'', root @ ''/var/db/repos'']"

definition has_desktop_binpkg :: "(string \<Rightarrow> string list option) \<Rightarrow> string \<Rightarrow> bool" where
  "has_desktop_binpkg listdir root =
     (case listdir (root @ PKGDIR @ ''/gui-apps'') of
        Some names \<Rightarrow> list_ex (\<lambda>name. startswith name ''hede'') names
      | None \<Rightarrow> False)"

definition overlay_seeded :: "(string \<Rightarrow> bool) \<Rightarrow> string \<Rightarrow> bool" where
  "overlay_seeded isdir root = isdir (root @ OVERLAY_LOCATION)"

definition sync_overlay_argv :: "string list" where
  "sync_overlay_argv = [''emaint'', ''sync'', ''-r'', OVERLAY_NAME]"

definition emerge_tool_argv :: "string \<Rightarrow> string list" where
  "emerge_tool_argv atom = [''emerge'', ''--getbinpkg'', ''--color'', ''n'', atom]"

definition emerge_desktop_argv :: "string list \<Rightarrow> bool \<Rightarrow> string list" where
  "emerge_desktop_argv atoms binary_only =
     [''emerge''] @ (if binary_only then [''--usepkgonly''] else [''--getbinpkg'', ''--update'', ''--deep'', ''--newuse''])
       @ [''--color'', ''n''] @ atoms"

definition cleanup_pkgdir_argv :: "string \<Rightarrow> string list" where
  "cleanup_pkgdir_argv root = [''rm'', ''-rf'', root @ PKGDIR]"

definition BINPKG_FIXUP_DIR :: string where
  "BINPKG_FIXUP_DIR = ''/var/cache/gest-binpkgs''"

text \<open>A directory that passed \<open>isdir\<close> can be listed.\<close>

definition binpkg_fixup_pairs ::
    "(string \<Rightarrow> bool) \<Rightarrow> (string \<Rightarrow> string list option) \<Rightarrow> string \<Rightarrow> string \<Rightarrow> (string \<times> string) list" where
  "binpkg_fixup_pairs isdir listdir fixup_dir target_pkgdir =
     (let names = (\<lambda>d. sort (case listdir d of Some ns \<Rightarrow> ns | None \<Rightarrow> []))
      in if \<not> isdir fixup_dir then []
         else concat (map (\<lambda>category.
           (let cat_src = path_join2 fixup_dir category
            in if \<not> isdir cat_src then []
               else map (\<lambda>pn. (path_join2 cat_src pn, path_join target_pkgdir [category, pn]))
                      (filter (\<lambda>pn. isdir (path_join2 cat_src pn)) (names cat_src))))
           (names fixup_dir)))"

definition regen_binhost_argv :: "string list" where
  "regen_binhost_argv = [''emaint'', ''binhost'', ''--fix'']"

end
