(* ===== verification/InstallWorld.thy ===== *)
theory InstallWorld
  imports InstallEngine Stage3 GpuDetect
begin

text \<open>
  The world the steps of \<open>gest/core/install/registry.py\<close> act on, and the combinators their
  bodies are written with. The machine is the file system as the installer sees it (texts with
  their modes, symbolic links, directories, mount points), the store of completed steps of
  \<open>StateStore\<close> with its session files, a log of every command handed to an executor, and the
  rest, which only the outside programs know. A step body is an action: it changes the machine,
  reports progress and returns or raises.
\<close>

section \<open>The machine\<close>

record 'o machine =
  mc_files :: files
  mc_links :: "string \<Rightarrow> string option"
  mc_isdir :: "string \<Rightarrow> bool"
  mc_ismount :: "string \<Rightarrow> bool"
  mc_session :: session
  mc_store :: state_store
  mc_log :: "(string list \<times> string option) list"
  mc_rest :: 'o

text \<open>
  What the steps take from outside: the target root and the runtime fields of
  \<open>InstallContext\<close>, the process runner, the network, the failures of file operations, the
  random names of \<open>tempfile\<close>, tool output, package data and hash functions.
\<close>

record 'o install_env =
  ie_root :: string
  ie_host :: "'o machine executor"
  ie_get :: "'o machine \<Rightarrow> string \<Rightarrow> 'o machine \<times> (string + string)"
  ie_fault :: "'o machine \<Rightarrow> string \<Rightarrow> write_op \<Rightarrow> bool"
  ie_random :: "'o machine \<Rightarrow> string \<Rightarrow> string"
  ie_partial :: string
  ie_unreadable :: "'o machine \<Rightarrow> string \<Rightarrow> bool"
  ie_oserror :: "'o machine \<Rightarrow> string \<Rightarrow> bool"
  ie_undeleted :: "'o machine \<Rightarrow> string \<Rightarrow> bool"
  ie_listdir :: "'o machine \<Rightarrow> string \<Rightarrow> string list option"
  ie_lsblk :: "'o machine \<Rightarrow> string \<Rightarrow> string"
  ie_uuids :: "(string \<times> string) list"
  ie_devices :: "block_device list"
  ie_mounts :: string
  ie_cpus :: "nat option"
  ie_cpuid :: tool_output
  ie_resource :: "string \<Rightarrow> string option"
  ie_blake2b :: "string \<Rightarrow> string"
  ie_sha512 :: "string \<Rightarrow> string"

datatype install_error = Pipe pipe_error | Disk disk_error

abbreviation Raise :: "py_error \<Rightarrow> install_error" where
  "Raise e \<equiv> Pipe (Raised e)"

section \<open>Actions\<close>

type_synonym ('m, 'a) act = "'m \<Rightarrow> 'm \<times> event list \<times> (install_error + 'a)"

definition ret :: "'a \<Rightarrow> ('m, 'a) act" where
  "ret a m = (m, [], Inr a)"

definition raise :: "py_error \<Rightarrow> ('m, 'a) act" where
  "raise e m = (m, [], Inl (Raise e))"

definition act_bind :: "('m, 'a) act \<Rightarrow> ('a \<Rightarrow> ('m, 'b) act) \<Rightarrow> ('m, 'b) act" where
  "act_bind f g m =
     (case f m of
        (m', ev, Inl e) \<Rightarrow> (m', ev, Inl e)
      | (m', ev, Inr a) \<Rightarrow> (case g a m' of (m'', ev', r) \<Rightarrow> (m'', ev @ ev', r)))"

abbreviation seq :: "('m, unit) act \<Rightarrow> ('m, 'b) act \<Rightarrow> ('m, 'b) act" where
  "seq f g \<equiv> act_bind f (\<lambda>_. g)"

definition of_res :: "'a res \<Rightarrow> ('m, 'a) act" where
  "of_res r = (case r of Inl e \<Rightarrow> raise e | Inr a \<Rightarrow> ret a)"

definition looking :: "('m \<Rightarrow> ('m, 'a) act) \<Rightarrow> ('m, 'a) act" where
  "looking f m = f m m"

text \<open>\<open>_emit\<close> reports only a nonempty list of lines.\<close>

definition emit_lines :: "string list \<Rightarrow> ('m, unit) act" where
  "emit_lines ls m = (m, if ls = [] then [] else [OnProgress ls], Inr ())"

text \<open>\<open>contextlib.suppress\<close> around a call, and \<open>try: ... finally: ...\<close>.\<close>

definition suppress :: "('m, 'a) act \<Rightarrow> ('m, unit) act" where
  "suppress f m = (case f m of (m', ev, r) \<Rightarrow> (m', ev, Inr ()))"

definition finally_do :: "('m, 'a) act \<Rightarrow> ('m \<Rightarrow> 'm) \<Rightarrow> ('m, 'a) act" where
  "finally_do f clean m = (case f m of (m', ev, r) \<Rightarrow> (clean m', ev, r))"

fun do_all :: "('x \<Rightarrow> ('m, unit) act) \<Rightarrow> 'x list \<Rightarrow> ('m, unit) act" where
  "do_all f [] = ret ()"
| "do_all f (x # xs) = seq (f x) (do_all f xs)"

section \<open>Files\<close>

definition dirname :: "string \<Rightarrow> string" where
  "dirname p =
     (let head = rev (dropWhile (\<lambda>c. c \<noteq> CHR ''/'') (rev p));
          stripped = rstrip_char (CHR ''/'') head
      in if stripped = [] then head else stripped)"

definition tmp_name :: "'o install_env \<Rightarrow> 'o machine \<Rightarrow> string \<Rightarrow> string" where
  "tmp_name env m path = path_join2 (dirname path) (''.gest.'' @ ie_random env m path)"

text \<open>Creating the directory of a path creates the ones above it.\<close>

definition makedirs_of :: "string \<Rightarrow> (string \<Rightarrow> bool) \<Rightarrow> string \<Rightarrow> bool" where
  "makedirs_of path isdir d = (isdir d \<or> (d \<noteq> [] \<and> startswith path (d @ ''/'')))"

text \<open>
  A link is followed once: the code makes links only to absolute paths of plain files. What
  \<open>os.replace\<close> puts in place replaces a link as it replaces a file.
\<close>

definition file_at :: "'o machine \<Rightarrow> string \<Rightarrow> string option" where
  "file_at m path = map_option fst (mc_files m (case mc_links m path of None \<Rightarrow> path | Some t \<Rightarrow> t))"

definition path_exists :: "'o machine \<Rightarrow> string \<Rightarrow> bool" where
  "path_exists m path =
     (let p = (case mc_links m path of None \<Rightarrow> path | Some t \<Rightarrow> t) in mc_files m p \<noteq> None \<or> mc_isdir m p)"

definition read_text :: "'o install_env \<Rightarrow> 'o machine \<Rightarrow> string \<Rightarrow> string res" where
  "read_text env m path =
     (if ie_unreadable env m path then Inl (OSError path)
      else (case file_at m path of None \<Rightarrow> Inl (OSError path) | Some t \<Rightarrow> Inr t))"

text \<open>The idiom \<open>try: open ... except OSError: text = ""\<close>.\<close>

definition text_or_empty :: "'o install_env \<Rightarrow> 'o machine \<Rightarrow> string \<Rightarrow> string" where
  "text_or_empty env m path = (case read_text env m path of Inl e \<Rightarrow> [] | Inr t \<Rightarrow> t)"

text \<open>What a write by temporary file leaves, where \<open>op\<close> is the write on the texts and
  \<open>made\<close> says whether it got as far as making the directory.\<close>

definition stored_at :: "string \<Rightarrow> bool \<Rightarrow> (files \<Rightarrow> files \<times> string res) \<Rightarrow> ('o machine, string) act" where
  "stored_at path made op m =
     (case op (mc_files m) of
        (fs, r) \<Rightarrow>
          (m\<lparr>mc_files := fs,
             mc_links := (case r of Inl e \<Rightarrow> mc_links m | Inr p \<Rightarrow> (mc_links m)(path := None)),
             mc_isdir := (if made then makedirs_of path (mc_isdir m) else mc_isdir m)\<rparr>,
           [], case r of Inl e \<Rightarrow> Inl (Raise e) | Inr p \<Rightarrow> Inr p))"

definition write_file :: "'o install_env \<Rightarrow> string \<Rightarrow> string \<Rightarrow> nat \<Rightarrow> ('o machine, string) act" where
  "write_file env abs_path content mode m =
     (let path = resolve (ie_root env) abs_path; fault = ie_fault env m path
      in stored_at path (\<not> fault MakeDirs)
           (write_under_root fault (tmp_name env m path) (ie_partial env) (ie_root env) abs_path content mode) m)"

definition unlink_quiet :: "'o install_env \<Rightarrow> string \<Rightarrow> ('o machine, unit) act" where
  "unlink_quiet env path m =
     (if ie_oserror env m path then (m, [], Inr ())
      else (m\<lparr>mc_files := (mc_files m)(path := None), mc_links := (mc_links m)(path := None)\<rparr>, [], Inr ()))"

definition make_link :: "'o install_env \<Rightarrow> string \<Rightarrow> string \<Rightarrow> ('o machine, unit) act" where
  "make_link env t path m =
     (if ie_oserror env m path \<or> mc_links m path \<noteq> None \<or> mc_files m path \<noteq> None \<or> mc_isdir m path
      then (m, [], Inl (Raise (OSError path)))
      else (m\<lparr>mc_links := (mc_links m)(path \<mapsto> t)\<rparr>, [], Inr ()))"

definition os_replace :: "'o install_env \<Rightarrow> string \<Rightarrow> string \<Rightarrow> ('o machine, unit) act" where
  "os_replace env src dst m =
     (if ie_oserror env m dst \<or> (mc_files m src = None \<and> mc_links m src = None) then (m, [], Inl (Raise (OSError dst)))
      else (m\<lparr>mc_files := (mc_files m)(dst := mc_files m src, src := None),
              mc_links := (mc_links m)(dst := mc_links m src, src := None)\<rparr>, [], Inr ()))"

definition makedirs_for :: "'o install_env \<Rightarrow> string \<Rightarrow> ('o machine, unit) act" where
  "makedirs_for env path m =
     (if ie_fault env m path MakeDirs then (m, [], Inl (Raise (OSError path)))
      else (m\<lparr>mc_isdir := makedirs_of path (mc_isdir m)\<rparr>, [], Inr ()))"

definition chmod_quiet :: "'o install_env \<Rightarrow> string \<Rightarrow> nat \<Rightarrow> ('o machine, unit) act" where
  "chmod_quiet env path mode m =
     (if ie_oserror env m path then (m, [], Inr ())
      else (m\<lparr>mc_files := (mc_files m)(path := map_option (\<lambda>(t, _). (t, mode)) (mc_files m path))\<rparr>, [], Inr ()))"

definition below :: "string \<Rightarrow> string \<Rightarrow> bool" where
  "below d q = (q = d \<or> startswith q (rstrip_char (CHR ''/'') d @ ''/''))"

definition remove_tree :: "(string \<Rightarrow> bool) \<Rightarrow> string \<Rightarrow> 'o machine \<Rightarrow> 'o machine" where
  "remove_tree kept d m =
     (let gone = (\<lambda>q. below d q \<and> \<not> kept q)
      in m\<lparr>mc_files := (\<lambda>q. if gone q then None else mc_files m q),
           mc_links := (\<lambda>q. if gone q then None else mc_links m q),
           mc_isdir := (\<lambda>q. mc_isdir m q \<and> \<not> gone q)\<rparr>)"

text \<open>\<open>shutil.rmtree\<close>, ignoring errors or raising the first; then what could not be
  removed stays.\<close>

definition rmtree_quiet :: "'o install_env \<Rightarrow> string \<Rightarrow> 'o machine \<Rightarrow> 'o machine" where
  "rmtree_quiet env d m = remove_tree (ie_undeleted env m) d m"

definition rmtree :: "'o install_env \<Rightarrow> string \<Rightarrow> ('o machine, unit) act" where
  "rmtree env d m =
     (if ie_oserror env m d then (remove_tree (ie_undeleted env m) d m, [], Inl (Raise (OSError d)))
      else (remove_tree (\<lambda>_. False) d m, [], Inr ()))"

text \<open>\<open>shutil.copytree(src, dst)\<close>, which fails when the destination is there.\<close>

definition copy_tree :: "'o install_env \<Rightarrow> string \<Rightarrow> string \<Rightarrow> ('o machine, unit) act" where
  "copy_tree env src dst m =
     (if ie_oserror env m dst \<or> path_exists m dst then (m, [], Inl (Raise (OSError dst)))
      else
        (let from = (\<lambda>q. src @ drop (length dst) q)
         in (m\<lparr>mc_files := (\<lambda>q. if below dst q then mc_files m (from q) else mc_files m q),
               mc_links := (\<lambda>q. if below dst q then mc_links m (from q) else mc_links m q),
               mc_isdir := (\<lambda>q. if below dst q then mc_isdir m (from q) else mc_isdir m q)\<rparr>, [], Inr ())))"

section \<open>Commands\<close>

definition host_run :: "'o install_env \<Rightarrow> 'o machine executor" where
  "host_run env m argv stdin =
     (case ie_host env m argv stdin of
        (m', ev, r) \<Rightarrow> (m'\<lparr>mc_log := mc_log m @ [(argv, stdin)]\<rparr>, ev, r))"

definition target_run :: "'o install_env \<Rightarrow> 'o machine executor" where
  "target_run env = executor_for (host_run env) (ie_root env) True"

definition run_command :: "'o machine executor \<Rightarrow> string list \<Rightarrow> ('o machine, int) act" where
  "run_command run argv m =
     (case run m argv None of
        (m', ev, Inl e) \<Rightarrow> (m', ev, Inl (Raise e))
      | (m', ev, Inr result) \<Rightarrow> (m', ev, Inr (rr_code result)))"

definition pipeline :: "'o machine executor \<Rightarrow> step list \<Rightarrow> ('o machine, unit) act" where
  "pipeline run steps m =
     (case run_steps run steps m of
        (m', ev, Inl e) \<Rightarrow> (m', progress_of ev, Inl (Pipe e))
      | (m', ev, Inr ss) \<Rightarrow> (m', progress_of ev, Inr ()))"

interpretation host: logged_executor "host_run env" mc_log "\<lambda>argv. argv" "\<lambda>_. True" for env
  by unfold_locales (simp_all add: host_run_def split: prod.splits)

interpretation target: logged_executor "target_run env" mc_log "\<lambda>argv. ''chroot'' # ie_root env # argv" "\<lambda>_. True" for env
  by unfold_locales (simp_all add: target_run_def executor_for_def chroot_run_def host.log_run)

section \<open>Completed steps\<close>

text \<open>The store asks the file system whether the target's \<open>/etc\<close> is there.\<close>

definition mark_key :: "string \<Rightarrow> 'o machine \<Rightarrow> 'o machine \<times> install_error option" where
  "mark_key k m =
     (case mark ((mc_session m)\<lparr>se_isdir := mc_isdir m\<rparr>) (mc_store m) k of
        (se, st, e) \<Rightarrow> (m\<lparr>mc_session := se, mc_store := st\<rparr>, map_option Raise e))"

definition mark_done :: "string \<Rightarrow> ('o machine, unit) act" where
  "mark_done k m = (case mark_key k m of (m', None) \<Rightarrow> (m', [], Inr ()) | (m', Some e) \<Rightarrow> (m', [], Inl e))"

definition is_done :: "string \<Rightarrow> 'o machine \<Rightarrow> install_error + bool" where
  "is_done k m = Inr (done_key (mc_store m) k)"

section \<open>Steps\<close>

definition FuncStep ::
    "string \<Rightarrow> string option \<Rightarrow> phase \<Rightarrow> bool \<Rightarrow> ('o machine \<Rightarrow> install_error + bool) \<Rightarrow> ('o machine, 'a) act
     \<Rightarrow> ('o machine, install_error) install_step" where
  "FuncStep label key ph opening sat act =
     \<lparr>is_label = label, is_key = key, is_phase = ph, is_chroot = False, is_opens_chroot = opening,
      is_satisfied = sat,
      is_run = (\<lambda>m. case act m of (m', ev, r) \<Rightarrow> (m', ev, case r of Inl e \<Rightarrow> Some e | Inr _ \<Rightarrow> None))\<rparr>"

definition CommandStep ::
    "'o install_env \<Rightarrow> string \<Rightarrow> string option \<Rightarrow> phase \<Rightarrow> bool \<Rightarrow> ('o machine \<Rightarrow> install_error + bool)
     \<Rightarrow> ('o machine \<Rightarrow> step list res) \<Rightarrow> ('o machine, install_error) install_step" where
  "CommandStep env label key ph chroot sat steps_of =
     (FuncStep label key ph False sat (looking (\<lambda>m. act_bind (of_res (steps_of m)) (\<lambda>steps.
        pipeline (executor_for (host_run env) (ie_root env) chroot) steps))))\<lparr>is_chroot := chroot\<rparr>"

text \<open>The engine over the machine: marks are kept by the store, and the chroot is torn down on
  the host.\<close>

definition machine_engine ::
    "'o install_env \<Rightarrow>
     (('o machine, install_error) install_step \<Rightarrow> install_error \<Rightarrow> bool \<Rightarrow> 'o machine
       \<Rightarrow> 'o machine \<times> (install_error + failure_action)) option
     \<Rightarrow> ('o machine, install_error) engine" where
  "machine_engine env hook =
     \<lparr>en_mark = (\<lambda>s m. mark_key (step_key (is_key s) (is_label s)) m),
      en_teardown = (\<lambda>m. case teardown_chroot (ie_root env) (host_run env) m of
        (m', ev, r) \<Rightarrow> (m', progress_of ev, case r of Inl e \<Rightarrow> Some (Raise e) | Inr ss \<Rightarrow> None)),
      en_hook = hook\<rparr>"

section \<open>How actions run\<close>

lemma act_bindE:
  assumes "act_bind f g m = (m', ev, r)"
  obtains (stopped) e where "f m = (m', ev, Inl e)" "r = Inl e"
  | (continued) m1 ev1 a ev2 where "f m = (m1, ev1, Inr a)" "g a m1 = (m', ev2, r)" "ev = ev1 @ ev2"
  using assms unfolding act_bind_def by (auto split: prod.splits sum.splits)

text \<open>A returned result went through every part.\<close>

lemma act_bind_Inr:
  "act_bind f g m = (m', ev, Inr b) \<longleftrightarrow>
    (\<exists>m1 ev1 a ev2. f m = (m1, ev1, Inr a) \<and> g a m1 = (m', ev2, Inr b) \<and> ev = ev1 @ ev2)"
  unfolding act_bind_def by (auto split: prod.splits sum.splits)

lemma act_simps [simp]:
  "ret a m = (m, [], Inr a)" "raise e m = (m, [], Inl (Raise e))" "looking f m = f m m"
  "of_res (Inr a) = ret a" "of_res (Inl e) = raise e" "act_bind (ret a) g = g a"
  "act_bind (raise e) g = raise e"
  by (simp_all add: ret_def raise_def looking_def of_res_def act_bind_def fun_eq_iff)

lemma of_res_eq: "of_res r m = (m', ev, q) \<longleftrightarrow> m' = m \<and> ev = [] \<and> q = (case r of Inl e \<Rightarrow> Inl (Raise e) | Inr a \<Rightarrow> Inr a)"
  by (cases r) auto

lemma emit_lines_eq: "emit_lines ls m = (m', ev, r) \<longleftrightarrow> m' = m \<and> ev = (if ls = [] then [] else [OnProgress ls]) \<and> r = Inr ()"
  by (auto simp: emit_lines_def)

lemma run_command_log: "run_command (host_run env) argv m = (m', ev, r) \<Longrightarrow> mc_log m' = mc_log m @ [(argv, None)]"
  using host.log_run [where env = env and w = m and argv = argv and stdin = None]
  by (auto simp: run_command_def split: prod.splits sum.splits)

section \<open>What an action leaves alone\<close>

text \<open>
  A view of the machine that an action keeps, with one rule per combinator, as for a program
  logic: a body built from actions that keep the view keeps it.
\<close>

definition keeps :: "('m \<Rightarrow> 'k) \<Rightarrow> ('m, 'a) act \<Rightarrow> bool" where
  "keeps view f = (\<forall>m. view (fst (f m)) = view m)"

named_theorems keeps_intros \<open>rules for what an action keeps\<close>

lemma keepsD: "keeps view f \<Longrightarrow> f m = (m', ev, r) \<Longrightarrow> view m' = view m"
  unfolding keeps_def by (metis fst_conv)

lemma keeps_ret [keeps_intros]: "keeps view (ret a)"
  by (simp add: keeps_def ret_def)

lemma keeps_raise [keeps_intros]: "keeps view (raise e)"
  by (simp add: keeps_def raise_def)

lemma keeps_of_res [keeps_intros]: "keeps view (of_res r)"
  by (cases r) (simp_all add: of_res_def keeps_ret keeps_raise)

lemma keeps_bind [keeps_intros]: "keeps view f \<Longrightarrow> (\<And>a. keeps view (g a)) \<Longrightarrow> keeps view (act_bind f g)"
  unfolding keeps_def act_bind_def by (auto split: prod.splits sum.splits) (metis fst_conv)+

lemma keeps_looking [keeps_intros]: "(\<And>m. keeps view (f m)) \<Longrightarrow> keeps view (looking f)"
  by (simp add: keeps_def looking_def)

lemma keeps_emit_lines [keeps_intros]: "keeps view (emit_lines ls)"
  by (simp add: keeps_def emit_lines_def)

lemma keeps_suppress [keeps_intros]: "keeps view f \<Longrightarrow> keeps view (suppress f)"
  unfolding keeps_def suppress_def by (auto split: prod.splits) (metis fst_conv)

lemma keeps_if [keeps_intros]: "(P \<Longrightarrow> keeps view f) \<Longrightarrow> (\<not> P \<Longrightarrow> keeps view g) \<Longrightarrow> keeps view (if P then f else g)"
  by simp

lemma keeps_option [keeps_intros]:
  "(x = None \<Longrightarrow> keeps view f) \<Longrightarrow> (\<And>a. x = Some a \<Longrightarrow> keeps view (g a)) \<Longrightarrow>
    keeps view (case x of None \<Rightarrow> f | Some a \<Rightarrow> g a)"
  by (cases x) simp_all

lemma keeps_list [keeps_intros]:
  "(xs = [] \<Longrightarrow> keeps view f) \<Longrightarrow> (\<And>a as. xs = a # as \<Longrightarrow> keeps view (g a as)) \<Longrightarrow>
    keeps view (case xs of [] \<Rightarrow> f | a # as \<Rightarrow> g a as)"
  by (cases xs) simp_all

text \<open>
  The commands an action runs: all of a kind, or all of a kind up to a machine from which the
  rest of it ran, as a relation between the two says.
\<close>

definition runs :: "(string list \<Rightarrow> bool) \<Rightarrow> ('o machine, 'a) act \<Rightarrow> bool" where
  "runs S f = (\<forall>m. \<exists>cs. mc_log (fst (f m)) = mc_log m @ cs \<and> list_all (\<lambda>c. S (fst c)) cs)"

definition runs_to ::
    "(string list \<Rightarrow> bool) \<Rightarrow> ('o machine \<Rightarrow> 'o machine \<Rightarrow> bool) \<Rightarrow> ('o machine, 'a) act \<Rightarrow> bool" where
  "runs_to S Q f =
     (\<forall>m. \<exists>m1 cs. mc_log m1 = mc_log m @ cs \<and> list_all (\<lambda>c. S (fst c)) cs \<and>
        (mc_log (fst (f m)) = mc_log m1 \<or> Q m1 (fst (f m))))"

named_theorems runs_intros \<open>rules for the commands an action runs\<close>

lemma runs_keeps: "keeps mc_log f \<Longrightarrow> runs S f"
  unfolding keeps_def runs_def by (metis append_Nil2 list.pred_inject(1))

lemma runs_bind [runs_intros]: "runs S f \<Longrightarrow> (\<And>a. runs S (g a)) \<Longrightarrow> runs S (act_bind f g)"
  unfolding runs_def
proof (intro allI)
  fix m
  assume f: "\<forall>m. \<exists>cs. mc_log (fst (f m)) = mc_log m @ cs \<and> list_all (\<lambda>c. S (fst c)) cs"
    and g: "\<And>a. \<forall>m. \<exists>cs. mc_log (fst (g a m)) = mc_log m @ cs \<and> list_all (\<lambda>c. S (fst c)) cs"
  obtain m1 ev1 r1 where e: "f m = (m1, ev1, r1)" by (cases "f m")
  from f [rule_format, of m] e obtain cs where cs: "mc_log m1 = mc_log m @ cs" "list_all (\<lambda>c. S (fst c)) cs" by auto
  show "\<exists>cs. mc_log (fst (act_bind f g m)) = mc_log m @ cs \<and> list_all (\<lambda>c. S (fst c)) cs"
  proof (cases r1)
    case (Inl x)
    then show ?thesis using cs by (auto simp: act_bind_def e)
  next
    case (Inr a)
    from g [of a, rule_format, of m1] obtain cs' where
      cs': "mc_log (fst (g a m1)) = mc_log m1 @ cs'" "list_all (\<lambda>c. S (fst c)) cs'" by blast
    have "fst (act_bind f g m) = fst (g a m1)" by (simp add: act_bind_def e Inr split: prod.splits)
    then show ?thesis using cs cs' by (intro exI [of _ "cs @ cs'"]) simp
  qed
qed

lemma runs_to_bind:
  assumes "runs S f" "\<And>a. runs_to S Q (g a)"
  shows "runs_to S Q (act_bind f g)"
  unfolding runs_to_def
proof (intro allI)
  fix m
  obtain m1 ev1 r1 where e: "f m = (m1, ev1, r1)" by (cases "f m")
  from assms(1) [unfolded runs_def, rule_format, of m] e
  obtain cs where cs: "mc_log m1 = mc_log m @ cs" "list_all (\<lambda>c. S (fst c)) cs" by auto
  show "\<exists>m2 cs. mc_log m2 = mc_log m @ cs \<and> list_all (\<lambda>c. S (fst c)) cs \<and>
      (mc_log (fst (act_bind f g m)) = mc_log m2 \<or> Q m2 (fst (act_bind f g m)))"
  proof (cases r1)
    case (Inl x)
    then show ?thesis using cs by (intro exI [of _ m1] exI [of _ cs]) (simp add: act_bind_def e)
  next
    case (Inr a)
    have "fst (act_bind f g m) = fst (g a m1)" by (simp add: act_bind_def e Inr split: prod.splits)
    moreover from assms(2) [of a, unfolded runs_to_def, rule_format, of m1] obtain m2 cs' where
      "mc_log m2 = mc_log m1 @ cs'" "list_all (\<lambda>c. S (fst c)) cs'"
      "mc_log (fst (g a m1)) = mc_log m2 \<or> Q m2 (fst (g a m1))" by blast
    ultimately show ?thesis using cs by (intro exI [of _ m2] exI [of _ "cs @ cs'"]) simp
  qed
qed

lemma runs_run_command [runs_intros]: "S argv \<Longrightarrow> runs S (run_command (host_run env) argv)"
  unfolding runs_def by (metis prod.collapse run_command_log fst_conv list.pred_inject)

lemma runs_emit_lines [runs_intros]: "runs S (emit_lines ls)"
  and runs_ret [runs_intros]: "runs S (ret a)" and runs_raise [runs_intros]: "runs S (raise e)"
  and runs_of_res [runs_intros]: "runs S (of_res r)"
  by (rule runs_keeps, rule keeps_intros)+

lemma runs_looking [runs_intros]: "(\<And>m. runs S (f m)) \<Longrightarrow> runs S (looking f)"
  by (simp add: runs_def)

lemma runs_if [runs_intros]: "(P \<Longrightarrow> runs S f) \<Longrightarrow> (\<not> P \<Longrightarrow> runs S g) \<Longrightarrow> runs S (if P then f else g)"
  by simp

text \<open>
  The interface of a view: it does not see the files, links and directories of the paths it
  leaves free, nor the completed steps. What every file operation keeps is proved here once.
\<close>

locale frame =
  fixes view :: "'o machine \<Rightarrow> 'k"
    and free :: "string \<Rightarrow> bool"
  assumes view_files: "(\<And>q. \<not> free q \<Longrightarrow> fs q = mc_files m q) \<Longrightarrow> view (m\<lparr>mc_files := fs\<rparr>) = view m"
    and view_links: "(\<And>q. \<not> free q \<Longrightarrow> ls q = mc_links m q) \<Longrightarrow> view (m\<lparr>mc_links := ls\<rparr>) = view m"
    and view_isdir: "view (m\<lparr>mc_isdir := d\<rparr>) = view m"
    and view_marks: "view (m\<lparr>mc_session := se, mc_store := st\<rparr>) = view m"
begin

lemma view_paths:
  assumes "\<And>q. \<not> free q \<Longrightarrow> fs q = mc_files m q" "\<And>q. \<not> free q \<Longrightarrow> ls q = mc_links m q"
  shows "view (m\<lparr>mc_files := fs, mc_links := ls\<rparr>) = view m"
    "view (m\<lparr>mc_files := fs, mc_links := ls, mc_isdir := d\<rparr>) = view m"
proof -
  show *: "view (m\<lparr>mc_files := fs, mc_links := ls\<rparr>) = view m"
    using view_files [of fs m] view_links [of ls "m\<lparr>mc_files := fs\<rparr>"] assms by simp
  show "view (m\<lparr>mc_files := fs, mc_links := ls, mc_isdir := d\<rparr>) = view m"
    using * view_isdir [where m = "m\<lparr>mc_files := fs, mc_links := ls\<rparr>" and d = d] by simp
qed

lemma keeps_stored_at:
  assumes "\<And>q fs. \<not> free q \<Longrightarrow> fst (op fs) q = fs q" "free path"
  shows "keeps view (stored_at path made op)"
proof -
  have "view (fst (stored_at path made op m)) = view m" for m
  proof -
    obtain fs r where op: "op (mc_files m) = (fs, r)" by (cases "op (mc_files m)")
    have "fs q = mc_files m q" if "\<not> free q" for q
      using assms(1) [OF that, of "mc_files m"] op by simp
    then show ?thesis
      unfolding stored_at_def op prod.case fst_conv using assms(2) by (intro view_paths) (auto split: sum.splits)
  qed
  then show ?thesis by (simp add: keeps_def)
qed

lemma keeps_write_file [keeps_intros]:
  assumes "free (resolve (ie_root env) abs_path)" "\<And>m. free (tmp_name env m (resolve (ie_root env) abs_path))"
  shows "keeps view (write_file env abs_path content mode)"
proof -
  have "keeps view (stored_at (resolve (ie_root env) abs_path) made
      (write_under_root fault (tmp_name env m (resolve (ie_root env) abs_path)) partial (ie_root env) abs_path content mode))"
    for made fault partial m
    by (rule keeps_stored_at)
      (use assms assms(2) [of m] in \<open>auto simp: write_under_root_def replace_file_def Let_def split: if_splits\<close>)
  then show ?thesis by (simp add: keeps_def write_file_def Let_def)
qed

lemma keeps_makedirs_for [keeps_intros]: "keeps view (makedirs_for env path)"
  by (simp add: keeps_def makedirs_for_def view_isdir)

lemma keeps_unlink_quiet [keeps_intros]: "free path \<Longrightarrow> keeps view (unlink_quiet env path)"
  by (auto simp: keeps_def unlink_quiet_def intro!: view_paths)

lemma keeps_make_link [keeps_intros]: "free path \<Longrightarrow> keeps view (make_link env t path)"
  by (auto simp: keeps_def make_link_def intro!: view_links)

lemma keeps_os_replace [keeps_intros]: "free src \<Longrightarrow> free dst \<Longrightarrow> keeps view (os_replace env src dst)"
  by (auto simp: keeps_def os_replace_def intro!: view_paths)

lemma keeps_chmod_quiet [keeps_intros]: "free path \<Longrightarrow> keeps view (chmod_quiet env path mode)"
  by (auto simp: keeps_def chmod_quiet_def intro!: view_files)

lemma keeps_mark_done [keeps_intros]: "keeps view (mark_done k)"
  by (auto simp: keeps_def mark_done_def mark_key_def view_marks split: prod.splits option.splits)

end

text \<open>The log of commands, which no file operation touches.\<close>

interpretation log_frame: frame "mc_log" "\<lambda>_. True"
  by unfold_locales simp_all

text \<open>
  The machine outside a target root: what lies inside is the root itself followed by
  components, none of which climbs up again.
\<close>

definition inside :: "string \<Rightarrow> string \<Rightarrow> bool" where
  "inside root q =
     (let base = rstrip_char (CHR ''/'') root @ ''/''
      in startswith q base \<and> ''..'' \<notin> set (split_char (CHR ''/'') (drop (length base) q)))"

definition outside :: "string \<Rightarrow> 'o machine \<Rightarrow> (string \<Rightarrow> (string \<times> nat) option) \<times> (string \<Rightarrow> string option) \<times>
    (string list \<times> string option) list" where
  "outside root m =
     (\<lambda>q. if inside root q then None else mc_files m q, \<lambda>q. if inside root q then None else mc_links m q, mc_log m)"

interpretation root_frame: frame "outside root" "inside root" for root
  by unfold_locales (auto simp: outside_def fun_eq_iff)

section \<open>Where a write lands\<close>

text \<open>
  The paths the steps write to: absolute, below a directory other than the root, without a
  component that climbs, and with a base name that is not hidden, so the temporary file next to
  it, whose random part has no slash, is another file.
\<close>

definition config_path :: "string \<Rightarrow> bool" where
  "config_path p =
     (let ps = split_char (CHR ''/'') p
      in hd ps = [] \<and> 3 \<le> length ps \<and> last ps \<noteq> [] \<and> hd (last ps) \<noteq> CHR ''.'' \<and> last (butlast ps) \<noteq> [] \<and>
        ''..'' \<notin> set ps)"

definition names_ok :: "'o install_env \<Rightarrow> bool" where
  "names_ok env = (\<forall>m p. CHR ''/'' \<notin> set (ie_random env m p))"

lemma config_pathE:
  assumes "config_path p"
  obtains d b where "p = d @ CHR ''/'' # b" "d \<noteq> []" "hd d = CHR ''/''" "last d \<noteq> CHR ''/''"
    "CHR ''/'' \<notin> set b" "b \<noteq> []" "hd b \<noteq> CHR ''.''" "''..'' \<notin> set (split_char (CHR ''/'') d)"
proof -
  let ?ps = "split_char (CHR ''/'') p"
  have c: "hd ?ps = []" "3 \<le> length ?ps" "last ?ps \<noteq> []" "hd (last ?ps) \<noteq> CHR ''.''" "last (butlast ?ps) \<noteq> []" "''..'' \<notin> set ?ps"
    using assms unfolding config_path_def Let_def by blast+
  have parts: "list_all (\<lambda>l. CHR ''/'' \<notin> set l) ?ps" by (simp add: list_all_iff split_char_parts)
  obtain q qs where q: "butlast ?ps = [] # q # qs"
    using c(1,2) by (cases ?ps; cases "tl ?ps"; cases "tl (tl ?ps)") auto
  have ps: "?ps = butlast ?ps @ [last ?ps]" using c(2) by (intro append_butlast_last_id [symmetric]) auto
  have "p = join [CHR ''/''] (butlast ?ps @ [last ?ps])" using ps join_split_char [of "CHR ''/''" p] by simp
  also have "\<dots> = join [CHR ''/''] (butlast ?ps) @ [CHR ''/''] @ join [CHR ''/''] [last ?ps]"
    by (rule join_append) (simp_all add: q)
  finally have p: "p = join [CHR ''/''] (butlast ?ps) @ CHR ''/'' # last ?ps" by simp
  have d: "join [CHR ''/''] (butlast ?ps) = CHR ''/'' # join [CHR ''/''] (q # qs)" by (simp add: q join_Cons)
  have lastd: "last (join [CHR ''/''] xs) \<noteq> CHR ''/''" "join [CHR ''/''] xs \<noteq> []"
    if "xs \<noteq> []" "last xs \<noteq> []" "list_all (\<lambda>l. CHR ''/'' \<notin> set l) xs" for xs
  proof -
    have "join [CHR ''/''] xs = (if butlast xs = [] then [] else join [CHR ''/''] (butlast xs) @ [CHR ''/'']) @ last xs"
      using that(1) by (cases xs rule: rev_cases) (auto simp: join_append)
    moreover have "CHR ''/'' \<notin> set (last xs)"
      using that(3) last_in_set [OF that(1)] by (simp add: list_all_iff)
    then have "last (last xs) \<noteq> CHR ''/''" using last_in_set [OF that(2)] by metis
    ultimately show "last (join [CHR ''/''] xs) \<noteq> CHR ''/''" "join [CHR ''/''] xs \<noteq> []" using that(2) by simp_all
  qed
  have pb: "list_all (\<lambda>l. CHR ''/'' \<notin> set l) (butlast ?ps)" using parts by (auto simp: list_all_iff dest: in_set_butlastD)
  have sp: "split_char (CHR ''/'') (join [CHR ''/''] (butlast ?ps)) = butlast ?ps"
    using pb by (intro split_char_join) (simp_all add: q)
  show thesis
  proof (rule that [OF p])
    show "join [CHR ''/''] (butlast ?ps) \<noteq> []" "hd (join [CHR ''/''] (butlast ?ps)) = CHR ''/''" by (simp_all add: d)
    show "last (join [CHR ''/''] (butlast ?ps)) \<noteq> CHR ''/''" using lastd(1) [of "butlast ?ps"] c(5) pb q by simp
    have "last ?ps \<in> set ?ps" using c(2) by (intro last_in_set) auto
    then show "CHR ''/'' \<notin> set (last ?ps)" using parts by (simp add: list_all_iff)
    show "last ?ps \<noteq> []" "hd (last ?ps) \<noteq> CHR ''.''" by (fact c)+
    show "''..'' \<notin> set (split_char (CHR ''/'') (join [CHR ''/''] (butlast ?ps)))"
      unfolding sp using c(6) by (auto dest: in_set_butlastD)
  qed
qed

lemma dirname_at:
  assumes "d \<noteq> []" "last d \<noteq> CHR ''/''" "CHR ''/'' \<notin> set b"
  shows "dirname (d @ CHR ''/'' # b) = d"
proof -
  have "dropWhile (\<lambda>c. c \<noteq> CHR ''/'') (rev b @ CHR ''/'' # rev d) = CHR ''/'' # rev d"
    using assms(3) by (subst dropWhile_append2) auto
  then have "rev (dropWhile (\<lambda>c. c \<noteq> CHR ''/'') (rev (d @ CHR ''/'' # b))) = d @ [CHR ''/'']" by simp
  moreover have "rstrip_char (CHR ''/'') (d @ [CHR ''/'']) = d"
    using assms(1,2) by (cases d rule: rev_cases) (auto simp: rstrip_char_def)
  ultimately show ?thesis using assms(1) unfolding dirname_def Let_def by simp
qed

lemma resolve_append: "resolve root (d @ x) = resolve root d @ x"
  by (simp add: resolve_def)

lemma tmp_name_at:
  assumes "d \<noteq> []" "last d \<noteq> CHR ''/''" "CHR ''/'' \<notin> set b"
  shows "tmp_name env m (resolve root (d @ CHR ''/'' # b)) =
    resolve root (d @ CHR ''/'' # ''.gest.'' @ ie_random env m (resolve root (d @ CHR ''/'' # b)))"
proof -
  have ne: "resolve root d \<noteq> []" "last (resolve root d) \<noteq> CHR ''/''"
    using assms(1,2) by (auto simp: resolve_def)
  have d: "dirname (resolve root d @ CHR ''/'' # b) = resolve root d" by (rule dirname_at) (use ne assms(3) in auto)
  have "\<not> endswith (resolve root d) ''/''"
    using ne
    by (cases "resolve root d" rule: rev_cases) (auto simp: endswith_def suffix_def)
  then show ?thesis
    using ne(1)
    by (simp add: tmp_name_def d path_join2_def startswith_def resolve_append)
qed

lemma after_slash_unique:
  "d @ CHR ''/'' # b = d' @ CHR ''/'' # b' \<Longrightarrow> CHR ''/'' \<notin> set b \<Longrightarrow> CHR ''/'' \<notin> set b' \<Longrightarrow> b = b'"
proof -
  assume e: "d @ CHR ''/'' # b = d' @ CHR ''/'' # b'" and f: "CHR ''/'' \<notin> set b" "CHR ''/'' \<notin> set b'"
  have t: "takeWhile (\<lambda>c. c \<noteq> CHR ''/'') (rev (d @ CHR ''/'' # b)) = rev b" if "CHR ''/'' \<notin> set b" for d b :: string
    using takeWhile_append2 [of "rev b" "\<lambda>c. c \<noteq> CHR ''/''" "CHR ''/'' # rev d"] that by auto
  from t [OF f(1), of d] t [OF f(2), of d'] e show "b = b'" by simp
qed

lemma tmp_name_not_config:
  assumes "names_ok env" "config_path p" "config_path q"
  shows "tmp_name env m (resolve root p) \<noteq> resolve root q"
proof
  assume e: "tmp_name env m (resolve root p) = resolve root q"
  obtain d b where p: "p = d @ CHR ''/'' # b" "d \<noteq> []" "last d \<noteq> CHR ''/''" "CHR ''/'' \<notin> set b"
    using assms(2) by (rule config_pathE)
  obtain d' b' where q: "q = d' @ CHR ''/'' # b'" "CHR ''/'' \<notin> set b'" "hd b' \<noteq> CHR ''.''"
    using assms(3) by (rule config_pathE)
  from e have "d @ CHR ''/'' # ''.gest.'' @ ie_random env m (resolve root p) = d' @ CHR ''/'' # b'"
    unfolding p(1) tmp_name_at [OF p(2-4)] q(1) by (auto simp: resolve_def)
  from after_slash_unique [OF this _ q(2)] assms(1) q(3) show False by (auto simp: names_ok_def)
qed

lemma inside_resolve:
  assumes "is_target root" "''..'' \<notin> set (split_char (CHR ''/'') p)"
  shows "inside root (resolve root (CHR ''/'' # p))"
  using assms by (auto simp: inside_def is_target_def resolve_def startswith_def Let_def)

lemma inside_config:
  assumes "is_target root" "config_path p"
  shows "inside root (resolve root p)"
proof -
  obtain d b where p: "p = d @ CHR ''/'' # b" "d \<noteq> []" "hd d = CHR ''/''" "CHR ''/'' \<notin> set b" "b \<noteq> []" "hd b \<noteq> CHR ''.''"
    "''..'' \<notin> set (split_char (CHR ''/'') d)"
    using assms(2) by (rule config_pathE)
  obtain d' where d: "d = CHR ''/'' # d'" using p(2,3) by (cases d) auto
  have "''..'' \<notin> set (split_char (CHR ''/'') (d' @ CHR ''/'' # b))"
    using p(4-7) by (auto simp: d split_char_append_sep split_char_Cons_sep split_char_free)
  from inside_resolve [OF assms(1) this] show ?thesis by (simp add: p(1) d)
qed

lemma inside_tmp:
  assumes "is_target root" "names_ok env" "config_path p"
  shows "inside root (tmp_name env m (resolve root p))"
proof -
  obtain d b where p: "p = d @ CHR ''/'' # b" "d \<noteq> []" "hd d = CHR ''/''" "last d \<noteq> CHR ''/''" "CHR ''/'' \<notin> set b"
    "''..'' \<notin> set (split_char (CHR ''/'') d)"
    using assms(3) by (rule config_pathE)
  obtain d' where d: "d = CHR ''/'' # d'" using p(2,3) by (cases d) auto
  have "CHR ''/'' \<notin> set (''.gest.'' @ ie_random env m (resolve root p))" using assms(2) by (simp add: names_ok_def)
  then have "''..'' \<notin> set (split_char (CHR ''/'') (d' @ CHR ''/'' # ''.gest.'' @ ie_random env m (resolve root p)))"
    using p(6) by (simp add: d split_char_append_sep split_char_Cons_sep split_char_free)
  from inside_resolve [OF assms(1) this] show ?thesis
    unfolding p(1) tmp_name_at [OF p(2,4,5)] by (simp add: d)
qed

text \<open>A write that returned has put the text in place; what it did not name keeps its text.\<close>

lemma write_file_Inr:
  assumes "write_file env p content mode m = (m', ev, Inr q)" "names_ok env" "config_path p"
  shows "mc_files m' (resolve (ie_root env) p) = Some (content, mode)" "mc_links m' (resolve (ie_root env) p) = None"
    "q = resolve (ie_root env) p" "ev = []"
  using assms(1) tmp_name_not_config [OF assms(2,3,3), of m "ie_root env"]
  by (auto simp: write_file_def stored_at_def write_under_root_def replace_file_def Let_def split: if_splits)

lemma write_file_other:
  assumes "write_file env p content mode m = (m', ev, r)" "names_ok env" "config_path p" "config_path q" "q \<noteq> p"
  shows "mc_files m' (resolve (ie_root env) q) = mc_files m (resolve (ie_root env) q)"
    "mc_links m' (resolve (ie_root env) q) = mc_links m (resolve (ie_root env) q)"
proof -
  have "resolve (ie_root env) q \<noteq> tmp_name env m (resolve (ie_root env) p)"
    using tmp_name_not_config [OF assms(2,3,4), of m "ie_root env"] by (rule not_sym)
  moreover have "resolve (ie_root env) q \<noteq> resolve (ie_root env) p" using assms(5) by (auto simp: resolve_def)
  ultimately show "mc_files m' (resolve (ie_root env) q) = mc_files m (resolve (ie_root env) q)"
    "mc_links m' (resolve (ie_root env) q) = mc_links m (resolve (ie_root env) q)"
    using assms(1)
    by (auto simp: write_file_def stored_at_def write_under_root_def replace_file_def Let_def split: if_splits)
qed

lemma file_at_write:
  "write_file env p content mode m = (m', ev, Inr q) \<Longrightarrow> names_ok env \<Longrightarrow> config_path p \<Longrightarrow>
    file_at m' (resolve (ie_root env) p) = Some content"
  using write_file_Inr [of env p content mode m m' ev q] by (simp add: file_at_def)

section \<open>One file among others\<close>

definition at_path :: "string \<Rightarrow> 'o machine \<Rightarrow> (string \<times> nat) option \<times> string option" where
  "at_path p m = (mc_files m p, mc_links m p)"

interpretation path_frame: frame "at_path p" "\<lambda>q. q \<noteq> p" for p
  by unfold_locales (auto simp: at_path_def)

lemma read_at_path:
  "at_path p m = (Some (t, mode), None) \<Longrightarrow> \<not> ie_unreadable env m p \<Longrightarrow> read_text env m p = Inr t"
  by (simp add: at_path_def read_text_def file_at_def)

lemma exists_at_path: "at_path p m = (Some t, None) \<Longrightarrow> path_exists m p"
  by (simp add: at_path_def path_exists_def)

lemma write_file_at:
  "write_file env p content mode m = (m', ev, Inr q) \<Longrightarrow> names_ok env \<Longrightarrow> config_path p \<Longrightarrow>
    at_path (resolve (ie_root env) p) m' = (Some (content, mode), None)"
  using write_file_Inr(1,2) [of env p content mode m m' ev q] by (simp add: at_path_def)

lemma keeps_write_other:
  assumes "names_ok env" "config_path p" "config_path q" "q \<noteq> p"
  shows "keeps (at_path (resolve (ie_root env) q)) (write_file env p content mode)"
  using tmp_name_not_config [OF assms(1-3)] assms(4)
  by (intro path_frame.keeps_write_file) (simp_all add: resolve_inj)

end
