(* ===== verification/BaseSteps.thy ===== *)
theory BaseSteps
  imports InstallWorld Assemble Mirrors Desktop Eselect ShellConf
begin

text \<open>
  The steps of \<open>gest/core/install/registry.py\<close> that prepare the disk and build the base system,
  from the partitioning to the desktop packages. Each is the record the engine runs, with the
  body and the resume check of its class.
\<close>

definition ELLIPSIS :: string where
  "ELLIPSIS = [CHR 0xE2, CHR 0x80, CHR 0xA6]"

section \<open>Prepare the disk\<close>

definition Partition_step :: "'o install_env \<Rightarrow> install_plan \<Rightarrow> ('o machine, install_error) install_step" where
  "Partition_step env plan =
     FuncStep ''Partition the disk'' (Some ''partition'') PREPARE_DISK False (is_done ''partition'')
       (\<lambda>m. case apply_plan (pl_disk plan) (host_run env) (ie_devices env) (ie_mounts env) None m of
          (m', ev, Inl e) \<Rightarrow> (m', progress_of ev, Inl (Disk e))
        | (m', ev, Inr ss) \<Rightarrow> (m', progress_of ev, Inr ()))"

definition MakeFilesystems :: "('o machine, install_error) install_step" where
  "MakeFilesystems =
     FuncStep ''Make filesystems'' None PREPARE_DISK False (is_done ''partition'')
       (emit_lines [''filesystems created during partitioning''])"

definition mount_target :: "'o install_env \<Rightarrow> install_plan \<Rightarrow> ('o machine, unit) act" where
  "mount_target env plan =
     seq (suppress (run_command (host_run env) [''systemctl'', ''daemon-reload'']))
       (\<lambda>m. case apply_mount_plan (pl_mount plan) (host_run env) m of
          (m', ev, Inl e) \<Rightarrow> (m', progress_of ev, Inl (Pipe e))
        | (m', ev, Inr ss) \<Rightarrow> (m', progress_of ev, Inr ()))"

definition MountTarget :: "'o install_env \<Rightarrow> install_plan \<Rightarrow> ('o machine, install_error) install_step" where
  "MountTarget env plan =
     FuncStep ''Mount the target'' None PREPARE_DISK False (\<lambda>m. Inr (mc_ismount m (ie_root env)))
       (mount_target env plan)"

section \<open>The stage3 tarball\<close>

definition fetch_action :: "'o install_env \<Rightarrow> string \<Rightarrow> ('o machine, string) act" where
  "fetch_action env url m =
     (case fetch_text (ie_get env) url m of
        (m', r) \<Rightarrow> (m'\<lparr>mc_log := mc_log m\<rparr>, [], case r of Inl e \<Rightarrow> Inl (Raise e) | Inr t \<Rightarrow> Inr t))"

definition make_workdir :: "'o install_env \<Rightarrow> ('o machine, string) act" where
  "make_workdir env m =
     (let d = path_join2 (ie_root env) (''.gest-stage3-'' @ ie_random env m (ie_root env))
      in if ie_fault env m (ie_root env) MakeTemp then (m, [], Inl (Raise (OSError (ie_root env))))
         else (m\<lparr>mc_isdir := (mc_isdir m)(d := True)\<rparr>, [], Inr d))"

definition fetch_signature :: "'o install_env \<Rightarrow> string \<Rightarrow> string \<Rightarrow> ('o machine, bool) act" where
  "fetch_signature env url sig =
     (if startswith url ''https://'' \<or> startswith url ''http://''
      then act_bind (run_command (host_run env) (download_argv url sig ''wget'' ''curl'')) (\<lambda>code.
             looking (\<lambda>m. ret (code = 0 \<and> path_exists m sig)))
      else ret False)"

text \<open>Reading the tarball, recomputing its hashes and comparing them with the digests.\<close>

definition check_integrity :: "'o install_env \<Rightarrow> string \<Rightarrow> string \<Rightarrow> string \<Rightarrow> ('o machine, unit) act" where
  "check_integrity env tarball digests filename =
     looking (\<lambda>m. act_bind (of_res (read_text env m tarball)) (\<lambda>data.
       (let expected = parse_digests digests filename
        in if \<not> verify_hashes (ie_blake2b env) (ie_sha512 env) data expected
           then raise (ValueError (''stage3 integrity check failed (missing or mismatched BLAKE2B/SHA512) '' @ EMDASH @
                  '' refusing to unpack''))
           else emit_lines [''  integrity OK ('' @ join '', '' (sort (map fst expected)) @ '')''])))"

definition check_signature :: "'o install_env \<Rightarrow> bool \<Rightarrow> string \<Rightarrow> string \<Rightarrow> ('o machine, unit) act" where
  "check_signature env sig_ok sig tarball =
     (if sig_ok
      then seq (emit_lines [''Verifying GPG signature (best-effort)'' @ ELLIPSIS])
             (act_bind (run_command (host_run env) (gpg_verify_argv sig tarball)) (\<lambda>_. ret ()))
      else ret ())"

definition exit_zero :: "string \<Rightarrow> int \<Rightarrow> ('o machine, unit) act" where
  "exit_zero what code = (if code \<noteq> 0 then raise (ValueError (what @ '' failed (exit '' @ int_str code @ '')'')) else ret ())"

definition unpack_tarball :: "'o install_env \<Rightarrow> string \<Rightarrow> ('o machine, unit) act" where
  "unpack_tarball env tarball =
     seq (emit_lines [''Unpacking into '' @ ie_root env @ ELLIPSIS])
       (act_bind (run_command (host_run env) (tar_unpack_argv tarball (ie_root env))) (exit_zero ''stage3 unpack''))"

definition stage3_body :: "'o install_env \<Rightarrow> stage3_selection \<Rightarrow> string \<Rightarrow> string \<Rightarrow> ('o machine, unit) act" where
  "stage3_body env sel digests workdir =
     (let tarball = path_join2 workdir (s3_filename sel); sig = tarball @ ''.asc''
      in seq (emit_lines [''Downloading '' @ s3_filename sel, ''  from '' @ s3_url sel])
        (act_bind (run_command (host_run env) (download_argv (s3_url sel) tarball ''wget'' ''curl'')) (\<lambda>code.
         seq (exit_zero ''stage3 download'' code)
        (act_bind (fetch_signature env (s3_signature_url sel) sig) (\<lambda>sig_ok.
         seq (emit_lines [''Verifying integrity (BLAKE2B + SHA512)'' @ ELLIPSIS])
        (seq (check_integrity env tarball digests (s3_filename sel))
        (seq (check_signature env sig_ok sig tarball)
             (unpack_tarball env tarball))))))))"

definition unpack_stage3 :: "'o install_env \<Rightarrow> install_plan \<Rightarrow> ('o machine, unit) act" where
  "unpack_stage3 env plan =
     seq (of_res (guard_target_root (ie_root env) (Inr ())))
    (act_bind (fetch_action env (s3_digests_url (pl_stage3 plan))) (\<lambda>digests.
     act_bind (make_workdir env) (\<lambda>workdir.
       finally_do (stage3_body env (pl_stage3 plan) digests workdir) (rmtree_quiet env workdir))))"

definition UnpackStage3 :: "'o install_env \<Rightarrow> install_plan \<Rightarrow> ('o machine, install_error) install_step" where
  "UnpackStage3 env plan =
     FuncStep ''Unpack the stage3 tarball'' (Some ''unpack_stage3'') BASE_SYSTEM False
       (\<lambda>m. Inr (path_exists m (resolve (ie_root env) ''/etc/gentoo-release'') \<and> done_key (mc_store m) ''unpack_stage3''))
       (unpack_stage3 env plan)"

section \<open>Configuration of the base system\<close>

text \<open>\<open>device_uuid\<close> and its parser, from \<open>gest/core/disk/reader.py\<close>.\<close>

fun first_nonblank :: "string list \<Rightarrow> string" where
  "first_nonblank [] = []"
| "first_nonblank (line # lines) = (let uuid = strip line in if uuid \<noteq> [] then uuid else first_nonblank lines)"

definition parse_lsblk_uuid :: "string \<Rightarrow> string" where
  "parse_lsblk_uuid s = first_nonblank (splitlines s)"

definition device_uuid :: "'o install_env \<Rightarrow> 'o machine \<Rightarrow> string \<Rightarrow> string" where
  "device_uuid env m device = parse_lsblk_uuid (ie_lsblk env m device)"

definition write_fstab_file :: "'o install_env \<Rightarrow> string \<Rightarrow> ('o machine, string) act" where
  "write_fstab_file env content m =
     (let path = path_join (ie_root env) [''etc'', ''fstab'']; fault = ie_fault env m path
      in stored_at path (guard_target_root (ie_root env) (valid_generated_fstab content) = Inr True \<and> \<not> fault MakeDirs)
           (write_target_fstab_file fault (tmp_name env m path) (ie_partial env) (ie_root env) content) m)"

definition fstab_uuids :: "'o install_env \<Rightarrow> install_plan \<Rightarrow> 'o machine \<Rightarrow> (string \<times> string) list" where
  "fstab_uuids env plan m =
     (if ie_uuids env \<noteq> [] then ie_uuids env
      else fold (\<lambda>dev. dict_set dev (device_uuid env m dev)) (fstab_devices (pl_mount plan)) [])"

definition write_fstab :: "'o install_env \<Rightarrow> install_plan \<Rightarrow> ('o machine, unit) act" where
  "write_fstab env plan =
     looking (\<lambda>m. act_bind (of_res (generate_target_fstab (pl_mount plan) (fstab_uuids env plan m))) (\<lambda>content.
       act_bind (write_fstab_file env content) (\<lambda>path. emit_lines [''wrote '' @ path])))"

definition fstab_written :: "'o install_env \<Rightarrow> 'o machine \<Rightarrow> install_error + bool" where
  "fstab_written env m =
     (let path = resolve (ie_root env) ''/etc/fstab''
      in if \<not> path_exists m path then Inr False
         else (case res_bind (read_text env m path) valid_generated_fstab of Inl e \<Rightarrow> Inl (Raise e) | Inr b \<Rightarrow> Inr b))"

definition WriteFstab :: "'o install_env \<Rightarrow> install_plan \<Rightarrow> ('o machine, install_error) install_step" where
  "WriteFstab env plan =
     FuncStep ''Generate /etc/fstab'' None BASE_SYSTEM False (fstab_written env) (write_fstab env plan)"

text \<open>The variables \<open>WriteMakeConf\<close> sets, in order; a later one of the same name wins.\<close>

definition make_conf_edits :: "'o install_env \<Rightarrow> install_plan \<Rightarrow> (string \<times> string) list res" where
  "make_conf_edits env plan =
     (let jobs = (if bc_jobs (pl_kernel plan) > 0 then bc_jobs (pl_kernel plan) else cpu_count (ie_cpus env));
          cards = video_cards_value (pl_gpu plan);
          cpu_flags = detect_cpu_flags (ie_cpuid env)
      in res_bind (license_accept_value (pl_license plan)) (\<lambda>accept. Inr
           ([(''MAKEOPTS'', ''-j'' @ int_str jobs), (''ACCEPT_LICENSE'', accept)]
            @ (if cards \<noteq> [] then [(''VIDEO_CARDS'', cards)] else [])
            @ (if cpu_flags \<noteq> [] then [(''CPU_FLAGS_X86'', join '' '' cpu_flags)] else [])
            @ (if pl_global_use plan \<noteq> [] then [(''USE'', join '' '' (pl_global_use plan))] else [])
            @ (if pl_gentoo_mirrors plan \<noteq> []
               then [(''GENTOO_MIRRORS'', render_gentoo_mirrors (pl_gentoo_mirrors plan))] else [])
            @ (if \<not> pl_binary_pref plan
               then [(''COMMON_FLAGS'', ''-march=native -O2 -pipe''), (''RUSTFLAGS'', ''-C target-cpu=native'')] else [])
            @ pl_make_conf_overrides plan)))"

definition write_make_conf :: "'o install_env \<Rightarrow> install_plan \<Rightarrow> ('o machine, unit) act" where
  "write_make_conf env plan =
     looking (\<lambda>m. act_bind (of_res (make_conf_edits env plan)) (\<lambda>edits.
       (let current = text_or_empty env m (make_conf (se_cfg (mc_session m)) (Some (ie_root env)));
            rendered = fold (\<lambda>(name, v) text. render_var text name v) edits current
        in act_bind (write_file env ''/etc/portage/make.conf'' rendered MODE_644) (\<lambda>path.
           seq (emit_lines [''wrote '' @ path]) (mark_done ''write_make_conf'')))))"

definition WriteMakeConf :: "'o install_env \<Rightarrow> install_plan \<Rightarrow> ('o machine, install_error) install_step" where
  "WriteMakeConf env plan =
     FuncStep ''Write make.conf'' (Some ''write_make_conf'') BASE_SYSTEM False (is_done ''write_make_conf'')
       (write_make_conf env plan)"

definition write_repos_conf :: "'o install_env \<Rightarrow> install_plan \<Rightarrow> ('o machine, unit) act" where
  "write_repos_conf env plan =
     (let sync_uri = (if pl_sync_uri plan \<noteq> [] then pl_sync_uri plan else DEFAULT_SYNC_URI);
          sync_type = (if pl_sync_type plan \<noteq> [] then pl_sync_type plan else ''rsync'');
          body = gentoo_repos_conf sync_uri sync_type GENTOO_REPO_LOCATION
      in act_bind (write_file env ''/etc/portage/repos.conf/gentoo.conf'' body MODE_644) (\<lambda>path.
           seq (emit_lines [''wrote '' @ path @ '' (sync-uri '' @ sync_uri @ '')'']) (mark_done ''write_repos_conf'')))"

definition WriteReposConf :: "'o install_env \<Rightarrow> install_plan \<Rightarrow> ('o machine, install_error) install_step" where
  "WriteReposConf env plan =
     FuncStep ''Write repos.conf'' (Some ''write_repos_conf'') BASE_SYSTEM False (is_done ''write_repos_conf'')
       (write_repos_conf env plan)"

definition prepare_target :: "'o install_env \<Rightarrow> ('o machine, unit) act" where
  "prepare_target env m =
     (case prepare_chroot (ie_root env) (host_run env) m of
        (m', ev, Inl e) \<Rightarrow> (m', progress_of ev, Inl (Pipe e))
      | (m', ev, Inr ss) \<Rightarrow> (m', progress_of ev, Inr ()))"

definition PrepareTarget :: "'o install_env \<Rightarrow> ('o machine, install_error) install_step" where
  "PrepareTarget env =
     FuncStep ''Prepare the chroot'' None BASE_SYSTEM True
       (\<lambda>m. Inr (mc_ismount m (resolve (ie_root env) ''/proc''))) (prepare_target env)"

section \<open>The portage tree\<close>

definition SYNC :: "string list" where
  "SYNC = [''emerge'', ''--sync'', ''--color'', ''n'']"

definition WEBRSYNC :: "string list" where
  "WEBRSYNC = [''emerge-webrsync'']"

definition SYNC_RETRIES :: nat where
  "SYNC_RETRIES = 3"

text \<open>The result of one command, kept whole: the last one is reported when everything failed.\<close>

definition run_result_of :: "'o machine executor \<Rightarrow> string list \<Rightarrow> ('o machine, run_result) act" where
  "run_result_of run argv m =
     (case run m argv None of
        (m', ev, Inl e) \<Rightarrow> (m', ev, Inl (Raise e))
      | (m', ev, Inr result) \<Rightarrow> (m', ev, Inr result))"

text \<open>The attempts left; the result is the last failure when none took.\<close>

fun sync_attempts :: "'o machine executor \<Rightarrow> nat \<Rightarrow> nat \<Rightarrow> run_result option \<Rightarrow> ('o machine, run_result option option) act" where
  "sync_attempts run attempt 0 last_result = ret (Some last_result)"
| "sync_attempts run attempt (Suc left) last_result =
     seq (if attempt > 1
          then emit_lines [''emerge --sync failed; retry '' @ nat_str attempt @ ''/'' @ nat_str SYNC_RETRIES @ ELLIPSIS]
          else ret ())
       (act_bind (run_result_of run SYNC) (\<lambda>result.
          if rr_code result = 0 then ret None else sync_attempts run (Suc attempt) left (Some result)))"

definition sync_tree :: "'o install_env \<Rightarrow> ('o machine, unit) act" where
  "sync_tree env =
     act_bind (sync_attempts (target_run env) 1 SYNC_RETRIES None) (\<lambda>failed.
       case failed of
         None \<Rightarrow> ret ()
       | Some last_result \<Rightarrow>
           seq (emit_lines [''emerge --sync still failing; falling back to emerge-webrsync'' @ ELLIPSIS])
             (act_bind (run_result_of (target_run env) WEBRSYNC) (\<lambda>result.
                if rr_code result = 0 then ret ()
                else (\<lambda>m. (m, [], Inl (Pipe (StepError (Step ''sync portage tree'' SYNC)
                  (case last_result of None \<Rightarrow> result | Some r \<Rightarrow> r))))))))"

definition SyncTree :: "'o install_env \<Rightarrow> ('o machine, install_error) install_step" where
  "SyncTree env =
     (FuncStep ''Sync the Portage tree'' (Some ''sync_tree'') BASE_SYSTEM False (is_done ''sync_tree'')
        (sync_tree env))\<lparr>is_chroot := True\<rparr>"

definition SetProfile :: "'o install_env \<Rightarrow> install_plan \<Rightarrow> ('o machine, install_error) install_step" where
  "SetProfile env plan =
     CommandStep env ''Select the profile'' None BASE_SYSTEM True (\<lambda>m. Inr False)
       (\<lambda>m. res_bind (set_argv ''profile'' (pl_profile plan) ''eselect'') (\<lambda>argv.
          Inr [Step (''set profile '' @ pl_profile plan) argv]))"

definition EmergeWorld :: "'o install_env \<Rightarrow> install_plan \<Rightarrow> ('o machine, install_error) install_step" where
  "EmergeWorld env plan =
     CommandStep env ''Emerge @world'' (Some ''emerge_world'') BASE_SYSTEM True (is_done ''emerge_world'')
       (\<lambda>m. Inr [Step ''emerge @world'' ([''emerge''] @ (if pl_binary_pref plan then [''--getbinpkg''] else []) @
          [''-uDN'', ''--color'', ''n'', ''@world''])])"

section \<open>The desktop\<close>

definition provision_steps :: "'o install_env \<Rightarrow> 'o machine \<Rightarrow> step list" where
  "provision_steps env m =
     [Step ''repackage the live system into binpkgs'' (quickpkg_argv (ie_root env @ PKGDIR)),
      Step ''prepare the overlay dir'' (overlay_parent_argv (ie_root env))]
     @ (if mc_isdir m OVERLAY_LOCATION
        then [Step ''seed the Amphitheater overlay'' (seed_overlay_argv (ie_root env))] else [])"

definition overlay_notice :: "'o machine \<Rightarrow> string list" where
  "overlay_notice m =
     (if mc_isdir m OVERLAY_LOCATION then []
      else [OVERLAY_LOCATION @ '' not present '' @ EMDASH @ '' the overlay '' @
            ''will be git-synced into the target at desktop-install time''])"

definition swap_binpkg :: "'o install_env \<Rightarrow> string \<times> string \<Rightarrow> ('o machine, unit) act" where
  "swap_binpkg env p =
     (case p of (src, dst) \<Rightarrow>
        seq (looking (\<lambda>m. if mc_isdir m dst then rmtree env dst else ret ()))
       (seq (makedirs_for env dst) (copy_tree env src dst)))"

definition desktop_files :: "'o install_env \<Rightarrow> install_plan \<Rightarrow> ('o machine, unit) act" where
  "desktop_files env plan =
     act_bind (write_file env ''/etc/portage/repos.conf/amphitheater.conf'' repos_conf MODE_644) (\<lambda>_.
     act_bind (write_file env ACCEPT_KEYWORDS (accept_keywords (pl_arch plan)) MODE_644) (\<lambda>kw.
     act_bind (write_file env DESKTOP_PACKAGE_USE desktop_package_use MODE_644) (\<lambda>pu.
       emit_lines [''wrote repos.conf + '' @ kw @ '' + '' @ pu])))"

definition swap_binpkgs :: "'o install_env \<Rightarrow> ('o machine, unit) act" where
  "swap_binpkgs env =
     looking (\<lambda>m.
       (let fixups = binpkg_fixup_pairs (mc_isdir m) (ie_listdir env m) BINPKG_FIXUP_DIR (ie_root env @ PKGDIR)
        in seq (do_all (swap_binpkg env) fixups)
             (if fixups \<noteq> []
              then emit_lines [''swapped '' @ nat_str (length fixups) @
                     '' quickpkg binpkg(s) for shipped real binpkgs (image-mutating preinst)'']
              else ret ())))"

definition provision_desktop :: "'o install_env \<Rightarrow> install_plan \<Rightarrow> ('o machine, unit) act" where
  "provision_desktop env plan =
     (if \<not> pl_desktop plan then ret ()
      else
        seq (looking (\<lambda>m. seq (emit_lines (overlay_notice m)) (pipeline (host_run env) (provision_steps env m))))
       (seq (desktop_files env plan)
       (seq (swap_binpkgs env) (mark_done ''provision_desktop''))))"

text \<open>The resume check the desktop steps share.\<close>

definition no_desktop_or_done :: "install_plan \<Rightarrow> string \<Rightarrow> 'o machine \<Rightarrow> install_error + bool" where
  "no_desktop_or_done plan k m = Inr (\<not> pl_desktop plan \<or> done_key (mc_store m) k)"

definition ProvisionDesktop :: "'o install_env \<Rightarrow> install_plan \<Rightarrow> ('o machine, install_error) install_step" where
  "ProvisionDesktop env plan =
     FuncStep ''Provision the Helm Desktop Environment'' (Some ''provision_desktop'') BASE_SYSTEM False
       (no_desktop_or_done plan ''provision_desktop'') (provision_desktop env plan)"

definition install_desktop_steps :: "'o install_env \<Rightarrow> install_plan \<Rightarrow> 'o machine \<Rightarrow> step list" where
  "install_desktop_steps env plan m =
     (if \<not> pl_desktop plan then []
      else if has_desktop_binpkg (ie_listdir env m) (ie_root env)
      then [Step ''refresh the binpkg index'' regen_binhost_argv,
            Step ''emerge the HeDE desktop'' (emerge_desktop_argv DESKTOP_ATOMS True)]
      else
        (if \<not> overlay_seeded (mc_isdir m) (ie_root env)
         then [Step ''install git for the overlay sync'' (emerge_tool_argv ''dev-vcs/git''),
               Step ''sync the Amphitheater overlay'' sync_overlay_argv] else [])
        @ [Step ''emerge the HeDE desktop'' (emerge_desktop_argv DESKTOP_ATOMS False)])"

definition InstallDesktop :: "'o install_env \<Rightarrow> install_plan \<Rightarrow> ('o machine, install_error) install_step" where
  "InstallDesktop env plan =
     CommandStep env ''Install the Helm Desktop Environment'' (Some ''install_desktop'') BASE_SYSTEM True
       (no_desktop_or_done plan ''install_desktop'') (\<lambda>m. Inr (install_desktop_steps env plan m))"

definition CleanupDesktopBinpkgs :: "'o install_env \<Rightarrow> install_plan \<Rightarrow> ('o machine, install_error) install_step" where
  "CleanupDesktopBinpkgs env plan =
     CommandStep env ''Clean up desktop binpkgs'' (Some ''cleanup_desktop_binpkgs'') BASE_SYSTEM False
       (no_desktop_or_done plan ''cleanup_desktop_binpkgs'')
       (\<lambda>m. Inr (if \<not> pl_desktop plan then []
                 else [Step ''remove transient binpkgs'' (cleanup_pkgdir_argv (ie_root env))]))"

section \<open>Properties\<close>

text \<open>A host whose commands do nothing but end, each with the code of its turn.\<close>

definition scripted :: "(nat \<Rightarrow> int) \<Rightarrow> 'o machine executor" where
  "scripted code m argv stdin = (m, [], Inr (RunResult (code (length (mc_log m))) []))"

lemma run_result_of_scripted:
  "run_result_of (target_run (env\<lparr>ie_host := scripted code\<rparr>)) argv m =
    (m\<lparr>mc_log := mc_log m @ [(''chroot'' # ie_root env # argv, None)]\<rparr>, [], Inr (RunResult (code (length (mc_log m))) []))"
  by (simp add: run_result_of_def target_run_def executor_for_def chroot_run_def host_run_def scripted_def)

text \<open>C8: The tree is synced within four commands. Whatever codes the commands end with, the step runs
  \<open>emerge --sync\<close> until it succeeds and at most three times, then \<open>emerge-webrsync\<close> once, and
  fails exactly when all four failed.\<close>

theorem sync_tree_bounded:
  "case is_run (SyncTree (env\<lparr>ie_host := scripted code\<rparr>)) m of
     (m', ev, r) \<Rightarrow>
       (let n = length (mc_log m);
            tries = (if code n = 0 then 1 else if code (n + 1) = 0 then 2 else 3);
            failed = (code n \<noteq> 0 \<and> code (n + 1) \<noteq> 0 \<and> code (n + 2) \<noteq> 0)
        in map (drop 2 \<circ> fst) (drop n (mc_log m')) = replicate tries SYNC @ (if failed then [WEBRSYNC] else []) \<and>
          (r = None) = (\<not> (failed \<and> code (n + 3) \<noteq> 0)))"
proof -
  have three: "SYNC_RETRIES = Suc (Suc (Suc 0))" by (simp add: SYNC_RETRIES_def)
  show ?thesis
    by (auto simp: SyncTree_def FuncStep_def sync_tree_def three act_bind_def emit_lines_def ret_def
        run_result_of_scripted numeral_eq_Suc split: if_splits)
qed

lemma runs_exit_zero [runs_intros]: "runs S (exit_zero what code)"
  unfolding exit_zero_def by (intro runs_intros)

lemma check_integrity_eq:
  "check_integrity env tarball digests filename m = (m', ev, r) \<Longrightarrow> m' = m \<and>
    (r = Inr () \<longrightarrow> (\<exists>data. read_text env m tarball = Inr data \<and>
      verify_hashes (ie_blake2b env) (ie_sha512 env) data (parse_digests digests filename)))"
  by (auto simp: check_integrity_def of_res_eq emit_lines_eq Let_def elim!: act_bindE split: sum.splits if_splits)

lemma make_workdir_log: "make_workdir env m = (m', ev, r) \<Longrightarrow> mc_log m' = mc_log m"
  by (auto simp: make_workdir_def Let_def split: if_splits)

lemma rmtree_log: "mc_log (rmtree_quiet env d m) = mc_log m"
  by (simp add: rmtree_quiet_def remove_tree_def Let_def)

lemma runs_check_signature: "runs (\<lambda>argv. argv = gpg_verify_argv sig tarball) (check_signature env sig_ok sig tarball)"
  unfolding check_signature_def by (intro runs_intros refl)

lemma unpack_tarball_log:
  "\<exists>ev r m'. unpack_tarball env tarball m = (m', ev, r) \<and>
    mc_log m' = mc_log m @ [(tar_unpack_argv tarball (ie_root env), None)]"
proof -
  let ?argv = "tar_unpack_argv tarball (ie_root env)"
  obtain m1 ev1 r1 where c: "run_command (host_run env) ?argv m = (m1, ev1, r1)"
    by (cases "run_command (host_run env) ?argv m")
  show ?thesis
    using run_command_log [OF c]
    by (cases r1) (auto simp: unpack_tarball_def act_bind_def emit_lines_def c exit_zero_def)
qed

text \<open>What runs once the gate is passed.\<close>

definition gate_passed :: "'o install_env \<Rightarrow> string \<Rightarrow> string \<Rightarrow> string \<Rightarrow> 'o machine \<Rightarrow> bool" where
  "gate_passed env tarball digests filename m =
     (case read_text env m tarball of
        Inl _ \<Rightarrow> False
      | Inr data \<Rightarrow> verify_hashes (ie_blake2b env) (ie_sha512 env) data (parse_digests digests filename))"

definition after_gate :: "'o install_env \<Rightarrow> string \<Rightarrow> bool \<Rightarrow> ('o machine, unit) act" where
  "after_gate env tarball sig_ok = seq (check_signature env sig_ok (tarball @ ''.asc'') tarball) (unpack_tarball env tarball)"

lemma stage3_body_runs:
  "runs_to (\<lambda>argv. hd argv \<noteq> ''tar'')
     (\<lambda>m m'. gate_passed env (path_join2 workdir (s3_filename sel)) digests (s3_filename sel) m \<and>
        (\<exists>sig_ok. m' = fst (after_gate env (path_join2 workdir (s3_filename sel)) sig_ok m)))
     (stage3_body env sel digests workdir)" (is "runs_to ?S ?Q _")
proof -
  let ?t = "path_join2 workdir (s3_filename sel)"
  have cmds: "?S (download_argv u d ''wget'' ''curl'')" for u d
    by (simp add: download_argv_def)
  have tail: "runs_to ?S ?Q (seq (check_integrity env ?t digests (s3_filename sel))
      (seq (check_signature env sig_ok (?t @ ''.asc'') ?t) (unpack_tarball env ?t)))" for sig_ok
    unfolding runs_to_def
  proof (intro allI)
    fix m
    let ?f = "seq (check_integrity env ?t digests (s3_filename sel))
      (seq (check_signature env sig_ok (?t @ ''.asc'') ?t) (unpack_tarball env ?t))"
    obtain m1 ev1 r1 where c: "check_integrity env ?t digests (s3_filename sel) m = (m1, ev1, r1)"
      by (cases "check_integrity env ?t digests (s3_filename sel) m")
    have "mc_log (fst (?f m)) = mc_log m \<or> ?Q m (fst (?f m))"
    proof (cases r1)
      case (Inr u)
      have "gate_passed env ?t digests (s3_filename sel) m" "m1 = m"
        using check_integrity_eq [OF c] Inr by (auto simp: gate_passed_def)
      moreover have "fst (?f m) = fst (after_gate env ?t sig_ok m1)"
        by (simp add: act_bind_def [of "check_integrity env ?t digests (s3_filename sel)"] c Inr after_gate_def split: prod.splits)
      ultimately show ?thesis by blast
    qed (use check_integrity_eq [OF c] in \<open>simp add: act_bind_def c\<close>)
    then show "\<exists>m1 cs. mc_log m1 = mc_log m @ cs \<and> list_all (\<lambda>c. ?S (fst c)) cs \<and>
        (mc_log (fst (?f m)) = mc_log m1 \<or> ?Q m1 (fst (?f m)))"
      by (intro exI [of _ m] exI [of _ "[]"]) simp
  qed
  show ?thesis
    unfolding stage3_body_def Let_def fetch_signature_def
    by (intro runs_to_bind tail runs_intros cmds)
qed

lemma after_gate_log:
  assumes "m' = fst (after_gate env tarball sig_ok m)"
  obtains cs where "mc_log m' = mc_log m @ cs" "list_all (\<lambda>c. fst c = gpg_verify_argv (tarball @ ''.asc'') tarball) cs"
  | cs where "mc_log m' = mc_log m @ cs @ [(tar_unpack_argv tarball (ie_root env), None)]"
    "list_all (\<lambda>c. fst c = gpg_verify_argv (tarball @ ''.asc'') tarball) cs"
proof -
  obtain m1 ev1 r1 where c: "check_signature env sig_ok (tarball @ ''.asc'') tarball m = (m1, ev1, r1)"
    by (cases "check_signature env sig_ok (tarball @ ''.asc'') tarball m")
  from runs_check_signature [of "tarball @ ''.asc''" tarball env sig_ok, unfolded runs_def, rule_format, of m] c
  obtain cs where cs: "mc_log m1 = mc_log m @ cs" "list_all (\<lambda>c. fst c = gpg_verify_argv (tarball @ ''.asc'') tarball) cs"
    by auto
  show thesis
  proof (cases r1)
    case (Inl e)
    then have "m' = m1" by (simp add: assms after_gate_def act_bind_def c)
    then show thesis using that(1) cs by simp
  next
    case (Inr u)
    obtain m2 ev r where u: "unpack_tarball env tarball m1 = (m2, ev, r)"
      "mc_log m2 = mc_log m1 @ [(tar_unpack_argv tarball (ie_root env), None)]"
      using unpack_tarball_log [of env tarball m1] by blast
    then have "m' = m2" by (simp add: assms after_gate_def act_bind_def c Inr)
    then show thesis using that(2) cs u(2) by simp
  qed
qed

text \<open>C5: The base system is unpacked only from a tarball that passed the integrity gate: if the step
  runs \<open>tar\<close> at all, it does so once, as its last command, into a valid target root, on the
  tarball of the plan in the step's own work directory; and the run went through a machine on
  which that tarball was read back with hashes equal to the ones published in the digests
  fetched for it, after which only the check of the signature and \<open>tar\<close> itself followed;
  whatever the commands, the mirror and the file system do in between.\<close>

theorem unpack_only_verified:
  assumes "is_run (UnpackStage3 env plan) m = (m', ev, r)"
    "c \<in> set (drop (length (mc_log m)) (mc_log m'))" "hd (fst c) = ''tar''"
  shows "c = last (mc_log m') \<and> valid_target_root (ie_root env) \<and>
    (\<exists>workdir digests m1 sig_ok. let tarball = path_join2 workdir (s3_filename (pl_stage3 plan))
      in fst c = tar_unpack_argv tarball (ie_root env) \<and>
         snd (fetch_text (ie_get env) (s3_digests_url (pl_stage3 plan)) m) = Inr digests \<and>
         gate_passed env tarball digests (s3_filename (pl_stage3 plan)) m1 \<and>
         m' = rmtree_quiet env workdir (fst (after_gate env tarball sig_ok m1)))"
proof -
  obtain r0 where run: "unpack_stage3 env plan m = (m', ev, r0)"
    using assms(1) by (auto simp: UnpackStage3_def FuncStep_def split: prod.splits)
  have same: "False" if "mc_log m' = mc_log m" using assms(2) that by simp
  let ?G = "\<lambda>digests. act_bind (make_workdir env) (\<lambda>workdir.
      finally_do (stage3_body env (pl_stage3 plan) digests workdir) (rmtree_quiet env workdir))"
  have v: "valid_target_root (ie_root env)"
    and "act_bind (fetch_action env (s3_digests_url (pl_stage3 plan))) ?G m = (m', ev, r0)"
    using run same by (auto simp: unpack_stage3_def guard_target_root_def guard_def split: if_splits)
  from this(2) same obtain digests m1 ev1 ev0 where
    f: "fetch_action env (s3_digests_url (pl_stage3 plan)) m = (m1, ev0, Inr digests)" and b: "?G digests m1 = (m', ev1, r0)"
    by (cases rule: act_bindE) (auto simp: fetch_action_def split: prod.splits)
  have l1: "mc_log m1 = mc_log m" and d: "snd (fetch_text (ie_get env) (s3_digests_url (pl_stage3 plan)) m) = Inr digests"
    using f by (auto simp: fetch_action_def split: prod.splits sum.splits)
  from b same l1 obtain workdir m2 ev2 where w: "mc_log m2 = mc_log m"
    and fin: "finally_do (stage3_body env (pl_stage3 plan) digests workdir) (rmtree_quiet env workdir) m2 = (m', ev2, r0)"
    by (cases rule: act_bindE) (auto dest: make_workdir_log)
  let ?t = "path_join2 workdir (s3_filename (pl_stage3 plan))" and ?b = "fst (stage3_body env (pl_stage3 plan) digests workdir m2)"
  have "m' = rmtree_quiet env workdir ?b"
    using fin by (simp add: finally_do_def split: prod.splits)
  note m' = this arg_cong [OF this, of mc_log, unfolded rmtree_log]
  from stage3_body_runs [of env workdir "pl_stage3 plan" digests, unfolded runs_to_def, rule_format, of m2] w
  obtain m3 cs where m3: "mc_log m3 = mc_log m @ cs" "list_all (\<lambda>c. hd (fst c) \<noteq> ''tar'') cs"
    and "mc_log ?b = mc_log m3 \<or> gate_passed env ?t digests (s3_filename (pl_stage3 plan)) m3 \<and>
      (\<exists>sig_ok. ?b = fst (after_gate env ?t sig_ok m3))" by auto
  moreover have "mc_log ?b \<noteq> mc_log m3"
    using assms(2,3) m3 m'(2) by (auto simp: list_all_iff)
  ultimately obtain sig_ok where g: "gate_passed env ?t digests (s3_filename (pl_stage3 plan)) m3"
    and e: "?b = fst (after_gate env ?t sig_ok m3)" by blast
  have gpg: "hd (gpg_verify_argv u d) \<noteq> ''tar''" for u d by (simp add: gpg_verify_argv_def)
  have "c = last (mc_log m') \<and> c = (tar_unpack_argv ?t (ie_root env), None)"
    using e
  proof (cases rule: after_gate_log)
    case (1 cs')
    then show ?thesis using assms(2,3) m3 m'(2) gpg by (auto simp: list_all_iff)
  next
    case (2 cs')
    then show ?thesis using assms(2,3) m3 m'(2) gpg by (auto simp: list_all_iff)
  qed
  then show ?thesis using v d g e m'(1) unfolding Let_def by (metis fst_conv)
qed

section \<open>A run on a small machine\<close>

definition demo_plan :: install_plan where
  "demo_plan =
     \<lparr>pl_disk = \<lparr>dp_disk = ''/dev/sda'', dp_wipe = True, dp_partitions = [], dp_filesystems = []\<rparr>,
      pl_mount = \<lparr>mp_root = ''/mnt/gentoo'', mp_mounts = [], mp_swap = []\<rparr>,
      pl_stage3 = \<lparr>s3_url = ''https://m/s.tar.xz'', s3_filename = ''s.tar.xz'', s3_size = 1,
                   s3_digests_url = ''https://m/s.tar.xz.DIGESTS'', s3_signature_url = ''https://m/s.tar.xz.asc''\<rparr>,
      pl_kernel = \<lparr>bc_method = ''make'', bc_source_dir = ''/usr/src/linux'', bc_jobs = 4, bc_kernel_config = [],
                   bc_initramfs = False, bc_kver = [], bc_plymouth = False\<rparr>,
      pl_bootloader = \<lparr>ic_firmware = ''uefi'', ic_efi_directory = ''/boot'', ic_bootloader_id = ''gentoo'', ic_removable = False,
                       ic_disk = [], ic_boot_directory = ''/boot'', ic_regenerate = True, ic_seamless = False, ic_root = []\<rparr>,
      pl_hostname = ''box'', pl_timezone = ''Europe/Paris'', pl_locale = ''en_US.UTF-8'', pl_keymap = ''us'', pl_arch = ''amd64'',
      pl_profile = ''default/linux/amd64/23.0'', pl_root_password = True,
      pl_users = [\<lparr>up_name = ''ann'', up_comment = [], up_shell = ''/bin/bash'', up_wheel = True, up_set_password = True\<rparr>],
      pl_network = \<lparr>nw_dhcp = True, nw_interface = [], nw_address = [], nw_gateway = [], nw_nameservers = []\<rparr>,
      pl_binary_pref = True, pl_tier2 = [''sshd''], pl_desktop = False,
      pl_gpu = \<lparr>gp_video_cards = [''intel''], gp_nvidia_proprietary = False, gp_kernel_open = False, gp_nvidia_slot = []\<rparr>,
      pl_license = ''libre'', pl_admin_model = ''traditional'', pl_escalator = ''sudo'', pl_clock = ''chrony'', pl_global_use = [],
      pl_gentoo_mirrors = [], pl_sync_uri = [], pl_sync_type = [], pl_make_conf_overrides = []\<rparr>"

definition demo_machine :: "unit machine" where
  "demo_machine =
     \<lparr>mc_files = (\<lambda>_. None), mc_links = (\<lambda>_. None), mc_isdir = (\<lambda>p. p = ''/mnt/gentoo''), mc_ismount = (\<lambda>_. False),
      mc_session = \<lparr>se_files = (\<lambda>_. None), se_isdir = (\<lambda>p. p = ''/mnt/gentoo''), se_cfg = [], se_tmp = ''/run/tmp'', se_fault = (\<lambda>_. False)\<rparr>,
      mc_store = \<lparr>ss_done = [], ss_root = Some ''/mnt/gentoo'', ss_run_dir = ''/run/gest''\<rparr>, mc_log = [], mc_rest = ()\<rparr>"

text \<open>The host downloads: \<open>wget\<close> leaves the file it was asked for. Every command succeeds.\<close>

definition demo_host :: "unit machine executor" where
  "demo_host m argv stdin =
     (if hd argv = ''wget'' then m\<lparr>mc_files := (mc_files m)(argv ! 3 \<mapsto> (''good'', MODE_644))\<rparr> else m, [], Inr (RunResult 0 []))"

definition demo_digests :: string where
  "demo_digests = digests_text [Listed ''BLAKE2B'' ''0123456789ABCDEF'' ''s.tar.xz'', Listed ''SHA512'' ''00000000000000ff'' ''s.tar.xz'']"

definition demo_env :: "unit install_env" where
  "demo_env =
     \<lparr>ie_root = ''/mnt/gentoo'', ie_host = demo_host, ie_get = (\<lambda>m url. (m, Inr demo_digests)),
      ie_fault = (\<lambda>m p op. False), ie_random = (\<lambda>m p. ''x''), ie_partial = [], ie_unreadable = (\<lambda>m p. False),
      ie_oserror = (\<lambda>m p. False), ie_undeleted = (\<lambda>m p. False), ie_listdir = (\<lambda>m p. None), ie_lsblk = (\<lambda>m p. []),
      ie_uuids = [], ie_devices = [], ie_mounts = [], ie_cpus = Some 4, ie_cpuid = None, ie_resource = (\<lambda>_. None),
      ie_blake2b = (\<lambda>d. if d = ''good'' then ''0123456789abcdef'' else ''bad''), ie_sha512 = (\<lambda>d. ''00000000000000ff'')\<rparr>"

theorem unpack_only_verified_witness:
  "\<exists>m' ev r c. is_run (UnpackStage3 demo_env demo_plan) demo_machine = (m', ev, r) \<and> hd (fst c) = ''tar'' \<and> c = last (mc_log m') \<and>
     valid_target_root (ie_root demo_env)"
proof -
  obtain m' ev r where run: "is_run (UnpackStage3 demo_env demo_plan) demo_machine = (m', ev, r)"
    by (cases "is_run (UnpackStage3 demo_env demo_plan) demo_machine")
  let ?c = "(tar_unpack_argv ''/mnt/gentoo/.gest-stage3-x/s.tar.xz'' ''/mnt/gentoo'', None)"
  have "list_ex (\<lambda>c. c = ?c) (drop (length (mc_log demo_machine)) (mc_log (fst (is_run (UnpackStage3 demo_env demo_plan) demo_machine))))"
    by code_simp
  then have c: "?c \<in> set (drop (length (mc_log demo_machine)) (mc_log m'))" by (auto simp: run list_ex_iff)
  have "hd (fst ?c) = ''tar''" by code_simp
  with unpack_only_verified [OF run c this] run show ?thesis by blast
qed

end
