(* ===== verification/BootSteps.thy ===== *)
theory BootSteps
  imports BaseSteps Bootloader UsersCommands
begin

text \<open>
  The steps of \<open>gest/core/install/registry.py\<close> that make the target boot: kernel sources and
  configuration, the kernel, graphics drivers, the hibernate argument, GRUB and the Apple boot
  stub; and the accounts, whose passwords reach the commands on standard input only.
\<close>

section \<open>Emerging packages\<close>

definition emerge_argv :: "install_plan \<Rightarrow> string list \<Rightarrow> (string \<times> string) list \<Rightarrow> string list" where
  "emerge_argv plan atoms vars =
     (let argv = [''emerge''] @ (if pl_binary_pref plan then [''--getbinpkg''] else [])
            @ [''--color'', ''n'', ''--noreplace''] @ atoms
      in if vars \<noteq> [] then [''env''] @ map (\<lambda>(k, v). k @ ''='' @ v) vars @ argv else argv)"

section \<open>The kernel\<close>

definition kernel_sources_steps :: "install_plan \<Rightarrow> step list res" where
  "kernel_sources_steps plan =
     res_bind (set_argv ''kernel'' ''1'' ''eselect'') (\<lambda>select. Inr
       ([Step ''emerge gentoo-sources'' (emerge_argv plan [''sys-kernel/gentoo-sources''] [])]
        @ (if bc_method (pl_kernel plan) = ''genkernel''
           then [Step ''emerge genkernel'' (emerge_argv plan [''sys-kernel/genkernel'']
                   (if pl_license plan = ''libre'' then [(''USE'', ''-firmware'')] else []))] else [])
        @ [Step ''select /usr/src/linux'' select]))"

definition InstallKernelSources :: "'o install_env \<Rightarrow> install_plan \<Rightarrow> ('o machine, install_error) install_step" where
  "InstallKernelSources env plan =
     CommandStep env ''Install kernel sources'' (Some ''install_kernel_sources'') KERNEL_BOOT True
       (is_done ''install_kernel_sources'') (\<lambda>m. kernel_sources_steps plan)"

definition stage_kernel_config :: "'o install_env \<Rightarrow> install_plan \<Rightarrow> ('o machine, unit) act" where
  "stage_kernel_config env plan =
     (let cfg = bc_kernel_config (pl_kernel plan)
      in if cfg = [] then ret ()
         else (case bundled_config (ie_resource env) (pl_arch plan) of
             None \<Rightarrow> ret ()
           | Some data \<Rightarrow>
               act_bind (write_file env cfg data MODE_644) (\<lambda>path.
                 seq (emit_lines [''staged the '' @ pl_arch plan @ '' kernel config '' @ ARROW @ '' '' @ path])
                   (mark_done ''stage_kernel_config''))))"

definition StageKernelConfig :: "'o install_env \<Rightarrow> install_plan \<Rightarrow> ('o machine, install_error) install_step" where
  "StageKernelConfig env plan =
     FuncStep ''Stage the kernel config'' (Some ''stage_kernel_config'') KERNEL_BOOT False
       (\<lambda>m. Inr (bc_kernel_config (pl_kernel plan) = [] \<or> done_key (mc_store m) ''stage_kernel_config''))
       (stage_kernel_config env plan)"

definition BuildKernel :: "'o install_env \<Rightarrow> install_plan \<Rightarrow> ('o machine, install_error) install_step" where
  "BuildKernel env plan =
     CommandStep env ''Build the kernel'' (Some ''build_kernel'') KERNEL_BOOT True (is_done ''build_kernel'')
       (\<lambda>m. build_steps (ie_cpus env) (pl_kernel plan))"

section \<open>Graphics drivers\<close>

definition GRUB_DEFAULT :: string where
  "GRUB_DEFAULT = ''/etc/default/grub''"

definition gpu_files :: "'o install_env \<Rightarrow> gpu_spec \<Rightarrow> ('o machine, unit) act" where
  "gpu_files env spec =
     act_bind (write_file env PACKAGE_LICENSE (package_license spec) MODE_644) (\<lambda>lic.
     seq (emit_lines [''wrote '' @ lic])
    (seq (if gpu_package_use spec \<noteq> []
          then act_bind (write_file env GPU_PACKAGE_USE (gpu_package_use spec) MODE_644) (\<lambda>up.
            emit_lines [''wrote '' @ up @ '' (nvidia-drivers[kernel-open])''])
          else ret ())
         (if package_unmask spec \<noteq> []
          then act_bind (write_file env PACKAGE_UNMASK (package_unmask spec) MODE_644) (\<lambda>un.
            emit_lines [''wrote '' @ un @ '' (legacy nvidia-drivers:'' @ gp_nvidia_slot spec @ '')''])
          else ret ())))"

definition gpu_emerge_steps :: "install_plan \<Rightarrow> step list" where
  "gpu_emerge_steps plan =
     map (\<lambda>atom. Step (''emerge '' @ atom) (emerge_argv plan [atom] [])) (driver_atoms (pl_gpu plan))
     @ (if gp_nvidia_proprietary (pl_gpu plan)
        then [Step ''rebuild external kernel modules'' [''emerge'', ''--color'', ''n'', ''@module-rebuild'']] else [])"

definition rebake_initramfs :: "'o install_env \<Rightarrow> install_plan \<Rightarrow> ('o machine, unit) act" where
  "rebake_initramfs env plan =
     (if gp_nvidia_proprietary (pl_gpu plan)
      then act_bind (write_file env MODPROBE_CONF modprobe_conf MODE_644) (\<lambda>path.
        seq (emit_lines [''wrote '' @ path @ '' (nvidia_drm KMS + nouveau blacklist)''])
          (act_bind (of_res (build_step ''re-bake the initramfs with the NVIDIA module (early KMS)''
             (genkernel_argv [] (bc_plymouth (pl_kernel plan)) ''initramfs'' ''genkernel''))) (\<lambda>s.
             pipeline (target_run env) [s])))
      else ret ())"

text \<open>Reading and rewriting the target's GRUB defaults, as two steps do.\<close>

definition edit_grub_default :: "'o install_env \<Rightarrow> (string \<Rightarrow> string) \<Rightarrow> string \<Rightarrow> ('o machine, unit) act" where
  "edit_grub_default env edit note =
     looking (\<lambda>m. act_bind
       (write_file env GRUB_DEFAULT (edit (text_or_empty env m (resolve (ie_root env) GRUB_DEFAULT))) MODE_644) (\<lambda>path.
          emit_lines [''wrote '' @ path @ '' ('' @ note @ '')'']))"

definition install_gpu_drivers :: "'o install_env \<Rightarrow> install_plan \<Rightarrow> ('o machine, unit) act" where
  "install_gpu_drivers env plan =
     (let spec = pl_gpu plan
      in if pl_license plan = ''libre''
         then seq (emit_lines [''Libre license '' @ EMDASH @ '' skipping firmware + proprietary drivers''])
                (mark_done ''install_gpu_drivers'')
         else
           seq (gpu_files env spec)
          (seq (pipeline (target_run env) (gpu_emerge_steps plan))
          (seq (rebake_initramfs env plan)
          (seq (if kernel_cmdline spec \<noteq> []
                then edit_grub_default env (\<lambda>t. apply_gpu_cmdline t spec) ''nouveau blacklist + nvidia_drm.modeset cmdline''
                else ret ())
               (mark_done ''install_gpu_drivers'')))))"

definition InstallGpuDrivers :: "'o install_env \<Rightarrow> install_plan \<Rightarrow> ('o machine, install_error) install_step" where
  "InstallGpuDrivers env plan =
     FuncStep ''Install GPU drivers & firmware'' (Some ''install_gpu_drivers'') KERNEL_BOOT False
       (is_done ''install_gpu_drivers'') (install_gpu_drivers env plan)"

section \<open>The boot configuration\<close>

definition swap_uuid_of :: "'o install_env \<Rightarrow> 'o machine \<Rightarrow> string \<Rightarrow> string" where
  "swap_uuid_of env m device =
     (if ie_uuids env \<noteq> [] then (case map_of (ie_uuids env) device of None \<Rightarrow> [] | Some u \<Rightarrow> u)
      else device_uuid env m device)"

definition configure_resume :: "'o install_env \<Rightarrow> install_plan \<Rightarrow> ('o machine, unit) act" where
  "configure_resume env plan =
     seq (case mp_swap (pl_mount plan) of
            [] \<Rightarrow> emit_lines [''no swap in the layout '' @ EMDASH @ '' nothing to resume from'']
          | device # _ \<Rightarrow>
              looking (\<lambda>m.
                (let uuid = swap_uuid_of env m device
                 in if uuid = []
                    then emit_lines [''could not resolve swap UUID for '' @ device @ '' '' @ EMDASH @ '' skipping resume='']
                    else edit_grub_default env (\<lambda>t. apply_resume_cmdline t uuid) (''resume=UUID='' @ uuid))))
       (mark_done ''configure_hibernate_resume'')"

definition ConfigureHibernateResume :: "'o install_env \<Rightarrow> install_plan \<Rightarrow> ('o machine, install_error) install_step" where
  "ConfigureHibernateResume env plan =
     FuncStep ''Configure hibernate resume'' (Some ''configure_hibernate_resume'') KERNEL_BOOT False
       (is_done ''configure_hibernate_resume'') (configure_resume env plan)"

text \<open>\<open>install_steps\<close> reads the GRUB defaults in the installer's own process, at the path it will
  have inside the target.\<close>

definition bootloader_steps :: "'o install_env \<Rightarrow> install_plan \<Rightarrow> 'o machine \<Rightarrow> step list res" where
  "bootloader_steps env plan m =
     (let uefi = (ic_firmware (pl_bootloader plan) = ''uefi'');
          atoms = [''sys-boot/grub''] @ (if uefi then [''sys-boot/efibootmgr''] else [])
      in res_bind (install_steps (\<lambda>p. case read_text env m p of Inl _ \<Rightarrow> None | Inr t \<Rightarrow> Some t)
           (pl_bootloader plan) (pl_arch plan)) (\<lambda>steps.
         Inr (Step ''emerge the bootloader'' (emerge_argv plan atoms
                [(''GRUB_PLATFORMS'', if uefi then ''efi-64'' else ''pc'')]) # steps)))"

definition InstallBootloader :: "'o install_env \<Rightarrow> install_plan \<Rightarrow> ('o machine, install_error) install_step" where
  "InstallBootloader env plan =
     CommandStep env ''Install the bootloader'' (Some ''install_bootloader'') KERNEL_BOOT True
       (is_done ''install_bootloader'') (bootloader_steps env plan)"

definition boot_stub_steps :: "install_plan \<Rightarrow> step list res" where
  "boot_stub_steps plan =
     (if pl_arch plan \<noteq> ''arm64'' then Inr []
      else res_bind (update_m1n1_argv (default_boot_bin (ic_efi_directory (pl_bootloader plan)))) (\<lambda>argv.
        Inr [Step ''write m1n1 boot stub'' argv]))"

definition InstallBootStub :: "'o install_env \<Rightarrow> install_plan \<Rightarrow> ('o machine, install_error) install_step" where
  "InstallBootStub env plan =
     CommandStep env ''Install the m1n1 boot stub'' (Some ''install_boot_stub'') KERNEL_BOOT True
       (\<lambda>m. Inr (pl_arch plan \<noteq> ''arm64'' \<or> done_key (mc_store m) ''install_boot_stub''))
       (\<lambda>m. boot_stub_steps plan)"

section \<open>Accounts\<close>

definition password_step :: "string \<Rightarrow> string \<Rightarrow> string \<Rightarrow> step res" where
  "password_step label name password =
     res_bind (chpasswd_input name password ''chpasswd'') (\<lambda>(argv, stdin).
       Inr \<lparr>st_label = label, st_argv = argv, st_stdin = Some stdin\<rparr>)"

definition root_password_steps :: "string option \<Rightarrow> step list res" where
  "root_password_steps secret =
     (case secret of
        None \<Rightarrow> Inl (ValueError ''no root-password secret supplied to SetRootPassword'')
      | Some pw \<Rightarrow> res_bind (password_step ''set root password'' ''root'' pw) (\<lambda>s. Inr [s]))"

definition SetRootPassword ::
    "'o install_env \<Rightarrow> install_plan \<Rightarrow> string option \<Rightarrow> ('o machine, install_error) install_step" where
  "SetRootPassword env plan secret =
     CommandStep env ''Set the root password'' None USERS_NETWORK True (\<lambda>m. Inr (\<not> pl_root_password plan))
       (\<lambda>m. root_password_steps secret)"

definition device_groups_script :: "string \<Rightarrow> string" where
  "device_groups_script name =
     ''for g in video input audio render; do getent group \"$g\" '' @
     ''>/dev/null && gpasswd -a '' @ name @ '' \"$g\"; done''"

definition user_steps :: "install_plan \<Rightarrow> user_spec \<Rightarrow> step list res" where
  "user_steps plan user =
     res_bind (useradd_argv (up_name user) (up_comment user) (up_shell user) [] [] False ''useradd'') (\<lambda>add.
     res_bind (if up_wheel user
               then res_bind (gpasswd_argv ''wheel'' (up_name user) True ''gpasswd'') (\<lambda>argv.
                      Inr [Step (''add '' @ up_name user @ '' to wheel'') argv])
               else Inr []) (\<lambda>wheel.
       Inr ([Step (''create user '' @ up_name user) add] @ wheel
         @ (if pl_desktop plan
            then [Step (''add '' @ up_name user @ '' to the desktop device groups'')
                    [''sh'', ''-c'', device_groups_script (up_name user)]] else []))))"

definition create_user_steps :: "install_plan \<Rightarrow> step list res" where
  "create_user_steps plan = res_bind (res_map (user_steps plan) (pl_users plan)) (\<lambda>ss. Inr (concat ss))"

text \<open>The names in the first field of each line, with the line break kept where a line has no
  colon.\<close>

fun passwd_names :: "string list \<Rightarrow> string list" where
  "passwd_names [] = []"
| "passwd_names [l] = (if l = [] then [] else [before_char (CHR '':'') l])"
| "passwd_names (l # l' # ls) =
     (if CHR '':'' \<in> set l then before_char (CHR '':'') l else l @ [LF]) # passwd_names (l' # ls)"

definition users_created :: "'o install_env \<Rightarrow> install_plan \<Rightarrow> 'o machine \<Rightarrow> install_error + bool" where
  "users_created env plan m =
     (if pl_users plan = [] then Inr True
      else (case read_text env m (resolve (ie_root env) ''/etc/passwd'') of
          Inl _ \<Rightarrow> Inr False
        | Inr s \<Rightarrow> Inr (list_all (\<lambda>u. up_name u \<in> set (passwd_names (split_char LF s))) (pl_users plan))))"

definition CreateUser :: "'o install_env \<Rightarrow> install_plan \<Rightarrow> ('o machine, install_error) install_step" where
  "CreateUser env plan =
     CommandStep env ''Create user accounts'' None USERS_NETWORK True (users_created env plan)
       (\<lambda>m. create_user_steps plan)"

definition user_password_steps :: "install_plan \<Rightarrow> (string \<times> string) list \<Rightarrow> step list res" where
  "user_password_steps plan secrets =
     res_map (\<lambda>user. case map_of secrets (up_name user) of
         None \<Rightarrow> Inl (ValueError (''no password secret supplied for user '' @ py_repr (up_name user)))
       | Some pw \<Rightarrow> password_step (''set '' @ up_name user @ [SQUOTE] @ ''s password'') (up_name user) pw)
       (filter up_set_password (pl_users plan))"

definition SetUserPassword ::
    "'o install_env \<Rightarrow> install_plan \<Rightarrow> (string \<times> string) list \<Rightarrow> ('o machine, install_error) install_step" where
  "SetUserPassword env plan secrets =
     CommandStep env ''Set user passwords'' None USERS_NETWORK True
       (\<lambda>m. Inr (\<not> list_ex up_set_password (pl_users plan))) (\<lambda>m. user_password_steps plan secrets)"

end
