(* ===== verification/ConfigSteps.thy ===== *)
theory ConfigSteps
  imports BootSteps Settings NetworkService Firewall Sshd
    Privilege Sysctl
begin

text \<open>
  The steps of \<open>gest/core/install/registry.py\<close> that configure the installed system: time zone,
  locale, host name, console, network, desktop session, clock, the administration model and the
  optional modules. Their files are written below the target root on the host, their commands
  run in the chroot.
\<close>

section \<open>Time zone and locale\<close>

definition ZONEINFO :: string where
  "ZONEINFO = ''/usr/share/zoneinfo''"

definition link_localtime :: "'o install_env \<Rightarrow> string \<Rightarrow> ('o machine, unit) act" where
  "link_localtime env zone =
     (let localtime = resolve (ie_root env) ''/etc/localtime''; tmp = resolve (ie_root env) ''/etc/.gest.localtime''
      in seq (makedirs_for env localtime)
        (seq (unlink_quiet env tmp)
        (seq (make_link env (ZONEINFO @ ''/'' @ zone) tmp) (os_replace env tmp localtime))))"

definition write_locale :: "'o install_env \<Rightarrow> string \<Rightarrow> ('o machine, unit) act" where
  "write_locale env locl =
     act_bind (write_file env ''/etc/env.d/02locale'' (''LANG='' @ [DQUOTE] @ locl @ [DQUOTE, LF]) MODE_644) (\<lambda>_.
     act_bind (write_file env ''/etc/locale.conf'' (''LANG='' @ locl @ [LF]) MODE_644) (\<lambda>_.
       (case locale_gen_line locl of
          None \<Rightarrow> ret ()
        | Some line \<Rightarrow> act_bind (write_file env ''/etc/locale.gen'' (line @ [LF]) MODE_644) (\<lambda>_. ret ()))))"

definition set_timezone_locale :: "'o install_env \<Rightarrow> install_plan \<Rightarrow> ('o machine, unit) act" where
  "set_timezone_locale env plan =
     (let zone = pl_timezone plan; locl = pl_locale plan
      in if \<not> valid_zone_name zone then raise (ValueError (''invalid timezone: '' @ py_repr zone))
         else
           act_bind (write_file env ''/etc/timezone'' (zone @ [LF]) MODE_644) (\<lambda>_.
           seq (link_localtime env zone)
          (if \<not> valid_locale locl then raise (ValueError (''invalid locale: '' @ py_repr locl))
           else seq (write_locale env locl) (emit_lines [''timezone '' @ zone @ '', locale '' @ locl]))))"

definition timezone_locale_set :: "'o install_env \<Rightarrow> install_plan \<Rightarrow> 'o machine \<Rightarrow> install_error + bool" where
  "timezone_locale_set env plan m =
     (case read_text env m (resolve (ie_root env) ''/etc/timezone'') of
        Inl _ \<Rightarrow> Inr False
      | Inr s \<Rightarrow> Inr (strip s = pl_timezone plan \<and> path_exists m (resolve (ie_root env) ''/etc/locale.conf'')))"

definition SetTimezoneLocale :: "'o install_env \<Rightarrow> install_plan \<Rightarrow> ('o machine, install_error) install_step" where
  "SetTimezoneLocale env plan =
     FuncStep ''Set timezone and locale'' None CONFIGURE False (timezone_locale_set env plan)
       (set_timezone_locale env plan)"

definition GenerateLocale :: "'o install_env \<Rightarrow> ('o machine, install_error) install_step" where
  "GenerateLocale env =
     CommandStep env ''Generate the locale'' (Some ''generate_locale'') CONFIGURE True (is_done ''generate_locale'')
       (\<lambda>m. Inr [Step ''locale-gen'' [''locale-gen'']])"

section \<open>Host name and console\<close>

definition set_hostname :: "'o install_env \<Rightarrow> install_plan \<Rightarrow> ('o machine, unit) act" where
  "set_hostname env plan =
     (let name = pl_hostname plan
      in if \<not> valid_hostname name then raise (ValueError (''invalid hostname: '' @ py_repr name))
         else
           act_bind (write_file env ''/etc/hostname'' (name @ [LF]) MODE_644) (\<lambda>_.
           act_bind (write_file env ''/etc/conf.d/hostname'' (''hostname='' @ [DQUOTE] @ name @ [DQUOTE, LF]) MODE_644)
             (\<lambda>path. emit_lines [''wrote /etc/hostname + '' @ path])))"

definition hostname_set :: "'o install_env \<Rightarrow> install_plan \<Rightarrow> 'o machine \<Rightarrow> install_error + bool" where
  "hostname_set env plan m =
     (case read_text env m (resolve (ie_root env) ''/etc/hostname'') of
        Inl _ \<Rightarrow> Inr False
      | Inr s \<Rightarrow>
          if strip s \<noteq> pl_hostname plan then Inr False
          else (case read_text env m (resolve (ie_root env) ''/etc/conf.d/hostname'') of
              Inl _ \<Rightarrow> Inr False
            | Inr s \<Rightarrow> Inr (parse_conf_hostname s = pl_hostname plan)))"

definition SetHostname_step :: "'o install_env \<Rightarrow> install_plan \<Rightarrow> ('o machine, install_error) install_step" where
  "SetHostname_step env plan =
     FuncStep ''Set the hostname'' None CONFIGURE False (hostname_set env plan) (set_hostname env plan)"

definition set_console :: "'o install_env \<Rightarrow> install_plan \<Rightarrow> ('o machine, unit) act" where
  "set_console env plan =
     (let keymap = pl_keymap plan
      in if \<not> valid_keymap keymap then raise (ValueError (''invalid keymap: '' @ py_repr keymap))
         else
           act_bind (write_file env ''/etc/vconsole.conf'' (''KEYMAP='' @ keymap @ [LF]) MODE_644) (\<lambda>_.
           looking (\<lambda>m. act_bind
             (write_file env KEYMAPS_CONF
                (set_conf_value (text_or_empty env m (resolve (ie_root env) KEYMAPS_CONF)) ''keymap'' keymap) MODE_644)
             (\<lambda>written. emit_lines [''wrote /etc/vconsole.conf + '' @ written]))))"

definition console_set :: "'o install_env \<Rightarrow> install_plan \<Rightarrow> 'o machine \<Rightarrow> install_error + bool" where
  "console_set env plan m =
     (case read_text env m (resolve (ie_root env) KEYMAPS_CONF) of
        Inl _ \<Rightarrow> Inr False
      | Inr s \<Rightarrow> Inr (parse_conf_value s ''keymap'' = pl_keymap plan))"

definition SetConsole :: "'o install_env \<Rightarrow> install_plan \<Rightarrow> ('o machine, install_error) install_step" where
  "SetConsole env plan =
     FuncStep ''Set the console keymap'' None CONFIGURE False (console_set env plan) (set_console env plan)"

section \<open>The network of the installed system\<close>

definition nm_keyfile :: "network_spec \<Rightarrow> string" where
  "nm_keyfile net =
     (let iface = nw_interface net
      in ''[connection]'' @ [LF] @ ''id='' @ iface @ [LF] @ ''type=ethernet'' @ [LF] @ ''interface-name='' @ iface
         @ [LF, LF] @ ''[ipv4]'' @ [LF] @ ''method=manual'' @ [LF]
         @ ''address1='' @ nw_address net @ '','' @ nw_gateway net @ [LF]
         @ (if nw_nameservers net \<noteq> [] then ''dns='' @ join '';'' (nw_nameservers net) @ '';'' @ [LF] else [])
         @ [LF] @ ''[ipv6]'' @ [LF] @ ''method=auto'' @ [LF])"

definition static_network :: "network_spec \<Rightarrow> bool" where
  "static_network net = (nw_interface net \<noteq> [] \<and> \<not> nw_dhcp net)"

definition networkmanager :: "'o install_env \<Rightarrow> install_plan \<Rightarrow> ('o machine, step list) act" where
  "networkmanager env plan =
     (let net = pl_network plan
      in seq (if static_network net
              then act_bind (write_file env (''/etc/NetworkManager/system-connections/'' @ nw_interface net @ ''.nmconnection'')
                     (nm_keyfile net) MODE_644) (\<lambda>p. chmod_quiet env p MODE_600)
              else ret ())
           (ret [Step ''emerge NetworkManager'' (emerge_argv plan [''net-misc/networkmanager''] []),
                 Step ''enable NetworkManager'' [''systemctl'', ''enable'', ''NetworkManager'']]))"

definition networkd_unit :: "network_spec \<Rightarrow> string" where
  "networkd_unit net =
     (if static_network net
      then ''[Match]'' @ [LF] @ ''Name='' @ nw_interface net @ [LF, LF] @ ''[Network]'' @ [LF]
         @ ''Address='' @ nw_address net @ [LF] @ ''Gateway='' @ nw_gateway net @ [LF]
         @ concat (map (\<lambda>s. ''DNS='' @ s @ [LF]) (nw_nameservers net))
      else ''[Match]'' @ [LF] @ ''Name=en* eth*'' @ [LF, LF] @ ''[Network]'' @ [LF] @ ''DHCP=yes'' @ [LF])"

definition networkd :: "'o install_env \<Rightarrow> install_plan \<Rightarrow> ('o machine, step list) act" where
  "networkd env plan =
     (let link = resolve (ie_root env) ''/etc/resolv.conf''
      in act_bind (write_file env ''/etc/systemd/network/20-gest.network'' (networkd_unit (pl_network plan)) MODE_644) (\<lambda>_.
         seq (makedirs_for env link)
        (seq (unlink_quiet env link)
        (seq (make_link env ''/run/systemd/resolve/stub-resolv.conf'' link)
          (ret [Step ''enable systemd-networkd'' [''systemctl'', ''enable'', ''systemd-networkd''],
                Step ''enable systemd-resolved'' [''systemctl'', ''enable'', ''systemd-resolved'']])))))"

definition configure_network :: "'o install_env \<Rightarrow> install_plan \<Rightarrow> ('o machine, unit) act" where
  "configure_network env plan =
     (let net = pl_network plan
      in if static_network net \<and> \<not> valid_address (nw_address net)
         then raise (ValueError (''invalid interface address: '' @ py_repr (nw_address net)))
         else if static_network net \<and> \<not> valid_gateway (nw_gateway net)
         then raise (ValueError (''invalid gateway: '' @ py_repr (nw_gateway net)))
         else
           act_bind (write_file env ''/etc/hosts'' (render_hosts (default_hosts (pl_hostname plan))) MODE_644) (\<lambda>_.
           act_bind (if pl_desktop plan then networkmanager env plan else networkd env plan) (\<lambda>steps.
           seq (pipeline (target_run env) steps)
          (seq (emit_lines [''network configured ('' @ (if pl_desktop plan then ''NetworkManager'' else ''systemd-networkd'') @ '')''])
               (mark_done ''configure_network'')))))"

definition ConfigureNetwork :: "'o install_env \<Rightarrow> install_plan \<Rightarrow> ('o machine, install_error) install_step" where
  "ConfigureNetwork env plan =
     FuncStep ''Configure the network'' (Some ''configure_network'') USERS_NETWORK False (is_done ''configure_network'')
       (configure_network env plan)"

section \<open>Desktop session and clock\<close>

definition session_user :: "install_plan \<Rightarrow> string" where
  "session_user plan =
     (case map up_name (filter up_wheel (pl_users plan)) of
        u # _ \<Rightarrow> u
      | [] \<Rightarrow> (case map up_name (pl_users plan) of u # _ \<Rightarrow> u | [] \<Rightarrow> ''root''))"

definition enable_session :: "'o install_env \<Rightarrow> install_plan \<Rightarrow> ('o machine, unit) act" where
  "enable_session env plan =
     (if \<not> pl_desktop plan then ret ()
      else
        act_bind (write_file env GREETD_CONFIG (greetd_autologin_config (session_user plan)) MODE_644) (\<lambda>path.
        seq (emit_lines [''wrote '' @ path])
       (seq (pipeline (target_run env)
              [Step ''enable greetd'' [''systemctl'', ''enable'', ''greetd''],
               Step ''boot to graphical'' [''systemctl'', ''set-default'', ''graphical.target'']])
            (mark_done ''enable_desktop_session''))))"

definition EnableDesktopSession :: "'o install_env \<Rightarrow> install_plan \<Rightarrow> ('o machine, install_error) install_step" where
  "EnableDesktopSession env plan =
     FuncStep ''Enable the Helm Desktop Environment session'' (Some ''enable_desktop_session'') FINISH False
       (no_desktop_or_done plan ''enable_desktop_session'') (enable_session env plan)"

definition rtc_script :: "string \<Rightarrow> string" where
  "rtc_script conv =
     ''printf '0.0 0 0.0'' @ [BSLASH] @ ''n0'' @ [BSLASH] @ ''n'' @ conv @ [BSLASH] @ ''n' > /etc/adjtime''"

definition clock_steps :: "install_plan \<Rightarrow> step list" where
  "clock_steps plan =
     [Step ''set the RTC convention'' [''sh'', ''-c'', rtc_script (if pl_clock plan = ''local'' then ''LOCAL'' else ''UTC'')],
      Step ''disable systemd-timesyncd'' [''sh'', ''-c'', ''systemctl disable systemd-timesyncd 2>/dev/null || true'']]
     @ (if pl_clock plan = ''chrony''
        then [Step ''emerge chrony'' (emerge_argv plan [''net-misc/chrony''] []),
              Step ''enable chronyd at boot'' [''systemctl'', ''enable'', ''chronyd'']] else [])"

definition ConfigureClock :: "'o install_env \<Rightarrow> install_plan \<Rightarrow> ('o machine, install_error) install_step" where
  "ConfigureClock env plan =
     CommandStep env ''Configure the clock'' (Some ''configure_clock'') FINISH True (is_done ''configure_clock'')
       (\<lambda>m. Inr (clock_steps plan))"

section \<open>Optional modules and the administration model\<close>

definition write_config :: "'o install_env \<Rightarrow> string \<Rightarrow> string \<Rightarrow> nat \<Rightarrow> ('o machine, unit) act" where
  "write_config env abs_path body mode =
     act_bind (write_file env abs_path body mode) (\<lambda>path. emit_lines [''wrote '' @ path])"

definition WriteConfigStep ::
    "'o install_env \<Rightarrow> string \<Rightarrow> string \<Rightarrow> string \<Rightarrow> nat \<Rightarrow> ('o machine, install_error) install_step" where
  "WriteConfigStep env label abs_path body mode =
     FuncStep label None FINISH False (\<lambda>m. Inr (path_exists m (resolve (ie_root env) abs_path)))
       (write_config env abs_path body mode)"

definition ChrootCmdStep :: "'o install_env \<Rightarrow> string \<Rightarrow> string \<Rightarrow> string list \<Rightarrow> ('o machine, install_error) install_step" where
  "ChrootCmdStep env label key argv =
     CommandStep env label (Some key) FINISH True (is_done key) (\<lambda>m. Inr [Step label argv])"

definition default_firewall :: firewall_policy where
  "default_firewall = FirewallPolicy ''drop'' True [22] []"

definition default_sysctl :: "(string \<times> string) list" where
  "default_sysctl = [(''net.ipv4.tcp_syncookies'', ''1''), (''kernel.kptr_restrict'', ''1'')]"

definition wheel_policy :: "string \<Rightarrow> escalation_policy" where
  "wheel_policy tool = EscalationPolicy tool ''wheel'' False True"

definition MODE_400 :: nat where
  "MODE_400 = 256"

definition sudo_steps :: "'o install_env \<Rightarrow> install_plan \<Rightarrow> string \<Rightarrow> ('o machine, install_error) install_step list" where
  "sudo_steps env plan key =
     [ChrootCmdStep env ''Emerge sudo'' key (emerge_argv plan [''app-admin/sudo''] []),
      WriteConfigStep env ''Configure sudo (wheel)'' SUDOERS_DROPIN (render_sudoers (wheel_policy ''sudo'')) MODE_440]"

definition tier2_module_steps ::
    "'o install_env \<Rightarrow> install_plan \<Rightarrow> string \<Rightarrow> ('o machine, install_error) install_step list res" where
  "tier2_module_steps env plan key =
     (if key = ''sshd'' then Inr
        [ChrootCmdStep env ''Emerge openssh'' ''tier2_openssh'' (emerge_argv plan [''net-misc/openssh''] []),
         WriteConfigStep env ''Configure sshd'' SSHD_CONFIG (sshd_apply [] SSHD_DEFAULTS) MODE_644,
         ChrootCmdStep env ''Enable sshd at boot'' ''tier2_sshd_enable'' [''systemctl'', ''enable'', ''sshd'']]
      else if key = ''firewall'' then Inr
        [ChrootCmdStep env ''Emerge nftables'' ''tier2_nftables'' (emerge_argv plan [''net-firewall/nftables''] []),
         WriteConfigStep env ''Configure the firewall'' ''/etc/nftables.conf'' (render_ruleset default_firewall) MODE_644,
         ChrootCmdStep env ''Enable nftables at boot'' ''tier2_nftables_enable'' [''systemctl'', ''enable'', ''nftables'']]
      else if key = ''sudo'' then Inr (sudo_steps env plan ''tier2_sudo'')
      else if key = ''sysctl'' then Inr
        [WriteConfigStep env ''Configure sysctl'' SYSCTL_DROPIN (render_sysctl default_sysctl) MODE_644]
      else Inl (ValueError (''unknown tier-2 module: '' @ py_repr key)))"

definition TIER2_MODULES :: "string list" where
  "TIER2_MODULES = [''sshd'', ''firewall'', ''sudo'', ''sysctl'']"

definition tier2_steps :: "'o install_env \<Rightarrow> install_plan \<Rightarrow> ('o machine, install_error) install_step list res" where
  "tier2_steps env plan =
     (let unknown = filter (\<lambda>k. k \<notin> set TIER2_MODULES) (pl_tier2 plan)
      in if unknown \<noteq> [] then Inl (ValueError (''unknown tier-2 modules: '' @ join '', '' (sort (remdups unknown))))
         else res_bind (res_map (tier2_module_steps env plan) (filter (\<lambda>k. k \<in> set (pl_tier2 plan)) TIER2_MODULES))
                (\<lambda>ss. Inr (concat ss)))"

definition admin_model_steps :: "'o install_env \<Rightarrow> install_plan \<Rightarrow> ('o machine, install_error) install_step list res" where
  "admin_model_steps env plan =
     (if pl_admin_model plan = ''traditional'' then Inr []
      else
        res_bind (installs_escalator (pl_admin_model plan)) (\<lambda>escalate. Inr
          ((if escalate
            then (if pl_escalator plan = ''doas''
                  then [ChrootCmdStep env ''Emerge doas'' ''admin_doas'' (emerge_argv plan [''app-admin/doas''] []),
                        WriteConfigStep env ''Configure doas (wheel)'' DOAS_CONF (render_doas_block (wheel_policy ''doas'')) MODE_400]
                  else sudo_steps env plan ''admin_sudo'')
            else [])
           @ (if pl_admin_model plan = ''rootless''
              then [ChrootCmdStep env ''Lock the root account'' ''admin_lock_root'' [''passwd'', ''-l'', ''root'']]
              else []))))"

end
