(* ===== verification/Registry.thy ===== *)
theory Registry
  imports ConfigSteps
begin

text \<open>
  \<open>build_registry\<close> and \<open>build_minimal_registry\<close> of \<open>gest/core/install/registry.py\<close>: the
  ordered steps of an install.
\<close>

definition build_registry ::
    "'o install_env \<Rightarrow> install_plan \<Rightarrow> string option \<Rightarrow> (string \<times> string) list
     \<Rightarrow> ('o machine, install_error) install_step list res" where
  "build_registry env plan root_secret user_secrets =
     res_bind (admin_model_steps env plan) (\<lambda>admin.
     res_bind (tier2_steps env plan) (\<lambda>tier2.
       Inr ([Partition_step env plan, MakeFilesystems, MountTarget env plan, UnpackStage3 env plan, WriteFstab env plan,
             WriteMakeConf env plan, WriteReposConf env plan, PrepareTarget env, SyncTree env, SetProfile env plan,
             EmergeWorld env plan, ProvisionDesktop env plan, InstallDesktop env plan, CleanupDesktopBinpkgs env plan,
             SetTimezoneLocale env plan, GenerateLocale env, SetHostname_step env plan, SetConsole env plan,
             InstallKernelSources env plan, StageKernelConfig env plan, BuildKernel env plan, InstallGpuDrivers env plan,
             ConfigureHibernateResume env plan, InstallBootloader env plan, InstallBootStub env plan,
             SetRootPassword env plan root_secret, CreateUser env plan, SetUserPassword env plan user_secrets,
             ConfigureNetwork env plan, EnableDesktopSession env plan, ConfigureClock env plan]
            @ admin @ tier2)))"

definition build_minimal_registry ::
    "'o install_env \<Rightarrow> install_plan \<Rightarrow> string option \<Rightarrow> ('o machine, install_error) install_step list" where
  "build_minimal_registry env plan root_secret =
     [Partition_step env plan, MakeFilesystems, MountTarget env plan, UnpackStage3 env plan, WriteFstab env plan,
      WriteMakeConf env plan, WriteReposConf env plan, PrepareTarget env, SyncTree env, SetProfile env plan,
      EmergeWorld env plan, InstallKernelSources env plan, StageKernelConfig env plan, BuildKernel env plan,
      ConfigureHibernateResume env plan, InstallBootloader env plan, InstallBootStub env plan,
      SetRootPassword env plan root_secret]"

lemma config_paths:
  "config_path ''/etc/timezone''" "config_path ''/etc/localtime''"
  "config_path ''/etc/env.d/02locale''" "config_path ''/etc/locale.conf''" "config_path ''/etc/locale.gen''"
  "config_path ''/etc/hostname''" "config_path ''/etc/conf.d/hostname''" "config_path ''/etc/vconsole.conf''"
  "config_path KEYMAPS_CONF" "config_path ''/etc/portage/make.conf''" "config_path ''/etc/portage/repos.conf/gentoo.conf''"
  "config_path GRUB_DEFAULT" "config_path ''/etc/fstab''"
  by code_simp+

lemma path_neqs:
  "''/etc/timezone'' \<noteq> ''/etc/locale.conf''" "''/etc/timezone'' \<noteq> ''/etc/env.d/02locale''" "''/etc/timezone'' \<noteq> ''/etc/locale.gen''"
  "''/etc/locale.conf'' \<noteq> ''/etc/locale.gen''" "''/etc/hostname'' \<noteq> ''/etc/conf.d/hostname''"
  "''/etc/timezone'' \<noteq> ''/etc/localtime''" "''/etc/timezone'' \<noteq> ''/etc/.gest.localtime''"
  by simp_all

lemma strip_line: "list_all (\<lambda>c. \<not> is_space c) s \<Longrightarrow> strip (s @ [LF]) = s"
proof -
  have "is_space LF" by code_simp
  then show "list_all (\<lambda>c. \<not> is_space c) s \<Longrightarrow> strip (s @ [LF]) = s" by (simp add: strip_nospace)
qed

section \<open>Steps that are not repeated\<close>

definition readable :: "'o install_env \<Rightarrow> bool" where
  "readable env = (\<forall>m p. \<not> ie_unreadable env m p)"

lemma FuncStep_run: "is_run (FuncStep l k ph o' sat act) m = (m', ev, None) \<longleftrightarrow> (\<exists>a. act m = (m', ev, Inr a))"
  by (auto simp: FuncStep_def split: prod.splits sum.splits)

lemma FuncStep_sat: "is_satisfied (FuncStep l k ph o' sat act) = sat"
  by (simp add: FuncStep_def)

lemma hostname_resumes:
  assumes run: "set_hostname env plan m = (m', ev, Inr a)" and ok: "names_ok env" "readable env"
  shows "hostname_set env plan m' = Inr True"
proof -
  let ?r = "resolve (ie_root env)" and ?h = "pl_hostname plan"
  have v: "valid_hostname ?h" using run by (auto simp: set_hostname_def Let_def split: if_splits)
  note run [unfolded set_hostname_def Let_def]
  with v obtain m1 ev1 p1 ev2 p2 where
    w: "write_file env ''/etc/hostname'' (?h @ [LF]) MODE_644 m = (m1, ev1, Inr p1)"
      "write_file env ''/etc/conf.d/hostname'' (''hostname='' @ [DQUOTE] @ ?h @ [DQUOTE, LF]) MODE_644 m1 = (m', ev2, Inr p2)"
    by (auto simp only: if_False not_True_eq_False act_bind_Inr emit_lines_eq)
  note at = write_file_at [OF w(1) ok(1) config_paths(6)] write_file_at [OF w(2) ok(1) config_paths(7)]
  have "at_path (?r ''/etc/hostname'') m' = at_path (?r ''/etc/hostname'') m1"
    by (rule keepsD [OF keeps_write_other [OF ok(1) config_paths(7,6) path_neqs(5)] w(2)])
  with at ok(2) have r: "read_text env m' (?r ''/etc/hostname'') = Inr (?h @ [LF])"
    "read_text env m' (?r ''/etc/conf.d/hostname'') = Inr (''hostname='' @ [DQUOTE] @ ?h @ [DQUOTE, LF])"
    by (simp_all only: read_at_path readable_def not_False_eq_True)
  have h: "value_word ?h" by (rule hostname_word [OF v])
  then have "strip (?h @ [LF]) = ?h"
    by (intro strip_line) (simp add: value_word_def list_all_iff)
  moreover have "parse_conf_hostname (''hostname='' @ [DQUOTE] @ ?h @ [DQUOTE, LF]) = ?h"
  proof -
    have "key_word ''hostname''" by code_simp
    from fresh_conf_value(1) [OF this h] show ?thesis by (simp add: conf_line_def parse_conf_hostname_def)
  qed
  ultimately show ?thesis by (simp only: hostname_set_def r sum.case if_False not_not) simp
qed

lemma timezone_resumes:
  assumes run: "set_timezone_locale env plan m = (m', ev, Inr a)" and ok: "names_ok env" "readable env"
  shows "timezone_locale_set env plan m' = Inr True"
proof -
  let ?r = "resolve (ie_root env)" and ?z = "pl_timezone plan" and ?l = "pl_locale plan"
  have v: "valid_zone_name ?z" "valid_locale ?l"
    using run by (auto simp: set_timezone_locale_def Let_def act_bind_Inr split: if_splits)
  note run [unfolded set_timezone_locale_def Let_def]
  with v obtain m1 ev1 p1 m2 ev2 ev3 u2 u3 where
    w: "write_file env ''/etc/timezone'' (?z @ [LF]) MODE_644 m = (m1, ev1, Inr p1)"
      "link_localtime env ?z m1 = (m2, ev2, Inr u2)" "write_locale env ?l m2 = (m', ev3, Inr u3)"
    by (auto simp only: if_False not_True_eq_False act_bind_Inr emit_lines_eq)
  note tz = write_file_at [OF w(1) ok(1) config_paths(1)]
  have "keeps (at_path (?r ''/etc/timezone'')) (link_localtime env ?z)"
    unfolding link_localtime_def Let_def
    by (intro keeps_intros path_frame.keeps_makedirs_for path_frame.keeps_unlink_quiet path_frame.keeps_make_link
        path_frame.keeps_os_replace) (simp_all add: resolve_inj)
  note k1 = keepsD [OF this w(2)]
  have "keeps (at_path (?r ''/etc/timezone'')) (write_locale env ?l)"
    unfolding write_locale_def using path_neqs
    by (intro keeps_intros keeps_write_other ok config_paths)
  note k2 = keepsD [OF this w(3)]
  have "at_path (?r ''/etc/timezone'') m' = (Some (?z @ [LF], MODE_644), None)"
    unfolding k2 k1 by (rule tz)
  with ok(2) have r: "read_text env m' (?r ''/etc/timezone'') = Inr (?z @ [LF])"
    by (simp only: read_at_path readable_def not_False_eq_True)
  from w(3) obtain m4 m5 ev5 p5 ev6 where
    l: "write_file env ''/etc/locale.conf'' (''LANG='' @ ?l @ [LF]) MODE_644 m4 = (m5, ev5, Inr p5)"
      "(case locale_gen_line ?l of None \<Rightarrow> ret ()
        | Some line \<Rightarrow> act_bind (write_file env ''/etc/locale.gen'' (line @ [LF]) MODE_644) (\<lambda>_. ret ())) m5 = (m', ev6, Inr u3)"
    by (auto simp only: write_locale_def act_bind_Inr)
  have "keeps (at_path (?r ''/etc/locale.conf''))
      (case locale_gen_line ?l of None \<Rightarrow> ret ()
        | Some line \<Rightarrow> act_bind (write_file env ''/etc/locale.gen'' (line @ [LF]) MODE_644) (\<lambda>_. ret ()))"
    using path_neqs by (intro keeps_intros keeps_write_other ok config_paths)
  note k3 = keepsD [OF this l(2)]
  have "at_path (?r ''/etc/locale.conf'') m' = (Some (''LANG='' @ ?l @ [LF], MODE_644), None)"
    unfolding k3 by (rule write_file_at [OF l(1) ok(1) config_paths(4)])
  then have "path_exists m' (?r ''/etc/locale.conf'')" by (rule exists_at_path)
  moreover have "strip (?z @ [LF]) = ?z"
    by (rule strip_line [OF conjunct2 [OF zone_word [OF v(1)]]])
  ultimately show ?thesis by (simp add: timezone_locale_set_def r)
qed

lemma console_resumes:
  assumes run: "set_console env plan m = (m', ev, Inr a)" and ok: "names_ok env" "readable env"
  shows "console_set env plan m' = Inr True"
proof -
  let ?r = "resolve (ie_root env)" and ?k = "pl_keymap plan"
  have v: "valid_keymap ?k" using run by (auto simp: set_console_def Let_def split: if_splits)
  note run [unfolded set_console_def Let_def]
  with v obtain m1 ev1 s p1 where
    w: "write_file env KEYMAPS_CONF (set_conf_value s ''keymap'' ?k) MODE_644 m1 = (m', ev1, Inr p1)"
    by (auto simp only: if_False not_True_eq_False act_bind_Inr emit_lines_eq act_simps(3))
  have "read_text env m' (?r KEYMAPS_CONF) = Inr (set_conf_value s ''keymap'' ?k)"
    using write_file_at [OF w ok(1) config_paths(9)] ok(2) by (simp add: read_at_path readable_def)
  moreover have "parse_conf_value (set_conf_value s ''keymap'' ?k) ''keymap'' = ?k"
  proof (rule conf_value_read_back)
    show "key_word ''keymap''" by code_simp
    show "value_word ?k" using v token_word by (simp add: valid_keymap_def)
  qed
  ultimately show ?thesis by (simp add: console_set_def)
qed

lemma path_join_resolve:
  assumes "root \<noteq> []" "last root \<noteq> CHR ''/''"
  shows "path_join root [''etc'', ''fstab''] = resolve root ''/etc/fstab''"
proof -
  obtain xs x where r: "root = xs @ [x]" "x \<noteq> CHR ''/''"
    using assms by (cases root rule: rev_cases) auto
  have "\<not> endswith root ''/''" "\<not> endswith (root @ ''/etc'') ''/''"
    using r by (simp_all add: endswith_def suffix_def Cons_eq_append_conv)
  moreover have "root \<noteq> ''/''" using r by (cases xs) auto
  ultimately show ?thesis
    using r by (simp add: path_join_def path_join2_def startswith_def resolve_def rstrip_char_def)
qed

lemma fstab_resumes:
  assumes run: "write_fstab env plan m = (m', ev, Inr a)" and ok: "names_ok env" "readable env"
    "ie_root env \<noteq> []" "last (ie_root env) \<noteq> CHR ''/''"
  shows "fstab_written env m' = Inr True"
proof -
  let ?p = "resolve (ie_root env) ''/etc/fstab''"
  obtain content m1 ev1 p1 where w: "write_fstab_file env content m1 = (m', ev1, Inr p1)"
    using run by (auto simp: write_fstab_def act_bind_Inr emit_lines_eq)
  have v: "valid_generated_fstab content = Inr True"
    and "at_path ?p m' = (Some (content, MODE_644), None)"
    using w tmp_name_not_config [OF ok(1) config_paths(13) config_paths(13), of m1 "ie_root env"]
    by (auto simp: write_fstab_file_def path_join_resolve [OF ok(3,4)] Let_def stored_at_def write_target_fstab_file_def
        guard_target_root_def guard_def replace_file_def at_path_def split: if_splits sum.splits bool.splits)
  from exists_at_path [OF this(2)] read_at_path [OF this(2), of env] ok(2) v
  show ?thesis by (simp add: fstab_written_def readable_def)
qed

lemma mark_done_Inr: "mark_done k m = (m', ev, Inr a) \<Longrightarrow> is_done k m' = Inr True"
  by (auto simp: mark_done_def mark_key_def mark_def is_done_def done_key_def save_def Let_def
      split: prod.splits option.splits sum.splits if_splits)

lemma marked_resumes:
  assumes "act_bind f (\<lambda>_. mark_done k) m = (m', ev, Inr a)"
  shows "is_done k m' = Inr True"
  using assms by (auto simp only: act_bind_Inr dest: mark_done_Inr)

text \<open>The steps of the registry that write files and run nothing.\<close>

definition file_steps :: "'o install_env \<Rightarrow> install_plan \<Rightarrow> ('o machine, install_error) install_step list" where
  "file_steps env plan =
     [WriteFstab env plan, WriteMakeConf env plan, WriteReposConf env plan, SetTimezoneLocale env plan,
      SetHostname_step env plan, SetConsole env plan, ConfigureHibernateResume env plan]"

lemma make_conf_resumes: "write_make_conf env plan m = (m', ev, Inr a) \<Longrightarrow> is_done ''write_make_conf'' m' = Inr True"
  unfolding write_make_conf_def by (auto simp only: act_simps(3) act_bind_Inr Let_def dest: mark_done_Inr)

lemma repos_conf_resumes: "write_repos_conf env plan m = (m', ev, Inr a) \<Longrightarrow> is_done ''write_repos_conf'' m' = Inr True"
  unfolding write_repos_conf_def by (auto simp only: act_bind_Inr Let_def dest: mark_done_Inr)

text \<open>C6: A step that writes files is not repeated. After a run of such a step without an error, in
  which the temporary names had no slash and the files can be read, its own resume check is
  satisfied: the fstab is a generated one, the time zone, host name and keymap read back are the
  ones of the plan, or the step is marked.\<close>

theorem file_steps_resume:
  assumes "names_ok env" "readable env" "ie_root env \<noteq> []" "last (ie_root env) \<noteq> CHR ''/''"
    "s \<in> set (file_steps env plan)" "is_run s m = (m', ev, None)"
  shows "is_satisfied s m' = Inr True"
  using assms(5,6) fstab_resumes [OF _ assms(1-4)] timezone_resumes [OF _ assms(1,2)] hostname_resumes [OF _ assms(1,2)]
    console_resumes [OF _ assms(1,2)] make_conf_resumes repos_conf_resumes
  unfolding file_steps_def WriteFstab_def WriteMakeConf_def WriteReposConf_def SetTimezoneLocale_def SetHostname_step_def
    SetConsole_def ConfigureHibernateResume_def
  by (auto simp only: set_simps insert_iff empty_iff FuncStep_run FuncStep_sat configure_resume_def dest: marked_resumes)

theorem file_steps_resume_witness:
  "\<exists>m' ev. is_run (SetHostname_step demo_env demo_plan) demo_machine = (m', ev, None) \<and>
     is_satisfied (SetHostname_step demo_env demo_plan) m' = Inr True"
proof -
  let ?s = "SetHostname_step demo_env demo_plan"
  obtain m' ev r where run: "is_run ?s demo_machine = (m', ev, r)" by (cases "is_run ?s demo_machine")
  have "snd (snd (is_run ?s demo_machine)) = None" by code_simp
  with run have run: "is_run ?s demo_machine = (m', ev, None)" by simp
  have "names_ok demo_env" "readable demo_env" "ie_root demo_env \<noteq> []" "last (ie_root demo_env) \<noteq> CHR ''/''"
    "?s \<in> set (file_steps demo_env demo_plan)"
    by (simp_all add: names_ok_def readable_def demo_env_def file_steps_def)
  from file_steps_resume [OF this run] run show ?thesis by blast
qed

section \<open>Steps that stay inside the target\<close>

lemma write_inside:
  assumes "is_target (ie_root env)" "names_ok env" "config_path p"
  shows "keeps (outside (ie_root env)) (write_file env p content mode)"
  using inside_config [OF assms(1,3)] inside_tmp [OF assms] by (rule root_frame.keeps_write_file)

lemma link_inside:
  assumes "is_target (ie_root env)"
  shows "keeps (outside (ie_root env)) (link_localtime env zone)"
proof -
  have "''..'' \<notin> set (split_char (CHR ''/'') ''etc/.gest.localtime'')" "''..'' \<notin> set (split_char (CHR ''/'') ''etc/localtime'')"
    by code_simp+
  note this [THEN inside_resolve [OF assms]]
  then show ?thesis
    unfolding link_localtime_def Let_def
    by (intro keeps_intros root_frame.keeps_makedirs_for root_frame.keeps_unlink_quiet root_frame.keeps_make_link
        root_frame.keeps_os_replace) simp_all
qed

lemma fstab_inside:
  assumes "is_target (ie_root env)" "names_ok env" "last (ie_root env) \<noteq> CHR ''/''"
  shows "keeps (outside (ie_root env)) (write_fstab_file env content)"
proof -
  have r: "path_join (ie_root env) [''etc'', ''fstab''] = resolve (ie_root env) ''/etc/fstab''"
    using assms(1,3) by (intro path_join_resolve) (simp_all add: is_target_def)
  have "keeps (outside (ie_root env)) (stored_at (resolve (ie_root env) ''/etc/fstab'') made
      (write_target_fstab_file fault (tmp_name env m (resolve (ie_root env) ''/etc/fstab'')) partial (ie_root env) content))"
    for made fault partial m
    by (rule root_frame.keeps_stored_at)
      (use inside_config [OF assms(1) config_paths(13)] inside_tmp [OF assms(1,2) config_paths(13)] in
        \<open>auto simp: write_target_fstab_file_def guard_target_root_def guard_def replace_file_def r Let_def split: if_splits sum.splits\<close>)
  then show ?thesis unfolding keeps_def write_fstab_file_def r Let_def by blast
qed

lemma mark_inside: "keeps (outside root) (mark_done k)"
  by (rule root_frame.keeps_mark_done)

lemma keeps_FuncStep:
  "keeps view act \<Longrightarrow> view (fst (is_run (FuncStep l k ph o' sat act) m)) = view m"
  by (auto simp: FuncStep_def keeps_def split: prod.splits) (metis fst_conv)



section \<open>The order of an install\<close>

fun phase_rank :: "phase \<Rightarrow> nat" where
  "phase_rank PREPARE_DISK = 0"
| "phase_rank BASE_SYSTEM = 1"
| "phase_rank CONFIGURE = 2"
| "phase_rank KERNEL_BOOT = 3"
| "phase_rank USERS_NETWORK = 4"
| "phase_rank FINISH = 5"

lemma phase_rank_inj: "phase_rank p = phase_rank q \<Longrightarrow> p = q"
  by (cases p; cases q) simp_all

instantiation phase :: linorder
begin

definition less_eq_phase :: "phase \<Rightarrow> phase \<Rightarrow> bool" where
  "p \<le> q \<longleftrightarrow> phase_rank p \<le> phase_rank q"

definition less_phase :: "phase \<Rightarrow> phase \<Rightarrow> bool" where
  "p < q \<longleftrightarrow> phase_rank p < phase_rank q"

instance
  by standard (auto simp: less_eq_phase_def less_phase_def intro: phase_rank_inj)

end

lemma FuncStep_sel [simp]:
  "is_label (FuncStep l k ph o' sat act) = l" "is_key (FuncStep l k ph o' sat act) = k"
  "is_phase (FuncStep l k ph o' sat act) = ph" "is_chroot (FuncStep l k ph o' sat act) = False"
  "is_opens_chroot (FuncStep l k ph o' sat act) = o'"
  by (simp_all add: FuncStep_def)

lemma CommandStep_sel [simp]:
  "is_label (CommandStep env l k ph ch sat f) = l" "is_key (CommandStep env l k ph ch sat f) = k"
  "is_phase (CommandStep env l k ph ch sat f) = ph" "is_chroot (CommandStep env l k ph ch sat f) = ch"
  "is_opens_chroot (CommandStep env l k ph ch sat f) = False"
  by (simp_all add: CommandStep_def FuncStep_def)

lemmas step_defs = Partition_step_def MakeFilesystems_def MountTarget_def UnpackStage3_def WriteFstab_def WriteMakeConf_def
  WriteReposConf_def PrepareTarget_def SyncTree_def SetProfile_def EmergeWorld_def ProvisionDesktop_def InstallDesktop_def
  CleanupDesktopBinpkgs_def SetTimezoneLocale_def GenerateLocale_def SetHostname_step_def SetConsole_def InstallKernelSources_def
  StageKernelConfig_def BuildKernel_def InstallGpuDrivers_def ConfigureHibernateResume_def InstallBootloader_def
  InstallBootStub_def SetRootPassword_def CreateUser_def SetUserPassword_def ConfigureNetwork_def EnableDesktopSession_def
  ConfigureClock_def WriteConfigStep_def ChrootCmdStep_def

definition finishing :: "('c, 'e) install_step \<Rightarrow> bool" where
  "finishing s = (is_phase s = FINISH \<and> \<not> is_opens_chroot s)"

lemma finishing_steps [simp]:
  "finishing (ChrootCmdStep env l k argv)" "finishing (WriteConfigStep env l p b mode)" "list_all finishing (sudo_steps env plan key)"
  by (simp_all add: finishing_def step_defs sudo_steps_def)

lemma admin_finishing:
  "admin_model_steps env plan = Inr ss \<Longrightarrow> list_all finishing ss \<and> pl_admin_model plan \<in> set ADMIN_MODELS \<and>
    (list_ex (\<lambda>s. is_label s = ''Lock the root account'') ss \<longleftrightarrow> pl_admin_model plan = ''rootless'')"
  by (auto simp: admin_model_steps_def installs_escalator_def guard_def ADMIN_MODELS_def sudo_steps_def
      ChrootCmdStep_def WriteConfigStep_def finishing_def split: if_splits sum.splits)

lemma admin_fails: "admin_model_steps env plan = Inl e \<Longrightarrow> pl_admin_model plan \<notin> set ADMIN_MODELS"
  by (auto simp: admin_model_steps_def installs_escalator_def guard_def split: if_splits sum.splits)

definition adding :: "('c, 'e) install_step \<Rightarrow> bool" where
  "adding s = (finishing s \<and> is_label s \<noteq> ''Lock the root account'')"

lemma module_steps:
  "k \<in> set TIER2_MODULES \<Longrightarrow> \<exists>ss. tier2_module_steps env plan k = Inr ss \<and> list_all adding ss"
  unfolding tier2_module_steps_def
  by (auto simp: TIER2_MODULES_def sudo_steps_def ChrootCmdStep_def WriteConfigStep_def finishing_def adding_def)

lemma list_all_concat: "list_all P (concat xss) \<longleftrightarrow> list_all (list_all P) xss"
  by (induction xss) simp_all

lemma tier2_steps_ok:
  assumes "set (pl_tier2 plan) \<subseteq> set TIER2_MODULES"
  shows "\<exists>ss. tier2_steps env plan = Inr ss \<and> list_all adding ss"
proof -
  let ?ks = "filter (\<lambda>k. k \<in> set (pl_tier2 plan)) TIER2_MODULES"
  let ?f = "\<lambda>k. projr (tier2_module_steps env plan k)"
  have f: "tier2_module_steps env plan k = Inr (?f k) \<and> list_all adding (?f k)" if "k \<in> set TIER2_MODULES" for k
    using module_steps [OF that, of env plan] by auto
  then have "res_map (tier2_module_steps env plan) ?ks = Inr (map ?f ?ks)" by (intro res_map_total) auto
  moreover have "filter (\<lambda>k. k \<notin> set TIER2_MODULES) (pl_tier2 plan) = []"
    using assms unfolding filter_empty_conv by blast
  ultimately have "tier2_steps env plan = Inr (concat (map ?f ?ks))" by (simp add: tier2_steps_def)
  moreover have "list_all adding (concat (map ?f ?ks))" 
    using conjunct2 [OF f] by (auto simp: list_all_concat list_all_iff)
  ultimately show ?thesis by blast
qed

lemma addingD: "list_all adding ss \<Longrightarrow> list_all finishing ss \<and> \<not> list_ex (\<lambda>s. is_label s = ''Lock the root account'') ss"
  by (induction ss) (auto simp: adding_def)

lemma tier2_steps_unknown:
  assumes "\<not> set (pl_tier2 plan) \<subseteq> set TIER2_MODULES"
  shows "\<exists>e. tier2_steps env plan = Inl e"
proof -
  have "filter (\<lambda>k. k \<notin> set TIER2_MODULES) (pl_tier2 plan) \<noteq> []"
    using assms unfolding filter_empty_conv by blast
  then show ?thesis by (simp add: tier2_steps_def Let_def)
qed

lemma finishing_sorted:
  "list_all finishing ss \<Longrightarrow> map is_phase ss = replicate (length ss) FINISH \<and> map is_opens_chroot ss = replicate (length ss) False"
  by (induction ss) (auto simp: finishing_def)

lemma sorted_replicate: "sorted (replicate n (x :: 'a :: linorder))"
  by (induction n) auto

lemma registry_split:
  assumes "admin_model_steps env plan = Inr ad" "tier2_steps env plan = Inr t2"
  obtains base where "build_registry env plan root_secret user_secrets = Inr (base @ ad @ t2)" "length base = 31"
    "sorted (map is_phase base)" "list_all (\<lambda>s. is_phase s \<le> FINISH) base"
    "map is_opens_chroot base = (replicate 31 False)[7 := True]" "list_all (\<lambda>s. \<not> is_chroot s) (take 8 base)"
    "is_label (base ! 26) = ''Create user accounts''" "\<not> list_ex (\<lambda>s. is_label s = ''Lock the root account'') base"
proof (rule that)
  let ?base = "[Partition_step env plan, MakeFilesystems, MountTarget env plan, UnpackStage3 env plan, WriteFstab env plan,
             WriteMakeConf env plan, WriteReposConf env plan, PrepareTarget env, SyncTree env, SetProfile env plan,
             EmergeWorld env plan, ProvisionDesktop env plan, InstallDesktop env plan, CleanupDesktopBinpkgs env plan,
             SetTimezoneLocale env plan, GenerateLocale env, SetHostname_step env plan, SetConsole env plan,
             InstallKernelSources env plan, StageKernelConfig env plan, BuildKernel env plan, InstallGpuDrivers env plan,
             ConfigureHibernateResume env plan, InstallBootloader env plan, InstallBootStub env plan,
             SetRootPassword env plan root_secret, CreateUser env plan, SetUserPassword env plan user_secrets,
             ConfigureNetwork env plan, EnableDesktopSession env plan, ConfigureClock env plan]"
  show "build_registry env plan root_secret user_secrets = Inr (?base @ ad @ t2)"
    unfolding build_registry_def assms res_bind.simps ..
  show "length ?base = 31" by simp
  show "sorted (map is_phase ?base)" "list_all (\<lambda>s. is_phase s \<le> FINISH) ?base"
    by (simp_all add: step_defs less_eq_phase_def)
  show "map is_opens_chroot ?base = (replicate 31 False)[7 := True]"
    by (simp add: step_defs numeral_eq_Suc)
  show "list_all (\<lambda>s. \<not> is_chroot s) (take 8 ?base)" by (simp add: step_defs)
  show "is_label (?base ! 26) = ''Create user accounts''" by (simp add: step_defs)
  show "\<not> list_ex (\<lambda>s. is_label s = ''Lock the root account'') ?base" by (simp add: step_defs)
qed

text \<open>C4: The registry is the fixed order of an install. It is refused exactly for an unknown admin
  model or an unknown optional module; otherwise the phases never go back, the eighth step is
  the only one that opens the chroot and no step before it runs in the chroot, the accounts are
  created at the twenty-seventh and root is locked only after all of these, exactly in the
  rootless model.\<close>

theorem registry_order:
  "case build_registry env plan root_secret user_secrets of
     Inl e \<Rightarrow> \<not> (pl_admin_model plan \<in> set ADMIN_MODELS \<and> set (pl_tier2 plan) \<subseteq> set TIER2_MODULES)
   | Inr steps \<Rightarrow>
       pl_admin_model plan \<in> set ADMIN_MODELS \<and> set (pl_tier2 plan) \<subseteq> set TIER2_MODULES \<and>
       sorted (map is_phase steps) \<and>
       map is_opens_chroot steps = (replicate (length steps) False)[7 := True] \<and>
       list_all (\<lambda>s. \<not> is_chroot s) (take 8 steps) \<and>
       is_label (steps ! 26) = ''Create user accounts'' \<and>
       \<not> list_ex (\<lambda>s. is_label s = ''Lock the root account'') (take 31 steps) \<and>
       list_ex (\<lambda>s. is_label s = ''Lock the root account'') steps = (pl_admin_model plan = ''rootless'')"
proof (cases "pl_admin_model plan \<in> set ADMIN_MODELS \<and> set (pl_tier2 plan) \<subseteq> set TIER2_MODULES")
  case False
  have "\<exists>e. build_registry env plan root_secret user_secrets = Inl e"
  proof (cases "admin_model_steps env plan")
    case (Inr ad)
    with False obtain e where "tier2_steps env plan = Inl e"
      using admin_finishing [OF Inr] tier2_steps_unknown [of plan env] by blast
    then show ?thesis by (simp add: build_registry_def Inr)
  qed (simp add: build_registry_def)
  with False show ?thesis by auto
next
  case True
  obtain ad where ad: "admin_model_steps env plan = Inr ad"
    using True admin_fails by (cases "admin_model_steps env plan") blast+
  obtain t2 where t2: "tier2_steps env plan = Inr t2" "list_all finishing t2"
    "\<not> list_ex (\<lambda>s. is_label s = ''Lock the root account'') t2"
    using tier2_steps_ok [of plan env] True addingD by metis
  obtain base where b: "build_registry env plan root_secret user_secrets = Inr (base @ ad @ t2)" "length base = 31"
    "sorted (map is_phase base)" "list_all (\<lambda>s. is_phase s \<le> FINISH) base"
    "map is_opens_chroot base = (replicate 31 False)[7 := True]" "list_all (\<lambda>s. \<not> is_chroot s) (take 8 base)"
    "is_label (base ! 26) = ''Create user accounts''" "\<not> list_ex (\<lambda>s. is_label s = ''Lock the root account'') base"
    using registry_split [OF ad t2(1)] by blast
  note ends = finishing_sorted [of ad] finishing_sorted [of t2]
  have "sorted (map is_phase (base @ ad @ t2))"
    using b(3,4) ends admin_finishing [OF ad] t2(2)
    by (auto simp: sorted_append sorted_replicate list_all_iff finishing_def)
  moreover have "map is_opens_chroot (base @ ad @ t2) = (replicate (length (base @ ad @ t2)) False)[7 := True]"
    using b(2,5) ends admin_finishing [OF ad] t2(2)
    by (simp add: replicate_add list_update_append1)
  ultimately show ?thesis
    using True b admin_finishing [OF ad] t2(3) by (simp add: nth_append)
qed

section \<open>What make.conf means afterwards\<close>

text \<open>The \<open>make.conf\<close> of the target means what the plan says. After a run without an error the
  file defines every variable of the plan with its last value there and every other variable as
  the file the stage3 shipped, for plain values and a file with closed quotes.\<close>

theorem make_conf_effective:
  assumes "names_ok env" "is_run (WriteMakeConf env plan) m = (m', ev, None)" "make_conf_edits env plan = Inr edits"
    "\<forall>(k, v) \<in> set edits. valid_name k \<and> plain_value v"
    "shell_closed (text_or_empty env m (make_conf (se_cfg (mc_session m)) (Some (ie_root env))))"
  shows "\<exists>content. file_at m' (resolve (ie_root env) ''/etc/portage/make.conf'') = Some content \<and> shell_closed content \<and>
    var_of content = var_of (text_or_empty env m (make_conf (se_cfg (mc_session m)) (Some (ie_root env)))) ++ map_of (rev edits)"
proof -
  let ?old = "text_or_empty env m (make_conf (se_cfg (mc_session m)) (Some (ie_root env)))"
  let ?new = "fold (\<lambda>(name, v) text. render_var text name v) edits ?old" and ?p = "resolve (ie_root env) ''/etc/portage/make.conf''"
  obtain a where "write_make_conf env plan m = (m', ev, Inr a)"
    using assms(2) unfolding WriteMakeConf_def FuncStep_run by blast
  then obtain m1 ev1 p1 ev2 u where w: "write_file env ''/etc/portage/make.conf'' ?new MODE_644 m = (m1, ev1, Inr p1)"
    and d: "mark_done ''write_make_conf'' m1 = (m', ev2, Inr u)"
    unfolding write_make_conf_def act_simps(3) assms(3) act_simps(4) act_simps(6) Let_def
    by (auto simp only: act_bind_Inr emit_lines_eq)
  have "at_path ?p m' = at_path ?p m1" by (rule keepsD [OF path_frame.keeps_mark_done d])
  with write_file_at [OF w assms(1) config_paths(10)] have "file_at m' ?p = Some ?new"
    by (simp add: at_path_def file_at_def)
  then show ?thesis
    using shellconf.look_edits [OF assms(5,4)] shellconf.edits_wf [OF assms(5,4)]
    by (intro exI [of _ ?new]) simp
qed

theorem make_conf_effective_witness:
  "\<exists>m' ev edits content. is_run (WriteMakeConf demo_env demo_plan) demo_machine = (m', ev, None) \<and>
     make_conf_edits demo_env demo_plan = Inr edits \<and>
     file_at m' (resolve (ie_root demo_env) ''/etc/portage/make.conf'') = Some content \<and> var_of content ''MAKEOPTS'' = Some ''-j4''"
proof -
  obtain m' ev r where run: "is_run (WriteMakeConf demo_env demo_plan) demo_machine = (m', ev, r)"
    by (cases "is_run (WriteMakeConf demo_env demo_plan) demo_machine")
  have "snd (snd (is_run (WriteMakeConf demo_env demo_plan) demo_machine)) = None" by code_simp
  with run have run: "is_run (WriteMakeConf demo_env demo_plan) demo_machine = (m', ev, None)" by simp
  let ?es = "[(''MAKEOPTS'', ''-j4''), (''ACCEPT_LICENSE'', ''@FREE''), (''VIDEO_CARDS'', ''intel'')]"
  have n: "names_ok demo_env" by (simp add: names_ok_def demo_env_def)
  have e: "make_conf_edits demo_env demo_plan = Inr ?es" by code_simp
  have ok: "\<forall>(k, v) \<in> set ?es. valid_name k \<and> plain_value v" by code_simp
  have old: "text_or_empty demo_env demo_machine (make_conf (se_cfg (mc_session demo_machine)) (Some (ie_root demo_env))) = []"
    by (simp add: text_or_empty_def read_text_def file_at_def demo_machine_def demo_env_def)
  have "shell_closed []" "var_of [] ''MAKEOPTS'' = None" by code_simp+
  with make_conf_effective [OF n run e ok] old obtain content where
    "file_at m' (resolve (ie_root demo_env) ''/etc/portage/make.conf'') = Some content"
    "var_of content = var_of [] ++ map_of (rev ?es)" by auto
  moreover from this(2) have "var_of content ''MAKEOPTS'' = Some ''-j4''" by simp
  ultimately show ?thesis using run e by blast
qed

end
