(* ===== verification/Streamer.thy ===== *)
theory Streamer
  imports Service
begin

text \<open>
  The streaming of a long operation's output by the root services (\<open>_PipelineStreamer\<close> of
  \<open>gest/backend/kernel.py\<close>, and the same batching in \<open>stage3.py\<close> and \<open>service.py\<close>):
  an event machine on the GLib main loop, which reads a process in chunks, cuts them into lines,
  sends the lines in batches bounded by a cap and a timer, and starts the next command when one
  has ended. The lemmas show that whatever the chunking and the timer, the clients see exactly
  the lines of the output and one end.
\<close>

section \<open>The machine\<close>

datatype bus_signal = Progress "string list" | Finished int

datatype stream_phase = Reading | Waiting | Ended | Crashed

record streamer =
  sr_argvs :: "string list list"
  sr_index :: nat
  sr_buf :: "string list"
  sr_timer :: bool
  sr_partial :: string
  sr_phase :: stream_phase

definition BATCH_MAX_LINES :: nat where
  "BATCH_MAX_LINES = 200"

definition emit_buffered :: "streamer \<Rightarrow> streamer \<times> bus_signal list" where
  "emit_buffered st = (if sr_buf st \<noteq> [] then (st\<lparr>sr_buf := []\<rparr>, [Progress (sr_buf st)]) else (st, []))"

definition flush_now :: "streamer \<Rightarrow> streamer \<times> bus_signal list" where
  "flush_now st = emit_buffered (st\<lparr>sr_timer := False\<rparr>)"

definition on_timer :: "streamer \<Rightarrow> streamer \<times> bus_signal list" where
  "on_timer st = emit_buffered (st\<lparr>sr_timer := False\<rparr>)"

definition queue_line :: "(string \<Rightarrow> string) \<Rightarrow> string \<Rightarrow> streamer \<Rightarrow> streamer \<times> bus_signal list" where
  "queue_line decode raw st =
     (let st' = st\<lparr>sr_buf := sr_buf st @ [decode raw]\<rparr>
      in if BATCH_MAX_LINES \<le> length (sr_buf st') then flush_now st' else (st', []))"

fun queue_lines :: "(string \<Rightarrow> string) \<Rightarrow> string list \<Rightarrow> streamer \<Rightarrow> streamer \<times> bus_signal list" where
  "queue_lines decode [] st = (st, [])"
| "queue_lines decode (raw # raws) st =
     (case queue_line decode raw st of
        (st1, s1) \<Rightarrow> (case queue_lines decode raws st1 of (st2, s2) \<Rightarrow> (st2, s1 @ s2)))"

text \<open>Starting a program raises when it cannot be started; nothing catches it.\<close>

definition run_current :: "(string list \<Rightarrow> bool) \<Rightarrow> streamer \<Rightarrow> streamer" where
  "run_current starts st =
     (if starts (sr_argvs st ! sr_index st) then st\<lparr>sr_partial := [], sr_phase := Reading\<rparr>
      else st\<lparr>sr_phase := Crashed\<rparr>)"

definition stream_start :: "(string list \<Rightarrow> bool) \<Rightarrow> string list list \<Rightarrow> streamer" where
  "stream_start starts argvs =
     run_current starts \<lparr>sr_argvs = argvs, sr_index = 0, sr_buf = [], sr_timer = False, sr_partial = [], sr_phase = Reading\<rparr>"

text \<open>An empty chunk is the end of the output; a failed read counts as one.\<close>

definition on_chunk :: "(string \<Rightarrow> string) \<Rightarrow> string \<Rightarrow> streamer \<Rightarrow> streamer \<times> bus_signal list" where
  "on_chunk decode data st =
     (if data = [] then
        (case (if sr_partial st \<noteq> [] then queue_line decode (sr_partial st) st else (st, [])) of
           (st1, s1) \<Rightarrow>
             (case flush_now (if sr_partial st \<noteq> [] then st1\<lparr>sr_partial := []\<rparr> else st1) of
                (st2, s2) \<Rightarrow> (st2\<lparr>sr_phase := Waiting\<rparr>, s1 @ s2)))
      else
        (let lines = split_char LF (sr_partial st @ data)
         in case queue_lines decode (butlast lines) (st\<lparr>sr_partial := last lines\<rparr>) of
              (st1, s1) \<Rightarrow> (if sr_buf st1 \<noteq> [] \<and> \<not> sr_timer st1 then st1\<lparr>sr_timer := True\<rparr> else st1, s1)))"

definition on_done :: "(string list \<Rightarrow> bool) \<Rightarrow> int \<Rightarrow> streamer \<Rightarrow> streamer \<times> bus_signal list" where
  "on_done starts code st =
     (if code \<noteq> 0 \<or> length (sr_argvs st) \<le> sr_index st + 1 then (st\<lparr>sr_phase := Ended\<rparr>, [Finished code])
      else (run_current starts (st\<lparr>sr_index := sr_index st + 1\<rparr>), []))"

text \<open>The events of the main loop, and when each can come: a chunk while a read is pending, the
  timer while it is set, the exit status once the output has ended.\<close>

datatype stream_event = Chunk string | Timeout | Exited int

definition stream_step ::
    "(string list \<Rightarrow> bool) \<Rightarrow> (string \<Rightarrow> string) \<Rightarrow> stream_event \<Rightarrow> streamer \<Rightarrow> (streamer \<times> bus_signal list) option" where
  "stream_step starts decode e st =
     (case e of
        Chunk data \<Rightarrow> if sr_phase st = Reading then Some (on_chunk decode data st) else None
      | Timeout \<Rightarrow> if sr_timer st then Some (on_timer st) else None
      | Exited code \<Rightarrow> if sr_phase st = Waiting then Some (on_done starts code st) else None)"

text \<open>The runs: the events so far, the machine and the signals sent.\<close>

inductive streamed ::
    "(string list \<Rightarrow> bool) \<Rightarrow> (string \<Rightarrow> string) \<Rightarrow> string list list \<Rightarrow> stream_event list \<Rightarrow> streamer \<Rightarrow> bus_signal list \<Rightarrow> bool"
  for starts decode argvs where
  begun: "streamed starts decode argvs [] (stream_start starts argvs) []"
| moved: "streamed starts decode argvs es st sigs \<Longrightarrow> stream_step starts decode e st = Some (st', new) \<Longrightarrow>
    streamed starts decode argvs (es @ [e]) st' (sigs @ new)"

text \<open>The same as a function of the events.\<close>

fun stream_run ::
    "(string list \<Rightarrow> bool) \<Rightarrow> (string \<Rightarrow> string) \<Rightarrow> streamer \<Rightarrow> stream_event list \<Rightarrow> (streamer \<times> bus_signal list) option" where
  "stream_run starts decode st [] = Some (st, [])"
| "stream_run starts decode st (e # es) =
     (case stream_step starts decode e st of
        None \<Rightarrow> None
      | Some (st1, s1) \<Rightarrow>
          (case stream_run starts decode st1 es of None \<Rightarrow> None | Some (st2, s2) \<Rightarrow> Some (st2, s1 @ s2)))"

lemma stream_run_streamed:
  "stream_run starts decode st es = Some (st', new) \<Longrightarrow> streamed starts decode argvs before st sigs \<Longrightarrow>
    streamed starts decode argvs (before @ es) st' (sigs @ new)"
proof (induction es arbitrary: before st sigs new)
  case (Cons e es)
  from Cons(2) obtain st1 s1 s2 where "stream_step starts decode e st = Some (st1, s1)"
    "stream_run starts decode st1 es = Some (st', s2)" "new = s1 @ s2" by (auto split: option.splits prod.splits)
  with Cons(1) [OF this(2) streamed.moved [OF Cons(3) this(1)]] show ?case by simp
qed simp

section \<open>What was read and what was sent\<close>

text \<open>The outputs and exit codes of the processes that ended, and what the running one wrote.\<close>

fun hear :: "stream_event \<Rightarrow> (string \<times> int) list \<times> string \<Rightarrow> (string \<times> int) list \<times> string" where
  "hear (Chunk data) (ended, now) = (ended, now @ data)"
| "hear Timeout (ended, now) = (ended, now)"
| "hear (Exited code) (ended, now) = (ended @ [(now, code)], [])"

definition heard :: "stream_event list \<Rightarrow> (string \<times> int) list \<times> string" where
  "heard es = fold hear es ([], [])"

definition text_lines :: "string \<Rightarrow> string list" where
  "text_lines s = (let ls = split_char LF s in if last ls = [] then butlast ls else ls)"

fun sent_lines :: "bus_signal list \<Rightarrow> string list" where
  "sent_lines [] = []"
| "sent_lines (Progress ls # sigs) = ls @ sent_lines sigs"
| "sent_lines (Finished code # sigs) = sent_lines sigs"

fun ends :: "bus_signal list \<Rightarrow> int list" where
  "ends [] = []"
| "ends (Progress ls # sigs) = ends sigs"
| "ends (Finished code # sigs) = code # ends sigs"

definition batch_ok :: "bus_signal \<Rightarrow> bool" where
  "batch_ok s = (case s of Progress ls \<Rightarrow> ls \<noteq> [] \<and> length ls \<le> BATCH_MAX_LINES | Finished code \<Rightarrow> True)"

lemma sent_append [simp]: "sent_lines (a @ b) = sent_lines a @ sent_lines b" "ends (a @ b) = ends a @ ends b"
  by (induction a rule: sent_lines.induct) simp_all

lemma heard_simps [simp]: "heard [] = ([], [])" "heard (es @ [e]) = hear e (heard es)"
  by (simp_all add: heard_def)

lemma split_nonempty: "split_char d s \<noteq> []"
  by (induction s) (auto simp: split_char_def split: list.splits)

lemma split_char_append:
  "split_char d (s @ t) = butlast (split_char d s) @ split_char d (last (split_char d s) @ t)"
proof (induction s)
  case (Cons c s)
  have "split_char d s \<noteq> []" "split_char d (s @ t) \<noteq> []" by (rule split_nonempty)+
  show ?case
  proof (cases "c = d")
    case True
    then show ?thesis using Cons split_nonempty [of d s] by (simp add: split_char_def)
  next
    case False
    obtain l ls where s: "split_char d s = l # ls" using split_nonempty [of d s] by (cases "split_char d s") auto
    then show ?thesis
      using Cons False split_nonempty [of d "l @ t"]
      by (cases ls; cases "split_char d (l @ t)") (simp_all add: split_char_def)
  qed
qed (simp add: split_char_def)

lemma text_lines_parts:
  "text_lines s = butlast (split_char LF s) @ (if last (split_char LF s) \<noteq> [] then [last (split_char LF s)] else [])"
  using split_nonempty [of LF s] by (simp add: text_lines_def Let_def)

section \<open>The invariant\<close>

definition pending :: "streamer \<Rightarrow> string \<Rightarrow> string list" where
  "pending st now =
     (case sr_phase st of Reading \<Rightarrow> butlast (split_char LF now) | Waiting \<Rightarrow> text_lines now | Ended \<Rightarrow> [] | Crashed \<Rightarrow> [])"

definition stream_inv ::
    "(string \<Rightarrow> string) \<Rightarrow> string list list \<Rightarrow> (string \<times> int) list \<Rightarrow> string \<Rightarrow> streamer \<Rightarrow> bus_signal list \<Rightarrow> bool" where
  "stream_inv decode argvs ended now st sigs =
     (sr_argvs st = argvs \<and>
      sent_lines sigs @ sr_buf st = map decode (concat (map (text_lines \<circ> fst) ended) @ pending st now) \<and>
      (sr_phase st = Reading \<longrightarrow> sr_partial st = last (split_char LF now)) \<and>
      (sr_phase st \<noteq> Reading \<longrightarrow> sr_buf st = [] \<and> \<not> sr_timer st) \<and>
      (sr_buf st \<noteq> [] \<longrightarrow> sr_timer st) \<and> length (sr_buf st) < BATCH_MAX_LINES \<and>
      list_all batch_ok sigs)"

definition order_inv :: "(string \<times> int) list \<Rightarrow> streamer \<Rightarrow> bus_signal list \<Rightarrow> bool" where
  "order_inv ended st sigs =
     (if sr_phase st = Ended
      then ended \<noteq> [] \<and> sr_index st + 1 = length ended \<and> ends sigs = [snd (last ended)] \<and>
        last sigs = Finished (snd (last ended)) \<and> list_all (\<lambda>p. snd p = 0) (butlast ended) \<and>
        (snd (last ended) \<noteq> 0 \<or> length (sr_argvs st) \<le> length ended)
      else sr_index st = length ended \<and> ends sigs = [] \<and> list_all (\<lambda>p. snd p = 0) ended \<and>
        (ended \<noteq> [] \<longrightarrow> length ended < length (sr_argvs st)))"

lemma queue_line_inv:
  assumes "queue_line decode raw st = (st', new)" "length (sr_buf st) < BATCH_MAX_LINES"
  shows "sent_lines new @ sr_buf st' = sr_buf st @ [decode raw]" "length (sr_buf st') < BATCH_MAX_LINES"
    "list_all batch_ok new" "ends new = []" "sr_argvs st' = sr_argvs st" "sr_index st' = sr_index st"
    "sr_partial st' = sr_partial st" "sr_phase st' = sr_phase st"
  using assms
  by (auto simp: queue_line_def flush_now_def emit_buffered_def Let_def batch_ok_def BATCH_MAX_LINES_def split: if_splits)

lemma queue_lines_inv:
  assumes "queue_lines decode raws st = (st', new)" "length (sr_buf st) < BATCH_MAX_LINES"
  shows "sent_lines new @ sr_buf st' = sr_buf st @ map decode raws \<and> length (sr_buf st') < BATCH_MAX_LINES \<and>
    list_all batch_ok new \<and> ends new = [] \<and> sr_argvs st' = sr_argvs st \<and> sr_index st' = sr_index st \<and>
    sr_partial st' = sr_partial st \<and> sr_phase st' = sr_phase st"
  using assms
proof (induction decode raws st arbitrary: st' new rule: queue_lines.induct)
  case (2 decode raw raws st)
  obtain st1 s1 where first: "queue_line decode raw st = (st1, s1)" by (cases "queue_line decode raw st")
  obtain s2 where rest: "queue_lines decode raws st1 = (st', s2)" "new = s1 @ s2"
    using 2(2) first by (cases "queue_lines decode raws st1") simp
  note q = queue_line_inv [OF first 2(3)]
  from 2(1) [OF first [symmetric] rest(1) q(2)] q show ?case by (simp add: rest(2))
qed simp

lemma chunk_inv:
  assumes "stream_inv decode argvs ended now st sigs" "order_inv ended st sigs" "sr_phase st = Reading"
    "on_chunk decode data st = (st', new)"
  shows "stream_inv decode argvs ended (now @ data) st' (sigs @ new) \<and> order_inv ended st' (sigs @ new)"
proof (cases "data = []")
  case True
  let ?ls = "split_char LF now"
  have ne: "?ls \<noteq> []" by (rule split_nonempty)
  have p: "sr_partial st = last ?ls" and len: "length (sr_buf st) < BATCH_MAX_LINES"
    using assms(1,3) by (simp_all add: stream_inv_def)
  obtain st1 s1 where q: "(if sr_partial st \<noteq> [] then queue_line decode (sr_partial st) st else (st, [])) = (st1, s1)"
    by (cases "if sr_partial st \<noteq> [] then queue_line decode (sr_partial st) st else (st, [])")
  have i: "sent_lines s1 @ sr_buf st1 = sr_buf st @ (if sr_partial st \<noteq> [] then [decode (sr_partial st)] else [])"
    "length (sr_buf st1) < BATCH_MAX_LINES" "list_all batch_ok s1" "ends s1 = []" "sr_argvs st1 = sr_argvs st"
    "sr_index st1 = sr_index st"
    using q queue_line_inv [of decode "sr_partial st" st st1 s1] len by (auto split: if_splits)
  have st': "sr_argvs st' = sr_argvs st" "sr_index st' = sr_index st" "sr_phase st' = Waiting" "sr_buf st' = []" "\<not> sr_timer st'"
    and new: "sent_lines new = sent_lines s1 @ sr_buf st1" "ends new = []" "list_all batch_ok new"
    using assms(4) True i
    by (auto simp: on_chunk_def q flush_now_def emit_buffered_def batch_ok_def split: if_splits)
  have sent: "sent_lines sigs @ sr_buf st = map decode (concat (map (text_lines \<circ> fst) ended) @ butlast ?ls)"
    using assms(1,3) by (simp add: stream_inv_def pending_def)
  have "sent_lines (sigs @ new) = (sent_lines sigs @ sr_buf st) @ (if sr_partial st \<noteq> [] then [decode (sr_partial st)] else [])"
    using new(1) i(1) by simp
  also have "\<dots> = map decode (concat (map (text_lines \<circ> fst) ended) @ text_lines now)"
    unfolding sent text_lines_parts p by simp
  finally show ?thesis
    using assms(1-3) st' new True
    by (simp add: stream_inv_def order_inv_def pending_def BATCH_MAX_LINES_def)
next
  case False
  let ?ls = "split_char LF now"
  have p: "sr_partial st = last ?ls" and len: "length (sr_buf st) < BATCH_MAX_LINES"
    using assms(1,3) by (simp_all add: stream_inv_def)
  have sp: "split_char LF (now @ data) = butlast ?ls @ split_char LF (last ?ls @ data)" by (rule split_char_append)
  have ne: "split_char LF (last ?ls @ data) \<noteq> []" by (rule split_nonempty)
  let ?new = "split_char LF (sr_partial st @ data)"
  obtain st1 s1 where q: "queue_lines decode (butlast ?new) (st\<lparr>sr_partial := last ?new\<rparr>) = (st1, s1)"
    by (cases "queue_lines decode (butlast ?new) (st\<lparr>sr_partial := last ?new\<rparr>)")
  have i: "sent_lines s1 @ sr_buf st1 = sr_buf st @ map decode (butlast ?new)" "length (sr_buf st1) < BATCH_MAX_LINES"
    "list_all batch_ok s1" "ends s1 = []" "sr_argvs st1 = sr_argvs st" "sr_index st1 = sr_index st"
    "sr_partial st1 = last ?new" "sr_phase st1 = sr_phase st"
    using queue_lines_inv [OF q] len by auto
  have "new = s1" "st' = (if sr_buf st1 \<noteq> [] \<and> \<not> sr_timer st1 then st1\<lparr>sr_timer := True\<rparr> else st1)"
    using assms(4) False by (simp_all add: on_chunk_def Let_def q)
  moreover have "butlast (split_char LF (now @ data)) = butlast ?ls @ butlast ?new"
    "last (split_char LF (now @ data)) = last ?new"
    using ne by (simp_all add: sp p butlast_append)
  moreover have "sent_lines sigs @ sr_buf st = map decode (concat (map (text_lines \<circ> fst) ended) @ butlast ?ls)"
    using assms(1,3) by (simp add: stream_inv_def pending_def)
  then have "(sent_lines sigs @ sent_lines s1) @ sr_buf st1 =
      map decode (concat (map (text_lines \<circ> fst) ended) @ butlast ?ls @ butlast ?new)"
    using i(1) by simp
  ultimately show ?thesis
    using assms(1-3) i by (auto simp: stream_inv_def order_inv_def pending_def)
qed

lemma timer_inv:
  assumes "stream_inv decode argvs ended now st sigs" "order_inv ended st sigs" "on_timer st = (st', new)" "sr_timer st"
  shows "stream_inv decode argvs ended now st' (sigs @ new) \<and> order_inv ended st' (sigs @ new)"
  using assms
  by (auto simp: stream_inv_def order_inv_def pending_def on_timer_def emit_buffered_def batch_ok_def BATCH_MAX_LINES_def
      split: if_splits)

lemma run_current_simps:
  "sr_argvs (run_current starts st) = sr_argvs st" "sr_index (run_current starts st) = sr_index st"
  "sr_buf (run_current starts st) = sr_buf st" "sr_timer (run_current starts st) = sr_timer st"
  "sr_phase (run_current starts st) = (if starts (sr_argvs st ! sr_index st) then Reading else Crashed)"
  "starts (sr_argvs st ! sr_index st) \<Longrightarrow> sr_partial (run_current starts st) = []"
  by (simp_all add: run_current_def)

lemma done_inv:
  assumes "stream_inv decode argvs ended now st sigs" "order_inv ended st sigs" "sr_phase st = Waiting"
    "on_done starts code st = (st', new)"
  shows "stream_inv decode argvs (ended @ [(now, code)]) [] st' (sigs @ new) \<and> order_inv (ended @ [(now, code)]) st' (sigs @ new)"
proof (cases "code \<noteq> 0 \<or> length (sr_argvs st) \<le> sr_index st + 1")
  case True
  then show ?thesis
    using assms by (auto simp: on_done_def stream_inv_def order_inv_def pending_def batch_ok_def butlast_append)
next
  case False
  then have "st' = run_current starts (st\<lparr>sr_index := sr_index st + 1\<rparr>)" "new = []" "code = 0"
    using assms(4) by (simp_all add: on_done_def)
  then show ?thesis
    using assms(1-3) False
    by (auto simp: run_current_simps stream_inv_def order_inv_def pending_def split_char_def)
qed

lemma streamed_inv:
  assumes "streamed starts decode argvs es st sigs"
  shows "stream_inv decode argvs (fst (heard es)) (snd (heard es)) st sigs \<and> order_inv (fst (heard es)) st sigs"
  using assms
proof (induction rule: streamed.induct)
  case begun
  show ?case
    by (auto simp: stream_start_def run_current_def stream_inv_def order_inv_def pending_def split_char_def BATCH_MAX_LINES_def)
next
  case (moved es st sigs e st' new)
  obtain ended now where h: "heard es = (ended, now)" by (cases "heard es")
  show ?case
  proof (cases e)
    case (Chunk data)
    then have "sr_phase st = Reading" "on_chunk decode data st = (st', new)"
      using moved(2) by (auto simp: stream_step_def split: if_splits)
    with moved(3) chunk_inv [of decode argvs ended now st sigs data st' new] show ?thesis by (simp add: h Chunk)
  next
    case Timeout
    then have "sr_timer st" "on_timer st = (st', new)" using moved(2) by (auto simp: stream_step_def split: if_splits)
    with moved(3) timer_inv [of decode argvs ended now st sigs st' new] show ?thesis by (simp add: h Timeout)
  next
    case (Exited code)
    then have "sr_phase st = Waiting" "on_done starts code st = (st', new)"
      using moved(2) by (auto simp: stream_step_def split: if_splits)
    with moved(3) done_inv [of decode argvs ended now st sigs starts code st' new] show ?thesis by (simp add: h Exited)
  qed
qed

section \<open>Properties\<close>

text \<open>A line that was read and not sent waits for a timer that is set.\<close>

lemma buffered_has_timer: "streamed starts decode argvs es st sigs \<Longrightarrow> sr_buf st = [] \<or> sr_timer st"
  using streamed_inv [of starts decode argvs es st sigs] by (auto simp: stream_inv_def)

text \<open>A program that cannot be started leaves the clients waiting: no event follows and no end was sent.\<close>

lemma crashed_is_silent:
  assumes "streamed starts decode argvs es st sigs" "sr_phase st = Crashed"
  shows "stream_step starts decode e st = None" "ends sigs = []"
  using streamed_inv [OF assms(1)] assms(2)
  by (auto simp: stream_inv_def order_inv_def stream_step_def split: stream_event.splits)

text \<open>C13: The stream is the output. However the output of the commands was cut into chunks and whenever
  the timer fired, once the operation has ended the clients have received exactly the lines of
  the outputs in order, in batches of one to 200 lines, followed by one end that carries the exit
  code of the last command run; every command before it exited with zero, and the last one
  failed or was the last of the pipeline.\<close>

theorem streamed_output:
  assumes "streamed starts decode argvs es st sigs" "sr_phase st = Ended"
  shows "\<exists>batches code. sigs = batches @ [Finished code] \<and> list_all batch_ok batches \<and> ends batches = [] \<and>
    sent_lines batches = map decode (concat (map (text_lines \<circ> fst) (fst (heard es)))) \<and>
    map snd (fst (heard es)) = replicate (length (fst (heard es)) - 1) 0 @ [code] \<and>
    (code \<noteq> 0 \<or> length argvs \<le> length (fst (heard es)))"
proof -
  let ?ended = "fst (heard es)"
  have i: "stream_inv decode argvs ?ended (snd (heard es)) st sigs" and o: "order_inv ?ended st sigs"
    using streamed_inv [OF assms(1)] by simp_all
  let ?code = "snd (last ?ended)"
  have o': "?ended \<noteq> []" "ends sigs = [?code]" "last sigs = Finished ?code" "list_all (\<lambda>p. snd p = 0) (butlast ?ended)"
    "?code \<noteq> 0 \<or> length argvs \<le> length ?ended"
    using o i assms(2) by (simp_all add: order_inv_def stream_inv_def)
  have "sigs \<noteq> []" using o'(2) by auto
  then have s: "sigs = butlast sigs @ [Finished ?code]" using o'(3) append_butlast_last_id by metis
  have "ends (butlast sigs) @ [?code] = [?code]" using o'(2) s sent_append(2) [of "butlast sigs" "[Finished ?code]"] by simp
  moreover have "sent_lines (butlast sigs) = sent_lines sigs" using s sent_append(1) [of "butlast sigs" "[Finished ?code]"] by simp
  moreover have "sent_lines sigs = map decode (concat (map (text_lines \<circ> fst) ?ended))"
    using i assms(2) by (auto simp: stream_inv_def pending_def)
  moreover have "list_all batch_ok (butlast sigs)"
    using i by (auto simp: stream_inv_def list_all_iff dest: in_set_butlastD)
  moreover have "map snd ?ended = replicate (length ?ended - 1) 0 @ [?code]"
  proof -
    have "map snd (butlast ?ended) = map (\<lambda>_. 0) (butlast ?ended)" using o'(4) by (simp add: list_all_iff)
    then have "map snd (butlast ?ended @ [last ?ended]) = replicate (length ?ended - 1) 0 @ [?code]"
      by (simp add: map_replicate_const)
    then show ?thesis using o'(1) by simp
  qed
  ultimately show ?thesis using s o'(5) by (intro exI [of _ "butlast sigs"] exI [of _ ?code]) simp
qed

text \<open>What the processes of a pipeline do: chunks of output, its end, an exit code; the ones after a
  failure never start.\<close>

fun process_events :: "string list \<times> int \<Rightarrow> stream_event list" where
  "process_events (chunks, code) = map Chunk chunks @ [Chunk [], Exited code]"

fun until_failed :: "('a \<times> int) list \<Rightarrow> ('a \<times> int) list" where
  "until_failed [] = []"
| "until_failed (p # ps) = p # (if snd p \<noteq> 0 then [] else until_failed ps)"

lemma on_chunk_keeps:
  assumes "on_chunk decode data st = (st', new)" "length (sr_buf st) < BATCH_MAX_LINES"
  shows "sr_argvs st' = sr_argvs st" "sr_index st' = sr_index st" "sr_phase st' = (if data = [] then Waiting else sr_phase st)"
proof -
  have "sr_argvs st' = sr_argvs st \<and> sr_index st' = sr_index st \<and> sr_phase st' = (if data = [] then Waiting else sr_phase st)"
  proof (cases "data = []")
    case True
    then show ?thesis
      using assms
      by (auto simp: on_chunk_def queue_line_def flush_now_def emit_buffered_def Let_def split: if_splits)
  next
    case False
    let ?new = "split_char LF (sr_partial st @ data)"
    obtain st1 s1 where q: "queue_lines decode (butlast ?new) (st\<lparr>sr_partial := last ?new\<rparr>) = (st1, s1)"
      by (cases "queue_lines decode (butlast ?new) (st\<lparr>sr_partial := last ?new\<rparr>)")
    from queue_lines_inv [OF q] assms(2) show ?thesis using assms(1) False by (auto simp: on_chunk_def q Let_def)
  qed
  then show "sr_argvs st' = sr_argvs st" "sr_index st' = sr_index st" "sr_phase st' = (if data = [] then Waiting else sr_phase st)"
    by simp_all
qed

lemma chunk_taken:
  assumes "streamed starts decode argvs es st sigs" "sr_phase st = Reading"
  obtains st' sigs' where "streamed starts decode argvs (es @ [Chunk data]) st' sigs'" "sr_index st' = sr_index st"
    "sr_phase st' = (if data = [] then Waiting else Reading)"
proof -
  obtain st' new where c: "on_chunk decode data st = (st', new)" by (cases "on_chunk decode data st")
  have "length (sr_buf st) < BATCH_MAX_LINES" using streamed_inv [OF assms(1)] by (simp add: stream_inv_def)
  note k = on_chunk_keeps [OF c this]
  have "streamed starts decode argvs (es @ [Chunk data]) st' (sigs @ new)"
    using assms c by (intro streamed.moved) (auto simp: stream_step_def)
  then show thesis using that k(2,3) assms(2) by simp
qed

lemma chunks_taken:
  assumes "streamed starts decode argvs es st sigs" "sr_phase st = Reading" "list_all (\<lambda>c. c \<noteq> []) chunks"
  shows "\<exists>st' sigs'. streamed starts decode argvs (es @ map Chunk chunks) st' sigs' \<and> sr_index st' = sr_index st \<and> sr_phase st' = Reading"
  using assms
proof (induction chunks arbitrary: es st sigs)
  case (Cons c cs)
  from chunk_taken [OF Cons(2,3), of c] Cons(4)
  obtain st1 sigs1 where 1: "streamed starts decode argvs (es @ [Chunk c]) st1 sigs1" "sr_index st1 = sr_index st" "sr_phase st1 = Reading"
    by auto
  from Cons(1) [OF 1(1,3)] Cons(4) 1(2) show ?case by simp
qed auto

lemma finishes_from:
  assumes "list_all starts argvs"
  shows "streamed starts decode argvs es st sigs \<Longrightarrow> sr_phase st = Reading \<Longrightarrow> procs \<noteq> [] \<Longrightarrow>
    sr_index st + length procs = length argvs \<Longrightarrow> list_all (\<lambda>p. list_all (\<lambda>c. c \<noteq> []) (fst p)) procs \<Longrightarrow>
    \<exists>st' sigs'. streamed starts decode argvs (es @ concat (map process_events (until_failed procs))) st' sigs' \<and> sr_phase st' = Ended"
proof (induction procs arbitrary: es st sigs)
  case (Cons p procs)
  obtain cs code where p: "p = (cs, code)" by (cases p)
  from chunks_taken [OF Cons(2,3), of cs] Cons(6) obtain st1 sigs1 where
    1: "streamed starts decode argvs (es @ map Chunk cs) st1 sigs1" "sr_index st1 = sr_index st" "sr_phase st1 = Reading"
    by (auto simp: p)
  from chunk_taken [OF 1(1,3), of "[]"] obtain st2 sigs2 where
    w: "streamed starts decode argvs ((es @ map Chunk cs) @ [Chunk []]) st2 sigs2" "sr_index st2 = sr_index st" "sr_phase st2 = Waiting"
    using 1(2) by auto
  have a: "sr_argvs st2 = argvs" using streamed_inv [OF w(1)] by (simp add: stream_inv_def)
  obtain st3 new where d: "on_done starts code st2 = (st3, new)" by (cases "on_done starts code st2")
  have s: "streamed starts decode argvs (es @ process_events p) st3 (sigs2 @ new)"
    using streamed.moved [OF w(1), of "Exited code" st3 new] w(3) d by (simp add: stream_step_def p)
  show ?case
  proof (cases "code \<noteq> 0 \<or> procs = []")
    case True
    then have "sr_phase st3 = Ended" using d w(2) a Cons(5) by (auto simp: on_done_def)
    moreover have "until_failed (p # procs) = [p]" using True by (auto simp: p)
    ultimately show ?thesis using s by auto
  next
    case False
    then have n: "\<not> (code \<noteq> 0 \<or> length argvs \<le> sr_index st + 1)" using Cons(5) by (cases procs) auto
    then have "starts (argvs ! (sr_index st + 1))" using assms by (simp add: list_all_length)
    then have "sr_phase st3 = Reading" "sr_index st3 = sr_index st + 1"
      using d w(2) a n by (auto simp: on_done_def run_current_simps)
    from Cons(1) [OF s this(1)] this(2) False Cons(5,6) show ?thesis by (simp add: p)
  qed
qed simp

text \<open>C14: A stream ends. When every program can be started, each process that writes its output, closes
  it and exits moves the machine on, until the first that fails or the last: then the clients
  have been told that the operation ended.\<close>

theorem stream_finishes:
  assumes "list_all starts argvs" "length procs = length argvs" "argvs \<noteq> []"
    "list_all (\<lambda>p. list_all (\<lambda>c. c \<noteq> []) (fst p)) procs"
  shows "\<exists>st sigs. streamed starts decode argvs (concat (map process_events (until_failed procs))) st sigs \<and>
    sr_phase st = Ended \<and> ends sigs = [snd (last (until_failed procs))]"
proof -
  have "sr_phase (stream_start starts argvs) = Reading" "sr_index (stream_start starts argvs) = 0"
    using assms(1,3) by (cases argvs; simp add: stream_start_def run_current_def)+
  moreover have "procs \<noteq> []" using assms(2,3) by auto
  ultimately have "\<exists>st sigs. streamed starts decode argvs ([] @ concat (map process_events (until_failed procs))) st sigs \<and> sr_phase st = Ended"
    using assms(2,4) by (intro finishes_from [OF assms(1) begun]) simp_all
  then obtain st sigs where
    s: "streamed starts decode argvs (concat (map process_events (until_failed procs))) st sigs" "sr_phase st = Ended"
    by auto
  have h: "fold hear (concat (map process_events ps)) (ended, []) = (ended @ map (\<lambda>p. (concat (fst p), snd p)) ps, [])" for ps ended
  proof (induction ps arbitrary: ended)
    case (Cons p ps)
    have "fold hear (map Chunk cs) (e, now) = (e, now @ concat cs)" for cs e now
      by (induction cs arbitrary: now) simp_all
    with Cons show ?case by (cases p) simp
  qed simp
  have ne: "until_failed procs \<noteq> []" using assms(2,3) by (cases procs) auto
  have "ends sigs = [snd (last (fst (heard (concat (map process_events (until_failed procs))))))]"
    using streamed_inv [OF s(1)] s(2) by (simp add: order_inv_def)
  then show ?thesis using s h [of "until_failed procs" "[]"] ne by (auto simp: heard_def last_map)
qed

theorem stream_finishes_witness:
  "\<exists>st sigs. streamed (\<lambda>_. True) (\<lambda>s. s) [[''make''], [''cp'']]
     (concat (map process_events [([''a'', [LF] @ ''b''], 0), ([], 2)])) st sigs \<and> sr_phase st = Ended \<and> ends sigs = [2]"
  using stream_finishes [of "\<lambda>_. True" "[[''make''], [''cp'']]" "[([''a'', [LF] @ ''b''], 0), ([], 2)]" "\<lambda>s. s"]
  by simp

theorem streamed_output_witness:
  "\<exists>st sigs. streamed (\<lambda>_. True) (\<lambda>s. s) [[''make'']] [Chunk ''a'', Chunk (LF # ''b''), Timeout, Chunk [], Exited 0] st sigs \<and>
     sr_phase st = Ended \<and> sent_lines sigs = [''a'', ''b'']"
proof -
  let ?A = "[[''make'']]" and ?t = "\<lambda>_ :: string list. True" and ?d = "\<lambda>s :: string. s"
  let ?es = "[Chunk ''a'', Chunk (LF # ''b''), Timeout, Chunk [], Exited 0]"
  have "map_option (\<lambda>p. sr_phase (fst p)) (stream_run ?t ?d (stream_start ?t ?A) ?es) = Some Ended"
    "concat (map (text_lines \<circ> fst) (fst (heard ?es))) = [''a'', ''b'']"
    by code_simp+
  then obtain st sigs where r: "stream_run ?t ?d (stream_start ?t ?A) ?es = Some (st, sigs)" "sr_phase st = Ended"
    and l: "concat (map (text_lines \<circ> fst) (fst (heard ?es))) = [''a'', ''b'']" by auto
  have s: "streamed ?t ?d ?A ?es st sigs" using stream_run_streamed [OF r(1) begun] by simp
  from streamed_output [OF s r(2), unfolded l] obtain batches code where
    "sigs = batches @ [Finished code]" "sent_lines batches = [''a'', ''b'']" by auto
  then have "sent_lines sigs = [''a'', ''b'']" by simp
  with s r(2) show ?thesis by blast
qed

end
