(* ===== verification/KernelService.thy ===== *)
theory KernelService
  imports Streamer KernelBuild
begin

text \<open>
  The root service that builds a kernel, \<open>gest/backend/kernel.py\<close>: one method, which checks
  the request, builds the pipeline of \<open>gest/core/kernel/build.py\<close> and hands it to the
  streamer; the end of the stream is logged.
\<close>

record kernel_service =
  ks_active :: bool
  ks_streams :: "streamer list"
  ks_signals :: "bus_signal list"

text \<open>The path of a program, as \<open>shutil.which\<close> finds it.\<close>

definition resolve_program :: "(string \<Rightarrow> string option) \<Rightarrow> string list \<Rightarrow> string list" where
  "resolve_program which argv = (case which (hd argv) of None \<Rightarrow> hd argv | Some p \<Rightarrow> p) # tl argv"

definition kernel_request :: "string \<Rightarrow> string \<Rightarrow> int \<Rightarrow> string \<Rightarrow> bool \<Rightarrow> string \<Rightarrow> build_config" where
  "kernel_request build_method source_dir jobs kernel_config initramfs kver =
     (BuildConfig build_method)\<lparr>bc_source_dir := source_dir, bc_jobs := jobs, bc_kernel_config := kernel_config,
       bc_initramfs := initramfs, bc_kver := kver\<rparr>"

text \<open>A program that cannot be started raises out of the handler, with the operation marked active
  and logged as started.\<close>

definition kernel_on_call ::
    "(string \<Rightarrow> string option) \<Rightarrow> (string list \<Rightarrow> bool) \<Rightarrow> nat option \<Rightarrow> string \<Rightarrow> caller \<Rightarrow> build_config \<Rightarrow>
      kernel_service world \<Rightarrow> kernel_service world \<times> reply res" where
  "kernel_on_call which starts os meth who config w =
     (if meth \<noteq> ''Build'' then (w, Inr (ReturnError UNKNOWN_METHOD (''No such method '' @ meth)))
      else if \<not> cl_authorized who
        then (audit who ''Build'' ''denied'' [] w, Inr (ReturnError ACCESS_DENIED ''Not authorized to build a kernel''))
      else
        (case build_steps os config of
           Inl (ValueError e) \<Rightarrow> (w, Inr (ReturnError INVALID_ARGS e))
         | Inl e \<Rightarrow> (w, Inl e)
         | Inr steps \<Rightarrow>
             (let argv_list = map (\<lambda>st. resolve_program which (st_argv st)) steps;
                  w1 = audit who ''Build'' ''started'' (''kernel build ('' @ bc_method config @ '')'') w;
                  st = stream_start starts argv_list;
                  s = wd_state w1
              in (w1\<lparr>wd_state := s\<lparr>ks_active := True, ks_streams := ks_streams s @ [st]\<rparr>\<rparr>,
                  if sr_phase st = Crashed then Inl (OSError ''spawn'') else Inr (ReturnValue True [])))))"

text \<open>An event of the stream \<open>i\<close>; its end is logged without a caller.\<close>

definition kernel_event ::
    "(string list \<Rightarrow> bool) \<Rightarrow> (string \<Rightarrow> string) \<Rightarrow> nat \<Rightarrow> stream_event \<Rightarrow> kernel_service world \<Rightarrow> kernel_service world option" where
  "kernel_event starts decode i e w =
     (let s = wd_state w
      in if length (ks_streams s) \<le> i then None
         else
           (case stream_step starts decode e (ks_streams s ! i) of
              None \<Rightarrow> None
            | Some (st, new) \<Rightarrow>
                (let w1 = w\<lparr>wd_state := s\<lparr>ks_streams := (ks_streams s)[i := st], ks_signals := ks_signals s @ new\<rparr>\<rparr>
                 in Some (case ends new of
                      [] \<Rightarrow> w1
                    | code # rest \<Rightarrow> audit \<lparr>cl_authorized = True, cl_uid = None\<rparr> ''Build'' (if code = 0 then ''ok'' else ''failed'')
                        (''exit '' @ int_str code) (w1\<lparr>wd_state := (wd_state w1)\<lparr>ks_active := False\<rparr>\<rparr>)))))"

end
