(* ===== verification/SoftwareCommands.thy ===== *)
theory SoftwareCommands
  imports Regex Stage3
begin

text \<open>
  The pure parts of package management: the command builders of \<open>gest/core/software/world.py\<close>
  and \<open>news.py\<close>, those of \<open>gest/core/repos/commands.py\<close>, and the scan for a package
  operation outside the program (\<open>gest/core/software/running.py\<close>).
\<close>

section \<open>Patterns that end in a dollar\<close>

text \<open>\<open>$\<close> also matches before a line feed at the end.\<close>

definition to_dollar :: "rx \<Rightarrow> rx" where
  "to_dollar r = Seq r (Opt (lit [LF]))"

section \<open>world.py\<close>

definition world_first :: "char \<Rightarrow> bool" where
  "world_first c = (alnum_az c \<or> c \<in> set ''=<>~*'')"

definition world_char :: "char \<Rightarrow> bool" where
  "world_char c = (alnum_az c \<or> c \<in> set ''+._/:=<>~*!-'')"

definition WORLD_ATOM_RE :: rx where
  "WORLD_ATOM_RE = to_dollar (Seq (Cls world_first) (Star (Cls world_char)))"

definition valid_world_atom :: "string \<Rightarrow> bool" where
  "valid_world_atom atom = fullmatch WORLD_ATOM_RE atom"

definition deselect_argv :: "string list \<Rightarrow> string \<Rightarrow> string list res" where
  "deselect_argv atoms emerge =
     guard (\<not> (atoms = [] \<or> list_ex (\<lambda>a. \<not> valid_world_atom a) atoms)) (ValueError ''invalid or empty atom list'')
       (Inr ([emerge, ''--deselect'', ''--color'', ''n''] @ atoms))"

definition unmerge_argv :: "string list \<Rightarrow> string \<Rightarrow> string list res" where
  "unmerge_argv atoms emerge =
     guard (\<not> (atoms = [] \<or> list_ex (\<lambda>a. \<not> valid_world_atom a) atoms)) (ValueError ''invalid or empty atom list'')
       (Inr ([emerge, ''--unmerge'', ''--color'', ''n''] @ atoms))"

section \<open>news.py\<close>

definition NEWS_SELECTOR :: rx where
  "NEWS_SELECTOR =
     to_dollar (Alt (lit ''all'') (Alt (lit ''new'')
       (Seq (Cls (\<lambda>c. dec_digit c \<and> c \<noteq> CHR ''0'')) (Star (Cls dec_digit)))))"

definition mark_read_argv :: "string \<Rightarrow> string \<Rightarrow> bool \<Rightarrow> string list res" where
  "mark_read_argv selector eselect read =
     (let sel = strip selector
      in guard (fullmatch NEWS_SELECTOR sel) (ValueError (''invalid news selector: '' @ py_repr selector))
           (Inr [eselect, ''news'', if read then ''read'' else ''unread'', sel]))"

section \<open>repos/commands.py\<close>

definition REPO_NAME_RE :: rx where
  "REPO_NAME_RE = Seq (Cls alnum_az) (Star (Cls (\<lambda>c. alnum_az c \<or> c \<in> set ''_.-'')))"

definition REPO_TYPE_RE :: rx where
  "REPO_TYPE_RE = Seq (Cls lower_az) (Star (Cls (\<lambda>c. lower_az c \<or> dec_digit c \<or> c \<in> set ''+-'')))"

definition valid_repo_name :: "string \<Rightarrow> bool" where
  "valid_repo_name name = (fullmatch REPO_NAME_RE name \<and> length name \<le> 64)"

definition valid_repo_type :: "string \<Rightarrow> bool" where
  "valid_repo_type sync_type = fullmatch REPO_TYPE_RE sync_type"

definition valid_repo_uri :: "string \<Rightarrow> bool" where
  "valid_repo_uri uri = (uri \<noteq> [] \<and> \<not> list_ex (\<lambda>c. is_space c \<or> c = NUL) uri \<and> length uri \<le> 2048)"

definition require_repo_name :: "string \<Rightarrow> 'a res \<Rightarrow> 'a res" where
  "require_repo_name name k = guard (valid_repo_name name) (ValueError (''invalid repository name: '' @ py_repr name)) k"

definition repo_enable_argv :: "string \<Rightarrow> string \<Rightarrow> string list res" where
  "repo_enable_argv name eselect = require_repo_name name (Inr [eselect, ''repository'', ''enable'', name])"

definition repo_disable_argv :: "string \<Rightarrow> string \<Rightarrow> string list res" where
  "repo_disable_argv name eselect = require_repo_name name (Inr [eselect, ''repository'', ''disable'', ''-f'', name])"

definition repo_remove_argv :: "string \<Rightarrow> string \<Rightarrow> string list res" where
  "repo_remove_argv name eselect = require_repo_name name (Inr [eselect, ''repository'', ''remove'', ''-f'', name])"

definition repo_add_argv :: "string \<Rightarrow> string \<Rightarrow> string \<Rightarrow> string \<Rightarrow> string list res" where
  "repo_add_argv name sync_type uri eselect =
     require_repo_name name
       (guard (valid_repo_type sync_type) (ValueError (''invalid sync type: '' @ py_repr sync_type))
         (guard (valid_repo_uri uri) (ValueError (''invalid sync uri: '' @ py_repr uri))
           (Inr [eselect, ''repository'', ''add'', name, sync_type, uri])))"

section \<open>running.py\<close>

definition MUTATING :: "string list" where
  "MUTATING = [''emerge'', ''emaint'', ''ebuild'']"

definition READONLY_LONG :: "string list" where
  "READONLY_LONG =
     [''--pretend'', ''--search'', ''--searchdesc'', ''--info'', ''--help'', ''--version'', ''--check-news'']"

definition command_of :: "string list \<Rightarrow> string" where
  "command_of args =
     (let a0 = basename (hd args)
      in if startswith a0 ''python'' \<and> 1 < length args then basename (args ! 1) else a0)"

definition emerge_is_readonly :: "string list \<Rightarrow> bool" where
  "emerge_is_readonly args =
     list_ex (\<lambda>a. a \<in> set READONLY_LONG \<or>
       (1 < length a \<and> hd a = CHR ''-'' \<and> a ! 1 \<noteq> CHR ''-'' \<and> list_ex (\<lambda>c. c \<in> set ''psS'') (tl a))) args"

text \<open>The entries of \<open>/proc\<close>, each with the bytes of its command line unless it has gone.\<close>

type_synonym proc_entries = "(string \<times> string option) list"

definition cmdline_args :: "(string \<Rightarrow> string) \<Rightarrow> string \<Rightarrow> string list" where
  "cmdline_args decode raw = map decode (filter (\<lambda>t. t \<noteq> []) (split_char NUL raw))"

fun external_in :: "(string \<Rightarrow> string) \<Rightarrow> proc_entries \<Rightarrow> string option" where
  "external_in decode [] = None"
| "external_in decode ((pid, raw) # rest) =
     (if \<not> py_isdigit pid then external_in decode rest
      else
        (case raw of
           None \<Rightarrow> external_in decode rest
         | Some raw \<Rightarrow>
             (let args = cmdline_args decode raw
              in if args = [] then external_in decode rest
                 else
                   (let command = command_of args
                    in if command \<notin> set MUTATING then external_in decode rest
                       else if command = ''emerge'' \<and> emerge_is_readonly args then external_in decode rest
                       else Some command))))"

definition external_emerge :: "(string \<Rightarrow> string) \<Rightarrow> proc_entries option \<Rightarrow> string option" where
  "external_emerge decode pids = (case pids of None \<Rightarrow> None | Some ps \<Rightarrow> external_in decode ps)"

section \<open>Facts\<close>

lemma match_to_dollar: "fullmatch (to_dollar r) s \<longleftrightarrow> fullmatch r s \<or> (\<exists>t. s = t @ [LF] \<and> fullmatch r t)"
  by (auto simp: to_dollar_def match_Seq rx_simps)

text \<open>An atom that passes is no option.\<close>

lemma world_atom_plain: "valid_world_atom a \<Longrightarrow> a \<noteq> [] \<and> hd a \<noteq> CHR ''-''"
proof -
  assume "valid_world_atom a"
  moreover have "\<not> world_first (CHR ''-'')" by code_simp
  ultimately show ?thesis by (auto simp: valid_world_atom_def WORLD_ATOM_RE_def match_to_dollar rx_simps)
qed

lemma repo_name_plain: "valid_repo_name n \<Longrightarrow> n \<noteq> [] \<and> hd n \<noteq> CHR ''-''"
proof -
  assume "valid_repo_name n"
  moreover have "\<not> alnum_az (CHR ''-'')" by code_simp
  ultimately show ?thesis by (auto simp: valid_repo_name_def REPO_NAME_RE_def rx_simps)
qed

text \<open>What the scan answers: some process runs the command, and is not a query.\<close>

definition mutating_run :: "string list \<Rightarrow> bool" where
  "mutating_run args =
     (args \<noteq> [] \<and> command_of args \<in> set MUTATING \<and> \<not> (command_of args = ''emerge'' \<and> emerge_is_readonly args))"

lemma external_in_step:
  "external_in decode ((pid, raw) # rest) =
     (case raw of
        Some r \<Rightarrow> if py_isdigit pid \<and> mutating_run (cmdline_args decode r) then Some (command_of (cmdline_args decode r))
          else external_in decode rest
      | None \<Rightarrow> external_in decode rest)"
  by (cases raw) (simp_all add: mutating_run_def Let_def)

lemma external_found:
  "external_in decode ps = Some command \<Longrightarrow>
    \<exists>pid raw. (pid, Some raw) \<in> set ps \<and> py_isdigit pid \<and> mutating_run (cmdline_args decode raw) \<and>
      command_of (cmdline_args decode raw) = command"
proof (induction ps)
  case (Cons p rest)
  show ?case
  proof (cases "\<exists>pid raw. p = (pid, Some raw) \<and> py_isdigit pid \<and> mutating_run (cmdline_args decode raw)")
    case True
    then obtain pid raw where p: "p = (pid, Some raw)" "py_isdigit pid" "mutating_run (cmdline_args decode raw)" by blast
    with Cons(2) have "command = command_of (cmdline_args decode raw)" by (simp only: external_in_step) simp
    with p show ?thesis by auto
  next
    case False
    then have "external_in decode (p # rest) = external_in decode rest"
      by (cases p) (simp only: external_in_step, auto split: option.split)
    with Cons show ?thesis by fastforce
  qed
qed simp

lemma external_none:
  "external_in decode ps = None \<Longrightarrow> (pid, Some raw) \<in> set ps \<Longrightarrow> py_isdigit pid \<Longrightarrow> \<not> mutating_run (cmdline_args decode raw)"
proof (induction ps)
  case (Cons p rest)
  obtain pid' raw' where p: "p = (pid', raw')" by (cases p)
  have "external_in decode rest = None \<and> (case raw' of None \<Rightarrow> True | Some r \<Rightarrow> \<not> (py_isdigit pid' \<and> mutating_run (cmdline_args decode r)))"
    using Cons(2) unfolding p external_in_step by (simp split: option.splits if_splits)
  with Cons(1,3,4) show ?case by (auto simp: p)
qed simp

text \<open>A switch between the interpreter and the script hides the run.\<close>

lemma switch_hides_run:
  "external_in (\<lambda>t. t) [(''17'', Some (join [NUL] [''/usr/bin/python3'', ''/usr/bin/emerge'', ''@world'']))] = Some ''emerge''"
  "external_in (\<lambda>t. t) [(''17'', Some (join [NUL] [''/usr/bin/python3'', ''-b'', ''/usr/bin/emerge'', ''@world'']))] = None"
  by code_simp+

end
