(* ===== verification/SoftwareService.thy ===== *)
theory SoftwareService
  imports KernelService SoftwareCommands
begin

text \<open>
  The root service for packages, \<open>gest/backend/service.py\<close>: one package operation at a time,
  across all the sessions that use the service and the user's own shells. A call is refused while
  an operation is active; an operation that streams stays active until its process has ended,
  and while one is active the process does not exit for being idle. The lemmas show that the
  count of active operations is the number of live streams, at most one.
\<close>

section \<open>State and calls\<close>

datatype soft_call =
    InstallPreview string
  | Install string
  | InstallMulti "string list"
  | InstallBinaryMulti "string list" bool
  | Rebuild string
  | UpdateWorld
  | Depclean string
  | DepcleanMulti "string list"
  | UnmergeMulti "string list"
  | SyncTree
  | SyncRepos "string list"
  | MarkNewsRead string
  | MarkNewsUnread string
  | Deselect "string list"
  | PackageStatus
  | NoSuchMethod string

datatype soft_reply =
    SoftError string string
  | SoftStarted bool
  | SoftOutcome bool string
  | SoftText string

record soft_state =
  so_active :: nat
  so_operation :: string
  so_last :: int
  so_streams :: "streamer list"
  so_signals :: "bus_signal list"
  so_ran :: "string list list"
  so_replies :: "soft_reply list"
  so_audit :: "audit_entry list"
  so_quit :: bool

text \<open>What the outside answers during one step: the clock in microseconds, the processes of the
  machine, polkit (nothing when it cannot be reached), the uid of the caller, which programs
  start, and the exit code and output of a program run to its end, or why it could not run.\<close>

record soft_env =
  sv_now :: int
  sv_procs :: "proc_entries option"
  sv_polkit :: "string \<Rightarrow> bool option"
  sv_uid :: "int option"
  sv_starts :: "string list \<Rightarrow> bool"
  sv_run :: "string list \<Rightarrow> string + (int \<times> string)"
  sv_decode :: "string \<Rightarrow> string"
  sv_emerge :: string
  sv_eselect :: string
  sv_emaint :: string

definition IDLE_TIMEOUT :: int where
  "IDLE_TIMEOUT = 120"

definition BUSY_ERROR :: string where
  "BUSY_ERROR = ''org.gentoo.gest.Busy''"

definition polkit_action :: "string \<Rightarrow> string" where
  "polkit_action verb = ''org.gentoo.gest.software.'' @ verb"

definition SOFT_ATOM_RE :: rx where
  "SOFT_ATOM_RE =
     to_dollar (Seq (Cls (\<lambda>c. lower_az c \<or> dec_digit c)) (Seq (Star (Cls (\<lambda>c. lower_az c \<or> dec_digit c \<or> c \<in> set ''+._-'')))
       (Seq (lit ''/'') (Plus (Cls (\<lambda>c. alnum_az c \<or> c \<in> set ''+._-''))))))"

definition touch :: "soft_env \<Rightarrow> soft_state \<Rightarrow> soft_state" where
  "touch env s = s\<lparr>so_last := sv_now env\<rparr>"

definition begin_op :: "string \<Rightarrow> soft_state \<Rightarrow> soft_state" where
  "begin_op operation s = s\<lparr>so_active := so_active s + 1, so_operation := operation\<rparr>"

text \<open>\<open>max(active - 1, 0)\<close> is the subtraction of the naturals.\<close>

definition end_op :: "soft_env \<Rightarrow> soft_state \<Rightarrow> soft_state" where
  "end_op env s =
     (let n = so_active s - 1
      in touch env (s\<lparr>so_active := n, so_operation := (if n = 0 then [] else so_operation s)\<rparr>))"

definition busy_message :: "soft_env \<Rightarrow> soft_state \<Rightarrow> string" where
  "busy_message env s =
     (if 0 < so_active s
      then (if so_operation s \<noteq> [] then so_operation s else ''A package operation'') @ '' is running in another GeST session''
      else
        (case external_emerge (sv_decode env) (sv_procs env) of
           None \<Rightarrow> []
         | Some external \<Rightarrow> ''An external '' @ external @ '' is running outside GeST''))"

definition soft_reply_with :: "soft_reply \<Rightarrow> soft_state \<Rightarrow> soft_state" where
  "soft_reply_with r s = s\<lparr>so_replies := so_replies s @ [r]\<rparr>"

definition soft_audit :: "soft_env \<Rightarrow> string \<Rightarrow> string \<Rightarrow> string \<Rightarrow> soft_state \<Rightarrow> soft_state" where
  "soft_audit env action result detail s =
     s\<lparr>so_audit := so_audit s @ [\<lparr>au_method = action, au_uid = sv_uid env, au_result = result, au_detail = detail\<rparr>]\<rparr>"

definition should_exit :: "nat \<Rightarrow> int \<Rightarrow> int \<Rightarrow> bool \<Rightarrow> bool" where
  "should_exit active idle_us timeout code_changed =
     (if active \<noteq> 0 then False else code_changed \<or> timeout * 1000000 \<le> idle_us)"

text \<open>The check of every ten seconds; \<open>on_idle\<close> ends the main loop.\<close>

definition idle_check :: "soft_env \<Rightarrow> bool \<Rightarrow> soft_state \<Rightarrow> soft_state" where
  "idle_check env code_changed s =
     (if should_exit (so_active s) (sv_now env - so_last s) IDLE_TIMEOUT code_changed then s\<lparr>so_quit := True\<rparr> else s)"

section \<open>Handlers\<close>

definition check_authorized :: "soft_env \<Rightarrow> string \<Rightarrow> soft_state \<Rightarrow> bool \<times> soft_state" where
  "check_authorized env action s =
     (case sv_polkit env action of
        None \<Rightarrow> (False, s)
      | Some ok \<Rightarrow> (ok, soft_audit env action (if ok then ''authorized'' else ''denied'') [] s))"

text \<open>The lock, then polkit, then the method.\<close>

definition unless_busy :: "soft_env \<Rightarrow> (soft_state \<Rightarrow> soft_state) \<Rightarrow> soft_state \<Rightarrow> soft_state" where
  "unless_busy env k s =
     (let message = busy_message env s
      in if message \<noteq> [] then soft_reply_with (SoftError BUSY_ERROR message) s else k s)"

definition when_authorized :: "soft_env \<Rightarrow> string \<Rightarrow> string \<Rightarrow> (soft_state \<Rightarrow> soft_state) \<Rightarrow> soft_state \<Rightarrow> soft_state" where
  "when_authorized env verb denied k s =
     (case check_authorized env (polkit_action verb) s of
        (ok, s) \<Rightarrow> if ok then k s else soft_reply_with (SoftError ''ACCESS_DENIED'' denied) s)"

text \<open>The closures of \<open>_spawn_streaming\<close> are the streamer on one command. When the program cannot be
  started the call raises after the operation was counted.\<close>

definition spawn_streaming :: "soft_env \<Rightarrow> string list \<Rightarrow> string \<Rightarrow> soft_state \<Rightarrow> soft_state" where
  "spawn_streaming env argv operation s =
     (let s = begin_op operation s
      in if sv_starts env argv
         then s\<lparr>so_streams := so_streams s @ [stream_start (\<lambda>_. True) [argv]], so_ran := so_ran s @ [argv]\<rparr>
         else s)"

definition start_streaming :: "soft_env \<Rightarrow> string list \<Rightarrow> string \<Rightarrow> soft_state \<Rightarrow> soft_state" where
  "start_streaming env argv operation s =
     spawn_streaming env argv operation (soft_reply_with (SoftStarted True) s)"

definition bad_atoms :: "string list \<Rightarrow> bool" where
  "bad_atoms atoms = (atoms = [] \<or> list_ex (\<lambda>a. \<not> fullmatch SOFT_ATOM_RE a) atoms)"

definition invalid_args :: "string \<Rightarrow> soft_state \<Rightarrow> soft_state" where
  "invalid_args message = soft_reply_with (SoftError ''INVALID_ARGS'' message)"

definition ATOM_LIST_ERROR :: string where
  "ATOM_LIST_ERROR = ''invalid or empty package atom list''"

definition package_status :: "soft_env \<Rightarrow> soft_state \<Rightarrow> soft_state" where
  "package_status env s = (let message = busy_message env s in soft_reply_with (SoftOutcome (message \<noteq> []) message) s)"

definition run_to_end :: "soft_env \<Rightarrow> string list \<Rightarrow> soft_state \<Rightarrow> soft_state \<times> (string + int \<times> string)" where
  "run_to_end env argv s =
     (case sv_run env argv of
        Inl e \<Rightarrow> (s, Inl e)
      | Inr r \<Rightarrow> (s\<lparr>so_ran := so_ran s @ [argv]\<rparr>, Inr r))"

definition install_preview :: "soft_env \<Rightarrow> string \<Rightarrow> soft_state \<Rightarrow> soft_state" where
  "install_preview env atom s =
     (case run_to_end env [sv_emerge env, ''--pretend'', ''--verbose'', ''--color'', ''n'', atom] s of
        (s, Inl e) \<Rightarrow> soft_reply_with (SoftError ''FAILED'' (''preview failed: '' @ e)) s
      | (s, Inr (code, out)) \<Rightarrow> soft_reply_with (SoftText out) s)"

definition soft_install :: "soft_env \<Rightarrow> string \<Rightarrow> soft_state \<Rightarrow> soft_state" where
  "soft_install env atom =
     unless_busy env (when_authorized env ''install'' ''Not authorized to install packages''
       (start_streaming env [sv_emerge env, ''--color'', ''n'', atom] ''A package install''))"

definition install_multi :: "soft_env \<Rightarrow> string list \<Rightarrow> soft_state \<Rightarrow> soft_state" where
  "install_multi env atoms =
     unless_busy env (when_authorized env ''install'' ''Not authorized to install packages''
       (if bad_atoms atoms then invalid_args ATOM_LIST_ERROR
        else start_streaming env ([sv_emerge env, ''--color'', ''n''] @ atoms) ''A package install''))"

definition install_binary_multi :: "soft_env \<Rightarrow> string list \<Rightarrow> bool \<Rightarrow> soft_state \<Rightarrow> soft_state" where
  "install_binary_multi env atoms only =
     unless_busy env (when_authorized env ''install'' ''Not authorized to install packages''
       (if bad_atoms atoms then invalid_args ATOM_LIST_ERROR
        else start_streaming env
          ([sv_emerge env, ''--getbinpkg''] @ (if only then [''--usepkgonly''] else []) @ [''--color'', ''n''] @ atoms)
          ''A package install''))"

definition soft_rebuild :: "soft_env \<Rightarrow> string \<Rightarrow> soft_state \<Rightarrow> soft_state" where
  "soft_rebuild env atom =
     unless_busy env (when_authorized env ''install'' ''Not authorized to rebuild packages''
       (start_streaming env [sv_emerge env, ''--changed-use'', ''--color'', ''n'', atom] ''A package rebuild''))"

definition update_world :: "soft_env \<Rightarrow> soft_state \<Rightarrow> soft_state" where
  "update_world env =
     unless_busy env (when_authorized env ''install'' ''Not authorized to update the system''
       (start_streaming env [sv_emerge env, ''-uDN'', ''--color'', ''n'', ''@world''] ''A system update''))"

definition soft_depclean :: "soft_env \<Rightarrow> string \<Rightarrow> soft_state \<Rightarrow> soft_state" where
  "soft_depclean env atom =
     unless_busy env (when_authorized env ''remove'' ''Not authorized to remove packages''
       (if atom \<noteq> [] \<and> \<not> fullmatch SOFT_ATOM_RE atom then invalid_args ''invalid package atom''
        else start_streaming env ([sv_emerge env, ''--depclean'', ''--color'', ''n''] @ (if atom \<noteq> [] then [atom] else []))
          ''A package removal''))"

definition depclean_multi :: "soft_env \<Rightarrow> string list \<Rightarrow> soft_state \<Rightarrow> soft_state" where
  "depclean_multi env atoms =
     unless_busy env (when_authorized env ''remove'' ''Not authorized to remove packages''
       (if bad_atoms atoms then invalid_args ATOM_LIST_ERROR
        else start_streaming env ([sv_emerge env, ''--depclean'', ''--color'', ''n''] @ atoms) ''A package removal''))"

definition unmerge_multi :: "soft_env \<Rightarrow> string list \<Rightarrow> soft_state \<Rightarrow> soft_state" where
  "unmerge_multi env atoms =
     unless_busy env (when_authorized env ''remove'' ''Not authorized to remove packages''
       (case unmerge_argv atoms (sv_emerge env) of
          Inl e \<Rightarrow> invalid_args ATOM_LIST_ERROR
        | Inr argv \<Rightarrow> start_streaming env argv ''A package removal''))"

definition soft_sync :: "soft_env \<Rightarrow> soft_state \<Rightarrow> soft_state" where
  "soft_sync env =
     unless_busy env (when_authorized env ''sync'' ''Not authorized to sync the Portage tree''
       (start_streaming env [sv_emerge env, ''--sync'', ''--color'', ''n''] ''A Portage tree sync''))"

definition run_outcome :: "string + (int \<times> string) \<Rightarrow> int \<times> string" where
  "run_outcome r = (case r of Inl e \<Rightarrow> (- 1, e) | Inr p \<Rightarrow> p)"

text \<open>Each repository in turn; a failure is noted and the next one is still tried.\<close>

fun sync_each :: "soft_env \<Rightarrow> string list \<Rightarrow> bool \<Rightarrow> string list \<Rightarrow> soft_state \<Rightarrow> soft_state \<times> bool \<times> string list" where
  "sync_each env [] ok_all outputs s = (s, ok_all, outputs)"
| "sync_each env (name # names) ok_all outputs s =
     (case run_to_end env [sv_emaint env, ''sync'', ''--repo'', name] s of
        (s1, r) \<Rightarrow>
          (case run_outcome r of (code, out) \<Rightarrow>
             sync_each env names (ok_all \<and> code = 0)
               (outputs @ [''=== '' @ name @ '': '' @ (if code = 0 then ''ok'' else ''failed'') @ '' ==='' @ [LF] @ strip out]) s1))"

definition sync_repos :: "soft_env \<Rightarrow> string list \<Rightarrow> soft_state \<Rightarrow> soft_state" where
  "sync_repos env names =
     unless_busy env (when_authorized env ''sync'' ''Not authorized to sync repositories''
       (\<lambda>s. if names = [] \<or> list_ex (\<lambda>n. \<not> valid_repo_name n) names
            then invalid_args ''invalid or empty repository name list'' s
            else
              (case sync_each env names True [] (begin_op ''A repository sync'' s) of
                 (s, ok_all, outputs) \<Rightarrow>
                   soft_reply_with (SoftOutcome ok_all (join [LF] outputs))
                     (soft_audit env ''software.sync_repos'' (if ok_all then ''ok'' else ''failed'') (join '','' names)
                       (end_op env s)))))"

definition soft_deselect :: "soft_env \<Rightarrow> string list \<Rightarrow> soft_state \<Rightarrow> soft_state" where
  "soft_deselect env atoms =
     unless_busy env (when_authorized env ''remove'' ''Not authorized to deselect packages''
       (\<lambda>s. case deselect_argv atoms (sv_emerge env) of
            Inl e \<Rightarrow> invalid_args ATOM_LIST_ERROR s
          | Inr argv \<Rightarrow>
              (case run_to_end env argv (begin_op ''An @world set update'' s) of
                 (s, r) \<Rightarrow>
                   (case run_outcome r of (code, out) \<Rightarrow>
                      soft_reply_with (SoftOutcome (code = 0) (strip out))
                        (soft_audit env ''software.deselect'' (if code = 0 then ''ok'' else ''failed'') (join '','' atoms)
                          (end_op env s))))))"

definition mark_news :: "soft_env \<Rightarrow> string \<Rightarrow> bool \<Rightarrow> soft_state \<Rightarrow> soft_state" where
  "mark_news env selector read =
     when_authorized env ''news'' ''Not authorized to mark news''
       (\<lambda>s. case mark_read_argv selector (sv_eselect env) read of
            Inl e \<Rightarrow> invalid_args ''invalid news selector'' s
          | Inr argv \<Rightarrow>
              (case run_to_end env argv s of
                 (s, Inl e) \<Rightarrow> soft_reply_with (SoftError ''FAILED'' (''mark-read failed: '' @ e)) s
               | (s, Inr (code, out)) \<Rightarrow> soft_reply_with (SoftStarted (code = 0)) s))"

fun soft_dispatch :: "soft_env \<Rightarrow> soft_call \<Rightarrow> soft_state \<Rightarrow> soft_state" where
  "soft_dispatch env (InstallPreview atom) s = install_preview env atom s"
| "soft_dispatch env (Install atom) s = soft_install env atom s"
| "soft_dispatch env (InstallMulti atoms) s = install_multi env atoms s"
| "soft_dispatch env (InstallBinaryMulti atoms only) s = install_binary_multi env atoms only s"
| "soft_dispatch env (Rebuild atom) s = soft_rebuild env atom s"
| "soft_dispatch env UpdateWorld s = update_world env s"
| "soft_dispatch env (Depclean atom) s = soft_depclean env atom s"
| "soft_dispatch env (DepcleanMulti atoms) s = depclean_multi env atoms s"
| "soft_dispatch env (UnmergeMulti atoms) s = unmerge_multi env atoms s"
| "soft_dispatch env SyncTree s = soft_sync env s"
| "soft_dispatch env (SyncRepos names) s = sync_repos env names s"
| "soft_dispatch env (MarkNewsRead selector) s = mark_news env selector True s"
| "soft_dispatch env (MarkNewsUnread selector) s = mark_news env selector False s"
| "soft_dispatch env (Deselect atoms) s = soft_deselect env atoms s"
| "soft_dispatch env PackageStatus s = package_status env s"
| "soft_dispatch env (NoSuchMethod meth) s = soft_reply_with (SoftError ''UNKNOWN_METHOD'' (''No such method '' @ meth)) s"

definition soft_on_call :: "soft_env \<Rightarrow> soft_call \<Rightarrow> soft_state \<Rightarrow> soft_state" where
  "soft_on_call env call s = soft_dispatch env call (touch env s)"

text \<open>An event of the stream \<open>i\<close>; its end closes the operation.\<close>

definition soft_stream_event :: "soft_env \<Rightarrow> nat \<Rightarrow> stream_event \<Rightarrow> soft_state \<Rightarrow> soft_state option" where
  "soft_stream_event env i e s =
     (if length (so_streams s) \<le> i then None
      else
        (case stream_step (\<lambda>_. True) (sv_decode env) e (so_streams s ! i) of
           None \<Rightarrow> None
         | Some (st, new) \<Rightarrow>
             (let s1 = s\<lparr>so_streams := (so_streams s)[i := st], so_signals := so_signals s @ new\<rparr>
              in Some (if ends new \<noteq> [] then end_op env s1 else s1))))"

section \<open>The life of the service\<close>

datatype soft_event = Called soft_call | Streamed nat stream_event | IdleTick bool

definition soft_step :: "soft_env \<Rightarrow> soft_event \<Rightarrow> soft_state \<Rightarrow> soft_state option" where
  "soft_step env e s =
     (if so_quit s then None
      else (case e of
          Called call \<Rightarrow> Some (soft_on_call env call s)
        | Streamed i ev \<Rightarrow> soft_stream_event env i ev s
        | IdleTick changed \<Rightarrow> Some (idle_check env changed s)))"

definition soft_init :: "int \<Rightarrow> soft_state" where
  "soft_init now = \<lparr>so_active = 0, so_operation = [], so_last = now, so_streams = [], so_signals = [], so_ran = [],
     so_replies = [], so_audit = [], so_quit = False\<rparr>"

inductive soft_reaches :: "(soft_env \<times> soft_event) list \<Rightarrow> soft_state \<Rightarrow> bool" where
  soft_born: "soft_reaches [] (soft_init now)"
| soft_moved: "soft_reaches es s \<Longrightarrow> soft_step env e s = Some s' \<Longrightarrow> soft_reaches (es @ [(env, e)]) s'"

section \<open>The process around it\<close>

text \<open>The version of the code on disk: the first line that assigns \<open>__version__\<close> a quoted text.\<close>

definition version_at :: "string \<Rightarrow> string option" where
  "version_at t =
     (if \<not> startswith t ''__version__'' then None
      else
        (case dropWhile is_space (drop 11 t) of
           [] \<Rightarrow> None
         | c # t1 \<Rightarrow>
             if c \<noteq> CHR ''='' then None
             else
               (case dropWhile is_space t1 of
                  [] \<Rightarrow> None
                | q # t2 \<Rightarrow>
                    if q \<notin> {DQUOTE, SQUOTE} then None
                    else
                      (let v = takeWhile (\<lambda>c. c \<notin> {DQUOTE, SQUOTE}) t2
                       in if v \<noteq> [] \<and> drop (length v) t2 \<noteq> [] then Some v else None))))"

fun find_version :: "bool \<Rightarrow> string \<Rightarrow> string option" where
  "find_version at_start [] = None"
| "find_version at_start (c # t) =
     (case (if at_start then version_at (c # t) else None) of
        Some v \<Rightarrow> Some v
      | None \<Rightarrow> find_version (c = LF) t)"

definition code_changed :: "string option \<Rightarrow> string \<Rightarrow> bool" where
  "code_changed content running =
     (case content of
        None \<Rightarrow> False
      | Some text \<Rightarrow> (case find_version True text of None \<Rightarrow> False | Some v \<Rightarrow> v \<noteq> running))"

definition SYSTEM_PATH :: "string list" where
  "SYSTEM_PATH = [''/usr/local/sbin'', ''/usr/local/bin'', ''/usr/sbin'', ''/usr/bin'', ''/sbin'', ''/bin'']"

definition augmented_path :: "string \<Rightarrow> string" where
  "augmented_path current =
     (let extra = filter (\<lambda>p. p \<noteq> [] \<and> p \<notin> set SYSTEM_PATH) (split_char (CHR '':'') current)
      in join '':'' (SYSTEM_PATH @ extra))"

section \<open>Live streams\<close>

definition live :: "streamer \<Rightarrow> bool" where
  "live st = (sr_phase st \<in> {Reading, Waiting})"

definition single :: "streamer \<Rightarrow> bool" where
  "single st = (length (sr_argvs st) = 1 \<and> sr_index st = 0 \<and> sr_phase st \<noteq> Crashed)"

lemma queue_line_keeps:
  "queue_line decode raw st = (st', new) \<Longrightarrow>
    sr_argvs st' = sr_argvs st \<and> sr_index st' = sr_index st \<and> sr_phase st' = sr_phase st \<and> ends new = []"
  by (auto simp: queue_line_def flush_now_def emit_buffered_def Let_def split: if_splits)

lemma queue_lines_keeps:
  "queue_lines decode raws st = (st', new) \<Longrightarrow>
    sr_argvs st' = sr_argvs st \<and> sr_index st' = sr_index st \<and> sr_phase st' = sr_phase st \<and> ends new = []"
proof (induction decode raws st arbitrary: st' new rule: queue_lines.induct)
  case (2 decode raw raws st)
  obtain st1 s1 where q: "queue_line decode raw st = (st1, s1)" by (cases "queue_line decode raw st")
  obtain s2 where r: "queue_lines decode raws st1 = (st', s2)" "new = s1 @ s2"
    using 2(2) q by (cases "queue_lines decode raws st1") simp
  from 2(1) [OF q [symmetric] r(1)] queue_line_keeps [OF q] r(2) show ?case by simp
qed simp

lemma chunk_step:
  assumes "on_chunk decode data st = (st', new)"
  shows "sr_argvs st' = sr_argvs st \<and> sr_index st' = sr_index st \<and> sr_phase st' = (if data = [] then Waiting else sr_phase st) \<and>
    ends new = []"
proof (cases "data = []")
  case True
  obtain st1 s1 where q: "(if sr_partial st \<noteq> [] then queue_line decode (sr_partial st) st else (st, [])) = (st1, s1)"
    by (cases "if sr_partial st \<noteq> [] then queue_line decode (sr_partial st) st else (st, [])")
  have "sr_argvs st1 = sr_argvs st \<and> sr_index st1 = sr_index st \<and> ends s1 = []"
    using q queue_line_keeps [of decode "sr_partial st" st st1 s1] by (auto split: if_splits)
  then show ?thesis
    using assms True by (auto simp: on_chunk_def q flush_now_def emit_buffered_def split: if_splits)
next
  case False
  let ?new = "split_char LF (sr_partial st @ data)"
  obtain st1 s1 where q: "queue_lines decode (butlast ?new) (st\<lparr>sr_partial := last ?new\<rparr>) = (st1, s1)"
    by (cases "queue_lines decode (butlast ?new) (st\<lparr>sr_partial := last ?new\<rparr>)")
  from queue_lines_keeps [OF q] show ?thesis using assms False by (auto simp: on_chunk_def q Let_def)
qed

text \<open>A stream of one command ends once, and says so then.\<close>

lemma single_step:
  assumes "stream_step (\<lambda>_. True) decode e st = Some (st', new)" "single st"
  shows "single st' \<and> (if ends new \<noteq> [] then live st \<and> \<not> live st' else live st' = live st)"
proof (cases e)
  case (Chunk data)
  then have c: "sr_phase st = Reading" "on_chunk decode data st = (st', new)"
    using assms(1) by (auto simp: stream_step_def split: if_splits)
  show ?thesis using chunk_step [OF c(2)] c(1) assms(2) by (simp add: single_def live_def)
next
  case Timeout
  then show ?thesis
    using assms by (auto simp: stream_step_def on_timer_def emit_buffered_def single_def live_def split: if_splits)
next
  case (Exited code)
  then show ?thesis
    using assms by (auto simp: stream_step_def on_done_def single_def live_def split: if_splits)
qed

abbreviation live_count :: "soft_state \<Rightarrow> nat" where
  "live_count s \<equiv> length (filter live (so_streams s))"

lemma live_count_update:
  "i < length sts \<Longrightarrow> length (filter live (sts[i := st])) + (if live (sts ! i) then 1 else 0)
     = length (filter live sts) + (if live st then 1 else 0)"
proof (induction sts arbitrary: i)
  case (Cons a sts)
  then show ?case by (cases i) auto
qed simp

lemma stream_event_count:
  assumes "soft_stream_event env i e s = Some s'" "list_all single (so_streams s)"
  shows "list_all single (so_streams s') \<and> so_quit s' = so_quit s \<and>
    (if live_count s' = live_count s then so_active s' = so_active s \<and> so_operation s' = so_operation s
     else live_count s = live_count s' + 1 \<and> so_active s' = so_active s - 1 \<and>
       so_operation s' = (if so_active s' = 0 then [] else so_operation s))"
proof -
  have i: "i < length (so_streams s)" using assms(1) by (auto simp: soft_stream_event_def split: if_splits)
  then obtain st new where st: "stream_step (\<lambda>_. True) (sv_decode env) e (so_streams s ! i) = Some (st, new)"
    and s': "s' = (let s1 = s\<lparr>so_streams := (so_streams s)[i := st], so_signals := so_signals s @ new\<rparr>
      in if ends new \<noteq> [] then end_op env s1 else s1)"
    using assms(1) by (auto simp: soft_stream_event_def Let_def split: option.splits prod.splits if_splits)
  have "single (so_streams s ! i)" using assms(2) i by (simp add: list_all_length)
  note k = single_step [OF st this]
  have "list_all single ((so_streams s)[i := st])" using assms(2) k i by (auto simp: list_all_length nth_list_update)
  then show ?thesis
    using k live_count_update [OF i, of st] by (auto simp: s' Let_def end_op_def touch_def split: if_splits)
qed

text \<open>What a call may change of the count: nothing, or one more operation when there was none.\<close>

definition call_ok :: "soft_env \<Rightarrow> soft_state \<Rightarrow> soft_state \<Rightarrow> bool" where
  "call_ok env s s' =
     (so_quit s' = so_quit s \<and>
      ((so_streams s' = so_streams s \<and> so_active s' = so_active s \<and> (so_operation s' = so_operation s \<or> so_active s = 0 \<and> so_operation s' = [])) \<or>
       (so_active s = 0 \<and> so_active s' = 1 \<and> so_operation s' \<noteq> [] \<and>
         (so_streams s' = so_streams s \<or> (\<exists>argv. so_streams s' = so_streams s @ [stream_start (\<lambda>_. True) [argv]])) \<and>
         (so_streams s' = so_streams s \<longrightarrow> (\<exists>argv. \<not> sv_starts env argv)))))"

lemmas soft_parts = soft_reply_with_def soft_audit_def invalid_args_def touch_def

lemma run_to_end_keeps:
  "run_to_end env argv s = (s', r) \<Longrightarrow>
    so_quit s' = so_quit s \<and> so_streams s' = so_streams s \<and> so_active s' = so_active s \<and> so_operation s' = so_operation s"
  by (auto simp: run_to_end_def split: sum.splits)

lemma sync_each_keeps:
  "sync_each env names ok outs s = (s', r) \<Longrightarrow>
    so_quit s' = so_quit s \<and> so_streams s' = so_streams s \<and> so_active s' = so_active s \<and> so_operation s' = so_operation s"
proof (induction names arbitrary: ok outs s)
  case (Cons name names)
  obtain s1 r1 where r: "run_to_end env [sv_emaint env, ''sync'', ''--repo'', name] s = (s1, r1)"
    by (cases "run_to_end env [sv_emaint env, ''sync'', ''--repo'', name] s")
  obtain code out where c: "run_outcome r1 = (code, out)" by (cases "run_outcome r1")
  show ?case
    using Cons(1) Cons(2) [unfolded sync_each.simps r prod.case c] run_to_end_keeps [OF r] by fastforce
qed simp

lemma reply_ok: "call_ok env s (soft_reply_with r s)"
  by (simp add: call_ok_def soft_parts)

lemma invalid_ok: "call_ok env s (invalid_args m s)"
  by (simp add: call_ok_def soft_parts)

lemma start_ok:
  assumes "so_active s = 0" "operation \<noteq> []"
  shows "call_ok env s (start_streaming env argv operation s)"
  using assms by (auto simp: call_ok_def start_streaming_def spawn_streaming_def begin_op_def soft_parts Let_def)

lemma check_authorized_ok:
  assumes "check_authorized env action s = (ok, s1)"
  shows "so_active s1 = so_active s" "call_ok env s1 s' \<longleftrightarrow> call_ok env s s'"
proof -
  have "so_active s1 = so_active s \<and> so_operation s1 = so_operation s \<and> so_streams s1 = so_streams s \<and> so_quit s1 = so_quit s"
    using assms by (auto simp: check_authorized_def soft_parts split: option.splits)
  then show "so_active s1 = so_active s" "call_ok env s1 s' \<longleftrightarrow> call_ok env s s'" unfolding call_ok_def by simp_all
qed

lemma authorized_ok:
  assumes "\<And>s'. so_active s' = so_active s \<Longrightarrow> call_ok env s' (k s')"
  shows "call_ok env s (when_authorized env verb denied k s)"
proof -
  obtain ok s1 where c: "check_authorized env (polkit_action verb) s = (ok, s1)"
    by (cases "check_authorized env (polkit_action verb) s")
  note k = check_authorized_ok [OF c]
  have "when_authorized env verb denied k s = (if ok then k s1 else soft_reply_with (SoftError ''ACCESS_DENIED'' denied) s1)"
    by (simp add: when_authorized_def c)
  then show ?thesis using assms [OF k(1)] reply_ok [of env s1] k(2) by simp
qed

lemma guarded_ok:
  assumes "\<And>s. so_active s = 0 \<Longrightarrow> call_ok env s (k s)"
  shows "call_ok env s (unless_busy env (when_authorized env verb denied k) s)"
proof (cases "busy_message env s = []")
  case False
  then show ?thesis by (simp add: unless_busy_def Let_def reply_ok)
next
  case True
  then have a: "so_active s = 0" by (auto simp: busy_message_def split: if_splits)
  have "call_ok env s (when_authorized env verb denied k s)" by (rule authorized_ok) (use assms a in simp)
  then show ?thesis using True by (simp add: unless_busy_def)
qed

text \<open>An operation run to its end inside the call leaves the count as it was.\<close>

lemma run_within_ok:
  assumes "so_active s = 0" "so_streams s1 = so_streams s" "so_quit s1 = so_quit s" "so_active s1 = 1"
  shows "call_ok env s (soft_reply_with r (soft_audit env a b c (end_op env s1)))"
  using assms by (simp add: call_ok_def soft_parts end_op_def Let_def)

lemma sync_repos_ok: "call_ok env s (sync_repos env names s)"
  unfolding sync_repos_def
proof (rule guarded_ok)
  fix s :: soft_state assume a: "so_active s = 0"
  show "call_ok env s (if names = [] \<or> list_ex (\<lambda>n. \<not> valid_repo_name n) names
      then invalid_args ''invalid or empty repository name list'' s
      else case sync_each env names True [] (begin_op ''A repository sync'' s) of
        (s, ok_all, outputs) \<Rightarrow> soft_reply_with (SoftOutcome ok_all (join [LF] outputs))
          (soft_audit env ''software.sync_repos'' (if ok_all then ''ok'' else ''failed'') (join '','' names) (end_op env s)))"
  proof (cases "names = [] \<or> list_ex (\<lambda>n. \<not> valid_repo_name n) names")
    case False
    obtain s1 ok outs where e: "sync_each env names True [] (begin_op ''A repository sync'' s) = (s1, ok, outs)"
      by (cases "sync_each env names True [] (begin_op ''A repository sync'' s)")
    from sync_each_keeps [OF e] have "so_streams s1 = so_streams s" "so_quit s1 = so_quit s" "so_active s1 = 1"
      using a by (simp_all add: begin_op_def)
    from run_within_ok [OF a this] show ?thesis using False unfolding e by simp
  qed (simp add: invalid_ok)
qed

lemma deselect_ok: "call_ok env s (soft_deselect env atoms s)"
  unfolding soft_deselect_def
proof (rule guarded_ok)
  fix s :: soft_state assume a: "so_active s = 0"
  show "call_ok env s (case deselect_argv atoms (sv_emerge env) of
      Inl e \<Rightarrow> invalid_args ATOM_LIST_ERROR s
    | Inr argv \<Rightarrow>
        (case run_to_end env argv (begin_op ''An @world set update'' s) of
           (s, r) \<Rightarrow>
             (case run_outcome r of (code, out) \<Rightarrow>
                soft_reply_with (SoftOutcome (code = 0) (strip out))
                  (soft_audit env ''software.deselect'' (if code = 0 then ''ok'' else ''failed'') (join '','' atoms)
                    (end_op env s)))))"
  proof (cases "deselect_argv atoms (sv_emerge env)")
    case (Inr argv)
    obtain s1 r where e: "run_to_end env argv (begin_op ''An @world set update'' s) = (s1, r)"
      by (cases "run_to_end env argv (begin_op ''An @world set update'' s)")
    obtain code out where c: "run_outcome r = (code, out)" by (cases "run_outcome r")
    from run_to_end_keeps [OF e] have "so_streams s1 = so_streams s" "so_quit s1 = so_quit s" "so_active s1 = 1"
      using a by (simp_all add: begin_op_def)
    from run_within_ok [OF a this] show ?thesis unfolding Inr sum.case e prod.case c Let_def by simp
  qed (simp add: invalid_ok)
qed

lemma run_reply_ok:
  "run_to_end env argv s = (s1, r) \<Longrightarrow> call_ok env s (soft_reply_with x s1)"
  using run_to_end_keeps [of env argv s s1 r] by (simp add: call_ok_def soft_parts)

lemma mark_news_ok: "call_ok env s (mark_news env selector read s)"
  unfolding mark_news_def
proof (rule authorized_ok)
  fix s' :: soft_state
  show "call_ok env s' (case mark_read_argv selector (sv_eselect env) read of
      Inl e \<Rightarrow> invalid_args ''invalid news selector'' s'
    | Inr argv \<Rightarrow>
        (case run_to_end env argv s' of
           (s, Inl e) \<Rightarrow> soft_reply_with (SoftError ''FAILED'' (''mark-read failed: '' @ e)) s
         | (s, Inr (code, out)) \<Rightarrow> soft_reply_with (SoftStarted (code = 0)) s))"
    by (auto simp: invalid_ok split: sum.splits prod.splits dest: run_reply_ok)
qed

lemma preview_ok: "call_ok env s (install_preview env atom s)"
  unfolding install_preview_def by (auto split: sum.splits prod.splits dest: run_reply_ok)

lemma dispatch_ok: "call_ok env s (soft_dispatch env call s)"
proof -
  have "call_ok env s (soft_install env a s)" "call_ok env s (install_multi env as s)"
    "call_ok env s (install_binary_multi env as only s)" "call_ok env s (soft_rebuild env a s)"
    "call_ok env s (update_world env s)" "call_ok env s (soft_depclean env a s)" "call_ok env s (depclean_multi env as s)"
    "call_ok env s (unmerge_multi env as s)" "call_ok env s (soft_sync env s)" for a as only
    unfolding soft_install_def install_multi_def install_binary_multi_def soft_rebuild_def update_world_def soft_depclean_def
      depclean_multi_def unmerge_multi_def soft_sync_def
    by (rule guarded_ok; auto intro: start_ok invalid_ok split: sum.splits)+
  then show ?thesis
    by (cases call)
      (simp_all add: preview_ok sync_repos_ok deselect_ok mark_news_ok package_status_def reply_ok Let_def)
qed

lemma on_call_ok: "call_ok env s (soft_on_call env call s)"
  using dispatch_ok [of env "touch env s" call] by (simp add: soft_on_call_def call_ok_def touch_def)

section \<open>The invariant\<close>

definition lock_inv :: "soft_state \<Rightarrow> bool" where
  "lock_inv s =
     (list_all single (so_streams s) \<and> live_count s \<le> so_active s \<and> so_active s \<le> 1 \<and>
      (so_operation s = [] \<longleftrightarrow> so_active s = 0) \<and> (so_quit s \<longrightarrow> so_active s = 0))"

lemma new_stream: "single (stream_start (\<lambda>_. True) [argv])" "live (stream_start (\<lambda>_. True) [argv])"
  by (simp_all add: single_def live_def stream_start_def run_current_def)

lemma step_inv:
  assumes "lock_inv s" "soft_step env e s = Some s'"
  shows "lock_inv s' \<and> ((\<forall>argv. sv_starts env argv) \<longrightarrow> so_active s = live_count s \<longrightarrow> so_active s' = live_count s')"
proof (cases e)
  case (Called call)
  then have "s' = soft_on_call env call s" "\<not> so_quit s" using assms(2) by (auto simp: soft_step_def split: if_splits)
  then show ?thesis using on_call_ok [of env s call] assms(1) new_stream by (auto simp: lock_inv_def call_ok_def)
next
  case (Streamed i ev)
  then have ev: "soft_stream_event env i ev s = Some s'" "\<not> so_quit s" using assms(2) by (auto simp: soft_step_def split: if_splits)
  have "list_all single (so_streams s)" using assms(1) by (simp add: lock_inv_def)
  from stream_event_count [OF ev(1) this] show ?thesis
    using assms(1) ev(2) unfolding lock_inv_def by (cases "live_count s' = live_count s") (auto simp del: length_0_conv)
next
  case (IdleTick changed)
  then have "s' = idle_check env changed s" "\<not> so_quit s" using assms(2) by (auto simp: soft_step_def split: if_splits)
  then show ?thesis using assms(1) by (auto simp: idle_check_def should_exit_def lock_inv_def)
qed

lemma reaches_inv:
  "soft_reaches es s \<Longrightarrow> lock_inv s \<and> ((\<forall>(env, e) \<in> set es. \<forall>argv. sv_starts env argv) \<longrightarrow> so_active s = live_count s)"
proof (induction rule: soft_reaches.induct)
  case (soft_born now)
  show ?case by (simp add: lock_inv_def soft_init_def)
next
  case (soft_moved es s env e s')
  then show ?case using step_inv [of s env e s'] by auto
qed

section \<open>Properties\<close>

text \<open>The calls that take the lock.\<close>

fun takes_lock :: "soft_call \<Rightarrow> bool" where
  "takes_lock (InstallPreview atom) = False"
| "takes_lock (MarkNewsRead selector) = False"
| "takes_lock (MarkNewsUnread selector) = False"
| "takes_lock PackageStatus = False"
| "takes_lock (NoSuchMethod meth) = False"
| "takes_lock call = True"

lemma busy_call_refused:
  "takes_lock call \<Longrightarrow> busy_message env s \<noteq> [] \<Longrightarrow>
    soft_dispatch env call s = soft_reply_with (SoftError BUSY_ERROR (busy_message env s)) s"
  by (cases call)
    (simp_all add: soft_install_def install_multi_def install_binary_multi_def soft_rebuild_def update_world_def soft_depclean_def
      depclean_multi_def unmerge_multi_def soft_sync_def sync_repos_def soft_deselect_def unless_busy_def Let_def)

lemma busy_when_active: "0 < so_active s \<Longrightarrow> busy_message env s \<noteq> []"
  by (simp add: busy_message_def)


text \<open>The lock is released: when every program could be started, the service is locked exactly
  while a stream is live.\<close>

theorem package_lock_released:
  assumes "soft_reaches es s" "\<forall>(env, e) \<in> set es. \<forall>argv. sv_starts env argv"
  shows "so_active s = live_count s \<and> (so_operation s = [] \<longleftrightarrow> live_count s = 0)"
  using reaches_inv [OF assms(1)] assms(2) by (auto simp: lock_inv_def simp del: length_0_conv)

definition demo_soft_env :: soft_env where
  "demo_soft_env = \<lparr>sv_now = 5, sv_procs = Some [], sv_polkit = (\<lambda>a. Some True), sv_uid = Some 1000, sv_starts = (\<lambda>a. True),
     sv_run = (\<lambda>a. Inr (0, [])), sv_decode = (\<lambda>s. s), sv_emerge = ''/usr/bin/emerge'', sv_eselect = ''/usr/bin/eselect'',
     sv_emaint = ''/usr/sbin/emaint''\<rparr>"

fun soft_steps :: "(soft_env \<times> soft_event) list \<Rightarrow> soft_state \<Rightarrow> soft_state option" where
  "soft_steps [] s = Some s"
| "soft_steps ((env, e) # es) s = (case soft_step env e s of None \<Rightarrow> None | Some s \<Rightarrow> soft_steps es s)"

lemma soft_steps_reaches:
  "soft_reaches es0 s \<Longrightarrow> soft_steps es s = Some s' \<Longrightarrow> soft_reaches (es0 @ es) s'"
proof (induction es s arbitrary: es0 rule: soft_steps.induct)
  case (2 env e es s)
  then obtain s1 where "soft_step env e s = Some s1" "soft_steps es s1 = Some s'" by (auto split: option.splits)
  with 2(1) [OF this(1) soft_moved [OF 2(2) this(1)]] show ?case by simp
qed simp


theorem package_lock_released_witness:
  "\<exists>s. soft_reaches [(demo_soft_env, Called UpdateWorld), (demo_soft_env, Streamed 0 (Chunk [])), (demo_soft_env, Streamed 0 (Exited 0))] s \<and>
     live_count s = 0 \<and> so_active s = 0"
proof -
  let ?es = "[(demo_soft_env, Called UpdateWorld), (demo_soft_env, Streamed 0 (Chunk [])), (demo_soft_env, Streamed 0 (Exited 0))]"
  have "map_option live_count (soft_steps ?es (soft_init 0)) = Some 0" by code_simp
  then obtain s where s: "soft_steps ?es (soft_init 0) = Some s" "live_count s = 0" by auto
  have r: "soft_reaches ?es s" using soft_steps_reaches [OF soft_born s(1)] by simp
  have "\<forall>(env, e) \<in> set ?es. \<forall>argv. sv_starts env argv" by (simp add: demo_soft_env_def)
  from package_lock_released [OF r this] s(2) r show ?thesis by auto
qed

text \<open>An operation whose program could not be started is never taken back: from then on the service
  stays locked, and stays.\<close>

lemma lock_stays:
  assumes "soft_step env e s = Some s'" "list_all single (so_streams s)" "live_count s = 0" "so_active s = 1" "\<not> so_quit s"
  shows "list_all single (so_streams s') \<and> live_count s' = 0 \<and> so_active s' = 1 \<and> \<not> so_quit s'"
proof (cases e)
  case (Called call)
  with assms on_call_ok [of env s call] show ?thesis by (auto simp: soft_step_def call_ok_def)
next
  case (Streamed i ev)
  with assms have "soft_stream_event env i ev s = Some s'" by (simp add: soft_step_def)
  from stream_event_count [OF this assms(2)] assms(3-5) show ?thesis by (auto simp del: length_0_conv split: if_splits)
next
  case (IdleTick changed)
  with assms show ?thesis by (auto simp: soft_step_def idle_check_def should_exit_def)
qed

lemma lock_leaks:
  assumes "soft_steps es (soft_on_call (demo_soft_env\<lparr>sv_starts := (\<lambda>a. False)\<rparr>) UpdateWorld (soft_init 0)) = Some s"
  shows "so_active s = 1 \<and> live_count s = 0 \<and> \<not> so_quit s"
proof -
  have keep: "soft_steps es s0 = Some s \<Longrightarrow> list_all single (so_streams s0) \<and> live_count s0 = 0 \<and> so_active s0 = 1 \<and> \<not> so_quit s0 \<Longrightarrow>
      so_active s = 1 \<and> live_count s = 0 \<and> \<not> so_quit s" for s0
  proof (induction es s0 rule: soft_steps.induct)
    case (2 env e es s0)
    then obtain s1 where "soft_step env e s0 = Some s1" "soft_steps es s1 = Some s" by (auto split: option.splits)
    with 2 lock_stays [OF this(1)] show ?case by blast
  qed simp
  show ?thesis by (rule keep [OF assms]) code_simp
qed

text \<open>A package name given to \<open>Install\<close>, \<open>Rebuild\<close> or the preview is not checked: an option passes
  for one, and the preview asks nobody.\<close>

lemma unchecked_names:
  "so_ran (soft_on_call demo_soft_env (Install ''--depclean'') (soft_init 0)) = [[''/usr/bin/emerge'', ''--color'', ''n'', ''--depclean'']]"
  "so_ran (soft_on_call (demo_soft_env\<lparr>sv_polkit := (\<lambda>a. Some False)\<rparr>) (InstallPreview ''--sync'') (soft_init 0))
    = [[''/usr/bin/emerge'', ''--pretend'', ''--verbose'', ''--color'', ''n'', ''--sync'']]"
  by code_simp+

text \<open>The idle check looks at the package operations only: a kernel build that streams does not stop it.\<close>

lemma idle_exit_ignores_builds:
  "let w = fst (kernel_on_call (\<lambda>p. None) (\<lambda>argv. True) (Some 4) ''Build'' \<lparr>cl_authorized = True, cl_uid = None\<rparr>
        (kernel_request ''genkernel'' [] 0 [] True []) \<lparr>wd_state = \<lparr>ks_active = False, ks_streams = [], ks_signals = []\<rparr>, wd_audit = []\<rparr>)
   in ks_active (wd_state w) \<and> list_all live (ks_streams (wd_state w)) \<and>
      so_quit (idle_check (demo_soft_env\<lparr>sv_now := 120000000\<rparr>) False (soft_init 0))"
  by code_simp

end
