(* ===== verification/Stage3Service.thy ===== *)
theory Stage3Service
  imports Streamer BaseSteps
begin

text \<open>
  The root service that unpacks a stage3, \<open>gest/backend/stage3.py\<close>: a chain of processes
  driven by the main loop. Each handler of \<open>_Stage3Runner\<close> is entered when the process
  before it has ended, looks at the files as they are then, and starts the next process or ends
  the operation. The lemmas show that \<open>tar\<close> runs only on a tarball whose content passed the
  hashes, and that every run ends with one signal that tells the truth about it.
\<close>

section \<open>Environment and state\<close>

text \<open>The tools found on the path, the hash functions, which programs can be started.\<close>

record s3_env =
  se_wget :: "string option"
  se_curl :: "string option"
  se_tar :: "string option"
  se_gpg :: "string option"
  se_blake2b :: "string \<Rightarrow> string"
  se_sha512 :: "string \<Rightarrow> string"
  se_starts :: "string list \<Rightarrow> bool"

text \<open>The files at one moment: what exists, and the bytes a read gives or its error.\<close>

record s3_view =
  vw_exists :: "string \<Rightarrow> bool"
  vw_read :: "string \<Rightarrow> string + string"

record s3_request =
  rq_root :: string
  rq_tarball_url :: string
  rq_digests :: string
  rq_signature_url :: string

datatype s3_phase = Downloading | FetchingSig | CheckingGpg | Untarring | Done | Broken

record s3_runner =
  rn_request :: s3_request
  rn_filename :: string
  rn_workdir :: string
  rn_tarball :: string
  rn_sig :: string
  rn_sig_downloaded :: bool
  rn_phase :: s3_phase
  rn_ran :: "string list list"
  rn_signals :: "bus_signal list"
  rn_removed :: bool

section \<open>The runner\<close>

definition s3_download_argv :: "s3_env \<Rightarrow> string \<Rightarrow> string \<Rightarrow> string list" where
  "s3_download_argv env url dest =
     (case se_wget env of
        Some wget \<Rightarrow> [wget, ''--progress=dot:giga'', ''-O'', dest, url]
      | None \<Rightarrow> [(case se_curl env of None \<Rightarrow> ''/usr/bin/curl'' | Some curl \<Rightarrow> curl), ''-L'', ''--fail'', ''-o'', dest, url])"

definition http_url :: "string \<Rightarrow> bool" where
  "http_url url = (startswith url ''https://'' \<or> startswith url ''http://'')"

definition s3_say :: "string list \<Rightarrow> s3_runner \<Rightarrow> s3_runner" where
  "s3_say lines rn = rn\<lparr>rn_signals := rn_signals rn @ [Progress lines]\<rparr>"

definition s3_finish :: "int \<Rightarrow> s3_runner \<Rightarrow> s3_runner" where
  "s3_finish code rn =
     rn\<lparr>rn_phase := Done, rn_removed := (rn_workdir rn \<noteq> []), rn_signals := rn_signals rn @ [Finished code]\<rparr>"

text \<open>Starting a program that cannot be started raises, and nothing catches it. The lines its
  process writes are streamed as in the pipeline streamer.\<close>

definition s3_run :: "s3_env \<Rightarrow> string list \<Rightarrow> s3_phase \<Rightarrow> s3_runner \<Rightarrow> s3_runner" where
  "s3_run env argv phase rn =
     (if se_starts env argv then rn\<lparr>rn_ran := rn_ran rn @ [argv], rn_phase := phase\<rparr> else rn\<lparr>rn_phase := Broken\<rparr>)"

definition s3_start :: "s3_env \<Rightarrow> s3_request \<Rightarrow> string \<Rightarrow> s3_runner" where
  "s3_start env req workdir =
     (let filename = basename (rq_tarball_url req); tarball = path_join2 workdir filename;
          rn = \<lparr>rn_request = req, rn_filename = filename, rn_workdir = workdir, rn_tarball = tarball, rn_sig = tarball @ ''.asc'',
                rn_sig_downloaded = False, rn_phase = Downloading, rn_ran = [], rn_signals = [], rn_removed = False\<rparr>
      in s3_run env (s3_download_argv env (rq_tarball_url req) tarball) Downloading
           (s3_say [''Downloading '' @ filename, ''  from '' @ rq_tarball_url req] rn))"

definition s3_unpack :: "s3_env \<Rightarrow> s3_runner \<Rightarrow> s3_runner" where
  "s3_unpack env rn =
     s3_run env ((case se_tar env of None \<Rightarrow> ''/bin/tar'' | Some t \<Rightarrow> t) # tl (tar_unpack_argv (rn_tarball rn) (rq_root (rn_request rn))))
       Untarring (s3_say [''Unpacking into '' @ rq_root (rn_request rn) @ ELLIPSIS] rn)"

definition s3_gpg_verify :: "s3_env \<Rightarrow> s3_runner \<Rightarrow> s3_runner" where
  "s3_gpg_verify env rn =
     (if \<not> rn_sig_downloaded rn
      then s3_unpack env (s3_say [''GPG: no signature available '' @ EMDASH @ '' skipping authenticity check''] rn)
      else (case se_gpg env of
          None \<Rightarrow> s3_unpack env (s3_say [''GPG: gpg not installed '' @ EMDASH @ '' skipping authenticity check''] rn)
        | Some gpg \<Rightarrow>
            s3_run env (gpg # tl (gpg_verify_argv (rn_sig rn) (rn_tarball rn))) CheckingGpg
              (s3_say [''Verifying GPG signature (best-effort)'' @ ELLIPSIS] rn)))"

definition s3_verify_hashes :: "s3_env \<Rightarrow> s3_view \<Rightarrow> s3_runner \<Rightarrow> s3_runner" where
  "s3_verify_hashes env view rn =
     (let rn = s3_say [''Verifying integrity (BLAKE2B + SHA512)'' @ ELLIPSIS] rn
      in case vw_read view (rn_tarball rn) of
           Inl exc \<Rightarrow> s3_finish 1 (s3_say [''!!! cannot read downloaded tarball: '' @ exc @ '' '' @ EMDASH @ '' aborting''] rn)
         | Inr data \<Rightarrow>
             (let expected = parse_digests (rq_digests (rn_request rn)) (rn_filename rn)
              in if expected = []
                 then s3_finish 1 (s3_say [''!!! no BLAKE2B/SHA512 digest for this file in .DIGESTS '' @ EMDASH @ '' '' @
                   ''refusing to unpack an unverifiable tarball''] rn)
                 else if \<not> verify_hashes (se_blake2b env) (se_sha512 env) data expected
                 then s3_finish 1 (s3_say [''!!! HASH MISMATCH '' @ EMDASH @ '' the download is corrupt or tampered; '' @
                   ''aborting BEFORE unpack''] rn)
                 else s3_gpg_verify env (s3_say [''  integrity OK ('' @ join '', '' (sort (map fst expected)) @ '')''] rn)))"

definition s3_after_sig :: "s3_env \<Rightarrow> s3_view \<Rightarrow> int \<Rightarrow> s3_runner \<Rightarrow> s3_runner" where
  "s3_after_sig env view code rn =
     s3_verify_hashes env view (rn\<lparr>rn_sig_downloaded := (code = 0 \<and> vw_exists view (rn_sig rn))\<rparr>)"

definition s3_after_download :: "s3_env \<Rightarrow> s3_view \<Rightarrow> int \<Rightarrow> s3_runner \<Rightarrow> s3_runner" where
  "s3_after_download env view code rn =
     (if code \<noteq> 0 \<or> \<not> vw_exists view (rn_tarball rn)
      then s3_finish (if code = 0 then 1 else code)
        (s3_say [''!!! download failed (exit '' @ int_str code @ '') '' @ EMDASH @ '' aborting''] rn)
      else if http_url (rq_signature_url (rn_request rn))
      then s3_run env (s3_download_argv env (rq_signature_url (rn_request rn)) (rn_sig rn)) FetchingSig
        (s3_say [''Downloading signature (.asc)''] rn)
      else s3_after_sig env view 1 rn)"

definition s3_after_gpg :: "s3_env \<Rightarrow> int \<Rightarrow> s3_runner \<Rightarrow> s3_runner" where
  "s3_after_gpg env code rn =
     s3_unpack env (s3_say [if code = 0 then ''  GPG signature VERIFIED against the keyring''
       else ''  GPG unverified (key missing or bad signature) '' @ EMDASH @ '' continuing; integrity hashes already passed''] rn)"

definition s3_after_unpack :: "int \<Rightarrow> s3_runner \<Rightarrow> s3_runner" where
  "s3_after_unpack code rn =
     s3_finish code (s3_say [if code = 0 then ''Stage3 unpacked into '' @ rq_root (rn_request rn)
       else ''!!! unpack failed (exit '' @ int_str code @ '')''] rn)"

text \<open>The process the runner waits for ends.\<close>

definition s3_exit :: "s3_env \<Rightarrow> s3_view \<Rightarrow> int \<Rightarrow> s3_runner \<Rightarrow> s3_runner option" where
  "s3_exit env view code rn =
     (case rn_phase rn of
        Downloading \<Rightarrow> Some (s3_after_download env view code rn)
      | FetchingSig \<Rightarrow> Some (s3_after_sig env view code rn)
      | CheckingGpg \<Rightarrow> Some (s3_after_gpg env code rn)
      | Untarring \<Rightarrow> Some (s3_after_unpack code rn)
      | Done \<Rightarrow> None
      | Broken \<Rightarrow> None)"

inductive s3_runs :: "s3_env \<Rightarrow> s3_request \<Rightarrow> string \<Rightarrow> (s3_view \<times> int) list \<Rightarrow> s3_runner \<Rightarrow> bool"
  for env req workdir where
  s3_begun: "s3_runs env req workdir [] (s3_start env req workdir)"
| s3_moved: "s3_runs env req workdir es rn \<Longrightarrow> s3_exit env view code rn = Some rn' \<Longrightarrow>
    s3_runs env req workdir (es @ [(view, code)]) rn'"

section \<open>The service\<close>

record s3_service =
  s3_active :: bool
  s3_runners :: "s3_runner list"

definition ARROW :: string where
  "ARROW = [CHR 0xE2, CHR 0x86, CHR 0x92]"

text \<open>\<open>mkdtemp\<close> gives the work directory or its error, which leaves the handler like a program
  that cannot be started. The reply that the operation started carries no text.\<close>

definition stage3_on_call ::
    "s3_env \<Rightarrow> (string \<Rightarrow> string + string) \<Rightarrow> string \<Rightarrow> caller \<Rightarrow> s3_request \<Rightarrow> s3_service world \<Rightarrow> s3_service world \<times> reply res" where
  "stage3_on_call env mkdtemp meth who req w =
     (if meth \<noteq> ''Unpack'' then (w, Inr (ReturnError UNKNOWN_METHOD (''No such method '' @ meth)))
      else if \<not> cl_authorized who
        then (audit who ''Unpack'' ''denied'' [] w, Inr (ReturnError ACCESS_DENIED ''Not authorized to unpack a stage3''))
      else
        (case guard_target_root (rq_root req) (Inr ()) of
           Inl e \<Rightarrow> (audit who ''Unpack'' ''refused'' (err_str e) w, Inr (ReturnError INVALID_ARGS (err_str e)))
         | Inr _ \<Rightarrow>
             if \<not> http_url (rq_tarball_url req)
             then (w, Inr (ReturnError INVALID_ARGS (''tarball URL must be http(s): '' @ py_repr (rq_tarball_url req))))
             else
               (let w1 = audit who ''Unpack'' ''started'' (''stage3 '' @ ARROW @ '' '' @ rq_root req) w;
                    s = (wd_state w1)\<lparr>s3_active := True\<rparr>
                in case mkdtemp (rq_root req) of
                     Inl e \<Rightarrow> (w1\<lparr>wd_state := s\<rparr>, Inl (OSError e))
                   | Inr workdir \<Rightarrow>
                       (let rn = s3_start env req workdir
                        in (w1\<lparr>wd_state := s\<lparr>s3_runners := s3_runners s @ [rn]\<rparr>\<rparr>,
                            if rn_phase rn = Broken then Inl (OSError ''spawn'') else Inr (ReturnValue True []))))))"

text \<open>A process of the runner \<open>i\<close> ends; the end of the operation is logged without a caller.\<close>

definition stage3_event :: "s3_env \<Rightarrow> nat \<Rightarrow> s3_view \<Rightarrow> int \<Rightarrow> s3_service world \<Rightarrow> s3_service world option" where
  "stage3_event env i view code w =
     (let s = wd_state w
      in if length (s3_runners s) \<le> i then None
         else
           (case s3_exit env view code (s3_runners s ! i) of
              None \<Rightarrow> None
            | Some rn \<Rightarrow>
                (let w1 = w\<lparr>wd_state := s\<lparr>s3_runners := (s3_runners s)[i := rn]\<rparr>\<rparr>
                 in if rn_phase rn = Done
                    then (let final = last (ends (rn_signals rn))
                          in Some (audit \<lparr>cl_authorized = True, cl_uid = None\<rparr> ''Unpack'' (if final = 0 then ''ok'' else ''failed'')
                                (''exit '' @ int_str final) (w1\<lparr>wd_state := (wd_state w1)\<lparr>s3_active := False\<rparr>\<rparr>)))
                    else Some w1)))"

section \<open>The run of a runner\<close>

definition s3_tarball :: "s3_request \<Rightarrow> string \<Rightarrow> string" where
  "s3_tarball req workdir = path_join2 workdir (basename (rq_tarball_url req))"

text \<open>The four commands a run is made of.\<close>

definition s3_fetch :: "s3_env \<Rightarrow> s3_request \<Rightarrow> string \<Rightarrow> string list" where
  "s3_fetch env req workdir = s3_download_argv env (rq_tarball_url req) (s3_tarball req workdir)"

definition s3_fetch_sig :: "s3_env \<Rightarrow> s3_request \<Rightarrow> string \<Rightarrow> string list" where
  "s3_fetch_sig env req workdir = s3_download_argv env (rq_signature_url req) (s3_tarball req workdir @ ''.asc'')"

definition s3_check :: "s3_env \<Rightarrow> s3_request \<Rightarrow> string \<Rightarrow> string list" where
  "s3_check env req workdir = the (se_gpg env) # tl (gpg_verify_argv (s3_tarball req workdir @ ''.asc'') (s3_tarball req workdir))"

definition s3_tar :: "s3_env \<Rightarrow> s3_request \<Rightarrow> string \<Rightarrow> string list" where
  "s3_tar env req workdir =
     (case se_tar env of None \<Rightarrow> ''/bin/tar'' | Some t \<Rightarrow> t) # tl (tar_unpack_argv (s3_tarball req workdir) (rq_root req))"

text \<open>At the end of one of the processes, the content of the tarball had the published hashes.\<close>

definition s3_verified :: "s3_env \<Rightarrow> s3_request \<Rightarrow> string \<Rightarrow> (s3_view \<times> int) list \<Rightarrow> bool" where
  "s3_verified env req workdir es =
     list_ex (\<lambda>(view, code). case vw_read view (s3_tarball req workdir) of
         Inl e \<Rightarrow> False
       | Inr data \<Rightarrow> verify_hashes (se_blake2b env) (se_sha512 env) data
           (parse_digests (rq_digests req) (basename (rq_tarball_url req)))) es"

definition s3_const :: "s3_request \<Rightarrow> string \<Rightarrow> s3_runner \<Rightarrow> bool" where
  "s3_const req workdir rn = (rn_request rn = req \<and> rn_filename rn = basename (rq_tarball_url req) \<and> rn_workdir rn = workdir \<and>
     rn_tarball rn = s3_tarball req workdir \<and> rn_sig rn = s3_tarball req workdir @ ''.asc'')"

text \<open>What has run in each phase, and what it says of the hashes and of the end.\<close>

definition s3_inv :: "s3_env \<Rightarrow> s3_request \<Rightarrow> string \<Rightarrow> (s3_view \<times> int) list \<Rightarrow> s3_runner \<Rightarrow> bool" where
  "s3_inv env req workdir es rn =
     (let D = s3_fetch env req workdir; S = s3_fetch_sig env req workdir; G = s3_check env req workdir;
          T = s3_tar env req workdir; ok = s3_verified env req workdir es; ran = rn_ran rn
      in case rn_phase rn of
           Downloading \<Rightarrow> ran = [D] \<and> es = [] \<and> ends (rn_signals rn) = []
         | FetchingSig \<Rightarrow> ran = [D, S] \<and> length es = 1 \<and> ends (rn_signals rn) = []
         | CheckingGpg \<Rightarrow> ok \<and> ran = [D, S, G] \<and> length es = 2 \<and> ends (rn_signals rn) = []
         | Untarring \<Rightarrow> ok \<and> ran \<in> {[D, T], [D, S, T], [D, S, G, T]} \<and> length ran = length es + 1 \<and> ends (rn_signals rn) = []
         | Done \<Rightarrow> length ran = length es \<and>
             (\<exists>code. ends (rn_signals rn) = [code] \<and> last (rn_signals rn) = Finished code \<and>
               ((ran \<in> {[D], [D, S]} \<and> code \<noteq> 0) \<or>
                (ok \<and> ran \<in> {[D, T], [D, S, T], [D, S, G, T]} \<and> code = snd (last es))))
         | Broken \<Rightarrow> length ran = length es \<and> ran \<in> {[], [D], [D, S], [D, S, G]} \<and> ends (rn_signals rn) = [])"

lemmas s3_steps = s3_say_def s3_finish_def s3_run_def

lemma s3_verified_snoc:
  "s3_verified env req workdir es \<Longrightarrow> s3_verified env req workdir (es @ [e])"
  by (simp add: s3_verified_def)

lemma unpack_inv:
  assumes "s3_const req workdir rn" "rn_ran rn \<in> {[s3_fetch env req workdir], [s3_fetch env req workdir, s3_fetch_sig env req workdir],
      [s3_fetch env req workdir, s3_fetch_sig env req workdir, s3_check env req workdir]}"
    "length (rn_ran rn) = length es" "s3_verified env req workdir es" "ends (rn_signals rn) = []"
  shows "s3_const req workdir (s3_unpack env rn) \<and> s3_inv env req workdir es (s3_unpack env rn)"
proof -
  have argv: "(case se_tar env of None \<Rightarrow> ''/bin/tar'' | Some t \<Rightarrow> t) # tl (tar_unpack_argv (rn_tarball rn) (rq_root (rn_request rn)))
      = s3_tar env req workdir"
    using assms(1) by (simp add: s3_tar_def s3_const_def)
  show ?thesis
    unfolding s3_unpack_def argv using assms by (auto simp: s3_steps s3_const_def s3_inv_def)
qed

lemma gpg_inv:
  assumes "s3_const req workdir rn"
    "rn_ran rn = (if rn_sig_downloaded rn \<or> b then [s3_fetch env req workdir, s3_fetch_sig env req workdir] else [s3_fetch env req workdir])"
    "length (rn_ran rn) = length es" "s3_verified env req workdir es" "ends (rn_signals rn) = []"
  shows "s3_const req workdir (s3_gpg_verify env rn) \<and> s3_inv env req workdir es (s3_gpg_verify env rn)"
proof -
  have u: "s3_const req workdir (s3_unpack env (s3_say ls rn)) \<and> s3_inv env req workdir es (s3_unpack env (s3_say ls rn))" for ls
    by (rule unpack_inv) (use assms in \<open>auto simp: s3_say_def s3_const_def\<close>)
  show ?thesis
  proof (cases "rn_sig_downloaded rn \<and> se_gpg env \<noteq> None")
    case False
    then show ?thesis using u by (auto simp: s3_gpg_verify_def split: option.splits)
  next
    case True
    then obtain gpg where gpg: "se_gpg env = Some gpg" "rn_sig_downloaded rn" by auto
    have argv: "gpg # tl (gpg_verify_argv (rn_sig rn) (rn_tarball rn)) = s3_check env req workdir"
      using assms(1) gpg by (simp add: s3_check_def s3_const_def)
    show ?thesis using assms gpg argv by (auto simp: s3_gpg_verify_def s3_steps s3_const_def s3_inv_def)
  qed
qed

lemma s3_finish_early:
  assumes "s3_const req workdir rn" "rn_ran rn \<in> {[s3_fetch env req workdir], [s3_fetch env req workdir, s3_fetch_sig env req workdir]}"
    "length (rn_ran rn) = length es" "ends (rn_signals rn) = []" "code \<noteq> 0"
  shows "s3_const req workdir (s3_finish code (s3_say ls rn)) \<and> s3_inv env req workdir es (s3_finish code (s3_say ls rn))"
  using assms by (auto simp: s3_steps s3_const_def s3_inv_def)

lemma verify_inv:
  assumes "s3_const req workdir rn"
    "rn_ran rn = (if rn_sig_downloaded rn \<or> b then [s3_fetch env req workdir, s3_fetch_sig env req workdir] else [s3_fetch env req workdir])"
    "length (rn_ran rn) = length (es @ [(view, code)])" "ends (rn_signals rn) = []"
  shows "s3_const req workdir (s3_verify_hashes env view rn) \<and>
    s3_inv env req workdir (es @ [(view, code)]) (s3_verify_hashes env view rn)"
proof -
  have fin: "s3_const req workdir (s3_finish 1 (s3_say ls (s3_say ls' rn))) \<and>
      s3_inv env req workdir (es @ [(view, code)]) (s3_finish 1 (s3_say ls (s3_say ls' rn)))" for ls ls'
    by (rule s3_finish_early) (use assms in \<open>auto simp: s3_say_def s3_const_def\<close>)
  have gpg: "s3_const req workdir (s3_gpg_verify env (s3_say ls (s3_say ls' rn))) \<and>
      s3_inv env req workdir (es @ [(view, code)]) (s3_gpg_verify env (s3_say ls (s3_say ls' rn)))"
    if "s3_verified env req workdir (es @ [(view, code)])" for ls ls'
    by (rule gpg_inv [where b = b]) (use assms that in \<open>auto simp: s3_say_def s3_const_def\<close>)
  have tb: "rn_tarball rn = s3_tarball req workdir" "rn_request rn = req" "rn_filename rn = basename (rq_tarball_url req)"
    using assms(1) by (simp_all add: s3_const_def)
  show ?thesis
    using fin gpg
    by (auto simp: s3_verify_hashes_def Let_def s3_verified_def s3_say_def tb split: sum.splits)
qed

lemma exit_inv:
  assumes "s3_const req workdir rn" "s3_inv env req workdir es rn" "s3_exit env view code rn = Some rn'"
  shows "s3_const req workdir rn' \<and> s3_inv env req workdir (es @ [(view, code)]) rn'"
proof (cases "rn_phase rn")
  case Downloading
  have ran: "rn_ran rn = [s3_fetch env req workdir]" "es = []" "ends (rn_signals rn) = []"
    using assms(2) Downloading by (simp_all add: s3_inv_def)
  have rn': "rn' = s3_after_download env view code rn" using assms(3) Downloading by (simp add: s3_exit_def)
  have sig: "rn_request rn = req" "rn_sig rn = s3_tarball req workdir @ ''.asc''" using assms(1) by (simp_all add: s3_const_def)
  have v: "s3_const req workdir (s3_after_sig env view 1 rn) \<and> s3_inv env req workdir (es @ [(view, code)]) (s3_after_sig env view 1 rn)"
    unfolding s3_after_sig_def by (rule verify_inv [where b = False]) (use assms(1) ran in \<open>auto simp: s3_const_def\<close>)
  have f: "s3_const req workdir (s3_finish c (s3_say ls rn)) \<and> s3_inv env req workdir (es @ [(view, code)]) (s3_finish c (s3_say ls rn))"
    if "c \<noteq> 0" for c ls
    by (rule s3_finish_early) (use assms(1) ran that in auto)
  have r: "s3_const req workdir (s3_run env (s3_fetch_sig env req workdir) FetchingSig (s3_say ls rn)) \<and>
      s3_inv env req workdir (es @ [(view, code)]) (s3_run env (s3_fetch_sig env req workdir) FetchingSig (s3_say ls rn))" for ls
    using assms(1) ran by (auto simp: s3_steps s3_const_def s3_inv_def)
  show ?thesis
    using v f r [unfolded s3_fetch_sig_def] unfolding rn' s3_after_download_def sig by auto
next
  case FetchingSig
  then have "rn' = s3_after_sig env view code rn" using assms(3) by (simp add: s3_exit_def)
  moreover have "s3_const req workdir (s3_after_sig env view code rn) \<and>
      s3_inv env req workdir (es @ [(view, code)]) (s3_after_sig env view code rn)"
    unfolding s3_after_sig_def
    by (rule verify_inv [where b = True]) (use assms(1,2) FetchingSig in \<open>auto simp: s3_const_def s3_inv_def\<close>)
  ultimately show ?thesis by simp
next
  case CheckingGpg
  then have "rn' = s3_after_gpg env code rn" using assms(3) by (simp add: s3_exit_def)
  moreover have "s3_const req workdir (s3_after_gpg env code rn) \<and>
      s3_inv env req workdir (es @ [(view, code)]) (s3_after_gpg env code rn)"
    unfolding s3_after_gpg_def
    by (rule unpack_inv)
      (use assms(1,2) CheckingGpg in \<open>auto simp: s3_const_def s3_inv_def s3_say_def intro: s3_verified_snoc\<close>)
  ultimately show ?thesis by simp
next
  case Untarring
  then have "rn' = s3_after_unpack code rn" using assms(3) by (simp add: s3_exit_def)
  then show ?thesis
    using assms(1,2) Untarring s3_verified_snoc [of env req workdir es "(view, code)"]
    by (auto simp: s3_after_unpack_def s3_steps s3_const_def s3_inv_def Let_def)
qed (use assms(3) in \<open>simp_all add: s3_exit_def\<close>)

lemma s3_runs_inv:
  "s3_runs env req workdir es rn \<Longrightarrow> s3_const req workdir rn \<and> s3_inv env req workdir es rn"
proof (induction rule: s3_runs.induct)
  case s3_begun
  show ?case
    by (simp add: s3_start_def s3_steps s3_const_def s3_inv_def s3_fetch_def s3_tarball_def Let_def)
next
  case (s3_moved es rn view code rn')
  then show ?case using exit_inv by blast
qed

text \<open>The four commands differ: the second word of \<open>tar\<close> is its own.\<close>

lemma s3_tar_differs:
  "s3_tar env req workdir \<noteq> s3_fetch env req workdir" "s3_tar env req workdir \<noteq> s3_fetch_sig env req workdir"
  "s3_tar env req workdir \<noteq> s3_check env req workdir"
  by (simp_all add: s3_tar_def s3_fetch_def s3_fetch_sig_def s3_check_def s3_download_argv_def tar_unpack_argv_def
      gpg_verify_argv_def split: option.splits)

lemma s3_calls_guarded:
  assumes "stage3_on_call env mkdtemp meth who req w = (w', r)" "s3_runners (wd_state w') \<noteq> s3_runners (wd_state w)"
  shows "cl_authorized who \<and> valid_target_root (rq_root req) \<and> http_url (rq_tarball_url req) \<and>
    (\<exists>workdir. mkdtemp (rq_root req) = Inr workdir \<and>
      s3_runners (wd_state w') = s3_runners (wd_state w) @ [s3_start env req workdir])"
  using assms
  by (auto simp: stage3_on_call_def guard_target_root_def guard_def Let_def split: if_splits sum.splits)

section \<open>Properties\<close>

text \<open>C10: Whatever the processes return and whatever the files become in between, a run of the service
  starts \<open>tar\<close> only if at the end of one of its processes the content of the tarball had
  every hash the digests publish for it (and they publish one); it ends with one signal, whose
  code is zero exactly when \<open>tar\<close> ran and succeeded.\<close>

theorem stage3_unpack_gated:
  assumes "s3_runs env req workdir es rn"
  shows "(s3_tar env req workdir \<in> set (rn_ran rn) \<longrightarrow> s3_verified env req workdir es) \<and>
    (if rn_phase rn = Done
     then \<exists>code. ends (rn_signals rn) = [code] \<and> last (rn_signals rn) = Finished code \<and>
       (code = 0 \<longleftrightarrow> s3_tar env req workdir \<in> set (rn_ran rn) \<and> snd (last es) = 0)
     else ends (rn_signals rn) = [])"
proof -
  have "s3_inv env req workdir es rn" using s3_runs_inv [OF assms] by simp
  then show ?thesis
    using s3_tar_differs [of env req workdir]
    by (cases "rn_phase rn") (auto simp: s3_inv_def Let_def)
qed

text \<open>A run of the service ends: when every program can be started it is done after at most four
  processes, and until then the end of the running process always takes it on.\<close>

theorem stage3_run_ends:
  assumes "s3_runs env req workdir es rn" "se_starts env = (\<lambda>argv. True)"
  shows "length es \<le> 4 \<and> (rn_phase rn = Done \<or> (length es < 4 \<and> s3_exit env view code rn \<noteq> None))"
proof -
  have "rn_phase rn \<noteq> Broken" using assms(1)
  proof cases
    case s3_begun
    then show ?thesis using assms(2) by (simp add: s3_start_def s3_steps Let_def)
  next
    case (s3_moved es' rn0 v c)
    then show ?thesis
      using assms(2)
      by (auto simp: s3_exit_def s3_after_download_def s3_after_sig_def s3_after_gpg_def s3_after_unpack_def
          s3_verify_hashes_def s3_gpg_verify_def s3_unpack_def s3_steps Let_def
          split: s3_phase.splits sum.splits option.splits if_splits)
  qed
  moreover have "s3_inv env req workdir es rn" using s3_runs_inv [OF assms(1)] by simp
  ultimately show ?thesis
    by (cases "rn_phase rn") (auto simp: s3_inv_def s3_exit_def Let_def)
qed

definition demo_s3_env :: s3_env where
  "demo_s3_env = \<lparr>se_wget = Some ''/usr/bin/wget'', se_curl = None, se_tar = Some ''/bin/tar'', se_gpg = None,
     se_blake2b = (\<lambda>d. if d = ''data'' then ''0123456789abcdef'' else ''0''), se_sha512 = (\<lambda>d. []), se_starts = (\<lambda>argv. True)\<rparr>"

definition demo_s3_request :: s3_request where
  "demo_s3_request = \<lparr>rq_root = ''/mnt/gentoo'', rq_tarball_url = ''https://x.org/s3.tar.xz'',
     rq_digests = ''# BLAKE2B HASH'' @ [LF] @ ''0123456789abcdef  s3.tar.xz'', rq_signature_url = []\<rparr>"

definition demo_s3_view :: "string \<Rightarrow> s3_view" where
  "demo_s3_view data = \<lparr>vw_exists = (\<lambda>p. True), vw_read = (\<lambda>p. Inr data)\<rparr>"

fun s3_exits :: "s3_env \<Rightarrow> (s3_view \<times> int) list \<Rightarrow> s3_runner \<Rightarrow> s3_runner option" where
  "s3_exits env [] rn = Some rn"
| "s3_exits env ((view, code) # es) rn = (case s3_exit env view code rn of None \<Rightarrow> None | Some rn \<Rightarrow> s3_exits env es rn)"

lemma s3_exits_runs:
  "s3_runs env req workdir es0 rn \<Longrightarrow> s3_exits env es rn = Some rn' \<Longrightarrow> s3_runs env req workdir (es0 @ es) rn'"
proof (induction env es rn arbitrary: es0 rule: s3_exits.induct)
  case (2 env view code es rn)
  then obtain rn1 where "s3_exit env view code rn = Some rn1" "s3_exits env es rn1 = Some rn'" by (auto split: option.splits)
  with 2(1) [OF this(1) s3_moved [OF 2(2) this(1)]] show ?case by simp
qed simp

theorem stage3_unpack_gated_witness:
  "\<exists>rn. s3_runs demo_s3_env demo_s3_request ''/mnt/gentoo/t'' [(demo_s3_view ''data'', 0), (demo_s3_view ''data'', 0)] rn \<and>
     rn_phase rn = Done \<and> ends (rn_signals rn) = [0] \<and>
     s3_verified demo_s3_env demo_s3_request ''/mnt/gentoo/t'' [(demo_s3_view ''data'', 0), (demo_s3_view ''data'', 0)]"
proof -
  let ?es = "[(demo_s3_view ''data'', 0), (demo_s3_view ''data'', 0 :: int)]"
  let ?r = "s3_exits demo_s3_env ?es (s3_start demo_s3_env demo_s3_request ''/mnt/gentoo/t'')"
  have "map_option rn_phase ?r = Some Done"
    "map_option (\<lambda>rn. s3_tar demo_s3_env demo_s3_request ''/mnt/gentoo/t'' \<in> set (rn_ran rn)) ?r = Some True"
    by code_simp+
  then obtain rn where rn: "?r = Some rn" "rn_phase rn = Done" "s3_tar demo_s3_env demo_s3_request ''/mnt/gentoo/t'' \<in> set (rn_ran rn)"
    by auto
  have runs: "s3_runs demo_s3_env demo_s3_request ''/mnt/gentoo/t'' ?es rn"
    using s3_exits_runs [OF s3_begun rn(1)] by simp
  from stage3_unpack_gated [OF runs] rn(2,3) have
    "s3_verified demo_s3_env demo_s3_request ''/mnt/gentoo/t'' ?es" "ends (rn_signals rn) = [0]" by auto
  with runs rn(2) show ?thesis by blast
qed

theorem stage3_run_ends_witness:
  "\<exists>rn. s3_runs demo_s3_env demo_s3_request ''/mnt/gentoo/t'' [(demo_s3_view ''bad'', 0)] rn \<and> rn_phase rn = Done \<and>
     length [(demo_s3_view ''bad'', 0 :: int)] \<le> 4"
proof -
  let ?es = "[(demo_s3_view ''bad'', 0 :: int)]"
  let ?r = "s3_exits demo_s3_env ?es (s3_start demo_s3_env demo_s3_request ''/mnt/gentoo/t'')"
  have "map_option rn_phase ?r = Some Done" by code_simp
  then obtain rn where rn: "?r = Some rn" "rn_phase rn = Done" by auto
  have runs: "s3_runs demo_s3_env demo_s3_request ''/mnt/gentoo/t'' ?es rn"
    using s3_exits_runs [OF s3_begun rn(1)] by simp
  have "se_starts demo_s3_env = (\<lambda>argv. True)" by (simp add: demo_s3_env_def)
  from stage3_run_ends [OF runs this] rn(2) runs show ?thesis by blast
qed

end
