(* ===== verification/DiskService.thy ===== *)
theory DiskService
  imports ToolService DiskMount
begin

text \<open>
  The root service for disks, \<open>gest/backend/disk.py\<close>: mounting, editing \<open>/etc/fstab\<close>,
  partitioning, formatting and assembling an install target. Its state is the files and the
  commands that ran; what the kernel knows (the mounts, which paths are block devices) is read
  from the environment at the moment of the call.
\<close>

section \<open>State and calls\<close>

record disk_tools =
  dt_mount :: string
  dt_umount :: string
  dt_wipefs :: string
  dt_sgdisk :: string
  dt_partprobe :: string
  dt_udevadm :: string
  dt_mkswap :: string
  dt_swapon :: string
  dt_swapoff :: string
  dt_mkdir :: string

text \<open>\<open>de_stat\<close> gives the error text of \<open>os.stat\<close> or whether the path is a block device;
  \<open>de_copy_fault\<close> is what a failing copy of the backup leaves behind.\<close>

record disk_env =
  de_tool :: tool_env
  de_tools :: disk_tools
  de_mounts :: "tool_state \<Rightarrow> string"
  de_stat :: "tool_state \<Rightarrow> string \<Rightarrow> string + bool"
  de_unreadable :: bool
  de_copy_fault :: "(string \<times> nat) option option"

datatype disk_call =
    CallMount string
  | CallUnmount string
  | CallWriteFstabEntry string string string string int int
  | CallRemoveFstabEntry string
  | CallPartitionDisk string bool "(int \<times> string \<times> string \<times> string) list"
  | CallMakeFilesystem string string string
  | CallMakeSwap string string
  | CallSwapOn string
  | CallSwapOff string
  | CallMountAt string string
  | CallWriteTargetFstab string string

fun disk_method :: "disk_call \<Rightarrow> string" where
  "disk_method (CallMount mountpoint) = ''Mount''"
| "disk_method (CallUnmount mountpoint) = ''Unmount''"
| "disk_method (CallWriteFstabEntry spec mountpoint fstype options dump passno) = ''WriteFstabEntry''"
| "disk_method (CallRemoveFstabEntry mountpoint) = ''RemoveFstabEntry''"
| "disk_method (CallPartitionDisk disk wipe parts) = ''PartitionDisk''"
| "disk_method (CallMakeFilesystem device kind label) = ''MakeFilesystem''"
| "disk_method (CallMakeSwap device label) = ''MakeSwap''"
| "disk_method (CallSwapOn device) = ''SwapOn''"
| "disk_method (CallSwapOff device) = ''SwapOff''"
| "disk_method (CallMountAt device path) = ''MountAt''"
| "disk_method (CallWriteTargetFstab tgt content) = ''WriteTargetFstab''"

definition DISK_POLKIT_ACTIONS :: "(string \<times> string) list" where
  "DISK_POLKIT_ACTIONS =
     [(''Mount'', ''org.gentoo.gest.disk.manage''), (''Unmount'', ''org.gentoo.gest.disk.manage''),
      (''WriteFstabEntry'', ''org.gentoo.gest.disk.manage''), (''RemoveFstabEntry'', ''org.gentoo.gest.disk.manage''),
      (''PartitionDisk'', ''org.gentoo.gest.disk.partition''), (''MakeFilesystem'', ''org.gentoo.gest.disk.mkfs''),
      (''MakeSwap'', ''org.gentoo.gest.disk.swap''), (''SwapOn'', ''org.gentoo.gest.disk.swap''),
      (''SwapOff'', ''org.gentoo.gest.disk.swap''), (''MountAt'', ''org.gentoo.gest.disk.mounttarget''),
      (''WriteTargetFstab'', ''org.gentoo.gest.disk.mounttarget'')]"

definition SYSTEM_FSTAB :: string where
  "SYSTEM_FSTAB = ''/etc/fstab''"

definition FSTAB_BACKUP :: string where
  "FSTAB_BACKUP = ''/etc/fstab.gest.bak''"

section \<open>Running tools\<close>

text \<open>A builder called with the path of its program.\<close>

definition with_program :: "string \<Rightarrow> string list res \<Rightarrow> string list res" where
  "with_program prog argv = res_bind argv (\<lambda>argv. Inr (prog # tl argv))"

fun run_sequence :: "tool_env \<Rightarrow> string list list \<Rightarrow> string list \<Rightarrow> tool_state \<Rightarrow> tool_state \<times> bool \<times> string list" where
  "run_sequence env [] collected s = (s, True, collected)"
| "run_sequence env (argv # argvs) collected s =
     (case tool_run env argv s of
        (s1, ok, out) \<Rightarrow>
          (let collected = (if out \<noteq> [] then collected @ [out] else collected)
           in if \<not> ok then (s1, False, collected) else run_sequence env argvs collected s1))"

definition run_all :: "tool_env \<Rightarrow> string list list \<Rightarrow> string \<Rightarrow> tool_state \<Rightarrow> tool_state \<times> bool \<times> string" where
  "run_all env argvs success_msg s =
     (case run_sequence env argvs [] s of
        (s', ok, collected) \<Rightarrow> (s', ok, if ok \<and> collected = [] then success_msg else join [LF] collected))"

definition run_one :: "tool_env \<Rightarrow> string list \<Rightarrow> string \<Rightarrow> tool_state \<Rightarrow> tool_state \<times> bool \<times> string" where
  "run_one env argv done_msg s =
     (case tool_run env argv s of (s', ok, out) \<Rightarrow> (s', ok, if out \<noteq> [] then out else done_msg))"

section \<open>Checks\<close>

definition require_block_device :: "disk_env \<Rightarrow> tool_state \<Rightarrow> string \<Rightarrow> unit res" where
  "require_block_device env s device =
     guard (valid_device device) (ValueError (''invalid block device: '' @ py_repr device))
       (case de_stat env s device of
          Inl strerror \<Rightarrow> Inl (ValueError (device @ '': '' @ (if strerror \<noteq> [] then strerror else ''cannot stat'')))
        | Inr block \<Rightarrow> guard block (ValueError (device @ '' is not a block device'')) (Inr ()))"

definition or_none :: "string \<Rightarrow> string option" where
  "or_none s = (if s = [] then None else Some s)"

text \<open>The commands of a partitioning, all built before the first runs.\<close>

definition partition_commands :: "disk_tools \<Rightarrow> string \<Rightarrow> bool \<Rightarrow> (int \<times> string \<times> string \<times> string) list \<Rightarrow> string list list res" where
  "partition_commands t disk wipe parts =
     (let ps = map (\<lambda>(n, sz, guid, label). \<lparr>pt_number = n, pt_size = sz, pt_type_guid = guid, pt_label = or_none label\<rparr>) parts
      in res_bind (if wipe
           then res_bind (with_program (dt_wipefs t) (wipefs_argv disk False)) (\<lambda>a.
                res_bind (with_program (dt_sgdisk t) (sgdisk_zap_argv disk)) (\<lambda>b. Inr [a, b]))
           else Inr []) (\<lambda>wipes.
         res_bind (with_program (dt_sgdisk t) (sgdisk_partition_argv disk ps)) (\<lambda>part.
         res_bind (with_program (dt_partprobe t) (partprobe_argv disk)) (\<lambda>probe.
           Inr (wipes @ [part, probe, dt_udevadm t # tl udevadm_settle_argv])))))"

text \<open>A provisioning call: the safety check, the block device, the commands.\<close>

type_synonym disk_outcome = "tool_state \<times> (disk_error + bool \<times> string)"

definition checked ::
    "disk_env \<Rightarrow> (disk_error + unit) \<Rightarrow> string \<Rightarrow> 'a res \<Rightarrow> ('a \<Rightarrow> tool_state \<Rightarrow> tool_state \<times> bool \<times> string) \<Rightarrow> tool_state \<Rightarrow> disk_outcome" where
  "checked env safety device argv run s =
     (case safety of
        Inl e \<Rightarrow> (s, Inl e)
      | Inr _ \<Rightarrow>
          (case require_block_device env s device of
             Inl e \<Rightarrow> (s, Inl (DiskRaised e))
           | Inr _ \<Rightarrow>
               (case argv of
                  Inl e \<Rightarrow> (s, Inl (DiskRaised e))
                | Inr argv \<Rightarrow> (case run argv s of (s', ok, out) \<Rightarrow> (s', Inr (ok, out))))))"

definition partition_disk ::
    "disk_env \<Rightarrow> string \<Rightarrow> bool \<Rightarrow> (int \<times> string \<times> string \<times> string) list \<Rightarrow> tool_state \<Rightarrow> disk_outcome" where
  "partition_disk env disk wipe parts s =
     checked env (guard_provision_target disk (de_mounts env s) True) disk
       (partition_commands (de_tools env) disk wipe parts)
       (\<lambda>argvs. run_all (de_tool env) argvs (''partitioned '' @ disk)) s"

definition make_filesystem :: "disk_env \<Rightarrow> string \<Rightarrow> string \<Rightarrow> string \<Rightarrow> tool_state \<Rightarrow> disk_outcome" where
  "make_filesystem env device kind label s =
     checked env (guard_provision_target device (de_mounts env s) False) device
       (mkfs_argv device kind (or_none label))
       (\<lambda>argv. run_one (de_tool env) argv (''made '' @ kind @ '' on '' @ device)) s"

definition make_swap :: "disk_env \<Rightarrow> string \<Rightarrow> string \<Rightarrow> tool_state \<Rightarrow> disk_outcome" where
  "make_swap env device label s =
     checked env (guard_provision_target device (de_mounts env s) False) device
       (with_program (dt_mkswap (de_tools env)) (mkswap_argv device (or_none label)))
       (\<lambda>argv. run_one (de_tool env) argv (''swap ready on '' @ device)) s"

definition swap_on :: "disk_env \<Rightarrow> string \<Rightarrow> tool_state \<Rightarrow> disk_outcome" where
  "swap_on env device s =
     checked env (Inr ()) device (with_program (dt_swapon (de_tools env)) (swapon_argv device))
       (\<lambda>argv. run_one (de_tool env) argv (''swap enabled on '' @ device)) s"

definition swap_off :: "disk_env \<Rightarrow> string \<Rightarrow> tool_state \<Rightarrow> disk_outcome" where
  "swap_off env device s =
     checked env (Inr ()) device (with_program (dt_swapoff (de_tools env)) (swapoff_argv device))
       (\<lambda>argv. run_one (de_tool env) argv (''swap disabled on '' @ device)) s"

definition mount_at :: "disk_env \<Rightarrow> string \<Rightarrow> string \<Rightarrow> tool_state \<Rightarrow> disk_outcome" where
  "mount_at env device path s =
     (if \<not> valid_target_root path
      then (s, Inl (DiskRaised (ValueError (''path outside an allowed target root: '' @ py_repr path))))
      else
        checked env (guard_provision_target device (de_mounts env s) False) device
          (res_bind (with_program (dt_mkdir (de_tools env)) (mkdir_p_argv path)) (\<lambda>a.
           res_bind (with_program (dt_mount (de_tools env)) (mount_device_argv device path)) (\<lambda>b. Inr [a, b])))
          (\<lambda>argvs. run_all (de_tool env) argvs (''mounted '' @ device @ '' at '' @ path)) s)"

section \<open>The system's fstab\<close>

definition read_fstab :: "disk_env \<Rightarrow> tool_state \<Rightarrow> string" where
  "read_fstab env s =
     (if de_unreadable env then []
      else (case ts_files s SYSTEM_FSTAB of None \<Rightarrow> [] | Some (t, m) \<Rightarrow> t))"

definition guard_not_protected :: "string \<Rightarrow> string \<Rightarrow> unit res" where
  "guard_not_protected mountpoint content =
     res_bind (parse_fstab content) (\<lambda>entries.
       guard (\<not> list_ex (\<lambda>e. fe_mountpoint e = mountpoint \<and> is_protected e) entries)
         (ValueError ''protected mount point'') (Inr ()))"

definition store_fstab :: "disk_env \<Rightarrow> string \<Rightarrow> string \<Rightarrow> tool_state \<Rightarrow> disk_outcome" where
  "store_fstab env content msg s =
     (let backed = (case ts_files s SYSTEM_FSTAB of None \<Rightarrow> Inr s
                    | Some f \<Rightarrow> (case de_copy_fault env of
                          None \<Rightarrow> Inr (s\<lparr>ts_files := (ts_files s)(FSTAB_BACKUP \<mapsto> f)\<rparr>)
                        | Some left \<Rightarrow> Inl (s\<lparr>ts_files := (ts_files s)(FSTAB_BACKUP := left)\<rparr>)))
      in case backed of
           Inl s1 \<Rightarrow> (s1, Inl (DiskRaised (OSError ''copy'')))
         | Inr s1 \<Rightarrow>
             (case write_tool_file (de_tool env) SYSTEM_FSTAB content s1 of
                (s2, Inl e) \<Rightarrow> (s2, Inl (DiskRaised e))
              | (s2, Inr p) \<Rightarrow> (s2, Inr (True, msg))))"

definition write_fstab_entry :: "disk_env \<Rightarrow> fstab_entry \<Rightarrow> tool_state \<Rightarrow> disk_outcome" where
  "write_fstab_entry env entry s =
     (if \<not> valid_entry entry then (s, Inl (DiskRaised (ValueError ''invalid fstab entry'')))
      else if is_protected entry then (s, Inl (DiskRaised (ValueError ''protected mount point'')))
      else
        (let content = read_fstab env s
         in case guard_not_protected (fe_mountpoint entry) content of
              Inl e \<Rightarrow> (s, Inl (DiskRaised e))
            | Inr _ \<Rightarrow> store_fstab env (upsert_entry content entry)
                (fe_mountpoint entry @ '' written to /etc/fstab (backup: '' @ FSTAB_BACKUP @ '')'') s))"

definition remove_fstab_entry :: "disk_env \<Rightarrow> string \<Rightarrow> tool_state \<Rightarrow> disk_outcome" where
  "remove_fstab_entry env mountpoint s =
     (if \<not> valid_mountpoint mountpoint then (s, Inl (DiskRaised (ValueError ''invalid mount point'')))
      else
        (let content = read_fstab env s
         in case guard_not_protected mountpoint content of
              Inl e \<Rightarrow> (s, Inl (DiskRaised e))
            | Inr _ \<Rightarrow> store_fstab env (remove_entry content mountpoint)
                (mountpoint @ '' removed from /etc/fstab (backup: '' @ FSTAB_BACKUP @ '')'') s))"

definition write_target_fstab :: "disk_env \<Rightarrow> string \<Rightarrow> string \<Rightarrow> tool_state \<Rightarrow> disk_outcome" where
  "write_target_fstab env tgt content s =
     (case write_target_fstab_file (te_fault (de_tool env)) (te_tmp (de_tool env)) (te_partial (de_tool env)) tgt content (ts_files s) of
        (fs, Inl e) \<Rightarrow> (s\<lparr>ts_files := fs\<rparr>, Inl (DiskRaised e))
      | (fs, Inr p) \<Rightarrow> (s\<lparr>ts_files := fs\<rparr>, Inr (True, ''wrote '' @ p)))"

section \<open>The dispatcher\<close>

definition run_argv :: "disk_env \<Rightarrow> string list res \<Rightarrow> tool_state \<Rightarrow> disk_outcome" where
  "run_argv env argv s =
     (case argv of
        Inl e \<Rightarrow> (s, Inl (DiskRaised e))
      | Inr argv \<Rightarrow> (case tool_run (de_tool env) argv s of (s', ok, out) \<Rightarrow> (s', Inr (ok, out))))"

fun disk_dispatch :: "disk_env \<Rightarrow> disk_call \<Rightarrow> tool_state \<Rightarrow> disk_outcome" where
  "disk_dispatch env (CallMount mountpoint) s =
     run_argv env (with_program (dt_mount (de_tools env)) (mount_argv mountpoint)) s"
| "disk_dispatch env (CallUnmount mountpoint) s =
     run_argv env (with_program (dt_umount (de_tools env)) (umount_argv mountpoint)) s"
| "disk_dispatch env (CallWriteFstabEntry spec mountpoint fstype options dump passno) s =
     write_fstab_entry env (FstabEntry spec mountpoint fstype options dump passno) s"
| "disk_dispatch env (CallRemoveFstabEntry mountpoint) s = remove_fstab_entry env mountpoint s"
| "disk_dispatch env (CallPartitionDisk disk wipe parts) s = partition_disk env disk wipe parts s"
| "disk_dispatch env (CallMakeFilesystem device kind label) s = make_filesystem env device kind label s"
| "disk_dispatch env (CallMakeSwap device label) s = make_swap env device label s"
| "disk_dispatch env (CallSwapOn device) s = swap_on env device s"
| "disk_dispatch env (CallSwapOff device) s = swap_off env device s"
| "disk_dispatch env (CallMountAt device path) s = mount_at env device path s"
| "disk_dispatch env (CallWriteTargetFstab tgt content) s = write_target_fstab env tgt content s"

fun disk_detail :: "disk_call \<Rightarrow> string" where
  "disk_detail (CallMount mountpoint) = ''mount '' @ mountpoint"
| "disk_detail (CallUnmount mountpoint) = ''umount '' @ mountpoint"
| "disk_detail (CallWriteFstabEntry spec mountpoint fstype options dump passno) = ''fstab write '' @ mountpoint"
| "disk_detail (CallRemoveFstabEntry mountpoint) = ''fstab remove '' @ mountpoint"
| "disk_detail (CallPartitionDisk disk wipe parts) = ''partition '' @ disk"
| "disk_detail (CallMakeFilesystem device kind label) = ''mkfs '' @ kind @ '' '' @ device"
| "disk_detail (CallMakeSwap device label) = ''mkswap '' @ device"
| "disk_detail (CallSwapOn device) = ''swapon '' @ device"
| "disk_detail (CallSwapOff device) = ''swapoff '' @ device"
| "disk_detail (CallMountAt device path) = ''mount '' @ device @ '' at '' @ path"
| "disk_detail (CallWriteTargetFstab tgt content) = ''fstab write '' @ tgt"

text \<open>The handler asks polkit for the action of the method; a refused call is logged too.\<close>

definition disk_on_call ::
    "disk_env \<Rightarrow> (string \<Rightarrow> bool) \<Rightarrow> int option \<Rightarrow> disk_call \<Rightarrow> tool_state world \<Rightarrow> tool_state world \<times> reply res" where
  "disk_on_call env allowed uid call w =
     (let meth = disk_method call; who = \<lparr>cl_authorized = allowed (the (map_of DISK_POLKIT_ACTIONS meth)), cl_uid = uid\<rparr>
      in if \<not> cl_authorized who
         then (audit who meth ''denied'' [] w, Inr (ReturnError ACCESS_DENIED ''Not authorized for this disk operation''))
         else
           (case disk_dispatch env call (wd_state w) of
              (s', Inl (DiskSafetyError problems)) \<Rightarrow>
                (audit who meth ''refused'' (join ''; '' problems) (w\<lparr>wd_state := s'\<rparr>),
                 Inr (ReturnValue False (''refused: '' @ join ''; '' problems)))
            | (s', Inl (DiskRaised (ValueError e))) \<Rightarrow> (w\<lparr>wd_state := s'\<rparr>, Inr (ReturnError INVALID_ARGS e))
            | (s', Inl (DiskRaised (OSError e))) \<Rightarrow> (w\<lparr>wd_state := s'\<rparr>, Inr (ReturnValue False (''failed: '' @ e)))
            | (s', Inl (DiskRaised e)) \<Rightarrow> (w\<lparr>wd_state := s'\<rparr>, Inl e)
            | (s', Inl (DiskApplyError st r)) \<Rightarrow> (w\<lparr>wd_state := s'\<rparr>, Inl (RuntimeError (st_label st)))
            | (s', Inr (ok, out)) \<Rightarrow>
                (audit who meth (if ok then ''ok'' else ''failed'') (disk_detail call) (w\<lparr>wd_state := s'\<rparr>),
                 Inr (ReturnValue ok out))))"

section \<open>What a call may run\<close>

text \<open>The device a call works on, and what its safety check asks of the mounts.\<close>

fun call_target :: "disk_call \<Rightarrow> string option" where
  "call_target (CallPartitionDisk disk wipe parts) = Some disk"
| "call_target (CallMakeFilesystem device kind label) = Some device"
| "call_target (CallMakeSwap device label) = Some device"
| "call_target (CallSwapOn device) = Some device"
| "call_target (CallSwapOff device) = Some device"
| "call_target (CallMountAt device path) = Some device"
| "call_target call = None"

fun target_free :: "disk_call \<Rightarrow> string list \<Rightarrow> bool" where
  "target_free (CallPartitionDisk disk wipe parts) mounts = list_all (\<lambda>src. \<not> touches src disk) mounts"
| "target_free (CallMakeFilesystem device kind label) mounts = (device \<notin> set mounts)"
| "target_free (CallMakeSwap device label) mounts = (device \<notin> set mounts)"
| "target_free (CallMountAt device path) mounts = (device \<notin> set mounts \<and> valid_target_root path)"
| "target_free call mounts = True"

text \<open>The commands a call asks for, when all of its arguments pass the builders.\<close>

fun call_commands :: "disk_tools \<Rightarrow> disk_call \<Rightarrow> string list list res" where
  "call_commands t (CallMount mountpoint) = res_bind (with_program (dt_mount t) (mount_argv mountpoint)) (\<lambda>a. Inr [a])"
| "call_commands t (CallUnmount mountpoint) = res_bind (with_program (dt_umount t) (umount_argv mountpoint)) (\<lambda>a. Inr [a])"
| "call_commands t (CallPartitionDisk disk wipe parts) = partition_commands t disk wipe parts"
| "call_commands t (CallMakeFilesystem device kind label) = res_bind (mkfs_argv device kind (or_none label)) (\<lambda>a. Inr [a])"
| "call_commands t (CallMakeSwap device label) =
     res_bind (with_program (dt_mkswap t) (mkswap_argv device (or_none label))) (\<lambda>a. Inr [a])"
| "call_commands t (CallSwapOn device) = res_bind (with_program (dt_swapon t) (swapon_argv device)) (\<lambda>a. Inr [a])"
| "call_commands t (CallSwapOff device) = res_bind (with_program (dt_swapoff t) (swapoff_argv device)) (\<lambda>a. Inr [a])"
| "call_commands t (CallMountAt device path) =
     res_bind (with_program (dt_mkdir t) (mkdir_p_argv path)) (\<lambda>a.
       res_bind (with_program (dt_mount t) (mount_device_argv device path)) (\<lambda>b. Inr [a, b]))"
| "call_commands t call = Inr []"

definition device_ready :: "disk_env \<Rightarrow> disk_call \<Rightarrow> tool_state \<Rightarrow> bool" where
  "device_ready env call s =
     ((case call_target call of None \<Rightarrow> True | Some device \<Rightarrow> valid_device device \<and> de_stat env s device = Inr True) \<and>
      target_free call (mounted_sources (de_mounts env s)))"

lemma run_sequence_ran:
  "run_sequence env argvs collected s = (s', ok, out) \<Longrightarrow>
    \<exists>k. ts_ran s' = ts_ran s @ take k argvs \<and> ts_files s' = ts_files s"
proof (induction env argvs collected s arbitrary: s' ok out rule: run_sequence.induct)
  case (1 env collected s)
  then show ?case by simp
next
  case (2 env argv argvs collected s)
  obtain s1 ok1 out1 where run: "tool_run env argv s = (s1, ok1, out1)" by (cases "tool_run env argv s")
  note f = tool_run_eq [OF run]
  show ?case
  proof (cases ok1)
    case False
    then show ?thesis using 2(2) run f by (intro exI [of _ 1]) simp
  next
    case True
    let ?c = "if out1 \<noteq> [] then collected @ [out1] else collected"
    have "run_sequence env argvs ?c s1 = (s', ok, out)" using 2(2) run True by (simp add: Let_def)
    from 2(1) [OF run [symmetric] refl refl _ this] True obtain k
      where "ts_ran s' = ts_ran s1 @ take k argvs" "ts_files s' = ts_files s1" by auto
    then show ?thesis using f by (intro exI [of _ "Suc k"]) simp
  qed
qed

lemma run_all_ran:
  "run_all env argvs msg s = (s', ok, out) \<Longrightarrow> \<exists>k. ts_ran s' = ts_ran s @ take k argvs \<and> ts_files s' = ts_files s"
  by (auto simp: run_all_def split: prod.splits dest: run_sequence_ran)

lemma run_one_ran:
  "run_one env argv msg s = (s', ok, out) \<Longrightarrow> ts_ran s' = ts_ran s @ [argv] \<and> ts_files s' = ts_files s"
  by (auto simp: run_one_def split: prod.splits dest: tool_run_eq)

lemma run_argv_ran:
  "run_argv env argv s = (s', r) \<Longrightarrow>
    ts_files s' = ts_files s \<and> (ts_ran s' = ts_ran s \<or> (\<exists>a. argv = Inr a \<and> ts_ran s' = ts_ran s @ [a]))"
  by (auto simp: run_argv_def split: sum.splits prod.splits dest: tool_run_eq)

lemma checked_eq:
  "checked env safety device argv run s = (s', r) \<Longrightarrow>
    s' = s \<or> (safety = Inr () \<and> require_block_device env s device = Inr () \<and>
      (\<exists>a ok out. argv = Inr a \<and> run a s = (s', ok, out)))"
  by (auto simp: checked_def split: sum.splits prod.splits)

lemma block_device_ok:
  "require_block_device env s device = Inr () \<Longrightarrow> valid_device device \<and> de_stat env s device = Inr True"
  by (auto simp: require_block_device_def guard_def split: if_splits sum.splits)

lemma guard_whole_ok:
  "guard_provision_target device m True = Inr () \<Longrightarrow> list_all (\<lambda>src. \<not> touches src device) (mounted_sources m)"
  by (auto simp: guard_provision_target_def Let_def list_all_iff find_None_iff split: if_splits option.splits)

lemma guard_part_ok: "guard_provision_target device m False = Inr () \<Longrightarrow> device \<notin> set (mounted_sources m)"
  by (auto simp: guard_provision_target_def Let_def split: if_splits)

lemmas guards_ok = block_device_ok guard_whole_ok guard_part_ok

lemma store_fstab_ran: "store_fstab env content msg s = (s', r) \<Longrightarrow> ts_ran s' = ts_ran s"
  by (auto simp: store_fstab_def Let_def split: sum.splits prod.splits option.splits dest: write_tool_file_eq(1))

lemma edits_ran:
  "write_fstab_entry env e s = (s', r) \<Longrightarrow> ts_ran s' = ts_ran s"
  "remove_fstab_entry env mp s = (s', r) \<Longrightarrow> ts_ran s' = ts_ran s"
  "write_target_fstab env tgt content s = (s', r) \<Longrightarrow> ts_ran s' = ts_ran s"
  by (auto simp: write_fstab_entry_def remove_fstab_entry_def write_target_fstab_def Let_def
      split: if_splits sum.splits prod.splits dest: store_fstab_ran)

definition ran_some :: "string list list res \<Rightarrow> tool_state \<Rightarrow> tool_state \<Rightarrow> bool" where
  "ran_some commands s s' = (\<exists>argvs k. commands = Inr argvs \<and> ts_ran s' = ts_ran s @ take k argvs)"

lemma ran_one: "argv = Inr a \<Longrightarrow> ts_ran s' = ts_ran s @ [a] \<Longrightarrow> ran_some (res_bind argv (\<lambda>a. Inr [a])) s s'"
  unfolding ran_some_def by (intro exI [of _ "[a]"] exI [of _ 1]) simp

lemma run_argv_commands:
  "run_argv env argv s = (s', r) \<Longrightarrow> ts_ran s' = ts_ran s \<or> ran_some (res_bind argv (\<lambda>a. Inr [a])) s s'"
  using run_argv_ran [of env argv s s' r] ran_one [of argv _ s' s] by blast

lemma checked_one:
  "checked env safety device argv (\<lambda>a. run_one t a msg) s = (s', r) \<Longrightarrow>
    ts_ran s' = ts_ran s \<or> (safety = Inr () \<and> require_block_device env s device = Inr () \<and>
      ran_some (res_bind argv (\<lambda>a. Inr [a])) s s')"
  using checked_eq [of env safety device argv "\<lambda>a. run_one t a msg" s s' r] run_one_ran [of t _ msg s s'] ran_one [of argv _ s' s]
  by blast

lemma checked_all:
  "checked env safety device argv (\<lambda>a. run_all t a msg) s = (s', r) \<Longrightarrow>
    ts_ran s' = ts_ran s \<or> (safety = Inr () \<and> require_block_device env s device = Inr () \<and> ran_some argv s s')"
  using checked_eq [of env safety device argv "\<lambda>a. run_all t a msg" s s' r] run_all_ran [of t _ msg s s']
  unfolding ran_some_def by blast

lemma device_ready_parts:
  "device_ready env (CallPartitionDisk disk wipe parts) s =
     (valid_device disk \<and> de_stat env s disk = Inr True \<and>
      list_all (\<lambda>src. \<not> touches src disk) (mounted_sources (de_mounts env s)))"
  "device_ready env (CallMakeFilesystem device kind label) s =
     (valid_device device \<and> de_stat env s device = Inr True \<and> device \<notin> set (mounted_sources (de_mounts env s)))"
  "device_ready env (CallMakeSwap device label) s =
     (valid_device device \<and> de_stat env s device = Inr True \<and> device \<notin> set (mounted_sources (de_mounts env s)))"
  "device_ready env (CallSwapOn device) s = (valid_device device \<and> de_stat env s device = Inr True)"
  "device_ready env (CallSwapOff device) s = (valid_device device \<and> de_stat env s device = Inr True)"
  "device_ready env (CallMountAt device path) s =
     (valid_device device \<and> de_stat env s device = Inr True \<and>
      device \<notin> set (mounted_sources (de_mounts env s)) \<and> valid_target_root path)"
  "device_ready env (CallMount mp) s" "device_ready env (CallUnmount mp) s"
  by (simp_all add: device_ready_def conj_assoc)

lemma dispatch_commands:
  assumes "disk_dispatch env call s = (s', r)"
  shows "ts_ran s' = ts_ran s \<or> (device_ready env call s \<and> ran_some (call_commands (de_tools env) call) s s')"
proof (cases call)
  case (CallMount mp)
  show ?thesis using run_argv_commands [OF assms [unfolded CallMount disk_dispatch.simps]]
    by (simp add: CallMount device_ready_parts)
next
  case (CallUnmount mp)
  show ?thesis using run_argv_commands [OF assms [unfolded CallUnmount disk_dispatch.simps]]
    by (simp add: CallUnmount device_ready_parts)
next
  case (CallPartitionDisk disk wipe parts)
  show ?thesis using checked_all [OF assms [unfolded CallPartitionDisk disk_dispatch.simps partition_disk_def]]
    by (auto simp: CallPartitionDisk device_ready_parts dest: guards_ok)
next
  case (CallMakeFilesystem device kind label)
  show ?thesis using checked_one [OF assms [unfolded CallMakeFilesystem disk_dispatch.simps make_filesystem_def]]
    by (auto simp: CallMakeFilesystem device_ready_parts dest: guards_ok)
next
  case (CallMakeSwap device label)
  show ?thesis using checked_one [OF assms [unfolded CallMakeSwap disk_dispatch.simps make_swap_def]]
    by (auto simp: CallMakeSwap device_ready_parts dest: guards_ok)
next
  case (CallSwapOn device)
  show ?thesis using checked_one [OF assms [unfolded CallSwapOn disk_dispatch.simps swap_on_def]]
    by (auto simp: CallSwapOn device_ready_parts dest: guards_ok)
next
  case (CallSwapOff device)
  show ?thesis using checked_one [OF assms [unfolded CallSwapOff disk_dispatch.simps swap_off_def]]
    by (auto simp: CallSwapOff device_ready_parts dest: guards_ok)
next
  case (CallMountAt device path)
  show ?thesis using assms unfolding CallMountAt disk_dispatch.simps mount_at_def
    by (auto simp: device_ready_parts split: if_splits dest!: checked_all dest: guards_ok)
qed (use assms edits_ran in auto)

section \<open>Protected mounts\<close>

lemma protected_upsert_lines:
  "parse_fstab_lines ls = Inr es \<Longrightarrow> stored e \<Longrightarrow> \<not> is_protected e \<Longrightarrow>
    \<not> list_ex (\<lambda>x. fe_mountpoint x = fe_mountpoint e \<and> is_protected x) es \<Longrightarrow>
    \<exists>es'. parse_fstab_lines (upsert_lines (fe_mountpoint e) (render_entry e) ls) = Inr es' \<and>
      filter is_protected es' = filter is_protected es"
proof (induction ls arbitrary: es)
  case Nil
  then show ?case using parse_rendered_lines [of "[e]"] by simp
next
  case (Cons l ls)
  obtain xs where xs: "parse_fstab_lines ls = Inr xs" and
    es: "(line_entry l = None \<and> es = xs) \<or> (\<exists>x. line_entry l = Some (Inr x) \<and> es = x # xs)"
    using Cons.prems(1) by (auto simp: res_simps split: option.splits)
  show ?case
  proof (cases "mountpoint_of l = Some (fe_mountpoint e)")
    case True
    then show ?thesis
      using xs es Cons.prems(3,4) parse_rendered_line [OF Cons.prems(2), of ls] line_entry_mountpoint [of l]
      by (auto simp del: parse_line)
  next
    case False
    have "\<not> list_ex (\<lambda>x. fe_mountpoint x = fe_mountpoint e \<and> is_protected x) xs" using es Cons.prems(4) by auto
    from Cons.IH [OF xs Cons.prems(2,3) this] False es show ?thesis by auto
  qed
qed

definition protected_of :: "string \<Rightarrow> fstab_entry list res" where
  "protected_of content = res_bind (parse_fstab content) (\<lambda>es. Inr (filter is_protected es))"

lemma guard_not_protected_ok:
  "guard_not_protected mp content = Inr () \<longleftrightarrow>
    (\<exists>es. parse_fstab content = Inr es \<and> \<not> list_ex (\<lambda>e. fe_mountpoint e = mp \<and> is_protected e) es)"
  by (auto simp: guard_not_protected_def guard_def res_simps split: if_splits)

lemma upsert_keeps_protected:
  assumes "stored e" "\<not> is_protected e" "guard_not_protected (fe_mountpoint e) content = Inr ()"
  shows "protected_of (upsert_entry content e) = protected_of content"
  using protected_upsert_lines [of "splitlines content" _ e] assms
  by (auto simp: guard_not_protected_ok protected_of_def parse_upsert_entry parse_fstab_def [of content] res_simps)

lemma remove_keeps_protected:
  assumes "guard_not_protected mp content = Inr ()"
  shows "protected_of (remove_entry content mp) = protected_of content"
  using parse_filter_lines [of "splitlines content" _ mp] assms
  by (auto simp: guard_not_protected_ok protected_of_def parse_remove_entry parse_fstab_def [of content] res_simps list_ex_iff
      intro!: filter_cong)

lemma store_fstab_kept:
  assumes "store_fstab env content' msg s = (s', r)" "ts_files s SYSTEM_FSTAB = Some (content, m)"
    "te_tmp (de_tool env) \<noteq> SYSTEM_FSTAB"
  shows "ts_files s' SYSTEM_FSTAB = Some (content, m) \<or> ts_files s' SYSTEM_FSTAB = Some (content', MODE_644)"
proof -
  have ne: "FSTAB_BACKUP \<noteq> SYSTEM_FSTAB" by code_simp
  show ?thesis
    using assms(1,2) ne write_tool_file_eq(2) [where q = SYSTEM_FSTAB and env = "de_tool env"] assms(3)
    by (fastforce simp: store_fstab_def Let_def split: sum.splits prod.splits option.splits)
qed

lemma read_fstab_content:
  "\<not> de_unreadable env \<Longrightarrow> ts_files s SYSTEM_FSTAB = Some (content, m) \<Longrightarrow> read_fstab env s = content"
  by (simp add: read_fstab_def)

lemma target_fstab_path:
  assumes "valid_target_root root"
  shows "path_join root [''etc'', ''fstab''] \<noteq> SYSTEM_FSTAB"
proof
  assume eq: "path_join root [''etc'', ''fstab''] = SYSTEM_FSTAB"
  obtain r t where r: "r \<in> set MOUNT_TARGET_ROOTS" "root = (r @ ''/'') @ t"
    using assms by (auto simp: valid_target_root_def list_ex_iff startswith_decomp split: if_splits)
  have "startswith (path_join root [''etc'', ''fstab'']) root"
    using r(2) by (auto simp: path_join_def path_join2_def startswith_def)
  with r eq have "startswith SYSTEM_FSTAB (r @ ''/'')" by (auto simp: startswith_decomp)
  moreover have "list_all (\<lambda>r. \<not> startswith SYSTEM_FSTAB (r @ ''/'')) MOUNT_TARGET_ROOTS" by code_simp
  ultimately show False using r(1) by (simp add: list_all_iff)
qed

lemma write_target_kept:
  assumes "write_target_fstab env tgt content s = (s', r)" "te_tmp (de_tool env) \<noteq> SYSTEM_FSTAB"
  shows "ts_files s' SYSTEM_FSTAB = ts_files s SYSTEM_FSTAB"
  using assms target_fstab_path [of tgt] replace_file_frame [where q = SYSTEM_FSTAB]
  by (fastforce simp: write_target_fstab_def write_target_fstab_file_def guard_target_root_def guard_def
      split: sum.splits prod.splits if_splits)

lemma edit_kept:
  assumes "ts_files s SYSTEM_FSTAB = Some (content, m)" "\<not> de_unreadable env" "te_tmp (de_tool env) \<noteq> SYSTEM_FSTAB"
  shows "write_fstab_entry env e s = (s', r) \<Longrightarrow> \<not> fe_protected e \<Longrightarrow>
      \<exists>content' m'. ts_files s' SYSTEM_FSTAB = Some (content', m') \<and> protected_of content' = protected_of content"
    and "remove_fstab_entry env mp s = (s', r) \<Longrightarrow>
      \<exists>content' m'. ts_files s' SYSTEM_FSTAB = Some (content', m') \<and> protected_of content' = protected_of content"
proof -
  note read = read_fstab_content [OF assms(2,1)]
  assume w: "write_fstab_entry env e s = (s', r)" and e: "\<not> fe_protected e"
  show "\<exists>content' m'. ts_files s' SYSTEM_FSTAB = Some (content', m') \<and> protected_of content' = protected_of content"
  proof (cases "valid_entry e \<and> \<not> is_protected e \<and> guard_not_protected (fe_mountpoint e) content = Inr ()")
    case True
    then have "stored e" using e by (simp add: stored_def)
    from upsert_keeps_protected [OF this, of content] True
      store_fstab_kept [of env "upsert_entry content e" _ s s' r, OF _ assms(1,3)] w
    show ?thesis by (fastforce simp: write_fstab_entry_def read Let_def)
  next
    case False
    then have "s' = s" using w by (auto simp: write_fstab_entry_def read Let_def split: if_splits sum.splits)
    then show ?thesis using assms(1) by simp
  qed
next
  note read = read_fstab_content [OF assms(2,1)]
  assume w: "remove_fstab_entry env mp s = (s', r)"
  show "\<exists>content' m'. ts_files s' SYSTEM_FSTAB = Some (content', m') \<and> protected_of content' = protected_of content"
  proof (cases "valid_mountpoint mp \<and> guard_not_protected mp content = Inr ()")
    case True
    from remove_keeps_protected [of mp content] True
      store_fstab_kept [of env "remove_entry content mp" _ s s' r, OF _ assms(1,3)] w
    show ?thesis by (fastforce simp: remove_fstab_entry_def read Let_def)
  next
    case False
    then have "s' = s" using w by (auto simp: remove_fstab_entry_def read Let_def split: if_splits sum.splits)
    then show ?thesis using assms(1) by simp
  qed
qed

lemma commands_keep_files:
  "run_argv env argv s = (s', r) \<Longrightarrow> ts_files s' = ts_files s"
  "checked env safety device argv1 (\<lambda>a. run_one t a msg) s = (s', r) \<Longrightarrow> ts_files s' = ts_files s"
  "checked env safety device argvs (\<lambda>a. run_all t a msg) s = (s', r) \<Longrightarrow> ts_files s' = ts_files s"
    apply (blast dest: run_argv_ran)
   apply (blast dest: checked_eq run_one_ran)
  apply (blast dest: checked_eq run_all_ran)
  done

lemma dispatch_keeps_protected:
  assumes "disk_dispatch env call s = (s', r)" "ts_files s SYSTEM_FSTAB = Some (content, m)" "\<not> de_unreadable env"
    "te_tmp (de_tool env) \<noteq> SYSTEM_FSTAB"
  shows "\<exists>content' m'. ts_files s' SYSTEM_FSTAB = Some (content', m') \<and> protected_of content' = protected_of content"
proof (cases call)
  case (CallWriteFstabEntry spec mountpoint fstype options dump passno)
  with assms(1) edit_kept(1) [OF assms(2-4), of "FstabEntry spec mountpoint fstype options dump passno" s' r]
  show ?thesis by (simp add: FstabEntry_def)
next
  case (CallRemoveFstabEntry mountpoint)
  with assms(1) edit_kept(2) [OF assms(2-4), of mountpoint s' r] show ?thesis by simp
next
  case (CallWriteTargetFstab tgt content)
  with assms(1,2,4) write_target_kept [of env tgt content s s' r] show ?thesis by simp
qed (use assms(1,2) in \<open>auto simp: partition_disk_def make_filesystem_def make_swap_def swap_on_def swap_off_def mount_at_def
  split: if_splits dest: commands_keep_files\<close>)

lemma on_call_state:
  "disk_on_call env allowed uid call w = (w', r) \<Longrightarrow>
    wd_state w' = (if allowed (the (map_of DISK_POLKIT_ACTIONS (disk_method call)))
      then fst (disk_dispatch env call (wd_state w)) else wd_state w)"
  by (auto simp: disk_on_call_def Let_def split: if_splits prod.splits sum.splits disk_error.splits py_error.splits)

section \<open>Properties\<close>

text \<open>C11: a call to the disk service runs nothing unless polkit allowed the action of its method,
  and a call that names a device only when that is a valid block device and, for the destructive
  ones, not one that is mounted (nor, for partitioning, one with a mounted partition). What runs
  is a prefix of the commands the call stands for.\<close>

theorem disk_provision_guarded:
  assumes "disk_on_call env allowed uid call w = (w', r)"
  shows "\<exists>new. ts_ran (wd_state w') = ts_ran (wd_state w) @ new \<and>
    (new = [] \<or>
      (allowed (the (map_of DISK_POLKIT_ACTIONS (disk_method call))) \<and> device_ready env call (wd_state w) \<and>
       (\<exists>argvs k. call_commands (de_tools env) call = Inr argvs \<and> new = take k argvs)))"
proof (cases "allowed (the (map_of DISK_POLKIT_ACTIONS (disk_method call)))")
  case True
  obtain s' o' where d: "disk_dispatch env call (wd_state w) = (s', o')" by (cases "disk_dispatch env call (wd_state w)")
  with on_call_state [OF assms] True have "wd_state w' = s'" by simp
  with dispatch_commands [OF d] True show ?thesis by (auto simp: ran_some_def)
qed (use on_call_state [OF assms] in simp)

definition demo_tools :: disk_tools where
  "demo_tools = \<lparr>dt_mount = ''/bin/mount'', dt_umount = ''/bin/umount'', dt_wipefs = ''/sbin/wipefs'',
     dt_sgdisk = ''/usr/sbin/sgdisk'', dt_partprobe = ''/usr/sbin/partprobe'', dt_udevadm = ''/sbin/udevadm'',
     dt_mkswap = ''/sbin/mkswap'', dt_swapon = ''/sbin/swapon'', dt_swapoff = ''/sbin/swapoff'', dt_mkdir = ''/bin/mkdir''\<rparr>"

definition demo_disk_env :: disk_env where
  "demo_disk_env =
     \<lparr>de_tool = \<lparr>te_fault = (\<lambda>op. False), te_tmp = ''/etc/.gest.x'', te_partial = [], te_run = (\<lambda>argv. (0, [], []))\<rparr>,
      de_tools = demo_tools, de_mounts = (\<lambda>s. ''/dev/sda2 / ext4 rw 0 0'' @ [LF]),
      de_stat = (\<lambda>s p. Inr True), de_unreadable = False, de_copy_fault = None\<rparr>"

definition demo_disk_world :: "tool_state world" where
  "demo_disk_world =
     \<lparr>wd_state = \<lparr>ts_files = [''/etc/fstab'' \<mapsto> (''UUID=1 / ext4 noatime 0 1'' @ [LF], 420)], ts_ran = []\<rparr>, wd_audit = []\<rparr>"

theorem disk_provision_guarded_witness:
  "\<exists>new. ts_ran (wd_state (fst (disk_on_call demo_disk_env (\<lambda>a. True) (Some 1000) (CallMakeSwap ''/dev/sda3'' []) demo_disk_world))) = new \<and>
    new \<noteq> [] \<and> new = take 1 [[''/sbin/mkswap'', ''/dev/sda3'']]"
proof -
  let ?c = "disk_on_call demo_disk_env (\<lambda>a. True) (Some 1000) (CallMakeSwap ''/dev/sda3'' []) demo_disk_world"
  obtain w' r where c: "?c = (w', r)" by (cases ?c)
  have "ts_ran (wd_state (fst ?c)) = [[''/sbin/mkswap'', ''/dev/sda3'']]" by code_simp
  with disk_provision_guarded [OF c] show ?thesis by simp
qed



text \<open>The check of a partition sees names only: another name of the mounted root passes it, and so
  does the whole disk under it.\<close>

lemma mkfs_guard_sees_names:
  "ts_ran (wd_state (fst (disk_on_call demo_disk_env (\<lambda>a. True) None
      (CallMakeFilesystem ''/dev/disk/by-uuid/0c11'' ''ext4'' []) demo_disk_world)))
    = [[''mkfs.ext4'', ''-F'', ''/dev/disk/by-uuid/0c11'']]"
  "ts_ran (wd_state (fst (disk_on_call demo_disk_env (\<lambda>a. True) None
      (CallMakeFilesystem ''/dev/sda'' ''ext4'' []) demo_disk_world))) = [[''mkfs.ext4'', ''-F'', ''/dev/sda'']]"
  by code_simp+

end
