(* ===== verification/BootService.thy ===== *)
theory BootService
  imports ToolService BootConfig Bootloader
begin

text \<open>
  The root service of the boot loader, \<open>gest/backend/bootloader.py\<close>: regenerating and
  installing GRUB, the seamless boot configuration, and the boot theme, which it rebuilds from
  two validated words. A program that cannot be started raises, and only the write errors the
  code catches become replies.
\<close>

section \<open>Environment\<close>

text \<open>\<open>bl_run\<close> runs a program, or is the error of one that cannot be started; \<open>bl_read\<close> reads a
  file that exists (with the error of a failing read); \<open>bl_staged\<close> is what the theme tool left
  in the staging directory, the text of a file or its error; \<open>bl_scene\<close> is the scene image
  there, if any.\<close>

record boot_env =
  bl_tool :: tool_env
  bl_run :: "string list \<Rightarrow> string + (int \<times> string \<times> string)"
  bl_mkconfig :: string
  bl_grub_install :: string
  bl_helm :: string
  bl_read_fault :: "string \<Rightarrow> bool"
  bl_staging :: string
  bl_staged :: "string \<Rightarrow> string + string"
  bl_scene :: "(string + string) option"

datatype boot_call =
    RegenerateGrub
  | InstallGrub string string string bool string string
  | ConfigureSeamlessBoot string
  | SyncBootTheme string string string

fun boot_method :: "boot_call \<Rightarrow> string" where
  "boot_method RegenerateGrub = ''RegenerateGrub''"
| "boot_method (InstallGrub firmware efi_dir boot_id removable disk boot_dir) = ''InstallGrub''"
| "boot_method (ConfigureSeamlessBoot root) = ''ConfigureSeamlessBoot''"
| "boot_method (SyncBootTheme accent world root) = ''SyncBootTheme''"

definition BOOT_POLKIT_ACTIONS :: "(string \<times> string) list" where
  "BOOT_POLKIT_ACTIONS =
     [(''RegenerateGrub'', ''org.gentoo.gest.bootloader.manage''), (''InstallGrub'', ''org.gentoo.gest.bootloader.install''),
      (''ConfigureSeamlessBoot'', ''org.gentoo.gest.bootloader.manage''),
      (''SyncBootTheme'', ''org.gentoo.gest.bootloader.manage'')]"

definition ACCENT_RE :: rx where
  "ACCENT_RE = Seq (lit [HASH]) (Times 6 (Cls (\<lambda>c. dec_digit c \<or> c \<in> set ''ABCDEFabcdef'')))"

definition WORLD_RE :: rx where
  "WORLD_RE = Seq (Cls (\<lambda>c. lower_az c \<or> dec_digit c)) (Star (Cls (\<lambda>c. lower_az c \<or> dec_digit c \<or> c = CHR ''-'')))"

section \<open>Steps\<close>

text \<open>A step works on the state and gives a value or raises; the reply of a method is its value.\<close>

definition bl_exec :: "boot_env \<Rightarrow> string list \<Rightarrow> tool_state \<Rightarrow> tool_state \<times> (bool \<times> string) res" where
  "bl_exec env argv s =
     (case bl_run env argv of
        Inl e \<Rightarrow> (s, Inl (OSError e))
      | Inr (code, stdout, stderr) \<Rightarrow> (s\<lparr>ts_ran := ts_ran s @ [argv]\<rparr>, Inr (code = 0, tool_text stdout stderr)))"

text \<open>The file is written without a \<open>chmod\<close>: it keeps the mode of the temporary file.\<close>

definition bl_atomic_write :: "boot_env \<Rightarrow> string \<Rightarrow> string \<Rightarrow> tool_state \<Rightarrow> tool_state \<times> string res" where
  "bl_atomic_write env path content s =
     (case replace_file (te_fault (bl_tool env)) (te_tmp (bl_tool env)) (te_partial (bl_tool env)) None path content (ts_files s) of
        (fs, r) \<Rightarrow> (s\<lparr>ts_files := fs\<rparr>, r))"

fun bl_steps :: "boot_env \<Rightarrow> step list \<Rightarrow> string list \<Rightarrow> tool_state \<Rightarrow> tool_state \<times> (bool \<times> string) res" where
  "bl_steps env [] lines s = (s, Inr (True, join [LF] lines))"
| "bl_steps env (st # sts) lines s =
     st_bind (bl_exec env (st_argv st) s) (\<lambda>(ok, out) s.
       let lines = lines @ [st_label st @ '': '' @ (if ok then ''ok'' else out)]
       in if \<not> ok then (s, Inr (False, join [LF] lines)) else bl_steps env sts lines s)"

definition configure_seamless :: "boot_env \<Rightarrow> string \<Rightarrow> tool_state \<Rightarrow> tool_state \<times> (bool \<times> string) res" where
  "configure_seamless env root s =
     (let path = root @ ''/etc/default/grub'';
          existing = (case ts_files s path of
              None \<Rightarrow> Inr []
            | Some (t, m) \<Rightarrow> if bl_read_fault env path then Inl (OSError ''read'') else Inr t);
          written = (case existing of
              Inl e \<Rightarrow> (s, Inl e)
            | Inr t \<Rightarrow> bl_atomic_write env path (grub_default t) s)
      in case written of
           (s1, Inl e) \<Rightarrow> (s1, Inr (False, ''/etc/default/grub: '' @ err_str e))
         | (s1, Inr p) \<Rightarrow> bl_steps env (stage_theme_steps root) [''wrote '' @ path] s1)"

fun install_theme :: "boot_env \<Rightarrow> (string \<times> string) list \<Rightarrow> string list \<Rightarrow> tool_state \<Rightarrow> tool_state \<times> bool \<times> string list" where
  "install_theme env [] lines s = (s, True, lines)"
| "install_theme env ((src, dst) # rest) lines s =
     (case (case bl_staged env src of Inl e \<Rightarrow> (s, Inl (OSError e)) | Inr t \<Rightarrow> bl_atomic_write env dst t s) of
        (s1, Inl e) \<Rightarrow> (s1, False, lines @ [''install '' @ dst @ '': '' @ err_str e])
      | (s1, Inr p) \<Rightarrow> install_theme env rest (lines @ [''install '' @ dst @ '': ok'']) s1)"

text \<open>The scene image is copied when the tool left one.\<close>

definition install_scene :: "boot_env \<Rightarrow> string \<Rightarrow> string list \<Rightarrow> tool_state \<Rightarrow> tool_state \<times> bool \<times> string list" where
  "install_scene env dst lines s =
     (case bl_scene env of
        None \<Rightarrow> (s, True, lines @ [''scene: none for this world; keeping the current splash''])
      | Some content \<Rightarrow>
          (case (case content of Inl e \<Rightarrow> (s, Inl (OSError e)) | Inr t \<Rightarrow> bl_atomic_write env dst t s) of
             (s1, Inl e) \<Rightarrow> (s1, False, lines @ [''install '' @ dst @ '': '' @ err_str e])
           | (s1, Inr p) \<Rightarrow> (s1, True, lines @ [''install '' @ dst @ '': ok''])))"

definition or_dash :: "string \<Rightarrow> string" where
  "or_dash s = (if s \<noteq> [] then s else ''-'')"

definition helm_argv :: "boot_env \<Rightarrow> string \<Rightarrow> string \<Rightarrow> string list" where
  "helm_argv env accent world =
     [bl_helm env, ''--emit-boot-theme='' @ bl_staging env]
     @ (if accent \<noteq> [] then [''--accent='' @ accent] else [])
     @ (if world \<noteq> [] then [''--world='' @ world] else [])"

definition emit_line :: "string \<Rightarrow> string \<Rightarrow> bool \<Rightarrow> string \<Rightarrow> string" where
  "emit_line accent world ok out =
     ''emit boot theme (accent='' @ or_dash accent @ '', world='' @ or_dash world @ ''): '' @ (if ok then ''ok'' else out)"

text \<open>What follows once the tool has emitted the theme: the files, then the initramfs on the running system.\<close>

definition rebuild_initramfs :: "boot_env \<Rightarrow> string \<Rightarrow> string list \<Rightarrow> tool_state \<Rightarrow> tool_state \<times> (bool \<times> string) res" where
  "rebuild_initramfs env root lines s =
     (if root \<noteq> []
      then (s, Inr (True, join [LF] (lines @ [''initramfs rebuild: deferred to the target'' @ [SQUOTE] @ ''s kernel build''])))
      else
        (case initramfs_regen_step of
           Inl e \<Rightarrow> (s, Inl e)
         | Inr step \<Rightarrow>
             st_bind (bl_exec env (st_argv step) s) (\<lambda>(ok, out) s'.
               (s', Inr (ok, join [LF] (lines @ [st_label step @ '': '' @ (if ok then ''ok'' else out)]))))))"

definition place_theme :: "boot_env \<Rightarrow> string \<Rightarrow> string list \<Rightarrow> tool_state \<Rightarrow> tool_state \<times> (bool \<times> string) res" where
  "place_theme env root lines s =
     (case install_theme env (boot_theme_installs (bl_staging env) root) lines s of
        (s1, ok, lines1) \<Rightarrow>
          if \<not> ok then (s1, Inr (False, join [LF] lines1))
          else
            (case install_scene env (snd (boot_scene_install (bl_staging env) root)) lines1 s1 of
               (s2, ok, lines2) \<Rightarrow>
                 if \<not> ok then (s2, Inr (False, join [LF] lines2)) else rebuild_initramfs env root lines2 s2))"

definition sync_boot_theme :: "boot_env \<Rightarrow> string \<Rightarrow> string \<Rightarrow> string \<Rightarrow> tool_state \<Rightarrow> tool_state \<times> (bool \<times> string) res" where
  "sync_boot_theme env accent world root s =
     (if accent \<noteq> [] \<and> \<not> fullmatch ACCENT_RE accent
        then (s, Inl (ValueError (''invalid accent (expected #RRGGBB): '' @ py_repr accent)))
      else if world \<noteq> [] \<and> \<not> fullmatch WORLD_RE world then (s, Inl (ValueError (''invalid world id: '' @ py_repr world)))
      else if accent = [] \<and> world = [] then (s, Inl (ValueError ''need an accent or a world to sync the boot theme''))
      else
        st_bind (bl_exec env (helm_argv env accent world) s) (\<lambda>(ok, out) s1.
          let lines = [emit_line accent world ok out]
          in if \<not> ok then (s1, Inr (False, join [LF] lines)) else place_theme env root lines s1))"

text \<open>The architecture of the machine is no argument of the call: GRUB is installed for amd64.\<close>

fun boot_dispatch :: "boot_env \<Rightarrow> boot_call \<Rightarrow> tool_state \<Rightarrow> tool_state \<times> (bool \<times> string) res" where
  "boot_dispatch env RegenerateGrub s =
     (case grub_mkconfig_argv GRUB_CFG (bl_mkconfig env) of Inl e \<Rightarrow> (s, Inl e) | Inr argv \<Rightarrow> bl_exec env argv s)"
| "boot_dispatch env (InstallGrub firmware efi_dir boot_id removable disk boot_dir) s =
     (case grub_install_argv firmware ''amd64'' efi_dir boot_id removable disk boot_dir (bl_grub_install env) of
        Inl e \<Rightarrow> (s, Inl e)
      | Inr argv \<Rightarrow> bl_exec env argv s)"
| "boot_dispatch env (ConfigureSeamlessBoot root) s = configure_seamless env root s"
| "boot_dispatch env (SyncBootTheme accent world root) s = sync_boot_theme env accent world root s"

fun boot_detail :: "boot_call \<Rightarrow> string" where
  "boot_detail RegenerateGrub = ''regenerate grub.cfg''"
| "boot_detail (ConfigureSeamlessBoot root) = ''configure seamless boot''"
| "boot_detail (SyncBootTheme accent world root) = ''sync boot theme '' @ accent @ '' world='' @ or_dash world"
| "boot_detail (InstallGrub firmware efi_dir boot_id removable disk boot_dir) = ''grub-install '' @ firmware"

definition boot_on_call ::
    "boot_env \<Rightarrow> (string \<Rightarrow> bool) \<Rightarrow> int option \<Rightarrow> boot_call \<Rightarrow> tool_state world \<Rightarrow> tool_state world \<times> reply res" where
  "boot_on_call env allowed uid call w =
     (let meth = boot_method call; who = \<lparr>cl_authorized = allowed (the (map_of BOOT_POLKIT_ACTIONS meth)), cl_uid = uid\<rparr>
      in if \<not> cl_authorized who
         then (audit who meth ''denied'' [] w, Inr (ReturnError ACCESS_DENIED ''Not authorized for this bootloader operation''))
         else
           (case boot_dispatch env call (wd_state w) of
              (s', Inl (ValueError e)) \<Rightarrow> (w\<lparr>wd_state := s'\<rparr>, Inr (ReturnError INVALID_ARGS e))
            | (s', Inl e) \<Rightarrow> (w\<lparr>wd_state := s'\<rparr>, Inl e)
            | (s', Inr (ok, out)) \<Rightarrow>
                (audit who meth (if ok then ''ok'' else ''failed'') (boot_detail call) (w\<lparr>wd_state := s'\<rparr>), Inr (ReturnValue ok out))))"

section \<open>What the theme call does\<close>

lemma bl_exec_eq:
  "bl_exec env argv s = (s', r) \<Longrightarrow> ts_files s' = ts_files s \<and>
    (case r of Inl e \<Rightarrow> ts_ran s' = ts_ran s | Inr x \<Rightarrow> ts_ran s' = ts_ran s @ [argv])"
  by (auto simp: bl_exec_def split: sum.splits prod.splits)

lemma bl_write_eq:
  assumes "bl_atomic_write env path content s = (s', r)"
  shows "ts_ran s' = ts_ran s" "q \<noteq> te_tmp (bl_tool env) \<Longrightarrow> q \<noteq> path \<Longrightarrow> ts_files s' q = ts_files s q"
proof -
  obtain fs where r: "replace_file (te_fault (bl_tool env)) (te_tmp (bl_tool env)) (te_partial (bl_tool env)) None path content (ts_files s) = (fs, r)"
    "s' = s\<lparr>ts_files := fs\<rparr>"
    using assms by (auto simp: bl_atomic_write_def split: prod.splits)
  show "ts_ran s' = ts_ran s" by (simp add: r(2))
  show "q \<noteq> te_tmp (bl_tool env) \<Longrightarrow> q \<noteq> path \<Longrightarrow> ts_files s' q = ts_files s q"
    using replace_file_frame [OF r(1), of q] by (auto simp: r(2))
qed

text \<open>What a step that writes some paths keeps.\<close>

definition writes_only :: "boot_env \<Rightarrow> string set \<Rightarrow> tool_state \<Rightarrow> tool_state \<Rightarrow> bool" where
  "writes_only env ps s s' = (ts_ran s' = ts_ran s \<and> (\<forall>q. q \<noteq> te_tmp (bl_tool env) \<longrightarrow> q \<notin> ps \<longrightarrow> ts_files s' q = ts_files s q))"

lemma writes_only_refl: "writes_only env ps s s"
  by (simp add: writes_only_def)

lemma writes_only_trans: "writes_only env ps s s1 \<Longrightarrow> writes_only env ps s1 s2 \<Longrightarrow> writes_only env ps s s2"
  by (auto simp: writes_only_def)

lemma write_writes: "bl_atomic_write env path content s = (s', r) \<Longrightarrow> path \<in> ps \<Longrightarrow> writes_only env ps s s'"
  using bl_write_eq [of env path content s s' r] unfolding writes_only_def by metis

lemma install_theme_writes:
  "install_theme env pairs lines s = (s', ok, out) \<Longrightarrow> snd ` set pairs \<subseteq> ps \<Longrightarrow> writes_only env ps s s'"
proof (induction pairs arbitrary: lines s)
  case (Cons p pairs)
  obtain src dst where p: "p = (src, dst)" by (cases p)
  show ?case
  proof (cases "bl_staged env src")
    case (Inl e)
    then show ?thesis using Cons(2) by (simp add: p writes_only_refl)
  next
    case (Inr t)
    obtain s1 r where w: "bl_atomic_write env dst t s = (s1, r)" by (cases "bl_atomic_write env dst t s")
    have 1: "writes_only env ps s s1" by (rule write_writes [OF w]) (use Cons(3) in \<open>auto simp: p\<close>)
    show ?thesis
    proof (cases r)
      case Inl
      then show ?thesis using Cons(2) Inr w 1 by (simp add: p)
    next
      case (Inr x)
      then have "install_theme env pairs (lines @ [''install '' @ dst @ '': ok'']) s1 = (s', ok, out)"
        using Cons(2) \<open>bl_staged env src = Inr t\<close> w by (simp add: p)
      from Cons(1) [OF this] Cons(3) writes_only_trans [OF 1] show ?thesis by auto
    qed
  qed
qed (simp add: writes_only_refl)

lemma install_scene_writes:
  "install_scene env dst lines s = (s', ok, out) \<Longrightarrow> dst \<in> ps \<Longrightarrow> writes_only env ps s s'"
  by (auto simp: install_scene_def writes_only_refl split: option.splits sum.splits prod.splits dest: write_writes)

definition theme_paths :: "string \<Rightarrow> string set" where
  "theme_paths root = {root @ PLYMOUTH_SCRIPT_DST, root @ THEME_TXT, root @ PLYMOUTH_BG_DST}"

definition theme_words_ok :: "string \<Rightarrow> string \<Rightarrow> bool" where
  "theme_words_ok accent world =
     ((accent = [] \<or> (\<exists>ds. accent = HASH # ds \<and> length ds = 6 \<and> list_all (\<lambda>c. dec_digit c \<or> c \<in> set ''ABCDEFabcdef'') ds)) \<and>
      list_all (\<lambda>c. lower_az c \<or> dec_digit c \<or> c = CHR ''-'') world \<and> \<not> startswith world ''-'' \<and> (accent \<noteq> [] \<or> world \<noteq> []))"

lemma theme_words:
  assumes "\<not> (accent \<noteq> [] \<and> \<not> fullmatch ACCENT_RE accent)" "\<not> (world \<noteq> [] \<and> \<not> fullmatch WORLD_RE world)"
    "\<not> (accent = [] \<and> world = [])"
  shows "theme_words_ok accent world"
proof -
  have "\<not> lower_az (CHR ''-'')" "\<not> dec_digit (CHR ''-'')" by code_simp+
  then show ?thesis
    using assms by (auto simp: theme_words_ok_def ACCENT_RE_def WORLD_RE_def rx_simps startswith_def)
qed

lemma place_theme_effects:
  assumes "place_theme env root lines s = (s', r)"
  shows "(\<forall>q. q \<noteq> te_tmp (bl_tool env) \<longrightarrow> q \<notin> theme_paths root \<longrightarrow> ts_files s' q = ts_files s q) \<and>
    (ts_ran s' = ts_ran s \<or> (root = [] \<and> (\<exists>step. initramfs_regen_step = Inr step \<and> ts_ran s' = ts_ran s @ [st_argv step])))"
proof -
  obtain s1 ok1 lines1 where t: "install_theme env (boot_theme_installs (bl_staging env) root) lines s = (s1, ok1, lines1)"
    by (cases "install_theme env (boot_theme_installs (bl_staging env) root) lines s")
  obtain s2 ok2 lines2 where c: "install_scene env (snd (boot_scene_install (bl_staging env) root)) lines1 s1 = (s2, ok2, lines2)"
    by (cases "install_scene env (snd (boot_scene_install (bl_staging env) root)) lines1 s1")
  have 1: "writes_only env (theme_paths root) s s1"
    by (rule install_theme_writes [OF t]) (simp add: boot_theme_installs_def theme_paths_def)
  have "writes_only env (theme_paths root) s1 s2"
    by (rule install_scene_writes [OF c]) (simp add: boot_scene_install_def theme_paths_def)
  note 2 = writes_only_trans [OF 1 this]
  have cases: "s' = s1 \<or> s' = s2 \<or> (root = [] \<and> (\<exists>step x. initramfs_regen_step = Inr step \<and> bl_exec env (st_argv step) s2 = (s', x)))"
    using assms unfolding place_theme_def rebuild_initramfs_def t c prod.case
    by (auto simp: st_bind_eq split: if_splits sum.splits)
  show ?thesis
  proof (cases "s' = s1 \<or> s' = s2")
    case True
    then show ?thesis using 1 2 by (auto simp: writes_only_def)
  next
    case False
    with cases obtain step x where step: "root = []" "initramfs_regen_step = Inr step" "bl_exec env (st_argv step) s2 = (s', x)" by blast
    from bl_exec_eq [OF step(3)] 2 step(1,2) show ?thesis by (cases x) (auto simp: writes_only_def)
  qed
qed

lemma sync_theme_effects:
  assumes "sync_boot_theme env accent world root s = (s', r)"
  shows "(ts_ran s' = ts_ran s \<and> ts_files s' = ts_files s) \<or>
    (theme_words_ok accent world \<and> (\<forall>q. q \<noteq> te_tmp (bl_tool env) \<longrightarrow> q \<notin> theme_paths root \<longrightarrow> ts_files s' q = ts_files s q) \<and>
     (ts_ran s' = ts_ran s @ [helm_argv env accent world] \<or>
      (root = [] \<and> (\<exists>step. initramfs_regen_step = Inr step \<and> ts_ran s' = ts_ran s @ [helm_argv env accent world, st_argv step]))))"
proof (cases "(accent \<noteq> [] \<and> \<not> fullmatch ACCENT_RE accent) \<or> (world \<noteq> [] \<and> \<not> fullmatch WORLD_RE world) \<or> (accent = [] \<and> world = [])")
  case True
  then have "s' = s" using assms by (auto simp: sync_boot_theme_def split: if_splits)
  then show ?thesis by simp
next
  case False
  then have words: "theme_words_ok accent world" by (intro theme_words) auto
  obtain s1 x where e: "bl_exec env (helm_argv env accent world) s = (s1, x)" by (cases "bl_exec env (helm_argv env accent world) s")
  note e1 = bl_exec_eq [OF e]
  have s': "(\<exists>err. x = Inl err \<and> s' = s1) \<or> (\<exists>p. x = Inr p \<and> (s' = s1 \<or> (\<exists>lines. place_theme env root lines s1 = (s', r))))"
    using assms False unfolding sync_boot_theme_def e by (auto simp: st_bind_def Let_def split: if_splits sum.splits prod.splits)
  then show ?thesis
  proof (elim disjE exE conjE)
    fix err assume "x = Inl err" "s' = s1"
    then show ?thesis using e1 by simp
  next
    fix p assume "x = Inr p" "s' = s1"
    then show ?thesis using e1 words by simp
  next
    fix p lines assume "x = Inr p" "place_theme env root lines s1 = (s', r)"
    from place_theme_effects [OF this(2)] this(1) e1 words show ?thesis by auto
  qed
qed

lemma boot_call_state:
  "boot_on_call env allowed uid call w = (w', r) \<Longrightarrow>
    wd_state w' = (if allowed (the (map_of BOOT_POLKIT_ACTIONS (boot_method call)))
      then fst (boot_dispatch env call (wd_state w)) else wd_state w)"
  by (auto simp: boot_on_call_def Let_def split: if_splits prod.splits sum.splits py_error.splits)

section \<open>Properties\<close>


definition demo_boot_env :: boot_env where
  "demo_boot_env =
     \<lparr>bl_tool = \<lparr>te_fault = (\<lambda>op. False), te_tmp = ''/tmp/x'', te_partial = [], te_run = (\<lambda>argv. (0, [], []))\<rparr>,
      bl_run = (\<lambda>argv. Inr (0, [], [])), bl_mkconfig = ''grub-mkconfig'', bl_grub_install = ''grub-install'', bl_helm = ''helm-theme'',
      bl_read_fault = (\<lambda>p. False), bl_staging = ''/tmp/s'', bl_staged = (\<lambda>p. Inr ''theme''), bl_scene = None\<rparr>"

definition demo_boot_world :: "tool_state world" where
  "demo_boot_world = \<lparr>wd_state = \<lparr>ts_files = [''/etc/default/grub'' \<mapsto> (''GRUB_TIMEOUT=5'' @ [LF], 420)], ts_ran = []\<rparr>, wd_audit = []\<rparr>"


text \<open>The other calls take what they are given: the root of the seamless configuration is no checked
  target root, the file it rewrites ends up readable by root only, and a tool that is not
  installed leaves the caller without a reply.\<close>

lemma seamless_root_unchecked:
  "map_option snd (ts_files (wd_state (fst (boot_on_call demo_boot_env (\<lambda>a. True) None
      (ConfigureSeamlessBoot ''/home/eve'') demo_boot_world))) ''/home/eve/etc/default/grub'') = Some 384"
  by code_simp

lemma seamless_drops_mode:
  "map_option snd (ts_files (wd_state demo_boot_world) ''/etc/default/grub'') = Some 420 \<and>
   map_option snd (ts_files (wd_state (fst (boot_on_call demo_boot_env (\<lambda>a. True) None
      (ConfigureSeamlessBoot []) demo_boot_world))) ''/etc/default/grub'') = Some 384"
  by code_simp

lemma missing_tool_no_reply:
  "snd (boot_on_call (demo_boot_env\<lparr>bl_run := (\<lambda>argv. Inl ''No such file or directory'')\<rparr>) (\<lambda>a. True) None RegenerateGrub demo_boot_world)
    = Inl (OSError ''No such file or directory'')"
  by code_simp

end
