(* ===== verification/UsersService.thy ===== *)
theory UsersService
  imports Service UsersCommands
begin

text \<open>
  The root service for accounts, \<open>gest/backend/users.py\<close>: each method builds one command from
  validated words and runs it; a password goes to the standard input of \<open>chpasswd\<close> and
  nowhere else. The state is the list of the commands that ran, each with its input.
\<close>

section \<open>State and calls\<close>

record users_tools =
  ut_useradd :: string
  ut_usermod :: string
  ut_userdel :: string
  ut_groupadd :: string
  ut_groupdel :: string
  ut_chpasswd :: string
  ut_gpasswd :: string

record users_env =
  ue_tools :: users_tools
  ue_run :: "string list \<Rightarrow> string option \<Rightarrow> string + (int \<times> string \<times> string)"

type_synonym users_state = "(string list \<times> string option) list"

datatype users_call =
    AddUser string string string string string bool
  | ModifyUser string string string string
  | DeleteUser string bool
  | AddGroup string bool
  | DeleteGroup string
  | SetPassword string string
  | SetGroupMember string string bool
  | SetDefaults string string string string string

fun users_method :: "users_call \<Rightarrow> string" where
  "users_method (AddUser name comment shell home grps sys) = ''AddUser''"
| "users_method (ModifyUser name comment shell grps) = ''ModifyUser''"
| "users_method (DeleteUser name remove_home) = ''DeleteUser''"
| "users_method (AddGroup name sys) = ''AddGroup''"
| "users_method (DeleteGroup name) = ''DeleteGroup''"
| "users_method (SetPassword name password) = ''SetPassword''"
| "users_method (SetGroupMember grp user add) = ''SetGroupMember''"
| "users_method (SetDefaults grp home shell inactive expire) = ''SetDefaults''"

section \<open>Handlers\<close>

definition users_run ::
    "users_env \<Rightarrow> string list \<Rightarrow> string option \<Rightarrow> users_state \<Rightarrow> users_state \<times> (bool \<times> string) res" where
  "users_run env argv stdin s =
     (case ue_run env argv stdin of
        Inl e \<Rightarrow> (s, Inl (OSError e))
      | Inr (code, stdout, stderr) \<Rightarrow>
          (s @ [(argv, stdin)], Inr (code = 0, strip (stdout @ (if stderr \<noteq> [] then LF # stderr else [])))))"

text \<open>The command of a call and what it is given to read.\<close>

definition no_stdin :: "string list res \<Rightarrow> (string list \<times> string option) res" where
  "no_stdin argv = res_bind argv (\<lambda>a. Inr (a, None))"

fun users_command :: "users_tools \<Rightarrow> users_call \<Rightarrow> (string list \<times> string option) res" where
  "users_command t (AddUser name comment shell home grps sys) =
     no_stdin (useradd_argv name comment shell home grps sys (ut_useradd t))"
| "users_command t (ModifyUser name comment shell grps) =
     no_stdin (usermod_argv name (Some comment) (Some shell) (Some grps) (ut_usermod t))"
| "users_command t (DeleteUser name remove_home) = no_stdin (userdel_argv name remove_home (ut_userdel t))"
| "users_command t (AddGroup name sys) = no_stdin (groupadd_argv name sys (ut_groupadd t))"
| "users_command t (DeleteGroup name) = no_stdin (groupdel_argv name (ut_groupdel t))"
| "users_command t (SetPassword name password) =
     res_bind (chpasswd_input name password (ut_chpasswd t)) (\<lambda>(argv, stdin). Inr (argv, Some stdin))"
| "users_command t (SetGroupMember grp user add) = no_stdin (gpasswd_argv grp user add (ut_gpasswd t))"
| "users_command t (SetDefaults grp home shell inactive expire) =
     no_stdin (useradd_defaults_argv grp home shell inactive expire (ut_useradd t))"

text \<open>Only the building of the command is guarded: a program that cannot be started leaves the handler.\<close>

definition users_on_call ::
    "users_env \<Rightarrow> caller \<Rightarrow> users_call \<Rightarrow> users_state world \<Rightarrow> users_state world \<times> reply res" where
  "users_on_call env who call w =
     (let meth = users_method call
      in if \<not> cl_authorized who
         then (audit who meth ''denied'' [] w, Inr (ReturnError ACCESS_DENIED ''Not authorized to manage users and groups''))
         else
           (case users_command (ue_tools env) call of
              Inl (ValueError e) \<Rightarrow> (w, Inr (ReturnError INVALID_ARGS e))
            | Inl e \<Rightarrow> (w, Inl e)
            | Inr (argv, stdin) \<Rightarrow>
                (case users_run env argv stdin (wd_state w) of
                   (s', Inl e) \<Rightarrow> (w\<lparr>wd_state := s'\<rparr>, Inl e)
                 | (s', Inr (ok, out)) \<Rightarrow>
                     (audit who meth (if ok then ''ok'' else ''failed'') [] (w\<lparr>wd_state := s'\<rparr>), Inr (ReturnValue ok out)))))"

section \<open>What a call runs\<close>

lemma users_run_eq:
  "users_run env argv stdin s = (s', r) \<Longrightarrow> s' = s \<or> s' = s @ [(argv, stdin)]"
  by (auto simp: users_run_def split: sum.splits prod.splits)

lemma users_call_effects:
  assumes "users_on_call env who call w = (w', r)"
  shows "wd_state w' = wd_state w \<or>
    (cl_authorized who \<and> (\<exists>argv stdin. users_command (ue_tools env) call = Inr (argv, stdin) \<and>
      wd_state w' = wd_state w @ [(argv, stdin)]))"
    and "wd_audit w' = wd_audit w \<or> (\<exists>result. wd_audit w' = wd_audit w @
      [\<lparr>au_method = users_method call, au_uid = cl_uid who, au_result = result, au_detail = []\<rparr>])"
  using assms
  by (auto simp: users_on_call_def Let_def split: if_splits sum.splits prod.splits py_error.splits dest!: users_run_eq)

definition password_line :: "string \<Rightarrow> string \<Rightarrow> string" where
  "password_line name p = name @ '':'' @ p @ [LF]"

lemma set_password_command:
  assumes "p \<noteq> []" "LF \<notin> set p" "CR \<notin> set p"
  shows "users_command t (SetPassword name p) =
    (if valid_name name then Inr ([ut_chpasswd t], Some (password_line name p))
     else Inl (ValueError (''invalid name: '' @ py_repr name)))"
  using assms by (simp add: chpasswd_input_def require_name_def guard_def password_line_def)

lemma set_password_call:
  assumes "p \<noteq> []" "LF \<notin> set p" "CR \<notin> set p"
  shows "users_on_call env who (SetPassword name p) w =
    (if \<not> cl_authorized who
     then (audit who ''SetPassword'' ''denied'' [] w, Inr (ReturnError ACCESS_DENIED ''Not authorized to manage users and groups''))
     else if \<not> valid_name name then (w, Inr (ReturnError INVALID_ARGS (''invalid name: '' @ py_repr name)))
     else
       (case users_run env [ut_chpasswd (ue_tools env)] (Some (password_line name p)) (wd_state w) of
          (s', Inl e) \<Rightarrow> (w\<lparr>wd_state := s'\<rparr>, Inl e)
        | (s', Inr (ok, out)) \<Rightarrow>
            (audit who ''SetPassword'' (if ok then ''ok'' else ''failed'') [] (w\<lparr>wd_state := s'\<rparr>), Inr (ReturnValue ok out))))"
  unfolding users_on_call_def Let_def set_password_command [OF assms] users_method.simps by simp


definition demo_users_env :: users_env where
  "demo_users_env =
     \<lparr>ue_tools = \<lparr>ut_useradd = ''useradd'', ut_usermod = ''usermod'', ut_userdel = ''userdel'', ut_groupadd = ''groupadd'',
        ut_groupdel = ''groupdel'', ut_chpasswd = ''chpasswd'', ut_gpasswd = ''gpasswd''\<rparr>,
      ue_run = (\<lambda>argv stdin. Inr (0, [], []))\<rparr>"


end
