(* ===== verification/Base64.thy ===== *)
theory Base64
  imports StrFacts
begin

text \<open>
  The \<open>base64\<close> and \<open>bytes\<close> functions of the standard library that the keychain uses
  (\<open>gest/core/keychain/crypto.py\<close>: \<open>b64\<close>, \<open>unb64\<close>). A Python \<open>bytes\<close> value is
  a list of 8-bit characters. \<open>b64decode\<close> is the lenient decoder of CPython: characters
  outside the alphabet are skipped and the padding ends the input.
\<close>

type_synonym bytes = "char list"

section \<open>The alphabet\<close>

definition sextet_char :: "nat \<Rightarrow> char" where
  "sextet_char n =
     (if n < 26 then char_of (65 + n) else if n < 52 then char_of (71 + n)
      else if n < 62 then char_of (n - 4) else if n = 62 then CHR ''+'' else CHR ''/'')"

definition char_sextet :: "char \<Rightarrow> nat option" where
  "char_sextet c =
     (if upper_az c then Some (ordc c - 65) else if lower_az c then Some (ordc c - 71)
      else if dec_digit c then Some (ordc c + 4)
      else if c = CHR ''+'' then Some 62 else if c = CHR ''/'' then Some 63 else None)"

abbreviation PAD :: char where "PAD \<equiv> CHR ''=''"

section \<open>Encoding\<close>

text \<open>The four sextets of three octets.\<close>

definition sextets :: "nat \<Rightarrow> nat \<Rightarrow> nat \<Rightarrow> nat list" where
  "sextets a b c = [a div 4, (a mod 4) * 16 + b div 16, (b mod 16) * 4 + c div 64, c mod 64]"

fun b64encode :: "bytes \<Rightarrow> string" where
  "b64encode [] = []"
| "b64encode [a] = map sextet_char (take 2 (sextets (ordc a) 0 0)) @ [PAD, PAD]"
| "b64encode [a, b] = map sextet_char (take 3 (sextets (ordc a) (ordc b) 0)) @ [PAD]"
| "b64encode (a # b # c # bs) = map sextet_char (sextets (ordc a) (ordc b) (ordc c)) @ b64encode bs"

section \<open>Decoding\<close>

text \<open>
  The state of the decoder: how many sextets of the group were read, the bits left over from
  the last one, and the padding characters seen since.
\<close>

fun a2b_base64 :: "nat \<Rightarrow> nat \<Rightarrow> nat \<Rightarrow> string \<Rightarrow> bytes option" where
  "a2b_base64 quad left pads [] = (if quad = 0 then Some [] else None)"
| "a2b_base64 quad left pads (c # cs) =
     (if c = PAD then
        (if 2 \<le> quad \<and> 4 \<le> quad + Suc pads then Some []
         else a2b_base64 quad left (if 2 \<le> quad then Suc pads else pads) cs)
      else case char_sextet c of
        None \<Rightarrow> a2b_base64 quad left pads cs
      | Some v \<Rightarrow>
          (if quad = 0 then a2b_base64 1 v 0 cs
           else if quad = 1 then map_option ((#) (char_of (left * 4 + v div 16))) (a2b_base64 2 (v mod 16) 0 cs)
           else if quad = 2 then map_option ((#) (char_of (left * 16 + v div 4))) (a2b_base64 3 (v mod 4) 0 cs)
           else map_option ((#) (char_of (left * 64 + v))) (a2b_base64 0 0 0 cs)))"

text \<open>A string argument must be ASCII; None is the ValueError (\<open>binascii.Error\<close> is one).\<close>

definition ascii :: "string \<Rightarrow> bool" where
  "ascii s = list_all (\<lambda>c. ordc c < 128) s"

definition b64decode :: "string \<Rightarrow> bytes option" where
  "b64decode s = (if ascii s then a2b_base64 0 0 0 s else None)"

section \<open>The round trip\<close>

lemma ordc_char_of: "n < 256 \<Longrightarrow> ordc (char_of n) = n"
  by (simp add: ordc_def)

lemma ordc_eq: "ordc c = ordc d \<longleftrightarrow> c = d"
  by (simp add: ordc_def)

lemma char_sextet_char [simp]: "n < 64 \<Longrightarrow> char_sextet (sextet_char n) = Some n"
  by (auto simp: sextet_char_def char_sextet_def upper_az_def lower_az_def dec_digit_def ordc_def)

lemma sextet_char_plain: "n < 64 \<Longrightarrow> sextet_char n \<noteq> PAD \<and> ordc (sextet_char n) < 128"
  by (auto simp: sextet_char_def ordc_def simp flip: of_char_eq_iff [where 'a = nat])

lemma ordc_less [simp]: "ordc c < 256"
  by (simp add: ordc_def)

lemma char_of_ordc [simp]: "char_of (ordc c) = c"
  by (simp add: ordc_def)

lemma group_bounds:
  "(x :: nat) < 4 \<Longrightarrow> y < 16 \<Longrightarrow> x * 16 + y < 64" "(x :: nat) < 16 \<Longrightarrow> y < 4 \<Longrightarrow> x * 4 + y < 64"
  by simp_all

lemma sextets_less:
  assumes "a < 256" "b < 256" "c < 256"
  shows "list_all (\<lambda>n. n < 64) (sextets a b c)"
proof -
  have "a div 4 < 64" "b div 16 < 16" "c div 64 < 4" using assms by auto
  then show ?thesis
    by (simp add: sextets_def group_bounds)
qed

lemma decode_step:
  assumes "n < 64"
  shows "a2b_base64 0 l p (sextet_char n # cs) = a2b_base64 1 n 0 cs"
    "a2b_base64 (Suc 0) l p (sextet_char n # cs) = map_option ((#) (char_of (l * 4 + n div 16))) (a2b_base64 2 (n mod 16) 0 cs)"
    "a2b_base64 2 l p (sextet_char n # cs) = map_option ((#) (char_of (l * 16 + n div 4))) (a2b_base64 3 (n mod 4) 0 cs)"
    "a2b_base64 3 l p (sextet_char n # cs) = map_option ((#) (char_of (l * 64 + n))) (a2b_base64 0 0 0 cs)"
  using assms sextet_char_plain [OF assms] by auto

lemma sextet_arith:
  "(a :: nat) div 4 * 4 + ((a mod 4) * 16 + b div 16) div 16 = a + b div 16 div 16"
  "((a mod 4) * 16 + b div 16) mod 16 = b div 16 mod (16 :: nat)"
  "((b :: nat) mod 16 * 4 + c div 64) div 4 = b mod 16 + c div 64 div 4"
  "((b :: nat) mod 16 * 4 + c div 64) mod 4 = c div 64 mod 4"
  by auto

lemma octets_back:
  assumes "b < 256" "c < 256"
  shows "(a :: nat) div 4 * 4 + ((a mod 4) * 16 + b div 16) div 16 = a"
    "((a mod 4) * 16 + b div 16) mod 16 * 16 + (b mod 16 * 4 + c div 64) div 4 = b"
    "(b mod 16 * 4 + c div 64) mod 4 * 64 + c mod 64 = c"
proof -
  have d: "b div 16 div 16 = 0" "c div 64 div 4 = 0" "b div 16 mod 16 = b div 16" "c div 64 mod 4 = c div 64"
    using assms by auto
  show "a div 4 * 4 + ((a mod 4) * 16 + b div 16) div 16 = a"
    unfolding sextet_arith d by simp
  show "((a mod 4) * 16 + b div 16) mod 16 * 16 + (b mod 16 * 4 + c div 64) div 4 = b"
    unfolding sextet_arith d by simp
  show "(b mod 16 * 4 + c div 64) mod 4 * 64 + c mod 64 = c"
    unfolding sextet_arith d by simp
qed

lemma decode_group:
  assumes "a < 256" "b < 256" "c < 256"
  shows "a2b_base64 0 0 p (map sextet_char (sextets a b c) @ cs) =
    map_option (\<lambda>bs. char_of a # char_of b # char_of c # bs) (a2b_base64 0 0 0 cs)"
proof -
  have l: "a div 4 < 64" "(a mod 4) * 16 + b div 16 < 64" "(b mod 16) * 4 + c div 64 < 64" "c mod 64 < 64"
    using sextets_less [OF assms] by (simp_all add: sextets_def)
  have d: "b div 16 div 16 = 0" "c div 64 div 4 = 0" "b div 16 mod 16 = b div 16" "c div 64 mod 4 = c div 64"
    using assms by auto
  show ?thesis
    unfolding sextets_def
    by (simp add: decode_step l option.map_comp comp_def d del: a2b_base64.simps)
qed

lemma a2b_b64encode: "a2b_base64 0 0 p (b64encode bs) = Some bs"
proof (induction bs arbitrary: p rule: b64encode.induct)
  case (2 a)
  have l: "ordc a div 4 < 64" "(ordc a mod 4) * 16 < 64" using sextets_less [of "ordc a" 0 0] by (simp_all add: sextets_def)
  have e: "ordc a div 4 * 4 + (ordc a mod 4) * 16 div 16 = ordc a"
    using octets_back(1) [where a = "ordc a" and b = 0 and c = 0] by simp
  have "a2b_base64 2 left 0 [PAD, PAD] = Some []" for left by simp
  then show ?case
    using l e by (simp add: sextets_def decode_step del: a2b_base64.simps)
next
  case (3 a b)
  have l: "ordc a div 4 < 64" "(ordc a mod 4) * 16 + ordc b div 16 < 64" "(ordc b mod 16) * 4 < 64"
    using sextets_less [of "ordc a" "ordc b" 0] by (simp_all add: sextets_def)
  have e: "ordc a div 4 * 4 + ((ordc a mod 4) * 16 + ordc b div 16) div 16 = ordc a"
    "((ordc a mod 4) * 16 + ordc b div 16) mod 16 * 16 + ordc b mod 16 * 4 div 4 = ordc b"
    using octets_back(1,2) [where a = "ordc a" and b = "ordc b" and c = 0] by simp_all
  have "a2b_base64 3 left 0 [PAD] = Some []" for left by simp
  then show ?case
    using l e by (simp add: sextets_def decode_step del: a2b_base64.simps)
next
  case (4 a b c bs)
  then show ?case by (simp add: decode_group del: a2b_base64.simps)
qed simp

lemma ascii_append [simp]: "ascii (s @ t) \<longleftrightarrow> ascii s \<and> ascii t"
  by (simp add: ascii_def)

lemma ascii_sextets: "list_all (\<lambda>n. n < 64) ns \<Longrightarrow> ascii (map sextet_char ns)"
  using sextet_char_plain by (auto simp: ascii_def list_all_iff)

lemma ascii_b64encode: "ascii (b64encode bs)"
proof (induction bs rule: b64encode.induct)
  case (4 a b c bs)
  then show ?case using ascii_sextets [OF sextets_less] by simp
next
  case (3 a b)
  have "ascii (map sextet_char (take 3 (sextets (ordc a) (ordc b) 0)))"
    using sextets_less [of "ordc a" "ordc b" 0] by (intro ascii_sextets) (auto simp: list_all_iff dest: in_set_takeD)
  then show ?case by (simp add: ascii_def) (simp add: ordc_def)
next
  case (2 a)
  have "ascii (map sextet_char (take 2 (sextets (ordc a) 0 0)))"
    using sextets_less [of "ordc a" 0 0] by (intro ascii_sextets) (auto simp: list_all_iff dest: in_set_takeD)
  then show ?case by (simp add: ascii_def) (simp add: ordc_def)
qed (simp add: ascii_def)

lemma b64_roundtrip [simp]: "b64decode (b64encode bs) = Some bs"
  by (simp add: b64decode_def ascii_b64encode a2b_b64encode)

lemma b64encode_inj: "b64encode a = b64encode b \<longleftrightarrow> a = b"
  by (metis b64_roundtrip option.inject)

end
