(* ===== verification/Json.thy ===== *)
theory Json
  imports StateStore "HOL-Library.Char_ord" "HOL-Library.List_Lexorder"
begin

text \<open>
  The \<open>json\<close> module as the keychain and the stores of the user session use it:
  \<open>json.dumps\<close> with compact separators (ASCII output, keys sorted on request) and
  \<open>json.loads\<close>. The value type has the integers only: a text with a float literal, with
  a character beyond ASCII or with an escape beyond Latin-1 is treated as one that does not
  parse.
\<close>

section \<open>dumps\<close>

definition json_escape :: "char \<Rightarrow> string" where
  "json_escape c =
     (if c = DQUOTE \<or> c = BSLASH then [BSLASH, c]
      else if 32 \<le> ordc c \<and> ordc c < 127 then [c]
      else if c = CHR 0x08 then [BSLASH, CHR ''b'']
      else if c = CHR 0x0C then [BSLASH, CHR ''f'']
      else if c = LF then [BSLASH, CHR ''n'']
      else if c = CR then [BSLASH, CHR ''r'']
      else if c = TAB then [BSLASH, CHR ''t'']
      else [BSLASH, CHR ''u'', CHR ''0'', CHR ''0'', hex_digit (ordc c div 16), hex_digit (ordc c mod 16)])"

definition json_quote :: "string \<Rightarrow> string" where
  "json_quote s = DQUOTE # concat (map json_escape s) @ [DQUOTE]"

fun dumps :: "json \<Rightarrow> string" where
  "dumps JNull = ''null''"
| "dumps (JBool b) = (if b then ''true'' else ''false'')"
| "dumps (JNum n) = int_str n"
| "dumps (JStr s) = json_quote s"
| "dumps (JArr js) = CHR ''['' # join [CHR '',''] (map dumps js) @ [CHR '']'']"
| "dumps (JObj kvs) =
     CHR ''{'' # join [CHR '',''] (map (\<lambda>(k, v). json_quote k @ CHR '':'' # dumps v) kvs) @ [CHR ''}'']"

fun sort_keys :: "json \<Rightarrow> json" where
  "sort_keys (JObj kvs) = JObj (sort_key fst (map (\<lambda>(k, v). (k, sort_keys v)) kvs))"
| "sort_keys (JArr js) = JArr (map sort_keys js)"
| "sort_keys j = j"

section \<open>loads\<close>

definition json_ws :: "char \<Rightarrow> bool" where
  "json_ws c = (c = CHR '' '' \<or> c = TAB \<or> c = LF \<or> c = CR)"

definition skip_ws :: "string \<Rightarrow> string" where
  "skip_ws s = dropWhile json_ws s"

definition expect :: "char \<Rightarrow> string \<Rightarrow> string option" where
  "expect c s = (case skip_ws s of [] \<Rightarrow> None | d # r \<Rightarrow> if d = c then Some r else None)"

definition hex_val :: "char \<Rightarrow> nat option" where
  "hex_val c =
     (if dec_digit c then Some (ordc c - 48)
      else if 97 \<le> ordc c \<and> ordc c \<le> 102 then Some (ordc c - 87)
      else if 65 \<le> ordc c \<and> ordc c \<le> 70 then Some (ordc c - 55) else None)"

definition unescape :: "char \<Rightarrow> char option" where
  "unescape c =
     (if c = DQUOTE \<or> c = BSLASH \<or> c = CHR ''/'' then Some c
      else if c = CHR ''b'' then Some (CHR 0x08) else if c = CHR ''f'' then Some (CHR 0x0C)
      else if c = CHR ''n'' then Some LF else if c = CHR ''r'' then Some CR
      else if c = CHR ''t'' then Some TAB else None)"

definition hex4 :: "char \<Rightarrow> char \<Rightarrow> char \<Rightarrow> char \<Rightarrow> char option" where
  "hex4 a b c d =
     (case (hex_val a, hex_val b, hex_val c, hex_val d) of
        (Some 0, Some 0, Some x, Some y) \<Rightarrow> Some (char_of (16 * x + y)) | _ \<Rightarrow> None)"

text \<open>The characters of a string up to the closing quote, and what follows it.\<close>

fun scan_string :: "string \<Rightarrow> (string \<times> string) option" where
  "scan_string [] = None"
| "scan_string (c # cs) =
     (if c = DQUOTE then Some ([], cs)
      else if c = BSLASH then
        (case cs of [] \<Rightarrow> None
         | e # r \<Rightarrow>
             if e = CHR ''u'' then
               (case r of
                  h1 # h2 # h3 # h4 # r' \<Rightarrow>
                    (case hex4 h1 h2 h3 h4 of None \<Rightarrow> None
                     | Some x \<Rightarrow> map_option (\<lambda>(s, t). (x # s, t)) (scan_string r'))
                | _ \<Rightarrow> None)
             else (case unescape e of None \<Rightarrow> None
                   | Some x \<Rightarrow> map_option (\<lambda>(s, t). (x # s, t)) (scan_string r)))
      else if ordc c < 32 then None
      else map_option (\<lambda>(s, t). (c # s, t)) (scan_string cs))"

definition float_tail :: "string \<Rightarrow> bool" where
  "float_tail s = (case s of [] \<Rightarrow> False | c # _ \<Rightarrow> c = CHR ''.'' \<or> c = CHR ''e'' \<or> c = CHR ''E'')"

definition scan_nat :: "string \<Rightarrow> (nat \<times> string) option" where
  "scan_nat s =
     (let ds = takeWhile dec_digit s; r = dropWhile dec_digit s
      in if ds = [] then None
         else if hd ds = CHR ''0'' then (if r = drop 1 s \<and> \<not> float_tail r then Some (0, r) else None)
         else if float_tail r then None
         else map_option (\<lambda>n. (n, r)) (digits_nat ds))"

definition scan_number :: "string \<Rightarrow> (int \<times> string) option" where
  "scan_number s =
     (case s of [] \<Rightarrow> None
      | c # cs \<Rightarrow> if c = CHR ''-'' then map_option (\<lambda>(n, r). (- int n, r)) (scan_nat cs)
                 else map_option (\<lambda>(n, r). (int n, r)) (scan_nat s))"

text \<open>
  A value and what follows it. The fuel bounds the values and members read; the length of
  the text is enough, since each of them takes a character.
\<close>

fun scan_once :: "nat \<Rightarrow> string \<Rightarrow> (json \<times> string) option"
  and scan_members :: "nat \<Rightarrow> (string \<times> json) list \<Rightarrow> string \<Rightarrow> (json \<times> string) option"
  and scan_elems :: "nat \<Rightarrow> json list \<Rightarrow> string \<Rightarrow> (json \<times> string) option"
where
  "scan_once 0 s = None"
| "scan_once (Suc n) s =
     (case s of [] \<Rightarrow> None
      | c # cs \<Rightarrow>
          if c = DQUOTE then map_option (\<lambda>(t, r). (JStr t, r)) (scan_string cs)
          else if c = CHR ''{'' then
            (case expect (CHR ''}'') cs of Some r \<Rightarrow> Some (JObj [], r) | None \<Rightarrow> scan_members n [] (skip_ws cs))
          else if c = CHR ''['' then
            (case expect (CHR '']'') cs of Some r \<Rightarrow> Some (JArr [], r) | None \<Rightarrow> scan_elems n [] (skip_ws cs))
          else if startswith s ''null'' then Some (JNull, drop 4 s)
          else if startswith s ''true'' then Some (JBool True, drop 4 s)
          else if startswith s ''false'' then Some (JBool False, drop 5 s)
          else map_option (\<lambda>(i, r). (JNum i, r)) (scan_number s))"
| "scan_members 0 d s = None"
| "scan_members (Suc n) d s =
     (case expect DQUOTE s of None \<Rightarrow> None
      | Some cs \<Rightarrow>
          (case scan_string cs of None \<Rightarrow> None
           | Some (k, r) \<Rightarrow>
               (case expect (CHR '':'') r of None \<Rightarrow> None
                | Some r' \<Rightarrow>
                    (case scan_once n (skip_ws r') of None \<Rightarrow> None
                     | Some (v, t) \<Rightarrow>
                         (case expect (CHR ''}'') t of Some t' \<Rightarrow> Some (JObj (dict_set k v d), t')
                          | None \<Rightarrow>
                              (case expect (CHR '','') t of None \<Rightarrow> None
                               | Some t' \<Rightarrow> scan_members n (dict_set k v d) (skip_ws t')))))))"
| "scan_elems 0 js s = None"
| "scan_elems (Suc n) js s =
     (case scan_once n s of None \<Rightarrow> None
      | Some (v, t) \<Rightarrow>
          (case expect (CHR '']'') t of Some t' \<Rightarrow> Some (JArr (js @ [v]), t')
           | None \<Rightarrow>
               (case expect (CHR '','') t of None \<Rightarrow> None
                | Some t' \<Rightarrow> scan_elems n (js @ [v]) (skip_ws t'))))"

definition loads :: "string \<Rightarrow> json option" where
  "loads s =
     (if \<not> list_all (\<lambda>c. ordc c < 128) s then None
      else case scan_once (Suc (length s)) (skip_ws s) of None \<Rightarrow> None
        | Some (j, r) \<Rightarrow> if skip_ws r = [] then Some j else None)"

section \<open>The round trip\<close>

text \<open>A value a dict can hold: every object has distinct keys.\<close>

fun json_wf :: "json \<Rightarrow> bool" where
  "json_wf (JObj kvs) = (distinct (map fst kvs) \<and> list_all (\<lambda>(k, v). json_wf v) kvs)"
| "json_wf (JArr js) = list_all json_wf js"
| "json_wf j = True"

lemma hex_val_digit: "n < 16 \<Longrightarrow> hex_val (hex_digit n) = Some n"
  by (auto simp: hex_val_def hex_digit_def dec_digit_def ordc_def)

lemma ordc_hex: "ordc c div 16 < 16" "ordc c mod 16 < 16"
proof -
  have "ordc c < 256" by (simp add: ordc_def)
  then show "ordc c div 16 < 16" "ordc c mod 16 < 16" by auto
qed

lemma hex4_ordc: "hex4 (CHR ''0'') (CHR ''0'') (hex_digit (ordc c div 16)) (hex_digit (ordc c mod 16)) = Some c"
proof -
  have z: "hex_val (CHR ''0'') = Some 0" by code_simp
  have "hex_val (hex_digit (ordc c div 16)) = Some (ordc c div 16)"
    "hex_val (hex_digit (ordc c mod 16)) = Some (ordc c mod 16)"
    by (simp_all add: hex_val_digit ordc_hex)
  then show ?thesis
    by (simp add: hex4_def z) (simp add: ordc_def)
qed

lemma scan_escape:
  "scan_string (json_escape c @ cs) = map_option (\<lambda>(s, t). (c # s, t)) (scan_string cs)"
proof -
  have u: "unescape DQUOTE = Some DQUOTE" "unescape BSLASH = Some BSLASH" "unescape (CHR ''b'') = Some (CHR 0x08)"
    "unescape (CHR ''f'') = Some (CHR 0x0C)" "unescape (CHR ''n'') = Some LF" "unescape (CHR ''r'') = Some CR"
    "unescape (CHR ''t'') = Some TAB"
    by code_simp+
  consider "c = DQUOTE \<or> c = BSLASH" | "c \<noteq> DQUOTE" "c \<noteq> BSLASH" "32 \<le> ordc c \<and> ordc c < 127"
    | "\<not> (32 \<le> ordc c \<and> ordc c < 127)" "c \<in> {CHR 0x08, CHR 0x0C, LF, CR, TAB}"
    | "c \<noteq> DQUOTE" "c \<noteq> BSLASH" "\<not> (32 \<le> ordc c \<and> ordc c < 127)" "c \<notin> {CHR 0x08, CHR 0x0C, LF, CR, TAB}"
    by blast
  then show ?thesis
  proof cases
    case 4
    then have "json_escape c = [BSLASH, CHR ''u'', CHR ''0'', CHR ''0'', hex_digit (ordc c div 16), hex_digit (ordc c mod 16)]"
      by (simp add: json_escape_def)
    then show ?thesis by (simp add: hex4_ordc)
  next
    case 3
    then show ?thesis by (auto simp: json_escape_def u ordc_def)
  qed (auto simp: json_escape_def u)
qed

lemma scan_quoted: "scan_string (concat (map json_escape s) @ DQUOTE # r) = Some (s, r)"
  by (induction s) (simp_all add: scan_escape del: scan_string.simps(2), simp)

lemma skip_ws_Cons: "\<not> json_ws c \<Longrightarrow> skip_ws (c # cs) = c # cs"
  by (simp add: skip_ws_def)

lemma expect_Cons: "\<not> json_ws d \<Longrightarrow> expect c (d # cs) = (if d = c then Some cs else None)"
  by (simp add: expect_def skip_ws_Cons)

lemma punctuation_plain:
  "\<not> json_ws (CHR '','')" "\<not> json_ws (CHR '':'')" "\<not> json_ws (CHR ''}'')" "\<not> json_ws (CHR '']'')" "\<not> json_ws DQUOTE"
  "\<not> json_ws (CHR ''{'')" "\<not> json_ws (CHR ''['')"
  by code_simp+

text \<open>What follows a value in a compact text cannot continue a number.\<close>

definition stops :: "string \<Rightarrow> bool" where
  "stops r = (case r of [] \<Rightarrow> True | c # _ \<Rightarrow> \<not> dec_digit c \<and> \<not> float_tail r)"

lemma stops_intros: "stops []" "stops (CHR '','' # r)" "stops (CHR ''}'' # r)" "stops (CHR '']'' # r)"
  by (simp_all add: stops_def float_tail_def dec_digit_def ordc_def)

lemma nat_str_head: "0 < n \<Longrightarrow> hd (nat_str n) \<noteq> CHR ''0''"
proof (induction n rule: nat_str.induct)
  case (1 n)
  show ?case
  proof (cases "n < 10")
    case True
    have "\<forall>k \<in> set [1..<10]. char_of (48 + k) \<noteq> CHR ''0''" by code_simp
    with True 1 show ?thesis by (simp add: nat_str.simps [of n])
  next
    case False
    with 1 have "hd (nat_str (n div 10)) \<noteq> CHR ''0''" by simp
    with False nat_str_digits [of "n div 10"] show ?thesis by (simp add: nat_str.simps [of n])
  qed
qed

lemma stops_split:
  assumes "stops r" "list_all dec_digit ds"
  shows "takeWhile dec_digit (ds @ r) = ds" "dropWhile dec_digit (ds @ r) = r" "\<not> float_tail r"
proof -
  have h: "r = [] \<or> \<not> dec_digit (hd r)" using assms(1) by (cases r) (auto simp: stops_def)
  show "\<not> float_tail r" using assms(1) by (cases r) (auto simp: stops_def float_tail_def)
  have "takeWhile dec_digit r = []" "dropWhile dec_digit r = r" using h by (cases r; simp)+
  then show "takeWhile dec_digit (ds @ r) = ds" "dropWhile dec_digit (ds @ r) = r"
    using assms(2) by (simp_all add: list_all_iff)
qed

lemma scan_nat_str:
  assumes "stops r"
  shows "scan_nat (nat_str n @ r) = Some (n, r)"
proof -
  note s = stops_split [OF assms conjunct2 [OF nat_str_digits [of n]]]
  show ?thesis
  proof (cases "n = 0")
    case True
    have "nat_str 0 = [CHR ''0'']" by code_simp
    with True s show ?thesis by (simp add: scan_nat_def Let_def)
  next
    case False
    with nat_str_head [of n] have "hd (nat_str n) \<noteq> CHR ''0''" by simp
    with s show ?thesis using nat_str_digits [of n] by (simp add: scan_nat_def Let_def digits_nat_nat_str)
  qed
qed

lemma scan_number_int_str:
  assumes "stops r"
  shows "scan_number (int_str i @ r) = Some (i, r)"
proof (cases "i < 0")
  case True
  then show ?thesis using scan_nat_str [OF assms, of "nat (- i)"] by (simp add: scan_number_def int_str_def)
next
  case False
  obtain c cs where c: "nat_str (nat i) = c # cs" "dec_digit c"
    using nat_str_digits [of "nat i"] by (cases "nat_str (nat i)") auto
  then have "c \<noteq> CHR ''-''" by (auto simp: dec_digit_def ordc_def)
  with False c scan_nat_str [OF assms, of "nat i"] show ?thesis by (simp add: scan_number_def int_str_def)
qed

lemma int_str_head: "\<exists>c cs. int_str i = c # cs \<and> (dec_digit c \<or> c = CHR ''-'')"
  using int_str_chars [of "hd (int_str i)" i] nat_str_digits
  by (cases "int_str i") (auto simp: int_str_def split: if_splits)

lemma number_start:
  assumes "dec_digit c \<or> c = CHR ''-''"
  shows "c \<noteq> DQUOTE \<and> c \<noteq> CHR ''{'' \<and> c \<noteq> CHR ''['' \<and> c \<noteq> CHR ''n'' \<and> c \<noteq> CHR ''t'' \<and> c \<noteq> CHR ''f'' \<and>
    \<not> json_ws c \<and> c \<noteq> CHR '']''"
  using assms by (auto simp: dec_digit_def ordc_def json_ws_def)

lemma dumps_head: "\<exists>c cs. dumps j = c # cs \<and> \<not> json_ws c \<and> c \<noteq> CHR '']''"
proof (cases j)
  case (JNum n)
  then show ?thesis using int_str_head [of n] number_start by fastforce
qed (auto simp: json_quote_def json_ws_def)

lemma skip_dumps: "skip_ws (dumps j @ r) = dumps j @ r"
  using dumps_head [of j] by (auto simp: skip_ws_Cons)

lemma expect_dumps: "expect (CHR '']'') (dumps j @ r) = None"
  using dumps_head [of j] by (auto simp: expect_Cons)

lemma startswith_Cons: "startswith (c # cs) (d # ds) \<longleftrightarrow> c = d \<and> startswith cs ds"
  by (auto simp: startswith_def)

lemma scan_once_number:
  assumes "stops r"
  shows "scan_once (Suc n) (int_str i @ r) = Some (JNum i, r)"
proof -
  obtain c cs where c: "int_str i = c # cs" "dec_digit c \<or> c = CHR ''-''"
    using int_str_head by blast
  have "scan_number (c # cs @ r) = Some (i, r)" using scan_number_int_str [OF assms, of i] c by simp
  with number_start [OF c(2)] show ?thesis by (simp add: c(1) startswith_Cons)
qed

definition member_text :: "string \<times> json \<Rightarrow> string" where
  "member_text = (\<lambda>(k, v). json_quote k @ CHR '':'' # dumps v)"

lemma scan_members_dumps:
  assumes "\<And>v n r. v \<in> snd ` set kvs \<Longrightarrow> length (dumps v) \<le> n \<Longrightarrow> stops r \<Longrightarrow> scan_once n (dumps v @ r) = Some (v, r)"
    "kvs \<noteq> []" "length (join [CHR '',''] (map member_text kvs)) \<le> n"
    "distinct (map fst kvs)" "fst ` set d \<inter> fst ` set kvs = {}"
  shows "scan_members n d (join [CHR '',''] (map member_text kvs) @ CHR ''}'' # r) = Some (JObj (d @ kvs), r)"
  using assms
proof (induction kvs arbitrary: n d)
  case (Cons kv kvs)
  obtain k v where kv: "kv = (k, v)" by (cases kv)
  have new: "dict_set k v d = d @ [kv]"
    using Cons.prems(5) kv dict_set_new [of k d v] by force
  let ?q = "concat (map json_escape k)"
  have one: "member_text kv = DQUOTE # ?q @ DQUOTE # CHR '':'' # dumps v"
    by (simp add: member_text_def kv json_quote_def)
  have len: "length (member_text kv) \<le> n" using Cons.prems(3) by (cases kvs) auto
  then obtain m where n: "n = Suc m" by (cases n) (auto simp: one)
  have v: "scan_once m (dumps v @ t) = Some (v, t)" if "stops t" for t
  proof (rule Cons.prems(1))
    show "length (dumps v) \<le> m" using len by (simp add: n one)
  qed (use that in \<open>simp_all add: kv\<close>)
  have step: "scan_members n d (member_text kv @ t) =
      (case expect (CHR ''}'') t of Some t' \<Rightarrow> Some (JObj (d @ [kv]), t')
       | None \<Rightarrow> (case expect (CHR '','') t of None \<Rightarrow> None | Some t' \<Rightarrow> scan_members m (d @ [kv]) (skip_ws t')))"
    if "stops t" for t
    unfolding one n
    by (simp add: expect_Cons punctuation_plain scan_quoted skip_dumps v [OF that] del: scan_string.simps)
      (unfold new, rule refl)
  show ?case
  proof (cases kvs)
    case Nil
    then show ?thesis using step [OF stops_intros(3), of r] by (simp add: expect_Cons punctuation_plain)
  next
    case (Cons kv' kvs')
    have j: "join [CHR '',''] (map member_text (kv # kvs)) = member_text kv @ CHR '','' # join [CHR '',''] (map member_text kvs)"
      by (simp add: Cons)
    have ih: "scan_members m (d @ [kv]) (join [CHR '',''] (map member_text kvs) @ CHR ''}'' # r) = Some (JObj ((d @ [kv]) @ kvs), r)"
    proof (rule Cons.IH)
      show "kvs \<noteq> []" by (simp add: Cons)
      show "length (join [CHR '',''] (map member_text kvs)) \<le> m"
        using Cons.prems(3) unfolding j n by simp
      show "distinct (map fst kvs)" using Cons.prems(4) by simp
      show "fst ` set (d @ [kv]) \<inter> fst ` set kvs = {}" using Cons.prems(4,5) by auto
    qed (use Cons.prems(1) in auto)
    obtain cs where q: "join [CHR '',''] (map member_text kvs) = DQUOTE # cs"
      by (cases kv'; cases kvs') (simp_all add: Cons member_text_def json_quote_def)
    show ?thesis
      using ih unfolding j by (simp add: step [OF stops_intros(2)] expect_Cons punctuation_plain q skip_ws_Cons)
  qed
qed simp

lemma scan_elems_dumps:
  assumes "\<And>v n r. v \<in> set js \<Longrightarrow> length (dumps v) \<le> n \<Longrightarrow> stops r \<Longrightarrow> scan_once n (dumps v @ r) = Some (v, r)"
    "js \<noteq> []" "length (join [CHR '',''] (map dumps js)) < n"
  shows "scan_elems n acc (join [CHR '',''] (map dumps js) @ CHR '']'' # r) = Some (JArr (acc @ js), r)"
  using assms
proof (induction js arbitrary: n acc)
  case (Cons j js)
  obtain m where n: "n = Suc m" using Cons.prems(3) by (cases n) auto
  have len: "length (dumps j) \<le> m" using Cons.prems(3) n by (cases js) auto
  have v: "scan_once m (dumps j @ t) = Some (j, t)" if "stops t" for t
    using Cons.prems(1) [of j m t] len that by simp
  show ?case
  proof (cases js)
    case Nil
    then show ?thesis by (simp add: n v [OF stops_intros(4)] expect_Cons punctuation_plain)
  next
    case (Cons j' js')
    have e: "join [CHR '',''] (map dumps (j # js)) = dumps j @ CHR '','' # join [CHR '',''] (map dumps js)"
      by (simp add: Cons)
    have ih: "scan_elems m (acc @ [j]) (join [CHR '',''] (map dumps js) @ CHR '']'' # r) = Some (JArr ((acc @ [j]) @ js), r)"
    proof (rule Cons.IH)
      show "length (join [CHR '',''] (map dumps js)) < m" using Cons.prems(3) unfolding e n by simp
    qed (use Cons.prems(1) Cons in auto)
    obtain c cs where "join [CHR '',''] (map dumps js) = c # cs" "\<not> json_ws c"
      using dumps_head [of j'] by (cases js') (auto simp: Cons)
    then show ?thesis
      using ih unfolding e by (simp add: n v [OF stops_intros(2)] expect_Cons punctuation_plain skip_ws_Cons)
  qed
qed simp

lemma scan_once_dumps:
  "json_wf j \<Longrightarrow> length (dumps j) \<le> n \<Longrightarrow> stops r \<Longrightarrow> scan_once n (dumps j @ r) = Some (j, r)"
proof (induction j arbitrary: n r)
  case JNull
  then obtain m where "n = Suc m" by (cases n) auto
  then show ?case by (simp add: startswith_def)
next
  case (JBool b)
  then obtain m where "n = Suc m" by (cases n) (auto split: if_splits)
  then show ?case by (cases b) (simp_all add: startswith_def)
next
  case (JNum i)
  obtain c cs where "int_str i = c # cs" using int_str_head by blast
  with JNum.prems(2) obtain m where "n = Suc m" by (cases n) auto
  then show ?case using scan_once_number [OF JNum.prems(3)] by simp
next
  case (JStr s)
  then obtain m where "n = Suc m" by (cases n) (auto simp: json_quote_def)
  then show ?case by (simp add: json_quote_def scan_quoted del: scan_string.simps)
next
  case (JArr js)
  obtain m where n: "n = Suc m" using JArr.prems(2) by (cases n) auto
  show ?case
  proof (cases js)
    case Nil
    then show ?thesis by (simp add: n expect_Cons punctuation_plain)
  next
    case (Cons j' js')
    let ?t = "join [CHR '',''] (map dumps js)"
    have ih: "scan_elems m [] (?t @ CHR '']'' # r) = Some (JArr ([] @ js), r)"
      using JArr.IH JArr.prems by (intro scan_elems_dumps) (auto simp: n Cons list_all_iff)
    obtain t' where t: "?t = dumps j' @ t'" by (cases js') (simp_all add: Cons)
    show ?thesis
      using ih by (simp add: n t expect_dumps skip_dumps)
  qed
next
  case (JObj kvs)
  obtain m where n: "n = Suc m" using JObj.prems(2) by (cases n) auto
  show ?case
  proof (cases kvs)
    case Nil
    then show ?thesis by (simp add: n expect_Cons punctuation_plain)
  next
    case (Cons kv kvs')
    let ?t = "join [CHR '',''] (map member_text kvs)"
    have d: "dumps (JObj kvs) = CHR ''{'' # ?t @ [CHR ''}'']"
      by (simp add: member_text_def)
    have ih: "scan_members m [] (?t @ CHR ''}'' # r) = Some (JObj ([] @ kvs), r)"
    proof (rule scan_members_dumps)
      show "length ?t \<le> m" using JObj.prems(2) unfolding d n by simp
      fix v k s
      assume v: "v \<in> snd ` set kvs" "length (dumps v) \<le> k" "stops s"
      then obtain p where p: "p \<in> set kvs" "v = snd p" by auto
      then have "json_wf v" using JObj.prems(1) by (auto simp: list_all_iff)
      with p v show "scan_once k (dumps v @ s) = Some (v, s)" using JObj.IH [of p v] by (cases p) (auto simp: snds.simps)
    qed (use JObj.prems Cons in auto)
    obtain t' where t: "?t = DQUOTE # t'"
      by (cases kv; cases kvs') (simp_all add: Cons member_text_def json_quote_def)
    show ?thesis
      using ih unfolding d by (simp add: n t expect_Cons punctuation_plain skip_ws_Cons)
  qed
qed

section \<open>The text is ASCII\<close>

definition ascii_text :: "string \<Rightarrow> bool" where
  "ascii_text s = list_all (\<lambda>c. ordc c < 128) s"

lemma ascii_text_simps [simp]:
  "ascii_text []" "ascii_text (c # s) \<longleftrightarrow> ordc c < 128 \<and> ascii_text s" "ascii_text (s @ t) \<longleftrightarrow> ascii_text s \<and> ascii_text t"
  by (simp_all add: ascii_text_def)

lemma ascii_join: "ascii_text sep \<Longrightarrow> list_all ascii_text ss \<Longrightarrow> ascii_text (join sep ss)"
  by (induction sep ss rule: join.induct) auto

lemma ascii_hex: "n < 16 \<Longrightarrow> ordc (hex_digit n) < 128"
  by (auto simp: hex_digit_def ordc_def)

lemma ascii_punctuation: "ordc BSLASH < 128" "ordc DQUOTE < 128" "ordc (CHR ''u'') < 128" "ordc (CHR ''0'') < 128"
  "ordc (CHR ''b'') < 128" "ordc (CHR ''f'') < 128" "ordc (CHR ''n'') < 128" "ordc (CHR ''r'') < 128" "ordc (CHR ''t'') < 128"
  by (simp_all add: ordc_def)

lemma ascii_escape: "ascii_text (json_escape c)"
  by (simp add: json_escape_def ascii_punctuation ascii_hex ordc_hex)

lemma ascii_quote: "ascii_text (json_quote s)"
  using ascii_escape by (induction s) (auto simp: json_quote_def ordc_def)

lemma ascii_dumps: "ascii_text (dumps j)"
proof (induction j)
  case (JNum n)
  have "ordc c < 128" if "c \<in> set (int_str n)" for c
    using int_str_chars [OF that] by (auto simp: dec_digit_def ordc_def)
  then show ?case by (simp add: ascii_text_def list_all_iff)
next
  case (JArr js)
  then show ?case by (auto simp: ordc_def list_all_iff intro!: ascii_join)
next
  case (JObj kvs)
  have "list_all ascii_text (map (\<lambda>(k, v). json_quote k @ CHR '':'' # dumps v) kvs)"
    using JObj ascii_quote by (fastforce simp: list_all_iff ordc_def)
  then show ?case by (auto simp: ordc_def intro!: ascii_join)
qed (auto simp: ordc_def ascii_quote)

lemma loads_dumps: "json_wf j \<Longrightarrow> loads (dumps j) = Some j"
  using scan_once_dumps [of j "Suc (length (dumps j))" "[]"] ascii_dumps [of j] skip_dumps [of j "[]"]
  by (simp add: loads_def ascii_text_def stops_intros skip_ws_def del: scan_once.simps)

section \<open>Reading a value\<close>

text \<open>
  \<open>d[k]\<close>, \<open>d.get(k, default)\<close>, \<open>dict(x)\<close>, \<open>int(x)\<close>, \<open>bool(x)\<close> and
  \<open>[str(a) for a in x]\<close> on a value that \<open>json.loads\<close> returned, with the exceptions
  they raise. (An array of pairs, which \<open>dict\<close> accepts too, is treated as any other array.)
\<close>

datatype py_exn = Py py_error | AttributeError

type_synonym 'a read = "py_exn + 'a"

fun jitem :: "json \<Rightarrow> string \<Rightarrow> json read" where
  "jitem (JObj kvs) k = (case map_of kvs k of Some v \<Rightarrow> Inr v | None \<Rightarrow> Inl (Py (KeyError k)))"
| "jitem _ k = Inl (Py (TypeError k))"

fun jget :: "json \<Rightarrow> string \<Rightarrow> json \<Rightarrow> json read" where
  "jget (JObj kvs) k dflt = Inr (case map_of kvs k of Some v \<Rightarrow> v | None \<Rightarrow> dflt)"
| "jget _ k dflt = Inl AttributeError"

fun jdict :: "json \<Rightarrow> (string \<times> json) list read" where
  "jdict (JObj kvs) = Inr kvs"
| "jdict (JArr []) = Inr []"
| "jdict (JStr []) = Inr []"
| "jdict _ = Inl (Py (TypeError ''dict''))"

fun jint :: "json \<Rightarrow> int read" where
  "jint (JNum n) = Inr n"
| "jint (JBool b) = Inr (if b then 1 else 0)"
| "jint (JStr s) = (case py_int s of Some n \<Rightarrow> Inr n | None \<Rightarrow> Inl (Py (ValueError ''int'')))"
| "jint _ = Inl (Py (TypeError ''int''))"

fun jbool :: "json \<Rightarrow> bool" where
  "jbool JNull = False"
| "jbool (JBool b) = b"
| "jbool (JNum n) = (n \<noteq> 0)"
| "jbool (JStr s) = (s \<noteq> [])"
| "jbool (JArr js) = (js \<noteq> [])"
| "jbool (JObj kvs) = (kvs \<noteq> [])"

text \<open>Iterating: an array, the characters of a string, the keys of an object.\<close>

fun jiter :: "json \<Rightarrow> json list read" where
  "jiter (JArr js) = Inr js"
| "jiter (JStr s) = Inr (map (\<lambda>c. JStr [c]) s)"
| "jiter (JObj kvs) = Inr (map (\<lambda>kv. JStr (fst kv)) kvs)"
| "jiter _ = Inl (Py (TypeError ''iter''))"

definition jstrs :: "json \<Rightarrow> string list read" where
  "jstrs x = res_bind (jiter x) (\<lambda>js. Inr (map json_str js))"

lemma json_str_JStr [simp]: "json_str (JStr s) = s"
  by (simp add: json_str_def)

end
