(* ===== verification/KeychainModel.thy ===== *)
theory KeychainModel
  imports Base64 Json
begin

text \<open>
  The plaintext model of the keychain (\<open>gest/core/keychain/model.py\<close>,
  \<open>gest/core/keychain/errors.py\<close>): a vault holds collections, a collection items, and
  an item a label, searchable attributes and a secret. A dict is an association list in
  insertion order. The clock and the id source, which the code funnels through \<open>_now\<close>
  and \<open>_gen_id\<close>, are arguments.
\<close>

section \<open>Errors\<close>

text \<open>The keychain's own exceptions, and the Python ones that pass through.\<close>

datatype kc_error =
    VaultExists | VaultNotFound | VaultCorrupt | VaultLocked | BadPassphrase
  | UnknownCollection string
  | PyExn py_exn

abbreviation PyError :: "py_error \<Rightarrow> kc_error" where
  "PyError e \<equiv> PyExn (Py e)"

type_synonym 'a kc = "kc_error + 'a"

fun lift_exn :: "'a read \<Rightarrow> 'a kc" where
  "lift_exn (Inl e) = Inl (PyExn e)"
| "lift_exn (Inr x) = Inr x"

definition is_keychain_error :: "kc_error \<Rightarrow> bool" where
  "is_keychain_error e = (case e of PyExn _ \<Rightarrow> False | _ \<Rightarrow> True)"

section \<open>Reading a JSON value\<close>

text \<open>The readers of the JSON values, with their exceptions passed through, and
  \<open>base64.b64decode(x)\<close>.\<close>

definition json_item :: "json \<Rightarrow> string \<Rightarrow> json kc" where
  "json_item d k = lift_exn (jitem d k)"

definition json_get :: "json \<Rightarrow> string \<Rightarrow> json \<Rightarrow> json kc" where
  "json_get d k dflt = lift_exn (jget d k dflt)"

definition json_dict :: "json \<Rightarrow> (string \<times> json) list kc" where
  "json_dict x = lift_exn (jdict x)"

definition json_int :: "json \<Rightarrow> int kc" where
  "json_int x = lift_exn (jint x)"

definition json_bytes :: "json \<Rightarrow> bytes kc" where
  "json_bytes x =
     (case x of JStr s \<Rightarrow> (case b64decode s of Some b \<Rightarrow> Inr b | None \<Rightarrow> Inl (PyError (ValueError ''base64'')))
      | _ \<Rightarrow> Inl (PyError (TypeError ''base64'')))"

definition json_strs :: "json \<Rightarrow> string list kc" where
  "json_strs x = lift_exn (jstrs x)"

section \<open>Items\<close>

record item =
  it_id :: string
  it_label :: string
  it_attributes :: "(string \<times> string) list"
  it_secret :: bytes
  it_content_type :: string
  it_created :: int
  it_modified :: int

definition item_matches :: "(string \<times> string) list \<Rightarrow> item \<Rightarrow> bool" where
  "item_matches query it = list_all (\<lambda>(k, v). map_of (it_attributes it) k = Some v) query"

definition item_to_dict :: "item \<Rightarrow> json" where
  "item_to_dict it = JObj
     [(''id'', JStr (it_id it)),
      (''label'', JStr (it_label it)),
      (''attributes'', JObj (map (\<lambda>(k, v). (k, JStr v)) (it_attributes it))),
      (''secret'', JStr (b64encode (it_secret it))),
      (''content_type'', JStr (it_content_type it)),
      (''created'', JNum (it_created it)),
      (''modified'', JNum (it_modified it))]"

definition item_from_dict :: "json \<Rightarrow> item kc" where
  "item_from_dict d =
     res_bind (json_item d ''id'') (\<lambda>i.
     res_bind (json_get d ''label'' (JStr [])) (\<lambda>l.
     res_bind (res_bind (json_get d ''attributes'' (JObj [])) json_dict) (\<lambda>as.
     res_bind (res_bind (json_get d ''secret'' (JStr [])) json_bytes) (\<lambda>s.
     res_bind (json_get d ''content_type'' (JStr ''text/plain'')) (\<lambda>t.
     res_bind (res_bind (json_get d ''created'' (JNum 0)) json_int) (\<lambda>c.
     res_bind (res_bind (json_get d ''modified'' (JNum 0)) json_int) (\<lambda>m.
       Inr \<lparr>it_id = json_str i, it_label = json_str l,
            it_attributes = map (\<lambda>(k, v). (k, json_str v)) as, it_secret = s,
            it_content_type = json_str t, it_created = c, it_modified = m\<rparr>)))))))"

section \<open>Collections\<close>

record collection =
  co_id :: string
  co_label :: string
  co_aliases :: "string list"
  co_created :: int
  co_modified :: int
  co_items :: "(string \<times> item) list"

definition collection_to_dict :: "collection \<Rightarrow> json" where
  "collection_to_dict c = JObj
     [(''id'', JStr (co_id c)),
      (''label'', JStr (co_label c)),
      (''aliases'', JArr (map JStr (co_aliases c))),
      (''created'', JNum (co_created c)),
      (''modified'', JNum (co_modified c)),
      (''items'', JObj (map (\<lambda>(k, i). (k, item_to_dict i)) (co_items c)))]"

definition keyed :: "('a \<Rightarrow> 'b kc) \<Rightarrow> string \<times> 'a \<Rightarrow> (string \<times> 'b) kc" where
  "keyed f = (\<lambda>(k, v). res_bind (f v) (\<lambda>x. Inr (k, x)))"

definition collection_from_dict :: "json \<Rightarrow> collection kc" where
  "collection_from_dict d =
     res_bind (json_item d ''id'') (\<lambda>i.
     res_bind (json_get d ''label'' (JStr [])) (\<lambda>l.
     res_bind (res_bind (json_get d ''aliases'' (JArr [])) json_strs) (\<lambda>as.
     res_bind (res_bind (json_get d ''created'' (JNum 0)) json_int) (\<lambda>c.
     res_bind (res_bind (json_get d ''modified'' (JNum 0)) json_int) (\<lambda>m.
     res_bind (res_bind (res_bind (json_get d ''items'' (JObj [])) json_dict) (res_map (keyed item_from_dict))) (\<lambda>its.
       Inr \<lparr>co_id = json_str i, co_label = json_str l, co_aliases = as,
            co_created = c, co_modified = m, co_items = its\<rparr>))))))"

section \<open>The payload\<close>

record payload =
  pl_collections :: "(string \<times> collection) list"

definition FORMAT :: string where "FORMAT = ''gest-keyring''"

definition PAYLOAD_VERSION :: int where "PAYLOAD_VERSION = 1"

definition DEFAULT_COLLECTION_LABEL :: string where "DEFAULT_COLLECTION_LABEL = ''login''"

definition DEFAULT_ALIAS :: string where "DEFAULT_ALIAS = ''default''"

definition payload_to_dict :: "payload \<Rightarrow> json" where
  "payload_to_dict p = JObj
     [(''format'', JStr FORMAT), (''version'', JNum PAYLOAD_VERSION),
      (''collections'', JObj (map (\<lambda>(k, c). (k, collection_to_dict c)) (pl_collections p)))]"

definition payload_from_dict :: "json \<Rightarrow> payload kc" where
  "payload_from_dict d =
     res_bind (json_get d ''format'' JNull) (\<lambda>f.
       guard (f = JStr FORMAT) (PyError (ValueError ''not a gest-keyring payload''))
         (res_bind (res_bind (res_bind (json_get d ''collections'' (JObj [])) json_dict)
             (res_map (keyed collection_from_dict)))
           (\<lambda>cs. Inr \<lparr>pl_collections = cs\<rparr>)))"

definition add_collection :: "int \<Rightarrow> string \<Rightarrow> string \<Rightarrow> string list \<Rightarrow> payload \<Rightarrow> payload \<times> collection" where
  "add_collection now new_id lbl aliases p =
     (let col = \<lparr>co_id = new_id, co_label = lbl, co_aliases = aliases, co_created = now, co_modified = now, co_items = []\<rparr>
      in (p\<lparr>pl_collections := dict_set new_id col (pl_collections p)\<rparr>, col))"

definition new_default :: "int \<Rightarrow> string \<Rightarrow> payload" where
  "new_default now new_id =
     fst (add_collection now new_id DEFAULT_COLLECTION_LABEL [DEFAULT_ALIAS] \<lparr>pl_collections = []\<rparr>)"

definition remove_collection :: "string \<Rightarrow> payload \<Rightarrow> payload" where
  "remove_collection cid p = p\<lparr>pl_collections := filter (\<lambda>kv. fst kv \<noteq> cid) (pl_collections p)\<rparr>"

definition get_collection :: "string \<Rightarrow> payload \<Rightarrow> collection option" where
  "get_collection cid p = map_of (pl_collections p) cid"

definition collection_by_alias :: "string \<Rightarrow> payload \<Rightarrow> collection option" where
  "collection_by_alias a p = map_option snd (find (\<lambda>kv. a \<in> set (co_aliases (snd kv))) (pl_collections p))"

definition resolve_collection :: "string \<Rightarrow> payload \<Rightarrow> collection option" where
  "resolve_collection ref p =
     (case get_collection ref p of Some c \<Rightarrow> Some c | None \<Rightarrow> collection_by_alias ref p)"

section \<open>Items of the payload\<close>

definition put_collection :: "string \<Rightarrow> collection \<Rightarrow> payload \<Rightarrow> payload" where
  "put_collection cid col p = p\<lparr>pl_collections := dict_set cid col (pl_collections p)\<rparr>"

definition add_item ::
    "int \<Rightarrow> string \<Rightarrow> string \<Rightarrow> string \<Rightarrow> (string \<times> string) list \<Rightarrow> bytes \<Rightarrow> string \<Rightarrow> payload \<Rightarrow> (payload \<times> item) kc"
where
  "add_item now new_id cid lbl attrs sec ctype p =
     (case get_collection cid p of
        None \<Rightarrow> Inl (PyError (KeyError cid))
      | Some col \<Rightarrow>
          (let it = \<lparr>it_id = new_id, it_label = lbl, it_attributes = attrs, it_secret = sec,
                     it_content_type = ctype, it_created = now, it_modified = now\<rparr>
           in Inr (put_collection cid (col\<lparr>co_items := dict_set new_id it (co_items col), co_modified := now\<rparr>) p, it)))"

definition get_item :: "string \<Rightarrow> string \<Rightarrow> payload \<Rightarrow> item option" where
  "get_item cid iid p =
     (case get_collection cid p of None \<Rightarrow> None | Some col \<Rightarrow> map_of (co_items col) iid)"

definition remove_item :: "int \<Rightarrow> string \<Rightarrow> string \<Rightarrow> payload \<Rightarrow> payload" where
  "remove_item now cid iid p =
     (case get_collection cid p of None \<Rightarrow> p
      | Some col \<Rightarrow>
          (if map_of (co_items col) iid = None then p
           else put_collection cid (col\<lparr>co_items := filter (\<lambda>kv. fst kv \<noteq> iid) (co_items col), co_modified := now\<rparr>) p))"

text \<open>The item is changed in place; its collection's \<open>modified\<close> is not touched.\<close>

definition update_item ::
    "int \<Rightarrow> string \<Rightarrow> string \<Rightarrow> string option \<Rightarrow> bytes option \<Rightarrow> payload \<Rightarrow> (payload \<times> item) kc" where
  "update_item now cid iid lbl sec p =
     (case get_collection cid p of
        None \<Rightarrow> Inl (PyError (KeyError iid))
      | Some col \<Rightarrow>
          (case map_of (co_items col) iid of
             None \<Rightarrow> Inl (PyError (KeyError iid))
           | Some it \<Rightarrow>
               (let it' = it\<lparr>it_label := (case lbl of None \<Rightarrow> it_label it | Some l \<Rightarrow> l),
                             it_secret := (case sec of None \<Rightarrow> it_secret it | Some s \<Rightarrow> s),
                             it_modified := now\<rparr>
                in Inr (put_collection cid (col\<lparr>co_items := dict_set iid it' (co_items col)\<rparr>) p, it'))))"

definition set_secret :: "int \<Rightarrow> string \<Rightarrow> string \<Rightarrow> bytes \<Rightarrow> payload \<Rightarrow> (payload \<times> item) kc" where
  "set_secret now cid iid sec p = update_item now cid iid None (Some sec) p"

definition find_item :: "string \<Rightarrow> payload \<Rightarrow> (string \<times> item) option" where
  "find_item iid p =
     (case find (\<lambda>(cid, col). map_of (co_items col) iid \<noteq> None) (pl_collections p) of
        None \<Rightarrow> None | Some (cid, col) \<Rightarrow> map_option (Pair cid) (map_of (co_items col) iid))"

definition search :: "(string \<times> string) list \<Rightarrow> payload \<Rightarrow> (string \<times> item) list" where
  "search attrs p =
     concat (map (\<lambda>(cid, col). map (Pair cid) (filter (item_matches attrs) (map snd (co_items col)))) (pl_collections p))"

definition copy :: "payload \<Rightarrow> payload kc" where
  "copy p = payload_from_dict (payload_to_dict p)"

section \<open>Well-formed payloads\<close>

text \<open>
  A payload is made of dicts, so its keys are distinct; one that only the operations touched
  (\<open>ids\<close>) has every collection and item under its own id as well.
\<close>

definition item_wf :: "bool \<Rightarrow> string \<times> item \<Rightarrow> bool" where
  "item_wf ids = (\<lambda>(k, it). (ids \<longrightarrow> it_id it = k) \<and> distinct (map fst (it_attributes it)))"

definition collection_wf :: "bool \<Rightarrow> string \<times> collection \<Rightarrow> bool" where
  "collection_wf ids =
     (\<lambda>(k, c). (ids \<longrightarrow> co_id c = k) \<and> distinct (map fst (co_items c)) \<and> list_all (item_wf ids) (co_items c))"

definition payload_wf :: "bool \<Rightarrow> payload \<Rightarrow> bool" where
  "payload_wf ids p = (distinct (map fst (pl_collections p)) \<and> list_all (collection_wf ids) (pl_collections p))"

lemma set_dict_set: "x \<in> set (dict_set k v d) \<Longrightarrow> x = (k, v) \<or> x \<in> set d"
  by (induction k v d rule: dict_set.induct) (auto split: if_splits)

lemma list_all_dict_set: "list_all P d \<Longrightarrow> P (k, v) \<Longrightarrow> list_all P (dict_set k v d)"
  by (auto simp: list_all_iff dest: set_dict_set)

lemma distinct_filter_keys: "distinct (map fst d) \<Longrightarrow> distinct (map fst (filter P d))"
  by (induction d) auto

lemma get_collection_wf: "payload_wf ids p \<Longrightarrow> get_collection cid p = Some c \<Longrightarrow> collection_wf ids (cid, c)"
  by (auto simp: payload_wf_def get_collection_def list_all_iff dest: map_of_SomeD)

lemma put_collection_wf: "payload_wf ids p \<Longrightarrow> collection_wf ids (cid, c) \<Longrightarrow> payload_wf ids (put_collection cid c p)"
  by (simp add: payload_wf_def put_collection_def distinct_dict_set list_all_dict_set)

lemma add_collection_wf: "payload_wf ids p \<Longrightarrow> payload_wf ids (fst (add_collection now i l as p))"
  by (simp add: add_collection_def Let_def payload_wf_def distinct_dict_set list_all_dict_set collection_wf_def)

lemma new_default_wf: "payload_wf ids (new_default now i)"
  unfolding new_default_def by (rule add_collection_wf) (simp add: payload_wf_def)

lemma remove_collection_wf: "payload_wf ids p \<Longrightarrow> payload_wf ids (remove_collection cid p)"
  by (auto simp: payload_wf_def remove_collection_def distinct_filter_keys list_all_iff)

lemma add_item_wf:
  "payload_wf ids p \<Longrightarrow> distinct (map fst attrs) \<Longrightarrow> add_item now i cid l attrs s t p = Inr (p', it) \<Longrightarrow> payload_wf ids p'"
  using get_collection_wf [of ids p cid]
  by (auto simp: add_item_def Let_def collection_wf_def item_wf_def distinct_dict_set list_all_dict_set
      split: option.splits intro!: put_collection_wf)

lemma remove_item_wf: "payload_wf ids p \<Longrightarrow> payload_wf ids (remove_item now cid iid p)"
  using get_collection_wf [of ids p cid]
  by (auto simp: remove_item_def collection_wf_def distinct_filter_keys list_all_iff
      split: option.splits intro!: put_collection_wf)

lemma update_item_wf:
  assumes "payload_wf ids p" "update_item now cid iid l s p = Inr (p', it)"
  shows "payload_wf ids p'"
proof -
  from assms(2) obtain col i where c: "get_collection cid p = Some col" "map_of (co_items col) iid = Some i"
    "p' = put_collection cid (col\<lparr>co_items := dict_set iid it (co_items col)\<rparr>) p"
    "it_id it = it_id i" "it_attributes it = it_attributes i"
    by (auto simp: update_item_def Let_def split: option.splits)
  have w: "collection_wf ids (cid, col)" by (rule get_collection_wf [OF assms(1) c(1)])
  with c(2) have "item_wf ids (iid, i)" by (auto simp: collection_wf_def list_all_iff dest: map_of_SomeD)
  then have "item_wf ids (iid, it)" using c by (simp add: item_wf_def)
  with w show ?thesis
    unfolding c(3) by (intro put_collection_wf [OF assms(1)]) (simp add: collection_wf_def distinct_dict_set list_all_dict_set)
qed

lemma payload_wf_weaken: "payload_wf ids p \<Longrightarrow> payload_wf False p"
  by (auto simp: payload_wf_def collection_wf_def item_wf_def list_all_iff)

section \<open>Reading back what was written\<close>

lemma item_json: "item_from_dict (item_to_dict it) = Inr it"
  by (simp add: item_from_dict_def item_to_dict_def json_item_def json_get_def json_dict_def json_bytes_def
      json_int_def json_str_def comp_def case_prod_beta')

lemma keyed_map:
  assumes "\<And>x. f (g x) = Inr x"
  shows "res_map (keyed f) (map (\<lambda>(k, x). (k, g x)) xs) = Inr xs"
  by (induction xs) (auto simp: keyed_def assms)

lemma collection_json: "collection_from_dict (collection_to_dict c) = Inr c"
  by (simp add: collection_from_dict_def collection_to_dict_def json_item_def json_get_def json_dict_def
      json_int_def json_strs_def jstrs_def comp_def keyed_map [where f = item_from_dict and g = item_to_dict, OF item_json])

lemma payload_json: "payload_from_dict (payload_to_dict p) = Inr p"
  by (simp add: payload_from_dict_def payload_to_dict_def json_get_def json_dict_def
      keyed_map [where f = collection_from_dict and g = collection_to_dict, OF collection_json])

lemma item_json_wf: "item_wf ids (k, it) \<Longrightarrow> json_wf (item_to_dict it)"
  by (auto simp: item_wf_def item_to_dict_def list_all_iff comp_def case_prod_beta')

lemma collection_json_wf: "collection_wf ids (k, c) \<Longrightarrow> json_wf (collection_to_dict c)"
  using item_json_wf
  by (fastforce simp: collection_wf_def collection_to_dict_def list_all_iff comp_def case_prod_beta')

lemma payload_json_wf: "payload_wf ids p \<Longrightarrow> json_wf (payload_to_dict p)"
  using collection_json_wf
  by (fastforce simp: payload_wf_def payload_to_dict_def list_all_iff comp_def case_prod_beta')

text \<open>The text of a well-formed payload reads back as that payload.\<close>

lemma payload_text:
  assumes "payload_wf ids p"
  shows "map_option payload_from_dict (loads (dumps (payload_to_dict p))) = Some (Inr p)"
  by (simp add: loads_dumps [OF payload_json_wf [OF assms]] payload_json)

lemma copy_same: "copy p = Inr p"
  by (simp add: copy_def payload_json)

section \<open>The payload as a map of items\<close>

text \<open>The abstract vault: which item each pair of ids holds.\<close>

definition items_of :: "payload \<Rightarrow> string \<times> string \<Rightarrow> item option" where
  "items_of p = (\<lambda>(cid, iid). get_item cid iid p)"

lemma get_put: "get_collection c (put_collection cid col p) = (if c = cid then Some col else get_collection c p)"
  by (simp add: get_collection_def put_collection_def map_of_dict_set)

lemma items_of_put:
  "items_of (put_collection cid col p) (c, i) = (if c = cid then map_of (co_items col) i else items_of p (c, i))"
  by (simp add: items_of_def get_item_def get_put)

lemma items_of_known: "get_collection cid p = Some col \<Longrightarrow> items_of p (cid, i) = map_of (co_items col) i"
  by (simp add: items_of_def get_item_def)

lemma items_of_edit:
  assumes "get_collection cid p = Some col" "map_of (co_items col') = (map_of (co_items col))(i := v)"
  shows "items_of (put_collection cid col' p) = (items_of p)((cid, i) := v)"
proof
  fix x :: "string \<times> string"
  obtain c j where x: "x = (c, j)" by (cases x)
  show "items_of (put_collection cid col' p) x = ((items_of p)((cid, i) := v)) x"
    by (cases "c = cid") (simp_all add: x items_of_put items_of_known [OF assms(1)] assms(2))
qed

lemma items_of_add:
  assumes "add_item now i cid l as s t p = Inr (p', it)"
  shows "items_of p' = (items_of p)((cid, i) \<mapsto> it)"
proof -
  from assms obtain col where c: "get_collection cid p = Some col"
    "p' = put_collection cid (col\<lparr>co_items := dict_set i it (co_items col), co_modified := now\<rparr>) p"
    by (auto simp: add_item_def Let_def split: option.splits)
  show ?thesis
    unfolding c(2) by (rule items_of_edit [OF c(1)]) (simp add: map_of_dict_set)
qed

lemma items_of_update:
  assumes "update_item now cid iid l s p = Inr (p', it)"
  shows "items_of p' = (items_of p)((cid, iid) \<mapsto> it)"
proof -
  from assms obtain col where c: "get_collection cid p = Some col"
    "p' = put_collection cid (col\<lparr>co_items := dict_set iid it (co_items col)\<rparr>) p"
    by (auto simp: update_item_def Let_def split: option.splits)
  show ?thesis
    unfolding c(2) by (rule items_of_edit [OF c(1)]) (simp add: map_of_dict_set)
qed

lemma map_of_filter_other: "map_of (filter (\<lambda>kv. fst kv \<noteq> k) d) j = (if j = k then None else map_of d j)"
  by (induction d) auto

lemma items_of_remove: "items_of (remove_item now cid iid p) = (items_of p)((cid, iid) := None)"
proof (cases "get_collection cid p")
  case None
  then show ?thesis by (auto simp: remove_item_def items_of_def get_item_def fun_eq_iff)
next
  case (Some col)
  have e: "items_of (put_collection cid (col\<lparr>co_items := filter (\<lambda>kv. fst kv \<noteq> iid) (co_items col), co_modified := now\<rparr>) p)
      = (items_of p)((cid, iid) := None)"
    by (rule items_of_edit [OF Some]) (auto simp: map_of_filter_other)
  show ?thesis
  proof (cases "map_of (co_items col) iid = None")
    case True
    then have "(items_of p)((cid, iid) := None) = items_of p"
      using items_of_known [OF Some, of iid] by (auto simp: fun_eq_iff)
    with True Some show ?thesis by (simp add: remove_item_def)
  next
    case False
    with Some e show ?thesis by (simp add: remove_item_def del: not_None_eq)
  qed
qed

lemma items_of_remove_collection:
  "items_of (remove_collection cid p) = (\<lambda>(c, i). if c = cid then None else items_of p (c, i))"
  by (auto simp: items_of_def get_item_def remove_collection_def get_collection_def map_of_filter_other fun_eq_iff)

lemma items_of_add_collection:
  "items_of (fst (add_collection now i l as p)) = (\<lambda>(c, k). if c = i then None else items_of p (c, k))"
  by (auto simp: add_collection_def items_of_def get_item_def get_collection_def map_of_dict_set Let_def fun_eq_iff)

lemma item_of_key:
  assumes "collection_wf True (cid, col)"
  shows "it \<in> snd ` set (co_items col) \<longleftrightarrow> map_of (co_items col) (it_id it) = Some it"
proof
  assume "it \<in> snd ` set (co_items col)"
  then obtain k where k: "(k, it) \<in> set (co_items col)" by auto
  with assms have "item_wf True (k, it)" by (auto simp: collection_wf_def list_all_iff)
  with assms k show "map_of (co_items col) (it_id it) = Some it"
    by (simp add: collection_wf_def item_wf_def)
next
  assume "map_of (co_items col) (it_id it) = Some it"
  then show "it \<in> snd ` set (co_items col)" by (force dest: map_of_SomeD)
qed

lemma search_exact:
  assumes "payload_wf True p"
  shows "(cid, it) \<in> set (search q p) \<longleftrightarrow> items_of p (cid, it_id it) = Some it \<and> item_matches q it"
proof -
  have c: "(cid, col) \<in> set (pl_collections p) \<longleftrightarrow> get_collection cid p = Some col" for col
    using assms by (simp add: get_collection_def payload_wf_def)
  have "(cid, it) \<in> set (search q p) \<longleftrightarrow>
      (\<exists>col. (cid, col) \<in> set (pl_collections p) \<and> it \<in> snd ` set (co_items col)) \<and> item_matches q it"
    unfolding search_def by (simp add: image_iff) blast
  also have "(\<exists>col. (cid, col) \<in> set (pl_collections p) \<and> it \<in> snd ` set (co_items col)) \<longleftrightarrow>
      items_of p (cid, it_id it) = Some it"
    unfolding c using item_of_key [OF get_collection_wf [OF assms]]
    by (auto simp: items_of_def get_item_def split: option.splits)
  finally show ?thesis .
qed

end
