(* ===== verification/Vault.thy ===== *)
theory Vault
  imports KeychainModel
begin

text \<open>
  The encrypted vault (\<open>gest/core/keychain/vault.py\<close>, \<open>gest/core/keychain/crypto.py\<close>):
  the file envelope, the lock and unlock lifecycle, saving. The primitives of the
  \<open>cryptography\<close> package (Argon2id, ChaCha20-Poly1305) are parameters, with their documented
  laws as named hypotheses; \<open>os.urandom\<close> is a function of how many draws were made before.
\<close>

section \<open>The primitives\<close>

record kdf_params =
  kd_salt :: bytes
  kd_time_cost :: int
  kd_memory_cost :: int
  kd_parallelism :: int
  kd_length :: int

text \<open>
  \<open>argon2id\<close> derives a key from the passphrase bytes, or raises. The cipher takes a key
  of 32 bytes (its constructor raises ValueError otherwise); decryption fails with
  \<open>InvalidTag\<close>, None here.
\<close>

record primitives =
  argon2id :: "bytes \<Rightarrow> kdf_params \<Rightarrow> bytes kc"
  encrypt :: "bytes \<Rightarrow> bytes \<Rightarrow> bytes \<Rightarrow> bytes \<Rightarrow> bytes"
  decrypt :: "bytes \<Rightarrow> bytes \<Rightarrow> bytes \<Rightarrow> bytes \<Rightarrow> bytes option"
  urandom :: "nat \<Rightarrow> nat \<Rightarrow> bytes"

definition KEY_LEN :: nat where "KEY_LEN = 32"
definition NONCE_LEN :: nat where "NONCE_LEN = 12"
definition SALT_LEN :: nat where "SALT_LEN = 16"
definition DEFAULT_TIME_COST :: int where "DEFAULT_TIME_COST = 3"
definition DEFAULT_MEMORY_COST_KIB :: int where "DEFAULT_MEMORY_COST_KIB = 64 * 1024"
definition DEFAULT_PARALLELISM :: int where "DEFAULT_PARALLELISM = 4"

text \<open>The laws: the random source has the length asked for; what was encrypted decrypts; a
  ciphertext that decrypts is the encryption of what comes out (the tag is recomputed).\<close>

definition urandom_law :: "primitives \<Rightarrow> bool" where
  "urandom_law P = (\<forall>i n. length (urandom P i n) = n)"

definition decrypt_law :: "primitives \<Rightarrow> bool" where
  "decrypt_law P = (\<forall>k n p a. decrypt P k n (encrypt P k n p a) a = Some p)"

definition authentic_law :: "primitives \<Rightarrow> bool" where
  "authentic_law P = (\<forall>k n c a p. decrypt P k n c a = Some p \<longrightarrow> c = encrypt P k n p a)"

section \<open>crypto.py\<close>

text \<open>\<open>str.encode\<close> with UTF-8, for the code points a model character has.\<close>

definition utf8 :: "string \<Rightarrow> bytes" where
  "utf8 s = concat (map (\<lambda>c. if ordc c < 128 then [c]
     else [char_of (192 + ordc c div 64), char_of (128 + ordc c mod 64)]) s)"

definition kdf_generate :: "primitives \<Rightarrow> nat \<Rightarrow> kdf_params" where
  "kdf_generate P draws =
     \<lparr>kd_salt = urandom P draws SALT_LEN, kd_time_cost = DEFAULT_TIME_COST,
      kd_memory_cost = DEFAULT_MEMORY_COST_KIB, kd_parallelism = DEFAULT_PARALLELISM, kd_length = int KEY_LEN\<rparr>"

definition kdf_to_dict :: "kdf_params \<Rightarrow> json" where
  "kdf_to_dict k = JObj
     [(''algo'', JStr ''argon2id''), (''salt'', JStr (b64encode (kd_salt k))),
      (''time_cost'', JNum (kd_time_cost k)), (''memory_cost'', JNum (kd_memory_cost k)),
      (''parallelism'', JNum (kd_parallelism k)), (''length'', JNum (kd_length k))]"

definition kdf_from_dict :: "json \<Rightarrow> kdf_params kc" where
  "kdf_from_dict d =
     res_bind (json_get d ''algo'' JNull) (\<lambda>a.
     guard (a = JStr ''argon2id'') (PyError (ValueError ''unsupported KDF'')) (
     res_bind (res_bind (json_item d ''salt'') json_bytes) (\<lambda>s.
     res_bind (res_bind (json_item d ''time_cost'') json_int) (\<lambda>t.
     res_bind (res_bind (json_item d ''memory_cost'') json_int) (\<lambda>m.
     res_bind (res_bind (json_item d ''parallelism'') json_int) (\<lambda>p.
     res_bind (res_bind (json_get d ''length'' (JNum (int KEY_LEN))) json_int) (\<lambda>l.
       Inr \<lparr>kd_salt = s, kd_time_cost = t, kd_memory_cost = m, kd_parallelism = p, kd_length = l\<rparr>)))))))"

definition derive_key :: "primitives \<Rightarrow> string \<Rightarrow> kdf_params \<Rightarrow> bytes kc" where
  "derive_key P passphrase k = argon2id P (utf8 passphrase) k"

definition seal :: "primitives \<Rightarrow> nat \<Rightarrow> bytes \<Rightarrow> bytes \<Rightarrow> bytes \<Rightarrow> bytes kc" where
  "seal P draws key plaintext aad =
     (let nonce = urandom P draws NONCE_LEN
      in if length key \<noteq> KEY_LEN then Inl (PyError (ValueError ''key''))
         else Inr (nonce @ encrypt P key nonce plaintext aad))"

definition unseal :: "primitives \<Rightarrow> bytes \<Rightarrow> bytes \<Rightarrow> bytes \<Rightarrow> bytes kc" where
  "unseal P key blob aad =
     (if length blob < NONCE_LEN then Inl BadPassphrase
      else if length key \<noteq> KEY_LEN then Inl (PyError (ValueError ''key''))
      else case decrypt P key (take NONCE_LEN blob) (drop NONCE_LEN blob) aad of
        None \<Rightarrow> Inl BadPassphrase | Some p \<Rightarrow> Inr p)"

section \<open>The vault\<close>

record vault =
  va_path :: string
  va_key :: "bytes option"
  va_payload :: "payload option"
  va_kdf :: "kdf_params option"

text \<open>
  What surrounds a vault: the files, and how often the random source was read. The
  environment of one call is the clock, the system calls that fail, the name of the temporary
  file with what a failing write leaves in it, and whether the file can be read.
\<close>

record host =
  ho_files :: files
  ho_draws :: nat

record call_env =
  en_now :: int
  en_fault :: "write_op \<Rightarrow> bool"
  en_tmp :: string
  en_partial :: string
  en_readable :: bool

definition Vault :: "string \<Rightarrow> vault" where
  "Vault path = \<lparr>va_path = path, va_key = None, va_payload = None, va_kdf = None\<rparr>"

definition is_locked :: "vault \<Rightarrow> bool" where
  "is_locked v = (va_key v = None)"

definition vault_exists :: "host \<Rightarrow> vault \<Rightarrow> bool" where
  "vault_exists h v = (ho_files h (va_path v) \<noteq> None)"

definition CIPHER :: string where "CIPHER = ''chacha20poly1305''"

definition ENVELOPE_VERSION :: int where "ENVELOPE_VERSION = 1"

definition header_of :: "kdf_params \<Rightarrow> (string \<times> json) list" where
  "header_of k =
     [(''format'', JStr FORMAT), (''version'', JNum ENVELOPE_VERSION), (''kdf'', kdf_to_dict k),
      (''cipher'', JStr CIPHER)]"

definition aad_of :: "(string \<times> json) list \<Rightarrow> bytes" where
  "aad_of header = dumps (sort_keys (JObj header))"

definition atomic_write :: "call_env \<Rightarrow> string \<Rightarrow> string \<Rightarrow> host \<Rightarrow> host \<times> unit kc" where
  "atomic_write e path data h =
     (case replace_file (en_fault e) (en_tmp e) (en_partial e) None path data (ho_files h) of
        (fs, r) \<Rightarrow> (h\<lparr>ho_files := fs\<rparr>, case r of Inl err \<Rightarrow> Inl (PyError err) | Inr _ \<Rightarrow> Inr ()))"

definition envelope_text :: "kdf_params \<Rightarrow> bytes \<Rightarrow> string" where
  "envelope_text k blob = dumps (JObj (header_of k @ [(''blob'', JStr (b64encode blob))]))"

definition save :: "primitives \<Rightarrow> call_env \<Rightarrow> host \<Rightarrow> vault \<Rightarrow> host \<times> unit kc" where
  "save P e h v =
     (case (va_key v, va_kdf v, va_payload v) of
        (Some key, Some k, Some p) \<Rightarrow>
          (case seal P (ho_draws h) key (dumps (payload_to_dict p)) (aad_of (header_of k)) of
             Inl err \<Rightarrow> (h\<lparr>ho_draws := Suc (ho_draws h)\<rparr>, Inl err)
           | Inr blob \<Rightarrow> atomic_write e (va_path v) (envelope_text k blob) (h\<lparr>ho_draws := Suc (ho_draws h)\<rparr>))
      | (None, _) \<Rightarrow> (h, Inl VaultLocked)
      | _ \<Rightarrow> (h, Inl (PyExn AttributeError)))"

text \<open>\<open>secrets.token_hex(16)\<close>, the id source.\<close>

definition gen_id :: "primitives \<Rightarrow> nat \<Rightarrow> string" where
  "gen_id P draws = concat (map (\<lambda>c. [hex_digit (ordc c div 16), hex_digit (ordc c mod 16)]) (urandom P draws 16))"

definition create ::
    "primitives \<Rightarrow> call_env \<Rightarrow> string \<Rightarrow> string \<Rightarrow> kdf_params option \<Rightarrow> host \<Rightarrow> host \<times> vault kc" where
  "create P e path passphrase params h =
     (if vault_exists h (Vault path) then (h, Inl VaultExists)
      else
        (let k = (case params of Some k \<Rightarrow> k | None \<Rightarrow> kdf_generate P (ho_draws h));
             h1 = (case params of Some _ \<Rightarrow> h | None \<Rightarrow> h\<lparr>ho_draws := Suc (ho_draws h)\<rparr>)
         in case derive_key P passphrase k of
              Inl err \<Rightarrow> (h1, Inl err)
            | Inr key \<Rightarrow>
                (let v = \<lparr>va_path = path, va_key = Some key,
                          va_payload = Some (new_default (en_now e) (gen_id P (ho_draws h1))), va_kdf = Some k\<rparr>
                 in case save P e (h1\<lparr>ho_draws := Suc (ho_draws h1)\<rparr>) v of
                      (h2, Inl err) \<Rightarrow> (h2, Inl err) | (h2, Inr _) \<Rightarrow> (h2, Inr v))))"

definition read_envelope :: "call_env \<Rightarrow> host \<Rightarrow> vault \<Rightarrow> ((string \<times> json) list \<times> bytes) kc" where
  "read_envelope e h v =
     (case (if en_readable e then ho_files h (va_path v) else None) of
        None \<Rightarrow> Inl VaultCorrupt
      | Some (raw, _) \<Rightarrow>
          (case loads raw of
             Some (JObj kvs) \<Rightarrow>
               (case (map_of kvs ''blob'', map_of kvs ''kdf'') of
                  (Some b, Some _) \<Rightarrow>
                    res_bind (json_bytes b) (\<lambda>blob. Inr (filter (\<lambda>kv. fst kv \<noteq> ''blob'') kvs, blob))
                | _ \<Rightarrow> Inl VaultCorrupt)
           | _ \<Rightarrow> Inl VaultCorrupt))"

text \<open>\<open>VaultPayload.from_dict(json.loads(plaintext))\<close> with the ValueErrors of both turned
  into \<open>VaultCorrupt\<close>.\<close>

definition parse_payload :: "bytes \<Rightarrow> payload kc" where
  "parse_payload plaintext =
     (case loads plaintext of None \<Rightarrow> Inl VaultCorrupt
      | Some j \<Rightarrow> (case payload_from_dict j of Inl (PyError (ValueError _)) \<Rightarrow> Inl VaultCorrupt | r \<Rightarrow> r))"

definition unlock :: "primitives \<Rightarrow> call_env \<Rightarrow> string \<Rightarrow> host \<Rightarrow> vault \<Rightarrow> vault \<times> unit kc" where
  "unlock P e passphrase h v =
     (if \<not> vault_exists h v then (v, Inl VaultNotFound)
      else case res_bind (read_envelope e h v) (\<lambda>(header, blob).
          res_bind (res_bind (json_item (JObj header) ''kdf'') kdf_from_dict) (\<lambda>k.
          res_bind (derive_key P passphrase k) (\<lambda>key.
          res_bind (unseal P key blob (aad_of header)) (\<lambda>plaintext.
          res_bind (parse_payload plaintext) (\<lambda>p. Inr (k, key, p)))))) of
        Inl err \<Rightarrow> (v, Inl err)
      | Inr (k, key, p) \<Rightarrow> (v\<lparr>va_kdf := Some k, va_key := Some key, va_payload := Some p\<rparr>, Inr ()))"

definition lock :: "vault \<Rightarrow> vault" where
  "lock v = v\<lparr>va_key := None, va_payload := None\<rparr>"

text \<open>The parameters are replaced before the key is derived.\<close>

definition change_passphrase ::
    "primitives \<Rightarrow> call_env \<Rightarrow> string \<Rightarrow> kdf_params option \<Rightarrow> host \<Rightarrow> vault \<Rightarrow> (host \<times> vault) \<times> unit kc" where
  "change_passphrase P e passphrase params h v =
     (if is_locked v then ((h, v), Inl VaultLocked)
      else
        (let k = (case params of Some k \<Rightarrow> k | None \<Rightarrow> kdf_generate P (ho_draws h));
             h1 = (case params of Some _ \<Rightarrow> h | None \<Rightarrow> h\<lparr>ho_draws := Suc (ho_draws h)\<rparr>);
             v1 = v\<lparr>va_kdf := Some k\<rparr>
         in case derive_key P passphrase k of
              Inl err \<Rightarrow> ((h1, v1), Inl err)
            | Inr key \<Rightarrow>
                (let v2 = v1\<lparr>va_key := Some key\<rparr>; (h2, r) = save P e h1 v2 in ((h2, v2), r))))"

section \<open>Data operations\<close>

text \<open>Each of them reads the payload through the property that raises when the vault is
  locked.\<close>

definition with_payload :: "vault \<Rightarrow> (payload \<Rightarrow> (payload \<times> 'a) kc) \<Rightarrow> vault \<times> 'a kc" where
  "with_payload v f =
     (if is_locked v then (v, Inl VaultLocked)
      else case va_payload v of None \<Rightarrow> (v, Inl (PyExn AttributeError))
        | Some p \<Rightarrow> (case f p of Inl err \<Rightarrow> (v, Inl err) | Inr (p', x) \<Rightarrow> (v\<lparr>va_payload := Some p'\<rparr>, Inr x)))"

definition vault_collections :: "vault \<Rightarrow> vault \<times> collection list kc" where
  "vault_collections v = with_payload v (\<lambda>p. Inr (p, map snd (pl_collections p)))"

definition with_id ::
    "host \<Rightarrow> vault \<Rightarrow> (payload \<Rightarrow> (payload \<times> 'a) kc) \<Rightarrow> (host \<times> vault) \<times> 'a kc" where
  "with_id h v f = (case with_payload v f of (v', r) \<Rightarrow> ((h\<lparr>ho_draws := Suc (ho_draws h)\<rparr>, v'), r))"

definition vault_add_collection ::
    "primitives \<Rightarrow> call_env \<Rightarrow> string \<Rightarrow> string list \<Rightarrow> host \<Rightarrow> vault \<Rightarrow> (host \<times> vault) \<times> collection kc" where
  "vault_add_collection P e lbl aliases h v =
     with_id h v (\<lambda>p. Inr (add_collection (en_now e) (gen_id P (ho_draws h)) lbl aliases p))"

definition vault_remove_collection :: "string \<Rightarrow> vault \<Rightarrow> vault \<times> unit kc" where
  "vault_remove_collection cid v = with_payload v (\<lambda>p. Inr (remove_collection cid p, ()))"

definition vault_resolve_collection :: "string \<Rightarrow> vault \<Rightarrow> vault \<times> collection option kc" where
  "vault_resolve_collection ref v = with_payload v (\<lambda>p. Inr (p, resolve_collection ref p))"

definition vault_add_item ::
    "primitives \<Rightarrow> call_env \<Rightarrow> string \<Rightarrow> string \<Rightarrow> (string \<times> string) list \<Rightarrow> bytes \<Rightarrow> string \<Rightarrow> host \<Rightarrow> vault
      \<Rightarrow> (host \<times> vault) \<times> item kc" where
  "vault_add_item P e ref lbl attrs sec ctype h v =
     with_id h v (\<lambda>p.
       case resolve_collection ref p of None \<Rightarrow> Inl (UnknownCollection ref)
       | Some col \<Rightarrow> add_item (en_now e) (gen_id P (ho_draws h)) (co_id col) lbl attrs sec ctype p)"

definition vault_get_item :: "string \<Rightarrow> string \<Rightarrow> vault \<Rightarrow> vault \<times> item option kc" where
  "vault_get_item ref iid v =
     with_payload v (\<lambda>p.
       Inr (p, case resolve_collection ref p of None \<Rightarrow> None | Some col \<Rightarrow> get_item (co_id col) iid p))"

definition vault_remove_item :: "call_env \<Rightarrow> string \<Rightarrow> string \<Rightarrow> vault \<Rightarrow> vault \<times> unit kc" where
  "vault_remove_item e ref iid v =
     with_payload v (\<lambda>p.
       Inr (case resolve_collection ref p of None \<Rightarrow> p | Some col \<Rightarrow> remove_item (en_now e) (co_id col) iid p, ()))"

definition vault_search :: "(string \<times> string) list \<Rightarrow> vault \<Rightarrow> vault \<times> (string \<times> item) list kc" where
  "vault_search attrs v = with_payload v (\<lambda>p. Inr (p, search attrs p))"

definition vault_find_item :: "string \<Rightarrow> vault \<Rightarrow> vault \<times> (string \<times> item) option kc" where
  "vault_find_item iid v = with_payload v (\<lambda>p. Inr (p, find_item iid p))"

definition vault_update_item ::
    "call_env \<Rightarrow> string \<Rightarrow> string \<Rightarrow> string option \<Rightarrow> bytes option \<Rightarrow> vault \<Rightarrow> vault \<times> item kc" where
  "vault_update_item e ref iid lbl sec v =
     with_payload v (\<lambda>p.
       case resolve_collection ref p of None \<Rightarrow> Inl (UnknownCollection ref)
       | Some col \<Rightarrow> update_item (en_now e) (co_id col) iid lbl sec p)"

section \<open>What a saved file holds\<close>

lemma keyed_filter: "filter (\<lambda>kv. fst kv \<noteq> k) (xs @ [(k, v)]) = filter (\<lambda>kv. fst kv \<noteq> k) xs"
  by simp

lemma header_json_wf: "json_wf (JObj (header_of k @ [(''blob'', JStr b)]))"
  by (simp add: header_of_def kdf_to_dict_def)

lemma header_no_blob: "filter (\<lambda>kv. fst kv \<noteq> ''blob'') (header_of k @ [(''blob'', JStr b)]) = header_of k"
  by (simp add: header_of_def)

lemma header_blob: "map_of (header_of k @ [(''blob'', JStr b)]) ''blob'' = Some (JStr b)"
  "map_of (header_of k @ [(''blob'', JStr b)]) ''kdf'' = Some (kdf_to_dict k)"
  "map_of (header_of k) ''kdf'' = Some (kdf_to_dict k)"
  by (simp_all add: header_of_def)

lemma kdf_json: "kdf_from_dict (kdf_to_dict k) = Inr k"
  by (simp add: kdf_from_dict_def kdf_to_dict_def json_item_def json_get_def json_bytes_def json_int_def)

lemma loads_envelope:
  "loads (envelope_text k blob) = Some (JObj (header_of k @ [(''blob'', JStr (b64encode blob))]))"
  unfolding envelope_text_def by (rule loads_dumps [OF header_json_wf])

lemma read_saved_envelope:
  assumes "en_readable e" "ho_files h (va_path v) = Some (envelope_text k blob, m)"
  shows "read_envelope e h v = Inr (header_of k, blob)"
  using assms
  by (simp add: read_envelope_def loads_envelope header_blob header_no_blob json_bytes_def del: map_of_append filter_append)

lemma parse_saved_payload:
  assumes "payload_wf ids p"
  shows "parse_payload (dumps (payload_to_dict p)) = Inr p"
  using loads_dumps [OF payload_json_wf [OF assms]] by (simp add: parse_payload_def payload_json)

lemma unseal_seal:
  assumes "seal P d key plaintext aad = Inr blob" "urandom_law P" "decrypt_law P"
  shows "unseal P key blob aad = Inr plaintext"
  using assms by (auto simp: seal_def unseal_def urandom_law_def decrypt_law_def Let_def split: if_splits)

text \<open>The file of a vault opens with a passphrase to a payload.\<close>

definition opens_to :: "primitives \<Rightarrow> (string \<rightharpoonup> string \<times> nat) \<Rightarrow> string \<Rightarrow> string \<Rightarrow> payload \<Rightarrow> bool" where
  "opens_to P fs path pw p =
     (\<exists>k key blob m. fs path = Some (envelope_text k blob, m) \<and> derive_key P pw k = Inr key \<and>
        unseal P key blob (aad_of (header_of k)) = Inr (dumps (payload_to_dict p)) \<and> payload_wf False p)"

lemma opens_to_unlock:
  assumes "opens_to P (ho_files h) (va_path v) pw p" "en_readable e"
  shows "\<exists>k key. unlock P e pw h v = (v\<lparr>va_kdf := Some k, va_key := Some key, va_payload := Some p\<rparr>, Inr ())"
proof -
  from assms(1) obtain k key blob m where o: "ho_files h (va_path v) = Some (envelope_text k blob, m)"
      "derive_key P pw k = Inr key" "unseal P key blob (aad_of (header_of k)) = Inr (dumps (payload_to_dict p))"
      "payload_wf False p"
    by (auto simp: opens_to_def)
  have "unlock P e pw h v = (v\<lparr>va_kdf := Some k, va_key := Some key, va_payload := Some p\<rparr>, Inr ())"
    using o by (simp add: unlock_def vault_exists_def read_saved_envelope [OF assms(2) o(1)] json_item_def header_blob
        kdf_json parse_saved_payload [OF o(4)])
  then show ?thesis by blast
qed

definition saveable :: "primitives \<Rightarrow> string \<Rightarrow> vault \<Rightarrow> bool" where
  "saveable P pw v =
     (\<exists>k key p. va_kdf v = Some k \<and> va_key v = Some key \<and> va_payload v = Some p \<and>
        derive_key P pw k = Inr key \<and> payload_wf False p)"

lemma save_opens:
  assumes "save P e h v = (h', Inr ())" "saveable P pw v" "urandom_law P" "decrypt_law P" "en_tmp e \<noteq> va_path v"
  shows "\<exists>p. va_payload v = Some p \<and> opens_to P (ho_files h') (va_path v) pw p"
proof -
  from assms(2) obtain k key p where v: "va_kdf v = Some k" "va_key v = Some key" "va_payload v = Some p"
      "derive_key P pw k = Inr key" "payload_wf False p"
    by (auto simp: saveable_def)
  from assms(1) v obtain blob where b:
      "seal P (ho_draws h) key (dumps (payload_to_dict p)) (aad_of (header_of k)) = Inr blob"
      "atomic_write e (va_path v) (envelope_text k blob) (h\<lparr>ho_draws := Suc (ho_draws h)\<rparr>) = (h', Inr ())"
    by (auto simp: save_def split: sum.splits)
  have "ho_files h' (va_path v) = Some (envelope_text k blob, MODE_600)"
    using b(2) assms(5) by (auto simp: atomic_write_def replace_file_def Let_def split: if_splits)
  with v unseal_seal [OF b(1) assms(3,4)] show ?thesis
    by (auto simp: opens_to_def)
qed

lemma save_failed:
  assumes "save P e h v = (h', Inl err)" "en_tmp e \<noteq> va_path v"
  shows "ho_files h' (va_path v) = ho_files h (va_path v)"
  using assms
  by (auto simp: save_def atomic_write_def replace_file_def Let_def split: option.splits sum.splits if_splits)

section \<open>The lifecycle\<close>

datatype vault_op =
    UnlockOp string | LockOp | SaveOp | ChangeOp string "kdf_params option"
  | AddCollectionOp string "string list" | RemoveCollectionOp string
  | AddItemOp string string "(string \<times> string) list" bytes string
  | RemoveItemOp string string | UpdateItemOp string string "string option" "bytes option"

definition no_value :: "'a kc \<Rightarrow> unit kc" where
  "no_value r = (case r of Inl e \<Rightarrow> Inl e | Inr _ \<Rightarrow> Inr ())"

fun vault_step :: "primitives \<Rightarrow> call_env \<Rightarrow> vault_op \<Rightarrow> host \<times> vault \<Rightarrow> (host \<times> vault) \<times> unit kc" where
  "vault_step P e (UnlockOp pw) (h, v) = (case unlock P e pw h v of (v', r) \<Rightarrow> ((h, v'), r))"
| "vault_step P e LockOp (h, v) = ((h, lock v), Inr ())"
| "vault_step P e SaveOp (h, v) = (case save P e h v of (h', r) \<Rightarrow> ((h', v), r))"
| "vault_step P e (ChangeOp pw k) (h, v) = change_passphrase P e pw k h v"
| "vault_step P e (AddCollectionOp l as) (h, v) =
     (case vault_add_collection P e l as h v of (s, r) \<Rightarrow> (s, no_value r))"
| "vault_step P e (RemoveCollectionOp cid) (h, v) = (case vault_remove_collection cid v of (v', r) \<Rightarrow> ((h, v'), r))"
| "vault_step P e (AddItemOp ref l as s t) (h, v) =
     (case vault_add_item P e ref l as s t h v of (s, r) \<Rightarrow> (s, no_value r))"
| "vault_step P e (RemoveItemOp ref i) (h, v) = (case vault_remove_item e ref i v of (v', r) \<Rightarrow> ((h, v'), r))"
| "vault_step P e (UpdateItemOp ref i l s) (h, v) =
     (case vault_update_item e ref i l s v of (v', r) \<Rightarrow> ((h, v'), no_value r))"

fun op_wf :: "vault_op \<Rightarrow> bool" where
  "op_wf (AddItemOp ref l as s t) = distinct (map fst as)"
| "op_wf op = True"

text \<open>A call is one of the session: an attribute dict has distinct keys, the temporary file is
  not the vault, the vault can be read.\<close>

definition call_ok :: "string \<Rightarrow> call_env \<times> vault_op \<Rightarrow> bool" where
  "call_ok path = (\<lambda>(e, op). op_wf op \<and> en_tmp e \<noteq> path \<and> en_readable e)"

lemma with_payload_locked: "is_locked v \<Longrightarrow> with_payload v f = (v, Inl VaultLocked)"
  by (simp add: with_payload_def)

lemma with_payload_cases:
  assumes "with_payload v f = (v', r)"
  shows "(\<exists>err. r = Inl err \<and> v' = v) \<or>
    (\<exists>p p' x. va_payload v = Some p \<and> f p = Inr (p', x) \<and> v' = v\<lparr>va_payload := Some p'\<rparr> \<and> r = Inr x)"
  using assms by (auto simp: with_payload_def split: if_splits option.splits sum.splits)

text \<open>The laws of the primitives, with a key derivation that always succeeds with a key of the
  cipher's size.\<close>

definition primitives_ok :: "primitives \<Rightarrow> bool" where
  "primitives_ok P = (urandom_law P \<and> decrypt_law P \<and> (\<forall>b k. \<exists>key. argon2id P b k = Inr key \<and> length key = KEY_LEN))"

text \<open>What a session is expected to have on disk: the passphrase and the payload of the last save
  that succeeded.\<close>

definition next_pass :: "string \<Rightarrow> vault_op \<Rightarrow> string" where
  "next_pass pw op = (case op of ChangeOp new _ \<Rightarrow> new | _ \<Rightarrow> pw)"

definition saves :: "vault_op \<Rightarrow> bool" where
  "saves op = (case op of SaveOp \<Rightarrow> True | ChangeOp _ _ \<Rightarrow> True | _ \<Rightarrow> False)"

definition next_saved :: "string \<Rightarrow> vault_op \<Rightarrow> vault \<Rightarrow> unit kc \<Rightarrow> (string \<times> payload) option \<Rightarrow> (string \<times> payload) option" where
  "next_saved pw op v' r saved =
     (if saves op \<and> is_ok r then map_option (Pair (next_pass pw op)) (va_payload v') else saved)"

fun run_session ::
    "primitives \<Rightarrow> (call_env \<times> vault_op) list \<Rightarrow> string \<times> (string \<times> payload) option \<Rightarrow> host \<times> vault
      \<Rightarrow> (host \<times> vault) \<times> (string \<times> (string \<times> payload) option)" where
  "run_session P [] g s = (s, g)"
| "run_session P ((e, op) # ops) (pw, saved) s =
     (case vault_step P e op s of (s', r) \<Rightarrow>
        run_session P ops (next_pass pw op, next_saved pw op (snd s') r saved) s')"

definition unlocked_op :: "vault_op \<Rightarrow> bool" where
  "unlocked_op op = (case op of UnlockOp _ \<Rightarrow> False | LockOp \<Rightarrow> False | _ \<Rightarrow> True)"

lemma data_op_keeps:
  assumes "with_payload v f = (v', r)" "saveable P pw v"
    "\<And>p p' x. f p = Inr (p', x) \<Longrightarrow> payload_wf False p \<Longrightarrow> payload_wf False p'"
  shows "saveable P pw v' \<and> va_path v' = va_path v"
  using with_payload_cases [OF assms(1)] assms(2,3) by (fastforce simp: saveable_def)

lemma with_id_split: "with_id h v f = ((h', v'), r) \<longleftrightarrow> with_payload v f = (v', r) \<and> h' = h\<lparr>ho_draws := Suc (ho_draws h)\<rparr>"
  by (auto simp: with_id_def split: prod.splits)

lemmas data_op_defs = vault_add_collection_def vault_remove_collection_def vault_add_item_def
  vault_remove_item_def vault_update_item_def with_id_split

lemma data_step:
  assumes "vault_step P e op (h, v) = ((h', v'), r)" "op_wf op" "unlocked_op op" "\<not> saves op" "saveable P pw v"
  shows "saveable P pw v' \<and> va_path v' = va_path v \<and> ho_files h' = ho_files h"
proof (cases op)
  case (AddCollectionOp l as)
  with assms(1) obtain x where "with_payload v (\<lambda>p. Inr (add_collection (en_now e) (gen_id P (ho_draws h)) l as p)) = (v', x)"
    "ho_files h' = ho_files h"
    by (auto simp: data_op_defs split: prod.splits)
  with data_op_keeps [OF this(1) assms(5)] add_collection_wf show ?thesis
    by (metis fst_conv old.sum.inject(2))
next
  case (RemoveCollectionOp cid)
  with assms(1) have "with_payload v (\<lambda>p. Inr (remove_collection cid p, ())) = (v', r)" "h' = h"
    by (auto simp: data_op_defs split: prod.splits)
  with data_op_keeps [OF this(1) assms(5)] remove_collection_wf show ?thesis
    by auto
next
  case (AddItemOp ref l as s t)
  let ?f = "\<lambda>p. case resolve_collection ref p of None \<Rightarrow> Inl (UnknownCollection ref)
       | Some col \<Rightarrow> add_item (en_now e) (gen_id P (ho_draws h)) (co_id col) l as s t p"
  from AddItemOp assms(1) obtain x where x: "with_payload v ?f = (v', x)" "ho_files h' = ho_files h"
    by (auto simp: data_op_defs split: prod.splits)
  have "payload_wf False p'" if "?f p = Inr (p', y)" "payload_wf False p" for p p' y
    using that assms(2) AddItemOp by (auto split: option.splits dest: add_item_wf)
  with data_op_keeps [OF x(1) assms(5)] x(2) show ?thesis by blast
next
  case (RemoveItemOp ref i)
  let ?f = "\<lambda>p. Inr (case resolve_collection ref p of None \<Rightarrow> p | Some col \<Rightarrow> remove_item (en_now e) (co_id col) i p, ())"
  from RemoveItemOp assms(1) have x: "with_payload v ?f = (v', r)" "h' = h"
    by (auto simp: data_op_defs split: prod.splits)
  have "payload_wf False p'" if "?f p = Inr (p', y)" "payload_wf False p" for p p' y
    using that by (auto split: option.splits intro: remove_item_wf)
  with data_op_keeps [OF x(1) assms(5)] x(2) show ?thesis by blast
next
  case (UpdateItemOp ref i l s)
  let ?f = "\<lambda>p. case resolve_collection ref p of None \<Rightarrow> Inl (UnknownCollection ref)
       | Some col \<Rightarrow> update_item (en_now e) (co_id col) i l s p"
  from UpdateItemOp assms(1) obtain x where x: "with_payload v ?f = (v', x)" "h' = h"
    by (auto simp: data_op_defs split: prod.splits)
  have "payload_wf False p'" if "?f p = Inr (p', y)" "payload_wf False p" for p p' y
    using that by (auto split: option.splits dest: update_item_wf)
  with data_op_keeps [OF x(1) assms(5)] x(2) show ?thesis by blast
qed (use assms in \<open>simp_all add: unlocked_op_def saves_def\<close>)

text \<open>The disk agrees with the last save, and the open vault can be saved under the current
  passphrase.\<close>

definition saved_ok :: "primitives \<Rightarrow> files \<Rightarrow> string \<Rightarrow> (string \<times> payload) option \<Rightarrow> bool" where
  "saved_ok P fs path saved = (case saved of None \<Rightarrow> True | Some (pw, p) \<Rightarrow> opens_to P fs path pw p)"

lemma saved_ok_same: "fs' path = fs path \<Longrightarrow> saved_ok P fs path saved \<Longrightarrow> saved_ok P fs' path saved"
  by (cases saved) (auto simp: saved_ok_def opens_to_def)

definition session_inv :: "primitives \<Rightarrow> string \<Rightarrow> string \<times> (string \<times> payload) option \<Rightarrow> host \<times> vault \<Rightarrow> bool" where
  "session_inv P path g s =
     (va_path (snd s) = path \<and> saveable P (fst g) (snd s) \<and> saved_ok P (ho_files (fst s)) path (snd g))"

lemma save_step_inv:
  assumes "save P e h v = (h', r)" "primitives_ok P" "en_tmp e \<noteq> va_path v" "saveable P pw v"
    "saved_ok P (ho_files h) (va_path v) saved"
  shows "saved_ok P (ho_files h') (va_path v) (if is_ok r then map_option (Pair pw) (va_payload v) else saved)"
proof (cases r)
  case (Inl err)
  have "ho_files h' (va_path v) = ho_files h (va_path v)"
    using save_failed [of P e h v h' err] assms(1,3) Inl by simp
  from saved_ok_same [where fs' = "ho_files h'", OF this assms(5)] Inl show ?thesis by simp
next
  case (Inr u)
  obtain p where "va_payload v = Some p" "opens_to P (ho_files h') (va_path v) pw p"
    using save_opens [of P e h v h' pw] assms Inr by (auto simp: primitives_ok_def)
  with Inr show ?thesis by (simp add: saved_ok_def)
qed

lemma vault_step_inv:
  assumes "vault_step P e op s = (s', r)" "primitives_ok P" "call_ok path (e, op)" "unlocked_op op"
    "session_inv P path (pw, saved) s"
  shows "session_inv P path (next_pass pw op, next_saved pw op (snd s') r saved) s'"
proof -
  obtain h v h' v' where s: "s = (h, v)" "s' = (h', v')" by (cases s; cases s')
  have i: "va_path v = path" "saveable P pw v"
    "saved_ok P (ho_files h) (va_path v) saved"
    and c: "op_wf op" "en_tmp e \<noteq> va_path v"
    using assms(3,5) by (auto simp: session_inv_def call_ok_def s)
  show ?thesis
  proof (cases "saves op")
    case False
    have d: "saveable P pw v'" "va_path v' = va_path v" "ho_files h' = ho_files h"
      using data_step [OF assms(1) [unfolded s] c(1) assms(4) False i(2)] by simp_all
    have "next_pass pw op = pw" using False by (simp add: next_pass_def saves_def split: vault_op.splits)
    with d i False show ?thesis by (simp add: session_inv_def s next_saved_def)
  next
    case True
    then consider "op = SaveOp" | new params where "op = ChangeOp new params"
      by (auto simp: saves_def split: vault_op.splits)
    then show ?thesis
    proof cases
      case 1
      with assms(1) have "save P e h v = (h', r)" "v' = v" by (auto simp: s split: prod.splits)
      with save_step_inv [OF this(1) assms(2) c(2) i(2,3)] i 1 show ?thesis
        by (cases "is_ok r") (simp_all add: session_inv_def s next_saved_def next_pass_def saves_def)
    next
      case 2
      define k where "k = (case params of Some k \<Rightarrow> k | None \<Rightarrow> kdf_generate P (ho_draws h))"
      define h1 where "h1 = (case params of Some _ \<Rightarrow> h | None \<Rightarrow> h\<lparr>ho_draws := Suc (ho_draws h)\<rparr>)"
      obtain key where key: "derive_key P new k = Inr key"
        using assms(2) by (auto simp: primitives_ok_def derive_key_def)
      have "\<not> is_locked v" using i(2) by (auto simp: saveable_def is_locked_def)
      with assms(1) key 2 have v': "v' = v\<lparr>va_kdf := Some k, va_key := Some key\<rparr>" and sv: "save P e h1 v' = (h', r)"
        by (auto simp: s change_passphrase_def Let_def k_def h1_def split: prod.splits)
      have f: "ho_files h1 = ho_files h" by (simp add: h1_def split: option.splits)
      have sa: "saveable P new v'" using i(2) key by (auto simp: saveable_def v')
      have pt: "va_path v' = va_path v" by (simp add: v')
      show ?thesis
        using save_step_inv [OF sv assms(2) _ sa, of saved] c(2) i 2 sa
        by (cases "is_ok r") (simp_all add: session_inv_def s next_saved_def next_pass_def saves_def pt f)
    qed
  qed
qed

lemma run_session_inv:
  assumes "primitives_ok P" "list_all (call_ok path) ops" "list_all (\<lambda>(e, op). unlocked_op op) ops"
    "session_inv P path g s"
  shows "session_inv P path (snd (run_session P ops g s)) (fst (run_session P ops g s))"
  using assms
proof (induction ops arbitrary: g s)
  case (Cons eop ops)
  obtain e op pw saved where x: "eop = (e, op)" "g = (pw, saved)" by (cases eop; cases g)
  obtain s' r where st: "vault_step P e op s = (s', r)" by (cases "vault_step P e op s")
  have "session_inv P path (next_pass pw op, next_saved pw op (snd s') r saved) s'"
    using vault_step_inv [OF st] Cons.prems by (simp add: x)
  with Cons.IH Cons.prems st show ?case by (simp add: x)
qed simp

lemma create_inv:
  assumes "create P e path pw params h = (h', Inr v)" "primitives_ok P" "en_tmp e \<noteq> path"
  shows "session_inv P path (pw, map_option (Pair pw) (va_payload v)) (h', v)"
proof -
  let ?k = "case params of Some k \<Rightarrow> k | None \<Rightarrow> kdf_generate P (ho_draws h)"
  let ?h1 = "case params of Some _ \<Rightarrow> h | None \<Rightarrow> h\<lparr>ho_draws := Suc (ho_draws h)\<rparr>"
  define p where "p = new_default (en_now e) (gen_id P (ho_draws ?h1))"
  define h1 where "h1 = ?h1\<lparr>ho_draws := Suc (ho_draws ?h1)\<rparr>"
  obtain key where k: "derive_key P pw ?k = Inr key"
    using assms(2) by (auto simp: primitives_ok_def derive_key_def)
  have c: "derive_key P pw ?k = Inr key" "payload_wf False p"
      "v = \<lparr>va_path = path, va_key = Some key, va_payload = Some p, va_kdf = Some ?k\<rparr>"
      "save P e h1 v = (h', Inr ())"
    using assms(1) k new_default_wf
    by (auto simp: create_def Let_def h1_def p_def split: if_splits sum.splits prod.splits)
  then have sa: "saveable P pw v" by (simp add: saveable_def)
  obtain q where "va_payload v = Some q" "opens_to P (ho_files h') (va_path v) pw q"
    using save_opens [OF c(4) sa] assms(2,3) c(3) by (auto simp: primitives_ok_def)
  with sa c(3) show ?thesis by (simp add: session_inv_def saved_ok_def)
qed

section \<open>Properties\<close>


text \<open>Primitives that satisfy the laws.\<close>

definition plain_primitives :: primitives where
  "plain_primitives =
     \<lparr>argon2id = (\<lambda>b k. Inr (take KEY_LEN (b @ replicate KEY_LEN NUL))), encrypt = (\<lambda>k n p a. p),
      decrypt = (\<lambda>k n c a. Some c), urandom = (\<lambda>i n. replicate n (char_of i))\<rparr>"

definition calm :: call_env where
  "calm = \<lparr>en_now = 0, en_fault = (\<lambda>_. False), en_tmp = ''/v/.tmp'', en_partial = [], en_readable = True\<rparr>"

definition failing :: call_env where
  "failing = calm\<lparr>en_fault := (\<lambda>op. op = Replace)\<rparr>"

lemma plain_primitives_ok: "primitives_ok plain_primitives"
  by (auto simp: primitives_ok_def plain_primitives_def urandom_law_def decrypt_law_def)

lemma save_calm:
  assumes "primitives_ok P" "saveable P pw v" "en_fault e = (\<lambda>_. False)"
  shows "is_ok (snd (save P e h v))"
proof -
  from assms(2) obtain k key p where v: "va_kdf v = Some k" "va_key v = Some key" "va_payload v = Some p"
    "derive_key P pw k = Inr key" by (auto simp: saveable_def)
  with assms(1) have "length key = KEY_LEN" by (auto simp: primitives_ok_def derive_key_def) (metis old.sum.inject(2))
  with v assms(3) show ?thesis
    by (simp add: save_def seal_def Let_def atomic_write_def replace_file_def)
qed

lemma create_calm:
  assumes "primitives_ok P" "ho_files h path = None" "en_fault e = (\<lambda>_. False)"
  shows "\<exists>h' v. create P e path pw params h = (h', Inr v) \<and> va_payload v \<noteq> None \<and> va_key v \<noteq> None"
proof -
  let ?k = "case params of Some k \<Rightarrow> k | None \<Rightarrow> kdf_generate P (ho_draws h)"
  let ?h1 = "case params of Some _ \<Rightarrow> h | None \<Rightarrow> h\<lparr>ho_draws := Suc (ho_draws h)\<rparr>"
  obtain key where k: "derive_key P pw ?k = Inr key"
    using assms(1) by (auto simp: primitives_ok_def derive_key_def)
  let ?v = "\<lparr>va_path = path, va_key = Some key,
    va_payload = Some (new_default (en_now e) (gen_id P (ho_draws ?h1))), va_kdf = Some ?k\<rparr>"
  have "saveable P pw ?v" using k new_default_wf by (auto simp: saveable_def)
  from save_calm [OF assms(1) this assms(3)] obtain h2 u where
    "save P e (?h1\<lparr>ho_draws := Suc (ho_draws ?h1)\<rparr>) ?v = (h2, Inr u)"
    by (metis is_ok.simps(1) old.sum.exhaust prod.exhaust_sel)
  then have "create P e path pw params h = (h2, Inr ?v)"
    using assms(2) k by (simp add: create_def vault_exists_def Vault_def Let_def)
  then show ?thesis by auto
qed




section \<open>The lock\<close>

fun run_ops :: "primitives \<Rightarrow> (call_env \<times> vault_op) list \<Rightarrow> host \<times> vault \<Rightarrow> host \<times> vault" where
  "run_ops P [] s = s"
| "run_ops P ((e, op) # ops) s = run_ops P ops (fst (vault_step P e op s))"

definition lock_inv :: "vault \<Rightarrow> bool" where
  "lock_inv v = (va_key v = None \<longleftrightarrow> va_payload v = None)"

lemma with_payload_lock_inv: "with_payload v f = (v', r) \<Longrightarrow> lock_inv v \<Longrightarrow> lock_inv v'"
  by (drule with_payload_cases) (auto simp: lock_inv_def)

lemma vault_step_lock_inv:
  assumes "vault_step P e op (h, v) = ((h', v'), r)" "lock_inv v"
  shows "lock_inv v'"
proof (cases op)
  case (UnlockOp pw)
  with assms show ?thesis
    by (auto simp: unlock_def lock_inv_def split: if_splits sum.splits prod.splits)
next
  case (ChangeOp pw k)
  with assms show ?thesis
    by (auto simp: change_passphrase_def lock_inv_def Let_def is_locked_def split: if_splits sum.splits prod.splits)
next
  case LockOp
  with assms show ?thesis by (auto simp: lock_def lock_inv_def)
next
  case SaveOp
  with assms show ?thesis by (auto split: prod.splits)
qed (use assms with_payload_lock_inv in \<open>fastforce simp: data_op_defs split: prod.splits\<close>)+

lemma run_ops_lock_inv: "lock_inv (snd s) \<Longrightarrow> lock_inv (snd (run_ops P ops s))"
proof (induction P ops s rule: run_ops.induct)
  case (2 P e op ops s)
  then show ?case
    using vault_step_lock_inv [of P e op "fst s" "snd s"] by (cases "vault_step P e op s") auto
qed simp

lemma locked_step:
  assumes "is_locked v" "unlocked_op op" "vault_step P e op (h, v) = ((h', v'), r)"
  shows "r = Inl VaultLocked \<and> v' = v \<and> ho_files h' = ho_files h"
  using assms
  by (cases op) (auto simp: unlocked_op_def save_def is_locked_def change_passphrase_def data_op_defs no_value_def
      with_payload_def split: prod.splits)



section \<open>A passphrase change that fails half way\<close>

text \<open>
  \<open>change_passphrase\<close> stores the new parameters before it derives the key. When the
  derivation raises (no memory, refused parameters) the vault stays open with the old key
  under the new parameters, and the next save writes a file that no passphrase opens.
\<close>

definition wrong_key_law :: "primitives \<Rightarrow> bool" where
  "wrong_key_law P = (\<forall>k k' n p a. k' \<noteq> k \<longrightarrow> decrypt P k' n (encrypt P k n p a) a = None)"

lemma failed_change_state:
  assumes "va_key v = Some key" "derive_key P pw k = Inl err"
  shows "change_passphrase P e pw (Some k) h v = ((h, v\<lparr>va_kdf := Some k\<rparr>), Inl err)"
  using assms by (simp add: change_passphrase_def is_locked_def Let_def)

lemma unseal_other_key:
  assumes "seal P d key plaintext aad = Inr blob" "urandom_law P" "wrong_key_law P" "unseal P key' blob aad = Inr x"
  shows "key' = key"
  using assms
  by (auto simp: seal_def unseal_def urandom_law_def wrong_key_law_def Let_def split: if_splits option.splits)
    (metis option.distinct(1))

lemma failed_change_orphans_file:
  assumes "va_key v = Some key" "va_payload v = Some p" "derive_key P pw k = Inl err"
    "\<And>pw'. derive_key P pw' k \<noteq> Inr key" "wrong_key_law P" "urandom_law P"
    "change_passphrase P e pw (Some k) h v = ((h1, v1), r)" "save P e h1 v1 = (h2, Inr ())" "en_tmp e \<noteq> va_path v"
  shows "\<not> is_ok (snd (unlock P e' pw' h2 (Vault (va_path v))))"
proof
  assume ok: "is_ok (snd (unlock P e' pw' h2 (Vault (va_path v))))"
  have v1: "v1 = v\<lparr>va_kdf := Some k\<rparr>" "h1 = h"
    using failed_change_state [OF assms(1,3), of e h] assms(7) by simp_all
  from assms(8) obtain blob where b:
      "seal P (ho_draws h) key (dumps (payload_to_dict p)) (aad_of (header_of k)) = Inr blob"
      "ho_files h2 (va_path v) = Some (envelope_text k blob, MODE_600)"
    using assms(1,2,9)
    by (auto simp: v1 save_def atomic_write_def replace_file_def Let_def split: sum.splits if_splits)
  have "en_readable e'" using ok by (auto simp: unlock_def read_envelope_def split: if_splits)
  with b(2) have r: "read_envelope e' h2 (Vault (va_path v)) = Inr (header_of k, blob)"
    by (intro read_saved_envelope) (simp_all add: Vault_def)
  from ok obtain key' x where u: "derive_key P pw' k = Inr key'" "unseal P key' blob (aad_of (header_of k)) = Inr x"
    by (auto simp: unlock_def r json_item_def header_blob kdf_json res_bind_Inr split: if_splits sum.splits)
  from unseal_other_key [OF b(1) assms(6,5) u(2)] u(1) assms(4) show False by simp
qed

end
