(* ===== verification/Keyring.thy ===== *)
theory Keyring
  imports Vault
begin

text \<open>
  The pure layers of the secret service daemon: object paths
  (\<open>gest/keyringd/paths.py\<close>, \<open>gest/keyringd/contract.py\<close>), the key agreement
  (\<open>gest/keyringd/dh.py\<close>) and the transport sessions (\<open>gest/keyringd/session.py\<close>).
  HMAC-SHA256 and the AES-CBC transport of the \<open>cryptography\<close> package are parameters.
\<close>

section \<open>Names of the contract\<close>

definition NO_PROMPT :: string where "NO_PROMPT = ''/''"
definition COLLECTION_BASE :: string where "COLLECTION_BASE = ''/org/freedesktop/secrets/collection''"
definition SESSION_BASE :: string where "SESSION_BASE = ''/org/freedesktop/secrets/session''"
definition ALIAS_BASE :: string where "ALIAS_BASE = ''/org/freedesktop/secrets/aliases''"
definition ALGO_PLAIN :: string where "ALGO_PLAIN = ''plain''"
definition ALGO_DH :: string where "ALGO_DH = ''dh-ietf1024-sha256-aes128-cbc-pkcs7''"

section \<open>Object paths\<close>

definition safe_char :: "char \<Rightarrow> bool" where
  "safe_char c = (alnum_az c \<or> c = CHR ''_'')"

definition safe :: "string \<Rightarrow> bool" where
  "safe element = (element \<noteq> [] \<and> list_all safe_char element)"

definition collection_path :: "string \<Rightarrow> string kc" where
  "collection_path cid =
     (if safe cid then Inr (COLLECTION_BASE @ ''/'' @ cid) else Inl (PyError (ValueError ''unsafe collection id'')))"

definition item_path :: "string \<Rightarrow> string \<Rightarrow> string kc" where
  "item_path cid iid =
     (if safe cid \<and> safe iid then Inr (COLLECTION_BASE @ ''/'' @ cid @ ''/'' @ iid)
      else Inl (PyError (ValueError ''unsafe id'')))"

definition session_path :: "string \<Rightarrow> string kc" where
  "session_path sid =
     (if safe sid then Inr (SESSION_BASE @ ''/'' @ sid) else Inl (PyError (ValueError ''unsafe session id'')))"

definition alias_path :: "string \<Rightarrow> string kc" where
  "alias_path a = (if safe a then Inr (ALIAS_BASE @ ''/'' @ a) else Inl (PyError (ValueError ''unsafe alias'')))"

definition path_rest :: "string \<Rightarrow> string option" where
  "path_rest path =
     (let prefix = COLLECTION_BASE @ ''/''
      in if startswith path prefix then Some (drop (length prefix) path) else None)"

definition parse_collection_path :: "string \<Rightarrow> string option" where
  "parse_collection_path path =
     (case path_rest path of None \<Rightarrow> None
      | Some rest \<Rightarrow> if CHR ''/'' \<notin> set rest \<and> safe rest then Some rest else None)"

definition parse_item_path :: "string \<Rightarrow> (string \<times> string) option" where
  "parse_item_path path =
     (case path_rest path of None \<Rightarrow> None
      | Some rest \<Rightarrow>
          (case split_char (CHR ''/'') rest of
             [c, i] \<Rightarrow> if safe c \<and> safe i then Some (c, i) else None
           | _ \<Rightarrow> None))"

section \<open>Key agreement\<close>

definition PRIME :: nat where
  "PRIME = 0xFFFFFFFFFFFFFFFFC90FDAA22168C234C4C6628B80DC1CD129024E088A67CC74020BBEA63B139B22514A08798E3404DDEF9519B3CD3A431B302B0A6DF25F14374FE1356D6D51C245E485B576625E7EC6F44C42E9A637ED6B0BFF5CB6F406B7EDEE386BFB5A899FA5AE9F24117C4B1FE649286651ECE65381FFFFFFFFFFFFFFFF"

definition GENERATOR :: nat where "GENERATOR = 2"

definition KEY_BYTES :: nat where "KEY_BYTES = 128"

fun to_bytes :: "nat \<Rightarrow> nat \<Rightarrow> bytes" where
  "to_bytes 0 n = []"
| "to_bytes (Suc w) n = to_bytes w (n div 256) @ [char_of (n mod 256)]"

definition from_bytes :: "bytes \<Rightarrow> nat" where
  "from_bytes bs = foldl (\<lambda>a c. 256 * a + ordc c) 0 bs"

text \<open>\<open>draw\<close> is what \<open>secrets.randbelow(PRIME - 3)\<close> returned.\<close>

definition generate_keypair :: "nat \<Rightarrow> nat \<times> bytes" where
  "generate_keypair draw =
     (let private = draw + 2 in (private, to_bytes KEY_BYTES (GENERATOR ^ private mod PRIME)))"

definition shared_secret :: "nat \<Rightarrow> bytes \<Rightarrow> bytes" where
  "shared_secret private peer_public = to_bytes KEY_BYTES (from_bytes peer_public ^ private mod PRIME)"

text \<open>The loop of HKDF-Expand: \<open>hmac\<close> is HMAC-SHA256, whose digest has 32 bytes; the fuel is the
  length asked for, as each round adds at least a byte.\<close>

fun hkdf_expand :: "nat \<Rightarrow> (bytes \<Rightarrow> bytes \<Rightarrow> bytes) \<Rightarrow> bytes \<Rightarrow> bytes \<Rightarrow> nat \<Rightarrow> bytes \<Rightarrow> bytes \<Rightarrow> nat \<Rightarrow> bytes option" where
  "hkdf_expand fuel hmac prk info len okm block counter =
     (if len \<le> length okm then Some (take len okm)
      else case fuel of 0 \<Rightarrow> None
        | Suc n \<Rightarrow>
            (let block' = hmac prk (block @ info @ [char_of counter])
             in hkdf_expand n hmac prk info len (okm @ block') block' (Suc counter)))"

definition hkdf_sha256 :: "(bytes \<Rightarrow> bytes \<Rightarrow> bytes) \<Rightarrow> bytes \<Rightarrow> bytes \<Rightarrow> nat \<Rightarrow> bytes option" where
  "hkdf_sha256 hmac ikm info len =
     (let salt = replicate 32 NUL; prk = hmac salt ikm in hkdf_expand len hmac prk info len [] [] 1)"

definition derive_aes_key :: "(bytes \<Rightarrow> bytes \<Rightarrow> bytes) \<Rightarrow> bytes \<Rightarrow> bytes option" where
  "derive_aes_key hmac shared = hkdf_sha256 hmac shared [] 16"

section \<open>Sessions\<close>

text \<open>The AES-128-CBC transport with PKCS7 padding; decryption may raise ValueError (None).\<close>

record transport =
  tr_hmac :: "bytes \<Rightarrow> bytes \<Rightarrow> bytes"
  tr_encrypt :: "bytes \<Rightarrow> bytes \<Rightarrow> bytes \<Rightarrow> bytes"
  tr_decrypt :: "bytes \<Rightarrow> bytes \<Rightarrow> bytes \<Rightarrow> bytes option"

definition transport_law :: "transport \<Rightarrow> bool" where
  "transport_law T = (\<forall>k iv s. tr_decrypt T k iv (tr_encrypt T k iv s) = Some s)"

datatype session = PlainSession string | DhSession string bytes

text \<open>\<open>iv\<close> is the \<open>os.urandom(16)\<close> of the call.\<close>

definition encode_secret :: "transport \<Rightarrow> bytes \<Rightarrow> session \<Rightarrow> bytes \<Rightarrow> bytes \<times> bytes" where
  "encode_secret T iv s secret =
     (case s of PlainSession _ \<Rightarrow> ([], secret) | DhSession _ key \<Rightarrow> (iv, tr_encrypt T key iv secret))"

definition decode_secret :: "transport \<Rightarrow> session \<Rightarrow> bytes \<Rightarrow> bytes \<Rightarrow> bytes kc" where
  "decode_secret T s parameters value =
     (case s of PlainSession _ \<Rightarrow> Inr value
      | DhSession _ key \<Rightarrow>
          (case tr_decrypt T key parameters value of
             None \<Rightarrow> Inl (PyError (ValueError ''padding'')) | Some b \<Rightarrow> Inr b))"

type_synonym registry = "(string \<times> session) list"

definition open_plain :: "string \<Rightarrow> registry \<Rightarrow> (registry \<times> string) kc" where
  "open_plain sid reg = res_bind (session_path sid) (\<lambda>path. Inr (dict_set path (PlainSession sid) reg, path))"

definition open_dh :: "transport \<Rightarrow> nat \<Rightarrow> string \<Rightarrow> bytes \<Rightarrow> registry \<Rightarrow> (registry \<times> string \<times> bytes) kc" where
  "open_dh T draw sid client_public reg =
     (case generate_keypair draw of (private, server_public) \<Rightarrow>
        (case derive_aes_key (tr_hmac T) (shared_secret private client_public) of
           None \<Rightarrow> Inl (PyError (RuntimeError ''hkdf''))
         | Some key \<Rightarrow>
             res_bind (session_path sid) (\<lambda>path. Inr (dict_set path (DhSession sid key) reg, path, server_public))))"

definition registry_get :: "string \<Rightarrow> registry \<Rightarrow> session option" where
  "registry_get path reg = map_of reg path"

definition registry_close :: "string \<Rightarrow> registry \<Rightarrow> registry \<times> bool" where
  "registry_close path reg = (filter (\<lambda>kv. fst kv \<noteq> path) reg, map_of reg path \<noteq> None)"

section \<open>Facts\<close>

lemma safe_no_slash: "safe s \<Longrightarrow> CHR ''/'' \<notin> set s"
  by (auto simp: safe_def safe_char_def list_all_iff char_class_defs)

lemma startswith_split: "startswith s p \<Longrightarrow> s = p @ drop (length p) s"
  by (auto simp: startswith_def prefix_def)

lemma path_rest_prefix: "path_rest (COLLECTION_BASE @ ''/'' @ r) = Some r"
  by (simp add: path_rest_def startswith_def Let_def)

lemma path_rest_Some: "path_rest path = Some r \<Longrightarrow> path = COLLECTION_BASE @ ''/'' @ r"
  using startswith_split [of path "COLLECTION_BASE @ ''/''"]
  by (simp add: path_rest_def Let_def split: if_splits)

lemma split_slash: "CHR ''/'' \<notin> set c \<Longrightarrow> CHR ''/'' \<notin> set i \<Longrightarrow> split_char (CHR ''/'') (c @ CHR ''/'' # i) = [c, i]"
  using split_char_append_sep [of "CHR ''/''" c i] by (simp add: split_char_free)

lemma to_bytes_length: "length (to_bytes w n) = w"
  by (induction w arbitrary: n) simp_all

lemma from_bytes_snoc: "from_bytes (bs @ [c]) = 256 * from_bytes bs + ordc c"
  by (simp add: from_bytes_def)

lemma from_to_bytes: "n < 256 ^ w \<Longrightarrow> from_bytes (to_bytes w n) = n"
proof (induction w arbitrary: n)
  case (Suc w)
  then have "n div 256 < 256 ^ w" by (simp add: less_mult_imp_div_less)
  with Suc.IH show ?case by (simp add: from_bytes_snoc) (simp add: ordc_def)
qed (simp add: from_bytes_def)

lemma PRIME_bounds: "0 < PRIME" "PRIME < 256 ^ KEY_BYTES"
  by (simp_all add: PRIME_def KEY_BYTES_def)

lemma public_value: "from_bytes (snd (generate_keypair d)) = GENERATOR ^ (d + 2) mod PRIME"
proof -
  have "GENERATOR ^ (d + 2) mod PRIME < 256 ^ KEY_BYTES"
    using PRIME_bounds by (meson mod_less_divisor order_less_trans)
  then show ?thesis by (simp add: generate_keypair_def Let_def from_to_bytes)
qed

lemma agreement:
  "shared_secret (fst (generate_keypair a)) (snd (generate_keypair b)) =
   shared_secret (fst (generate_keypair b)) (snd (generate_keypair a))"
proof -
  have "(GENERATOR ^ (b + 2) mod PRIME) ^ (a + 2) mod PRIME = (GENERATOR ^ (a + 2) mod PRIME) ^ (b + 2) mod PRIME"
    by (simp only: power_mod flip: power_mult) (simp only: mult.commute)
  then show ?thesis
    by (simp only: shared_secret_def public_value) (simp add: generate_keypair_def Let_def)
qed

lemma hkdf_length:
  assumes "\<And>k m. 0 < length (hmac k m)" "len \<le> length okm + fuel"
  shows "\<exists>r. hkdf_expand fuel hmac prk info len okm block counter = Some r \<and> length r = len"
  using assms(2)
proof (induction fuel arbitrary: okm block counter)
  case (Suc n)
  let ?b = "hmac prk (block @ info @ [char_of counter])"
  have "1 \<le> length ?b" using assms(1) [of prk "block @ info @ [char_of counter]"] by linarith
  with Suc.prems have "len \<le> length (okm @ ?b) + n" by (simp del: length_0_conv)
  from Suc.IH [OF this, of ?b "Suc counter"] show ?case by (simp add: Let_def)
qed simp

lemma derive_aes_key_16:
  assumes "\<And>k m. length (hmac k m) = 32"
  shows "\<exists>key. derive_aes_key hmac shared = Some key \<and> length key = 16"
  unfolding derive_aes_key_def hkdf_sha256_def Let_def
  by (rule hkdf_length) (simp_all add: assms)

text \<open>The session both ends of an agreement hold carries a secret unchanged.\<close>

lemma decode_encode:
  assumes "transport_law T"
  shows "case encode_secret T iv s secret of (p, v) \<Rightarrow> decode_secret T s p v = Inr secret"
  using assms by (cases s) (auto simp: encode_secret_def decode_secret_def transport_law_def)

end
