(* ===== verification/KeyringStore.thy ===== *)
theory KeyringStore
  imports Keyring
begin

text \<open>
  The adapter from secret service operations to the vault (\<open>gest/keyringd/store.py\<close>). Every
  function works on a vault and what surrounds it; each change is followed by a save. An
  exception of the vault passes through.
\<close>

type_synonym store = "host \<times> vault"

text \<open>A read, and a change that is saved.\<close>

definition reading :: "store \<Rightarrow> (payload \<Rightarrow> 'a kc) \<Rightarrow> 'a kc" where
  "reading s f = snd (with_payload (snd s) (\<lambda>p. res_bind (f p) (\<lambda>x. Inr (p, x))))"

definition then_save :: "primitives \<Rightarrow> call_env \<Rightarrow> store \<Rightarrow> 'a \<Rightarrow> store \<times> 'a kc" where
  "then_save P e s x =
     (case save P e (fst s) (snd s) of (h, Inl err) \<Rightarrow> ((h, snd s), Inl err) | (h, Inr _) \<Rightarrow> ((h, snd s), Inr x))"

section \<open>Collections\<close>

definition collection_paths :: "store \<Rightarrow> string list kc" where
  "collection_paths s = reading s (\<lambda>p. res_map (\<lambda>c. collection_path (co_id c)) (map snd (pl_collections p)))"

definition collection_item_paths :: "string \<Rightarrow> store \<Rightarrow> string list kc" where
  "collection_item_paths cid s =
     reading s (\<lambda>p. case resolve_collection cid p of None \<Rightarrow> Inr []
       | Some col \<Rightarrow> res_map (\<lambda>kv. item_path cid (fst kv)) (co_items col))"

definition collection_label :: "string \<Rightarrow> store \<Rightarrow> string option kc" where
  "collection_label cid s = reading s (\<lambda>p. Inr (map_option co_label (resolve_collection cid p)))"

definition collection_times :: "string \<Rightarrow> store \<Rightarrow> (int \<times> int) option kc" where
  "collection_times cid s = reading s (\<lambda>p. Inr (map_option (\<lambda>c. (co_created c, co_modified c)) (resolve_collection cid p)))"

definition create_collection :: "primitives \<Rightarrow> call_env \<Rightarrow> string \<Rightarrow> string \<Rightarrow> store \<Rightarrow> store \<times> string kc" where
  "create_collection P e lbl a s =
     (case vault_add_collection P e lbl (if a = [] then [] else [a]) (fst s) (snd s) of
        (s1, Inl err) \<Rightarrow> (s1, Inl err)
      | (s1, Inr col) \<Rightarrow> then_save P e s1 (co_id col))"

definition resolve_alias :: "string \<Rightarrow> store \<Rightarrow> string option kc" where
  "resolve_alias a s = reading s (\<lambda>p. Inr (map_option co_id (resolve_collection a p)))"

text \<open>The entry of the payload that \<open>resolve_collection\<close> finds: the alias is appended to the
  collection object itself.\<close>

definition resolve_entry :: "string \<Rightarrow> payload \<Rightarrow> (string \<times> collection) option" where
  "resolve_entry ref p =
     (case get_collection ref p of Some c \<Rightarrow> Some (ref, c)
      | None \<Rightarrow> find (\<lambda>kv. ref \<in> set (co_aliases (snd kv))) (pl_collections p))"

definition set_alias :: "primitives \<Rightarrow> call_env \<Rightarrow> string \<Rightarrow> string \<Rightarrow> store \<Rightarrow> store \<times> bool kc" where
  "set_alias P e name cid s =
     (case with_payload (snd s) (\<lambda>p. Inr (p, resolve_entry cid p)) of
        (v, Inl err) \<Rightarrow> (s, Inl err)
      | (v, Inr None) \<Rightarrow> (s, Inr False)
      | (v, Inr (Some (k, col))) \<Rightarrow>
          (if name \<in> set (co_aliases col) then (s, Inr True)
           else then_save P e
             (fst s, fst (with_payload v (\<lambda>p. Inr (put_collection k (col\<lparr>co_aliases := co_aliases col @ [name]\<rparr>) p, ())))) True))"

section \<open>Items\<close>

definition search_item_paths :: "(string \<times> string) list \<Rightarrow> store \<Rightarrow> string list kc" where
  "search_item_paths attrs s =
     reading s (\<lambda>p. res_map (\<lambda>(cid, it). item_path cid (it_id it)) (search attrs p))"

definition collection_search_item_paths :: "string \<Rightarrow> (string \<times> string) list \<Rightarrow> store \<Rightarrow> string list kc" where
  "collection_search_item_paths cid attrs s =
     reading s (\<lambda>p. case resolve_collection cid p of None \<Rightarrow> Inr []
       | Some col \<Rightarrow> res_map (\<lambda>it. item_path cid (it_id it)) (filter (item_matches attrs) (map snd (co_items col))))"

definition item_secret :: "string \<Rightarrow> string \<Rightarrow> store \<Rightarrow> bytes option kc" where
  "item_secret cid iid s = res_bind (snd (vault_get_item cid iid (snd s))) (\<lambda>i. Inr (map_option it_secret i))"

definition item_attributes :: "string \<Rightarrow> string \<Rightarrow> store \<Rightarrow> (string \<times> string) list option kc" where
  "item_attributes cid iid s = res_bind (snd (vault_get_item cid iid (snd s))) (\<lambda>i. Inr (map_option it_attributes i))"

definition item_label :: "string \<Rightarrow> string \<Rightarrow> store \<Rightarrow> string option kc" where
  "item_label cid iid s = res_bind (snd (vault_get_item cid iid (snd s))) (\<lambda>i. Inr (map_option it_label i))"

definition item_times :: "string \<Rightarrow> string \<Rightarrow> store \<Rightarrow> (int \<times> int) option kc" where
  "item_times cid iid s =
     res_bind (snd (vault_get_item cid iid (snd s))) (\<lambda>i. Inr (map_option (\<lambda>it. (it_created it, it_modified it)) i))"

definition set_item_secret :: "primitives \<Rightarrow> call_env \<Rightarrow> string \<Rightarrow> string \<Rightarrow> bytes \<Rightarrow> store \<Rightarrow> store \<times> bool kc" where
  "set_item_secret P e cid iid secret s =
     (case vault_get_item cid iid (snd s) of
        (_, Inl err) \<Rightarrow> (s, Inl err)
      | (_, Inr None) \<Rightarrow> (s, Inr False)
      | (_, Inr (Some _)) \<Rightarrow>
          (case vault_update_item e cid iid None (Some secret) (snd s) of
             (v, Inl err) \<Rightarrow> ((fst s, v), Inl err)
           | (v, Inr _) \<Rightarrow> then_save P e (fst s, v) True))"

definition delete_item :: "primitives \<Rightarrow> call_env \<Rightarrow> string \<Rightarrow> string \<Rightarrow> store \<Rightarrow> store \<times> bool kc" where
  "delete_item P e cid iid s =
     (case vault_get_item cid iid (snd s) of
        (_, Inl err) \<Rightarrow> (s, Inl err)
      | (_, Inr None) \<Rightarrow> (s, Inr False)
      | (_, Inr (Some _)) \<Rightarrow> then_save P e (fst s, fst (vault_remove_item e cid iid (snd s))) True)"

text \<open>Attribute dicts are equal when they agree as maps.\<close>

definition same_dict :: "(string \<times> string) list \<Rightarrow> (string \<times> string) list \<Rightarrow> bool" where
  "same_dict a b = (length a = length b \<and> list_all (\<lambda>(k, v). map_of b k = Some v) a)"

definition replaced_item :: "(string \<times> string) list \<Rightarrow> collection \<Rightarrow> string option" where
  "replaced_item attrs col =
     map_option fst (find (\<lambda>kv. same_dict (it_attributes (snd kv)) attrs) (co_items col))"

definition create_item ::
    "primitives \<Rightarrow> call_env \<Rightarrow> string \<Rightarrow> string \<Rightarrow> (string \<times> string) list \<Rightarrow> bytes \<Rightarrow> bool \<Rightarrow> store
      \<Rightarrow> store \<times> string option kc" where
  "create_item P e cid lbl attrs secret replace s =
     (case vault_resolve_collection cid (snd s) of
        (_, Inl err) \<Rightarrow> (s, Inl err)
      | (_, Inr None) \<Rightarrow> (s, Inr None)
      | (_, Inr (Some col)) \<Rightarrow>
          (case (if replace then replaced_item attrs col else None) of
             Some iid \<Rightarrow>
               (case vault_update_item e cid iid (Some lbl) (Some secret) (snd s) of
                  (v, Inl err) \<Rightarrow> ((fst s, v), Inl err)
                | (v, Inr _) \<Rightarrow> then_save P e (fst s, v) (Some iid))
           | None \<Rightarrow>
               (case vault_add_item P e cid lbl attrs secret ''text/plain'' (fst s) (snd s) of
                  (s1, Inl err) \<Rightarrow> (s1, Inl err)
                | (s1, Inr it) \<Rightarrow> then_save P e s1 (Some (it_id it)))))"

section \<open>Memory and disk agree\<close>

text \<open>
  The store is synced when the vault is open and its file opens, with the passphrase the
  vault was opened with, to the payload in memory.
\<close>

definition synced :: "primitives \<Rightarrow> string \<Rightarrow> store \<Rightarrow> bool" where
  "synced P pw s =
     (saveable P pw (snd s) \<and>
      (\<exists>p. va_payload (snd s) = Some p \<and> opens_to P (ho_files (fst s)) (va_path (snd s)) pw p))"

text \<open>A call without faults: the writes succeed, and the temporary file is not the vault.\<close>

definition quiet :: "call_env \<Rightarrow> store \<Rightarrow> bool" where
  "quiet e s = (en_fault e = (\<lambda>_. False) \<and> en_tmp e \<noteq> va_path (snd s))"

lemma then_save_synced:
  assumes "primitives_ok P" "saveable P pw (snd s)" "quiet e s"
  shows "\<exists>h. then_save P e s x = ((h, snd s), Inr x) \<and> synced P pw (h, snd s)"
proof -
  have "is_ok (snd (save P e (fst s) (snd s)))"
    using save_calm [OF assms(1,2)] assms(3) by (simp add: quiet_def)
  then obtain h where h: "save P e (fst s) (snd s) = (h, Inr ())"
    by (cases "save P e (fst s) (snd s)") (auto elim: is_ok.elims)
  obtain p where "va_payload (snd s) = Some p" "opens_to P (ho_files h) (va_path (snd s)) pw p"
    using save_opens [OF h assms(2)] assms(1,3) by (auto simp: primitives_ok_def quiet_def)
  with assms(2) h show ?thesis by (auto simp: then_save_def synced_def)
qed

lemma synced_same:
  "synced P pw (h, v) \<Longrightarrow> ho_files h' = ho_files h \<Longrightarrow> synced P pw (h', v)"
  by (simp add: synced_def)

section \<open>Every change is saved\<close>

text \<open>Synced, at a given path; a call that meets no fault.\<close>

definition good :: "primitives \<Rightarrow> string \<Rightarrow> string \<Rightarrow> store \<Rightarrow> bool" where
  "good P pw path s = (synced P pw s \<and> va_path (snd s) = path)"

definition calm_call :: "string \<Rightarrow> call_env \<Rightarrow> bool" where
  "calm_call path e = (en_fault e = (\<lambda>_. False) \<and> en_tmp e \<noteq> path)"

lemma good_draws: "good P pw path (h, v) \<Longrightarrow> ho_files h' = ho_files h \<Longrightarrow> good P pw path (h', v)"
  using synced_same [of P pw h v h'] by (simp add: good_def)

lemma change_saveable:
  assumes "good P pw path s" "with_payload (snd s) f = (v', r)"
    "\<And>p p' x. f p = Inr (p', x) \<Longrightarrow> payload_wf False p \<Longrightarrow> payload_wf False p'"
  shows "(\<exists>err. r = Inl err) \<and> v' = snd s \<or> (\<exists>x. r = Inr x) \<and> saveable P pw v' \<and> va_path v' = path"
  using with_payload_cases [OF assms(2)] data_op_keeps [OF assms(2) _ assms(3), where pw = pw and P = P] assms(1)
  by (auto simp: good_def synced_def)

lemma saved_good:
  assumes "primitives_ok P" "saveable P pw (snd s)" "va_path (snd s) = path" "calm_call path e"
  shows "\<exists>h. then_save P e s x = ((h, snd s), Inr x) \<and> good P pw path (h, snd s)"
  using then_save_synced [of P pw s e x] assms by (auto simp: quiet_def calm_call_def good_def)

lemma create_collection_good:
  assumes "primitives_ok P" "calm_call path e" "good P pw path s"
  shows "good P pw path (fst (create_collection P e lbl a s))"
proof -
  let ?as = "if a = [] then [] else [a]"
  let ?f = "\<lambda>p. Inr (add_collection (en_now e) (gen_id P (ho_draws (fst s))) lbl ?as p) :: (payload \<times> collection) kc"
  obtain v' r where w: "with_payload (snd s) ?f = (v', r)" by (cases "with_payload (snd s) ?f")
  let ?h = "(fst s)\<lparr>ho_draws := Suc (ho_draws (fst s))\<rparr>"
  have a: "vault_add_collection P e lbl ?as (fst s) (snd s) = ((?h, v'), r)"
    using w by (simp add: vault_add_collection_def with_id_def)
  have "(\<exists>err. r = Inl err) \<and> v' = snd s \<or> (\<exists>x. r = Inr x) \<and> saveable P pw v' \<and> va_path v' = path"
  proof (rule change_saveable [OF assms(3) w])
    fix p p' x
    assume "?f p = Inr (p', x)" "payload_wf False p"
    then show "payload_wf False p'"
      using add_collection_wf [of False p "en_now e" "gen_id P (ho_draws (fst s))" lbl ?as] by auto
  qed
  then consider err where "r = Inl err" "v' = snd s"
    | x where "r = Inr x" "saveable P pw v'" "va_path v' = path" by blast
  then show ?thesis
  proof cases
    case 1
    then show ?thesis
      using good_draws [of P pw path "fst s" "snd s" ?h] assms(3) by (simp add: create_collection_def a)
  next
    case (2 x)
    then show ?thesis
      using saved_good [of P pw "(?h, v')" path e "co_id x"] assms by (auto simp: create_collection_def a)
  qed
qed

lemma update_item_good:
  assumes "good P pw path (h, v)" "vault_update_item e cid iid l sec v = (v', r)"
  shows "(\<exists>err. r = Inl err) \<and> v' = v \<or> (\<exists>x. r = Inr x) \<and> saveable P pw v' \<and> va_path v' = path"
proof -
  have "payload_wf False p'"
    if "(case resolve_collection cid p of None \<Rightarrow> Inl (UnknownCollection cid)
       | Some col \<Rightarrow> update_item (en_now e) (co_id col) iid l sec p) = Inr (p', x)" "payload_wf False p" for p p' x
    using that by (auto split: option.splits dest: update_item_wf)
  from change_saveable [OF assms(1), of _ v' r, OF _ this] assms(2) show ?thesis
    by (simp add: vault_update_item_def)
qed

lemma add_item_good:
  assumes "good P pw path (h, v)" "vault_add_item P e cid l as sec t h v = ((h', v'), r)" "distinct (map fst as)"
  shows "((\<exists>err. r = Inl err) \<and> v' = v \<or> (\<exists>x. r = Inr x) \<and> saveable P pw v' \<and> va_path v' = path) \<and> ho_files h' = ho_files h"
proof -
  have k: "payload_wf False p'"
    if "(case resolve_collection cid p of None \<Rightarrow> Inl (UnknownCollection cid)
       | Some col \<Rightarrow> add_item (en_now e) (gen_id P (ho_draws h)) (co_id col) l as sec t p) = Inr (p', x)"
      "payload_wf False p" for p p' x
    using that assms(3) by (auto split: option.splits dest: add_item_wf)
  from assms(2) have "with_payload v (\<lambda>p. case resolve_collection cid p of None \<Rightarrow> Inl (UnknownCollection cid)
       | Some col \<Rightarrow> add_item (en_now e) (gen_id P (ho_draws h)) (co_id col) l as sec t p) = (v', r)"
    "h' = h\<lparr>ho_draws := Suc (ho_draws h)\<rparr>"
    by (simp_all add: vault_add_item_def with_id_split)
  with change_saveable [OF assms(1), of _ v' r, OF _ k] show ?thesis by simp
qed

lemma remove_item_good:
  assumes "good P pw path (h, v)" "vault_remove_item e cid iid v = (v', r)"
  shows "(\<exists>err. r = Inl err) \<and> v' = v \<or> (\<exists>x. r = Inr x) \<and> saveable P pw v' \<and> va_path v' = path"
proof -
  have w: "with_payload (snd (h, v)) (\<lambda>p. Inr (case resolve_collection cid p of None \<Rightarrow> p
      | Some col \<Rightarrow> remove_item (en_now e) (co_id col) iid p, ())) = (v', r)"
    using assms(2) by (simp add: vault_remove_item_def)
  have "(\<exists>err. r = Inl err) \<and> v' = snd (h, v) \<or> (\<exists>x. r = Inr x) \<and> saveable P pw v' \<and> va_path v' = path"
  proof (rule change_saveable [OF assms(1) w])
    fix p p' x
    assume "Inr (case resolve_collection cid p of None \<Rightarrow> p | Some col \<Rightarrow> remove_item (en_now e) (co_id col) iid p, ())
        = (Inr (p', x) :: (payload \<times> unit) kc)" "payload_wf False p"
    then show "payload_wf False p'" by (auto split: option.splits intro: remove_item_wf)
  qed
  then show ?thesis by simp
qed

lemma set_item_secret_good:
  assumes "primitives_ok P" "calm_call path e" "good P pw path s"
  shows "good P pw path (fst (set_item_secret P e cid iid secret s))"
proof -
  obtain v' r where u: "vault_update_item e cid iid None (Some secret) (snd s) = (v', r)"
    by (cases "vault_update_item e cid iid None (Some secret) (snd s)")
  have g: "good P pw path (fst s, snd s)" using assms(3) by simp
  from update_item_good [OF g u] consider err where "r = Inl err" "v' = snd s"
    | x where "r = Inr x" "saveable P pw v'" "va_path v' = path" by blast
  then show ?thesis
  proof cases
    case (2 x)
    then show ?thesis
      using saved_good [of P pw "(fst s, v')" path e True] assms
      by (auto simp: set_item_secret_def u split: prod.splits sum.splits option.splits)
  qed (use assms g in \<open>auto simp: set_item_secret_def u split: prod.splits sum.splits option.splits\<close>)
qed

lemma delete_item_good:
  assumes "primitives_ok P" "calm_call path e" "good P pw path s"
  shows "good P pw path (fst (delete_item P e cid iid s))"
proof -
  obtain v' r where u: "vault_remove_item e cid iid (snd s) = (v', r)" by (cases "vault_remove_item e cid iid (snd s)")
  have g: "good P pw path (fst s, snd s)" using assms(3) by simp
  have "saveable P pw v' \<and> va_path v' = path"
    using remove_item_good [OF g u] assms(3) by (auto simp: good_def synced_def)
  then show ?thesis
    using saved_good [of P pw "(fst s, v')" path e True] assms
    by (auto simp: delete_item_def u split: prod.splits sum.splits option.splits)
qed

lemma set_alias_good:
  assumes "primitives_ok P" "calm_call path e" "good P pw path s"
  shows "good P pw path (fst (set_alias P e name cid s))"
proof -
  from assms(3) obtain key k p where v: "va_key (snd s) = Some key" "va_kdf (snd s) = Some k" "va_payload (snd s) = Some p"
    "derive_key P pw k = Inr key" "payload_wf False p" "va_path (snd s) = path"
    by (auto simp: good_def synced_def saveable_def)
  show ?thesis
  proof (cases "resolve_entry cid p")
    case None
    with assms(3) v show ?thesis by (simp add: set_alias_def with_payload_def is_locked_def)
  next
    case (Some e')
    obtain j col where j: "e' = (j, col)" by (cases e')
    have "(j, col) \<in> set (pl_collections p)"
      using Some j
      by (auto simp: resolve_entry_def get_collection_def split: option.splits dest: map_of_SomeD)
        (auto simp: find_Some_iff)
    then have "collection_wf False (j, col)" using v(5) by (auto simp: payload_wf_def list_all_iff)
    then have "payload_wf False (put_collection j (col\<lparr>co_aliases := co_aliases col @ [name]\<rparr>) p)"
      by (intro put_collection_wf [OF v(5)]) (simp add: collection_wf_def)
    then have sa: "saveable P pw ((snd s)\<lparr>va_payload := Some (put_collection j (col\<lparr>co_aliases := co_aliases col @ [name]\<rparr>) p)\<rparr>)"
      using v by (simp add: saveable_def)
    show ?thesis
      using saved_good [OF assms(1), of pw "(fst s, (snd s)\<lparr>va_payload := Some (put_collection j (col\<lparr>co_aliases := co_aliases col @ [name]\<rparr>) p)\<rparr>)" path e True]
        sa assms v Some j
      by (auto simp: set_alias_def with_payload_def is_locked_def)
  qed
qed

lemma create_item_good:
  assumes "primitives_ok P" "calm_call path e" "good P pw path s" "distinct (map fst attrs)"
  shows "good P pw path (fst (create_item P e cid lbl attrs secret replace s))"
proof -
  have g: "good P pw path (fst s, snd s)" using assms(3) by simp
  have u: "good P pw path (fst (case vault_update_item e cid iid (Some lbl) (Some secret) (snd s) of
      (v, Inl err) \<Rightarrow> ((fst s, v), Inl err) | (v, Inr _) \<Rightarrow> then_save P e (fst s, v) (Some iid)))" for iid
  proof -
    obtain v' r where u: "vault_update_item e cid iid (Some lbl) (Some secret) (snd s) = (v', r)"
      by (cases "vault_update_item e cid iid (Some lbl) (Some secret) (snd s)")
    from update_item_good [OF g u] show ?thesis
      using saved_good [OF assms(1), of pw "(fst s, v')" path e "Some iid"] assms(2) g u by auto
  qed
  have a: "good P pw path (fst (case vault_add_item P e cid lbl attrs secret ''text/plain'' (fst s) (snd s) of
      (s1, Inl err) \<Rightarrow> (s1, Inl err) | (s1, Inr it) \<Rightarrow> then_save P e s1 (Some (it_id it))))"
  proof -
    obtain h' v' r where w: "vault_add_item P e cid lbl attrs secret ''text/plain'' (fst s) (snd s) = ((h', v'), r)"
      by (metis surj_pair)
    from add_item_good [OF g w assms(4)] have f: "ho_files h' = ho_files (fst s)"
      "(\<exists>err. r = Inl err) \<and> v' = snd s \<or> (\<exists>x. r = Inr x) \<and> saveable P pw v' \<and> va_path v' = path" by simp_all
    from f(2) show ?thesis
    proof (elim disjE conjE exE)
      fix err
      assume "v' = snd s" "r = Inl err"
      with good_draws [OF g f(1)] show ?thesis by (simp add: w)
    next
      fix x
      assume "saveable P pw v'" "va_path v' = path" "r = Inr x"
      then show ?thesis
        using saved_good [OF assms(1), of pw "(h', v')" path e "Some (it_id x)"] assms(2) by (auto simp: w)
    qed
  qed
  show ?thesis
    unfolding create_item_def using g u a by (auto split: prod.splits sum.splits option.splits)
qed

section \<open>A stored secret comes back\<close>

lemma find_dict_set:
  assumes "find Q d = Some (k, c)" "distinct (map fst d)" "Q (k, c')"
  shows "find Q (dict_set k c' d) = Some (k, c')"
  using assms
proof (induction d)
  case (Cons kv d)
  obtain k' c0 where kv: "kv = (k', c0)" by (cases kv)
  show ?case
  proof (cases "Q kv")
    case True
    with Cons.prems show ?thesis by (simp add: kv)
  next
    case False
    with Cons.prems have f: "find Q d = Some (k, c)" by simp
    then have "(k, c) \<in> set d" by (auto simp: find_Some_iff)
    with Cons.prems(2) have "k' \<noteq> k" by (force simp: kv)
    with False f Cons show ?thesis by (simp add: kv)
  qed
qed simp

lemma find_hit: "find Q xs = Some x \<Longrightarrow> x \<in> set xs \<and> Q x"
  by (induction xs) (auto split: if_splits)

lemma resolve_put:
  assumes "payload_wf True p" "resolve_collection ref p = Some col" "co_id col' = co_id col" "co_aliases col' = co_aliases col"
  shows "resolve_collection ref (put_collection (co_id col) col' p) = Some col'"
proof (cases "get_collection ref p")
  case (Some c)
  with assms(2) have "c = col" by (simp add: resolve_collection_def)
  with get_collection_wf [OF assms(1) Some] have "co_id col = ref" by (simp add: collection_wf_def)
  then show ?thesis by (simp add: resolve_collection_def get_put)
next
  case None
  let ?Q = "\<lambda>kv :: string \<times> collection. ref \<in> set (co_aliases (snd kv))"
  from None assms(2) obtain k where k: "find ?Q (pl_collections p) = Some (k, col)"
    by (auto simp: resolve_collection_def collection_by_alias_def)
  then have e: "(k, col) \<in> set (pl_collections p)" "?Q (k, col)" using find_hit by fastforce+
  with assms(1) have id: "co_id col = k" by (auto simp: payload_wf_def collection_wf_def list_all_iff)
  have d: "distinct (map fst (pl_collections p))" using assms(1) by (simp add: payload_wf_def)
  have "find ?Q (dict_set k col' (pl_collections p)) = Some (k, col')"
    by (rule find_dict_set [OF k d]) (use e(2) assms(4) in simp)
  moreover have "get_collection k p = Some col" using e(1) d by (simp add: get_collection_def)
  then have "ref \<noteq> k" using None by auto
  ultimately show ?thesis
    using None by (simp add: resolve_collection_def get_put collection_by_alias_def put_collection_def id)
      (simp add: get_collection_def map_of_dict_set collection_by_alias_def)
qed

lemma resolved_is_stored:
  assumes "payload_wf True p" "resolve_collection ref p = Some col" "get_collection (co_id col) p = Some c"
  shows "c = col"
proof -
  have d: "distinct (map fst (pl_collections p))" using assms(1) by (simp add: payload_wf_def)
  obtain k where "(k, col) \<in> set (pl_collections p)"
    using assms(2)
    by (auto simp: resolve_collection_def collection_by_alias_def get_collection_def
        split: option.splits dest: map_of_SomeD find_hit)
  moreover from this assms(1) have "co_id col = k" by (auto simp: payload_wf_def collection_wf_def list_all_iff)
  ultimately show ?thesis using assms(3) d by (auto simp: get_collection_def)
qed

lemma get_item_put: "get_item c iid (put_collection c col p) = map_of (co_items col) iid"
  by (simp add: get_item_def get_put)

lemma stored_by_add:
  assumes "payload_wf True p" "resolve_collection cid p = Some col"
    "add_item now new_id (co_id col) l as sec t p = Inr (p', it)"
  shows "\<exists>col'. resolve_collection cid p' = Some col' \<and> get_item (co_id col') (it_id it) p' = Some it \<and> it_secret it = sec"
proof -
  from assms(3) obtain c where c: "get_collection (co_id col) p = Some c"
    "p' = put_collection (co_id col) (c\<lparr>co_items := dict_set new_id it (co_items c), co_modified := now\<rparr>) p"
    "it_id it = new_id" "it_secret it = sec"
    by (auto simp: add_item_def Let_def split: option.splits)
  have "c = col"
    using assms(1,2) c(1) by (rule resolved_is_stored)
  let ?c' = "col\<lparr>co_items := dict_set new_id it (co_items col), co_modified := now\<rparr>"
  have "resolve_collection cid p' = Some ?c'"
    unfolding c(2) \<open>c = col\<close> by (rule resolve_put [OF assms(1,2)]) simp_all
  then show ?thesis
    using c by (simp add: \<open>c = col\<close> get_item_put map_of_dict_set)
qed

lemma stored_by_update:
  assumes "payload_wf True p" "resolve_collection cid p = Some col"
    "update_item now (co_id col) iid l (Some sec) p = Inr (p', it)"
  shows "\<exists>col'. resolve_collection cid p' = Some col' \<and> get_item (co_id col') iid p' = Some it \<and> it_secret it = sec"
proof -
  from assms(3) obtain c where c: "get_collection (co_id col) p = Some c"
    "p' = put_collection (co_id col) (c\<lparr>co_items := dict_set iid it (co_items c)\<rparr>) p" "it_secret it = sec"
    by (auto simp: update_item_def Let_def split: option.splits)
  have "c = col"
    using assms(1,2) c(1) by (rule resolved_is_stored)
  let ?c' = "col\<lparr>co_items := dict_set iid it (co_items col)\<rparr>"
  have "resolve_collection cid p' = Some ?c'"
    unfolding c(2) \<open>c = col\<close> by (rule resolve_put [OF assms(1,2)]) simp_all
  then show ?thesis
    using c by (simp add: \<open>c = col\<close> get_item_put map_of_dict_set)
qed

lemma then_save_memory: "then_save P e s x = ((h, v), Inr y) \<Longrightarrow> v = snd s \<and> y = x"
  by (auto simp: then_save_def split: prod.splits sum.splits)

lemma item_secret_of:
  assumes "is_locked v = False" "va_payload v = Some p" "resolve_collection cid p = Some col" "get_item (co_id col) iid p = Some it"
  shows "item_secret cid iid (h, v) = Inr (Some (it_secret it))"
  using assms by (simp add: item_secret_def vault_get_item_def with_payload_def)

lemma create_item_stored:
  assumes "va_payload (snd s) = Some p" "payload_wf True p"
    "create_item P e cid lbl attrs secret replace s = (s', Inr (Some iid))"
  shows "item_secret cid iid s' = Inr (Some secret)"
proof -
  obtain h v where s: "s = (h, v)" by (cases s)
  obtain h' v' where s': "s' = (h', v')" by (cases s')
  have u: "\<not> is_locked v"
    using assms(3) by (auto simp: s create_item_def vault_resolve_collection_def with_payload_def)
  from assms(1,3) u obtain col where col: "resolve_collection cid p = Some col"
    by (auto simp: s create_item_def vault_resolve_collection_def with_payload_def split: option.splits)
  show ?thesis
  proof (cases "if replace then replaced_item attrs col else None")
    case (Some i)
    obtain p' it where a: "update_item (en_now e) (co_id col) i (Some lbl) (Some secret) p = Inr (p', it)"
      using assms(1,3) u col Some
      by (auto simp: s create_item_def vault_resolve_collection_def vault_update_item_def with_payload_def
          split: sum.splits prod.splits)
    have v': "v' = v\<lparr>va_payload := Some p'\<rparr>" "iid = i"
      using assms(1,3) u col Some a
      by (auto simp: s s' create_item_def vault_resolve_collection_def vault_update_item_def with_payload_def
          dest!: then_save_memory)
    obtain col' where "resolve_collection cid p' = Some col'" "get_item (co_id col') i p' = Some it" "it_secret it = secret"
      using stored_by_update [OF assms(2) col a] by blast
    with item_secret_of [of v' p' cid col' iid it h'] u show ?thesis by (simp add: s' v' is_locked_def)
  next
    case None
    obtain p' it where a: "add_item (en_now e) (gen_id P (ho_draws h)) (co_id col) lbl attrs secret ''text/plain'' p = Inr (p', it)"
      using assms(1,3) u col None
      by (auto simp: s create_item_def vault_resolve_collection_def vault_add_item_def with_payload_def with_id_def
          split: sum.splits prod.splits)
    have v': "v' = v\<lparr>va_payload := Some p'\<rparr>" "iid = it_id it"
      using assms(1,3) u col None a
      by (auto simp: s s' create_item_def vault_resolve_collection_def vault_add_item_def with_payload_def with_id_def
          dest!: then_save_memory)
    obtain col' where "resolve_collection cid p' = Some col'" "get_item (co_id col') iid p' = Some it" "it_secret it = secret"
      using stored_by_add [OF assms(2) col a] v'(2) by blast
    with item_secret_of [of v' p' cid col' iid it h'] u show ?thesis by (simp add: s' v' is_locked_def)
  qed
qed

text \<open>A calm call that adds an item succeeds.\<close>

lemma create_item_calm:
  assumes "primitives_ok P" "calm_call (va_path v) e" "saveable P pw v" "va_payload v = Some p"
    "resolve_collection cid p = Some col" "get_collection (co_id col) p \<noteq> None" "distinct (map fst attrs)"
  shows "\<exists>s'. create_item P e cid lbl attrs secret False (h, v) = (s', Inr (Some (gen_id P (ho_draws h))))"
proof -
  have u: "\<not> is_locked v" using assms(3) by (auto simp: saveable_def is_locked_def)
  obtain p' it where a: "add_item (en_now e) (gen_id P (ho_draws h)) (co_id col) lbl attrs secret ''text/plain'' p = Inr (p', it)"
    "it_id it = gen_id P (ho_draws h)"
    using assms(6) by (auto simp: add_item_def Let_def)
  have wf: "payload_wf False p" using assms(3,4) by (auto simp: saveable_def)
  have "saveable P pw (v\<lparr>va_payload := Some p'\<rparr>)"
    using assms(3) add_item_wf [OF wf assms(7) a(1)] by (auto simp: saveable_def)
  from saved_good [OF assms(1), of pw "(h\<lparr>ho_draws := Suc (ho_draws h)\<rparr>, v\<lparr>va_payload := Some p'\<rparr>)" "va_path v" e "Some (it_id it)"] this assms(2)
  show ?thesis
    using assms(4,5) u a
    by (auto simp: create_item_def vault_resolve_collection_def vault_add_item_def with_payload_def with_id_def)
qed

lemma gen_id_safe:
  assumes "urandom_law P"
  shows "safe (gen_id P n)"
proof -
  have h: "safe_char (hex_digit k)" if "k < 16" for k
    using that by (auto simp: hex_digit_def safe_char_def alnum_az_def alpha_az_def lower_az_def dec_digit_def ordc_def)
  have "list_all safe_char (gen_id P n)"
    by (auto simp: gen_id_def list_all_iff h ordc_hex)
  moreover have "gen_id P n \<noteq> []"
  proof -
    have "length (urandom P n 16) = 16" using assms by (simp add: urandom_law_def)
    then show ?thesis by (cases "urandom P n 16") (auto simp: gen_id_def)
  qed
  ultimately show ?thesis by (simp add: safe_def)
qed

end
