(* ===== verification/KeyringDaemon.thy ===== *)
theory KeyringDaemon
  imports KeyringStore
begin

text \<open>
  The secret service daemon (\<open>gest/keyringd/service.py\<close>): the objects exported on the bus
  and their methods, over a vault unlocked at start. A request names the object it is sent
  to; the bus dispatches it to the exported interface, which is bound to its collection and
  item ids. Property dicts come decoded (None for a missing key).
\<close>

section \<open>State, requests, replies\<close>

datatype signal = ItemCreated string | ItemDeleted string | CollectionCreated string | CollectionDeleted string

record daemon =
  dm_store :: store
  dm_sessions :: registry
  dm_collections :: "string list"
  dm_items :: "(string \<times> (string \<times> string)) list"
  dm_session_ifaces :: "string list"
  dm_signals :: "signal list"

text \<open>The \<open>(oayays)\<close> struct: session, parameters, value, content type.\<close>

type_synonym secret = "string \<times> bytes \<times> bytes \<times> string"

datatype dbus_fail = NoSession | NoObject | NotSupported | UnknownObject | Raised kc_error

datatype answer =
    NoReply | SecretReply secret | SecretsReply "(string \<times> secret) list" | PathReply string
  | PathsReply "string list" | PairReply string string | StrReply string | IntReply int
  | AttrsReply "(string \<times> string) list" | SessionReply "bytes option" string

type_synonym 'a outcome = "daemon \<times> (dbus_fail + 'a)"

definition raised :: "'a kc \<Rightarrow> dbus_fail + 'a" where
  "raised r = (case r of Inl e \<Rightarrow> Inl (Raised e) | Inr x \<Rightarrow> Inr x)"

definition dm_bind :: "'a outcome \<Rightarrow> (daemon \<Rightarrow> 'a \<Rightarrow> 'b outcome) \<Rightarrow> 'b outcome" where
  "dm_bind m f = (case m of (d, Inl e) \<Rightarrow> (d, Inl e) | (d, Inr x) \<Rightarrow> f d x)"

definition on_store :: "daemon \<Rightarrow> (store \<Rightarrow> store \<times> 'a kc) \<Rightarrow> 'a outcome" where
  "on_store d f = (case f (dm_store d) of (s, r) \<Rightarrow> (d\<lparr>dm_store := s\<rparr>, raised r))"

definition asking :: "daemon \<Rightarrow> (store \<Rightarrow> 'a kc) \<Rightarrow> 'a outcome" where
  "asking d f = (d, raised (f (dm_store d)))"

definition emit :: "signal \<Rightarrow> daemon \<Rightarrow> daemon" where
  "emit sg d = d\<lparr>dm_signals := dm_signals d @ [sg]\<rparr>"

section \<open>Exported objects\<close>

definition export_collection :: "string \<Rightarrow> daemon \<Rightarrow> unit outcome" where
  "export_collection cid d =
     (case collection_path cid of Inl e \<Rightarrow> (d, Inl (Raised e))
      | Inr _ \<Rightarrow> (d\<lparr>dm_collections := (if cid \<in> set (dm_collections d) then dm_collections d else dm_collections d @ [cid])\<rparr>, Inr ()))"

definition export_item :: "string \<Rightarrow> string \<Rightarrow> daemon \<Rightarrow> unit outcome" where
  "export_item cid iid d =
     (case item_path cid iid of Inl e \<Rightarrow> (d, Inl (Raised e))
      | Inr path \<Rightarrow> (d\<lparr>dm_items := dict_set path (cid, iid) (dm_items d)\<rparr>, Inr ()))"

definition export_session :: "string \<Rightarrow> daemon \<Rightarrow> daemon" where
  "export_session path d = d\<lparr>dm_session_ifaces := dm_session_ifaces d @ [path]\<rparr>"

definition close_session :: "string \<Rightarrow> daemon \<Rightarrow> daemon" where
  "close_session path d =
     d\<lparr>dm_sessions := fst (registry_close path (dm_sessions d)),
       dm_session_ifaces := filter (\<lambda>q. q \<noteq> path) (dm_session_ifaces d)\<rparr>"

definition remove_item_object :: "primitives \<Rightarrow> call_env \<Rightarrow> string \<Rightarrow> string \<Rightarrow> daemon \<Rightarrow> unit outcome" where
  "remove_item_object P e cid iid d =
     dm_bind (on_store d (delete_item P e cid iid)) (\<lambda>d _.
       case item_path cid iid of Inl err \<Rightarrow> (d, Inl (Raised err))
       | Inr path \<Rightarrow>
           (let d1 = d\<lparr>dm_items := filter (\<lambda>kv. fst kv \<noteq> path) (dm_items d)\<rparr>
            in (if cid \<in> set (dm_collections d1) then emit (ItemDeleted path) d1 else d1, Inr ())))"

fun remove_items :: "primitives \<Rightarrow> call_env \<Rightarrow> string \<Rightarrow> string list \<Rightarrow> daemon \<Rightarrow> unit outcome" where
  "remove_items P e cid [] d = (d, Inr ())"
| "remove_items P e cid (iid # iids) d =
     dm_bind (remove_item_object P e cid iid d) (\<lambda>d _. remove_items P e cid iids d)"

definition remove_collection_object :: "primitives \<Rightarrow> call_env \<Rightarrow> string \<Rightarrow> daemon \<Rightarrow> unit outcome" where
  "remove_collection_object P e cid d =
     dm_bind (on_store d (\<lambda>s. (s, snd (vault_resolve_collection cid (snd s))))) (\<lambda>d col.
     dm_bind (remove_items P e cid (case col of None \<Rightarrow> [] | Some c \<Rightarrow> map fst (co_items c)) d) (\<lambda>d _.
     dm_bind (on_store d (\<lambda>(h, v). case vault_remove_collection cid v of (v', r) \<Rightarrow> ((h, v'), r))) (\<lambda>d _.
     dm_bind (on_store d (\<lambda>s. then_save P e s ())) (\<lambda>d _.
       let d1 = d\<lparr>dm_collections := filter (\<lambda>c. c \<noteq> cid) (dm_collections d)\<rparr>
       in case collection_path cid of Inl err \<Rightarrow> (d1, Inl (Raised err))
          | Inr path \<Rightarrow> (emit (CollectionDeleted path) d1, Inr ())))))"

section \<open>Methods of an item\<close>

definition session_of :: "string \<Rightarrow> daemon \<Rightarrow> session outcome" where
  "session_of path d =
     (d, case registry_get path (dm_sessions d) of None \<Rightarrow> Inl NoSession | Some s \<Rightarrow> Inr s)"

definition item_get_secret :: "transport \<Rightarrow> bytes \<Rightarrow> string \<Rightarrow> string \<Rightarrow> string \<Rightarrow> daemon \<Rightarrow> answer outcome" where
  "item_get_secret T iv cid iid session d =
     dm_bind (session_of session d) (\<lambda>d sess.
     dm_bind (asking d (item_secret cid iid)) (\<lambda>d secret.
       case secret of None \<Rightarrow> (d, Inl NoObject)
       | Some s \<Rightarrow>
           (case encode_secret T iv sess s of (params, val) \<Rightarrow>
              (d, Inr (SecretReply (session, params, val, ''text/plain''))))))"

definition item_set_secret :: "transport \<Rightarrow> primitives \<Rightarrow> call_env \<Rightarrow> string \<Rightarrow> string \<Rightarrow> secret \<Rightarrow> daemon \<Rightarrow> answer outcome" where
  "item_set_secret T P e cid iid secret d =
     (case secret of (session, params, val, _) \<Rightarrow>
        dm_bind (session_of session d) (\<lambda>d sess.
        dm_bind (asking d (\<lambda>_. decode_secret T sess params val)) (\<lambda>d plaintext.
        dm_bind (on_store d (set_item_secret P e cid iid plaintext)) (\<lambda>d ok.
          (d, if ok then Inr NoReply else Inl NoObject)))))"

definition item_delete :: "primitives \<Rightarrow> call_env \<Rightarrow> string \<Rightarrow> string \<Rightarrow> daemon \<Rightarrow> answer outcome" where
  "item_delete P e cid iid d = dm_bind (remove_item_object P e cid iid d) (\<lambda>d _. (d, Inr (PathReply NO_PROMPT)))"

definition item_set_label :: "primitives \<Rightarrow> call_env \<Rightarrow> string \<Rightarrow> string \<Rightarrow> string \<Rightarrow> daemon \<Rightarrow> answer outcome" where
  "item_set_label P e cid iid lbl d =
     dm_bind (on_store d (\<lambda>(h, v). case vault_update_item e cid iid (Some lbl) None v of (v', r) \<Rightarrow> ((h, v'), r))) (\<lambda>d _.
     dm_bind (on_store d (\<lambda>s. then_save P e s ())) (\<lambda>d _. (d, Inr NoReply)))"

section \<open>Methods of a collection\<close>

definition collection_create_item ::
    "transport \<Rightarrow> primitives \<Rightarrow> call_env \<Rightarrow> string \<Rightarrow> string option \<Rightarrow> (string \<times> string) list option \<Rightarrow> secret \<Rightarrow> bool
      \<Rightarrow> daemon \<Rightarrow> answer outcome" where
  "collection_create_item T P e cid lbl attrs secret replace d =
     (case secret of (session, params, val, _) \<Rightarrow>
        dm_bind (session_of session d) (\<lambda>d sess.
        dm_bind (asking d (\<lambda>_. decode_secret T sess params val)) (\<lambda>d plaintext.
        dm_bind (on_store d (create_item P e cid (case lbl of None \<Rightarrow> [] | Some l \<Rightarrow> l)
            (case attrs of None \<Rightarrow> [] | Some a \<Rightarrow> a) plaintext replace)) (\<lambda>d made.
          case made of None \<Rightarrow> (d, Inl NoObject)
          | Some iid \<Rightarrow>
              dm_bind (asking d (\<lambda>_. item_path cid iid)) (\<lambda>d path.
              dm_bind (if map_of (dm_items d) path = None then export_item cid iid d else (d, Inr ())) (\<lambda>d _.
                (emit (ItemCreated path) d, Inr (PairReply path NO_PROMPT))))))))"

section \<open>Methods of the service\<close>

definition service_open_session :: "transport \<Rightarrow> primitives \<Rightarrow> nat \<Rightarrow> string \<Rightarrow> bytes \<Rightarrow> daemon \<Rightarrow> answer outcome" where
  "service_open_session T P draw algorithm input d =
     (let sid = gen_id P (ho_draws (fst (dm_store d)));
          d0 = d\<lparr>dm_store := (fst (dm_store d)\<lparr>ho_draws := Suc (ho_draws (fst (dm_store d)))\<rparr>, snd (dm_store d))\<rparr>
      in if algorithm = ALGO_PLAIN then
           (case open_plain sid (dm_sessions d) of Inl e \<Rightarrow> (d0, Inl (Raised e))
            | Inr (reg, path) \<Rightarrow> (export_session path (d0\<lparr>dm_sessions := reg\<rparr>), Inr (SessionReply None path)))
         else if algorithm = ALGO_DH then
           (case open_dh T draw sid input (dm_sessions d) of Inl e \<Rightarrow> (d0, Inl (Raised e))
            | Inr (reg, path, server_public) \<Rightarrow>
                (export_session path (d0\<lparr>dm_sessions := reg\<rparr>), Inr (SessionReply (Some server_public) path)))
         else (d, Inl NotSupported))"

fun collect_secrets ::
    "transport \<Rightarrow> bytes \<Rightarrow> session \<Rightarrow> string \<Rightarrow> store \<Rightarrow> string list \<Rightarrow> (string \<times> secret) list \<Rightarrow> (string \<times> secret) list kc" where
  "collect_secrets T iv sess session s [] out = Inr out"
| "collect_secrets T iv sess session s (path # paths) out =
     (case parse_item_path path of
        None \<Rightarrow> collect_secrets T iv sess session s paths out
      | Some (c, i) \<Rightarrow>
          (case item_secret c i s of
             Inl e \<Rightarrow> Inl e
           | Inr None \<Rightarrow> collect_secrets T iv sess session s paths out
           | Inr (Some b) \<Rightarrow>
               (case encode_secret T iv sess b of (params, val) \<Rightarrow>
                  collect_secrets T iv sess session s paths
                    (dict_set path (session, params, val, ''text/plain'') out))))"

definition service_get_secrets :: "transport \<Rightarrow> bytes \<Rightarrow> string list \<Rightarrow> string \<Rightarrow> daemon \<Rightarrow> answer outcome" where
  "service_get_secrets T iv items session d =
     dm_bind (session_of session d) (\<lambda>d sess.
     dm_bind (asking d (\<lambda>s. collect_secrets T iv sess session s items [])) (\<lambda>d out. (d, Inr (SecretsReply out))))"

definition service_create_collection :: "primitives \<Rightarrow> call_env \<Rightarrow> string option \<Rightarrow> string \<Rightarrow> daemon \<Rightarrow> answer outcome" where
  "service_create_collection P e lbl a d =
     dm_bind (on_store d (create_collection P e (case lbl of None \<Rightarrow> [] | Some l \<Rightarrow> l) a)) (\<lambda>d cid.
     dm_bind (export_collection cid d) (\<lambda>d _.
     dm_bind (asking d (\<lambda>_. collection_path cid)) (\<lambda>d path.
       (emit (CollectionCreated path) d, Inr (PairReply path NO_PROMPT)))))"

definition service_read_alias :: "string \<Rightarrow> daemon \<Rightarrow> answer outcome" where
  "service_read_alias name d =
     dm_bind (asking d (resolve_alias name)) (\<lambda>d cid.
       case cid of None \<Rightarrow> (d, Inr (PathReply ''/''))
       | Some c \<Rightarrow> (if c = [] then (d, Inr (PathReply ''/''))
                   else dm_bind (asking d (\<lambda>_. collection_path c)) (\<lambda>d p. (d, Inr (PathReply p)))))"

definition service_set_alias :: "primitives \<Rightarrow> call_env \<Rightarrow> string \<Rightarrow> string \<Rightarrow> daemon \<Rightarrow> answer outcome" where
  "service_set_alias P e name collection d =
     (case parse_collection_path collection of None \<Rightarrow> (d, Inr NoReply)
      | Some cid \<Rightarrow> dm_bind (on_store d (set_alias P e name cid)) (\<lambda>d _. (d, Inr NoReply)))"

section \<open>Dispatch\<close>

datatype item_request =
    GetSecret string | SetSecret secret | DeleteItem | Attributes | Label | SetLabel string | Created | Modified

datatype collection_request =
    CreateItem "string option" "(string \<times> string) list option" secret bool
  | CollectionSearch "(string \<times> string) list" | DeleteCollection | Items | CollectionLabel
  | CollectionCreatedAt | CollectionModifiedAt

datatype request =
    ToItem string item_request | ToCollection string collection_request | CloseSession string
  | OpenSession string bytes | SearchItems "(string \<times> string) list" | GetSecrets "string list" string
  | CreateCollection "string option" string | ReadAlias string | SetAlias string string | Collections

text \<open>What one call meets: the environment of the vault, the IV and the DH exponent drawn.\<close>

record bus_env =
  be_call :: call_env
  be_iv :: bytes
  be_draw :: nat

definition or_default :: "'a \<Rightarrow> ('a \<Rightarrow> answer) \<Rightarrow> 'a option outcome \<Rightarrow> answer outcome" where
  "or_default dflt f m = dm_bind m (\<lambda>d r. (d, Inr (f (case r of None \<Rightarrow> dflt | Some x \<Rightarrow> x))))"

fun item_call :: "transport \<Rightarrow> primitives \<Rightarrow> bus_env \<Rightarrow> string \<Rightarrow> string \<Rightarrow> item_request \<Rightarrow> daemon \<Rightarrow> answer outcome" where
  "item_call T P b cid iid (GetSecret session) d = item_get_secret T (be_iv b) cid iid session d"
| "item_call T P b cid iid (SetSecret secret) d = item_set_secret T P (be_call b) cid iid secret d"
| "item_call T P b cid iid DeleteItem d = item_delete P (be_call b) cid iid d"
| "item_call T P b cid iid Attributes d = or_default [] AttrsReply (asking d (item_attributes cid iid))"
| "item_call T P b cid iid Label d = or_default [] StrReply (asking d (item_label cid iid))"
| "item_call T P b cid iid (SetLabel l) d = item_set_label P (be_call b) cid iid l d"
| "item_call T P b cid iid Created d = or_default (0, 0) (\<lambda>t. IntReply (fst t)) (asking d (item_times cid iid))"
| "item_call T P b cid iid Modified d = or_default (0, 0) (\<lambda>t. IntReply (snd t)) (asking d (item_times cid iid))"

fun collection_call :: "transport \<Rightarrow> primitives \<Rightarrow> bus_env \<Rightarrow> string \<Rightarrow> collection_request \<Rightarrow> daemon \<Rightarrow> answer outcome" where
  "collection_call T P b cid (CreateItem l as secret replace) d =
     collection_create_item T P (be_call b) cid l as secret replace d"
| "collection_call T P b cid (CollectionSearch as) d =
     dm_bind (asking d (collection_search_item_paths cid as)) (\<lambda>d ps. (d, Inr (PathsReply ps)))"
| "collection_call T P b cid DeleteCollection d =
     dm_bind (remove_collection_object P (be_call b) cid d) (\<lambda>d _. (d, Inr (PathReply NO_PROMPT)))"
| "collection_call T P b cid Items d =
     dm_bind (asking d (collection_item_paths cid)) (\<lambda>d ps. (d, Inr (PathsReply ps)))"
| "collection_call T P b cid CollectionLabel d = or_default [] StrReply (asking d (collection_label cid))"
| "collection_call T P b cid CollectionCreatedAt d = or_default (0, 0) (\<lambda>t. IntReply (fst t)) (asking d (collection_times cid))"
| "collection_call T P b cid CollectionModifiedAt d = or_default (0, 0) (\<lambda>t. IntReply (snd t)) (asking d (collection_times cid))"

fun daemon_call :: "transport \<Rightarrow> primitives \<Rightarrow> bus_env \<Rightarrow> request \<Rightarrow> daemon \<Rightarrow> answer outcome" where
  "daemon_call T P b (ToItem path r) d =
     (case map_of (dm_items d) path of None \<Rightarrow> (d, Inl UnknownObject) | Some (cid, iid) \<Rightarrow> item_call T P b cid iid r d)"
| "daemon_call T P b (ToCollection path r) d =
     (case find (\<lambda>c. collection_path c = Inr path) (dm_collections d) of
        None \<Rightarrow> (d, Inl UnknownObject) | Some cid \<Rightarrow> collection_call T P b cid r d)"
| "daemon_call T P b (CloseSession path) d =
     (if path \<in> set (dm_session_ifaces d) then (close_session path d, Inr NoReply) else (d, Inl UnknownObject))"
| "daemon_call T P b (OpenSession a i) d = service_open_session T P (be_draw b) a i d"
| "daemon_call T P b (SearchItems as) d =
     dm_bind (asking d (search_item_paths as)) (\<lambda>d ps. (d, Inr (PathsReply ps)))"
| "daemon_call T P b (GetSecrets items session) d = service_get_secrets T (be_iv b) items session d"
| "daemon_call T P b (CreateCollection l a) d = service_create_collection P (be_call b) l a d"
| "daemon_call T P b (ReadAlias n) d = service_read_alias n d"
| "daemon_call T P b (SetAlias n c) d = service_set_alias P (be_call b) n c d"
| "daemon_call T P b Collections d = dm_bind (asking d collection_paths) (\<lambda>d ps. (d, Inr (PathsReply ps)))"

section \<open>Start\<close>

fun export_items :: "string \<Rightarrow> string list \<Rightarrow> daemon \<Rightarrow> unit outcome" where
  "export_items cid [] d = (d, Inr ())"
| "export_items cid (iid # iids) d = dm_bind (export_item cid iid d) (\<lambda>d _. export_items cid iids d)"

fun export_all :: "collection list \<Rightarrow> daemon \<Rightarrow> unit outcome" where
  "export_all [] d = (d, Inr ())"
| "export_all (c # cs) d =
     dm_bind (export_collection (co_id c) d) (\<lambda>d _.
     dm_bind (export_items (co_id c) (map fst (co_items c)) d) (\<lambda>d _. export_all cs d))"

definition KeyringDaemon :: "store \<Rightarrow> daemon" where
  "KeyringDaemon s =
     \<lparr>dm_store = s, dm_sessions = [], dm_collections = [], dm_items = [], dm_session_ifaces = [], dm_signals = []\<rparr>"

definition serve :: "store \<Rightarrow> unit outcome" where
  "serve s =
     dm_bind (asking (KeyringDaemon s) (\<lambda>s. snd (vault_collections (snd s)))) (\<lambda>d cs. export_all cs d)"

fun run_daemon :: "transport \<Rightarrow> primitives \<Rightarrow> (bus_env \<times> request) list \<Rightarrow> daemon \<Rightarrow> daemon" where
  "run_daemon T P [] d = d"
| "run_daemon T P ((b, r) # rs) d = run_daemon T P rs (fst (daemon_call T P b r d))"

section \<open>Every request leaves the disk up to date\<close>

definition dgood :: "primitives \<Rightarrow> string \<Rightarrow> string \<Rightarrow> daemon \<Rightarrow> bool" where
  "dgood P pw path d = good P pw path (dm_store d)"

lemma dgood_update [simp]:
  "dgood P pw path (d\<lparr>dm_sessions := a\<rparr>) = dgood P pw path d"
  "dgood P pw path (d\<lparr>dm_collections := b\<rparr>) = dgood P pw path d"
  "dgood P pw path (d\<lparr>dm_items := c\<rparr>) = dgood P pw path d"
  "dgood P pw path (d\<lparr>dm_session_ifaces := i\<rparr>) = dgood P pw path d"
  "dgood P pw path (emit sg d) = dgood P pw path d"
  "dgood P pw path (export_session q d) = dgood P pw path d"
  "dgood P pw path (close_session q d) = dgood P pw path d"
  by (simp_all add: dgood_def emit_def export_session_def close_session_def)

lemma dm_bind_dgood:
  assumes "dgood P pw path (fst m)" "\<And>d x. dgood P pw path d \<Longrightarrow> dgood P pw path (fst (f d x))"
  shows "dgood P pw path (fst (dm_bind m f))"
  using assms by (cases m; cases "snd m") (auto simp: dm_bind_def)

lemma on_store_dgood:
  assumes "good P pw path (dm_store d) \<Longrightarrow> good P pw path (fst (f (dm_store d)))" "dgood P pw path d"
  shows "dgood P pw path (fst (on_store d f))"
  using assms by (auto simp: on_store_def dgood_def split: prod.splits)

lemma pure_dgood: "dgood P pw path d \<Longrightarrow> dgood P pw path (fst (asking d f))"
  "dgood P pw path d \<Longrightarrow> dgood P pw path (fst (session_of q d))"
  "dgood P pw path d \<Longrightarrow> dgood P pw path (fst (export_collection cid d))"
  "dgood P pw path d \<Longrightarrow> dgood P pw path (fst (export_item cid iid d))"
  by (simp_all add: asking_def session_of_def export_collection_def export_item_def split: sum.splits)

lemma or_default_dgood: "dgood P pw path (fst m) \<Longrightarrow> dgood P pw path (fst (or_default x f m))"
  unfolding or_default_def by (rule dm_bind_dgood) simp_all

lemma remove_item_object_dgood:
  assumes "primitives_ok P" "calm_call path e" "dgood P pw path d"
  shows "dgood P pw path (fst (remove_item_object P e cid iid d))"
  unfolding remove_item_object_def
proof (rule dm_bind_dgood [OF on_store_dgood [OF delete_item_good [OF assms(1,2)] assms(3)]])
  fix d1 :: daemon and x :: bool
  assume "dgood P pw path d1"
  then show "dgood P pw path (fst (case item_path cid iid of Inl err \<Rightarrow> (d1, Inl (Raised err))
       | Inr path \<Rightarrow>
           (let d1 = d1\<lparr>dm_items := filter (\<lambda>kv. fst kv \<noteq> path) (dm_items d1)\<rparr>
            in (if cid \<in> set (dm_collections d1) then emit (ItemDeleted path) d1 else d1, Inr ()))))"
    by (cases "item_path cid iid") (simp_all add: Let_def)
qed

lemma remove_items_dgood:
  assumes "primitives_ok P" "calm_call path e"
  shows "dgood P pw path d \<Longrightarrow> dgood P pw path (fst (remove_items P e cid iids d))"
proof (induction iids arbitrary: d)
  case (Cons iid iids)
  show ?case
    using remove_item_object_dgood [OF assms Cons.prems] Cons.IH by (simp add: dm_bind_dgood)
qed simp

text \<open>Two steps of the vault in a row, the second one the save, are good together.\<close>

lemma change_then_save_dgood:
  assumes "primitives_ok P" "calm_call path e" "dgood P pw path d"
    "\<And>h v. good P pw path (h, v) \<Longrightarrow>
      (\<exists>err. snd (f (h, v)) = Inl err) \<and> fst (f (h, v)) = (h, v) \<or>
      (\<exists>x. snd (f (h, v)) = Inr x) \<and> saveable P pw (snd (fst (f (h, v)))) \<and> va_path (snd (fst (f (h, v)))) = path"
    "\<And>d x. dgood P pw path d \<Longrightarrow> dgood P pw path (fst (g d x))"
  shows "dgood P pw path (fst (dm_bind (on_store d f) (\<lambda>d _. dm_bind (on_store d (\<lambda>s. then_save P e s ())) g)))"
proof -
  obtain h v where hv: "dm_store d = (h, v)" by (cases "dm_store d")
  obtain s' r where f: "f (h, v) = (s', r)" by (cases "f (h, v)")
  have o: "on_store d f = (d\<lparr>dm_store := s'\<rparr>, raised r)" by (simp add: on_store_def hv f)
  from assms(4) [of h v] assms(3) consider err where "r = Inl err" "s' = (h, v)"
    | x where "r = Inr x" "saveable P pw (snd s')" "va_path (snd s') = path"
    by (auto simp: dgood_def hv f)
  then show ?thesis
  proof cases
    case 1
    with assms(3) show ?thesis by (simp add: o dm_bind_def raised_def dgood_def hv)
  next
    case (2 x)
    obtain h' where t: "then_save P e s' () = ((h', snd s'), Inr ())" "good P pw path (h', snd s')"
      using saved_good [OF assms(1) 2(2,3) assms(2), of "()"] by auto
    let ?d = "d\<lparr>dm_store := (h', snd s')\<rparr>"
    have "dgood P pw path ?d" using t(2) by (simp add: dgood_def)
    from assms(5) [OF this, of "()"] show ?thesis
      unfolding o 2(1) by (simp add: dm_bind_def raised_def on_store_def t(1))
  qed
qed

lemma remove_collection_change:
  assumes "good P pw path (h, v)"
  shows "(\<exists>x. snd (vault_remove_collection cid v) = Inr x) \<and> saveable P pw (fst (vault_remove_collection cid v)) \<and>
    va_path (fst (vault_remove_collection cid v)) = path"
proof -
  from assms have u: "saveable P pw v" "va_path v = path" by (simp_all add: good_def synced_def)
  obtain v' r where w: "with_payload v (\<lambda>p. Inr (remove_collection cid p, ())) = (v', r)"
    by (cases "with_payload v (\<lambda>p. Inr (remove_collection cid p, ()) :: (payload \<times> unit) kc)")
  have "saveable P pw v' \<and> va_path v' = va_path v"
    by (rule data_op_keeps [OF w u(1)]) (auto intro: remove_collection_wf)
  moreover have "r = Inr ()"
    using w u(1) by (auto simp: with_payload_def saveable_def is_locked_def)
  ultimately show ?thesis using w u by (simp add: vault_remove_collection_def)
qed

lemma remove_collection_object_dgood:
  assumes "primitives_ok P" "calm_call path e" "dgood P pw path d"
  shows "dgood P pw path (fst (remove_collection_object P e cid d))"
  unfolding remove_collection_object_def
proof (rule dm_bind_dgood)
  show "dgood P pw path (fst (on_store d (\<lambda>s. (s, snd (vault_resolve_collection cid (snd s))))))"
    using assms(3) by (intro on_store_dgood) simp_all
  fix d1 :: daemon and col :: "collection option"
  assume d1: "dgood P pw path d1"
  show "dgood P pw path (fst (dm_bind (remove_items P e cid (case col of None \<Rightarrow> [] | Some c \<Rightarrow> map fst (co_items c)) d1)
     (\<lambda>d _. dm_bind (on_store d (\<lambda>(h, v). case vault_remove_collection cid v of (v', r) \<Rightarrow> ((h, v'), r)))
     (\<lambda>d _. dm_bind (on_store d (\<lambda>s. then_save P e s ()))
     (\<lambda>d _. let d1 = d\<lparr>dm_collections := filter (\<lambda>c. c \<noteq> cid) (dm_collections d)\<rparr>
       in case collection_path cid of Inl err \<Rightarrow> (d1, Inl (Raised err))
          | Inr path \<Rightarrow> (emit (CollectionDeleted path) d1, Inr ()))))))"
  proof (rule dm_bind_dgood [OF remove_items_dgood [OF assms(1,2) d1]], rule change_then_save_dgood [OF assms(1,2)])
    fix h v
    assume "good P pw path (h, v)"
    from remove_collection_change [OF this, of cid]
    show "(\<exists>err. snd (case (h, v) of (h, v) \<Rightarrow> case vault_remove_collection cid v of (v', r) \<Rightarrow> ((h, v'), r)) = Inl err) \<and>
       fst (case (h, v) of (h, v) \<Rightarrow> case vault_remove_collection cid v of (v', r) \<Rightarrow> ((h, v'), r)) = (h, v) \<or>
      (\<exists>x. snd (case (h, v) of (h, v) \<Rightarrow> case vault_remove_collection cid v of (v', r) \<Rightarrow> ((h, v'), r)) = Inr x) \<and>
      saveable P pw (snd (fst (case (h, v) of (h, v) \<Rightarrow> case vault_remove_collection cid v of (v', r) \<Rightarrow> ((h, v'), r)))) \<and>
      va_path (snd (fst (case (h, v) of (h, v) \<Rightarrow> case vault_remove_collection cid v of (v', r) \<Rightarrow> ((h, v'), r)))) = path"
      by (cases "vault_remove_collection cid v") simp
  next
    fix d2 :: daemon and u :: unit
    assume "dgood P pw path d2"
    then show "dgood P pw path (fst (let d1 = d2\<lparr>dm_collections := filter (\<lambda>c. c \<noteq> cid) (dm_collections d2)\<rparr>
       in case collection_path cid of Inl err \<Rightarrow> (d1, Inl (Raised err))
          | Inr path \<Rightarrow> (emit (CollectionDeleted path) d1, Inr ())))"
      by (cases "collection_path cid") (simp_all add: Let_def)
  qed
qed

lemma item_set_label_dgood:
  assumes "primitives_ok P" "calm_call path e" "dgood P pw path d"
  shows "dgood P pw path (fst (item_set_label P e cid iid l d))"
  unfolding item_set_label_def
proof (rule change_then_save_dgood [OF assms])
  fix h v
  assume g: "good P pw path (h, v)"
  obtain v' r where u: "vault_update_item e cid iid (Some l) None v = (v', r)"
    by (cases "vault_update_item e cid iid (Some l) None v")
  from update_item_good [OF g u]
  show "(\<exists>err. snd (case (h, v) of (h, v) \<Rightarrow> case vault_update_item e cid iid (Some l) None v of (v', r) \<Rightarrow> ((h, v'), r)) = Inl err) \<and>
      fst (case (h, v) of (h, v) \<Rightarrow> case vault_update_item e cid iid (Some l) None v of (v', r) \<Rightarrow> ((h, v'), r)) = (h, v) \<or>
    (\<exists>x. snd (case (h, v) of (h, v) \<Rightarrow> case vault_update_item e cid iid (Some l) None v of (v', r) \<Rightarrow> ((h, v'), r)) = Inr x) \<and>
      saveable P pw (snd (fst (case (h, v) of (h, v) \<Rightarrow> case vault_update_item e cid iid (Some l) None v of (v', r) \<Rightarrow> ((h, v'), r)))) \<and>
      va_path (snd (fst (case (h, v) of (h, v) \<Rightarrow> case vault_update_item e cid iid (Some l) None v of (v', r) \<Rightarrow> ((h, v'), r)))) = path"
    by (simp add: u)
qed simp

lemma item_set_secret_dgood:
  assumes "primitives_ok P" "calm_call path e" "dgood P pw path d"
  shows "dgood P pw path (fst (item_set_secret T P e cid iid secret d))"
  unfolding item_set_secret_def using assms(3)
  by (cases secret) (auto intro!: dm_bind_dgood on_store_dgood pure_dgood set_item_secret_good [OF assms(1,2)])

lemma collection_create_item_dgood:
  assumes "primitives_ok P" "calm_call path e" "dgood P pw path d" "case attrs of None \<Rightarrow> True | Some a \<Rightarrow> distinct (map fst a)"
  shows "dgood P pw path (fst (collection_create_item T P e cid lbl attrs secret replace d))"
proof -
  have a: "distinct (map fst (case attrs of None \<Rightarrow> [] | Some a \<Rightarrow> a))" using assms(4) by (cases attrs) auto
  show ?thesis
    unfolding collection_create_item_def using assms(3)
    by (cases secret)
      (simp, intro dm_bind_dgood on_store_dgood pure_dgood create_item_good [OF assms(1,2) _ a];
        simp add: dm_bind_dgood pure_dgood split: option.splits)
qed

lemma service_open_session_dgood:
  "dgood P pw path d \<Longrightarrow> dgood P pw path (fst (service_open_session T P draw a i d))"
  using good_draws [of P pw path "fst (dm_store d)" "snd (dm_store d)" "(fst (dm_store d))\<lparr>ho_draws := Suc (ho_draws (fst (dm_store d)))\<rparr>"]
  by (auto simp: service_open_session_def Let_def dgood_def export_session_def split: sum.splits prod.splits)

definition request_ok :: "string \<Rightarrow> bus_env \<times> request \<Rightarrow> bool" where
  "request_ok path =
     (\<lambda>(b, r). calm_call path (be_call b) \<and>
        (case r of ToCollection _ (CreateItem _ (Some a) _ _) \<Rightarrow> distinct (map fst a) | _ \<Rightarrow> True))"

lemma item_call_dgood:
  assumes "primitives_ok P" "calm_call path (be_call b)" "dgood P pw path d"
  shows "dgood P pw path (fst (item_call T P b cid iid r d))"
proof (cases r)
  case DeleteItem
  then show ?thesis using remove_item_object_dgood [OF assms] by (simp add: item_delete_def dm_bind_dgood)
next
  case (GetSecret s)
  then show ?thesis
    using assms(3) by (auto simp: item_get_secret_def intro!: dm_bind_dgood pure_dgood split: option.splits prod.splits)
qed (use assms item_set_secret_dgood item_set_label_dgood in \<open>simp_all add: or_default_dgood pure_dgood\<close>)

lemma collection_call_dgood:
  assumes "primitives_ok P" "request_ok path (b, ToCollection q r)" "dgood P pw path d"
  shows "dgood P pw path (fst (collection_call T P b cid r d))"
proof (cases r)
  case (CreateItem l as sec rep)
  then show ?thesis
    using collection_create_item_dgood [OF assms(1) _ assms(3), of "be_call b" as] assms(2)
    by (simp add: request_ok_def split: option.splits)
next
  case DeleteCollection
  then show ?thesis
    using remove_collection_object_dgood [OF assms(1) _ assms(3)] assms(2) by (simp add: request_ok_def dm_bind_dgood)
qed (use assms(3) in \<open>simp_all add: or_default_dgood pure_dgood dm_bind_dgood\<close>)

lemma daemon_call_dgood:
  assumes "primitives_ok P" "request_ok path (b, r)" "dgood P pw path d"
  shows "dgood P pw path (fst (daemon_call T P b r d))"
proof -
  have c: "calm_call path (be_call b)" using assms(2) by (simp add: request_ok_def)
  show ?thesis
  proof (cases r)
    case (ToItem q ir)
    then show ?thesis using item_call_dgood [OF assms(1) c assms(3)] assms(3) by (simp split: option.splits prod.splits)
  next
    case (ToCollection q cr)
    then show ?thesis using collection_call_dgood [OF assms(1) _ assms(3)] assms(2,3) by (simp split: option.splits)
  next
    case (CreateCollection l a)
    then show ?thesis
      using assms(3)
      by (auto simp: service_create_collection_def
          intro!: dm_bind_dgood on_store_dgood pure_dgood create_collection_good [OF assms(1) c])
  next
    case (ReadAlias n)
    then show ?thesis
      using assms(3) by (auto simp: service_read_alias_def intro!: dm_bind_dgood pure_dgood split: option.splits)
  next
    case (SetAlias n q)
    then show ?thesis
      using assms(3)
      by (auto simp: service_set_alias_def intro!: dm_bind_dgood on_store_dgood set_alias_good [OF assms(1) c]
          split: option.splits)
  next
    case (GetSecrets ps s)
    then show ?thesis using assms(3) by (auto simp: service_get_secrets_def intro!: dm_bind_dgood pure_dgood)
  qed (use assms(3) service_open_session_dgood in \<open>simp_all add: dm_bind_dgood pure_dgood\<close>)
qed

lemma run_daemon_dgood:
  assumes "primitives_ok P" "list_all (request_ok path) rs" "dgood P pw path d"
  shows "dgood P pw path (run_daemon T P rs d)"
  using assms(2,3)
proof (induction rs arbitrary: d)
  case (Cons br rs)
  then show ?case using daemon_call_dgood [OF assms(1)] by (cases br) simp
qed simp

lemma export_items_dgood: "dgood P pw path d \<Longrightarrow> dgood P pw path (fst (export_items cid iids d))"
  by (induction iids arbitrary: d) (simp_all add: dm_bind_dgood pure_dgood)

lemma export_all_dgood: "dgood P pw path d \<Longrightarrow> dgood P pw path (fst (export_all cs d))"
  by (induction cs arbitrary: d) (simp_all add: dm_bind_dgood pure_dgood export_items_dgood)

lemma serve_dgood: "good P pw path s \<Longrightarrow> dgood P pw path (fst (serve s))"
  unfolding serve_def
  by (intro dm_bind_dgood pure_dgood export_all_dgood) (simp_all add: dgood_def KeyringDaemon_def)

section \<open>Properties\<close>


definition plain_transport :: transport where
  "plain_transport =
     \<lparr>tr_hmac = (\<lambda>k m. replicate 32 NUL), tr_encrypt = (\<lambda>k iv s. s), tr_decrypt = (\<lambda>k iv s. Some s)\<rparr>"

definition calm_bus :: bus_env where
  "calm_bus = \<lparr>be_call = calm, be_iv = [], be_draw = 0\<rparr>"


text \<open>Item paths name the item they are exported for.\<close>

definition items_named :: "daemon \<Rightarrow> bool" where
  "items_named d = list_all (\<lambda>(path, cid, iid). item_path cid iid = Inr path) (dm_items d)"

lemma path_roundtrip: "item_path c i = Inr path \<Longrightarrow> parse_item_path path = Some (c, i)"
  using path_rest_prefix [of "c @ ''/'' @ i"] split_slash [of c i] safe_no_slash [of c] safe_no_slash [of i]
  by (auto simp: item_path_def parse_item_path_def split: if_splits)

lemma item_path_inj: "item_path c i = Inr path \<Longrightarrow> item_path c' i' = Inr path \<Longrightarrow> c' = c \<and> i' = i"
  using path_roundtrip [of c i path] path_roundtrip [of c' i' path] by simp

lemma dm_bind_simps: "dm_bind (d, Inr x) f = f d x" "dm_bind (d, Inl e) f = (d, Inl e)"
  "raised (Inr x) = Inr x" "raised (Inl e') = Inl (Raised e')"
  by (simp_all add: dm_bind_def raised_def)

lemma created_reply:
  assumes "collection_create_item T P e cid lbl attrs (s1, params, val, ct) replace d = (d', Inr (PairReply path prompt))"
  shows "\<exists>sess plaintext iid. registry_get s1 (dm_sessions d) = Some sess \<and> decode_secret T sess params val = Inr plaintext \<and>
    create_item P e cid (case lbl of None \<Rightarrow> [] | Some l \<Rightarrow> l) (case attrs of None \<Rightarrow> [] | Some a \<Rightarrow> a) plaintext replace (dm_store d)
      = (dm_store d', Inr (Some iid)) \<and>
    item_path cid iid = Inr path \<and> dm_sessions d' = dm_sessions d \<and>
    dm_items d' = (if map_of (dm_items d) path = None then dict_set path (cid, iid) (dm_items d) else dm_items d)"
proof -
  let ?l = "case lbl of None \<Rightarrow> [] | Some l \<Rightarrow> l"
  let ?a = "case attrs of None \<Rightarrow> [] | Some a \<Rightarrow> a"
  obtain sess where s: "registry_get s1 (dm_sessions d) = Some sess"
    using assms by (auto simp: collection_create_item_def dm_bind_def session_of_def split: option.splits)
  obtain plaintext where p: "decode_secret T sess params val = Inr plaintext"
    using assms s
    by (cases "decode_secret T sess params val") (auto simp: collection_create_item_def dm_bind_def session_of_def asking_def raised_def)
  obtain st r where c: "create_item P e cid ?l ?a plaintext replace (dm_store d) = (st, r)"
    by (cases "create_item P e cid ?l ?a plaintext replace (dm_store d)")
  have u: "collection_create_item T P e cid lbl attrs (s1, params, val, ct) replace d =
    dm_bind (d\<lparr>dm_store := st\<rparr>, raised r) (\<lambda>d made.
          case made of None \<Rightarrow> (d, Inl NoObject)
          | Some iid \<Rightarrow>
              dm_bind (asking d (\<lambda>_. item_path cid iid)) (\<lambda>d path.
              dm_bind (if map_of (dm_items d) path = None then export_item cid iid d else (d, Inr ())) (\<lambda>d _.
                (emit (ItemCreated path) d, Inr (PairReply path NO_PROMPT)))))"
    by (simp add: collection_create_item_def session_of_def s dm_bind_simps on_store_def c p
        asking_def [of d])
  obtain iid where r: "r = Inr (Some iid)"
    using assms unfolding u by (auto simp: dm_bind_def raised_def split: sum.splits option.splits)
  obtain q where q: "item_path cid iid = Inr q"
    using assms unfolding u r by (cases "item_path cid iid") (auto simp: dm_bind_def raised_def asking_def)
  have "path = q" "d' = emit (ItemCreated q) ((d\<lparr>dm_store := st\<rparr>)\<lparr>dm_items :=
      (if map_of (dm_items d) q = None then dict_set q (cid, iid) (dm_items d) else dm_items d)\<rparr>)"
    using assms unfolding u r by (auto simp: dm_bind_def raised_def asking_def q export_item_def split: if_splits)
  then show ?thesis
    using s p c r q by (simp add: emit_def)
qed


definition open_vault :: vault where
  "open_vault = \<lparr>va_path = ''/v/default'', va_key = Some (replicate 32 NUL), va_payload = Some (new_default 0 ''c1''),
     va_kdf = Some (kdf_generate plain_primitives 0)\<rparr>"

definition open_daemon :: daemon where
  "open_daemon = \<lparr>dm_store = (\<lparr>ho_files = Map.empty, ho_draws = 0\<rparr>, open_vault),
     dm_sessions = [(''s1'', PlainSession ''1''), (''s2'', DhSession ''2'' [])], dm_collections = [''c1''], dm_items = [],
     dm_session_ifaces = [''s1'', ''s2''], dm_signals = []\<rparr>"


end
