(* ===== verification/Drydock.thy ===== *)
theory Drydock
  imports Json GpuDetect AtomicWrite
begin

text \<open>
  The data of Drydock, the manager of Wine and Proton prefixes: barrels and their programs
  (\<open>gest/core/drydock/model.py\<close>), recipes (\<open>recipe.py\<close>), the store of barrels
  (\<open>barrels.py\<close>), the step from a recipe to a barrel and back (\<open>materialize.py\<close>) and
  the linter (\<open>recipe_lint.py\<close>). A document is its JSON value; fields the code copies
  without a conversion stay JSON values.
\<close>

section \<open>Barrels (model.py)\<close>

definition RUNNER_PROTON :: string where "RUNNER_PROTON = ''proton''"
definition RUNNER_WINE :: string where "RUNNER_WINE = ''wine''"
definition RUNNERS :: "string list" where "RUNNERS = [RUNNER_PROTON, RUNNER_WINE]"
definition ARCH_WIN64 :: string where "ARCH_WIN64 = ''win64''"
definition ARCH_WIN32 :: string where "ARCH_WIN32 = ''win32''"
definition ARCHES :: "string list" where "ARCHES = [ARCH_WIN64, ARCH_WIN32]"
definition CONFIG_VERSION :: int where "CONFIG_VERSION = 1"

record graphics =
  gr_gamescope :: json
  gr_width :: json
  gr_height :: json
  gr_fsr :: json
  gr_hdr :: json
  gr_gamemode :: json
  gr_mangohud :: json
  gr_dxvk_hud :: json
  gr_fps_cap :: json
  gr_esync :: json
  gr_fsync :: json

definition GraphicsProfile :: graphics where
  "GraphicsProfile =
     \<lparr>gr_gamescope = JBool False, gr_width = JNum 0, gr_height = JNum 0, gr_fsr = JBool False, gr_hdr = JBool False,
      gr_gamemode = JBool False, gr_mangohud = JBool False, gr_dxvk_hud = JStr [], gr_fps_cap = JNum 0,
      gr_esync = JBool True, gr_fsync = JBool True\<rparr>"

definition graphics_to_dict :: "graphics \<Rightarrow> json" where
  "graphics_to_dict g = JObj
     [(''gamescope'', gr_gamescope g), (''gamescope_width'', gr_width g), (''gamescope_height'', gr_height g),
      (''fsr'', gr_fsr g), (''hdr'', gr_hdr g), (''gamemode'', gr_gamemode g), (''mangohud'', gr_mangohud g),
      (''dxvk_hud'', gr_dxvk_hud g), (''fps_cap'', gr_fps_cap g), (''esync'', gr_esync g), (''fsync'', gr_fsync g)]"

definition GRAPHICS_SLOTS :: "string list" where
  "GRAPHICS_SLOTS = [''gamescope'', ''gamescope_width'', ''gamescope_height'', ''fsr'', ''hdr'', ''gamemode'',
     ''mangohud'', ''dxvk_hud'', ''fps_cap'', ''esync'', ''fsync'']"

definition field_or :: "(string \<times> json) list \<Rightarrow> string \<Rightarrow> json \<Rightarrow> json" where
  "field_or kvs k dflt = (case map_of kvs k of Some v \<Rightarrow> v | None \<Rightarrow> dflt)"

definition graphics_of :: "(string \<times> json) list \<Rightarrow> graphics" where
  "graphics_of kvs =
     \<lparr>gr_gamescope = field_or kvs ''gamescope'' (JBool False), gr_width = field_or kvs ''gamescope_width'' (JNum 0),
      gr_height = field_or kvs ''gamescope_height'' (JNum 0), gr_fsr = field_or kvs ''fsr'' (JBool False),
      gr_hdr = field_or kvs ''hdr'' (JBool False), gr_gamemode = field_or kvs ''gamemode'' (JBool False),
      gr_mangohud = field_or kvs ''mangohud'' (JBool False), gr_dxvk_hud = field_or kvs ''dxvk_hud'' (JStr []),
      gr_fps_cap = field_or kvs ''fps_cap'' (JNum 0), gr_esync = field_or kvs ''esync'' (JBool True),
      gr_fsync = field_or kvs ''fsync'' (JBool True)\<rparr>"

text \<open>\<open>{k: d[k] for k in d if k in slots}\<close>: an array is iterated too, and indexing it with a
  slot's name raises.\<close>

fun graphics_from_dict :: "json \<Rightarrow> graphics read" where
  "graphics_from_dict (JObj kvs) = Inr (graphics_of kvs)"
| "graphics_from_dict (JStr s) = Inr GraphicsProfile"
| "graphics_from_dict (JArr js) =
     (if list_ex (\<lambda>j. case j of JStr s \<Rightarrow> s \<in> set GRAPHICS_SLOTS | _ \<Rightarrow> False) js then Inl (Py (TypeError ''index''))
      else Inr GraphicsProfile)"
| "graphics_from_dict _ = Inl (Py (TypeError ''iter''))"

record program =
  pg_id :: string
  pg_name :: string
  pg_exe :: string
  pg_args :: "string list"
  pg_category :: string
  pg_wm_class :: string
  pg_graphics :: graphics

definition program_to_dict :: "program \<Rightarrow> json" where
  "program_to_dict p = JObj
     [(''id'', JStr (pg_id p)), (''name'', JStr (pg_name p)), (''exe'', JStr (pg_exe p)),
      (''args'', JArr (map JStr (pg_args p))), (''category'', JStr (pg_category p)),
      (''wm_class'', JStr (pg_wm_class p)), (''graphics'', graphics_to_dict (pg_graphics p))]"

definition jtext :: "json \<Rightarrow> string \<Rightarrow> string \<Rightarrow> string read" where
  "jtext d k dflt = res_bind (jget d k (JStr dflt)) (\<lambda>v. Inr (json_str v))"

definition jlist :: "json \<Rightarrow> string \<Rightarrow> string list read" where
  "jlist d k = res_bind (jget d k (JArr [])) jstrs"

definition jenv :: "json \<Rightarrow> string \<Rightarrow> (string \<times> string) list read" where
  "jenv d k =
     res_bind (jget d k (JObj [])) (\<lambda>v. res_bind (jdict v) (\<lambda>kvs. Inr (map (\<lambda>(k, v). (k, json_str v)) kvs)))"

definition jflag :: "json \<Rightarrow> string \<Rightarrow> bool read" where
  "jflag d k = res_bind (jget d k (JBool False)) (\<lambda>v. Inr (jbool v))"

definition jeach :: "(json \<Rightarrow> 'a read) \<Rightarrow> json \<Rightarrow> string \<Rightarrow> 'a list read" where
  "jeach f d k = res_bind (jget d k (JArr [])) (\<lambda>v. res_bind (jiter v) (res_map f))"

definition program_from_dict :: "json \<Rightarrow> program read" where
  "program_from_dict d =
     res_bind (jitem d ''id'') (\<lambda>i.
     res_bind (jtext d ''name'' []) (\<lambda>n.
     res_bind (jtext d ''exe'' []) (\<lambda>x.
     res_bind (jlist d ''args'') (\<lambda>as.
     res_bind (jtext d ''category'' ''Application'') (\<lambda>c.
     res_bind (jtext d ''wm_class'' []) (\<lambda>w.
     res_bind (res_bind (jget d ''graphics'' (JObj [])) graphics_from_dict) (\<lambda>g.
       Inr \<lparr>pg_id = json_str i, pg_name = n, pg_exe = x, pg_args = as, pg_category = c, pg_wm_class = w,
            pg_graphics = g\<rparr>)))))))"

record barrel =
  ba_id :: string
  ba_name :: string
  ba_runner :: string
  ba_runner_version :: string
  ba_arch :: string
  ba_prefix :: string
  ba_verbs :: "string list"
  ba_dxvk :: bool
  ba_vkd3d :: bool
  ba_env :: "(string \<times> string) list"
  ba_programs :: "program list"

definition is_valid :: "barrel \<Rightarrow> bool" where
  "is_valid b = (ba_id b \<noteq> [] \<and> ba_runner b \<in> set RUNNERS \<and> ba_arch b \<in> set ARCHES)"

definition barrel_program :: "string \<Rightarrow> barrel \<Rightarrow> program option" where
  "barrel_program pid b = find (\<lambda>p. pg_id p = pid) (ba_programs b)"

definition barrel_to_dict :: "barrel \<Rightarrow> json" where
  "barrel_to_dict b = JObj
     [(''version'', JNum CONFIG_VERSION), (''id'', JStr (ba_id b)), (''name'', JStr (ba_name b)),
      (''runner'', JStr (ba_runner b)), (''runner_version'', JStr (ba_runner_version b)),
      (''arch'', JStr (ba_arch b)), (''prefix'', JStr (ba_prefix b)), (''verbs'', JArr (map JStr (ba_verbs b))),
      (''dxvk'', JBool (ba_dxvk b)), (''vkd3d'', JBool (ba_vkd3d b)),
      (''env'', JObj (map (\<lambda>(k, v). (k, JStr v)) (ba_env b))),
      (''programs'', JArr (map program_to_dict (ba_programs b)))]"

definition barrel_from_dict :: "json \<Rightarrow> barrel read" where
  "barrel_from_dict d =
     res_bind (jitem d ''id'') (\<lambda>i.
     res_bind (jtext d ''name'' []) (\<lambda>n.
     res_bind (jitem d ''runner'') (\<lambda>r.
     res_bind (jtext d ''runner_version'' []) (\<lambda>rv.
     res_bind (jtext d ''arch'' ARCH_WIN64) (\<lambda>a.
     res_bind (jtext d ''prefix'' []) (\<lambda>p.
     res_bind (jlist d ''verbs'') (\<lambda>vs.
     res_bind (jflag d ''dxvk'') (\<lambda>dx.
     res_bind (jflag d ''vkd3d'') (\<lambda>vk.
     res_bind (jenv d ''env'') (\<lambda>e.
     res_bind (jeach program_from_dict d ''programs'') (\<lambda>ps.
       Inr \<lparr>ba_id = json_str i, ba_name = n, ba_runner = json_str r, ba_runner_version = rv, ba_arch = a,
            ba_prefix = p, ba_verbs = vs, ba_dxvk = dx, ba_vkd3d = vk, ba_env = e, ba_programs = ps\<rparr>)))))))))))"

section \<open>Recipes (recipe.py)\<close>

definition RECIPE_VERSION :: int where "RECIPE_VERSION = 1"

record recipe_file =
  rf_id :: string
  rf_url :: string
  rf_filename :: string
  rf_user_provided :: string

definition recipe_file_to_dict :: "recipe_file \<Rightarrow> json" where
  "recipe_file_to_dict f = JObj
     ((''id'', JStr (rf_id f)) #
      (if rf_user_provided f \<noteq> [] then [(''user_provided'', JStr (rf_user_provided f))]
       else (''url'', JStr (rf_url f)) # (if rf_filename f \<noteq> [] then [(''filename'', JStr (rf_filename f))] else [])))"

definition recipe_file_from_dict :: "json \<Rightarrow> recipe_file read" where
  "recipe_file_from_dict d =
     res_bind (jitem d ''id'') (\<lambda>i.
     res_bind (jtext d ''url'' []) (\<lambda>u.
     res_bind (jtext d ''filename'' []) (\<lambda>f.
     res_bind (jtext d ''user_provided'' []) (\<lambda>p.
       Inr \<lparr>rf_id = json_str i, rf_url = u, rf_filename = f, rf_user_provided = p\<rparr>))))"

record recipe_step =
  rs_action :: string
  rs_params :: "(string \<times> json) list"

definition recipe_step_to_dict :: "recipe_step \<Rightarrow> json" where
  "recipe_step_to_dict s = JObj [(''action'', JStr (rs_action s)), (''params'', JObj (rs_params s))]"

definition recipe_step_from_dict :: "json \<Rightarrow> recipe_step read" where
  "recipe_step_from_dict d =
     res_bind (jitem d ''action'') (\<lambda>a.
     res_bind (res_bind (jget d ''params'' (JObj [])) jdict) (\<lambda>p.
       Inr \<lparr>rs_action = json_str a, rs_params = p\<rparr>))"

record recipe_program =
  rp_name :: string
  rp_exe :: string
  rp_args :: "string list"
  rp_category :: string

definition recipe_program_to_dict :: "recipe_program \<Rightarrow> json" where
  "recipe_program_to_dict p = JObj
     [(''name'', JStr (rp_name p)), (''exe'', JStr (rp_exe p)), (''args'', JArr (map JStr (rp_args p))),
      (''category'', JStr (rp_category p))]"

definition recipe_program_from_dict :: "json \<Rightarrow> recipe_program read" where
  "recipe_program_from_dict d =
     res_bind (jtext d ''name'' []) (\<lambda>n.
     res_bind (jtext d ''exe'' []) (\<lambda>x.
     res_bind (jlist d ''args'') (\<lambda>as.
     res_bind (jtext d ''category'' ''Application'') (\<lambda>c.
       Inr \<lparr>rp_name = n, rp_exe = x, rp_args = as, rp_category = c\<rparr>))))"

record recipe_barrel =
  rb_runner :: string
  rb_arch :: string
  rb_verbs :: "string list"
  rb_dxvk :: bool
  rb_vkd3d :: bool
  rb_env :: "(string \<times> string) list"

definition recipe_barrel_to_dict :: "recipe_barrel \<Rightarrow> json" where
  "recipe_barrel_to_dict b = JObj
     [(''runner'', JStr (rb_runner b)), (''arch'', JStr (rb_arch b)), (''verbs'', JArr (map JStr (rb_verbs b))),
      (''dxvk'', JBool (rb_dxvk b)), (''vkd3d'', JBool (rb_vkd3d b)),
      (''env'', JObj (map (\<lambda>(k, v). (k, JStr v)) (rb_env b)))]"

definition recipe_barrel_from_dict :: "json \<Rightarrow> recipe_barrel read" where
  "recipe_barrel_from_dict d =
     res_bind (jtext d ''runner'' RUNNER_WINE) (\<lambda>r.
     res_bind (jtext d ''arch'' ARCH_WIN64) (\<lambda>a.
     res_bind (jlist d ''verbs'') (\<lambda>vs.
     res_bind (jflag d ''dxvk'') (\<lambda>dx.
     res_bind (jflag d ''vkd3d'') (\<lambda>vk.
     res_bind (jenv d ''env'') (\<lambda>e.
       Inr \<lparr>rb_runner = r, rb_arch = a, rb_verbs = vs, rb_dxvk = dx, rb_vkd3d = vk, rb_env = e\<rparr>))))))"

record recipe =
  rc_app_name :: string
  rc_app_id :: string
  rc_categories :: "string list"
  rc_barrel :: recipe_barrel
  rc_files :: "recipe_file list"
  rc_steps :: "recipe_step list"
  rc_programs :: "recipe_program list"
  rc_prereqs :: string

definition recipe_to_dict :: "recipe \<Rightarrow> json" where
  "recipe_to_dict r = JObj
     [(''recipe'', JNum RECIPE_VERSION),
      (''app'', JObj [(''name'', JStr (rc_app_name r)), (''id'', JStr (rc_app_id r)),
                      (''categories'', JArr (map JStr (rc_categories r)))]),
      (''barrel'', recipe_barrel_to_dict (rc_barrel r)),
      (''files'', JArr (map recipe_file_to_dict (rc_files r))),
      (''steps'', JArr (map recipe_step_to_dict (rc_steps r))),
      (''programs'', JArr (map recipe_program_to_dict (rc_programs r))),
      (''prereqs'', JStr (rc_prereqs r))]"

definition recipe_from_dict :: "json \<Rightarrow> recipe read" where
  "recipe_from_dict d =
     res_bind (res_bind (jget d ''app'' (JObj [])) jdict) (\<lambda>app.
     res_bind (res_bind (jget (JObj app) ''categories'' (JArr [JStr ''Application''])) jstrs) (\<lambda>cs.
     res_bind (res_bind (jget d ''barrel'' (JObj [])) recipe_barrel_from_dict) (\<lambda>b.
     res_bind (jeach recipe_file_from_dict d ''files'') (\<lambda>fs.
     res_bind (jeach recipe_step_from_dict d ''steps'') (\<lambda>ss.
     res_bind (jeach recipe_program_from_dict d ''programs'') (\<lambda>ps.
     res_bind (jtext d ''prereqs'' ''auto'') (\<lambda>q.
       Inr \<lparr>rc_app_name = json_str (field_or app ''name'' (JStr [])), rc_app_id = json_str (field_or app ''id'' (JStr [])),
            rc_categories = cs, rc_barrel = b, rc_files = fs, rc_steps = ss, rc_programs = ps, rc_prereqs = q\<rparr>)))))))"

section \<open>Ids and the store (barrels.py)\<close>

definition id_char :: "char \<Rightarrow> bool" where
  "id_char c = (lower_az c \<or> dec_digit c)"

definition is_safe_id :: "string \<Rightarrow> bool" where
  "is_safe_id s =
     (case s of [] \<Rightarrow> False
      | c # cs \<Rightarrow> id_char c \<and> list_all (\<lambda>d. id_char d \<or> d = CHR ''_'' \<or> d = CHR ''-'') cs \<and> length s \<le> 128)"

text \<open>Each run of other characters becomes one dash.\<close>

fun dash_runs :: "bool \<Rightarrow> string \<Rightarrow> string" where
  "dash_runs inrun [] = []"
| "dash_runs inrun (c # cs) =
     (if id_char c then c # dash_runs False cs
      else if inrun then dash_runs True cs else CHR ''-'' # dash_runs True cs)"

definition slug :: "string \<Rightarrow> string" where
  "slug name =
     (let s = rstrip_char (CHR ''-'') (lstrip_char (CHR ''-'') (dash_runs False (lower name)))
      in if s = [] then ''barrel'' else s)"

text \<open>The data directory is the expanded base; a barrel's directory lies directly under it.\<close>

definition barrel_dir :: "string \<Rightarrow> string \<Rightarrow> string read" where
  "barrel_dir base bid = (if is_safe_id bid then Inr (path_join2 base bid) else Inl (Py (ValueError ''unsafe barrel id'')))"

definition config_path :: "string \<Rightarrow> string \<Rightarrow> string read" where
  "config_path base bid = res_bind (barrel_dir base bid) (\<lambda>d. Inr (d @ ''/config.json''))"

definition default_prefix :: "string \<Rightarrow> string \<Rightarrow> string read" where
  "default_prefix base bid = res_bind (barrel_dir base bid) (\<lambda>d. Inr (d @ ''/prefix''))"

text \<open>None as the content of a file is a text that is not JSON.\<close>

definition load_barrel :: "string \<Rightarrow> string \<Rightarrow> json_files \<Rightarrow> barrel option read" where
  "load_barrel base bid fs =
     (case config_path base bid of
        Inl _ \<Rightarrow> Inr None
      | Inr path \<Rightarrow>
          (case fs path of
             None \<Rightarrow> Inr None
           | Some (None, _) \<Rightarrow> Inr None
           | Some (Some j, _) \<Rightarrow>
               (case barrel_from_dict j of
                  Inr b \<Rightarrow> Inr (Some b)
                | Inl (Py (KeyError _)) \<Rightarrow> Inr None
                | Inl (Py (ValueError _)) \<Rightarrow> Inr None
                | Inl e \<Rightarrow> Inl e)))"

definition save_barrel ::
    "(write_op \<Rightarrow> bool) \<Rightarrow> string \<Rightarrow> json option \<Rightarrow> string \<Rightarrow> barrel \<Rightarrow> json_files \<Rightarrow> json_files \<times> barrel \<times> string read" where
  "save_barrel fault tmp partial base b fs =
     (case (if ba_prefix b = [] then default_prefix base (ba_id b) else Inr (ba_prefix b)) of
        Inl e \<Rightarrow> (fs, b, Inl e)
      | Inr pfx \<Rightarrow>
          (let b' = b\<lparr>ba_prefix := pfx\<rparr>
           in case config_path base (ba_id b) of
                Inl e \<Rightarrow> (fs, b', Inl e)
              | Inr path \<Rightarrow>
                  (case replace_file (\<lambda>op. op \<noteq> Chmod \<and> fault op) tmp partial (Some MODE_644) path
                      (Some (barrel_to_dict b')) fs of
                     (fs', Inl e) \<Rightarrow> (fs', b', Inl (Py e)) | (fs', Inr p) \<Rightarrow> (fs', b', Inr p))))"

text \<open>\<open>shutil.rmtree\<close> of the barrel's directory: every file below it is gone.\<close>

definition delete_barrel :: "string \<Rightarrow> string \<Rightarrow> (string \<Rightarrow> bool) \<Rightarrow> json_files \<Rightarrow> json_files \<times> bool" where
  "delete_barrel base bid is_dir fs =
     (case barrel_dir base bid of
        Inl _ \<Rightarrow> (fs, False)
      | Inr d \<Rightarrow>
          (if \<not> is_dir d then (fs, False)
           else ((\<lambda>p. if startswith p (d @ ''/'') then None else fs p), True)))"

section \<open>From a recipe to a barrel and back (materialize.py)\<close>

text \<open>The loop that numbers a repeated id; the fuel bounds its rounds.\<close>

fun fresh_id :: "nat \<Rightarrow> string list \<Rightarrow> string \<Rightarrow> string \<Rightarrow> nat \<Rightarrow> string option" where
  "fresh_id fuel seen base pid n =
     (if pid \<notin> set seen then Some pid
      else case fuel of 0 \<Rightarrow> None | Suc m \<Rightarrow> fresh_id m seen base (base @ ''-'' @ nat_str n) (Suc n))"

definition or_else :: "string \<Rightarrow> string \<Rightarrow> string" where
  "or_else a b = (if a \<noteq> [] then a else b)"

fun make_programs :: "string list \<Rightarrow> recipe_program list \<Rightarrow> program list option" where
  "make_programs seen [] = Some []"
| "make_programs seen (p # ps) =
     (let base = slug (or_else (or_else (rp_name p) (rp_exe p)) ''app'')
      in case fresh_id (length seen) seen base base 2 of
           None \<Rightarrow> None
         | Some pid \<Rightarrow>
             map_option ((#) \<lparr>pg_id = pid, pg_name = or_else (rp_name p) pid, pg_exe = rp_exe p, pg_args = rp_args p,
                              pg_category = rp_category p, pg_wm_class = [], pg_graphics = GraphicsProfile\<rparr>)
               (make_programs (pid # seen) ps))"

definition barrel_from_recipe :: "recipe \<Rightarrow> string \<Rightarrow> barrel option" where
  "barrel_from_recipe r barrel_id =
     (let bid = slug (or_else (or_else (or_else barrel_id (rc_app_id r)) (rc_app_name r)) ''barrel'')
      in map_option (\<lambda>ps.
           \<lparr>ba_id = bid, ba_name = or_else (rc_app_name r) bid, ba_runner = rb_runner (rc_barrel r),
            ba_runner_version = [], ba_arch = rb_arch (rc_barrel r), ba_prefix = [], ba_verbs = rb_verbs (rc_barrel r),
            ba_dxvk = rb_dxvk (rc_barrel r), ba_vkd3d = rb_vkd3d (rc_barrel r), ba_env = rb_env (rc_barrel r),
            ba_programs = ps\<rparr>) (make_programs [] (rc_programs r)))"

definition recipe_from_barrel :: "barrel \<Rightarrow> recipe" where
  "recipe_from_barrel b =
     \<lparr>rc_app_name = or_else (ba_name b) (ba_id b), rc_app_id = ba_id b,
      rc_categories = [if list_ex (\<lambda>p. pg_category p = ''Game'') (ba_programs b) then ''Game'' else ''Application''],
      rc_barrel = \<lparr>rb_runner = ba_runner b, rb_arch = ba_arch b, rb_verbs = ba_verbs b, rb_dxvk = ba_dxvk b,
                   rb_vkd3d = ba_vkd3d b, rb_env = ba_env b\<rparr>,
      rc_files = [], rc_steps = [],
      rc_programs = map (\<lambda>p. \<lparr>rp_name = pg_name p, rp_exe = pg_exe p, rp_args = pg_args p, rp_category = pg_category p\<rparr>)
        (ba_programs b),
      rc_prereqs = ''auto''\<rparr>"

section \<open>The linter (recipe_lint.py)\<close>

text \<open>The step vocabulary.\<close>

definition COMMAND_ACTIONS :: "string list" where
  "COMMAND_ACTIONS = [''create_prefix'', ''wineexec'', ''winetricks'', ''regedit_file'', ''regedit'', ''regdelete'', ''winekill'']"

definition WRITE_ACTIONS :: "string list" where
  "WRITE_ACTIONS = [''write_file'', ''write_config'', ''write_json'']"

definition VALID_ACTIONS :: "string list" where
  "VALID_ACTIONS = [''extract'', ''move'', ''copy'', ''chmodx'', ''execute''] @ WRITE_ACTIONS @ COMMAND_ACTIONS @ [''eject_disc'', ''manual'']"

datatype issue = Error string | Warning string

fun is_error :: "issue \<Rightarrow> bool" where
  "is_error (Error m) = True"
| "is_error (Warning m) = False"

definition lint_barrel :: "recipe \<Rightarrow> issue list" where
  "lint_barrel r =
     (if rc_app_name r = [] then [Error ''app.name is empty''] else []) @
     (if rb_runner (rc_barrel r) \<notin> set RUNNERS
      then [Error (''barrel.runner '' @ py_repr (rb_runner (rc_barrel r)) @ '' is not one of ['' @
              py_repr RUNNER_PROTON @ '', '' @ py_repr RUNNER_WINE @ '']'')] else []) @
     (if rb_arch (rc_barrel r) \<notin> set ARCHES
      then [Error (''barrel.arch '' @ py_repr (rb_arch (rc_barrel r)) @ '' is not one of ['' @
              py_repr ARCH_WIN32 @ '', '' @ py_repr ARCH_WIN64 @ '']'')] else [])"

definition lint_file :: "recipe_file \<Rightarrow> issue list" where
  "lint_file f =
     (if rf_id f = [] then [Error ''a files entry has no id''] else []) @
     (if rf_url f = [] \<and> rf_user_provided f = []
      then [Warning (''file '' @ py_repr (rf_id f) @ '' has neither a url nor a user_provided prompt'')] else [])"

definition lint_program :: "nat \<Rightarrow> recipe_program \<Rightarrow> issue list" where
  "lint_program index p =
     (if rp_exe p = []
      then [Error (''program '' @ (if rp_name p \<noteq> [] then py_repr (rp_name p) else nat_str index) @ '' has no exe'')]
      else [])"

definition lint_step :: "string list \<Rightarrow> nat \<Rightarrow> recipe_step \<Rightarrow> issue list" where
  "lint_step file_ids number s =
     (if rs_action s \<notin> set VALID_ACTIONS
      then [Error (''step '' @ nat_str number @ '': unknown action '' @ py_repr (rs_action s))]
      else if rs_action s = ''manual''
      then (let original = field_or (rs_params s) ''original'' (JStr [])
            in [Warning (''step '' @ nat_str number @ '': manual step needs a human'' @
                  (if jbool original then '' ('' @ json_str original @ '')'' else []))])
      else []) @
     (if rs_action s = ''extract''
      then (let ref = json_str (field_or (rs_params s) ''file'' (JStr []))
            in if ref \<noteq> [] \<and> CHR ''/'' \<notin> set ref \<and> \<not> startswith ref ''$'' \<and> ref \<notin> set file_ids
               then [Warning (''step '' @ nat_str number @ '': extract references file '' @ py_repr ref @
                       '', which no files entry provides'')] else [])
      else [])"

definition lint :: "recipe \<Rightarrow> issue list" where
  "lint r =
     lint_barrel r @
     concat (map lint_file (rc_files r)) @
     (if rc_programs r = [] then [Warning ''recipe exposes no programs (nothing to launch)''] else []) @
     concat (map (\<lambda>(i, p). lint_program i p) (enumerate 0 (rc_programs r))) @
     concat (map (\<lambda>(n, s). lint_step (map rf_id (rc_files r)) n s) (enumerate 1 (rc_steps r)))"

definition has_errors :: "issue list \<Rightarrow> bool" where
  "has_errors issues = list_ex is_error issues"

section \<open>Reading back what was written\<close>

lemma map_json_str: "map (json_str \<circ> JStr) xs = xs"
  by (simp add: comp_def)

lemma jstrs_JArr [simp]: "jstrs (JArr (map JStr xs)) = Inr xs"
  by (simp add: jstrs_def comp_def)

lemma env_back: "map (\<lambda>(k, v). (k, json_str v)) (map (\<lambda>(k, v). (k, JStr v)) e) = e"
  by (simp add: comp_def case_prod_beta')

lemma res_map_back: "(\<And>x. f (g x) = Inr x) \<Longrightarrow> res_map f (map g xs) = Inr xs"
  by (induction xs) simp_all

lemmas reading_defs = jtext_def jlist_def jenv_def jflag_def jeach_def

lemma graphics_json: "graphics_from_dict (graphics_to_dict g) = Inr g"
  by (simp add: graphics_to_dict_def graphics_of_def field_or_def)

lemma program_json: "program_from_dict (program_to_dict p) = Inr p"
  by (simp add: program_from_dict_def program_to_dict_def reading_defs graphics_json)

lemma barrel_json: "barrel_from_dict (barrel_to_dict b) = Inr b"
  by (simp add: barrel_from_dict_def barrel_to_dict_def reading_defs env_back res_map_back [of program_from_dict program_to_dict, OF program_json]
      del: map_map)

lemma recipe_file_json:
  "recipe_file_from_dict (recipe_file_to_dict f) = Inr f \<longleftrightarrow>
    rf_user_provided f = [] \<or> rf_url f = [] \<and> rf_filename f = []"
  by (cases f) (auto simp: recipe_file_from_dict_def recipe_file_to_dict_def reading_defs)

lemma recipe_step_json: "recipe_step_from_dict (recipe_step_to_dict s) = Inr s"
  by (simp add: recipe_step_from_dict_def recipe_step_to_dict_def)

lemma recipe_program_json: "recipe_program_from_dict (recipe_program_to_dict p) = Inr p"
  by (simp add: recipe_program_from_dict_def recipe_program_to_dict_def reading_defs)

lemma recipe_barrel_json: "recipe_barrel_from_dict (recipe_barrel_to_dict b) = Inr b"
  by (simp add: recipe_barrel_from_dict_def recipe_barrel_to_dict_def reading_defs env_back del: map_map)

definition files_exclusive :: "recipe \<Rightarrow> bool" where
  "files_exclusive r = list_all (\<lambda>f. rf_user_provided f = [] \<or> rf_url f = [] \<and> rf_filename f = []) (rc_files r)"

lemma res_map_back_on: "(\<And>x. x \<in> set xs \<Longrightarrow> f (g x) = Inr x) \<Longrightarrow> res_map f (map g xs) = Inr xs"
  by (induction xs) simp_all

lemma recipe_json:
  assumes "files_exclusive r"
  shows "recipe_from_dict (recipe_to_dict r) = Inr r"
proof -
  have f: "res_map recipe_file_from_dict (map recipe_file_to_dict (rc_files r)) = Inr (rc_files r)"
    using assms by (intro res_map_back_on) (auto simp: recipe_file_json files_exclusive_def list_all_iff)
  show ?thesis
    by (simp add: recipe_from_dict_def recipe_to_dict_def reading_defs recipe_barrel_json f field_or_def
        res_map_back [of recipe_step_from_dict recipe_step_to_dict, OF recipe_step_json]
        res_map_back [of recipe_program_from_dict recipe_program_to_dict, OF recipe_program_json] del: map_map)
qed

section \<open>Ids\<close>

definition slug_char :: "char \<Rightarrow> bool" where
  "slug_char c = (id_char c \<or> c = CHR ''-'')"

lemma dash_runs_chars: "list_all slug_char (dash_runs b s)"
  by (induction b s rule: dash_runs.induct) (simp_all add: slug_char_def)

lemma strip_dashes_chars:
  assumes "list_all slug_char s"
  shows "list_all slug_char (rstrip_char (CHR ''-'') (lstrip_char (CHR ''-'') s))"
  using assms
  by (auto simp: rstrip_char_def lstrip_char_def list_all_iff dest!: set_dropWhileD)

lemma rstrip_char_prefix: "\<exists>t. s = rstrip_char d s @ t"
  unfolding rstrip_char_def
  by (rule exI [of _ "rev (takeWhile (\<lambda>c. c = d) (rev s))"]) (simp flip: rev_append)

lemma rstrip_head: "rstrip_char d s \<noteq> [] \<Longrightarrow> hd (rstrip_char d s) = hd s"
  using rstrip_char_prefix [of s d] by (metis hd_append2)

lemma slug_facts: "slug s \<noteq> [] \<and> list_all slug_char (slug s) \<and> id_char (hd (slug s))"
proof -
  let ?l = "lstrip_char (CHR ''-'') (dash_runs False (lower s))"
  let ?s = "rstrip_char (CHR ''-'') ?l"
  have c: "list_all slug_char ?s" by (rule strip_dashes_chars [OF dash_runs_chars])
  show ?thesis
  proof (cases "?s = []")
    case True
    have "list_all slug_char ''barrel'' \<and> id_char (hd ''barrel'')" by code_simp
    with True show ?thesis by (simp add: slug_def)
  next
    case False
    then have l: "?l \<noteq> []" by (auto simp: rstrip_char_def)
    then have "hd ?l \<noteq> CHR ''-''" 
      using hd_dropWhile [OF l [unfolded lstrip_char_def]] unfolding lstrip_char_def by simp
    moreover have "hd ?s = hd ?l" by (rule rstrip_head [OF False])
    moreover have "slug_char (hd ?s)" using c False by (cases ?s) auto
    ultimately have "id_char (hd ?s)" by (simp add: slug_char_def)
    with False c show ?thesis by (simp add: slug_def)
  qed
qed

text \<open>A slug is a safe id unless it is too long.\<close>

lemma slug_safe: "is_safe_id (slug s) \<longleftrightarrow> length (slug s) \<le> 128"
proof -
  obtain c cs where c: "slug s = c # cs" using slug_facts [of s] by (cases "slug s") auto
  have "id_char c" "list_all slug_char cs" using slug_facts [of s] by (simp_all add: c)
  moreover from this(2) have "list_all (\<lambda>d. id_char d \<or> d = CHR ''_'' \<or> d = CHR ''-'') cs"
    by (auto simp: list_all_iff slug_char_def)
  ultimately show ?thesis by (simp add: is_safe_id_def c)
qed

lemma safe_id_no_slash: "is_safe_id s \<Longrightarrow> CHR ''/'' \<notin> set s \<and> s \<noteq> [] \<and> hd s \<noteq> CHR ''.''"
  by (cases s) (auto simp: is_safe_id_def id_char_def list_all_iff char_class_defs)

section \<open>Numbering repeated ids\<close>

lemma nat_str_inj: "nat_str m = nat_str n \<longleftrightarrow> m = n"
  by (metis digits_val_nat_str option.inject)

definition numbered :: "string \<Rightarrow> nat \<Rightarrow> string" where
  "numbered base n = base @ ''-'' @ nat_str n"

lemma numbered_inj: "numbered base m = numbered base n \<longleftrightarrow> m = n"
  by (simp add: numbered_def nat_str_inj)

lemma fresh_id_found:
  "fresh_id fuel seen base pid n = Some r \<Longrightarrow> r \<notin> set seen \<and> (r = pid \<or> (\<exists>m. r = numbered base m))"
  by (induction fuel arbitrary: pid n) (auto simp: numbered_def split: if_splits)

lemma fresh_id_none:
  "fresh_id fuel seen base pid n = None \<Longrightarrow> pid \<in> set seen \<and> (\<forall>k < fuel. numbered base (n + k) \<in> set seen)"
proof (induction fuel arbitrary: pid n)
  case (Suc m)
  have p: "pid \<in> set seen" and r: "fresh_id m seen base (numbered base n) (Suc n) = None"
    using Suc.prems by (auto simp: numbered_def split: if_splits)
  from Suc.IH [OF r] have i: "numbered base n \<in> set seen" "\<forall>k < m. numbered base (Suc n + k) \<in> set seen" by blast+
  have "numbered base (n + k) \<in> set seen" if "k < Suc m" for k
    using i that by (cases k) auto
  with p show ?case by blast
qed (auto split: if_splits)

text \<open>As many rounds as there are ids seen are enough: one id that was not seen is found.\<close>

lemma fresh_id_total:
  assumes "base \<notin> range (numbered base)"
  shows "fresh_id (length seen) seen base base n \<noteq> None"
proof
  assume "fresh_id (length seen) seen base base n = None"
  from fresh_id_none [OF this] have b: "base \<in> set seen" and k: "\<forall>k < length seen. numbered base (n + k) \<in> set seen" by blast+
  let ?ids = "insert base ((\<lambda>k. numbered base (n + k)) ` {..<length seen})"
  have "inj_on (\<lambda>k. numbered base (n + k)) {..<length seen}" by (auto simp: inj_on_def numbered_inj)
  then have "card ?ids = Suc (length seen)"
    using assms by (subst card_insert_disjoint) (auto simp: card_image)
  moreover have "?ids \<subseteq> set seen" using b k by auto
  ultimately show False
    using card_mono [of "set seen" ?ids] card_length [of seen] by simp
qed

lemma base_not_numbered: "base \<notin> range (numbered base)"
proof
  assume "base \<in> range (numbered base)"
  then obtain n where "base = base @ ''-'' @ nat_str n" by (auto simp: numbered_def)
  then have "length base = length base + length (''-'' @ nat_str n)" by (metis length_append)
  then show False by simp
qed

lemma make_programs_total:
  "\<exists>qs. make_programs seen ps = Some qs \<and> distinct (map pg_id qs) \<and> set (map pg_id qs) \<inter> set seen = {} \<and>
    map (\<lambda>q. (pg_exe q, pg_args q, pg_category q)) qs = map (\<lambda>p. (rp_exe p, rp_args p, rp_category p)) ps \<and>
    list_all (\<lambda>q. pg_id q \<noteq> [] \<and> list_all slug_char (pg_id q)) qs \<and>
    list_all2 (\<lambda>p q. pg_name q = or_else (rp_name p) (pg_id q)) ps qs"
proof (induction ps arbitrary: seen)
  case (Cons p ps)
  let ?b = "slug (or_else (or_else (rp_name p) (rp_exe p)) ''app'')"
  obtain pid where f: "fresh_id (length seen) seen ?b ?b 2 = Some pid"
    using fresh_id_total [OF base_not_numbered, of seen ?b 2] by auto
  from fresh_id_found [OF f] have n: "pid \<notin> set seen" and c: "pid = ?b \<or> (\<exists>m. pid = numbered ?b m)" by blast+
  have digits: "list_all slug_char (nat_str m)" for m
    using nat_str_digits [of m] by (auto simp: list_all_iff slug_char_def id_char_def)
  have pc: "pid \<noteq> [] \<and> list_all slug_char pid"
    using c slug_facts [of "or_else (or_else (rp_name p) (rp_exe p)) ''app''"] digits
    by (auto simp: numbered_def slug_char_def)
  from Cons.IH [of "pid # seen"] obtain qs where
    "make_programs (pid # seen) ps = Some qs" "distinct (map pg_id qs)" "set (map pg_id qs) \<inter> set (pid # seen) = {}"
    "map (\<lambda>q. (pg_exe q, pg_args q, pg_category q)) qs = map (\<lambda>p. (rp_exe p, rp_args p, rp_category p)) ps"
    "list_all (\<lambda>q. pg_id q \<noteq> [] \<and> list_all slug_char (pg_id q)) qs"
    "list_all2 (\<lambda>p q. pg_name q = or_else (rp_name p) (pg_id q)) ps qs"
    by blast
  with f n pc show ?case by (auto simp: Let_def)
qed simp

section \<open>What the linter rules out\<close>

definition recipe_ok :: "recipe \<Rightarrow> bool" where
  "recipe_ok r =
     (rc_app_name r \<noteq> [] \<and> rb_runner (rc_barrel r) \<in> set RUNNERS \<and> rb_arch (rc_barrel r) \<in> set ARCHES \<and>
      list_all (\<lambda>f. rf_id f \<noteq> []) (rc_files r) \<and> list_all (\<lambda>p. rp_exe p \<noteq> []) (rc_programs r) \<and>
      list_all (\<lambda>s. rs_action s \<in> set VALID_ACTIONS) (rc_steps r))"

lemma list_ex_enumerate:
  assumes "\<And>i x. list_ex is_error (f i x) = Q x"
  shows "list_ex is_error (concat (map (\<lambda>(i, x). f i x) (enumerate n xs))) = list_ex Q xs"
  by (induction xs arbitrary: n) (simp_all add: assms)

lemma lint_step_error: "list_ex is_error (lint_step ids n s) \<longleftrightarrow> rs_action s \<notin> set VALID_ACTIONS"
  unfolding lint_step_def Let_def by simp

lemma lint_file_errors: "list_ex is_error (concat (map lint_file fs)) \<longleftrightarrow> list_ex (\<lambda>f. rf_id f = []) fs"
  by (induction fs) (simp_all add: lint_file_def)

lemma lint_errors: "has_errors (lint r) \<longleftrightarrow> \<not> recipe_ok r"
proof -
  have p: "list_ex is_error (concat (map (\<lambda>(i, p). lint_program i p) (enumerate 0 (rc_programs r)))) =
      list_ex (\<lambda>p. rp_exe p = []) (rc_programs r)"
    by (rule list_ex_enumerate) (simp add: lint_program_def)
  have s: "list_ex is_error (concat (map (\<lambda>(n, s). lint_step (map rf_id (rc_files r)) n s) (enumerate 1 (rc_steps r)))) =
      list_ex (\<lambda>s. rs_action s \<notin> set VALID_ACTIONS) (rc_steps r)"
    by (rule list_ex_enumerate) (rule lint_step_error)
  have b: "list_ex is_error (lint_barrel r) \<longleftrightarrow>
      rc_app_name r = [] \<or> rb_runner (rc_barrel r) \<notin> set RUNNERS \<or> rb_arch (rc_barrel r) \<notin> set ARCHES"
    by (simp add: lint_barrel_def)
  show ?thesis
    unfolding has_errors_def lint_def list_ex_append p s b lint_file_errors
    by (auto simp: recipe_ok_def list_all_iff list_ex_iff)
qed

section \<open>Properties\<close>

text \<open>C22: a recipe becomes a barrel, always, by a loop that ends: the barrel takes over the runner,
  the architecture, the verbs, the flags and the environment, and has one program for each of the
  recipe's, in order, with its executable and arguments, under non-empty ids of the slug alphabet
  that are all different, however often a name is repeated; the barrel's own id is a slug, which
  the store accepts unless it is longer than 128 characters.\<close>

theorem materialize_total:
  "\<exists>b. barrel_from_recipe r i = Some b \<and>
    ba_runner b = rb_runner (rc_barrel r) \<and> ba_arch b = rb_arch (rc_barrel r) \<and> ba_verbs b = rb_verbs (rc_barrel r) \<and>
    ba_dxvk b = rb_dxvk (rc_barrel r) \<and> ba_vkd3d b = rb_vkd3d (rc_barrel r) \<and> ba_env b = rb_env (rc_barrel r) \<and>
    distinct (map pg_id (ba_programs b)) \<and>
    list_all (\<lambda>q. pg_id q \<noteq> [] \<and> list_all slug_char (pg_id q)) (ba_programs b) \<and>
    map (\<lambda>q. (pg_exe q, pg_args q, pg_category q)) (ba_programs b) =
      map (\<lambda>p. (rp_exe p, rp_args p, rp_category p)) (rc_programs r) \<and>
    (is_safe_id (ba_id b) \<longleftrightarrow> length (ba_id b) \<le> 128)"
proof -
  obtain qs where "make_programs [] (rc_programs r) = Some qs" "distinct (map pg_id qs)"
    "map (\<lambda>q. (pg_exe q, pg_args q, pg_category q)) qs = map (\<lambda>p. (rp_exe p, rp_args p, rp_category p)) (rc_programs r)"
    "list_all (\<lambda>q. pg_id q \<noteq> [] \<and> list_all slug_char (pg_id q)) qs"
    using make_programs_total [of "[]" "rc_programs r"] by blast
  then show ?thesis by (simp add: barrel_from_recipe_def Let_def slug_safe)
qed

lemma export_programs:
  assumes "list_all2 (\<lambda>p q. pg_name q = or_else (rp_name p) (pg_id q))
      (map (\<lambda>p. \<lparr>rp_name = pg_name p, rp_exe = pg_exe p, rp_args = pg_args p, rp_category = pg_category p\<rparr>) ps) qs"
    "list_all (\<lambda>p. pg_name p \<noteq> []) ps"
  shows "map pg_name qs = map pg_name ps"
  using assms by (induction ps arbitrary: qs) (auto simp: list_all2_Cons1 or_else_def)

text \<open>sharing a barrel and setting it up again elsewhere keeps what a recipe can say: from the
  recipe captured from a barrel, the materialized barrel has the same runner, architecture, verbs,
  flags and environment and the same programs by name, executable, arguments and category.\<close>

theorem export_materialize:
  assumes "list_all (\<lambda>p. pg_name p \<noteq> []) (ba_programs b)"
  shows "\<exists>b'. barrel_from_recipe (recipe_from_barrel b) i = Some b' \<and>
    (ba_runner b', ba_arch b', ba_verbs b', ba_dxvk b', ba_vkd3d b', ba_env b') =
      (ba_runner b, ba_arch b, ba_verbs b, ba_dxvk b, ba_vkd3d b, ba_env b) \<and>
    map (\<lambda>q. (pg_name q, pg_exe q, pg_args q, pg_category q)) (ba_programs b') =
      map (\<lambda>q. (pg_name q, pg_exe q, pg_args q, pg_category q)) (ba_programs b)"
proof -
  let ?ps = "map (\<lambda>p. \<lparr>rp_name = pg_name p, rp_exe = pg_exe p, rp_args = pg_args p, rp_category = pg_category p\<rparr>) (ba_programs b)"
  obtain qs where q: "make_programs [] ?ps = Some qs"
    "map (\<lambda>q. (pg_exe q, pg_args q, pg_category q)) qs = map (\<lambda>p. (rp_exe p, rp_args p, rp_category p)) ?ps"
    "list_all2 (\<lambda>p q. pg_name q = or_else (rp_name p) (pg_id q)) ?ps qs"
    using make_programs_total [of "[]" ?ps] by blast
  have n: "map pg_name qs = map pg_name (ba_programs b)" by (rule export_programs [OF q(3) assms])
  have e: "map (\<lambda>q. (pg_exe q, pg_args q, pg_category q)) qs =
      map (\<lambda>q. (pg_exe q, pg_args q, pg_category q)) (ba_programs b)"
    using q(2) by (simp add: comp_def)
  have "map (\<lambda>q. (pg_name q, pg_exe q, pg_args q, pg_category q)) qs = zip (map pg_name qs) (map (\<lambda>q. (pg_exe q, pg_args q, pg_category q)) qs)"
    for qs :: "program list"
    by (induction qs) simp_all
  with n e have "map (\<lambda>q. (pg_name q, pg_exe q, pg_args q, pg_category q)) qs =
      map (\<lambda>q. (pg_name q, pg_exe q, pg_args q, pg_category q)) (ba_programs b)"
    by simp
  with q(1) show ?thesis
    by (simp add: barrel_from_recipe_def recipe_from_barrel_def Let_def)
qed

definition office :: barrel where
  "office = \<lparr>ba_id = ''office'', ba_name = ''Office'', ba_runner = RUNNER_WINE, ba_runner_version = [], ba_arch = ARCH_WIN32,
     ba_prefix = [], ba_verbs = [''corefonts''], ba_dxvk = False, ba_vkd3d = False, ba_env = [],
     ba_programs = [\<lparr>pg_id = ''excel'', pg_name = ''Excel'', pg_exe = ''C:/excel.exe'', pg_args = [], pg_category = ''Application'',
       pg_wm_class = [], pg_graphics = GraphicsProfile\<rparr>]\<rparr>"

theorem export_materialize_witness:
  "\<exists>b'. barrel_from_recipe (recipe_from_barrel office) [] = Some b' \<and> ba_verbs b' = [''corefonts''] \<and>
    map pg_exe (ba_programs b') = [''C:/excel.exe'']"
proof -
  have "list_all (\<lambda>p. pg_name p \<noteq> []) (ba_programs office)" by (simp add: office_def)
  from export_materialize [OF this, of "[]"] show ?thesis
    by (auto simp: office_def)
qed

lemma save_load_barrel:
  assumes "save_barrel fault tmp partial base b fs = (fs', b', Inr path)" "tmp \<noteq> path"
  shows "load_barrel base (ba_id b) fs' = Inr (Some b') \<and> config_path base (ba_id b) = Inr path"
proof -
  from assms have b: "config_path base (ba_id b) = Inr path" "fs' path = Some (Some (barrel_to_dict b'), MODE_644)"
    by (auto simp: save_barrel_def replace_file_def Let_def split: sum.splits if_splits)
  then show ?thesis by (simp add: load_barrel_def barrel_json)
qed

lemma deleted_barrel:
  assumes "delete_barrel base bid is_dir fs = (fs', True)"
  shows "load_barrel base bid fs' = Inr None"
proof -
  from assms obtain d where "barrel_dir base bid = Inr d" "fs' = (\<lambda>p. if startswith p (d @ ''/'') then None else fs p)"
    by (auto simp: delete_barrel_def split: sum.splits if_splits)
  then show ?thesis by (simp add: load_barrel_def config_path_def startswith_def)
qed

lemma delete_confined:
  assumes "delete_barrel base bid is_dir fs = (fs', done)" "fs' p \<noteq> fs p"
  shows "is_safe_id bid \<and> startswith p (path_join2 base bid @ ''/'')"
  using assms by (auto simp: delete_barrel_def barrel_dir_def split: if_splits)

end
