(* ===== verification/DrydockPlan.thy ===== *)
theory DrydockPlan
  imports Drydock
begin

text \<open>
  What Drydock does with a recipe and a barrel: the compiler from a recipe to a plan of
  concrete operations (\<open>gest/core/drydock/interpreter.py\<close>), the sequencing of a plan
  (\<open>executor.py\<close>), the launch command of a program (\<open>launch.py\<close>), its prerequisites
  (\<open>prereq.py\<close>) and the maintenance commands (\<open>maintenance.py\<close>).
\<close>

section \<open>Plans (interpreter.py)\<close>

definition UMU_RUN :: string where "UMU_RUN = ''umu-run''"
definition UMU_GAMEID :: string where "UMU_GAMEID = ''umu-0''"
definition UMU_STORE :: string where "UMU_STORE = ''none''"

record plan_context =
  pc_prefix :: string
  pc_gamedir :: string
  pc_cache :: string
  pc_arch :: string
  pc_runner :: string
  pc_runner_version :: string

type_synonym env = "(string \<times> string) list"

definition context_variables :: "plan_context \<Rightarrow> env" where
  "context_variables c =
     [(''GAMEDIR'', pc_gamedir c), (''WINEPREFIX'', pc_prefix c), (''PREFIX'', pc_prefix c), (''CACHE'', pc_cache c)]"

datatype op_kind = OpCommand | OpExtract | OpMove | OpCopy | OpChmodx | OpWrite | OpManual

record planned_op =
  po_kind :: op_kind
  po_summary :: string
  po_argv :: "string list"
  po_env :: env
  po_detail :: "(string \<times> json) list"

definition command_op :: "string \<Rightarrow> string list \<Rightarrow> env \<Rightarrow> planned_op" where
  "command_op summary argv e = \<lparr>po_kind = OpCommand, po_summary = summary, po_argv = argv, po_env = e, po_detail = []\<rparr>"

definition file_op :: "op_kind \<Rightarrow> string \<Rightarrow> (string \<times> json) list \<Rightarrow> planned_op" where
  "file_op kind summary detail = \<lparr>po_kind = kind, po_summary = summary, po_argv = [], po_env = [], po_detail = detail\<rparr>"

text \<open>\<open>str(Path(cache) / name)\<close>: the parts without empty and \<open>.\<close> ones; a name that is absolute
  replaces the cache.\<close>

definition path_parts :: "string \<Rightarrow> string list" where
  "path_parts p = filter (\<lambda>c. c \<noteq> [] \<and> c \<noteq> ''.'') (split_char (CHR ''/'') p)"

definition path_root :: "string \<Rightarrow> string" where
  "path_root p =
     (if \<not> startswith p ''/'' then [] else if startswith p ''//'' \<and> \<not> startswith p ''///'' then ''//'' else ''/'')"

definition path_str :: "string \<Rightarrow> string list \<Rightarrow> string" where
  "path_str root parts = (if root = [] \<and> parts = [] then ''.'' else root @ join ''/'' parts)"

definition path_div :: "string \<Rightarrow> string \<Rightarrow> string" where
  "path_div a b =
     (if startswith b ''/'' then path_str (path_root b) (path_parts b)
      else path_str (path_root a) (path_parts a @ path_parts b))"

text \<open>\<open>s.rsplit("/", 1)[-1]\<close>\<close>

definition last_part :: "string \<Rightarrow> string" where
  "last_part s = last (split_char (CHR ''/'') s)"

definition file_name_of :: "recipe_file \<Rightarrow> string" where
  "file_name_of f =
     or_else (or_else (rf_filename f) (if rf_url f \<noteq> [] then last_part (rf_url f) else [])) (rf_id f)"

definition file_vars_of :: "recipe \<Rightarrow> string \<Rightarrow> env" where
  "file_vars_of r cache =
     fold (\<lambda>f. dict_set (rf_id f) (if cache \<noteq> [] then path_div cache (file_name_of f) else file_name_of f)) (rc_files r) []"

text \<open>The substitution of \<open>${name}\<close> and \<open>$name\<close>; an unknown name stays as it is written.\<close>

definition braced :: "string \<Rightarrow> (string \<times> string) option" where
  "braced cs =
     (case cs of [] \<Rightarrow> None
      | c # r \<Rightarrow>
          if c \<noteq> CHR ''{'' then None
          else (let name = takeWhile word_char r; rest = dropWhile word_char r
                in if name \<noteq> [] \<and> rest \<noteq> [] \<and> hd rest = CHR ''}'' then Some (name, tl rest) else None))"

definition bare :: "string \<Rightarrow> (string \<times> string) option" where
  "bare cs =
     (let name = takeWhile word_char cs in if name \<noteq> [] then Some (name, dropWhile word_char cs) else None)"

definition var_or :: "env \<Rightarrow> string \<Rightarrow> string \<Rightarrow> string" where
  "var_or vars name written = (case map_of vars name of Some v \<Rightarrow> v | None \<Rightarrow> written)"

lemma length_dropWhile_le: "length (dropWhile P xs) \<le> length xs"
  by (induction xs) auto

function subst :: "env \<Rightarrow> string \<Rightarrow> string" where
  "subst vars [] = []"
| "subst vars (c # cs) =
     (if c \<noteq> CHR ''$'' then c # subst vars cs
      else case braced cs of
        Some (name, rest) \<Rightarrow> var_or vars name (''${'' @ name @ ''}'') @ subst vars rest
      | None \<Rightarrow>
          (case bare cs of
             Some (name, rest) \<Rightarrow> var_or vars name (CHR ''$'' # name) @ subst vars rest
           | None \<Rightarrow> c # subst vars cs))"
  by pat_completeness auto

termination
proof (relation "measure (length \<circ> snd)")
  fix vars :: env and c :: char and cs :: string and name rest :: string and x
  assume "braced cs = Some x" "(name, rest) = x"
  then have "length rest < length cs"
    using length_dropWhile_le [of word_char "tl cs"]
    by (auto simp: braced_def Let_def split: list.splits if_splits)
  then show "((vars, rest), vars, c # cs) \<in> measure (length \<circ> snd)" by simp
next
  fix vars :: env and c :: char and cs :: string and name rest :: string and x
  assume "bare cs = Some x" "(name, rest) = x"
  then have "length rest \<le> length cs"
    using length_dropWhile_le [of word_char cs] by (auto simp: bare_def Let_def split: if_splits)
  then show "((vars, rest), vars, c # cs) \<in> measure (length \<circ> snd)" by simp
qed simp_all

definition param :: "env \<Rightarrow> (string \<times> json) list \<Rightarrow> string \<Rightarrow> string" where
  "param vars params k = subst vars (json_str (field_or params k (JStr [])))"

definition wine_env :: "plan_context \<Rightarrow> env" where
  "wine_env c = [(''WINEPREFIX'', pc_prefix c), (''WINEARCH'', pc_arch c)]"

definition umu_env :: "plan_context \<Rightarrow> env" where
  "umu_env c =
     [(''WINEPREFIX'', pc_prefix c), (''GAMEID'', UMU_GAMEID), (''STORE'', UMU_STORE)] @
     (if pc_runner_version c \<noteq> [] then [(''PROTONPATH'', pc_runner_version c)] else [])"

definition step_verbs :: "(string \<times> json) list \<Rightarrow> string list" where
  "step_verbs params =
     (case field_or params ''app'' (field_or params ''apps'' (field_or params ''value'' JNull)) of
        JNull \<Rightarrow> [] | JArr js \<Rightarrow> map json_str js | j \<Rightarrow> py_split (json_str j))"

definition args_list :: "env \<Rightarrow> (string \<times> json) list \<Rightarrow> string list" where
  "args_list vars params =
     (case field_or params ''args'' JNull of
        JArr js \<Rightarrow> map (\<lambda>j. subst vars (json_str j)) js
      | j \<Rightarrow> if jbool j then py_split (param vars params ''args'') else [])"

definition WIN_EXE_SUFFIXES :: "string list" where
  "WIN_EXE_SUFFIXES = [''.exe'', ''.bat'', ''.cmd'']"

definition reg_add_argv :: "env \<Rightarrow> (string \<times> json) list \<Rightarrow> string list" where
  "reg_add_argv vars params =
     (let path = or_else (param vars params ''path'') (param vars params ''key_path'');
          value_name = param vars params ''key''
      in [''reg'', ''add'', path] @ (if value_name \<noteq> [] then [''/v'', value_name] else [''/ve'']) @
         [''/t'', or_else (param vars params ''type'') ''REG_SZ''] @ [''/d'', param vars params ''value'', ''/f''])"

definition reg_delete_argv :: "env \<Rightarrow> (string \<times> json) list \<Rightarrow> string list" where
  "reg_delete_argv vars params =
     (let key = or_else (param vars params ''key'') (param vars params ''path'');
          value_name = or_else (param vars params ''value_name'') (param vars params ''value'')
      in [''reg'', ''delete'', key] @ (if value_name \<noteq> [] then [''/v'', value_name] else []) @ [''/f''])"

definition spaced :: "string list \<Rightarrow> string" where
  "spaced ws = join '' '' ws"

definition file_ref :: "env \<Rightarrow> (string \<times> json) list \<Rightarrow> string \<Rightarrow> string option" where
  "file_ref file_vars params k = map_of file_vars (json_str (field_or params k (JStr [])))"

definition plan_execute :: "plan_context \<Rightarrow> env \<Rightarrow> env \<Rightarrow> (string \<times> json) list \<Rightarrow> planned_op" where
  "plan_execute c vars file_vars params =
     (let target = or_else (or_else (or_else
            (case file_ref file_vars params ''file'' of Some f \<Rightarrow> f | None \<Rightarrow> [])
            (param vars params ''file'')) (param vars params ''command'')) (param vars params ''exe'');
          args = args_list vars params
      in if list_ex (endswith (lower target)) WIN_EXE_SUFFIXES then
           (if pc_runner c = RUNNER_PROTON
            then command_op (strip (''umu-run '' @ target @ '' '' @ spaced args)) (UMU_RUN # target # args) (umu_env c)
            else command_op (strip (''wine '' @ target @ '' '' @ spaced args)) (''wine'' # target # args) (wine_env c))
         else (command_op (strip (''execute '' @ target @ '' '' @ spaced args)) (target # args) [])
                \<lparr>po_detail := [(''native'', JBool True)]\<rparr>)"

definition wine_command :: "string \<Rightarrow> plan_context \<Rightarrow> env \<Rightarrow> (string \<times> json) list \<Rightarrow> planned_op" where
  "wine_command action c vars params =
     (if action = ''create_prefix'' then
        command_op (''create '' @ pc_arch c @ '' prefix at '' @ pc_prefix c) [''wineboot'', ''-i''] (wine_env c)
      else if action = ''winetricks'' then
        command_op (''winetricks '' @ spaced (step_verbs params)) ([''winetricks'', ''-q''] @ step_verbs params) (wine_env c)
      else if action = ''wineexec'' then
        (let exe = or_else (param vars params ''executable'') (param vars params ''exe''); args = args_list vars params
         in command_op (strip (''wine '' @ exe @ '' '' @ spaced args)) ([''wine'', exe] @ args) (wine_env c))
      else if action = ''regedit_file'' then
        (let reg = or_else (param vars params ''file'') (param vars params ''path'')
         in command_op (''wine regedit '' @ reg) [''wine'', ''regedit'', reg] (wine_env c))
      else if action = ''regedit'' then
        (let argv = reg_add_argv vars params in command_op (''wine '' @ spaced argv) (''wine'' # argv) (wine_env c))
      else if action = ''regdelete'' then
        (let argv = reg_delete_argv vars params in command_op (''wine '' @ spaced argv) (''wine'' # argv) (wine_env c))
      else command_op ''kill the prefix's wine processes'' [''wineserver'', ''-k''] (wine_env c))"

definition proton_command :: "string \<Rightarrow> plan_context \<Rightarrow> env \<Rightarrow> (string \<times> json) list \<Rightarrow> planned_op" where
  "proton_command action c vars params =
     (if action = ''create_prefix'' then
        command_op (''umu createprefix ('' @ pc_arch c @ '' Proton) at '' @ pc_prefix c) [UMU_RUN, ''createprefix''] (umu_env c)
      else if action = ''winetricks'' then
        command_op (strip (''umu winetricks '' @ spaced (step_verbs params)))
          ([UMU_RUN, ''winetricks'', ''-q''] @ step_verbs params) (umu_env c)
      else if action = ''wineexec'' then
        (let exe = or_else (param vars params ''executable'') (param vars params ''exe''); args = args_list vars params
         in command_op (strip (''umu-run '' @ exe @ '' '' @ spaced args)) ([UMU_RUN, exe] @ args) (umu_env c))
      else if action = ''regedit_file'' then
        (let reg = or_else (param vars params ''file'') (param vars params ''path'')
         in command_op (''umu regedit '' @ reg) [UMU_RUN, ''regedit'', reg] (umu_env c))
      else if action = ''regedit'' then
        (let argv = reg_add_argv vars params in command_op (''umu '' @ spaced argv) (UMU_RUN # argv) (umu_env c))
      else if action = ''regdelete'' then
        (let argv = reg_delete_argv vars params in command_op (''umu '' @ spaced argv) (UMU_RUN # argv) (umu_env c))
      else command_op ''kill the Proton prefix's wine processes'' [UMU_RUN, ''wineserver'', ''-k''] (umu_env c))"

definition plan_manual :: "string \<Rightarrow> (string \<times> json) list \<Rightarrow> planned_op" where
  "plan_manual action params =
     (let original = field_or params ''original'' (JStr action)
      in file_op OpManual (''manual: '' @ json_str original) [(''original'', original), (''params'', JObj params)])"

definition plan_transfer :: "string \<Rightarrow> env \<Rightarrow> env \<Rightarrow> (string \<times> json) list \<Rightarrow> planned_op" where
  "plan_transfer action vars file_vars params =
     (let src = (case file_ref file_vars params ''src'' of Some f \<Rightarrow> f | None \<Rightarrow> param vars params ''src'');
          dst = param vars params ''dst''
      in file_op (if action = ''move'' then OpMove else OpCopy) (action @ '' '' @ src @ '' '' @ ARROW @ '' '' @ dst)
           [(''src'', JStr src), (''dst'', JStr dst)])"

definition plan_extract :: "plan_context \<Rightarrow> env \<Rightarrow> env \<Rightarrow> (string \<times> json) list \<Rightarrow> planned_op" where
  "plan_extract c vars file_vars params =
     (let src = (case file_ref file_vars params ''file'' of Some f \<Rightarrow> f | None \<Rightarrow> param vars params ''file'');
          dst = or_else (param vars params ''dst'') (pc_gamedir c)
      in file_op OpExtract (''extract '' @ src @ '' '' @ ARROW @ '' '' @ dst) [(''src'', JStr src), (''dst'', JStr dst)])"

definition plan_write :: "string \<Rightarrow> env \<Rightarrow> (string \<times> json) list \<Rightarrow> planned_op" where
  "plan_write action vars params =
     (let path = or_else (param vars params ''file'') (param vars params ''path'');
          fmt = (if action = ''write_file'' then ''file'' else if action = ''write_config'' then ''config'' else ''json'')
      in file_op OpWrite (''write '' @ fmt @ '' '' @ path)
           [(''path'', JStr path), (''format'', JStr fmt), (''params'', JObj params)])"

definition plan_chmodx :: "env \<Rightarrow> (string \<times> json) list \<Rightarrow> planned_op" where
  "plan_chmodx vars params =
     (let path = or_else (param vars params ''file'') (param vars params ''path'')
      in file_op OpChmodx (''chmod +x '' @ path) [(''path'', JStr path)])"

definition plan_step :: "plan_context \<Rightarrow> env \<Rightarrow> env \<Rightarrow> recipe_step \<Rightarrow> planned_op" where
  "plan_step c vars file_vars s =
     (let action = rs_action s; params = rs_params s
      in if action = ''extract'' then plan_extract c vars file_vars params
         else if action = ''move'' \<or> action = ''copy'' then plan_transfer action vars file_vars params
         else if action = ''chmodx'' then plan_chmodx vars params
         else if action \<in> set WRITE_ACTIONS then plan_write action vars params
         else if action = ''eject_disc'' then command_op ''eject the installation disc'' [''eject''] []
         else if action = ''execute'' then plan_execute c vars file_vars params
         else if action \<in> set COMMAND_ACTIONS then
           (if pc_runner c = RUNNER_PROTON then proton_command action c vars params else wine_command action c vars params)
         else plan_manual action params)"

definition plan :: "recipe \<Rightarrow> plan_context \<Rightarrow> planned_op list" where
  "plan r c = map (plan_step c (context_variables c) (file_vars_of r (pc_cache c))) (rc_steps r)"

section \<open>Running a plan (executor.py)\<close>

datatype status = OK | FAILED | MANUAL | PLANNED | SKIPPED

record step_outcome =
  so_op :: planned_op
  so_status :: status
  so_code :: int

definition outcome :: "planned_op \<Rightarrow> status \<Rightarrow> int \<Rightarrow> step_outcome" where
  "outcome op st code = \<lparr>so_op = op, so_status = st, so_code = code\<rparr>"

text \<open>The runner performs an operation on the world and returns its exit code.\<close>

fun execute_from ::
    "('w \<Rightarrow> planned_op \<Rightarrow> 'w \<times> int) \<Rightarrow> bool \<Rightarrow> bool \<Rightarrow> bool \<Rightarrow> planned_op list \<Rightarrow> 'w \<Rightarrow> 'w \<times> step_outcome list" where
  "execute_from runner dry_run stop_on_manual halted [] w = (w, [])"
| "execute_from runner dry_run stop_on_manual halted (op # ops) w =
     (if halted then
        (case execute_from runner dry_run stop_on_manual True ops w of (w', os) \<Rightarrow> (w', outcome op SKIPPED 0 # os))
      else if po_kind op = OpManual then
        (case execute_from runner dry_run stop_on_manual (stop_on_manual \<and> \<not> dry_run) ops w of
           (w', os) \<Rightarrow> (w', outcome op MANUAL 0 # os))
      else if dry_run then
        (case execute_from runner dry_run stop_on_manual False ops w of (w', os) \<Rightarrow> (w', outcome op PLANNED 0 # os))
      else
        (case runner w op of (w1, code) \<Rightarrow>
           (case execute_from runner dry_run stop_on_manual (code \<noteq> 0) ops w1 of
              (w', os) \<Rightarrow> (w', outcome op (if code = 0 then OK else FAILED) code # os))))"

definition execute :: "('w \<Rightarrow> planned_op \<Rightarrow> 'w \<times> int) \<Rightarrow> bool \<Rightarrow> bool \<Rightarrow> planned_op list \<Rightarrow> 'w \<Rightarrow> 'w \<times> step_outcome list" where
  "execute runner dry_run stop_on_manual p w = execute_from runner dry_run stop_on_manual False p w"

definition report_ok :: "step_outcome list \<Rightarrow> bool" where
  "report_ok os = (\<not> list_ex (\<lambda>o1. so_status o1 = FAILED \<or> so_status o1 = SKIPPED) os)"

definition report_count :: "status \<Rightarrow> step_outcome list \<Rightarrow> nat" where
  "report_count st os = length (filter (\<lambda>o1. so_status o1 = st) os)"

text \<open>\<open>json.dumps(\<dots>, indent=2)\<close> is the value here; the other formats are texts.\<close>

datatype written = JsonText json | PlainText string

definition render_write :: "planned_op \<Rightarrow> string \<times> written \<times> string" where
  "render_write op =
     (let path = json_str (field_or (po_detail op) ''path'' (JStr []));
          fmt = json_str (field_or (po_detail op) ''format'' (JStr ''file''));
          params = (case field_or (po_detail op) ''params'' (JObj []) of JObj p \<Rightarrow> p | _ \<Rightarrow> [])
      in if fmt = ''json'' then (path, JsonText (field_or params ''data'' (JObj [])), ''w'')
         else if fmt = ''config'' then
           (let section = field_or params ''section'' (JStr []); key = field_or params ''key'' (JStr [])
            in (path, PlainText ((if jbool section then ''['' @ json_str section @ '']'' @ [LF] else []) @
                  json_str key @ ''='' @ json_str (field_or params ''value'' (JStr [])) @ [LF]), ''w''))
         else (path, PlainText (json_str (field_or params ''content'' (JStr []))),
               if lower (json_str (field_or params ''mode'' (JStr []))) = ''append'' then ''a'' else ''w''))"

section \<open>Launching a program (launch.py)\<close>

definition text_env :: "string \<Rightarrow> string \<Rightarrow> env \<Rightarrow> env" where
  "text_env k v e = dict_set k v e"

text \<open>\<open>DXVK_HUD\<close> takes the field itself, a string in every profile the CLI writes.\<close>

definition build_env :: "barrel \<Rightarrow> program \<Rightarrow> env" where
  "build_env b p =
     (let g = pg_graphics p;
          e1 = (if ba_prefix b \<noteq> [] then dict_set ''WINEPREFIX'' (ba_prefix b) (ba_env b) else ba_env b);
          e2 = (if ba_runner b = RUNNER_PROTON then
                  (let e = dict_set ''STORE'' ''none'' (dict_set ''GAMEID'' (or_else (pg_id p) ''umu-default'') e1)
                   in if ba_runner_version b \<noteq> [] then dict_set ''PROTONPATH'' (ba_runner_version b) e else e)
                else
                  dict_set ''WINEFSYNC'' (if jbool (gr_fsync g) then ''1'' else ''0'')
                    (dict_set ''WINEESYNC'' (if jbool (gr_esync g) then ''1'' else ''0'')
                      (dict_set ''WINEARCH'' (ba_arch b) e1)));
          e3 = (if jbool (gr_dxvk_hud g) then dict_set ''DXVK_HUD'' (json_str (gr_dxvk_hud g)) e2 else e2);
          e4 = (if jbool (gr_fps_cap g)
                then dict_set ''VKD3D_FRAME_RATE'' (json_str (gr_fps_cap g)) (dict_set ''DXVK_FRAME_RATE'' (json_str (gr_fps_cap g)) e3)
                else e3)
      in if jbool (gr_mangohud g) \<and> \<not> jbool (gr_gamescope g) then dict_set ''MANGOHUD'' ''1'' e4 else e4)"

definition runner_argv :: "barrel \<Rightarrow> program \<Rightarrow> string list" where
  "runner_argv b p = [if ba_runner b = RUNNER_PROTON then UMU_RUN else ''wine'', pg_exe p] @ pg_args p"

definition gamescope_argv :: "program \<Rightarrow> string list" where
  "gamescope_argv p =
     (let g = pg_graphics p
      in [''gamescope''] @
         (if jbool (gr_width g) \<and> jbool (gr_height g)
          then [''-W'', json_str (gr_width g), ''-H'', json_str (gr_height g)] else []) @
         [''-f''] @ (if jbool (gr_fsr g) then [''-F'', ''fsr''] else []) @
         (if jbool (gr_hdr g) then [''--hdr-enabled''] else []) @
         (if jbool (gr_mangohud g) then [''--mangoapp''] else []) @ [''--''])"

definition build_argv :: "barrel \<Rightarrow> program \<Rightarrow> string list" where
  "build_argv b p =
     (let a1 = runner_argv b p;
          a2 = (if jbool (gr_gamescope (pg_graphics p)) then gamescope_argv p @ a1 else a1)
      in if jbool (gr_gamemode (pg_graphics p)) then ''gamemoderun'' # a2 else a2)"

section \<open>Prerequisites (prereq.py)\<close>

record requirement =
  rq_atom :: string
  rq_use :: "string list"
  rq_note :: string
  rq_from_guru :: bool

definition req :: "string \<Rightarrow> string list \<Rightarrow> string \<Rightarrow> bool \<Rightarrow> requirement" where
  "req atom u note guru = \<lparr>rq_atom = atom, rq_use = u, rq_note = note, rq_from_guru = guru\<rparr>"

definition needs_guru :: "barrel \<Rightarrow> bool" where
  "needs_guru b = (ba_runner b = RUNNER_PROTON)"

definition requirements :: "barrel \<Rightarrow> requirement list" where
  "requirements b =
     (if ba_runner b = RUNNER_PROTON then
        [req ''games-util/umu-launcher'' [] ''Proton runner (umu)'' True, req ''media-libs/vulkan-loader'' [] ''Vulkan'' False]
      else
        (let multilib = (ba_arch b = ARCH_WIN32);
             u = (if multilib then [''abi_x86_32''] else []);
             note = (if multilib then ''win32 prefix '' @ ARROW @ '' needs multilib / ABI_X86=32'' else [])
         in [req ''app-emulation/wine-vanilla'' u note False] @
            (if ba_dxvk b then [req ''app-emulation/dxvk'' u (''D3D9/10/11 '' @ ARROW @ '' Vulkan'') False] else []) @
            (if ba_vkd3d b then [req ''app-emulation/vkd3d-proton'' [] (''D3D12 '' @ ARROW @ '' Vulkan'') False] else []))) @
     (if list_ex (\<lambda>p. jbool (gr_gamescope (pg_graphics p))) (ba_programs b)
      then [req ''gui-wm/gamescope'' [] ''nested compositor / FSR / HDR'' False] else []) @
     (if list_ex (\<lambda>p. jbool (gr_gamemode (pg_graphics p))) (ba_programs b)
      then [req ''games-util/gamemode'' [] ''gamemoderun'' False] else []) @
     (if list_ex (\<lambda>p. jbool (gr_mangohud (pg_graphics p))) (ba_programs b)
      then [req ''games-util/mangohud'' [''mangoapp''] ''mangoapp for the gamescope overlay'' False] else [])"

section \<open>Maintenance (maintenance.py)\<close>

definition barrel_env :: "barrel \<Rightarrow> env" where
  "barrel_env b =
     dict_set ''WINEARCH'' (ba_arch b)
       (if ba_prefix b \<noteq> [] then dict_set ''WINEPREFIX'' (ba_prefix b) (ba_env b) else ba_env b)"

definition winetricks_argv :: "string list \<Rightarrow> string list" where
  "winetricks_argv verbs = ''winetricks'' # verbs"

definition kill_argv :: "string list" where
  "kill_argv = [''wineserver'', ''-k'']"

definition shell_argv :: "string \<Rightarrow> string list" where
  "shell_argv shell = [or_else shell ''bash'']"

section \<open>Routing\<close>

text \<open>
  Where a planned command may go: a native program of an \<open>execute\<close> step and \<open>eject\<close> run as
  they are, everything else through the runner of the context, with its environment.
\<close>

definition WINE_TOOLS :: "string list" where
  "WINE_TOOLS = [''wine'', ''wineboot'', ''winetricks'', ''wineserver'']"

definition routed :: "plan_context \<Rightarrow> recipe_step \<Rightarrow> planned_op \<Rightarrow> bool" where
  "routed c s op =
     (if rs_action s = ''eject_disc'' then po_argv op = [''eject''] \<and> po_env op = []
      else if rs_action s = ''execute'' \<and> po_detail op = [(''native'', JBool True)] then po_env op = []
      else if pc_runner c = RUNNER_PROTON then hd (po_argv op) = UMU_RUN \<and> po_env op = umu_env c
      else hd (po_argv op) \<in> set WINE_TOOLS \<and> po_env op = wine_env c)"

lemma command_op_fields [simp]: "po_kind (command_op s a e) = OpCommand" "po_argv (command_op s a e) = a"
  "po_env (command_op s a e) = e" "po_detail (command_op s a e) = []" "po_kind (file_op k s d) = k"
  by (simp_all add: command_op_def file_op_def)

lemma wine_command_routed:
  "po_kind (wine_command a c v p) = OpCommand \<and> hd (po_argv (wine_command a c v p)) \<in> set WINE_TOOLS \<and>
    po_env (wine_command a c v p) = wine_env c"
  unfolding wine_command_def Let_def by (simp add: WINE_TOOLS_def)

lemma proton_command_routed:
  "po_kind (proton_command a c v p) = OpCommand \<and> hd (po_argv (proton_command a c v p)) = UMU_RUN \<and>
    po_env (proton_command a c v p) = umu_env c"
  unfolding proton_command_def Let_def by simp

lemma plan_execute_routed:
  "po_kind (plan_execute c v f p) = OpCommand \<and>
    (if po_detail (plan_execute c v f p) = [(''native'', JBool True)] then po_env (plan_execute c v f p) = []
     else if pc_runner c = RUNNER_PROTON then hd (po_argv (plan_execute c v f p)) = UMU_RUN \<and> po_env (plan_execute c v f p) = umu_env c
     else hd (po_argv (plan_execute c v f p)) \<in> set WINE_TOOLS \<and> po_env (plan_execute c v f p) = wine_env c)"
  unfolding plan_execute_def Let_def by (simp add: WINE_TOOLS_def)

lemma action_names:
  "''manual'' \<notin> set COMMAND_ACTIONS" "''manual'' \<notin> set WRITE_ACTIONS" "''execute'' \<notin> set WRITE_ACTIONS"
  "''eject_disc'' \<notin> set WRITE_ACTIONS" "''execute'' \<notin> set COMMAND_ACTIONS" "''eject_disc'' \<notin> set COMMAND_ACTIONS"
  by code_simp+

lemma plan_step_kind:
  assumes "rs_action s \<in> set VALID_ACTIONS"
  shows "po_kind (plan_step c v f s) = OpManual \<longleftrightarrow> rs_action s = ''manual''"
proof -
  have known: "rs_action s = ''extract'' \<or> rs_action s = ''move'' \<or> rs_action s = ''copy'' \<or> rs_action s = ''chmodx'' \<or>
      rs_action s = ''execute'' \<or> rs_action s \<in> set WRITE_ACTIONS \<or> rs_action s \<in> set COMMAND_ACTIONS \<or>
      rs_action s = ''eject_disc'' \<or> rs_action s = ''manual''"
    using assms by (auto simp: VALID_ACTIONS_def)
  have fk: "po_kind (plan_extract c v f p) \<noteq> OpManual" "po_kind (plan_transfer a v f p) \<noteq> OpManual"
    "po_kind (plan_chmodx v p) \<noteq> OpManual" "po_kind (plan_write a v p) \<noteq> OpManual" "po_kind (plan_manual a p) = OpManual" for a p
    by (simp_all add: plan_extract_def plan_transfer_def plan_chmodx_def plan_write_def plan_manual_def Let_def)
  have cmd: "po_kind (proton_command a c v p) \<noteq> OpManual" "po_kind (wine_command a c v p) \<noteq> OpManual"
    "po_kind (plan_execute c v f p) \<noteq> OpManual" for a p
    using proton_command_routed wine_command_routed plan_execute_routed by (metis op_kind.distinct(11))+
  show ?thesis
  proof (cases "rs_action s = ''manual''")
    case True
    then show ?thesis by (simp add: plan_step_def Let_def action_names fk)
  next
    case False
    with known show ?thesis unfolding plan_step_def Let_def using fk cmd by auto
  qed
qed

lemma plan_step_routed:
  assumes "po_kind (plan_step c v f s) = OpCommand"
  shows "routed c s (plan_step c v f s)"
proof -
  have fk: "po_kind (plan_extract c v f p) \<noteq> OpCommand" "po_kind (plan_transfer a v f p) \<noteq> OpCommand"
    "po_kind (plan_chmodx v p) \<noteq> OpCommand" "po_kind (plan_write a v p) \<noteq> OpCommand" "po_kind (plan_manual a p) \<noteq> OpCommand" for a p
    by (simp_all add: plan_extract_def plan_transfer_def plan_chmodx_def plan_write_def plan_manual_def Let_def)
  consider "rs_action s = ''eject_disc''" | "rs_action s = ''execute''"
    | "rs_action s \<in> set COMMAND_ACTIONS" "rs_action s \<noteq> ''eject_disc''" "rs_action s \<noteq> ''execute''"
      "plan_step c v f s = (if pc_runner c = RUNNER_PROTON then proton_command (rs_action s) c v (rs_params s)
        else wine_command (rs_action s) c v (rs_params s))"
    using assms fk unfolding plan_step_def Let_def by (auto split: if_splits)
  then show ?thesis
  proof cases
    case 1
    then show ?thesis by (simp add: routed_def plan_step_def Let_def action_names)
  next
    case 2
    then have e: "plan_step c v f s = plan_execute c v f (rs_params s)" by (simp add: plan_step_def Let_def action_names)
    show ?thesis using plan_execute_routed [of c v f "rs_params s"] 2 by (simp add: routed_def e)
  next
    case 3
    then show ?thesis
      using proton_command_routed wine_command_routed by (simp add: routed_def)
  qed
qed


definition small_recipe :: recipe where
  "small_recipe = \<lparr>rc_app_name = ''Game'', rc_app_id = ''game'', rc_categories = [''Game''],
     rc_barrel = \<lparr>rb_runner = RUNNER_WINE, rb_arch = ARCH_WIN64, rb_verbs = [], rb_dxvk = False, rb_vkd3d = False, rb_env = []\<rparr>,
     rc_files = [\<lparr>rf_id = ''setup'', rf_url = ''https://example.org/setup.exe'', rf_filename = [], rf_user_provided = []\<rparr>],
     rc_steps = [\<lparr>rs_action = ''wineexec'', rs_params = [(''executable'', JStr ''$CACHE/setup.exe'')]\<rparr>,
                 \<lparr>rs_action = ''manual'', rs_params = []\<rparr>],
     rc_programs = [\<lparr>rp_name = ''Game'', rp_exe = ''game.exe'', rp_args = [], rp_category = ''Game''\<rparr>], rc_prereqs = ''auto''\<rparr>"

definition small_context :: plan_context where
  "small_context = \<lparr>pc_prefix = ''/p'', pc_gamedir = ''/g'', pc_cache = ''/c'', pc_arch = ARCH_WIN64, pc_runner = RUNNER_WINE,
     pc_runner_version = []\<rparr>"



section \<open>What a run reports\<close>

definition performed :: "step_outcome list \<Rightarrow> planned_op list" where
  "performed os = map so_op (filter (\<lambda>o1. so_status o1 = OK \<or> so_status o1 = FAILED) os)"

definition halts :: "bool \<Rightarrow> bool \<Rightarrow> step_outcome \<Rightarrow> bool" where
  "halts dry_run stop_on_manual o1 =
     (so_status o1 = FAILED \<or> so_status o1 = MANUAL \<and> stop_on_manual \<and> \<not> dry_run)"

definition world_after :: "('w \<Rightarrow> planned_op \<Rightarrow> 'w \<times> int) \<Rightarrow> planned_op list \<Rightarrow> 'w \<Rightarrow> 'w" where
  "world_after runner ops w = fold (\<lambda>op w1. fst (runner w1 op)) ops w"

lemma outcome_fields [simp]: "so_op (outcome op st c) = op" "so_status (outcome op st c) = st" "so_code (outcome op st c) = c"
  by (simp_all add: outcome_def)

lemma performed_simps [simp]: "performed [] = []"
  "performed (outcome op st c # os) = (if st = OK \<or> st = FAILED then op # performed os else performed os)"
  by (simp_all add: performed_def)

lemma world_after_simps [simp]: "world_after runner [] w = w"
  "world_after runner (op # ops) w = world_after runner ops (fst (runner w op))"
  by (simp_all add: world_after_def)

lemma execute_halted: "execute_from runner dry stop True ops w = (w, map (\<lambda>op. outcome op SKIPPED 0) ops)"
  by (induction ops) simp_all

lemma performed_skipped [simp]: "performed (map (\<lambda>op. outcome op SKIPPED 0) ops) = []"
  by (induction ops) simp_all

definition reported :: "('w \<Rightarrow> planned_op \<Rightarrow> 'w \<times> int) \<Rightarrow> bool \<Rightarrow> bool \<Rightarrow> planned_op list \<Rightarrow> 'w \<Rightarrow> 'w \<times> step_outcome list \<Rightarrow> bool" where
  "reported runner dry stop ops w r =
     (case r of (w', os) \<Rightarrow>
       map so_op os = ops \<and> w' = world_after runner (performed os) w \<and> (if dry then performed os = [] else True) \<and>
       list_all (\<lambda>o1. (so_status o1 = FAILED) = (so_code o1 \<noteq> 0) \<and> (so_status o1 = MANUAL) = (po_kind (so_op o1) = OpManual \<and> so_status o1 \<noteq> SKIPPED)) os \<and>
       list_all (\<lambda>o1. so_status o1 \<noteq> SKIPPED) (takeWhile (\<lambda>o1. \<not> halts dry stop o1) os) \<and>
       list_all (\<lambda>o1. so_status o1 = SKIPPED) (tl (dropWhile (\<lambda>o1. \<not> halts dry stop o1) os)))"

lemma reported_halt:
  assumes "halts dry stop (outcome op st c)" "(st = FAILED) = (c \<noteq> 0)" "(st = MANUAL) = (po_kind op = OpManual)"
    "st \<noteq> SKIPPED" "st = FAILED \<Longrightarrow> \<not> dry" "w1 = (if st = FAILED then fst (runner w op) else w)"
  shows "reported runner dry stop (op # ops) w (w1, outcome op st c # map (\<lambda>op. outcome op SKIPPED 0) ops)"
  using assms by (auto simp: reported_def list_all_iff halts_def o_def)

lemma reported_go:
  assumes "reported runner dry stop ops w1 (w', os)" "\<not> halts dry stop (outcome op st c)" "c = 0"
    "(st = MANUAL) = (po_kind op = OpManual)" "st \<noteq> SKIPPED" "st \<noteq> FAILED" "st = OK \<Longrightarrow> \<not> dry"
    "w1 = (if st = OK then fst (runner w op) else w)"
  shows "reported runner dry stop (op # ops) w (w', outcome op st c # os)"
  using assms by (auto simp: reported_def)

lemma execute_reported: "reported runner dry stop ops w (execute_from runner dry stop False ops w)"
proof (induction ops arbitrary: w)
  case Nil
  then show ?case by (simp add: reported_def)
next
  case (Cons op ops)
  obtain w1 code where r: "runner w op = (w1, code)" by fastforce
  obtain wa oa where a: "execute_from runner dry stop False ops w = (wa, oa)" by fastforce
  obtain wb ob where b: "execute_from runner dry stop False ops w1 = (wb, ob)" by fastforce
  have ia: "reported runner dry stop ops w (wa, oa)" using Cons [of w] a by simp
  have ib: "reported runner dry stop ops w1 (wb, ob)" using Cons [of w1] b by simp
  show ?case
  proof (cases "po_kind op = OpManual")
    case True
    show ?thesis
    proof (cases "stop \<and> \<not> dry")
      case True
      then show ?thesis using \<open>po_kind op = OpManual\<close>
        by (auto simp: execute_halted halts_def intro!: reported_halt)
    next
      case False
      then have go: "(stop \<and> \<not> dry) = False" by blast
      show ?thesis using \<open>po_kind op = OpManual\<close> False ia
        by (auto simp: go a halts_def intro!: reported_go)
    qed
  next
    case False
    show ?thesis
    proof (cases dry)
      case True
      then show ?thesis using False ia a by (auto simp: halts_def intro!: reported_go)
    next
      case nd: False
      show ?thesis
      proof (cases "code = 0")
        case True
        then show ?thesis using False nd ib b r by (auto simp: halts_def intro!: reported_go)
      next
        case c: False
        then show ?thesis using False nd r by (auto simp: execute_halted halts_def intro!: reported_halt)
      qed
    qed
  qed
qed


text \<open>The report of a run that stops at a last manual step is still \<open>ok\<close>.\<close>

lemma ok_with_manual:
  "report_ok (snd (execute runner False True [\<lparr>po_kind = OpManual, po_summary = s, po_argv = [], po_env = [], po_detail = []\<rparr>] w))"
  by (simp add: execute_def report_ok_def)

section \<open>What a launch runs\<close>

lemma env_if: "map_of (if c then a else b) k = (if c then map_of a k else map_of b k)"
  by simp

lemma build_env_prefix:
  assumes "ba_prefix b \<noteq> []"
  shows "map_of (build_env b p) ''WINEPREFIX'' = Some (ba_prefix b)"
  using assms by (simp add: build_env_def Let_def env_if map_of_dict_set cong: if_cong split del: if_split)

text \<open>MangoHud draws once: inside gamescope, which starts it, the variable is not set.\<close>

lemma mangohud_once:
  assumes "jbool (gr_mangohud (pg_graphics p))"
  shows "map_of (build_env b p) ''MANGOHUD'' =
    (if jbool (gr_gamescope (pg_graphics p)) then map_of (ba_env b) ''MANGOHUD'' else Some ''1'')"
  using assms
  by (cases "jbool (gr_gamescope (pg_graphics p))")
    (simp_all add: build_env_def Let_def env_if map_of_dict_set cong: if_cong split del: if_split)

end
