(* ===== verification/DrydockImport.thy ===== *)
theory DrydockImport
  imports Drydock
begin

text \<open>
  The importer of Lutris install scripts (\<open>gest/core/drydock/lutris_import.py\<close>) and the file
  of a recipe (\<open>recipe_store.py\<close>). A parsed script is a JSON value, the part of YAML whose
  keys are strings; PyYAML is a parameter of the definitions that use it.
\<close>

section \<open>Coercions\<close>

definition as_bool :: "json \<Rightarrow> bool" where
  "as_bool v = (case v of JBool b \<Rightarrow> b | JStr s \<Rightarrow> lower (strip s) \<in> {''true'', ''1'', ''yes'', ''on''} | _ \<Rightarrow> jbool v)"

definition as_args :: "json \<Rightarrow> string list" where
  "as_args v = (case v of JNull \<Rightarrow> [] | JStr s \<Rightarrow> py_split s | JArr js \<Rightarrow> map json_str js | _ \<Rightarrow> [json_str v])"

definition as_list :: "json \<Rightarrow> string list" where
  "as_list v = (case v of JNull \<Rightarrow> [] | JStr s \<Rightarrow> [s] | JArr js \<Rightarrow> map json_str js | _ \<Rightarrow> [json_str v])"

definition as_list_of :: "json \<Rightarrow> json list" where
  "as_list_of v = (case v of JArr js \<Rightarrow> js | _ \<Rightarrow> [])"

definition as_mapping :: "json \<Rightarrow> (string \<times> json) list" where
  "as_mapping v = (case v of JObj kvs \<Rightarrow> kvs | _ \<Rightarrow> [])"

section \<open>The vocabulary\<close>

definition NATIVE_DIRECTIVES :: "(string \<times> string) list" where
  "NATIVE_DIRECTIVES =
     [(''extract'', ''extract''), (''move'', ''move''), (''copy'', ''copy''), (''merge'', ''copy''), (''chmodx'', ''chmodx''),
      (''execute'', ''execute''), (''write_file'', ''write_file''), (''write_config'', ''write_config''),
      (''write_json'', ''write_json'')]"

definition NATIVE_TASKS :: "(string \<times> string) list" where
  "NATIVE_TASKS =
     [(''create_prefix'', ''create_prefix''), (''wineexec'', ''wineexec''), (''winetricks'', ''winetricks''),
      (''set_regedit'', ''regedit''), (''set_regedit_file'', ''regedit_file''), (''delete_registry_key'', ''regdelete''),
      (''winekill'', ''winekill''), (''eject_disc'', ''eject_disc'')]"

definition FLAG_DIRECTIVES :: "string list" where "FLAG_DIRECTIVES = [''input_menu'', ''insert-disc'']"
definition FLAG_TASKS :: "string list" where "FLAG_TASKS = [''gogdl_setup'']"
definition REJECT_TASKS :: "string list" where "REJECT_TASKS = [''dosexec'']"

text \<open>The warnings, one constructor for each text of the code.\<close>

datatype notice =
    SystemKey string
  | NoGameExe
  | MalformedDirective json
  | Interactive string
  | UnknownDirective string
  | StoreTask string
  | UnknownTask string
  | MalformedFile json
  | SteamReference string string

datatype rejection = UnsupportedRunner string | NotAWineTask string

section \<open>Conversion\<close>

record conversion =
  cv_steps :: "recipe_step list"
  cv_verbs :: "string list"
  cv_warnings :: "notice list"
  cv_rejected :: "rejection list"

definition warn :: "notice \<Rightarrow> conversion \<Rightarrow> conversion" where
  "warn n cv = cv\<lparr>cv_warnings := cv_warnings cv @ [n]\<rparr>"

definition add_step :: "string \<Rightarrow> (string \<times> json) list \<Rightarrow> conversion \<Rightarrow> conversion" where
  "add_step action params cv = cv\<lparr>cv_steps := cv_steps cv @ [\<lparr>rs_action = action, rs_params = params\<rparr>]\<rparr>"

definition add_verbs :: "string list \<Rightarrow> conversion \<Rightarrow> conversion" where
  "add_verbs verbs cv =
     cv\<lparr>cv_verbs := fold (\<lambda>verb vs. if verb \<in> set vs then vs else vs @ [verb]) verbs (cv_verbs cv)\<rparr>"

definition manual_step :: "string \<Rightarrow> (string \<times> json) list \<Rightarrow> conversion \<Rightarrow> conversion" where
  "manual_step original params = add_step ''manual'' [(''original'', JStr original), (''params'', JObj params)]"

definition convert_task :: "(string \<times> json) list \<Rightarrow> conversion \<Rightarrow> conversion" where
  "convert_task params cv =
     (let task = strip (json_str (field_or params ''name'' (JStr [])));
          rest = filter (\<lambda>kv. fst kv \<noteq> ''name'') params
      in case map_of NATIVE_TASKS task of
           Some action \<Rightarrow>
             (let cv = add_step action rest cv
              in if task = ''winetricks''
                 then add_verbs (as_list (field_or rest ''app'' (field_or rest ''apps'' (field_or rest ''value'' JNull)))) cv
                 else cv)
         | None \<Rightarrow>
             if task \<in> set REJECT_TASKS then cv\<lparr>cv_rejected := cv_rejected cv @ [NotAWineTask task]\<rparr>
             else if task \<in> set FLAG_TASKS then manual_step (''task:'' @ task) rest (warn (StoreTask task) cv)
             else manual_step (''task:'' @ task) rest (warn (UnknownTask task) cv))"

definition convert_directive :: "json \<Rightarrow> conversion \<Rightarrow> conversion" where
  "convert_directive directive cv =
     (case as_mapping directive of
        [(name, raw)] \<Rightarrow>
          (let params = (case raw of JObj kvs \<Rightarrow> kvs | _ \<Rightarrow> [(''value'', raw)])
           in case map_of NATIVE_DIRECTIVES name of
                Some action \<Rightarrow> add_step action params cv
              | None \<Rightarrow>
                  if name = ''task'' then convert_task params cv
                  else if name \<in> set FLAG_DIRECTIVES then manual_step name params (warn (Interactive name) cv)
                  else manual_step name params (warn (UnknownDirective name) cv))
      | _ \<Rightarrow> warn (MalformedDirective directive) cv)"

definition import_file :: "string \<Rightarrow> string \<Rightarrow> string \<Rightarrow> string \<Rightarrow> recipe_file" where
  "import_file i url filename user_provided =
     \<lparr>rf_id = i, rf_url = url, rf_filename = filename, rf_user_provided = user_provided\<rparr>"

definition convert_file :: "json \<Rightarrow> notice list \<Rightarrow> notice list \<times> recipe_file" where
  "convert_file entry warnings =
     (case as_mapping entry of
        [(fid, val)] \<Rightarrow>
          (case val of
             JObj kvs \<Rightarrow>
               (warnings, import_file fid (json_str (field_or kvs ''url'' (JStr []))) (json_str (field_or kvs ''filename'' (JStr []))) [])
           | _ \<Rightarrow>
               (let s = json_str val
                in if startswith s ''N/A''
                   then (let reason = strip (dropWhile (\<lambda>c. c = CHR '':'' \<or> c = CHR '' '') (drop 3 s))
                         in (warnings, import_file fid [] [] (or_else reason ''provide this file'')))
                   else if startswith s ''$STEAM''
                   then (warnings @ [SteamReference fid s], import_file fid [] [] (''Steam data: '' @ s))
                   else (warnings, import_file fid s [] [])))
      | _ \<Rightarrow> (warnings @ [MalformedFile entry], import_file ''unknown'' [] [] []))"

fun convert_files :: "json list \<Rightarrow> notice list \<Rightarrow> notice list \<times> recipe_file list" where
  "convert_files [] warnings = (warnings, [])"
| "convert_files (entry # entries) warnings =
     (case convert_file entry warnings of
        (w1, f) \<Rightarrow> (case convert_files entries w1 of (w2, fs) \<Rightarrow> (w2, f # fs)))"

definition first_of :: "(string \<times> json) list \<Rightarrow> string list \<Rightarrow> string \<Rightarrow> string" where
  "first_of kvs keys dflt =
     (case filter jbool (map (\<lambda>k. field_or kvs k JNull) keys) of v # vs \<Rightarrow> json_str v | [] \<Rightarrow> dflt)"

definition import_arch :: "(string \<times> json) list \<Rightarrow> string" where
  "import_arch wine_cfg =
     (if lower (json_str (field_or wine_cfg ''arch'' (JStr []))) = ''win32'' then ARCH_WIN32 else ARCH_WIN64)"

record import_result =
  ir_recipe :: "recipe option"
  ir_warnings :: "notice list"
  ir_rejected :: "rejection list"

definition import_ok :: "import_result \<Rightarrow> bool" where
  "import_ok r = (ir_recipe r \<noteq> None)"

definition manual_steps :: "import_result \<Rightarrow> nat" where
  "manual_steps r =
     (case ir_recipe r of None \<Rightarrow> 0 | Some rc \<Rightarrow> length (filter (\<lambda>s. rs_action s = ''manual'') (rc_steps rc)))"

definition import_runner :: "(string \<times> json) list \<Rightarrow> string" where
  "import_runner script = lower (strip (json_str (field_or script ''runner'' (JStr []))))"

definition directives_of :: "(string \<times> json) list \<Rightarrow> json list" where
  "directives_of script = as_list_of (field_or script ''installer'' JNull)"

definition system_notices :: "(string \<times> json) list \<Rightarrow> notice list" where
  "system_notices sys = map (\<lambda>kv. SystemKey (fst kv)) (filter (\<lambda>kv. fst kv \<noteq> ''env'') sys)"

definition convert :: "(string \<times> json) list \<Rightarrow> import_result" where
  "convert script =
     (let runner = import_runner script
      in if runner \<noteq> [] \<and> runner \<noteq> ''wine''
         then \<lparr>ir_recipe = None, ir_warnings = [], ir_rejected = [UnsupportedRunner runner]\<rparr>
         else
           (let wine_cfg = as_mapping (field_or script ''wine'' JNull);
                sys = as_mapping (field_or script ''system'' JNull);
                env = map (\<lambda>(k, v). (k, json_str v)) (as_mapping (field_or sys ''env'' JNull));
                (w1, files) = convert_files (as_list_of (field_or script ''files'' JNull)) (system_notices sys);
                cv = fold convert_directive (directives_of script)
                       \<lparr>cv_steps = [], cv_verbs = [], cv_warnings = w1, cv_rejected = []\<rparr>;
                game = as_mapping (field_or script ''game'' JNull);
                app_name = first_of script [''name'', ''game_slug'', ''slug''] ''app'';
                exe = field_or game ''exe'' JNull;
                programs = (if jbool exe
                  then [\<lparr>rp_name = app_name, rp_exe = json_str exe, rp_args = as_args (field_or game ''args'' JNull),
                         rp_category = ''Game''\<rparr>]
                  else [])
            in \<lparr>ir_recipe = Some
                   \<lparr>rc_app_name = app_name, rc_app_id = first_of script [''game_slug'', ''slug''] [],
                    rc_categories = [''Game''],
                    rc_barrel = \<lparr>rb_runner = RUNNER_WINE, rb_arch = import_arch wine_cfg, rb_verbs = cv_verbs cv,
                      rb_dxvk = as_bool (field_or wine_cfg ''dxvk'' JNull), rb_vkd3d = as_bool (field_or wine_cfg ''vkd3d'' JNull),
                      rb_env = env\<rparr>,
                    rc_files = files, rc_steps = cv_steps cv, rc_programs = programs, rc_prereqs = ''auto''\<rparr>,
                ir_warnings = cv_warnings cv @ (if jbool exe then [] else [NoGameExe]),
                ir_rejected = cv_rejected cv\<rparr>))"

section \<open>The YAML edges\<close>

definition METADATA_KEYS :: "string list" where
  "METADATA_KEYS = [''name'', ''game_slug'', ''slug'', ''version'', ''runner'', ''description'']"

definition merge_metadata :: "(string \<times> json) list \<Rightarrow> (string \<times> json) list \<Rightarrow> (string \<times> json) list" where
  "merge_metadata inner data =
     inner @ concat (map (\<lambda>k. case map_of data k of Some v \<Rightarrow> if map_of inner k = None then [(k, v)] else [] | None \<Rightarrow> []) METADATA_KEYS)"

definition load_script :: "(string \<Rightarrow> py_exn + json) \<Rightarrow> string \<Rightarrow> (string \<times> json) list read" where
  "load_script safe_load s =
     res_bind (safe_load s) (\<lambda>data.
       case data of
         JObj kvs \<Rightarrow> (case map_of kvs ''script'' of Some (JObj inner) \<Rightarrow> Inr (merge_metadata inner kvs) | _ \<Rightarrow> Inr kvs)
       | _ \<Rightarrow> Inl (Py (ValueError ''not a Lutris install script (expected a YAML mapping)'')))"

definition recipe_loads :: "(string \<Rightarrow> py_exn + json) \<Rightarrow> string \<Rightarrow> recipe read" where
  "recipe_loads safe_load s =
     res_bind (safe_load s) (\<lambda>data.
       case data of JObj kvs \<Rightarrow> recipe_from_dict data
       | _ \<Rightarrow> Inl (Py (ValueError ''not a helm.recipe (expected a YAML mapping)'')))"

definition recipe_dumps :: "(json \<Rightarrow> string) \<Rightarrow> recipe \<Rightarrow> string" where
  "recipe_dumps safe_dump r = safe_dump (recipe_to_dict r)"

lemma recipe_file_roundtrip:
  assumes "\<And>j. safe_load (safe_dump j) = Inr j" "files_exclusive r"
  shows "recipe_loads safe_load (recipe_dumps safe_dump r) = Inr r"
  using recipe_json [OF assms(2)] by (simp add: recipe_loads_def recipe_dumps_def assms(1) recipe_to_dict_def)

lemma merge_metadata_get:
  "map_of (merge_metadata inner data) k =
     (case map_of inner k of Some v \<Rightarrow> Some v | None \<Rightarrow> if k \<in> set METADATA_KEYS then map_of data k else None)"
proof -
  have "map_of (concat (map (\<lambda>k. case map_of data k of Some v \<Rightarrow> if map_of inner k = None then [(k, v)] else [] | None \<Rightarrow> []) ks)) k =
      (if k \<in> set ks \<and> map_of inner k = None then map_of data k else None)" for ks
    by (induction ks) (auto simp: map_add_def split: option.splits)
  then show ?thesis
    unfolding merge_metadata_def map_of_append map_add_def by (auto split: option.splits)
qed

section \<open>Lemmas\<close>

definition malformed :: "json \<Rightarrow> bool" where
  "malformed d = (length (as_mapping d) \<noteq> 1)"

definition is_manual :: "recipe_step \<Rightarrow> bool" where
  "is_manual s = (rs_action s = ''manual'')"

text \<open>What one directive adds.\<close>

definition accounted :: "json list \<Rightarrow> notice list \<Rightarrow> conversion \<Rightarrow> bool" where
  "accounted ds w0 cv =
     (list_all (\<lambda>s. rs_action s \<in> set VALID_ACTIONS) (cv_steps cv) \<and> distinct (cv_verbs cv) \<and>
      length (cv_steps cv) + length (cv_rejected cv) + length (filter malformed ds) = length ds \<and>
      length (cv_warnings cv) = length w0 + length (filter is_manual (cv_steps cv)) + length (filter malformed ds))"

lemma native_actions:
  "map_of NATIVE_DIRECTIVES n = Some a \<Longrightarrow> a \<in> set VALID_ACTIONS \<and> a \<noteq> ''manual''"
  "map_of NATIVE_TASKS n = Some a \<Longrightarrow> a \<in> set VALID_ACTIONS \<and> a \<noteq> ''manual''"
proof -
  have "list_all (\<lambda>kv. snd kv \<in> set VALID_ACTIONS \<and> snd kv \<noteq> ''manual'') (NATIVE_DIRECTIVES @ NATIVE_TASKS)"
    by code_simp
  then show "map_of NATIVE_DIRECTIVES n = Some a \<Longrightarrow> a \<in> set VALID_ACTIONS \<and> a \<noteq> ''manual''"
    "map_of NATIVE_TASKS n = Some a \<Longrightarrow> a \<in> set VALID_ACTIONS \<and> a \<noteq> ''manual''"
    unfolding list_all_iff by (metis Un_iff map_of_SomeD set_append snd_conv)+
qed

lemma manual_valid: "''manual'' \<in> set VALID_ACTIONS"
  by code_simp

lemma distinct_add_verbs: "distinct vs \<Longrightarrow> distinct (fold (\<lambda>verb vs. if verb \<in> set vs then vs else vs @ [verb]) verbs vs)"
  by (induction verbs arbitrary: vs) auto

lemma accounted_native:
  assumes "accounted ds w0 cv" "length (as_mapping d) = 1" "a \<in> set VALID_ACTIONS" "a \<noteq> ''manual''"
  shows "accounted (ds @ [d]) w0 (add_step a p cv)"
  using assms by (simp add: accounted_def add_step_def is_manual_def malformed_def)

lemma accounted_manual:
  assumes "accounted ds w0 cv" "length (as_mapping d) = 1"
  shows "accounted (ds @ [d]) w0 (manual_step n p (warn w cv))"
  using assms manual_valid by (simp add: accounted_def manual_step_def add_step_def warn_def is_manual_def malformed_def)

lemma accounted_verbs: "accounted ds w0 cv \<Longrightarrow> accounted ds w0 (add_verbs vs cv)"
  by (simp add: accounted_def add_verbs_def distinct_add_verbs)

lemma accounted_native_verbs:
  assumes "accounted ds w0 cv" "length (as_mapping d) = 1" "a \<in> set VALID_ACTIONS" "a \<noteq> ''manual''"
  shows "accounted (ds @ [d]) w0 (add_verbs vs (add_step a p cv))"
  by (rule accounted_verbs [OF accounted_native [OF assms]])

lemma accounted_task:
  assumes "accounted ds w0 cv" "length (as_mapping d) = 1"
  shows "accounted (ds @ [d]) w0 (convert_task params cv)"
proof -
  have rej: "accounted (ds @ [d]) w0 (cv\<lparr>cv_rejected := cv_rejected cv @ [x]\<rparr>)" for x
    using assms by (simp add: accounted_def malformed_def)
  show ?thesis
    unfolding convert_task_def Let_def
    using native_actions(2) [of "strip (json_str (field_or params ''name'' (JStr [])))"]
    by (auto split: option.split intro: rej accounted_manual accounted_native_verbs accounted_native assms)
qed

lemma accounted_directive:
  assumes "accounted ds w0 cv"
  shows "accounted (ds @ [d]) w0 (convert_directive d cv)"
proof (cases "malformed d")
  case True
  have "accounted (ds @ [d]) w0 (warn (MalformedDirective d) cv)"
    using assms True by (simp add: accounted_def warn_def)
  moreover have "convert_directive d cv = warn (MalformedDirective d) cv"
    using True unfolding convert_directive_def malformed_def by (auto split: list.splits)
  ultimately show ?thesis by simp
next
  case False
  then have nm: "length (as_mapping d) = 1" by (simp add: malformed_def)
  from False obtain n raw where d: "as_mapping d = [(n, raw)]"
    unfolding malformed_def by (metis (no_types) length_0_conv length_Suc_conv One_nat_def surj_pair)
  show ?thesis
    unfolding convert_directive_def d Let_def list.case prod.case
    using native_actions(1) [of n]
    by (auto split: option.split intro: accounted_manual accounted_task accounted_native assms nm)
qed

lemma accounted_fold: "accounted ds w0 cv \<Longrightarrow> accounted (ds @ ds') w0 (fold convert_directive ds' cv)"
proof (induction ds' arbitrary: ds cv)
  case (Cons d ds')
  have "accounted ((ds @ [d]) @ ds') w0 (fold convert_directive ds' (convert_directive d cv))"
    by (rule Cons.IH [OF accounted_directive [OF Cons.prems]])
  then show ?case by simp
qed simp

lemma json_repr_nonempty: "jbool v \<Longrightarrow> json_str v \<noteq> []"
  by (cases v) (auto simp: json_str_def nat_str_digits int_str_def)

lemma first_of_nonempty: "dflt \<noteq> [] \<Longrightarrow> first_of kvs keys dflt \<noteq> []"
  unfolding first_of_def using json_repr_nonempty by (auto split: list.split simp: filter_eq_Cons_iff)


lemma start_accounted: "accounted [] w0 \<lparr>cv_steps = [], cv_verbs = [], cv_warnings = w0, cv_rejected = []\<rparr>"
  by (simp add: accounted_def)


end
