(* ===== verification/Spec2Isabelle.thy ===== *)
theory Spec2Isabelle
  imports InstallEngine StateStore DiskMount DiskProvision ChrootPrep AtomFile IniFile ShellConf Paths
    UsersPending UsersCommands Privilege Network NetworkService SystemService Sysctl
    Assemble Firewall Sshd Eselect Mirrors Desktop Registry
    SoftwareService Stage3Service DiskService BootService UsersService
    KeyringDaemon DrydockPlan DrydockImport
begin

text \<open>
  GeST administers and installs a Gentoo system. Its logic is Python under \<open>src/gest/core\<close>;
  the services under \<open>src/gest/backend\<close> are D-Bus objects that run as root, check polkit and
  call the core; the user interfaces under \<open>src/gest/tui\<close> and \<open>src/gest/qt\<close> only
  present it. This development models the core, the root services and the keyring
  daemon: what they write into
  configuration files, which commands they run and in what order, what they accept and what they
  leave behind when something fails.

  Shared ground.
    \<^item> Prelude: the result type \<open>'a res\<close> (an exception is \<open>Inl\<close>), its combinators and
      the generic list lemmas. PyStr, StrFacts, Regex: the Python string methods and the anchored
      regular expressions, on strings of characters below 256; a longer code point in a literal
      of the source (the dash in the managed-by comments) is its UTF-8 bytes.
    \<^item> KeyedText: the contract of a configuration file format (looking up after storing), with
      what a sequence of edits does; AtomFile, Fstab, ShellConf and the netifrc format of Network
      are its interpretations.
    \<^item> Exec (\<open>core/exec\<close>): an executor is a function on a world that returns what a process
      printed and how it ended; process creation is a parameter. Its contract
      (\<open>logged_executor\<close>) has the recording executor and the chroot executor as instances.
    \<^item> AtomicWrite (\<open>core/install/write.py\<close> and the same idiom elsewhere): a file written
      through a temporary file, with a fault at any of its operations.
    \<^item> Service, ToolService (\<open>backend/audit.py\<close>, the handler frame of every service): method
      lookup, authorization, errors as replies, the audit record. \<open>root_service\<close> is the
      contract of a service body, whose instances are the services modelled below.

  The installer.
    \<^item> InstallEngine (\<open>core/install/engine.py\<close>, \<open>step.py\<close>, \<open>context.py\<close>): the run
      loop; a step is a record of functions on the context. Steps start in order, a retry hook with
      bounded retries makes the loop end, the chroot is torn down exactly if it was opened.
    \<^item> StateStore (\<open>StateStore\<close> of \<open>context.py\<close>): which steps are done, across the reboot
      of the live system.
    \<^item> InstallPlan, Assemble (\<open>core/install/plan.py\<close>, \<open>capabilities.py\<close>,
      \<open>licensing.py\<close>, \<open>assemble.py\<close>): the plan and its assembly from what the user
      selected; an assembled plan is well formed, its pipelines build, it holds no secret.
    \<^item> DiskCommands, DiskProvision, DiskMount, Fstab (\<open>core/disk\<close>): partitioning, safety
      checks, mounting, the target's fstab. ChrootPrep (\<open>core/chroot\<close>): the
      pseudo-filesystems of the target and their teardown.
    \<^item> Stage3 (\<open>core/stage3\<close>): the mirror's index, the digests and the integrity gate.
    \<^item> KernelBuild, Bootloader, BootConfig (\<open>core/kernel\<close>, \<open>core/bootloader\<close>,
      \<open>core/install/gpu.py\<close>): the pipelines that build the kernel and install GRUB, and the
      edits of \<open>/etc/default/grub\<close>. GpuDetect (\<open>core/hwflags\<close>): the graphics setup from
      \<open>lspci\<close>. Mirrors (\<open>core/portage/mirrors.py\<close>), Desktop
      (\<open>core/install/desktop.py\<close>).
    \<^item> InstallWorld, BaseSteps, BootSteps, ConfigSteps, Registry
      (\<open>core/install/registry.py\<close>): every step of an install, with its body and its resume
      check, as an action on a machine (files, links, directories, mount points, completed steps, a
      log of commands), and the two registries that order them. What an action keeps, and which
      commands it runs, is derived by one rule per combinator; \<open>frame\<close> is the contract of a view
      of the machine that file operations respect, with the log, one path and everything outside
      the target root as its instances. The stage3 is unpacked only behind the integrity gate, the
      tree sync is bounded, the file-writing steps stay inside the target and satisfy their own
      resume checks, \<open>make.conf\<close> means what the plan says, and the registry opens the chroot
      once, before any step that needs it.
  Administration.
    \<^item> Paths, AtomFile, IniFile, ShellConf (\<open>core/rootpath.py\<close>, \<open>core/portage\<close>): where a
      file of a target root lies, and the three formats of portage's files.
    \<^item> UsersCommands, UsersPending (\<open>core/users\<close>): account files, command lines, staged changes.
    \<^item> Privilege (\<open>core/privilege\<close>, \<open>backend/privilege.py\<close>): sudo and doas policies, and
      the service that installs only what its checker accepted.
    \<^item> Network, IpAddress, NetworkService (\<open>core/network\<close>, \<open>backend/network.py\<close>).
    \<^item> Settings, SystemService (\<open>core/system\<close>, \<open>backend/system.py\<close>): host name, locale,
      time zone, console.
    \<^item> Sysctl, Firewall, Sshd, Eselect: a codec each and the service over it.
    \<^item> Streamer, KernelService, Stage3Service, SoftwareCommands, SoftwareService
      (\<open>backend/kernel.py\<close>, \<open>stage3.py\<close>, \<open>service.py\<close>, \<open>core/software\<close>): long
      operations, as machines driven by the events of the main loop. The output of a process reaches
      the clients line by line, a run ends with one signal, the stage3 is unpacked only when it
      was verified, and no two package operations are active at once.
    \<^item> DiskService, BootService, UsersService (\<open>backend/disk.py\<close>, \<open>bootloader.py\<close>,
      \<open>users.py\<close>): the services over the commands of the installer.

  Secrets.
    \<^item> Base64, Json: the encodings of the vault file, with their round trips; texts are ASCII.
    \<^item> KeychainModel, Vault (\<open>core/keychain\<close>): the payload and the sealed file. The key
      derivation, the cipher and the random source are the fields of \<open>primitives\<close>, with their
      documented behaviour as hypotheses (decryption inverts encryption; what opens was sealed
      under that key). A session is a list of calls, also failing ones: what was last saved can be
      opened, nothing else opens, and a locked vault gives nothing away.
    \<^item> Keyring, KeyringStore, KeyringDaemon (\<open>gest/keyringd\<close>): object paths, sessions,
      the operations on the vault and the bus objects. After every call, file and memory agree.
  Drydock.
    \<^item> Drydock (\<open>core/drydock/model.py\<close>, \<open>recipe.py\<close>, \<open>barrels.py\<close>,
      \<open>materialize.py\<close>, \<open>recipe_lint.py\<close>): Wine prefixes, recipes, their store and the linter.
    \<^item> DrydockPlan (\<open>interpreter.py\<close>, \<open>executor.py\<close>, \<open>launch.py\<close>, \<open>prereq.py\<close>,
      \<open>maintenance.py\<close>): the compiler from recipes to operations, the run loop over a runner
      that is a parameter, and the command of a launch.
    \<^item> DrydockImport (\<open>lutris_import.py\<close>, \<open>recipe_store.py\<close>): the importer of Lutris scripts.

  How state and operations correspond. A Python function is a definition of the same name (with a
  prefix where two modules share one); a dataclass is a record; an exception is \<open>Inl\<close>; a file
  system is a map from paths to texts and modes, and each possible failure of a file operation is
  an argument (\<open>write_op \<Rightarrow> bool\<close>), so the lemmas hold for every pattern of failures. What
  the code reads from the machine (processes, clocks, directory listings, random names, tool
  output, hash functions, polkit) is an argument of the definition that uses it.

  Loops. All loops are structural except the run loop of the engine, which can run forever when its
  hook keeps retrying: it has fuel, and \<open>run_install_returns_bounded\<close> shows that fuel for the
  steps and the hook's retries is enough. Retry loops of the code (five fetches) recurse on their
  counter. The JSON reader has the length of its text as fuel, which \<open>loads_dumps\<close> shows to be
  enough for every text the code writes, and the loop that numbers a repeated program id the number
  of ids taken (\<open>materialize_total\<close>).

  What the groups of lemmas show. Round trips (what is rendered is parsed back), refinement (an
  edit of a text is the update of a map), confinement and vetting of every root service, exactness
  of validators (a pipeline exists exactly for the stated requests), atomicity of writes, order and
  termination of the installer. Lemmas named in the findings of the manifest show where the code
  departs from what it says.

  Not modelled. The Textual and Qt interfaces and the panel (presentation over the core), the
  parts of the software management that walk the portage API, the launchers of outside programs
  (remote desktop, libvirt), desktop customisation, the C++ components. Characters of 256 and
  above in user input and byte decoding errors are outside the string model.
\<close>

end
